(* ===== verification/Prelude.thy ===== *)
theory Prelude
  imports Complex_Main "HOL-Library.Char_ord" "HOL-Library.List_Lexorder"
begin

text \<open>
  The vocabulary the components share: results with errors as values, JavaScript string
  operations, the \<open>Set\<close> and \<open>Array\<close> idioms of the code, UTC day arithmetic on
  milliseconds, and a contract (locale \<open>kept\<close>) for every state machine whose steps keep
  an invariant.

  Strings are HOL strings, that is sequences of 8-bit characters; case mapping is the ASCII
  one. A database table is the list of its rows, a \<open>where\<close> clause the predicate it denotes.
\<close>

named_theorems result_simps \<open>unfolding of the error monad\<close>
named_theorems js_simps \<open>JavaScript string and array idioms\<close>

section \<open>Results: every throw is a value\<close>

type_synonym ('e, 'a) result = "'e + 'a"

definition bind_result :: "('e, 'a) result \<Rightarrow> ('a \<Rightarrow> ('e, 'b) result) \<Rightarrow> ('e, 'b) result" where
  "bind_result r f = (case r of Inl e \<Rightarrow> Inl e | Inr x \<Rightarrow> f x)"

definition throw_when :: "bool \<Rightarrow> 'e \<Rightarrow> ('e, unit) result" where
  "throw_when b e = (if b then Inl e else Inr ())"

text \<open>What a successful request leaves, and \<open>other\<close> after a failed one.\<close>

definition outcome :: "('e, 'a) result \<Rightarrow> 'a \<Rightarrow> 'a" where
  "outcome r other = (case r of Inl _ \<Rightarrow> other | Inr x \<Rightarrow> x)"

lemma outcome: "isl r = False \<Longrightarrow> r = Inr (outcome r other)"
  by (cases r) (simp_all add: outcome_def)

lemma bind_result_Inl [simp, result_simps]: "bind_result (Inl e) f = Inl e"
  by (simp add: bind_result_def)

lemma bind_result_Inr [simp, result_simps]: "bind_result (Inr x) f = f x"
  by (simp add: bind_result_def)

lemma bind_result_eq_Inr: "bind_result r f = Inr y \<longleftrightarrow> (\<exists>x. r = Inr x \<and> f x = Inr y)"
  by (cases r) simp_all

lemma bind_result_eq_Inl: "bind_result r f = Inl e \<longleftrightarrow> r = Inl e \<or> (\<exists>x. r = Inr x \<and> f x = Inl e)"
  by (cases r) auto

lemma throw_when_eq_Inr [simp]: "throw_when b e = Inr u \<longleftrightarrow> \<not> b"
  by (simp add: throw_when_def)

lemma throw_when_eq_Inl [simp]: "throw_when b e = Inl e' \<longleftrightarrow> b \<and> e' = e"
  by (auto simp: throw_when_def)

lemma throw_when_True [simp]: "throw_when True e = Inl e"
  and throw_when_False [simp]: "throw_when False e = Inr ()"
  by (simp_all add: throw_when_def)

lemmas result_elims = bind_result_eq_Inr bind_result_eq_Inl

text \<open>
  A handler is a chain of guards that each end it with an error. These equations read off what a
  handler that succeeded has passed.
\<close>

named_theorems handler_simps \<open>what the success of a guarded handler says\<close>

lemma guard_ok [handler_simps]: "(if c then Inl e else r) = Inr x \<longleftrightarrow> \<not> c \<and> r = Inr x"
  by simp

lemma lookup_ok [handler_simps]: "(case v of None \<Rightarrow> Inl e | Some y \<Rightarrow> f y) = Inr x \<longleftrightarrow> (\<exists>y. v = Some y \<and> f y = Inr x)"
  by (cases v) simp_all

lemma attempt_ok [handler_simps]: "(case r of Inl _ \<Rightarrow> Inl e | Inr y \<Rightarrow> f y) = Inr x \<longleftrightarrow> (\<exists>y. r = Inr y \<and> f y = Inr x)"
  by (cases r) simp_all

declare bind_result_eq_Inr [handler_simps] sum.inject [handler_simps] Let_def [handler_simps]

text \<open>A \<open>for\<close> loop whose body may throw, threading an accumulator.\<close>

fun fold_result :: "('a \<Rightarrow> 's \<Rightarrow> ('e, 's) result) \<Rightarrow> 'a list \<Rightarrow> 's \<Rightarrow> ('e, 's) result" where
  "fold_result f [] s = Inr s"
| "fold_result f (x # xs) s = bind_result (f x s) (fold_result f xs)"

fun map_result :: "('a \<Rightarrow> ('e, 'b) result) \<Rightarrow> 'a list \<Rightarrow> ('e, 'b list) result" where
  "map_result f [] = Inr []"
| "map_result f (x # xs) = bind_result (f x) (\<lambda>y. bind_result (map_result f xs) (\<lambda>ys. Inr (y # ys)))"

lemma map_result_length: "map_result f xs = Inr ys \<Longrightarrow> length ys = length xs"
  by (induction xs arbitrary: ys) (auto simp: result_elims)

lemma map_result_nth:
  "map_result f xs = Inr ys \<Longrightarrow> i < length xs \<Longrightarrow> f (xs ! i) = Inr (ys ! i)"
  by (induction xs arbitrary: ys i) (auto simp: result_elims nth_Cons split: nat.splits)

lemma map_result_all: "map_result f xs = Inr ys \<Longrightarrow> y \<in> set ys \<Longrightarrow> \<exists>x\<in>set xs. f x = Inr y"
  by (induction xs arbitrary: ys) (auto simp: result_elims)

lemma map_result_zip:
  assumes "map_result f (zip ns xs) = Inr ys" and "y \<in> set ys"
  shows "\<exists>n. \<exists>x\<in>set xs. f (n, x) = Inr y"
proof -
  from map_result_all [OF assms] obtain z where "z \<in> set (zip ns xs)" "f z = Inr y" by blast
  then show ?thesis by (metis prod.collapse set_zip_rightD)
qed

lemma fold_result_invariant:
  assumes "fold_result f xs s = Inr s'" and "P s"
    and "\<And>x t t'. x \<in> set xs \<Longrightarrow> f x t = Inr t' \<Longrightarrow> P t \<Longrightarrow> P t'"
  shows "P s'"
  using assms by (induction xs arbitrary: s) (auto simp: result_elims)

section \<open>JavaScript strings\<close>

definition is_space :: "char \<Rightarrow> bool" where
  "is_space c \<longleftrightarrow> of_char c \<in> {9, 10, 11, 12, 13, 32, 160 :: nat}"

definition trim_start :: "string \<Rightarrow> string" where
  "trim_start s = dropWhile is_space s"

definition trim :: "string \<Rightarrow> string" where
  "trim s = rev (trim_start (rev (trim_start s)))"

definition is_lower :: "char \<Rightarrow> bool" where
  "is_lower c \<longleftrightarrow> 97 \<le> (of_char c :: nat) \<and> (of_char c :: nat) \<le> 122"

definition is_upper :: "char \<Rightarrow> bool" where
  "is_upper c \<longleftrightarrow> 65 \<le> (of_char c :: nat) \<and> (of_char c :: nat) \<le> 90"

definition is_digit :: "char \<Rightarrow> bool" where
  "is_digit c \<longleftrightarrow> 48 \<le> (of_char c :: nat) \<and> (of_char c :: nat) \<le> 57"

definition to_lower_char :: "char \<Rightarrow> char" where
  "to_lower_char c = (if is_upper c then char_of ((of_char c :: nat) + 32) else c)"

definition to_upper_char :: "char \<Rightarrow> char" where
  "to_upper_char c = (if is_lower c then char_of ((of_char c :: nat) - 32) else c)"

definition to_lower :: "string \<Rightarrow> string" where "to_lower s = map to_lower_char s"
definition to_upper :: "string \<Rightarrow> string" where "to_upper s = map to_upper_char s"

lemmas ascii_simps = to_lower_def to_upper_def to_lower_char_def to_upper_char_def
  is_lower_def is_upper_def of_char_def char_of_def

definition is_alnum :: "char \<Rightarrow> bool" where
  "is_alnum c \<longleftrightarrow> is_lower c \<or> is_upper c \<or> is_digit c"

definition starts_with :: "string \<Rightarrow> string \<Rightarrow> bool" where
  "starts_with p s \<longleftrightarrow> take (length p) s = p"

fun contains_text :: "string \<Rightarrow> string \<Rightarrow> bool" where
  "contains_text p [] \<longleftrightarrow> p = []"
| "contains_text p (c # cs) \<longleftrightarrow> starts_with p (c # cs) \<or> contains_text p cs"

fun split_on :: "char \<Rightarrow> string \<Rightarrow> string list" where
  "split_on c [] = [[]]"
| "split_on c (x # xs) =
     (if x = c then [] # split_on c xs
      else (case split_on c xs of [] \<Rightarrow> [[x]] | p # ps \<Rightarrow> (x # p) # ps))"

fun join :: "string \<Rightarrow> string list \<Rightarrow> string" where
  "join sep [] = []"
| "join sep [s] = s"
| "join sep (s # t # ts) = s @ sep @ join sep (t # ts)"

text \<open>\<open>String(n)\<close> of an integer.\<close>

fun digits_of_nat :: "nat \<Rightarrow> string" where
  "digits_of_nat n =
     (if n < 10 then [char_of (48 + n)] else digits_of_nat (n div 10) @ [char_of (48 + n mod 10)])"

declare digits_of_nat.simps [simp del]

fun digits_value :: "nat \<Rightarrow> string \<Rightarrow> nat" where
  "digits_value n [] = n"
| "digits_value n (c # cs) = digits_value (10 * n + (of_char c - 48)) cs"

definition int_of_digits :: "string \<Rightarrow> int" where
  "int_of_digits s = int (digits_value 0 s)"

text \<open>\<open>Number.parseInt(s, 10)\<close>; \<open>None\<close> is \<open>NaN\<close>.\<close>

definition parse_int :: "string \<Rightarrow> int option" where
  "parse_int s =
     (let t = trim_start s;
          signed = (t \<noteq> [] \<and> (hd t = CHR ''-'' \<or> hd t = CHR ''+''));
          ds = takeWhile is_digit (if signed then tl t else t)
      in if ds = [] then None
         else Some (if signed \<and> hd t = CHR ''-'' then - int_of_digits ds else int_of_digits ds))"

text \<open>\<open>/^[^\s@]+@[^\s@]+\.[^\s@]+$/\<close>\<close>

definition is_email :: "string \<Rightarrow> bool" where
  "is_email s \<longleftrightarrow>
     (case split_on CHR ''@'' s of
        [l, d] \<Rightarrow> l \<noteq> [] \<and> list_all (\<lambda>c. \<not> is_space c) s \<and> CHR ''.'' \<in> set (butlast (tl d))
      | _ \<Rightarrow> False)"

definition string_of_int :: "int \<Rightarrow> string" where
  "string_of_int i = (if i < 0 then CHR ''-'' # digits_of_nat (nat (- i)) else digits_of_nat (nat i))"

lemma split_on_nonempty [simp]: "split_on c s \<noteq> []"
  by (induction s) (auto split: list.splits)

lemma split_on_sep: "c \<notin> set a \<Longrightarrow> split_on c (a @ c # b) = a # split_on c b"
  by (induction a) auto

lemma split_on_none: "c \<notin> set a \<Longrightarrow> split_on c a = [a]"
  by (induction a) auto

lemma split_on_hd: "split_on c v = a # ps \<Longrightarrow> \<exists>rest. v = a @ rest"
  by (induction v arbitrary: a ps) (auto split: if_splits list.splits)

lemma split_on_two: "split_on c v = a # b # ps \<Longrightarrow> \<exists>rest. v = a @ c # b @ rest"
proof (induction v arbitrary: a)
  case (Cons x v)
  show ?case
  proof (cases "x = c")
    case True
    with Cons.prems split_on_hd [of c v b ps] show ?thesis by auto
  next
    case False
    with Cons.prems obtain p where "split_on c v = p # b # ps" "a = x # p"
      by (auto split: list.splits)
    with Cons.IH show ?thesis by fastforce
  qed
qed simp

lemma trim_start_no_space: "trim_start s = [] \<or> \<not> is_space (hd (trim_start s))"
  unfolding trim_start_def using hd_dropWhile by blast

lemma length_trim: "length (trim s) \<le> length s"
  unfolding trim_def trim_start_def
  by (metis length_rev length_dropWhile_le order_trans)

section \<open>\<open>Set\<close> and \<open>Array\<close> idioms\<close>

text \<open>\<open>[...new Set(xs)]\<close>: duplicates removed, first occurrences kept in order.\<close>

fun uniq :: "'a list \<Rightarrow> 'a list" where
  "uniq [] = []"
| "uniq (x # xs) = x # filter (\<lambda>y. y \<noteq> x) (uniq xs)"

lemma set_uniq [simp]: "set (uniq xs) = set xs"
  by (induction xs) auto

lemma distinct_uniq [simp]: "distinct (uniq xs)"
  by (induction xs) auto

lemma uniq_distinct: "distinct xs \<Longrightarrow> uniq xs = xs"
  by (induction xs) (auto simp: filter_id_conv)

lemma uniq_length_eq: "length (uniq xs) = length xs \<longleftrightarrow> distinct xs"
  by (metis card_distinct distinct_card distinct_uniq set_uniq uniq_distinct)

lemma uniq_idem [simp]: "uniq (uniq xs) = uniq xs"
  by (simp add: uniq_distinct)

lemma map_filter_member: "x \<in> set (List.map_filter f xs) \<longleftrightarrow> (\<exists>a\<in>set xs. f a = Some x)"
  by (induction xs) (auto simp: List.map_filter_simps split: option.splits)

text \<open>\<open>find\<close>, \<open>findFirst\<close>: the first row that satisfies the predicate.\<close>

lemma find_SomeD: "find P xs = Some x \<Longrightarrow> x \<in> set xs \<and> P x"
  by (induction xs) (auto split: if_splits)

lemma find_append: "find P (xs @ ys) = (case find P xs of None \<Rightarrow> find P ys | Some x \<Rightarrow> Some x)"
  by (induction xs) auto

lemma find_None_iff': "find P xs = None \<longleftrightarrow> (\<forall>x\<in>set xs. \<not> P x)"
  by (induction xs) auto

text \<open>
  \<open>findUnique\<close> on a table whose key is unique: the row found is the only one with that key.
\<close>

lemma find_unique:
  "distinct (map k xs) \<Longrightarrow> x \<in> set xs \<Longrightarrow> find (\<lambda>y. k y = k x) xs = Some x"
  by (induction xs) (auto simp: image_iff)

text \<open>An \<open>updateMany\<close> leaves the rows of another scope alone.\<close>

lemma filter_absorb: "(\<And>x. x \<in> set xs \<Longrightarrow> Q x \<Longrightarrow> P x) \<Longrightarrow> filter Q (filter P xs) = filter Q xs"
  by (induction xs) auto

lemma unique_key:
  "distinct (map k rows) \<Longrightarrow> x \<in> set rows \<Longrightarrow> y \<in> set rows \<Longrightarrow> k x = k y \<Longrightarrow> x = y"
  by (auto simp: distinct_map inj_on_def)

lemma filter_map_scope:
  assumes "distinct (map k rows)" and "\<And>r. r \<in> set rows \<Longrightarrow> g r \<noteq> r \<Longrightarrow> \<exists>c\<in>set rows. k c = k r \<and> \<not> Q c"
    and "\<And>r. Q (g r) = Q r"
  shows "filter Q (map g rows) = filter Q rows"
proof -
  have "g r = r" if "r \<in> set rows" "Q r" for r
    using assms(2) [OF that(1)] unique_key [OF assms(1) that(1)] that(2) by metis
  moreover have "filter Q (map g rows) = map g (filter Q rows)"
    by (simp add: filter_map o_def assms(3))
  moreover have "map g (filter Q rows) = filter Q rows" if "\<And>r. r \<in> set rows \<Longrightarrow> Q r \<Longrightarrow> g r = r"
    using that by (intro map_idI) auto
  ultimately show ?thesis by simp
qed

text \<open>\<open>count\<close>: the number of rows that match.\<close>

definition count_rows :: "('r \<Rightarrow> bool) \<Rightarrow> 'r list \<Rightarrow> nat" where
  "count_rows P rows = length (filter P rows)"

lemma count_rows_0 [simp]: "count_rows P rows = 0 \<longleftrightarrow> (\<forall>r\<in>set rows. \<not> P r)"
  by (auto simp: count_rows_def filter_empty_conv)

lemma find_sorted: "find P xs = Some t \<Longrightarrow> sorted (map f xs) \<Longrightarrow> u \<in> set xs \<Longrightarrow> P u \<Longrightarrow> f t \<le> f u"
  by (induction xs) (auto split: if_splits)

lemma find_filter: "find P xs = Some t \<Longrightarrow> Q t \<Longrightarrow> find P (filter Q xs) = Some t"
  by (induction xs) (auto split: if_splits)

text \<open>
  \<open>orderBy: [{ f: "asc" }, { g: "asc" }]\<close>: the first match has the least key, first by \<open>f\<close>, then by \<open>g\<close>.
\<close>

lemma find_order_by:
  assumes "find P (sort_key f (sort_key g xs)) = Some t" and "u \<in> set xs" and "P u"
  shows "f t < f u \<or> f t = f u \<and> g t \<le> g u"
proof (cases "f t = f u")
  case True
  have "filter (\<lambda>x. f x = f u) (sort_key f (sort_key g xs)) = filter (\<lambda>x. f x = f u) (sort_key g xs)"
    using sort_key_stable [of f "f u" "sort_key g xs"] by simp
  with find_filter [OF assms(1), of "\<lambda>x. f x = f u"] True
  have "find P (filter (\<lambda>x. f x = f u) (sort_key g xs)) = Some t" by simp
  then have "g t \<le> g u"
    by (rule find_sorted) (use assms(2,3) in \<open>auto intro: sorted_filter\<close>)
  with True show ?thesis by simp
next
  case False
  have "f t \<le> f u"
    using assms by (intro find_sorted [OF assms(1)]) auto
  with False show ?thesis by simp
qed

text \<open>
  \<open>count({ where: { id: { in: ids } } }) === ids.length\<close> on a table with unique ids: every id is there.
\<close>

lemma count_covers:
  assumes "distinct (map k rows)" and "distinct ids" and "count_rows (\<lambda>r. P r \<and> k r \<in> set ids) rows = length ids"
    and "i \<in> set ids"
  shows "\<exists>r\<in>set rows. P r \<and> k r = i"
proof -
  let ?F = "filter (\<lambda>r. P r \<and> k r \<in> set ids) rows"
  have "distinct (map k ?F)" using assms(1) by (rule distinct_map_filter)
  then have "card (set (map k ?F)) = length ?F" by (simp add: distinct_card del: set_map)
  also have "\<dots> = card (set ids)" using assms(2,3) by (simp add: count_rows_def distinct_card)
  finally have "set (map k ?F) = set ids"
    by (intro card_subset_eq) auto
  with assms(4) have "i \<in> k ` set ?F" by (metis set_map)
  then show ?thesis by auto
qed

section \<open>Dates as milliseconds since the epoch\<close>

type_synonym time = int

definition DAY_MS :: int where "DAY_MS = 86400000"

definition utc_midnight :: "time \<Rightarrow> time" where
  "utc_midnight t = (t div DAY_MS) * DAY_MS"

text \<open>\<open>getUTCDay\<close>: 1 January 1970 was a Thursday (4), Sunday is 0.\<close>

definition utc_day_of_week :: "time \<Rightarrow> int" where
  "utc_day_of_week t = (t div DAY_MS + 4) mod 7"

lemma utc_midnight_le: "utc_midnight t \<le> t" and utc_midnight_gt: "t < utc_midnight t + DAY_MS"
  unfolding utc_midnight_def DAY_MS_def by (simp_all add: minus_mod_eq_div_mult [symmetric])

lemma utc_midnight_idem [simp]: "utc_midnight (utc_midnight t) = utc_midnight t"
  by (simp add: utc_midnight_def DAY_MS_def)

section \<open>State machines that keep an invariant\<close>

text \<open>
  The contract of every stateful component: its operations, as one step function over its
  events, keep an invariant. Runs of any length then keep it, and so does every prefix.
\<close>

locale kept =
  fixes step :: "'e \<Rightarrow> 's \<Rightarrow> 's"
    and inv :: "'s \<Rightarrow> bool"
  assumes step_inv: "inv s \<Longrightarrow> inv (step e s)"
begin

lemma run_inv: "inv s \<Longrightarrow> inv (fold step es s)"
  by (induction es arbitrary: s) (auto intro: step_inv)

end

end
