(* ===== verification/JsValue.thy ===== *)
theory JsValue
  imports Prelude
begin

text \<open>
  The dynamic values the handlers receive as \<open>unknown\<close> (a parsed JSON body, a JSON column):
  \<open>undefined\<close>, \<open>null\<close>, booleans, numbers, strings, arrays and objects. Objects are
  association lists in insertion order; JSON parsing never yields a key twice, and a lookup
  reads the first binding. Finite numbers are exact rationals, which contain every double.
\<close>

datatype jnum = Fin rat | NaN | PosInf | NegInf

datatype js =
    JUndef
  | JNull
  | JBool bool
  | JNum jnum
  | JStr string
  | JArr "js list"
  | JObj "(string \<times> js) list"

type_synonym jobj = "(string \<times> js) list"

abbreviation JInt :: "int \<Rightarrow> js" where
  "JInt i \<equiv> JNum (Fin (of_int i))"

text \<open>\<open>typeof v === "object" && v && !Array.isArray(v)\<close>\<close>

fun as_object :: "js \<Rightarrow> jobj option" where
  "as_object (JObj fs) = Some fs"
| "as_object _ = None"

text \<open>\<open>input[key]\<close>: a missing key reads \<open>undefined\<close>.\<close>

definition field :: "string \<Rightarrow> jobj \<Rightarrow> js" where
  "field k fs = (case map_of fs k of None \<Rightarrow> JUndef | Some v \<Rightarrow> v)"

definition keys_of :: "jobj \<Rightarrow> string list" where
  "keys_of fs = map fst fs"

fun as_string :: "js \<Rightarrow> string option" where
  "as_string (JStr s) = Some s"
| "as_string _ = None"

fun as_array :: "js \<Rightarrow> js list option" where
  "as_array (JArr xs) = Some xs"
| "as_array _ = None"

text \<open>\<open>v?.key\<close>, \<open>a ?? b\<close> and \<open>v === undefined ? [] : Array.isArray(v) ? v : [v]\<close>.\<close>

definition js_get :: "string \<Rightarrow> js \<Rightarrow> js" where
  "js_get k v = (case v of JObj fs \<Rightarrow> field k fs | _ \<Rightarrow> JUndef)"

definition nullish :: "js \<Rightarrow> js \<Rightarrow> js" where
  "nullish a b = (if a = JUndef \<or> a = JNull then b else a)"

definition js_array :: "js \<Rightarrow> js list" where
  "js_array v = (case v of JUndef \<Rightarrow> [] | JArr xs \<Rightarrow> xs | _ \<Rightarrow> [v])"

text \<open>\<open>Number(v)\<close>: strings, arrays and objects are converted by the parameter \<open>to_num\<close>.\<close>

definition js_number :: "(js \<Rightarrow> jnum) \<Rightarrow> js \<Rightarrow> jnum" where
  "js_number to_num v =
     (case v of JUndef \<Rightarrow> NaN | JNull \<Rightarrow> Fin 0 | JBool b \<Rightarrow> Fin (if b then 1 else 0) | JNum n \<Rightarrow> n | _ \<Rightarrow> to_num v)"

text \<open>\<open>String(v)\<close>: strings are themselves, other values are printed by the parameter \<open>show\<close>.\<close>

definition js_text :: "(js \<Rightarrow> string) \<Rightarrow> js \<Rightarrow> string" where
  "js_text show_js v = (case v of JStr s \<Rightarrow> s | _ \<Rightarrow> show_js v)"

text \<open>\<open>typeof v === "string" ? v : ""\<close>\<close>

definition string_or_empty :: "js \<Rightarrow> string" where
  "string_or_empty v = (case as_string v of Some s \<Rightarrow> s | None \<Rightarrow> [])"

text \<open>\<open>value.filter((item): item is string => typeof item === "string")\<close>\<close>

definition strings_of :: "js list \<Rightarrow> string list" where
  "strings_of vs = List.map_filter as_string vs"

definition all_strings :: "js list \<Rightarrow> bool" where
  "all_strings vs \<longleftrightarrow> list_all (\<lambda>v. as_string v \<noteq> None) vs"

text \<open>JavaScript truthiness.\<close>

fun truthy :: "js \<Rightarrow> bool" where
  "truthy JUndef = False"
| "truthy JNull = False"
| "truthy (JBool b) = b"
| "truthy (JNum NaN) = False"
| "truthy (JNum (Fin r)) = (r \<noteq> 0)"
| "truthy (JNum _) = True"
| "truthy (JStr s) = (s \<noteq> [])"
| "truthy (JArr _) = True"
| "truthy (JObj _) = True"

text \<open>\<open>Number.isInteger\<close> and the integer it holds.\<close>

definition as_integer :: "js \<Rightarrow> int option" where
  "as_integer v = (case v of JNum (Fin r) \<Rightarrow> if of_int \<lfloor>r\<rfloor> = r then Some \<lfloor>r\<rfloor> else None | _ \<Rightarrow> None)"

text \<open>
  \<open>===\<close> on the values the code compares: numbers by value (\<open>NaN\<close> equals nothing),
  strings and booleans by value. Arrays and objects compare by identity, which two freshly
  parsed values never share.
\<close>

fun strict_eq :: "js \<Rightarrow> js \<Rightarrow> bool" where
  "strict_eq JUndef JUndef = True"
| "strict_eq JNull JNull = True"
| "strict_eq (JBool a) (JBool b) = (a = b)"
| "strict_eq (JNum a) (JNum b) = (a = b \<and> a \<noteq> NaN)"
| "strict_eq (JStr a) (JStr b) = (a = b)"
| "strict_eq _ _ = False"

lemma as_string_Some [simp]: "as_string v = Some s \<longleftrightarrow> v = JStr s"
  by (cases v) auto

lemma as_array_Some [simp]: "as_array v = Some xs \<longleftrightarrow> v = JArr xs"
  by (cases v) auto

lemma as_object_Some [simp]: "as_object v = Some fs \<longleftrightarrow> v = JObj fs"
  by (cases v) auto

lemma as_integer_JInt [simp]: "as_integer (JInt i) = Some i"
  by (simp add: as_integer_def)

lemma as_integer_Fin [simp]:
  "as_integer (JNum (Fin r)) = (if of_int \<lfloor>r\<rfloor> = r then Some \<lfloor>r\<rfloor> else None)"
  by (simp add: as_integer_def)

lemma as_integer_Some: "as_integer v = Some i \<longleftrightarrow> v = JInt i"
  by (auto simp: as_integer_def split: js.splits jnum.splits if_splits)

lemma set_strings_of: "s \<in> set (strings_of vs) \<longleftrightarrow> JStr s \<in> set vs"
  by (induction vs) (auto simp: strings_of_def List.map_filter_simps split: option.splits)

lemma strings_of_map_JStr [simp]: "strings_of (map JStr ss) = ss"
  by (induction ss) (auto simp: strings_of_def List.map_filter_simps)

lemma map_JStr_inject [simp]: "map JStr ss = map JStr ts \<longleftrightarrow> ss = ts"
  by (metis strings_of_map_JStr)

lemma all_strings_iff: "all_strings vs \<longleftrightarrow> (\<exists>ss. vs = map JStr ss)"
proof
  assume "all_strings vs"
  then show "\<exists>ss. vs = map JStr ss"
  proof (induction vs)
    case (Cons v vs)
    then obtain s ss where "v = JStr s" "vs = map JStr ss"
      by (auto simp: all_strings_def)
    then have "v # vs = map JStr (s # ss)" by simp
    then show ?case by (rule exI)
  qed simp
qed (auto simp: all_strings_def list_all_iff)

lemma strict_eq_refl_iff: "strict_eq v v \<longleftrightarrow> (case v of JNum NaN \<Rightarrow> False | JArr _ \<Rightarrow> False | JObj _ \<Rightarrow> False | _ \<Rightarrow> True)"
  by (cases v) (auto split: jnum.splits)

lemma strict_eq_eq: "strict_eq v w \<Longrightarrow> v = w"
  by (induction v w rule: strict_eq.induct) auto

lemma strict_eq_sym: "strict_eq v w \<Longrightarrow> strict_eq w v"
  by (frule strict_eq_eq) simp

end
