(* ===== verification/Store.thy ===== *)
theory Store
  imports JsValue
begin

text \<open>
  The rows the components read and write (\<open>prisma/schema.prisma\<close>, \<open>src/lib/types.ts\<close>),
  with the columns they use, and the workspace database as the record of its tables. A
  nullable column is an option. The roles, priorities and status categories are the enums of
  the schema; \<open>role_name\<close> and its kin give the strings the code compares.
\<close>

datatype workspace_role = WOwner | WAdmin | WMember | WViewer
datatype project_role = PAdmin | PMember | PViewer
datatype priority = Urgent | High | Medium | Low
datatype status_category = Todo | In_Progress | Done
datatype visibility = Public | Private
datatype template = Kanban | Scrum | Service

fun workspace_role_name :: "workspace_role \<Rightarrow> string" where
  "workspace_role_name WOwner = ''OWNER''"
| "workspace_role_name WAdmin = ''ADMIN''"
| "workspace_role_name WMember = ''MEMBER''"
| "workspace_role_name WViewer = ''VIEWER''"

fun project_role_name :: "project_role \<Rightarrow> string" where
  "project_role_name PAdmin = ''ADMIN''"
| "project_role_name PMember = ''MEMBER''"
| "project_role_name PViewer = ''VIEWER''"

fun priority_name :: "priority \<Rightarrow> string" where
  "priority_name Urgent = ''URGENT''"
| "priority_name High = ''HIGH''"
| "priority_name Medium = ''MEDIUM''"
| "priority_name Low = ''LOW''"

fun category_name :: "status_category \<Rightarrow> string" where
  "category_name Todo = ''TODO''"
| "category_name In_Progress = ''IN_PROGRESS''"
| "category_name Done = ''DONE''"

definition priority_names :: "string list" where
  "priority_names = [''URGENT'', ''HIGH'', ''MEDIUM'', ''LOW'']"

definition parse_priority :: "string \<Rightarrow> priority option" where
  "parse_priority s = find (\<lambda>p. priority_name p = s) [Urgent, High, Medium, Low]"

lemma workspace_role_name_inject [simp]: "workspace_role_name a = workspace_role_name b \<longleftrightarrow> a = b"
  by (cases a; cases b) simp_all

lemma project_role_name_inject [simp]: "project_role_name a = project_role_name b \<longleftrightarrow> a = b"
  by (cases a; cases b) simp_all

lemma parse_priority_name [simp]: "parse_priority (priority_name p) = Some p"
  by (cases p) (simp_all add: parse_priority_def)

lemma parse_priority_Some: "parse_priority s = Some p \<longleftrightarrow> s = priority_name p"
proof
  assume "parse_priority s = Some p"
  then show "s = priority_name p"
    using find_SomeD [of "\<lambda>p. priority_name p = s" "[Urgent, High, Medium, Low]" p]
    by (simp add: parse_priority_def del: find.simps)
qed simp

text \<open>\<open>SecurityGrants\<close>: an absent property is \<open>None\<close> (\<open>False\<close> for the two flags).\<close>

record security_grants =
  g_reporter :: bool
  g_assignee :: bool
  g_workspaceRoles :: "string list option"
  g_projectRoles :: "string list option"
  g_groupIds :: "string list option"
  g_userIds :: "string list option"

record security_level =
  sl_id :: string
  sl_grants :: security_grants

record issue =
  i_id :: string
  i_workspaceId :: string
  i_projectId :: string
  i_number :: nat
  i_issueTypeId :: string
  i_statusId :: string
  i_reporterId :: string
  i_assigneeId :: "string option"
  i_parentId :: "string option"
  i_hierarchyLevelId :: "string option"
  i_summary :: string
  i_description :: js
  i_resolution :: "string option"
  i_priority :: priority
  i_estimate :: "int option"
  i_dueDate :: "time option"
  i_completedAt :: "time option"
  i_archivedAt :: "time option"
  i_version :: int
  i_securityLevelId :: "string option"
  i_rank :: string
  i_createdAt :: time
  i_updatedAt :: time

record project =
  p_id :: string
  p_workspaceId :: string
  p_key :: string
  p_visibility :: visibility
  p_template :: template
  p_archivedAt :: "time option"
  p_permissionSchemeVersionId :: "string option"
  p_issueSequence :: nat
  p_defaultPriority :: priority

record project_member =
  pm_projectId :: string
  pm_userId :: string
  pm_role :: project_role

record workspace_member =
  wm_workspaceId :: string
  wm_userId :: string
  wm_role :: workspace_role
  wm_deactivatedAt :: "time option"

record issue_type =
  it_id :: string
  it_projectId :: string
  it_name :: string
  it_position :: int
  it_isEpic :: bool   \<comment> \<open>\<open>kind === "EPIC"\<close>\<close>

record hierarchy_level =
  hl_id :: string
  hl_workspaceId :: string
  hl_position :: int
  hl_archivedAt :: "time option"

record status =
  st_id :: string
  st_projectId :: string
  st_name :: string
  st_position :: int
  st_category :: status_category

text \<open>
  A SCIM group as the permission queries see it: the mappings to projects (with the
  workspace) and the users with an active identity in it.
\<close>

record group =
  gr_id :: string
  gr_mappings :: "(string \<times> string) list"   \<comment> \<open>\<open>(workspaceId, projectId)\<close>\<close>
  gr_activeUsers :: "string list"

record activity =
  ac_issueId :: string
  ac_actorId :: "string option"
  ac_action :: string
  ac_changes :: js

record audit_entry =
  au_workspaceId :: string
  au_actorId :: "string option"
  au_action :: string
  au_targetType :: string
  au_targetId :: string
  au_metadata :: js

record workspace_db =
  db_issues :: "issue list"
  db_projects :: "project list"
  db_projectMembers :: "project_member list"
  db_workspaceMembers :: "workspace_member list"
  db_issueTypes :: "issue_type list"
  db_levels :: "hierarchy_level list"
  db_statuses :: "status list"
  db_securityLevels :: "security_level list"
  db_schemeVersions :: "(string \<times> (string \<rightharpoonup> string list)) list"
  db_groups :: "group list"
  db_activities :: "activity list"
  db_audit :: "audit_entry list"

text \<open>\<open>AuthContext\<close>: the authenticated user, the workspace of the session, the role in it.\<close>

record auth_context =
  cx_userId :: string
  cx_workspaceId :: string
  cx_role :: workspace_role

definition is_workspace_admin :: "auth_context \<Rightarrow> bool" where
  "is_workspace_admin cx \<longleftrightarrow> cx_role cx = WOwner \<or> cx_role cx = WAdmin"

definition project_role_of :: "workspace_db \<Rightarrow> string \<Rightarrow> string \<Rightarrow> project_role option" where
  "project_role_of db pid uid =
     map_option pm_role (find (\<lambda>m. pm_projectId m = pid \<and> pm_userId m = uid) (db_projectMembers db))"

text \<open>\<open>updateMany\<close>: the rows that match are rewritten; its \<open>count\<close> is their number.\<close>

definition update_issues :: "(issue \<Rightarrow> bool) \<Rightarrow> (issue \<Rightarrow> issue) \<Rightarrow> workspace_db \<Rightarrow> workspace_db" where
  "update_issues P f db = db\<lparr>db_issues := map (\<lambda>i. if P i then f i else i) (db_issues db)\<rparr>"

lemma update_issues_tables [simp]:
  "db_issues (update_issues P f db) = map (\<lambda>i. if P i then f i else i) (db_issues db)"
  "db_projects (update_issues P f db) = db_projects db"
  "db_projectMembers (update_issues P f db) = db_projectMembers db"
  "db_workspaceMembers (update_issues P f db) = db_workspaceMembers db"
  "db_issueTypes (update_issues P f db) = db_issueTypes db"
  "db_levels (update_issues P f db) = db_levels db"
  "db_statuses (update_issues P f db) = db_statuses db"
  "db_securityLevels (update_issues P f db) = db_securityLevels db"
  "db_schemeVersions (update_issues P f db) = db_schemeVersions db"
  "db_groups (update_issues P f db) = db_groups db"
  "db_activities (update_issues P f db) = db_activities db"
  "db_audit (update_issues P f db) = db_audit db"
  by (simp_all add: update_issues_def)

end
