(* ===== verification/Sessions.thy ===== *)
theory Sessions
  imports Store
begin

text \<open>
  Staff sessions (\<open>src/lib/auth.ts\<close>), the organization policy behind them
  (\<open>src/lib/enterprise-organization.ts\<close>) and deprovisioning (\<open>src/lib/scim.ts\<close>). The cookie is
  the encoded claims and their signature; the HMAC, the base64url JSON codec, scrypt and the hex
  codec are parameters. The database is the record of the identity tables. Names and avatars of
  the context are left out.
\<close>

record session =
  ss_id :: string
  ss_userId :: string
  ss_workspaceId :: string
  ss_expiresAt :: time
  ss_revokedAt :: "time option"

record claims =
  cl_sessionId :: string
  cl_userId :: string
  cl_workspaceId :: string
  cl_expiresAt :: time

record organization =
  og_id :: string
  og_slug :: string
  og_enforceSso :: bool
  og_allowLocalLogin :: bool
  og_sessionLifetimeMinutes :: int

datatype org_role = Org_Owner | Org_Admin | Org_Member

record org_member =
  om_organizationId :: string
  om_userId :: string
  om_role :: org_role
  om_breakGlass :: bool
  om_recoveryConfirmedAt :: "time option"
  om_deactivatedAt :: "time option"

record workspace_row =
  wk_id :: string
  wk_organizationId :: "string option"

record scim_identity =
  si_id :: string
  si_externalId :: "string option"
  si_userName :: string
  si_organizationId :: string
  si_userId :: string
  si_active :: bool
  si_version :: int

record identity_db =
  id_sessions :: "session list"
  id_members :: "workspace_member list"
  id_workspaces :: "workspace_row list"
  id_organizations :: "organization list"
  id_orgMembers :: "org_member list"
  id_scim :: "scim_identity list"

section \<open>Organization policy\<close>

definition workspace_organization :: "identity_db \<Rightarrow> string \<Rightarrow> organization option" where
  "workspace_organization db ws =
     (case find (\<lambda>w. wk_id w = ws) (id_workspaces db) of
        None \<Rightarrow> None
      | Some w \<Rightarrow> (case wk_organizationId w of None \<Rightarrow> None | Some o' \<Rightarrow> find (\<lambda>g. og_id g = o') (id_organizations db)))"

definition effectiveSessionLifetimeSeconds :: "identity_db \<Rightarrow> string \<Rightarrow> int" where
  "effectiveSessionLifetimeSeconds db ws =
     (case workspace_organization db ws of None \<Rightarrow> 10080 | Some g \<Rightarrow> og_sessionLifetimeMinutes g) * 60"

definition org_membership :: "identity_db \<Rightarrow> string \<Rightarrow> string \<Rightarrow> org_member option" where
  "org_membership db o' uid = find (\<lambda>m. om_organizationId m = o' \<and> om_userId m = uid) (id_orgMembers db)"

definition organizationAdmin :: "identity_db \<Rightarrow> string \<Rightarrow> string \<Rightarrow> string option" where
  "organizationAdmin db ws uid =
     (case find (\<lambda>w. wk_id w = ws) (id_workspaces db) of
        None \<Rightarrow> None
      | Some w \<Rightarrow> (case wk_organizationId w of
          None \<Rightarrow> None
        | Some o' \<Rightarrow> (case org_membership db o' uid of
            None \<Rightarrow> None
          | Some m \<Rightarrow> if om_deactivatedAt m = None \<and> (om_role m = Org_Owner \<or> om_role m = Org_Admin) then Some o' else None)))"

definition canUseLocalLogin :: "identity_db \<Rightarrow> string \<Rightarrow> string \<Rightarrow> bool" where
  "canUseLocalLogin db uid ws =
     (case workspace_organization db ws of
        None \<Rightarrow> True
      | Some g \<Rightarrow>
          if \<not> og_enforceSso g \<or> og_allowLocalLogin g then True
          else (case org_membership db (og_id g) uid of
                  None \<Rightarrow> False
                | Some m \<Rightarrow> om_breakGlass m \<and> om_recoveryConfirmedAt m \<noteq> None \<and> om_deactivatedAt m = None))"

section \<open>Passwords\<close>

definition hashPassword :: "(string \<Rightarrow> string \<Rightarrow> nat \<Rightarrow> string) \<Rightarrow> (string \<Rightarrow> string) \<Rightarrow> string \<Rightarrow> string \<Rightarrow> string" where
  "hashPassword scrypt hex salt password = ''scrypt$'' @ hex salt @ ''$'' @ hex (scrypt password salt 64)"

definition verifyPassword :: "(string \<Rightarrow> string \<Rightarrow> nat \<Rightarrow> string) \<Rightarrow> (string \<Rightarrow> string) \<Rightarrow> string \<Rightarrow> string \<Rightarrow> bool" where
  "verifyPassword scrypt unhex password stored =
     (case split_on CHR ''$'' stored of
        algorithm # salt # hash # _ \<Rightarrow>
          if algorithm \<noteq> ''scrypt'' \<or> salt = [] \<or> hash = [] then False
          else scrypt password (unhex salt) (length (unhex hash)) = unhex hash
      | _ \<Rightarrow> False)"

section \<open>Sessions\<close>

definition createSession ::
    "(string \<Rightarrow> string) \<Rightarrow> (claims \<Rightarrow> string) \<Rightarrow> string \<Rightarrow> time \<Rightarrow> string \<Rightarrow> string \<Rightarrow> identity_db \<Rightarrow> string \<times> identity_db" where
  "createSession mac encode sid now uid ws db =
     (let expiresAt = now + effectiveSessionLifetimeSeconds db ws * 1000;
          row = \<lparr>ss_id = sid, ss_userId = uid, ss_workspaceId = ws, ss_expiresAt = expiresAt, ss_revokedAt = None\<rparr>;
          encoded = encode \<lparr>cl_sessionId = sid, cl_userId = uid, cl_workspaceId = ws, cl_expiresAt = expiresAt\<rparr>
      in (encoded @ ''.'' @ mac encoded, db\<lparr>id_sessions := id_sessions db @ [row]\<rparr>))"

definition readClaims :: "(string \<Rightarrow> string) \<Rightarrow> (string \<Rightarrow> claims option) \<Rightarrow> time \<Rightarrow> string option \<Rightarrow> claims option" where
  "readClaims mac decode now cookie =
     (case cookie of
        None \<Rightarrow> None
      | Some v \<Rightarrow>
          (case split_on CHR ''.'' v of
             encoded # signature # _ \<Rightarrow>
               if encoded = [] \<or> signature = [] then None
               else if signature \<noteq> mac encoded then None
               else (case decode encoded of
                       None \<Rightarrow> None
                     | Some c \<Rightarrow> if cl_sessionId c = [] \<or> cl_userId c = [] \<or> cl_workspaceId c = [] \<or> cl_expiresAt c \<le> now
                                 then None else Some c)
           | _ \<Rightarrow> None))"

definition live_session :: "identity_db \<Rightarrow> claims \<Rightarrow> time \<Rightarrow> session option" where
  "live_session db c now =
     find (\<lambda>s. ss_id s = cl_sessionId c \<and> ss_userId s = cl_userId c \<and> ss_workspaceId s = cl_workspaceId c
       \<and> ss_revokedAt s = None \<and> now < ss_expiresAt s) (id_sessions db)"

definition membership_of :: "identity_db \<Rightarrow> string \<Rightarrow> string \<Rightarrow> workspace_member option" where
  "membership_of db ws uid = find (\<lambda>m. wm_workspaceId m = ws \<and> wm_userId m = uid) (id_members db)"

definition getAuthContext ::
    "(string \<Rightarrow> string) \<Rightarrow> (string \<Rightarrow> claims option) \<Rightarrow> time \<Rightarrow> string option \<Rightarrow> identity_db \<Rightarrow> auth_context option" where
  "getAuthContext mac decode now cookie db =
     (case readClaims mac decode now cookie of
        None \<Rightarrow> None
      | Some c \<Rightarrow>
          (case live_session db c now of
             None \<Rightarrow> None
           | Some _ \<Rightarrow>
               (case membership_of db (cl_workspaceId c) (cl_userId c) of
                  None \<Rightarrow> None
                | Some m \<Rightarrow> if wm_deactivatedAt m \<noteq> None then None
                            else Some \<lparr>cx_userId = cl_userId c, cx_workspaceId = cl_workspaceId c, cx_role = wm_role m\<rparr>)))"

definition revoke_where :: "(session \<Rightarrow> bool) \<Rightarrow> time \<Rightarrow> identity_db \<Rightarrow> identity_db" where
  "revoke_where P now db = db\<lparr>id_sessions := map (\<lambda>s. if P s then s\<lparr>ss_revokedAt := Some now\<rparr> else s) (id_sessions db)\<rparr>"

definition clearSession ::
    "(string \<Rightarrow> string) \<Rightarrow> (string \<Rightarrow> claims option) \<Rightarrow> time \<Rightarrow> string option \<Rightarrow> identity_db \<Rightarrow> identity_db" where
  "clearSession mac decode now cookie db =
     (case readClaims mac decode now cookie of
        None \<Rightarrow> db
      | Some c \<Rightarrow> revoke_where (\<lambda>s. ss_id s = cl_sessionId c \<and> ss_userId s = cl_userId c) now db)"

definition revokeAllSessions :: "string \<Rightarrow> time \<Rightarrow> identity_db \<Rightarrow> identity_db" where
  "revokeAllSessions uid now db = revoke_where (\<lambda>s. ss_userId s = uid \<and> ss_revokedAt s = None) now db"

section \<open>Deprovisioning\<close>

definition org_workspaces :: "identity_db \<Rightarrow> string \<Rightarrow> string list" where
  "org_workspaces db org = map wk_id (filter (\<lambda>w. wk_organizationId w = Some org) (id_workspaces db))"

definition setScimActive :: "string \<Rightarrow> string \<Rightarrow> bool \<Rightarrow> time \<Rightarrow> identity_db \<Rightarrow> identity_db option" where
  "setScimActive org iid active now db =
     (case find (\<lambda>i. si_id i = iid \<and> si_organizationId i = org) (id_scim db) of
        None \<Rightarrow> None
      | Some i \<Rightarrow>
          (let wss = org_workspaces db org; uid = si_userId i; stamp = (if active then None else Some now);
               db1 = db\<lparr>id_scim := map (\<lambda>x. if si_id x = si_id i then x\<lparr>si_active := active, si_version := si_version x + 1\<rparr> else x) (id_scim db),
                        id_orgMembers := map (\<lambda>m. if om_organizationId m = org \<and> om_userId m = uid
                                                  then m\<lparr>om_deactivatedAt := stamp\<rparr> else m) (id_orgMembers db),
                        id_members := map (\<lambda>m. if wm_userId m = uid \<and> wm_workspaceId m \<in> set wss
                                               then m\<lparr>wm_deactivatedAt := stamp\<rparr> else m) (id_members db)\<rparr>
           in Some (if active then db1
                    else revoke_where (\<lambda>s. ss_userId s = uid \<and> ss_workspaceId s \<in> set wss \<and> ss_revokedAt s = None) now db1)))"

section \<open>Who is authenticated\<close>

text \<open>
  C2: A request is authenticated only by a cookie whose payload carries a valid signature and whose
  claims have not expired, for a session row that exists, is not revoked and has not expired, by a
  member who is not deactivated; the role is the member's current one, not one from the cookie.
\<close>

theorem authentication_is_sound:
  assumes "getAuthContext mac decode now cookie db = Some cx"
  shows "\<exists>encoded rest c s m. cookie = Some (encoded @ ''.'' @ mac encoded @ rest) \<and> decode encoded = Some c
    \<and> now < cl_expiresAt c \<and> cx_userId cx = cl_userId c \<and> cx_workspaceId cx = cl_workspaceId c
    \<and> s \<in> set (id_sessions db) \<and> ss_id s = cl_sessionId c \<and> ss_userId s = cx_userId cx \<and> ss_workspaceId s = cx_workspaceId cx
    \<and> ss_revokedAt s = None \<and> now < ss_expiresAt s
    \<and> m \<in> set (id_members db) \<and> wm_userId m = cx_userId cx \<and> wm_workspaceId m = cx_workspaceId cx
    \<and> wm_deactivatedAt m = None \<and> wm_role m = cx_role cx"
proof -
  obtain c sess m where r: "readClaims mac decode now cookie = Some c" and l: "live_session db c now = Some sess"
    and m: "membership_of db (cl_workspaceId c) (cl_userId c) = Some m" "wm_deactivatedAt m = None"
    and cx: "cx = \<lparr>cx_userId = cl_userId c, cx_workspaceId = cl_workspaceId c, cx_role = wm_role m\<rparr>"
    using assms by (auto simp: getAuthContext_def split: option.splits if_splits)
  obtain v encoded signature ps where v: "cookie = Some v" "split_on CHR ''.'' v = encoded # signature # ps"
    and sig: "signature = mac encoded" "decode encoded = Some c" "now < cl_expiresAt c"
    using r by (auto simp: readClaims_def split: option.splits list.splits if_splits)
  obtain rest where "v = encoded @ CHR ''.'' # signature @ rest" using split_on_two [OF v(2)] by blast
  then have "cookie = Some (encoded @ ''.'' @ mac encoded @ rest)" using v sig by simp
  moreover have "sess \<in> set (id_sessions db)" "ss_id sess = cl_sessionId c" "ss_userId sess = cl_userId c"
    "ss_workspaceId sess = cl_workspaceId c" "ss_revokedAt sess = None" "now < ss_expiresAt sess"
    using find_SomeD [OF l [unfolded live_session_def]] by auto
  moreover have "m \<in> set (id_members db)" "wm_userId m = cl_userId c" "wm_workspaceId m = cl_workspaceId c"
    using find_SomeD [OF m(1) [unfolded membership_of_def]] by auto
  ultimately show ?thesis using sig m(2) cx by auto
qed

definition sample_claims :: claims where
  "sample_claims = \<lparr>cl_sessionId = ''s'', cl_userId = ''amy'', cl_workspaceId = ''w'', cl_expiresAt = 604800000\<rparr>"

definition sample_identity :: identity_db where
  "sample_identity =
     \<lparr>id_sessions = [],
      id_members = [\<lparr>wm_workspaceId = ''w'', wm_userId = ''amy'', wm_role = WMember, wm_deactivatedAt = None\<rparr>],
      id_workspaces = [\<lparr>wk_id = ''w'', wk_organizationId = Some ''o''\<rparr>],
      id_organizations = [\<lparr>og_id = ''o'', og_slug = ''org'', og_enforceSso = True, og_allowLocalLogin = False,
                           og_sessionLifetimeMinutes = 10080\<rparr>],
      id_orgMembers = [], id_scim = [\<lparr>si_id = ''i'', si_externalId = None, si_userName = ''a@b.c'', si_organizationId = ''o'', si_userId = ''amy'', si_active = True, si_version = 1\<rparr>]\<rparr>"

text \<open>
  Logging in works: the cookie of a new session authenticates its active member until the lifetime
  of the organization's policy is over and not after, whatever other sessions exist.
\<close>

theorem new_session_authenticates:
  assumes "createSession mac encode sid now uid ws db = (cookie, db')"
    and "membership_of db ws uid = Some m" and "wm_deactivatedAt m = None"
    and "sid \<noteq> []" "uid \<noteq> []" "ws \<noteq> []" "sid \<notin> ss_id ` set (id_sessions db)"
    and "c = \<lparr>cl_sessionId = sid, cl_userId = uid, cl_workspaceId = ws,
              cl_expiresAt = now + effectiveSessionLifetimeSeconds db ws * 1000\<rparr>"
    and "decode (encode c) = Some c" "encode c \<noteq> []" "CHR ''.'' \<notin> set (encode c)"
    and "mac (encode c) \<noteq> []" "CHR ''.'' \<notin> set (mac (encode c))"
  shows "getAuthContext mac decode t (Some cookie) db' =
    (if t < now + effectiveSessionLifetimeSeconds db ws * 1000
     then Some \<lparr>cx_userId = uid, cx_workspaceId = ws, cx_role = wm_role m\<rparr> else None)"
proof -
  let ?exp = "now + effectiveSessionLifetimeSeconds db ws * 1000"
  let ?row = "\<lparr>ss_id = sid, ss_userId = uid, ss_workspaceId = ws, ss_expiresAt = ?exp, ss_revokedAt = None\<rparr>"
  have cookie: "cookie = encode c @ CHR ''.'' # mac (encode c)" and db': "db' = db\<lparr>id_sessions := id_sessions db @ [?row]\<rparr>"
    using assms(1,8) by (simp_all add: createSession_def Let_def)
  have split: "split_on CHR ''.'' cookie = [encode c, mac (encode c)]"
    using assms(11,13) by (simp add: cookie split_on_sep split_on_none)
  have read: "readClaims mac decode t (Some cookie) = (if t < ?exp then Some c else None)"
    using split assms(4-6,8-10,12) by (simp add: readClaims_def)
  have none: "find (\<lambda>s. ss_id s = sid \<and> ss_userId s = uid \<and> ss_workspaceId s = ws \<and> ss_revokedAt s = None \<and> t < ss_expiresAt s)
      (id_sessions db) = None"
    using assms(7) by (auto simp: find_None_iff')
  have live: "t < ?exp \<Longrightarrow> live_session db' c t = Some ?row"
    using none assms(8) by (simp add: live_session_def db' find_append)
  show ?thesis
    using assms(2,3,8) read live by (auto simp: getAuthContext_def membership_of_def db')
qed

theorem new_session_authenticates_witness:
  "getAuthContext (\<lambda>_. ''m'') (\<lambda>_. Some sample_claims) 5 (Some ''c.m'')
     (snd (createSession (\<lambda>_. ''m'') (\<lambda>_. ''c'') ''s'' 0 ''amy'' ''w'' sample_identity))
   = Some \<lparr>cx_userId = ''amy'', cx_workspaceId = ''w'', cx_role = WMember\<rparr>"
proof -
  have life: "effectiveSessionLifetimeSeconds sample_identity ''w'' = 604800"
    by (simp add: effectiveSessionLifetimeSeconds_def workspace_organization_def sample_identity_def)
  have create: "createSession (\<lambda>_. ''m'') (\<lambda>_. ''c'') ''s'' 0 ''amy'' ''w'' sample_identity
      = (''c.m'', snd (createSession (\<lambda>_. ''m'') (\<lambda>_. ''c'') ''s'' 0 ''amy'' ''w'' sample_identity))"
    by (simp add: createSession_def Let_def)
  have m: "membership_of sample_identity ''w'' ''amy''
      = Some \<lparr>wm_workspaceId = ''w'', wm_userId = ''amy'', wm_role = WMember, wm_deactivatedAt = None\<rparr>"
    by (simp add: membership_of_def sample_identity_def)
  have c: "sample_claims = \<lparr>cl_sessionId = ''s'', cl_userId = ''amy'', cl_workspaceId = ''w'',
      cl_expiresAt = 0 + effectiveSessionLifetimeSeconds sample_identity ''w'' * 1000\<rparr>"
    by (simp add: sample_claims_def life)
  have "id_sessions sample_identity = []" by (simp add: sample_identity_def)
  then show ?thesis
    by (subst new_session_authenticates [OF create m _ _ _ _ _ c]) (simp_all add: life)
qed

theorem authentication_is_sound_witness:
  "\<exists>encoded rest c s m. Some ''c.m'' = Some (encoded @ ''.'' @ (\<lambda>_. ''m'') encoded @ rest)
    \<and> (\<lambda>_. Some sample_claims) encoded = Some c \<and> 0 < cl_expiresAt c
    \<and> cx_userId \<lparr>cx_userId = ''amy'', cx_workspaceId = ''w'', cx_role = WMember\<rparr> = cl_userId c
    \<and> cx_workspaceId \<lparr>cx_userId = ''amy'', cx_workspaceId = ''w'', cx_role = WMember\<rparr> = cl_workspaceId c
    \<and> s \<in> set (id_sessions (snd (createSession (\<lambda>_. ''m'') (\<lambda>_. ''c'') ''s'' 0 ''amy'' ''w'' sample_identity)))
    \<and> ss_id s = cl_sessionId c
    \<and> ss_userId s = cx_userId \<lparr>cx_userId = ''amy'', cx_workspaceId = ''w'', cx_role = WMember\<rparr>
    \<and> ss_workspaceId s = cx_workspaceId \<lparr>cx_userId = ''amy'', cx_workspaceId = ''w'', cx_role = WMember\<rparr>
    \<and> ss_revokedAt s = None \<and> 0 < ss_expiresAt s
    \<and> m \<in> set (id_members (snd (createSession (\<lambda>_. ''m'') (\<lambda>_. ''c'') ''s'' 0 ''amy'' ''w'' sample_identity)))
    \<and> wm_userId m = cx_userId \<lparr>cx_userId = ''amy'', cx_workspaceId = ''w'', cx_role = WMember\<rparr>
    \<and> wm_workspaceId m = cx_workspaceId \<lparr>cx_userId = ''amy'', cx_workspaceId = ''w'', cx_role = WMember\<rparr>
    \<and> wm_deactivatedAt m = None \<and> wm_role m = cx_role \<lparr>cx_userId = ''amy'', cx_workspaceId = ''w'', cx_role = WMember\<rparr>"
proof (rule authentication_is_sound)
  show "getAuthContext (\<lambda>_. ''m'') (\<lambda>_. Some sample_claims) 0 (Some ''c.m'')
      (snd (createSession (\<lambda>_. ''m'') (\<lambda>_. ''c'') ''s'' 0 ''amy'' ''w'' sample_identity))
      = Some \<lparr>cx_userId = ''amy'', cx_workspaceId = ''w'', cx_role = WMember\<rparr>"
    by (simp add: getAuthContext_def readClaims_def live_session_def membership_of_def createSession_def
        sample_claims_def sample_identity_def Let_def effectiveSessionLifetimeSeconds_def workspace_organization_def)
qed

section \<open>Deprovisioning ends every session\<close>

lemma live_session_revoked:
  assumes "\<forall>s\<in>set (id_sessions db). ss_userId s = uid \<and> ss_workspaceId s = ws \<longrightarrow> ss_revokedAt s \<noteq> None"
    and "getAuthContext mac decode t cookie db = Some cx"
  shows "\<not> (cx_userId cx = uid \<and> cx_workspaceId cx = ws)"
  using assms authentication_is_sound [OF assms(2)] by blast

lemma revoke_where_sessions [simp]:
  "id_sessions (revoke_where P now db) = map (\<lambda>s. if P s then s\<lparr>ss_revokedAt := Some now\<rparr> else s) (id_sessions db)"
  by (simp add: revoke_where_def)

text \<open>
  C7: Deprovisioning is final for existing sessions: once an identity is deactivated, no cookie
  authenticates its user in any workspace of the organization, and reactivating the identity does
  not bring the old sessions back.
\<close>

theorem deprovisioning_ends_sessions:
  assumes "setScimActive org iid False now db = Some db'"
    and "find (\<lambda>i. si_id i = iid \<and> si_organizationId i = org) (id_scim db) = Some i"
    and "ws \<in> set (org_workspaces db org)"
  shows "(getAuthContext mac decode t cookie db' = Some cx \<longrightarrow> \<not> (cx_userId cx = si_userId i \<and> cx_workspaceId cx = ws))
    \<and> (setScimActive org iid True now' db' = Some db'' \<longrightarrow> getAuthContext mac decode t cookie db'' = Some cx
        \<longrightarrow> \<not> (cx_userId cx = si_userId i \<and> cx_workspaceId cx = ws))"
proof -
  have gone: "\<forall>s\<in>set (id_sessions db'). ss_userId s = si_userId i \<and> ss_workspaceId s = ws \<longrightarrow> ss_revokedAt s \<noteq> None"
    using assms by (auto simp: setScimActive_def Let_def)
  moreover have "id_sessions db'' = id_sessions db'" if "setScimActive org iid True now' db' = Some db''"
    using that by (auto simp: setScimActive_def Let_def split: option.splits)
  ultimately show ?thesis by (metis live_session_revoked)
qed

theorem deprovisioning_ends_sessions_witness:
  "getAuthContext (\<lambda>_. ''m'') (\<lambda>_. Some sample_claims) 5 (Some ''c.m'')
     (the (setScimActive ''o'' ''i'' False 4 (snd (createSession (\<lambda>_. ''m'') (\<lambda>_. ''c'') ''s'' 0 ''amy'' ''w'' sample_identity))))
   \<noteq> Some \<lparr>cx_userId = ''amy'', cx_workspaceId = ''w'', cx_role = WMember\<rparr>"
proof -
  let ?db = "snd (createSession (\<lambda>_. ''m'') (\<lambda>_. ''c'') ''s'' 0 ''amy'' ''w'' sample_identity)"
  let ?i = "hd (id_scim sample_identity)"
  have find: "find (\<lambda>i. si_id i = ''i'' \<and> si_organizationId i = ''o'') (id_scim ?db) = Some ?i"
    by (simp add: createSession_def Let_def sample_identity_def)
  have ws: "''w'' \<in> set (org_workspaces ?db ''o'')"
    by (simp add: createSession_def Let_def sample_identity_def org_workspaces_def)
  obtain db' where db': "setScimActive ''o'' ''i'' False 4 ?db = Some db'"
    using find by (simp add: setScimActive_def Let_def)
  then show ?thesis
    using deprovisioning_ends_sessions [OF db' find ws, of "\<lambda>_. ''m''" "\<lambda>_. Some sample_claims" 5 "Some ''c.m''"
        "\<lparr>cx_userId = ''amy'', cx_workspaceId = ''w'', cx_role = WMember\<rparr>"]
    by (auto simp: sample_identity_def)
qed

text \<open>
  A stored password is the one that was set: with a hex codec that inverts and a key derivation of
  the requested length, a hash made by \<open>hashPassword\<close> verifies exactly the passwords that derive the
  same key under its salt.
\<close>

lemma password_round_trip:
  assumes "\<And>x. unhex (hex x) = x" and "\<And>x. CHR ''$'' \<notin> set (hex x)" and "\<And>p s n. length (scrypt p s n) = n" and "salt \<noteq> []"
    and "hex [] = []"
  shows "verifyPassword scrypt unhex p' (hashPassword scrypt hex salt p) \<longleftrightarrow> scrypt p' salt 64 = scrypt p salt 64"
proof -
  have ne: "hex x \<noteq> []" if "x \<noteq> []" for x using that assms(1,5) by metis
  have "scrypt p salt 64 \<noteq> []" using assms(3) [of p salt 64] by auto
  moreover have "split_on CHR ''$'' (hashPassword scrypt hex salt p) = [''scrypt'', hex salt, hex (scrypt p salt 64)]"
    using assms(2) split_on_sep [of "CHR ''$''" "''scrypt''"] by (simp add: hashPassword_def split_on_sep split_on_none)
  ultimately show ?thesis using ne assms by (simp add: verifyPassword_def)
qed

end
