(* ===== verification/Permissions.thy ===== *)
theory Permissions
  imports Store
begin

text \<open>
  Project permissions and issue security (\<open>src/lib/permissions.ts\<close>,
  \<open>src/lib/project-query.ts\<close>): validation of permission maps and security grants, the
  deny-by-default evaluation of a permission against the principal's grants, the two
  evaluators of an issue's security level (in memory and as a query), and the project
  visibility filter.
\<close>

section \<open>Permissions and grants\<close>

datatype permission =
    Project_Admin | Issue_View | Issue_Create | Issue_Edit | Issue_Security
  | Sprint_Manage | Release_Manage | Export_Run | Automation_Manage | Integration_Manage

fun permission_name :: "permission \<Rightarrow> string" where
  "permission_name Project_Admin = ''project.admin''"
| "permission_name Issue_View = ''issue.view''"
| "permission_name Issue_Create = ''issue.create''"
| "permission_name Issue_Edit = ''issue.edit''"
| "permission_name Issue_Security = ''issue.security''"
| "permission_name Sprint_Manage = ''sprint.manage''"
| "permission_name Release_Manage = ''release.manage''"
| "permission_name Export_Run = ''export.run''"
| "permission_name Automation_Manage = ''automation.manage''"
| "permission_name Integration_Manage = ''integration.manage''"

definition PROJECT_PERMISSIONS :: "permission list" where
  "PROJECT_PERMISSIONS =
     [Project_Admin, Issue_View, Issue_Create, Issue_Edit, Issue_Security,
      Sprint_Manage, Release_Manage, Export_Run, Automation_Manage, Integration_Manage]"

fun legacy :: "permission \<Rightarrow> string list" where
  "legacy Project_Admin = [''WORKSPACE:OWNER'', ''WORKSPACE:ADMIN'', ''PROJECT:ADMIN'']"
| "legacy Issue_View = [''WORKSPACE:OWNER'', ''WORKSPACE:ADMIN'', ''WORKSPACE:MEMBER'', ''WORKSPACE:VIEWER'',
     ''PROJECT:ADMIN'', ''PROJECT:MEMBER'', ''PROJECT:VIEWER'']"
| "legacy Issue_Create = [''WORKSPACE:OWNER'', ''WORKSPACE:ADMIN'', ''WORKSPACE:MEMBER'', ''PROJECT:ADMIN'', ''PROJECT:MEMBER'']"
| "legacy Issue_Edit = [''WORKSPACE:OWNER'', ''WORKSPACE:ADMIN'', ''WORKSPACE:MEMBER'', ''PROJECT:ADMIN'', ''PROJECT:MEMBER'']"
| "legacy Issue_Security = [''WORKSPACE:OWNER'', ''WORKSPACE:ADMIN'', ''PROJECT:ADMIN'']"
| "legacy Sprint_Manage = [''WORKSPACE:OWNER'', ''WORKSPACE:ADMIN'', ''WORKSPACE:MEMBER'', ''PROJECT:ADMIN'', ''PROJECT:MEMBER'']"
| "legacy Release_Manage = [''WORKSPACE:OWNER'', ''WORKSPACE:ADMIN'', ''PROJECT:ADMIN'']"
| "legacy Export_Run = [''WORKSPACE:OWNER'', ''WORKSPACE:ADMIN'', ''WORKSPACE:MEMBER'', ''PROJECT:ADMIN'', ''PROJECT:MEMBER'', ''PROJECT:VIEWER'']"
| "legacy Automation_Manage = [''WORKSPACE:OWNER'', ''WORKSPACE:ADMIN'']"
| "legacy Integration_Manage = [''WORKSPACE:OWNER'', ''WORKSPACE:ADMIN'']"

text \<open>The regular expression every grant of a scheme has to match.\<close>

definition is_id_char :: "char \<Rightarrow> bool" where
  "is_id_char c \<longleftrightarrow> is_alnum c \<or> c = CHR ''_'' \<or> c = CHR ''-''"

definition is_principal_id :: "string \<Rightarrow> bool" where
  "is_principal_id s \<longleftrightarrow> s \<noteq> [] \<and> list_all is_id_char s"

definition valid_grant :: "string \<Rightarrow> bool" where
  "valid_grant s \<longleftrightarrow>
     s \<in> set [''WORKSPACE:OWNER'', ''WORKSPACE:ADMIN'', ''WORKSPACE:MEMBER'', ''WORKSPACE:VIEWER'',
               ''PROJECT:ADMIN'', ''PROJECT:MEMBER'', ''PROJECT:VIEWER'']
   \<or> starts_with ''GROUP:'' s \<and> is_principal_id (drop 6 s)
   \<or> starts_with ''USER:'' s \<and> is_principal_id (drop 5 s)"

datatype permission_error =
    Permission_Map_Required
  | Explicit_Grants_Required permission
  | Security_Grants_Required
  | Invalid_Role string
  | Must_Contain_Ids string
  | No_Principal

type_synonym permission_map = "permission \<rightharpoonup> string list"

definition validate_action :: "jobj \<Rightarrow> permission \<Rightarrow> permission_map \<Rightarrow> (permission_error, permission_map) result" where
  "validate_action fs action acc =
     (case as_array (field (permission_name action) fs) of
        None \<Rightarrow> Inl (Explicit_Grants_Required action)
      | Some grants \<Rightarrow>
          if list_ex (\<lambda>g. case as_string g of None \<Rightarrow> True | Some s \<Rightarrow> \<not> valid_grant s) grants
          then Inl (Explicit_Grants_Required action)
          else Inr (acc(action \<mapsto> uniq (strings_of grants))))"

definition validatePermissions :: "js \<Rightarrow> (permission_error, permission_map) result" where
  "validatePermissions v =
     (case as_object v of
        None \<Rightarrow> Inl Permission_Map_Required
      | Some fs \<Rightarrow> fold_result (validate_action fs) PROJECT_PERMISSIONS Map.empty)"

text \<open>Security grants: two flags, two lists of roles, two lists of ids, at least one of them.\<close>

definition role_list :: "string \<Rightarrow> string list \<Rightarrow> jobj \<Rightarrow> (permission_error, string list option) result" where
  "role_list key allowed fs =
     (case field key fs of
        JUndef \<Rightarrow> Inr None
      | JArr vs \<Rightarrow>
          if list_ex (\<lambda>v. case as_string v of None \<Rightarrow> True | Some s \<Rightarrow> s \<notin> set allowed) vs
          then Inl (Invalid_Role key) else Inr (Some (uniq (strings_of vs)))
      | _ \<Rightarrow> Inl (Invalid_Role key))"

definition id_list :: "string \<Rightarrow> jobj \<Rightarrow> (permission_error, string list option) result" where
  "id_list key fs =
     (case field key fs of
        JUndef \<Rightarrow> Inr None
      | JArr vs \<Rightarrow> if all_strings vs then Inr (Some (uniq (strings_of vs))) else Inl (Must_Contain_Ids key)
      | _ \<Rightarrow> Inl (Must_Contain_Ids key))"

definition empty_grants :: security_grants where
  "empty_grants = \<lparr>g_reporter = False, g_assignee = False, g_workspaceRoles = None,
     g_projectRoles = None, g_groupIds = None, g_userIds = None\<rparr>"

definition validateSecurityGrants :: "js \<Rightarrow> (permission_error, security_grants) result" where
  "validateSecurityGrants v =
     (case as_object v of
        None \<Rightarrow> Inl Security_Grants_Required
      | Some fs \<Rightarrow>
          bind_result (role_list ''workspaceRoles'' [''OWNER'', ''ADMIN'', ''MEMBER'', ''VIEWER''] fs) (\<lambda>wr.
          bind_result (role_list ''projectRoles'' [''ADMIN'', ''MEMBER'', ''VIEWER''] fs) (\<lambda>pr.
          bind_result (id_list ''groupIds'' fs) (\<lambda>gs.
          bind_result (id_list ''userIds'' fs) (\<lambda>us.
          let g = \<lparr>g_reporter = (field ''reporter'' fs = JBool True),
                   g_assignee = (field ''assignee'' fs = JBool True),
                   g_workspaceRoles = wr, g_projectRoles = pr, g_groupIds = gs, g_userIds = us\<rparr>
          in if g = empty_grants then Inl No_Principal else Inr g)))))"

section \<open>Evaluating an issue's security level\<close>

record security_actor =
  sa_userId :: string
  sa_workspaceRole :: workspace_role
  sa_projectRole :: "project_role option"
  sa_groupIds :: "string list"

definition listed :: "string list option \<Rightarrow> string \<Rightarrow> bool" where
  "listed xs x \<longleftrightarrow> (case xs of None \<Rightarrow> False | Some ys \<Rightarrow> x \<in> set ys)"

definition matchesIssueSecurity ::
  "security_grants option \<Rightarrow> security_actor \<Rightarrow> string \<Rightarrow> string option \<Rightarrow> bool" where
  "matchesIssueSecurity grants act reporterId assigneeId =
     (case grants of
        None \<Rightarrow> True
      | Some g \<Rightarrow>
          g_reporter g \<and> reporterId = sa_userId act
        \<or> g_assignee g \<and> assigneeId = Some (sa_userId act)
        \<or> listed (g_userIds g) (sa_userId act)
        \<or> listed (g_workspaceRoles g) (workspace_role_name (sa_workspaceRole act))
        \<or> (case sa_projectRole act of None \<Rightarrow> False
            | Some r \<Rightarrow> listed (g_projectRoles g) (project_role_name r))
        \<or> list_ex (listed (g_groupIds g)) (sa_groupIds act))"

section \<open>Evaluating a project permission\<close>

definition actor_groups :: "workspace_db \<Rightarrow> string \<Rightarrow> string \<Rightarrow> string list" where
  "actor_groups db pid uid =
     map gr_id (filter (\<lambda>g. list_ex (\<lambda>m. snd m = pid) (gr_mappings g) \<and> uid \<in> set (gr_activeUsers g))
       (db_groups db))"

definition candidates :: "workspace_db \<Rightarrow> auth_context \<Rightarrow> string \<Rightarrow> string list" where
  "candidates db cx pid =
     [''USER:'' @ cx_userId cx, ''WORKSPACE:'' @ workspace_role_name (cx_role cx)]
     @ (case project_role_of db pid (cx_userId cx) of None \<Rightarrow> []
         | Some r \<Rightarrow> [''PROJECT:'' @ project_role_name r])
     @ map (\<lambda>g. ''GROUP:'' @ g) (actor_groups db pid (cx_userId cx))"

datatype explanation = Project_Not_Found | Deny_By_Default | Grant_Matched string

definition find_project :: "workspace_db \<Rightarrow> auth_context \<Rightarrow> string \<Rightarrow> project option" where
  "find_project db cx pid =
     find (\<lambda>p. p_id p = pid \<and> p_workspaceId p = cx_workspaceId cx \<and> p_archivedAt p = None) (db_projects db)"

definition grants_for :: "workspace_db \<Rightarrow> project \<Rightarrow> permission \<Rightarrow> string list" where
  "grants_for db p perm =
     (case p_permissionSchemeVersionId p of
        None \<Rightarrow> legacy perm
      | Some v \<Rightarrow>
          (case map_of (db_schemeVersions db) v of
             None \<Rightarrow> legacy perm
           | Some scheme \<Rightarrow> (case scheme (permission_name perm) of None \<Rightarrow> [] | Some gs \<Rightarrow> gs)))"

definition explainProjectPermission :: "workspace_db \<Rightarrow> auth_context \<Rightarrow> string \<Rightarrow> permission \<Rightarrow> explanation" where
  "explainProjectPermission db cx pid perm =
     (case find_project db cx pid of
        None \<Rightarrow> Project_Not_Found
      | Some p \<Rightarrow>
          (case find (\<lambda>c. c \<in> set (grants_for db p perm)) (candidates db cx pid) of
             None \<Rightarrow> Deny_By_Default
           | Some c \<Rightarrow> Grant_Matched c))"

fun allowed :: "explanation \<Rightarrow> bool" where
  "allowed (Grant_Matched _) = True"
| "allowed _ = False"

definition requireProjectPermission :: "workspace_db \<Rightarrow> auth_context \<Rightarrow> string \<Rightarrow> permission \<Rightarrow> bool" where
  "requireProjectPermission db cx pid perm = allowed (explainProjectPermission db cx pid perm)"

section \<open>The security filter as a query\<close>

definition where_groups :: "workspace_db \<Rightarrow> auth_context \<Rightarrow> string list option \<Rightarrow> string list" where
  "where_groups db cx pids =
     map gr_id (filter (\<lambda>g.
         list_ex (\<lambda>(w, p). w = cx_workspaceId cx \<and>
            (case pids of None \<Rightarrow> True | Some [] \<Rightarrow> True | Some ps \<Rightarrow> p \<in> set ps)) (gr_mappings g)
       \<and> cx_userId cx \<in> set (gr_activeUsers g)) (db_groups db))"

definition where_memberships :: "workspace_db \<Rightarrow> auth_context \<Rightarrow> string list option \<Rightarrow> project_member list" where
  "where_memberships db cx pids =
     filter (\<lambda>m. pm_userId m = cx_userId cx
       \<and> list_ex (\<lambda>p. p_id p = pm_projectId m \<and> p_workspaceId p = cx_workspaceId cx
            \<and> (case pids of None \<Rightarrow> True | Some [] \<Rightarrow> True | Some ps \<Rightarrow> p_id p \<in> set ps)) (db_projects db))
     (db_projectMembers db)"

definition level_of :: "workspace_db \<Rightarrow> issue \<Rightarrow> security_grants option" where
  "level_of db i =
     (case i_securityLevelId i of None \<Rightarrow> None
      | Some l \<Rightarrow> map_option sl_grants (find (\<lambda>s. sl_id s = l) (db_securityLevels db)))"

definition level_contains :: "workspace_db \<Rightarrow> issue \<Rightarrow> (security_grants \<Rightarrow> string list option) \<Rightarrow> string \<Rightarrow> bool" where
  "level_contains db i path x =
     (case level_of db i of None \<Rightarrow> False | Some g \<Rightarrow> listed (path g) x)"

definition issueSecurityWhere :: "workspace_db \<Rightarrow> auth_context \<Rightarrow> string list option \<Rightarrow> issue \<Rightarrow> bool" where
  "issueSecurityWhere db cx pids i \<longleftrightarrow>
       i_securityLevelId i = None
     \<or> i_reporterId i = cx_userId cx
     \<or> i_assigneeId i = Some (cx_userId cx)
     \<or> level_contains db i g_userIds (cx_userId cx)
     \<or> level_contains db i g_workspaceRoles (workspace_role_name (cx_role cx))
     \<or> list_ex (\<lambda>g. level_contains db i g_groupIds g) (where_groups db cx pids)
     \<or> list_ex (\<lambda>m. i_projectId i = pm_projectId m
          \<and> level_contains db i g_projectRoles (project_role_name (pm_role m))) (where_memberships db cx pids)"

definition find_issue :: "workspace_db \<Rightarrow> auth_context \<Rightarrow> string \<Rightarrow> issue option" where
  "find_issue db cx iid =
     find (\<lambda>i. i_id i = iid \<and> i_workspaceId i = cx_workspaceId cx \<and> i_archivedAt i = None) (db_issues db)"

definition canViewIssue :: "workspace_db \<Rightarrow> auth_context \<Rightarrow> string \<Rightarrow> bool" where
  "canViewIssue db cx iid \<longleftrightarrow>
     find (\<lambda>i. i_id i = iid \<and> i_workspaceId i = cx_workspaceId cx \<and> i_archivedAt i = None
             \<and> issueSecurityWhere db cx None i) (db_issues db) \<noteq> None"

section \<open>Project visibility\<close>

definition accessibleProjectWhere :: "workspace_db \<Rightarrow> auth_context \<Rightarrow> project \<Rightarrow> bool" where
  "accessibleProjectWhere db cx p \<longleftrightarrow>
     p_workspaceId p = cx_workspaceId cx \<and> p_archivedAt p = None
   \<and> (is_workspace_admin cx \<or> p_visibility p = Public
      \<or> list_ex (\<lambda>m. pm_projectId m = p_id p \<and> pm_userId m = cx_userId cx) (db_projectMembers db))"

definition getProjectForContext :: "workspace_db \<Rightarrow> auth_context \<Rightarrow> string \<Rightarrow> project option" where
  "getProjectForContext db cx key =
     find (\<lambda>p. p_key p = to_upper key \<and> accessibleProjectWhere db cx p) (db_projects db)"


section \<open>Lemmas: evaluation\<close>

lemma requireProjectPermission_iff:
  "requireProjectPermission db cx pid perm \<longleftrightarrow>
     (\<exists>p. find_project db cx pid = Some p
        \<and> (\<exists>c\<in>set (candidates db cx pid). c \<in> set (grants_for db p perm)))"
  by (auto simp: requireProjectPermission_def explainProjectPermission_def find_None_iff'
      split: option.splits dest: find_SomeD)

lemma find_project_SomeD:
  "find_project db cx pid = Some p \<Longrightarrow>
     p \<in> set (db_projects db) \<and> p_id p = pid \<and> p_workspaceId p = cx_workspaceId cx \<and> p_archivedAt p = None"
  unfolding find_project_def by (auto dest: find_SomeD)

lemma canViewIssueD:
  "canViewIssue db cx iid \<Longrightarrow>
     \<exists>i\<in>set (db_issues db). i_id i = iid \<and> i_workspaceId i = cx_workspaceId cx
       \<and> i_archivedAt i = None \<and> issueSecurityWhere db cx None i"
  unfolding canViewIssue_def by (auto dest: find_SomeD)

lemma getProjectForContextD:
  "getProjectForContext db cx key = Some p \<Longrightarrow>
     p \<in> set (db_projects db) \<and> p_key p = to_upper key \<and> accessibleProjectWhere db cx p"
  unfolding getProjectForContext_def by (auto dest: find_SomeD)

lemma workspace_candidate_mem: "''WORKSPACE:'' @ workspace_role_name (cx_role cx) \<in> set (candidates db cx pid)"
  by (simp add: candidates_def)

lemma user_candidate_mem: "''USER:'' @ cx_userId cx \<in> set (candidates db cx pid)"
  by (simp add: candidates_def)

text \<open>Without a project role or a mapped group only the user and the workspace role count.\<close>

lemma candidates_outsider:
  "project_role_of db pid (cx_userId cx) = None \<Longrightarrow> actor_groups db pid (cx_userId cx) = [] \<Longrightarrow>
   set (candidates db cx pid) = {''USER:'' @ cx_userId cx, ''WORKSPACE:'' @ workspace_role_name (cx_role cx)}"
  by (simp add: candidates_def)

section \<open>Lemmas: validation\<close>

lemma validate_action_Inr:
  "validate_action fs a acc = Inr acc' \<longleftrightarrow>
     (\<exists>gs. field (permission_name a) fs = JArr (map JStr gs) \<and> list_all valid_grant gs
        \<and> acc' = acc(a \<mapsto> uniq gs))"
proof
  assume "validate_action fs a acc = Inr acc'"
  then obtain grants where g: "field (permission_name a) fs = JArr grants"
      and ok: "list_all (\<lambda>g. \<exists>s. g = JStr s \<and> valid_grant s) grants"
      and acc': "acc' = acc(a \<mapsto> uniq (strings_of grants))"
    by (auto simp: validate_action_def list_ex_iff list_all_iff split: option.splits if_splits)
  then have "all_strings grants" by (auto simp: all_strings_def list_all_iff)
  then obtain gs where "grants = map JStr gs" by (auto simp: all_strings_iff)
  with g ok acc' show "\<exists>gs. field (permission_name a) fs = JArr (map JStr gs) \<and> list_all valid_grant gs
        \<and> acc' = acc(a \<mapsto> uniq gs)"
    by (auto simp: list_all_iff)
qed (auto simp: validate_action_def list_ex_iff list_all_iff)

lemma fold_validate_action:
  "fold_result (validate_action fs) as acc = Inr m \<Longrightarrow> distinct as \<Longrightarrow>
     (\<forall>a. a \<notin> set as \<longrightarrow> m a = acc a) \<and>
     (\<forall>a\<in>set as. \<exists>gs. field (permission_name a) fs = JArr (map JStr gs) \<and> list_all valid_grant gs
        \<and> m a = Some (uniq gs))"
proof (induction as arbitrary: acc)
  case (Cons a as)
  then obtain gs where gs: "field (permission_name a) fs = JArr (map JStr gs)" "list_all valid_grant gs"
      and rest: "fold_result (validate_action fs) as (acc(a \<mapsto> uniq gs)) = Inr m"
    by (auto simp: result_elims validate_action_Inr)
  from Cons.IH [OF rest] Cons.prems(2)
  have "\<forall>b. b \<notin> set as \<longrightarrow> m b = (acc(a \<mapsto> uniq gs)) b"
    and "\<forall>b\<in>set as. \<exists>gs. field (permission_name b) fs = JArr (map JStr gs) \<and> list_all valid_grant gs
        \<and> m b = Some (uniq gs)"
    by auto
  with gs Cons.prems(2) show ?case by auto
qed simp

lemma all_permissions: "set PROJECT_PERMISSIONS = UNIV"
  by (auto simp: PROJECT_PERMISSIONS_def intro: permission.exhaust)

lemma distinct_permissions: "distinct PROJECT_PERMISSIONS"
  by (simp add: PROJECT_PERMISSIONS_def)

lemma role_list_Inr:
  "role_list key roles fs = Inr (Some rs) \<Longrightarrow> set rs \<subseteq> set roles \<and> distinct rs"
  by (force simp: role_list_def list_ex_iff set_strings_of split: js.splits if_splits)

lemma id_list_Inr: "id_list key fs = Inr (Some ids) \<Longrightarrow> distinct ids"
  by (auto simp: id_list_def split: js.splits if_splits)

section \<open>Lemmas: the two security evaluators\<close>

text \<open>
  The actor \<open>createIssueNotifications\<close> evaluates for a recipient: every group the user is
  active in counts, mapped to the workspace or not.
\<close>

definition notification_actor :: "workspace_db \<Rightarrow> auth_context \<Rightarrow> string \<Rightarrow> security_actor" where
  "notification_actor db cx pid =
     \<lparr>sa_userId = cx_userId cx, sa_workspaceRole = cx_role cx,
      sa_projectRole = project_role_of db pid (cx_userId cx),
      sa_groupIds = map gr_id (filter (\<lambda>g. cx_userId cx \<in> set (gr_activeUsers g)) (db_groups db))\<rparr>"

definition groups_mapped :: "workspace_db \<Rightarrow> string \<Rightarrow> bool" where
  "groups_mapped db w \<longleftrightarrow> list_all (\<lambda>g. list_ex (\<lambda>m. fst m = w) (gr_mappings g)) (db_groups db)"

lemma active_group_in_where:
  "groups_mapped db (cx_workspaceId cx) \<Longrightarrow> g \<in> set (db_groups db) \<Longrightarrow>
   cx_userId cx \<in> set (gr_activeUsers g) \<Longrightarrow> gr_id g \<in> set (where_groups db cx None)"
  by (auto simp: groups_mapped_def where_groups_def list_all_iff list_ex_iff case_prod_beta)

lemma project_role_membership:
  assumes "project_role_of db (i_projectId i) (cx_userId cx) = Some r"
    and "\<exists>p\<in>set (db_projects db). p_id p = i_projectId i \<and> p_workspaceId p = cx_workspaceId cx"
  shows "\<exists>m\<in>set (where_memberships db cx None). i_projectId i = pm_projectId m \<and> pm_role m = r"
proof -
  from assms(1) obtain m where "m \<in> set (db_projectMembers db)" "pm_projectId m = i_projectId i"
      "pm_userId m = cx_userId cx" "pm_role m = r"
    unfolding project_role_of_def by (auto dest: find_SomeD)
  with assms(2) have "m \<in> set (where_memberships db cx None)"
    by (auto simp: where_memberships_def list_ex_iff)
  with \<open>pm_projectId m = i_projectId i\<close> \<open>pm_role m = r\<close> show ?thesis
    by (intro bexI [of _ m]) simp_all
qed

lemma matches_implies_where_aux:
  assumes m: "matchesIssueSecurity (level_of db i) (notification_actor db cx (i_projectId i))
                (i_reporterId i) (i_assigneeId i)"
    and lvl: "i_securityLevelId i \<noteq> None \<longrightarrow> level_of db i \<noteq> None"
    and prj: "\<exists>p\<in>set (db_projects db). p_id p = i_projectId i \<and> p_workspaceId p = cx_workspaceId cx"
    and grp: "groups_mapped db (cx_workspaceId cx)"
  shows "issueSecurityWhere db cx None i"
proof (cases "level_of db i")
  case None
  with lvl show ?thesis by (auto simp: issueSecurityWhere_def)
next
  case (Some g)
  consider "i_reporterId i = cx_userId cx" | "i_assigneeId i = Some (cx_userId cx)"
    | "listed (g_userIds g) (cx_userId cx)"
    | "listed (g_workspaceRoles g) (workspace_role_name (cx_role cx))"
    | r where "project_role_of db (i_projectId i) (cx_userId cx) = Some r"
        "listed (g_projectRoles g) (project_role_name r)"
    | gid where "gid \<in> set (where_groups db cx None)" "listed (g_groupIds g) gid"
    using m active_group_in_where [OF grp] unfolding Some matchesIssueSecurity_def notification_actor_def
    by (auto simp: list_ex_iff split: option.splits)
  then show ?thesis
  proof cases
    case (5 r)
    with project_role_membership [OF 5(1) prj] Some show ?thesis
      by (auto simp: issueSecurityWhere_def level_contains_def list_ex_iff)
  qed (use Some in \<open>auto simp: issueSecurityWhere_def level_contains_def list_ex_iff\<close>)
qed


section \<open>Properties\<close>

text \<open>
  deny by default. A permission is granted exactly when the project is live in the
  caller's own workspace and one of the principal's grants (its user, workspace role, project
  role or a mapped group) is listed for it; anything else, a project of another workspace
  included, is refused.
\<close>

theorem permission_deny_by_default:
  "requireProjectPermission db cx pid perm \<longleftrightarrow>
     (\<exists>p. find_project db cx pid = Some p \<and> p_id p = pid \<and> p_workspaceId p = cx_workspaceId cx
        \<and> p_archivedAt p = None
        \<and> (\<exists>c\<in>set (candidates db cx pid). c \<in> set (grants_for db p perm)))"
  unfolding requireProjectPermission_iff by (auto dest: find_project_SomeD)

text \<open>
  a permission map is accepted exactly when it is an object that lists, for every one of
  the ten permissions, an array of well-formed grants; the stored map holds each list without
  its duplicates.
\<close>

theorem validatePermissions_accepts:
  "validatePermissions v = Inr m \<longleftrightarrow>
     (\<exists>fs. v = JObj fs \<and> (\<forall>a. \<exists>gs. field (permission_name a) fs = JArr (map JStr gs)
        \<and> list_all valid_grant gs \<and> m a = Some (uniq gs)))"
proof
  assume "validatePermissions v = Inr m"
  then obtain fs where v: "v = JObj fs"
      and f: "fold_result (validate_action fs) PROJECT_PERMISSIONS Map.empty = Inr m"
    by (auto simp: validatePermissions_def split: option.splits)
  from fold_validate_action [OF f distinct_permissions] v
  show "\<exists>fs. v = JObj fs \<and> (\<forall>a. \<exists>gs. field (permission_name a) fs = JArr (map JStr gs)
        \<and> list_all valid_grant gs \<and> m a = Some (uniq gs))"
    by (auto simp: all_permissions)
next
  assume "\<exists>fs. v = JObj fs \<and> (\<forall>a. \<exists>gs. field (permission_name a) fs = JArr (map JStr gs)
        \<and> list_all valid_grant gs \<and> m a = Some (uniq gs))"
  then obtain fs where v: "v = JObj fs"
      and ok: "\<And>a. \<exists>gs. field (permission_name a) fs = JArr (map JStr gs)
        \<and> list_all valid_grant gs \<and> m a = Some (uniq gs)" by blast
  have "\<exists>m'. fold_result (validate_action fs) as acc = Inr m'" for as acc
  proof (induction as arbitrary: acc)
    case (Cons a as)
    from ok [of a] obtain acc' where "validate_action fs a acc = Inr acc'"
      by (auto simp: validate_action_Inr)
    with Cons.IH show ?case by simp
  qed simp
  then obtain m' where f: "fold_result (validate_action fs) PROJECT_PERMISSIONS Map.empty = Inr m'"
    by blast
  have "m' = m"
  proof
    fix a
    from fold_validate_action [OF f distinct_permissions] have
      "\<exists>gs. field (permission_name a) fs = JArr (map JStr gs) \<and> m' a = Some (uniq gs)"
      by (auto simp: all_permissions)
    with ok [of a] show "m' a = m a" by auto
  qed
  with v f show "validatePermissions v = Inr m" by (simp add: validatePermissions_def)
qed

text \<open>
  the in-memory evaluator that decides who is notified never goes beyond the query that
  decides who may open the issue, as long as every group is mapped into the workspace: a user
  it lets through passes the security filter of \<open>canViewIssue\<close>.
\<close>

theorem notified_can_view:
  assumes "matchesIssueSecurity (level_of db i) (notification_actor db cx (i_projectId i))
             (i_reporterId i) (i_assigneeId i)"
    and "i_securityLevelId i \<noteq> None \<longrightarrow> level_of db i \<noteq> None"
    and "\<exists>p\<in>set (db_projects db). p_id p = i_projectId i \<and> p_workspaceId p = cx_workspaceId cx"
    and "groups_mapped db (cx_workspaceId cx)"
  shows "issueSecurityWhere db cx None i"
  using assms by (rule matches_implies_where_aux)

text \<open>
  A sample workspace: one private project, one issue under a level that only project admins
  may read, an admin of the project and the reporter of the issue.
\<close>

definition sample_grants :: security_grants where
  "sample_grants = empty_grants\<lparr>g_projectRoles := Some [''ADMIN'']\<rparr>"

definition sample_issue :: issue where
  "sample_issue = \<lparr>i_id = ''i1'', i_workspaceId = ''w'', i_projectId = ''p'', i_number = 1,
     i_issueTypeId = ''t'', i_statusId = ''s'', i_reporterId = ''rita'', i_assigneeId = None,
     i_parentId = None, i_hierarchyLevelId = None, i_summary = ''one'', i_description = JNull,
     i_resolution = None, i_priority = Medium, i_estimate = None, i_dueDate = None,
     i_completedAt = None, i_archivedAt = None, i_version = 1, i_securityLevelId = Some ''l'',
     i_rank = ''a'', i_createdAt = 0, i_updatedAt = 0\<rparr>"

definition sample_project :: project where
  "sample_project = \<lparr>p_id = ''p'', p_workspaceId = ''w'', p_key = ''WEB'', p_visibility = Private,
     p_template = Kanban, p_archivedAt = None, p_permissionSchemeVersionId = None,
     p_issueSequence = 1, p_defaultPriority = Medium\<rparr>"

definition sample_db :: workspace_db where
  "sample_db = \<lparr>db_issues = [sample_issue], db_projects = [sample_project],
     db_projectMembers = [\<lparr>pm_projectId = ''p'', pm_userId = ''amy'', pm_role = PAdmin\<rparr>],
     db_workspaceMembers = [], db_issueTypes = [], db_levels = [], db_statuses = [],
     db_securityLevels = [\<lparr>sl_id = ''l'', sl_grants = sample_grants\<rparr>], db_schemeVersions = [],
     db_groups = [], db_activities = [], db_audit = []\<rparr>"

definition amy :: auth_context where
  "amy = \<lparr>cx_userId = ''amy'', cx_workspaceId = ''w'', cx_role = WMember\<rparr>"

definition rita :: auth_context where
  "rita = \<lparr>cx_userId = ''rita'', cx_workspaceId = ''w'', cx_role = WMember\<rparr>"

lemmas sample_defs = sample_grants_def sample_issue_def sample_project_def sample_db_def amy_def
  rita_def empty_grants_def

theorem notified_can_view_witness:
  "issueSecurityWhere sample_db amy None sample_issue"
proof (rule notified_can_view)
  show "matchesIssueSecurity (level_of sample_db sample_issue)
      (notification_actor sample_db amy (i_projectId sample_issue))
      (i_reporterId sample_issue) (i_assigneeId sample_issue)"
    by (simp add: sample_defs matchesIssueSecurity_def level_of_def notification_actor_def listed_def
        project_role_of_def)
qed (simp_all add: sample_defs level_of_def groups_mapped_def)

text \<open>
  the converse fails. The reporter of an issue whose level grants only project admins
  passes the query filter, so she can open the issue, while the in-memory evaluator turns her
  away: the two readings of a level without the \<open>reporter\<close> flag differ.
\<close>

theorem reporter_views_without_grant:
  "canViewIssue sample_db rita ''i1''
   \<and> \<not> matchesIssueSecurity (level_of sample_db sample_issue)
        (notification_actor sample_db rita (i_projectId sample_issue))
        (i_reporterId sample_issue) (i_assigneeId sample_issue)"
  by (simp add: sample_defs canViewIssue_def issueSecurityWhere_def matchesIssueSecurity_def
      level_of_def notification_actor_def listed_def project_role_of_def where_groups_def)

text \<open>
  the check that a level grants at least one principal counts keys, not principals. A level
  with an empty list is accepted and then lets nobody through.
\<close>

theorem empty_level_accepted:
  "\<exists>g. validateSecurityGrants (JObj [(''userIds'', JArr [])]) = Inr g
     \<and> (\<forall>act rep asg. \<not> matchesIssueSecurity (Some g) act rep asg)"
  by (simp add: validateSecurityGrants_def role_list_def id_list_def field_def all_strings_def
      strings_of_def List.map_filter_simps empty_grants_def matchesIssueSecurity_def listed_def
      list_ex_iff split: option.splits)

end
