(* ===== verification/Dates.thy ===== *)
theory Dates
  imports Prelude
begin

text \<open>
  Calendar dates on the proleptic Gregorian calendar, as \<open>Date.UTC\<close>, the ISO date strings
  and \<open>toISOString().slice(0, 10)\<close> use them. Years are counted from 1 March so that the leap
  day is the last day of its year; a cycle of 400 years has 146097 days.
\<close>

definition days_of_civil :: "int \<Rightarrow> int \<Rightarrow> int \<Rightarrow> int" where
  "days_of_civil y m d =
     (let y' = (if m \<le> 2 then y - 1 else y);
          era = y' div 400;
          yoe = y' mod 400;
          doy = (153 * ((m + 9) mod 12) + 2) div 5 + d - 1;
          doe = yoe * 365 + yoe div 4 - yoe div 100 + doy
      in era * 146097 + doe - 719468)"

definition civil_of_days :: "int \<Rightarrow> int \<times> int \<times> int" where
  "civil_of_days n =
     (let z = n + 719468;
          era = z div 146097;
          doe = z mod 146097;
          yoe = (doe - doe div 1460 + doe div 36524 - doe div 146096) div 365;
          doy = doe - (365 * yoe + yoe div 4 - yoe div 100);
          mp = (5 * doy + 2) div 153;
          d = doy - (153 * mp + 2) div 5 + 1;
          m = (if mp < 10 then mp + 3 else mp - 9)
      in (yoe + era * 400 + (if m \<le> 2 then 1 else 0), m, d))"

definition utc :: "int \<Rightarrow> int \<Rightarrow> int \<Rightarrow> time" where
  "utc y m d = days_of_civil y m d * DAY_MS"

text \<open>\<open>/^\d{4}-\d{2}-\d{2}$/\<close>\<close>

definition is_iso_date :: "string \<Rightarrow> bool" where
  "is_iso_date s \<longleftrightarrow> length s = 10 \<and> s ! 4 = CHR ''-'' \<and> s ! 7 = CHR ''-''
     \<and> list_all is_digit (take 4 s @ take 2 (drop 5 s) @ drop 8 s)"

text \<open>
  \<open>new Date(`${s}T00:00:00.000Z`)\<close> for a string of that shape: the month must be 1 to 12 and the
  day 1 to 31; a day past the end of its month rolls over into the next one.
\<close>

definition parse_iso_date :: "string \<Rightarrow> time option" where
  "parse_iso_date s =
     (if is_iso_date s
      then (let y = int_of_digits (take 4 s); m = int_of_digits (take 2 (drop 5 s)); d = int_of_digits (drop 8 s)
            in if 1 \<le> m \<and> m \<le> 12 \<and> 1 \<le> d \<and> d \<le> 31 then Some (utc y m d) else None)
      else None)"

definition two_digits :: "int \<Rightarrow> string" where
  "two_digits n = (if n < 10 then CHR ''0'' # string_of_int n else string_of_int n)"

text \<open>\<open>toISOString\<close>, for the years 0 to 9999, and its first ten characters.\<close>

definition pad :: "nat \<Rightarrow> int \<Rightarrow> string" where
  "pad n i = (let ds = string_of_int i in replicate (n - length ds) CHR ''0'' @ ds)"

definition iso_date :: "time \<Rightarrow> string" where
  "iso_date t = (let (y, m, d) = civil_of_days (t div DAY_MS) in pad 4 y @ ''-'' @ pad 2 m @ ''-'' @ pad 2 d)"

definition iso_string :: "time \<Rightarrow> string" where
  "iso_string t =
     (let ms = t mod DAY_MS
      in iso_date t @ ''T'' @ pad 2 (ms div 3600000) @ '':'' @ pad 2 (ms div 60000 mod 60) @ '':'' @ pad 2 (ms div 1000 mod 60)
         @ ''.'' @ pad 3 (ms mod 1000) @ ''Z'')"

lemma utc_midnight_utc [simp]: "utc_midnight (utc y m d) = utc y m d"
  by (simp add: utc_def utc_midnight_def DAY_MS_def)

lemma parse_iso_date_midnight: "parse_iso_date s = Some t \<Longrightarrow> utc_midnight t = t"
  by (auto simp: parse_iso_date_def Let_def split: if_splits)

end
