(* ===== verification/AdvancedQuery.thy ===== *)
theory AdvancedQuery
  imports Dates
begin

text \<open>
  The query language of the issue search (\<open>src/lib/advanced-query.ts\<close>): tokenizer, recursive
  descent parser with a cost budget, and the compiler to a database filter. The parser's
  closures share a cursor and a cost; here both are threaded. Error messages are left out, the
  offset and the code are kept. Recursion is bounded by fuel, which \<open>parse_needs_no_more_fuel\<close>
  shows never runs out.
\<close>

definition MAX_QUERY_LENGTH :: nat where "MAX_QUERY_LENGTH = 2000"
definition MAX_QUERY_COST :: nat where "MAX_QUERY_COST = 100"

datatype query_field =
    F_Key | F_Text | F_Summary | F_Description | F_Project | F_Type | F_Status | F_Assignee
  | F_Reporter | F_Priority | F_Label | F_Sprint | F_Release | F_Parent | F_Link | F_RequestType
  | F_Created | F_Updated | F_Due | F_Resolved

fun field_name :: "query_field \<Rightarrow> string" where
  "field_name F_Key = ''key''"
| "field_name F_Text = ''text''"
| "field_name F_Summary = ''summary''"
| "field_name F_Description = ''description''"
| "field_name F_Project = ''project''"
| "field_name F_Type = ''type''"
| "field_name F_Status = ''status''"
| "field_name F_Assignee = ''assignee''"
| "field_name F_Reporter = ''reporter''"
| "field_name F_Priority = ''priority''"
| "field_name F_Label = ''label''"
| "field_name F_Sprint = ''sprint''"
| "field_name F_Release = ''release''"
| "field_name F_Parent = ''parent''"
| "field_name F_Link = ''link''"
| "field_name F_RequestType = ''requestType''"
| "field_name F_Created = ''created''"
| "field_name F_Updated = ''updated''"
| "field_name F_Due = ''due''"
| "field_name F_Resolved = ''resolved''"

definition QUERY_FIELDS :: "query_field list" where
  "QUERY_FIELDS = [F_Key, F_Text, F_Summary, F_Description, F_Project, F_Type, F_Status, F_Assignee,
     F_Reporter, F_Priority, F_Label, F_Sprint, F_Release, F_Parent, F_Link, F_RequestType,
     F_Created, F_Updated, F_Due, F_Resolved]"

datatype operator = Eq | Ne | Gt | Ge | Lt | Le | Like | In | Not_In

fun operator_name :: "operator \<Rightarrow> string" where
  "operator_name Eq = ''=''"
| "operator_name Ne = ''!=''"
| "operator_name Gt = ''>''"
| "operator_name Ge = ''>=''"
| "operator_name Lt = ''<''"
| "operator_name Le = ''<=''"
| "operator_name Like = ''~''"
| "operator_name In = ''IN''"
| "operator_name Not_In = ''NOT IN''"

definition OPERATORS :: "operator list" where
  "OPERATORS = [Eq, Ne, Gt, Ge, Lt, Le, Like, In, Not_In]"

definition ends_with_IN :: "operator \<Rightarrow> bool" where
  "ends_with_IN op \<longleftrightarrow> op = In \<or> op = Not_In"

datatype query =
    Q_And query query
  | Q_Or query query
  | Q_Not query
  | Q_Term query_field operator "string list"

record token =
  tk_value :: string
  tk_offset :: nat

datatype query_code = INVALID_QUERY | QUERY_TOO_COMPLEX
datatype query_error = Query_Error query_code nat | Out_Of_Fuel

section \<open>Tokens\<close>

text \<open>The body of a quoted value after its opening quote: the value and the rest, if it is closed.\<close>

fun quoted :: "string \<Rightarrow> (string \<times> string) option" where
  "quoted [] = None"
| "quoted (c # cs) =
     (if c = CHR 0x22 then Some ([], cs)
      else if c = CHR 0x5C
      then (case cs of
              [] \<Rightarrow> None
            | d # ds \<Rightarrow> map_option (\<lambda>(v, rest). (d # v, rest)) (quoted ds))
      else map_option (\<lambda>(v, rest). (c # v, rest)) (quoted cs))"

definition word_char :: "char \<Rightarrow> bool" where
  "word_char c \<longleftrightarrow> \<not> is_space c \<and> c \<notin> set ''(),=<>!~''"

text \<open>\<open>/^(>=|<=|!=|=|>|<|~)/\<close>\<close>

definition operator_prefix :: "string \<Rightarrow> string option" where
  "operator_prefix s = find (\<lambda>p. starts_with p s) [''>='', ''<='', ''!='', ''='', ''>'', ''<'', ''~'']"

lemma quoted_shorter: "quoted cs = Some (v, rest) \<Longrightarrow> length rest < length cs"
  by (induction cs arbitrary: v rest rule: quoted.induct) (fastforce split: if_splits list.splits)+

lemma operator_prefix_Some: "operator_prefix s = Some p \<Longrightarrow> p \<noteq> [] \<and> starts_with p s"
  unfolding operator_prefix_def by (drule find_SomeD) auto

lemma starts_with_drop: "starts_with p s \<Longrightarrow> s = p @ drop (length p) s"
  unfolding starts_with_def by (metis append_take_drop_id)

definition cons_token :: "string \<Rightarrow> nat \<Rightarrow> (query_error, token list) result \<Rightarrow> (query_error, token list) result" where
  "cons_token v off r = bind_result r (\<lambda>ts. Inr (\<lparr>tk_value = v, tk_offset = off\<rparr> # ts))"

function tokenize :: "nat \<Rightarrow> string \<Rightarrow> (query_error, token list) result" where
  "tokenize index [] = Inr []"
| "tokenize index (c # cs) =
     (if is_space c then tokenize (index + 1) cs
      else if c \<in> set ''(),'' then cons_token [c] index (tokenize (index + 1) cs)
      else case operator_prefix (c # cs) of
        Some p \<Rightarrow> cons_token p index (tokenize (index + length p) (drop (length p) (c # cs)))
      | None \<Rightarrow>
          if c = CHR 0x22
          then (case quoted cs of
                  None \<Rightarrow> Inl (Query_Error INVALID_QUERY index)
                | Some (v, rest) \<Rightarrow>
                    cons_token v index (tokenize (index + 1 + (length cs - length rest)) rest))
          else if \<not> word_char c then Inl (Query_Error INVALID_QUERY index)
          else (let w = takeWhile word_char (c # cs)
                in cons_token w index (tokenize (index + length w) (dropWhile word_char (c # cs)))))"
  by pat_completeness auto

termination
proof (relation "measure (\<lambda>(index, s). length s)")
  fix c cs p
  assume "operator_prefix (c # cs) = Some p"
  then show "\<And>index. ((index + length p, drop (length p) (c # cs)), index, c # cs) \<in> measure (\<lambda>(index, s). length s)"
    using operator_prefix_Some by fastforce
next
  fix c :: char and cs
  assume "\<not> \<not> word_char c"
  then show "\<And>index w. ((index + length w, dropWhile word_char (c # cs)), index, c # cs) \<in> measure (\<lambda>(index, s). length s)"
    by (simp add: less_Suc_eq_le length_dropWhile_le)
next
  fix cs v rest and x :: "string \<times> string"
  assume "quoted cs = Some x" "(v, rest) = x"
  then show "\<And>index c. ((index + 1 + (length cs - length rest), rest), index, c # cs) \<in> measure (\<lambda>(index, s). length s)"
    using quoted_shorter [of cs v rest] by auto
qed auto

declare tokenize.simps(2) [simp del]

section \<open>Parser\<close>

definition peek_is :: "string \<Rightarrow> token list \<Rightarrow> bool" where
  "peek_is v ts \<longleftrightarrow> (case ts of [] \<Rightarrow> False | t # _ \<Rightarrow> to_upper (tk_value t) = v)"

text \<open>\<open>token?.offset ?? fallback\<close>\<close>

definition invalid_at :: "nat \<Rightarrow> token list \<Rightarrow> query_error" where
  "invalid_at len ts = Query_Error INVALID_QUERY (case ts of [] \<Rightarrow> len | t # _ \<Rightarrow> tk_offset t)"

definition expect :: "nat \<Rightarrow> string \<Rightarrow> token list \<Rightarrow> (query_error, token list) result" where
  "expect len v ts = (if peek_is v ts then Inr (tl ts) else Inl (invalid_at len ts))"

fun value_list :: "nat \<Rightarrow> token list \<Rightarrow> (query_error, string list \<times> token list) result" where
  "value_list len [] = Inl (invalid_at len [])"
| "value_list len (t # ts) =
     (if tk_value t \<in> {'')'', '',''} then Inl (invalid_at len (t # ts))
      else case ts of
        [] \<Rightarrow> Inr ([tk_value t], [])
      | c # ts' \<Rightarrow>
          if to_upper (tk_value c) = '',''
          then bind_result (value_list len ts') (\<lambda>(vs, rest). Inr (tk_value t # vs, rest))
          else Inr ([tk_value t], ts))"

definition operand :: "nat \<Rightarrow> operator \<Rightarrow> token list \<Rightarrow> (query_error, string list \<times> token list) result" where
  "operand len op ts =
     (if ends_with_IN op
      then bind_result (expect len ''('' ts) (\<lambda>ts1.
           bind_result (value_list len ts1) (\<lambda>(vs, ts2).
           bind_result (expect len '')'' ts2) (\<lambda>ts3. Inr (vs, ts3))))
      else if ts = [] \<or> tk_value (hd ts) \<in> {''('', '')'', '',''} then Inl (invalid_at len ts)
      else Inr ([tk_value (hd ts)], tl ts))"

definition term_cost :: "query_field \<Rightarrow> operator \<Rightarrow> string list \<Rightarrow> nat" where
  "term_cost f op vs = (if ends_with_IN op then length vs * 2 else 0)
     + (if f = F_Text \<or> f = F_Description \<or> op = Like then 5 else 1)"

type_synonym parsed = "query \<times> token list \<times> nat"

definition read_field :: "nat \<Rightarrow> token list \<Rightarrow> (query_error, query_field) result" where
  "read_field len ts =
     (case ts of [] \<Rightarrow> Inl (invalid_at len ts)
      | t # _ \<Rightarrow> (case find (\<lambda>f. field_name f = to_lower (tk_value t)) QUERY_FIELDS of
           None \<Rightarrow> Inl (invalid_at len ts) | Some f \<Rightarrow> Inr f))"

definition read_operator :: "nat \<Rightarrow> token list \<Rightarrow> (query_error, operator \<times> token list) result" where
  "read_operator len ts =
     (if ts = [] then Inl (invalid_at len ts)
      else if to_upper (tk_value (hd ts)) = ''NOT'' \<and> peek_is ''IN'' (tl ts) then Inr (Not_In, tl (tl ts))
      else case find (\<lambda>op. operator_name op = to_upper (tk_value (hd ts))) OPERATORS of
             None \<Rightarrow> Inl (invalid_at len ts)
           | Some op \<Rightarrow> Inr (op, tl ts))"

definition parse_term :: "nat \<Rightarrow> token list \<Rightarrow> nat \<Rightarrow> (query_error, parsed) result" where
  "parse_term len ts cost =
     bind_result (read_field len ts) (\<lambda>f.
     bind_result (read_operator len (tl ts)) (\<lambda>(op, ts1).
     bind_result (operand len op ts1) (\<lambda>(vs, ts2).
       let cost' = cost + term_cost f op vs
       in if cost' > MAX_QUERY_COST then Inl (Query_Error QUERY_TOO_COMPLEX (tk_offset (hd ts)))
          else Inr (Q_Term f op vs, ts2, cost'))))"

function (sequential) expression :: "nat \<Rightarrow> nat \<Rightarrow> token list \<Rightarrow> nat \<Rightarrow> (query_error, parsed) result"
  and or_loop :: "nat \<Rightarrow> nat \<Rightarrow> query \<Rightarrow> token list \<Rightarrow> nat \<Rightarrow> (query_error, parsed) result"
  and conjunction :: "nat \<Rightarrow> nat \<Rightarrow> token list \<Rightarrow> nat \<Rightarrow> (query_error, parsed) result"
  and and_loop :: "nat \<Rightarrow> nat \<Rightarrow> query \<Rightarrow> token list \<Rightarrow> nat \<Rightarrow> (query_error, parsed) result"
  and unary :: "nat \<Rightarrow> nat \<Rightarrow> token list \<Rightarrow> nat \<Rightarrow> (query_error, parsed) result" where
  "expression 0 len ts cost = Inl Out_Of_Fuel"
| "expression (Suc n) len ts cost =
     bind_result (conjunction n len ts cost) (\<lambda>(l, ts1, cost1). or_loop n len l ts1 cost1)"
| "or_loop 0 len l ts cost = Inl Out_Of_Fuel"
| "or_loop (Suc n) len l ts cost =
     (if peek_is ''OR'' ts
      then bind_result (conjunction n len (tl ts) cost) (\<lambda>(r, ts1, cost1).
             or_loop n len (Q_Or l r) ts1 (cost1 + 3))
      else Inr (l, ts, cost))"
| "conjunction 0 len ts cost = Inl Out_Of_Fuel"
| "conjunction (Suc n) len ts cost =
     bind_result (unary n len ts cost) (\<lambda>(l, ts1, cost1). and_loop n len l ts1 cost1)"
| "and_loop 0 len l ts cost = Inl Out_Of_Fuel"
| "and_loop (Suc n) len l ts cost =
     (if peek_is ''AND'' ts
      then bind_result (unary n len (tl ts) cost) (\<lambda>(r, ts1, cost1).
             and_loop n len (Q_And l r) ts1 (cost1 + 1))
      else Inr (l, ts, cost))"
| "unary 0 len ts cost = Inl Out_Of_Fuel"
| "unary (Suc n) len ts cost =
     (if peek_is ''NOT'' ts
      then bind_result (unary n len (tl ts) (cost + 2)) (\<lambda>(q, ts1, cost1). Inr (Q_Not q, ts1, cost1))
      else if peek_is ''('' ts
      then bind_result (expression n len (tl ts) cost) (\<lambda>(q, ts1, cost1).
           bind_result (expect len '')'' ts1) (\<lambda>ts2. Inr (q, ts2, cost1)))
      else parse_term len ts cost)"
  by pat_completeness auto

termination
  by (relation "measure (\<lambda>a. case a of
         Inl (Inl (n, _)) \<Rightarrow> n | Inl (Inr (n, _)) \<Rightarrow> n
       | Inr (Inl (n, _)) \<Rightarrow> n | Inr (Inr (Inl (n, _))) \<Rightarrow> n | Inr (Inr (Inr (n, _))) \<Rightarrow> n)") auto

definition parse_tokens :: "nat \<Rightarrow> token list \<Rightarrow> (query_error, query \<times> nat) result" where
  "parse_tokens len ts =
     (if ts = [] then Inl (Query_Error INVALID_QUERY 0)
      else bind_result (expression (3 * length ts + 3) len ts 0) (\<lambda>(q, rest, cost).
             if rest \<noteq> [] then Inl (invalid_at len rest) else Inr (q, cost)))"

definition parseAdvancedQuery :: "string \<Rightarrow> (query_error, query \<times> nat) result" where
  "parseAdvancedQuery source =
     (if length source > MAX_QUERY_LENGTH then Inl (Query_Error QUERY_TOO_COMPLEX MAX_QUERY_LENGTH)
      else bind_result (tokenize 0 source) (parse_tokens (length source)))"

section \<open>Compilation to a database filter\<close>

text \<open>
  A filter is the object literal the code builds. An unsigned number may have any size; the
  code's \<open>Number\<close> is exact up to 2^53.
\<close>

datatype filter_value =
    V_Str string
  | V_Num nat
  | V_Date time
  | V_List "string list"
  | V_Arr "filter_value list"
  | V_Obj "(string \<times> filter_value) list"

definition insensitive :: "string \<times> filter_value" where
  "insensitive = (''mode'', V_Str ''insensitive'')"

definition comparison :: "operator \<Rightarrow> string list \<Rightarrow> filter_value" where
  "comparison op vs =
     (case op of
        In \<Rightarrow> V_Obj [(''in'', V_List vs)]
      | Not_In \<Rightarrow> V_Obj [(''notIn'', V_List vs)]
      | Ne \<Rightarrow> V_Obj [(''not'', V_Str (hd vs))]
      | Gt \<Rightarrow> V_Obj [(''gt'', V_Str (hd vs))]
      | Ge \<Rightarrow> V_Obj [(''gte'', V_Str (hd vs))]
      | Lt \<Rightarrow> V_Obj [(''lt'', V_Str (hd vs))]
      | Le \<Rightarrow> V_Obj [(''lte'', V_Str (hd vs))]
      | Like \<Rightarrow> V_Obj [(''contains'', V_Str (hd vs)), insensitive]
      | Eq \<Rightarrow> V_Str (hd vs))"

definition textComparison :: "operator \<Rightarrow> string \<Rightarrow> filter_value" where
  "textComparison op v =
     V_Obj [(if op = Ne then ''not'' else if op = Like then ''contains'' else ''equals'', V_Str v), insensitive]"

definition list_or_text :: "operator \<Rightarrow> string list \<Rightarrow> filter_value" where
  "list_or_text op vs =
     (if ends_with_IN op then V_Obj [(''in'', V_List vs), insensitive] else textComparison op (hd vs))"

definition userPredicate :: "string \<Rightarrow> operator \<Rightarrow> string list \<Rightarrow> filter_value" where
  "userPredicate f op vs =
     V_Obj [(f, V_Obj [(''is'', V_Obj [(''OR'', V_Arr [V_Obj [(''name'', list_or_text op vs)],
                                                       V_Obj [(''email'', list_or_text op vs)]])])])]"

definition relationPredicate :: "string \<Rightarrow> string \<Rightarrow> string \<Rightarrow> operator \<Rightarrow> string list \<Rightarrow> filter_value" where
  "relationPredicate relation nested f op vs =
     V_Obj [(relation, V_Obj [(if op = Ne \<or> op = Not_In then ''none'' else ''some'',
                               V_Obj [(nested, V_Obj [(f, list_or_text op vs)])])])]"

text \<open>\<open>/^(-?\d+)([dhw])$/\<close> with the unit in milliseconds.\<close>

definition relative_duration :: "string \<Rightarrow> int option" where
  "relative_duration v =
     (let neg = (v \<noteq> [] \<and> hd v = CHR ''-'');
          body = (if neg then tl v else v);
          ds = butlast body;
          n = (if neg then - int_of_digits ds else int_of_digits ds)
      in if ds = [] \<or> \<not> list_all is_digit ds then None
         else if last body = CHR ''d'' then Some (n * 86400000)
         else if last body = CHR ''h'' then Some (n * 3600000)
         else if last body = CHR ''w'' then Some (n * 604800000)
         else None)"

definition relativeDate :: "string \<Rightarrow> time \<Rightarrow> time option" where
  "relativeDate v now =
     (if v = ''now'' then Some now
      else if v = ''today'' then Some (utc_midnight now)
      else case relative_duration v of Some d \<Rightarrow> Some (now + d) | None \<Rightarrow> parse_iso_date v)"

definition dateComparison :: "operator \<Rightarrow> string \<Rightarrow> time \<Rightarrow> (query_error, filter_value) result" where
  "dateComparison op v now =
     (case relativeDate v now of
        None \<Rightarrow> Inl (Query_Error INVALID_QUERY 0)
      | Some d \<Rightarrow> Inr (V_Obj [(case op of Gt \<Rightarrow> ''gt'' | Ge \<Rightarrow> ''gte'' | Lt \<Rightarrow> ''lt'' | Le \<Rightarrow> ''lte''
                                       | Ne \<Rightarrow> ''not'' | _ \<Rightarrow> ''equals'', V_Date d)]))"

text \<open>\<open>/^([A-Z][A-Z0-9]{1,9})-(\d+)$/i\<close>\<close>

definition issue_key :: "string \<Rightarrow> (string \<times> nat) option" where
  "issue_key v =
     (let k = takeWhile (\<lambda>c. c \<noteq> CHR ''-'') v; ds = drop (length k + 1) v
      in if 2 \<le> length k \<and> length k \<le> 10 \<and> (is_lower (hd k) \<or> is_upper (hd k)) \<and> list_all is_alnum k
            \<and> ds \<noteq> [] \<and> list_all is_digit ds
         then Some (to_upper k, digits_value 0 ds) else None)"

definition compile_term :: "time \<Rightarrow> query_field \<Rightarrow> operator \<Rightarrow> string list \<Rightarrow> (query_error, filter_value) result" where
  "compile_term now f op vs =
     (let v = hd vs; scalar = comparison op vs;
          on_date = (\<lambda>column. bind_result (dateComparison op v now) (\<lambda>d. Inr (V_Obj [(column, d)])))
      in case f of
        F_Summary \<Rightarrow> Inr (V_Obj [(''summary'', textComparison op v)])
      | F_Description \<Rightarrow> Inr (V_Obj [(''description'', V_Obj [(''string_contains'', V_Str v)])])
      | F_Text \<Rightarrow> Inr (V_Obj [(''OR'', V_Arr [V_Obj [(''summary'', V_Obj [(''contains'', V_Str v), insensitive])],
                                        V_Obj [(''description'', V_Obj [(''string_contains'', V_Str v)])]])])
      | F_Key \<Rightarrow> Inr (case issue_key v of
            Some (k, n) \<Rightarrow> V_Obj [(''project'', V_Obj [(''key'', V_Str k)]), (''number'', V_Num n)]
          | None \<Rightarrow> V_Obj [(''id'', V_Str ''__no_match__'')])
      | F_Project \<Rightarrow> Inr (V_Obj [(''project'', V_Obj [(''key'', scalar)])])
      | F_Type \<Rightarrow> Inr (V_Obj [(''issueType'', V_Obj [(''name'', scalar)])])
      | F_Status \<Rightarrow> Inr (V_Obj [(''status'', V_Obj [(''name'', scalar)])])
      | F_Assignee \<Rightarrow> Inr (userPredicate ''assignee'' op vs)
      | F_Reporter \<Rightarrow> Inr (userPredicate ''reporter'' op vs)
      | F_Priority \<Rightarrow> Inr (V_Obj [(''priority'', scalar)])
      | F_Label \<Rightarrow> Inr (relationPredicate ''labels'' ''label'' ''name'' op vs)
      | F_Sprint \<Rightarrow> Inr (relationPredicate ''sprintIssues'' ''sprint'' ''name'' op vs)
      | F_Release \<Rightarrow> Inr (relationPredicate ''releases'' ''release'' ''name'' op vs)
      | F_Parent \<Rightarrow> Inr (V_Obj [(''parent'', V_Obj [(''is'', V_Obj [(''summary'', textComparison op v)])])])
      | F_Link \<Rightarrow> Inr (V_Obj [(''OR'', V_Arr
            [V_Obj [(''outwardLinks'', V_Obj [(''some'', V_Obj [(''type'', textComparison op v)])])],
             V_Obj [(''inwardLinks'', V_Obj [(''some'', V_Obj [(''type'', textComparison op v)])])]])])
      | F_RequestType \<Rightarrow> Inr (V_Obj [(''serviceRequest'', V_Obj [(''requestType'', V_Obj [(''name'', textComparison op v)])])])
      | F_Created \<Rightarrow> on_date ''createdAt''
      | F_Updated \<Rightarrow> on_date ''updatedAt''
      | F_Due \<Rightarrow> on_date ''dueDate''
      | F_Resolved \<Rightarrow> on_date ''completedAt'')"

fun compile :: "time \<Rightarrow> query \<Rightarrow> (query_error, filter_value) result" where
  "compile now (Q_And l r) = bind_result (compile now l) (\<lambda>a. bind_result (compile now r) (\<lambda>b.
     Inr (V_Obj [(''AND'', V_Arr [a, b])])))"
| "compile now (Q_Or l r) = bind_result (compile now l) (\<lambda>a. bind_result (compile now r) (\<lambda>b.
     Inr (V_Obj [(''OR'', V_Arr [a, b])])))"
| "compile now (Q_Not q) = bind_result (compile now q) (\<lambda>a. Inr (V_Obj [(''NOT'', a)]))"
| "compile now (Q_Term f op vs) = compile_term now f op vs"

definition compileAdvancedQuery :: "time \<Rightarrow> string \<Rightarrow> (query_error, filter_value \<times> nat) result" where
  "compileAdvancedQuery now source =
     bind_result (parseAdvancedQuery source) (\<lambda>(q, cost).
     bind_result (compile now q) (\<lambda>w. Inr (w, cost)))"

section \<open>Every step of the parser consumes tokens, so the fuel is enough\<close>

lemma value_list_shorter: "value_list len ts = Inr (vs, rest) \<Longrightarrow> length rest < length ts"
  by (induction len ts arbitrary: vs rest rule: value_list.induct)
    (fastforce simp: result_elims split: if_splits list.splits)+

lemma expect_shorter: "expect len v ts = Inr rest \<Longrightarrow> length rest < length ts"
  by (cases ts) (auto simp: expect_def peek_is_def split: if_splits)

lemma operand_shorter: "operand len op ts = Inr (vs, rest) \<Longrightarrow> length rest < length ts"
  by (cases ts)
    (auto simp: operand_def result_elims split: if_splits dest!: expect_shorter value_list_shorter)

lemma read_operator_shorter: "read_operator len ts = Inr (op, rest) \<Longrightarrow> length rest < length ts"
  by (cases ts) (auto simp: read_operator_def split: if_splits option.splits)

lemma parse_term_shorter: "parse_term len ts cost = Inr (q, rest, c) \<Longrightarrow> length rest < length ts"
  by (auto simp: parse_term_def result_elims Let_def split: if_splits
      dest!: read_operator_shorter operand_shorter)

lemma parser_shorter:
  "expression n len ts cost = Inr (q, rest, c) \<Longrightarrow> length rest < length ts"
  "or_loop n len l ts cost = Inr (q, rest, c) \<Longrightarrow> length rest \<le> length ts"
  "conjunction n len ts cost = Inr (q, rest, c) \<Longrightarrow> length rest < length ts"
  "and_loop n len l ts cost = Inr (q, rest, c) \<Longrightarrow> length rest \<le> length ts"
  "unary n len ts cost = Inr (q, rest, c) \<Longrightarrow> length rest < length ts"
proof (induction n len ts cost and n len l ts cost and n len ts cost and n len l ts cost and n len ts cost
    arbitrary: q rest c and q rest c and q rest c and q rest c and q rest c
    rule: expression_or_loop_conjunction_and_loop_unary.induct)
  case (4 n len l ts cost)
  then show ?case by (cases ts) (fastforce simp: result_elims peek_is_def split: if_splits)+
next
  case (8 n len l ts cost)
  then show ?case by (cases ts) (fastforce simp: result_elims peek_is_def split: if_splits)+
next
  case (10 n len ts cost)
  then show ?case
    by (cases ts) (fastforce simp: result_elims peek_is_def split: if_splits dest!: expect_shorter parse_term_shorter)+
qed (fastforce simp: result_elims)+

lemma no_fuel_error [simp]:
  "invalid_at len ts \<noteq> Out_Of_Fuel" "Out_Of_Fuel \<noteq> invalid_at len ts"
  by (simp_all add: invalid_at_def)

lemma expect_no_fuel [simp]: "expect len v ts \<noteq> Inl Out_Of_Fuel"
  by (simp add: expect_def)

lemma value_list_no_fuel [simp]: "value_list len ts \<noteq> Inl Out_Of_Fuel"
  by (induction len ts rule: value_list.induct) (auto simp: result_elims split: list.splits)

lemma operand_no_fuel [simp]: "operand len op ts \<noteq> Inl Out_Of_Fuel"
  by (auto simp: operand_def result_elims)

lemma parse_term_no_fuel [simp]: "parse_term len ts cost \<noteq> Inl Out_Of_Fuel"
  by (auto simp: parse_term_def read_field_def read_operator_def result_elims Let_def
      split: if_splits list.splits option.splits)

lemma peek_is_length: "peek_is v ts \<Longrightarrow> length ts = Suc (length (tl ts))"
  by (cases ts) (auto simp: peek_is_def)

lemma parser_fuel:
  "3 * length ts + 3 \<le> n \<Longrightarrow> expression n len ts cost \<noteq> Inl Out_Of_Fuel"
  "3 * length ts + 1 \<le> n \<Longrightarrow> or_loop n len l ts cost \<noteq> Inl Out_Of_Fuel"
  "3 * length ts + 2 \<le> n \<Longrightarrow> conjunction n len ts cost \<noteq> Inl Out_Of_Fuel"
  "3 * length ts + 1 \<le> n \<Longrightarrow> and_loop n len l ts cost \<noteq> Inl Out_Of_Fuel"
  "3 * length ts + 1 \<le> n \<Longrightarrow> unary n len ts cost \<noteq> Inl Out_Of_Fuel"
proof (induction n len ts cost and n len l ts cost and n len ts cost and n len l ts cost and n len ts cost
    rule: expression_or_loop_conjunction_and_loop_unary.induct)
  case (2 n len ts cost)
  have "or_loop n len l ts1 c \<noteq> Inl Out_Of_Fuel" if "conjunction n len ts cost = Inr (l, ts1, c)" for l ts1 c
    by (rule "2.IH"(2)) (use "2.prems" parser_shorter(3) [OF that] in linarith)
  moreover have "conjunction n len ts cost \<noteq> Inl Out_Of_Fuel" by (rule "2.IH"(1)) (use "2.prems" in simp)
  ultimately show ?case by (simp add: bind_result_eq_Inl; blast)
next
  case (4 n len l ts cost)
  have "or_loop n len (Q_Or l r) ts1 (c + 3) \<noteq> Inl Out_Of_Fuel"
    if "peek_is ''OR'' ts" "conjunction n len (tl ts) cost = Inr (r, ts1, c)" for r ts1 c
    by (rule "4.IH"(2) [OF that(1)]) (use "4.prems" parser_shorter(3) [OF that(2)] peek_is_length [OF that(1)] in linarith)
  moreover have "conjunction n len (tl ts) cost \<noteq> Inl Out_Of_Fuel" if "peek_is ''OR'' ts"
    by (rule "4.IH"(1) [OF that]) (use "4.prems" peek_is_length [OF that] in linarith)
  ultimately show ?case by (simp add: bind_result_eq_Inl; blast)
next
  case (6 n len ts cost)
  have "and_loop n len l ts1 c \<noteq> Inl Out_Of_Fuel" if "unary n len ts cost = Inr (l, ts1, c)" for l ts1 c
    by (rule "6.IH"(2)) (use "6.prems" parser_shorter(5) [OF that] in linarith)
  moreover have "unary n len ts cost \<noteq> Inl Out_Of_Fuel" by (rule "6.IH"(1)) (use "6.prems" in simp)
  ultimately show ?case by (simp add: bind_result_eq_Inl; blast)
next
  case (8 n len l ts cost)
  have "and_loop n len (Q_And l r) ts1 (c + 1) \<noteq> Inl Out_Of_Fuel"
    if "peek_is ''AND'' ts" "unary n len (tl ts) cost = Inr (r, ts1, c)" for r ts1 c
    by (rule "8.IH"(2) [OF that(1)]) (use "8.prems" parser_shorter(5) [OF that(2)] peek_is_length [OF that(1)] in linarith)
  moreover have "unary n len (tl ts) cost \<noteq> Inl Out_Of_Fuel" if "peek_is ''AND'' ts"
    by (rule "8.IH"(1) [OF that]) (use "8.prems" peek_is_length [OF that] in linarith)
  ultimately show ?case by (simp add: bind_result_eq_Inl; blast)
next
  case (10 n len ts cost)
  have "unary n len (tl ts) (cost + 2) \<noteq> Inl Out_Of_Fuel" if "peek_is ''NOT'' ts"
    by (rule "10.IH"(1) [OF that]) (use "10.prems" peek_is_length [OF that] in linarith)
  moreover have "expression n len (tl ts) cost \<noteq> Inl Out_Of_Fuel" if "\<not> peek_is ''NOT'' ts" "peek_is ''('' ts"
    by (rule "10.IH"(2) [OF that]) (use "10.prems" peek_is_length [OF that(2)] in linarith)
  ultimately show ?case by (simp add: bind_result_eq_Inl case_prod_unfold; blast)
qed auto

lemma cons_token_fuel [simp]: "cons_token v off r = Inl Out_Of_Fuel \<longleftrightarrow> r = Inl Out_Of_Fuel"
  by (simp add: cons_token_def result_elims)

lemma tokenize_fuel: "tokenize index s \<noteq> Inl Out_Of_Fuel"
  by (induction index s rule: tokenize.induct)
    (auto simp: tokenize.simps(2) Let_def split: option.splits prod.splits)

text \<open>
  C10: Parsing always comes to a result: the fuel of the model, three units a token and three more,
  is never exhausted, so every query is either parsed or refused with a code and an offset.
\<close>

theorem parse_needs_no_more_fuel: "parseAdvancedQuery source \<noteq> Inl Out_Of_Fuel"
  using tokenize_fuel parser_fuel(1)
  by (auto simp: parseAdvancedQuery_def parse_tokens_def result_elims)

section \<open>Printing a query and parsing it back\<close>

definition escape :: "string \<Rightarrow> string" where
  "escape v = concat (map (\<lambda>c. if c = CHR 0x22 \<or> c = CHR 0x5C then [CHR 0x5C, c] else [c]) v)"

definition quote :: "string \<Rightarrow> string" where
  "quote v = CHR 0x22 # escape v @ [CHR 0x22]"

text \<open>The pieces of a printed query: the text of each token and the value it must lex to.\<close>

type_synonym piece = "string \<times> string"

definition plain :: "string \<Rightarrow> piece" where "plain w = (w, w)"
definition literal :: "string \<Rightarrow> piece" where "literal v = (quote v, v)"

fun print_values :: "string list \<Rightarrow> piece list" where
  "print_values [] = []"
| "print_values [v] = [literal v]"
| "print_values (v # w # vs) = literal v # plain '','' # print_values (w # vs)"

definition print_operator :: "operator \<Rightarrow> piece list" where
  "print_operator op = (if op = Not_In then [plain ''NOT'', plain ''IN''] else [plain (operator_name op)])"

definition print_operand :: "operator \<Rightarrow> string list \<Rightarrow> piece list" where
  "print_operand op vs =
     (if ends_with_IN op then plain ''('' # print_values vs @ [plain '')''] else [literal (hd vs)])"

fun print_query :: "query \<Rightarrow> piece list" where
  "print_query (Q_And l r) = plain ''('' # print_query l @ plain ''AND'' # print_query r @ [plain '')'']"
| "print_query (Q_Or l r) = plain ''('' # print_query l @ plain ''OR'' # print_query r @ [plain '')'']"
| "print_query (Q_Not q) = plain ''NOT'' # print_query q"
| "print_query (Q_Term f op vs) = plain (field_name f) # print_operator op @ print_operand op vs"

definition show_query :: "query \<Rightarrow> string" where
  "show_query q = concat (map (\<lambda>p. fst p @ '' '') (print_query q))"

fun query_cost :: "query \<Rightarrow> nat" where
  "query_cost (Q_And l r) = query_cost l + query_cost r + 1"
| "query_cost (Q_Or l r) = query_cost l + query_cost r + 3"
| "query_cost (Q_Not q) = query_cost q + 2"
| "query_cost (Q_Term f op vs) = term_cost f op vs"

text \<open>
  The budget is only tested at the end of a term, before the connectives around it are charged:
  \<open>peak_cost\<close> is the largest value the test sees.
\<close>

fun peak_cost :: "query \<Rightarrow> nat" where
  "peak_cost (Q_And l r) = max (peak_cost l) (query_cost l + peak_cost r)"
| "peak_cost (Q_Or l r) = max (peak_cost l) (query_cost l + peak_cost r)"
| "peak_cost (Q_Not q) = peak_cost q + 2"
| "peak_cost (Q_Term f op vs) = term_cost f op vs"

text \<open>
  What the grammar can express: every field but \<open>requestType\<close>, at least one value (exactly one
  without a list), and no value that is a bare delimiter.
\<close>

fun expressible :: "query \<Rightarrow> bool" where
  "expressible (Q_And l r) \<longleftrightarrow> expressible l \<and> expressible r"
| "expressible (Q_Or l r) \<longleftrightarrow> expressible l \<and> expressible r"
| "expressible (Q_Not q) \<longleftrightarrow> expressible q"
| "expressible (Q_Term f op vs) \<longleftrightarrow> f \<noteq> F_RequestType \<and>
     (if ends_with_IN op then vs \<noteq> [] \<and> set vs \<inter> {'')'', '',''} = {}
      else length vs = 1 \<and> hd vs \<notin> {''('', '')'', '',''})"

lemma fields_lex:
  "list_all (\<lambda>f. f \<noteq> F_RequestType \<longrightarrow> find (\<lambda>g. field_name g = to_lower (field_name f)) QUERY_FIELDS = Some f) QUERY_FIELDS"
  "list_all (\<lambda>f. to_upper (field_name f) \<noteq> ''NOT'' \<and> to_upper (field_name f) \<noteq> ''('') QUERY_FIELDS"
  "list_all (\<lambda>f. to_lower (field_name f) \<noteq> field_name F_RequestType) QUERY_FIELDS"
  by (simp_all add: QUERY_FIELDS_def ascii_simps)

lemma all_fields [simp]: "f \<in> set QUERY_FIELDS"
  by (cases f) (simp_all add: QUERY_FIELDS_def)

lemma read_field_plain:
  assumes "f \<noteq> F_RequestType" and "tk_value t = field_name f"
  shows "read_field len (t # ts) = Inr f"
  using fields_lex(1) assms by (auto simp: read_field_def list_all_iff)

lemma peek_not_field: "tk_value t = field_name f \<Longrightarrow> \<not> peek_is ''NOT'' (t # ts) \<and> \<not> peek_is ''('' (t # ts)"
  using fields_lex(2) by (auto simp: peek_is_def list_all_iff)

lemma snd_pieces [simp]: "snd (plain w) = w" "snd (literal v) = v"
  by (simp_all add: plain_def literal_def)

lemma keywords_upper [simp]:
  "to_upper ''NOT'' = ''NOT''" "to_upper ''IN'' = ''IN''" "to_upper ''AND'' = ''AND''" "to_upper ''OR'' = ''OR''"
  "to_upper ''('' = ''(''" "to_upper '')'' = '')''" "to_upper '','' = '',''"
  by (simp_all add: ascii_simps)

lemma peek_is_Cons [simp]: "peek_is v (t # ts) \<longleftrightarrow> to_upper (tk_value t) = v"
  by (simp add: peek_is_def)

lemma operators_lex:
  "list_all (\<lambda>op. find (\<lambda>o'. operator_name o' = to_upper (operator_name op)) OPERATORS = Some op) OPERATORS"
  "list_all (\<lambda>op. to_upper (operator_name op) \<noteq> ''NOT'') OPERATORS"
  by (simp_all add: OPERATORS_def ascii_simps)

lemma all_operators [simp]: "op \<in> set OPERATORS"
  by (cases op) (simp_all add: OPERATORS_def)

lemma read_operator_printed:
  assumes "map tk_value ts = map snd (print_operator op)"
  shows "read_operator len (ts @ rest) = Inr (op, rest)"
proof (cases "op = Not_In")
  case True
  with assms obtain a b where "ts = [a, b]" "tk_value a = ''NOT''" "tk_value b = ''IN''"
    by (auto simp: print_operator_def map_eq_Cons_conv)
  with True show ?thesis by (simp add: read_operator_def)
next
  case False
  with assms obtain a where "ts = [a]" and a: "tk_value a = operator_name op"
    by (auto simp: print_operator_def map_eq_Cons_conv)
  then show ?thesis using operators_lex by (simp add: read_operator_def list_all_iff)
qed

lemma value_list_printed:
  assumes "map tk_value ts = map snd (print_values vs)" and "vs \<noteq> []" and "set vs \<inter> {'')'', '',''} = {}"
    and "to_upper (tk_value c) \<noteq> '',''"
  shows "value_list len (ts @ c # rest) = Inr (vs, c # rest)"
  using assms
  by (induction vs arbitrary: ts rule: print_values.induct) (auto simp: map_eq_Cons_conv)

lemma operand_printed:
  assumes "map tk_value ts = map snd (print_operand op vs)"
    and "if ends_with_IN op then vs \<noteq> [] \<and> set vs \<inter> {'')'', '',''} = {}
         else length vs = 1 \<and> hd vs \<notin> {''('', '')'', '',''}"
  shows "operand len op (ts @ rest) = Inr (vs, rest)"
proof (cases "ends_with_IN op")
  case True
  with assms(1) obtain a us c where ts: "ts = a # us @ [c]" and a: "tk_value a = ''(''" "tk_value c = '')''"
      "map tk_value us = map snd (print_values vs)"
    by (auto simp: print_operand_def map_eq_Cons_conv map_eq_append_conv)
  have "value_list len (us @ c # rest) = Inr (vs, c # rest)"
    by (rule value_list_printed) (use True assms(2) a in auto)
  with True ts a show ?thesis by (simp add: operand_def expect_def)
next
  case False
  with assms show ?thesis
    by (auto simp: print_operand_def operand_def map_eq_Cons_conv length_Suc_conv)
qed

lemma parse_term_printed:
  assumes "map tk_value ts = map snd (print_query (Q_Term f op vs))" and "expressible (Q_Term f op vs)"
    and "cost + term_cost f op vs \<le> MAX_QUERY_COST"
  shows "parse_term len (ts @ rest) cost = Inr (Q_Term f op vs, rest, cost + term_cost f op vs)"
proof -
  obtain t us ws where ts: "ts = t # us @ ws" and t: "tk_value t = field_name f"
    and us: "map tk_value us = map snd (print_operator op)" and ws: "map tk_value ws = map snd (print_operand op vs)"
    using assms(1) by (auto simp: map_eq_Cons_conv map_eq_append_conv)
  have "operand len op (ws @ rest) = Inr (vs, rest)"
    by (rule operand_printed [OF ws]) (use assms(2) in auto)
  then show ?thesis
    using ts t assms(2,3) read_operator_printed [OF us, of len "ws @ rest"]
    by (simp add: parse_term_def read_field_plain [of f t] Let_def)
qed

lemma tokens_binary:
  assumes "map tk_value ts = x # xs @ y # ys @ [z]"
  obtains a us b vs c where "ts = a # us @ b # vs @ [c]" "tk_value a = x" "map tk_value us = xs"
    "tk_value b = y" "map tk_value vs = ys" "tk_value c = z"
proof -
  obtain a rest where "ts = a # rest" "tk_value a = x" "map tk_value rest = xs @ y # ys @ [z]"
    using assms by (auto simp: map_eq_Cons_conv)
  moreover from this(3) obtain us rest1 where "rest = us @ rest1" "map tk_value us = xs" "map tk_value rest1 = y # ys @ [z]"
    by (auto simp: map_eq_append_conv)
  moreover from this(3) obtain b rest2 where "rest1 = b # rest2" "tk_value b = y" "map tk_value rest2 = ys @ [z]"
    by (auto simp: map_eq_Cons_conv)
  moreover from this(3) obtain vs c where "rest2 = vs @ [c]" "map tk_value vs = ys" "tk_value c = z"
    by (auto simp: map_eq_append_conv)
  ultimately show thesis using that by simp
qed

lemma unary_printed:
  "map tk_value ts = map snd (print_query q) \<Longrightarrow> expressible q \<Longrightarrow> cost + peak_cost q \<le> MAX_QUERY_COST \<Longrightarrow>
   3 * length ts + 1 \<le> n \<Longrightarrow> unary n len (ts @ rest) cost = Inr (q, rest, cost + query_cost q)"
proof (induction q arbitrary: ts cost n rest)
  case (Q_And l r)
  obtain a ls b rs c where ts: "ts = a # ls @ b # rs @ [c]" and v: "tk_value a = ''(''" "tk_value b = ''AND''" "tk_value c = '')''"
    and ls: "map tk_value ls = map snd (print_query l)" and rs: "map tk_value rs = map snd (print_query r)"
    by (rule tokens_binary [of ts "''(''" "map snd (print_query l)" "''AND''" "map snd (print_query r)" "'')''"])
      (use Q_And.prems(1) in auto)
  obtain k where n: "n = Suc (Suc (Suc (Suc k)))" and k: "3 * length ls + 1 \<le> Suc k" "3 * length rs + 1 \<le> k"
    using Q_And.prems(4) ts by (cases n; cases "n - 1"; cases "n - 2"; cases "n - 3") auto
  have "unary (Suc k) len (ls @ b # rs @ c # rest) cost = Inr (l, b # rs @ c # rest, cost + query_cost l)"
    by (rule Q_And.IH(1) [OF ls]) (use Q_And.prems k in auto)
  moreover have "unary k len (rs @ c # rest) (cost + query_cost l) = Inr (r, c # rest, cost + query_cost l + query_cost r)"
    by (rule Q_And.IH(2) [OF rs]) (use Q_And.prems k in auto)
  moreover obtain k' where "k = Suc k'" using k(2) by (cases k) auto
  ultimately show ?case using v by (simp add: n ts expect_def)
next
  case (Q_Or l r)
  obtain a ls b rs c where ts: "ts = a # ls @ b # rs @ [c]" and v: "tk_value a = ''(''" "tk_value b = ''OR''" "tk_value c = '')''"
    and ls: "map tk_value ls = map snd (print_query l)" and rs: "map tk_value rs = map snd (print_query r)"
    by (rule tokens_binary [of ts "''(''" "map snd (print_query l)" "''OR''" "map snd (print_query r)" "'')''"])
      (use Q_Or.prems(1) in auto)
  obtain k where n: "n = Suc (Suc (Suc (Suc k)))" and k: "3 * length ls + 1 \<le> Suc k" "3 * length rs + 1 \<le> k"
    using Q_Or.prems(4) ts by (cases n; cases "n - 1"; cases "n - 2"; cases "n - 3") auto
  have "unary (Suc k) len (ls @ b # rs @ c # rest) cost = Inr (l, b # rs @ c # rest, cost + query_cost l)"
    by (rule Q_Or.IH(1) [OF ls]) (use Q_Or.prems k in auto)
  moreover have "unary k len (rs @ c # rest) (cost + query_cost l) = Inr (r, c # rest, cost + query_cost l + query_cost r)"
    by (rule Q_Or.IH(2) [OF rs]) (use Q_Or.prems k in auto)
  moreover obtain k' where "k = Suc k'" using k(2) by (cases k) auto
  ultimately show ?case using v by (simp add: n ts expect_def)
next
  case (Q_Not q)
  obtain a us where ts: "ts = a # us" and v: "tk_value a = ''NOT''" and us: "map tk_value us = map snd (print_query q)"
    using Q_Not.prems(1) by (auto simp: map_eq_Cons_conv)
  obtain k where n: "n = Suc k" and k: "3 * length us + 1 \<le> k" using Q_Not.prems(4) ts by (cases n) auto
  have "unary k len (us @ rest) (cost + 2) = Inr (q, rest, cost + 2 + query_cost q)"
    by (rule Q_Not.IH [OF us]) (use Q_Not.prems k in auto)
  then show ?case using v by (simp add: n ts)
next
  case (Q_Term f op vs)
  obtain t us where ts: "ts = t # us" and t: "tk_value t = field_name f"
    using Q_Term.prems(1) by (auto simp: map_eq_Cons_conv)
  have "\<not> peek_is ''NOT'' (ts @ rest)" "\<not> peek_is ''('' (ts @ rest)"
    using peek_not_field [OF t] ts by simp_all
  moreover obtain k where "n = Suc k" using Q_Term.prems(4) by (cases n) auto
  ultimately show ?case using parse_term_printed [OF Q_Term.prems(1,2)] Q_Term.prems(3) by simp
qed

lemma parse_tokens_printed:
  assumes "map tk_value ts = map snd (print_query q)" and "expressible q" and "peak_cost q \<le> MAX_QUERY_COST"
  shows "parse_tokens len ts = Inr (q, query_cost q)"
proof -
  have ne: "ts \<noteq> []" using assms(1) by (cases q) auto
  have "unary (3 * length ts + 1) len (ts @ []) 0 = Inr (q, [], 0 + query_cost q)"
    by (rule unary_printed) (use assms in auto)
  then show ?thesis using ne by (simp add: parse_tokens_def numeral_3_eq_3 peek_is_def)
qed

text \<open>The lexer reads each printed piece, followed by a space, as the piece's value.\<close>

definition lexes :: "piece \<Rightarrow> bool" where
  "lexes p \<longleftrightarrow> (\<forall>index rest. \<exists>off index'.
     tokenize index (fst p @ '' '' @ rest) = cons_token (snd p) off (tokenize index' rest))"

lemma is_space_blank [simp]: "is_space CHR '' ''"
  by (simp add: is_space_def of_char_def)

lemma tokenize_space [simp]: "tokenize index (CHR '' '' # rest) = tokenize (index + 1) rest"
  by (simp add: tokenize.simps(2) is_space_def of_char_def)

lemma lexes_pieces:
  assumes "list_all lexes ps"
  shows "\<exists>ts. tokenize index (concat (map (\<lambda>p. fst p @ '' '') ps)) = Inr ts \<and> map tk_value ts = map snd ps"
  using assms
proof (induction ps arbitrary: index)
  case (Cons p ps)
  let ?rest = "concat (map (\<lambda>p. fst p @ '' '') ps)"
  obtain off index' where "tokenize index (fst p @ '' '' @ ?rest) = cons_token (snd p) off (tokenize index' ?rest)"
    using Cons.prems unfolding lexes_def list.pred_inject by blast
  moreover obtain ts where "tokenize index' ?rest = Inr ts" "map tk_value ts = map snd ps"
    using Cons by auto
  ultimately show ?case by (auto simp: cons_token_def)
qed simp

lemma lexes_delimiter: "c \<in> set ''(),'' \<Longrightarrow> lexes (plain [c])"
  by (auto simp: lexes_def plain_def tokenize.simps(2) is_space_def of_char_def intro: exI)

lemma lexes_operator:
  assumes "op \<noteq> In" "op \<noteq> Not_In" shows "lexes (plain (operator_name op))"
proof -
  have "list_all (\<lambda>o'. o' = In \<or> o' = Not_In \<or> (operator_name o' \<noteq> [] \<and> \<not> is_space (hd (operator_name o'))
      \<and> hd (operator_name o') \<notin> set ''(),'')) OPERATORS"
    by (simp add: OPERATORS_def is_space_def of_char_def)
  then obtain c cs where o': "operator_name op = c # cs" "\<not> is_space c" "c \<notin> set ''(),''"
    using assms unfolding list_all_iff by (metis all_operators list.collapse)
  have "operator_prefix (operator_name op @ '' '' @ rest) = Some (operator_name op)" for rest
    using assms by (cases op) (simp_all add: operator_prefix_def starts_with_def)
  with o' show ?thesis
    by (auto simp: lexes_def plain_def tokenize.simps(2) [of _ c] intro!: exI)
qed

lemma lexes_word:
  assumes "w \<noteq> []" and "list_all word_char w" and "hd w \<noteq> CHR 0x22"
  shows "lexes (plain w)"
proof -
  obtain c cs where w: "w = c # cs" using assms(1) by (cases w) auto
  have c: "word_char c" "\<not> is_space c" "c \<notin> set ''(),=<>!~''" using assms(2) w by (auto simp: word_char_def)
  have "operator_prefix (w @ rest) = None" for rest
    using c(3) w by (auto simp: operator_prefix_def find_None_iff' starts_with_def)
  moreover have "takeWhile word_char (w @ '' '' @ rest) = w" "dropWhile word_char (w @ '' '' @ rest) = '' '' @ rest" for rest
    using assms(2) by (auto simp: list_all_iff takeWhile_append dropWhile_append word_char_def is_space_def of_char_def)
  ultimately show ?thesis
    using w c assms(3)
    by (auto simp: lexes_def plain_def tokenize.simps(2) [of _ c] Let_def simp del: takeWhile.simps dropWhile.simps intro!: exI)
qed

lemma quoted_escape: "quoted (escape v @ CHR 0x22 # rest) = Some (v, rest)"
  by (induction v) (auto simp: escape_def)

lemma lexes_literal: "lexes (literal v)"
proof -
  have "tokenize index (quote v @ '' '' @ rest) =
      cons_token v index (tokenize (index + 1 + (length (escape v @ CHR 0x22 # '' '' @ rest) - length ('' '' @ rest))) ('' '' @ rest))"
    for index rest
    using quoted_escape [of v "'' '' @ rest"]
    by (simp add: quote_def tokenize.simps(2) is_space_def of_char_def operator_prefix_def starts_with_def)
  then show ?thesis by (auto simp: lexes_def literal_def intro!: exI)
qed

lemma words_lex:
  "list_all (\<lambda>f. field_name f \<noteq> [] \<and> list_all word_char (field_name f) \<and> hd (field_name f) \<noteq> CHR 0x22) QUERY_FIELDS"
  "list_all (\<lambda>w. list_all word_char w) [''NOT'', ''IN'', ''AND'', ''OR'']"
  by (simp_all add: QUERY_FIELDS_def word_char_def is_space_def of_char_def)

lemma print_values_lex: "list_all lexes (print_values vs)"
  by (induction vs rule: print_values.induct) (auto intro: lexes_literal lexes_delimiter)

lemma print_query_lex: "list_all lexes (print_query q)"
proof (induction q)
  case (Q_Term f op vs)
  have "lexes (plain (field_name f))"
    by (rule lexes_word) (use words_lex(1) in \<open>auto simp: list_all_iff\<close>)
  moreover have "list_all lexes (print_operator op)"
    using words_lex(2) lexes_word [of "''NOT''"] lexes_word [of "''IN''"] lexes_operator [of op]
    by (cases "op = In") (auto simp: print_operator_def)
  moreover have "list_all lexes (print_operand op vs)"
    by (auto simp: print_operand_def print_values_lex intro: lexes_literal lexes_delimiter)
  ultimately show ?case by simp
qed (use words_lex(2) in \<open>auto intro: lexes_delimiter lexes_word\<close>)

lemma parse_show:
  assumes "expressible q" and "peak_cost q \<le> MAX_QUERY_COST" and "length (show_query q) \<le> MAX_QUERY_LENGTH"
  shows "parseAdvancedQuery (show_query q) = Inr (q, query_cost q)"
proof -
  obtain ts where "tokenize 0 (show_query q) = Inr ts" "map tk_value ts = map snd (print_query q)"
    using lexes_pieces [OF print_query_lex] unfolding show_query_def by blast
  with parse_tokens_printed [OF _ assms(1,2)] assms(3) show ?thesis by (simp add: parseAdvancedQuery_def)
qed

text \<open>
  C3: Parsing inverts printing: the text of a query, with every value quoted and escaped and every
  connective in parentheses, is parsed back to the same query with its cost, whenever it is short
  enough and the budget test accepts it. In particular quoting lets any text be a value.
\<close>

theorem parse_print_round_trip:
  assumes "expressible q" and "query_cost q \<le> MAX_QUERY_COST" and "length (show_query q) \<le> MAX_QUERY_LENGTH"
  shows "parseAdvancedQuery (show_query q) = Inr (q, query_cost q)"
proof (rule parse_show)
  have "peak_cost q \<le> query_cost q" by (induction q) auto
  with assms(2) show "peak_cost q \<le> MAX_QUERY_COST" by simp
qed (use assms in simp_all)

theorem parse_print_round_trip_witness:
  defines "q \<equiv> Q_Not (Q_And (Q_Term F_Status Ne [''Done'']) (Q_Term F_Label Not_In [''a b'', [CHR 0x22]]))"
  shows "parseAdvancedQuery (show_query q) = Inr (q, query_cost q)"
  unfolding q_def
  by (rule parse_print_round_trip)
    (simp_all add: ends_with_IN_def term_cost_def MAX_QUERY_COST_def MAX_QUERY_LENGTH_def show_query_def
      print_operator_def print_operand_def plain_def literal_def quote_def escape_def)

section \<open>Where the language falls short\<close>

fun right_nested :: "nat \<Rightarrow> query" where
  "right_nested 0 = Q_Term F_Text Eq [''a'']"
| "right_nested (Suc n) = Q_Or (Q_Term F_Text Eq [''a'']) (right_nested n)"

lemma right_nested_costs:
  "query_cost (right_nested n) = 8 * n + 5" "peak_cost (right_nested n) = 5 * n + 5" "expressible (right_nested n)"
  by (induction n) (simp_all add: term_cost_def ends_with_IN_def)

text \<open>
  The cost limit does not bound the cost of accepted queries: connectives that close after the
  last term are charged but never tested, and a chain of twenty nested \<open>OR\<close>s over text terms is
  accepted with cost 157.
\<close>

theorem accepted_cost_exceeds_limit:
  "parseAdvancedQuery (show_query (right_nested 19)) = Inr (right_nested 19, 157) \<and> MAX_QUERY_COST < 157"
proof -
  have "length (show_query (right_nested n)) = 18 * n + 11" for n
    by (induction n) (simp_all add: show_query_def print_operator_def print_operand_def plain_def literal_def
        quote_def escape_def ends_with_IN_def)
  then have "length (show_query (right_nested 19)) \<le> MAX_QUERY_LENGTH" by (simp add: MAX_QUERY_LENGTH_def)
  moreover have "peak_cost (right_nested 19) \<le> MAX_QUERY_COST"
    by (simp add: right_nested_costs MAX_QUERY_COST_def)
  ultimately show ?thesis using parse_show [of "right_nested 19"]
    by (simp only: right_nested_costs) (simp add: MAX_QUERY_COST_def)
qed

fun fields_of :: "query \<Rightarrow> query_field set" where
  "fields_of (Q_And l r) = fields_of l \<union> fields_of r"
| "fields_of (Q_Or l r) = fields_of l \<union> fields_of r"
| "fields_of (Q_Not q) = fields_of q"
| "fields_of (Q_Term f op vs) = {f}"

lemma to_lower_idem: "is_upper c \<Longrightarrow> \<not> is_upper (to_lower_char c)"
  by (simp add: to_lower_char_def is_upper_def)

lemma read_field_not_request_type: "read_field len ts = Inr f \<Longrightarrow> f \<noteq> F_RequestType"
proof (cases ts)
  case (Cons t us)
  have "\<exists>c\<in>set (field_name F_RequestType). is_upper c" by (simp add: is_upper_def of_char_def)
  moreover have "\<not> is_upper c" if "c \<in> set (to_lower (tk_value t))" for c
    using that to_lower_idem by (auto simp: to_lower_def to_lower_char_def)
  ultimately have "field_name F_RequestType \<noteq> to_lower (tk_value t)" by metis
  moreover assume "read_field len ts = Inr f"
  ultimately show ?thesis using Cons
    by (auto simp: read_field_def split: option.splits dest!: find_SomeD simp del: field_name.simps)
qed (simp add: read_field_def)

lemma parser_fields:
  "expression n len ts cost = Inr (q, rest, c) \<Longrightarrow> F_RequestType \<notin> fields_of q"
  "or_loop n len l ts cost = Inr (q, rest, c) \<Longrightarrow> F_RequestType \<notin> fields_of l \<Longrightarrow> F_RequestType \<notin> fields_of q"
  "conjunction n len ts cost = Inr (q, rest, c) \<Longrightarrow> F_RequestType \<notin> fields_of q"
  "and_loop n len l ts cost = Inr (q, rest, c) \<Longrightarrow> F_RequestType \<notin> fields_of l \<Longrightarrow> F_RequestType \<notin> fields_of q"
  "unary n len ts cost = Inr (q, rest, c) \<Longrightarrow> F_RequestType \<notin> fields_of q"
proof (induction n len ts cost and n len l ts cost and n len ts cost and n len l ts cost and n len ts cost
    arbitrary: q rest c and q rest c and q rest c and q rest c and q rest c
    rule: expression_or_loop_conjunction_and_loop_unary.induct)
  case (10 n len ts cost)
  then show ?case
    by (auto simp: bind_result_eq_Inr parse_term_def Let_def split: if_splits dest!: read_field_not_request_type)
qed (fastforce simp: bind_result_eq_Inr split: if_splits)+

text \<open>
  The field \<open>requestType\<close> is listed but can never be queried: field names are lowercased before
  they are looked up in a list that holds the mixed-case name, so no parsed query mentions it.
\<close>

theorem request_type_is_unreachable:
  assumes "parseAdvancedQuery source = Inr (q, cost)"
  shows "F_RequestType \<notin> fields_of q"
  using assms parser_fields(1)
  by (auto simp: parseAdvancedQuery_def parse_tokens_def bind_result_eq_Inr split: if_splits)

theorem request_type_is_unreachable_witness:
  "F_RequestType \<notin> fields_of (Q_Term F_Key Eq [''A-1''])"
proof (rule request_type_is_unreachable)
  show "parseAdvancedQuery (show_query (Q_Term F_Key Eq [''A-1''])) = Inr (Q_Term F_Key Eq [''A-1''], 1)"
    using parse_show [of "Q_Term F_Key Eq [''A-1'']"]
    by (simp add: ends_with_IN_def term_cost_def MAX_QUERY_COST_def MAX_QUERY_LENGTH_def show_query_def
      print_operator_def print_operand_def plain_def literal_def quote_def escape_def)
qed

text \<open>
  Negation is lost on some fields: \<open>NOT IN\<close> on the assignee or the reporter compiles to the
  filter of \<open>IN\<close>, and a key, text or description term compiles to the same filter under every
  operator, so \<open>key != A-1\<close> selects exactly A-1.
\<close>

theorem negation_is_dropped:
  "compile now (Q_Term F_Assignee Not_In vs) = compile now (Q_Term F_Assignee In vs)
   \<and> compile now (Q_Term F_Reporter Not_In vs) = compile now (Q_Term F_Reporter In vs)
   \<and> compile now (Q_Term F_Key op vs) = compile now (Q_Term F_Key op' vs)
   \<and> compile now (Q_Term F_Text op vs) = compile now (Q_Term F_Text op' vs)
   \<and> compile now (Q_Term F_Description op vs) = compile now (Q_Term F_Description op' vs)"
  by (simp add: compile_term_def userPredicate_def list_or_text_def ends_with_IN_def)

end
