(* ===== verification/Outbox.thy ===== *)
theory Outbox
  imports Permissions AdvancedQuery
begin

text \<open>
  What a transaction leaves for the workers and the clients: realtime events (\<open>realtime.ts\<close>), webhook
  deliveries (\<open>webhooks.ts\<close>), chat deliveries (\<open>chat-integrations.ts\<close>), automation jobs
  (\<open>automation.ts\<close>), e-mails (\<open>email.ts\<close>) and notifications (\<open>notifications.ts\<close>). Deliveries have a
  unique key and are created with \<open>skipDuplicates\<close> (or an \<open>upsert\<close> without an update): a row whose key
  is taken is dropped. Characters outside ASCII are their UTF-8 bytes.
\<close>

section \<open>\<open>createMany({ skipDuplicates: true })\<close>\<close>

definition insert_one :: "('r \<Rightarrow> 'k) \<Rightarrow> 'r \<Rightarrow> 'r list \<Rightarrow> 'r list" where
  "insert_one key r rows = (if list_ex (\<lambda>x. key x = key r) rows then rows else rows @ [r])"

definition insert_new :: "('r \<Rightarrow> 'k) \<Rightarrow> 'r list \<Rightarrow> 'r list \<Rightarrow> 'r list" where
  "insert_new key new rows = fold (insert_one key) new rows"

lemma insert_one_distinct: "distinct (map key rows) \<Longrightarrow> distinct (map key (insert_one key r rows))"
  by (auto simp: insert_one_def list_ex_iff)

lemma insert_new_distinct: "distinct (map key rows) \<Longrightarrow> distinct (map key (insert_new key new rows))"
  unfolding insert_new_def by (induction new arbitrary: rows) (auto intro: insert_one_distinct)

lemma insert_new_set: "set rows \<subseteq> set (insert_new key new rows) \<and> set (insert_new key new rows) \<subseteq> set rows \<union> set new"
  unfolding insert_new_def
proof (induction new arbitrary: rows)
  case (Cons r new)
  have "set rows \<subseteq> set (insert_one key r rows) \<and> set (insert_one key r rows) \<subseteq> insert r (set rows)"
    by (auto simp: insert_one_def)
  with Cons.IH [of "insert_one key r rows"] show ?case by auto
qed simp

lemma insert_new_keys: "key ` set (insert_new key new rows) = key ` (set rows \<union> set new)"
  unfolding insert_new_def
proof (induction new arbitrary: rows)
  case (Cons r new)
  have "key ` set (insert_one key r rows) = key ` insert r (set rows)"
    by (auto simp: insert_one_def list_ex_iff intro: image_eqI [OF sym])
  then show ?case by (auto simp: Cons.IH image_Un)
qed simp

lemma insert_new_present: "key ` set new \<subseteq> key ` set rows \<Longrightarrow> insert_new key new rows = rows"
  unfolding insert_new_def
proof (induction new)
  case (Cons r new)
  then have "insert_one key r rows = rows" by (auto simp: insert_one_def list_ex_iff)
  with Cons show ?case by simp
qed simp

lemma insert_new_idem: "insert_new key new (insert_new key new rows) = insert_new key new rows"
  by (rule insert_new_present) (auto simp: insert_new_keys)

section \<open>Rows\<close>

record user_row =
  us_id :: string
  us_email :: string
  us_emailNotifications :: bool
  us_inAppNotifications :: bool

record webhook_subscription =
  wh_id :: string
  wh_workspaceId :: string
  wh_projectId :: "string option"
  wh_enabled :: bool
  wh_events :: "string list"

record automation_rule =
  ar_id :: string
  ar_workspaceId :: string
  ar_projectId :: "string option"
  ar_enabled :: bool
  ar_trigger :: js

record chat_connection =
  ch_id :: string
  ch_workspaceId :: string
  ch_projectId :: "string option"
  ch_enabled :: bool
  ch_events :: "string list"

record outbox_config =
  oc_users :: "user_row list"
  oc_subscriptions :: "webhook_subscription list"
  oc_rules :: "automation_rule list"
  oc_connections :: "chat_connection list"
  oc_appUrl :: "string option"   \<comment> \<open>\<open>process.env.APP_URL\<close>\<close>

record delivery =   \<comment> \<open>of a webhook or a chat message\<close>
  dv_target :: string
  dv_eventId :: string
  dv_event :: string
  dv_data :: js

record automation_job =
  aj_ruleId :: string
  aj_eventId :: string
  aj_event :: string
  aj_payload :: js
  aj_depth :: nat

record realtime_event =
  re_workspaceId :: string
  re_projectId :: "string option"
  re_type :: string
  re_resourceId :: string
  re_payload :: js

record email_delivery =
  em_workspaceId :: "string option"
  em_userId :: "string option"
  em_issueId :: "string option"
  em_category :: string
  em_recipient :: string
  em_subject :: string
  em_textBody :: string
  em_htmlBody :: string
  em_dedupeKey :: string
  em_correlationId :: string

record notification =
  no_workspaceId :: string
  no_userId :: string
  no_issueId :: string
  no_actorId :: string
  no_type :: string
  no_title :: string
  no_resourceUrl :: string
  no_dedupeKey :: string
  no_readAt :: "time option"

record outbox =
  ob_realtime :: "realtime_event list"
  ob_webhooks :: "delivery list"
  ob_chat :: "delivery list"
  ob_jobs :: "automation_job list"
  ob_emails :: "email_delivery list"
  ob_notifications :: "notification list"
  ob_audit :: "string list"

definition empty_outbox :: outbox where
  "empty_outbox = \<lparr>ob_realtime = [], ob_webhooks = [], ob_chat = [], ob_jobs = [], ob_emails = [], ob_notifications = [], ob_audit = []\<rparr>"

section \<open>Events\<close>

definition publishRealtime :: "realtime_event \<Rightarrow> outbox \<Rightarrow> outbox" where
  "publishRealtime e ob = ob\<lparr>ob_realtime := ob_realtime ob @ [e]\<rparr>"

definition realtimeBackoff :: "nat \<Rightarrow> nat" where
  "realtimeBackoff attempt = min 30000 (1000 * 2 ^ min attempt 5)"

definition webhookRetryDelay :: "int \<Rightarrow> int" where
  "webhookRetryDelay attempt = min 3600000 (1000 * 2 ^ nat (max 0 (attempt - 1)))"

definition delivery_key :: "delivery \<Rightarrow> string \<times> string" where
  "delivery_key d = (dv_target d, dv_eventId d)"

text \<open>
  \<open>OR: [{ projectId: null }, { projectId: input.projectId ?? undefined }]\<close>: for an event without a
  project the second clause is empty and admits every row.
\<close>

definition project_scope :: "string option \<Rightarrow> string option \<Rightarrow> bool" where
  "project_scope row input \<longleftrightarrow> row = None \<or> (case input of None \<Rightarrow> True | Some p \<Rightarrow> row = Some p)"

definition enqueueChat :: "workspace_db \<Rightarrow> outbox_config \<Rightarrow> string \<Rightarrow> string option \<Rightarrow> string \<Rightarrow> string \<Rightarrow> js \<Rightarrow> outbox \<Rightarrow> outbox" where
  "enqueueChat db cfg wid pid event eventId data ob =
     (let public = (case pid of None \<Rightarrow> False
            | Some p \<Rightarrow> list_ex (\<lambda>q. p_id q = p \<and> p_workspaceId q = wid \<and> p_visibility q = Public) (db_projects db));
          mappings = filter (\<lambda>c. ch_workspaceId c = wid \<and> ch_enabled c \<and> event \<in> set (ch_events c)
            \<and> (case pid of None \<Rightarrow> ch_projectId c = None | Some p \<Rightarrow> ch_projectId c = Some p \<or> public \<and> ch_projectId c = None))
            (oc_connections cfg)
      in ob\<lparr>ob_chat := insert_new delivery_key
              (map (\<lambda>c. \<lparr>dv_target = ch_id c, dv_eventId = eventId, dv_event = event, dv_data = data\<rparr>) mappings) (ob_chat ob)\<rparr>)"

definition enqueueWebhook :: "workspace_db \<Rightarrow> outbox_config \<Rightarrow> string \<Rightarrow> string option \<Rightarrow> string \<Rightarrow> string \<Rightarrow> js \<Rightarrow> outbox \<Rightarrow> outbox" where
  "enqueueWebhook db cfg wid pid event eventId data ob =
     (let subscriptions = filter (\<lambda>s. wh_workspaceId s = wid \<and> wh_enabled s \<and> event \<in> set (wh_events s) \<and> project_scope (wh_projectId s) pid)
            (oc_subscriptions cfg)
      in enqueueChat db cfg wid pid event eventId data
           (ob\<lparr>ob_webhooks := insert_new delivery_key
              (map (\<lambda>s. \<lparr>dv_target = wh_id s, dv_eventId = eventId, dv_event = event, dv_data = data\<rparr>) subscriptions) (ob_webhooks ob)\<rparr>))"

definition job_key :: "automation_job \<Rightarrow> string \<times> string" where
  "job_key j = (aj_ruleId j, aj_eventId j)"

definition enqueueAutomation :: "outbox_config \<Rightarrow> string \<Rightarrow> string option \<Rightarrow> string \<Rightarrow> string \<Rightarrow> js \<Rightarrow> nat \<Rightarrow> outbox \<Rightarrow> outbox" where
  "enqueueAutomation cfg wid pid event eventId payload depth ob =
     (let rules = filter (\<lambda>r. ar_workspaceId r = wid \<and> ar_enabled r \<and> project_scope (ar_projectId r) pid
            \<and> js_get ''event'' (ar_trigger r) = JStr event) (oc_rules cfg)
      in if 5 \<le> depth then ob\<lparr>ob_audit := ob_audit ob @ [''automation.depth_exceeded'']\<rparr>
         else ob\<lparr>ob_jobs := insert_new job_key
                (map (\<lambda>r. \<lparr>aj_ruleId = ar_id r, aj_eventId = eventId, aj_event = event, aj_payload = payload, aj_depth = depth\<rparr>) rules)
                (ob_jobs ob)\<rparr>)"

section \<open>Automation definitions\<close>

definition AUTOMATION_EVENTS :: "string list" where
  "AUTOMATION_EVENTS = [''issue.created'', ''issue.updated'', ''issue.transitioned'', ''comment.created'', ''sprint.created'',
     ''sprint.started'', ''sprint.completed'', ''release.created'', ''release.released'', ''scheduled'', ''sla.risk'', ''sla.breached'',
     ''sla.succeeded'']"

datatype automation_error = Bad_Rule_Name | Bad_Trigger | Bad_Rule_Lists | Query_Not_Text | Query_Invalid query_error | Bad_Permissions

definition check_condition :: "js \<Rightarrow> unit \<Rightarrow> (automation_error, unit) result" where
  "check_condition c u =
     (if js_get ''type'' c = JStr ''QUERY''
      then (case js_get ''query'' c of
              JStr q \<Rightarrow> (case parseAdvancedQuery q of Inl e \<Rightarrow> Inl (Query_Invalid e) | Inr _ \<Rightarrow> Inr ())
            | _ \<Rightarrow> Inl Query_Not_Text)
      else Inr ())"

record automation_definition =
  ad_name :: string
  ad_trigger :: js
  ad_conditions :: "js list"
  ad_actions :: "js list"
  ad_permissions :: "string list"

definition validateAutomationDefinition :: "jobj \<Rightarrow> (automation_error, automation_definition) result" where
  "validateAutomationDefinition body =
     (let name = trim (string_or_empty (field ''name'' body)); trigger = field ''trigger'' body in
      if name = [] \<or> 100 < length name then Inl Bad_Rule_Name
      else if \<not> truthy trigger \<or> \<not> list_ex (\<lambda>e. js_get ''event'' trigger = JStr e) AUTOMATION_EVENTS then Inl Bad_Trigger
      else (case (as_array (field ''conditions'' body), as_array (field ''actions'' body)) of
          (Some conditions, Some actions) \<Rightarrow>
            if actions = [] \<or> 20 < length actions then Inl Bad_Rule_Lists
            else bind_result (fold_result check_condition conditions ()) (\<lambda>_.
              (case as_array (field ''permissions'' body) of
                 None \<Rightarrow> Inl Bad_Permissions
               | Some ps \<Rightarrow>
                   if \<not> all_strings ps then Inl Bad_Permissions
                   else Inr \<lparr>ad_name = name, ad_trigger = trigger, ad_conditions = conditions, ad_actions = actions,
                             ad_permissions = strings_of ps\<rparr>))
        | _ \<Rightarrow> Inl Bad_Rule_Lists))"

section \<open>E-mail\<close>

fun escape_char :: "char \<Rightarrow> string" where
  "escape_char c =
     (if c = CHR ''&'' then ''&amp;''
      else if c = CHR ''<'' then ''&lt;''
      else if c = CHR ''>'' then ''&gt;''
      else if c = CHR 34 then ''&quot;''
      else if c = CHR 39 then ''&#39;''
      else [c])"

definition escapeHtml :: "string \<Rightarrow> string" where
  "escapeHtml s = concat (map escape_char s)"

definition absoluteAppUrl :: "string option \<Rightarrow> string \<Rightarrow> string" where
  "absoluteAppUrl app_url path =
     (let url = (case app_url of Some u \<Rightarrow> u | None \<Rightarrow> ''http://localhost:3000'');
          base = (if url \<noteq> [] \<and> last url = CHR ''/'' then butlast url else url)
      in base @ (if starts_with ''/'' path then path else ''/'' @ path))"

definition newline2 :: string where "newline2 = [CHR 10, CHR 10]"

definition textBody :: "string \<Rightarrow> string \<Rightarrow> string \<Rightarrow> string \<Rightarrow> string" where
  "textBody heading message label url =
     heading @ newline2 @ message @ newline2 @ label @ '': '' @ url @ newline2 @ ''If you did not expect this message, you can ignore it.''"

definition htmlBody :: "string \<Rightarrow> string \<Rightarrow> string \<Rightarrow> string \<Rightarrow> string" where
  "htmlBody heading message label url =
     ''<!doctype html><html lang=\"en\"><body style=\"font-family:system-ui,sans-serif;color:#1f2430\"><main><h1 style=\"font-size:22px\">''
     @ escapeHtml heading @ ''</h1><p>'' @ escapeHtml message @ ''</p><p><a href=\"'' @ escapeHtml url
     @ ''\" style=\"display:inline-block;padding:10px 16px;background:#6558d7;color:#fff;border-radius:6px\">'' @ escapeHtml label
     @ ''</a></p><p style=\"color:#5f6877;font-size:13px\">If you did not expect this message, you can ignore it.</p></main></body></html>''"

record email_input =
  ei_workspaceId :: "string option"
  ei_userId :: "string option"
  ei_issueId :: "string option"
  ei_category :: string
  ei_recipient :: string
  ei_subject :: string
  ei_message :: string
  ei_actionLabel :: string
  ei_actionPath :: string
  ei_dedupeKey :: string
  ei_correlationId :: string

definition enqueueEmail :: "string option \<Rightarrow> email_input \<Rightarrow> outbox \<Rightarrow> outbox" where
  "enqueueEmail app_url e ob =
     (let url = absoluteAppUrl app_url (ei_actionPath e)
      in ob\<lparr>ob_emails := insert_one em_dedupeKey
           \<lparr>em_workspaceId = ei_workspaceId e, em_userId = ei_userId e, em_issueId = ei_issueId e, em_category = ei_category e,
            em_recipient = ei_recipient e, em_subject = ei_subject e,
            em_textBody = textBody (ei_subject e) (ei_message e) (ei_actionLabel e) url,
            em_htmlBody = htmlBody (ei_subject e) (ei_message e) (ei_actionLabel e) url,
            em_dedupeKey = ei_dedupeKey e, em_correlationId = ei_correlationId e\<rparr> (ob_emails ob)\<rparr>)"

section \<open>Mentions\<close>

text \<open>
  \<open>/@([A-Z0-9._%+-]+@[A-Z0-9.-]+\.[A-Z]{2,})/gi\<close>. The local part ends at the second \<open>@\<close>; in the run of
  domain characters after it the match ends with the letters after the last full stop that is
  followed by two of them.
\<close>

definition is_letter :: "char \<Rightarrow> bool" where "is_letter c \<longleftrightarrow> is_lower c \<or> is_upper c"
definition is_local_char :: "char \<Rightarrow> bool" where "is_local_char c \<longleftrightarrow> is_alnum c \<or> c \<in> set ''._%+-''"
definition is_domain_char :: "char \<Rightarrow> bool" where "is_domain_char c \<longleftrightarrow> is_alnum c \<or> c \<in> set ''.-''"

text \<open>The length of the domain matched at the front of \<open>ds\<close>.\<close>

definition domain_match :: "string \<Rightarrow> nat option" where
  "domain_match ds =
     (let run = takeWhile is_domain_char ds;
          stops = filter (\<lambda>i. run ! i = CHR ''.'' \<and> is_letter (run ! (i + 1)) \<and> is_letter (run ! (i + 2))) [1..<length run - 2]
      in if stops = [] then None else Some (last stops + 1 + length (takeWhile is_letter (drop (last stops + 1) run))))"

lemma length_drop_tail: "length (dropWhile P cs) - Suc n < Suc (length cs)"
  using length_dropWhile_le [of P cs] by linarith

function mention_scan :: "string \<Rightarrow> string list" where
  "mention_scan [] = []"
| "mention_scan (c # cs) =
     (if c = CHR ''@'' then
        (let l = takeWhile is_local_char cs; rest = dropWhile is_local_char cs in
         if l \<noteq> [] \<and> rest \<noteq> [] \<and> hd rest = CHR ''@'' then
           (case domain_match (tl rest) of
              Some n \<Rightarrow> (l @ ''@'' @ take n (tl rest)) # mention_scan (drop n (tl rest))
            | None \<Rightarrow> mention_scan cs)
         else mention_scan cs)
      else mention_scan cs)"
  by pat_completeness auto

termination
  by (relation "measure length") (simp_all add: length_drop_tail)

definition mentionedEmails :: "string \<Rightarrow> string list" where
  "mentionedEmails s = uniq (map to_lower (mention_scan s))"

section \<open>Notifications\<close>

definition ot_label :: "string \<Rightarrow> string" where
  "ot_label type =
     (if type = ''ASSIGNED'' then ''assigned you'' else if type = ''MENTIONED'' then ''mentioned you''
      else if type = ''COMMENTED'' then ''commented'' else ''updated an issue you watch'')"

definition em_dash :: string where "em_dash = '' '' @ [CHR 0xE2, CHR 0x80, CHR 0x94] @ '' ''"

record notification_input =
  ni_workspaceId :: string
  ni_issueId :: string
  ni_issueKey :: string
  ni_issueTitle :: string
  ni_actorId :: string
  ni_eventId :: string
  ni_type :: string
  ni_recipientIds :: "string list"

definition active_member :: "workspace_db \<Rightarrow> string \<Rightarrow> string \<Rightarrow> bool" where
  "active_member db wid uid \<longleftrightarrow>
     list_ex (\<lambda>m. wm_workspaceId m = wid \<and> wm_userId m = uid \<and> wm_deactivatedAt m = None) (db_workspaceMembers db)"

text \<open>The \<open>where\<close> of the recipients: a member of the issue's project, or any member if the project is public.\<close>

definition may_reach :: "workspace_db \<Rightarrow> notification_input \<Rightarrow> issue \<Rightarrow> string \<Rightarrow> bool" where
  "may_reach db inp i uid \<longleftrightarrow>
     active_member db (ni_workspaceId inp) uid
   \<and> (list_ex (\<lambda>m. pm_userId m = uid \<and> pm_projectId m = i_projectId i) (db_projectMembers db)
      \<or> list_ex (\<lambda>p. p_workspaceId p = ni_workspaceId inp \<and> p_visibility p = Public \<and> p_id p = i_projectId i) (db_projects db))"

definition user_context :: "workspace_db \<Rightarrow> string \<Rightarrow> string \<Rightarrow> auth_context option" where
  "user_context db wid uid =
     map_option (\<lambda>m. \<lparr>cx_userId = uid, cx_workspaceId = wid, cx_role = wm_role m\<rparr>)
       (find (\<lambda>m. wm_workspaceId m = wid \<and> wm_userId m = uid) (db_workspaceMembers db))"

definition notification_recipients :: "workspace_db \<Rightarrow> outbox_config \<Rightarrow> notification_input \<Rightarrow> issue \<Rightarrow> user_row list" where
  "notification_recipients db cfg inp i =
     (let ids = filter (\<lambda>u. u \<noteq> ni_actorId inp) (uniq (ni_recipientIds inp))
      in filter (\<lambda>u. us_id u \<in> set ids \<and> may_reach db inp i (us_id u)
            \<and> (case user_context db (ni_workspaceId inp) (us_id u) of
                 None \<Rightarrow> False
               | Some cx \<Rightarrow> matchesIssueSecurity (level_of db i) (notification_actor db cx (i_projectId i)) (i_reporterId i) (i_assigneeId i)))
           (oc_users cfg))"

definition notify_one :: "notification_input \<Rightarrow> user_row \<Rightarrow> notification" where
  "notify_one inp u =
     (let project = hd (split_on CHR ''-'' (ni_issueKey inp))
      in \<lparr>no_workspaceId = ni_workspaceId inp, no_userId = us_id u, no_issueId = ni_issueId inp, no_actorId = ni_actorId inp,
          no_type = ni_type inp, no_title = ni_issueKey inp @ '': '' @ ot_label (ni_type inp) @ em_dash @ ni_issueTitle inp,
          no_resourceUrl = ''/projects/'' @ project @ ''?issue='' @ ni_issueId inp @ ''&returnTo=/notifications'',
          no_dedupeKey = ni_eventId inp @ '':'' @ ni_type inp @ '':'' @ us_id u, no_readAt = None\<rparr>)"

definition email_one :: "outbox_config \<Rightarrow> notification_input \<Rightarrow> user_row \<Rightarrow> outbox \<Rightarrow> outbox" where
  "email_one cfg inp u =
     (let project = hd (split_on CHR ''-'' (ni_issueKey inp))
      in enqueueEmail (oc_appUrl cfg)
           \<lparr>ei_workspaceId = Some (ni_workspaceId inp), ei_userId = Some (us_id u), ei_issueId = Some (ni_issueId inp),
            ei_category = ni_type inp, ei_recipient = us_email u, ei_subject = ni_issueKey inp @ '': '' @ ot_label (ni_type inp),
            ei_message = ni_issueTitle inp, ei_actionLabel = ''View issue'',
            ei_actionPath = ''/projects/'' @ project @ ''?issue='' @ ni_issueId inp,
            ei_dedupeKey = ''issue:'' @ ni_eventId inp @ '':'' @ ni_type inp @ '':'' @ us_id u, ei_correlationId = ni_eventId inp\<rparr>)"

definition createIssueNotifications :: "workspace_db \<Rightarrow> outbox_config \<Rightarrow> notification_input \<Rightarrow> outbox \<Rightarrow> outbox" where
  "createIssueNotifications db cfg inp ob =
     (if filter (\<lambda>u. u \<noteq> ni_actorId inp) (uniq (ni_recipientIds inp)) = [] then ob
      else (case find (\<lambda>i. i_id i = ni_issueId inp) (db_issues db) of
          None \<Rightarrow> ob
        | Some i \<Rightarrow>
            (let recipients = notification_recipients db cfg inp i;
                 in_app = filter us_inAppNotifications recipients;
                 told = (if in_app = [] then ob
                   else publishRealtime \<lparr>re_workspaceId = ni_workspaceId inp, re_projectId = None, re_type = ''notification.updated'',
                          re_resourceId = ni_issueId inp, re_payload = JObj [(''recipientIds'', JArr (map (\<lambda>u. JStr (us_id u)) in_app))]\<rparr>
                        (ob\<lparr>ob_notifications := insert_new no_dedupeKey (map (notify_one inp) in_app) (ob_notifications ob)\<rparr>))
             in fold (email_one cfg inp) (filter us_emailNotifications recipients) told)))"

section \<open>Escaping\<close>

lemma escape_safe: "set (escape_char c) \<inter> {CHR ''<'', CHR ''>'', CHR 34, CHR 39} = {}"
  by simp

fun unescape :: "string \<Rightarrow> string" where
  "unescape [] = []"
| "unescape (c # cs) =
     (if c \<noteq> CHR ''&'' then c # unescape cs
      else if starts_with ''amp;'' cs then CHR ''&'' # unescape (drop 4 cs)
      else if starts_with ''lt;'' cs then CHR ''<'' # unescape (drop 3 cs)
      else if starts_with ''gt;'' cs then CHR ''>'' # unescape (drop 3 cs)
      else if starts_with ''quot;'' cs then CHR 34 # unescape (drop 5 cs)
      else if starts_with ''#39;'' cs then CHR 39 # unescape (drop 4 cs)
      else c # unescape cs)"

text \<open>
  Text placed in an e-mail cannot inject markup, and none of it is lost: the escaped text holds no
  angle bracket or quote, and reading the entities back gives the text.
\<close>

theorem escapeHtml_safe:
  "set (escapeHtml s) \<inter> {CHR ''<'', CHR ''>'', CHR 34, CHR 39} = {} \<and> unescape (escapeHtml s) = s"
proof (rule conjI)
  show "set (escapeHtml s) \<inter> {CHR ''<'', CHR ''>'', CHR 34, CHR 39} = {}"
    by (induction s) (use escape_safe in \<open>auto simp: escapeHtml_def\<close>)
  show "unescape (escapeHtml s) = s"
    by (induction s) (simp_all add: escapeHtml_def starts_with_def)
qed

section \<open>Who is notified\<close>

lemma email_one_notifications [simp]: "ob_notifications (email_one cfg inp u ob) = ob_notifications ob"
  by (simp add: email_one_def enqueueEmail_def Let_def)

lemma emails_notifications [simp]: "ob_notifications (fold (email_one cfg inp) us ob) = ob_notifications ob"
  by (induction us arbitrary: ob) simp_all

lemma notifications_created:
  "ob_notifications (createIssueNotifications db cfg inp ob) =
     (case find (\<lambda>i. i_id i = ni_issueId inp) (db_issues db) of
        None \<Rightarrow> ob_notifications ob
      | Some i \<Rightarrow> insert_new no_dedupeKey (map (notify_one inp) (filter us_inAppNotifications (notification_recipients db cfg inp i))) (ob_notifications ob))"
proof -
  have "notification_recipients db cfg inp i = []" if "filter (\<lambda>u. u \<noteq> ni_actorId inp) (uniq (ni_recipientIds inp)) = []" for i
    using that by (auto simp: notification_recipients_def filter_empty_conv)
  then show ?thesis
    by (auto simp: createIssueNotifications_def Let_def publishRealtime_def insert_new_def split: option.splits)
qed

text \<open>The keys and references of the issue a notification is about, as the schema and its callers keep them.\<close>

definition announced_issue :: "workspace_db \<Rightarrow> notification_input \<Rightarrow> bool" where
  "announced_issue db inp \<longleftrightarrow> distinct (map (\<lambda>m. (wm_workspaceId m, wm_userId m)) (db_workspaceMembers db))
     \<and> (\<forall>i\<in>set (db_issues db). i_id i = ni_issueId inp \<longrightarrow> i_workspaceId i = ni_workspaceId inp \<and> i_archivedAt i = None
          \<and> (i_securityLevelId i \<noteq> None \<longrightarrow> level_of db i \<noteq> None)
          \<and> (\<exists>p\<in>set (db_projects db). p_id p = i_projectId i \<and> p_workspaceId p = ni_workspaceId inp))"

lemma one_context:
  assumes "distinct (map (\<lambda>m. (wm_workspaceId m, wm_userId m)) (db_workspaceMembers db))"
    and "m \<in> set (db_workspaceMembers db)"
  shows "user_context db (wm_workspaceId m) (wm_userId m)
    = Some \<lparr>cx_userId = wm_userId m, cx_workspaceId = wm_workspaceId m, cx_role = wm_role m\<rparr>"
proof -
  have "find (\<lambda>x. (wm_workspaceId x, wm_userId x) = (wm_workspaceId m, wm_userId m)) (db_workspaceMembers db) = Some m"
    by (rule find_unique [OF assms])
  then show ?thesis by (simp add: user_context_def)
qed


text \<open>
  Notifications, like all deliveries, are created at most once: no two carry the same key, and
  processing the same event a second time adds none.
\<close>

theorem notifications_are_idempotent:
  assumes "distinct (map no_dedupeKey (ob_notifications ob))"
  shows "distinct (map no_dedupeKey (ob_notifications (createIssueNotifications db cfg inp ob)))
     \<and> ob_notifications (createIssueNotifications db cfg inp (createIssueNotifications db cfg inp ob))
       = ob_notifications (createIssueNotifications db cfg inp ob)"
  using assms by (auto simp: notifications_created insert_new_distinct insert_new_idem split: option.splits)

text \<open>
  An event that belongs to no project is delivered to every webhook of the workspace for that
  event, also to those that were registered for one project only.
\<close>

theorem workspace_events_reach_project_webhooks:
  assumes "s \<in> set (oc_subscriptions cfg)" and "wh_workspaceId s = wid" and "wh_enabled s" and "event \<in> set (wh_events s)"
  shows "\<exists>d\<in>set (ob_webhooks (enqueueWebhook db cfg wid None event eventId data ob)). dv_target d = wh_id s \<and> dv_eventId d = eventId"
proof -
  let ?new = "map (\<lambda>s. \<lparr>dv_target = wh_id s, dv_eventId = eventId, dv_event = event, dv_data = data\<rparr>)
    (filter (\<lambda>s. wh_workspaceId s = wid \<and> wh_enabled s \<and> event \<in> set (wh_events s) \<and> project_scope (wh_projectId s) None) (oc_subscriptions cfg))"
  have "\<lparr>dv_target = wh_id s, dv_eventId = eventId, dv_event = event, dv_data = data\<rparr> \<in> set ?new"
    using assms by (auto simp: project_scope_def)
  then have "delivery_key \<lparr>dv_target = wh_id s, dv_eventId = eventId, dv_event = event, dv_data = data\<rparr>
      \<in> delivery_key ` set (insert_new delivery_key ?new (ob_webhooks ob))"
    unfolding insert_new_keys by (intro imageI) simp
  moreover have "ob_webhooks (enqueueWebhook db cfg wid None event eventId data ob) = insert_new delivery_key ?new (ob_webhooks ob)"
    by (simp add: enqueueWebhook_def enqueueChat_def Let_def)
  ultimately show ?thesis by (auto simp: delivery_key_def)
qed

definition team_db :: workspace_db where
  "team_db = sample_db\<lparr>db_workspaceMembers := [\<lparr>wm_workspaceId = ''w'', wm_userId = ''amy'', wm_role = WMember, wm_deactivatedAt = None\<rparr>]\<rparr>"

definition team_config :: outbox_config where
  "team_config = \<lparr>oc_users = [\<lparr>us_id = ''amy'', us_email = ''amy@x.co'', us_emailNotifications = False, us_inAppNotifications = True\<rparr>],
     oc_subscriptions = [\<lparr>wh_id = ''h'', wh_workspaceId = ''w'', wh_projectId = Some ''p'', wh_enabled = True, wh_events = [''sla.risk'']\<rparr>],
     oc_rules = [], oc_connections = [], oc_appUrl = None\<rparr>"

definition team_input :: notification_input where
  "team_input = \<lparr>ni_workspaceId = ''w'', ni_issueId = ''i1'', ni_issueKey = ''WEB-1'', ni_issueTitle = ''one'', ni_actorId = ''rita'',
     ni_eventId = ''e'', ni_type = ''ASSIGNED'', ni_recipientIds = [''amy'', ''rita'']\<rparr>"

lemmas team_defs = team_db_def team_config_def team_input_def

lemma team_notified:
  "ob_notifications (createIssueNotifications team_db team_config team_input empty_outbox)
     = [notify_one team_input \<lparr>us_id = ''amy'', us_email = ''amy@x.co'', us_emailNotifications = False, us_inAppNotifications = True\<rparr>]"
proof -
  have "matchesIssueSecurity (level_of team_db sample_issue) (notification_actor team_db amy ''p'') ''rita'' None"
    by (simp add: team_defs sample_defs matchesIssueSecurity_def level_of_def notification_actor_def listed_def project_role_of_def)
  moreover have "user_context team_db ''w'' ''amy'' = Some amy" by (simp add: user_context_def team_defs amy_def)
  moreover have "may_reach team_db team_input sample_issue ''amy''"
    by (simp add: may_reach_def active_member_def team_defs sample_defs)
  moreover have "find (\<lambda>i. i_id i = ni_issueId team_input) (db_issues team_db) = Some sample_issue"
    by (simp add: team_defs sample_defs)
  moreover have "i_projectId sample_issue = ''p'' \<and> i_reporterId sample_issue = ''rita'' \<and> i_assigneeId sample_issue = None"
    by (simp add: sample_issue_def)
  ultimately show ?thesis
    by (simp add: notifications_created notification_recipients_def insert_new_def empty_outbox_def)
      (simp add: team_config_def team_input_def insert_one_def Let_def)
qed


theorem notifications_are_idempotent_witness:
  "ob_notifications (createIssueNotifications team_db team_config team_input (createIssueNotifications team_db team_config team_input empty_outbox))
     = [notify_one team_input \<lparr>us_id = ''amy'', us_email = ''amy@x.co'', us_emailNotifications = False, us_inAppNotifications = True\<rparr>]"
  using notifications_are_idempotent [of empty_outbox team_db team_config team_input] team_notified by (simp add: empty_outbox_def)

theorem workspace_events_reach_project_webhooks_witness:
  "\<exists>d\<in>set (ob_webhooks (enqueueWebhook team_db team_config ''w'' None ''sla.risk'' ''e'' JNull empty_outbox)). dv_target d = ''h''"
  using workspace_events_reach_project_webhooks [of "hd (oc_subscriptions team_config)" team_config "''w''" "''sla.risk''" team_db "''e''" JNull empty_outbox]
  by (auto simp: team_config_def)

end
