(* ===== verification/Memberships.thy ===== *)
theory Memberships
  imports Sessions Permissions Outbox
begin

text \<open>
  Members of workspaces and projects and their invitations: \<open>api/projects/[key]/members\<close>,
  \<open>api/workspace/members/[userId]\<close>, \<open>api/workspace/invitations/[id]\<close>, \<open>api/invitations/[token]\<close>. Requests read
  and check before they write; where it matters the two phases are separate definitions. A refusal is
  the HTTP status, an uncaught throw 500. The hash of a token is a parameter.
\<close>

section \<open>Tables\<close>

record account =
  u_id :: string
  u_email :: string
  u_name :: string
  u_passwordHash :: "string option"

record invitation =
  in_id :: string
  in_workspaceId :: string
  in_projectId :: "string option"
  in_email :: string
  in_workspaceRole :: workspace_role
  in_projectRole :: project_role
  in_status :: string
  in_tokenHash :: string
  in_expiresAt :: time
  in_createdAt :: time

record member_db =
  mb_core :: workspace_db
  mb_users :: "account list"
  mb_invitations :: "invitation list"
  mb_sessions :: "session list"
  mb_outbox :: outbox

definition WEEK_MS :: int where "WEEK_MS = 7 * 24 * 60 * 60 * 1000"

definition parse_project_role :: "js \<Rightarrow> project_role option" where
  "parse_project_role v = find (\<lambda>r. v = JStr (project_role_name r)) [PAdmin, PMember, PViewer]"

definition parse_workspace_role :: "js \<Rightarrow> workspace_role option" where
  "parse_workspace_role v = find (\<lambda>r. v = JStr (workspace_role_name r)) [WOwner, WAdmin, WMember, WViewer]"

definition log_audit :: "auth_context \<Rightarrow> string \<Rightarrow> string \<Rightarrow> string \<Rightarrow> js \<Rightarrow> member_db \<Rightarrow> member_db" where
  "log_audit cx action target i metadata db =
     db\<lparr>mb_core := (mb_core db)\<lparr>db_audit := db_audit (mb_core db) @ [\<lparr>au_workspaceId = cx_workspaceId cx, au_actorId = Some (cx_userId cx),
       au_action = action, au_targetType = target, au_targetId = i, au_metadata = metadata\<rparr>]\<rparr>\<rparr>"

definition map_members :: "(workspace_member list \<Rightarrow> workspace_member list) \<Rightarrow> member_db \<Rightarrow> member_db" where
  "map_members f db = db\<lparr>mb_core := (mb_core db)\<lparr>db_workspaceMembers := f (db_workspaceMembers (mb_core db))\<rparr>\<rparr>"

definition map_project_members :: "(project_member list \<Rightarrow> project_member list) \<Rightarrow> member_db \<Rightarrow> member_db" where
  "map_project_members f db = db\<lparr>mb_core := (mb_core db)\<lparr>db_projectMembers := f (db_projectMembers (mb_core db))\<rparr>\<rparr>"

definition user_named :: "member_db \<Rightarrow> string \<Rightarrow> account option" where
  "user_named db email = find (\<lambda>u. u_email u = email) (mb_users db)"

definition name_of :: "member_db \<Rightarrow> string \<Rightarrow> string" where
  "name_of db i = (case find (\<lambda>u. u_id u = i) (mb_users db) of Some u \<Rightarrow> u_name u | None \<Rightarrow> [])"

section \<open>Members of a project\<close>

definition managementContext :: "auth_context option \<Rightarrow> string \<Rightarrow> member_db \<Rightarrow> (nat, auth_context \<times> project) result" where
  "managementContext context key db =
     (case context of
        None \<Rightarrow> Inl 401
      | Some cx \<Rightarrow>
          (case getProjectForContext (mb_core db) cx key of
             None \<Rightarrow> Inl 404
           | Some p \<Rightarrow>
               if \<not> is_workspace_admin cx \<and> project_role_of (mb_core db) (p_id p) (cx_userId cx) \<noteq> Some PAdmin then Inl 403
               else Inr (cx, p)))"

record members_view =
  mv_members :: "(string \<times> project_role) list"
  mv_pending :: "invitation list"
  mv_available :: "string list"

definition members_GET :: "time \<Rightarrow> auth_context option \<Rightarrow> string \<Rightarrow> member_db \<Rightarrow> (nat, members_view) result" where
  "members_GET now context key db =
     bind_result (managementContext context key db) (\<lambda>(cx, p).
       (let mine = filter (\<lambda>m. pm_projectId m = p_id p) (db_projectMembers (mb_core db)) in
        Inr \<lparr>mv_members = map (\<lambda>m. (pm_userId m, pm_role m)) (sort_key (\<lambda>m. name_of db (pm_userId m)) mine),
          mv_pending = sort_key (\<lambda>i. - in_createdAt i) (filter (\<lambda>i. in_workspaceId i = cx_workspaceId cx \<and> in_projectId i = Some (p_id p)
            \<and> in_status i = ''PENDING'' \<and> now < in_expiresAt i) (mb_invitations db)),
          mv_available = map wm_userId (sort_key (\<lambda>m. name_of db (wm_userId m)) (filter (\<lambda>m. wm_workspaceId m = cx_workspaceId cx
            \<and> wm_deactivatedAt m = None \<and> wm_userId m \<notin> pm_userId ` set mine) (db_workspaceMembers (mb_core db))))\<rparr>))"

text \<open>\<open>/^\S+@\S+\.\S+$/\<close>\<close>

definition loose_email :: "string \<Rightarrow> bool" where
  "loose_email s \<longleftrightarrow> list_all (\<lambda>c. \<not> is_space c) s
     \<and> list_ex (\<lambda>i. s ! i = CHR ''@'' \<and> CHR ''.'' \<in> set (butlast (tl (drop (Suc i) s)))) [1..<length s]"

definition upsert_project_member :: "string \<Rightarrow> string \<Rightarrow> project_role \<Rightarrow> project_member list \<Rightarrow> project_member list" where
  "upsert_project_member pid uid r ms =
     (if list_ex (\<lambda>m. pm_projectId m = pid \<and> pm_userId m = uid) ms
      then map (\<lambda>m. if pm_projectId m = pid \<and> pm_userId m = uid then m\<lparr>pm_role := r\<rparr> else m) ms
      else ms @ [\<lparr>pm_projectId = pid, pm_userId = uid, pm_role = r\<rparr>])"

record secret =
  sx_id :: string
  sx_token :: string
  sx_hash :: string

text \<open>The e-mail with the link; the names of workspace, inviter and project are \<open>names\<close>.\<close>

definition invitation_email :: "string option \<Rightarrow> string \<Rightarrow> string \<Rightarrow> string \<Rightarrow> string \<times> string \<Rightarrow> secret \<Rightarrow> outbox \<Rightarrow> outbox" where
  "invitation_email app_url wid workspace recipient text_and_id s =
     enqueueEmail app_url \<lparr>ei_workspaceId = Some wid, ei_userId = None, ei_issueId = None, ei_category = ''INVITATION'', ei_recipient = recipient,
       ei_subject = ''Join '' @ workspace @ '' on Planeo'', ei_message = fst text_and_id, ei_actionLabel = ''Accept invitation'',
       ei_actionPath = ''/invitations/'' @ sx_token s, ei_dedupeKey = ''invitation:'' @ snd text_and_id @ '':'' @ sx_hash s,
       ei_correlationId = snd text_and_id\<rparr>"

definition invite :: "string option \<Rightarrow> string \<times> string \<times> string \<Rightarrow> secret \<Rightarrow> time \<Rightarrow> auth_context \<Rightarrow> project \<Rightarrow> string \<Rightarrow> project_role \<Rightarrow> member_db \<Rightarrow> member_db" where
  "invite app_url names s now cx p email r db =
     (let open_one = find (\<lambda>i. in_workspaceId i = cx_workspaceId cx \<and> in_projectId i = Some (p_id p) \<and> in_email i = email
            \<and> in_status i = ''PENDING'') (mb_invitations db);
          i = (case open_one of Some x \<Rightarrow> in_id x | None \<Rightarrow> sx_id s);
          rows = (case open_one of
             Some x \<Rightarrow> map (\<lambda>y. if in_id y = in_id x then y\<lparr>in_projectRole := r, in_tokenHash := sx_hash s, in_expiresAt := now + WEEK_MS\<rparr> else y)
               (mb_invitations db)
           | None \<Rightarrow> mb_invitations db @ [\<lparr>in_id = sx_id s, in_workspaceId = cx_workspaceId cx, in_projectId = Some (p_id p), in_email = email,
               in_workspaceRole = WMember, in_projectRole = r, in_status = ''PENDING'', in_tokenHash = sx_hash s,
               in_expiresAt = now + WEEK_MS, in_createdAt = now\<rparr>]);
          message = fst (snd names) @ '' invited you to the '' @ snd (snd names) @ '' project. This invitation expires in 7 days.''
      in log_audit cx ''project.invitation_created'' ''invitation'' i
           (JObj [(''projectId'', JStr (p_id p)), (''email'', JStr email), (''role'', JStr (project_role_name r))])
           (db\<lparr>mb_invitations := rows,
              mb_outbox := invitation_email app_url (cx_workspaceId cx) (fst names) email (message, i) s (mb_outbox db)\<rparr>))"

definition members_POST :: "string option \<Rightarrow> string \<times> string \<times> string \<Rightarrow> secret \<Rightarrow> time \<Rightarrow> auth_context option \<Rightarrow> string \<Rightarrow> jobj \<Rightarrow> member_db \<Rightarrow> (nat, member_db) result" where
  "members_POST app_url names s now context key body db =
     bind_result (managementContext context key db) (\<lambda>(cx, p).
       (let email = to_lower (trim (string_or_empty (field ''email'' body)));
            r = (case parse_project_role (field ''role'' body) of Some x \<Rightarrow> x | None \<Rightarrow> PMember);
            known = find (\<lambda>m. wm_workspaceId m = cx_workspaceId cx \<and> wm_deactivatedAt m = None
              \<and> list_ex (\<lambda>u. u_id u = wm_userId m \<and> u_email u = email) (mb_users db)) (db_workspaceMembers (mb_core db)) in
        if \<not> loose_email email then Inl 400
        else (case known of
           Some m \<Rightarrow> Inr (log_audit cx ''project.member_added'' ''user'' (wm_userId m)
             (JObj [(''projectId'', JStr (p_id p)), (''role'', JStr (project_role_name r))])
             (map_project_members (upsert_project_member (p_id p) (wm_userId m) r) db))
         | None \<Rightarrow> Inr (invite app_url names s now cx p email r db))))"

definition members_PATCH :: "auth_context option \<Rightarrow> string \<Rightarrow> jobj \<Rightarrow> member_db \<Rightarrow> (nat, member_db) result" where
  "members_PATCH context key body db =
     bind_result (managementContext context key db) (\<lambda>(cx, p).
       (let uid = string_or_empty (field ''userId'' body) in
        case parse_project_role (field ''role'' body) of
          None \<Rightarrow> Inl 400
        | Some r \<Rightarrow>
            if uid = [] then Inl 400
            else if uid = cx_userId cx \<and> r \<noteq> PAdmin then Inl 400
            else if \<not> list_ex (\<lambda>m. pm_projectId m = p_id p \<and> pm_userId m = uid) (db_projectMembers (mb_core db)) then Inl 404
            else Inr (log_audit cx ''project.member_role_changed'' ''user'' uid
                   (JObj [(''projectId'', JStr (p_id p)), (''role'', JStr (project_role_name r))])
                   (map_project_members (upsert_project_member (p_id p) uid r) db))))"

section \<open>Members of a workspace\<close>

datatype member_change = Set_Role workspace_role | Deactivate | Reactivate | Remove

definition member_row :: "member_db \<Rightarrow> string \<Rightarrow> string \<Rightarrow> workspace_member option" where
  "member_row db ws uid = find (\<lambda>m. wm_workspaceId m = ws \<and> wm_userId m = uid) (db_workspaceMembers (mb_core db))"

definition active_owners :: "string \<Rightarrow> member_db \<Rightarrow> workspace_member list" where
  "active_owners ws db = filter (\<lambda>m. wm_workspaceId m = ws \<and> wm_role m = WOwner \<and> wm_deactivatedAt m = None) (db_workspaceMembers (mb_core db))"

definition wanted_change :: "auth_context \<Rightarrow> workspace_member \<Rightarrow> jobj \<Rightarrow> (nat, member_change) result" where
  "wanted_change cx m body =
     (let action = field ''action'' body in
      if field ''role'' body \<noteq> JUndef then
        (case parse_workspace_role (field ''role'' body) of
           None \<Rightarrow> Inl 400
         | Some r \<Rightarrow> if cx_role cx \<noteq> WOwner \<and> (wm_role m = WOwner \<or> r = WOwner) then Inl 403 else Inr (Set_Role r))
      else if action = JStr ''deactivate'' then Inr Deactivate
      else if action = JStr ''reactivate'' then Inr Reactivate
      else if action = JStr ''remove'' then Inr Remove
      else Inl 400)"

definition member_check :: "auth_context option \<Rightarrow> string \<Rightarrow> jobj \<Rightarrow> member_db \<Rightarrow> (nat, auth_context \<times> member_change) result" where
  "member_check context uid body db =
     (case context of
        None \<Rightarrow> Inl 401
      | Some cx \<Rightarrow>
          if \<not> is_workspace_admin cx then Inl 403
          else (case member_row db (cx_workspaceId cx) uid of
             None \<Rightarrow> Inl 404
           | Some m \<Rightarrow>
               (let role = field ''role'' body;
                    leaves = (field ''action'' body = JStr ''deactivate'' \<or> field ''action'' body = JStr ''remove'') in
                if cx_role cx \<noteq> WOwner \<and> wm_role m = WOwner then Inl 403
                else if uid = cx_userId cx \<and> (leaves \<or> role \<noteq> JUndef \<and> role \<noteq> JStr (workspace_role_name (cx_role cx))) then Inl 400
                else if wm_role m = WOwner \<and> (leaves \<or> role \<noteq> JUndef \<and> role \<noteq> JStr ''OWNER'')
                     \<and> length (active_owners (cx_workspaceId cx) db) \<le> 1 then Inl 400
                else bind_result (wanted_change cx m body) (\<lambda>c. Inr (cx, c)))))"

definition revoke_sessions :: "time \<Rightarrow> string \<Rightarrow> string \<Rightarrow> session list \<Rightarrow> session list" where
  "revoke_sessions now ws uid = map (\<lambda>s. if ss_workspaceId s = ws \<and> ss_userId s = uid \<and> ss_revokedAt s = None then s\<lparr>ss_revokedAt := Some now\<rparr> else s)"

definition change_row :: "string \<Rightarrow> string \<Rightarrow> (workspace_member \<Rightarrow> workspace_member) \<Rightarrow> member_db \<Rightarrow> member_db" where
  "change_row ws uid f = map_members (map (\<lambda>m. if wm_workspaceId m = ws \<and> wm_userId m = uid then f m else m))"

definition member_commit :: "time \<Rightarrow> string \<Rightarrow> auth_context \<times> member_change \<Rightarrow> member_db \<Rightarrow> (nat, member_db) result" where
  "member_commit now uid plan db =
     (let (cx, c) = plan; ws = cx_workspaceId cx in
      if member_row db ws uid = None then Inl 500
      else Inr (case c of
          Set_Role r \<Rightarrow> log_audit cx ''workspace.member_role_changed'' ''user'' uid (JObj [(''role'', JStr (workspace_role_name r))])
            (change_row ws uid (\<lambda>m. m\<lparr>wm_role := r\<rparr>) db)
        | Deactivate \<Rightarrow> log_audit cx ''workspace.member_deactivate'' ''user'' uid (JObj [])
            ((change_row ws uid (\<lambda>m. m\<lparr>wm_deactivatedAt := Some now\<rparr>) db)\<lparr>mb_sessions := revoke_sessions now ws uid (mb_sessions db)\<rparr>)
        | Reactivate \<Rightarrow> log_audit cx ''workspace.member_reactivate'' ''user'' uid (JObj [])
            (change_row ws uid (\<lambda>m. m\<lparr>wm_deactivatedAt := None\<rparr>) db)
        | Remove \<Rightarrow> log_audit cx ''workspace.member_removed'' ''user'' uid (JObj [])
            ((map_project_members (filter (\<lambda>m. \<not> (pm_userId m = uid
                \<and> list_ex (\<lambda>p. p_id p = pm_projectId m \<and> p_workspaceId p = ws) (db_projects (mb_core db)))))
              (map_members (filter (\<lambda>m. \<not> (wm_workspaceId m = ws \<and> wm_userId m = uid))) db))
             \<lparr>mb_sessions := revoke_sessions now ws uid (mb_sessions db)\<rparr>)))"

definition workspace_member_PATCH :: "time \<Rightarrow> auth_context option \<Rightarrow> string \<Rightarrow> jobj \<Rightarrow> member_db \<Rightarrow> (nat, member_db) result" where
  "workspace_member_PATCH now context uid body db = bind_result (member_check context uid body db) (\<lambda>plan. member_commit now uid plan db)"

section \<open>Invitations\<close>

definition invitation_PATCH :: "string option \<Rightarrow> string \<times> string \<Rightarrow> secret \<Rightarrow> time \<Rightarrow> auth_context option \<Rightarrow> string \<Rightarrow> jobj \<Rightarrow> member_db \<Rightarrow> (nat, member_db) result" where
  "invitation_PATCH app_url names s now context i body db =
     (case context of
        None \<Rightarrow> Inl 401
      | Some cx \<Rightarrow>
          if \<not> is_workspace_admin cx then Inl 403
          else (case find (\<lambda>x. in_id x = i \<and> in_workspaceId x = cx_workspaceId cx \<and> in_status x = ''PENDING'') (mb_invitations db) of
             None \<Rightarrow> Inl 404
           | Some x \<Rightarrow>
               if field ''action'' body = JStr ''revoke'' then
                 Inr (log_audit cx ''workspace.invitation_revoked'' ''invitation'' i (JObj [])
                   (db\<lparr>mb_invitations := map (\<lambda>y. if in_id y = i then y\<lparr>in_status := ''REVOKED''\<rparr> else y) (mb_invitations db)\<rparr>))
               else if field ''action'' body = JStr ''resend'' then
                 Inr (log_audit cx ''workspace.invitation_resent'' ''invitation'' i (JObj [])
                   (db\<lparr>mb_invitations := map (\<lambda>y. if in_id y = i then y\<lparr>in_tokenHash := sx_hash s, in_expiresAt := now + WEEK_MS\<rparr> else y)
                        (mb_invitations db),
                      mb_outbox := invitation_email app_url (cx_workspaceId cx) (fst names) (in_email x)
                        (snd names @ '' renewed your invitation. This link expires in 7 days.'', i) s (mb_outbox db)\<rparr>))
               else Inl 400))"

text \<open>What the link shows: whether the guest must give a name.\<close>

definition invitation_GET :: "(string \<Rightarrow> string) \<Rightarrow> time \<Rightarrow> string \<Rightarrow> member_db \<Rightarrow> (nat, invitation \<times> bool) result" where
  "invitation_GET sha now token db =
     (case find (\<lambda>x. in_tokenHash x = sha token) (mb_invitations db) of
        None \<Rightarrow> Inl 404
      | Some x \<Rightarrow>
          if in_status x \<noteq> ''PENDING'' then Inl 404
          else if in_expiresAt x \<le> now then Inl 410
          else Inr (x, user_named db (in_email x) = None))"

record accept_plan =
  ap_invitation :: invitation
  ap_user :: "account option"
  ap_name :: string
  ap_passwordHash :: string

definition accept_check :: "(string \<Rightarrow> string) \<Rightarrow> (string \<Rightarrow> string \<Rightarrow> bool) \<Rightarrow> (string \<Rightarrow> string) \<Rightarrow> time \<Rightarrow> string \<Rightarrow> jobj \<Rightarrow> member_db \<Rightarrow> (nat, accept_plan) result" where
  "accept_check sha verify hash now token body db =
     (let password = string_or_empty (field ''password'' body); name = trim (string_or_empty (field ''name'' body)) in
      if length password < 10 \<or> 200 < length password then Inl 400
      else bind_result (invitation_GET sha now token db) (\<lambda>(x, _).
        (let user = user_named db (in_email x) in
         case user of
           None \<Rightarrow> if name = [] \<or> 120 < length name then Inl 400
             else Inr \<lparr>ap_invitation = x, ap_user = None, ap_name = name, ap_passwordHash = hash password\<rparr>
         | Some u \<Rightarrow>
             (case u_passwordHash u of
                None \<Rightarrow> Inl 400
              | Some stored \<Rightarrow>
                  if stored = [] then Inl 400
                  else if \<not> verify password stored then Inl 401
                  else Inr \<lparr>ap_invitation = x, ap_user = Some u, ap_name = name, ap_passwordHash = stored\<rparr>))))"

definition upsert_member :: "string \<Rightarrow> string \<Rightarrow> workspace_role \<Rightarrow> workspace_member list \<Rightarrow> workspace_member list" where
  "upsert_member ws uid r ms =
     (if list_ex (\<lambda>m. wm_workspaceId m = ws \<and> wm_userId m = uid) ms
      then map (\<lambda>m. if wm_workspaceId m = ws \<and> wm_userId m = uid then m\<lparr>wm_role := r, wm_deactivatedAt := None\<rparr> else m) ms
      else ms @ [\<lparr>wm_workspaceId = ws, wm_userId = uid, wm_role = r, wm_deactivatedAt = None\<rparr>])"

definition claimable :: "time \<Rightarrow> invitation \<Rightarrow> invitation \<Rightarrow> bool" where
  "claimable now x y \<longleftrightarrow> in_id y = in_id x \<and> in_status y = ''PENDING'' \<and> now < in_expiresAt y"

definition accept_commit :: "string \<Rightarrow> time \<Rightarrow> accept_plan \<Rightarrow> member_db \<Rightarrow> (nat, string \<times> member_db) result" where
  "accept_commit new now plan db =
     (let x = ap_invitation plan; ws = in_workspaceId x;
          uid = (case ap_user plan of Some u \<Rightarrow> u_id u | None \<Rightarrow> new);
          cx = \<lparr>cx_userId = uid, cx_workspaceId = ws, cx_role = WMember\<rparr>;
          claimed = db\<lparr>mb_invitations := map (\<lambda>y. if claimable now x y then y\<lparr>in_status := ''ACCEPTED''\<rparr> else y) (mb_invitations db)\<rparr>;
          users = (case ap_user plan of Some _ \<Rightarrow> mb_users db
            | None \<Rightarrow> mb_users db @ [\<lparr>u_id = new, u_email = in_email x, u_name = ap_name plan, u_passwordHash = Some (ap_passwordHash plan)\<rparr>]) in
      if count_rows (claimable now x) (mb_invitations db) \<noteq> 1 then Inl 409
      else if ap_user plan = None \<and> user_named db (in_email x) \<noteq> None then Inl 500
      else Inr (uid, log_audit cx ''invitation.accepted'' ''invitation'' (in_id x)
             (JObj [(''projectId'', (case in_projectId x of Some p \<Rightarrow> JStr p | None \<Rightarrow> JNull))])
             (map_project_members (case in_projectId x of Some p \<Rightarrow> upsert_project_member p uid (in_projectRole x) | None \<Rightarrow> id)
               (map_members (upsert_member ws uid (in_workspaceRole x)) (claimed\<lparr>mb_users := users\<rparr>)))))"

text \<open>The route then opens a session (\<open>createSession\<close>) for the user returned here.\<close>

definition invitation_POST :: "(string \<Rightarrow> string) \<Rightarrow> (string \<Rightarrow> string \<Rightarrow> bool) \<Rightarrow> (string \<Rightarrow> string) \<Rightarrow> string \<Rightarrow> time \<Rightarrow> string \<Rightarrow> jobj \<Rightarrow> member_db \<Rightarrow> (nat, string \<times> member_db) result" where
  "invitation_POST sha verify hash new now token body db =
     bind_result (accept_check sha verify hash now token body db) (\<lambda>plan. accept_commit new now plan db)"

section \<open>A workspace keeps an owner\<close>

definition member_key :: "workspace_member \<Rightarrow> string \<times> string" where
  "member_key m = (wm_workspaceId m, wm_userId m)"

definition owned :: "string \<Rightarrow> member_db \<Rightarrow> bool" where
  "owned ws db \<longleftrightarrow> distinct (map member_key (db_workspaceMembers (mb_core db))) \<and> active_owners ws db \<noteq> []"

lemma log_audit_tables [simp]:
  "db_workspaceMembers (mb_core (log_audit cx a t i v db)) = db_workspaceMembers (mb_core db)"
  "mb_invitations (log_audit cx a t i v db) = mb_invitations db" "mb_users (log_audit cx a t i v db) = mb_users db"
  "mb_sessions (log_audit cx a t i v db) = mb_sessions db"
  by (simp_all add: log_audit_def)

lemma map_members_tables [simp]:
  "db_workspaceMembers (mb_core (map_members f db)) = f (db_workspaceMembers (mb_core db))"
  "db_workspaceMembers (mb_core (map_project_members g db)) = db_workspaceMembers (mb_core db)"
  "mb_invitations (map_members f db) = mb_invitations db" "mb_invitations (map_project_members g db) = mb_invitations db"
  by (simp_all add: map_members_def map_project_members_def)

lemma member_row_Some: "member_row db ws uid = Some m \<Longrightarrow> m \<in> set (db_workspaceMembers (mb_core db)) \<and> member_key m = (ws, uid)"
  unfolding member_row_def member_key_def by (auto dest: find_SomeD)

text \<open>What the check lets through.\<close>

lemma member_check_passed:
  assumes "member_check context uid body db = Inr (cx, c)"
  shows "\<exists>m. member_row db (cx_workspaceId cx) uid = Some m
    \<and> (wm_role m = WOwner \<longrightarrow> c \<in> {Set_Role WOwner, Reactivate} \<or> 2 \<le> length (active_owners (cx_workspaceId cx) db))"
proof -
  from assms obtain m where m: "member_row db (cx_workspaceId cx) uid = Some m"
    and guard: "\<not> (wm_role m = WOwner \<and> ((field ''action'' body = JStr ''deactivate'' \<or> field ''action'' body = JStr ''remove'')
        \<or> field ''role'' body \<noteq> JUndef \<and> field ''role'' body \<noteq> JStr ''OWNER'') \<and> length (active_owners (cx_workspaceId cx) db) \<le> 1)"
    and c: "wanted_change cx m body = Inr c"
    unfolding member_check_def by (simp only: handler_simps prod.inject) (elim exE conjE, hypsubst, rule that, assumption+)
  have "c \<in> {Set_Role WOwner, Reactivate}"
    if "\<not> ((field ''action'' body = JStr ''deactivate'' \<or> field ''action'' body = JStr ''remove'')
        \<or> field ''role'' body \<noteq> JUndef \<and> field ''role'' body \<noteq> JStr ''OWNER'')"
    using that c by (auto simp: wanted_change_def parse_workspace_role_def Let_def split: if_splits option.splits)
  with guard m show ?thesis by (intro exI [of _ m]) auto
qed

definition changed :: "time \<Rightarrow> member_change \<Rightarrow> workspace_member \<Rightarrow> workspace_member option" where
  "changed now c m = (case c of Set_Role r \<Rightarrow> Some (m\<lparr>wm_role := r\<rparr>) | Deactivate \<Rightarrow> Some (m\<lparr>wm_deactivatedAt := Some now\<rparr>)
     | Reactivate \<Rightarrow> Some (m\<lparr>wm_deactivatedAt := None\<rparr>) | Remove \<Rightarrow> None)"

lemma member_commit_rows:
  assumes "member_commit now uid (cx, c) db = Inr db'"
  shows "db_workspaceMembers (mb_core db')
    = List.map_filter (\<lambda>m. if member_key m = (cx_workspaceId cx, uid) then changed now c m else Some m) (db_workspaceMembers (mb_core db))"
proof -
  have drop: "List.map_filter (\<lambda>m. if member_key m = k then None else Some m) xs = filter (\<lambda>m. member_key m \<noteq> k) xs" for k xs
    by (induction xs) (auto simp: List.map_filter_simps)
  have edit: "List.map_filter (\<lambda>m. if member_key m = k then Some (f m) else Some m) xs = map (\<lambda>m. if member_key m = k then f m else m) xs" for k f xs
    by (induction xs) (auto simp: List.map_filter_simps)
  have key: "(wm_workspaceId m = a \<and> wm_userId m = b) = (member_key m = (a, b))" for m a b by (simp add: member_key_def)
  have keep: "List.map_filter (\<lambda>m. if P m then Some (f m) else Some m) xs = map (\<lambda>m. if P m then f m else m) xs" for P f and xs :: "workspace_member list"
    by (induction xs) (auto simp: List.map_filter_simps)
  show ?thesis
  proof (cases c)
    case Remove
    then show ?thesis using assms unfolding changed_def Remove member_change.case drop by (auto simp: member_commit_def Let_def key split: if_splits)
  next
    case (Set_Role r)
    then have f: "(\<lambda>m. if member_key m = (cx_workspaceId cx, uid) then changed now c m else Some m)
        = (\<lambda>m. if member_key m = (cx_workspaceId cx, uid) then Some (m\<lparr>wm_role := r\<rparr>) else Some m)"
      by (simp add: changed_def fun_eq_iff)
    show ?thesis using assms Set_Role unfolding f keep by (auto simp: member_commit_def Let_def change_row_def key split: if_splits)
  next
    case Deactivate
    then have f: "(\<lambda>m. if member_key m = (cx_workspaceId cx, uid) then changed now c m else Some m)
        = (\<lambda>m. if member_key m = (cx_workspaceId cx, uid) then Some (m\<lparr>wm_deactivatedAt := Some now\<rparr>) else Some m)"
      by (simp add: changed_def fun_eq_iff)
    show ?thesis using assms Deactivate unfolding f keep by (auto simp: member_commit_def Let_def change_row_def key split: if_splits)
  next
    case Reactivate
    then have f: "(\<lambda>m. if member_key m = (cx_workspaceId cx, uid) then changed now c m else Some m)
        = (\<lambda>m. if member_key m = (cx_workspaceId cx, uid) then Some (m\<lparr>wm_deactivatedAt := None\<rparr>) else Some m)"
      by (simp add: changed_def fun_eq_iff)
    show ?thesis using assms Reactivate unfolding f keep by (auto simp: member_commit_def Let_def change_row_def key split: if_splits)
  qed
qed

lemma changed_key: "changed now c m = Some y \<Longrightarrow> member_key y = member_key m"
  by (auto simp: changed_def member_key_def split: member_change.splits)

lemma map_filter_keys:
  assumes "distinct (map k xs)" and "\<And>x y. f x = Some y \<Longrightarrow> k y = k x"
  shows "distinct (map k (List.map_filter f xs)) \<and> k ` set (List.map_filter f xs) \<subseteq> k ` set xs"
  using assms(1)
proof (induction xs)
  case (Cons x xs)
  then show ?case using assms(2) by (cases "f x") (auto simp: List.map_filter_simps)
qed (simp add: List.map_filter_simps)

lemma member_PATCH_owned:
  assumes "member_check context uid body db = Inr (cx, c)" and "member_commit now uid (cx, c) db = Inr db'" and "owned ws db"
  shows "owned ws db'"
proof -
  let ?ms = "db_workspaceMembers (mb_core db)"
  define k where "k = (cx_workspaceId cx, uid)"
  define f where "f = (\<lambda>m. if member_key m = k then changed now c m else Some m)"
  have rows: "db_workspaceMembers (mb_core db') = List.map_filter f ?ms"
    using member_commit_rows [OF assms(2)] by (simp add: f_def k_def)
  have keys: "distinct (map member_key ?ms)" and some: "active_owners ws db \<noteq> []" using assms(3) by (simp_all add: owned_def)
  have "member_key y = member_key x" if "f x = Some y" for x y using that by (auto simp: f_def changed_key split: if_splits)
  with map_filter_keys [OF keys, of f] have keys': "distinct (map member_key (db_workspaceMembers (mb_core db')))" by (simp add: rows)
  obtain m where m0: "member_row db (cx_workspaceId cx) uid = Some m"
    and guard: "wm_role m = WOwner \<longrightarrow> c \<in> {Set_Role WOwner, Reactivate} \<or> 2 \<le> length (active_owners (cx_workspaceId cx) db)"
    using member_check_passed [OF assms(1)] by blast
  have m: "m \<in> set ?ms" "member_key m = k" using member_row_Some [OF m0] by (simp_all add: k_def)
  have owner: "x \<in> set (active_owners ws d) \<longleftrightarrow> x \<in> set (db_workspaceMembers (mb_core d)) \<and> wm_workspaceId x = ws \<and> wm_role x = WOwner \<and> wm_deactivatedAt x = None"
    for x d by (auto simp: active_owners_def)
  have stays: "x \<in> set (active_owners ws db')" if "x \<in> set (active_owners ws db)" "f x = Some x" for x
    using that unfolding owner rows map_filter_member by blast
  from some obtain x where x: "x \<in> set (active_owners ws db)" by (cases "active_owners ws db") auto
  have "\<exists>y. y \<in> set (active_owners ws db) \<and> f y = Some y"
  proof (cases "member_key x = k")
    case False
    then have "f x = Some x" by (simp add: f_def)
    with x show ?thesis by blast
  next
    case True
    then have same: "x = m" using unique_key [OF keys, of x m] x m by (simp add: owner)
    then have own: "wm_role m = WOwner" "wm_deactivatedAt m = None" "ws = cx_workspaceId cx"
      using x m(2) by (simp_all add: owner member_key_def k_def)
    show ?thesis
    proof (cases "c \<in> {Set_Role WOwner, Reactivate}")
      case True
      then have "f m = Some m" using own m(2) by (auto simp: f_def changed_def)
      with x same show ?thesis by blast
    next
      case False
      have "distinct (active_owners ws db)" using keys by (auto simp: active_owners_def distinct_map)
      then have "2 \<le> card (set (active_owners ws db))" using False guard own by (simp add: distinct_card)
      then have "\<not> set (active_owners ws db) \<subseteq> {m}"
        using card_mono [of "{m}" "set (active_owners ws db)"] by auto
      then obtain y where y: "y \<in> set (active_owners ws db)" "y \<noteq> m" by blast
      then have "f y = Some y" using unique_key [OF keys, of y m] m by (auto simp: owner f_def)
      with y show ?thesis by blast
    qed
  qed
  then obtain y where "y \<in> set (active_owners ws db')" using stays by blast
  then have "active_owners ws db' \<noteq> []" by (cases "active_owners ws db'") auto
  with keys' show ?thesis by (simp add: owned_def)
qed

text \<open>The requests of administrators, one at a time.\<close>

definition admin_step :: "time \<times> auth_context option \<times> string \<times> jobj \<Rightarrow> member_db \<Rightarrow> member_db" where
  "admin_step e db = (case e of (now, context, uid, body) \<Rightarrow>
     (case workspace_member_PATCH now context uid body db of Inl _ \<Rightarrow> db | Inr db' \<Rightarrow> db'))"

interpretation administration: kept admin_step "owned ws" for ws
proof
  fix db and e :: "time \<times> auth_context option \<times> string \<times> jobj" assume ok: "owned ws db"
  obtain now who uid body where e: "e = (now, who, uid, body)" by (cases e)
  show "owned ws (admin_step e db)"
  proof (cases "workspace_member_PATCH now who uid body db")
    case (Inr db')
    then obtain cx c where "member_check who uid body db = Inr (cx, c)" "member_commit now uid (cx, c) db = Inr db'"
      by (auto simp: workspace_member_PATCH_def bind_result_eq_Inr)
    with Inr e show ?thesis using member_PATCH_owned ok by (simp add: admin_step_def)
  qed (use ok e in \<open>simp add: admin_step_def\<close>)
qed

text \<open>
  C24: However administrators change, deactivate and remove members, a workspace that has an active owner keeps
  one, as long as each request ends before the next begins.
\<close>

theorem workspace_keeps_owner:
  assumes "owned ws db"
  shows "active_owners ws (fold admin_step es db) \<noteq> []"
  using administration.run_inv [OF assms, of es] by (simp add: owned_def)

section \<open>An invitation is used once\<close>

datatype member_event =
    Add_Member "string option" "string \<times> string \<times> string" secret time "auth_context option" string jobj
  | Edit_Invitation "string option" "string \<times> string" secret time "auth_context option" string jobj
  | Accept string time accept_plan
  | Edit_Member time string "auth_context \<times> member_change"

text \<open>Any request between the check and the commit of another; the primary key refuses a second row with an id.\<close>

fun member_step :: "member_event \<Rightarrow> member_db \<Rightarrow> member_db" where
  "member_step (Add_Member app_url names s now context key body) db =
     (if sx_id s \<in> in_id ` set (mb_invitations db) then db
      else case members_POST app_url names s now context key body db of Inl _ \<Rightarrow> db | Inr db' \<Rightarrow> db')"
| "member_step (Edit_Invitation app_url names s now context i body) db =
     (case invitation_PATCH app_url names s now context i body db of Inl _ \<Rightarrow> db | Inr db' \<Rightarrow> db')"
| "member_step (Accept new now plan) db = (case accept_commit new now plan db of Inl _ \<Rightarrow> db | Inr (_, db') \<Rightarrow> db')"
| "member_step (Edit_Member now uid plan) db = (case member_commit now uid plan db of Inl _ \<Rightarrow> db | Inr db' \<Rightarrow> db')"

definition spent :: "string \<Rightarrow> member_db \<Rightarrow> bool" where
  "spent i db \<longleftrightarrow> i \<in> in_id ` set (mb_invitations db) \<and> (\<forall>x\<in>set (mb_invitations db). in_id x = i \<longrightarrow> in_status x \<noteq> ''PENDING'')"

text \<open>A table rewritten without making a row pending again, rows with ids in \<open>fresh\<close> added.\<close>

definition reissued :: "string set \<Rightarrow> invitation list \<Rightarrow> invitation list \<Rightarrow> bool" where
  "reissued fresh xs ys \<longleftrightarrow> (\<exists>h extra. ys = map h xs @ extra \<and> in_id ` set extra \<subseteq> fresh
     \<and> (\<forall>x. in_id (h x) = in_id x \<and> (in_status (h x) = ''PENDING'' \<longrightarrow> in_status x = ''PENDING'')))"

lemma reissued_map:
  assumes "\<And>x. in_id (h x) = in_id x \<and> (in_status (h x) = ''PENDING'' \<longrightarrow> in_status x = ''PENDING'')"
  shows "reissued fresh xs (map h xs)"
  unfolding reissued_def using assms by (intro exI [of _ h] exI [of _ "[]"]) simp

lemma reissued_edits [simp]:
  "v \<noteq> ''PENDING'' \<Longrightarrow> reissued fresh xs (map (\<lambda>y. if P y then y\<lparr>in_status := v\<rparr> else y) xs)"
  "reissued fresh xs (map (\<lambda>y. if P y then y\<lparr>in_tokenHash := hash, in_expiresAt := t\<rparr> else y) xs)"
  "reissued fresh xs (map (\<lambda>y. if P y then y\<lparr>in_projectRole := r, in_tokenHash := hash, in_expiresAt := t\<rparr> else y) xs)"
  by (rule reissued_map, simp)+

lemma reissued_add: "in_id x \<in> fresh \<Longrightarrow> reissued fresh xs (xs @ [x])"
  unfolding reissued_def by (intro exI [of _ id] exI [of _ "[x]"]) simp

lemma reissued_refl [simp]: "reissued fresh xs xs"
  using reissued_map [of id] by simp

lemma reissued_spent:
  assumes "spent i db" and "reissued fresh (mb_invitations db) (mb_invitations db')" and "i \<notin> fresh"
  shows "spent i db'"
proof -
  from assms(2) obtain h extra where eq: "mb_invitations db' = map h (mb_invitations db) @ extra" and new: "in_id ` set extra \<subseteq> fresh"
    and h: "\<And>x. in_id (h x) = in_id x" "\<And>x. in_status (h x) = ''PENDING'' \<Longrightarrow> in_status x = ''PENDING''" unfolding reissued_def by blast
  have "in_id ` set (map h (mb_invitations db)) = in_id ` set (mb_invitations db)" by (simp add: image_image h(1))
  moreover have "in_id x \<noteq> i" if "x \<in> set extra" for x using that new assms(3) by blast
  moreover have "in_status (h x) \<noteq> ''PENDING''" if "x \<in> set (mb_invitations db)" "in_id (h x) = i" for x
    using that h assms(1) by (auto simp: spent_def)
  ultimately show ?thesis using assms(1) unfolding spent_def eq set_append image_Un by auto
qed

lemma member_commit_invitations: "member_commit now uid plan db = Inr db' \<Longrightarrow> mb_invitations db' = mb_invitations db"
  by (auto simp: member_commit_def Let_def change_row_def split: prod.splits member_change.splits if_splits)

lemma accept_commit_invitations:
  "accept_commit new now plan db = Inr (uid, db') \<Longrightarrow> count_rows (claimable now (ap_invitation plan)) (mb_invitations db) = 1
     \<and> mb_invitations db' = map (\<lambda>y. if claimable now (ap_invitation plan) y then y\<lparr>in_status := ''ACCEPTED''\<rparr> else y) (mb_invitations db)"
  by (auto simp: accept_commit_def Let_def split: if_splits)

lemma invite_reissues: "reissued {sx_id s} (mb_invitations db) (mb_invitations (invite app_url names s now cx p email r db))"
  unfolding invite_def Let_def log_audit_tables
  by (cases "find (\<lambda>i. in_workspaceId i = cx_workspaceId cx \<and> in_projectId i = Some (p_id p) \<and> in_email i = email \<and> in_status i = ''PENDING'')
      (mb_invitations db)")
    (simp_all add: reissued_add)

lemma members_POST_reissues:
  assumes "members_POST app_url names s now context key body db = Inr db'"
  shows "reissued {sx_id s} (mb_invitations db) (mb_invitations db')"
proof -
  from assms obtain cx p where "managementContext context key db = Inr (cx, p)" by (auto simp: members_POST_def bind_result_eq_Inr)
  with assms show ?thesis
    by (auto simp: members_POST_def Let_def invite_reissues split: option.splits if_splits)
qed

lemma invitation_PATCH_reissues:
  assumes "invitation_PATCH app_url names s now context i body db = Inr db'"
  shows "reissued fresh (mb_invitations db) (mb_invitations db')"
  using assms unfolding invitation_PATCH_def by (auto split: option.splits if_splits)

interpretation invitations: kept member_step "spent i" for i
proof
  fix db e assume ok: "spent i db"
  then have known: "i \<in> in_id ` set (mb_invitations db)" by (simp add: spent_def)
  show "spent i (member_step e db)"
  proof (cases e)
    case (Add_Member app_url names s now who key body)
    show ?thesis
    proof (cases "sx_id s \<in> in_id ` set (mb_invitations db) \<or> (\<exists>n. members_POST app_url names s now who key body db = Inl n)")
      case False
      then obtain db' where run: "members_POST app_url names s now who key body db = Inr db'"
        by (cases "members_POST app_url names s now who key body db") auto
      from False known have "i \<notin> {sx_id s}" by (metis singletonD)
      then have "spent i db'" by (rule reissued_spent [OF ok members_POST_reissues [OF run]])
      then show ?thesis using False Add_Member run by simp
    qed (use ok Add_Member in auto)
  next
    case (Edit_Invitation app_url names s now who j body)
    show ?thesis
    proof (cases "invitation_PATCH app_url names s now who j body db")
      case (Inr db')
      then have "spent i db'" using reissued_spent [OF ok invitation_PATCH_reissues [OF Inr, of "{}"]] by simp
      then show ?thesis using Edit_Invitation Inr by simp
    qed (use ok Edit_Invitation in simp)
  next
    case (Accept new now plan)
    show ?thesis
    proof (cases "accept_commit new now plan db")
      case (Inr w)
      then obtain uid db' where run: "accept_commit new now plan db = Inr (uid, db')" by (cases w) simp
      from accept_commit_invitations [OF this] have "reissued {} (mb_invitations db) (mb_invitations db')" by simp
      then have "spent i db'" by (rule reissued_spent [OF ok]) simp
      then show ?thesis using Accept run by simp
    qed (use ok Accept in simp)
  next
    case (Edit_Member now uid plan)
    then show ?thesis using ok member_commit_invitations by (auto simp: spent_def split: sum.splits)
  qed
qed

text \<open>
  C25: An invitation is used once: when it has been accepted, every other acceptance of it is refused, also one
  that had read it before, whatever requests run in between.
\<close>

theorem invitation_used_once:
  assumes "accept_commit new now plan db = Inr (uid, db')"
    and "in_id (ap_invitation plan') = in_id (ap_invitation plan)" and "distinct (map in_id (mb_invitations db))"
  shows "accept_commit new' now' plan' (fold member_step es db') = Inl 409"
proof -
  let ?x = "ap_invitation plan"
  from accept_commit_invitations [OF assms(1)] have one: "count_rows (claimable now ?x) (mb_invitations db) = 1"
    and rows: "mb_invitations db' = map (\<lambda>y. if claimable now ?x y then y\<lparr>in_status := ''ACCEPTED''\<rparr> else y) (mb_invitations db)" by auto
  from one have "\<exists>y\<in>set (mb_invitations db). claimable now ?x y" using count_rows_0 [of "claimable now ?x" "mb_invitations db"] by auto
  then obtain y where y: "y \<in> set (mb_invitations db)" "claimable now ?x y" by blast
  have only: "z = y" if "z \<in> set (mb_invitations db)" "in_id z = in_id ?x" for z
    using unique_key [OF assms(3) that(1) y(1)] that(2) y(2) by (simp add: claimable_def)
  have "in_status z \<noteq> ''PENDING''" if z: "z \<in> set (mb_invitations db')" "in_id z = in_id ?x" for z
  proof -
    from z obtain w where w: "w \<in> set (mb_invitations db)" "z = (if claimable now ?x w then w\<lparr>in_status := ''ACCEPTED''\<rparr> else w)"
      by (auto simp: rows)
    then have "w = y" using only [OF w(1)] z(2) by (simp split: if_splits)
    then show ?thesis using w(2) y(2) by simp
  qed
  moreover have "in_id ?x \<in> in_id ` set (mb_invitations db')"
  proof -
    have "map in_id (mb_invitations db') = map in_id (mb_invitations db)" by (simp add: rows)
    then have "in_id ` set (mb_invitations db') = in_id ` set (mb_invitations db)" by (metis set_map)
    then show ?thesis using y by (simp add: claimable_def image_iff) metis
  qed
  ultimately have "spent (in_id ?x) db'" by (simp add: spent_def)
  then have "spent (in_id ?x) (fold member_step es db')" by (rule invitations.run_inv)
  then have "count_rows (claimable now' (ap_invitation plan')) (mb_invitations (fold member_step es db')) = 0"
    using assms(2) by (auto simp: spent_def claimable_def)
  then have "count_rows (claimable now' (ap_invitation plan')) (mb_invitations (fold member_step es db')) \<noteq> 1" by linarith
  then show ?thesis unfolding accept_commit_def Let_def by (rule if_P)
qed

text \<open>
  Accepting an invitation writes the role of the invitation and lifts a deactivation, whoever the member
  has become since it was sent.
\<close>

theorem acceptance_overrides_membership:
  assumes "accept_commit new now plan db = Inr (uid, db')"
  shows "\<exists>m\<in>set (db_workspaceMembers (mb_core db')). wm_workspaceId m = in_workspaceId (ap_invitation plan) \<and> wm_userId m = uid
    \<and> wm_role m = in_workspaceRole (ap_invitation plan) \<and> wm_deactivatedAt m = None"
proof -
  from assms have rows: "db_workspaceMembers (mb_core db')
      = upsert_member (in_workspaceId (ap_invitation plan)) uid (in_workspaceRole (ap_invitation plan)) (db_workspaceMembers (mb_core db))"
    by (auto simp: accept_commit_def Let_def split: if_splits option.splits)
  show ?thesis
  proof (cases "list_ex (\<lambda>m. wm_workspaceId m = in_workspaceId (ap_invitation plan) \<and> wm_userId m = uid) (db_workspaceMembers (mb_core db))")
    case True
    then obtain m where "m \<in> set (db_workspaceMembers (mb_core db))" "wm_workspaceId m = in_workspaceId (ap_invitation plan)" "wm_userId m = uid"
      by (auto simp: list_ex_iff)
    then show ?thesis unfolding rows upsert_member_def if_P [OF True]
      by (intro bexI [of _ "m\<lparr>wm_role := in_workspaceRole (ap_invitation plan), wm_deactivatedAt := None\<rparr>"]) (auto intro: rev_image_eqI)
  qed (simp add: rows upsert_member_def)
qed

section \<open>Sample team\<close>

definition team_member :: "string \<Rightarrow> workspace_role \<Rightarrow> time option \<Rightarrow> workspace_member" where
  "team_member u r t = \<lparr>wm_workspaceId = ''w'', wm_userId = u, wm_role = r, wm_deactivatedAt = t\<rparr>"

definition team_user :: "string \<Rightarrow> account" where
  "team_user u = \<lparr>u_id = u, u_email = u @ ''@x.co'', u_name = u, u_passwordHash = Some ''h''\<rparr>"

definition team_db0 :: member_db where
  "team_db0 = \<lparr>mb_core = \<lparr>db_issues = [],
      db_projects = [\<lparr>p_id = ''p'', p_workspaceId = ''w'', p_key = ''WEB'', p_visibility = Private, p_template = Kanban, p_archivedAt = None,
        p_permissionSchemeVersionId = None, p_issueSequence = 1, p_defaultPriority = Medium\<rparr>],
      db_projectMembers = [\<lparr>pm_projectId = ''p'', pm_userId = ''pat'', pm_role = PAdmin\<rparr>],
      db_workspaceMembers = [team_member ''amy'' WOwner None, team_member ''bob'' WOwner (Some 1), team_member ''pat'' WMember None],
      db_issueTypes = [], db_levels = [], db_statuses = [], db_securityLevels = [],
      db_schemeVersions = [], db_groups = [], db_activities = [], db_audit = []\<rparr>,
     mb_users = [team_user ''amy'', team_user ''bob'', team_user ''pat''], mb_invitations = [], mb_sessions = [], mb_outbox = empty_outbox\<rparr>"

definition as_user :: "string \<Rightarrow> workspace_role \<Rightarrow> auth_context option" where
  "as_user u r = Some \<lparr>cx_userId = u, cx_workspaceId = ''w'', cx_role = r\<rparr>"

definition team_secret :: secret where
  "team_secret = \<lparr>sx_id = ''inv'', sx_token = ''tok'', sx_hash = ''tok''\<rparr>"

definition demote :: jobj where "demote = [(''role'', JStr ''MEMBER'')]"

definition bob_invited :: "(nat, member_db) result" where
  "bob_invited = members_POST None (''W'', ''Pat'', ''Web'') team_secret 5 (as_user ''pat'' WMember) ''web''
     [(''email'', JStr ''bob@x.co'')] team_db0"

definition bob_accepts :: "member_db \<Rightarrow> (nat, string \<times> member_db) result" where
  "bob_accepts = invitation_POST (\<lambda>t. t) (\<lambda>_ _. True) (\<lambda>p. p) ''u9'' 9 ''tok'' [(''password'', JStr ''0123456789'')]"

text \<open>Bob, a deactivated owner, is invited to a project, comes back, demotes Amy, and opens the invitation.\<close>

definition forgotten_invitation :: "(nat, string \<times> member_db) result" where
  "forgotten_invitation =
     bind_result bob_invited (\<lambda>db1.
     bind_result (workspace_member_PATCH 6 (as_user ''amy'' WOwner) ''bob'' [(''action'', JStr ''reactivate'')] db1) (\<lambda>db2.
     bind_result (workspace_member_PATCH 7 (as_user ''bob'' WOwner) ''amy'' demote db2) bob_accepts))"

text \<open>Two owners demote each other, both checks before both commits.\<close>

definition mutual_demotion :: "(nat, member_db) result" where
  "mutual_demotion =
     bind_result (workspace_member_PATCH 6 (as_user ''amy'' WOwner) ''bob'' [(''action'', JStr ''reactivate'')] team_db0) (\<lambda>db.
     bind_result (member_check (as_user ''amy'' WOwner) ''bob'' demote db) (\<lambda>first.
     bind_result (member_check (as_user ''bob'' WOwner) ''amy'' demote db) (\<lambda>second.
     bind_result (member_commit 7 ''bob'' first db) (member_commit 8 ''amy'' second))))"

text \<open>
  The last owner can still be lost: by an invitation to a project that was sent before, whose acceptance
  overwrites the role of its owner, and by two owners who demote each other at the same time.
\<close>

theorem last_owner_can_be_lost:
  "owned ''w'' team_db0
   \<and> (case forgotten_invitation of Inl _ \<Rightarrow> False | Inr (_, db) \<Rightarrow> active_owners ''w'' db = [])
   \<and> (case mutual_demotion of Inl _ \<Rightarrow> False | Inr db \<Rightarrow> active_owners ''w'' db = [])"
proof (intro conjI)
  show "owned ''w'' team_db0" by code_simp
  show "case forgotten_invitation of Inl _ \<Rightarrow> False | Inr (_, db) \<Rightarrow> active_owners ''w'' db = []" by code_simp
  show "case mutual_demotion of Inl _ \<Rightarrow> False | Inr db \<Rightarrow> active_owners ''w'' db = []" by code_simp
qed

theorem workspace_keeps_owner_witness:
  "active_owners ''w'' (fold admin_step [(6, as_user ''amy'' WOwner, ''bob'', [(''action'', JStr ''reactivate'')]), (7, as_user ''bob'' WOwner, ''amy'', demote)] team_db0) \<noteq> []"
proof (rule workspace_keeps_owner)
  show "owned ''w'' team_db0" by code_simp
qed

definition invited_db :: member_db where
  "invited_db = (case bob_invited of Inl _ \<Rightarrow> team_db0 | Inr db \<Rightarrow> db)"

definition bob_plan :: accept_plan where
  "bob_plan = \<lparr>ap_invitation = hd (mb_invitations invited_db), ap_user = Some (team_user ''bob''), ap_name = [], ap_passwordHash = ''h''\<rparr>"

definition accepted :: "string \<times> member_db" where
  "accepted = (case accept_commit ''u9'' 9 bob_plan invited_db of Inl _ \<Rightarrow> ([], team_db0) | Inr w \<Rightarrow> w)"

lemma bob_accepted: "accept_commit ''u9'' 9 bob_plan invited_db = Inr (''bob'', snd accepted)"
proof -
  have "(case accept_commit ''u9'' 9 bob_plan invited_db of Inl _ \<Rightarrow> False | Inr w \<Rightarrow> fst w = ''bob'')" by code_simp
  then show ?thesis unfolding accepted_def by (auto split: sum.splits)
qed

theorem invitation_used_once_witness:
  "accept_commit ''u10'' 10 bob_plan (fold member_step [Edit_Invitation None (''W'', ''Amy'') team_secret 9 (as_user ''amy'' WOwner) ''inv''
     [(''action'', JStr ''resend'')]] (snd accepted)) = Inl 409"
proof (rule invitation_used_once [OF bob_accepted refl])
  show "distinct (map in_id (mb_invitations invited_db))" by code_simp
qed

theorem acceptance_overrides_membership_witness:
  "\<exists>m\<in>set (db_workspaceMembers (mb_core (snd accepted))). wm_workspaceId m = in_workspaceId (ap_invitation bob_plan) \<and> wm_userId m = ''bob''
    \<and> wm_role m = in_workspaceRole (ap_invitation bob_plan) \<and> wm_deactivatedAt m = None"
  by (rule acceptance_overrides_membership [OF bob_accepted])

end
