(* ===== verification/Workflow.thy ===== *)
theory Workflow
  imports Store
begin

text \<open>
  Workflows: which transition an issue may take (\<open>src/lib/workflow.ts\<close>) and the configuration of
  statuses, issue types, board columns and transitions
  (\<open>src/app/api/projects/[key]/workflow/route.ts\<close>). A handler's transaction is one function on the
  tables that gives an error code and no change, or the new tables. Fresh identifiers are the
  parameter \<open>new\<close>; a unique constraint that fails is the code \<open>DUPLICATE\<close>.
\<close>

section \<open>Transitions\<close>

record transition =
  tr_id :: string
  tr_projectId :: string
  tr_from :: string
  tr_to :: string
  tr_name :: string
  tr_description :: "string option"
  tr_position :: int
  tr_enabled :: bool
  tr_conditions :: js
  tr_validators :: js
  tr_actions :: js
  tr_version :: int

record wf_view =   \<comment> \<open>the issue as the rules read it\<close>
  vw_assigneeId :: "string option"
  vw_reporterId :: string
  vw_issueTypeId :: string
  vw_resolution :: "string option"
  vw_fields :: "(string \<times> js) list"

record transition_input =
  ti_projectId :: string
  ti_from :: string
  ti_to :: string
  ti_actorId :: string
  ti_workspaceRole :: workspace_role
  ti_projectRole :: "project_role option"
  ti_proposed :: jobj

text \<open>\<open>rules\<close> and \<open>strings\<close>: what is not a rule object or not a string is dropped.\<close>

definition rules :: "js \<Rightarrow> jobj list" where
  "rules v =
     (case as_array v of
        None \<Rightarrow> []
      | Some vs \<Rightarrow> List.map_filter (\<lambda>item. case as_object item of
            Some fs \<Rightarrow> if as_string (field ''type'' fs) \<noteq> None then Some fs else None
          | None \<Rightarrow> None) vs)"

definition strings :: "js \<Rightarrow> string list" where
  "strings v = (case as_array v of None \<Rightarrow> [] | Some vs \<Rightarrow> strings_of vs)"

abbreviation has_type :: "jobj \<Rightarrow> string \<Rightarrow> bool" where
  "has_type rule t \<equiv> field ''type'' rule = JStr t"

definition role_text :: "transition_input \<Rightarrow> string" where
  "role_text inp = (case ti_projectRole inp of Some r \<Rightarrow> project_role_name r | None \<Rightarrow> workspace_role_name (ti_workspaceRole inp))"

definition condition_holds :: "transition_input \<Rightarrow> wf_view \<Rightarrow> jobj \<Rightarrow> bool" where
  "condition_holds inp v rule =
     (if has_type rule ''ROLE'' then role_text inp \<in> set (strings (field ''roles'' rule))
      else if has_type rule ''ASSIGNEE'' then vw_assigneeId v = Some (ti_actorId inp)
      else if has_type rule ''REPORTER'' then vw_reporterId v = ti_actorId inp
      else if has_type rule ''ISSUE_TYPE'' then vw_issueTypeId v \<in> set (strings (field ''issueTypeIds'' rule))
      else if has_type rule ''FIELD_EQUALS''
      then list_ex (\<lambda>(f, w). JStr f = field ''fieldId'' rule \<and> w = field ''value'' rule) (vw_fields v)
      else False)"

definition matches :: "jobj list \<Rightarrow> transition_input \<Rightarrow> wf_view \<Rightarrow> bool" where
  "matches conditions inp v = list_all (condition_holds inp v) conditions"

datatype validator_error = Resolution_Required | Field_Missing js

definition nullable_js :: "string option \<Rightarrow> js" where
  "nullable_js v = (case v of None \<Rightarrow> JNull | Some s \<Rightarrow> JStr s)"

definition validatorError :: "jobj \<Rightarrow> wf_view \<Rightarrow> jobj \<Rightarrow> validator_error list" where
  "validatorError rule v proposed =
     (if has_type rule ''RESOLUTION'' \<and> \<not> (truthy (field ''resolution'' proposed) \<or> truthy (nullable_js (vw_resolution v)))
      then [Resolution_Required]
      else if has_type rule ''REQUIRED_FIELD''
      then (let present =
              (if field ''field'' rule = JStr ''assignee''
               then field ''assigneeId'' proposed \<noteq> JNull
                    \<and> (truthy (field ''assigneeId'' proposed) \<or> truthy (nullable_js (vw_assigneeId v)))
               else (case as_string (field ''fieldId'' rule) of
                       Some f \<Rightarrow> list_ex (\<lambda>(g, _). g = f) (vw_fields v) | None \<Rightarrow> False))
            in if present then [] else [Field_Missing (nullish (field ''fieldId'' rule) (field ''field'' rule))])
      else [])"

datatype transition_error = No_Transition | Invalid "validator_error list"

definition evaluateTransition ::
    "transition list \<Rightarrow> transition_input \<Rightarrow> wf_view \<Rightarrow> (transition_error, (transition \<times> jobj list) option) result" where
  "evaluateTransition trs inp v =
     (if \<not> list_ex (\<lambda>t. tr_projectId t = ti_projectId inp \<and> tr_enabled t) trs then Inr None
      else
       (let cands = sort_key tr_position (sort_key tr_id
              (filter (\<lambda>t. tr_projectId t = ti_projectId inp \<and> tr_from t = ti_from inp \<and> tr_to t = ti_to inp \<and> tr_enabled t) trs))
        in case find (\<lambda>t. matches (rules (tr_conditions t)) inp v) cands of
             None \<Rightarrow> Inl No_Transition
           | Some t \<Rightarrow>
               (let errors = concat (map (\<lambda>r. validatorError r v (ti_proposed inp)) (rules (tr_validators t)))
                in if errors \<noteq> [] then Inl (Invalid errors) else Inr (Some (t, rules (tr_actions t))))))"

section \<open>The configuration tables\<close>

record wf_status =
  ws_id :: string
  ws_projectId :: string
  ws_name :: string
  ws_category :: string
  ws_color :: string
  ws_position :: int

record wf_type =
  wt_id :: string
  wt_projectId :: string
  wt_name :: string
  wt_kind :: string
  wt_position :: int

record board =
  bd_id :: string
  bd_projectId :: string

record board_column =
  co_id :: string
  co_boardId :: string
  co_statusId :: string
  co_name :: string
  co_position :: int
  co_wipLimit :: "int option"

record wf_issue =
  wi_id :: string
  wi_projectId :: string
  wi_statusId :: string
  wi_typeId :: string

record wf_db =
  wf_statuses :: "wf_status list"
  wf_types :: "wf_type list"
  wf_boards :: "board list"
  wf_columns :: "board_column list"
  wf_issues :: "wf_issue list"
  wf_requestTypes :: "(string \<times> string) list"   \<comment> \<open>issue type and initial status of a request type\<close>
  wf_transitions :: "transition list"
  wf_versions :: "(string \<times> int) list"          \<comment> \<open>project and version\<close>
  wf_fields :: "(string \<times> string) list"         \<comment> \<open>project and a field that is not archived\<close>
  wf_priorities :: "(string \<times> string) list"     \<comment> \<open>project and default priority\<close>
  wf_audit :: "(string \<times> string) list"          \<comment> \<open>action and target\<close>

type_synonym wf_result = "(string, wf_db \<times> string) result"   \<comment> \<open>the new tables and the target id\<close>

definition categories :: "string list" where "categories = [''TODO'', ''IN_PROGRESS'', ''DONE'']"
definition kinds :: "string list" where "kinds = [''EPIC'', ''STORY'', ''TASK'', ''BUG'', ''SUBTASK'']"

definition text_of :: "js \<Rightarrow> nat \<Rightarrow> string option" where
  "text_of v n = (let s = (case as_string v of None \<Rightarrow> [] | Some s \<Rightarrow> trim s)
     in if s \<noteq> [] \<and> length s \<le> n then Some s else None)"

definition is_hex_digit :: "char \<Rightarrow> bool" where
  "is_hex_digit c \<longleftrightarrow> is_digit c \<or> to_lower_char c \<in> set ''abcdef''"

definition validColor :: "js \<Rightarrow> string option" where
  "validColor v = (case as_string v of
     Some (c # cs) \<Rightarrow> if c = CHR ''#'' \<and> length cs = 6 \<and> list_all is_hex_digit cs then Some (c # cs) else None
   | _ \<Rightarrow> None)"

definition one_of :: "string list \<Rightarrow> js \<Rightarrow> string option" where
  "one_of names v = find (\<lambda>n. v = JStr n) names"

text \<open>\<open>body.key === undefined ? current : ...\<close>\<close>

definition or_keep :: "js \<Rightarrow> 'a \<Rightarrow> (js \<Rightarrow> 'a option) \<Rightarrow> 'a option" where
  "or_keep v current parse = (if v = JUndef then Some current else parse v)"

definition find_status :: "wf_db \<Rightarrow> string \<Rightarrow> string \<Rightarrow> wf_status option" where
  "find_status db pid i = find (\<lambda>s. ws_id s = i \<and> ws_projectId s = pid) (wf_statuses db)"

definition project_board :: "wf_db \<Rightarrow> string \<Rightarrow> board option" where
  "project_board db pid = find (\<lambda>b. bd_projectId b = pid) (wf_boards db)"

definition status_create :: "(nat \<Rightarrow> string) \<Rightarrow> string \<Rightarrow> jobj \<Rightarrow> wf_db \<Rightarrow> wf_result" where
  "status_create new pid body db =
     (case (text_of (field ''name'' body) 50, one_of categories (field ''category'' body), validColor (field ''color'' body)) of
        (Some name, Some category, Some color) \<Rightarrow>
          if list_ex (\<lambda>s. ws_projectId s = pid \<and> ws_name s = name) (wf_statuses db) then Inl ''DUPLICATE''
          else
           (let position = int (count_rows (\<lambda>s. ws_projectId s = pid) (wf_statuses db));
                s = \<lparr>ws_id = new 0, ws_projectId = pid, ws_name = name, ws_category = category, ws_color = color, ws_position = position\<rparr>;
                cols = (case project_board db pid of
                    None \<Rightarrow> []
                  | Some b \<Rightarrow> [\<lparr>co_id = new 1, co_boardId = bd_id b, co_statusId = new 0, co_name = name, co_position = position, co_wipLimit = None\<rparr>])
            in Inr (db\<lparr>wf_statuses := wf_statuses db @ [s], wf_columns := wf_columns db @ cols\<rparr>, new 0))
      | _ \<Rightarrow> Inl ''INVALID_STATUS'')"

definition status_update :: "string \<Rightarrow> string \<Rightarrow> jobj \<Rightarrow> wf_db \<Rightarrow> (string, wf_db) result" where
  "status_update pid i body db =
     (case find_status db pid i of
        None \<Rightarrow> Inl ''NOT_FOUND''
      | Some s \<Rightarrow>
          (case (or_keep (field ''name'' body) (ws_name s) (\<lambda>v. text_of v 50),
                 or_keep (field ''category'' body) (ws_category s) (one_of categories),
                 or_keep (field ''color'' body) (ws_color s) validColor) of
             (Some name, Some category, Some color) \<Rightarrow>
               if name = [] \<or> category = [] \<or> color = [] then Inl ''INVALID_STATUS''
               else if list_ex (\<lambda>t. ws_projectId t = pid \<and> ws_name t = name \<and> ws_id t \<noteq> i) (wf_statuses db) then Inl ''DUPLICATE''
               else Inr (db\<lparr>wf_statuses := map (\<lambda>t. if ws_id t = i
                              then t\<lparr>ws_name := name, ws_category := category, ws_color := color\<rparr> else t) (wf_statuses db),
                            wf_columns := map (\<lambda>c. if co_statusId c = i then c\<lparr>co_name := name\<rparr> else c) (wf_columns db)\<rparr>)
           | _ \<Rightarrow> Inl ''INVALID_STATUS''))"

text \<open>
  Issues and columns are remapped or removed first; the transitions of the status go with it, by the
  cascade of the schema. A column of another project's board, or a request type that starts in the
  status, blocks the delete (\<open>onDelete: Restrict\<close>).
\<close>

definition on_project_board :: "wf_db \<Rightarrow> string \<Rightarrow> board_column \<Rightarrow> bool" where
  "on_project_board db pid c \<longleftrightarrow> list_ex (\<lambda>b. bd_id b = co_boardId c \<and> bd_projectId b = pid) (wf_boards db)"

definition status_delete :: "string \<Rightarrow> string \<Rightarrow> jobj \<Rightarrow> wf_db \<Rightarrow> (string, wf_db) result" where
  "status_delete pid i body db =
     (let r = string_or_empty (field ''replacementId'' body) in
      case (find_status db pid i, find_status db pid r) of
        (Some _, Some _) \<Rightarrow>
          if i = r then Inl ''INVALID_REMAP''
          else
           (let issues = map (\<lambda>x. if wi_projectId x = pid \<and> wi_statusId x = i then x\<lparr>wi_statusId := r\<rparr> else x) (wf_issues db);
                columns = filter (\<lambda>c. \<not> (co_statusId c = i \<and> on_project_board db pid c)) (wf_columns db)
            in if list_ex (\<lambda>x. wi_statusId x = i) issues \<or> list_ex (\<lambda>c. co_statusId c = i) columns
                  \<or> list_ex (\<lambda>(_, s). s = i) (wf_requestTypes db) then Inl ''FOREIGN_KEY''
               else Inr (db\<lparr>wf_issues := issues, wf_columns := columns,
                            wf_transitions := filter (\<lambda>t. tr_from t \<noteq> i \<and> tr_to t \<noteq> i) (wf_transitions db),
                            wf_statuses := filter (\<lambda>s. ws_id s \<noteq> i) (wf_statuses db)\<rparr>))
      | _ \<Rightarrow> Inl ''INVALID_REMAP'')"

section \<open>Ordering\<close>

text \<open>
  \<open>reorder\<close>: the row changes places with its neighbour in the scope, the nearest one with a strictly
  smaller or larger position; without a neighbour nothing happens.
\<close>

definition adjacent :: "('r \<Rightarrow> bool) \<Rightarrow> ('r \<Rightarrow> int) \<Rightarrow> int \<Rightarrow> int \<Rightarrow> 'r list \<Rightarrow> 'r option" where
  "adjacent scope pos direction p rows =
     (let near = (if direction < 0 then sort_key (\<lambda>r. - pos r) (filter (\<lambda>r. scope r \<and> pos r < p) rows)
                  else sort_key pos (filter (\<lambda>r. scope r \<and> p < pos r) rows))
      in case near of [] \<Rightarrow> None | r # _ \<Rightarrow> Some r)"

definition reorder :: "('r \<Rightarrow> string) \<Rightarrow> ('r \<Rightarrow> bool) \<Rightarrow> ('r \<Rightarrow> int) \<Rightarrow> (int \<Rightarrow> 'r \<Rightarrow> 'r) \<Rightarrow> string \<Rightarrow> int \<Rightarrow> 'r list
    \<Rightarrow> (string, 'r list) result" where
  "reorder rid scope pos set_pos i direction rows =
     (case find (\<lambda>r. scope r \<and> rid r = i) rows of
        None \<Rightarrow> Inl ''NOT_FOUND''
      | Some c \<Rightarrow>
          (case adjacent scope pos direction (pos c) rows of
             None \<Rightarrow> Inr rows
           | Some a \<Rightarrow> Inr (map (\<lambda>r. if rid r = rid a then set_pos (pos c) r else if rid r = i then set_pos (pos a) r else r) rows)))"

definition direction_of :: "jobj \<Rightarrow> int" where
  "direction_of body = (if field ''direction'' body = JStr ''up'' then -1 else if field ''direction'' body = JStr ''down'' then 1 else 0)"

fun index_of :: "string \<Rightarrow> string list \<Rightarrow> int option" where
  "index_of x [] = None"
| "index_of x (y # ys) = (if x = y then Some 0 else map_option (\<lambda>n. n + 1) (index_of x ys))"

definition set_status_position :: "int \<Rightarrow> wf_status \<Rightarrow> wf_status" where
  "set_status_position n s = s\<lparr>ws_position := n\<rparr>"

definition set_type_position :: "int \<Rightarrow> wf_type \<Rightarrow> wf_type" where
  "set_type_position n t = t\<lparr>wt_position := n\<rparr>"

definition set_column_position :: "int \<Rightarrow> board_column \<Rightarrow> board_column" where
  "set_column_position n c = c\<lparr>co_position := n\<rparr>"

definition status_move :: "string \<Rightarrow> string \<Rightarrow> int \<Rightarrow> wf_db \<Rightarrow> (string, wf_db) result" where
  "status_move pid i direction db =
     bind_result (reorder ws_id (\<lambda>s. ws_projectId s = pid) ws_position set_status_position i direction (wf_statuses db)) (\<lambda>statuses.
       let ordered = map ws_id (sort_key ws_position (filter (\<lambda>s. ws_projectId s = pid) statuses))
       in Inr (db\<lparr>wf_statuses := statuses,
                  wf_columns := map (\<lambda>c. case index_of (co_statusId c) ordered of
                      Some n \<Rightarrow> if on_project_board db pid c then c\<lparr>co_position := n\<rparr> else c | None \<Rightarrow> c) (wf_columns db)\<rparr>))"

definition type_move :: "string \<Rightarrow> string \<Rightarrow> int \<Rightarrow> wf_db \<Rightarrow> (string, wf_db) result" where
  "type_move pid i direction db =
     bind_result (reorder wt_id (\<lambda>t. wt_projectId t = pid) wt_position set_type_position i direction (wf_types db)) (\<lambda>types.
       Inr (db\<lparr>wf_types := types\<rparr>))"

definition column_move :: "string \<Rightarrow> string \<Rightarrow> int \<Rightarrow> wf_db \<Rightarrow> (string, wf_db) result" where
  "column_move pid i direction db =
     (case project_board db pid of
        None \<Rightarrow> Inl ''NOT_FOUND''
      | Some b \<Rightarrow>
          bind_result (reorder co_id (\<lambda>c. co_boardId c = bd_id b) co_position set_column_position i direction (wf_columns db)) (\<lambda>columns.
            Inr (db\<lparr>wf_columns := columns\<rparr>)))"

section \<open>Types and columns\<close>

definition find_type :: "wf_db \<Rightarrow> string \<Rightarrow> string \<Rightarrow> wf_type option" where
  "find_type db pid i = find (\<lambda>t. wt_id t = i \<and> wt_projectId t = pid) (wf_types db)"

definition type_create :: "(nat \<Rightarrow> string) \<Rightarrow> string \<Rightarrow> jobj \<Rightarrow> wf_db \<Rightarrow> wf_result" where
  "type_create new pid body db =
     (case (text_of (field ''name'' body) 50, one_of kinds (field ''kind'' body)) of
        (Some name, Some kind) \<Rightarrow>
          if list_ex (\<lambda>t. wt_projectId t = pid \<and> wt_name t = name) (wf_types db) then Inl ''DUPLICATE''
          else Inr (db\<lparr>wf_types := wf_types db @ [\<lparr>wt_id = new 0, wt_projectId = pid, wt_name = name, wt_kind = kind,
                        wt_position = int (count_rows (\<lambda>t. wt_projectId t = pid) (wf_types db))\<rparr>]\<rparr>, new 0)
      | _ \<Rightarrow> Inl ''INVALID_TYPE'')"

definition type_update :: "string \<Rightarrow> string \<Rightarrow> jobj \<Rightarrow> wf_db \<Rightarrow> (string, wf_db) result" where
  "type_update pid i body db =
     (case find_type db pid i of
        None \<Rightarrow> Inl ''NOT_FOUND''
      | Some t \<Rightarrow>
          (case (or_keep (field ''name'' body) (wt_name t) (\<lambda>v. text_of v 50),
                 or_keep (field ''kind'' body) (wt_kind t) (one_of kinds)) of
             (Some name, Some kind) \<Rightarrow>
               if name = [] \<or> kind = [] then Inl ''INVALID_TYPE''
               else if list_ex (\<lambda>u. wt_projectId u = pid \<and> wt_name u = name \<and> wt_id u \<noteq> i) (wf_types db) then Inl ''DUPLICATE''
               else Inr (db\<lparr>wf_types := map (\<lambda>u. if wt_id u = i then u\<lparr>wt_name := name, wt_kind := kind\<rparr> else u) (wf_types db)\<rparr>)
           | _ \<Rightarrow> Inl ''INVALID_TYPE''))"

definition type_delete :: "string \<Rightarrow> string \<Rightarrow> wf_db \<Rightarrow> (string, wf_db) result" where
  "type_delete pid i db =
     (if find_type db pid i = None then Inl ''NOT_FOUND''
      else if list_ex (\<lambda>x. wi_typeId x = i) (wf_issues db) then Inl ''TYPE_IN_USE''
      else if list_ex (\<lambda>(t, _). t = i) (wf_requestTypes db) then Inl ''FOREIGN_KEY''
      else Inr (db\<lparr>wf_types := filter (\<lambda>t. wt_id t \<noteq> i) (wf_types db)\<rparr>))"

definition column_update :: "(js \<Rightarrow> jnum) \<Rightarrow> string \<Rightarrow> string \<Rightarrow> jobj \<Rightarrow> wf_db \<Rightarrow> (string, wf_db) result" where
  "column_update to_num pid i body db =
     (case find (\<lambda>c. co_id c = i \<and> on_project_board db pid c) (wf_columns db) of
        None \<Rightarrow> Inl ''NOT_FOUND''
      | Some c \<Rightarrow>
          (let name = or_keep (field ''name'' body) (co_name c) (\<lambda>v. text_of v 50);
               raw = field ''wipLimit'' body;
               wip = (if raw = JNull \<or> raw = JStr [] then Some None
                      else (case as_integer (JNum (js_number to_num raw)) of
                              Some n \<Rightarrow> if 1 \<le> n \<and> n \<le> 999 then Some (Some n) else None | None \<Rightarrow> None))
           in case (name, wip) of
                (Some nm, Some w) \<Rightarrow>
                  if nm = [] then Inl ''INVALID_COLUMN''
                  else Inr (db\<lparr>wf_columns := map (\<lambda>d. if co_id d = i then d\<lparr>co_name := nm, co_wipLimit := w\<rparr> else d) (wf_columns db)\<rparr>)
              | _ \<Rightarrow> Inl ''INVALID_COLUMN''))"

section \<open>The draft of a workflow\<close>

text \<open>
  \<open>validateWorkflowDraft\<close>. The messages are kept; a \<open>TypeError\<close> of the code (a draft that is
  \<open>null\<close>, a name that is a number) is the code \<open>TypeError\<close>. \<open>item.position = index\<close> overwrites what the
  client sent.
\<close>

definition item_rules :: "js \<Rightarrow> jobj list" where
  "item_rules item = rules (js_get ''conditions'' item) @ rules (js_get ''validators'' item) @ rules (js_get ''actions'' item)"

definition rule_issue_types :: "js list \<Rightarrow> string list" where
  "rule_issue_types items = concat (map (\<lambda>item. concat (map (\<lambda>r. strings (field ''issueTypeIds'' r))
     (filter (\<lambda>r. has_type r ''ISSUE_TYPE'') (rules (js_get ''conditions'' item))))) items)"

definition rule_fields :: "js list \<Rightarrow> string list" where
  "rule_fields items = concat (map (\<lambda>item. List.map_filter (\<lambda>r. as_string (field ''fieldId'' r)) (item_rules item)) items)"

text \<open>\<open>item.name?.trim() || "Transition"\<close> and \<open>item.description?.trim()\<close>\<close>

definition optional_trim :: "js \<Rightarrow> (string, string option) result" where
  "optional_trim v = (case v of JUndef \<Rightarrow> Inr None | JNull \<Rightarrow> Inr None | JStr s \<Rightarrow> Inr (Some (trim s)) | _ \<Rightarrow> Inl ''TypeError'')"

record draft =
  dr_from :: string
  dr_to :: string
  dr_name :: string
  dr_position :: int
  dr_item :: js

definition draft_item :: "int \<times> js \<Rightarrow> (string, draft) result" where
  "draft_item = (\<lambda>(index, item).
     (case (js_get ''fromStatusId'' item, js_get ''toStatusId'' item) of
        (JStr f, JStr t) \<Rightarrow>
          if f = t then Inl ''A transition must change status.''
          else bind_result (optional_trim (js_get ''name'' item)) (\<lambda>nm.
                 let name = (case nm of None \<Rightarrow> ''Transition'' | Some n \<Rightarrow> if n = [] then ''Transition'' else n)
                 in if 100 < length name then Inl ''Each transition needs a name of 1-100 characters.''
                    else if list_ex (\<lambda>r. field ''type'' r = JStr []) (item_rules item) then Inl ''Every workflow rule needs a type.''
                    else Inr \<lparr>dr_from = f, dr_to = t, dr_name = name, dr_position = index, dr_item = item\<rparr>)
      | _ \<Rightarrow> Inl ''Every transition status must belong to this project.''))"

definition validateWorkflowDraft :: "wf_db \<Rightarrow> string \<Rightarrow> js list \<Rightarrow> (string, draft list) result" where
  "validateWorkflowDraft db pid items =
     (let ids = uniq (concat (map (\<lambda>item. [js_get ''fromStatusId'' item, js_get ''toStatusId'' item]) items));
          types = rule_issue_types items;
          fields = rule_fields items
      in if 200 < length items then Inl ''A workflow may contain up to 200 transitions.''
         else if JNull \<in> set items then Inl ''TypeError''
         else if \<not> all_strings ids
           \<or> count_rows (\<lambda>s. ws_projectId s = pid \<and> JStr (ws_id s) \<in> set ids) (wf_statuses db) \<noteq> length ids
         then Inl ''Every transition status must belong to this project.''
         else if count_rows (\<lambda>t. wt_projectId t = pid \<and> wt_id t \<in> set types) (wf_types db) \<noteq> length (uniq types)
         then Inl ''A workflow condition references an invalid issue type.''
         else if count_rows (\<lambda>(p, f). p = pid \<and> f \<in> set fields) (wf_fields db) \<noteq> length (uniq fields)
         then Inl ''A workflow rule references an unavailable custom field.''
         else map_result draft_item (zip (map int [0..<length items]) items))"

text \<open>
  Publication: the transitions of the project are replaced by the draft under the next version. Two
  items for one pair of statuses violate the unique key. A preview stops before any write.
\<close>

definition json_or_empty :: "js \<Rightarrow> js" where
  "json_or_empty v = nullish v (JArr [])"

definition transition_row :: "(nat \<Rightarrow> string) \<Rightarrow> string \<Rightarrow> int \<Rightarrow> nat \<times> draft \<Rightarrow> (string, transition) result" where
  "transition_row new pid version = (\<lambda>(n, d).
     bind_result (optional_trim (js_get ''description'' (dr_item d))) (\<lambda>desc.
       Inr \<lparr>tr_id = new n, tr_projectId = pid, tr_from = dr_from d, tr_to = dr_to d, tr_name = trim (dr_name d),
            tr_description = desc, tr_position = dr_position d, tr_enabled = (js_get ''enabled'' (dr_item d) \<noteq> JBool False),
            tr_conditions = json_or_empty (js_get ''conditions'' (dr_item d)),
            tr_validators = json_or_empty (js_get ''validators'' (dr_item d)),
            tr_actions = json_or_empty (js_get ''actions'' (dr_item d)), tr_version = version\<rparr>))"

definition next_version :: "wf_db \<Rightarrow> string \<Rightarrow> int" where
  "next_version db pid = foldr max (map snd (filter (\<lambda>(p, _). p = pid) (wf_versions db))) 0 + 1"

definition publish :: "(nat \<Rightarrow> string) \<Rightarrow> string \<Rightarrow> draft list \<Rightarrow> wf_db \<Rightarrow> wf_result" where
  "publish new pid drafts db =
     (let version = next_version db pid in
      bind_result (map_result (transition_row new pid version) (zip [0..<length drafts] drafts)) (\<lambda>rows.
        if \<not> distinct (map (\<lambda>r. (tr_from r, tr_to r)) rows) then Inl ''DUPLICATE''
        else Inr (db\<lparr>wf_transitions := filter (\<lambda>t. tr_projectId t \<noteq> pid) (wf_transitions db) @ rows,
                     wf_versions := wf_versions db @ [(pid, version)]\<rparr>, string_of_int version)))"

definition defaults_update :: "string \<Rightarrow> jobj \<Rightarrow> wf_db \<Rightarrow> (string, wf_db) result" where
  "defaults_update pid body db =
     (case one_of priority_names (field ''defaultPriority'' body) of
        None \<Rightarrow> Inl ''INVALID_PRIORITY''
      | Some p \<Rightarrow> Inr (db\<lparr>wf_priorities := map (\<lambda>(q, old). if q = pid then (q, p) else (q, old)) (wf_priorities db)\<rparr>))"

section \<open>The handler\<close>

definition on_target :: "string \<Rightarrow> (string, wf_db) result \<Rightarrow> (string, (wf_db \<times> string) option) result" where
  "on_target target r = bind_result r (\<lambda>db. Inr (Some (db, target)))"

definition with_target :: "wf_result \<Rightarrow> (string, (wf_db \<times> string) option) result" where
  "with_target r = bind_result r (\<lambda>p. Inr (Some p))"

text \<open>The action of the body; \<open>Inr None\<close> is the preview, which writes nothing.\<close>

definition wf_action :: "(js \<Rightarrow> jnum) \<Rightarrow> (nat \<Rightarrow> string) \<Rightarrow> string \<Rightarrow> jobj \<Rightarrow> wf_db \<Rightarrow> (string, (wf_db \<times> string) option) result" where
  "wf_action to_num new pid body db =
     (let action = string_or_empty (field ''action'' body);
          i = string_or_empty (field ''id'' body);
          target = (if i = [] then pid else i)
      in if action = ''status.create'' then with_target (status_create new pid body db)
         else if action = ''status.update'' then on_target target (status_update pid i body db)
         else if action = ''status.delete'' then on_target target (status_delete pid i body db)
         else if action \<in> {''status.move'', ''type.move'', ''column.move''} then
           (let d = direction_of body
            in if d = 0 then Inl ''INVALID_MOVE''
               else on_target target (if action = ''status.move'' then status_move pid i d db
                      else if action = ''type.move'' then type_move pid i d db else column_move pid i d db))
         else if action = ''type.create'' then with_target (type_create new pid body db)
         else if action = ''type.update'' then on_target target (type_update pid i body db)
         else if action = ''type.delete'' then on_target target (type_delete pid i db)
         else if action = ''column.update'' then on_target target (column_update to_num pid i body db)
         else if action = ''transitions.set'' then
           (case as_array (field ''transitions'' body) of
              None \<Rightarrow> Inl ''INVALID_TRANSITIONS''
            | Some items \<Rightarrow>
                bind_result (validateWorkflowDraft db pid items) (\<lambda>drafts.
                  if field ''preview'' body = JBool True then Inr None
                  else with_target (publish new pid drafts db)))
         else if action = ''defaults.update'' then on_target target (defaults_update pid body db)
         else Inl ''INVALID_ACTION'')"

datatype wf_response = Updated | Refused nat

definition error_status :: "string \<Rightarrow> nat" where
  "error_status code = (if code = ''NOT_FOUND'' then 404 else if contains_text ''IN_USE'' code then 409 else 400)"

definition workflow_patch :: "(js \<Rightarrow> jnum) \<Rightarrow> (nat \<Rightarrow> string) \<Rightarrow> string \<Rightarrow> jobj \<Rightarrow> wf_db \<Rightarrow> wf_db \<times> wf_response" where
  "workflow_patch to_num new pid body db =
     (case wf_action to_num new pid body db of
        Inl code \<Rightarrow> (db, Refused (error_status code))
      | Inr None \<Rightarrow> (db, Updated)
      | Inr (Some (db', target)) \<Rightarrow>
          (db'\<lparr>wf_audit := wf_audit db' @ [(''workflow.'' @ string_or_empty (field ''action'' body), target)]\<rparr>, Updated))"

text \<open>\<open>managedProject\<close>: who may configure the project \<open>key\<close>.\<close>

definition managedProject :: "workspace_db \<Rightarrow> auth_context option \<Rightarrow> string \<Rightarrow> (nat, auth_context \<times> project) result" where
  "managedProject wdb context key =
     (case context of
        None \<Rightarrow> Inl 401
      | Some cx \<Rightarrow>
          (case find (\<lambda>p. p_workspaceId p = cx_workspaceId cx \<and> p_key p = to_upper key) (db_projects wdb) of
             None \<Rightarrow> Inl 404
           | Some p \<Rightarrow>
               if p_archivedAt p \<noteq> None then Inl 404
               else if cx_role cx \<noteq> WOwner \<and> cx_role cx \<noteq> WAdmin
                 \<and> project_role_of wdb (p_id p) (cx_userId cx) \<noteq> Some PAdmin then Inl 403
               else Inr (cx, p)))"

definition workflow_PATCH :: "(js \<Rightarrow> jnum) \<Rightarrow> (nat \<Rightarrow> string) \<Rightarrow> workspace_db \<Rightarrow> auth_context option \<Rightarrow> string \<Rightarrow> jobj \<Rightarrow> wf_db \<Rightarrow> wf_db \<times> wf_response" where
  "workflow_PATCH to_num new wdb context key body db =
     (case managedProject wdb context key of
        Inl code \<Rightarrow> (db, Refused code)
      | Inr (cx, p) \<Rightarrow> workflow_patch to_num new (p_id p) body db)"

section \<open>Which transition an issue takes\<close>

definition candidate :: "transition_input \<Rightarrow> wf_view \<Rightarrow> transition \<Rightarrow> bool" where
  "candidate inp v t \<longleftrightarrow> tr_projectId t = ti_projectId inp \<and> tr_from t = ti_from inp \<and> tr_to t = ti_to inp \<and> tr_enabled t
     \<and> matches (rules (tr_conditions t)) inp v"

text \<open>
  The transition that decides: between the two statuses, with its conditions met, and before every other such
  transition in the order of positions and identifiers.
\<close>

definition decides :: "transition list \<Rightarrow> transition_input \<Rightarrow> wf_view \<Rightarrow> transition \<Rightarrow> bool" where
  "decides trs inp v t \<longleftrightarrow> t \<in> set trs \<and> candidate inp v t
     \<and> (\<forall>u\<in>set trs. candidate inp v u \<longrightarrow> tr_position t < tr_position u \<or> tr_position t = tr_position u \<and> tr_id t \<le> tr_id u)"

lemma decides_unique:
  "distinct (map tr_id trs) \<Longrightarrow> decides trs inp v t \<Longrightarrow> decides trs inp v u \<Longrightarrow> t = u"
  unfolding decides_def distinct_map inj_on_def by (metis antisym less_asym)

text \<open>The complaints of a transition's validators, in their order.\<close>

definition complaints :: "transition_input \<Rightarrow> wf_view \<Rightarrow> transition \<Rightarrow> validator_error list" where
  "complaints inp v t = concat (map (\<lambda>r. validatorError r v (ti_proposed inp)) (rules (tr_validators t)))"

lemma evaluateTransition_Inr:
  assumes "evaluateTransition trs inp v = Inr execution"
  shows "execution = None \<and> \<not> (\<exists>t\<in>set trs. tr_projectId t = ti_projectId inp \<and> tr_enabled t)
    \<or> (\<exists>t. execution = Some (t, rules (tr_actions t)) \<and> decides trs inp v t \<and> complaints inp v t = [])"
proof (cases "list_ex (\<lambda>t. tr_projectId t = ti_projectId inp \<and> tr_enabled t) trs")
  case True
  let ?F = "filter (\<lambda>t. tr_projectId t = ti_projectId inp \<and> tr_from t = ti_from inp \<and> tr_to t = ti_to inp \<and> tr_enabled t) trs"
  from True assms obtain t where t: "find (\<lambda>t. matches (rules (tr_conditions t)) inp v) (sort_key tr_position (sort_key tr_id ?F)) = Some t"
    and x: "complaints inp v t = []" "execution = Some (t, rules (tr_actions t))"
    by (auto simp: evaluateTransition_def complaints_def Let_def split: option.splits if_splits)
  have "decides trs inp v t" using find_SomeD [OF t] find_order_by [OF t] by (auto simp: decides_def candidate_def)
  with x show ?thesis by blast
next
  case False
  with assms show ?thesis by (auto simp: evaluateTransition_def list_ex_iff)
qed

text \<open>
  C12: The gate of status changes is exact. A project without an enabled transition is unrestricted. Otherwise
  the change is refused as unavailable exactly when no enabled transition between the two statuses has its
  conditions met, it is refused with a list of complaints exactly when these are the complaints, not none, of
  the validators of the first such transition and of no other one, and it takes a transition with its actions
  exactly when that is the first one and its validators have no complaint.
\<close>

theorem transition_gate_exact:
  assumes "distinct (map tr_id trs)"
  shows "(evaluateTransition trs inp v = Inr None \<longleftrightarrow> \<not> (\<exists>t\<in>set trs. tr_projectId t = ti_projectId inp \<and> tr_enabled t))
   \<and> (evaluateTransition trs inp v = Inl No_Transition \<longleftrightarrow>
        (\<exists>t\<in>set trs. tr_projectId t = ti_projectId inp \<and> tr_enabled t) \<and> \<not> (\<exists>t\<in>set trs. candidate inp v t))
   \<and> (evaluateTransition trs inp v = Inl (Invalid errors) \<longleftrightarrow>
        errors \<noteq> [] \<and> (\<exists>u. decides trs inp v u \<and> errors = complaints inp v u))
   \<and> (evaluateTransition trs inp v = Inr (Some (t, acts)) \<longleftrightarrow>
        decides trs inp v t \<and> acts = rules (tr_actions t) \<and> complaints inp v t = [])"
proof -
  let ?F = "filter (\<lambda>t. tr_projectId t = ti_projectId inp \<and> tr_from t = ti_from inp \<and> tr_to t = ti_to inp \<and> tr_enabled t) trs"
  let ?P = "\<lambda>t. matches (rules (tr_conditions t)) inp v"
  let ?C = "sort_key tr_position (sort_key tr_id ?F)"
  have none: "find ?P ?C = None \<longleftrightarrow> \<not> (\<exists>t\<in>set trs. candidate inp v t)"
    by (auto simp: find_None_iff' candidate_def)
  have some: "decides trs inp v t" if "find ?P ?C = Some t" for t
    using find_SomeD [OF that] find_order_by [OF that] by (auto simp: decides_def candidate_def)
  have closed: "\<not> list_ex (\<lambda>t. tr_projectId t = ti_projectId inp \<and> tr_enabled t) trs \<Longrightarrow> \<not> decides trs inp v t" for t
    by (auto simp: list_ex_iff candidate_def decides_def)
  show ?thesis
  proof (cases "find ?P ?C")
    case None
    with none have "\<not> decides trs inp v t" for t by (auto simp: decides_def)
    with None none show ?thesis by (simp add: evaluateTransition_def Let_def list_ex_iff)
  next
    case (Some u)
    from some [OF Some] have u: "decides trs inp v u" .
    from closed [of u] u have "list_ex (\<lambda>t. tr_projectId t = ti_projectId inp \<and> tr_enabled t) trs" by blast
    then have eval: "evaluateTransition trs inp v
        = (if complaints inp v u \<noteq> [] then Inl (Invalid (complaints inp v u)) else Inr (Some (u, rules (tr_actions u))))"
      using Some by (simp add: evaluateTransition_def complaints_def Let_def)
    have "u \<in> set trs" "candidate inp v u" using u by (simp_all add: decides_def)
    then have any: "\<exists>t\<in>set trs. candidate inp v t" "\<exists>t\<in>set trs. tr_projectId t = ti_projectId inp \<and> tr_enabled t"
      by (auto simp: candidate_def)
    have only: "decides trs inp v t \<longleftrightarrow> t = u" for t using decides_unique [OF assms] u by blast
    show ?thesis unfolding eval only using any by auto
  qed
qed

text \<open>
  Unknown rules do not open a transition. A condition of a type the code does not know is never
  met, so it blocks; a validator of such a type never complains, so it is silently skipped.
\<close>

lemma unknown_rules:
  assumes "field ''type'' rule = JStr ty"
  shows "(ty \<notin> {''ROLE'', ''ASSIGNEE'', ''REPORTER'', ''ISSUE_TYPE'', ''FIELD_EQUALS''} \<longrightarrow> \<not> condition_holds inp v rule)
    \<and> (ty \<notin> {''RESOLUTION'', ''REQUIRED_FIELD''} \<longrightarrow> validatorError rule v proposed = [])"
  using assms by (auto simp: condition_holds_def validatorError_def)

definition sample_transition :: transition where
  "sample_transition = \<lparr>tr_id = ''t'', tr_projectId = ''p'', tr_from = ''a'', tr_to = ''b'', tr_name = ''Start'', tr_description = None,
     tr_position = 0, tr_enabled = True, tr_conditions = JArr [JObj [(''type'', JStr ''REPORTER'')]], tr_validators = JArr [],
     tr_actions = JArr [], tr_version = 1\<rparr>"

text \<open>A later transition between the same statuses that also asks for a resolution.\<close>

definition strict_transition :: transition where
  "strict_transition = sample_transition\<lparr>tr_id := ''s'', tr_position := 1, tr_validators := JArr [JObj [(''type'', JStr ''RESOLUTION'')]]\<rparr>"

definition sample_input :: transition_input where
  "sample_input = \<lparr>ti_projectId = ''p'', ti_from = ''a'', ti_to = ''b'', ti_actorId = ''amy'', ti_workspaceRole = WMember,
     ti_projectRole = None, ti_proposed = []\<rparr>"

definition sample_view :: wf_view where
  "sample_view = \<lparr>vw_assigneeId = None, vw_reporterId = ''amy'', vw_issueTypeId = ''x'', vw_resolution = None, vw_fields = []\<rparr>"

theorem transition_gate_exact_witness:
  "evaluateTransition [strict_transition, sample_transition] sample_input sample_view = Inr (Some (sample_transition, []))
   \<and> evaluateTransition [strict_transition] sample_input sample_view = Inl (Invalid [Resolution_Required])
   \<and> decides [strict_transition, sample_transition] sample_input sample_view sample_transition
   \<and> decides [strict_transition] sample_input sample_view strict_transition"
proof -
  have runs: "evaluateTransition [strict_transition, sample_transition] sample_input sample_view = Inr (Some (sample_transition, []))"
    "evaluateTransition [strict_transition] sample_input sample_view = Inl (Invalid [Resolution_Required])" by code_simp+
  have keys: "distinct (map tr_id [strict_transition, sample_transition])" "distinct (map tr_id [strict_transition])"
    by (simp_all add: strict_transition_def sample_transition_def)
  from runs(1) transition_gate_exact [OF keys(1), where inp = sample_input and v = sample_view and t = sample_transition and acts = "[]"]
  have "decides [strict_transition, sample_transition] sample_input sample_view sample_transition" by blast
  moreover from runs(2) transition_gate_exact [OF keys(2), where inp = sample_input and v = sample_view and errors = "[Resolution_Required]"]
  obtain u where u: "decides [strict_transition] sample_input sample_view u" by blast
  then have "u = strict_transition" by (simp add: decides_def)
  ultimately show ?thesis using runs u by blast
qed

section \<open>Referential integrity\<close>

text \<open>What the foreign keys read of a row.\<close>

definition status_keys :: "wf_db \<Rightarrow> (string \<times> string) list" where
  "status_keys db = map (\<lambda>s. (ws_id s, ws_projectId s)) (wf_statuses db)"

definition type_keys :: "wf_db \<Rightarrow> (string \<times> string) list" where
  "type_keys db = map (\<lambda>t. (wt_id t, wt_projectId t)) (wf_types db)"

definition column_keys :: "wf_db \<Rightarrow> (string \<times> string \<times> string) list" where
  "column_keys db = map (\<lambda>c. (co_id c, co_boardId c, co_statusId c)) (wf_columns db)"

definition unique_ids :: "wf_db \<Rightarrow> bool" where
  "unique_ids db \<longleftrightarrow> distinct (map fst (status_keys db)) \<and> distinct (map fst (type_keys db))
     \<and> distinct (map fst (column_keys db)) \<and> distinct (map bd_id (wf_boards db))"

definition issues_ok :: "wf_db \<Rightarrow> bool" where
  "issues_ok db \<longleftrightarrow> (\<forall>x\<in>set (wf_issues db). (wi_statusId x, wi_projectId x) \<in> set (status_keys db)
     \<and> (wi_typeId x, wi_projectId x) \<in> set (type_keys db))"

definition columns_ok :: "wf_db \<Rightarrow> bool" where
  "columns_ok db \<longleftrightarrow> (\<forall>(_, b, s)\<in>set (column_keys db). \<exists>bd\<in>set (wf_boards db). bd_id bd = b \<and> (s, bd_projectId bd) \<in> set (status_keys db))"

definition transitions_ok :: "wf_db \<Rightarrow> bool" where
  "transitions_ok db \<longleftrightarrow> (\<forall>t\<in>set (wf_transitions db). tr_from t \<noteq> tr_to t
       \<and> (tr_from t, tr_projectId t) \<in> set (status_keys db) \<and> (tr_to t, tr_projectId t) \<in> set (status_keys db))
     \<and> distinct (map (\<lambda>t. (tr_projectId t, tr_from t, tr_to t)) (wf_transitions db))"

definition wf_ok :: "wf_db \<Rightarrow> bool" where
  "wf_ok db \<longleftrightarrow> unique_ids db \<and> issues_ok db \<and> columns_ok db \<and> transitions_ok db"

lemmas wf_ok_defs = wf_ok_def unique_ids_def issues_ok_def columns_ok_def transitions_ok_def

lemma wf_ok_cong:
  assumes "wf_ok db" and "status_keys db' = status_keys db" "type_keys db' = type_keys db" "column_keys db' = column_keys db"
    and "wf_boards db' = wf_boards db" "wf_issues db' = wf_issues db" "wf_transitions db' = wf_transitions db"
  shows "wf_ok db'"
  using assms by (simp add: wf_ok_defs)

lemma reorder_keys:
  assumes "reorder rid scope pos set_pos i d rows = Inr rows'" and "\<And>n r. key (set_pos n r) = key r"
  shows "map key rows' = map key rows"
  using assms(1) by (auto simp: reorder_def assms(2) split: option.splits)

lemma keys_map_if:
  "(\<And>r. P r \<Longrightarrow> key (f r) = key r) \<Longrightarrow> map key (map (\<lambda>r. if P r then f r else r) rows) = map key rows"
  by simp

lemma status_update_ok: "status_update pid i body db = Inr db' \<Longrightarrow> wf_ok db \<Longrightarrow> wf_ok db'"
  by (erule wf_ok_cong)
    (auto simp: status_update_def status_keys_def type_keys_def column_keys_def split: option.splits if_splits)

lemma status_move_ok: "status_move pid i d db = Inr db' \<Longrightarrow> wf_ok db \<Longrightarrow> wf_ok db'"
  by (erule wf_ok_cong)
    (auto simp: status_move_def status_keys_def type_keys_def column_keys_def result_elims Let_def set_status_position_def
       split: option.splits dest!: reorder_keys [where key = "\<lambda>s. (ws_id s, ws_projectId s)"])

lemma type_move_ok: "type_move pid i d db = Inr db' \<Longrightarrow> wf_ok db \<Longrightarrow> wf_ok db'"
  by (erule wf_ok_cong)
    (auto simp: type_move_def status_keys_def type_keys_def column_keys_def result_elims set_type_position_def
       dest!: reorder_keys [where key = "\<lambda>t. (wt_id t, wt_projectId t)"])

lemma column_move_ok: "column_move pid i d db = Inr db' \<Longrightarrow> wf_ok db \<Longrightarrow> wf_ok db'"
  by (erule wf_ok_cong)
    (auto simp: column_move_def status_keys_def type_keys_def column_keys_def result_elims set_column_position_def
       split: option.splits dest!: reorder_keys [where key = "\<lambda>c. (co_id c, co_boardId c, co_statusId c)"])

lemma type_update_ok: "type_update pid i body db = Inr db' \<Longrightarrow> wf_ok db \<Longrightarrow> wf_ok db'"
  by (erule wf_ok_cong)
    (auto simp: type_update_def status_keys_def type_keys_def column_keys_def split: option.splits if_splits)

lemma column_update_ok: "column_update to_num pid i body db = Inr db' \<Longrightarrow> wf_ok db \<Longrightarrow> wf_ok db'"
  by (erule wf_ok_cong)
    (auto simp: column_update_def status_keys_def type_keys_def column_keys_def Let_def split: option.splits if_splits)

lemma defaults_update_ok: "defaults_update pid body db = Inr db' \<Longrightarrow> wf_ok db \<Longrightarrow> wf_ok db'"
  by (erule wf_ok_cong) (auto simp: defaults_update_def status_keys_def type_keys_def column_keys_def split: option.splits)

text \<open>The primary keys a request draws are not in use.\<close>

definition fresh_ids :: "(nat \<Rightarrow> string) \<Rightarrow> wf_db \<Rightarrow> bool" where
  "fresh_ids new db \<longleftrightarrow> new 0 \<notin> set (map fst (status_keys db)) \<union> set (map fst (type_keys db)) \<and> new 1 \<notin> set (map fst (column_keys db))"

lemma wf_ok_more_statuses:
  assumes "wf_ok db" and "new 0 \<notin> set (map fst (status_keys db))" and "new 1 \<notin> set (map fst (column_keys db))"
    and s: "status_keys db' = status_keys db @ [(new 0, pid)]"
    and c: "column_keys db' = column_keys db \<or> (\<exists>b. project_board db pid = Some b \<and> column_keys db' = column_keys db @ [(new 1, bd_id b, new 0)])"
    and same: "type_keys db' = type_keys db" "wf_boards db' = wf_boards db" "wf_issues db' = wf_issues db" "wf_transitions db' = wf_transitions db"
  shows "wf_ok db'"
proof -
  have "columns_ok db'"
    using c
  proof
    assume "column_keys db' = column_keys db"
    with assms show ?thesis by (fastforce simp: wf_ok_defs)
  next
    assume "\<exists>b. project_board db pid = Some b \<and> column_keys db' = column_keys db @ [(new 1, bd_id b, new 0)]"
    then obtain b where b: "project_board db pid = Some b" and col: "column_keys db' = column_keys db @ [(new 1, bd_id b, new 0)]"
      by blast
    have "b \<in> set (wf_boards db) \<and> bd_projectId b = pid" using find_SomeD b by (fastforce simp: project_board_def)
    with assms(1) s same col show ?thesis by (fastforce simp: wf_ok_defs)
  qed
  moreover have "unique_ids db'" using assms by (auto simp: wf_ok_defs)
  moreover have "issues_ok db' \<and> transitions_ok db'" using assms(1) s same by (auto simp: wf_ok_defs)
  ultimately show ?thesis by (simp add: wf_ok_def)
qed

lemma status_create_ok: "status_create new pid body db = Inr (db', i) \<Longrightarrow> wf_ok db \<Longrightarrow> fresh_ids new db \<Longrightarrow> wf_ok db'"
  by (erule wf_ok_more_statuses [where new = new and pid = pid])
    (auto simp: fresh_ids_def status_create_def Let_def status_keys_def type_keys_def column_keys_def project_board_def
      split: option.splits if_splits)

lemma type_create_ok: "type_create new pid body db = Inr (db', i) \<Longrightarrow> wf_ok db \<Longrightarrow> fresh_ids new db \<Longrightarrow> wf_ok db'"
  by (auto simp: fresh_ids_def type_create_def Let_def status_keys_def type_keys_def column_keys_def wf_ok_defs
      split: option.splits if_splits)

lemma find_status_key: "find_status db pid i = Some s \<Longrightarrow> (i, pid) \<in> set (status_keys db)"
  by (auto simp: find_status_def status_keys_def dest!: find_SomeD)

lemma status_delete_ok:
  assumes "status_delete pid i body db = Inr db'" and ok: "wf_ok db"
  shows "wf_ok db'"
proof -
  define r where "r = string_or_empty (field ''replacementId'' body)"
  define issues where "issues = map (\<lambda>x. if wi_projectId x = pid \<and> wi_statusId x = i then x\<lparr>wi_statusId := r\<rparr> else x) (wf_issues db)"
  define columns where "columns = filter (\<lambda>c. \<not> (co_statusId c = i \<and> on_project_board db pid c)) (wf_columns db)"
  have r: "(r, pid) \<in> set (status_keys db)" "r \<noteq> i"
    and gone: "\<forall>x\<in>set issues. wi_statusId x \<noteq> i" "\<forall>c\<in>set columns. co_statusId c \<noteq> i"
    and db': "db' = db\<lparr>wf_issues := issues, wf_columns := columns,
        wf_transitions := filter (\<lambda>t. tr_from t \<noteq> i \<and> tr_to t \<noteq> i) (wf_transitions db),
        wf_statuses := filter (\<lambda>s. ws_id s \<noteq> i) (wf_statuses db)\<rparr>"
    using assms(1) unfolding status_delete_def Let_def r_def [symmetric] issues_def [symmetric] columns_def [symmetric]
    by (auto simp: list_ex_iff find_status_key split: option.splits if_splits)
  have keys: "status_keys db' = filter (\<lambda>k. fst k \<noteq> i) (status_keys db)" "type_keys db' = type_keys db"
    by (simp_all add: db' status_keys_def type_keys_def filter_map o_def)
  have "set (column_keys db') \<subseteq> set (column_keys db)" "distinct (map fst (column_keys db'))"
    using ok by (auto simp: db' columns_def column_keys_def wf_ok_defs o_def distinct_map_filter)
  moreover have "distinct (map fst (status_keys db'))"
    using ok keys(1) by (simp add: wf_ok_defs distinct_map_filter)
  ultimately have "unique_ids db'"
    using ok keys(2) by (simp add: wf_ok_defs db')
  moreover have "issues_ok db'"
  proof (unfold issues_ok_def, rule ballI)
    fix x assume "x \<in> set (wf_issues db')"
    then have x: "x \<in> set issues" by (simp add: db')
    then obtain y where "y \<in> set (wf_issues db)" "wi_projectId x = wi_projectId y" "wi_typeId x = wi_typeId y"
      "wi_statusId x = wi_statusId y \<or> wi_projectId y = pid \<and> wi_statusId x = r"
      by (auto simp: issues_def)
    with ok r keys gone(1) x show "(wi_statusId x, wi_projectId x) \<in> set (status_keys db') \<and> (wi_typeId x, wi_projectId x) \<in> set (type_keys db')"
      by (auto simp: wf_ok_defs)
  qed
  moreover have "columns_ok db'"
  proof -
    have "set (column_keys db') \<subseteq> {k \<in> set (column_keys db). snd (snd k) \<noteq> i}"
      using gone(2) by (auto simp: db' column_keys_def columns_def)
    with ok keys(1) show ?thesis by (fastforce simp: wf_ok_defs db')
  qed
  moreover have "transitions_ok db'"
    using ok keys(1) by (auto simp: wf_ok_defs db' distinct_map_filter)
  ultimately show ?thesis by (simp add: wf_ok_def)
qed

lemma type_delete_ok:
  assumes "type_delete pid i db = Inr db'" and ok: "wf_ok db"
  shows "wf_ok db'"
proof -
  have db': "db' = db\<lparr>wf_types := filter (\<lambda>t. wt_id t \<noteq> i) (wf_types db)\<rparr>" and "\<forall>x\<in>set (wf_issues db). wi_typeId x \<noteq> i"
    using assms(1) by (auto simp: type_delete_def list_ex_iff split: if_splits)
  moreover have "type_keys db' = filter (\<lambda>k. fst k \<noteq> i) (type_keys db)" "status_keys db' = status_keys db" "column_keys db' = column_keys db"
    by (simp_all add: db' status_keys_def type_keys_def column_keys_def filter_map o_def)
  ultimately show ?thesis using ok by (auto simp: wf_ok_defs distinct_map_filter)
qed

text \<open>A draft that was accepted names two statuses of the project on each item.\<close>

lemma draft_item_endpoints:
  "draft_item (n, item) = Inr d \<Longrightarrow> js_get ''fromStatusId'' item = JStr (dr_from d) \<and> js_get ''toStatusId'' item = JStr (dr_to d) \<and> dr_from d \<noteq> dr_to d"
  by (auto simp: draft_item_def result_elims Let_def split: js.splits if_splits option.splits)

lemma validated_endpoints:
  assumes v: "validateWorkflowDraft db pid items = Inr drafts" and "distinct (map fst (status_keys db))" and "d \<in> set drafts"
  shows "dr_from d \<noteq> dr_to d \<and> (dr_from d, pid) \<in> set (status_keys db) \<and> (dr_to d, pid) \<in> set (status_keys db)"
proof -
  define ids where "ids = uniq (concat (map (\<lambda>item. [js_get ''fromStatusId'' item, js_get ''toStatusId'' item]) items))"
  have count: "count_rows (\<lambda>s. ws_projectId s = pid \<and> JStr (ws_id s) \<in> set ids) (wf_statuses db) = length ids"
    and drafts: "map_result draft_item (zip (map int [0..<length items]) items) = Inr drafts"
    using v by (simp_all add: validateWorkflowDraft_def ids_def [symmetric] Let_def split: if_splits)
  have "distinct (map (JStr \<circ> ws_id) (wf_statuses db))"
    using assms(2) by (auto simp: status_keys_def distinct_map o_def inj_on_def)
  then have "\<exists>s\<in>set (wf_statuses db). ws_projectId s = pid \<and> (JStr \<circ> ws_id) s = k" if "k \<in> set ids" for k
    using count that by (intro count_covers [where ids = ids]) (simp_all add: ids_def o_def)
  then have known: "(i, pid) \<in> set (status_keys db)" if "JStr i \<in> set ids" for i
    using that by (fastforce simp: status_keys_def)
  obtain n item where "item \<in> set items" "draft_item (n, item) = Inr d"
    using map_result_zip [OF drafts assms(3)] by blast
  with draft_item_endpoints [OF this(2)] known show ?thesis by (force simp: ids_def)
qed

lemma transition_row_key:
  "transition_row new pid version (n, d) = Inr t \<Longrightarrow> tr_projectId t = pid \<and> tr_from t = dr_from d \<and> tr_to t = dr_to d"
  by (auto simp: transition_row_def result_elims)

lemma publish_ok:
  assumes p: "publish new pid drafts db = Inr (db', v)" and d: "validateWorkflowDraft db pid items = Inr drafts" and ok: "wf_ok db"
  shows "wf_ok db'"
proof -
  obtain rows where rows: "map_result (transition_row new pid (next_version db pid)) (zip [0..<length drafts] drafts) = Inr rows"
    and uniq: "distinct (map (\<lambda>r. (tr_from r, tr_to r)) rows)"
    and db': "db' = db\<lparr>wf_transitions := filter (\<lambda>t. tr_projectId t \<noteq> pid) (wf_transitions db) @ rows,
        wf_versions := wf_versions db @ [(pid, next_version db pid)]\<rparr>"
    using p by (auto simp: publish_def Let_def result_elims split: if_splits)
  have row: "tr_projectId t = pid \<and> tr_from t \<noteq> tr_to t \<and> (tr_from t, pid) \<in> set (status_keys db) \<and> (tr_to t, pid) \<in> set (status_keys db)"
    if "t \<in> set rows" for t
  proof -
    from map_result_zip [OF rows that] obtain n e where e: "e \<in> set drafts" "transition_row new pid (next_version db pid) (n, e) = Inr t"
      by blast
    have "distinct (map fst (status_keys db))" using ok by (simp add: wf_ok_defs)
    from validated_endpoints [OF d this e(1)] transition_row_key [OF e(2)] show ?thesis by simp
  qed
  have "distinct (map (\<lambda>t. (tr_projectId t, tr_from t, tr_to t)) rows)"
    using uniq by (auto simp: distinct_map inj_on_def)
  then have "transitions_ok db'"
    using ok row by (auto simp: db' wf_ok_defs status_keys_def distinct_map_filter)
  then show ?thesis using ok by (simp add: db' wf_ok_defs status_keys_def type_keys_def column_keys_def)
qed

lemma wf_action_ok:
  assumes "wf_action to_num new pid body db = Inr (Some (db', target))" and "wf_ok db" and "fresh_ids new db"
  shows "wf_ok db'"
  using assms(1)
  by (auto simp: wf_action_def Let_def on_target_def with_target_def result_elims split: if_splits option.splits
      intro: status_create_ok [OF _ assms(2,3)] status_update_ok [OF _ assms(2)] status_delete_ok [OF _ assms(2)]
        status_move_ok [OF _ assms(2)] type_move_ok [OF _ assms(2)] column_move_ok [OF _ assms(2)]
        type_create_ok [OF _ assms(2,3)] type_update_ok [OF _ assms(2)] type_delete_ok [OF _ assms(2)]
        column_update_ok [OF _ assms(2)] publish_ok [OF _ _ assms(2)] defaults_update_ok [OF _ assms(2)])

text \<open>A request against the tables; one whose identifiers are taken fails on the primary key.\<close>

record patch_request =
  pq_new :: "nat \<Rightarrow> string"
  pq_key :: string
  pq_context :: "auth_context option"
  pq_body :: jobj

definition patch_step :: "(js \<Rightarrow> jnum) \<Rightarrow> workspace_db \<Rightarrow> patch_request \<Rightarrow> wf_db \<Rightarrow> wf_db" where
  "patch_step to_num wdb q db =
     (if fresh_ids (pq_new q) db then fst (workflow_PATCH to_num (pq_new q) wdb (pq_context q) (pq_key q) (pq_body q) db) else db)"

lemma patch_step_ok: "wf_ok db \<Longrightarrow> wf_ok (patch_step to_num wdb q db)"
proof -
  assume ok: "wf_ok db"
  have audit: "wf_ok (d\<lparr>wf_audit := a\<rparr>)" if "wf_ok d" for d a
    using that by (rule wf_ok_cong) (simp_all add: status_keys_def type_keys_def column_keys_def)
  show ?thesis
    by (auto simp: patch_step_def workflow_PATCH_def workflow_patch_def ok split: sum.splits option.splits prod.splits
        intro!: audit dest: wf_action_ok [OF _ ok])
qed

interpretation workflow_config: kept "patch_step to_num wdb" wf_ok for to_num wdb
  by unfold_locales (rule patch_step_ok)

text \<open>
  C11: Whatever sequence of configuration requests arrives, with whatever bodies and callers, the
  references of the tables stay intact: identifiers are unique, every issue has a status and a type
  of its own project, every board column shows a status of the board's project, and every transition
  joins two different statuses of its project, at most one for each pair.
\<close>

theorem workflow_references_intact:
  assumes "wf_ok db"
  shows "wf_ok (fold (patch_step to_num wdb) requests db)"
  using assms by (rule workflow_config.run_inv)

section \<open>One project cannot configure another\<close>

definition elsewhere :: "string \<Rightarrow> wf_db \<Rightarrow> wf_status list \<times> wf_type list \<times> wf_issue list \<times> transition list \<times> (string \<times> int) list \<times> (string \<times> string) list" where
  "elsewhere pid db =
     (filter (\<lambda>s. ws_projectId s \<noteq> pid) (wf_statuses db), filter (\<lambda>t. wt_projectId t \<noteq> pid) (wf_types db),
      filter (\<lambda>x. wi_projectId x \<noteq> pid) (wf_issues db), filter (\<lambda>t. tr_projectId t \<noteq> pid) (wf_transitions db),
      filter (\<lambda>v. fst v \<noteq> pid) (wf_versions db), filter (\<lambda>v. fst v \<noteq> pid) (wf_priorities db))"

lemma reorder_scope:
  assumes "reorder rid scope pos set_pos i d rows = Inr rows'" and "distinct (map rid rows)"
    and "\<And>n r. scope (set_pos n r) = scope r"
  shows "filter (\<lambda>r. \<not> scope r) rows' = filter (\<lambda>r. \<not> scope r) rows"
proof -
  have near: "scope a \<and> a \<in> set rows" if "adjacent scope pos d p rows = Some a" for a p
  proof -
    let ?below = "sort_key (\<lambda>r. - pos r) (filter (\<lambda>r. scope r \<and> pos r < p) rows)"
    let ?above = "sort_key pos (filter (\<lambda>r. scope r \<and> p < pos r) rows)"
    have "a \<in> set ?below \<or> a \<in> set ?above"
      using that by (auto simp: adjacent_def Let_def simp del: set_sort split: list.splits if_splits)
    then show ?thesis by auto
  qed
  show ?thesis
    using assms(1) unfolding reorder_def
    by (auto split: option.splits intro!: filter_map_scope [OF assms(2)] dest!: find_SomeD near split: if_splits simp: assms(3))
qed

lemma find_status_mem: "find_status db pid i = Some s \<Longrightarrow> s \<in> set (wf_statuses db) \<and> ws_id s = i \<and> ws_projectId s = pid"
  by (auto simp: find_status_def dest!: find_SomeD)

lemma find_type_mem: "find_type db pid i = Some t \<Longrightarrow> t \<in> set (wf_types db) \<and> wt_id t = i \<and> wt_projectId t = pid"
  by (auto simp: find_type_def dest!: find_SomeD)

lemma distinct_ids:
  assumes "wf_ok db"
  shows "distinct (map ws_id (wf_statuses db))" and "distinct (map wt_id (wf_types db))"
  using assms by (simp_all add: wf_ok_defs status_keys_def type_keys_def o_def)

lemma status_ops_scoped:
  assumes ok: "wf_ok db"
  shows "status_create new pid body db = Inr (db', j) \<Longrightarrow> elsewhere pid db' = elsewhere pid db"
    and "status_update pid i body db = Inr db' \<Longrightarrow> elsewhere pid db' = elsewhere pid db"
    and "status_move pid i d db = Inr db' \<Longrightarrow> elsewhere pid db' = elsewhere pid db"
proof -
  show "status_create new pid body db = Inr (db', j) \<Longrightarrow> elsewhere pid db' = elsewhere pid db"
    by (auto simp: status_create_def elsewhere_def Let_def split: option.splits if_splits)
  show "status_update pid i body db = Inr db' \<Longrightarrow> elsewhere pid db' = elsewhere pid db"
    by (auto simp: status_update_def elsewhere_def split: option.splits if_split_asm
        intro!: filter_map_scope [OF distinct_ids(1) [OF ok]] dest!: find_status_mem) metis
  show "status_move pid i d db = Inr db' \<Longrightarrow> elsewhere pid db' = elsewhere pid db"
    by (auto simp: status_move_def elsewhere_def result_elims Let_def set_status_position_def
        dest: reorder_scope [OF _ distinct_ids(1) [OF ok]])
qed

lemma status_delete_scoped:
  assumes ok: "wf_ok db" and "status_delete pid i body db = Inr db'"
  shows "elsewhere pid db' = elsewhere pid db"
proof -
  obtain s where s: "s \<in> set (wf_statuses db)" "ws_id s = i" "ws_projectId s = pid"
    using assms(2) by (auto simp: status_delete_def Let_def split: option.splits dest!: find_status_mem)
  have only: "ws_projectId t = pid" if "t \<in> set (wf_statuses db)" "ws_id t = i" for t
    using unique_key [OF distinct_ids(1) [OF ok] that(1) s(1)] that s by simp
  have "tr_projectId t = pid" if "t \<in> set (wf_transitions db)" "tr_from t = i \<or> tr_to t = i" for t
    using ok that only by (auto simp: wf_ok_defs status_keys_def)
  moreover define r where "r = string_or_empty (field ''replacementId'' body)"
  moreover have "wf_transitions db' = filter (\<lambda>t. tr_from t \<noteq> i \<and> tr_to t \<noteq> i) (wf_transitions db)"
      "wf_statuses db' = filter (\<lambda>s. ws_id s \<noteq> i) (wf_statuses db)"
      "wf_issues db' = map (\<lambda>x. if wi_projectId x = pid \<and> wi_statusId x = i then x\<lparr>wi_statusId := r\<rparr> else x) (wf_issues db)"
      "wf_types db' = wf_types db" "wf_versions db' = wf_versions db" "wf_priorities db' = wf_priorities db"
    using assms(2) by (auto simp: status_delete_def Let_def r_def split: option.splits if_split_asm)
  moreover have "filter (\<lambda>x. wi_projectId x \<noteq> pid) (map (\<lambda>x. if wi_projectId x = pid \<and> wi_statusId x = i then x\<lparr>wi_statusId := r\<rparr> else x) xs)
      = filter (\<lambda>x. wi_projectId x \<noteq> pid) xs" for r xs
    by (induction xs) auto
  ultimately show ?thesis
    using only by (auto simp: elsewhere_def simp del: filter_filter intro!: filter_absorb)
qed

lemma type_ops_scoped:
  assumes ok: "wf_ok db"
  shows "type_create new pid body db = Inr (db', j) \<Longrightarrow> elsewhere pid db' = elsewhere pid db"
    and "type_update pid i body db = Inr db' \<Longrightarrow> elsewhere pid db' = elsewhere pid db"
    and "type_delete pid i db = Inr db' \<Longrightarrow> elsewhere pid db' = elsewhere pid db"
    and "type_move pid i d db = Inr db' \<Longrightarrow> elsewhere pid db' = elsewhere pid db"
proof -
  show "type_create new pid body db = Inr (db', j) \<Longrightarrow> elsewhere pid db' = elsewhere pid db"
    by (auto simp: type_create_def elsewhere_def split: option.splits if_splits)
  show "type_update pid i body db = Inr db' \<Longrightarrow> elsewhere pid db' = elsewhere pid db"
    by (auto simp: type_update_def elsewhere_def split: option.splits if_split_asm
        intro!: filter_map_scope [OF distinct_ids(2) [OF ok]] dest!: find_type_mem) metis
  show "type_delete pid i db = Inr db' \<Longrightarrow> elsewhere pid db' = elsewhere pid db"
    by (auto simp: type_delete_def elsewhere_def split: if_splits intro!: filter_absorb simp del: filter_filter
        dest!: find_type_mem dest: unique_key [OF distinct_ids(2) [OF ok]])
  show "type_move pid i d db = Inr db' \<Longrightarrow> elsewhere pid db' = elsewhere pid db"
    by (auto simp: type_move_def elsewhere_def result_elims set_type_position_def
        dest: reorder_scope [OF _ distinct_ids(2) [OF ok]])
qed

lemma publish_scoped: "publish new pid drafts db = Inr (db', v) \<Longrightarrow> elsewhere pid db' = elsewhere pid db"
proof -
  assume p: "publish new pid drafts db = Inr (db', v)"
  then obtain rows where rows: "map_result (transition_row new pid (next_version db pid)) (zip [0..<length drafts] drafts) = Inr rows"
    and db': "db' = db\<lparr>wf_transitions := filter (\<lambda>t. tr_projectId t \<noteq> pid) (wf_transitions db) @ rows,
        wf_versions := wf_versions db @ [(pid, next_version db pid)]\<rparr>"
    by (auto simp: publish_def Let_def result_elims split: if_splits)
  have "tr_projectId t = pid" if "t \<in> set rows" for t
    using map_result_zip [OF rows that] transition_row_key by blast
  then show ?thesis by (auto simp: elsewhere_def db' filter_empty_conv)
qed

lemma other_ops_scoped:
  shows "column_update to_num pid i body db = Inr db' \<Longrightarrow> elsewhere pid db' = elsewhere pid db"
    and "column_move pid i d db = Inr db' \<Longrightarrow> elsewhere pid db' = elsewhere pid db"
    and "defaults_update pid body db = Inr db' \<Longrightarrow> elsewhere pid db' = elsewhere pid db"
proof -
  show "column_update to_num pid i body db = Inr db' \<Longrightarrow> elsewhere pid db' = elsewhere pid db"
    by (auto simp: column_update_def elsewhere_def Let_def split: option.splits if_splits)
  show "column_move pid i d db = Inr db' \<Longrightarrow> elsewhere pid db' = elsewhere pid db"
    by (auto simp: column_move_def elsewhere_def result_elims split: option.splits)
  have "filter (\<lambda>v. fst v \<noteq> pid) (map (\<lambda>(q, old). if q = pid then (q, p) else (q, old)) xs) = filter (\<lambda>v. fst v \<noteq> pid) xs"
    for p :: string and xs :: "(string \<times> string) list"
    by (induction xs) (auto split: if_splits)
  then show "defaults_update pid body db = Inr db' \<Longrightarrow> elsewhere pid db' = elsewhere pid db"
    by (auto simp: defaults_update_def elsewhere_def split: option.splits)
qed

lemma wf_action_scoped:
  assumes "wf_action to_num new pid body db = Inr (Some (db', target))" and ok: "wf_ok db"
  shows "elsewhere pid db' = elsewhere pid db"
  using assms(1)
  by (auto simp: wf_action_def Let_def on_target_def with_target_def result_elims split: if_splits option.splits
      dest: status_ops_scoped [OF ok] status_delete_scoped [OF ok] type_ops_scoped [OF ok] publish_scoped other_ops_scoped)

text \<open>
  A configuration request changes the tables only for an authenticated owner or administrator of
  the workspace, or an administrator of the project, and only of a project of the caller's workspace
  that is not archived. The statuses, types, issues, transitions, versions and defaults of every other
  project stay as they were, and each change is the last entry of the audit log.
\<close>

theorem workflow_changes_are_scoped:
  assumes "workflow_PATCH to_num new wdb context key body db = (db', resp)" and ok: "wf_ok db"
  shows "db' = db \<or>
    (\<exists>cx p. context = Some cx \<and> p \<in> set (db_projects wdb) \<and> p_workspaceId p = cx_workspaceId cx \<and> p_archivedAt p = None
       \<and> (is_workspace_admin cx \<or> project_role_of wdb (p_id p) (cx_userId cx) = Some PAdmin)
       \<and> elsewhere (p_id p) db' = elsewhere (p_id p) db
       \<and> (\<exists>log target. wf_audit db' = log @ [(''workflow.'' @ string_or_empty (field ''action'' body), target)]))"
proof (cases "managedProject wdb context key")
  case (Inr cp)
  then obtain cx p where m: "managedProject wdb context key = Inr (cx, p)" by (cases cp) auto
  have who: "context = Some cx \<and> p \<in> set (db_projects wdb) \<and> p_workspaceId p = cx_workspaceId cx \<and> p_archivedAt p = None
       \<and> (is_workspace_admin cx \<or> project_role_of wdb (p_id p) (cx_userId cx) = Some PAdmin)"
    using m by (auto simp: managedProject_def is_workspace_admin_def split: option.splits if_splits dest!: find_SomeD)
  show ?thesis
  proof (cases "wf_action to_num new (p_id p) body db")
    case (Inr r)
    show ?thesis
    proof (cases r)
      case (Some q)
      then obtain d target where a: "wf_action to_num new (p_id p) body db = Inr (Some (d, target))"
        using Inr by (cases q) auto
      have "db' = d\<lparr>wf_audit := wf_audit d @ [(''workflow.'' @ string_or_empty (field ''action'' body), target)]\<rparr>"
        using assms(1) m a by (simp add: workflow_PATCH_def workflow_patch_def)
      with who wf_action_scoped [OF a ok] show ?thesis by (auto simp: elsewhere_def)
    qed (use assms(1) m Inr in \<open>simp add: workflow_PATCH_def workflow_patch_def\<close>)
  qed (use assms(1) m in \<open>simp add: workflow_PATCH_def workflow_patch_def\<close>)
qed (use assms(1) in \<open>simp add: workflow_PATCH_def\<close>)

definition sample_status :: "string \<Rightarrow> int \<Rightarrow> wf_status" where
  "sample_status i n = \<lparr>ws_id = i, ws_projectId = ''p'', ws_name = i, ws_category = ''TODO'', ws_color = ''#aabbcc'', ws_position = n\<rparr>"

definition sample_wf :: wf_db where
  "sample_wf =
     \<lparr>wf_statuses = [sample_status ''a'' 0, sample_status ''b'' 1, sample_status ''c'' 2],
      wf_types = [\<lparr>wt_id = ''t'', wt_projectId = ''p'', wt_name = ''Task'', wt_kind = ''TASK'', wt_position = 0\<rparr>],
      wf_boards = [], wf_columns = [],
      wf_issues = [\<lparr>wi_id = ''i'', wi_projectId = ''p'', wi_statusId = ''a'', wi_typeId = ''t''\<rparr>],
      wf_requestTypes = [], wf_transitions = [], wf_versions = [], wf_fields = [], wf_priorities = [(''p'', ''LOW'')], wf_audit = []\<rparr>"

lemma sample_wf_ok: "wf_ok sample_wf"
  by (simp add: sample_wf_def sample_status_def wf_ok_defs status_keys_def type_keys_def column_keys_def)

definition sample_project :: project where
  "sample_project = \<lparr>p_id = ''p'', p_workspaceId = ''w'', p_key = ''K'', p_visibility = Public, p_template = Kanban,
     p_archivedAt = None, p_permissionSchemeVersionId = None, p_issueSequence = 0, p_defaultPriority = Low\<rparr>"

definition sample_wdb :: workspace_db where
  "sample_wdb =
     \<lparr>db_issues = [], db_projects = [sample_project],
      db_projectMembers = [], db_workspaceMembers = [], db_issueTypes = [], db_levels = [], db_statuses = [],
      db_securityLevels = [], db_schemeVersions = [], db_groups = [], db_activities = [], db_audit = []\<rparr>"

definition sample_admin :: auth_context where
  "sample_admin = \<lparr>cx_userId = ''amy'', cx_workspaceId = ''w'', cx_role = WOwner\<rparr>"

definition delete_body :: jobj where
  "delete_body = [(''action'', JStr ''status.delete''), (''id'', JStr ''b''), (''replacementId'', JStr ''a'')]"

definition create_body :: jobj where
  "create_body = [(''action'', JStr ''status.create''), (''name'', JStr ''d''), (''category'', JStr ''DONE''), (''color'', JStr ''#000000'')]"

theorem workflow_references_intact_witness:
  "wf_ok (fold (patch_step (\<lambda>_. NaN) sample_wdb)
     [\<lparr>pq_new = \<lambda>_. ''n'', pq_key = ''K'', pq_context = Some sample_admin, pq_body = delete_body\<rparr>] sample_wf)"
  by (rule workflow_references_intact) (rule sample_wf_ok)

lemma sample_managed: "managedProject sample_wdb (Some sample_admin) ''K'' = Inr (sample_admin, sample_project)"
  by (simp add: managedProject_def sample_wdb_def sample_project_def sample_admin_def ascii_simps)

lemma sample_delete:
  "workflow_PATCH (\<lambda>_. NaN) (\<lambda>_. ''d'') sample_wdb (Some sample_admin) ''K'' delete_body sample_wf
     = (sample_wf\<lparr>wf_statuses := [sample_status ''a'' 0, sample_status ''c'' 2], wf_audit := [(''workflow.status.delete'', ''b'')]\<rparr>, Updated)"
  by (simp add: workflow_PATCH_def sample_managed workflow_patch_def wf_action_def status_delete_def find_status_def on_target_def
      sample_wf_def sample_status_def sample_project_def delete_body_def field_def string_or_empty_def Let_def)

theorem workflow_changes_are_scoped_witness:
  "elsewhere ''p'' (fst (workflow_PATCH (\<lambda>_. NaN) (\<lambda>_. ''d'') sample_wdb (Some sample_admin) ''K'' delete_body sample_wf)) = elsewhere ''p'' sample_wf"
proof -
  have "sample_wf\<lparr>wf_statuses := [sample_status ''a'' 0, sample_status ''c'' 2], wf_audit := [(''workflow.status.delete'', ''b'')]\<rparr> \<noteq> sample_wf"
    by (simp add: sample_wf_def sample_status_def)
  moreover have "db_projects sample_wdb = [sample_project]" "p_id sample_project = ''p''"
    by (simp_all add: sample_wdb_def sample_project_def)
  ultimately show ?thesis
    using workflow_changes_are_scoped [OF sample_delete sample_wf_ok] by (auto simp: sample_delete)
qed

text \<open>
  A new status takes the number of statuses as its position. After a deletion in the middle that
  position is taken, so two statuses of one project share it and their order is not determined.
\<close>

theorem status_positions_collide:
  "\<exists>db s t. wf_ok db \<and> distinct (map ws_position (wf_statuses db))
     \<and> wf_statuses (fst (workflow_PATCH (\<lambda>_. NaN) (\<lambda>_. ''d'') sample_wdb (Some sample_admin) ''K'' create_body
         (fst (workflow_PATCH (\<lambda>_. NaN) (\<lambda>_. ''d'') sample_wdb (Some sample_admin) ''K'' delete_body db)))) = [sample_status ''a'' 0, s, t]
     \<and> ws_position s = ws_position t \<and> ws_id s \<noteq> ws_id t"
proof -
  let ?db = "sample_wf\<lparr>wf_statuses := [sample_status ''a'' 0, sample_status ''c'' 2], wf_audit := [(''workflow.status.delete'', ''b'')]\<rparr>"
  let ?new = "\<lparr>ws_id = ''d'', ws_projectId = ''p'', ws_name = ''d'', ws_category = ''DONE'', ws_color = ''#000000'', ws_position = 2\<rparr>"
  have "text_of (JStr ''d'') 50 = Some ''d''"
    by (simp add: text_of_def trim_def trim_start_def is_space_def of_char_def)
  moreover have "one_of categories (JStr ''DONE'') = Some ''DONE''" by (simp add: one_of_def categories_def)
  moreover have "validColor (JStr ''#000000'') = Some ''#000000''"
    by (simp add: validColor_def is_hex_digit_def is_digit_def of_char_def)
  ultimately have create: "status_create (\<lambda>_. ''d'') ''p'' create_body ?db
      = Inr (?db\<lparr>wf_statuses := [sample_status ''a'' 0, sample_status ''c'' 2, ?new]\<rparr>, ''d'')"
    by (simp add: status_create_def create_body_def field_def Let_def count_rows_def project_board_def sample_wf_def sample_status_def)
  have "string_or_empty (field ''action'' create_body) = ''status.create''"
    by (simp add: create_body_def field_def string_or_empty_def)
  then have "wf_action (\<lambda>_. NaN) (\<lambda>_. ''d'') ''p'' create_body ?db
      = Inr (Some (?db\<lparr>wf_statuses := [sample_status ''a'' 0, sample_status ''c'' 2, ?new]\<rparr>, ''d''))"
    by (simp only: wf_action_def Let_def create with_target_def bind_result_Inr if_True simp_thms)
  moreover have "p_id sample_project = ''p''" by (simp add: sample_project_def)
  ultimately have "wf_statuses (fst (workflow_PATCH (\<lambda>_. NaN) (\<lambda>_. ''d'') sample_wdb (Some sample_admin) ''K'' create_body
      (fst (workflow_PATCH (\<lambda>_. NaN) (\<lambda>_. ''d'') sample_wdb (Some sample_admin) ''K'' delete_body sample_wf))))
    = [sample_status ''a'' 0, sample_status ''c'' 2, ?new]"
    unfolding sample_delete fst_conv by (simp add: workflow_PATCH_def sample_managed workflow_patch_def)
  moreover have "distinct (map ws_position (wf_statuses sample_wf))"
    by (simp add: sample_wf_def sample_status_def)
  ultimately show ?thesis using sample_wf_ok
    by (intro exI [where x = sample_wf] exI [where x = "sample_status ''c'' 2"] exI [where x = ?new]) (simp add: sample_status_def)
qed

end
