(* ===== verification/Accounts.thy ===== *)
theory Accounts
  imports Memberships Workflow
begin

text \<open>
  Getting started: the creation of a workspace with its owner and first project (\<open>api/auth/signup\<close>), of a project with
  its types, statuses and board (\<open>api/projects\<close>), and the login with a password (\<open>api/auth/login\<close>). Statuses and
  types are kept in the two views the other components read (\<open>Store\<close> and \<open>Workflow\<close>). Members are listed in
  the order in which they joined. Names and descriptions of projects are checked and not stored.
\<close>

section \<open>Tables\<close>

record account_db =
  ab_users :: "account list"
  ab_slugs :: "(string \<times> string) list"                    \<comment> \<open>workspace, slug\<close>
  ab_identity :: identity_db
  ab_core :: workspace_db
  ab_workflow :: wf_db
  ab_portalGroups :: "(string \<times> string \<times> string) list"   \<comment> \<open>id, project, name\<close>

definition account_audit :: "string \<Rightarrow> string \<Rightarrow> string \<Rightarrow> string \<Rightarrow> string \<Rightarrow> jobj \<Rightarrow> account_db \<Rightarrow> account_db" where
  "account_audit ws uid action target i metadata db =
     db\<lparr>ab_core := (ab_core db)\<lparr>db_audit := db_audit (ab_core db) @ [\<lparr>au_workspaceId = ws, au_actorId = Some uid, au_action = action,
       au_targetType = target, au_targetId = i, au_metadata = JObj metadata\<rparr>]\<rparr>\<rparr>"

section \<open>Projects\<close>

definition template_types :: "template \<Rightarrow> (string \<times> string) list" where
  "template_types t =
     (if t = Service then [(''Service request'', ''TASK'')]
      else [(''Epic'', ''EPIC''), (''Story'', ''STORY''), (''Task'', ''TASK''), (''Bug'', ''BUG''), (''Subtask'', ''SUBTASK'')])"

definition template_statuses :: "(string \<times> status_category \<times> string) list" where
  "template_statuses = [(''To do'', Todo, ''#8a93a3''), (''In progress'', In_Progress, ''#5a72d8''), (''In review'', In_Progress, ''#a16bc0''), (''Done'', Done, ''#43a47e'')]"

text \<open>The identifiers of the new rows: \<open>new\<close> names the project, its types, statuses, board, columns and group.\<close>

datatype row_name = New_Project | New_Type nat | New_Status nat | New_Board | New_Column nat | New_Group | New_User | New_Workspace

definition project_row :: "(row_name \<Rightarrow> string) \<Rightarrow> string \<Rightarrow> string \<Rightarrow> template \<Rightarrow> visibility \<Rightarrow> project" where
  "project_row new ws key t v = \<lparr>p_id = new New_Project, p_workspaceId = ws, p_key = key, p_visibility = v, p_template = t, p_archivedAt = None,
     p_permissionSchemeVersionId = None, p_issueSequence = 0, p_defaultPriority = Medium\<rparr>"

definition numbered :: "'a list \<Rightarrow> (nat \<times> 'a) list" where
  "numbered xs = zip [0..<length xs] xs"

definition project_core :: "(row_name \<Rightarrow> string) \<Rightarrow> string \<Rightarrow> string \<Rightarrow> string \<Rightarrow> template \<Rightarrow> visibility \<Rightarrow> workspace_db \<Rightarrow> workspace_db" where
  "project_core new ws uid key t v core =
     core\<lparr>db_projects := db_projects core @ [project_row new ws key t v],
          db_projectMembers := db_projectMembers core @ [\<lparr>pm_projectId = new New_Project, pm_userId = uid, pm_role = PAdmin\<rparr>],
          db_issueTypes := db_issueTypes core @ map (\<lambda>(n, name, kind). \<lparr>it_id = new (New_Type n), it_projectId = new New_Project, it_name = name,
            it_position = int n, it_isEpic = (kind = ''EPIC'')\<rparr>) (numbered (template_types t)),
          db_statuses := db_statuses core @ map (\<lambda>(n, name, category, _). \<lparr>st_id = new (New_Status n), st_projectId = new New_Project, st_name = name,
            st_position = int n, st_category = category\<rparr>) (numbered template_statuses)\<rparr>"

definition project_workflow :: "(row_name \<Rightarrow> string) \<Rightarrow> template \<Rightarrow> wf_db \<Rightarrow> wf_db" where
  "project_workflow new t tables =
     tables\<lparr>wf_types := wf_types tables @ map (\<lambda>(n, name, kind). \<lparr>wt_id = new (New_Type n), wt_projectId = new New_Project, wt_name = name, wt_kind = kind,
          wt_position = int n\<rparr>) (numbered (template_types t)),
        wf_statuses := wf_statuses tables @ map (\<lambda>(n, name, category, color). \<lparr>ws_id = new (New_Status n), ws_projectId = new New_Project, ws_name = name,
          ws_category = category_name category, ws_color = color, ws_position = int n\<rparr>) (numbered template_statuses),
        wf_boards := wf_boards tables @ [\<lparr>bd_id = new New_Board, bd_projectId = new New_Project\<rparr>],
        wf_columns := wf_columns tables @ map (\<lambda>(n, name, _, _). \<lparr>co_id = new (New_Column n), co_boardId = new New_Board, co_statusId = new (New_Status n),
          co_name = name, co_position = int n, co_wipLimit = None\<rparr>) (numbered template_statuses),
        wf_priorities := wf_priorities tables @ [(new New_Project, ''MEDIUM'')]\<rparr>"

definition add_project :: "(row_name \<Rightarrow> string) \<Rightarrow> string \<Rightarrow> string \<Rightarrow> string \<Rightarrow> template \<Rightarrow> visibility \<Rightarrow> account_db \<Rightarrow> account_db" where
  "add_project new ws uid key t v db =
     db\<lparr>ab_core := project_core new ws uid key t v (ab_core db), ab_workflow := project_workflow new t (ab_workflow db),
        ab_portalGroups := ab_portalGroups db @ (if t = Service then [(new New_Group, new New_Project, ''Get help'')] else [])\<rparr>"

definition key_taken :: "account_db \<Rightarrow> string \<Rightarrow> string \<Rightarrow> bool" where
  "key_taken db ws key \<longleftrightarrow> list_ex (\<lambda>p. p_workspaceId p = ws \<and> p_key p = key) (db_projects (ab_core db))"

text \<open>\<open>/^[A-Z]{2,10}$/\<close>\<close>

definition is_project_key :: "string \<Rightarrow> bool" where
  "is_project_key k \<longleftrightarrow> 2 \<le> length k \<and> length k \<le> 10 \<and> list_all is_upper k"

record project_plan =
  jp_context :: auth_context
  jp_key :: string
  jp_template :: template
  jp_visibility :: visibility

definition projects_GET :: "auth_context option \<Rightarrow> account_db \<Rightarrow> (nat, project list) result" where
  "projects_GET context db =
     (case context of None \<Rightarrow> Inl 401 | Some cx \<Rightarrow> Inr (filter (accessibleProjectWhere (ab_core db) cx) (db_projects (ab_core db))))"

definition project_check :: "auth_context option \<Rightarrow> jobj \<Rightarrow> account_db \<Rightarrow> (nat, project_plan) result" where
  "project_check context body db =
     (case context of
        None \<Rightarrow> Inl 401
      | Some cx \<Rightarrow>
          (let name = trim (string_or_empty (field ''name'' body)); key = to_upper (trim (string_or_empty (field ''key'' body))) in
           if \<not> is_workspace_admin cx then Inl 403
           else if length name < 2 \<or> 80 < length name then Inl 400
           else if \<not> is_project_key key then Inl 400
           else if key_taken db (cx_workspaceId cx) key then Inl 409
           else Inr \<lparr>jp_context = cx, jp_key = key,
             jp_template = (if field ''template'' body = JStr ''SCRUM'' then Scrum else if field ''template'' body = JStr ''SERVICE'' then Service else Kanban),
             jp_visibility = (if field ''visibility'' body = JStr ''PRIVATE'' then Private else Public)\<rparr>))"

text \<open>The transaction; a key that was taken meanwhile violates the unique index and the request fails.\<close>

definition project_commit :: "(row_name \<Rightarrow> string) \<Rightarrow> project_plan \<Rightarrow> account_db \<Rightarrow> (nat, account_db) result" where
  "project_commit new jp db =
     (let cx = jp_context jp; ws = cx_workspaceId cx in
      if key_taken db ws (jp_key jp) then Inl 500
      else Inr (account_audit ws (cx_userId cx) ''project.created'' ''project'' (new New_Project) [(''key'', JStr (jp_key jp))]
             (add_project new ws (cx_userId cx) (jp_key jp) (jp_template jp) (jp_visibility jp) db)))"

definition projects_POST :: "(row_name \<Rightarrow> string) \<Rightarrow> auth_context option \<Rightarrow> jobj \<Rightarrow> account_db \<Rightarrow> (nat, account_db) result" where
  "projects_POST new context body db = bind_result (project_check context body db) (\<lambda>jp. project_commit new jp db)"

section \<open>Sign-up\<close>

text \<open>\<open>/^[a-z0-9]+(?:-[a-z0-9]+)*$/\<close>\<close>

definition is_slug :: "string \<Rightarrow> bool" where
  "is_slug s \<longleftrightarrow> list_all (\<lambda>part. part \<noteq> [] \<and> list_all (\<lambda>c. is_lower c \<or> is_digit c) part) (split_on CHR ''-'' s)"

record signup_plan =
  sg_name :: string
  sg_email :: string
  sg_password :: string
  sg_slug :: string

definition slug_taken :: "account_db \<Rightarrow> string \<Rightarrow> bool" where
  "slug_taken db slug \<longleftrightarrow> slug \<in> snd ` set (ab_slugs db)"

definition email_taken :: "account_db \<Rightarrow> string \<Rightarrow> bool" where
  "email_taken db email \<longleftrightarrow> email \<in> u_email ` set (ab_users db)"

definition strong_password :: "string \<Rightarrow> bool" where
  "strong_password p \<longleftrightarrow> 12 \<le> length p \<and> list_ex is_lower p \<and> list_ex is_upper p \<and> list_ex is_digit p"

definition signup_check :: "bool \<Rightarrow> bool \<Rightarrow> jobj \<Rightarrow> account_db \<Rightarrow> (nat, signup_plan) result" where
  "signup_check production enabled body db =
     (let name = trim (string_or_empty (field ''name'' body)); email = to_lower (trim (string_or_empty (field ''email'' body)));
          password = string_or_empty (field ''password'' body); workspace = trim (string_or_empty (field ''workspaceName'' body));
          slug = to_lower (trim (string_or_empty (field ''slug'' body))) in
      if production \<and> \<not> enabled then Inl 404
      else if length name < 2 \<or> 80 < length name \<or> \<not> is_email email \<or> length workspace < 2 \<or> 80 < length workspace
        \<or> \<not> is_slug slug \<or> 48 < length slug then Inl 400
      else if \<not> strong_password password then Inl 400
      else if email_taken db email \<or> slug_taken db slug then Inl 409
      else Inr \<lparr>sg_name = name, sg_email = email, sg_password = password, sg_slug = slug\<rparr>)"

definition signup_commit :: "(string \<Rightarrow> string) \<Rightarrow> (row_name \<Rightarrow> string) \<Rightarrow> signup_plan \<Rightarrow> account_db \<Rightarrow> (nat, account_db) result" where
  "signup_commit hash new sg db =
     (let ws = new New_Workspace; uid = new New_User; ident = ab_identity db;
          joined = db\<lparr>ab_users := ab_users db @ [\<lparr>u_id = uid, u_email = sg_email sg, u_name = sg_name sg, u_passwordHash = Some (hash (sg_password sg))\<rparr>],
            ab_slugs := ab_slugs db @ [(ws, sg_slug sg)],
            ab_identity := ident\<lparr>id_workspaces := id_workspaces ident @ [\<lparr>wk_id = ws, wk_organizationId = None\<rparr>],
              id_members := id_members ident @ [\<lparr>wm_workspaceId = ws, wm_userId = uid, wm_role = WOwner, wm_deactivatedAt = None\<rparr>]\<rparr>\<rparr> in
      if email_taken db (sg_email sg) \<or> slug_taken db (sg_slug sg) then Inl 409
      else Inr (account_audit ws uid ''workspace.created'' ''workspace'' ws [(''slug'', JStr (sg_slug sg))]
             (account_audit ws uid ''identity.signup'' ''user'' uid [] (add_project new ws uid ''FIRST'' Kanban Public joined))))"

text \<open>The session of the new owner is opened after the transaction.\<close>

definition signup_POST :: "(string \<Rightarrow> string) \<Rightarrow> (string \<Rightarrow> string) \<Rightarrow> (claims \<Rightarrow> string) \<Rightarrow> (row_name \<Rightarrow> string) \<Rightarrow> string \<Rightarrow> time \<Rightarrow> bool \<Rightarrow> bool \<Rightarrow> jobj \<Rightarrow> account_db \<Rightarrow> (nat, string \<times> account_db) result" where
  "signup_POST hash mac encode new sid now production enabled body db =
     bind_result (signup_check production enabled body db) (\<lambda>sg.
     bind_result (signup_commit hash new sg db) (\<lambda>db'.
       (let (cookie, ident) = createSession mac encode sid now (new New_User) (new New_Workspace) (ab_identity db')
        in Inr (cookie, db'\<lparr>ab_identity := ident\<rparr>))))"

section \<open>Login\<close>

definition ends_with :: "string \<Rightarrow> string \<Rightarrow> bool" where
  "ends_with suffix s \<longleftrightarrow> drop (length s - length suffix) s = suffix"

text \<open>The membership is the first one of the user, whatever its state.\<close>

definition first_membership :: "account_db \<Rightarrow> string \<Rightarrow> workspace_member option" where
  "first_membership db uid = find (\<lambda>m. wm_userId m = uid) (id_members (ab_identity db))"

definition login_account :: "(string \<Rightarrow> string \<Rightarrow> bool) \<Rightarrow> bool \<Rightarrow> jobj \<Rightarrow> account_db \<Rightarrow> (nat, account \<times> workspace_member) result" where
  "login_account verify production body db =
     (case as_string (field ''email'' body) of None \<Rightarrow> Inl 400 | Some raw \<Rightarrow>
      case as_string (field ''password'' body) of None \<Rightarrow> Inl 400 | Some password \<Rightarrow>
      (let email = to_lower (trim raw) in
       if production \<and> ends_with ''@planeo.co'' email \<and> password = ''planeo-demo'' then Inl 401
       else case find (\<lambda>u. u_email u = email) (ab_users db) of None \<Rightarrow> Inl 401 | Some u \<Rightarrow>
            case u_passwordHash u of None \<Rightarrow> Inl 401 | Some stored \<Rightarrow>
            if stored = [] \<or> \<not> verify password stored then Inl 401
            else case first_membership db (u_id u) of None \<Rightarrow> Inl 401 | Some m \<Rightarrow> Inr (u, m)))"

text \<open>A login that the organization refuses still leaves an audit event.\<close>

definition login_POST :: "(string \<Rightarrow> string \<Rightarrow> bool) \<Rightarrow> (string \<Rightarrow> string) \<Rightarrow> (claims \<Rightarrow> string) \<Rightarrow> string \<Rightarrow> time \<Rightarrow> bool \<Rightarrow> jobj \<Rightarrow> account_db \<Rightarrow> (nat, string) result \<times> account_db" where
  "login_POST verify mac encode sid now production body db =
     (case login_account verify production body db of
        Inl n \<Rightarrow> (Inl n, db)
      | Inr (u, m) \<Rightarrow>
          (let ws = wm_workspaceId m; uid = u_id u in
           if \<not> canUseLocalLogin (ab_identity db) uid ws
           then (Inl 403, account_audit ws uid ''identity.local_login.blocked'' ''user'' uid [(''reason'', JStr ''sso_enforced'')] db)
           else (let (cookie, ident) = createSession mac encode sid now uid ws (ab_identity db)
                 in (Inr cookie, account_audit ws uid ''identity.login'' ''user'' uid [] (db\<lparr>ab_identity := ident\<rparr>)))))"

section \<open>A new project can be used and configured\<close>

text \<open>Identifiers that are new: pairwise different and unknown to the tables of the workflow.\<close>

definition fresh_names :: "(row_name \<Rightarrow> string) \<Rightarrow> wf_db \<Rightarrow> bool" where
  "fresh_names new tables \<longleftrightarrow> inj new \<and> (\<forall>n. new n \<notin> set (map fst (status_keys tables)) \<union> set (map fst (type_keys tables)) \<union> set (map fst (column_keys tables))
     \<union> set (map bd_id (wf_boards tables)))"

lemma numbered_template:
  "numbered template_statuses = [(0, ''To do'', Todo, ''#8a93a3''), (1, ''In progress'', In_Progress, ''#5a72d8''), (2, ''In review'', In_Progress, ''#a16bc0''), (3, ''Done'', Done, ''#43a47e'')]"
  by (simp add: numbered_def template_statuses_def upt_rec)

lemma numbered_types:
  "numbered (template_types t) = (if t = Service then [(0, ''Service request'', ''TASK'')]
     else [(0, ''Epic'', ''EPIC''), (1, ''Story'', ''STORY''), (2, ''Task'', ''TASK''), (3, ''Bug'', ''BUG''), (4, ''Subtask'', ''SUBTASK'')])"
  by (cases "t = Service") (simp_all add: numbered_def template_types_def upt_rec)

lemma project_workflow_keys:
  "status_keys (project_workflow new t tables) = status_keys tables @ map (\<lambda>n. (new (New_Status n), new New_Project)) [0..<4]"
  "type_keys (project_workflow new t tables) = type_keys tables @ map (\<lambda>n. (new (New_Type n), new New_Project)) [0..<length (template_types t)]"
  "column_keys (project_workflow new t tables) = column_keys tables @ map (\<lambda>n. (new (New_Column n), new New_Board, new (New_Status n))) [0..<4]"
  "wf_boards (project_workflow new t tables) = wf_boards tables @ [\<lparr>bd_id = new New_Board, bd_projectId = new New_Project\<rparr>]"
  "wf_issues (project_workflow new t tables) = wf_issues tables" "wf_transitions (project_workflow new t tables) = wf_transitions tables"
proof -
  have z: "map (\<lambda>x. f (fst x)) (numbered xs) = map f [0..<length xs]" for f :: "nat \<Rightarrow> 'c" and xs :: "'d list"
    using map_map [of f fst "numbered xs"] by (simp add: numbered_def comp_def)
  have "type_keys (project_workflow new t tables) = type_keys tables @ map (\<lambda>x. (new (New_Type (fst x)), new New_Project)) (numbered (template_types t))"
    by (auto simp: type_keys_def project_workflow_def)
  then show "type_keys (project_workflow new t tables) = type_keys tables @ map (\<lambda>n. (new (New_Type n), new New_Project)) [0..<length (template_types t)]"
    using z [of "\<lambda>n. (new (New_Type n), new New_Project)" "template_types t"] by simp
qed (simp_all add: status_keys_def column_keys_def project_workflow_def numbered_template upt_rec numeral_eq_Suc)

lemma project_workflow_ok:
  assumes "fresh_names new tables" and "wf_ok tables"
  shows "wf_ok (project_workflow new t tables)"
proof -
  have i: "inj new" and f: "(new n, x) \<notin> set (status_keys tables)" "(new n, x) \<notin> set (type_keys tables)"
      "(new n, y) \<notin> set (column_keys tables)" "new n \<notin> bd_id ` set (wf_boards tables)" for n x y
    using assms(1) by (force simp: fresh_names_def)+
  have d: "distinct (map (\<lambda>n. new (c n)) [0..<k])" if "inj c" for c :: "nat \<Rightarrow> row_name" and k
    using inj_compose [OF i that] by (auto simp: distinct_map comp_def inj_on_def)
  have c: "inj New_Status" "inj New_Type" "inj New_Column" by (simp_all add: inj_def)
  have "unique_ids (project_workflow new t tables)"
    using assms(2) f d [OF c(1)] d [OF c(2)] d [OF c(3)]
    by (auto simp: wf_ok_def unique_ids_def project_workflow_keys comp_def simp del: upt_Suc)
  moreover have "issues_ok (project_workflow new t tables)"
    using assms(2) by (auto simp: wf_ok_def issues_ok_def project_workflow_keys)
  moreover have "columns_ok (project_workflow new t tables)"
    using assms(2) by (fastforce simp: wf_ok_def columns_ok_def project_workflow_keys)
  moreover have "transitions_ok (project_workflow new t tables)"
    using assms(2) by (auto simp: wf_ok_def transitions_ok_def project_workflow_keys)
  ultimately show ?thesis by (simp add: wf_ok_def)
qed

lemma account_audit_tables [simp]:
  "ab_workflow (account_audit ws u a t i m db) = ab_workflow db" "ab_users (account_audit ws u a t i m db) = ab_users db"
  "ab_slugs (account_audit ws u a t i m db) = ab_slugs db" "ab_identity (account_audit ws u a t i m db) = ab_identity db"
  "db_projects (ab_core (account_audit ws u a t i m db)) = db_projects (ab_core db)"
  "db_statuses (ab_core (account_audit ws u a t i m db)) = db_statuses (ab_core db)"
  "db_issueTypes (ab_core (account_audit ws u a t i m db)) = db_issueTypes (ab_core db)"
  "db_projectMembers (ab_core (account_audit ws u a t i m db)) = db_projectMembers (ab_core db)"
  by (simp_all add: account_audit_def)

lemma project_commit_ok:
  "project_commit new jp db = Inr db' \<Longrightarrow> \<not> key_taken db (cx_workspaceId (jp_context jp)) (jp_key jp)
     \<and> ab_workflow db' = project_workflow new (jp_template jp) (ab_workflow db)
     \<and> db_projects (ab_core db') = db_projects (ab_core db) @ [project_row new (cx_workspaceId (jp_context jp)) (jp_key jp) (jp_template jp) (jp_visibility jp)]
     \<and> ab_users db' = ab_users db \<and> ab_slugs db' = ab_slugs db"
  by (auto simp: project_commit_def Let_def add_project_def project_core_def split: if_splits)

lemma checked_project:
  assumes "project_check context body db = Inr jp"
  shows "context = Some (jp_context jp)" "is_workspace_admin (jp_context jp)" "to_upper (jp_key jp) = jp_key jp"
proof -
  have key: "list_all is_upper (jp_key jp)" and c: "context = Some (jp_context jp)" "is_workspace_admin (jp_context jp)"
    using assms by (auto simp: project_check_def is_project_key_def Let_def split: option.splits if_splits)
  show "context = Some (jp_context jp)" "is_workspace_admin (jp_context jp)" by (rule c)+
  have "to_upper_char c = c" if "is_upper c" for c using that by (simp add: to_upper_char_def is_lower_def is_upper_def)
  then show "to_upper (jp_key jp) = jp_key jp" using key unfolding to_upper_def list_all_iff by (intro map_idI) blast
qed

lemma new_project_managed:
  assumes "project_check context body earlier = Inr jp" and "project_commit new jp db = Inr db'"
  shows "managedProject (ab_core db') context (jp_key jp)
    = Inr (jp_context jp, project_row new (cx_workspaceId (jp_context jp)) (jp_key jp) (jp_template jp) (jp_visibility jp))"
proof -
  note c = checked_project [OF assms(1)]
  note r = project_commit_ok [OF assms(2)]
  have none: "find (\<lambda>p. p_workspaceId p = cx_workspaceId (jp_context jp) \<and> p_key p = jp_key jp) (db_projects (ab_core db)) = None"
    using r unfolding find_None_iff' key_taken_def list_ex_iff by blast
  have "cx_role (jp_context jp) = WOwner \<or> cx_role (jp_context jp) = WAdmin" using c(2) by (simp add: is_workspace_admin_def)
  then show ?thesis unfolding managedProject_def c(1,3) by (auto simp: r find_append none project_row_def)
qed

text \<open>
  C36: A new project can be configured at once: its creator passes the guard of the configuration, it has the four
  statuses in their order, a board with one column of the same name and place for each of them, and the issue types of
  its template; the tables that were there keep their rows, and the references of the workflow tables stay intact
  through every later sequence of configuration requests.
\<close>

theorem new_project_is_configurable:
  assumes "project_check context body earlier = Inr jp" and "project_commit new jp db = Inr db'" and "fresh_names new (ab_workflow db)" and "wf_ok (ab_workflow db)"
  shows "(\<exists>p. managedProject (ab_core db') context (jp_key jp) = Inr (jp_context jp, p) \<and> p_id p = new New_Project)
    \<and> (\<exists>statuses columns types. wf_statuses (ab_workflow db') = wf_statuses (ab_workflow db) @ statuses
        \<and> wf_columns (ab_workflow db') = wf_columns (ab_workflow db) @ columns \<and> wf_types (ab_workflow db') = wf_types (ab_workflow db) @ types
        \<and> map (\<lambda>s. (ws_projectId s, ws_name s, ws_category s)) statuses
          = [(new New_Project, ''To do'', ''TODO''), (new New_Project, ''In progress'', ''IN_PROGRESS''), (new New_Project, ''In review'', ''IN_PROGRESS''), (new New_Project, ''Done'', ''DONE'')]
        \<and> map ws_position statuses = [0, 1, 2, 3]
        \<and> map (\<lambda>c. (co_boardId c, co_statusId c, co_name c, co_position c)) columns = map (\<lambda>s. (new New_Board, ws_id s, ws_name s, ws_position s)) statuses
        \<and> map (\<lambda>t. (wt_projectId t, wt_name t, wt_kind t)) types
          = map (Pair (new New_Project)) (if jp_template jp = Service then [(''Service request'', ''TASK'')]
              else [(''Epic'', ''EPIC''), (''Story'', ''STORY''), (''Task'', ''TASK''), (''Bug'', ''BUG''), (''Subtask'', ''SUBTASK'')]))
    \<and> \<lparr>bd_id = new New_Board, bd_projectId = new New_Project\<rparr> \<in> set (wf_boards (ab_workflow db'))
    \<and> wf_ok (fold (patch_step to_num wdb) requests (ab_workflow db'))"
proof (intro conjI)
  have tables: "ab_workflow db' = project_workflow new (jp_template jp) (ab_workflow db)" using project_commit_ok [OF assms(2)] by blast
  have "wf_ok (ab_workflow db')" unfolding tables by (rule project_workflow_ok [OF assms(3,4)])
  then show "wf_ok (fold (patch_step to_num wdb) requests (ab_workflow db'))" by (rule workflow_config.run_inv)
  show "\<lparr>bd_id = new New_Board, bd_projectId = new New_Project\<rparr> \<in> set (wf_boards (ab_workflow db'))" by (simp add: tables project_workflow_def)
  show "\<exists>p. managedProject (ab_core db') context (jp_key jp) = Inr (jp_context jp, p) \<and> p_id p = new New_Project"
    using new_project_managed [OF assms(1,2)] by (simp add: project_row_def)
  show "\<exists>statuses columns types. wf_statuses (ab_workflow db') = wf_statuses (ab_workflow db) @ statuses
        \<and> wf_columns (ab_workflow db') = wf_columns (ab_workflow db) @ columns \<and> wf_types (ab_workflow db') = wf_types (ab_workflow db) @ types
        \<and> map (\<lambda>s. (ws_projectId s, ws_name s, ws_category s)) statuses
          = [(new New_Project, ''To do'', ''TODO''), (new New_Project, ''In progress'', ''IN_PROGRESS''), (new New_Project, ''In review'', ''IN_PROGRESS''), (new New_Project, ''Done'', ''DONE'')]
        \<and> map ws_position statuses = [0, 1, 2, 3]
        \<and> map (\<lambda>c. (co_boardId c, co_statusId c, co_name c, co_position c)) columns = map (\<lambda>s. (new New_Board, ws_id s, ws_name s, ws_position s)) statuses
        \<and> map (\<lambda>t. (wt_projectId t, wt_name t, wt_kind t)) types
          = map (Pair (new New_Project)) (if jp_template jp = Service then [(''Service request'', ''TASK'')]
              else [(''Epic'', ''EPIC''), (''Story'', ''STORY''), (''Task'', ''TASK''), (''Bug'', ''BUG''), (''Subtask'', ''SUBTASK'')])"
    by (rule exI [of _ "map (\<lambda>(n, name, category, color). \<lparr>ws_id = new (New_Status n), ws_projectId = new New_Project, ws_name = name,
            ws_category = category_name category, ws_color = color, ws_position = int n\<rparr>) (numbered template_statuses)"],
        rule exI [of _ "map (\<lambda>(n, name, _, _). \<lparr>co_id = new (New_Column n), co_boardId = new New_Board, co_statusId = new (New_Status n),
            co_name = name, co_position = int n, co_wipLimit = None\<rparr>) (numbered template_statuses)"],
        rule exI [of _ "map (\<lambda>(n, name, kind). \<lparr>wt_id = new (New_Type n), wt_projectId = new New_Project, wt_name = name, wt_kind = kind,
            wt_position = int n\<rparr>) (numbered (template_types (jp_template jp)))"])
      (cases "jp_template jp = Service", simp_all add: tables project_workflow_def numbered_template numbered_types)
qed

section \<open>E-mail addresses, slugs and keys stay unique\<close>

datatype account_event =
    Commit_Project "row_name \<Rightarrow> string" project_plan
  | Commit_Signup "row_name \<Rightarrow> string" signup_plan

text \<open>Every request commits after any others, whatever it has read before.\<close>

fun account_step :: "(string \<Rightarrow> string) \<Rightarrow> account_event \<Rightarrow> account_db \<Rightarrow> account_db" where
  "account_step hash (Commit_Project new jp) db = (case project_commit new jp db of Inl _ \<Rightarrow> db | Inr db' \<Rightarrow> db')"
| "account_step hash (Commit_Signup new sg) db =
     (if new New_Workspace \<in> fst ` set (ab_slugs db) \<or> new New_Workspace \<in> p_workspaceId ` set (db_projects (ab_core db)) then db
      else case signup_commit hash new sg db of Inl _ \<Rightarrow> db | Inr db' \<Rightarrow> db')"

definition accounts_unique :: "account_db \<Rightarrow> bool" where
  "accounts_unique db \<longleftrightarrow> distinct (map u_email (ab_users db)) \<and> distinct (map snd (ab_slugs db)) \<and> distinct (map fst (ab_slugs db))
     \<and> distinct (map (\<lambda>p. (p_workspaceId p, p_key p)) (db_projects (ab_core db)))"

lemma signup_commit_ok:
  "signup_commit hash new sg db = Inr db' \<Longrightarrow> \<not> email_taken db (sg_email sg) \<and> \<not> slug_taken db (sg_slug sg)
     \<and> (\<exists>u. ab_users db' = ab_users db @ [u] \<and> u_email u = sg_email sg) \<and> ab_slugs db' = ab_slugs db @ [(new New_Workspace, sg_slug sg)]
     \<and> (\<exists>p. db_projects (ab_core db') = db_projects (ab_core db) @ [p] \<and> p_workspaceId p = new New_Workspace)"
  by (auto simp: signup_commit_def Let_def add_project_def project_core_def project_row_def split: if_splits)

interpretation accounts: kept "account_step hash" accounts_unique for hash
proof
  fix db e assume ok: "accounts_unique db"
  show "accounts_unique (account_step hash e db)"
  proof (cases e)
    case (Commit_Project new jp)
    show ?thesis
    proof (cases "project_commit new jp db")
      case (Inr db')
      then show ?thesis using ok project_commit_ok [OF Inr]
        by (auto simp: Commit_Project accounts_unique_def key_taken_def list_ex_iff project_row_def)
    qed (use ok in \<open>simp add: Commit_Project\<close>)
  next
    case (Commit_Signup new sg)
    show ?thesis
    proof (cases "signup_commit hash new sg db")
      case (Inr db')
      then show ?thesis using ok signup_commit_ok [OF Inr]
        by (auto simp: Commit_Signup accounts_unique_def email_taken_def slug_taken_def image_iff)
    qed (use ok in \<open>simp add: Commit_Signup\<close>)
  qed
qed

text \<open>
  However sign-ups and new projects interleave, no two accounts share an e-mail address, no two workspaces a slug, and no
  two projects of a workspace a key.
\<close>

theorem accounts_stay_unique:
  assumes "accounts_unique db"
  shows "accounts_unique (fold (account_step hash) es db)"
  using assms by (rule accounts.run_inv)

section \<open>Who logs in\<close>

text \<open>
  A login opens a session only for an account whose stored password accepts the given one, in the workspace the user
  joined first, when the policy of its organization allows a local login; and it opens exactly one.
\<close>

theorem login_is_gated:
  assumes "login_POST verify mac encode sid now production body db = (Inr cookie, db')"
  shows "\<exists>u m email password stored s. field ''email'' body = JStr email \<and> field ''password'' body = JStr password
    \<and> u \<in> set (ab_users db) \<and> u_email u = to_lower (trim email) \<and> u_passwordHash u = Some stored \<and> verify password stored
    \<and> first_membership db (u_id u) = Some m \<and> canUseLocalLogin (ab_identity db) (u_id u) (wm_workspaceId m)
    \<and> id_sessions (ab_identity db') = id_sessions (ab_identity db) @ [s] \<and> ss_userId s = u_id u \<and> ss_workspaceId s = wm_workspaceId m"
proof -
  obtain u m where a: "login_account verify production body db = Inr (u, m)"
    using assms by (auto simp: login_POST_def split: sum.splits prod.splits)
  have gate: "canUseLocalLogin (ab_identity db) (u_id u) (wm_workspaceId m)"
    and sess: "\<exists>s. id_sessions (ab_identity db') = id_sessions (ab_identity db) @ [s] \<and> ss_userId s = u_id u \<and> ss_workspaceId s = wm_workspaceId m"
    using assms by (auto simp: login_POST_def a Let_def createSession_def split: if_splits prod.splits)
  obtain email password stored where "as_string (field ''email'' body) = Some email" "as_string (field ''password'' body) = Some password"
    and u: "find (\<lambda>u. u_email u = to_lower (trim email)) (ab_users db) = Some u" "u_passwordHash u = Some stored"
    and v: "\<not> (stored = [] \<or> \<not> verify password stored)" "first_membership db (u_id u) = Some m"
    using a unfolding login_account_def by (simp only: handler_simps prod.inject) (elim exE conjE, hypsubst, rule that, assumption+)
  with gate sess find_SomeD [OF u(1)] show ?thesis by auto
qed

text \<open>
  The first membership is taken even when it is deactivated: such a user passes the login and is then refused
  every request, in spite of other workspaces the user is an active member of.
\<close>

theorem login_into_deactivated_workspace:
  assumes "login_POST verify mac encode sid now production body db = (Inr cookie, db')"
    and "login_account verify production body db = Inr (u, m)" and "wm_deactivatedAt m \<noteq> None"
    and "distinct (map member_key (id_members (ab_identity db)))"
    and "c = \<lparr>cl_sessionId = sid, cl_userId = u_id u, cl_workspaceId = wm_workspaceId m,
              cl_expiresAt = now + effectiveSessionLifetimeSeconds (ab_identity db) (wm_workspaceId m) * 1000\<rparr>"
    and "decode (encode c) = Some c" "CHR ''.'' \<notin> set (encode c)" "CHR ''.'' \<notin> set (mac (encode c))"
  shows "getAuthContext mac decode later (Some cookie) (ab_identity db') = None"
proof -
  have members: "id_members (ab_identity db') = id_members (ab_identity db)"
    using assms(1) by (auto simp: login_POST_def assms(2) Let_def createSession_def split: if_splits prod.splits)
  have first: "first_membership db (u_id u) = Some m"
    using assms(2) unfolding login_account_def by (simp only: handler_simps prod.inject) (elim exE conjE, hypsubst, assumption)
  then have m: "m \<in> set (id_members (ab_identity db))" "wm_userId m = u_id u" by (auto simp: first_membership_def dest: find_SomeD)
  have "membership_of (ab_identity db') (wm_workspaceId m) (u_id u) = Some m"
  proof -
    have "find (\<lambda>x. member_key x = member_key m) (id_members (ab_identity db)) = Some m" by (rule find_unique [OF assms(4) m(1)])
    then show ?thesis by (simp add: membership_of_def members member_key_def m(2))
  qed
  moreover have "cookie = encode c @ CHR ''.'' # mac (encode c)"
    using assms(1,5) by (auto simp: login_POST_def assms(2) Let_def createSession_def split: if_splits)
  then have "split_on CHR ''.'' cookie = [encode c, mac (encode c)]" using assms(7,8) by (simp add: split_on_sep split_on_none)
  then have "readClaims mac decode later (Some cookie) \<in> {None, Some c}" using assms(6) by (simp add: readClaims_def)
  ultimately show ?thesis using assms(3,5) by (auto simp: getAuthContext_def split: option.splits)
qed

section \<open>Witnesses\<close>

definition sample_name :: "row_name \<Rightarrow> string" where
  "sample_name r = (case r of New_Project \<Rightarrow> ''#p'' | New_Type n \<Rightarrow> ''#t'' @ replicate n CHR ''x'' | New_Status n \<Rightarrow> ''#s'' @ replicate n CHR ''x''
     | New_Board \<Rightarrow> ''#b'' | New_Column n \<Rightarrow> ''#c'' @ replicate n CHR ''x'' | New_Group \<Rightarrow> ''#g'' | New_User \<Rightarrow> ''#u'' | New_Workspace \<Rightarrow> ''#w'')"

definition sample_accounts :: account_db where
  "sample_accounts =
     \<lparr>ab_users = [\<lparr>u_id = ''amy'', u_email = ''a@b.c'', u_name = ''Amy'', u_passwordHash = Some ''h''\<rparr>], ab_slugs = [(''w'', ''acme'')],
      ab_identity = \<lparr>id_sessions = [], id_members = [\<lparr>wm_workspaceId = ''w'', wm_userId = ''amy'', wm_role = WMember, wm_deactivatedAt = Some 1\<rparr>,
        \<lparr>wm_workspaceId = ''v'', wm_userId = ''amy'', wm_role = WOwner, wm_deactivatedAt = None\<rparr>],
        id_workspaces = [], id_organizations = [], id_orgMembers = [], id_scim = []\<rparr>,
      ab_core = sample_wdb, ab_workflow = sample_wf, ab_portalGroups = []\<rparr>"

definition sample_new_project :: project_plan where
  "sample_new_project = \<lparr>jp_context = sample_admin, jp_key = ''NEW'', jp_template = Kanban, jp_visibility = Public\<rparr>"

definition sample_signup :: signup_plan where
  "sample_signup = \<lparr>sg_name = ''Bob'', sg_email = ''b@b.c'', sg_password = ''Abcdefghijk1'', sg_slug = ''bobs''\<rparr>"

definition sample_login :: jobj where
  "sample_login = [(''email'', JStr ''A@b.c''), (''password'', JStr ''pw'')]"

lemma sample_name_fresh: "fresh_names sample_name sample_wf"
proof -
  have "inj sample_name" proof (rule injI)
    fix a b assume "sample_name a = sample_name b"
    then show "a = b" by (cases a; cases b) (simp_all add: sample_name_def)
  qed
  moreover have "sample_name r \<noteq> ''a'' \<and> sample_name r \<noteq> ''b'' \<and> sample_name r \<noteq> ''c'' \<and> sample_name r \<noteq> ''t''" for r
    by (cases r) (simp_all add: sample_name_def)
  ultimately show ?thesis
    by (simp add: fresh_names_def sample_wf_def sample_status_def status_keys_def type_keys_def column_keys_def)
qed

definition sample_project_body :: jobj where
  "sample_project_body = [(''name'', JStr ''New work''), (''key'', JStr ''new'')]"

lemma sample_project_checked: "project_check (Some sample_admin) sample_project_body sample_accounts = Inr sample_new_project"
  by code_simp

lemma sample_project_new: "isl (project_commit sample_name sample_new_project sample_accounts) = False"
  by code_simp

theorem new_project_is_configurable_witness:
  "\<exists>p. managedProject (ab_core (outcome (project_commit sample_name sample_new_project sample_accounts) sample_accounts)) (Some sample_admin) ''NEW'' = Inr (sample_admin, p)
     \<and> p_id p = ''#p''"
proof -
  have run: "project_commit sample_name sample_new_project sample_accounts
      = Inr (outcome (project_commit sample_name sample_new_project sample_accounts) sample_accounts)"
    by (rule outcome [OF sample_project_new])
  have wf: "fresh_names sample_name (ab_workflow sample_accounts)" "wf_ok (ab_workflow sample_accounts)"
    using sample_name_fresh sample_wf_ok by (simp_all add: sample_accounts_def)
  show ?thesis
    using new_project_is_configurable [OF sample_project_checked run wf, THEN conjunct1] by (simp add: sample_new_project_def sample_name_def)
qed

theorem accounts_stay_unique_witness:
  "accounts_unique (fold (account_step id) [Commit_Signup sample_name sample_signup, Commit_Project sample_name sample_new_project,
     Commit_Signup sample_name sample_signup] sample_accounts)"
  by (rule accounts_stay_unique) (simp add: accounts_unique_def sample_accounts_def sample_wdb_def)

definition sample_login_run :: "(nat, string) result \<times> account_db" where
  "sample_login_run = login_POST (\<lambda>p h. p = ''pw'') (\<lambda>_. ''m'') (\<lambda>_. ''c'') ''s'' 0 False sample_login sample_accounts"

lemma sample_login_ok:
  "fst sample_login_run = Inr ''c.m''"
  "login_account (\<lambda>p h. p = ''pw'') False sample_login sample_accounts = Inr (hd (ab_users sample_accounts), hd (id_members (ab_identity sample_accounts)))"
  by code_simp+

theorem login_is_gated_witness:
  "\<exists>u m email password stored s. field ''email'' sample_login = JStr email \<and> field ''password'' sample_login = JStr password
    \<and> u \<in> set (ab_users sample_accounts) \<and> u_email u = to_lower (trim email) \<and> u_passwordHash u = Some stored \<and> (\<lambda>p h. p = ''pw'') password stored
    \<and> first_membership sample_accounts (u_id u) = Some m \<and> canUseLocalLogin (ab_identity sample_accounts) (u_id u) (wm_workspaceId m)
    \<and> id_sessions (ab_identity (snd sample_login_run)) = id_sessions (ab_identity sample_accounts) @ [s] \<and> ss_userId s = u_id u \<and> ss_workspaceId s = wm_workspaceId m"
  by (rule login_is_gated [where mac = "\<lambda>_. ''m''" and encode = "\<lambda>_. ''c''" and sid = "''s''" and now = 0 and production = False])
    (simp add: sample_login_ok(1) prod_eq_iff flip: sample_login_run_def)

theorem login_into_deactivated_workspace_witness:
  "getAuthContext (\<lambda>_. ''m'') (\<lambda>_. Some \<lparr>cl_sessionId = ''s'', cl_userId = ''amy'', cl_workspaceId = ''w'', cl_expiresAt = 604800000\<rparr>) 5 (Some ''c.m'')
     (ab_identity (snd sample_login_run)) = None
   \<and> list_ex (\<lambda>m. wm_userId m = ''amy'' \<and> wm_deactivatedAt m = None) (id_members (ab_identity sample_accounts))"
proof
  have run: "login_POST (\<lambda>p h. p = ''pw'') (\<lambda>_. ''m'') (\<lambda>_. ''c'') ''s'' 0 False sample_login sample_accounts = (Inr ''c.m'', snd sample_login_run)"
    using sample_login_ok(1) by (simp add: prod_eq_iff flip: sample_login_run_def)
  show "getAuthContext (\<lambda>_. ''m'') (\<lambda>_. Some \<lparr>cl_sessionId = ''s'', cl_userId = ''amy'', cl_workspaceId = ''w'', cl_expiresAt = 604800000\<rparr>) 5 (Some ''c.m'')
     (ab_identity (snd sample_login_run)) = None"
    by (rule login_into_deactivated_workspace [OF run sample_login_ok(2) _ _ refl])
      (simp_all add: sample_accounts_def member_key_def effectiveSessionLifetimeSeconds_def workspace_organization_def)
qed (simp add: sample_accounts_def)

end
