(* ===== verification/AuditChain.thy ===== *)
theory AuditChain
  imports JsValue
begin

text \<open>
  The audit log (\<open>src/lib/audit.ts\<close> and the insert trigger of the migrations): redaction of
  metadata, the hash chain of a workspace with its anchor, its verification, the paged export and
  the signed download links. SHA-256, HMAC and the database's text casts are parameters.
\<close>

section \<open>Redaction\<close>

definition sensitive_words :: "string list" where
  "sensitive_words = [''password'', ''credential'', ''secret'', ''token'', ''cookie'', ''authorization'', ''content'', ''body'']"

definition sensitive_key :: "string \<Rightarrow> bool" where
  "sensitive_key k \<longleftrightarrow> list_ex (\<lambda>w. contains_text w (to_lower k)) sensitive_words"

fun redactAuditMetadata :: "js \<Rightarrow> js" where
  "redactAuditMetadata (JArr vs) = JArr (map redactAuditMetadata vs)"
| "redactAuditMetadata (JObj fs) =
     JObj (map (\<lambda>(k, v). (k, if sensitive_key k then JStr ''[REDACTED]'' else redactAuditMetadata v)) fs)"
| "redactAuditMetadata v = v"

fun secret_free :: "js \<Rightarrow> bool" where
  "secret_free (JArr vs) \<longleftrightarrow> (\<forall>v\<in>set vs. secret_free v)"
| "secret_free (JObj fs) \<longleftrightarrow> (\<forall>(k, v)\<in>set fs. if sensitive_key k then v = JStr ''[REDACTED]'' else secret_free v)"
| "secret_free v \<longleftrightarrow> True"

text \<open>
  Redaction reaches every depth: in the redacted metadata each value under a sensitive key,
  however deeply nested, is the marker, and redacting again changes nothing.
\<close>

theorem redaction_is_complete:
  "secret_free (redactAuditMetadata v)
   \<and> redactAuditMetadata (redactAuditMetadata v) = redactAuditMetadata v"
proof -
  have clean: "redactAuditMetadata w = w" if "secret_free w" for w
    using that by (induction w rule: redactAuditMetadata.induct) (force intro!: map_idI split: if_splits)+
  have "secret_free (redactAuditMetadata v)"
    by (induction v rule: redactAuditMetadata.induct) auto
  with clean show ?thesis by blast
qed

section \<open>The hash chain of a workspace\<close>

record audit_event =
  ae_id :: string
  ae_workspaceId :: string
  ae_actorId :: "string option"
  ae_action :: string
  ae_targetType :: string
  ae_targetId :: "string option"
  ae_metadata :: string    \<comment> \<open>\<open>metadata::text\<close>, \<open>null\<close> when absent\<close>
  ae_createdAt :: string   \<comment> \<open>\<open>createdAt::text\<close>\<close>
  ae_keyVersion :: int
  ae_sequence :: int
  ae_previousHash :: "string option"
  ae_eventHash :: string

record anchor =
  an_sequence :: int
  an_eventHash :: string

text \<open>The rows of one workspace in the order they were inserted, and its anchor.\<close>

record chain =
  ch_rows :: "audit_event list"
  ch_anchor :: "anchor option"

abbreviation or_empty :: "string option \<Rightarrow> string" where
  "or_empty v \<equiv> (case v of None \<Rightarrow> [] | Some s \<Rightarrow> s)"

text \<open>\<open>concat_ws('|', ...)\<close>\<close>

definition hash_text :: "audit_event \<Rightarrow> string" where
  "hash_text e = join ''|'' [ae_workspaceId e, string_of_int (ae_sequence e), or_empty (ae_previousHash e),
     string_of_int (ae_keyVersion e), ae_id e, or_empty (ae_actorId e), ae_action e, ae_targetType e,
     or_empty (ae_targetId e), ae_metadata e, ae_createdAt e]"

text \<open>The trigger: the new row continues the last row, or the anchor when there is none.\<close>

definition last_row :: "chain \<Rightarrow> audit_event option" where
  "last_row c = (case sort_key ae_sequence (ch_rows c) of [] \<Rightarrow> None | r # rs \<Rightarrow> Some (last (r # rs)))"

definition next_link :: "chain \<Rightarrow> int \<times> string option" where
  "next_link c =
     (case last_row c of
        Some r \<Rightarrow> (ae_sequence r + 1, Some (ae_eventHash r))
      | None \<Rightarrow> (case ch_anchor c of Some a \<Rightarrow> (an_sequence a + 1, Some (an_eventHash a)) | None \<Rightarrow> (1, None)))"

definition append_event :: "(string \<Rightarrow> string) \<Rightarrow> audit_event \<Rightarrow> chain \<Rightarrow> chain" where
  "append_event sha e c =
     (let (n, prior) = next_link c;
          e' = e\<lparr>ae_sequence := n, ae_previousHash := prior\<rparr>
      in c\<lparr>ch_rows := ch_rows c @ [e'\<lparr>ae_eventHash := sha (hash_text e')\<rparr>]\<rparr>)"

definition broken_row :: "(string \<Rightarrow> string) \<Rightarrow> anchor option \<Rightarrow> audit_event list \<Rightarrow> nat \<Rightarrow> bool" where
  "broken_row sha anchor rows i \<longleftrightarrow>
     (let row = rows ! i in
      ae_eventHash row \<noteq> sha (hash_text row)
      \<or> i = 0 \<and> (ae_sequence row \<noteq> (case anchor of None \<Rightarrow> 0 | Some a \<Rightarrow> an_sequence a) + 1
                 \<or> ae_previousHash row \<noteq> map_option an_eventHash anchor)
      \<or> i > 0 \<and> ae_previousHash row \<noteq> Some (ae_eventHash (rows ! (i - 1)))
      \<or> i > 0 \<and> ae_sequence row \<noteq> ae_sequence (rows ! (i - 1)) + 1)"

record chain_report =
  cr_valid :: bool
  cr_count :: nat
  cr_firstSequence :: "int option"
  cr_lastSequence :: "int option"
  cr_brokenIds :: "string list"

definition verifyAuditChain :: "(string \<Rightarrow> string) \<Rightarrow> chain \<Rightarrow> chain_report" where
  "verifyAuditChain sha c =
     (let rows = sort_key ae_sequence (ch_rows c);
          broken = filter (broken_row sha (ch_anchor c) rows) [0..<length rows]
      in \<lparr>cr_valid = (broken = []), cr_count = length rows,
          cr_firstSequence = (if rows = [] then None else Some (ae_sequence (hd rows))),
          cr_lastSequence = (if rows = [] then None else Some (ae_sequence (last rows))),
          cr_brokenIds = map (\<lambda>i. ae_id (rows ! i)) broken\<rparr>)"

text \<open>Retention deletes a prefix of the rows and moves the anchor to its last row, atomically.\<close>

definition retain_from :: "(audit_event \<Rightarrow> bool) \<Rightarrow> chain \<Rightarrow> chain" where
  "retain_from deletable c =
     (let gone = takeWhile deletable (sort_key ae_sequence (ch_rows c))
      in if gone = [] then c
         else c\<lparr>ch_rows := filter (\<lambda>e. ae_id e \<notin> ae_id ` set gone) (ch_rows c),
                ch_anchor := Some \<lparr>an_sequence = ae_sequence (last gone), an_eventHash = ae_eventHash (last gone)\<rparr>\<rparr>)"

section \<open>Links of a valid chain\<close>

text \<open>The same check as a recursion over the rows: number and hash expected of the next row.\<close>

fun linked :: "(string \<Rightarrow> string) \<Rightarrow> int \<Rightarrow> string option \<Rightarrow> audit_event list \<Rightarrow> bool" where
  "linked sha n prior [] \<longleftrightarrow> True"
| "linked sha n prior (e # es) \<longleftrightarrow> ae_sequence e = n \<and> ae_previousHash e = prior
     \<and> ae_eventHash e = sha (hash_text e) \<and> linked sha (n + 1) (Some (ae_eventHash e)) es"

definition anchor_link :: "anchor option \<Rightarrow> int \<times> string option" where
  "anchor_link a = (case a of None \<Rightarrow> (1, None) | Some a \<Rightarrow> (an_sequence a + 1, Some (an_eventHash a)))"

lemma linked_append:
  "linked sha n prior (es @ fs) \<longleftrightarrow> linked sha n prior es
     \<and> linked sha (n + int (length es)) (if es = [] then prior else Some (ae_eventHash (last es))) fs"
  by (induction es arbitrary: n prior) (auto simp: algebra_simps)

lemma linked_sequence: "linked sha n prior es \<Longrightarrow> i < length es \<Longrightarrow> ae_sequence (es ! i) = n + int i"
  by (induction es arbitrary: n prior i) (auto simp: nth_Cons split: nat.splits)

lemma linked_last: "linked sha n prior es \<Longrightarrow> es \<noteq> [] \<Longrightarrow> ae_sequence (last es) + 1 = n + int (length es)"
  using linked_sequence [of sha n prior es "length es - 1"] by (cases es) (auto simp: last_conv_nth)

lemma linked_sorted:
  assumes "linked sha n prior es" shows "sorted (map ae_sequence es)" and "distinct (map ae_sequence es)"
proof -
  have eq: "map ae_sequence es = map (\<lambda>i. n + int i) [0..<length es]"
    by (rule nth_equalityI) (use linked_sequence [OF assms] in auto)
  show "sorted (map ae_sequence es)" unfolding eq by (auto simp: sorted_iff_nth_mono)
  show "distinct (map ae_sequence es)" unfolding eq by (auto simp: distinct_map inj_on_def)
qed

lemma linked_nth:
  "linked sha n prior es \<longleftrightarrow> (\<forall>i<length es. ae_eventHash (es ! i) = sha (hash_text (es ! i))
     \<and> (if i = 0 then ae_sequence (es ! i) = n \<and> ae_previousHash (es ! i) = prior
        else ae_previousHash (es ! i) = Some (ae_eventHash (es ! (i - 1)))
          \<and> ae_sequence (es ! i) = ae_sequence (es ! (i - 1)) + 1))"
proof (induction es arbitrary: n prior)
  case (Cons e es)
  show ?case
    by (auto simp: Cons.IH less_Suc_eq_0_disj nth_Cons' All_less_Suc2)
qed simp

definition chain_linked :: "(string \<Rightarrow> string) \<Rightarrow> chain \<Rightarrow> bool" where
  "chain_linked sha c \<longleftrightarrow> linked sha (fst (anchor_link (ch_anchor c))) (snd (anchor_link (ch_anchor c))) (ch_rows c)
     \<and> distinct (map ae_id (ch_rows c))"

lemma verify_iff:
  "cr_valid (verifyAuditChain sha c) \<longleftrightarrow>
     linked sha (fst (anchor_link (ch_anchor c))) (snd (anchor_link (ch_anchor c))) (sort_key ae_sequence (ch_rows c))"
proof -
  have "\<not> broken_row sha a rows i \<longleftrightarrow> ae_eventHash (rows ! i) = sha (hash_text (rows ! i))
     \<and> (if i = 0 then ae_sequence (rows ! i) = fst (anchor_link a) \<and> ae_previousHash (rows ! i) = snd (anchor_link a)
        else ae_previousHash (rows ! i) = Some (ae_eventHash (rows ! (i - 1)))
          \<and> ae_sequence (rows ! i) = ae_sequence (rows ! (i - 1)) + 1)" for a rows i
    by (auto simp: broken_row_def anchor_link_def Let_def split: option.splits)
  then show ?thesis by (auto simp: verifyAuditChain_def Let_def linked_nth filter_empty_conv)
qed

lemma linked_sort: "linked sha n prior (ch_rows c) \<Longrightarrow> sort_key ae_sequence (ch_rows c) = ch_rows c"
  by (rule sort_key_id_if_sorted) (rule linked_sorted)

lemma chain_linked_valid: "chain_linked sha c \<Longrightarrow> cr_valid (verifyAuditChain sha c)"
  by (auto simp: chain_linked_def verify_iff linked_sort)

lemma next_link_linked:
  assumes "chain_linked sha c"
  shows "next_link c = (fst (anchor_link (ch_anchor c)) + int (length (ch_rows c)),
     if ch_rows c = [] then snd (anchor_link (ch_anchor c)) else Some (ae_eventHash (last (ch_rows c))))"
proof (cases "ch_rows c")
  case Nil
  then show ?thesis by (simp add: next_link_def last_row_def anchor_link_def split: option.splits)
next
  case (Cons r rs)
  have l: "linked sha (fst (anchor_link (ch_anchor c))) (snd (anchor_link (ch_anchor c))) (ch_rows c)"
    using assms by (simp add: chain_linked_def)
  have "ae_sequence (last (ch_rows c)) + 1 = fst (anchor_link (ch_anchor c)) + int (length (ch_rows c))"
    using linked_last [OF l] Cons by simp
  then show ?thesis using Cons linked_sort [OF l] by (simp add: next_link_def last_row_def)
qed

text \<open>What happens to a chain: an insert (refused on a duplicate id) or a retention pass.\<close>

datatype chain_op = Insert audit_event | Retain "string list"

fun chain_step :: "(string \<Rightarrow> string) \<Rightarrow> chain_op \<Rightarrow> chain \<Rightarrow> chain" where
  "chain_step sha (Insert e) c = (if ae_id e \<in> ae_id ` set (ch_rows c) then c else append_event sha e c)"
| "chain_step sha (Retain ids) c = retain_from (\<lambda>e. ae_id e \<in> set ids) c"

lemma append_event_linked:
  assumes "chain_linked sha c" and "ae_id e \<notin> ae_id ` set (ch_rows c)"
  shows "chain_linked sha (append_event sha e c)"
  using assms next_link_linked [OF assms(1)]
  by (auto simp: append_event_def chain_linked_def linked_append Let_def hash_text_def)

lemma filter_not_prefix:
  "distinct (map f (xs @ ys)) \<Longrightarrow> filter (\<lambda>e. f e \<notin> f ` set xs) (xs @ ys) = ys"
  by (auto simp: filter_empty_conv filter_id_conv)

lemma retain_from_linked:
  assumes "chain_linked sha c"
  shows "chain_linked sha (retain_from P c)"
proof -
  have sorted: "sort_key ae_sequence (ch_rows c) = ch_rows c"
    using assms unfolding chain_linked_def by (blast intro: linked_sort)
  show ?thesis
proof (cases "takeWhile P (ch_rows c) = []")
  case False
  let ?g = "takeWhile P (ch_rows c)" and ?k = "dropWhile P (ch_rows c)"
  have l: "linked sha (fst (anchor_link (ch_anchor c))) (snd (anchor_link (ch_anchor c))) (?g @ ?k)"
    and d: "distinct (map ae_id (?g @ ?k))"
    using assms by (simp_all add: chain_linked_def del: map_append)
  have keep: "filter (\<lambda>e. ae_id e \<notin> ae_id ` set ?g) (ch_rows c) = ?k"
    using filter_not_prefix [OF d] by simp
  have "ae_sequence (last ?g) + 1 = fst (anchor_link (ch_anchor c)) + int (length ?g)"
    using l [unfolded linked_append] False by (blast dest: linked_last)
  moreover have "linked sha (fst (anchor_link (ch_anchor c)) + int (length ?g)) (Some (ae_eventHash (last ?g))) ?k"
    using l [unfolded linked_append] False by simp
  moreover have "retain_from P c = c\<lparr>ch_rows := ?k,
      ch_anchor := Some \<lparr>an_sequence = ae_sequence (last ?g), an_eventHash = ae_eventHash (last ?g)\<rparr>\<rparr>"
    using False keep by (simp add: retain_from_def Let_def sorted)
  moreover have "distinct (map ae_id ?k)" using d by (simp only: map_append distinct_append)
  ultimately show ?thesis by (simp add: chain_linked_def anchor_link_def)
qed (use assms in \<open>simp add: retain_from_def sorted Let_def\<close>)
qed

interpretation audit: kept "chain_step sha" "chain_linked sha" for sha
proof
  fix c e assume "chain_linked sha c"
  then show "chain_linked sha (chain_step sha e c)"
    by (cases e) (auto intro: append_event_linked retain_from_linked)
qed

text \<open>
  C4: The audit chain survives retention: after any sequence of inserts and of retention passes that
  delete the oldest events and move the anchor, verification from the anchor reports no broken row.
\<close>

theorem chain_valid_after_retention:
  "cr_valid (verifyAuditChain sha (fold (chain_step sha) ops \<lparr>ch_rows = [], ch_anchor = None\<rparr>))
   \<and> cr_brokenIds (verifyAuditChain sha (fold (chain_step sha) ops \<lparr>ch_rows = [], ch_anchor = None\<rparr>)) = []"
proof -
  have "chain_linked sha (fold (chain_step sha) ops \<lparr>ch_rows = [], ch_anchor = None\<rparr>)"
    by (rule audit.run_inv) (simp add: chain_linked_def)
  then have "cr_valid (verifyAuditChain sha (fold (chain_step sha) ops \<lparr>ch_rows = [], ch_anchor = None\<rparr>))"
    by (rule chain_linked_valid)
  then show ?thesis by (simp add: verifyAuditChain_def Let_def)
qed

text \<open>
  Removing an event from the middle or the front of a valid chain, or rewriting one so that the
  text it is hashed from changes, is detected by verification (the rewriting provided the digest has no
  collision there).
\<close>

theorem chain_detects_tampering:
  assumes "linked sha (fst (anchor_link a)) (snd (anchor_link a)) (us @ e # vs)"
  shows "(vs \<noteq> [] \<longrightarrow> \<not> cr_valid (verifyAuditChain sha \<lparr>ch_rows = us @ vs, ch_anchor = a\<rparr>))
    \<and> (sha (hash_text e') \<noteq> sha (hash_text e) \<and> ae_eventHash e' = ae_eventHash e \<and> ae_sequence e' = ae_sequence e
       \<longrightarrow> \<not> cr_valid (verifyAuditChain sha \<lparr>ch_rows = us @ e' # vs, ch_anchor = a\<rparr>))"
proof (intro conjI impI)
  note order = linked_sorted(1) [OF assms]
  assume "vs \<noteq> []"
  then obtain w ws where vs: "vs = w # ws" by (cases vs) auto
  have "sort_key ae_sequence (us @ vs) = us @ vs"
    by (rule sort_key_id_if_sorted) (use order in \<open>auto simp: sorted_append\<close>)
  moreover have "ae_sequence w = fst (anchor_link a) + int (length us) + 1"
    using assms vs by (auto simp: linked_append)
  ultimately show "\<not> cr_valid (verifyAuditChain sha \<lparr>ch_rows = us @ vs, ch_anchor = a\<rparr>)"
    using vs by (auto simp: verify_iff linked_append)
next
  assume e': "sha (hash_text e') \<noteq> sha (hash_text e) \<and> ae_eventHash e' = ae_eventHash e \<and> ae_sequence e' = ae_sequence e"
  have "sort_key ae_sequence (us @ e' # vs) = us @ e' # vs"
    by (rule sort_key_id_if_sorted) (use linked_sorted(1) [OF assms] e' in \<open>auto simp: sorted_append\<close>)
  moreover have "ae_eventHash e = sha (hash_text e)" using assms by (auto simp: linked_append)
  ultimately show "\<not> cr_valid (verifyAuditChain sha \<lparr>ch_rows = us @ e' # vs, ch_anchor = a\<rparr>)"
    using e' by (auto simp: verify_iff linked_append)
qed

definition sample_event :: audit_event where
  "sample_event = \<lparr>ae_id = ''e1'', ae_workspaceId = ''w'', ae_actorId = Some ''amy'', ae_action = ''project.created'',
     ae_targetType = ''project'', ae_targetId = Some ''p'', ae_metadata = ''null'', ae_createdAt = ''2026-09-01'',
     ae_keyVersion = 1, ae_sequence = 1, ae_previousHash = None, ae_eventHash = []\<rparr>"

theorem chain_detects_tampering_witness:
  defines "e1 \<equiv> sample_event\<lparr>ae_eventHash := hash_text sample_event\<rparr>"
  defines "e2 \<equiv> sample_event\<lparr>ae_id := ''e2'', ae_sequence := 2, ae_previousHash := Some (ae_eventHash e1)\<rparr>"
  shows "\<not> cr_valid (verifyAuditChain id \<lparr>ch_rows = [] @ [e2\<lparr>ae_eventHash := hash_text e2\<rparr>], ch_anchor = None\<rparr>)
    \<and> \<not> cr_valid (verifyAuditChain id \<lparr>ch_rows = [] @ e1\<lparr>ae_action := ''project.deleted''\<rparr> # [e2\<lparr>ae_eventHash := hash_text e2\<rparr>],
         ch_anchor = None\<rparr>)"
proof -
  have "linked id (fst (anchor_link None)) (snd (anchor_link None)) ([] @ e1 # [e2\<lparr>ae_eventHash := hash_text e2\<rparr>])"
    by (simp add: anchor_link_def e1_def e2_def sample_event_def hash_text_def)
  from chain_detects_tampering [OF this, of "e1\<lparr>ae_action := ''project.deleted''\<rparr>"] show ?thesis
    by (simp add: e1_def sample_event_def hash_text_def)
qed

text \<open>
  The hashed text does not separate its fields: moving text across the delimiter between action
  and target type changes the event but not its hash, so a chain whose event was rewritten this way
  still verifies.
\<close>

theorem delimiter_shift_is_undetected:
  defines "forged \<equiv> sample_event\<lparr>ae_action := ''login'', ae_targetType := ''user|session''\<rparr>"
    and "genuine \<equiv> sample_event\<lparr>ae_action := ''login|user'', ae_targetType := ''session''\<rparr>"
  shows "cr_valid (verifyAuditChain sha (append_event sha genuine \<lparr>ch_rows = [], ch_anchor = None\<rparr>))
    \<and> cr_valid (verifyAuditChain sha \<lparr>ch_rows = [forged\<lparr>ae_eventHash := sha (hash_text genuine)\<rparr>], ch_anchor = None\<rparr>)
    \<and> forged \<noteq> genuine"
proof -
  have "chain_linked sha (append_event sha genuine \<lparr>ch_rows = [], ch_anchor = None\<rparr>)"
    by (rule append_event_linked) (simp_all add: chain_linked_def)
  then show ?thesis
    by (auto dest: chain_linked_valid simp: verify_iff anchor_link_def forged_def genuine_def sample_event_def hash_text_def)
qed

section \<open>Paged export and signed downloads\<close>

text \<open>
  The export reads pages of \<open>n\<close> matching events in ascending sequence, each page starting after
  the last sequence seen (a cursor of 0 is falsy and starts over). The loop ends on a short page.
\<close>

definition page :: "nat \<Rightarrow> audit_event list \<Rightarrow> int option \<Rightarrow> audit_event list" where
  "page n rows cursor =
     take n (filter (\<lambda>e. case cursor of None \<Rightarrow> True | Some c \<Rightarrow> c = 0 \<or> c < ae_sequence e) rows)"

partial_function (option) export_pages :: "nat \<Rightarrow> audit_event list \<Rightarrow> int option \<Rightarrow> audit_event list \<Rightarrow> audit_event list option" where
  "export_pages n rows cursor events =
     (let p = page n rows cursor
      in if length p < n then Some (events @ p)
         else export_pages n rows (if p = [] then None else Some (ae_sequence (last p))) (events @ p))"

record export_filters =
  ef_from :: "time option"
  ef_to :: "time option"
  ef_action :: "string option"

definition export_matches :: "(audit_event \<Rightarrow> time) \<Rightarrow> export_filters \<Rightarrow> audit_event \<Rightarrow> bool" where
  "export_matches created f e \<longleftrightarrow>
     (case ef_action f of None \<Rightarrow> True | Some a \<Rightarrow> a = [] \<or> contains_text a (ae_action e))
     \<and> (case ef_from f of None \<Rightarrow> True | Some t \<Rightarrow> t \<le> created e)
     \<and> (case ef_to f of None \<Rightarrow> True | Some t \<Rightarrow> created e \<le> t)"

definition validAuditDownload :: "(string \<Rightarrow> string) \<Rightarrow> string \<Rightarrow> jnum \<Rightarrow> string \<Rightarrow> time \<Rightarrow> bool" where
  "validAuditDownload hmac i expires signature now =
     (case as_integer (JNum expires) of
        None \<Rightarrow> False
      | Some s \<Rightarrow> now < s * 1000 \<and> signature = hmac (i @ '':'' @ string_of_int s))"

lemma pages_from:
  assumes "sorted (map ae_sequence (us @ vs))" and "distinct (map ae_sequence (us @ vs))"
    and "\<forall>e\<in>set (us @ vs). 0 < ae_sequence e" and "0 < n"
    and "cursor = (if us = [] then None else Some (ae_sequence (last us)))"
  shows "export_pages n (us @ vs) cursor us = Some (us @ vs)"
  using assms
proof (induction "length vs" arbitrary: us vs cursor rule: less_induct)
  case less
  have "page n (us @ vs) cursor = take n vs"
  proof (cases "us = []")
    case False
    have "ae_sequence e \<le> ae_sequence (last us)" if "e \<in> set us" for e
      using less.prems(1) that False
      by (cases us rule: rev_cases) (auto simp: sorted_append)
    moreover have "ae_sequence (last us) < ae_sequence e" if "e \<in> set vs" for e
    proof -
      have "ae_sequence (last us) \<le> ae_sequence e" using less.prems(1) that False by (simp add: sorted_append)
      moreover have "ae_sequence (last us) \<in> ae_sequence ` set us" using False by simp
      then have "ae_sequence (last us) \<noteq> ae_sequence e" using less.prems(2) that by auto
      ultimately show ?thesis by simp
    qed
    ultimately have "filter (\<lambda>e. ae_sequence (last us) < ae_sequence e) (us @ vs) = vs"
      by (auto simp: filter_empty_conv filter_id_conv not_less)
    moreover have "ae_sequence (last us) \<noteq> 0" using less.prems(3) False by (metis UnI1 last_in_set order_less_irrefl set_append)
    ultimately show ?thesis using less.prems(5) False by (simp add: page_def)
  qed (use less.prems(5) in \<open>simp add: page_def\<close>)
  then have step: "export_pages n (us @ vs) cursor us =
      (if length (take n vs) < n then Some (us @ take n vs)
       else export_pages n (us @ vs) (if take n vs = [] then None else Some (ae_sequence (last (take n vs)))) (us @ take n vs))"
    by (subst export_pages.simps) (simp add: Let_def)
  show ?case
  proof (cases "length vs < n")
    case False
    have "export_pages n ((us @ take n vs) @ drop n vs) (Some (ae_sequence (last (take n vs)))) (us @ take n vs)
        = Some ((us @ take n vs) @ drop n vs)"
    proof (rule less.hyps)
      have ne: "take n vs \<noteq> []" using less.prems(4) False by (cases vs) auto
      then show "Some (ae_sequence (last (take n vs))) = (if us @ take n vs = [] then None
          else Some (ae_sequence (last (us @ take n vs))))" by simp
    qed (use less.prems False in auto)
    then show ?thesis using step False less.prems(4) by (cases vs) auto
  qed (use step in simp)
qed

text \<open>
  The paged export ends and reads every event exactly once: on rows in ascending order of distinct
  positive sequence numbers, as the chain keeps them, the pages concatenate to the whole table.
\<close>

theorem export_reads_everything:
  assumes "sorted (map ae_sequence rows)" and "distinct (map ae_sequence rows)"
    and "\<forall>e\<in>set rows. 0 < ae_sequence e" and "0 < n"
  shows "export_pages n rows None [] = Some rows"
  using pages_from [of "[]" rows n None] assms by simp

theorem export_reads_everything_witness:
  "export_pages 1 [sample_event, sample_event\<lparr>ae_sequence := 2\<rparr>] None [] = Some [sample_event, sample_event\<lparr>ae_sequence := 2\<rparr>]"
  by (rule export_reads_everything) (simp_all add: sample_event_def)

end
