(* ===== verification/CustomFields.thy ===== *)
theory CustomFields
  imports Permissions Dates
begin

text \<open>
  Custom fields: their definitions and defaults, their configuration for projects, and the values an
  issue may carry (\<open>src/lib/custom-fields.ts\<close> and the routes \<open>custom-fields\<close>,
  \<open>custom-fields/[id]\<close> and \<open>projects/[key]/custom-fields\<close>). The parser of URLs is the parameter
  \<open>parse_url\<close>, which gives the protocol and the serialised address of a valid one.
\<close>

datatype field_type = TEXT | NUMBER | DATE | BOOLEAN | SINGLE_SELECT | MULTI_SELECT | USER | URL

fun field_type_name :: "field_type \<Rightarrow> string" where
  "field_type_name TEXT = ''TEXT''"
| "field_type_name NUMBER = ''NUMBER''"
| "field_type_name DATE = ''DATE''"
| "field_type_name BOOLEAN = ''BOOLEAN''"
| "field_type_name SINGLE_SELECT = ''SINGLE_SELECT''"
| "field_type_name MULTI_SELECT = ''MULTI_SELECT''"
| "field_type_name USER = ''USER''"
| "field_type_name URL = ''URL''"

definition CUSTOM_FIELD_TYPES :: "field_type list" where
  "CUSTOM_FIELD_TYPES = [TEXT, NUMBER, DATE, BOOLEAN, SINGLE_SELECT, MULTI_SELECT, USER, URL]"

record custom_field =
  cf_id :: string
  cf_workspaceId :: string
  cf_name :: string
  cf_description :: "string option"
  cf_type :: field_type
  cf_options :: js
  cf_default :: js
  cf_archivedAt :: "time option"

record field_config =
  fc_fieldId :: string
  fc_projectId :: string
  fc_required :: bool
  fc_issueTypeIds :: js
  fc_position :: int

record field_db =
  fd_core :: workspace_db
  fd_fields :: "custom_field list"
  fd_configs :: "field_config list"
  fd_audit :: "(string \<times> string) list"   \<comment> \<open>action and target\<close>

type_synonym url_parser = "string \<Rightarrow> (string \<times> string) option"

definition string_items :: "js \<Rightarrow> string list" where
  "string_items v = (case as_array v of None \<Rightarrow> [] | Some vs \<Rightarrow> strings_of vs)"

section \<open>Values of an issue\<close>

definition configuredForIssueType :: "field_config \<Rightarrow> string \<Rightarrow> bool" where
  "configuredForIssueType c issueTypeId = (let ids = string_items (fc_issueTypeIds c) in ids = [] \<or> issueTypeId \<in> set ids)"

text \<open>The member a \<open>USER\<close> field may name.\<close>

definition eligible_user :: "workspace_db \<Rightarrow> string \<Rightarrow> string \<Rightarrow> string \<Rightarrow> bool" where
  "eligible_user db wid pid uid \<longleftrightarrow>
     list_ex (\<lambda>m. wm_workspaceId m = wid \<and> wm_userId m = uid \<and> wm_deactivatedAt m = None) (db_workspaceMembers db)
   \<and> (list_ex (\<lambda>m. pm_userId m = uid \<and> pm_projectId m = pid) (db_projectMembers db)
      \<or> list_ex (\<lambda>m. wm_userId m = uid \<and> wm_workspaceId m = wid \<and> wm_role m \<in> {WOwner, WAdmin}) (db_workspaceMembers db))"

text \<open>\<open>normalizeValue\<close>; \<open>None\<close> is the final throw.\<close>

definition normalizeValue :: "url_parser \<Rightarrow> workspace_db \<Rightarrow> string \<Rightarrow> string \<Rightarrow> custom_field \<Rightarrow> js \<Rightarrow> js option" where
  "normalizeValue parse_url db wid pid f v =
     (let options = string_items (cf_options f) in
      case cf_type f of
        TEXT \<Rightarrow> (case v of JStr s \<Rightarrow> if length s \<le> 10000 then Some v else None | _ \<Rightarrow> None)
      | NUMBER \<Rightarrow> (case v of JNum (Fin _) \<Rightarrow> Some v | _ \<Rightarrow> None)
      | BOOLEAN \<Rightarrow> (case v of JBool _ \<Rightarrow> Some v | _ \<Rightarrow> None)
      | DATE \<Rightarrow> (case v of JStr s \<Rightarrow> if is_iso_date s \<and> parse_iso_date s \<noteq> None then Some v else None | _ \<Rightarrow> None)
      | URL \<Rightarrow> (case v of JStr s \<Rightarrow>
            if 2048 < length s then None
            else (case parse_url s of
                    Some (protocol, address) \<Rightarrow> if protocol \<in> {''http:'', ''https:''} then Some (JStr address) else None
                  | None \<Rightarrow> None)
          | _ \<Rightarrow> None)
      | SINGLE_SELECT \<Rightarrow> (case v of JStr s \<Rightarrow> if s \<in> set options then Some v else None | _ \<Rightarrow> None)
      | MULTI_SELECT \<Rightarrow> (case v of JArr vs \<Rightarrow>
            if list_all (\<lambda>w. case as_string w of Some s \<Rightarrow> s \<in> set options | None \<Rightarrow> False) vs \<and> length (uniq vs) = length vs
            then Some v else None
          | _ \<Rightarrow> None)
      | USER \<Rightarrow> (case v of JStr s \<Rightarrow> if eligible_user db wid pid s then Some v else None | _ \<Rightarrow> None))"

datatype field_error =
    Not_An_Object
  | Not_Configured string
  | Archived_Field string
  | Required_Field string
  | Type_Mismatch string field_type

definition field_of :: "field_db \<Rightarrow> field_config \<Rightarrow> custom_field option" where
  "field_of db c = find (\<lambda>f. cf_id f = fc_fieldId c) (fd_fields db)"

definition configurations :: "field_db \<Rightarrow> string \<Rightarrow> string \<Rightarrow> (field_config \<times> custom_field) list" where
  "configurations db wid pid =
     List.map_filter (\<lambda>c. case field_of db c of
         Some f \<Rightarrow> if fc_projectId c = pid \<and> cf_workspaceId f = wid then Some (c, f) else None
       | None \<Rightarrow> None) (sort_key fc_position (fd_configs db))"

definition applicable :: "field_db \<Rightarrow> string \<Rightarrow> string \<Rightarrow> string \<Rightarrow> (field_config \<times> custom_field) list" where
  "applicable db wid pid issueTypeId = filter (\<lambda>(c, _). configuredForIssueType c issueTypeId) (configurations db wid pid)"

definition is_blank :: "js \<Rightarrow> bool" where
  "is_blank v \<longleftrightarrow> v = JUndef \<or> v = JNull \<or> v = JStr [] \<or> v = JArr []"

definition check_key :: "(field_config \<times> custom_field) list \<Rightarrow> string \<Rightarrow> unit \<Rightarrow> (field_error, unit) result" where
  "check_key known i u =
     (case find (\<lambda>(_, f). cf_id f = i) known of
        None \<Rightarrow> Inl (Not_Configured i)
      | Some (_, f) \<Rightarrow> if cf_archivedAt f \<noteq> None then Inl (Archived_Field i) else Inr ())"

text \<open>\<open>hasOwnProperty ? supplied[id] : defaultValue\<close>\<close>

definition raw_value :: "jobj \<Rightarrow> custom_field \<Rightarrow> js" where
  "raw_value supplied f = (if cf_id f \<in> set (keys_of supplied) then field (cf_id f) supplied else cf_default f)"

definition write_field :: "url_parser \<Rightarrow> workspace_db \<Rightarrow> string \<Rightarrow> string \<Rightarrow> bool \<Rightarrow> jobj \<Rightarrow> field_config \<times> custom_field
    \<Rightarrow> (string \<times> js) list \<Rightarrow> (field_error, (string \<times> js) list) result" where
  "write_field parse_url db wid pid partial supplied = (\<lambda>(c, f) acc.
     (let raw = raw_value supplied f in
      if is_blank raw then (if \<not> partial \<and> fc_required c then Inl (Required_Field (cf_id f)) else Inr acc)
      else (case normalizeValue parse_url db wid pid f raw of
              None \<Rightarrow> Inl (Type_Mismatch (cf_id f) (cf_type f))
            | Some v \<Rightarrow> Inr (acc @ [(cf_id f, v)]))))"

definition validateCustomFieldWrites ::
    "url_parser \<Rightarrow> field_db \<Rightarrow> string \<Rightarrow> string \<Rightarrow> string \<Rightarrow> js \<Rightarrow> bool \<Rightarrow> (field_error, (string \<times> js) list) result" where
  "validateCustomFieldWrites parse_url db wid pid issueTypeId values partial =
     (case (if values = JUndef then Some [] else as_object values) of
        None \<Rightarrow> Inl Not_An_Object
      | Some supplied \<Rightarrow>
          (let known = applicable db wid pid issueTypeId in
           bind_result (fold_result (check_key known) (keys_of supplied) ()) (\<lambda>_.
           fold_result (write_field parse_url (fd_core db) wid pid partial supplied) known [])))"

section \<open>Definitions and defaults\<close>

datatype definition_error = Bad_Name | Bad_Description | Bad_Type | Bad_Options | Options_Not_Allowed | Bad_Default | No_Body

record field_definition =
  df_name :: string
  df_description :: "string option"
  df_type :: field_type
  df_options :: "string list"

definition parse_type :: "js \<Rightarrow> field_type option" where
  "parse_type v = find (\<lambda>t. v = JStr (field_type_name t)) CUSTOM_FIELD_TYPES"

definition validateFieldDefinition :: "jobj \<Rightarrow> (definition_error, field_definition) result" where
  "validateFieldDefinition input =
     (let name = trim (string_or_empty (field ''name'' input));
          description = map_option trim (as_string (field ''description'' input));
          ty = parse_type (field ''type'' input);
          options = (if field ''options'' input = JUndef then JArr [] else field ''options'' input)
      in if name = [] \<or> 100 < length name then Inl Bad_Name
         else if (case description of None \<Rightarrow> False | Some d \<Rightarrow> 500 < length d) then Inl Bad_Description
         else (case ty of
             None \<Rightarrow> Inl Bad_Type
           | Some t \<Rightarrow>
               (case as_array options of
                  None \<Rightarrow> Inl Bad_Options
                | Some vs \<Rightarrow>
                    if list_ex (\<lambda>v. case as_string v of None \<Rightarrow> True | Some s \<Rightarrow> trim s = [] \<or> 100 < length s) vs
                      \<or> length (uniq vs) \<noteq> length vs \<or> 100 < length vs then Inl Bad_Options
                    else if t \<notin> {SINGLE_SELECT, MULTI_SELECT} \<and> vs \<noteq> [] then Inl Options_Not_Allowed
                    else Inr \<lparr>df_name = name, df_description = description, df_type = t, df_options = strings_of vs\<rparr>)))"

definition validUrl :: "url_parser \<Rightarrow> js \<Rightarrow> bool" where
  "validUrl parse_url v =
     (case v of JStr s \<Rightarrow> (case parse_url s of Some (protocol, _) \<Rightarrow> protocol \<in> {''http:'', ''https:''} | None \<Rightarrow> False) | _ \<Rightarrow> False)"

definition validateDefault :: "url_parser \<Rightarrow> field_type \<Rightarrow> string list \<Rightarrow> js \<Rightarrow> bool" where
  "validateDefault parse_url ty options v \<longleftrightarrow>
     v = JUndef \<or> v = JNull \<or> v = JStr []
     \<or> (case ty of
          TEXT \<Rightarrow> as_string v \<noteq> None
        | NUMBER \<Rightarrow> (case v of JNum (Fin _) \<Rightarrow> True | _ \<Rightarrow> False)
        | BOOLEAN \<Rightarrow> (case v of JBool _ \<Rightarrow> True | _ \<Rightarrow> False)
        | DATE \<Rightarrow> (case v of JStr s \<Rightarrow> is_iso_date s | _ \<Rightarrow> False)
        | URL \<Rightarrow> validUrl parse_url v
        | SINGLE_SELECT \<Rightarrow> (case v of JStr s \<Rightarrow> s \<in> set options | _ \<Rightarrow> False)
        | MULTI_SELECT \<Rightarrow> (case v of JArr vs \<Rightarrow> list_all (\<lambda>w. case as_string w of Some s \<Rightarrow> s \<in> set options | None \<Rightarrow> False) vs | _ \<Rightarrow> False)
        | USER \<Rightarrow> as_string v \<noteq> None)"

text \<open>\<open>POST /api/custom-fields\<close>: the status of a refusal, or the new field and tables.\<close>

definition create_field :: "url_parser \<Rightarrow> string \<Rightarrow> auth_context option \<Rightarrow> jobj option \<Rightarrow> field_db \<Rightarrow> (nat, custom_field \<times> field_db) result" where
  "create_field parse_url new context body db =
     (case context of
        None \<Rightarrow> Inl 401
      | Some cx \<Rightarrow>
          if \<not> is_workspace_admin cx then Inl 403
          else (case body of
              None \<Rightarrow> Inl 400
            | Some b \<Rightarrow>
                (case validateFieldDefinition b of
                   Inl _ \<Rightarrow> Inl 400
                 | Inr d \<Rightarrow>
                     if \<not> validateDefault parse_url (df_type d) (df_options d) (field ''defaultValue'' b) then Inl 400
                     else if list_ex (\<lambda>f. cf_workspaceId f = cx_workspaceId cx \<and> cf_name f = df_name d) (fd_fields db) then Inl 409
                     else (let f = \<lparr>cf_id = new, cf_workspaceId = cx_workspaceId cx, cf_name = df_name d, cf_description = df_description d,
                                    cf_type = df_type d, cf_options = JArr (map JStr (df_options d)),
                                    cf_default = field ''defaultValue'' b, cf_archivedAt = None\<rparr>
                           in Inr (f, db\<lparr>fd_fields := fd_fields db @ [f], fd_audit := fd_audit db @ [(''custom_field.created'', new)]\<rparr>)))))"

text \<open>\<open>PATCH /api/custom-fields/[id]\<close>\<close>

definition patch_field :: "time \<Rightarrow> auth_context option \<Rightarrow> string \<Rightarrow> jobj \<Rightarrow> field_db \<Rightarrow> (nat, field_db) result" where
  "patch_field now context i body db =
     (case context of
        None \<Rightarrow> Inl 401
      | Some cx \<Rightarrow>
          if \<not> is_workspace_admin cx then Inl 403
          else (case find (\<lambda>f. cf_id f = i \<and> cf_workspaceId f = cx_workspaceId cx) (fd_fields db) of
              None \<Rightarrow> Inl 404
            | Some f \<Rightarrow>
                (let name = field ''name'' body; nm = trim (string_or_empty name);
                     desc = field ''description'' body; action = field ''action'' body
                 in if name \<noteq> JUndef \<and> (nm = [] \<or> 100 < length nm) then Inl 400
                    else if name = JUndef \<and> desc = JUndef \<and> action \<noteq> JStr ''archive'' \<and> action \<noteq> JStr ''restore'' then Inl 400
                    else if name \<noteq> JUndef \<and> list_ex (\<lambda>g. cf_id g \<noteq> i \<and> cf_workspaceId g = cx_workspaceId cx \<and> cf_name g = nm) (fd_fields db) then Inl 500
                    else (let g = f\<lparr>cf_name := (if name = JUndef then cf_name f else nm),
                                    cf_description := (if desc = JUndef then cf_description f else map_option (\<lambda>s. take 500 (trim s)) (as_string desc)),
                                    cf_archivedAt := (if action = JStr ''archive'' then Some now else if action = JStr ''restore'' then None else cf_archivedAt f)\<rparr>
                          in Inr (db\<lparr>fd_fields := map (\<lambda>h. if cf_id h = i then g else h) (fd_fields db),
                                     fd_audit := fd_audit db @ [(if action = JStr ''archive'' then ''custom_field.archived'' else ''custom_field.updated'', i)]\<rparr>)))))"

text \<open>\<open>PUT /api/projects/[key]/custom-fields\<close>\<close>

definition scope :: "workspace_db \<Rightarrow> auth_context option \<Rightarrow> string \<Rightarrow> (auth_context \<times> project) option" where
  "scope db context key =
     (case context of None \<Rightarrow> None | Some cx \<Rightarrow> map_option (\<lambda>p. (cx, p)) (getProjectForContext db cx key))"

definition put_configuration :: "auth_context option \<Rightarrow> string \<Rightarrow> jobj option \<Rightarrow> field_db \<Rightarrow> (nat, field_db) result" where
  "put_configuration context key body db =
     (case scope (fd_core db) context key of
        None \<Rightarrow> Inl 404
      | Some (cx, p) \<Rightarrow>
          if \<not> (is_workspace_admin cx \<or> project_role_of (fd_core db) (p_id p) (cx_userId cx) = Some PAdmin) then Inl 403
          else (case Option.bind body (\<lambda>b. as_string (field ''fieldId'' b)) of
              None \<Rightarrow> Inl 400
            | Some fid \<Rightarrow>
                (case find (\<lambda>f. cf_id f = fid \<and> cf_workspaceId f = cx_workspaceId cx \<and> cf_archivedAt f = None) (fd_fields db) of
                   None \<Rightarrow> Inl 404
                 | Some f \<Rightarrow>
                     (let b = the body;
                          others = filter (\<lambda>c. \<not> (fc_fieldId c = fid \<and> fc_projectId c = p_id p)) (fd_configs db);
                          ids = string_items (field ''issueTypeIds'' b)
                      in if field ''enabled'' b = JBool False then Inr (db\<lparr>fd_configs := others\<rparr>)
                         else if count_rows (\<lambda>t. it_projectId t = p_id p \<and> it_id t \<in> set ids) (db_issueTypes (fd_core db)) \<noteq> length ids then Inl 400
                         else if cf_type f = USER \<and> (case as_string (cf_default f) of None \<Rightarrow> False
                              | Some u \<Rightarrow> \<not> list_ex (\<lambda>m. wm_workspaceId m = cx_workspaceId cx \<and> wm_userId m = u \<and> wm_deactivatedAt m = None)
                                                  (db_workspaceMembers (fd_core db))) then Inl 400
                         else (let c = \<lparr>fc_fieldId = fid, fc_projectId = p_id p, fc_required = (field ''required'' b = JBool True),
                                        fc_issueTypeIds = JArr (map JStr ids),
                                        fc_position = (case as_integer (field ''position'' b) of Some n \<Rightarrow> n | None \<Rightarrow> 0)\<rparr>
                               in Inr (db\<lparr>fd_configs := others @ [c],
                                          fd_audit := fd_audit db @ [(''custom_field.configured'', p_id p)]\<rparr>))))))"

section \<open>What an accepted write contains\<close>

lemma check_keys: "fold_result (check_key known) ks u = Inr u' \<longleftrightarrow>
  (\<forall>i\<in>set ks. \<exists>c f. find (\<lambda>(_, f). cf_id f = i) known = Some (c, f) \<and> cf_archivedAt f = None)"
  by (induction ks arbitrary: u) (auto simp: check_key_def result_elims split: option.splits)

definition written :: "url_parser \<Rightarrow> workspace_db \<Rightarrow> string \<Rightarrow> string \<Rightarrow> jobj \<Rightarrow> (field_config \<times> custom_field) list \<Rightarrow> (string \<times> js) list" where
  "written parse_url db wid pid supplied known =
     List.map_filter (\<lambda>(c, f). if is_blank (raw_value supplied f) then None
        else map_option (\<lambda>v. (cf_id f, v)) (normalizeValue parse_url db wid pid f (raw_value supplied f))) known"

definition fits :: "url_parser \<Rightarrow> workspace_db \<Rightarrow> string \<Rightarrow> string \<Rightarrow> bool \<Rightarrow> jobj \<Rightarrow> field_config \<times> custom_field \<Rightarrow> bool" where
  "fits parse_url db wid pid partial supplied = (\<lambda>(c, f).
     if is_blank (raw_value supplied f) then partial \<or> \<not> fc_required c
     else normalizeValue parse_url db wid pid f (raw_value supplied f) \<noteq> None)"

lemma write_field_step: "write_field parse_url db wid pid partial supplied (c, f) acc = Inr acc' \<longleftrightarrow>
    fits parse_url db wid pid partial supplied (c, f) \<and> acc' = acc @ written parse_url db wid pid supplied [(c, f)]"
  by (auto simp: write_field_def fits_def written_def Let_def List.map_filter_simps split: option.splits)

lemma written_Cons: "written parse_url db wid pid supplied (k # known)
    = written parse_url db wid pid supplied [k] @ written parse_url db wid pid supplied known"
  by (auto simp: written_def List.map_filter_simps split: option.splits)

lemma write_fields: "fold_result (write_field parse_url db wid pid partial supplied) known acc = Inr vals \<longleftrightarrow>
  list_all (fits parse_url db wid pid partial supplied) known \<and> vals = acc @ written parse_url db wid pid supplied known"
proof (induction known arbitrary: acc)
  case (Cons k known)
  obtain c f where k: "k = (c, f)" by (cases k)
  show ?case
    by (auto simp: k Cons.IH write_field_step written_Cons [of _ _ _ _ _ "(c, f)" known] result_elims)
qed (auto simp: written_def List.map_filter_simps)

lemma writes_iff:
  "validateCustomFieldWrites parse_url db wid pid ty values partial = Inr vals \<longleftrightarrow>
     (\<exists>supplied. (values = JUndef \<and> supplied = [] \<or> values = JObj supplied)
        \<and> (\<forall>i\<in>set (keys_of supplied). \<exists>c f. find (\<lambda>(_, f). cf_id f = i) (applicable db wid pid ty) = Some (c, f) \<and> cf_archivedAt f = None)
        \<and> list_all (fits parse_url (fd_core db) wid pid partial supplied) (applicable db wid pid ty)
        \<and> vals = written parse_url (fd_core db) wid pid supplied (applicable db wid pid ty))"
  by (cases "values") (auto simp: validateCustomFieldWrites_def Let_def result_elims check_keys write_fields split: if_splits)

text \<open>
  Which writes of custom fields are accepted, and what they store. The supplied keys must name
  fields that are configured for the project and issue type and are not archived; every field so
  configured must hold a value of its type, or be blank and not required; and what is stored is, for
  each field that is not blank, the normalised value supplied or else its default.
\<close>

theorem custom_field_writes_exact:
  "validateCustomFieldWrites parse_url db wid pid ty values partial = Inr vals \<longleftrightarrow>
     (\<exists>supplied. (values = JUndef \<and> supplied = [] \<or> values = JObj supplied)
        \<and> (\<forall>i\<in>set (keys_of supplied). \<exists>c f. find (\<lambda>(_, f). cf_id f = i) (applicable db wid pid ty) = Some (c, f) \<and> cf_archivedAt f = None)
        \<and> list_all (fits parse_url (fd_core db) wid pid partial supplied) (applicable db wid pid ty)
        \<and> vals = written parse_url (fd_core db) wid pid supplied (applicable db wid pid ty))"
  by (rule writes_iff)

lemma written_member:
  assumes "(c, f) \<in> set known" and "\<not> is_blank (raw_value supplied f)"
    and "normalizeValue parse_url db wid pid f (raw_value supplied f) = Some v"
  shows "(cf_id f, v) \<in> set (written parse_url db wid pid supplied known)"
  using assms by (force simp: written_def List.map_filter_def)

text \<open>
  A partial write is not partial. It also stores the default of every field it does not mention,
  so editing one field of an issue silently resets each other field that has a default.
\<close>

theorem partial_write_resets_other_fields:
  assumes "validateCustomFieldWrites parse_url db wid pid ty (JObj supplied) True = Inr vals"
    and "(c, f) \<in> set (applicable db wid pid ty)" and "cf_id f \<notin> set (keys_of supplied)" and "\<not> is_blank (cf_default f)"
  shows "\<exists>v. normalizeValue parse_url (fd_core db) wid pid f (cf_default f) = Some v \<and> (cf_id f, v) \<in> set vals"
proof -
  have raw: "raw_value supplied f = cf_default f" using assms(3) by (simp add: raw_value_def)
  have vals: "vals = written parse_url (fd_core db) wid pid supplied (applicable db wid pid ty)"
    and fit: "list_all (fits parse_url (fd_core db) wid pid True supplied) (applicable db wid pid ty)"
    using assms(1) by (auto simp: writes_iff)
  from fit assms(2) have "fits parse_url (fd_core db) wid pid True supplied (c, f)" by (simp add: list_all_iff)
  with assms(4) raw obtain v where "normalizeValue parse_url (fd_core db) wid pid f (cf_default f) = Some v"
    by (auto simp: fits_def)
  with written_member [OF assms(2)] assms(4) raw vals show ?thesis by fastforce
qed

definition sample_field :: "string \<Rightarrow> js \<Rightarrow> custom_field" where
  "sample_field i d = \<lparr>cf_id = i, cf_workspaceId = ''w'', cf_name = i, cf_description = None, cf_type = TEXT,
     cf_options = JArr [], cf_default = d, cf_archivedAt = None\<rparr>"

definition sample_config :: "string \<Rightarrow> field_config" where
  "sample_config i = \<lparr>fc_fieldId = i, fc_projectId = ''p'', fc_required = False, fc_issueTypeIds = JArr [], fc_position = 0\<rparr>"

definition sample_core :: workspace_db where
  "sample_core =
     \<lparr>db_issues = [], db_projects = [], db_projectMembers = [], db_workspaceMembers = [], db_issueTypes = [], db_levels = [],
      db_statuses = [], db_securityLevels = [], db_schemeVersions = [], db_groups = [], db_activities = [], db_audit = []\<rparr>"

definition sample_fields :: field_db where
  "sample_fields = \<lparr>fd_core = sample_core, fd_fields = [sample_field ''a'' JNull, sample_field ''b'' (JStr ''later'')],
     fd_configs = [sample_config ''a'', sample_config ''b''], fd_audit = []\<rparr>"

lemma sample_write:
  "validateCustomFieldWrites (\<lambda>_. None) sample_fields ''w'' ''p'' ''t'' (JObj [(''a'', JStr ''x'')]) True
     = Inr [(''a'', JStr ''x''), (''b'', JStr ''later'')]"
  and sample_known: "applicable sample_fields ''w'' ''p'' ''t''
      = [(sample_config ''a'', sample_field ''a'' JNull), (sample_config ''b'', sample_field ''b'' (JStr ''later''))]"
proof -
  show known: "applicable sample_fields ''w'' ''p'' ''t''
      = [(sample_config ''a'', sample_field ''a'' JNull), (sample_config ''b'', sample_field ''b'' (JStr ''later''))]"
    by (simp add: applicable_def configurations_def sample_fields_def sample_config_def sample_field_def field_of_def
        configuredForIssueType_def string_items_def strings_of_def List.map_filter_simps Let_def)
  show "validateCustomFieldWrites (\<lambda>_. None) sample_fields ''w'' ''p'' ''t'' (JObj [(''a'', JStr ''x'')]) True
      = Inr [(''a'', JStr ''x''), (''b'', JStr ''later'')]"
    by (simp add: validateCustomFieldWrites_def known keys_of_def check_key_def write_field_def raw_value_def is_blank_def
        normalizeValue_def sample_field_def field_def Let_def)
qed

theorem custom_field_writes_exact_witness:
  "[(''a'', JStr ''x''), (''b'', JStr ''later'')]
     = written (\<lambda>_. None) (fd_core sample_fields) ''w'' ''p'' [(''a'', JStr ''x'')] (applicable sample_fields ''w'' ''p'' ''t'')"
  using sample_write unfolding custom_field_writes_exact by auto

theorem partial_write_resets_other_fields_witness:
  "\<exists>vals. validateCustomFieldWrites (\<lambda>_. None) sample_fields ''w'' ''p'' ''t'' (JObj [(''a'', JStr ''x'')]) True = Inr vals
     \<and> (''b'', JStr ''later'') \<in> set vals"
  using partial_write_resets_other_fields [OF sample_write, of "sample_config ''b''" "sample_field ''b'' (JStr ''later'')"]
    sample_write
  by (simp add: sample_known keys_of_def is_blank_def sample_field_def)

definition bad_date_body :: jobj where
  "bad_date_body = [(''name'', JStr ''due''), (''type'', JStr ''DATE''), (''defaultValue'', JStr ''2024-13-01'')]"

text \<open>
  A default is checked less strictly than a value. A date field may be created with a default of
  the right shape that is no date; from then on no write that leaves the field to its default passes,
  so no issue of a project with that field can be created without naming it.
\<close>

theorem invalid_default_blocks_writes:
  "\<exists>f db'. create_field parse_url ''f'' (Some \<lparr>cx_userId = ''amy'', cx_workspaceId = ''w'', cx_role = WOwner\<rparr>) (Some bad_date_body) sample_fields = Inr (f, db')
     \<and> (\<forall>db wid pid partial c. \<not> fits parse_url db wid pid partial [] (c, f))"
proof -
  let ?f = "\<lparr>cf_id = ''f'', cf_workspaceId = ''w'', cf_name = ''due'', cf_description = None, cf_type = DATE,
    cf_options = JArr [], cf_default = JStr ''2024-13-01'', cf_archivedAt = None\<rparr>"
  have iso: "is_iso_date ''2024-13-01''" by (simp add: is_iso_date_def is_digit_def of_char_def)
  have month: "parse_iso_date ''2024-13-01'' = None"
    by (simp add: parse_iso_date_def iso int_of_digits_def of_char_def Let_def)
  have "trim ''due'' = ''due''" by (simp add: trim_def trim_start_def is_space_def of_char_def)
  then have d: "validateFieldDefinition bad_date_body = Inr \<lparr>df_name = ''due'', df_description = None, df_type = DATE, df_options = []\<rparr>"
    by (simp add: validateFieldDefinition_def bad_date_body_def field_def string_or_empty_def parse_type_def CUSTOM_FIELD_TYPES_def
        strings_of_def List.map_filter_simps Let_def)
  have "field ''defaultValue'' bad_date_body = JStr ''2024-13-01''" by (simp add: bad_date_body_def field_def)
  with d iso have "\<exists>db'. create_field parse_url ''f'' (Some \<lparr>cx_userId = ''amy'', cx_workspaceId = ''w'', cx_role = WOwner\<rparr>)
      (Some bad_date_body) sample_fields = Inr (?f, db')"
    by (simp add: create_field_def is_workspace_admin_def validateDefault_def sample_fields_def sample_field_def Let_def)
  moreover have "\<not> fits parse_url db wid pid partial [] (c, ?f)" for db wid pid partial c
    by (simp add: fits_def raw_value_def keys_of_def is_blank_def normalizeValue_def month Let_def)
  ultimately show ?thesis by blast
qed

end
