(* ===== verification/IssueMapper.thy ===== *)
theory IssueMapper
  imports Store Dates "HOL-Library.Word"
begin

text \<open>
  The issue as the user interface receives it (\<open>src/lib/issue-mapper.ts\<close>), and the colours drawn from
  a 32-bit hash of a text. \<open>month_day\<close> is the date format of the host, a parameter.
\<close>

section \<open>Colours\<close>

text \<open>\<open>hash = (hash * 31 + character.charCodeAt(0)) | 0\<close>: arithmetic on 32-bit words.\<close>

definition string_hash :: "string \<Rightarrow> 32 word" where
  "string_hash s = foldl (\<lambda>h c. h * 31 + word_of_nat (of_char c)) 0 s"

text \<open>\<open>colors[Math.abs(hash) % colors.length]\<close>, with the hash read as a signed number.\<close>

definition pick_color :: "string list \<Rightarrow> string \<Rightarrow> string" where
  "pick_color colors s = colors ! (nat \<bar>sint (string_hash s)\<bar> mod length colors)"

definition avatar_colors :: "string list" where
  "avatar_colors = [''#7967e8'', ''#0b9f8d'', ''#dc6c56'', ''#3f7acb'', ''#b169a8'']"

definition label_colors :: "string list" where
  "label_colors = [''#6558d7'', ''#1f8f72'', ''#c56a43'', ''#3978b8'', ''#a14d85'']"

definition avatarColor :: "string \<Rightarrow> string" where "avatarColor s = pick_color avatar_colors s"
definition labelColor :: "string \<Rightarrow> string" where "labelColor s = pick_color label_colors s"

text \<open>
  The colour of a user or label is always one of the five of its palette, for names of any length:
  the hash wraps to 32 bits, the least number included, and the index stays in range.
\<close>

theorem colors_in_palette:
  "avatarColor s \<in> set avatar_colors \<and> labelColor s \<in> set label_colors
   \<and> nat \<bar>sint (string_hash s)\<bar> \<le> 2 ^ 31"
proof (intro conjI)
  have pick: "colors \<noteq> [] \<Longrightarrow> pick_color colors s \<in> set colors" for colors
    unfolding pick_color_def by (intro nth_mem) simp
  show "avatarColor s \<in> set avatar_colors" unfolding avatarColor_def by (rule pick) (simp add: avatar_colors_def)
  show "labelColor s \<in> set label_colors" unfolding labelColor_def by (rule pick) (simp add: label_colors_def)
  have "- (2 ^ 31) \<le> sint (string_hash s)" "sint (string_hash s) < 2 ^ 31"
    using sint_ge [of "string_hash s"] sint_lt [of "string_hash s"] by simp_all
  then show "nat \<bar>sint (string_hash s)\<bar> \<le> 2 ^ 31"
    by (simp add: nat_le_iff abs_le_iff)
qed

section \<open>The mapping\<close>

record user_info =
  ui_id :: string
  ui_name :: string

record field_value =
  fv_fieldId :: string
  fv_name :: string
  fv_type :: string
  fv_value :: js
  fv_options :: js
  fv_archivedAt :: "time option"

record release_info =
  ri_id :: string
  ri_name :: string
  ri_status :: string
  ri_archivedAt :: "time option"
  ri_releasedAt :: "time option"

text \<open>\<open>IssueRecord\<close>: the row with what it is joined to.\<close>

record issue_record =
  ir_issue :: issue
  ir_assignee :: "user_info option"
  ir_reporter :: user_info
  ir_typeName :: string
  ir_statusName :: string
  ir_labels :: "string list"
  ir_comments :: nat
  ir_attachments :: nat
  ir_sprints :: "(string \<times> string) list"
  ir_releases :: "release_info list"
  ir_fieldValues :: "field_value list"
  ir_level :: "(string \<times> string \<times> string \<times> int) option"   \<comment> \<open>id, name, colour, position\<close>

record ui_person =
  pe_id :: string
  pe_name :: string
  pe_initials :: string
  pe_color :: string

record ui_field =
  uf_name :: string
  uf_type :: string
  uf_value :: js
  uf_options :: "string list"
  uf_archived :: bool

record ui_issue =
  ux_id :: string
  ux_key :: string
  ux_title :: string
  ux_description :: string
  ux_status :: string
  ux_priority :: string
  ux_type :: string
  ux_level :: "(string \<times> string \<times> string \<times> int) option"
  ux_assignee :: "ui_person option"
  ux_points :: "int option"
  ux_labels :: "string list"
  ux_due :: "string option"
  ux_dueDate :: "string option"
  ux_comments :: nat
  ux_attachments :: nat
  ux_reporter :: ui_person
  ux_sprint :: "(string \<times> string) option"
  ux_releases :: "(string \<times> string \<times> string \<times> bool \<times> string option) list"
  ux_createdAt :: string
  ux_updatedAt :: string
  ux_version :: int
  ux_customFields :: "(string \<times> ui_field) list"

fun priority_label :: "priority \<Rightarrow> string" where
  "priority_label Urgent = ''Urgent''"
| "priority_label High = ''High''"
| "priority_label Medium = ''Medium''"
| "priority_label Low = ''Low''"

text \<open>\<open>name.split(/\s+/).map((part) => part[0]).join("").slice(0, 2).toUpperCase()\<close>\<close>

fun split_words :: "string \<Rightarrow> string list" where
  "split_words [] = [[]]"
| "split_words (c # cs) =
     (if is_space c then (if cs \<noteq> [] \<and> is_space (hd cs) then split_words cs else [] # split_words cs)
      else (case split_words cs of [] \<Rightarrow> [[c]] | p # ps \<Rightarrow> (c # p) # ps))"

definition initials :: "string \<Rightarrow> string" where
  "initials name = to_upper (take 2 (concat (map (take 1) (split_words name))))"

definition ui_person_of :: "user_info \<Rightarrow> ui_person" where
  "ui_person_of u = \<lparr>pe_id = ui_id u, pe_name = ui_name u, pe_initials = initials (ui_name u), pe_color = avatarColor (ui_id u)\<rparr>"

definition ui_field_of :: "field_value \<Rightarrow> ui_field" where
  "ui_field_of v = \<lparr>uf_name = fv_name v, uf_type = fv_type v, uf_value = fv_value v,
     uf_options = (case as_array (fv_options v) of None \<Rightarrow> [] | Some vs \<Rightarrow> strings_of vs), uf_archived = (fv_archivedAt v \<noteq> None)\<rparr>"

definition toUiIssue :: "(time \<Rightarrow> string) \<Rightarrow> issue_record \<Rightarrow> string \<Rightarrow> ui_issue" where
  "toUiIssue month_day r projectKey =
     (let i = ir_issue r in
      \<lparr>ux_id = i_id i,
       ux_key = projectKey @ ''-'' @ digits_of_nat (i_number i),
       ux_title = i_summary i,
       ux_description = (case as_string (i_description i) of Some s \<Rightarrow> s | None \<Rightarrow> ''No description yet.''),
       ux_status = ir_statusName r,
       ux_priority = priority_label (i_priority i),
       ux_type = ir_typeName r,
       ux_level = ir_level r,
       ux_assignee = map_option ui_person_of (ir_assignee r),
       ux_points = i_estimate i,
       ux_labels = ir_labels r,
       ux_due = map_option month_day (i_dueDate i),
       ux_dueDate = map_option iso_date (i_dueDate i),
       ux_comments = ir_comments r,
       ux_attachments = ir_attachments r,
       ux_reporter = ui_person_of (ir_reporter r),
       ux_sprint = (case ir_sprints r of [] \<Rightarrow> None | s # _ \<Rightarrow> Some s),
       ux_releases = map (\<lambda>l. (ri_id l, ri_name l, ri_status l, ri_archivedAt l \<noteq> None, map_option iso_string (ri_releasedAt l))) (ir_releases r),
       ux_createdAt = iso_string (i_createdAt i),
       ux_updatedAt = iso_string (i_updatedAt i),
       ux_version = i_version i,
       ux_customFields = map (\<lambda>v. (fv_fieldId v, ui_field_of v)) (ir_fieldValues r)\<rparr>)"

end
