(* ===== verification/Issues.thy ===== *)
theory Issues
  imports Workflow CustomFields Outbox IssueMapper
begin

text \<open>
  Issues: listing and creating them (\<open>src/app/api/issues/route.ts\<close>), editing and deleting one
  (\<open>src/app/api/issues/[id]/route.ts\<close>). A handler first reads and validates outside any transaction and
  then commits in one; the two phases are separate definitions, so that those of concurrent requests
  can interleave. A refusal is its HTTP status; an uncaught throw is 500.
\<close>

section \<open>The tables\<close>

record label_row =
  lb_id :: string
  lb_workspaceId :: string
  lb_name :: string
  lb_color :: string

record history_row =
  hi_issueId :: string
  hi_event :: string
  hi_category :: "status_category option"
  hi_estimate :: "int option"

record tracker =
  tk_core :: workspace_db
  tk_config :: outbox_config
  tk_fields :: "custom_field list"
  tk_fieldConfigs :: "field_config list"
  tk_values :: "(string \<times> string \<times> js) list"        \<comment> \<open>field, issue, value\<close>
  tk_transitions :: "transition list"
  tk_boards :: "board list"
  tk_columns :: "board_column list"
  tk_labels :: "label_row list"
  tk_issueLabels :: "(string \<times> string) list"          \<comment> \<open>issue, label\<close>
  tk_watchers :: "(string \<times> string) list"             \<comment> \<open>issue, user\<close>
  tk_comments :: "(string \<times> string \<times> string) list"  \<comment> \<open>issue, author, text\<close>
  tk_history :: "history_row list"
  tk_requests :: "(string \<times> string) list"             \<comment> \<open>issue, request type\<close>
  tk_outbox :: outbox

definition field_db_of :: "tracker \<Rightarrow> field_db" where
  "field_db_of tk = \<lparr>fd_core = tk_core tk, fd_fields = tk_fields tk, fd_configs = tk_fieldConfigs tk, fd_audit = []\<rparr>"

definition first_by :: "('r \<Rightarrow> 'k::linorder) \<Rightarrow> ('r \<Rightarrow> bool) \<Rightarrow> 'r list \<Rightarrow> 'r option" where
  "first_by key P rows = (case sort_key key (filter P rows) of [] \<Rightarrow> None | r # _ \<Rightarrow> Some r)"

definition status_row :: "tracker \<Rightarrow> string \<Rightarrow> status option" where
  "status_row tk i = find (\<lambda>s. st_id s = i) (db_statuses (tk_core tk))"

definition issue_row :: "tracker \<Rightarrow> string \<Rightarrow> issue option" where
  "issue_row tk i = find (\<lambda>x. i_id x = i) (db_issues (tk_core tk))"

definition user_exists :: "tracker \<Rightarrow> string \<Rightarrow> bool" where
  "user_exists tk u \<longleftrightarrow> list_ex (\<lambda>x. us_id x = u) (oc_users (tk_config tk))"

definition in_project :: "tracker \<Rightarrow> string \<Rightarrow> string \<Rightarrow> bool" where
  "in_project tk pid u \<longleftrightarrow> list_ex (\<lambda>m. pm_userId m = u \<and> pm_projectId m = pid) (db_projectMembers (tk_core tk))"

text \<open>The users a text mentions: members of the workspace, and of the project unless it is public.\<close>

definition mentioned :: "tracker \<Rightarrow> project \<Rightarrow> string \<Rightarrow> string list" where
  "mentioned tk p text =
     map us_id (filter (\<lambda>u. to_lower (us_email u) \<in> set (mentionedEmails text)
        \<and> list_ex (\<lambda>m. wm_workspaceId m = p_workspaceId p \<and> wm_userId m = us_id u) (db_workspaceMembers (tk_core tk))
        \<and> (in_project tk (p_id p) (us_id u) \<or> p_visibility p = Public)) (oc_users (tk_config tk)))"

definition issue_key :: "project \<Rightarrow> nat \<Rightarrow> string" where
  "issue_key p n = p_key p @ ''-'' @ digits_of_nat n"

section \<open>Listing\<close>

text \<open>\<open>/^WEB-(\d+)$/i\<close>\<close>

definition web_number :: "string \<Rightarrow> nat option" where
  "web_number q = (if to_upper (take 4 q) = ''WEB-'' \<and> drop 4 q \<noteq> [] \<and> list_all is_digit (drop 4 q)
     then Some (digits_value 0 (drop 4 q)) else None)"

definition matches_search :: "string \<Rightarrow> issue \<Rightarrow> bool" where
  "matches_search q i \<longleftrightarrow> contains_text (to_lower q) (to_lower (i_summary i)) \<or> web_number q = Some (i_number i)"

definition status_position :: "tracker \<Rightarrow> issue \<Rightarrow> int" where
  "status_position tk i = (case status_row tk (i_statusId i) of Some s \<Rightarrow> st_position s | None \<Rightarrow> 0)"

definition issues_GET :: "tracker \<Rightarrow> auth_context option \<Rightarrow> string option \<Rightarrow> string option \<Rightarrow> string option \<Rightarrow> (nat, issue list) result" where
  "issues_GET tk context projectKey q requestTypeId =
     (case context of
        None \<Rightarrow> Inl 401
      | Some cx \<Rightarrow>
          (case getProjectForContext (tk_core tk) cx (case projectKey of Some k \<Rightarrow> k | None \<Rightarrow> ''WEB'') of
             None \<Rightarrow> Inl 500
           | Some p \<Rightarrow>
               if \<not> requireProjectPermission (tk_core tk) cx (p_id p) Issue_View then Inr []
               else (let query = (case q of Some s \<Rightarrow> trim s | None \<Rightarrow> []);
                         request = (case requestTypeId of Some s \<Rightarrow> trim s | None \<Rightarrow> []);
                         rows = filter (\<lambda>i. i_workspaceId i = p_workspaceId p \<and> i_projectId i = p_id p \<and> i_parentId i = None
                           \<and> i_archivedAt i = None \<and> issueSecurityWhere (tk_core tk) cx (Some [p_id p]) i
                           \<and> (query = [] \<or> matches_search query i)
                           \<and> (request = [] \<or> (i_id i, request) \<in> set (tk_requests tk))) (db_issues (tk_core tk))
                     in Inr (sort_key (status_position tk) (sort_key i_rank rows)))))"

section \<open>Creating\<close>

record create_plan =
  cp_actor :: string
  cp_project :: project
  cp_status :: status
  cp_typeId :: string
  cp_levelId :: "string option"
  cp_assigneeId :: "string option"
  cp_title :: string
  cp_description :: string
  cp_priority :: priority
  cp_mentions :: "string list"
  cp_fields :: js

definition find_level :: "tracker \<Rightarrow> string \<Rightarrow> js \<Rightarrow> hierarchy_level option" where
  "find_level tk wid v =
     (case as_string v of
        None \<Rightarrow> None
      | Some l \<Rightarrow> find (\<lambda>h. hl_id h = l \<and> hl_workspaceId h = wid \<and> hl_archivedAt h = None) (db_levels (tk_core tk)))"

definition pick_type :: "tracker \<Rightarrow> string \<Rightarrow> js \<Rightarrow> issue_type option" where
  "pick_type tk pid v =
     (case as_string v of
        Some t \<Rightarrow> find (\<lambda>x. it_projectId x = pid \<and> it_id x = t) (db_issueTypes (tk_core tk))
      | None \<Rightarrow> first_by it_position (\<lambda>x. it_projectId x = pid) (db_issueTypes (tk_core tk)))"

definition pick_assignee :: "tracker \<Rightarrow> string \<Rightarrow> js \<Rightarrow> string option" where
  "pick_assignee tk pid v =
     Option.bind (as_string v) (\<lambda>a. map_option us_id
       (find (\<lambda>u. (us_id u = a \<or> us_email u = a @ ''@planeo.co'') \<and> in_project tk pid (us_id u)) (oc_users (tk_config tk))))"

definition create_check :: "tracker \<Rightarrow> auth_context option \<Rightarrow> jobj \<Rightarrow> (nat, create_plan) result" where
  "create_check tk context body =
     (case context of
        None \<Rightarrow> Inl 401
      | Some cx \<Rightarrow>
          (let title = trim (string_or_empty (field ''title'' body));
               description = trim (string_or_empty (field ''description'' body));
               level_field = field ''hierarchyLevelId'' body
           in if title = [] \<or> 200 < length title then Inl 400
              else (case getProjectForContext (tk_core tk) cx (case as_string (field ''projectKey'' body) of Some k \<Rightarrow> k | None \<Rightarrow> ''WEB'') of
                  None \<Rightarrow> Inl 500
                | Some p \<Rightarrow>
                    if \<not> requireProjectPermission (tk_core tk) cx (p_id p) Issue_Create then Inl 404
                    else (case (first_by st_position (\<lambda>s. st_projectId s = p_id p) (db_statuses (tk_core tk)),
                                pick_type tk (p_id p) (field ''issueTypeId'' body)) of
                        (Some s, Some t) \<Rightarrow>
                          (let level = find_level tk (p_workspaceId p) level_field;
                               requested = (case as_string (field ''priority'' body) of Some x \<Rightarrow> to_upper x | None \<Rightarrow> priority_name (p_defaultPriority p))
                           in if level_field \<noteq> JUndef \<and> (level = None \<or> \<not> it_isEpic t) then Inl 400
                              else Inr \<lparr>cp_actor = cx_userId cx, cp_project = p, cp_status = s, cp_typeId = it_id t, cp_levelId = map_option hl_id level,
                                        cp_assigneeId = pick_assignee tk (p_id p) (field ''assigneeId'' body), cp_title = title, cp_description = description,
                                        cp_priority = (case parse_priority requested of Some x \<Rightarrow> x | None \<Rightarrow> p_defaultPriority p),
                                        cp_mentions = mentioned tk p description, cp_fields = field ''customFields'' body\<rparr>)
                      | _ \<Rightarrow> Inl 500))))"

text \<open>\<open>Date.now().toString(36)\<close>\<close>

fun base36 :: "nat \<Rightarrow> string" where
  "base36 n =
     (let d = n mod 36; c = [char_of (if d < 10 then 48 + d else 87 + d)]
      in if n < 36 then c else base36 (n div 36) @ c)"

declare base36.simps [simp del]

definition announce :: "string \<Rightarrow> project \<Rightarrow> string \<Rightarrow> string \<Rightarrow> string \<Rightarrow> js \<Rightarrow> js \<Rightarrow> js \<Rightarrow> tracker \<Rightarrow> tracker" where
  "announce webhook p event eventId issueId data payload live tk =
     (let wid = p_workspaceId p; pid = Some (p_id p)
      in tk\<lparr>tk_outbox :=
           publishRealtime \<lparr>re_workspaceId = wid, re_projectId = pid, re_type = event, re_resourceId = issueId, re_payload = live\<rparr>
             (enqueueAutomation (tk_config tk) wid pid event eventId payload 0
               (enqueueWebhook (tk_core tk) (tk_config tk) wid pid webhook eventId data (tk_outbox tk)))\<rparr>)"

definition tell :: "project \<Rightarrow> issue \<Rightarrow> string \<Rightarrow> string \<Rightarrow> string \<Rightarrow> string list \<Rightarrow> tracker \<Rightarrow> tracker" where
  "tell p i actor activity type recipients tk =
     tk\<lparr>tk_outbox := createIssueNotifications (tk_core tk) (tk_config tk)
          \<lparr>ni_workspaceId = p_workspaceId p, ni_issueId = i_id i, ni_issueKey = issue_key p (i_number i), ni_issueTitle = i_summary i,
           ni_actorId = actor, ni_eventId = activity, ni_type = type, ni_recipientIds = recipients\<rparr> (tk_outbox tk)\<rparr>"

definition new_issue :: "create_plan \<Rightarrow> string \<Rightarrow> nat \<Rightarrow> time \<Rightarrow> issue" where
  "new_issue cp i number now =
     \<lparr>i_id = i, i_workspaceId = p_workspaceId (cp_project cp), i_projectId = p_id (cp_project cp), i_number = number,
      i_issueTypeId = cp_typeId cp, i_statusId = st_id (cp_status cp), i_reporterId = cp_actor cp, i_assigneeId = cp_assigneeId cp,
      i_parentId = None, i_hierarchyLevelId = cp_levelId cp, i_summary = cp_title cp, i_description = JStr (cp_description cp),
      i_resolution = None, i_priority = cp_priority cp, i_estimate = None, i_dueDate = None, i_completedAt = None, i_archivedAt = None,
      i_version = 1, i_securityLevelId = None, i_rank = ''a'' @ base36 (nat now), i_createdAt = now, i_updatedAt = now\<rparr>"

text \<open>
  The transaction: the sequence of the project is incremented and its new value becomes the number. A
  status, type or assignee that has gone meanwhile violates its foreign key.
\<close>

definition create_commit :: "url_parser \<Rightarrow> (nat \<Rightarrow> string) \<Rightarrow> time \<Rightarrow> create_plan \<Rightarrow> tracker \<Rightarrow> (nat, tracker) result" where
  "create_commit parse_url new now cp tk =
     (let p = cp_project cp; core = tk_core tk in
      case validateCustomFieldWrites parse_url (field_db_of tk) (p_workspaceId p) (p_id p) (cp_typeId cp) (cp_fields cp) False of
        Inl _ \<Rightarrow> Inl 400
      | Inr values \<Rightarrow>
          (case find (\<lambda>q. p_id q = p_id p) (db_projects core) of
             None \<Rightarrow> Inl 400
           | Some current \<Rightarrow>
               if \<not> list_ex (\<lambda>s. st_id s = st_id (cp_status cp)) (db_statuses core)
                 \<or> \<not> list_ex (\<lambda>t. it_id t = cp_typeId cp) (db_issueTypes core)
                 \<or> list_ex (\<lambda>x. i_id x = new 0) (db_issues core) then Inl 400
               else
                (let number = p_issueSequence current + 1;
                     i = new_issue cp (new 0) number now;
                     act = \<lparr>ac_issueId = new 0, ac_actorId = Some (cp_actor cp), ac_action = ''issue.created'', ac_changes = JUndef\<rparr>;
                     core' = core\<lparr>db_projects := map (\<lambda>q. if p_id q = p_id p then q\<lparr>p_issueSequence := p_issueSequence q + 1\<rparr> else q) (db_projects core),
                                  db_issues := db_issues core @ [i], db_activities := db_activities core @ [act]\<rparr>;
                     stored = tk\<lparr>tk_core := core', tk_values := tk_values tk @ map (\<lambda>(f, v). (f, new 0, v)) values,
                                 tk_history := tk_history tk @ [\<lparr>hi_issueId = new 0, hi_event = ''CREATED'', hi_category = Some (st_category (cp_status cp)), hi_estimate = None\<rparr>]\<rparr>;
                     told = announce ''issue.created'' p ''issue.created'' (''issue.created:'' @ new 0) (new 0)
                       (JObj [(''id'', JStr (new 0)), (''key'', JStr (issue_key p number)), (''version'', JInt 1)])
                       (JObj [(''issueId'', JStr (new 0)), (''projectId'', JStr (p_id p)), (''statusId'', JStr (i_statusId i)), (''priority'', JStr (priority_name (i_priority i)))])
                       (JObj [(''id'', JStr (new 0)), (''version'', JInt 1)]) stored;
                     assigned = (case i_assigneeId i of None \<Rightarrow> told | Some a \<Rightarrow> tell p i (cp_actor cp) (new 1) ''ASSIGNED'' [a] told)
                 in Inr (tell p i (cp_actor cp) (new 1) ''MENTIONED'' (cp_mentions cp) assigned))))"

section \<open>Editing: what is validated outside the transaction\<close>

text \<open>The columns to write: \<open>None\<close> leaves a column, \<open>Some None\<close> writes a null.\<close>

record issue_data =
  d_statusId :: "string option"
  d_summary :: "string option"
  d_description :: "string option"
  d_resolution :: "string option option"
  d_priority :: "priority option"
  d_estimate :: "int option option"
  d_assigneeId :: "string option option"
  d_dueDate :: "time option option"
  d_completedAt :: "time option option"
  d_hierarchyLevelId :: "string option option"

definition no_data :: issue_data where
  "no_data = \<lparr>d_statusId = None, d_summary = None, d_description = None, d_resolution = None, d_priority = None, d_estimate = None,
     d_assigneeId = None, d_dueDate = None, d_completedAt = None, d_hierarchyLevelId = None\<rparr>"

definition from_to :: "js \<Rightarrow> js \<Rightarrow> js" where
  "from_to a b = JObj [(''from'', a), (''to'', b)]"

definition js_option :: "('a \<Rightarrow> js) \<Rightarrow> 'a option \<Rightarrow> js" where
  "js_option f v = (case v of None \<Rightarrow> JNull | Some x \<Rightarrow> f x)"

type_synonym edits = "issue_data \<times> jobj"   \<comment> \<open>the columns and the \<open>changes\<close> of the activity\<close>

definition edit_status :: "tracker \<Rightarrow> string \<Rightarrow> time \<Rightarrow> issue \<Rightarrow> jobj \<Rightarrow> edits \<Rightarrow> (nat, edits) result" where
  "edit_status tk pid now i body = (\<lambda>(d, ch).
     (case field ''status'' body of
        JUndef \<Rightarrow> Inr (d, ch)
      | JStr name \<Rightarrow>
          (case find (\<lambda>s. st_projectId s = pid \<and> st_name s = name) (db_statuses (tk_core tk)) of
             None \<Rightarrow> Inl 400
           | Some s \<Rightarrow> Inr (d\<lparr>d_statusId := Some (st_id s), d_completedAt := Some (if st_category s = Done then Some now else None)\<rparr>,
                            ch @ [(''status'', from_to (JStr (i_statusId i)) (JStr (st_id s)))]))
      | _ \<Rightarrow> Inl 400))"

definition edit_resolution :: "issue \<Rightarrow> jobj \<Rightarrow> edits \<Rightarrow> (nat, edits) result" where
  "edit_resolution i body = (\<lambda>(d, ch).
     (let v = field ''resolution'' body; r = trim (string_or_empty v); new = (if r = [] then None else Some r)
      in if v = JUndef then Inr (d, ch)
         else if 200 < length r then Inl 400
         else Inr (d\<lparr>d_resolution := Some new\<rparr>, ch @ [(''resolution'', from_to (js_option JStr (i_resolution i)) (js_option JStr new))])))"

definition edit_title :: "issue \<Rightarrow> jobj \<Rightarrow> edits \<Rightarrow> (nat, edits) result" where
  "edit_title i body = (\<lambda>(d, ch).
     (let v = field ''title'' body; t = trim (string_or_empty v)
      in if v = JUndef then Inr (d, ch)
         else if t = [] \<or> 200 < length t then Inl 400
         else Inr (d\<lparr>d_summary := Some t\<rparr>, ch @ [(''title'', from_to (JStr (i_summary i)) (JStr t))])))"

definition edit_description :: "jobj \<Rightarrow> edits \<Rightarrow> (nat, edits) result" where
  "edit_description body = (\<lambda>(d, ch).
     (let v = field ''description'' body; t = trim (string_or_empty v)
      in if v = JUndef then Inr (d, ch)
         else if 20000 < length t then Inl 400
         else Inr (d\<lparr>d_description := Some t\<rparr>, ch @ [(''description'', JBool True)])))"

definition edit_priority :: "issue \<Rightarrow> jobj \<Rightarrow> edits \<Rightarrow> (nat, edits) result" where
  "edit_priority i body = (\<lambda>(d, ch).
     (let v = field ''priority'' body
      in if v = JUndef then Inr (d, ch)
         else (case parse_priority (to_upper (string_or_empty v)) of
                 None \<Rightarrow> Inl 400
               | Some p \<Rightarrow> Inr (d\<lparr>d_priority := Some p\<rparr>,
                    ch @ [(''priority'', from_to (JStr (priority_name (i_priority i))) (JStr (priority_name p)))]))))"

definition edit_estimate :: "issue \<Rightarrow> jobj \<Rightarrow> edits \<Rightarrow> (nat, edits) result" where
  "edit_estimate i body = (\<lambda>(d, ch).
     (let v = field ''estimate'' body
      in if v = JUndef then Inr (d, ch)
         else if v \<noteq> JNull \<and> (case as_integer v of None \<Rightarrow> True | Some n \<Rightarrow> n < 0 \<or> 100 < n) then Inl 400
         else Inr (d\<lparr>d_estimate := Some (as_integer v)\<rparr>, ch @ [(''estimate'', from_to (js_option JInt (i_estimate i)) v)])))"

definition edit_assignee :: "tracker \<Rightarrow> string \<Rightarrow> issue \<Rightarrow> jobj \<Rightarrow> edits \<Rightarrow> (nat, edits) result" where
  "edit_assignee tk pid i body = (\<lambda>(d, ch).
     (let v = field ''assigneeId'' body; write = Inr (d\<lparr>d_assigneeId := Some (as_string v)\<rparr>,
            ch @ [(''assignee'', from_to (js_option JStr (i_assigneeId i)) v)])
      in case v of
           JUndef \<Rightarrow> Inr (d, ch)
         | JNull \<Rightarrow> write
         | JStr u \<Rightarrow> if in_project tk pid u then write else Inl 400
         | _ \<Rightarrow> Inl 400))"

definition edit_due :: "issue \<Rightarrow> jobj \<Rightarrow> edits \<Rightarrow> (nat, edits) result" where
  "edit_due i body = (\<lambda>(d, ch).
     (let v = field ''dueDate'' body;
          write = (\<lambda>t. Inr (d\<lparr>d_dueDate := Some t\<rparr>, ch @ [(''dueDate'', from_to (js_option (\<lambda>x. JStr (iso_string x)) (i_dueDate i))
             (js_option (\<lambda>x. JStr (iso_string x)) t))]))
      in case v of
           JUndef \<Rightarrow> Inr (d, ch)
         | JNull \<Rightarrow> write None
         | JStr s \<Rightarrow>
             if s = [] then write None
             else (case parse_iso_date s of None \<Rightarrow> Inl 400 | Some t \<Rightarrow> write (Some (t + 12 * 3600000)))
         | _ \<Rightarrow> Inl 400))"

definition edit_level :: "tracker \<Rightarrow> string \<Rightarrow> issue \<Rightarrow> jobj \<Rightarrow> edits \<Rightarrow> (nat, edits) result" where
  "edit_level tk wid i body = (\<lambda>(d, ch).
     (let v = field ''hierarchyLevelId'' body;
          level = find_level tk wid v;
          epic = (case find (\<lambda>t. it_id t = i_issueTypeId i) (db_issueTypes (tk_core tk)) of Some t \<Rightarrow> it_isEpic t | None \<Rightarrow> False)
      in if v = JUndef then Inr (d, ch)
         else if v \<noteq> JNull \<and> as_string v = None then Inl 400
         else if truthy v \<and> (level = None \<or> \<not> epic) then Inl 400
         else Inr (d\<lparr>d_hierarchyLevelId := Some (map_option hl_id level)\<rparr>,
                   ch @ [(''hierarchyLevelId'', from_to (js_option JStr (i_hierarchyLevelId i)) (js_option (\<lambda>l. JStr (hl_id l)) level))])))"

definition edit_labels :: "jobj \<Rightarrow> (nat, string list option) result" where
  "edit_labels body =
     (case field ''labels'' body of
        JUndef \<Rightarrow> Inr None
      | JArr vs \<Rightarrow>
          if \<not> all_strings vs then Inl 400
          else (let names = uniq (filter (\<lambda>l. l \<noteq> []) (map trim (strings_of vs)))
                in if 10 < length names \<or> list_ex (\<lambda>l. 50 < length l) names then Inl 400 else Inr (Some names))
      | _ \<Rightarrow> Inl 400)"

definition edits_of :: "tracker \<Rightarrow> project \<Rightarrow> string \<Rightarrow> time \<Rightarrow> issue \<Rightarrow> jobj \<Rightarrow> (nat, edits) result" where
  "edits_of tk p wid now i body =
     bind_result (edit_status tk (p_id p) now i body (no_data, [])) (\<lambda>e.
     bind_result (edit_resolution i body e) (\<lambda>e.
     bind_result (edit_title i body e) (\<lambda>e.
     bind_result (edit_description body e) (\<lambda>e.
     bind_result (edit_priority i body e) (\<lambda>e.
     bind_result (edit_estimate i body e) (\<lambda>e.
     bind_result (edit_assignee tk (p_id p) i body e) (\<lambda>e.
     bind_result (edit_due i body e) (\<lambda>e. edit_level tk wid i body e))))))))"

record edit_plan =
  ep_context :: auth_context
  ep_project :: project
  ep_role :: "project_role option"
  ep_existing :: issue
  ep_data :: issue_data
  ep_changes :: jobj
  ep_labels :: "string list option"
  ep_fields :: js
  ep_mentions :: "string list"
  ep_watchers :: "string list"

definition patch_check :: "tracker \<Rightarrow> time \<Rightarrow> auth_context option \<Rightarrow> string \<Rightarrow> jobj \<Rightarrow> (nat, edit_plan) result" where
  "patch_check tk now context i body =
     (case context of
        None \<Rightarrow> Inl 401
      | Some cx \<Rightarrow>
          (case find_issue (tk_core tk) cx i of
             None \<Rightarrow> Inl 404
           | Some x \<Rightarrow>
               if \<not> canViewIssue (tk_core tk) cx i then Inl 404
               else (case Option.bind (find (\<lambda>q. p_id q = i_projectId x) (db_projects (tk_core tk)))
                            (\<lambda>q. getProjectForContext (tk_core tk) cx (p_key q)) of
                   None \<Rightarrow> Inl 500
                 | Some p \<Rightarrow>
                     if \<not> requireProjectPermission (tk_core tk) cx (p_id p) Issue_Edit then Inl 404
                     else if i_workspaceId x \<noteq> p_workspaceId p \<or> i_projectId x \<noteq> p_id p then Inl 404
                     else if field ''version'' body \<noteq> JUndef \<and> as_integer (field ''version'' body) \<noteq> Some (i_version x) then Inl 409
                     else
                       bind_result (edits_of tk p (cx_workspaceId cx) now x body) (\<lambda>(d, ch).
                       bind_result (edit_labels body) (\<lambda>labels.
                         if d = no_data \<and> labels = None \<and> field ''customFields'' body = JUndef then Inl 400
                         else Inr \<lparr>ep_context = cx, ep_project = p, ep_role = project_role_of (tk_core tk) (p_id p) (cx_userId cx), ep_existing = x, ep_data = d,
                                   ep_changes = ch @ (case labels of None \<Rightarrow> [] | Some ls \<Rightarrow> [(''labels'', JArr (map JStr ls))]),
                                   ep_labels = labels, ep_fields = field ''customFields'' body,
                                   ep_mentions = (case d_description d of None \<Rightarrow> [] | Some t \<Rightarrow> mentioned tk p t),
                                   ep_watchers = map snd (filter (\<lambda>w. fst w = i) (tk_watchers tk))\<rparr>)))))"

section \<open>Editing: the transaction\<close>

definition view_of :: "tracker \<Rightarrow> issue \<Rightarrow> wf_view" where
  "view_of tk i = \<lparr>vw_assigneeId = i_assigneeId i, vw_reporterId = i_reporterId i, vw_issueTypeId = i_issueTypeId i,
     vw_resolution = i_resolution i, vw_fields = map (\<lambda>(f, _, v). (f, v)) (filter (\<lambda>(_, x, _). x = i_id i) (tk_values tk))\<rparr>"

text \<open>What the validators read of \<open>{ ...data }\<close>.\<close>

definition proposed :: "issue_data \<Rightarrow> jobj" where
  "proposed d = (case d_resolution d of None \<Rightarrow> [] | Some r \<Rightarrow> [(''resolution'', js_option JStr r)])
     @ (case d_assigneeId d of None \<Rightarrow> [] | Some a \<Rightarrow> [(''assigneeId'', js_option JStr a)])"

definition transition_input_of :: "auth_context \<Rightarrow> project_role option \<Rightarrow> string \<Rightarrow> string \<Rightarrow> string \<Rightarrow> jobj \<Rightarrow> transition_input" where
  "transition_input_of cx role pid from_status to_status props =
     \<lparr>ti_projectId = pid, ti_from = from_status, ti_to = to_status, ti_actorId = cx_userId cx, ti_workspaceRole = cx_role cx,
      ti_projectRole = role, ti_proposed = props\<rparr>"

text \<open>The limit of the board column that shows the status.\<close>

definition wip_reached :: "tracker \<Rightarrow> string \<Rightarrow> string \<Rightarrow> bool" where
  "wip_reached tk pid statusId =
     (case find (\<lambda>c. co_statusId c = statusId \<and> list_ex (\<lambda>b. bd_id b = co_boardId c \<and> bd_projectId b = pid) (tk_boards tk)) (tk_columns tk) of
        None \<Rightarrow> False
      | Some c \<Rightarrow>
          (case co_wipLimit c of
             None \<Rightarrow> False
           | Some n \<Rightarrow> n \<noteq> 0 \<and> n \<le> int (count_rows (\<lambda>x. i_projectId x = pid \<and> i_statusId x = statusId \<and> i_archivedAt x = None) (db_issues (tk_core tk)))))"

definition moving :: "edit_plan \<Rightarrow> string option" where
  "moving ep = (case d_statusId (ep_data ep) of Some s \<Rightarrow> if s \<noteq> i_statusId (ep_existing ep) then Some s else None | None \<Rightarrow> None)"

text \<open>The gate of a status change: the transition to run, if the project has a workflow.\<close>

definition status_gate :: "tracker \<Rightarrow> edit_plan \<Rightarrow> (nat, (transition \<times> jobj list) option) result" where
  "status_gate tk ep =
     (case moving ep of
        None \<Rightarrow> Inr None
      | Some s \<Rightarrow>
          (let pid = p_id (ep_project ep); cx = ep_context ep in
           case issue_row tk (i_id (ep_existing ep)) of
             None \<Rightarrow> Inl 400
           | Some row \<Rightarrow>
               (case evaluateTransition (tk_transitions tk)
                     (transition_input_of cx (ep_role ep) pid (i_statusId (ep_existing ep)) s (proposed (ep_data ep)))
                     (view_of tk row) of
                  Inl _ \<Rightarrow> Inl 400
                | Inr execution \<Rightarrow> if wip_reached tk pid s then Inl 400 else Inr execution)))"

text \<open>The actions of the transition that change columns and fields.\<close>

definition set_key :: "string \<Rightarrow> 'a \<Rightarrow> (string \<times> 'a) list \<Rightarrow> (string \<times> 'a) list" where
  "set_key k v m = (if k \<in> set (map fst m) then map (\<lambda>(k', v'). (k', if k' = k then v else v')) m else m @ [(k, v)])"

definition run_action :: "(js \<Rightarrow> string) \<Rightarrow> edit_plan \<Rightarrow> jobj \<Rightarrow> issue_data \<times> jobj \<Rightarrow> (nat, issue_data \<times> jobj) result" where
  "run_action show_js ep action = (\<lambda>(d, fields).
     (if has_type action ''ASSIGN'' then
        (case field ''userId'' action of
           JStr u \<Rightarrow> Inr (d\<lparr>d_assigneeId := Some (Some (if u = ''ACTOR'' then cx_userId (ep_context ep)
              else if u = ''REPORTER'' then i_reporterId (ep_existing ep) else u))\<rparr>, fields)
         | _ \<Rightarrow> Inr (d, fields))
      else if has_type action ''SET_FIELD'' then
        (case field ''fieldId'' action of JStr f \<Rightarrow> Inr (d, set_key f (field ''value'' action) fields) | _ \<Rightarrow> Inr (d, fields))
      else if has_type action ''SET_PRIORITY'' \<and> js_text show_js (field ''value'' action) \<in> set priority_names then
        (case field ''value'' action of JStr v \<Rightarrow> Inr (d\<lparr>d_priority := parse_priority v\<rparr>, fields) | _ \<Rightarrow> Inl 400)
      else Inr (d, fields)))"

definition actions_of :: "(transition \<times> jobj list) option \<Rightarrow> jobj list" where
  "actions_of execution = (case execution of None \<Rightarrow> [] | Some (_, as) \<Rightarrow> as)"

definition written_fields :: "url_parser \<Rightarrow> edit_plan \<Rightarrow> jobj \<Rightarrow> tracker \<Rightarrow> (nat, (string \<times> js) list) result" where
  "written_fields parse_url ep action_fields tk =
     (if ep_fields ep = JUndef \<and> action_fields = [] then Inr []
      else (let base = (case as_object (ep_fields ep) of None \<Rightarrow> [] | Some fs \<Rightarrow> fs);
                supplied = fold (\<lambda>(k, v). set_key k v) action_fields base
            in case validateCustomFieldWrites parse_url (field_db_of tk) (p_workspaceId (ep_project ep)) (p_id (ep_project ep))
                      (i_issueTypeId (ep_existing ep)) (JObj supplied) True of
                 Inl _ \<Rightarrow> Inl 400
               | Inr vs \<Rightarrow> Inr vs))"

text \<open>\<open>label.upsert\<close>: an existing label of that name, or a new one in its colour.\<close>

definition upsert_label :: "(nat \<Rightarrow> string) \<Rightarrow> string \<Rightarrow> string \<Rightarrow> tracker \<times> string list \<Rightarrow> tracker \<times> string list" where
  "upsert_label new wid name = (\<lambda>(tk, ids).
     (case find (\<lambda>l. lb_workspaceId l = wid \<and> lb_name l = name) (tk_labels tk) of
        Some l \<Rightarrow> (tk, ids @ [lb_id l])
      | None \<Rightarrow>
          (let i = new (10 + length ids)
           in (tk\<lparr>tk_labels := tk_labels tk @ [\<lparr>lb_id = i, lb_workspaceId = wid, lb_name = name, lb_color = labelColor name\<rparr>]\<rparr>, ids @ [i]))))"

definition write_labels :: "(nat \<Rightarrow> string) \<Rightarrow> edit_plan \<Rightarrow> tracker \<Rightarrow> tracker" where
  "write_labels new ep tk =
     (case ep_labels ep of
        None \<Rightarrow> tk
      | Some names \<Rightarrow>
          (let i = i_id (ep_existing ep); (tk', ids) = fold (upsert_label new (p_workspaceId (ep_project ep))) names (tk, [])
           in tk'\<lparr>tk_issueLabels := filter (\<lambda>l. fst l \<noteq> i) (tk_issueLabels tk') @ map (\<lambda>l. (i, l)) ids\<rparr>))"

definition or_old :: "'a option \<Rightarrow> 'a \<Rightarrow> 'a" where
  "or_old v old = (case v of None \<Rightarrow> old | Some x \<Rightarrow> x)"

definition apply_data :: "time \<Rightarrow> issue_data \<Rightarrow> issue \<Rightarrow> issue" where
  "apply_data now d i =
     i\<lparr>i_statusId := or_old (d_statusId d) (i_statusId i), i_summary := or_old (d_summary d) (i_summary i),
       i_description := (case d_description d of None \<Rightarrow> i_description i | Some t \<Rightarrow> JStr t),
       i_resolution := or_old (d_resolution d) (i_resolution i), i_priority := or_old (d_priority d) (i_priority i),
       i_estimate := or_old (d_estimate d) (i_estimate i), i_assigneeId := or_old (d_assigneeId d) (i_assigneeId i),
       i_dueDate := or_old (d_dueDate d) (i_dueDate i), i_completedAt := or_old (d_completedAt d) (i_completedAt i),
       i_hierarchyLevelId := or_old (d_hierarchyLevelId d) (i_hierarchyLevelId i),
       i_version := i_version i + 1, i_updatedAt := now\<rparr>"

definition upsert_value :: "string \<Rightarrow> string \<times> js \<Rightarrow> (string \<times> string \<times> js) list \<Rightarrow> (string \<times> string \<times> js) list" where
  "upsert_value i = (\<lambda>(f, v) vs.
     if list_ex (\<lambda>(g, x, _). g = f \<and> x = i) vs then map (\<lambda>(g, x, w). (g, x, if g = f \<and> x = i then v else w)) vs else vs @ [(f, i, v)])"

definition workflow_note :: "(transition \<times> jobj list) option \<Rightarrow> jobj" where
  "workflow_note execution =
     (case execution of
        None \<Rightarrow> []
      | Some (t, _) \<Rightarrow> [(''workflow'', JObj [(''transitionId'', JStr (tr_id t)), (''name'', JStr (tr_name t)), (''version'', JInt (tr_version t))])])"

definition comment_of :: "edit_plan \<Rightarrow> jobj \<Rightarrow> (string \<times> string \<times> string) option" where
  "comment_of ep action =
     (if has_type action ''COMMENT''
      then (case as_string (field ''text'' action) of
              Some t \<Rightarrow> if trim t \<noteq> [] then Some (i_id (ep_existing ep), cx_userId (ep_context ep), take 20000 (trim t)) else None
            | None \<Rightarrow> None)
      else None)"

definition notify_action :: "(string list \<Rightarrow> tracker \<Rightarrow> tracker) \<Rightarrow> jobj \<Rightarrow> tracker \<Rightarrow> tracker" where
  "notify_action tell_them action tk =
     (if has_type action ''NOTIFY''
      then (case as_array (field ''recipientIds'' action) of Some vs \<Rightarrow> tell_them (strings_of vs) tk | None \<Rightarrow> tk) else tk)"

text \<open>The tables after the edit, and then what it leaves for the workers and the people concerned.\<close>

definition stored_edit :: "(nat \<Rightarrow> string) \<Rightarrow> time \<Rightarrow> edit_plan \<Rightarrow> (transition \<times> jobj list) option \<Rightarrow> issue_data \<Rightarrow> (string \<times> js) list \<Rightarrow> issue \<Rightarrow> tracker \<Rightarrow> tracker" where
  "stored_edit new now ep execution d values row tk =
     (let i = i_id (ep_existing ep);
          x = apply_data now d row;
          labelled = write_labels new ep tk;
          core = tk_core labelled;
          act = \<lparr>ac_issueId = i, ac_actorId = Some (cx_userId (ep_context ep)),
                 ac_action = (if d_statusId d \<noteq> None \<and> length (ep_changes ep) = 1 then ''issue.status_changed'' else ''issue.updated''),
                 ac_changes = JObj (ep_changes ep @ workflow_note execution)\<rparr>
      in labelled\<lparr>tk_core := core\<lparr>db_issues := map (\<lambda>y. if i_id y = i then apply_data now d y else y) (db_issues core),
                                  db_activities := db_activities core @ [act]\<rparr>,
           tk_values := fold (upsert_value i) values (tk_values labelled),
           tk_comments := tk_comments labelled @ List.map_filter (comment_of ep) (actions_of execution),
           tk_history := tk_history labelled @ (if d_statusId d \<noteq> None \<or> d_estimate d \<noteq> None
              then [\<lparr>hi_issueId = i, hi_event = (if d_statusId d \<noteq> None then ''STATUS_CHANGED'' else ''ESTIMATE_CHANGED''),
                     hi_category = map_option st_category (status_row tk (i_statusId x)), hi_estimate = i_estimate x\<rparr>] else [])\<rparr>)"

definition told_edit :: "string \<Rightarrow> edit_plan \<Rightarrow> (transition \<times> jobj list) option \<Rightarrow> issue_data \<Rightarrow> issue \<Rightarrow> tracker \<Rightarrow> tracker" where
  "told_edit activity ep execution d x stored =
     (let old = ep_existing ep; i = i_id old; p = ep_project ep;
          event = (if d_statusId d \<noteq> None then ''issue.transitioned'' else ''issue.updated'');
          titled = old\<lparr>i_summary := or_old (d_summary d) (i_summary old)\<rparr>;
          speak = (\<lambda>type ids. tell p titled (cx_userId (ep_context ep)) activity type ids);
          assigned = (case d_assigneeId d of
              Some (Some a) \<Rightarrow> if Some a \<noteq> i_assigneeId old then speak ''ASSIGNED'' [a] stored else stored
            | _ \<Rightarrow> stored);
          told = fold (notify_action (speak ''ISSUE_UPDATED'')) (actions_of execution)
            (speak ''ISSUE_UPDATED'' (ep_watchers ep) (speak ''MENTIONED'' (ep_mentions ep) assigned))
      in announce ''issue.updated'' p event (''issue.updated:'' @ i @ '':'' @ string_of_int (i_version x)) i
           (JObj [(''id'', JStr i), (''key'', JStr (issue_key p (i_number old))), (''version'', JInt (i_version x))])
           (JObj ([(''issueId'', JStr i), (''projectId'', JStr (p_id p)), (''statusId'', JStr (i_statusId x)), (''priority'', JStr (priority_name (i_priority x)))]
             @ (case ep_labels ep of None \<Rightarrow> [] | Some ls \<Rightarrow> [(''labels'', JArr (map JStr ls))])))
           (JObj [(''id'', JStr i), (''version'', JInt (i_version x))]) told)"

text \<open>
  The transaction runs under READ COMMITTED: what its queries read, the transitions, the column with its count
  and the fields, is the state at that time, and other requests may commit before its writes. So the reads and
  the writes are two definitions, and \<open>patch_commit\<close> is the edit that nothing interrupts.
\<close>

type_synonym edit_decision = "(transition \<times> jobj list) option \<times> issue_data \<times> (string \<times> js) list"

definition edit_read :: "(js \<Rightarrow> string) \<Rightarrow> url_parser \<Rightarrow> edit_plan \<Rightarrow> tracker \<Rightarrow> (nat, edit_decision) result" where
  "edit_read show_js parse_url ep tk =
     bind_result (status_gate tk ep) (\<lambda>execution.
     bind_result (fold_result (run_action show_js ep) (actions_of execution) (ep_data ep, [])) (\<lambda>(d, action_fields).
     bind_result (written_fields parse_url ep action_fields tk) (\<lambda>values. Inr (execution, d, values))))"

definition edit_write :: "(nat \<Rightarrow> string) \<Rightarrow> time \<Rightarrow> edit_plan \<Rightarrow> edit_decision \<Rightarrow> tracker \<Rightarrow> (nat, tracker) result" where
  "edit_write new now ep decision tk =
     (case decision of (execution, d, values) \<Rightarrow>
        (case issue_row tk (i_id (ep_existing ep)) of
           None \<Rightarrow> Inl 400
         | Some row \<Rightarrow>
             if status_row tk (i_statusId (apply_data now d row)) = None
               \<or> (case d_assigneeId d of Some (Some a) \<Rightarrow> \<not> user_exists tk a | _ \<Rightarrow> False) then Inl 400
             else Inr (told_edit (new 0) ep execution d (apply_data now d row) (stored_edit new now ep execution d values row tk))))"

definition patch_commit :: "(js \<Rightarrow> string) \<Rightarrow> url_parser \<Rightarrow> (nat \<Rightarrow> string) \<Rightarrow> time \<Rightarrow> edit_plan \<Rightarrow> tracker \<Rightarrow> (nat, tracker) result" where
  "patch_commit show_js parse_url new now ep tk =
     bind_result (edit_read show_js parse_url ep tk) (\<lambda>decision. edit_write new now ep decision tk)"

section \<open>Deleting\<close>

definition issue_DELETE :: "time \<Rightarrow> auth_context option \<Rightarrow> string \<Rightarrow> tracker \<Rightarrow> (nat, tracker) result" where
  "issue_DELETE now context i tk =
     (case context of
        None \<Rightarrow> Inl 401
      | Some cx \<Rightarrow>
          (case find_issue (tk_core tk) cx i of
             None \<Rightarrow> Inl 404
           | Some x \<Rightarrow>
               if \<not> is_workspace_admin cx \<and> project_role_of (tk_core tk) (i_projectId x) (cx_userId cx) \<noteq> Some PAdmin then Inl 403
               else (let core = tk_core tk;
                         entry = \<lparr>au_workspaceId = cx_workspaceId cx, au_actorId = Some (cx_userId cx), au_action = ''issue.deleted'',
                           au_targetType = ''issue'', au_targetId = i, au_metadata = JObj [(''projectId'', JStr (i_projectId x))]\<rparr>
                     in Inr (tk\<lparr>tk_core := core\<lparr>
                          db_issues := map (\<lambda>y. if i_id y = i then y\<lparr>i_archivedAt := Some now, i_version := i_version y + 1, i_updatedAt := now\<rparr> else y) (db_issues core),
                          db_audit := db_audit core @ [entry]\<rparr>\<rparr>))))"

text \<open>A request without a concurrent one: check, then commit.\<close>

definition issues_POST :: "url_parser \<Rightarrow> (nat \<Rightarrow> string) \<Rightarrow> time \<Rightarrow> auth_context option \<Rightarrow> jobj \<Rightarrow> tracker \<Rightarrow> (nat, tracker) result" where
  "issues_POST parse_url new now context body tk =
     bind_result (create_check tk context body) (\<lambda>cp. create_commit parse_url new now cp tk)"

definition issue_PATCH :: "(js \<Rightarrow> string) \<Rightarrow> url_parser \<Rightarrow> (nat \<Rightarrow> string) \<Rightarrow> time \<Rightarrow> auth_context option \<Rightarrow> string \<Rightarrow> jobj \<Rightarrow> tracker \<Rightarrow> (nat, tracker) result" where
  "issue_PATCH show_js parse_url new now context i body tk =
     bind_result (patch_check tk now context i body) (\<lambda>ep. patch_commit show_js parse_url new now ep tk)"

section \<open>What a commit does to the issues\<close>

lemma announce_core [simp]: "tk_core (announce w p e ei i a b c tk) = tk_core tk"
  by (simp add: announce_def Let_def)

lemma tell_core [simp]: "tk_core (tell p i actor act ty rs tk) = tk_core tk"
  by (simp add: tell_def)

lemma notify_actions_core:
  "(\<And>ids tk. tk_core (f ids tk) = tk_core tk) \<Longrightarrow> tk_core (fold (notify_action f) as tk) = tk_core tk"
  by (induction as arbitrary: tk) (auto simp: notify_action_def split: option.splits)

lemma upsert_labels_core: "tk_core (fst (fold (upsert_label new wid) names s)) = tk_core (fst s)"
  by (induction names arbitrary: s) (auto simp: upsert_label_def Let_def split: prod.splits option.splits)

lemma write_labels_core [simp]: "tk_core (write_labels new ep tk) = tk_core tk"
  using upsert_labels_core [of new "p_workspaceId (ep_project ep)" "the (ep_labels ep)" "(tk, [])"]
  by (auto simp: write_labels_def Let_def split: option.splits prod.splits)

lemma create_commit_core:
  assumes "create_commit parse_url new now cp tk = Inr tk'"
  obtains q where "find (\<lambda>q. p_id q = p_id (cp_project cp)) (db_projects (tk_core tk)) = Some q"
    and "db_issues (tk_core tk') = db_issues (tk_core tk) @ [new_issue cp (new 0) (p_issueSequence q + 1) now]"
    and "db_projects (tk_core tk') = map (\<lambda>r. if p_id r = p_id (cp_project cp) then r\<lparr>p_issueSequence := p_issueSequence r + 1\<rparr> else r) (db_projects (tk_core tk))"
    and "\<forall>x\<in>set (db_issues (tk_core tk)). i_id x \<noteq> new 0"
  using assms by (auto simp: create_commit_def Let_def list_ex_iff split: sum.splits option.splits if_splits)

lemma run_action_status: "run_action show_js ep a s = Inr s' \<Longrightarrow> d_statusId (fst s') = d_statusId (fst s)"
  by (cases s) (auto simp: run_action_def split: if_splits js.splits)

lemma told_edit_core [simp]: "tk_core (told_edit activity ep execution d x tk) = tk_core tk"
  by (simp add: told_edit_def Let_def notify_actions_core split: option.splits)

lemma stored_edit_core:
  "db_issues (tk_core (stored_edit new now ep execution d vals row tk))
     = map (\<lambda>y. if i_id y = i_id (ep_existing ep) then apply_data now d y else y) (db_issues (tk_core tk))"
  "db_projects (tk_core (stored_edit new now ep execution d vals row tk)) = db_projects (tk_core tk)"
  by (simp_all add: stored_edit_def Let_def)

lemma edit_read_Inr:
  assumes "edit_read show_js parse_url ep tk = Inr (execution, d, vals)"
  shows "status_gate tk ep = Inr execution" and "d_statusId d = d_statusId (ep_data ep)"
proof -
  from assms obtain af where gate: "status_gate tk ep = Inr execution"
    and run: "fold_result (run_action show_js ep) (actions_of execution) (ep_data ep, []) = Inr (d, af)"
    by (auto simp: edit_read_def result_elims)
  show "status_gate tk ep = Inr execution" by (rule gate)
  show "d_statusId d = d_statusId (ep_data ep)"
    using fold_result_invariant [OF run, where P = "\<lambda>s. d_statusId (fst s) = d_statusId (ep_data ep)"]
    by (simp add: run_action_status)
qed

lemma edit_write_core:
  assumes "edit_write new now ep (execution, d, vals) tk = Inr tk'"
  obtains row where "issue_row tk (i_id (ep_existing ep)) = Some row"
    and "db_issues (tk_core tk') = map (\<lambda>y. if i_id y = i_id (ep_existing ep) then apply_data now d y else y) (db_issues (tk_core tk))"
    and "db_projects (tk_core tk') = db_projects (tk_core tk)"
proof -
  note eval = assms [unfolded edit_write_def prod.case]
  obtain row where row: "issue_row tk (i_id (ep_existing ep)) = Some row"
    using eval by (cases "issue_row tk (i_id (ep_existing ep))") simp_all
  have tk': "tk' = told_edit (new 0) ep execution d (apply_data now d row) (stored_edit new now ep execution d vals row tk)"
    using eval by (simp add: row split: if_split_asm)
  show ?thesis by (rule that [OF row]) (simp_all add: tk' stored_edit_core)
qed

lemma patch_commit_core:
  assumes "patch_commit show_js parse_url new now ep tk = Inr tk'"
  obtains d row execution where "issue_row tk (i_id (ep_existing ep)) = Some row" and "status_gate tk ep = Inr execution"
    and "d_statusId d = d_statusId (ep_data ep)"
    and "db_issues (tk_core tk') = map (\<lambda>y. if i_id y = i_id (ep_existing ep) then apply_data now d y else y) (db_issues (tk_core tk))"
    and "db_projects (tk_core tk') = db_projects (tk_core tk)"
proof -
  from assms obtain execution d vals where r: "edit_read show_js parse_url ep tk = Inr (execution, d, vals)"
    and w: "edit_write new now ep (execution, d, vals) tk = Inr tk'"
    by (auto simp: patch_commit_def result_elims)
  show ?thesis by (rule edit_write_core [OF w], rule that [OF _ edit_read_Inr [OF r]]) assumption+
qed

section \<open>Issue numbers under concurrency\<close>

text \<open>
  The requests in flight: plans that were validated and wait for their commit, in any order, and
  commits that may come after any others.
\<close>

record issue_state =
  is_tracker :: tracker
  is_creates :: "create_plan list"
  is_edits :: "edit_plan list"
  is_gated :: "(edit_plan \<times> edit_decision) list"   \<comment> \<open>edits between their reads and their writes\<close>

datatype issue_event =
    Check_Create "auth_context option" jobj
  | Commit_Create "nat \<Rightarrow> string" time nat
  | Check_Edit time "auth_context option" string jobj
  | Gate_Edit nat
  | Write_Edit "nat \<Rightarrow> string" time nat
  | Delete_Issue time "auth_context option" string

definition after :: "(nat, tracker) result \<Rightarrow> issue_state \<Rightarrow> issue_state" where
  "after r s = (case r of Inl _ \<Rightarrow> s | Inr tk \<Rightarrow> s\<lparr>is_tracker := tk\<rparr>)"

fun issue_step :: "(js \<Rightarrow> string) \<Rightarrow> url_parser \<Rightarrow> issue_event \<Rightarrow> issue_state \<Rightarrow> issue_state" where
  "issue_step show_js parse_url (Check_Create cx body) s =
     (case create_check (is_tracker s) cx body of Inl _ \<Rightarrow> s | Inr cp \<Rightarrow> s\<lparr>is_creates := cp # is_creates s\<rparr>)"
| "issue_step show_js parse_url (Commit_Create new now n) s =
     (if n < length (is_creates s) then after (create_commit parse_url new now (is_creates s ! n) (is_tracker s)) s else s)"
| "issue_step show_js parse_url (Check_Edit now cx i body) s =
     (case patch_check (is_tracker s) now cx i body of Inl _ \<Rightarrow> s | Inr ep \<Rightarrow> s\<lparr>is_edits := ep # is_edits s\<rparr>)"
| "issue_step show_js parse_url (Gate_Edit n) s =
     (if n < length (is_edits s)
      then (case edit_read show_js parse_url (is_edits s ! n) (is_tracker s) of
              Inl _ \<Rightarrow> s | Inr decision \<Rightarrow> s\<lparr>is_gated := (is_edits s ! n, decision) # is_gated s\<rparr>)
      else s)"
| "issue_step show_js parse_url (Write_Edit new now n) s =
     (if n < length (is_gated s)
      then after (edit_write new now (fst (is_gated s ! n)) (snd (is_gated s ! n)) (is_tracker s)) s else s)"
| "issue_step show_js parse_url (Delete_Issue now cx i) s = after (issue_DELETE now cx i (is_tracker s)) s"

definition numbers_ok :: "workspace_db \<Rightarrow> bool" where
  "numbers_ok db \<longleftrightarrow> distinct (map p_id (db_projects db)) \<and> distinct (map i_id (db_issues db))
     \<and> distinct (map (\<lambda>i. (i_projectId i, i_number i)) (db_issues db))
     \<and> (\<forall>i\<in>set (db_issues db). \<exists>p\<in>set (db_projects db). p_id p = i_projectId i \<and> i_number i \<le> p_issueSequence p)"

lemma numbers_ok_rewrite:
  assumes "numbers_ok db" and "db_issues db' = map f (db_issues db)" and "db_projects db' = db_projects db"
    and "\<And>i. i_id (f i) = i_id i \<and> i_projectId (f i) = i_projectId i \<and> i_number (f i) = i_number i"
  shows "numbers_ok db'"
  using assms by (simp add: numbers_ok_def o_def)

lemma numbers_ok_append:
  assumes ok: "numbers_ok db" and q: "find (\<lambda>q. p_id q = pid) (db_projects db) = Some q"
    and issues: "db_issues db' = db_issues db @ [x]" and new: "i_projectId x = pid" "i_number x = p_issueSequence q + 1"
    and fresh: "\<forall>y\<in>set (db_issues db). i_id y \<noteq> i_id x"
    and projects: "db_projects db' = map (\<lambda>r. if p_id r = pid then r\<lparr>p_issueSequence := p_issueSequence r + 1\<rparr> else r) (db_projects db)"
  shows "numbers_ok db'"
proof -
  have mem: "q \<in> set (db_projects db)" "p_id q = pid" using find_SomeD [OF q] by simp_all
  have below: "i_number i \<le> p_issueSequence q" if "i \<in> set (db_issues db)" "i_projectId i = p_id q" for i
  proof -
    obtain p where "p \<in> set (db_projects db)" "p_id p = i_projectId i" "i_number i \<le> p_issueSequence p"
      using ok \<open>i \<in> _\<close> by (auto simp: numbers_ok_def)
    with unique_key [of p_id "db_projects db" p q] mem that ok show ?thesis by (simp add: numbers_ok_def)
  qed
  have ids: "map p_id (db_projects db') = map p_id (db_projects db)"
    by (simp add: projects)
  have bound: "\<exists>p\<in>set (db_projects db'). p_id p = pj \<and> n \<le> p_issueSequence p"
    if "\<exists>p\<in>set (db_projects db). p_id p = pj \<and> n \<le> p_issueSequence p" for pj n
  proof -
    let ?g = "\<lambda>r. if p_id r = pid then r\<lparr>p_issueSequence := p_issueSequence r + 1\<rparr> else r"
    from that obtain p where "p \<in> set (db_projects db)" "p_id p = pj" "n \<le> p_issueSequence p" by blast
    then have "?g p \<in> set (db_projects db') \<and> p_id (?g p) = pj \<and> n \<le> p_issueSequence (?g p)"
      unfolding projects by auto
    then show ?thesis by blast
  qed
  have top: "\<exists>p\<in>set (db_projects db'). p_id p = pid \<and> p_issueSequence q + 1 \<le> p_issueSequence p"
    unfolding projects set_map by (rule bexI [OF _ imageI [OF mem(1)]]) (simp add: mem(2))
  have "(i_projectId x, i_number x) \<notin> set (map (\<lambda>i. (i_projectId i, i_number i)) (db_issues db))"
  proof
    assume "(i_projectId x, i_number x) \<in> set (map (\<lambda>i. (i_projectId i, i_number i)) (db_issues db))"
    then obtain i where "i \<in> set (db_issues db)" "i_projectId i = p_id q" "i_number i = p_issueSequence q + 1"
      by (auto simp: new mem(2))
    with below show False by fastforce
  qed
  then have "distinct (map (\<lambda>i. (i_projectId i, i_number i)) (db_issues db'))"
    using ok by (simp add: issues numbers_ok_def)
  moreover have "distinct (map i_id (db_issues db'))"
    using ok fresh by (auto simp: issues numbers_ok_def)
  moreover have "\<exists>p\<in>set (db_projects db'). p_id p = i_projectId i \<and> i_number i \<le> p_issueSequence p"
    if "i \<in> set (db_issues db')" for i
  proof (cases "i = x")
    case True
    with top show ?thesis by (simp add: new)
  next
    case False
    with that have "i \<in> set (db_issues db)" by (simp add: issues)
    with ok show ?thesis by (intro bound) (simp add: numbers_ok_def)
  qed
  moreover have "distinct (map p_id (db_projects db'))" using ok by (simp only: ids numbers_ok_def)
  ultimately show ?thesis by (simp add: numbers_ok_def)
qed

lemma numbers_ok_create:
  assumes ok: "numbers_ok (tk_core tk)" and c: "create_commit parse_url new now cp tk = Inr tk'"
  shows "numbers_ok (tk_core tk')"
  by (rule create_commit_core [OF c], rule numbers_ok_append [OF ok]) (assumption | simp add: new_issue_def)+

lemma numbers_ok_edit:
  assumes "numbers_ok (tk_core tk)" and "edit_write new now ep decision tk = Inr tk'"
  shows "numbers_ok (tk_core tk')"
proof -
  obtain execution d vals where w: "decision = (execution, d, vals)" by (cases decision)
  show ?thesis
    by (rule edit_write_core [OF assms(2) [unfolded w]], rule numbers_ok_rewrite [OF assms(1)]) (assumption | simp add: apply_data_def)+
qed

lemma numbers_ok_delete:
  assumes "numbers_ok (tk_core tk)" and "issue_DELETE now cx i tk = Inr tk'"
  shows "numbers_ok (tk_core tk')"
proof -
  let ?f = "\<lambda>y. if i_id y = i then y\<lparr>i_archivedAt := Some now, i_version := i_version y + 1, i_updatedAt := now\<rparr> else y"
  have "db_issues (tk_core tk') = map ?f (db_issues (tk_core tk))" and "db_projects (tk_core tk') = db_projects (tk_core tk)"
    using assms(2) by (auto simp: issue_DELETE_def Let_def split: option.splits if_split_asm)
  then show ?thesis by (rule numbers_ok_rewrite [OF assms(1)]) simp
qed

lemma issue_step_numbers: "numbers_ok (tk_core (is_tracker s)) \<Longrightarrow> numbers_ok (tk_core (is_tracker (issue_step show_js parse_url e s)))"
  by (cases e) (auto simp: after_def split: sum.splits intro: numbers_ok_create numbers_ok_edit numbers_ok_delete)

interpretation numbered: kept "issue_step show_js parse_url" "\<lambda>s. numbers_ok (tk_core (is_tracker s))" for show_js parse_url
  by unfold_locales (rule issue_step_numbers)

text \<open>
  C14: Issue keys are unique. However the checks and commits of concurrent creations, the reads and writes of
  edits and deletions interleave, no two issues of a project share a number, and the project's sequence stays at
  or above every number it has given out.
\<close>

theorem issue_keys_unique:
  assumes "numbers_ok (tk_core (is_tracker s))"
  shows "numbers_ok (tk_core (is_tracker (fold (issue_step show_js parse_url) events s)))"
  using assms by (rule numbered.run_inv)

section \<open>What an edit may do\<close>

text \<open>An edit without a workflow and without custom fields.\<close>

lemma plain_commit:
  assumes "status_gate tk ep = Inr None" and "ep_fields ep = JUndef" and "issue_row tk (i_id (ep_existing ep)) = Some row"
    and "status_row tk (i_statusId (apply_data now (ep_data ep) row)) \<noteq> None" and "d_assigneeId (ep_data ep) = None"
  shows "patch_commit show_js parse_url new now ep tk
    = Inr (told_edit (new 0) ep None (ep_data ep) (apply_data now (ep_data ep) row) (stored_edit new now ep None (ep_data ep) [] row tk))"
  using assms by (simp add: patch_commit_def edit_read_def edit_write_def actions_of_def written_fields_def)

definition wip_count :: "tracker \<Rightarrow> string \<Rightarrow> string \<Rightarrow> nat" where
  "wip_count tk pid s = count_rows (\<lambda>x. i_projectId x = pid \<and> i_statusId x = s \<and> i_archivedAt x = None) (db_issues (tk_core tk))"

definition same_identity :: "issue \<Rightarrow> issue \<Rightarrow> bool" where
  "same_identity x y \<longleftrightarrow> i_id x = i_id y \<and> i_workspaceId x = i_workspaceId y \<and> i_projectId x = i_projectId y \<and> i_number x = i_number y
     \<and> i_issueTypeId x = i_issueTypeId y \<and> i_reporterId x = i_reporterId y \<and> i_parentId x = i_parentId y
     \<and> i_archivedAt x = i_archivedAt y \<and> i_securityLevelId x = i_securityLevelId y \<and> i_rank x = i_rank y \<and> i_createdAt x = i_createdAt y"

lemma apply_data_identity: "same_identity (apply_data now d x) x \<and> i_version (apply_data now d x) = i_version x + 1"
  by (simp add: same_identity_def apply_data_def)

text \<open>
  A committed edit rewrites one issue and nothing else of the issue table: every other row is as it
  was, and the edited one keeps its id, number, project, type, reporter, parent, security level and
  archive mark, with its version one higher.
\<close>

theorem edit_touches_one_issue:
  assumes "patch_commit show_js parse_url new now ep tk = Inr tk'"
  shows "list_all2 (\<lambda>y x. if i_id x = i_id (ep_existing ep) then same_identity y x \<and> i_version y = i_version x + 1 else y = x)
    (db_issues (tk_core tk')) (db_issues (tk_core tk))"
proof -
  obtain d where d: "db_issues (tk_core tk') = map (\<lambda>y. if i_id y = i_id (ep_existing ep) then apply_data now d y else y) (db_issues (tk_core tk))"
    by (rule patch_commit_core [OF assms])
  show ?thesis unfolding d by (auto simp: list_all2_map1 apply_data_identity intro!: list.rel_refl_strong)
qed

lemma count_rows_map_le:
  assumes "distinct (map k rows)" and "\<And>r. r \<in> set rows \<Longrightarrow> k r \<noteq> i \<Longrightarrow> P (f r) = P r"
  shows "count_rows P (map f rows) \<le> Suc (count_rows P rows)"
  using assms
proof (induction rows)
  case (Cons r rows)
  show ?case
  proof (cases "k r = i")
    case True
    then have "\<forall>x\<in>set rows. k x \<noteq> i" using Cons.prems(1) by (auto dest: sym)
    then have "P (f x) = P x" if "x \<in> set rows" for x using Cons.prems(2) that by simp
    then have "count_rows P (map f rows) = count_rows P rows"
      by (induction rows) (simp_all add: count_rows_def)
    then show ?thesis by (simp add: count_rows_def)
  next
    case False
    with Cons show ?thesis by (simp add: count_rows_def)
  qed
qed (simp add: count_rows_def)

lemma gated_edit:
  assumes "edit_read show_js parse_url ep seen = Inr (execution, d, vals)" and "moving ep = Some s"
  obtains row where "issue_row seen (i_id (ep_existing ep)) = Some row" and "\<not> wip_reached seen (p_id (ep_project ep)) s"
    and "evaluateTransition (tk_transitions seen) (transition_input_of (ep_context ep) (ep_role ep) (p_id (ep_project ep))
           (i_statusId (ep_existing ep)) s (proposed (ep_data ep))) (view_of seen row) = Inr execution"
  using edit_read_Inr(1) [OF assms(1)] assms(2)
  by (auto simp: status_gate_def Let_def split: option.splits sum.splits if_splits)

lemma column_with_room:
  assumes "\<not> wip_reached tk pid s"
    and "find (\<lambda>c. co_statusId c = s \<and> list_ex (\<lambda>b. bd_id b = co_boardId c \<and> bd_projectId b = pid) (tk_boards tk)) (tk_columns tk) = Some c"
    and "co_wipLimit c = Some limit" and "limit \<noteq> 0"
  shows "int (wip_count tk pid s) < limit"
  using assms by (simp add: wip_reached_def wip_count_def)


text \<open>
  The version a client sends is compared before the transaction and not again inside it: an edit
  that was validated against an old version of the issue still commits after the issue has changed,
  and overwrites the change.
\<close>

theorem stale_edit_overwrites:
  assumes "issue_row tk (i_id (ep_existing ep)) = Some row" and "i_version row \<noteq> i_version (ep_existing ep)"
    and "ep_data ep = no_data\<lparr>d_summary := Some title\<rparr>" and "ep_labels ep = None" and "ep_fields ep = JUndef"
    and "status_row tk (i_statusId row) \<noteq> None"
  shows "\<exists>tk' row'. patch_commit show_js parse_url new now ep tk = Inr tk' \<and> issue_row tk' (i_id (ep_existing ep)) = Some row'
    \<and> i_summary row' = title \<and> i_version row' = i_version row + 1"
proof -
  let ?d = "ep_data ep"
  have commit: "patch_commit show_js parse_url new now ep tk
      = Inr (told_edit (new 0) ep None ?d (apply_data now ?d row) (stored_edit new now ep None ?d [] row tk))"
    by (rule plain_commit) (use assms in \<open>simp_all add: status_gate_def moving_def no_data_def apply_data_def or_old_def\<close>)
  have "find (\<lambda>x. i_id x = i) (map (\<lambda>y. if i_id y = i then apply_data now ?d y else y) rows) = map_option (apply_data now ?d) (find (\<lambda>x. i_id x = i) rows)"
    for i rows by (induction rows) (auto simp: apply_data_def)
  then have "issue_row (told_edit (new 0) ep None ?d (apply_data now ?d row) (stored_edit new now ep None ?d [] row tk)) (i_id (ep_existing ep))
      = Some (apply_data now ?d row)"
    using assms(1) by (simp add: issue_row_def stored_edit_core)
  moreover have "i_summary (apply_data now ?d row) = title \<and> i_version (apply_data now ?d row) = i_version row + 1"
    by (simp add: assms(3) apply_data_def or_old_def)
  ultimately show ?thesis using commit by blast
qed

text \<open>
  The list shows only what its caller may open: each issue listed belongs to the caller's
  workspace, is not archived and passes the check for opening a single issue.
\<close>

theorem listed_issues_are_viewable:
  assumes "issues_GET tk (Some cx) key q rt = Inr rows" and "i \<in> set rows"
  shows "canViewIssue (tk_core tk) cx (i_id i)"
proof -
  obtain p where p: "getProjectForContext (tk_core tk) cx (case key of Some k \<Rightarrow> k | None \<Rightarrow> ''WEB'') = Some p"
    and i: "i \<in> set (db_issues (tk_core tk))" "i_workspaceId i = p_workspaceId p" "i_archivedAt i = None"
      "issueSecurityWhere (tk_core tk) cx (Some [p_id p]) i"
    using assms by (auto simp: issues_GET_def Let_def split: option.splits if_splits)
  have "p_workspaceId p = cx_workspaceId cx" using getProjectForContextD [OF p] by (simp add: accessibleProjectWhere_def)
  moreover have "issueSecurityWhere (tk_core tk) cx None i"
    using i(4) by (fastforce simp: issueSecurityWhere_def where_groups_def where_memberships_def list_ex_iff)
  ultimately show ?thesis
    using i by (auto simp: canViewIssue_def find_None_iff')
qed

definition board_core :: workspace_db where
  "board_core = sample_db\<lparr>db_issues := [sample_issue\<lparr>i_securityLevelId := None\<rparr>],
     db_statuses := [\<lparr>st_id = ''s'', st_projectId = ''p'', st_name = ''Open'', st_position = 0, st_category = Todo\<rparr>,
       \<lparr>st_id = ''d'', st_projectId = ''p'', st_name = ''Done'', st_position = 1, st_category = Done\<rparr>]\<rparr>"

definition board_tracker :: tracker where
  "board_tracker = \<lparr>tk_core = board_core, tk_config = team_config, tk_fields = [], tk_fieldConfigs = [], tk_values = [],
     tk_transitions = [], tk_boards = [\<lparr>bd_id = ''b'', bd_projectId = ''p''\<rparr>],
     tk_columns = [\<lparr>co_id = ''c'', co_boardId = ''b'', co_statusId = ''d'', co_name = ''Done'', co_position = 1, co_wipLimit = Some 1\<rparr>],
     tk_labels = [], tk_issueLabels = [], tk_watchers = [], tk_comments = [], tk_history = [], tk_requests = [], tk_outbox = empty_outbox\<rparr>"

definition amy_edit :: "issue_data \<Rightarrow> int \<Rightarrow> edit_plan" where
  "amy_edit d version = \<lparr>ep_context = amy, ep_project = sample_project, ep_role = Some PAdmin,
     ep_existing = sample_issue\<lparr>i_securityLevelId := None, i_version := version\<rparr>,
     ep_data = d, ep_changes = [], ep_labels = None, ep_fields = JUndef, ep_mentions = [], ep_watchers = []\<rparr>"

lemmas board_defs = board_core_def board_tracker_def amy_edit_def sample_defs issue_row_def status_row_def

theorem issue_keys_unique_witness:
  "numbers_ok (tk_core (is_tracker (fold (issue_step (\<lambda>_. []) (\<lambda>_. None)) [Delete_Issue 7 (Some amy) ''i1'']
     \<lparr>is_tracker = board_tracker, is_creates = [], is_edits = [], is_gated = []\<rparr>)))"
  by (rule issue_keys_unique) (simp add: numbers_ok_def board_defs)

lemma amy_moves: "\<exists>tk'. patch_commit (\<lambda>_. []) (\<lambda>_. None) (\<lambda>_. ''n'') 7 (amy_edit (no_data\<lparr>d_statusId := Some ''d''\<rparr>) 1) board_tracker = Inr tk'"
  by (intro exI, rule plain_commit)
    (simp_all add: status_gate_def moving_def wip_reached_def count_rows_def evaluateTransition_def no_data_def apply_data_def or_old_def board_defs Let_def)

theorem edit_touches_one_issue_witness:
  "\<exists>tk'. patch_commit (\<lambda>_. []) (\<lambda>_. None) (\<lambda>_. ''n'') 7 (amy_edit (no_data\<lparr>d_statusId := Some ''d''\<rparr>) 1) board_tracker = Inr tk'
     \<and> length (db_issues (tk_core tk')) = 1"
proof -
  from amy_moves obtain tk' where c: "patch_commit (\<lambda>_. []) (\<lambda>_. None) (\<lambda>_. ''n'') 7 (amy_edit (no_data\<lparr>d_statusId := Some ''d''\<rparr>) 1) board_tracker = Inr tk'" ..
  from list_all2_lengthD [OF edit_touches_one_issue [OF c]] c show ?thesis
    by (auto simp: board_core_def board_tracker_def)
qed


section \<open>Two edits at once\<close>

text \<open>A board with two issues, both about to enter the column with room for one.\<close>

definition busy_tracker :: tracker where
  "busy_tracker = board_tracker\<lparr>tk_core := board_core\<lparr>db_issues :=
     [sample_issue\<lparr>i_securityLevelId := None\<rparr>, sample_issue\<lparr>i_id := ''i2'', i_number := 2, i_securityLevelId := None\<rparr>]\<rparr>\<rparr>"

definition move_edit :: "string \<Rightarrow> edit_plan" where
  "move_edit i = (amy_edit (no_data\<lparr>d_statusId := Some ''d''\<rparr>) 1)\<lparr>ep_existing := sample_issue\<lparr>i_id := i, i_securityLevelId := None\<rparr>\<rparr>"

lemmas busy_defs = busy_tracker_def move_edit_def board_defs no_data_def

lemma move_edit_read:
  "i \<in> {''i1'', ''i2''} \<Longrightarrow> edit_read show_js parse_url (move_edit i) busy_tracker = Inr (None, ep_data (move_edit i), [])"
  by (auto simp: edit_read_def status_gate_def moving_def wip_reached_def count_rows_def evaluateTransition_def actions_of_def written_fields_def Let_def busy_defs)

text \<open>
  C15: The count and the write are not one step. Two edits that both read the column before one of them is
  written both pass its limit, and the column holds more issues than it admits.
\<close>

theorem overlapping_edits_exceed_limit:
  "\<exists>d1 d2 tk1 tk2. edit_read show_js parse_url (move_edit ''i1'') busy_tracker = Inr d1
     \<and> edit_read show_js parse_url (move_edit ''i2'') busy_tracker = Inr d2
     \<and> edit_write new 7 (move_edit ''i1'') d1 busy_tracker = Inr tk1 \<and> edit_write new 8 (move_edit ''i2'') d2 tk1 = Inr tk2
     \<and> map co_wipLimit (tk_columns busy_tracker) = [Some 1] \<and> wip_count tk2 ''p'' ''d'' = 2"
proof -
  let ?d = "\<lambda>i. (None, ep_data (move_edit i), []) :: edit_decision"
  have "\<exists>tk1. edit_write new 7 (move_edit ''i1'') (?d ''i1'') busy_tracker = Inr tk1"
    by (simp add: edit_write_def apply_data_def or_old_def busy_defs)
  then obtain tk1 where w1: "edit_write new 7 (move_edit ''i1'') (?d ''i1'') busy_tracker = Inr tk1" ..
  then have rows1: "db_issues (tk_core tk1) = map (\<lambda>y. if i_id y = ''i1'' then apply_data 7 (ep_data (move_edit ''i1'')) y else y) (db_issues (tk_core busy_tracker))"
    by (rule edit_write_core) (simp add: busy_defs)
  have "db_statuses (tk_core tk1) = db_statuses (tk_core busy_tracker)"
    using w1 by (auto simp: edit_write_def stored_edit_def Let_def split: option.splits if_split_asm)
  with rows1 have "\<exists>tk2. edit_write new 8 (move_edit ''i2'') (?d ''i2'') tk1 = Inr tk2"
    by (simp add: edit_write_def apply_data_def or_old_def busy_defs)
  then obtain tk2 where w2: "edit_write new 8 (move_edit ''i2'') (?d ''i2'') tk1 = Inr tk2" ..
  then have "db_issues (tk_core tk2) = map (\<lambda>y. if i_id y = ''i2'' then apply_data 8 (ep_data (move_edit ''i2'')) y else y) (db_issues (tk_core tk1))"
    by (rule edit_write_core) (simp add: busy_defs)
  with rows1 have "wip_count tk2 ''p'' ''d'' = 2"
    by (simp add: wip_count_def count_rows_def apply_data_def or_old_def busy_defs)
  moreover have "map co_wipLimit (tk_columns busy_tracker) = [Some 1]" by (simp add: busy_defs)
  ultimately show ?thesis
    by - (intro exI conjI, rule move_edit_read, simp, rule move_edit_read, simp, rule w1, rule w2, assumption+)
qed

theorem stale_edit_overwrites_witness:
  "\<exists>tk' row'. patch_commit (\<lambda>_. []) (\<lambda>_. None) (\<lambda>_. ''n'') 7 (amy_edit (no_data\<lparr>d_summary := Some ''mine''\<rparr>) 0) board_tracker = Inr tk'
     \<and> issue_row tk' ''i1'' = Some row' \<and> i_summary row' = ''mine'' \<and> i_version row' = 2"
  using stale_edit_overwrites [where tk = board_tracker and ep = "amy_edit (no_data\<lparr>d_summary := Some ''mine''\<rparr>) 0"
      and row = "sample_issue\<lparr>i_securityLevelId := None\<rparr>" and title = "''mine''" and show_js = "\<lambda>_. []" and parse_url = "\<lambda>_. None"
      and new = "\<lambda>_. ''n''" and now = 7]
  by (simp add: board_defs)

theorem listed_issues_are_viewable_witness:
  "canViewIssue board_core amy ''i1''"
proof -
  have "getProjectForContext board_core amy ''WEB'' = Some sample_project"
    by (simp add: getProjectForContext_def accessibleProjectWhere_def board_defs ascii_simps)
  moreover have "requireProjectPermission board_core amy ''p'' Issue_View"
    by (simp add: requireProjectPermission_iff find_project_def candidates_def project_role_of_def actor_groups_def grants_for_def board_defs)
  ultimately have "issues_GET board_tracker (Some amy) None None None = Inr [sample_issue\<lparr>i_securityLevelId := None\<rparr>]"
    by (simp add: issues_GET_def Let_def issueSecurityWhere_def board_tracker_def) (simp add: board_defs)
  from listed_issues_are_viewable [OF this] show ?thesis
    by (simp add: board_tracker_def sample_issue_def)
qed

end
