(* ===== verification/ParentChain.thy ===== *)
theory ParentChain
  imports Prelude
begin

text \<open>
  Parent pointers. Several handlers climb from a proposed parent to the root, one query per
  step, with a set of the ids already seen, and refuse when they meet the moved node or a
  loop. The climb is a function of the rows (id and parent of each); it terminates because
  every step adds a row's id to the seen set. The locale \<open>parent_store\<close> is what a store of
  parent pointers owes its clients: writing one pointer adds at most that edge.
\<close>

type_synonym 'a parent_rows = "('a \<times> 'a option) list"

definition parent_of :: "'a parent_rows \<Rightarrow> 'a \<Rightarrow> 'a option" where
  "parent_of rows x = (case map_of rows x of None \<Rightarrow> None | Some p \<Rightarrow> p)"

definition parent_rel :: "'a parent_rows \<Rightarrow> ('a \<times> 'a) set" where
  "parent_rel rows = {(x, y). parent_of rows x = Some y}"

datatype climb_outcome = Reached_Top | Hit_Target | Found_Loop

function climb :: "'a parent_rows \<Rightarrow> 'a \<Rightarrow> 'a option \<Rightarrow> 'a list \<Rightarrow> climb_outcome" where
  "climb rows t None seen = Reached_Top"
| "climb rows t (Some c) seen =
     (if c = t then Hit_Target
      else if c \<in> set seen then Found_Loop
      else climb rows t (parent_of rows c) (c # seen))"
  by pat_completeness auto

termination
proof (relation "measure (\<lambda>(rows, t, cur, seen).
    case cur of None \<Rightarrow> 0 | Some _ \<Rightarrow> Suc (card (set (map fst rows) - set seen)))")
  fix rows :: "'a parent_rows" and t c :: 'a and seen :: "'a list"
  assume fresh: "c \<notin> set seen"
  let ?ids = "set (map fst rows)"
  have "card (?ids - set (c # seen)) < card (?ids - set seen)" if "c \<in> ?ids"
    by (rule psubset_card_mono) (use that fresh in auto)
  moreover have "parent_of rows c = None" if "c \<notin> ?ids"
    using that by (simp add: parent_of_def map_of_eq_None_iff [THEN iffD2])
  ultimately show "((rows, t, parent_of rows c, c # seen), rows, t, Some c, seen)
      \<in> measure (\<lambda>(rows, t, cur, seen).
        case cur of None \<Rightarrow> 0 | Some _ \<Rightarrow> Suc (card (set (map fst rows) - set seen)))"
    by (cases "c \<in> ?ids") (auto split: option.splits)
qed simp

lemma parent_rel_iff [simp]: "(x, y) \<in> parent_rel rows \<longleftrightarrow> parent_of rows x = Some y"
  by (simp add: parent_rel_def)

lemma parent_of_Some: "parent_of rows x = Some y \<longleftrightarrow> map_of rows x = Some (Some y)"
  by (auto simp: parent_of_def split: option.splits)

lemma parent_rel_distinct:
  "distinct (map fst rows) \<Longrightarrow> parent_rel rows = {(x, y). (x, Some y) \<in> set rows}"
  by (auto simp: parent_rel_def parent_of_Some dest: map_of_SomeD)

lemma parent_rel_chain:
  "(c, t) \<in> (parent_rel rows)\<^sup>* \<longleftrightarrow>
     c = t \<or> (\<exists>p. parent_of rows c = Some p \<and> (p, t) \<in> (parent_rel rows)\<^sup>*)"
  by (metis converse_rtrancl_into_rtrancl converse_rtranclE parent_rel_iff rtrancl.rtrancl_refl)

lemma climb_top:
  "climb rows t cur seen = Reached_Top \<Longrightarrow>
   (case cur of None \<Rightarrow> True | Some c \<Rightarrow> (c, t) \<notin> (parent_rel rows)\<^sup>*)"
proof (induction rows t cur seen rule: climb.induct)
  case (2 rows t c seen)
  then have "c \<noteq> t" "c \<notin> set seen" and up: "climb rows t (parent_of rows c) (c # seen) = Reached_Top"
    by (auto split: if_splits)
  with "2.IH" have "case parent_of rows c of None \<Rightarrow> True | Some p \<Rightarrow> (p, t) \<notin> (parent_rel rows)\<^sup>*"
    by blast
  with \<open>c \<noteq> t\<close> show ?case using parent_rel_chain [of c t rows] by (auto split: option.splits)
qed simp

lemma climb_hit:
  "climb rows t cur seen = Hit_Target \<Longrightarrow>
   (case cur of None \<Rightarrow> False | Some c \<Rightarrow> (c, t) \<in> (parent_rel rows)\<^sup>*)"
proof (induction rows t cur seen rule: climb.induct)
  case (2 rows t c seen)
  show ?case
  proof (cases "c = t")
    case False
    with 2 have "c \<notin> set seen" and "climb rows t (parent_of rows c) (c # seen) = Hit_Target"
      by (auto split: if_splits)
    with "2.IH" False
    have "case parent_of rows c of None \<Rightarrow> False | Some p \<Rightarrow> (p, t) \<in> (parent_rel rows)\<^sup>*"
      by blast
    then show ?thesis using parent_rel_chain [of c t rows] by (auto split: option.splits)
  qed simp
qed simp

text \<open>When the climb reports a loop, the seen ids are closed under parents and miss the target.\<close>

lemma climb_loop:
  assumes "climb rows t cur seen = Found_Loop" and "cur = Some c" and "t \<notin> set seen"
    and "\<And>s. s \<in> set seen \<Longrightarrow> \<exists>y. parent_of rows s = Some y \<and> (y = c \<or> y \<in> set seen)"
    and "\<And>s. s \<in> set seen \<Longrightarrow> (s, c) \<in> (parent_rel rows)\<^sup>+"
  shows "(c, t) \<notin> (parent_rel rows)\<^sup>* \<and> (\<exists>x. (c, x) \<in> (parent_rel rows)\<^sup>* \<and> (x, x) \<in> (parent_rel rows)\<^sup>+)"
  using assms
proof (induction rows t cur seen arbitrary: c rule: climb.induct)
  case (2 rows t x seen)
  then have xc [simp]: "x = c" and ct: "c \<noteq> t" by (auto split: if_splits)
  show ?case
  proof (cases "c \<in> set seen")
    case True
    have "y \<in> set seen" if "(c, y) \<in> (parent_rel rows)\<^sup>*" for y
      using that by (induction) (use True 2 in \<open>fastforce+\<close>)
    with 2 True show ?thesis by blast
  next
    case False
    with 2 ct have step: "climb rows t (parent_of rows c) (c # seen) = Found_Loop" by simp
    then obtain p where p: "parent_of rows c = Some p" by (cases "parent_of rows c") auto
    have "(p, t) \<notin> (parent_rel rows)\<^sup>*
        \<and> (\<exists>x. (p, x) \<in> (parent_rel rows)\<^sup>* \<and> (x, x) \<in> (parent_rel rows)\<^sup>+)"
    proof (rule "2.IH")
      fix s assume "s \<in> set (x # seen)"
      with 2 p show "\<exists>y. parent_of rows s = Some y \<and> (y = p \<or> y \<in> set (x # seen))" by fastforce
      have cp: "(c, p) \<in> (parent_rel rows)\<^sup>+" using p by auto
      from \<open>s \<in> set (x # seen)\<close> show "(s, p) \<in> (parent_rel rows)\<^sup>+"
        using "2.prems"(5) cp by (auto intro: trancl_trans)
    qed (use False ct step p 2 in auto)
    with ct p show ?thesis by (auto simp: parent_rel_chain [of c] intro: converse_rtrancl_into_rtrancl)
  qed
qed simp

text \<open>The three outcomes of a climb, as reachability in the parent graph.\<close>

lemma climb_hit_iff:
  "climb rows t (Some c) [] = Hit_Target \<longleftrightarrow> (c, t) \<in> (parent_rel rows)\<^sup>*"
  using climb_top [of rows t "Some c" "[]"] climb_hit [of rows t "Some c" "[]"]
    climb_loop [of rows t "Some c" "[]" c]
  by (cases "climb rows t (Some c) []") auto

lemma climb_loop_cyclic:
  "climb rows t (Some c) [] = Found_Loop \<Longrightarrow> \<not> acyclic (parent_rel rows)"
  using climb_loop [of rows t "Some c" "[]" c] by (auto simp: acyclic_def)

lemma climb_acyclic:
  "acyclic (parent_rel rows) \<Longrightarrow>
   climb rows t (Some c) [] = (if (c, t) \<in> (parent_rel rows)\<^sup>* then Hit_Target else Reached_Top)"
  using climb_hit_iff [of rows t c] climb_loop_cyclic [of rows t c]
  by (cases "climb rows t (Some c) []") auto

section \<open>Stores of parent pointers\<close>

definition drops :: "('a \<Rightarrow> int option) \<Rightarrow> 'a \<Rightarrow> 'a \<Rightarrow> bool" where
  "drops rank x y \<longleftrightarrow> (case (rank x, rank y) of (Some rx, Some ry) \<Rightarrow> ry < rx | _ \<Rightarrow> False)"

lemma ranked_acyclic:
  assumes "\<forall>(x, y)\<in>E. drops rank x y"
  shows "acyclic E"
proof (rule acyclicI_order [where f = "\<lambda>x. case rank x of None \<Rightarrow> 0 | Some r \<Rightarrow> r"])
  fix a b assume "(a, b) \<in> E"
  with assms show "(case rank b of None \<Rightarrow> 0 | Some r \<Rightarrow> r) < (case rank a of None \<Rightarrow> 0 | Some r \<Rightarrow> r)"
    by (force simp: drops_def split: option.splits)
qed

locale parent_store =
  fixes edges :: "'s \<Rightarrow> ('a \<times> 'a) set"
    and move :: "'m \<Rightarrow> 's \<Rightarrow> 's"
    and node :: "'m \<Rightarrow> 'a"
    and target :: "'m \<Rightarrow> 'a option"
  assumes move_edges: "edges (move m s) \<subseteq> edges s \<union> {(node m, y) | y. target m = Some y}"
begin

lemma move_acyclic:
  assumes "acyclic (edges s)" and "\<And>y. target m = Some y \<Longrightarrow> (y, node m) \<notin> (edges s)\<^sup>*"
  shows "acyclic (edges (move m s))"
proof (cases "target m")
  case None
  then have "edges (move m s) \<subseteq> edges s" using move_edges [of m s] by auto
  with assms(1) show ?thesis by (rule acyclic_subset)
next
  case (Some y)
  then have "edges (move m s) \<subseteq> insert (node m, y) (edges s)" using move_edges [of m s] by auto
  moreover have "acyclic (insert (node m, y) (edges s))" using assms Some by (simp add: acyclic_insert)
  ultimately show ?thesis by (rule acyclic_subset [rotated])
qed

text \<open>
  A rank that drops along every edge rules cycles out for good, whatever the order in which
  moves are checked and applied.
\<close>

lemma move_ranked:
  fixes rank :: "'a \<Rightarrow> int option"
  assumes "\<forall>(x, y)\<in>edges s. drops rank x y"
    and "\<And>y. target m = Some y \<Longrightarrow> drops rank (node m) y"
  shows "\<forall>(x, y)\<in>edges (move m s). drops rank x y"
  using assms move_edges [of m s] by auto

end

end
