(* ===== verification/Hierarchy.thy ===== *)
theory Hierarchy
  imports Permissions ParentChain
begin

text \<open>
  Reparenting issues (\<open>src/lib/hierarchy.ts\<close>). The handler reads child and parent, checks
  access, rank and the ancestor chain, and then commits a version-guarded update in a
  transaction of its own. The model keeps the two phases apart (\<open>reparent_check\<close>,
  \<open>reparent_commit\<close>), so that a run may interleave the phases of several requests.
\<close>

datatype hierarchy_error =
    Level_Name_Invalid | Level_Color_Invalid | Version_Required | Issue_Not_Found
  | Own_Parent | Ineligible_Level | Would_Cycle | Existing_Cycle | Issue_Changed | Concurrent_Conflict

fun hierarchy_status :: "hierarchy_error \<Rightarrow> nat" where
  "hierarchy_status Level_Name_Invalid = 400"
| "hierarchy_status Level_Color_Invalid = 400"
| "hierarchy_status Version_Required = 400"
| "hierarchy_status Issue_Not_Found = 404"
| "hierarchy_status _ = 409"

definition is_hex :: "char \<Rightarrow> bool" where
  "is_hex c \<longleftrightarrow> is_digit c \<or> c \<in> set ''abcdef''"

definition validateHierarchyLevel :: "jobj \<Rightarrow> (hierarchy_error, string \<times> string) result" where
  "validateHierarchyLevel fs =
     (let name = trim (string_or_empty (field ''name'' fs));
          color = to_lower (string_or_empty (field ''color'' fs))
      in if name = [] \<or> length name > 50 then Inl Level_Name_Invalid
         else if \<not> (length color = 7 \<and> hd color = CHR ''#'' \<and> list_all is_hex (tl color)) then Inl Level_Color_Invalid
         else Inr (name, color))"

text \<open>\<open>rank\<close>: the level's position, 10000 for an epic without one, otherwise no rank.\<close>

definition level_position :: "workspace_db \<Rightarrow> issue \<Rightarrow> int option" where
  "level_position db i =
     (case i_hierarchyLevelId i of None \<Rightarrow> None
      | Some l \<Rightarrow> map_option hl_position (find (\<lambda>h. hl_id h = l) (db_levels db)))"

definition is_epic :: "workspace_db \<Rightarrow> issue \<Rightarrow> bool" where
  "is_epic db i =
     (case find (\<lambda>t. it_id t = i_issueTypeId i) (db_issueTypes db) of None \<Rightarrow> False | Some t \<Rightarrow> it_isEpic t)"

definition rank :: "workspace_db \<Rightarrow> issue \<Rightarrow> int option" where
  "rank db i =
     (case level_position db i of
        Some pos \<Rightarrow> Some pos
      | None \<Rightarrow> if is_epic db i then Some 10000 else None)"

text \<open>The rows the ancestor walk reads: every issue of the workspace, archived or not.\<close>

definition parent_rows :: "workspace_db \<Rightarrow> string \<Rightarrow> string parent_rows" where
  "parent_rows db w = map (\<lambda>i. (i_id i, i_parentId i)) (filter (\<lambda>i. i_workspaceId i = w) (db_issues db))"

record reparent_input =
  ri_issueId :: string
  ri_parentId :: "string option"
  ri_version :: js

definition check_rank :: "workspace_db \<Rightarrow> issue \<Rightarrow> issue \<Rightarrow> (hierarchy_error, unit) result" where
  "check_rank db child parent =
     (case (rank db child, rank db parent) of
        (Some cr, Some pr) \<Rightarrow> throw_when (pr \<ge> cr) Ineligible_Level
      | _ \<Rightarrow> Inl Ineligible_Level)"

definition check_chain :: "workspace_db \<Rightarrow> auth_context \<Rightarrow> issue \<Rightarrow> issue \<Rightarrow> (hierarchy_error, unit) result" where
  "check_chain db cx child parent =
     (case climb (parent_rows db (cx_workspaceId cx)) (i_id child) (Some (i_id parent)) [] of
        Hit_Target \<Rightarrow> Inl Would_Cycle
      | Found_Loop \<Rightarrow> Inl Existing_Cycle
      | Reached_Top \<Rightarrow> Inr ())"

definition find_parent :: "workspace_db \<Rightarrow> auth_context \<Rightarrow> string option \<Rightarrow> issue option" where
  "find_parent db cx pid =
     (case pid of None \<Rightarrow> None | Some [] \<Rightarrow> None | Some p \<Rightarrow> find_issue db cx p)"

definition reparent_check ::
  "workspace_db \<Rightarrow> auth_context \<Rightarrow> reparent_input \<Rightarrow> (hierarchy_error, issue \<times> issue option) result" where
  "reparent_check db cx inp =
     (if (case as_integer (ri_version inp) of None \<Rightarrow> True | Some v \<Rightarrow> v < 1) then Inl Version_Required
      else
       (let parent = find_parent db cx (ri_parentId inp);
            wanted = (case ri_parentId inp of None \<Rightarrow> None | Some [] \<Rightarrow> None | Some p \<Rightarrow> Some p)
        in case find_issue db cx (ri_issueId inp) of
             None \<Rightarrow> Inl Issue_Not_Found
           | Some child \<Rightarrow>
               bind_result (throw_when (\<not> canViewIssue db cx (ri_issueId inp)
                   \<or> (case wanted of None \<Rightarrow> False | Some p \<Rightarrow> parent = None \<or> \<not> canViewIssue db cx p))
                   Issue_Not_Found) (\<lambda>_.
               bind_result (throw_when (\<not> requireProjectPermission db cx (i_projectId child) Issue_Edit
                   \<or> (case parent of None \<Rightarrow> False
                       | Some p \<Rightarrow> \<not> requireProjectPermission db cx (i_projectId p) Issue_Edit))
                   Issue_Not_Found) (\<lambda>_.
               (case parent of
                  None \<Rightarrow> Inr (child, None)
                | Some p \<Rightarrow>
                    bind_result (throw_when (i_id p = i_id child) Own_Parent) (\<lambda>_.
                    bind_result (check_rank db child p) (\<lambda>_.
                    bind_result (check_chain db cx child p) (\<lambda>_.
                    Inr (child, Some p)))))))))"

text \<open>\<open>JSON\<close> of a nullable id, for the activity and audit rows.\<close>

fun js_id :: "string option \<Rightarrow> js" where
  "js_id None = JNull"
| "js_id (Some s) = JStr s"

definition guarded :: "auth_context \<Rightarrow> issue \<Rightarrow> int \<Rightarrow> issue \<Rightarrow> bool" where
  "guarded cx child v i \<longleftrightarrow>
     i_id i = i_id child \<and> i_workspaceId i = cx_workspaceId cx \<and> i_version i = v \<and> i_parentId i = i_parentId child"

text \<open>
  The transaction. \<open>aborted\<close> says that the database gave up the serializable transaction,
  which the handler reports as a conflict.
\<close>

definition reparent_commit ::
  "bool \<Rightarrow> workspace_db \<Rightarrow> auth_context \<Rightarrow> issue \<Rightarrow> issue option \<Rightarrow> int \<Rightarrow>
    (hierarchy_error, workspace_db \<times> issue option) result" where
  "reparent_commit aborted db cx child parent v =
     (if aborted then Inl Concurrent_Conflict
      else if count_rows (guarded cx child v) (db_issues db) = 0 then Inl Issue_Changed
      else
       (let to = map_option i_id parent;
            db1 = update_issues (guarded cx child v)
                    (\<lambda>i. i\<lparr>i_parentId := to, i_version := i_version i + 1\<rparr>) db;
            row = find (\<lambda>i. i_id i = i_id child) (db_issues db1)
        in Inr (db1\<lparr>
             db_activities := db_activities db @
               [\<lparr>ac_issueId = i_id child, ac_actorId = Some (cx_userId cx), ac_action = ''issue.reparented'',
                 ac_changes = JObj [(''parentId'', JObj [(''from'', js_id (i_parentId child)), (''to'', js_id to)]),
                   (''crossProject'', JBool (case parent of None \<Rightarrow> False | Some p \<Rightarrow> i_projectId p \<noteq> i_projectId child))]\<rparr>],
             db_audit := db_audit db @
               [\<lparr>au_workspaceId = cx_workspaceId cx, au_actorId = Some (cx_userId cx),
                 au_action = ''hierarchy.parent_changed'', au_targetType = ''issue'', au_targetId = i_id child,
                 au_metadata = JObj [(''fromParentId'', js_id (i_parentId child)), (''toParentId'', js_id to),
                   (''fromVersion'', JInt v)]\<rparr>]\<rparr>, row)))"

definition reparentIssue ::
  "bool \<Rightarrow> workspace_db \<Rightarrow> auth_context \<Rightarrow> reparent_input \<Rightarrow>
    (hierarchy_error, workspace_db \<times> issue option) result" where
  "reparentIssue aborted db cx inp =
     bind_result (reparent_check db cx inp) (\<lambda>(child, parent).
       reparent_commit aborted db cx child parent
         (case as_integer (ri_version inp) of None \<Rightarrow> 0 | Some v \<Rightarrow> v))"

section \<open>Breadcrumbs and rollup\<close>

definition visible_row :: "workspace_db \<Rightarrow> auth_context \<Rightarrow> issue \<Rightarrow> bool" where
  "visible_row db cx i \<longleftrightarrow>
     i_workspaceId i = cx_workspaceId cx \<and> i_archivedAt i = None
   \<and> list_ex (\<lambda>p. p_id p = i_projectId i \<and> accessibleProjectWhere db cx p) (db_projects db)
   \<and> issueSecurityWhere db cx None i"

fun breadcrumbs :: "nat \<Rightarrow> workspace_db \<Rightarrow> auth_context \<Rightarrow> string option \<Rightarrow> issue list \<Rightarrow> issue list" where
  "breadcrumbs 0 db cx cur acc = acc"
| "breadcrumbs (Suc room) db cx None acc = acc"
| "breadcrumbs (Suc room) db cx (Some p) acc =
     (case find (\<lambda>i. i_id i = p \<and> visible_row db cx i) (db_issues db) of
        None \<Rightarrow> acc
      | Some a \<Rightarrow> breadcrumbs room db cx (i_parentId a) (a # acc))"

record rollup =
  ru_visible :: nat
  ru_completed :: nat
  ru_estimate :: int

definition project_key :: "workspace_db \<Rightarrow> issue \<Rightarrow> string" where
  "project_key db i = (case find (\<lambda>p. p_id p = i_projectId i) (db_projects db) of None \<Rightarrow> [] | Some p \<Rightarrow> p_key p)"

text \<open>\<open>orderBy\<close> project key, then number: two stable sorts, the minor key first.\<close>

definition children_of :: "workspace_db \<Rightarrow> auth_context \<Rightarrow> string \<Rightarrow> issue list" where
  "children_of db cx iid = sort_key (project_key db) (sort_key i_number
     (filter (\<lambda>i. i_parentId i = Some iid \<and> visible_row db cx i) (db_issues db)))"

definition estimate_sum :: "issue list \<Rightarrow> int" where
  "estimate_sum is = sum_list (map (\<lambda>i. case i_estimate i of None \<Rightarrow> 0 | Some e \<Rightarrow> e) is)"

definition hierarchySummary ::
  "workspace_db \<Rightarrow> auth_context \<Rightarrow> string \<Rightarrow> (hierarchy_error, issue list \<times> issue list \<times> rollup) result" where
  "hierarchySummary db cx iid =
     (if \<not> canViewIssue db cx iid then Inl Issue_Not_Found
      else
       (let kids = children_of db cx iid;
            start = (case find (\<lambda>i. i_id i = iid \<and> i_workspaceId i = cx_workspaceId cx) (db_issues db) of
                       None \<Rightarrow> None | Some i \<Rightarrow> i_parentId i)
        in Inr (breadcrumbs 20 db cx start [], kids,
             \<lparr>ru_visible = length kids, ru_completed = length (filter (\<lambda>i. i_completedAt i \<noteq> None) kids),
              ru_estimate = estimate_sum kids\<rparr>)))"


section \<open>Lemmas: what a passed check guarantees\<close>

lemma find_issue_SomeD:
  "find_issue db cx iid = Some i \<Longrightarrow>
     i \<in> set (db_issues db) \<and> i_id i = iid \<and> i_workspaceId i = cx_workspaceId cx \<and> i_archivedAt i = None"
  unfolding find_issue_def by (auto dest: find_SomeD)

lemma find_parent_SomeD:
  "find_parent db cx pid = Some p \<Longrightarrow>
     pid = Some (i_id p) \<and> p \<in> set (db_issues db) \<and> i_workspaceId p = cx_workspaceId cx"
  unfolding find_parent_def by (auto dest: find_issue_SomeD split: option.splits list.splits)

lemma reparent_check_child:
  assumes "reparent_check db cx inp = Inr (child, parent)"
  shows "child \<in> set (db_issues db)" and "i_id child = ri_issueId inp"
    and "i_workspaceId child = cx_workspaceId cx" and "canViewIssue db cx (i_id child)"
    and "requireProjectPermission db cx (i_projectId child) Issue_Edit"
    and "\<exists>v\<ge>1. as_integer (ri_version inp) = Some v"
    and "parent = find_parent db cx (ri_parentId inp)"
  using assms unfolding reparent_check_def
  by (auto simp: result_elims Let_def split: option.splits if_splits dest: find_issue_SomeD)

lemma reparent_check_parent:
  assumes "reparent_check db cx inp = Inr (child, Some p)"
  shows "p \<in> set (db_issues db)" and "i_workspaceId p = cx_workspaceId cx" and "canViewIssue db cx (i_id p)"
    and "requireProjectPermission db cx (i_projectId p) Issue_Edit"
    and "i_id p \<noteq> i_id child" and "check_rank db child p = Inr ()" and "check_chain db cx child p = Inr ()"
proof -
  have fp: "find_parent db cx (ri_parentId inp) = Some p"
    using reparent_check_child(7) [OF assms] by simp
  from find_parent_SomeD [OF fp] show "p \<in> set (db_issues db)" "i_workspaceId p = cx_workspaceId cx"
    by simp_all
  from find_parent_SomeD [OF fp] fp assms
  show "canViewIssue db cx (i_id p)" "requireProjectPermission db cx (i_projectId p) Issue_Edit"
      "i_id p \<noteq> i_id child" "check_rank db child p = Inr ()" "check_chain db cx child p = Inr ()"
    unfolding reparent_check_def
    by (auto simp: result_elims Let_def find_parent_def split: option.splits if_splits list.splits)
qed

lemma check_rank_Inr:
  "check_rank db child p = Inr () \<longleftrightarrow>
     (\<exists>cr pr. rank db child = Some cr \<and> rank db p = Some pr \<and> pr < cr)"
  by (auto simp: check_rank_def throw_when_def split: option.splits)

lemma check_chain_Inr:
  "check_chain db cx child p = Inr () \<Longrightarrow>
     (i_id p, i_id child) \<notin> (parent_rel (parent_rows db (cx_workspaceId cx)))\<^sup>*"
  using climb_hit_iff [of "parent_rows db (cx_workspaceId cx)" "i_id child" "i_id p"]
  by (auto simp: check_chain_def split: climb_outcome.splits)

section \<open>Lemmas: what a commit does\<close>

lemma reparent_commit_Inr:
  assumes "reparent_commit aborted db cx child parent v = Inr (db', row)"
  shows "db_issues db' = map (\<lambda>i. if guarded cx child v i
           then i\<lparr>i_parentId := map_option i_id parent, i_version := i_version i + 1\<rparr> else i) (db_issues db)"
    and "\<exists>i\<in>set (db_issues db). guarded cx child v i"
    and "db_levels db' = db_levels db" and "db_issueTypes db' = db_issueTypes db"
    and "length (db_activities db') = Suc (length (db_activities db))"
    and "length (db_audit db') = Suc (length (db_audit db))"
    and "row = find (\<lambda>i. i_id i = i_id child) (db_issues db')"
  using assms unfolding reparent_commit_def by (auto simp: Let_def split: if_splits)

definition edges :: "string \<Rightarrow> workspace_db \<Rightarrow> (string \<times> string) set" where
  "edges w db = {(i_id i, q) | i q. i \<in> set (db_issues db) \<and> i_workspaceId i = w \<and> i_parentId i = Some q}"

definition ids_unique :: "workspace_db \<Rightarrow> bool" where
  "ids_unique db \<longleftrightarrow> distinct (map i_id (db_issues db))"

lemma ids_uniqueD:
  "ids_unique db \<Longrightarrow> i \<in> set (db_issues db) \<Longrightarrow> j \<in> set (db_issues db) \<Longrightarrow> i_id i = i_id j \<Longrightarrow> i = j"
  by (auto simp: ids_unique_def distinct_map dest: inj_onD)

lemma edges_parent_rel: "ids_unique db \<Longrightarrow> parent_rel (parent_rows db w) = edges w db"
proof -
  assume "ids_unique db"
  then have d: "distinct (map fst (parent_rows db w))"
    unfolding ids_unique_def parent_rows_def by (simp add: comp_def distinct_map_filter)
  show ?thesis
    unfolding parent_rel_distinct [OF d] by (auto simp: edges_def parent_rows_def)
qed

text \<open>A commit as a total step: a refused one leaves the database as it was.\<close>

type_synonym approval = "auth_context \<times> issue \<times> issue option \<times> int"

definition commit_step :: "approval \<Rightarrow> workspace_db \<Rightarrow> workspace_db" where
  "commit_step a db =
     (case a of (cx, child, parent, v) \<Rightarrow>
        (case reparent_commit False db cx child parent v of Inl _ \<Rightarrow> db | Inr (db', _) \<Rightarrow> db'))"

definition approved_node :: "approval \<Rightarrow> string" where
  "approved_node a = i_id (fst (snd a))"

definition approved_target :: "approval \<Rightarrow> string option" where
  "approved_target a = map_option i_id (fst (snd (snd a)))"

lemma commit_step_issues:
  "db_issues (commit_step (cx, child, parent, v) db) = map (\<lambda>i. if guarded cx child v i
      then i\<lparr>i_parentId := map_option i_id parent, i_version := i_version i + 1\<rparr> else i) (db_issues db)"
proof (cases "reparent_commit False db cx child parent v")
  case (Inl e)
  then have "\<forall>i\<in>set (db_issues db). \<not> guarded cx child v i"
    by (auto simp: reparent_commit_def Let_def split: if_splits)
  with Inl show ?thesis by (simp add: commit_step_def map_idI)
next
  case (Inr r)
  then show ?thesis
    using reparent_commit_Inr(1) [of False db cx child parent v "fst r" "snd r"]
    by (auto simp: commit_step_def split: prod.splits)
qed

lemma commit_step_edges:
  "edges w (commit_step a db) \<subseteq> edges w db \<union> {(approved_node a, y) | y. approved_target a = Some y}"
proof -
  obtain cx child parent v where a: "a = (cx, child, parent, v)" by (cases a) auto
  show ?thesis
    unfolding a edges_def approved_node_def approved_target_def commit_step_issues
    by (auto simp: guarded_def split: if_splits)
qed

interpretation issues: parent_store "edges w" commit_step approved_node approved_target for w
  by unfold_locales (rule commit_step_edges)

lemma commit_step_ids: "map i_id (db_issues (commit_step a db)) = map i_id (db_issues db)"
  by (cases a) (simp add: commit_step_issues comp_def if_distrib cong: if_cong)

lemma commit_step_tables:
  "db_levels (commit_step a db) = db_levels db" "db_issueTypes (commit_step a db) = db_issueTypes db"
  by (cases a; auto simp: commit_step_def reparent_commit_Inr split: sum.splits)+

text \<open>The rank of an id does not change when parents move.\<close>

definition rank_of_id :: "workspace_db \<Rightarrow> string \<Rightarrow> int option" where
  "rank_of_id db x = (case find (\<lambda>i. i_id i = x) (db_issues db) of None \<Rightarrow> None | Some i \<Rightarrow> rank db i)"

lemma rank_of_id_row: "ids_unique db \<Longrightarrow> i \<in> set (db_issues db) \<Longrightarrow> rank_of_id db (i_id i) = rank db i"
  unfolding ids_unique_def rank_of_id_def by (simp add: find_unique)

lemma find_map_same:
  "(\<And>y. P (f y) = P y) \<Longrightarrow> find P (map f xs) = map_option f (find P xs)"
  by (induction xs) simp_all

lemma rank_of_id_commit: "rank_of_id (commit_step a db) = rank_of_id db"
proof
  fix x
  obtain cx child parent v where a: "a = (cx, child, parent, v)" by (cases a) auto
  have "rank (commit_step a db) (if guarded cx child v i
      then i\<lparr>i_parentId := map_option i_id parent, i_version := i_version i + 1\<rparr> else i) = rank db i" for i
    by (simp add: rank_def level_position_def is_epic_def commit_step_tables cong: option.case_cong)
  then show "rank_of_id (commit_step a db) x = rank_of_id db x"
    unfolding rank_of_id_def a commit_step_issues
    by (subst find_map_same) (auto split: option.splits)
qed

lemma checked_drops:
  assumes "ids_unique db" and "reparent_check db cx inp = Inr (child, Some p)"
  shows "drops (rank_of_id db) (i_id child) (i_id p)"
proof -
  from check_rank_Inr reparent_check_parent(6) [OF assms(2)]
  obtain cr pr where "rank db child = Some cr" "rank db p = Some pr" "pr < cr" by blast
  with rank_of_id_row [OF assms(1)] reparent_check_child(1) [OF assms(2)] reparent_check_parent(1) [OF assms(2)]
  show ?thesis by (simp add: drops_def)
qed

section \<open>Interleaved requests\<close>

record hier_state =
  hs_db :: workspace_db
  hs_pending :: "approval list"

inductive hier_step :: "hier_state \<Rightarrow> hier_state \<Rightarrow> bool" where
  check: "reparent_check (hs_db s) cx inp = Inr (child, parent) \<Longrightarrow> as_integer (ri_version inp) = Some v \<Longrightarrow>
     hier_step s (s\<lparr>hs_pending := (cx, child, parent, v) # hs_pending s\<rparr>)"
| commit: "a \<in> set (hs_pending s) \<Longrightarrow>
     hier_step s (s\<lparr>hs_db := commit_step a (hs_db s), hs_pending := remove1 a (hs_pending s)\<rparr>)"
| abort: "a \<in> set (hs_pending s) \<Longrightarrow> hier_step s (s\<lparr>hs_pending := remove1 a (hs_pending s)\<rparr>)"

inductive hier_run :: "hier_state \<Rightarrow> hier_state \<Rightarrow> bool" where
  refl: "hier_run s s"
| step: "hier_run s t \<Longrightarrow> hier_step t u \<Longrightarrow> hier_run s u"

definition ranked :: "string \<Rightarrow> workspace_db \<Rightarrow> bool" where
  "ranked w db \<longleftrightarrow> (\<forall>(x, y)\<in>edges w db. drops (rank_of_id db) x y)"

definition hier_inv :: "string \<Rightarrow> hier_state \<Rightarrow> bool" where
  "hier_inv w s \<longleftrightarrow> ids_unique (hs_db s) \<and> ranked w (hs_db s)
     \<and> (\<forall>a\<in>set (hs_pending s). \<forall>y. approved_target a = Some y \<longrightarrow>
          drops (rank_of_id (hs_db s)) (approved_node a) y)"

lemma hier_step_inv: "hier_step s t \<Longrightarrow> hier_inv w s \<Longrightarrow> hier_inv w t"
proof (induction rule: hier_step.induct)
  case (check s cx inp child parent v)
  then show ?case
    by (cases parent) (auto simp: hier_inv_def approved_target_def approved_node_def intro: checked_drops)
next
  case (commit a s)
  then have "\<forall>(x, y)\<in>edges w (commit_step a (hs_db s)). drops (rank_of_id (hs_db s)) x y"
    by (intro issues.move_ranked) (auto simp: hier_inv_def ranked_def)
  with commit show ?case
    by (auto simp: hier_inv_def ranked_def ids_unique_def commit_step_ids rank_of_id_commit
        dest: set_remove1_subset [THEN subsetD])
next
  case (abort a s)
  then show ?case by (auto simp: hier_inv_def dest: set_remove1_subset [THEN subsetD])
qed

lemma hier_run_inv: "hier_run s t \<Longrightarrow> hier_inv w s \<Longrightarrow> hier_inv w t"
  by (induction rule: hier_run.induct) (auto intro: hier_step_inv)


lemma hier_inv_acyclic: "hier_inv w s \<Longrightarrow> acyclic (edges w (hs_db s))"
  unfolding hier_inv_def ranked_def by (intro ranked_acyclic) blast

lemma reparentIssue_Inr:
  assumes "reparentIssue aborted db cx inp = Inr (db', row)"
  shows "\<exists>child parent v. reparent_check db cx inp = Inr (child, parent) \<and> as_integer (ri_version inp) = Some v
     \<and> reparent_commit aborted db cx child parent v = Inr (db', row)"
  using assms reparent_check_child(6) [of db cx inp]
  unfolding reparentIssue_def by (fastforce simp: result_elims)

lemma reparent_commit_False:
  "reparent_commit aborted db cx child parent v = Inr r \<Longrightarrow> reparent_commit False db cx child parent v = Inr r"
  by (auto simp: reparent_commit_def split: if_splits)

section \<open>Properties\<close>

text \<open>
  C1: A reparent whose transaction commits on the database its checks read keeps the parent graph of the
  workspace acyclic, whatever the levels of the issues already in it: the walk over the ancestors refuses
  every move that would close a cycle.
\<close>

theorem reparent_keeps_acyclic:
  assumes "reparentIssue aborted db cx inp = Inr (db', row)"
    and "ids_unique db" and "acyclic (edges (cx_workspaceId cx) db)"
  shows "acyclic (edges (cx_workspaceId cx) db')"
proof -
  from reparentIssue_Inr [OF assms(1)] obtain child parent v
    where check: "reparent_check db cx inp = Inr (child, parent)"
      and commit: "reparent_commit aborted db cx child parent v = Inr (db', row)" by blast
  from reparent_commit_False [OF commit]
  have db': "db' = commit_step (cx, child, parent, v) db" by (simp add: commit_step_def)
  have "(y, i_id child) \<notin> (edges (cx_workspaceId cx) db)\<^sup>*" if "map_option i_id parent = Some y" for y
  proof -
    from that obtain p where p: "parent = Some p" "y = i_id p" by auto
    from check_chain_Inr [OF reparent_check_parent(7) [OF check [unfolded p(1)]]] p(2)
    show ?thesis by (simp add: edges_parent_rel [OF assms(2)])
  qed
  with assms(3) show ?thesis
    unfolding db' by (intro issues.move_acyclic) (auto simp: approved_node_def approved_target_def)
qed


text \<open>
  a successful reparent was authorised (both issues visible, both projects editable), had
  the current version in hand, and changes one row: the child gets the new parent and the next
  version, every other issue is untouched, and one activity and one audit entry are added.
\<close>

theorem reparent_guarded_update:
  assumes "reparentIssue aborted db cx inp = Inr (db', row)" and "ids_unique db"
  shows "\<exists>child parent. child \<in> set (db_issues db) \<and> i_id child = ri_issueId inp
     \<and> canViewIssue db cx (i_id child) \<and> requireProjectPermission db cx (i_projectId child) Issue_Edit
     \<and> ri_version inp = JInt (i_version child) \<and> parent = find_parent db cx (ri_parentId inp)
     \<and> db_issues db' = map (\<lambda>i. if i_id i = i_id child
          then i\<lparr>i_parentId := map_option i_id parent, i_version := i_version child + 1\<rparr> else i) (db_issues db)
     \<and> row = Some (child\<lparr>i_parentId := map_option i_id parent, i_version := i_version child + 1\<rparr>)
     \<and> length (db_activities db') = Suc (length (db_activities db))
     \<and> length (db_audit db') = Suc (length (db_audit db))"
proof -
  from reparentIssue_Inr [OF assms(1)] obtain child parent v
    where check: "reparent_check db cx inp = Inr (child, parent)" and v: "ri_version inp = JInt v"
      and commit: "reparent_commit aborted db cx child parent v = Inr (db', row)"
    by (auto simp: as_integer_Some)
  note ch = reparent_check_child [OF check] and co = reparent_commit_Inr [OF commit]
  have same: "i = child" if "i \<in> set (db_issues db)" "i_id i = i_id child" for i
    using that ch(1) by (intro ids_uniqueD [OF assms(2)])
  then have "guarded cx child v child" using co(2) by (auto simp: guarded_def)
  then have g: "guarded cx child v i \<longleftrightarrow> i_id i = i_id child" if "i \<in> set (db_issues db)" for i
    using same [OF that] by (auto simp: guarded_def)
  have vc: "i_version child = v" using \<open>guarded cx child v child\<close> by (simp add: guarded_def)
  have upd: "db_issues db' = map (\<lambda>i. if i_id i = i_id child
      then i\<lparr>i_parentId := map_option i_id parent, i_version := i_version child + 1\<rparr> else i) (db_issues db)"
    unfolding co(1) using g same vc by (intro map_cong) auto
  have "row = Some (child\<lparr>i_parentId := map_option i_id parent, i_version := i_version child + 1\<rparr>)"
    unfolding co(7) upd using find_unique [of i_id "db_issues db" child] ch(1) assms(2)
    by (subst find_map_same) (auto simp: ids_unique_def)
  with ch co(5,6) v vc upd show ?thesis by (intro exI [of _ child] exI [of _ parent]) simp
qed

text \<open>
  first committer wins. Of two approved moves of the same issue at the same version, the
  one that commits second is refused as stale, whatever it wanted.
\<close>

theorem first_committer_wins:
  assumes "reparent_commit aborted db cx child parent v = Inr (db', row)" and "ids_unique db"
    and "i_id child' = i_id child"
  shows "reparent_commit False db' cx' child' parent' v = Inl Issue_Changed"
proof -
  have "\<not> guarded cx' child' v i" if "i \<in> set (db_issues db')" for i
  proof -
    from that obtain j where j: "j \<in> set (db_issues db)" and i: "i = (if guarded cx child v j
        then j\<lparr>i_parentId := map_option i_id parent, i_version := i_version j + 1\<rparr> else j)"
      unfolding reparent_commit_Inr(1) [OF assms(1)] by auto
    from reparent_commit_Inr(2) [OF assms(1)] obtain k
      where k: "k \<in> set (db_issues db)" "guarded cx child v k" by blast
    have "j = k" if "i_id j = i_id child"
      using that j(1) k by (intro ids_uniqueD [OF assms(2)]) (auto simp: guarded_def)
    with i k assms(3) show ?thesis by (auto simp: guarded_def split: if_splits)
  qed
  then show ?thesis by (simp add: reparent_commit_def)
qed

section \<open>Witnesses\<close>

definition epic_a :: issue where
  "epic_a = sample_issue\<lparr>i_id := ''a'', i_hierarchyLevelId := Some ''top'', i_securityLevelId := None\<rparr>"

definition epic_b :: issue where
  "epic_b = sample_issue\<lparr>i_id := ''b'', i_hierarchyLevelId := Some ''mid'', i_securityLevelId := None\<rparr>"

definition hier_db :: workspace_db where
  "hier_db = sample_db\<lparr>db_issues := [epic_a, epic_b],
     db_levels := [\<lparr>hl_id = ''top'', hl_workspaceId = ''w'', hl_position = 1, hl_archivedAt = None\<rparr>,
       \<lparr>hl_id = ''mid'', hl_workspaceId = ''w'', hl_position = 2, hl_archivedAt = None\<rparr>]\<rparr>"

definition b_under_a :: reparent_input where
  "b_under_a = \<lparr>ri_issueId = ''b'', ri_parentId = Some ''a'', ri_version = JInt 1\<rparr>"

lemma b_under_a_version [simp]: "as_integer (ri_version b_under_a) = Some 1"
  by (simp add: b_under_a_def)

lemmas hier_sample_defs = epic_a_def epic_b_def hier_db_def b_under_a_def sample_defs

lemma hier_db_facts:
  "ids_unique hier_db" "acyclic (edges ''w'' hier_db)" "ranked ''w'' hier_db"
proof -
  show "ids_unique hier_db" by (simp add: ids_unique_def hier_sample_defs)
  have "edges ''w'' hier_db = {}" by (auto simp: edges_def hier_sample_defs)
  then show "acyclic (edges ''w'' hier_db)" "ranked ''w'' hier_db"
    by (simp_all add: ranked_def acyclic_def)
qed

lemma hier_db_visible: "canViewIssue hier_db amy ''a''" "canViewIssue hier_db amy ''b''"
  by (simp_all add: canViewIssue_def issueSecurityWhere_def hier_sample_defs)

lemma hier_db_editable: "requireProjectPermission hier_db amy ''p'' Issue_Edit"
  by (simp add: requireProjectPermission_def explainProjectPermission_def find_project_def grants_for_def
      candidates_def project_role_of_def actor_groups_def hier_sample_defs)

lemma b_under_a_checked: "reparent_check hier_db amy b_under_a = Inr (epic_b, Some epic_a)"
proof -
  have "find_issue hier_db amy ''b'' = Some epic_b" "find_issue hier_db amy ''a'' = Some epic_a"
    by (simp_all add: find_issue_def hier_sample_defs)
  moreover have "check_rank hier_db epic_b epic_a = Inr ()"
    by (simp add: check_rank_def rank_def level_position_def hier_sample_defs)
  moreover have "check_chain hier_db amy epic_b epic_a = Inr ()"
    by (simp add: check_chain_def parent_rows_def parent_of_def hier_sample_defs)
  moreover have "i_id epic_a = ''a''" "i_id epic_b = ''b''" "i_projectId epic_a = ''p''" "i_projectId epic_b = ''p''"
    by (simp_all add: hier_sample_defs)
  ultimately show ?thesis
    using hier_db_visible hier_db_editable by (simp add: reparent_check_def find_parent_def b_under_a_def)
qed

definition hier_db' :: workspace_db where
  "hier_db' = fst (projr (reparent_commit False hier_db amy epic_b (Some epic_a) 1))"

lemma b_under_a_committed:
  "\<exists>row. reparent_commit False hier_db amy epic_b (Some epic_a) 1 = Inr (hier_db', row)"
proof -
  have "count_rows (guarded amy epic_b 1) (db_issues hier_db) \<noteq> 0"
    by (simp add: guarded_def hier_sample_defs)
  then have "\<exists>r. reparent_commit False hier_db amy epic_b (Some epic_a) 1 = Inr r"
    by (simp add: reparent_commit_def Let_def)
  then show ?thesis by (auto simp: hier_db'_def)
qed

lemma b_under_a_done: "\<exists>row. reparentIssue False hier_db amy b_under_a = Inr (hier_db', row)"
  using b_under_a_committed by (simp add: reparentIssue_def b_under_a_checked)

theorem reparent_keeps_acyclic_witness: "acyclic (edges ''w'' hier_db')"
  using b_under_a_done reparent_keeps_acyclic [of False hier_db amy b_under_a hier_db'] hier_db_facts
  by (auto simp: amy_def)

theorem reparent_guarded_update_witness:
  "\<exists>child. child \<in> set (db_issues hier_db) \<and> i_id child = ''b''
     \<and> db_issues hier_db' = map (\<lambda>i. if i_id i = ''b''
          then i\<lparr>i_parentId := Some ''a'', i_version := i_version child + 1\<rparr> else i) (db_issues hier_db)"
proof -
  from b_under_a_done obtain row where "reparentIssue False hier_db amy b_under_a = Inr (hier_db', row)" ..
  from reparent_guarded_update [OF this hier_db_facts(1)] obtain child parent where
    "child \<in> set (db_issues hier_db)" "i_id child = ''b''" "parent = find_parent hier_db amy (Some ''a'')"
    "db_issues hier_db' = map (\<lambda>i. if i_id i = i_id child
      then i\<lparr>i_parentId := map_option i_id parent, i_version := i_version child + 1\<rparr> else i) (db_issues hier_db)"
    by (auto simp: b_under_a_def)
  moreover have "map_option i_id (find_parent hier_db amy (Some ''a'')) = Some ''a''"
    by (simp add: find_parent_def find_issue_def hier_sample_defs)
  ultimately show ?thesis by (intro exI [of _ child]) simp
qed

theorem first_committer_wins_witness:
  "reparent_commit False hier_db' amy epic_b None 1 = Inl Issue_Changed"
proof -
  from b_under_a_committed obtain row
    where "reparent_commit False hier_db amy epic_b (Some epic_a) 1 = Inr (hier_db', row)" ..
  from first_committer_wins [OF this hier_db_facts(1)] show ?thesis by blast
qed


section \<open>Two moves at once\<close>

text \<open>
  Other routes store parents without comparing levels, so a workspace may be acyclic and not ranked. Here
  \<open>c\<close> is above \<open>b\<close> on the same kind of level as \<open>a\<close>, and \<open>a\<close> above \<open>d\<close>.
\<close>

definition node :: "string \<Rightarrow> string \<Rightarrow> string option \<Rightarrow> issue" where
  "node i level parent = sample_issue\<lparr>i_id := i, i_hierarchyLevelId := Some level, i_parentId := parent, i_securityLevelId := None\<rparr>"

definition crossed_db :: workspace_db where
  "crossed_db = hier_db\<lparr>db_issues := [node ''a'' ''mid'' None, node ''b'' ''top'' (Some ''c''), node ''c'' ''mid'' None, node ''d'' ''top'' (Some ''a'')]\<rparr>"

definition move_of :: "string \<Rightarrow> string \<Rightarrow> reparent_input" where
  "move_of child parent = \<lparr>ri_issueId = child, ri_parentId = Some parent, ri_version = JInt 1\<rparr>"

definition approval_of :: "reparent_input \<Rightarrow> approval" where
  "approval_of inp = (let (child, parent) = outcome (reparent_check crossed_db amy inp) (sample_issue, None) in (amy, child, parent, 1))"

lemma crossed_checks: "isl (reparent_check crossed_db amy (move_of ''a'' ''b'')) = False" "isl (reparent_check crossed_db amy (move_of ''c'' ''d'')) = False"
  by code_simp+

definition crossed_after :: workspace_db where
  "crossed_after = commit_step (approval_of (move_of ''c'' ''d'')) (commit_step (approval_of (move_of ''a'' ''b'')) crossed_db)"

lemma crossed_rows: "map (\<lambda>i. (i_id i, i_workspaceId i, i_parentId i)) (db_issues crossed_after)
    = [(''a'', ''w'', Some ''b''), (''b'', ''w'', Some ''c''), (''c'', ''w'', Some ''d''), (''d'', ''w'', Some ''a'')]"
  by code_simp

lemma in_edges: "i \<in> set (db_issues db) \<Longrightarrow> i_workspaceId i = w \<Longrightarrow> i_parentId i = Some q \<Longrightarrow> (i_id i, q) \<in> edges w db"
  unfolding edges_def by blast

lemma crossed_run: "hier_run \<lparr>hs_db = crossed_db, hs_pending = []\<rparr> \<lparr>hs_db = crossed_after, hs_pending = []\<rparr>"
proof -
  let ?p = "approval_of (move_of ''a'' ''b'')" and ?q = "approval_of (move_of ''c'' ''d'')"
  have check: "hier_step s (s\<lparr>hs_pending := approval_of inp # hs_pending s\<rparr>)"
    if "hs_db s = crossed_db" "isl (reparent_check crossed_db amy inp) = False" "ri_version inp = JInt 1" for s inp
  proof -
    have "reparent_check crossed_db amy inp = Inr (outcome (reparent_check crossed_db amy inp) (sample_issue, None))" by (rule outcome [OF that(2)])
    then show ?thesis using hier_step.check [of s amy inp "fst (outcome (reparent_check crossed_db amy inp) (sample_issue, None))"] that(1,3)
      by (simp add: approval_of_def split_beta)
  qed
  have "hier_run \<lparr>hs_db = crossed_db, hs_pending = []\<rparr> \<lparr>hs_db = crossed_db, hs_pending = [?p]\<rparr>"
    using hier_run.step [OF hier_run.refl check [of "\<lparr>hs_db = crossed_db, hs_pending = []\<rparr>" "move_of ''a'' ''b''"]] crossed_checks by (simp add: move_of_def)
  then have "hier_run \<lparr>hs_db = crossed_db, hs_pending = []\<rparr> \<lparr>hs_db = crossed_db, hs_pending = [?q, ?p]\<rparr>"
    using hier_run.step [OF _ check [of "\<lparr>hs_db = crossed_db, hs_pending = [?p]\<rparr>" "move_of ''c'' ''d''"]] crossed_checks by (simp add: move_of_def)
  from hier_run.step [OF this hier_step.commit [of ?p]]
  have "hier_run \<lparr>hs_db = crossed_db, hs_pending = []\<rparr> \<lparr>hs_db = commit_step ?p crossed_db, hs_pending = remove1 ?p [?q, ?p]\<rparr>" by simp
  moreover have "?q \<noteq> ?p" by code_simp
  ultimately have "hier_run \<lparr>hs_db = crossed_db, hs_pending = []\<rparr> \<lparr>hs_db = commit_step ?p crossed_db, hs_pending = [?q]\<rparr>" by simp
  from hier_run.step [OF this hier_step.commit [of ?q]] show ?thesis by (simp add: crossed_after_def)
qed

text \<open>
  C1: The walk over the ancestors runs outside the transaction, and the transactions of two moves touch different
  rows. So from an acyclic workspace two moves that were both checked before either was written close a cycle.
\<close>

theorem concurrent_moves_close_cycle:
  "ids_unique crossed_db \<and> acyclic (edges ''w'' crossed_db)
   \<and> hier_run \<lparr>hs_db = crossed_db, hs_pending = []\<rparr> \<lparr>hs_db = crossed_after, hs_pending = []\<rparr>
   \<and> \<not> acyclic (edges ''w'' crossed_after)"
proof (intro conjI)
  show "ids_unique crossed_db" by (simp add: ids_unique_def crossed_db_def node_def)
  have "edges ''w'' crossed_db \<subseteq> {(''b'', ''c''), (''d'', ''a'')}"
    by (auto simp: edges_def crossed_db_def node_def sample_issue_def)
  moreover have "acyclic {(''b'', ''c''), (''d'', ''a'')}" by (simp add: acyclic_insert) (simp add: acyclic_def rtrancl_insert)
  ultimately show "acyclic (edges ''w'' crossed_db)" by (rule acyclic_subset [rotated])
  obtain a b c d where rows: "db_issues crossed_after = [a, b, c, d]"
    and ids: "i_id a = ''a''" "i_parentId a = Some ''b''" "i_id b = ''b''" "i_parentId b = Some ''c''"
      "i_id c = ''c''" "i_parentId c = Some ''d''" "i_id d = ''d''" "i_parentId d = Some ''a''"
      "i_workspaceId a = ''w''" "i_workspaceId b = ''w''" "i_workspaceId c = ''w''" "i_workspaceId d = ''w''"
    using crossed_rows by (auto simp: map_eq_Cons_conv)
  have e: "(''a'', ''b'') \<in> edges ''w'' crossed_after" "(''b'', ''c'') \<in> edges ''w'' crossed_after"
    "(''c'', ''d'') \<in> edges ''w'' crossed_after" "(''d'', ''a'') \<in> edges ''w'' crossed_after"
    using in_edges [of a crossed_after] in_edges [of b crossed_after] in_edges [of c crossed_after] in_edges [of d crossed_after] ids by (simp_all add: rows)
  then have "(''a'', ''a'') \<in> (edges ''w'' crossed_after)\<^sup>+" by (meson trancl.r_into_trancl trancl_into_trancl)
  then show "\<not> acyclic (edges ''w'' crossed_after)" unfolding acyclic_def by blast
qed (rule crossed_run)

end
