(* ===== verification/Csv.thy ===== *)
theory Csv
  imports Issues Hierarchy
begin

text \<open>
  Issues as comma-separated values (\<open>src/lib/csv.ts\<close>, \<open>api/projects/[key]/issues/csv\<close>): the format, the export and the
  import. An import is checked as a whole and then written in one transaction. \<open>JSON.stringify\<close>, the digest of the file
  and how the database reads a compiled query are parameters, and the messages of errors are left out.
\<close>

section \<open>The format\<close>

definition ISSUE_CSV_COLUMNS :: "string list" where
  "ISSUE_CSV_COLUMNS = [''externalId'', ''summary'', ''description'', ''type'', ''status'', ''priority'', ''assigneeEmail'', ''labels'', ''estimate'',
     ''dueDate'', ''parentExternalId'', ''links'', ''releases'', ''customFields'']"

type_synonym csv_row = "(string \<times> string) list"    \<comment> \<open>column, text\<close>
type_synonym csv_error = "nat \<times> string"            \<comment> \<open>row, field\<close>

definition cell :: "string \<Rightarrow> csv_row \<Rightarrow> string" where
  "cell column row = (case map_of row column of None \<Rightarrow> [] | Some s \<Rightarrow> s)"

definition strip_cr :: "string \<Rightarrow> string" where
  "strip_cr s = (if s \<noteq> [] \<and> last s = CHR 0x0D then butlast s else s)"

text \<open>The loop over the characters: whether inside quotes, the field, the record and the records read so far.\<close>

fun csv_scan :: "bool \<Rightarrow> string \<Rightarrow> string list \<Rightarrow> string list list \<Rightarrow> string \<Rightarrow> bool \<times> string \<times> string list \<times> string list list" where
  "csv_scan inside f rc rs [] = (inside, f, rc, rs)"
| "csv_scan inside f rc rs (c # cs) =
     (if inside then
        (if c = CHR 0x22 then (case cs of
             [] \<Rightarrow> csv_scan False f rc rs cs
           | d # ds \<Rightarrow> if d = CHR 0x22 then csv_scan True (f @ [d]) rc rs ds else csv_scan False f rc rs cs)
         else csv_scan True (f @ [c]) rc rs cs)
      else if c = CHR 0x22 \<and> f = [] then csv_scan True f rc rs cs
      else if c = CHR '','' then csv_scan False [] (rc @ [f]) rs cs
      else if c = CHR 0x0A then csv_scan False [] [] (rs @ [rc @ [strip_cr f]]) cs
      else csv_scan False (f @ [c]) rc rs cs)"

definition row_of :: "string list \<Rightarrow> csv_row" where
  "row_of vs = map (\<lambda>(k, column). (column, if k < length vs then vs ! k else [])) (enumerate 0 ISSUE_CSV_COLUMNS)"

definition parseCsv :: "nat \<Rightarrow> string \<Rightarrow> csv_row list \<times> csv_error list" where
  "parseCsv maxRows inp =
     (let (inside, f, rc, rs) = csv_scan False [] [] [] inp in
      if inside then ([], [(max 1 (length rs + 1), ''csv'')])
      else (let records = (if f \<noteq> [] \<or> rc \<noteq> [] then rs @ [rc @ [strip_cr f]] else rs);
                (header, body) = (case records of [] \<Rightarrow> ([], []) | h # t \<Rightarrow> (h, t));
                kept = filter (list_ex (\<lambda>v. v \<noteq> [])) (take maxRows body);
                n = length ISSUE_CSV_COLUMNS
            in (map row_of kept,
                (if join [CHR 0x00] header \<noteq> join [CHR 0x00] ISSUE_CSV_COLUMNS then [(1, ''header'')] else [])
                @ (if maxRows < length body then [(maxRows + 2, ''csv'')] else [])
                @ concat (map (\<lambda>(k, vs). if length vs < n - 1 \<or> n < length vs then [(k + 2, ''csv'')] else []) (enumerate 0 kept)))))"

text \<open>A text that a spreadsheet takes for a formula is preceded by an apostrophe.\<close>

definition guarded :: "string \<Rightarrow> string" where
  "guarded s = (if s \<noteq> [] \<and> hd s \<in> set ''=+-@'' then CHR 0x27 # s else s)"

definition doubled :: "string \<Rightarrow> string" where
  "doubled s = concat (map (\<lambda>c. if c = CHR 0x22 then [c, c] else [c]) s)"

definition cell_text :: "(js \<Rightarrow> string) \<Rightarrow> js \<Rightarrow> string" where
  "cell_text show_js v = guarded (if v \<in> {JUndef, JNull} then [] else js_text show_js v)"

definition csvCell :: "(js \<Rightarrow> string) \<Rightarrow> js \<Rightarrow> string" where
  "csvCell show_js v = [CHR 0x22] @ doubled (cell_text show_js v) @ [CHR 0x22]"

abbreviation crlf :: string where
  "crlf \<equiv> [CHR 0x0D, CHR 0x0A]"

definition encodeCsv :: "(js \<Rightarrow> string) \<Rightarrow> jobj list \<Rightarrow> string" where
  "encodeCsv show_js rows = join crlf (join '','' ISSUE_CSV_COLUMNS # map (\<lambda>r. join '','' (map (\<lambda>c. csvCell show_js (field c r)) ISSUE_CSV_COLUMNS)) rows) @ crlf"

section \<open>Reading what was written\<close>

lemma scan_quoted:
  assumes "rest = [] \<or> hd rest \<noteq> CHR 0x22"
  shows "csv_scan True f rc rs (doubled s @ CHR 0x22 # rest) = csv_scan False (f @ s) rc rs rest"
proof (induction s arbitrary: f)
  case Nil
  then show ?case using assms by (cases rest) (simp_all add: doubled_def)
next
  case (Cons c s)
  have d: "doubled (c # s) = (if c = CHR 0x22 then [c, c] else [c]) @ doubled s" by (simp add: doubled_def)
  show ?case using Cons.IH [of "f @ [c]"] by (auto simp: d)
qed

lemma scan_cell:
  assumes "rest = [] \<or> hd rest \<noteq> CHR 0x22"
  shows "csv_scan False [] rc rs (csvCell show_js v @ rest) = csv_scan False (cell_text show_js v) rc rs rest"
  using scan_quoted [OF assms, of "[]" rc rs "cell_text show_js v"] by (simp add: csvCell_def)

lemma scan_plain: "list_all (\<lambda>c. c \<notin> {CHR 0x22, CHR '','', CHR 0x0A}) s \<Longrightarrow> csv_scan False f rc rs (s @ rest) = csv_scan False (f @ s) rc rs rest"
  by (induction s arbitrary: f) auto

lemma scan_end: "csv_scan False f rc rs (crlf @ rest) = csv_scan False [] [] (rs @ [rc @ [f]]) rest"
  by (simp add: strip_cr_def)

lemma scan_row:
  "vs \<noteq> [] \<Longrightarrow> csv_scan False [] rc rs (join '','' (map (csvCell show_js) vs) @ crlf @ rest) = csv_scan False [] [] (rs @ [rc @ map (cell_text show_js) vs]) rest"
proof (induction vs arbitrary: rc)
  case (Cons v vs)
  show ?case
  proof (cases vs)
    case Nil
    then show ?thesis using scan_cell [of "crlf @ rest" rc rs show_js v] scan_end [of "cell_text show_js v" rc rs rest] by simp
  next
    case (Cons w ws)
    have "csv_scan False [] rc rs (join '','' (map (csvCell show_js) (v # vs)) @ crlf @ rest)
        = csv_scan False (cell_text show_js v) rc rs ('','' @ join '','' (map (csvCell show_js) vs) @ crlf @ rest)"
      using scan_cell [of "'','' @ join '','' (map (csvCell show_js) vs) @ crlf @ rest" rc rs show_js v] by (simp add: Cons)
    also have "\<dots> = csv_scan False [] (rc @ [cell_text show_js v]) rs (join '','' (map (csvCell show_js) vs) @ crlf @ rest)" by simp
    finally show ?thesis using Cons.IH [of "rc @ [cell_text show_js v]"] Cons by simp
  qed
qed simp

lemma scan_header:
  "vs \<noteq> [] \<Longrightarrow> list_all (list_all (\<lambda>c. c \<notin> {CHR 0x22, CHR '','', CHR 0x0A})) vs
     \<Longrightarrow> csv_scan False [] rc rs (join '','' vs @ crlf @ rest) = csv_scan False [] [] (rs @ [rc @ vs]) rest"
proof (induction vs arbitrary: rc)
  case (Cons v vs)
  show ?case
  proof (cases vs)
    case Nil
    then show ?thesis using Cons.prems scan_plain [of v "[]" rc rs "crlf @ rest"] scan_end [of v rc rs rest] by simp
  next
    case (Cons w ws)
    then have "csv_scan False [] rc rs (join '','' (v # vs) @ crlf @ rest) = csv_scan False [] (rc @ [v]) rs (join '','' vs @ crlf @ rest)"
      using Cons.prems(2) scan_plain [of v "[]" rc rs "'','' @ join '','' vs @ crlf @ rest"] by simp
    then show ?thesis using Cons.IH [of "rc @ [v]"] Cons.prems Cons by simp
  qed
qed simp

lemma join_lines: "ls \<noteq> [] \<Longrightarrow> join sep ls @ sep = concat (map (\<lambda>l. l @ sep) ls)"
  by (induction sep ls rule: join.induct) simp_all

lemma scan_rows:
  "csv_scan False [] [] rs (concat (map (\<lambda>r. join '','' (map (\<lambda>c. csvCell show_js (field c r)) ISSUE_CSV_COLUMNS) @ crlf) rows))
     = (False, [], [], rs @ map (\<lambda>r. map (\<lambda>c. cell_text show_js (field c r)) ISSUE_CSV_COLUMNS) rows)"
proof (induction rows arbitrary: rs)
  case (Cons r rows)
  have "map (\<lambda>c. field c r) ISSUE_CSV_COLUMNS \<noteq> []" by (simp add: ISSUE_CSV_COLUMNS_def)
  from scan_row [OF this, of "[]" rs show_js] Cons.IH show ?case by (simp add: o_def)
qed simp

lemma scan_file:
  "csv_scan False [] [] [] (encodeCsv show_js rows) = (False, [], [], ISSUE_CSV_COLUMNS # map (\<lambda>r. map (\<lambda>c. cell_text show_js (field c r)) ISSUE_CSV_COLUMNS) rows)"
proof -
  have "encodeCsv show_js rows = join '','' ISSUE_CSV_COLUMNS @ crlf @ concat (map (\<lambda>r. join '','' (map (\<lambda>c. csvCell show_js (field c r)) ISSUE_CSV_COLUMNS) @ crlf) rows)"
    unfolding encodeCsv_def by (subst join_lines) (simp_all add: o_def)
  moreover have "ISSUE_CSV_COLUMNS \<noteq> []" "list_all (list_all (\<lambda>c. c \<notin> {CHR 0x22, CHR '','', CHR 0x0A})) ISSUE_CSV_COLUMNS"
    by (simp_all add: ISSUE_CSV_COLUMNS_def)
  ultimately show ?thesis using scan_header [of ISSUE_CSV_COLUMNS "[]" "[]"] scan_rows [of "[ISSUE_CSV_COLUMNS]" show_js rows] by simp
qed

lemma row_of_columns: "row_of (map f ISSUE_CSV_COLUMNS) = map (\<lambda>c. (c, f c)) ISSUE_CSV_COLUMNS"
  by (rule nth_equalityI) (simp_all add: row_of_def nth_enumerate_eq)

lemma parse_encoded:
  assumes "length rows \<le> maxRows"
  shows "parseCsv maxRows (encodeCsv show_js rows)
    = (map (\<lambda>r. map (\<lambda>c. (c, cell_text show_js (field c r))) ISSUE_CSV_COLUMNS)
         (filter (\<lambda>r. \<exists>c\<in>set ISSUE_CSV_COLUMNS. cell_text show_js (field c r) \<noteq> []) rows), [])"
proof -
  let ?vs = "\<lambda>r. map (\<lambda>c. cell_text show_js (field c r)) ISSUE_CSV_COLUMNS"
  have all: "take maxRows (map ?vs rows) = map ?vs rows" using assms by simp
  have kept: "filter (list_ex (\<lambda>v. v \<noteq> [])) (map ?vs rows) = map ?vs (filter (\<lambda>r. \<exists>c\<in>set ISSUE_CSV_COLUMNS. cell_text show_js (field c r) \<noteq> []) rows)"
    by (simp add: filter_map o_def list_ex_iff)
  have width: "concat (map (\<lambda>(k, vs). if length vs < length ISSUE_CSV_COLUMNS - 1 \<or> length ISSUE_CSV_COLUMNS < length vs then [(k + 2, ''csv'')] else []) (enumerate 0 (map ?vs rs))) = []" for rs
    by (auto simp: in_set_enumerate_eq ISSUE_CSV_COLUMNS_def)
  show ?thesis
    unfolding parseCsv_def scan_file Let_def prod.case list.case if_False simp_thms if_cancel all kept width
    using assms by (simp add: row_of_columns o_def)
qed

text \<open>
  C33: Reading an exported file gives back the text of every cell, without an error: rows of empty cells are left out, and a
  text that looks like a formula keeps the apostrophe it was given.
\<close>

theorem csv_round_trip:
  assumes "length rows \<le> maxRows"
  shows "parseCsv maxRows (encodeCsv show_js rows)
    = (map (\<lambda>r. map (\<lambda>c. (c, cell_text show_js (field c r))) ISSUE_CSV_COLUMNS)
         (filter (\<lambda>r. \<exists>c\<in>set ISSUE_CSV_COLUMNS. cell_text show_js (field c r) \<noteq> []) rows), [])"
  using parse_encoded [OF assms] .


section \<open>The tables\<close>

record csv_release =
  vr_id :: string
  vr_projectId :: string
  vr_name :: string

record import_batch =
  ib_id :: string
  ib_projectId :: string
  ib_idempotencyKey :: string
  ib_rowCount :: nat
  ib_createdById :: string

record imported_issue =
  im_projectId :: string
  im_externalId :: string
  im_issueId :: string
  im_importId :: string

record csv_db =
  vt_tracker :: tracker
  vt_links :: "(string \<times> string \<times> string) list"     \<comment> \<open>outward issue, inward issue, type\<close>
  vt_releases :: "csv_release list"
  vt_issueReleases :: "(string \<times> string) list"        \<comment> \<open>release, issue\<close>
  vt_batches :: "import_batch list"
  vt_imported :: "imported_issue list"

abbreviation "vt_core db \<equiv> tk_core (vt_tracker db)"

text \<open>A role in the project: its member's, an administrator's, or a viewer's in a public project.\<close>

definition csv_access :: "auth_context option \<Rightarrow> string \<Rightarrow> csv_db \<Rightarrow> (nat, auth_context \<times> project \<times> project_role option) result" where
  "csv_access context key db =
     (case context of None \<Rightarrow> Inl 401 | Some cx \<Rightarrow>
      case getProjectForContext (vt_core db) cx key of None \<Rightarrow> Inl 404 | Some p \<Rightarrow>
        Inr (cx, p, (case project_role_of (vt_core db) (p_id p) (cx_userId cx) of
           Some r \<Rightarrow> Some r
         | None \<Rightarrow> if is_workspace_admin cx then Some PAdmin else if p_visibility p = Public then Some PViewer else None)))"

section \<open>Export\<close>

definition external_id :: "csv_db \<Rightarrow> project \<Rightarrow> issue \<Rightarrow> string" where
  "external_id db p i = (case find (\<lambda>m. im_issueId m = i_id i) (vt_imported db) of Some m \<Rightarrow> im_externalId m | None \<Rightarrow> issue_key p (i_number i))"

definition label_names :: "csv_db \<Rightarrow> issue \<Rightarrow> string list" where
  "label_names db i = List.map_filter (\<lambda>(x, l). if x = i_id i then map_option lb_name (find (\<lambda>r. lb_id r = l) (tk_labels (vt_tracker db))) else None)
     (tk_issueLabels (vt_tracker db))"

definition release_names :: "csv_db \<Rightarrow> issue \<Rightarrow> string list" where
  "release_names db i = List.map_filter (\<lambda>(r, x). if x = i_id i then map_option vr_name (find (\<lambda>v. vr_id v = r) (vt_releases db)) else None) (vt_issueReleases db)"

definition user_email :: "csv_db \<Rightarrow> string \<Rightarrow> string option" where
  "user_email db u = map_option us_email (find (\<lambda>x. us_id x = u) (oc_users (tk_config (vt_tracker db))))"

definition export_row :: "(js \<Rightarrow> string) \<Rightarrow> csv_db \<Rightarrow> project \<Rightarrow> issue \<Rightarrow> jobj" where
  "export_row stringify db p i =
     [(''externalId'', JStr (external_id db p i)),
      (''summary'', JStr (i_summary i)),
      (''description'', JStr (case as_string (i_description i) of Some s \<Rightarrow> s | None \<Rightarrow> stringify (nullish (i_description i) (JStr [])))),
      (''type'', JStr (case find (\<lambda>t. it_id t = i_issueTypeId i) (db_issueTypes (vt_core db)) of Some t \<Rightarrow> it_name t | None \<Rightarrow> [])),
      (''status'', JStr (case status_row (vt_tracker db) (i_statusId i) of Some s \<Rightarrow> st_name s | None \<Rightarrow> [])),
      (''priority'', JStr (priority_name (i_priority i))),
      (''assigneeEmail'', JStr (case Option.bind (i_assigneeId i) (user_email db) of Some e \<Rightarrow> e | None \<Rightarrow> [])),
      (''labels'', JStr (join '';'' (label_names db i))),
      (''estimate'', JStr (case i_estimate i of Some n \<Rightarrow> string_of_int n | None \<Rightarrow> [])),
      (''dueDate'', JStr (case i_dueDate i of Some t \<Rightarrow> iso_date t | None \<Rightarrow> [])),
      (''parentExternalId'', JStr (case Option.bind (i_parentId i) (issue_row (vt_tracker db)) of Some x \<Rightarrow> external_id db p x | None \<Rightarrow> [])),
      (''links'', JStr (join '';'' (List.map_filter (\<lambda>(out, inw, _). if out = i_id i then map_option (external_id db p) (issue_row (vt_tracker db) inw) else None) (vt_links db)))),
      (''releases'', JStr (join '';'' (release_names db i)))]"

definition given :: "string option \<Rightarrow> string \<Rightarrow> bool" where
  "given v s \<longleftrightarrow> v = None \<or> v = Some [] \<or> v = Some s"

definition export_where :: "(string \<Rightarrow> string option) \<Rightarrow> csv_db \<Rightarrow> auth_context \<Rightarrow> project \<Rightarrow> issue \<Rightarrow> bool" where
  "export_where param db cx p i \<longleftrightarrow>
     i_projectId i = p_id p \<and> i_workspaceId i = cx_workspaceId cx \<and> i_archivedAt i = None \<and> issueSecurityWhere (vt_core db) cx (Some [p_id p]) i
   \<and> (let q = (case param ''q'' of Some s \<Rightarrow> trim s | None \<Rightarrow> []) in
        q = [] \<or> contains_text (to_lower q) (to_lower (i_summary i)) \<or> (case as_string (i_description i) of Some d \<Rightarrow> contains_text q d | None \<Rightarrow> False))
   \<and> given (param ''status'') (case status_row (vt_tracker db) (i_statusId i) of Some s \<Rightarrow> st_name s | None \<Rightarrow> [])
   \<and> (given (param ''assignee'') [] \<or> Option.bind (i_assigneeId i) (user_email db) = param ''assignee'')
   \<and> (given (param ''label'') [] \<or> list_ex (\<lambda>n. param ''label'' = Some n) (label_names db i))
   \<and> (given (param ''release'') [] \<or> list_ex (\<lambda>n. param ''release'' = Some n) (release_names db i))"

definition template_row :: jobj where
  "template_row = [(''externalId'', JStr ''sample-1''), (''summary'', JStr ''Example issue''), (''type'', JStr ''Task''), (''status'', JStr ''To Do''), (''priority'', JStr ''MEDIUM'')]"

definition filtered_by :: "(string \<Rightarrow> string option) \<Rightarrow> bool" where
  "filtered_by param \<longleftrightarrow> list_ex (\<lambda>k. (case param k of Some s \<Rightarrow> (if k \<in> {''q'', ''query''} then trim s else s) \<noteq> [] | None \<Rightarrow> False))
     [''q'', ''query'', ''status'', ''assignee'', ''label'', ''release'']"

definition exported :: "auth_context \<Rightarrow> project \<Rightarrow> bool \<Rightarrow> nat \<Rightarrow> csv_db \<Rightarrow> csv_db" where
  "exported cx p filtered n db =
     (let tk = vt_tracker db; core = tk_core tk;
          entry = \<lparr>au_workspaceId = cx_workspaceId cx, au_actorId = Some (cx_userId cx), au_action = ''issues.csv_exported'', au_targetType = ''project'', au_targetId = p_id p,
            au_metadata = JObj [(''rowCount'', JInt (int n)), (''filtered'', JBool filtered)]\<rparr>
      in db\<lparr>vt_tracker := tk\<lparr>tk_core := core\<lparr>db_audit := db_audit core @ [entry]\<rparr>\<rparr>\<rparr>)"

definition csv_GET :: "(js \<Rightarrow> string) \<Rightarrow> (filter_value \<Rightarrow> issue \<Rightarrow> bool) \<Rightarrow> time \<Rightarrow> auth_context option \<Rightarrow> string \<Rightarrow> (string \<Rightarrow> string option) \<Rightarrow> csv_db
    \<Rightarrow> (nat, string \<times> csv_db) result" where
  "csv_GET stringify sat now context key param db =
     bind_result (csv_access context key db) (\<lambda>(cx, p, role).
       if role = None \<or> \<not> requireProjectPermission (vt_core db) cx (p_id p) Export_Run then Inl 404
       else if param ''format'' = Some ''template'' then Inr (encodeCsv stringify [template_row], db)
       else (let query = (case param ''query'' of Some s \<Rightarrow> trim s | None \<Rightarrow> []) in
         bind_result (if query = [] then Inr None else (case compileAdvancedQuery now query of Inl _ \<Rightarrow> Inl 400 | Inr (w, _) \<Rightarrow> Inr (Some w))) (\<lambda>advanced.
           (let issues = sort_key i_number (filter (\<lambda>i. export_where param db cx p i \<and> (case advanced of None \<Rightarrow> True | Some w \<Rightarrow> sat w i)) (db_issues (vt_core db)))
            in Inr (encodeCsv stringify (map (export_row stringify db p) issues), exported cx p (filtered_by param) (length issues) db)))))"

section \<open>Import: the check\<close>

definition names_in :: "string \<Rightarrow> string list" where
  "names_in s = filter (\<lambda>n. n \<noteq> []) (map trim (split_on CHR '';'' s))"

definition find_named :: "('r \<Rightarrow> string) \<Rightarrow> string \<Rightarrow> 'r list \<Rightarrow> 'r option" where
  "find_named name s rows = find (\<lambda>r. to_lower (name r) = to_lower s) rows"

record import_sources =
  is_types :: "issue_type list"
  is_statuses :: "status list"
  is_members :: "(string \<times> string) list"      \<comment> \<open>e-mail, user\<close>
  is_known :: "string list"
  is_releases :: "csv_release list"

definition sources_of :: "csv_db \<Rightarrow> string \<Rightarrow> import_sources" where
  "sources_of db pid =
     \<lparr>is_types = filter (\<lambda>t. it_projectId t = pid) (db_issueTypes (vt_core db)),
      is_statuses = filter (\<lambda>s. st_projectId s = pid) (db_statuses (vt_core db)),
      is_members = List.map_filter (\<lambda>m. if pm_projectId m = pid then map_option (\<lambda>e. (e, pm_userId m)) (user_email db (pm_userId m)) else None) (db_projectMembers (vt_core db)),
      is_known = map im_externalId (filter (\<lambda>m. im_projectId m = pid) (vt_imported db)),
      is_releases = filter (\<lambda>r. vr_projectId r = pid) (vt_releases db)\<rparr>"

definition id_refused :: "import_sources \<Rightarrow> string list \<Rightarrow> csv_row \<Rightarrow> bool" where
  "id_refused src ids row \<longleftrightarrow> (let e = cell ''externalId'' row in e = [] \<or> 100 < length e \<or> e \<in> set ids \<or> e \<in> set (is_known src))"

definition row_problems :: "import_sources \<Rightarrow> string list \<Rightarrow> csv_row \<Rightarrow> string list" where
  "row_problems src ids row =
     (let c = (\<lambda>column. cell column row); complain = (\<lambda>b column. if b then [column] else [])
      in complain (id_refused src ids row) ''externalId''
       @ complain (c ''summary'' = [] \<or> 200 < length (c ''summary'')) ''summary''
       @ complain (20000 < length (c ''description'')) ''description''
       @ complain (find_named it_name (c ''type'') (is_types src) = None) ''type''
       @ complain (find_named st_name (c ''status'') (is_statuses src) = None) ''status''
       @ complain (parse_priority (to_upper (c ''priority'')) = None) ''priority''
       @ complain (c ''assigneeEmail'' \<noteq> [] \<and> find_named fst (c ''assigneeEmail'') (is_members src) = None) ''assigneeEmail''
       @ complain (c ''estimate'' \<noteq> [] \<and> (\<not> list_all is_digit (c ''estimate'') \<or> 100 < digits_value 0 (c ''estimate''))) ''estimate''
       @ complain (c ''dueDate'' \<noteq> [] \<and> \<not> is_iso_date (c ''dueDate'')) ''dueDate''
       @ concat (map (\<lambda>n. complain (find_named vr_name n (is_releases src) = None) ''releases'') (names_in (c ''releases''))))"

text \<open>The first pass collects the identifiers of the file; the second looks at what the rows refer to.\<close>

fun validate_rows :: "import_sources \<Rightarrow> nat \<Rightarrow> string list \<Rightarrow> csv_row list \<Rightarrow> csv_error list \<times> string list" where
  "validate_rows src n ids [] = ([], ids)"
| "validate_rows src n ids (row # rows) =
     (let ids' = (if id_refused src ids row then ids else ids @ [cell ''externalId'' row]);
          (errors, all) = validate_rows src (n + 1) ids' rows
      in (map (Pair n) (row_problems src ids row) @ errors, all))"

definition reference_problems :: "string list \<Rightarrow> csv_row \<Rightarrow> string list" where
  "reference_problems ids row =
     (let own = cell ''externalId'' row; parent = cell ''parentExternalId'' row; wrong = (\<lambda>x. x \<notin> set ids \<or> x = own)
      in (if parent \<noteq> [] \<and> wrong parent then [''parentExternalId''] else []) @ map (\<lambda>_. ''links'') (filter wrong (names_in (cell ''links'' row))))"

definition import_errors :: "import_sources \<Rightarrow> csv_row list \<Rightarrow> csv_error list" where
  "import_errors src rows =
     (let (errors, ids) = validate_rows src 2 [] rows
      in errors @ concat (map (\<lambda>(k, row). map (Pair (k + 2)) (reference_problems ids row)) (enumerate 0 rows)))"

record import_plan =
  iq_context :: auth_context
  iq_project :: project
  iq_key :: string
  iq_digest :: string
  iq_sources :: import_sources
  iq_rows :: "csv_row list"

datatype import_answer = Replayed string nat | Refused_File "csv_error list" | Dry_Run nat | Accepted_File import_plan

text \<open>\<open>csv.replace(/^\uFEFF/, "")\<close>: a byte order mark in front of the file, in UTF-8, is not part of it.\<close>

definition strip_bom :: "string \<Rightarrow> string" where
  "strip_bom s = (if take 3 s = [CHR 0xEF, CHR 0xBB, CHR 0xBF] then drop 3 s else s)"

definition import_check :: "(string \<Rightarrow> string) \<Rightarrow> nat \<Rightarrow> nat \<Rightarrow> auth_context option \<Rightarrow> string \<Rightarrow> jobj \<Rightarrow> csv_db \<Rightarrow> (nat, import_answer) result" where
  "import_check sha maxBytes maxRows context key body db =
     bind_result (csv_access context key db) (\<lambda>(cx, p, role).
       (let csv = string_or_empty (field ''csv'' body); dry = (field ''dryRun'' body = JBool True); idem = trim (string_or_empty (field ''idempotencyKey'' body)) in
        if role \<noteq> Some PAdmin then Inl 403
        else if maxBytes < length csv then Inl 413
        else if idem = [] \<or> 128 < length idem then Inl 400
        else (case (find (\<lambda>b. ib_projectId b = p_id p \<and> ib_idempotencyKey b = idem) (vt_batches db), dry) of
           (Some b, False) \<Rightarrow> Inr (Replayed (ib_id b) (ib_rowCount b))
         | _ \<Rightarrow>
            (let (rows, errors) = parseCsv maxRows (strip_bom csv); src = sources_of db (p_id p); problems = errors @ import_errors src rows
             in if problems \<noteq> [] then Inr (Refused_File problems)
                else if dry then Inr (Dry_Run (length rows))
                else Inr (Accepted_File \<lparr>iq_context = cx, iq_project = p, iq_key = idem, iq_digest = sha csv, iq_sources = src, iq_rows = rows\<rparr>)))))"


section \<open>Import: the transaction\<close>

datatype import_id = Import_Batch | Import_Issue nat | Import_Label string

text \<open>\<open>connectOrCreate\<close>: the label of that name, or a new one.\<close>

definition connect_label :: "(import_id \<Rightarrow> string) \<Rightarrow> string \<Rightarrow> string \<Rightarrow> string \<Rightarrow> tracker \<Rightarrow> tracker" where
  "connect_label new wid i name tk =
     (case find (\<lambda>l. lb_workspaceId l = wid \<and> lb_name l = name) (tk_labels tk) of
        Some l \<Rightarrow> tk\<lparr>tk_issueLabels := tk_issueLabels tk @ [(i, lb_id l)]\<rparr>
      | None \<Rightarrow> tk\<lparr>tk_labels := tk_labels tk @ [\<lparr>lb_id = new (Import_Label name), lb_workspaceId = wid, lb_name = name, lb_color = ''#6558d7''\<rparr>],
                  tk_issueLabels := tk_issueLabels tk @ [(i, new (Import_Label name))]\<rparr>)"

text \<open>A date that matches the pattern without being one makes the write fail.\<close>

definition due_date :: "string \<Rightarrow> time option option" where
  "due_date s = (if s = [] then Some None else map_option (\<lambda>t. Some (t + 43200000)) (parse_iso_date s))"

definition row_issue :: "(import_id \<Rightarrow> string) \<Rightarrow> time \<Rightarrow> import_plan \<Rightarrow> nat \<Rightarrow> csv_row \<Rightarrow> nat \<Rightarrow> issue option" where
  "row_issue new now iq k row number =
     (let src = iq_sources iq; p = iq_project iq in
      case (find_named it_name (cell ''type'' row) (is_types src), find_named st_name (cell ''status'' row) (is_statuses src),
            parse_priority (to_upper (cell ''priority'' row)), due_date (cell ''dueDate'' row)) of
        (Some t, Some s, Some priority, Some due) \<Rightarrow>
          Some \<lparr>i_id = new (Import_Issue k), i_workspaceId = cx_workspaceId (iq_context iq), i_projectId = p_id p, i_number = number, i_issueTypeId = it_id t,
            i_statusId = st_id s, i_reporterId = cx_userId (iq_context iq), i_assigneeId = map_option snd (find_named fst (cell ''assigneeEmail'' row) (is_members src)),
            i_parentId = None, i_hierarchyLevelId = None, i_summary = cell ''summary'' row, i_description = JStr (cell ''description'' row), i_resolution = None,
            i_priority = priority, i_estimate = (if cell ''estimate'' row = [] then None else Some (int (digits_value 0 (cell ''estimate'' row)))), i_dueDate = due,
            i_completedAt = None, i_archivedAt = None, i_version = 1, i_securityLevelId = None, i_rank = ''i'' @ pad 10 (int number), i_createdAt = now, i_updatedAt = now\<rparr>
      | _ \<Rightarrow> None)"

definition import_one :: "(import_id \<Rightarrow> string) \<Rightarrow> time \<Rightarrow> import_plan \<Rightarrow> nat \<times> csv_row \<Rightarrow> csv_db \<Rightarrow> (nat, csv_db) result" where
  "import_one new now iq kr db =
     (let (k, row) = kr; p = iq_project iq; tk = vt_tracker db; core = tk_core tk; names = names_in (cell ''labels'' row); e = cell ''externalId'' row in
      case find (\<lambda>q. p_id q = p_id p) (db_projects core) of
        None \<Rightarrow> Inl 500
      | Some current \<Rightarrow>
          (case row_issue new now iq k row (p_issueSequence current + 1) of
             None \<Rightarrow> Inl 500
           | Some i \<Rightarrow>
               if \<not> list_ex (\<lambda>s. st_id s = i_statusId i) (db_statuses core) \<or> \<not> list_ex (\<lambda>t. it_id t = i_issueTypeId i) (db_issueTypes core)
                 \<or> list_ex (\<lambda>x. i_id x = i_id i) (db_issues core) \<or> \<not> distinct names
                 \<or> list_ex (\<lambda>m. im_projectId m = p_id p \<and> im_externalId m = e) (vt_imported db) then Inl 500
               else Inr (db\<lparr>vt_tracker := fold (connect_label new (cx_workspaceId (iq_context iq)) (i_id i)) names
                        (tk\<lparr>tk_core := core\<lparr>db_projects := map (\<lambda>q. if p_id q = p_id p then q\<lparr>p_issueSequence := p_issueSequence q + 1\<rparr> else q) (db_projects core),
                                          db_issues := db_issues core @ [i]\<rparr>\<rparr>),
                      vt_imported := vt_imported db @ [\<lparr>im_projectId = p_id p, im_externalId = e, im_issueId = i_id i, im_importId = new Import_Batch\<rparr>]\<rparr>)))"

definition created_ids :: "(import_id \<Rightarrow> string) \<Rightarrow> csv_row list \<Rightarrow> string \<Rightarrow> string option" where
  "created_ids new rows = map_of (rev (map (\<lambda>(k, row). (cell ''externalId'' row, new (Import_Issue k))) (enumerate 0 rows)))"

definition add_import_link :: "string \<Rightarrow> string \<Rightarrow> csv_db \<Rightarrow> (nat, csv_db) result" where
  "add_import_link out inw db =
     (if (out, inw, ''relates'') \<in> set (vt_links db) then Inl 500 else Inr (db\<lparr>vt_links := vt_links db @ [(out, inw, ''relates'')]\<rparr>))"

definition add_import_release :: "string \<Rightarrow> string \<Rightarrow> csv_db \<Rightarrow> (nat, csv_db) result" where
  "add_import_release i r db =
     (if (r, i) \<in> set (vt_issueReleases db) then Inl 500 else Inr (db\<lparr>vt_issueReleases := vt_issueReleases db @ [(r, i)]\<rparr>))"

definition set_parent :: "string \<Rightarrow> string \<Rightarrow> csv_db \<Rightarrow> csv_db" where
  "set_parent i parent db =
     (let tk = vt_tracker db; core = tk_core tk
      in db\<lparr>vt_tracker := tk\<lparr>tk_core := core\<lparr>db_issues := map (\<lambda>x. if i_id x = i then x\<lparr>i_parentId := Some parent\<rparr> else x) (db_issues core)\<rparr>\<rparr>\<rparr>)"

definition refer_one :: "(import_id \<Rightarrow> string) \<Rightarrow> import_plan \<Rightarrow> csv_row \<Rightarrow> csv_db \<Rightarrow> (nat, csv_db) result" where
  "refer_one new iq row db =
     (let created = created_ids new (iq_rows iq); parent = cell ''parentExternalId'' row in
      case created (cell ''externalId'' row) of
        None \<Rightarrow> Inl 500
      | Some i \<Rightarrow>
          bind_result (if parent = [] then Inr db else (case created parent of None \<Rightarrow> Inl 500 | Some x \<Rightarrow> Inr (set_parent i x db))) (\<lambda>db1.
          bind_result (fold_result (\<lambda>n d. case created n of None \<Rightarrow> Inl 500 | Some x \<Rightarrow> add_import_link i x d) (names_in (cell ''links'' row)) db1) (\<lambda>db2.
            fold_result (\<lambda>n d. case find_named vr_name n (is_releases (iq_sources iq)) of None \<Rightarrow> Inl 500 | Some r \<Rightarrow> add_import_release i (vr_id r) d)
              (names_in (cell ''releases'' row)) db2)))"

definition import_batch_of :: "(import_id \<Rightarrow> string) \<Rightarrow> import_plan \<Rightarrow> import_batch" where
  "import_batch_of new iq =
     \<lparr>ib_id = new Import_Batch, ib_projectId = p_id (iq_project iq), ib_idempotencyKey = iq_key iq, ib_rowCount = length (iq_rows iq), ib_createdById = cx_userId (iq_context iq)\<rparr>"

definition import_audited :: "(import_id \<Rightarrow> string) \<Rightarrow> import_plan \<Rightarrow> csv_db \<Rightarrow> csv_db" where
  "import_audited new iq db =
     (let tk = vt_tracker db; core = tk_core tk; cx = iq_context iq;
          entry = \<lparr>au_workspaceId = cx_workspaceId cx, au_actorId = Some (cx_userId cx), au_action = ''issues.csv_imported'', au_targetType = ''project'',
            au_targetId = p_id (iq_project iq),
            au_metadata = JObj [(''importId'', JStr (new Import_Batch)), (''rowCount'', JInt (int (length (iq_rows iq)))), (''digest'', JStr (iq_digest iq))]\<rparr>
      in db\<lparr>vt_tracker := tk\<lparr>tk_core := core\<lparr>db_audit := db_audit core @ [entry]\<rparr>\<rparr>\<rparr>)"

definition import_commit :: "(import_id \<Rightarrow> string) \<Rightarrow> time \<Rightarrow> import_plan \<Rightarrow> csv_db \<Rightarrow> (nat, csv_db) result" where
  "import_commit new now iq db =
     (if list_ex (\<lambda>b. ib_projectId b = p_id (iq_project iq) \<and> ib_idempotencyKey b = iq_key iq) (vt_batches db) then Inl 500
      else bind_result (fold_result (import_one new now iq) (enumerate 0 (iq_rows iq)) (db\<lparr>vt_batches := vt_batches db @ [import_batch_of new iq]\<rparr>)) (\<lambda>db1.
           bind_result (fold_result (refer_one new iq) (iq_rows iq) db1) (\<lambda>db2. Inr (import_audited new iq db2))))"

definition csv_POST :: "(string \<Rightarrow> string) \<Rightarrow> nat \<Rightarrow> nat \<Rightarrow> (import_id \<Rightarrow> string) \<Rightarrow> time \<Rightarrow> auth_context option \<Rightarrow> string \<Rightarrow> jobj \<Rightarrow> csv_db
    \<Rightarrow> (nat, import_answer \<times> csv_db) result" where
  "csv_POST sha maxBytes maxRows new now context key body db =
     bind_result (import_check sha maxBytes maxRows context key body db) (\<lambda>answer.
       case answer of Accepted_File iq \<Rightarrow> map_sum id (Pair answer) (import_commit new now iq db) | _ \<Rightarrow> Inr (answer, db))"


section \<open>What an import writes\<close>

lemma connect_labels_core [simp]: "tk_core (fold (connect_label new wid i) names tk) = tk_core tk"
  by (induction names arbitrary: tk) (auto simp: connect_label_def split: option.splits)

lemma row_issue_facts:
  "row_issue new now iq k row n = Some i \<Longrightarrow> i_id i = new (Import_Issue k) \<and> i_projectId i = p_id (iq_project iq) \<and> i_number i = n \<and> i_parentId i = None"
  by (auto simp: row_issue_def Let_def split: option.splits)

definition counted :: "string \<Rightarrow> project \<Rightarrow> project" where
  "counted pid q = (if p_id q = pid then q\<lparr>p_issueSequence := p_issueSequence q + 1\<rparr> else q)"

lemma counted_id [simp]: "p_id (counted pid q) = p_id q"
  by (simp add: counted_def)

lemma import_one_writes:
  assumes "import_one new now iq (k, row) db = Inr db'"
  obtains q i where "find (\<lambda>q. p_id q = p_id (iq_project iq)) (db_projects (vt_core db)) = Some q"
    and "row_issue new now iq k row (p_issueSequence q + 1) = Some i"
    and "vt_core db' = (vt_core db)\<lparr>db_projects := map (counted (p_id (iq_project iq))) (db_projects (vt_core db)), db_issues := db_issues (vt_core db) @ [i]\<rparr>"
    and "\<forall>y\<in>set (db_issues (vt_core db)). i_id y \<noteq> i_id i" and "vt_batches db' = vt_batches db"
    and "vt_imported db' = vt_imported db @ [\<lparr>im_projectId = p_id (iq_project iq), im_externalId = cell ''externalId'' row, im_issueId = new (Import_Issue k), im_importId = new Import_Batch\<rparr>]"
proof -
  have c: "counted (p_id (iq_project iq)) = (\<lambda>q. if p_id q = p_id (iq_project iq) then q\<lparr>p_issueSequence := p_issueSequence q + 1\<rparr> else q)"
    by (rule ext) (simp add: counted_def)
  from assms obtain q where q: "find (\<lambda>q. p_id q = p_id (iq_project iq)) (db_projects (vt_core db)) = Some q"
    by (auto simp: import_one_def Let_def split: option.splits)
  with assms obtain i where i: "row_issue new now iq k row (p_issueSequence q + 1) = Some i"
    by (auto simp: import_one_def Let_def split: option.splits)
  from assms q i [simplified] have "\<forall>y\<in>set (db_issues (vt_core db)). i_id y \<noteq> i_id i"
    by (simp add: import_one_def Let_def list_ex_iff split: if_splits)
  with assms show thesis
    by (intro that [OF q i]) (auto simp: import_one_def Let_def q i [simplified] c row_issue_facts [OF i] split: if_splits)
qed

lemma import_rows_write:
  "fold_result (import_one new now iq) (enumerate m rows) db = Inr db' \<Longrightarrow> find (\<lambda>q. p_id q = p_id (iq_project iq)) (db_projects (vt_core db)) = Some q
     \<Longrightarrow> p_issueSequence q = s + m \<Longrightarrow>
   \<exists>is projects. map Some is = map (\<lambda>(k, row). row_issue new now iq k row (s + k + 1)) (enumerate m rows)
     \<and> vt_core db' = (vt_core db)\<lparr>db_projects := projects, db_issues := db_issues (vt_core db) @ is\<rparr> \<and> vt_batches db' = vt_batches db
     \<and> vt_imported db' = vt_imported db @ map (\<lambda>(k, row). \<lparr>im_projectId = p_id (iq_project iq), im_externalId = cell ''externalId'' row, im_issueId = new (Import_Issue k),
          im_importId = new Import_Batch\<rparr>) (enumerate m rows)"
proof (induction rows arbitrary: m db q)
  case Nil
  then show ?case by (intro exI [of _ "[]"] exI [of _ "db_projects (vt_core db)"]) simp
next
  case (Cons row rows)
  obtain db1 where one: "import_one new now iq (m, row) db = Inr db1" and rest: "fold_result (import_one new now iq) (enumerate (Suc m) rows) db1 = Inr db'"
    using Cons.prems(1) by (auto simp: bind_result_eq_Inr)
  obtain i where i: "row_issue new now iq m row (s + m + 1) = Some i"
    and core: "vt_core db1 = (vt_core db)\<lparr>db_projects := map (counted (p_id (iq_project iq))) (db_projects (vt_core db)), db_issues := db_issues (vt_core db) @ [i]\<rparr>"
    and other: "vt_batches db1 = vt_batches db"
      "vt_imported db1 = vt_imported db @ [\<lparr>im_projectId = p_id (iq_project iq), im_externalId = cell ''externalId'' row, im_issueId = new (Import_Issue m), im_importId = new Import_Batch\<rparr>]"
    by (rule import_one_writes [OF one]) (use Cons.prems(2,3) in auto)
  have q1: "find (\<lambda>q. p_id q = p_id (iq_project iq)) (db_projects (vt_core db1)) = Some (counted (p_id (iq_project iq)) q)"
    by (simp add: core find_map_same Cons.prems(2))
  have s1: "p_issueSequence (counted (p_id (iq_project iq)) q) = s + Suc m"
    using find_SomeD [OF Cons.prems(2)] Cons.prems(3) by (simp add: counted_def)
  obtain "is" projects where "map Some is = map (\<lambda>(k, row). row_issue new now iq k row (s + k + 1)) (enumerate (Suc m) rows)"
    "vt_core db' = (vt_core db1)\<lparr>db_projects := projects, db_issues := db_issues (vt_core db1) @ is\<rparr>" "vt_batches db' = vt_batches db1"
    "vt_imported db' = vt_imported db1 @ map (\<lambda>(k, row). \<lparr>im_projectId = p_id (iq_project iq), im_externalId = cell ''externalId'' row, im_issueId = new (Import_Issue k),
          im_importId = new Import_Batch\<rparr>) (enumerate (Suc m) rows)"
    using Cons.IH [OF rest q1 s1] by blast
  then show ?case by (intro exI [of _ "i # is"] exI [of _ projects]) (simp add: i [simplified] core other)
qed

lemma import_rows_numbers:
  assumes "fold_result (import_one new now iq) krs db = Inr db'" and "numbers_ok (vt_core db)"
  shows "numbers_ok (vt_core db')"
  using assms
proof (rule fold_result_invariant)
  fix kr d d' assume one: "import_one new now iq kr d = Inr d'" and ok: "numbers_ok (vt_core d)"
  obtain k row where kr: "kr = (k, row)" by fastforce
  obtain q i where w: "find (\<lambda>q. p_id q = p_id (iq_project iq)) (db_projects (vt_core d)) = Some q" "row_issue new now iq k row (p_issueSequence q + 1) = Some i"
    "vt_core d' = (vt_core d)\<lparr>db_projects := map (counted (p_id (iq_project iq))) (db_projects (vt_core d)), db_issues := db_issues (vt_core d) @ [i]\<rparr>"
    "\<forall>y\<in>set (db_issues (vt_core d)). i_id y \<noteq> i_id i"
    by (rule import_one_writes [OF one [unfolded kr]]) blast
  show "numbers_ok (vt_core d')"
    by (rule numbers_ok_append [OF ok w(1) _ _ _ w(4)]) (simp_all add: w(3) row_issue_facts [OF w(2)] counted_def [abs_def])
qed

section \<open>Parents\<close>

definition parent_target :: "(import_id \<Rightarrow> string) \<Rightarrow> import_plan \<Rightarrow> csv_row \<Rightarrow> string option" where
  "parent_target new iq row = (if cell ''parentExternalId'' row = [] then None else created_ids new (iq_rows iq) (cell ''parentExternalId'' row))"

definition under :: "string \<times> string option \<Rightarrow> issue \<Rightarrow> issue" where
  "under ip x = (case ip of (i, Some q) \<Rightarrow> if i_id x = i then x\<lparr>i_parentId := Some q\<rparr> else x | _ \<Rightarrow> x)"

lemma under_id [simp]: "i_id (under ip x) = i_id x" "i_projectId (under ip x) = i_projectId x" "i_number (under ip x) = i_number x"
  by (auto simp: under_def split: prod.splits option.splits)

lemma map_under_None [simp]: "map (under (i, None)) xs = xs"
  by (simp add: under_def map_idI)

lemma refer_one_writes:
  assumes "refer_one new iq row db = Inr db'" and "created_ids new (iq_rows iq) (cell ''externalId'' row) = Some i"
  shows "vt_core db' = (vt_core db)\<lparr>db_issues := map (under (i, parent_target new iq row)) (db_issues (vt_core db))\<rparr>"
    and "vt_batches db' = vt_batches db" "vt_imported db' = vt_imported db"
proof -
  let ?same = "\<lambda>d d'. vt_tracker d' = vt_tracker d \<and> vt_batches d' = vt_batches d \<and> vt_imported d' = vt_imported d"
  obtain db1 db2 where p: "(if cell ''parentExternalId'' row = [] then Inr db else (case created_ids new (iq_rows iq) (cell ''parentExternalId'' row) of None \<Rightarrow> Inl 500 | Some x \<Rightarrow> Inr (set_parent i x db))) = (Inr db1 :: (nat, csv_db) result)"
    and l: "fold_result (\<lambda>n d. case created_ids new (iq_rows iq) n of None \<Rightarrow> Inl 500 | Some x \<Rightarrow> add_import_link i x d) (names_in (cell ''links'' row)) db1 = Inr db2"
    and r: "fold_result (\<lambda>n d. case find_named vr_name n (is_releases (iq_sources iq)) of None \<Rightarrow> Inl 500 | Some r \<Rightarrow> add_import_release i (vr_id r) d) (names_in (cell ''releases'' row)) db2 = Inr db'"
    using assms by (auto simp: refer_one_def Let_def bind_result_eq_Inr)
  have "?same db1 db2" using l
    by (rule fold_result_invariant [of _ _ _ _ "?same db1"]) (auto simp: add_import_link_def split: option.splits if_splits)
  moreover have "?same db2 db'" using r
    by (rule fold_result_invariant [of _ _ _ _ "?same db2"]) (auto simp: add_import_release_def split: option.splits if_splits)
  moreover have "vt_core db1 = (vt_core db)\<lparr>db_issues := map (under (i, parent_target new iq row)) (db_issues (vt_core db))\<rparr> \<and> vt_batches db1 = vt_batches db \<and> vt_imported db1 = vt_imported db"
    using p by (auto simp: parent_target_def set_parent_def under_def Let_def split: if_splits option.splits)
  ultimately show "vt_core db' = (vt_core db)\<lparr>db_issues := map (under (i, parent_target new iq row)) (db_issues (vt_core db))\<rparr>"
    "vt_batches db' = vt_batches db" "vt_imported db' = vt_imported db" by simp_all
qed


lemma under_fold_other: "i_id x \<notin> fst ` set ups \<Longrightarrow> fold under ups x = x"
  by (induction ups arbitrary: x) (auto simp: under_def split: option.splits)

lemma under_fold_own:
  assumes "distinct (map fst ups)" and "(i_id x, p) \<in> set ups"
  shows "fold under ups x = under (i_id x, p) x"
proof -
  obtain us vs where ups: "ups = us @ (i_id x, p) # vs" using assms(2) by (auto simp: in_set_conv_decomp)
  then have "i_id x \<notin> fst ` set us" "i_id x \<notin> fst ` set vs" using assms(1) by auto
  then show ?thesis using under_fold_other [of x us] under_fold_other [of "under (i_id x, p) x" vs] by (simp add: ups)
qed

lemma under_own: "under (i_id x, p) x = (case p of None \<Rightarrow> x | Some q \<Rightarrow> x\<lparr>i_parentId := Some q\<rparr>)"
  by (simp add: under_def split: option.split)

lemma fold_under_id: "i_id (fold under ups x) = i_id x \<and> i_projectId (fold under ups x) = i_projectId x \<and> i_number (fold under ups x) = i_number x"
  by (induction ups arbitrary: x) simp_all

lemma validate_rows_ok:
  "validate_rows src n ids rows = ([], all) \<Longrightarrow> distinct ids \<Longrightarrow> all = ids @ map (cell ''externalId'') rows \<and> distinct (ids @ map (cell ''externalId'') rows)"
proof (induction rows arbitrary: n ids)
  case (Cons row rows)
  let ?ids = "if id_refused src ids row then ids else ids @ [cell ''externalId'' row]"
  obtain errors rest where v: "validate_rows src (n + 1) ?ids rows = (errors, rest)" by fastforce
  then have "row_problems src ids row = []" "errors = []" "rest = all" using Cons.prems(1) by (simp_all add: Let_def)
  then have ok: "\<not> id_refused src ids row" by (auto simp: row_problems_def Let_def split: if_splits)
  then have "distinct ?ids" using Cons.prems(2) by (simp add: id_refused_def Let_def)
  with Cons.IH [of "n + 1" ?ids] v ok \<open>errors = []\<close> \<open>rest = all\<close> show ?case by simp
qed simp

lemma import_ids_distinct:
  assumes "import_errors src rows = []"
  shows "distinct (map (cell ''externalId'') rows)"
proof -
  obtain errors "all" where v: "validate_rows src 2 [] rows = (errors, all)" by fastforce
  with assms have "errors = []" by (simp add: import_errors_def Let_def)
  with validate_rows_ok [of src 2 "[]" rows "all"] v show ?thesis by simp
qed

lemma created_own:
  assumes "distinct (map (cell ''externalId'') rows)" and "(k, row) \<in> set (enumerate 0 rows)"
  shows "created_ids new rows (cell ''externalId'' row) = Some (new (Import_Issue k))"
proof -
  let ?xs = "map (\<lambda>(k, row). (cell ''externalId'' row, new (Import_Issue k))) (enumerate 0 rows)"
  have "map fst ?xs = map (cell ''externalId'') (map snd (enumerate 0 rows))" unfolding map_map by (rule map_cong) auto
  then have "map fst ?xs = map (cell ''externalId'') rows" by (simp only: map_snd_enumerate)
  then have "distinct (map fst (rev ?xs))" using assms(1) by (simp add: rev_map [symmetric])
  moreover have "(cell ''externalId'' row, new (Import_Issue k)) \<in> set (rev ?xs)" using assms(2) by force
  ultimately show ?thesis unfolding created_ids_def by (rule map_of_is_SomeI)
qed

definition parent_updates :: "(import_id \<Rightarrow> string) \<Rightarrow> import_plan \<Rightarrow> (nat \<times> csv_row) list \<Rightarrow> (string \<times> string option) list" where
  "parent_updates new iq krs = map (\<lambda>(k, row). (new (Import_Issue k), parent_target new iq row)) krs"

lemma refer_rows_write:
  assumes "\<And>k row. (k, row) \<in> set krs \<Longrightarrow> created_ids new (iq_rows iq) (cell ''externalId'' row) = Some (new (Import_Issue k))"
    and "fold_result (refer_one new iq) (map snd krs) db = Inr db'"
  shows "vt_core db' = (vt_core db)\<lparr>db_issues := map (fold under (parent_updates new iq krs)) (db_issues (vt_core db))\<rparr>
    \<and> vt_batches db' = vt_batches db \<and> vt_imported db' = vt_imported db"
  using assms
proof (induction krs arbitrary: db)
  case Nil
  then show ?case by (simp add: parent_updates_def id_def)
next
  case (Cons kr krs)
  obtain k row where kr: "kr = (k, row)" by fastforce
  obtain db1 where one: "refer_one new iq row db = Inr db1" and rest: "fold_result (refer_one new iq) (map snd krs) db1 = Inr db'"
    using Cons.prems(2) by (auto simp: kr bind_result_eq_Inr)
  have own: "created_ids new (iq_rows iq) (cell ''externalId'' row) = Some (new (Import_Issue k))" by (rule Cons.prems(1)) (simp add: kr)
  have "vt_core db' = (vt_core db1)\<lparr>db_issues := map (fold under (parent_updates new iq krs)) (db_issues (vt_core db1))\<rparr>
    \<and> vt_batches db' = vt_batches db1 \<and> vt_imported db' = vt_imported db1"
    by (rule Cons.IH [OF Cons.prems(1) rest]) simp
  then show ?case using refer_one_writes [OF one own] by (simp add: parent_updates_def kr o_def)
qed

lemma csv_access_project:
  assumes "csv_access context key db = Inr (cx, p, role)"
  shows "\<exists>q. find (\<lambda>q. p_id q = p_id p) (db_projects (vt_core db)) = Some q"
proof -
  have "p \<in> set (db_projects (vt_core db))"
    using assms by (auto simp: csv_access_def getProjectForContext_def split: option.splits dest: find_SomeD)
  then have "find (\<lambda>q. p_id q = p_id p) (db_projects (vt_core db)) \<noteq> None" unfolding find_None_iff' by blast
  then show ?thesis by blast
qed

lemma import_check_accepts:
  assumes "import_check sha maxBytes maxRows context key body db = Inr (Accepted_File iq)"
  shows "\<exists>role. csv_access context key db = Inr (iq_context iq, iq_project iq, role)" and "import_errors (iq_sources iq) (iq_rows iq) = []"
    and "parseCsv maxRows (strip_bom (string_or_empty (field ''csv'' body))) = (iq_rows iq, [])"
    and "iq_sources iq = sources_of db (p_id (iq_project iq))" and "iq_key iq = trim (string_or_empty (field ''idempotencyKey'' body))"
  using assms unfolding import_check_def Let_def
  by (auto simp: bind_result_eq_Inr split: if_splits prod.splits option.splits bool.splits)

lemma csv_POST_accepts:
  assumes "csv_POST sha maxBytes maxRows new now context key body db = Inr (Accepted_File iq, db')"
  shows "import_check sha maxBytes maxRows context key body db = Inr (Accepted_File iq)" "import_commit new now iq db = Inr db'"
proof -
  obtain a where a: "import_check sha maxBytes maxRows context key body db = Inr a"
    and r: "(case a of Accepted_File iq \<Rightarrow> map_sum id (Pair a) (import_commit new now iq db) | _ \<Rightarrow> Inr (a, db)) = Inr (Accepted_File iq, db')"
    using assms unfolding csv_POST_def bind_result_eq_Inr by blast
  have "a = Accepted_File iq \<and> import_commit new now iq db = Inr db'"
  proof (cases a)
    case (Accepted_File iq')
    then show ?thesis using r by (cases "import_commit new now iq' db") auto
  qed (use r in auto)
  with a show "import_check sha maxBytes maxRows context key body db = Inr (Accepted_File iq)" "import_commit new now iq db = Inr db'" by simp_all
qed

text \<open>What an accepted import leaves in the tables.\<close>

lemma import_commit_writes:
  assumes "import_commit new now iq db = Inr db'" and "numbers_ok (vt_core db)" and "import_errors (iq_sources iq) (iq_rows iq) = []"
    and q: "find (\<lambda>q. p_id q = p_id (iq_project iq)) (db_projects (vt_core db)) = Some q"
  shows "\<exists>created. map Some created = map (\<lambda>(k, row). map_option (under (new (Import_Issue k), parent_target new iq row)) (row_issue new now iq k row (p_issueSequence q + k + 1)))
        (enumerate 0 (iq_rows iq)) \<and> db_issues (vt_core db') = db_issues (vt_core db) @ created \<and> numbers_ok (vt_core db')
      \<and> vt_batches db' = vt_batches db @ [import_batch_of new iq]
      \<and> vt_imported db' = vt_imported db @ map (\<lambda>(k, row). \<lparr>im_projectId = p_id (iq_project iq), im_externalId = cell ''externalId'' row, im_issueId = new (Import_Issue k), im_importId = new Import_Batch\<rparr>) (enumerate 0 (iq_rows iq))"
proof -
  let ?db0 = "db\<lparr>vt_batches := vt_batches db @ [import_batch_of new iq]\<rparr>"
  let ?rows = "enumerate 0 (iq_rows iq)"
  obtain db1 db2 where one: "fold_result (import_one new now iq) ?rows ?db0 = Inr db1" and two: "fold_result (refer_one new iq) (iq_rows iq) db1 = Inr db2"
    and db': "db' = import_audited new iq db2"
    using assms(1) by (auto simp: import_commit_def bind_result_eq_Inr split: if_splits)
  have q0: "find (\<lambda>q. p_id q = p_id (iq_project iq)) (db_projects (vt_core ?db0)) = Some q" using q by simp
  obtain "is" projects where created: "map Some is = map (\<lambda>(k, row). row_issue new now iq k row (p_issueSequence q + k + 1)) ?rows"
    and core1: "vt_core db1 = (vt_core db)\<lparr>db_projects := projects, db_issues := db_issues (vt_core db) @ is\<rparr>" and b1: "vt_batches db1 = vt_batches db @ [import_batch_of new iq]"
      "vt_imported db1 = vt_imported db @ map (\<lambda>(k, row). \<lparr>im_projectId = p_id (iq_project iq), im_externalId = cell ''externalId'' row, im_issueId = new (Import_Issue k), im_importId = new Import_Batch\<rparr>) ?rows"
    using import_rows_write [OF one q0, of "p_issueSequence q"] by auto
  have ok1: "numbers_ok (vt_core db1)" by (rule import_rows_numbers [OF one]) (use assms(2) in simp)
  let ?ups = "parent_updates new iq ?rows"
  have core2: "vt_core db2 = (vt_core db1)\<lparr>db_issues := map (fold under ?ups) (db_issues (vt_core db1))\<rparr> \<and> vt_batches db2 = vt_batches db1 \<and> vt_imported db2 = vt_imported db1"
    by (rule refer_rows_write [OF created_own [OF import_ids_distinct [OF assms(3)]]]) (use two in simp_all)
  have ids: "map i_id is = map fst ?ups"
  proof (rule nth_equalityI)
    show len: "length (map i_id is) = length (map fst ?ups)" using arg_cong [OF created, of length] by (simp add: parent_updates_def)
    fix n assume "n < length (map i_id is)"
    then have n: "n < length is" "n < length (iq_rows iq)" using len by (simp_all add: parent_updates_def)
    have "Some (is ! n) = row_issue new now iq n (iq_rows iq ! n) (p_issueSequence q + n + 1)"
      using arg_cong [OF created, of "\<lambda>xs. xs ! n"] n by (simp add: nth_enumerate_eq)
    then show "map i_id is ! n = map fst ?ups ! n" using row_issue_facts n by (simp add: parent_updates_def nth_enumerate_eq)
  qed
  have uniq: "distinct (map i_id (db_issues (vt_core db) @ is))" using ok1 by (simp add: numbers_ok_def core1)
  have dist: "distinct (map fst ?ups)" using uniq by (simp flip: ids)
  have old: "i_id x \<notin> fst ` set ?ups" if "x \<in> set (db_issues (vt_core db))" for x
  proof -
    have "fst ` set ?ups = i_id ` set is" using arg_cong [OF ids, of set] by simp
    then show ?thesis using uniq that by auto
  qed
  have kept: "map (fold under ?ups) (db_issues (vt_core db)) = db_issues (vt_core db)"
    by (rule map_idI) (rule under_fold_other [OF old])
  let ?created = "map (fold under ?ups) is"
  have all: "map Some ?created = map (\<lambda>(k, row). map_option (under (new (Import_Issue k), parent_target new iq row)) (row_issue new now iq k row (p_issueSequence q + k + 1))) ?rows"
  proof (rule nth_equalityI)
    show len: "length (map Some ?created) = length (map (\<lambda>(k, row). map_option (under (new (Import_Issue k), parent_target new iq row)) (row_issue new now iq k row (p_issueSequence q + k + 1))) ?rows)"
      using arg_cong [OF created, of length] by simp
    fix n assume "n < length (map Some ?created)"
    then have n: "n < length is" "n < length (iq_rows iq)" using len by simp_all
    have s: "Some (is ! n) = row_issue new now iq n (iq_rows iq ! n) (p_issueSequence q + n + 1)"
      using arg_cong [OF created, of "\<lambda>xs. xs ! n"] n by (simp add: nth_enumerate_eq)
    have "(i_id (is ! n), parent_target new iq (iq_rows iq ! n)) \<in> set ?ups"
      using row_issue_facts [OF s [symmetric]] nth_mem [of n ?ups] n by (simp add: parent_updates_def nth_enumerate_eq)
    from under_fold_own [OF dist this] show "map Some ?created ! n
        = map (\<lambda>(k, row). map_option (under (new (Import_Issue k), parent_target new iq row)) (row_issue new now iq k row (p_issueSequence q + k + 1))) ?rows ! n"
      using n row_issue_facts [OF s [symmetric]] by (simp add: nth_enumerate_eq flip: s [simplified])
  qed
  have core: "db_issues (vt_core db') = db_issues (vt_core db) @ ?created" "db_projects (vt_core db') = db_projects (vt_core db1)"
    using core2 by (simp_all add: db' import_audited_def Let_def core1 kept)
  have "numbers_ok (vt_core db')"
    by (rule numbers_ok_rewrite [OF ok1, of _ "fold under ?ups"]) (simp_all add: core core1 kept fold_under_id)
  then show "\<exists>created. map Some created = map (\<lambda>(k, row). map_option (under (new (Import_Issue k), parent_target new iq row)) (row_issue new now iq k row (p_issueSequence q + k + 1)))
        ?rows \<and> db_issues (vt_core db') = db_issues (vt_core db) @ created \<and> numbers_ok (vt_core db') \<and> vt_batches db' = vt_batches db @ [import_batch_of new iq]
      \<and> vt_imported db' = vt_imported db @ map (\<lambda>(k, row). \<lparr>im_projectId = p_id (iq_project iq), im_externalId = cell ''externalId'' row, im_issueId = new (Import_Issue k), im_importId = new Import_Batch\<rparr>) ?rows"
    using all core core2 b1 by (intro exI [of _ ?created]) (simp add: db' import_audited_def Let_def)
qed


section \<open>Rows and issues\<close>

text \<open>The issue a row of the file asks for, read off the tables of the project: names and addresses match in any case.\<close>

definition imported_as :: "csv_db \<Rightarrow> auth_context \<Rightarrow> string \<Rightarrow> csv_row \<Rightarrow> issue \<Rightarrow> bool" where
  "imported_as db cx pid row i \<longleftrightarrow>
     i_workspaceId i = cx_workspaceId cx \<and> i_projectId i = pid \<and> i_reporterId i = cx_userId cx \<and> i_archivedAt i = None \<and> i_securityLevelId i = None
   \<and> i_summary i = cell ''summary'' row \<and> i_description i = JStr (cell ''description'' row)
   \<and> list_ex (\<lambda>t. it_id t = i_issueTypeId i \<and> it_projectId t = pid \<and> to_lower (it_name t) = to_lower (cell ''type'' row)) (db_issueTypes (vt_core db))
   \<and> list_ex (\<lambda>s. st_id s = i_statusId i \<and> st_projectId s = pid \<and> to_lower (st_name s) = to_lower (cell ''status'' row)) (db_statuses (vt_core db))
   \<and> parse_priority (to_upper (cell ''priority'' row)) = Some (i_priority i)
   \<and> (case i_assigneeId i of
        None \<Rightarrow> cell ''assigneeEmail'' row = []
      | Some u \<Rightarrow> list_ex (\<lambda>m. pm_projectId m = pid \<and> pm_userId m = u) (db_projectMembers (vt_core db))
          \<and> map_option to_lower (user_email db u) = Some (to_lower (cell ''assigneeEmail'' row)))
   \<and> i_estimate i = (if cell ''estimate'' row = [] then None else Some (int (digits_value 0 (cell ''estimate'' row))))
   \<and> (case i_dueDate i of None \<Rightarrow> cell ''dueDate'' row = [] | Some t \<Rightarrow> parse_iso_date (cell ''dueDate'' row) = Some (t - 43200000))"

lemma find_named_SomeD: "find_named name s rows = Some r \<Longrightarrow> r \<in> set rows \<and> to_lower (name r) = to_lower s"
  unfolding find_named_def by (drule find_SomeD) (elim conjE, intro conjI)

lemma member_source:
  assumes "(e, u) \<in> set (is_members (sources_of db pid))"
  shows "list_ex (\<lambda>m. pm_projectId m = pid \<and> pm_userId m = u) (db_projectMembers (vt_core db)) \<and> user_email db u = Some e"
  using assms by (auto simp: sources_of_def List.map_filter_def list_ex_iff split: if_splits)

lemma row_problems_assignee:
  "row_problems src ids row = [] \<Longrightarrow> cell ''assigneeEmail'' row \<noteq> [] \<Longrightarrow> find_named fst (cell ''assigneeEmail'' row) (is_members src) \<noteq> None"
  unfolding row_problems_def Let_def append_is_Nil_conv by (elim conjE) (metis list.distinct(1))

lemma validated_row: "validate_rows src n ids rows = ([], known) \<Longrightarrow> row \<in> set rows \<Longrightarrow> \<exists>ids. row_problems src ids row = []"
  by (induction rows arbitrary: n ids) (auto simp: Let_def split: prod.splits)

lemma accepted_row:
  assumes "import_errors src rows = []" and "k < length rows"
  shows "\<exists>ids. row_problems src ids (rows ! k) = []" and "reference_problems (map (cell ''externalId'') rows) (rows ! k) = []"
proof -
  obtain errors known where v: "validate_rows src 2 [] rows = (errors, known)" by fastforce
  have e: "errors = []" and refs: "\<And>kr. kr \<in> set (enumerate 0 rows) \<Longrightarrow> reference_problems known (snd kr) = []"
    using assms(1) by (auto simp: import_errors_def v)
  have known: "known = map (cell ''externalId'') rows" using validate_rows_ok [of src 2 "[]" rows known] v e by simp
  show "\<exists>ids. row_problems src ids (rows ! k) = []" by (rule validated_row [OF v [unfolded e]]) (use assms(2) in simp)
  have "(k, rows ! k) \<in> set (enumerate 0 rows)" using assms(2) by (simp add: in_set_enumerate_eq)
  from refs [OF this] show "reference_problems (map (cell ''externalId'') rows) (rows ! k) = []" by (simp add: known)
qed

lemma row_issue_values:
  assumes "row_issue new now iq k row n = Some i" and "iq_sources iq = sources_of db (p_id (iq_project iq))" and "row_problems (iq_sources iq) ids row = []"
  shows "imported_as db (iq_context iq) (p_id (iq_project iq)) row i"
proof -
  obtain t s priority due where r: "find_named it_name (cell ''type'' row) (is_types (iq_sources iq)) = Some t"
    "find_named st_name (cell ''status'' row) (is_statuses (iq_sources iq)) = Some s" "parse_priority (to_upper (cell ''priority'' row)) = Some priority"
    "due_date (cell ''dueDate'' row) = Some due"
    using assms(1) by (auto simp: row_issue_def Let_def split: option.splits)
  note i = assms(1) [unfolded row_issue_def Let_def r option.case prod.case option.inject, symmetric]
  have t: "list_ex (\<lambda>x. it_id x = it_id t \<and> it_projectId x = p_id (iq_project iq) \<and> to_lower (it_name x) = to_lower (cell ''type'' row)) (db_issueTypes (vt_core db))"
    using find_named_SomeD [OF r(1)] by (auto simp: list_ex_iff assms(2) sources_of_def)
  have s: "list_ex (\<lambda>x. st_id x = st_id s \<and> st_projectId x = p_id (iq_project iq) \<and> to_lower (st_name x) = to_lower (cell ''status'' row)) (db_statuses (vt_core db))"
    using find_named_SomeD [OF r(2)] by (auto simp: list_ex_iff assms(2) sources_of_def)
  have due: "case due of None \<Rightarrow> cell ''dueDate'' row = [] | Some t \<Rightarrow> parse_iso_date (cell ''dueDate'' row) = Some (t - 43200000)"
    using r(4) by (auto simp: due_date_def split: if_splits)
  have person: "case map_option snd (find_named fst (cell ''assigneeEmail'' row) (is_members (iq_sources iq))) of
        None \<Rightarrow> cell ''assigneeEmail'' row = []
      | Some u \<Rightarrow> list_ex (\<lambda>m. pm_projectId m = p_id (iq_project iq) \<and> pm_userId m = u) (db_projectMembers (vt_core db))
          \<and> map_option to_lower (user_email db u) = Some (to_lower (cell ''assigneeEmail'' row))"
  proof (cases "find_named fst (cell ''assigneeEmail'' row) (is_members (iq_sources iq))")
    case None
    then show ?thesis using row_problems_assignee [OF assms(3)] by auto
  next
    case (Some eu)
    obtain e u where eu: "eu = (e, u)" by fastforce
    have "(e, u) \<in> set (is_members (sources_of db (p_id (iq_project iq))))" "to_lower e = to_lower (cell ''assigneeEmail'' row)"
      using find_named_SomeD [OF Some] by (simp_all add: eu assms(2))
    with member_source [OF this(1)] show ?thesis by (simp add: Some eu)
  qed
  show ?thesis using t s r(3) due person unfolding imported_as_def i by simp
qed

lemma under_keeps [simp]:
  "imported_as db cx pid row (under ip i) = imported_as db cx pid row i"
  by (auto simp: imported_as_def under_def split: prod.splits option.splits)

lemma parent_named:
  assumes "import_errors src (iq_rows iq) = []" and "k < length (iq_rows iq)" and "cell ''parentExternalId'' (iq_rows iq ! k) \<noteq> []"
  shows "\<exists>j<length (iq_rows iq). j \<noteq> k \<and> cell ''externalId'' (iq_rows iq ! j) = cell ''parentExternalId'' (iq_rows iq ! k)
    \<and> parent_target new iq (iq_rows iq ! k) = Some (new (Import_Issue j))"
proof -
  let ?parent = "cell ''parentExternalId'' (iq_rows iq ! k)"
  have "?parent \<in> set (map (cell ''externalId'') (iq_rows iq))" and own: "?parent \<noteq> cell ''externalId'' (iq_rows iq ! k)"
    using accepted_row(2) [OF assms(1,2)] assms(3) by (auto simp: reference_problems_def Let_def split: if_splits)
  then obtain j where j: "j < length (iq_rows iq)" "cell ''externalId'' (iq_rows iq ! j) = ?parent" by (auto simp: in_set_conv_nth)
  have "(j, iq_rows iq ! j) \<in> set (enumerate 0 (iq_rows iq))" using j(1) by (simp add: in_set_enumerate_eq)
  from created_own [OF import_ids_distinct [OF assms(1)] this, of new] have "parent_target new iq (iq_rows iq ! k) = Some (new (Import_Issue j))"
    using assms(3) by (simp add: parent_target_def j(2))
  with j own show ?thesis by (intro exI [of _ j]) auto
qed

text \<open>
  C34: An accepted file becomes one issue per row, with consecutive numbers after those of the project. Each issue has the
  summary, description, priority, estimate and due date of its row, the type and status of the project with the names in
  the row, the member with its address as assignee, and as parent the issue of the row with its parent's identifier; the
  identifiers of the rows are recorded with the issues. The issues that were there stay, and keys stay unique.
\<close>

theorem import_creates_one_issue_per_row:
  assumes "csv_POST sha maxBytes maxRows new now context key body db = Inr (Accepted_File iq, db')" and "numbers_ok (vt_core db)"
  shows "\<exists>q created links. find (\<lambda>q. p_id q = p_id (iq_project iq)) (db_projects (vt_core db)) = Some q
    \<and> parseCsv maxRows (strip_bom (string_or_empty (field ''csv'' body))) = (iq_rows iq, [])
    \<and> db_issues (vt_core db') = db_issues (vt_core db) @ created \<and> length created = length (iq_rows iq) \<and> numbers_ok (vt_core db')
    \<and> (\<forall>k<length (iq_rows iq).
         i_number (created ! k) = p_issueSequence q + k + 1 \<and> imported_as db (iq_context iq) (p_id q) (iq_rows iq ! k) (created ! k)
       \<and> (if cell ''parentExternalId'' (iq_rows iq ! k) = [] then i_parentId (created ! k) = None
          else (\<exists>j<length created. j \<noteq> k \<and> cell ''externalId'' (iq_rows iq ! j) = cell ''parentExternalId'' (iq_rows iq ! k)
                  \<and> i_parentId (created ! k) = Some (i_id (created ! j)))))
    \<and> vt_imported db' = vt_imported db @ links \<and> map im_externalId links = map (cell ''externalId'') (iq_rows iq) \<and> map im_issueId links = map i_id created"
proof -
  note accepted = csv_POST_accepts [OF assms(1)]
  note checked = import_check_accepts [OF accepted(1)]
  let ?rows = "iq_rows iq"
  obtain q where q: "find (\<lambda>q. p_id q = p_id (iq_project iq)) (db_projects (vt_core db)) = Some q" using checked(1) csv_access_project by blast
  let ?row = "\<lambda>k. map_option (under (new (Import_Issue k), parent_target new iq (?rows ! k))) (row_issue new now iq k (?rows ! k) (p_issueSequence q + k + 1))"
  let ?links = "map (\<lambda>(k, row). \<lparr>im_projectId = p_id (iq_project iq), im_externalId = cell ''externalId'' row, im_issueId = new (Import_Issue k), im_importId = new Import_Batch\<rparr>) (enumerate 0 ?rows)"
  obtain created where c: "map Some created = map (\<lambda>(k, row). map_option (under (new (Import_Issue k), parent_target new iq row)) (row_issue new now iq k row (p_issueSequence q + k + 1))) (enumerate 0 ?rows)"
    and w: "db_issues (vt_core db') = db_issues (vt_core db) @ created" "numbers_ok (vt_core db')" "vt_imported db' = vt_imported db @ ?links"
    using import_commit_writes [OF accepted(2) assms(2) checked(2) q] by blast
  have len: "length created = length ?rows" using arg_cong [OF c, of length] by simp
  have pid: "p_id q = p_id (iq_project iq)" using find_SomeD [OF q] by simp
  have one: "\<exists>i. row_issue new now iq k (?rows ! k) (p_issueSequence q + k + 1) = Some i \<and> created ! k = under (new (Import_Issue k), parent_target new iq (?rows ! k)) i"
    if "k < length ?rows" for k
  proof -
    have "?row k = Some (created ! k)" using arg_cong [OF c, of "\<lambda>xs. xs ! k"] that len by (simp add: nth_enumerate_eq)
    then show ?thesis unfolding map_option_eq_Some by (elim exE conjE) (intro exI conjI, assumption, erule sym)
  qed
  have ids: "i_id (created ! k) = new (Import_Issue k)" if "k < length ?rows" for k
    using one [OF that] row_issue_facts by auto
  have each: "i_number (created ! k) = p_issueSequence q + k + 1 \<and> imported_as db (iq_context iq) (p_id q) (?rows ! k) (created ! k)
      \<and> (if cell ''parentExternalId'' (?rows ! k) = [] then i_parentId (created ! k) = None
         else (\<exists>j<length created. j \<noteq> k \<and> cell ''externalId'' (?rows ! j) = cell ''parentExternalId'' (?rows ! k) \<and> i_parentId (created ! k) = Some (i_id (created ! j))))"
    if k: "k < length ?rows" for k
  proof -
    obtain i where i: "row_issue new now iq k (?rows ! k) (p_issueSequence q + k + 1) = Some i"
      and m: "created ! k = under (new (Import_Issue k), parent_target new iq (?rows ! k)) i" using one [OF k] by blast
    note f = row_issue_facts [OF i]
    have v: "imported_as db (iq_context iq) (p_id q) (?rows ! k) (created ! k)"
      using row_issue_values [OF i checked(4)] accepted_row(1) [OF checked(2) k] by (auto simp: m pid)
    have p: "i_parentId (created ! k) = parent_target new iq (?rows ! k)"
      using f unfolding m by (auto simp: under_def split: option.splits)
    show ?thesis
    proof (cases "cell ''parentExternalId'' (?rows ! k) = []")
      case True
      then show ?thesis using f v p by (simp add: m parent_target_def)
    next
      case False
      then obtain j where "j < length ?rows" "j \<noteq> k" "cell ''externalId'' (?rows ! j) = cell ''parentExternalId'' (?rows ! k)"
        "parent_target new iq (?rows ! k) = Some (new (Import_Issue j))"
        using parent_named [OF checked(2) k] by blast
      then have "\<exists>j<length created. j \<noteq> k \<and> cell ''externalId'' (?rows ! j) = cell ''parentExternalId'' (?rows ! k) \<and> i_parentId (created ! k) = Some (i_id (created ! j))"
        by (intro exI [of _ j]) (simp add: p ids len)
      with False v f show ?thesis by (simp add: m)
    qed
  qed
  have all: "\<forall>k<length ?rows. i_number (created ! k) = p_issueSequence q + k + 1 \<and> imported_as db (iq_context iq) (p_id q) (?rows ! k) (created ! k)
      \<and> (if cell ''parentExternalId'' (?rows ! k) = [] then i_parentId (created ! k) = None
         else (\<exists>j<length created. j \<noteq> k \<and> cell ''externalId'' (?rows ! j) = cell ''parentExternalId'' (?rows ! k) \<and> i_parentId (created ! k) = Some (i_id (created ! j))))"
    by (intro allI impI) (rule each)
  have links: "map im_externalId ?links = map (cell ''externalId'') ?rows" "map im_issueId ?links = map i_id created"
    by (rule nth_equalityI, simp_all add: nth_enumerate_eq len ids)+
  show ?thesis
    by (intro exI [of _ q] exI [of _ created] exI [of _ ?links] conjI) (rule q checked(3) w(1) len w(2) all w(3) links)+
qed

section \<open>Sending a file again\<close>

lemma csv_access_counted:
  assumes "csv_access context key db = Inr (cx, p, role)"
    and "vt_core db' = (vt_core db)\<lparr>db_projects := map (counted pid) (db_projects (vt_core db)), db_issues := is\<rparr>"
  shows "csv_access context key db' = Inr (cx, counted pid p, role)"
proof -
  have c: "p_key (counted pid q) = p_key q" "p_workspaceId (counted pid q) = p_workspaceId q" "p_archivedAt (counted pid q) = p_archivedAt q" "p_visibility (counted pid q) = p_visibility q" for q
    by (simp_all add: counted_def)
  have "getProjectForContext (vt_core db') x key = map_option (counted pid) (getProjectForContext (vt_core db) x key)" for x
    unfolding getProjectForContext_def accessibleProjectWhere_def assms(2) by (subst find_map_same [symmetric]) (simp_all add: c)
  then show ?thesis using assms(1) by (auto simp: csv_access_def assms(2) project_role_of_def c split: option.splits)
qed

lemma csv_access_same:
  assumes "db_projects (vt_core db') = db_projects (vt_core db)" and "db_projectMembers (vt_core db') = db_projectMembers (vt_core db)"
  shows "csv_access context key db' = csv_access context key db"
  unfolding csv_access_def getProjectForContext_def accessibleProjectWhere_def project_role_of_def assms ..

definition admits :: "auth_context option \<Rightarrow> string \<Rightarrow> auth_context \<Rightarrow> string \<Rightarrow> project_role option \<Rightarrow> csv_db \<Rightarrow> bool" where
  "admits context key cx pid role db \<longleftrightarrow> (\<exists>p. csv_access context key db = Inr (cx, p, role) \<and> p_id p = pid)"

lemma import_commit_admits:
  assumes "import_commit new now iq db = Inr db'" and "admits context key cx pid role db" and "import_errors (iq_sources iq) (iq_rows iq) = []"
  shows "admits context key cx pid role db'" and "vt_batches db' = vt_batches db @ [import_batch_of new iq]"
proof -
  let ?db0 = "db\<lparr>vt_batches := vt_batches db @ [import_batch_of new iq]\<rparr>"
  obtain db1 db2 where one: "fold_result (import_one new now iq) (enumerate 0 (iq_rows iq)) ?db0 = Inr db1" and two: "fold_result (refer_one new iq) (iq_rows iq) db1 = Inr db2"
    and db': "db' = import_audited new iq db2"
    using assms(1) by (auto simp: import_commit_def bind_result_eq_Inr split: if_splits)
  have "admits context key cx pid role db1 \<and> vt_batches db1 = vt_batches ?db0"
    using one
  proof (rule fold_result_invariant)
    show "admits context key cx pid role ?db0 \<and> vt_batches ?db0 = vt_batches ?db0"
      using assms(2) csv_access_same [of ?db0 db "context" key] by (simp add: admits_def)
    fix kr d d' assume step: "import_one new now iq kr d = Inr d'" and ok: "admits context key cx pid role d \<and> vt_batches d = vt_batches ?db0"
    obtain k row where kr: "kr = (k, row)" by fastforce
    obtain i where "vt_core d' = (vt_core d)\<lparr>db_projects := map (counted (p_id (iq_project iq))) (db_projects (vt_core d)), db_issues := db_issues (vt_core d) @ [i]\<rparr>"
      "vt_batches d' = vt_batches d"
      by (rule import_one_writes [OF step [unfolded kr]]) blast
    then show "admits context key cx pid role d' \<and> vt_batches d' = vt_batches ?db0" using ok csv_access_counted unfolding admits_def by fastforce
  qed
  moreover have "vt_core db2 = (vt_core db1)\<lparr>db_issues := map (fold under (parent_updates new iq (enumerate 0 (iq_rows iq)))) (db_issues (vt_core db1))\<rparr>
      \<and> vt_batches db2 = vt_batches db1 \<and> vt_imported db2 = vt_imported db1"
    by (rule refer_rows_write [OF created_own [OF import_ids_distinct [OF assms(3)]]]) (use two in simp_all)
  moreover have "csv_access context key db' = csv_access context key db2" "vt_batches db' = vt_batches db2"
    by (rule csv_access_same) (simp_all add: db' import_audited_def Let_def)
  ultimately show "admits context key cx pid role db'" "vt_batches db' = vt_batches db @ [import_batch_of new iq]"
    using csv_access_same [of db2 db1 "context" key] by (simp_all add: admits_def)
qed

text \<open>
  Sending an import again with its key changes nothing: the answer is the import that was made, whatever file comes
  with the key.
\<close>

theorem import_retry_is_harmless:
  assumes "csv_POST sha maxBytes maxRows new now context key body db = Inr (Accepted_File iq, db')"
    and "trim (string_or_empty (field ''idempotencyKey'' again)) = iq_key iq" and "field ''dryRun'' again \<noteq> JBool True"
    and "length (string_or_empty (field ''csv'' again)) \<le> maxBytes"
  shows "csv_POST sha maxBytes maxRows new' later context key again db' = Inr (Replayed (new Import_Batch) (length (iq_rows iq)), db')"
proof -
  note accepted = csv_POST_accepts [OF assms(1)]
  let ?pid = "p_id (iq_project iq)"
  obtain cx p where a: "csv_access context key db = Inr (cx, p, Some PAdmin)" "p = iq_project iq" and i: "iq_key iq \<noteq> []" "length (iq_key iq) \<le> 128"
    using accepted(1) unfolding import_check_def Let_def by (auto simp: bind_result_eq_Inr split: if_splits prod.splits option.splits bool.splits)
  have none: "\<not> list_ex (\<lambda>b. ib_projectId b = ?pid \<and> ib_idempotencyKey b = iq_key iq) (vt_batches db)"
    using accepted(2) by (auto simp: import_commit_def split: if_splits)
  have "admits context key cx ?pid (Some PAdmin) db" unfolding admits_def using a by blast
  from import_commit_admits [OF accepted(2) this import_check_accepts(2) [OF accepted(1)]]
  obtain p' where b: "csv_access context key db' = Inr (cx, p', Some PAdmin)" "p_id p' = ?pid" "vt_batches db' = vt_batches db @ [import_batch_of new iq]"
    unfolding admits_def by blast
  have missing: "find (\<lambda>b. ib_projectId b = ?pid \<and> ib_idempotencyKey b = iq_key iq) (vt_batches db) = None"
    unfolding find_None_iff' using none by (simp add: list_ex_iff)
  have f: "find (\<lambda>b. ib_projectId b = ?pid \<and> ib_idempotencyKey b = iq_key iq) (vt_batches db') = Some (import_batch_of new iq)"
    by (simp add: b(3) find_append missing import_batch_of_def)
  have "import_check sha maxBytes maxRows context key again db' = Inr (Replayed (new Import_Batch) (length (iq_rows iq)))"
    using i assms(2-4) by (simp add: import_check_def b(1,2) f Let_def) (simp add: import_batch_of_def)
  then show ?thesis by (simp add: csv_POST_def)
qed


section \<open>A sample\<close>

definition csv_core :: workspace_db where
  "csv_core = board_core\<lparr>db_issueTypes := [\<lparr>it_id = ''t'', it_projectId = ''p'', it_name = ''Task'', it_position = 0, it_isEpic = False\<rparr>]\<rparr>"

definition csv_sample :: csv_db where
  "csv_sample = \<lparr>vt_tracker = board_tracker\<lparr>tk_core := csv_core\<rparr>, vt_links = [], vt_releases = [], vt_issueReleases = [], vt_batches = [], vt_imported = []\<rparr>"

definition csv_line :: "string \<Rightarrow> string \<Rightarrow> jobj" where
  "csv_line i parent = [(''externalId'', JStr i), (''summary'', JStr i), (''type'', JStr ''task''), (''status'', JStr ''open''), (''priority'', JStr ''low''),
     (''parentExternalId'', JStr parent)]"

definition loop_file :: string where
  "loop_file = encodeCsv (\<lambda>_. []) [csv_line ''a'' ''b'', csv_line ''b'' ''a'']"

definition loop_body :: jobj where
  "loop_body = [(''csv'', JStr loop_file), (''idempotencyKey'', JStr ''k1'')]"

fun sample_id :: "import_id \<Rightarrow> string" where
  "sample_id Import_Batch = ''batch''"
| "sample_id (Import_Issue n) = ''new-'' @ digits_of_nat n"
| "sample_id (Import_Label s) = ''label-'' @ s"

definition loop_plan :: import_plan where
  "loop_plan = \<lparr>iq_context = amy, iq_project = sample_project, iq_key = ''k1'', iq_digest = [], iq_sources = sources_of csv_sample ''p'',
     iq_rows = map (\<lambda>r. map (\<lambda>c. (c, cell_text (\<lambda>_. []) (field c r))) ISSUE_CSV_COLUMNS) [csv_line ''a'' ''b'', csv_line ''b'' ''a'']\<rparr>"

definition loop_db :: csv_db where
  "loop_db = outcome (import_commit sample_id 9 loop_plan csv_sample) csv_sample"

lemma loop_runs: "isl (import_commit sample_id 9 loop_plan csv_sample) = False"
  by code_simp

lemma loop_accepted: "import_errors (iq_sources loop_plan) (iq_rows loop_plan) = []"
  by code_simp

lemma loop_parents: "map (\<lambda>i. (i_id i, i_workspaceId i, i_parentId i)) (db_issues (vt_core loop_db))
    = [(''i1'', ''w'', None), (''new-0'', ''w'', Some ''new-1''), (''new-1'', ''w'', Some ''new-0'')]"
  by code_simp

lemma loop_access: "csv_access (Some amy) ''WEB'' csv_sample = Inr (amy, sample_project, Some PAdmin)"
  by code_simp

lemma csv_line_shown: "i \<noteq> [] \<Longrightarrow> \<exists>c\<in>set ISSUE_CSV_COLUMNS. cell_text (\<lambda>_. []) (field c (csv_line i p)) \<noteq> []"
  by (rule bexI [of _ "''externalId''"]) (simp_all add: csv_line_def ISSUE_CSV_COLUMNS_def cell_text_def guarded_def field_def js_text_def)

lemma loop_parse: "parseCsv 10 loop_file = (iq_rows loop_plan, [])"
  using parse_encoded [of "[csv_line ''a'' ''b'', csv_line ''b'' ''a'']" 10 "\<lambda>_. []"] csv_line_shown [of "''a''"] csv_line_shown [of "''b''"]
  by (simp add: loop_plan_def loop_file_def)

lemma strip_bom_same: "s \<noteq> [] \<Longrightarrow> hd s \<noteq> CHR 0xEF \<Longrightarrow> strip_bom s = s"
  by (cases s) (simp_all add: strip_bom_def)

lemma loop_no_bom: "strip_bom loop_file = loop_file"
  by (rule strip_bom_same) (simp_all add: loop_file_def encodeCsv_def ISSUE_CSV_COLUMNS_def)

lemma loop_run: "csv_POST (\<lambda>_. []) (length loop_file) 10 sample_id 9 (Some amy) ''WEB'' loop_body csv_sample = Inr (Accepted_File loop_plan, loop_db)"
proof -
  have f: "field ''csv'' loop_body = JStr loop_file" "field ''dryRun'' loop_body = JUndef" "trim (string_or_empty (field ''idempotencyKey'' loop_body)) = ''k1''"
    by (simp_all add: loop_body_def field_def string_or_empty_def trim_def trim_start_def is_space_def)
  have plan: "\<lparr>iq_context = amy, iq_project = sample_project, iq_key = ''k1'', iq_digest = [], iq_sources = sources_of csv_sample ''p'', iq_rows = iq_rows loop_plan\<rparr> = loop_plan"
    by (simp add: loop_plan_def)
  have b: "vt_batches csv_sample = []" "p_id sample_project = ''p''" by (simp_all add: csv_sample_def sample_project_def)
  have src: "iq_sources loop_plan = sources_of csv_sample ''p''" by (simp add: loop_plan_def)
  have "import_check (\<lambda>_. []) (length loop_file) 10 (Some amy) ''WEB'' loop_body csv_sample = Inr (Accepted_File loop_plan)"
    using loop_accepted unfolding import_check_def loop_access f Let_def
    by (simp add: string_or_empty_def loop_parse loop_no_bom b plan src)
  moreover have "import_commit sample_id 9 loop_plan csv_sample = Inr loop_db" unfolding loop_db_def by (rule outcome [OF loop_runs])
  ultimately show ?thesis by (simp add: csv_POST_def)
qed

lemma csv_sample_numbers: "numbers_ok (vt_core csv_sample)"
  by (simp add: numbers_ok_def csv_sample_def csv_core_def board_core_def sample_defs)

theorem csv_round_trip_witness:
  "parseCsv 1 (encodeCsv (\<lambda>_. []) [csv_line ''=x'' ''b'']) = ([map (\<lambda>c. (c, cell_text (\<lambda>_. []) (field c (csv_line ''=x'' ''b'')))) ISSUE_CSV_COLUMNS], [])"
  using csv_round_trip [of "[csv_line ''=x'' ''b'']" 1 "\<lambda>_. []"] csv_line_shown [of "''=x''"] by simp

theorem import_creates_one_issue_per_row_witness:
  "map i_summary (drop 1 (db_issues (vt_core loop_db))) = [''a'', ''b'']"
proof -
  obtain q :: project and created where new: "db_issues (vt_core loop_db) = db_issues (vt_core csv_sample) @ created" and len: "length created = length (iq_rows loop_plan)"
    and row: "\<forall>k<length (iq_rows loop_plan). imported_as csv_sample (iq_context loop_plan) (p_id q) (iq_rows loop_plan ! k) (created ! k)"
    using import_creates_one_issue_per_row [OF loop_run csv_sample_numbers] by blast
  have n: "length (iq_rows loop_plan) = 2" "cell ''summary'' (iq_rows loop_plan ! 0) = ''a''" "cell ''summary'' (iq_rows loop_plan ! 1) = ''b''"
    "length (db_issues (vt_core csv_sample)) = 1" by code_simp+
  have "i_summary (created ! 0) = ''a''" "i_summary (created ! 1) = ''b''" using row n(1-3) by (auto simp: imported_as_def)
  moreover obtain a b where "created = [a, b]" using len n(1) by (auto simp: length_Suc_conv numeral_2_eq_2)
  ultimately show ?thesis by (simp add: new n(4))
qed

theorem import_retry_is_harmless_witness:
  "csv_POST (\<lambda>_. []) (length loop_file) 10 sample_id 12 (Some amy) ''WEB'' [(''idempotencyKey'', JStr '' k1'')] loop_db = Inr (Replayed ''batch'' 2, loop_db)"
proof -
  have "trim (string_or_empty (field ''idempotencyKey'' [(''idempotencyKey'', JStr '' k1'')])) = iq_key loop_plan"
    by (simp add: loop_plan_def field_def string_or_empty_def trim_def trim_start_def is_space_def)
  from import_retry_is_harmless [OF loop_run this, of sample_id 12] show ?thesis by (simp add: field_def string_or_empty_def loop_plan_def)
qed

text \<open>
  C35: The import only asks that a parent be another row of the file, so two rows that name each other are accepted and make
  the parent graph cyclic, which no change of one issue can do.
\<close>

theorem import_creates_cycle:
  "acyclic (edges ''w'' (vt_core csv_sample))
   \<and> csv_POST (\<lambda>_. []) (length loop_file) 10 sample_id 9 (Some amy) ''WEB'' loop_body csv_sample = Inr (Accepted_File loop_plan, loop_db)
   \<and> \<not> acyclic (edges ''w'' (vt_core loop_db))"
proof (intro conjI)
  have "edges ''w'' (vt_core csv_sample) = {}" by (auto simp: edges_def csv_sample_def csv_core_def board_core_def sample_defs)
  then show "acyclic (edges ''w'' (vt_core csv_sample))" by (simp add: acyclic_def)
  obtain z a b where "db_issues (vt_core loop_db) = [z, a, b]" and ab: "i_id a = ''new-0''" "i_workspaceId a = ''w''" "i_parentId a = Some ''new-1''"
    "i_id b = ''new-1''" "i_workspaceId b = ''w''" "i_parentId b = Some ''new-0''"
    using loop_parents by (auto simp: map_eq_Cons_conv)
  then have "a \<in> set (db_issues (vt_core loop_db))" "b \<in> set (db_issues (vt_core loop_db))" by simp_all
  then have "(''new-0'', ''new-1'') \<in> edges ''w'' (vt_core loop_db)" "(''new-1'', ''new-0'') \<in> edges ''w'' (vt_core loop_db)"
    using in_edges [of a] in_edges [of b] ab by simp_all
  then have "(''new-0'', ''new-0'') \<in> (edges ''w'' (vt_core loop_db))\<^sup>+" by (meson trancl.r_into_trancl trancl_into_trancl)
  then show "\<not> acyclic (edges ''w'' (vt_core loop_db))" unfolding acyclic_def by blast
qed (rule loop_run)

end
