(* ===== verification/DependencyGraph.thy ===== *)
theory DependencyGraph
  imports JsValue
begin

text \<open>
  The dependency graph of a plan (\<open>src/lib/dependency-graph.ts\<close>): cycle detection by depth
  first search, schedule warnings, the longest path over lags and durations, and the breadth
  first test that guards new links. Warning texts are left out; their codes and issues are kept.
\<close>

record dep_node =
  dn_id :: string
  dn_key :: string
  dn_projectId :: string
  dn_dueDate :: "time option"
  dn_estimate :: "int option"
  dn_completed :: bool

record dep_edge =
  de_id :: string
  de_from :: string
  de_to :: string
  de_type :: string
  de_lag :: int
  de_version :: int

datatype warning_code = Cycle | Missing_Date | Impossible_Order | Blocked_Milestone | Cross_Project_Conflict

record dep_warning =
  dw_code :: warning_code
  dw_issueIds :: "string list"

text \<open>\<open>new Map(nodes.map(...))\<close>: a later entry of the same id replaces an earlier one.\<close>

definition by_id :: "dep_node list \<Rightarrow> string \<rightharpoonup> dep_node" where
  "by_id nodes = map_of (rev (map (\<lambda>n. (dn_id n, n)) nodes))"

definition dependencies :: "dep_node list \<Rightarrow> dep_edge list \<Rightarrow> dep_edge list" where
  "dependencies nodes es =
     filter (\<lambda>e. de_type e = ''blocks'' \<and> de_from e \<in> dn_id ` set nodes \<and> de_to e \<in> dn_id ` set nodes) es"

text \<open>The two adjacency maps: the edges of a node in list order.\<close>

definition outgoing :: "dep_edge list \<Rightarrow> string \<Rightarrow> dep_edge list" where
  "outgoing deps x = filter (\<lambda>e. de_from e = x) deps"

definition incoming :: "dep_edge list \<Rightarrow> string \<Rightarrow> dep_edge list" where
  "incoming deps x = filter (\<lambda>e. de_to e = x) deps"

section \<open>Depth-first search\<close>

text \<open>
  \<open>visit\<close> threads \<open>visited\<close>, \<open>cyclic\<close> and \<open>order\<close>. The set \<open>visiting\<close> gains the node on
  entry and loses it on exit, so it is the stack of open calls and is passed down.
\<close>

record dfs =
  d_visited :: "string list"
  d_cyclic :: "string list"
  d_order :: "string list"

function (sequential) visit :: "dep_edge list \<Rightarrow> string \<Rightarrow> string list \<Rightarrow> string list \<Rightarrow> dfs \<Rightarrow> dfs"
  and visit_edges :: "dep_edge list \<Rightarrow> dep_edge list \<Rightarrow> string list \<Rightarrow> string list \<Rightarrow> dfs \<Rightarrow> dfs" where
  "visit deps x trail visiting s =
     (if x \<in> set visiting then s\<lparr>d_cyclic := uniq (d_cyclic s @ dropWhile (\<lambda>y. y \<noteq> x) trail)\<rparr>
      else if x \<in> set (d_visited s) then s
      else
       (let s' = visit_edges deps (outgoing deps x) trail (x # visiting) s
        in s'\<lparr>d_visited := d_visited s' @ [x], d_order := d_order s' @ [x]\<rparr>))"
| "visit_edges deps [] trail visiting s = s"
| "visit_edges deps (e # es) trail visiting s =
     visit_edges deps es trail visiting (visit deps (de_to e) (trail @ [de_to e]) visiting s)"
  by pat_completeness auto

termination
proof (relation "measures
    [\<lambda>a. case a of Inl (deps, x, trail, visiting, s) \<Rightarrow> card (de_from ` set deps - set visiting)
             | Inr (deps, es, trail, visiting, s) \<Rightarrow> card (de_from ` set deps - set visiting),
     \<lambda>a. case a of Inl _ \<Rightarrow> 1 | Inr (deps, es, trail, visiting, s) \<Rightarrow> 2 * length es]")
  fix deps :: "dep_edge list" and x :: string and trail visiting :: "string list" and s :: dfs
  assume fresh: "x \<notin> set visiting"
  show "(Inr (deps, outgoing deps x, trail, x # visiting, s), Inl (deps, x, trail, visiting, s)) \<in> measures
    [\<lambda>a. case a of Inl (deps, x, trail, visiting, s) \<Rightarrow> card (de_from ` set deps - set visiting)
             | Inr (deps, es, trail, visiting, s) \<Rightarrow> card (de_from ` set deps - set visiting),
     \<lambda>a. case a of Inl _ \<Rightarrow> 1 | Inr (deps, es, trail, visiting, s) \<Rightarrow> 2 * length es]"
  proof (cases "x \<in> de_from ` set deps")
    case True
    have "card (de_from ` set deps - set (x # visiting)) < card (de_from ` set deps - set visiting)"
      by (rule psubset_card_mono) (use True fresh in auto)
    then show ?thesis by simp
  next
    case False
    then have "outgoing deps x = []" by (auto simp: outgoing_def filter_empty_conv)
    moreover have "de_from ` set deps - set (x # visiting) = de_from ` set deps - set visiting"
      using False by auto
    ultimately show ?thesis by simp
  qed
qed auto

definition dfs_init :: dfs where
  "dfs_init = \<lparr>d_visited = [], d_cyclic = [], d_order = []\<rparr>"

definition search :: "dep_node list \<Rightarrow> dep_edge list \<Rightarrow> dfs" where
  "search nodes deps = fold (\<lambda>n. visit deps (dn_id n) [dn_id n] []) nodes dfs_init"

section \<open>Warnings\<close>

definition edge_warnings :: "dep_node list \<Rightarrow> dep_edge \<Rightarrow> dep_warning list" where
  "edge_warnings nodes e =
     (case (by_id nodes (de_from e), by_id nodes (de_to e)) of
        (Some f, Some t) \<Rightarrow>
          (case (dn_dueDate f, dn_dueDate t) of
             (Some df, Some dt) \<Rightarrow>
               if dt < df + de_lag e * DAY_MS
               then [\<lparr>dw_code = (if dn_projectId f = dn_projectId t then Impossible_Order else Cross_Project_Conflict),
                      dw_issueIds = [dn_id f, dn_id t]\<rparr>]
               else []
           | _ \<Rightarrow> [\<lparr>dw_code = Missing_Date, dw_issueIds = [dn_id f, dn_id t]\<rparr>])
          @ (if \<not> dn_completed f \<and> dn_completed t
             then [\<lparr>dw_code = Blocked_Milestone, dw_issueIds = [dn_id f, dn_id t]\<rparr>] else [])
      | _ \<Rightarrow> [])"

definition warnings_of :: "dep_node list \<Rightarrow> dep_edge list \<Rightarrow> string list \<Rightarrow> dep_warning list" where
  "warnings_of nodes deps cyclic =
     (if cyclic = [] then [] else [\<lparr>dw_code = Cycle, dw_issueIds = sort cyclic\<rparr>])
     @ concat (map (edge_warnings nodes) deps)"

section \<open>Longest path\<close>

definition duration :: "dep_node list \<Rightarrow> string \<Rightarrow> int" where
  "duration nodes x = (case by_id nodes x of None \<Rightarrow> 1
     | Some n \<Rightarrow> max 1 (case dn_estimate n of None \<Rightarrow> 1 | Some e \<Rightarrow> e))"

record schedule =
  s_distance :: "(string \<times> int) list"   \<comment> \<open>in insertion order\<close>
  s_predecessor :: "string \<rightharpoonup> string"

definition dist_or_duration :: "dep_node list \<Rightarrow> schedule \<Rightarrow> string \<Rightarrow> int" where
  "dist_or_duration nodes sc x =
     (case map_of (s_distance sc) x of None \<Rightarrow> duration nodes x | Some d \<Rightarrow> d)"

definition relax_edge :: "dep_node list \<Rightarrow> schedule \<Rightarrow> string \<Rightarrow> dep_edge \<Rightarrow> int \<times> string option \<Rightarrow> int \<times> string option" where
  "relax_edge nodes sc x e best =
     (let candidate = dist_or_duration nodes sc (de_from e) + de_lag e + duration nodes x
      in if candidate > fst best then (candidate, Some (de_from e)) else best)"

definition relax :: "dep_node list \<Rightarrow> dep_edge list \<Rightarrow> string \<Rightarrow> schedule \<Rightarrow> schedule" where
  "relax nodes deps x sc =
     (let (best, pred) = fold (relax_edge nodes sc x) (incoming deps x) (duration nodes x, None)
      in \<lparr>s_distance = s_distance sc @ [(x, best)],
          s_predecessor = (case pred of None \<Rightarrow> s_predecessor sc | Some p \<Rightarrow> (s_predecessor sc)(x \<mapsto> p))\<rparr>)"

definition longest_paths :: "dep_node list \<Rightarrow> dep_edge list \<Rightarrow> string list \<Rightarrow> schedule" where
  "longest_paths nodes deps order =
     fold (relax nodes deps) (rev order) \<lparr>s_distance = [], s_predecessor = Map.empty\<rparr>"

text \<open>
  \<open>[...distance.entries()].sort(...)[0]\<close>: the largest distance, ties in the order of
  \<open>localeCompare\<close>, which depends on the host and is the parameter \<open>before\<close>.
\<close>

fun latest :: "(string \<Rightarrow> string \<Rightarrow> bool) \<Rightarrow> (string \<times> int) list \<Rightarrow> (string \<times> int) option" where
  "latest before [] = None"
| "latest before (p # ps) =
     (case latest before ps of
        None \<Rightarrow> Some p
      | Some q \<Rightarrow> if snd q > snd p \<or> snd q = snd p \<and> before (fst q) (fst p) then Some q else Some p)"

function trace_path :: "(string \<times> string) list \<Rightarrow> string option \<Rightarrow> string list \<Rightarrow> string list" where
  "trace_path preds None path = path"
| "trace_path preds (Some x) path =
     (if x \<in> set path then path else trace_path preds (map_of preds x) (x # path))"
  by pat_completeness auto

termination
proof (relation "measure (\<lambda>(preds, cur, path).
    case cur of None \<Rightarrow> 0 | Some _ \<Rightarrow> Suc (card (fst ` set preds - set path)))")
  fix preds :: "(string \<times> string) list" and x :: string and path :: "string list"
  assume fresh: "x \<notin> set path"
  have "card (fst ` set preds - set (x # path)) < card (fst ` set preds - set path)" if "x \<in> fst ` set preds"
    by (rule psubset_card_mono) (use that fresh in auto)
  moreover have "map_of preds x = None" if "x \<notin> fst ` set preds"
    using that by (simp add: map_of_eq_None_iff)
  ultimately show "((preds, map_of preds x, x # path), preds, Some x, path)
      \<in> measure (\<lambda>(preds, cur, path).
        case cur of None \<Rightarrow> 0 | Some _ \<Rightarrow> Suc (card (fst ` set preds - set path)))"
    by (cases "x \<in> fst ` set preds") (auto split: option.splits)
qed simp

definition predecessor_list :: "schedule \<Rightarrow> (string \<times> string) list" where
  "predecessor_list sc =
     List.map_filter (\<lambda>(x, _). map_option (Pair x) (s_predecessor sc x)) (s_distance sc)"

definition critical_path :: "(string \<Rightarrow> string \<Rightarrow> bool) \<Rightarrow> schedule \<Rightarrow> string list" where
  "critical_path before sc =
     trace_path (predecessor_list sc) (map_option fst (latest before (s_distance sc))) []"

definition duration_days :: "schedule \<Rightarrow> string list \<Rightarrow> int" where
  "duration_days sc path =
     (if path = [] then 0
      else Max ((\<lambda>x. case map_of (s_distance sc) x of None \<Rightarrow> 0 | Some d \<Rightarrow> d) ` set path))"

record analysis =
  an_edges :: "dep_edge list"
  an_warnings :: "dep_warning list"
  an_criticalPath :: "string list"
  an_durationDays :: int
  an_critical :: "(string \<times> bool) list"   \<comment> \<open>the flag \<open>critical\<close> of each node\<close>
  an_atRisk :: "(string \<times> bool) list"

definition analyzeDependencies :: "(string \<Rightarrow> string \<Rightarrow> bool) \<Rightarrow> dep_node list \<Rightarrow> dep_edge list \<Rightarrow> analysis" where
  "analyzeDependencies before nodes es =
     (let deps = dependencies nodes es;
          s = search nodes deps;
          ws = warnings_of nodes deps (d_cyclic s);
          sc = longest_paths nodes deps (d_order s);
          path = critical_path before sc;
          risky = concat (map dw_issueIds ws)
      in \<lparr>an_edges = deps, an_warnings = ws, an_criticalPath = path, an_durationDays = duration_days sc path,
          an_critical = map (\<lambda>n. (dn_id n, dn_id n \<in> set path)) nodes,
          an_atRisk = map (\<lambda>n. (dn_id n, dn_id n \<in> set risky)) nodes\<rparr>)"

section \<open>Guarding a new link\<close>

datatype link_error = Bad_Link

text \<open>\<open>Number(input.lagDays)\<close> of a non-number is the parameter \<open>to_number\<close>.\<close>

definition validateDependencyInput :: "(js \<Rightarrow> jnum) \<Rightarrow> js \<Rightarrow> (link_error, string \<times> int) result" where
  "validateDependencyInput to_number v =
     (let fs = (case as_object v of None \<Rightarrow> [] | Some fs \<Rightarrow> fs);
          type = find (\<lambda>t. field ''type'' fs = JStr t) [''blocks'', ''relates'', ''duplicates''];
          lag = (if field ''lagDays'' fs = JUndef then JInt 0 else JNum (to_number (field ''lagDays'' fs)))
      in case (type, as_integer lag) of
           (Some t, Some l) \<Rightarrow> if l < -365 \<or> l > 365 then Inl Bad_Link else Inr (t, l)
         | _ \<Rightarrow> Inl Bad_Link)"

function bfs :: "(string \<times> string) list \<Rightarrow> string \<Rightarrow> string list \<Rightarrow> string list \<Rightarrow> bool" where
  "bfs es target seen [] = False"
| "bfs es target seen (x # queue) =
     (if x = target then True
      else if x \<in> set seen then bfs es target seen queue
      else bfs es target (x # seen) (queue @ map snd (filter (\<lambda>e. fst e = x) es)))"
  by pat_completeness auto

termination
proof (relation "measures [\<lambda>(es, t, seen, q). card (fst ` set es - set seen), \<lambda>(es, t, seen, q). length q]")
  fix es :: "(string \<times> string) list" and t x :: string and seen queue :: "string list"
  assume fresh: "x \<notin> set seen"
  show "((es, t, x # seen, queue @ map snd (filter (\<lambda>e. fst e = x) es)), es, t, seen, x # queue)
      \<in> measures [\<lambda>(es, t, seen, q). card (fst ` set es - set seen), \<lambda>(es, t, seen, q). length q]"
  proof (cases "x \<in> fst ` set es")
    case True
    have "card (fst ` set es - set (x # seen)) < card (fst ` set es - set seen)"
      by (rule psubset_card_mono) (use True fresh in auto)
    then show ?thesis by simp
  next
    case False
    then have "filter (\<lambda>e. fst e = x) es = []" by (auto simp: filter_empty_conv)
    moreover have "fst ` set es - set (x # seen) = fst ` set es - set seen" using False by auto
    ultimately show ?thesis by simp
  qed
qed auto

definition introducesCycle :: "(string \<times> string) list \<Rightarrow> string \<Rightarrow> string \<Rightarrow> bool" where
  "introducesCycle es from to = (if from = to then True else bfs es from [] [to])"

section \<open>The breadth-first test is reachability\<close>

lemma bfs_sound: "bfs es t seen q \<Longrightarrow> \<exists>x\<in>set q. (x, t) \<in> (set es)\<^sup>*"
proof (induction es t seen q rule: bfs.induct)
  case (2 es t seen x q)
  show ?case
  proof (cases "x = t \<or> x \<in> set seen")
    case True
    with 2 show ?thesis by (cases "x = t") auto
  next
    case False
    with 2 obtain y where "y \<in> set (q @ map snd (filter (\<lambda>e. fst e = x) es))" and "(y, t) \<in> (set es)\<^sup>*"
      by (metis bfs.simps(2))
    then have "y \<in> set q \<or> (x, y) \<in> set es" and "(y, t) \<in> (set es)\<^sup>*" by auto
    then show ?thesis by (auto intro: converse_rtrancl_into_rtrancl)
  qed
qed simp

lemma closed_unreachable:
  assumes "(x, t) \<in> R\<^sup>*" and "x \<in> S" and "\<And>a b. a \<in> S \<Longrightarrow> (a, b) \<in> R \<Longrightarrow> b \<in> S"
  shows "t \<in> S"
  using assms by (induction rule: rtrancl_induct) auto

lemma bfs_complete:
  "\<not> bfs es t seen q \<Longrightarrow> t \<notin> set seen \<Longrightarrow>
   (\<And>a b. a \<in> set seen \<Longrightarrow> (a, b) \<in> set es \<Longrightarrow> b \<in> set seen \<union> set q) \<Longrightarrow>
   x \<in> set seen \<union> set q \<Longrightarrow> (x, t) \<notin> (set es)\<^sup>*"
proof (induction es t seen q rule: bfs.induct)
  case (1 es t seen)
  then show ?case using closed_unreachable [of x t "set es" "set seen"] by auto
next
  case (2 es t seen y q)
  then have ny: "y \<noteq> t" by (auto split: if_splits)
  show ?case
  proof (cases "y \<in> set seen")
    case True
    with 2 ny show ?thesis by (intro "2.IH"(1)) auto
  next
    case False
    have img: "b \<in> set (map snd (filter (\<lambda>e. fst e = a) es))" if "(a, b) \<in> set es" for a b
      using that by force
    show ?thesis
    proof (rule "2.IH"(2) [OF ny False])
      show "\<not> bfs es t (y # seen) (q @ map snd (filter (\<lambda>e. fst e = y) es))" using 2 ny False by simp
      show "t \<notin> set (y # seen)" using 2 ny by auto
      show "b \<in> set (y # seen) \<union> set (q @ map snd (filter (\<lambda>e. fst e = y) es))"
        if "a \<in> set (y # seen)" "(a, b) \<in> set es" for a b
        using that img [of a b] "2.prems"(3) [of a b] by (cases "a = y") auto
      show "x \<in> set (y # seen) \<union> set (q @ map snd (filter (\<lambda>e. fst e = y) es))" using 2 by auto
    qed
  qed
qed

lemma introducesCycle_iff:
  "introducesCycle es a b \<longleftrightarrow> a = b \<or> (b, a) \<in> (set es)\<^sup>*"
  using bfs_sound [of es a "[]" "[b]"] bfs_complete [of es a "[]" "[b]" b]
  by (auto simp: introducesCycle_def simp del: bfs.simps)

text \<open>
  C9: The guard on new "blocks" links is exact: on an acyclic link graph \<open>introducesCycle\<close> refuses
  a link if and only if adding it would close a cycle, so a graph grown through it stays acyclic.
\<close>

theorem introducesCycle_exact:
  assumes "acyclic (set es)"
  shows "introducesCycle es a b \<longleftrightarrow> \<not> acyclic (set ((a, b) # es))"
  using assms by (auto simp: introducesCycle_iff acyclic_insert)

theorem introducesCycle_exact_witness:
  "introducesCycle [(''a'', ''b''), (''b'', ''c'')] ''c'' ''a''
   = (\<not> acyclic (set ((''c'', ''a'') # [(''a'', ''b''), (''b'', ''c'')])))"
proof (rule introducesCycle_exact)
  show "acyclic (set [(''a'', ''b''), (''b'', ''c'')])"
    by (rule acyclicI_order [where f = "\<lambda>x. if x = ''a'' then 2 else if x = ''b'' then 1 else (0 :: nat)"]) auto
qed

section \<open>The depth-first search finds the cycles\<close>

definition dep_rel :: "dep_edge list \<Rightarrow> (string \<times> string) set" where
  "dep_rel deps = (\<lambda>e. (de_from e, de_to e)) ` set deps"

lemma set_outgoing [simp]: "e \<in> set (outgoing deps x) \<longleftrightarrow> e \<in> set deps \<and> de_from e = x"
  by (auto simp: outgoing_def)

lemma set_incoming [simp]: "e \<in> set (incoming deps x) \<longleftrightarrow> e \<in> set deps \<and> de_to e = x"
  by (auto simp: incoming_def)

text \<open>The trail of a call is a walk whose proper prefix is the stack of open calls.\<close>

definition on_cycles :: "dep_edge list \<Rightarrow> dfs \<Rightarrow> bool" where
  "on_cycles deps s \<longleftrightarrow> (\<forall>x\<in>set (d_cyclic s). (x, x) \<in> (dep_rel deps)\<^sup>+)"

lemma walk_trancl:
  "successively (\<lambda>a b. (a, b) \<in> R) (x # ys) \<Longrightarrow> y \<in> set ys \<Longrightarrow> (x, y) \<in> R\<^sup>+"
proof (induction ys arbitrary: x)
  case (Cons z ys)
  then have "(x, z) \<in> R" and "y = z \<or> (z, y) \<in> R\<^sup>+" by (auto simp: successively_Cons)
  then show ?case by (auto intro: trancl_into_trancl2)
qed simp

lemma walk_closed:
  assumes "successively (\<lambda>a b. (a, b) \<in> R) (x # ys)" and "last (x # ys) = x" and "ys \<noteq> []"
    and "y \<in> set (x # ys)"
  shows "(y, y) \<in> R\<^sup>+"
proof -
  have xx: "(x, x) \<in> R\<^sup>+" using walk_trancl [OF assms(1), of x] assms(2,3) by (metis last.simps last_in_set)
  show ?thesis
  proof (cases "y = x")
    case False
    then have yin: "y \<in> set ys" using assms(4) by simp
    then obtain us vs where ys: "ys = us @ y # vs" by (auto simp: in_set_conv_decomp)
    then have "successively (\<lambda>a b. (a, b) \<in> R) (y # vs)"
      using assms(1) by (auto simp: successively_append_iff successively_Cons)
    moreover have "x \<in> set vs" using assms(2) ys False by (auto split: if_splits)
    ultimately have "(y, x) \<in> R\<^sup>+" by (rule walk_trancl)
    with walk_trancl [OF assms(1) yin] show ?thesis by (auto intro: trancl_trans)
  qed (use xx in simp)
qed

lemma dropWhile_neq: "x \<in> set xs \<Longrightarrow> \<exists>ys. dropWhile (\<lambda>y. y \<noteq> x) xs = x # ys"
  by (induction xs) auto

declare visit.simps [simp del]

lemma visit_open [simp]: "x \<in> set visiting \<Longrightarrow>
    visit deps x trail visiting s = s\<lparr>d_cyclic := uniq (d_cyclic s @ dropWhile (\<lambda>y. y \<noteq> x) trail)\<rparr>"
  and visit_closed [simp]: "x \<notin> set visiting \<Longrightarrow> x \<in> set (d_visited s) \<Longrightarrow> visit deps x trail visiting s = s"
  and visit_fresh: "x \<notin> set visiting \<Longrightarrow> x \<notin> set (d_visited s) \<Longrightarrow>
    visit deps x trail visiting s =
      (let s' = visit_edges deps (outgoing deps x) trail (x # visiting) s
       in s'\<lparr>d_visited := d_visited s' @ [x], d_order := d_order s' @ [x]\<rparr>)"
  by (simp_all add: visit.simps)

lemma uniq_Nil [simp]: "uniq xs = [] \<longleftrightarrow> xs = []"
  by (cases xs) simp_all

lemma visit_on_cycles:
  "trail = rev visiting @ [x] \<Longrightarrow> successively (\<lambda>a b. (a, b) \<in> dep_rel deps) trail \<Longrightarrow>
     on_cycles deps s \<Longrightarrow> on_cycles deps (visit deps x trail visiting s)"
  "trail = rev visiting \<Longrightarrow> trail \<noteq> [] \<Longrightarrow> successively (\<lambda>a b. (a, b) \<in> dep_rel deps) trail \<Longrightarrow>
     set es \<subseteq> set (outgoing deps (last trail)) \<Longrightarrow>
     on_cycles deps s \<Longrightarrow> on_cycles deps (visit_edges deps es trail visiting s)"
proof (induction deps x trail visiting s and deps es trail visiting s rule: visit_visit_edges.induct)
  case (1 deps x trail visiting s)
  consider (open_call) "x \<in> set visiting" | (closed) "x \<notin> set visiting" "x \<in> set (d_visited s)"
    | (fresh) "x \<notin> set visiting" "x \<notin> set (d_visited s)" by blast
  then show ?case
  proof cases
    case open_call
    then obtain zs where zs: "dropWhile (\<lambda>y. y \<noteq> x) trail = x # zs @ [x]"
      using dropWhile_neq [of x "rev visiting"] "1.prems"(1) by (auto simp: dropWhile_append)
    have "successively (\<lambda>a b. (a, b) \<in> dep_rel deps) (x # zs @ [x])"
      using "1.prems"(2) by (metis zs successively_append_iff takeWhile_dropWhile_id)
    then have "(y, y) \<in> (dep_rel deps)\<^sup>+" if "y \<in> set (x # zs @ [x])" for y
      by (rule walk_closed) (use that in auto)
    with open_call "1.prems"(3) zs show ?thesis by (auto simp: on_cycles_def)
  next
    case fresh
    with 1 show ?thesis by (auto simp: on_cycles_def Let_def visit_fresh)
  qed (use 1 in simp)
next
  case (3 deps e es trail visiting s)
  have "successively (\<lambda>a b. (a, b) \<in> dep_rel deps) (trail @ [de_to e])"
    using "3.prems"(3,4) by (force simp: successively_append_iff dep_rel_def)
  then have "on_cycles deps (visit deps (de_to e) (trail @ [de_to e]) visiting s)"
    using "3.IH"(1) "3.prems"(1,5) by blast
  then show ?case using "3.IH"(2) "3.prems" by simp
qed simp

text \<open>When nothing is reported, finished nodes list after all their successors.\<close>

lemma visit_keeps_cyclic:
  "d_cyclic (visit deps x trail visiting s) = [] \<Longrightarrow> d_cyclic s = []"
  "d_cyclic (visit_edges deps es trail visiting s) = [] \<Longrightarrow> d_cyclic s = []"
proof (induction deps x trail visiting s and deps es trail visiting s rule: visit_visit_edges.induct)
  case (1 deps x trail visiting s)
  then show ?case
    by (cases "x \<in> set visiting"; cases "x \<in> set (d_visited s)") (auto simp: Let_def visit_fresh)
qed simp_all

definition topological :: "dep_edge list \<Rightarrow> dfs \<Rightarrow> bool" where
  "topological deps s \<longleftrightarrow> d_order s = d_visited s \<and> distinct (d_order s) \<and>
     (\<forall>us x vs. d_order s = us @ x # vs \<longrightarrow> (\<forall>y. (x, y) \<in> dep_rel deps \<longrightarrow> y \<in> set us))"

lemma topologicalD:
  assumes "topological deps s"
  shows "d_visited s = d_order s" and "distinct (d_order s)"
    and "d_order s = us @ x # vs \<Longrightarrow> (x, y) \<in> dep_rel deps \<Longrightarrow> y \<in> set us"
  using assms unfolding topological_def by metis+

lemma dep_rel_nodes: "(x, y) \<in> dep_rel (dependencies nodes es) \<Longrightarrow> x \<in> dn_id ` set nodes \<and> y \<in> dn_id ` set nodes"
  by (auto simp: dep_rel_def dependencies_def)

lemma topological_snoc:
  assumes "topological deps s" and "x \<notin> set (d_visited s)"
    and "\<And>y. (x, y) \<in> dep_rel deps \<Longrightarrow> y \<in> set (d_visited s)"
  shows "topological deps (s\<lparr>d_visited := d_visited s @ [x], d_order := d_order s @ [x]\<rparr>)"
proof -
  have "y \<in> set us" if "d_order s @ [x] = us @ z # vs" and "(z, y) \<in> dep_rel deps" for us z vs y
  proof (cases vs rule: rev_cases)
    case Nil
    with that assms show ?thesis by (auto simp: topological_def)
  next
    case (snoc ws w)
    with that assms(1) show ?thesis unfolding topological_def by auto
  qed
  with assms show ?thesis by (auto simp: topological_def)
qed

lemma dep_rel_outgoing: "(x, y) \<in> dep_rel deps \<longleftrightarrow> (\<exists>e\<in>set (outgoing deps x). de_to e = y)"
  by (auto simp: dep_rel_def)

lemma visit_topological:
  "x \<in> set trail \<Longrightarrow> d_cyclic (visit deps x trail visiting s) = [] \<Longrightarrow> topological deps s \<Longrightarrow>
     set visiting \<inter> set (d_visited s) = {} \<Longrightarrow>
     topological deps (visit deps x trail visiting s)
     \<and> insert x (set (d_visited s)) \<subseteq> set (d_visited (visit deps x trail visiting s))
     \<and> set visiting \<inter> set (d_visited (visit deps x trail visiting s)) = {}"
  "d_cyclic (visit_edges deps es trail visiting s) = [] \<Longrightarrow> topological deps s \<Longrightarrow>
     set visiting \<inter> set (d_visited s) = {} \<Longrightarrow>
     topological deps (visit_edges deps es trail visiting s)
     \<and> de_to ` set es \<union> set (d_visited s) \<subseteq> set (d_visited (visit_edges deps es trail visiting s))
     \<and> set visiting \<inter> set (d_visited (visit_edges deps es trail visiting s)) = {}"
proof (induction deps x trail visiting s and deps es trail visiting s rule: visit_visit_edges.induct)
  case (1 deps x trail visiting s)
  consider (open_call) "x \<in> set visiting" | (closed) "x \<notin> set visiting" "x \<in> set (d_visited s)"
    | (fresh) "x \<notin> set visiting" "x \<notin> set (d_visited s)" by blast
  then show ?case
  proof cases
    case open_call
    with "1.prems" have False using dropWhile_neq [of x trail] by auto
    then show ?thesis ..
  next
    case fresh
    let ?r = "visit_edges deps (outgoing deps x) trail (x # visiting) s"
    have r: "topological deps ?r" "de_to ` set (outgoing deps x) \<union> set (d_visited s) \<subseteq> set (d_visited ?r)"
      "set (x # visiting) \<inter> set (d_visited ?r) = {}"
      using "1.IH" [OF fresh] "1.prems"(2-4) fresh by (simp_all add: Let_def visit_fresh)
    have "topological deps (?r\<lparr>d_visited := d_visited ?r @ [x], d_order := d_order ?r @ [x]\<rparr>)"
      by (rule topological_snoc) (use r in \<open>auto simp: dep_rel_outgoing\<close>)
    moreover have "visit deps x trail visiting s = ?r\<lparr>d_visited := d_visited ?r @ [x], d_order := d_order ?r @ [x]\<rparr>"
      using fresh by (simp add: visit_fresh Let_def)
    ultimately show ?thesis using fresh r by auto
  qed (use 1 in simp)
next
  case (3 deps e es trail visiting s)
  let ?r = "visit deps (de_to e) (trail @ [de_to e]) visiting s"
  have "d_cyclic ?r = []" using "3.prems"(1) visit_keeps_cyclic(2) by simp
  with "3.IH"(1) "3.prems" have r: "topological deps ?r"
    "insert (de_to e) (set (d_visited s)) \<subseteq> set (d_visited ?r)" "set visiting \<inter> set (d_visited ?r) = {}"
    by simp_all
  have "topological deps (visit_edges deps es trail visiting ?r)
     \<and> de_to ` set es \<union> set (d_visited ?r) \<subseteq> set (d_visited (visit_edges deps es trail visiting ?r))
     \<and> set visiting \<inter> set (d_visited (visit_edges deps es trail visiting ?r)) = {}"
    by (rule "3.IH"(2)) (use "3.prems"(1) r in simp_all)
  with r(2) show ?case by auto
qed simp

lemma search_on_cycles: "on_cycles deps (search nodes deps)"
proof -
  have "on_cycles deps (fold (\<lambda>n. visit deps (dn_id n) [dn_id n] []) nodes s)" if "on_cycles deps s" for s
    using that
  proof (induction nodes arbitrary: s)
    case (Cons n nodes)
    have "on_cycles deps (visit deps (dn_id n) [dn_id n] [] s)"
      using visit_on_cycles(1) [of "[dn_id n]" "[]" "dn_id n" deps s] Cons.prems by simp
    with Cons.IH show ?case by simp
  qed simp
  moreover have "on_cycles deps dfs_init" by (simp add: dfs_init_def on_cycles_def)
  ultimately show ?thesis unfolding search_def by blast
qed

lemma search_topological:
  assumes "d_cyclic (search nodes deps) = []"
  shows "topological deps (search nodes deps) \<and> dn_id ` set nodes \<subseteq> set (d_visited (search nodes deps))"
proof -
  let ?f = "fold (\<lambda>n. visit deps (dn_id n) [dn_id n] [])"
  have keep: "d_cyclic (?f ns s) = [] \<Longrightarrow> d_cyclic s = []" for ns s
    by (induction ns arbitrary: s) (auto dest: visit_keeps_cyclic(1))
  have "topological deps (?f ns s) \<and> dn_id ` set ns \<union> set (d_visited s) \<subseteq> set (d_visited (?f ns s))"
    if "d_cyclic (?f ns s) = []" "topological deps s" for ns s
    using that
  proof (induction ns arbitrary: s)
    case (Cons n ns)
    let ?r = "visit deps (dn_id n) [dn_id n] [] s"
    have "d_cyclic ?r = []" using Cons.prems(1) keep [of ns ?r] by simp
    then have "topological deps ?r \<and> insert (dn_id n) (set (d_visited s)) \<subseteq> set (d_visited ?r)"
      using visit_topological(1) [of "dn_id n" "[dn_id n]" deps "[]" s] Cons.prems by simp
    with Cons.IH [of ?r] Cons.prems show ?case by auto
  qed simp
  moreover have "topological deps dfs_init" by (simp add: dfs_init_def topological_def)
  ultimately show ?thesis using assms unfolding search_def by blast
qed

lemma topological_acyclic:
  assumes top: "topological deps s" and all: "\<And>x y. (x, y) \<in> dep_rel deps \<Longrightarrow> x \<in> set (d_order s)"
  shows "acyclic (dep_rel deps)"
proof (rule acyclicI_order [where f = "\<lambda>x. length (takeWhile (\<lambda>y. y \<noteq> x) (d_order s))"])
  fix x y assume e: "(x, y) \<in> dep_rel deps"
  then obtain us vs where o: "d_order s = us @ x # vs" and x: "x \<notin> set us"
    using all split_list_first by metis
  then have "y \<in> set us" using top e by (auto simp: topological_def)
  then have "length (takeWhile (\<lambda>z. z \<noteq> y) (us @ x # vs)) < length us"
    by (simp add: takeWhile_append1) (metis (mono_tags, lifting) length_takeWhile_le order_le_less set_takeWhileD takeWhile_eq_take takeWhile_eq_all_conv take_all)
  moreover have "takeWhile (\<lambda>z. z \<noteq> x) (us @ x # vs) = us"
    using x by (subst takeWhile_append2) auto
  ultimately show "length (takeWhile (\<lambda>z. z \<noteq> y) (d_order s)) < length (takeWhile (\<lambda>z. z \<noteq> x) (d_order s))"
    by (simp add: o)
qed

lemma search_cyclic_iff:
  "d_cyclic (search nodes (dependencies nodes es)) = [] \<longleftrightarrow> acyclic (dep_rel (dependencies nodes es))"
proof
  assume none: "d_cyclic (search nodes (dependencies nodes es)) = []"
  show "acyclic (dep_rel (dependencies nodes es))"
    using search_topological [OF none] topologicalD(1) dep_rel_nodes
    by (intro topological_acyclic [of _ "search nodes (dependencies nodes es)"]) (metis subsetD)+
next
  assume "acyclic (dep_rel (dependencies nodes es))"
  then have "set (d_cyclic (search nodes (dependencies nodes es))) = {}"
    using search_on_cycles [of "dependencies nodes es" nodes] by (auto simp: on_cycles_def acyclic_def)
  then show "d_cyclic (search nodes (dependencies nodes es)) = []" by simp
qed

lemma edge_warnings_not_cycle: "w \<in> set (edge_warnings nodes e) \<Longrightarrow> dw_code w \<noteq> Cycle"
  by (cases "by_id nodes (de_from e)"; cases "by_id nodes (de_to e)")
    (auto simp: edge_warnings_def split: option.splits if_split_asm)

text \<open>
  C5: The plan carries a \<open>CYCLE\<close> warning exactly when the visible "blocks" links contain a cycle,
  and every issue the warning names lies on one: the depth-first search misses no cycle and accuses
  no issue that only hangs off a cycle.
\<close>

theorem cycle_warning_exact:
  defines "R nodes es \<equiv> dep_rel (dependencies nodes es)"
  shows "((\<exists>w\<in>set (an_warnings (analyzeDependencies before nodes es)). dw_code w = Cycle) \<longleftrightarrow> \<not> acyclic (R nodes es))
    \<and> {x. \<exists>w\<in>set (an_warnings (analyzeDependencies before nodes es)). dw_code w = Cycle \<and> x \<in> set (dw_issueIds w)}
        \<subseteq> {x. (x, x) \<in> (R nodes es)\<^sup>+}"
  using search_cyclic_iff [of nodes es] search_on_cycles [of "dependencies nodes es" nodes]
  by (auto simp: R_def analyzeDependencies_def warnings_of_def on_cycles_def Let_def dest: edge_warnings_not_cycle)

section \<open>The schedule\<close>

lemma relax_edges:
  "fst b \<le> fst (fold (relax_edge nodes sc x) es b)
   \<and> (\<forall>e\<in>set es. dist_or_duration nodes sc (de_from e) + de_lag e + duration nodes x
        \<le> fst (fold (relax_edge nodes sc x) es b))
   \<and> (fold (relax_edge nodes sc x) es b = b
      \<or> (\<exists>e\<in>set es. fold (relax_edge nodes sc x) es b
            = (dist_or_duration nodes sc (de_from e) + de_lag e + duration nodes x, Some (de_from e))))"
proof (induction es arbitrary: b)
  case (Cons e es)
  let ?c = "dist_or_duration nodes sc (de_from e) + de_lag e + duration nodes x"
  have b': "relax_edge nodes sc x e b = (if ?c > fst b then (?c, Some (de_from e)) else b)"
    by (simp add: relax_edge_def Let_def)
  show ?case
  proof (cases "?c > fst b")
    case True
    with Cons.IH [of "relax_edge nodes sc x e b"] b' show ?thesis by force
  next
    case False
    with Cons.IH [of "relax_edge nodes sc x e b"] b' show ?thesis by force
  qed
qed simp

definition settled :: "dep_node list \<Rightarrow> dep_edge list \<Rightarrow> (string \<rightharpoonup> int) \<Rightarrow> string \<Rightarrow> bool" where
  "settled nodes deps dm x \<longleftrightarrow> (\<exists>d. dm x = Some d \<and> duration nodes x \<le> d
     \<and> (\<forall>e\<in>set (incoming deps x). \<exists>f. dm (de_from e) = Some f \<and> f + de_lag e + duration nodes x \<le> d)
     \<and> (d = duration nodes x
        \<or> (\<exists>e\<in>set (incoming deps x). \<exists>f. dm (de_from e) = Some f \<and> d = f + de_lag e + duration nodes x)))"

lemma relax_distance:
  "s_distance (relax nodes deps x sc) = s_distance sc
     @ [(x, fst (fold (relax_edge nodes sc x) (incoming deps x) (duration nodes x, None)))]"
  by (simp add: relax_def split: prod.splits)

lemma settled_mono:
  "settled nodes deps d x \<Longrightarrow> (\<And>y v. d y = Some v \<Longrightarrow> d' y = Some v) \<Longrightarrow> settled nodes deps d' x"
  unfolding settled_def by (elim exE conjE) (rule exI, fastforce)

lemma relax_settled:
  assumes "x \<notin> fst ` set (s_distance sc)" and "de_from ` set (incoming deps x) \<subseteq> fst ` set (s_distance sc)"
  shows "settled nodes deps (map_of (s_distance (relax nodes deps x sc))) x"
proof -
  let ?d = "map_of (s_distance sc)" and ?d' = "map_of (s_distance (relax nodes deps x sc))"
  let ?r = "fold (relax_edge nodes sc x) (incoming deps x) (duration nodes x, None)"
  have blocker: "?d' (de_from e) = Some (dist_or_duration nodes sc (de_from e))" if "e \<in> set (incoming deps x)" for e
  proof -
    have "de_from e \<in> fst ` set (s_distance sc)" using that assms(2) by blast
    then obtain f where "?d (de_from e) = Some f" unfolding dom_map_of_conv_image_fst [symmetric] by blast
    moreover from this have "?d' (de_from e) = Some f"
      unfolding relax_distance map_of_append by (rule map_add_find_right)
    ultimately show ?thesis by (simp only: dist_or_duration_def option.case)
  qed
  have x: "?d' x = Some (fst ?r)" using assms(1) by (simp add: relax_distance map_add_Some_iff map_of_eq_None_iff)
  note edges = relax_edges [of "(duration nodes x, None)" nodes sc x "incoming deps x"]
  have "\<exists>f. ?d' (de_from e) = Some f \<and> f + de_lag e + duration nodes x \<le> fst ?r"
    if "e \<in> set (incoming deps x)" for e
    using blocker [OF that] edges that by blast
  moreover have "fst ?r = duration nodes x
      \<or> (\<exists>e\<in>set (incoming deps x). \<exists>f. ?d' (de_from e) = Some f \<and> fst ?r = f + de_lag e + duration nodes x)"
  proof (cases "?r = (duration nodes x, None)")
    case True
    then show ?thesis by (metis fst_conv)
  next
    case False
    then obtain e where "e \<in> set (incoming deps x)"
      and "?r = (dist_or_duration nodes sc (de_from e) + de_lag e + duration nodes x, Some (de_from e))"
      using edges by metis
    then show ?thesis using blocker by (metis fst_conv)
  qed
  moreover have "duration nodes x \<le> fst ?r" using edges by simp
  ultimately show ?thesis unfolding settled_def using x by metis
qed

lemma longest_paths_settled:
  assumes "distinct xs" and "distinct (map fst (s_distance sc))" and "set xs \<inter> fst ` set (s_distance sc) = {}"
    and "\<forall>x\<in>fst ` set (s_distance sc). settled nodes deps (map_of (s_distance sc)) x"
    and "\<And>us x vs y. xs = us @ x # vs \<Longrightarrow> (y, x) \<in> dep_rel deps \<Longrightarrow> y \<in> set us \<union> fst ` set (s_distance sc)"
    and "x \<in> set xs \<union> fst ` set (s_distance sc)"
  shows "settled nodes deps (map_of (s_distance (fold (relax nodes deps) xs sc))) x"
  using assms
proof (induction xs arbitrary: sc)
  case (Cons z xs)
  let ?sc = "relax nodes deps z sc"
  have keys: "fst ` set (s_distance ?sc) = insert z (fst ` set (s_distance sc))"
    by (auto simp: relax_distance)
  have "de_from e \<in> fst ` set (s_distance sc)" if "e \<in> set (incoming deps z)" for e
    using Cons.prems(5) [of "[]" z xs "de_from e"] that by (auto simp: dep_rel_def)
  then have new: "settled nodes deps (map_of (s_distance ?sc)) z"
    using Cons.prems(3) by (intro relax_settled) auto
  have old: "settled nodes deps (map_of (s_distance ?sc)) y" if "y \<in> fst ` set (s_distance sc)" for y
    by (rule settled_mono [OF Cons.prems(4) [rule_format, OF that]]) (simp add: relax_distance map_add_Some_iff)
  have "settled nodes deps (map_of (s_distance (fold (relax nodes deps) xs ?sc))) x"
  proof (rule Cons.IH)
    show "distinct xs" "distinct (map fst (s_distance ?sc))" using Cons.prems(1-3) by (auto simp: relax_distance)
    show "set xs \<inter> fst ` set (s_distance ?sc) = {}" using Cons.prems(1,3) by (auto simp: keys)
    show "\<forall>x\<in>fst ` set (s_distance ?sc). settled nodes deps (map_of (s_distance ?sc)) x"
      using new old by (auto simp: keys)
    show "y \<in> set us \<union> fst ` set (s_distance ?sc)" if "xs = us @ w # vs" "(y, w) \<in> dep_rel deps" for us w vs y
      using Cons.prems(5) [of "z # us" w vs y] that by (auto simp: keys)
    show "x \<in> set xs \<union> fst ` set (s_distance ?sc)" using Cons.prems(6) by (auto simp: keys)
  qed
  then show ?case by simp
qed auto

text \<open>
  On a plan without cycles the schedule is the longest path: every issue's distance is at least
  its own duration and at least each blocker's distance plus the lag plus its duration, and it is
  equal to one of these bounds.
\<close>

theorem schedule_is_longest_path:
  assumes "acyclic (dep_rel (dependencies nodes es))" and "n \<in> set nodes"
  shows "settled nodes (dependencies nodes es)
    (map_of (s_distance (longest_paths nodes (dependencies nodes es)
       (d_order (search nodes (dependencies nodes es)))))) (dn_id n)"
proof -
  let ?deps = "dependencies nodes es" let ?s = "search nodes ?deps"
  have top: "topological ?deps ?s" and all: "dn_id ` set nodes \<subseteq> set (d_order ?s)"
    using search_topological [of nodes ?deps] search_cyclic_iff [of nodes es] assms(1) topologicalD(1)
    by metis+
  show ?thesis unfolding longest_paths_def
  proof (rule longest_paths_settled)
    show "distinct (rev (d_order ?s))" using topologicalD(2) [OF top] by simp
    show "y \<in> set us \<union> fst ` set (s_distance \<lparr>s_distance = [], s_predecessor = Map.empty\<rparr>)"
      if r: "rev (d_order ?s) = us @ x # vs" and e: "(y, x) \<in> dep_rel ?deps" for us x vs y
    proof -
      have o: "d_order ?s = rev vs @ x # rev us" using r by (metis append.assoc append_Cons append_Nil rev.simps(2) rev_append rev_rev_ident)
      have "y \<in> set (d_order ?s)" using all dep_rel_nodes [OF e] by auto
      moreover have "y \<notin> set (rev vs @ [x])"
      proof
        assume "y \<in> set (rev vs @ [x])"
        then obtain ks ls where "rev vs @ [x] = ks @ y # ls" by (meson split_list)
        then have "d_order ?s = ks @ y # ls @ rev us" by (simp add: o)
        then have "x \<in> set ks" using topologicalD(3) [OF top _ e] by blast
        moreover have "distinct (ks @ y # ls @ rev us)" 
          using topologicalD(2) [OF top] \<open>d_order ?s = ks @ y # ls @ rev us\<close> by simp
        moreover have "x = last (y # ls)" by (metis \<open>rev vs @ [x] = ks @ y # ls\<close> last_appendR last_snoc list.distinct(1))
        ultimately show False by (auto split: if_splits)
      qed
      ultimately show ?thesis by (auto simp: o)
    qed
  qed (use all assms(2) in auto)
qed

text \<open>A three-day task whose blocker takes two days with a lag of one.\<close>

definition sample_nodes :: "dep_node list" where
  "sample_nodes =
     [\<lparr>dn_id = ''b'', dn_key = ''P-2'', dn_projectId = ''p'', dn_dueDate = None, dn_estimate = Some 3, dn_completed = False\<rparr>,
      \<lparr>dn_id = ''a'', dn_key = ''P-1'', dn_projectId = ''p'', dn_dueDate = None, dn_estimate = Some 2, dn_completed = False\<rparr>]"

definition sample_link :: dep_edge where
  "sample_link = \<lparr>de_id = ''l'', de_from = ''a'', de_to = ''b'', de_type = ''blocks'', de_lag = 1, de_version = 1\<rparr>"

theorem schedule_is_longest_path_witness:
  "settled sample_nodes (dependencies sample_nodes [sample_link])
    (map_of (s_distance (longest_paths sample_nodes (dependencies sample_nodes [sample_link])
       (d_order (search sample_nodes (dependencies sample_nodes [sample_link])))))) ''b''"
proof -
  have "acyclic (dep_rel (dependencies sample_nodes [sample_link]))"
    by (rule acyclicI_order [where f = "\<lambda>x. if x = ''a'' then 1 else (0 :: nat)"])
      (auto simp: dep_rel_def dependencies_def sample_link_def split: if_split_asm)
  then show ?thesis
    using schedule_is_longest_path [of sample_nodes "[sample_link]" "hd sample_nodes"] by (simp add: sample_nodes_def)
qed

end
