(* ===== verification/SingleUse.thy ===== *)
theory SingleUse
  imports Prelude
begin

text \<open>
  One-time credentials. Portal tokens, SAML requests and domain challenges are used by the same
  two queries: a \<open>findFirst\<close> that reads an unused row, and an \<open>updateMany\<close> on its id that marks it
  only if it is still unused, whose count decides who wins. The locale \<open>one_time\<close> is that contract.
  It holds for any interleaving of the two queries of concurrent requests.
\<close>

definition update_many :: "('r \<Rightarrow> bool) \<Rightarrow> ('r \<Rightarrow> 'r) \<Rightarrow> 'r list \<Rightarrow> nat \<times> 'r list" where
  "update_many P f rows = (count_rows P rows, map (\<lambda>r. if P r then f r else r) rows)"

lemma update_many_simps [simp]:
  "fst (update_many P f rows) = count_rows P rows"
  "snd (update_many P f rows) = map (\<lambda>r. if P r then f r else r) rows"
  by (simp_all add: update_many_def)

text \<open>What runs against the table: requests start (remember the row they read) and finish.\<close>

datatype ('q, 't) attempt = Start nat 'q 't | Finish nat 't

record ('r) desk =
  k_rows :: "'r list"
  k_pending :: "(nat \<times> 'r) list"    \<comment> \<open>request and the row it read\<close>
  k_winners :: "(nat \<times> 'r) list"    \<comment> \<open>requests that were given their row\<close>

definition finish :: "('r \<Rightarrow> string) \<Rightarrow> ('r \<Rightarrow> bool) \<Rightarrow> ('t \<Rightarrow> 'r \<Rightarrow> 'r) \<Rightarrow> 't \<Rightarrow> 'r \<Rightarrow> 'r list \<Rightarrow> bool \<times> 'r list" where
  "finish rid used mark t r rows =
     (let (n, rows') = update_many (\<lambda>x. rid x = rid r \<and> \<not> used x) (mark t) rows in (n = 1, rows'))"

fun attempt_step :: "('r \<Rightarrow> string) \<Rightarrow> ('r \<Rightarrow> bool) \<Rightarrow> ('t \<Rightarrow> 'r \<Rightarrow> 'r) \<Rightarrow> ('q \<Rightarrow> 't \<Rightarrow> 'r list \<Rightarrow> 'r option)
    \<Rightarrow> ('q, 't) attempt \<Rightarrow> 'r desk \<Rightarrow> 'r desk" where
  "attempt_step rid used mark look (Start a q t) s =
     (case look q t (k_rows s) of None \<Rightarrow> s | Some r \<Rightarrow> s\<lparr>k_pending := (a, r) # k_pending s\<rparr>)"
| "attempt_step rid used mark look (Finish a t) s =
     (case map_of (k_pending s) a of
        None \<Rightarrow> s
      | Some r \<Rightarrow>
          (let (won, rows) = finish rid used mark t r (k_rows s)
           in s\<lparr>k_rows := rows, k_pending := filter (\<lambda>p. fst p \<noteq> a) (k_pending s),
                k_winners := (if won then (a, r) # k_winners s else k_winners s)\<rparr>))"

definition fresh_desk :: "'r list \<Rightarrow> 'r desk" where
  "fresh_desk rows = \<lparr>k_rows = rows, k_pending = [], k_winners = []\<rparr>"

locale one_time =
  fixes rid :: "'r \<Rightarrow> string"
    and used :: "'r \<Rightarrow> bool"
    and mark :: "'t \<Rightarrow> 'r \<Rightarrow> 'r"
  assumes mark_used: "used (mark t r)"
    and mark_rid: "rid (mark t r) = rid r"
begin

text \<open>Every winner's row is marked, and no two winners share a row.\<close>

definition fair :: "'r desk \<Rightarrow> bool" where
  "fair s \<longleftrightarrow> distinct (map rid (k_rows s)) \<and> distinct (map (rid \<circ> snd) (k_winners s))
     \<and> (\<forall>(a, w)\<in>set (k_winners s). \<forall>r\<in>set (k_rows s). rid r = rid w \<longrightarrow> used r)"

lemma map_rid_mark [simp]: "map rid (map (\<lambda>x. if P x then mark t x else x) rows) = map rid rows"
  by (simp add: mark_rid)

lemma step_fair: "fair s \<Longrightarrow> fair (attempt_step rid used mark look e s)"
proof (cases e)
  case (Finish a t)
  assume f: "fair s"
  show ?thesis
  proof (cases "map_of (k_pending s) a")
    case (Some r)
    let ?P = "\<lambda>x. rid x = rid r \<and> \<not> used x"
    let ?rows = "map (\<lambda>x. if ?P x then mark t x else x) (k_rows s)"
    have rows: "distinct (map rid ?rows)" using f by (simp only: map_rid_mark fair_def)
    have stay: "used y" if "(b, w) \<in> set (k_winners s)" "y \<in> set ?rows" "rid y = rid w" for b w y
      using that f by (auto simp: fair_def mark_used mark_rid)
    show ?thesis
    proof (cases "count_rows ?P (k_rows s) = 1")
      case True
      then have "count_rows ?P (k_rows s) \<noteq> 0" by simp
      then obtain x where x: "x \<in> set (k_rows s)" "?P x" unfolding count_rows_0 by blast
      have "rid r \<notin> (rid \<circ> snd) ` set (k_winners s)"
        using f x by (auto simp: fair_def)
      moreover have "used y" if "y \<in> set ?rows" "rid y = rid r" for y
        using that by (auto simp: mark_used)
      ultimately show ?thesis
        using f rows stay True Finish Some unfolding fair_def
        by (auto simp: finish_def update_many_def Let_def mark_used simp del: map_map)
    next
      case False
      then show ?thesis using f rows stay Finish Some unfolding fair_def
        by (auto simp: finish_def update_many_def Let_def mark_used simp del: map_map)
    qed
  qed (use f Finish in simp)
qed (auto simp: fair_def split: option.splits)

lemma run_fair: "fair s \<Longrightarrow> fair (fold (attempt_step rid used mark look) es s)"
  by (induction es arbitrary: s) (auto intro: step_fair)

lemma at_most_one_winner:
  assumes "distinct (map rid rows)"
  shows "distinct (map (rid \<circ> snd) (k_winners (fold (attempt_step rid used mark look) es (fresh_desk rows))))"
proof -
  have "fair (fold (attempt_step rid used mark look) es (fresh_desk rows))"
    by (rule run_fair) (use assms in \<open>simp add: fair_def fresh_desk_def\<close>)
  then show ?thesis by (simp add: fair_def)
qed

end

end
