(* ===== verification/PortalAuth.thy ===== *)
theory PortalAuth
  imports Store SingleUse
begin

text \<open>
  The customer portal (\<open>src/lib/portal-auth.ts\<close>): the tables of customers, their organizations and
  requests, sessions of customers, single-use tokens, and which projects and requests a customer sees.
  As for staff sessions, the HMAC, the digest and the codec of the claims are parameters.
\<close>

section \<open>Tables\<close>

record portal_customer =
  pc_id :: string
  pc_workspaceId :: string
  pc_email :: string
  pc_name :: string
  pc_reporterUserId :: string
  pc_emailNotifications :: bool
  pc_verifiedAt :: "time option"
  pc_deactivatedAt :: "time option"

record portal_session =
  ps_id :: string
  ps_customerId :: string
  ps_workspaceId :: string
  ps_expiresAt :: time
  ps_revokedAt :: "time option"

record portal_token =
  pk_id :: string
  pk_customerId :: string
  pk_purpose :: string
  pk_hash :: string
  pk_expiresAt :: time
  pk_usedAt :: "time option"

record service_request =
  sr_id :: string
  sr_workspaceId :: string
  sr_projectId :: string
  sr_issueId :: string
  sr_requestTypeId :: string
  sr_versionId :: string
  sr_values :: js
  sr_schema :: js
  sr_consentAt :: "time option"
  sr_customerId :: "string option"
  sr_organizationId :: "string option"
  sr_sharing :: string
  sr_slaState :: string
  sr_slaCheckedAt :: "time option"
  sr_createdAt :: time

record portal_db =
  po_customers :: "portal_customer list"
  po_sessions :: "portal_session list"
  po_tokens :: "portal_token list"
  po_projectCustomers :: "(string \<times> string \<times> bool) list"   \<comment> \<open>project, customer, enabled\<close>
  po_organizations :: "(string \<times> string) list"               \<comment> \<open>organization, workspace\<close>
  po_members :: "(string \<times> string \<times> bool) list"            \<comment> \<open>organization, customer, active\<close>
  po_projectOrgs :: "(string \<times> string \<times> bool) list"        \<comment> \<open>project, organization, enabled\<close>
  po_requests :: "service_request list"
  po_participants :: "(string \<times> string) list"               \<comment> \<open>request, customer\<close>

definition active_in_org :: "portal_db \<Rightarrow> string \<Rightarrow> string \<Rightarrow> bool" where
  "active_in_org pdb oid cid \<longleftrightarrow> (oid, cid, True) \<in> set (po_members pdb)"

section \<open>Sessions\<close>

record portal_claims =
  pl_sessionId :: string
  pl_customerId :: string
  pl_workspaceId :: string
  pl_expiresAt :: time

definition SESSION_SECONDS :: int where "SESSION_SECONDS = 7 * 24 * 60 * 60"

definition portal_sign :: "(string \<Rightarrow> string) \<Rightarrow> string \<Rightarrow> string" where
  "portal_sign mac v = mac (''portal:'' @ v)"

definition createPortalSession :: "(string \<Rightarrow> string) \<Rightarrow> (portal_claims \<Rightarrow> string) \<Rightarrow> string \<Rightarrow> time \<Rightarrow> string \<Rightarrow> string \<Rightarrow> portal_db \<Rightarrow> string \<times> portal_db" where
  "createPortalSession mac encode sid now cid wid pdb =
     (let expiresAt = now + SESSION_SECONDS * 1000;
          encoded = encode \<lparr>pl_sessionId = sid, pl_customerId = cid, pl_workspaceId = wid, pl_expiresAt = expiresAt\<rparr>
      in (encoded @ ''.'' @ portal_sign mac encoded,
          pdb\<lparr>po_sessions := po_sessions pdb @ [\<lparr>ps_id = sid, ps_customerId = cid, ps_workspaceId = wid, ps_expiresAt = expiresAt, ps_revokedAt = None\<rparr>]\<rparr>))"

definition readPortalClaims :: "(string \<Rightarrow> string) \<Rightarrow> (string \<Rightarrow> portal_claims option) \<Rightarrow> time \<Rightarrow> string option \<Rightarrow> portal_claims option" where
  "readPortalClaims mac decode now cookie =
     (case cookie of
        None \<Rightarrow> None
      | Some v \<Rightarrow>
          (case split_on CHR ''.'' v of
             encoded # signature # _ \<Rightarrow>
               if encoded = [] \<or> signature = [] then None
               else if signature \<noteq> portal_sign mac encoded then None
               else (case decode encoded of
                       None \<Rightarrow> None
                     | Some c \<Rightarrow> if pl_sessionId c = [] \<or> pl_customerId c = [] \<or> pl_workspaceId c = [] \<or> pl_expiresAt c \<le> now then None else Some c)
           | _ \<Rightarrow> None))"

definition clearPortalSession :: "(string \<Rightarrow> string) \<Rightarrow> (string \<Rightarrow> portal_claims option) \<Rightarrow> time \<Rightarrow> string option \<Rightarrow> portal_db \<Rightarrow> portal_db" where
  "clearPortalSession mac decode now cookie pdb =
     (case readPortalClaims mac decode now cookie of
        None \<Rightarrow> pdb
      | Some c \<Rightarrow> pdb\<lparr>po_sessions := map (\<lambda>s. if ps_id s = pl_sessionId c \<and> ps_customerId s = pl_customerId c then s\<lparr>ps_revokedAt := Some now\<rparr> else s)
            (po_sessions pdb)\<rparr>)"

record portal_context =
  px_customer :: portal_customer
  px_workspaceId :: string
  px_organizationProjects :: "(string \<times> string) list"   \<comment> \<open>organization, project\<close>

definition organization_projects :: "workspace_db \<Rightarrow> portal_db \<Rightarrow> portal_customer \<Rightarrow> (string \<times> string) list" where
  "organization_projects db pdb c =
     map (\<lambda>(p, oid, _). (oid, p)) (filter (\<lambda>(p, oid, enabled). enabled
       \<and> list_ex (\<lambda>q. p_id q = p \<and> p_workspaceId q = pc_workspaceId c) (db_projects db)
       \<and> (oid, pc_workspaceId c) \<in> set (po_organizations pdb) \<and> active_in_org pdb oid (pc_id c)) (po_projectOrgs pdb))"

definition getPortalContext :: "(string \<Rightarrow> string) \<Rightarrow> (string \<Rightarrow> portal_claims option) \<Rightarrow> time \<Rightarrow> string option \<Rightarrow> workspace_db \<Rightarrow> portal_db \<Rightarrow> portal_context option" where
  "getPortalContext mac decode now cookie db pdb =
     (case readPortalClaims mac decode now cookie of
        None \<Rightarrow> None
      | Some c \<Rightarrow>
          map_option (\<lambda>x. \<lparr>px_customer = x, px_workspaceId = pc_workspaceId x, px_organizationProjects = organization_projects db pdb x\<rparr>)
            (find (\<lambda>x. pc_id x = pl_customerId c \<and> pc_workspaceId x = pl_workspaceId c \<and> pc_verifiedAt x \<noteq> None \<and> pc_deactivatedAt x = None
               \<and> list_ex (\<lambda>s. ps_customerId s = pc_id x \<and> ps_id s = pl_sessionId c \<and> ps_revokedAt s = None \<and> now < ps_expiresAt s) (po_sessions pdb))
             (po_customers pdb)))"

section \<open>Tokens\<close>

definition issuePortalToken :: "(string \<Rightarrow> string) \<Rightarrow> string \<Rightarrow> string \<Rightarrow> time \<Rightarrow> string \<Rightarrow> string \<Rightarrow> int \<Rightarrow> portal_token list \<Rightarrow> portal_token list" where
  "issuePortalToken digest i token now cid purpose minutes rows =
     rows @ [\<lparr>pk_id = i, pk_customerId = cid, pk_purpose = purpose, pk_hash = digest token, pk_expiresAt = now + minutes * 60000, pk_usedAt = None\<rparr>]"

definition is_token :: "string \<Rightarrow> bool" where
  "is_token s \<longleftrightarrow> 40 \<le> length s \<and> length s \<le> 60 \<and> list_all (\<lambda>c. is_alnum c \<or> c \<in> set ''_-'') s"

definition token_used :: "portal_token \<Rightarrow> bool" where "token_used r \<longleftrightarrow> pk_usedAt r \<noteq> None"
definition use_token :: "time \<Rightarrow> portal_token \<Rightarrow> portal_token" where "use_token now r = r\<lparr>pk_usedAt := Some now\<rparr>"

text \<open>The query by digest and purpose; \<open>live\<close> are the customers who are not deactivated.\<close>

definition find_token :: "(string \<Rightarrow> string) \<Rightarrow> string list \<Rightarrow> string \<times> string \<Rightarrow> time \<Rightarrow> portal_token list \<Rightarrow> portal_token option" where
  "find_token digest live q now rows =
     (if \<not> is_token (fst q) then None
      else find (\<lambda>r. pk_hash r = digest (fst q) \<and> pk_purpose r = snd q \<and> \<not> token_used r \<and> now < pk_expiresAt r \<and> pk_customerId r \<in> set live) rows)"

definition consumePortalToken :: "(string \<Rightarrow> string) \<Rightarrow> time \<Rightarrow> string \<Rightarrow> string \<Rightarrow> portal_db \<Rightarrow> portal_customer option \<times> portal_db" where
  "consumePortalToken digest now token purpose pdb =
     (case find_token digest (map pc_id (filter (\<lambda>c. pc_deactivatedAt c = None) (po_customers pdb))) (token, purpose) now (po_tokens pdb) of
        None \<Rightarrow> (None, pdb)
      | Some r \<Rightarrow>
          (let (won, rows) = finish pk_id token_used use_token now r (po_tokens pdb)
           in (if won then find (\<lambda>c. pc_id c = pk_customerId r) (po_customers pdb) else None, pdb\<lparr>po_tokens := rows\<rparr>)))"

interpretation portal_tokens: one_time pk_id token_used use_token
  by unfold_locales (simp_all add: token_used_def use_token_def)

section \<open>What a customer sees\<close>

definition portalProjectWhere :: "portal_db \<Rightarrow> portal_context \<Rightarrow> project \<Rightarrow> bool" where
  "portalProjectWhere pdb cx p \<longleftrightarrow>
     p_workspaceId p = px_workspaceId cx \<and> p_template p = Service \<and> p_archivedAt p = None
   \<and> ((p_id p, pc_id (px_customer cx), True) \<in> set (po_projectCustomers pdb)
      \<or> list_ex (\<lambda>(q, oid, enabled). q = p_id p \<and> enabled \<and> active_in_org pdb oid (pc_id (px_customer cx))) (po_projectOrgs pdb))"

definition portalRequestWhere :: "workspace_db \<Rightarrow> portal_db \<Rightarrow> portal_context \<Rightarrow> service_request \<Rightarrow> bool" where
  "portalRequestWhere db pdb cx r \<longleftrightarrow>
     sr_workspaceId r = px_workspaceId cx
   \<and> list_ex (\<lambda>p. p_id p = sr_projectId r \<and> portalProjectWhere pdb cx p) (db_projects db)
   \<and> list_ex (\<lambda>i. i_id i = sr_issueId r \<and> i_securityLevelId i = None \<and> i_archivedAt i = None) (db_issues db)
   \<and> (sr_customerId r = Some (pc_id (px_customer cx))
      \<or> sr_sharing r \<in> {''PARTICIPANTS'', ''ORGANIZATION''} \<and> (sr_id r, pc_id (px_customer cx)) \<in> set (po_participants pdb)
      \<or> list_ex (\<lambda>(oid, p). sr_sharing r = ''ORGANIZATION'' \<and> sr_projectId r = p \<and> sr_organizationId r = Some oid
           \<and> active_in_org pdb oid (pc_id (px_customer cx)) \<and> (p, oid, True) \<in> set (po_projectOrgs pdb)) (px_organizationProjects cx))"

section \<open>Properties\<close>

text \<open>
  C17: A customer is authenticated only by a cookie signed for the portal, with claims that have not
  expired, of a verified and active customer with a live session; and if the HMAC has no collisions, no
  cookie is accepted both here and with the signature of a staff session over the same payload.
\<close>

theorem portal_authentication_is_sound:
  assumes "getPortalContext mac decode now cookie db pdb = Some cx"
  shows "\<exists>encoded rest c s. cookie = Some (encoded @ ''.'' @ portal_sign mac encoded @ rest) \<and> decode encoded = Some c \<and> now < pl_expiresAt c
     \<and> px_customer cx \<in> set (po_customers pdb) \<and> pc_id (px_customer cx) = pl_customerId c \<and> px_workspaceId cx = pl_workspaceId c
     \<and> pc_verifiedAt (px_customer cx) \<noteq> None \<and> pc_deactivatedAt (px_customer cx) = None
     \<and> s \<in> set (po_sessions pdb) \<and> ps_id s = pl_sessionId c \<and> ps_customerId s = pl_customerId c \<and> ps_revokedAt s = None \<and> now < ps_expiresAt s
     \<and> (inj mac \<longrightarrow> portal_sign mac encoded \<noteq> mac encoded)"
proof -
  obtain c where c: "readPortalClaims mac decode now cookie = Some c"
    and x: "find (\<lambda>x. pc_id x = pl_customerId c \<and> pc_workspaceId x = pl_workspaceId c \<and> pc_verifiedAt x \<noteq> None \<and> pc_deactivatedAt x = None
       \<and> list_ex (\<lambda>s. ps_customerId s = pc_id x \<and> ps_id s = pl_sessionId c \<and> ps_revokedAt s = None \<and> now < ps_expiresAt s) (po_sessions pdb))
     (po_customers pdb) = Some (px_customer cx)" and ws: "px_workspaceId cx = pc_workspaceId (px_customer cx)"
    using assms by (auto simp: getPortalContext_def split: option.splits)
  obtain v encoded signature ps where v: "cookie = Some v" "split_on CHR ''.'' v = encoded # signature # ps"
    and sig: "signature = portal_sign mac encoded" and dec: "decode encoded = Some c" and exp: "now < pl_expiresAt c"
    using c by (auto simp: readPortalClaims_def split: option.splits list.splits if_splits)
  obtain rest where "v = encoded @ CHR ''.'' # signature @ rest" using split_on_two [OF v(2)] by blast
  then have cookie: "cookie = Some (encoded @ ''.'' @ portal_sign mac encoded @ rest)" using v(1) sig by simp
  obtain s where s: "s \<in> set (po_sessions pdb)" "ps_customerId s = pc_id (px_customer cx)" "ps_id s = pl_sessionId c"
    "ps_revokedAt s = None" "now < ps_expiresAt s"
    using find_SomeD [OF x] by (auto simp: list_ex_iff)
  have "portal_sign mac encoded \<noteq> mac encoded" if "inj mac"
    using injD [OF that, of "''portal:'' @ encoded" encoded] by (auto simp: portal_sign_def)
  with cookie dec exp s ws find_SomeD [OF x] show ?thesis
    by (intro exI [of _ encoded] exI [of _ rest] exI [of _ c] exI [of _ s]) simp
qed

text \<open>
  A portal token is used at most once, however many requests present it and however their reads and
  writes interleave.
\<close>

theorem portal_token_single_use:
  assumes "distinct (map pk_id rows)"
  shows "distinct (map (pk_id \<circ> snd) (k_winners (fold (attempt_step pk_id token_used use_token (find_token digest live)) attempts (fresh_desk rows))))"
  using assms by (rule portal_tokens.at_most_one_winner)

definition project_access :: "portal_db \<Rightarrow> string \<Rightarrow> string \<Rightarrow> bool" where
  "project_access pdb cid pid \<longleftrightarrow> (pid, cid, True) \<in> set (po_projectCustomers pdb)
     \<or> (\<exists>oid. (oid, cid, True) \<in> set (po_members pdb) \<and> (pid, oid, True) \<in> set (po_projectOrgs pdb))"

text \<open>
  Access of a customer to a request depends on the current state only. A request is visible only in
  the customer's workspace, while the customer has access to its project, its issue has no security
  level and is not archived, and the customer reported it, was made a participant of a shared request,
  or is an active member of the organization it is shared with; so withdrawing the access to a project
  hides every request of it, the customer's own ones too.
\<close>

theorem portal_visibility_is_current:
  assumes "portalRequestWhere db pdb cx r"
  shows "sr_workspaceId r = px_workspaceId cx \<and> project_access pdb (pc_id (px_customer cx)) (sr_projectId r)
     \<and> (\<exists>i\<in>set (db_issues db). i_id i = sr_issueId r \<and> i_securityLevelId i = None \<and> i_archivedAt i = None)
     \<and> (sr_customerId r = Some (pc_id (px_customer cx))
        \<or> sr_sharing r \<noteq> ''PRIVATE'' \<and> (sr_id r, pc_id (px_customer cx)) \<in> set (po_participants pdb)
        \<or> (\<exists>oid. sr_sharing r = ''ORGANIZATION'' \<and> sr_organizationId r = Some oid \<and> (oid, pc_id (px_customer cx), True) \<in> set (po_members pdb)
             \<and> (sr_projectId r, oid, True) \<in> set (po_projectOrgs pdb)))"
proof -
  have "project_access pdb (pc_id (px_customer cx)) (sr_projectId r)"
    using assms by (auto simp: portalRequestWhere_def portalProjectWhere_def project_access_def active_in_org_def list_ex_iff)
  with assms show ?thesis
    by (auto simp: portalRequestWhere_def active_in_org_def list_ex_iff)
qed

definition sample_customer :: portal_customer where
  "sample_customer = \<lparr>pc_id = ''c'', pc_workspaceId = ''w'', pc_email = ''c@x.co'', pc_name = ''C'', pc_reporterUserId = ''u'',
     pc_emailNotifications = False, pc_verifiedAt = Some 1, pc_deactivatedAt = None\<rparr>"

definition sample_request :: service_request where
  "sample_request = \<lparr>sr_id = ''r'', sr_workspaceId = ''w'', sr_projectId = ''p'', sr_issueId = ''i'', sr_requestTypeId = ''t'',
     sr_versionId = ''v'', sr_values = JObj [], sr_schema = JObj [], sr_consentAt = None, sr_customerId = Some ''c'',
     sr_organizationId = None, sr_sharing = ''PRIVATE'', sr_slaState = ''NONE'', sr_slaCheckedAt = None, sr_createdAt = 0\<rparr>"

definition sample_portal :: portal_db where
  "sample_portal = \<lparr>po_customers = [sample_customer],
     po_sessions = [\<lparr>ps_id = ''s'', ps_customerId = ''c'', ps_workspaceId = ''w'', ps_expiresAt = 9, ps_revokedAt = None\<rparr>],
     po_tokens = [], po_projectCustomers = [(''p'', ''c'', True)], po_organizations = [], po_members = [], po_projectOrgs = [],
     po_requests = [sample_request], po_participants = []\<rparr>"

definition sample_portal_core :: workspace_db where
  "sample_portal_core =
     \<lparr>db_issues = [\<lparr>i_id = ''i'', i_workspaceId = ''w'', i_projectId = ''p'', i_number = 1, i_issueTypeId = ''t'', i_statusId = ''s'',
        i_reporterId = ''u'', i_assigneeId = None, i_parentId = None, i_hierarchyLevelId = None, i_summary = ''one'', i_description = JNull,
        i_resolution = None, i_priority = Medium, i_estimate = None, i_dueDate = None, i_completedAt = None, i_archivedAt = None,
        i_version = 1, i_securityLevelId = None, i_rank = ''a'', i_createdAt = 0, i_updatedAt = 0\<rparr>],
      db_projects = [\<lparr>p_id = ''p'', p_workspaceId = ''w'', p_key = ''SD'', p_visibility = Private, p_template = Service, p_archivedAt = None,
        p_permissionSchemeVersionId = None, p_issueSequence = 1, p_defaultPriority = Medium\<rparr>],
      db_projectMembers = [], db_workspaceMembers = [], db_issueTypes = [], db_levels = [], db_statuses = [], db_securityLevels = [],
      db_schemeVersions = [], db_groups = [], db_activities = [], db_audit = []\<rparr>"

definition sample_portal_context :: portal_context where
  "sample_portal_context = \<lparr>px_customer = sample_customer, px_workspaceId = ''w'', px_organizationProjects = []\<rparr>"

lemma sample_portal_login:
  "getPortalContext (\<lambda>_. ''m'') (\<lambda>_. Some \<lparr>pl_sessionId = ''s'', pl_customerId = ''c'', pl_workspaceId = ''w'', pl_expiresAt = 9\<rparr>) 5
     (Some ''e.m'') sample_portal_core sample_portal = Some sample_portal_context"
  by (simp add: getPortalContext_def readPortalClaims_def portal_sign_def sample_portal_def sample_customer_def sample_portal_context_def
      organization_projects_def)

theorem portal_authentication_is_sound_witness:
  "\<exists>s\<in>set (po_sessions sample_portal). ps_customerId s = pc_id (px_customer sample_portal_context) \<and> ps_revokedAt s = None"
  using portal_authentication_is_sound [OF sample_portal_login] by force

theorem portal_token_single_use_witness:
  "distinct (map (pk_id \<circ> snd) (k_winners (fold (attempt_step pk_id token_used use_token (find_token id [''c'']))
     [Start 1 (''t'', ''LOGIN'') 5, Start 2 (''t'', ''LOGIN'') 6, Finish 2 7, Finish 1 8] (fresh_desk (issuePortalToken id ''k'' ''t'' 0 ''c'' ''LOGIN'' 30 [])))))"
  by (rule portal_token_single_use) (simp add: issuePortalToken_def)

theorem portal_visibility_is_current_witness:
  "project_access sample_portal ''c'' ''p''"
proof -
  have "portalRequestWhere sample_portal_core sample_portal sample_portal_context sample_request"
    by (simp add: portalRequestWhere_def portalProjectWhere_def sample_portal_core_def sample_portal_def sample_portal_context_def
        sample_customer_def sample_request_def)
  from portal_visibility_is_current [OF this] show ?thesis
    by (simp add: sample_portal_context_def sample_customer_def sample_request_def)
qed

end
