(* ===== verification/SlaEngine.thy ===== *)
theory SlaEngine
  imports JsValue Dates
begin

text \<open>
  Service-level clocks (\<open>ops/sla-engine.mjs\<close>): calendars, business time between two instants, the
  instant a target is reached, conditions and timer rules, and the accrual of a cycle. The time-zone
  database of the host is the parameter \<open>zone\<close>: for a known zone it gives the local date, the minute of
  the local day and the day of the week of an instant. The caches of the code are left out: a cached
  value is the one that would be computed.
\<close>

datatype sla_error =
    Bad_Intervals | Bad_Calendar | Unknown_Timezone | No_Working_Time | Bad_Range | Bad_Conditions | Bad_Timer_Rules
  | Bad_Pause_Reasons | Out_Of_Order

section \<open>Calendars\<close>

definition MINUTE :: int where "MINUTE = 60000"

type_synonym window = "int \<times> int"

record calendar =
  ca_timezone :: string
  ca_week :: "window list list"
  ca_holidays :: "string list"
  ca_exceptions :: "(string \<times> window list) list"

record local_time =
  lt_date :: string
  lt_minute :: int
  lt_weekday :: nat

type_synonym clock = "time \<Rightarrow> local_time"
type_synonym zone_db = "string \<Rightarrow> clock option"

text \<open>\<open>date\<close>: the parsed day must print back, so 30 February is refused.\<close>

definition is_date :: "js \<Rightarrow> bool" where
  "is_date v \<longleftrightarrow> (case as_string v of
       None \<Rightarrow> False
     | Some s \<Rightarrow> (case parse_iso_date s of None \<Rightarrow> False | Some t \<Rightarrow> iso_date t = s))"

definition as_window :: "js \<Rightarrow> window option" where
  "as_window v =
     (case as_array v of
        Some [a, b] \<Rightarrow>
          (case (as_integer a, as_integer b) of
             (Some x, Some y) \<Rightarrow> if x < 0 \<or> 1440 < y \<or> y \<le> x then None else Some (x, y)
           | _ \<Rightarrow> None)
      | _ \<Rightarrow> None)"

fun overlapping :: "window list \<Rightarrow> bool" where
  "overlapping (v # w # ws) \<longleftrightarrow> fst w < snd v \<or> overlapping (w # ws)"
| "overlapping _ \<longleftrightarrow> False"

definition windows :: "js \<Rightarrow> (sla_error, window list) result" where
  "windows v =
     (case as_array v of
        None \<Rightarrow> Inl Bad_Intervals
      | Some items \<Rightarrow>
          if 8 < length items then Inl Bad_Intervals
          else bind_result (map_result (\<lambda>x. case as_window x of None \<Rightarrow> Inl Bad_Intervals | Some w \<Rightarrow> Inr w) items) (\<lambda>ws.
                 (let sorted_ws = sort_key fst ws in if overlapping sorted_ws then Inl Bad_Intervals else Inr sorted_ws)))"

text \<open>\<open>Object.fromEntries\<close> of the validated exceptions.\<close>

definition exception_windows :: "jobj \<Rightarrow> (sla_error, (string \<times> window list) list) result" where
  "exception_windows ex = map_result (\<lambda>(day, v). bind_result (windows v) (\<lambda>ws. Inr (day, ws))) ex"

text \<open>The holidays and the exceptions of a calendar.\<close>

definition special_days :: "jobj \<Rightarrow> (sla_error, string list \<times> (string \<times> window list) list) result" where
  "special_days o' =
     (case as_array (nullish (field ''holidays'' o') (JArr [])) of
        None \<Rightarrow> Inl Bad_Calendar
      | Some hs \<Rightarrow>
          if 1000 < length hs \<or> \<not> list_all is_date hs then Inl Bad_Calendar
          else (case as_object (nullish (field ''exceptions'' o') (JObj [])) of
             None \<Rightarrow> Inl Bad_Calendar
           | Some ex \<Rightarrow>
               if 1000 < length ex \<or> \<not> list_all (\<lambda>k. is_date (JStr k)) (keys_of ex) then Inl Bad_Calendar
               else bind_result (exception_windows ex) (\<lambda>normalized. Inr (strings_of hs, normalized))))"

definition validateCalendar :: "zone_db \<Rightarrow> js \<Rightarrow> (sla_error, calendar) result" where
  "validateCalendar zone value =
     (case as_object value of
        None \<Rightarrow> Inl Bad_Calendar
      | Some o' \<Rightarrow>
          if list_ex (\<lambda>k. k \<notin> {''timezone'', ''week'', ''holidays'', ''exceptions''}) (keys_of o') then Inl Bad_Calendar
          else (case as_string (field ''timezone'' o') of
             None \<Rightarrow> Inl Bad_Calendar
           | Some tz \<Rightarrow>
               if 100 < length tz then Inl Bad_Calendar
               else if zone tz = None then Inl Unknown_Timezone
               else (case as_array (field ''week'' o') of
                  None \<Rightarrow> Inl Bad_Calendar
                | Some days \<Rightarrow>
                    if length days \<noteq> 7 then Inl Bad_Calendar
                    else bind_result (map_result windows days) (\<lambda>week.
                         bind_result (special_days o') (\<lambda>(hs, ex).
                           if \<not> list_ex (\<lambda>h. h \<noteq> []) week \<and> \<not> list_ex (\<lambda>(_, h). h \<noteq> []) ex then Inl No_Working_Time
                           else Inr \<lparr>ca_timezone = tz, ca_week = week, ca_holidays = uniq hs, ca_exceptions = ex\<rparr>)))))"

section \<open>Business time\<close>

definition hours_at :: "calendar \<Rightarrow> local_time \<Rightarrow> window list" where
  "hours_at c lt =
     (case map_of (ca_exceptions c) (lt_date lt) of
        Some hours \<Rightarrow> hours
      | None \<Rightarrow>
          if lt_date lt \<in> set (ca_holidays c) then []
          else if lt_weekday lt < length (ca_week c) then ca_week c ! lt_weekday lt else [])"

definition working :: "calendar \<Rightarrow> clock \<Rightarrow> time \<Rightarrow> bool" where
  "working c clock instant = list_ex (\<lambda>(start, end'). start \<le> lt_minute (clock instant) \<and> lt_minute (clock instant) < end') (hours_at c (clock instant))"

text \<open>One minute of the walk over a UTC day, with the interval now open and the closed ones.\<close>

definition scan_minute :: "calendar \<Rightarrow> clock \<Rightarrow> time \<Rightarrow> nat \<Rightarrow> time option \<times> (time \<times> time) list \<Rightarrow> time option \<times> (time \<times> time) list" where
  "scan_minute c clock day m st =
     (let instant = day + int m * MINUTE; w = working c clock instant; (opened, done) = st;
          opened' = (if w \<and> opened = None then Some instant else opened)
      in case opened' of
           None \<Rightarrow> (None, done)
         | Some from_at \<Rightarrow> if w then (Some from_at, done) else (None, done @ [(from_at, instant)]))"

definition intervals :: "calendar \<Rightarrow> clock \<Rightarrow> time \<Rightarrow> (time \<times> time) list" where
  "intervals c clock day =
     (case fold (scan_minute c clock day) [0..<1440] (None, []) of
        (None, done) \<Rightarrow> done
      | (Some from_at, done) \<Rightarrow> done @ [(from_at, day + DAY_MS)])"

text \<open>\<open>for (let day = \<dots>; day < end; day += DAY)\<close>\<close>

function day_starts :: "time \<Rightarrow> time \<Rightarrow> time list" where
  "day_starts day end_at = (if day < end_at then day # day_starts (day + DAY_MS) end_at else [])"
  by pat_completeness auto
termination
  by (relation "measure (\<lambda>(day, end_at). nat (end_at - day))") (auto simp: DAY_MS_def)

declare day_starts.simps [simp del]

definition open_hours :: "calendar \<Rightarrow> clock \<Rightarrow> time \<Rightarrow> time \<Rightarrow> (time \<times> time) list" where
  "open_hours c clock from_at to_at = concat (map (intervals c clock) (day_starts (utc_midnight from_at) to_at))"

text \<open>Formatting a date in an unknown zone throws, which happens once a day is walked.\<close>

definition with_zone :: "zone_db \<Rightarrow> calendar \<Rightarrow> time \<Rightarrow> time \<Rightarrow> (sla_error, (time \<times> time) list) result" where
  "with_zone zone c from_at to_at =
     (if day_starts (utc_midnight from_at) to_at = [] then Inr []
      else (case zone (ca_timezone c) of None \<Rightarrow> Inl Unknown_Timezone | Some clock \<Rightarrow> Inr (open_hours c clock from_at to_at)))"

definition overlap :: "time \<Rightarrow> time \<Rightarrow> time \<times> time \<Rightarrow> int" where
  "overlap start end_at = (\<lambda>(a, b). max 0 (min end_at b - max start a))"

definition businessMilliseconds :: "zone_db \<Rightarrow> calendar \<Rightarrow> time \<Rightarrow> time \<Rightarrow> (sla_error, int) result" where
  "businessMilliseconds zone c from_at to_at =
     (if to_at < from_at then Inl Bad_Range
      else bind_result (with_zone zone c from_at to_at) (\<lambda>hs. Inr (fold (\<lambda>iv total. total + overlap from_at to_at iv) hs 0)))"

fun reach :: "time \<Rightarrow> time \<Rightarrow> int \<Rightarrow> (time \<times> time) list \<Rightarrow> time option" where
  "reach start end_at remaining [] = None"
| "reach start end_at remaining (iv # ivs) =
     (if remaining \<le> overlap start end_at iv then Some (max start (fst iv) + remaining)
      else reach start end_at (remaining - overlap start end_at iv) ivs)"

definition businessThreshold :: "zone_db \<Rightarrow> calendar \<Rightarrow> time \<Rightarrow> time \<Rightarrow> int \<Rightarrow> (sla_error, time option) result" where
  "businessThreshold zone c from_at to_at amount =
     (if amount \<le> 0 then Inr (Some from_at)
      else bind_result (with_zone zone c from_at to_at) (\<lambda>hs. Inr (reach from_at to_at amount hs)))"

section \<open>Conditions and timer rules\<close>

record condition =
  cn_field :: string
  cn_equals :: js

definition condition_fields :: "string list" where
  "condition_fields = [''event'', ''statusId'', ''statusCategory'', ''requestTypeId'', ''priority'', ''organizationId'', ''label'']"

definition is_stable_id :: "nat \<Rightarrow> string \<Rightarrow> bool" where
  "is_stable_id n s \<longleftrightarrow> s \<noteq> [] \<and> length s \<le> n \<and> list_all (\<lambda>c. is_alnum c \<or> c \<in> set ''_-'') s"

definition is_condition_field :: "string \<Rightarrow> bool" where
  "is_condition_field s \<longleftrightarrow> s \<in> set condition_fields \<or> starts_with ''field:'' s \<and> is_stable_id 100 (drop 6 s)"

definition validateCondition :: "js \<Rightarrow> (sla_error, condition) result" where
  "validateCondition v =
     (case as_object v of
        None \<Rightarrow> Inl Bad_Conditions
      | Some o' \<Rightarrow>
          (case as_string (field ''field'' o') of
             None \<Rightarrow> Inl Bad_Conditions
           | Some f \<Rightarrow>
               if list_ex (\<lambda>k. k \<notin> {''field'', ''equals''}) (keys_of o') \<or> \<not> is_condition_field f then Inl Bad_Conditions
               else (case field ''equals'' o' of
                       JStr s \<Rightarrow> if 200 < length s then Inl Bad_Conditions else Inr \<lparr>cn_field = f, cn_equals = JStr s\<rparr>
                     | JNum n \<Rightarrow> Inr \<lparr>cn_field = f, cn_equals = JNum n\<rparr>
                     | JBool b \<Rightarrow> Inr \<lparr>cn_field = f, cn_equals = JBool b\<rparr>
                     | _ \<Rightarrow> Inl Bad_Conditions)))"

definition validateConditions :: "js \<Rightarrow> (sla_error, condition list) result" where
  "validateConditions v =
     (case as_array v of
        None \<Rightarrow> Inl Bad_Conditions
      | Some vs \<Rightarrow> if 20 < length vs then Inl Bad_Conditions else map_result validateCondition vs)"

definition holds :: "js \<Rightarrow> condition \<Rightarrow> bool" where
  "holds payload cn =
     (if cn_field cn = ''label''
      then (case js_get ''labels'' payload of JArr ls \<Rightarrow> list_ex (\<lambda>l. strict_eq l (cn_equals cn)) ls | _ \<Rightarrow> False)
      else if starts_with ''field:'' (cn_field cn) then strict_eq (js_get (drop 6 (cn_field cn)) (js_get ''fields'' payload)) (cn_equals cn)
      else strict_eq (js_get (cn_field cn) payload) (cn_equals cn))"

definition matches_all :: "condition list \<Rightarrow> js \<Rightarrow> bool" where
  "matches_all conditions payload \<longleftrightarrow> list_all (holds payload) conditions"

record timer_rules =
  ru_start :: "condition list"
  ru_pause :: "(string \<times> condition list) list"
  ru_resume :: "condition list"
  ru_stop :: "condition list"
  ru_reset :: "condition list"
  ru_success :: "condition list"

definition pause_reason :: "js \<Rightarrow> (sla_error, string \<times> condition list) result" where
  "pause_reason v =
     (case as_string (js_get ''id'' v) of
        None \<Rightarrow> Inl Bad_Pause_Reasons
      | Some i \<Rightarrow>
          if \<not> is_stable_id 50 i then Inl Bad_Pause_Reasons
          else bind_result (validateConditions (js_get ''when'' v)) (\<lambda>conds. Inr (i, conds)))"

definition equals_json :: "string \<Rightarrow> string \<Rightarrow> js" where
  "equals_json f v = JArr [JObj [(''field'', JStr f), (''equals'', JStr v)]]"

definition default_stop :: "string \<Rightarrow> js" where
  "default_stop metric = (if metric = ''RESPONSE'' then equals_json ''event'' ''agent.replied'' else equals_json ''statusCategory'' ''DONE'')"

definition validateRules :: "js \<Rightarrow> string \<Rightarrow> (sla_error, timer_rules) result" where
  "validateRules value metric =
     (case as_object (nullish value (JObj [])) of
        None \<Rightarrow> Inl Bad_Timer_Rules
      | Some o' \<Rightarrow>
          if list_ex (\<lambda>k. k \<notin> {''start'', ''pause'', ''resume'', ''stop'', ''reset'', ''success''}) (keys_of o') then Inl Bad_Timer_Rules
          else (case as_array (nullish (field ''pause'' o') (JArr [])) of
             None \<Rightarrow> Inl Bad_Pause_Reasons
           | Some ps \<Rightarrow>
               if 20 < length ps then Inl Bad_Pause_Reasons
               else bind_result (map_result pause_reason ps) (\<lambda>pause.
                 if \<not> distinct (map fst pause) then Inl Bad_Pause_Reasons
                 else bind_result (validateConditions (nullish (field ''start'' o') (JArr []))) (\<lambda>start.
                      bind_result (validateConditions (nullish (field ''resume'' o') (JArr []))) (\<lambda>resume.
                      bind_result (validateConditions (nullish (field ''stop'' o') (default_stop metric))) (\<lambda>stop.
                      bind_result (validateConditions (nullish (field ''reset'' o') (equals_json ''event'' ''request.reopened''))) (\<lambda>reset.
                      bind_result (validateConditions (nullish (field ''success'' o') (JArr []))) (\<lambda>success.
                        Inr \<lparr>ru_start = start, ru_pause = pause, ru_resume = resume, ru_stop = stop, ru_reset = reset, ru_success = success\<rparr>))))))))"

section \<open>Accrual\<close>

record sla_cycle =
  cy_id :: string
  cy_requestId :: string
  cy_goalVersionId :: string
  cy_metric :: string
  cy_sequence :: nat
  cy_state :: string
  cy_elapsedMs :: int
  cy_pauseReasons :: "string list"
  cy_startedAt :: time
  cy_lastAt :: time
  cy_endedAt :: "time option"
  cy_riskAt :: "time option"
  cy_breachedAt :: "time option"
  cy_succeededAt :: "time option"

record accrual =
  al_elapsedMs :: int
  al_lastAt :: time
  al_events :: "(string \<times> time) list"

text \<open>One of the two signals of a clock: it is due when the total reaches \<open>limit\<close> and was not given before.\<close>

definition due_event :: "zone_db \<Rightarrow> calendar \<Rightarrow> sla_cycle \<Rightarrow> time \<Rightarrow> int \<Rightarrow> string \<Rightarrow> time option \<Rightarrow> int \<Rightarrow> (sla_error, (string \<times> time) list) result" where
  "due_event zone c cycle instant total_ms type given limit =
     (if cy_endedAt cycle = None \<and> given = None \<and> limit \<le> total_ms
      then bind_result (businessThreshold zone c (cy_lastAt cycle) instant (limit - cy_elapsedMs cycle)) (\<lambda>t.
             Inr [(type, case t of Some x \<Rightarrow> x | None \<Rightarrow> instant)])
      else Inr [])"

definition accrue :: "zone_db \<Rightarrow> calendar \<Rightarrow> sla_cycle \<Rightarrow> time \<Rightarrow> int \<Rightarrow> int \<Rightarrow> (sla_error, accrual) result" where
  "accrue zone c cycle instant targetMs riskMs =
     (if instant < cy_lastAt cycle then Inl Out_Of_Order
      else bind_result (if cy_endedAt cycle \<noteq> None \<or> cy_pauseReasons cycle \<noteq> [] then Inr 0
                        else businessMilliseconds zone c (cy_lastAt cycle) instant) (\<lambda>added.
        (let total_ms = cy_elapsedMs cycle + added in
         bind_result (due_event zone c cycle instant total_ms ''sla.risk'' (cy_riskAt cycle) (targetMs - riskMs)) (\<lambda>risk.
         bind_result (due_event zone c cycle instant total_ms ''sla.breached'' (cy_breachedAt cycle) targetMs) (\<lambda>breached.
           Inr \<lparr>al_elapsedMs = total_ms, al_lastAt = instant, al_events = risk @ breached\<rparr>)))))"

section \<open>Business time is the number of working milliseconds\<close>

text \<open>An instant is busy when its minute is working time; \<open>worked\<close> counts the busy milliseconds.\<close>

definition busy :: "calendar \<Rightarrow> clock \<Rightarrow> time \<Rightarrow> bool" where
  "busy c clock t = working c clock (t - t mod MINUTE)"

definition worked :: "(time \<Rightarrow> bool) \<Rightarrow> time \<Rightarrow> time \<Rightarrow> int" where
  "worked B s e = int (card {t \<in> {s..<e}. B t})"

lemma worked_empty [simp]: "e \<le> s \<Longrightarrow> worked B s e = 0"
  by (simp add: worked_def)

lemma worked_split: "s \<le> m \<Longrightarrow> m \<le> e \<Longrightarrow> worked B s e = worked B s m + worked B m e"
proof -
  assume "s \<le> m" "m \<le> e"
  then have "{t \<in> {s..<e}. B t} = {t \<in> {s..<m}. B t} \<union> {t \<in> {m..<e}. B t}" by auto
  moreover have fin: "finite {t \<in> {x..<y}. B t}" for x y :: int
    by (rule finite_subset [of _ "{x..<y}"]) auto
  moreover have "card ({t \<in> {s..<m}. B t} \<union> {t \<in> {m..<e}. B t}) = card {t \<in> {s..<m}. B t} + card {t \<in> {m..<e}. B t}"
    by (rule card_Un_disjoint [OF fin fin]) auto
  ultimately show ?thesis by (simp add: worked_def)
qed

lemma worked_idle: "(\<And>t. s \<le> t \<Longrightarrow> t < e \<Longrightarrow> \<not> B t) \<Longrightarrow> worked B s e = 0"
proof -
  assume "\<And>t. s \<le> t \<Longrightarrow> t < e \<Longrightarrow> \<not> B t"
  then have "{t \<in> {s..<e}. B t} = {}" by auto
  then show ?thesis by (simp only: worked_def card.empty of_nat_0)
qed

lemma worked_full: "s \<le> e \<Longrightarrow> (\<And>t. s \<le> t \<Longrightarrow> t < e \<Longrightarrow> B t) \<Longrightarrow> worked B s e = e - s"
proof -
  assume "s \<le> e" and "\<And>t. s \<le> t \<Longrightarrow> t < e \<Longrightarrow> B t"
  then have "{t \<in> {s..<e}. B t} = {s..<e}" by auto
  with \<open>s \<le> e\<close> show ?thesis by (simp add: worked_def)
qed

lemma worked_nonneg [simp]: "0 \<le> worked B s e"
  by (simp add: worked_def)

lemma worked_le: "s \<le> e \<Longrightarrow> worked B s e \<le> e - s"
proof -
  assume "s \<le> e"
  have "card {t \<in> {s..<e}. B t} \<le> card {s..<e}" by (rule card_mono) auto
  with \<open>s \<le> e\<close> show ?thesis by (simp add: worked_def)
qed

text \<open>A list of intervals that covers exactly the busy instants of a range, in order.\<close>

fun covers :: "(time \<Rightarrow> bool) \<Rightarrow> time \<Rightarrow> (time \<times> time) list \<Rightarrow> time \<Rightarrow> bool" where
  "covers B p [] q \<longleftrightarrow> p \<le> q \<and> (\<forall>t. p \<le> t \<and> t < q \<longrightarrow> \<not> B t)"
| "covers B p ((a, b) # L) q \<longleftrightarrow>
     p \<le> a \<and> (\<forall>t. p \<le> t \<and> t < a \<longrightarrow> \<not> B t) \<and> a < b \<and> (\<forall>t. a \<le> t \<and> t < b \<longrightarrow> B t) \<and> covers B b L q"

lemma covers_le: "covers B p L q \<Longrightarrow> p \<le> q"
  by (induction B p L q rule: covers.induct) auto

lemma covers_idle: "p \<le> q \<Longrightarrow> (\<And>t. p \<le> t \<Longrightarrow> t < q \<Longrightarrow> \<not> B t) \<Longrightarrow> covers B q M r \<Longrightarrow> covers B p M r"
proof (cases M)
  case Nil
  assume "p \<le> q" "\<And>t. p \<le> t \<Longrightarrow> t < q \<Longrightarrow> \<not> B t" "covers B q M r"
  then show ?thesis using Nil by (simp, meson linorder_not_le order_trans)
next
  case (Cons iv L)
  assume h: "p \<le> q" "\<And>t. p \<le> t \<Longrightarrow> t < q \<Longrightarrow> \<not> B t" "covers B q M r"
  obtain a b where "iv = (a, b)" by (cases iv)
  with h Cons show ?thesis by (simp, meson linorder_not_le order_trans)
qed

lemma covers_append: "covers B p L q \<Longrightarrow> covers B q M r \<Longrightarrow> covers B p (L @ M) r"
  by (induction B p L q rule: covers.induct) (auto intro: covers_idle)

text \<open>The part of the intervals inside a range is the time worked there.\<close>

lemma covers_step:
  assumes "covers B p ((a, b) # L) q"
  shows "worked B (max s p) (min e q) = overlap s e (a, b) + worked B (max s b) (min e q)"
proof -
  from assms have order: "p \<le> a" "a < b" "b \<le> q" and idle: "\<And>t. p \<le> t \<Longrightarrow> t < a \<Longrightarrow> \<not> B t"
    and full: "\<And>t. a \<le> t \<Longrightarrow> t < b \<Longrightarrow> B t"
    using covers_le [of B b L q] by auto
  let ?u = "min e b"
  have ov: "worked B (max s a) ?u = overlap s e (a, b)"
  proof (cases "max s a \<le> ?u")
    case True
    then have "worked B (max s a) ?u = ?u - max s a" by (intro worked_full) (auto intro: full)
    with True show ?thesis by (simp add: overlap_def)
  next
    case False
    then have "?u \<le> max s a" by linarith
    then show ?thesis by (simp add: overlap_def del: min.bounded_iff max.bounded_iff)
  qed
  show ?thesis
  proof (cases "max s p \<le> min e q")
    case False
    then have "min e q \<le> max s p" "min e q \<le> max s b" "min e b \<le> max s a" using order by auto
    then show ?thesis by (simp add: overlap_def)
  next
    case True
    show ?thesis
    proof (cases "max s a \<le> min e q")
      case False
      have "worked B (max s p) (min e q) = 0"
        using False order idle by (intro worked_idle) (auto simp: not_le max_def min_def split: if_splits)
      moreover have "min e q \<le> max s b" "min e b \<le> max s a" using False order by auto
      ultimately show ?thesis by (simp add: overlap_def)
    next
      case in_a: True
      have first: "worked B (max s p) (min e q) = worked B (max s a) (min e q)"
      proof -
        have "worked B (max s p) (max s a) = 0"
          using order idle by (intro worked_idle) (auto simp: max_def split: if_splits)
        then show ?thesis using worked_split [of "max s p" "max s a" "min e q" B] in_a order by auto
      qed
      show ?thesis
      proof (cases "max s a \<le> ?u")
        case True
        have "worked B ?u (min e q) = worked B (max s b) (min e q)"
        proof (cases "e \<le> b")
          case True
          then show ?thesis using order by (simp add: min_def)
        next
          case False
          then have "?u = b" "max s b = b" using True order by auto
          then show ?thesis by simp
        qed
        then show ?thesis using first ov True order worked_split [of "max s a" ?u "min e q" B] by auto
      next
        case False
        then have "b < s" using in_a order by auto
        then show ?thesis using first order False by (simp add: overlap_def max_def)
      qed
    qed
  qed
qed

lemma covers_total:
  "covers B p L q \<Longrightarrow> fold (\<lambda>iv total. total + overlap s e iv) L n = n + worked B (max s p) (min e q)"
proof (induction L arbitrary: p n)
  case Nil
  then have "worked B (max s p) (min e q) = 0" by (intro worked_idle) auto
  then show ?case by simp
next
  case (Cons iv L)
  obtain a b where iv: "iv = (a, b)" by (cases iv)
  with Cons.prems have "covers B b L q" by simp
  from Cons.IH [OF this] covers_step [of B p a b L q s e] Cons.prems iv show ?case by simp
qed

text \<open>The walk finds the instant at which a given amount has been worked.\<close>

lemma covers_reach_None:
  "covers B p L q \<Longrightarrow> 0 < r \<Longrightarrow> reach s e r L = None \<Longrightarrow> worked B (max s p) (min e q) < r"
proof (induction L arbitrary: p r)
  case Nil
  then have "worked B (max s p) (min e q) = 0" by (intro worked_idle) auto
  with Nil show ?case by simp
next
  case (Cons iv L)
  obtain a b where iv: "iv = (a, b)" by (cases iv)
  with Cons.prems have "covers B b L q" and "overlap s e iv < r" and "reach s e (r - overlap s e iv) L = None"
    by (auto split: if_splits)
  with Cons.IH [of b "r - overlap s e iv"] covers_step [of B p a b L q s e] Cons.prems iv show ?case by simp
qed

lemma covers_reach_Some:
  "covers B p L q \<Longrightarrow> 0 < r \<Longrightarrow> reach s e r L = Some t
     \<Longrightarrow> max s p < t \<and> t \<le> min e q \<and> worked B (max s p) t = r \<and> B (t - 1)"
proof (induction L arbitrary: p r)
  case (Cons iv L)
  obtain a b where iv: "iv = (a, b)" by (cases iv)
  from Cons.prems iv have tail: "covers B b L q" and order: "p \<le> a" "a < b" "b \<le> q"
    and full: "\<And>t. a \<le> t \<Longrightarrow> t < b \<Longrightarrow> B t" and idle: "\<And>t. p \<le> t \<Longrightarrow> t < a \<Longrightarrow> \<not> B t"
    using covers_le [of B b L q] by auto
  have before: "worked B (max s p) (max s a) = 0"
    using order idle by (intro worked_idle) (auto simp: max_def split: if_splits)
  show ?case
  proof (cases "r \<le> overlap s e iv")
    case True
    with Cons.prems iv have t: "t = max s a + r" by simp
    from True Cons.prems(2) iv have u: "t \<le> min e b" unfolding t by (auto simp: overlap_def max_def split: if_splits)
    have "worked B (max s a) t = t - max s a"
      using u Cons.prems(2) t by (intro worked_full) (auto intro: full)
    moreover have "B (t - 1)" using u Cons.prems(2) t by (intro full) auto
    moreover have "worked B (max s p) t = worked B (max s p) (max s a) + worked B (max s a) t"
      using order t Cons.prems(2) by (intro worked_split) auto
    moreover have "max s p < t" "t \<le> min e q" using t u order Cons.prems(2) by linarith+
    ultimately show ?thesis using before t by simp
  next
    case False
    with Cons.prems have "reach s e (r - overlap s e iv) L = Some t" by simp
    from Cons.IH [OF tail _ this] False
    have IH: "max s b < t" "t \<le> min e q" "worked B (max s b) t = r - overlap s e iv" "B (t - 1)" by auto
    have "worked B (max s p) (min t q) = overlap s t (a, b) + worked B (max s b) (min t q)"
      using covers_step [of B p a b L q s t] Cons.prems(1) iv by simp
    moreover have "overlap s t (a, b) = overlap s e iv" using IH(1,2) iv by (simp add: overlap_def)
    moreover have "min t q = t" using IH(2) by simp
    ultimately show ?thesis using IH order by auto
  qed
qed simp

text \<open>The walk over a day covers it.\<close>

lemma day_is_minutes: "DAY_MS = MINUTE * 1440"
  by (simp add: MINUTE_def DAY_MS_def)

lemma busy_minute:
  assumes "day mod MINUTE = 0" and "day + int m * MINUTE \<le> t" and "t < day + int (Suc m) * MINUTE"
  shows "busy c clock t = working c clock (day + int m * MINUTE)"
proof -
  let ?i = "day + int m * MINUTE"
  have "?i mod MINUTE = 0" using assms(1) by (simp add: MINUTE_def)
  moreover have "t = ?i + (t - ?i)" by simp
  moreover have "0 \<le> t - ?i" "t - ?i < MINUTE" using assms(2,3) by (simp_all add: MINUTE_def)
  ultimately have "t mod MINUTE = t - ?i"
    by (metis add_cancel_left_left mod_add_left_eq mod_pos_pos_trivial)
  then show ?thesis by (simp add: busy_def)
qed

lemma scan_covers:
  assumes "day mod MINUTE = 0"
  shows "fold (scan_minute c clock day) [0..<n] (None, []) = (opened, done) \<Longrightarrow>
    (case opened of
       None \<Rightarrow> covers (busy c clock) day done (day + int n * MINUTE)
     | Some x \<Rightarrow> covers (busy c clock) day done x \<and> x < day + int n * MINUTE
         \<and> (\<forall>t. x \<le> t \<and> t < day + int n * MINUTE \<longrightarrow> busy c clock t))"
proof (induction n arbitrary: opened "done")
  case (Suc n)
  let ?i = "day + int n * MINUTE" and ?j = "day + int (Suc n) * MINUTE"
  have step: "?i < ?j" "?i \<le> ?j" by (simp_all add: MINUTE_def)
  have minute: "busy c clock t = working c clock ?i" if "?i \<le> t" "t < ?j" for t
    by (rule busy_minute [OF assms that])
  obtain o1 d1 where before: "fold (scan_minute c clock day) [0..<n] (None, []) = (o1, d1)"
    by (cases "fold (scan_minute c clock day) [0..<n] (None, [])")
  with Suc.prems have now: "scan_minute c clock day n (o1, d1) = (opened, done)" by simp
  show ?case
  proof (cases o1)
    case None
    with Suc.IH [OF before] have cov: "covers (busy c clock) day d1 ?i" by simp
    show ?thesis
    proof (cases "working c clock ?i")
      case True
      with now None have "opened = Some ?i" "done = d1" by (simp_all add: scan_minute_def Let_def)
      then show ?thesis using cov step minute True by simp
    next
      case False
      with now None have r: "opened = None" "done = d1" by (simp_all add: scan_minute_def Let_def)
      have "covers (busy c clock) ?i [] ?j" using step minute False by simp
      with covers_append [OF cov this] r show ?thesis by simp
    qed
  next
    case (Some x)
    with Suc.IH [OF before] have cov: "covers (busy c clock) day d1 x" and x: "x < ?i"
      and full: "\<And>t. x \<le> t \<Longrightarrow> t < ?i \<Longrightarrow> busy c clock t" by auto
    show ?thesis
    proof (cases "working c clock ?i")
      case True
      with now Some have r: "opened = Some x" "done = d1" by (simp_all add: scan_minute_def Let_def)
      have "busy c clock t" if "x \<le> t" "t < ?j" for t
        using that full minute True by (cases "t < ?i") auto
      then show ?thesis using cov x step r by simp
    next
      case False
      with now Some have r: "opened = None" "done = d1 @ [(x, ?i)]" by (simp_all add: scan_minute_def Let_def)
      have "covers (busy c clock) x [(x, ?i)] ?j" using x step full minute False by simp
      with covers_append [OF cov this] r show ?thesis by simp
    qed
  qed
qed auto

lemma day_minutes: "day + int 1440 * MINUTE = day + DAY_MS"
  by (simp add: MINUTE_def DAY_MS_def)

lemma intervals_cover:
  assumes "day mod MINUTE = 0"
  shows "covers (busy c clock) day (intervals c clock day) (day + DAY_MS)"
proof -
  obtain opened "done" where scan: "fold (scan_minute c clock day) [0..<1440] (None, []) = (opened, done)"
    by (cases "fold (scan_minute c clock day) [0..<1440] (None, [])")
  note cov = scan_covers [OF assms scan, unfolded day_minutes]
  show ?thesis
  proof (cases opened)
    case None
    with cov scan show ?thesis by (simp add: intervals_def del: upt_rec_numeral)
  next
    case (Some x)
    with cov have "covers (busy c clock) day done x" "covers (busy c clock) x [(x, day + DAY_MS)] (day + DAY_MS)" by auto
    from covers_append [OF this] Some scan show ?thesis by (simp add: intervals_def del: upt_rec_numeral)
  qed
qed

lemma days_cover:
  "day mod MINUTE = 0 \<Longrightarrow> \<exists>q. to_at \<le> q \<and> covers (busy c clock) day (concat (map (intervals c clock) (day_starts day to_at))) q"
proof (induction day to_at rule: day_starts.induct)
  case (1 day to_at)
  show ?case
  proof (cases "day < to_at")
    case True
    have "(day + DAY_MS) mod MINUTE = 0" using 1(2) by (simp add: day_is_minutes)
    from 1(1) [OF True this] obtain q where "to_at \<le> q"
      "covers (busy c clock) (day + DAY_MS) (concat (map (intervals c clock) (day_starts (day + DAY_MS) to_at))) q" by blast
    with covers_append [OF intervals_cover [OF 1(2)] this(2)] True show ?thesis
      by (subst day_starts.simps) auto
  next
    case False
    then show ?thesis by (subst day_starts.simps) (auto intro!: exI [of _ day])
  qed
qed

lemma midnight_minute: "utc_midnight t mod MINUTE = 0"
  by (simp add: utc_midnight_def DAY_MS_def MINUTE_def)

lemma open_hours_cover:
  "\<exists>q. to_at \<le> q \<and> covers (busy c clock) (utc_midnight from_at) (open_hours c clock from_at to_at) q"
  unfolding open_hours_def by (rule days_cover [OF midnight_minute])

lemma no_days: "day_starts day to_at = [] \<longleftrightarrow> to_at \<le> day"
  by (subst day_starts.simps) auto

lemma max_midnight [simp]: "max t (utc_midnight t) = t"
  using utc_midnight_le [of t] by simp

lemma business_time:
  assumes "from_at \<le> to_at" and "zone (ca_timezone c) = Some clock"
  shows "businessMilliseconds zone c from_at to_at = Inr (worked (busy c clock) from_at to_at)"
proof (cases "to_at \<le> utc_midnight from_at")
  case True
  with utc_midnight_le [of from_at] assms(1) have "from_at = to_at" by linarith
  with True show ?thesis by (simp add: businessMilliseconds_def with_zone_def no_days)
next
  case False
  obtain q where q: "to_at \<le> q" "covers (busy c clock) (utc_midnight from_at) (open_hours c clock from_at to_at) q"
    using open_hours_cover by blast
  from covers_total [OF q(2), of from_at to_at 0] q(1)
  have "fold (\<lambda>iv total. total + overlap from_at to_at iv) (open_hours c clock from_at to_at) 0 = worked (busy c clock) from_at to_at"
    by simp
  with False assms show ?thesis by (simp add: businessMilliseconds_def with_zone_def no_days)
qed

lemma business_threshold:
  assumes "from_at \<le> to_at" and "zone (ca_timezone c) = Some clock" and "0 < amount"
  shows "(businessThreshold zone c from_at to_at amount = Inr None \<and> worked (busy c clock) from_at to_at < amount)
    \<or> (\<exists>t. businessThreshold zone c from_at to_at amount = Inr (Some t) \<and> from_at < t \<and> t \<le> to_at
         \<and> worked (busy c clock) from_at t = amount \<and> busy c clock (t - 1))"
proof (cases "to_at \<le> utc_midnight from_at")
  case True
  with utc_midnight_le [of from_at] assms(1) have "from_at = to_at" by linarith
  with True assms(3) show ?thesis by (simp add: businessThreshold_def with_zone_def no_days)
next
  case False
  obtain q where q: "to_at \<le> q" "covers (busy c clock) (utc_midnight from_at) (open_hours c clock from_at to_at) q"
    using open_hours_cover by blast
  have run: "businessThreshold zone c from_at to_at amount = Inr (reach from_at to_at amount (open_hours c clock from_at to_at))"
    using False assms by (simp add: businessThreshold_def with_zone_def no_days)
  show ?thesis
  proof (cases "reach from_at to_at amount (open_hours c clock from_at to_at)")
    case None
    from covers_reach_None [OF q(2) assms(3) None] q(1) run None show ?thesis by simp
  next
    case (Some t)
    from covers_reach_Some [OF q(2) assms(3) Some] q(1) run Some show ?thesis by auto
  qed
qed

lemma worked_next: "s < t \<Longrightarrow> B (t - 1) \<Longrightarrow> worked B s t = worked B s (t - 1) + 1"
  using worked_split [of s "t - 1" t B] worked_full [of "t - 1" t B]
  by (simp, metis add.commute diff_add_cancel linorder_not_le order_less_le zle_diff1_eq zless_imp_add1_zle)

lemma worked_mono: "t \<le> u \<Longrightarrow> worked B s t \<le> worked B s u"
proof -
  assume "t \<le> u"
  have "{x \<in> {s..<t}. B x} \<subseteq> {x \<in> {s..<u}. B x}" using \<open>t \<le> u\<close> by auto
  moreover have "finite {x \<in> {s..<u}. B x}" by (rule finite_subset [of _ "{s..<u}"]) auto
  ultimately have "card {x \<in> {s..<t}. B x} \<le> card {x \<in> {s..<u}. B x}" by (rule card_mono [rotated])
  then show ?thesis by (simp only: worked_def of_nat_le_iff)
qed

text \<open>The instant at which an amount is reached is unique.\<close>

lemma reached_unique:
  assumes "s < t" "worked B s t = r" "B (t - 1)" and "s < u" "worked B s u = r" "B (u - 1)"
  shows "t = u"
proof -
  have le: "\<not> x < y" if "s < y" "worked B s x = r" "worked B s y = r" "B (y - 1)" for x y
    using worked_next [of s y B] worked_mono [of x "y - 1" B s] that by auto
  have "\<not> t < u" by (rule le) (use assms in auto)
  moreover have "\<not> u < t" by (rule le) (use assms in auto)
  ultimately show ?thesis by simp
qed

section \<open>Properties of calendars and clocks\<close>

text \<open>UTC as a time zone, and a calendar that is always open.\<close>

definition utc_clock :: clock where
  "utc_clock t = \<lparr>lt_date = iso_date t, lt_minute = t mod DAY_MS div MINUTE, lt_weekday = nat (utc_day_of_week t)\<rparr>"

definition utc_zone :: zone_db where
  "utc_zone z = (if z = ''UTC'' then Some utc_clock else None)"

definition always_open :: calendar where
  "always_open = \<lparr>ca_timezone = ''UTC'', ca_week = replicate 7 [(0, 1440)], ca_holidays = [], ca_exceptions = []\<rparr>"

lemma always_busy: "busy always_open utc_clock t"
proof -
  let ?m = "(t - t mod MINUTE) mod DAY_MS div MINUTE"
  have "0 \<le> (t - t mod MINUTE) mod DAY_MS" "(t - t mod MINUTE) mod DAY_MS < DAY_MS" by (simp_all add: DAY_MS_def)
  then have "0 \<le> ?m" "?m < 1440" by (simp_all add: DAY_MS_def MINUTE_def)
  moreover have "nat (utc_day_of_week x) < 7" for x by (simp add: utc_day_of_week_def nat_less_iff)
  ultimately show ?thesis
    by (simp add: busy_def working_def hours_at_def always_open_def utc_clock_def)
qed

lemma utc_known [simp]: "utc_zone (ca_timezone always_open) = Some utc_clock"
  by (simp add: utc_zone_def always_open_def)

text \<open>
  C18: Business time is what it is meant to be: the number of milliseconds of the range whose minute is
  working time in the local calendar, whatever the offsets and shifts of the time zone are.
\<close>

theorem business_time_is_measure:
  assumes "from_at \<le> to_at" and "zone (ca_timezone c) = Some clock"
  shows "businessMilliseconds zone c from_at to_at
     = Inr (int (card {t \<in> {from_at..<to_at}. working c clock (t - t mod MINUTE)}))"
  using business_time [where zone = zone and c = c, OF assms] by (simp only: worked_def busy_def)

theorem business_time_is_measure_witness:
  "businessMilliseconds utc_zone always_open 0 7000
     = Inr (int (card {t \<in> {0..<7000}. working always_open utc_clock (t - t mod MINUTE)}))"
  by (rule business_time_is_measure) simp_all

text \<open>
  Business time adds up: a range cut in two takes the time of its parts.
\<close>

theorem business_time_adds_up:
  assumes "from_at \<le> mid" "mid \<le> to_at"
    and "businessMilliseconds zone c from_at mid = Inr m" and "businessMilliseconds zone c mid to_at = Inr n"
    and "zone (ca_timezone c) \<noteq> None"
  shows "businessMilliseconds zone c from_at to_at = Inr (m + n)"
proof -
  from assms(5) obtain clock where "zone (ca_timezone c) = Some clock" by blast
  with assms business_time [of from_at mid] business_time [of mid to_at] business_time [of from_at to_at]
    worked_split [of from_at mid to_at "busy c clock"]
  show ?thesis by simp
qed

lemma always_open_time: "a \<le> b \<Longrightarrow> businessMilliseconds utc_zone always_open a b = Inr (b - a)"
  by (simp add: business_time worked_full always_busy)

theorem business_time_adds_up_witness: "businessMilliseconds utc_zone always_open 0 90 = Inr (40 + 50)"
  by (rule business_time_adds_up [of 0 40 90]) (simp_all add: always_open_time)

text \<open>
  C19: The threshold is exact. If the target is reached in the range, the instant found is the one at which
  exactly that much business time has passed, and the millisecond before it was worked; nothing is
  found exactly when the range holds less business time than that.
\<close>

theorem threshold_is_exact:
  assumes "from_at \<le> to_at" and "zone (ca_timezone c) = Some clock" and "0 < amount"
  shows "(businessThreshold zone c from_at to_at amount = Inr (Some t) \<longleftrightarrow>
       from_at < t \<and> t \<le> to_at \<and> businessMilliseconds zone c from_at t = Inr amount \<and> busy c clock (t - 1))
    \<and> (businessThreshold zone c from_at to_at amount = Inr None \<longleftrightarrow>
       (\<exists>n < amount. businessMilliseconds zone c from_at to_at = Inr n))"
proof -
  have ms: "businessMilliseconds zone c from_at u = Inr (worked (busy c clock) from_at u)" if "from_at \<le> u" for u
    by (rule business_time [where zone = zone and c = c, OF that assms(2)])
  note run = business_threshold [where zone = zone and c = c, OF assms]
  have below: "worked (busy c clock) from_at u \<le> worked (busy c clock) from_at to_at" if "u \<le> to_at" for u
    by (rule worked_mono [OF that])
  show ?thesis
  proof (rule conjI; rule iffI)
    assume "businessThreshold zone c from_at to_at amount = Inr (Some t)"
    with run ms [of t] show "from_at < t \<and> t \<le> to_at \<and> businessMilliseconds zone c from_at t = Inr amount \<and> busy c clock (t - 1)"
      by auto
  next
    assume t: "from_at < t \<and> t \<le> to_at \<and> businessMilliseconds zone c from_at t = Inr amount \<and> busy c clock (t - 1)"
    with ms [of t] below [of t] run reached_unique [of from_at t "busy c clock" amount]
    show "businessThreshold zone c from_at to_at amount = Inr (Some t)" by fastforce
  next
    assume "businessThreshold zone c from_at to_at amount = Inr None"
    with run ms [of to_at] assms(1) show "\<exists>n < amount. businessMilliseconds zone c from_at to_at = Inr n" by auto
  next
    assume "\<exists>n < amount. businessMilliseconds zone c from_at to_at = Inr n"
    with run ms [of to_at] below assms(1) show "businessThreshold zone c from_at to_at amount = Inr None" by fastforce
  qed
qed

theorem threshold_is_exact_witness: "businessThreshold utc_zone always_open 0 100 40 = Inr (Some 40)"
  using threshold_is_exact [of 0 100 utc_zone always_open utc_clock 40 40] by (simp add: always_open_time always_busy)

text \<open>A list of working intervals of one day, in order and without overlap.\<close>

definition windows_ok :: "window list \<Rightarrow> bool" where
  "windows_ok ws \<longleftrightarrow> length ws \<le> 8 \<and> list_all (\<lambda>(a, b). 0 \<le> a \<and> a < b \<and> b \<le> 1440) ws \<and> sorted_wrt (\<lambda>v w. snd v \<le> fst w) ws"

lemma not_overlapping:
  "\<not> overlapping ws \<Longrightarrow> list_all (\<lambda>(a, b). a < b) ws \<Longrightarrow> sorted_wrt (\<lambda>v w. snd v \<le> fst w) (ws :: window list)"
proof (induction ws rule: overlapping.induct)
  case (1 v w ws)
  then have IH: "sorted_wrt (\<lambda>v w. snd v \<le> fst w) (w # ws)" and "snd v \<le> fst w" by auto
  moreover have "fst w < snd w" using 1 by (auto simp: split_beta)
  ultimately show ?case by fastforce
qed auto

lemma as_window_ok: "as_window v = Some w \<Longrightarrow> 0 \<le> fst w \<and> fst w < snd w \<and> snd w \<le> 1440"
  by (auto simp: as_window_def split: option.splits list.splits if_splits)

lemma windows_sound:
  assumes "windows v = Inr ws"
  shows "windows_ok ws"
proof -
  from assms obtain items us where items: "length items \<le> 8"
    and parsed: "map_result (\<lambda>x. case as_window x of None \<Rightarrow> Inl Bad_Intervals | Some w \<Rightarrow> Inr w) items = Inr us"
    and ws: "ws = sort_key fst us" and no: "\<not> overlapping ws"
    by (auto simp: windows_def Let_def bind_result_eq_Inr not_less split: option.splits if_splits)
  have "0 \<le> fst w \<and> fst w < snd w \<and> snd w \<le> 1440" if "w \<in> set us" for w
    using map_result_all [OF parsed that] as_window_ok by (auto split: option.splits)
  then have "list_all (\<lambda>(a, b). 0 \<le> a \<and> a < b \<and> b \<le> 1440) ws" by (auto simp: ws list_all_iff)
  moreover from this have "sorted_wrt (\<lambda>v w. snd v \<le> fst w) ws"
    by (intro not_overlapping no) (auto simp: list_all_iff)
  ultimately show ?thesis using items map_result_length [OF parsed] by (simp add: windows_ok_def ws)
qed

text \<open>A day of the calendar: in the form of a date, and the day that some midnight of that form prints.\<close>

definition real_day :: "string \<Rightarrow> bool" where
  "real_day s \<longleftrightarrow> is_iso_date s
     \<and> (\<exists>y m d. y = int_of_digits (take 4 s) \<and> m = int_of_digits (take 2 (drop 5 s)) \<and> d = int_of_digits (drop 8 s)
          \<and> 1 \<le> m \<and> m \<le> 12 \<and> 1 \<le> d \<and> d \<le> 31 \<and> iso_date (utc y m d) = s)"

lemma is_date_real: "is_date (JStr s) \<Longrightarrow> real_day s"
  by (auto simp: is_date_def real_day_def parse_iso_date_def Let_def split: option.splits if_splits)

lemma exception_keys: "exception_windows ex = Inr exs \<Longrightarrow> map fst exs = keys_of ex"
  unfolding exception_windows_def keys_of_def
proof (induction ex arbitrary: exs)
  case (Cons x ex)
  then show ?case by (cases x) (auto simp: bind_result_eq_Inr)
qed simp

text \<open>
  C20: A calendar that passes validation is well formed: its zone is known, its week has seven days, every day
  and exception has at most eight intervals within the day, in order and disjoint, and some of them is open; every
  holiday and every day of an exception is a date that exists, and no holiday is named twice.
\<close>

theorem validated_calendar_is_sound:
  assumes "validateCalendar zone v = Inr c"
  shows "zone (ca_timezone c) \<noteq> None \<and> length (ca_week c) = 7
    \<and> (\<forall>hours \<in> set (ca_week c) \<union> snd ` set (ca_exceptions c). windows_ok hours)
    \<and> (\<exists>hours \<in> set (ca_week c) \<union> snd ` set (ca_exceptions c). hours \<noteq> [])
    \<and> (\<forall>day \<in> set (ca_holidays c) \<union> fst ` set (ca_exceptions c). real_day day)
    \<and> distinct (ca_holidays c)"
proof -
  have special: "(\<exists>ex. exception_windows ex = Inr exs) \<and> (\<forall>day \<in> set hs \<union> fst ` set exs. real_day day)"
    if "special_days o' = Inr (hs, exs)" for o' hs exs
  proof -
    from that obtain days ex where ex: "exception_windows ex = Inr exs" and days: "list_all is_date days" "hs = strings_of days"
      and keys: "list_all (\<lambda>k. is_date (JStr k)) (keys_of ex)"
      by (auto simp: special_days_def bind_result_eq_Inr split: option.splits if_splits)
    have "fst ` set exs = set (keys_of ex)" by (simp add: exception_keys [OF ex, symmetric])
    with ex days keys show ?thesis by (auto simp: list_all_iff set_strings_of intro: is_date_real)
  qed
  from assms obtain days o' hs where
    parts: "zone (ca_timezone c) \<noteq> None" "length days = 7" "map_result windows days = Inr (ca_week c)"
      "special_days o' = Inr (hs, ca_exceptions c)" "ca_holidays c = uniq hs"
    and some_time: "list_ex (\<lambda>h. h \<noteq> []) (ca_week c) \<or> list_ex (\<lambda>(_, h). h \<noteq> []) (ca_exceptions c)"
    by (auto simp: validateCalendar_def bind_result_eq_Inr split: option.splits if_splits)
  from special [OF parts(4)] obtain ex where ex: "exception_windows ex = Inr (ca_exceptions c)" by blast
  have days: "real_day day" if "day \<in> set (ca_holidays c) \<union> fst ` set (ca_exceptions c)" for day
    using special [OF parts(4)] that by (auto simp: parts(5))
  have week: "windows_ok hours" if "hours \<in> set (ca_week c)" for hours
    using map_result_all [OF parts(3) that] windows_sound by blast
  have exs: "windows_ok (snd x)" if "x \<in> set (ca_exceptions c)" for x
    using map_result_all [OF ex [unfolded exception_windows_def] that] windows_sound
    by (auto simp: bind_result_eq_Inr)
  have "\<exists>hours \<in> set (ca_week c) \<union> snd ` set (ca_exceptions c). hours \<noteq> []"
    using some_time unfolding list_ex_iff by (auto intro: rev_bexI)
  then show ?thesis
    using parts(1,2,5) map_result_length [OF parts(3)] week exs days by (simp add: ball_Un)
qed

definition office_json :: js where
  "office_json = JObj [(''timezone'', JStr ''UTC''), (''holidays'', JArr [JStr ''2026-01-01'']),
     (''week'', JArr [JArr [], JArr [JArr [JInt 780, JInt 1020], JArr [JInt 540, JInt 720]], JArr [], JArr [], JArr [], JArr [], JArr []])]"

theorem validated_calendar_is_sound_witness:
  "\<exists>c. validateCalendar utc_zone office_json = Inr c \<and> ca_week c ! 1 = [(540, 720), (780, 1020)] \<and> length (ca_week c) = 7
     \<and> ca_holidays c = [''2026-01-01''] \<and> real_day ''2026-01-01''"
proof -
  let ?c = "\<lparr>ca_timezone = ''UTC'', ca_week = [[], [(540, 720), (780, 1020)], [], [], [], [], []], ca_holidays = [''2026-01-01''], ca_exceptions = []\<rparr>"
  have ws: "windows (JArr []) = Inr []" by (simp add: windows_def)
  have hours: "windows (JArr [JArr [JInt 780, JInt 1020], JArr [JInt 540, JInt 720]]) = Inr [(540, 720), (780, 1020)]"
    by (simp add: windows_def as_window_def)
  have day: "is_date (JStr ''2026-01-01'')" by code_simp
  have run: "validateCalendar utc_zone office_json = Inr ?c"
    by (simp add: validateCalendar_def office_json_def field_def keys_of_def utc_zone_def ws hours [simplified] day nullish_def special_days_def
        strings_of_def List.map_filter_simps exception_windows_def)
  show ?thesis using validated_calendar_is_sound [OF run] run by auto
qed

end
