(* ===== verification/ServiceDesk.thy ===== *)
theory ServiceDesk
  imports Issues PortalAuth SlaEngine "HOL-Library.List_Lexorder" "HOL-Library.Char_ord"
begin

text \<open>
  The tables of the service desk: request types and forms, service-level calendars and goals with their
  versions, signals, cycles and events of the timers, queues and their snapshots. Together with the
  tracker and the portal they are the state of the components above them.
\<close>

record request_type =
  rt_id :: string
  rt_projectId :: string
  rt_portalGroupId :: "string option"
  rt_issueTypeId :: string
  rt_initialStatusId :: string
  rt_name :: string
  rt_description :: "string option"
  rt_icon :: "string option"
  rt_position :: int
  rt_draftSchema :: js
  rt_draftConsentText :: "string option"
  rt_currentVersion :: nat
  rt_publishedAt :: "time option"
  rt_archivedAt :: "time option"

record sla_calendar =
  cd_id :: string
  cd_projectId :: string
  cd_name :: string
  cd_currentVersion :: int

record calendar_version =
  cv_id :: string
  cv_calendarId :: string
  cv_version :: int
  cv_config :: calendar

record sla_goal =
  gl_id :: string
  gl_projectId :: string
  gl_name :: string
  gl_metric :: string
  gl_position :: int
  gl_enabled :: bool
  gl_currentVersion :: int

record goal_version =
  gv_id :: string
  gv_goalId :: string
  gv_version :: int
  gv_calendarVersionId :: string
  gv_targetMinutes :: int
  gv_riskMinutes :: int
  gv_conditions :: "condition list"
  gv_rules :: timer_rules
  gv_publicLabel :: string
  gv_portalVisible :: bool

record sla_signal =
  sg_id :: nat
  sg_requestId :: string
  sg_eventKey :: string
  sg_happenedAt :: time
  sg_payload :: js
  sg_goalIds :: "string list"
  sg_processedAt :: "time option"

record sla_event =
  ev_cycleId :: string
  ev_key :: string
  ev_type :: string
  ev_happenedAt :: time
  ev_elapsedMs :: int

record portal_notification =
  pn_customerId :: string
  pn_requestId :: string
  pn_type :: string
  pn_message :: string

record queue_row =
  qr_id :: string
  qr_requestId :: string
  qr_version :: int
  qr_summary :: string
  qr_number :: nat
  qr_status :: string
  qr_statusId :: string
  qr_priority :: string
  qr_assignee :: string
  qr_assigneeId :: "string option"
  qr_requestType :: string
  qr_organization :: string
  qr_createdAt :: time
  qr_updatedAt :: time
  qr_slaState :: string
  qr_slaGoal :: string
  qr_slaRemaining :: string
  qr_customerResponse :: "time option"

record service_queue =
  sq_id :: string
  sq_projectId :: string
  sq_ownerId :: string
  sq_name :: string
  sq_visibility :: string
  sq_definition :: js
  sq_position :: int
  sq_isDefault :: bool
  sq_version :: int

record queue_snapshot =
  sp_id :: string
  sp_queueId :: string
  sp_queueVersion :: int
  sp_userId :: string
  sp_rows :: "queue_row list"
  sp_createdAt :: time
  sp_expiresAt :: time

record portal_comment =
  px_requestId :: string
  px_customerId :: "string option"
  px_createdAt :: time
  px_body :: string

record desk =
  de_tracker :: tracker
  de_portal :: portal_db
  de_requestTypes :: "request_type list"
  de_calendars :: "sla_calendar list"
  de_calendarVersions :: "calendar_version list"
  de_goals :: "sla_goal list"
  de_goalVersions :: "goal_version list"
  de_signals :: "sla_signal list"
  de_signalSequence :: nat
  de_cycles :: "sla_cycle list"
  de_events :: "sla_event list"
  de_portalNotifications :: "portal_notification list"
  de_portalComments :: "portal_comment list"
  de_queues :: "service_queue list"
  de_snapshots :: "queue_snapshot list"

definition find_request :: "desk \<Rightarrow> string \<Rightarrow> service_request option" where
  "find_request d i = find (\<lambda>r. sr_id r = i) (po_requests (de_portal d))"

definition request_of_issue :: "desk \<Rightarrow> string \<Rightarrow> service_request option" where
  "request_of_issue d i = find (\<lambda>r. sr_issueId r = i) (po_requests (de_portal d))"

definition update_request :: "string \<Rightarrow> (service_request \<Rightarrow> service_request) \<Rightarrow> desk \<Rightarrow> desk" where
  "update_request i f d = d\<lparr>de_portal := (de_portal d)\<lparr>po_requests := map (\<lambda>r. if sr_id r = i then f r else r) (po_requests (de_portal d))\<rparr>\<rparr>"

definition map_outbox :: "(outbox \<Rightarrow> outbox) \<Rightarrow> desk \<Rightarrow> desk" where
  "map_outbox f d = d\<lparr>de_tracker := (de_tracker d)\<lparr>tk_outbox := f (tk_outbox (de_tracker d))\<rparr>\<rparr>"

definition add_audit :: "audit_entry \<Rightarrow> desk \<Rightarrow> desk" where
  "add_audit a d = d\<lparr>de_tracker := (de_tracker d)\<lparr>tk_core := (tk_core (de_tracker d))\<lparr>db_audit := db_audit (tk_core (de_tracker d)) @ [a]\<rparr>\<rparr>\<rparr>"

text \<open>The tables that outbox rows and audit events leave alone.\<close>

named_theorems desk_simps

lemma map_outbox_tables [desk_simps]:
  "de_portal (map_outbox f d) = de_portal d" "de_cycles (map_outbox f d) = de_cycles d" "de_signals (map_outbox f d) = de_signals d"
  "de_goals (map_outbox f d) = de_goals d" "de_goalVersions (map_outbox f d) = de_goalVersions d"
  "de_calendarVersions (map_outbox f d) = de_calendarVersions d" "de_events (map_outbox f d) = de_events d"
  "de_signalSequence (map_outbox f d) = de_signalSequence d"
  by (simp_all add: map_outbox_def)

lemma add_audit_tables [desk_simps]:
  "de_portal (add_audit a d) = de_portal d" "de_cycles (add_audit a d) = de_cycles d" "de_signals (add_audit a d) = de_signals d"
  "de_goals (add_audit a d) = de_goals d" "de_goalVersions (add_audit a d) = de_goalVersions d"
  "de_calendarVersions (add_audit a d) = de_calendarVersions d" "de_events (add_audit a d) = de_events d"
  "de_signalSequence (add_audit a d) = de_signalSequence d"
  by (simp_all add: add_audit_def)

end
