(* ===== verification/ServiceForms.thy ===== *)
theory ServiceForms
  imports CustomFields
begin

text \<open>
  Request forms of the service portal (\<open>src/lib/service-requests.ts\<close>): the schema an agent designs, its
  parser, and the validation of what a customer submits. The regular expressions of the host are the
  parameter \<open>regex\<close>: \<open>None\<close> when the pattern does not compile, otherwise its test.
\<close>

datatype field_kind = Summary | Description | Priority_Field | Custom | Attachment

fun kind_name :: "field_kind \<Rightarrow> string" where
  "kind_name Summary = ''summary''"
| "kind_name Description = ''description''"
| "kind_name Priority_Field = ''priority''"
| "kind_name Custom = ''custom''"
| "kind_name Attachment = ''attachment''"

definition PORTAL_FIELD_KINDS :: "field_kind list" where
  "PORTAL_FIELD_KINDS = [Summary, Description, Priority_Field, Custom, Attachment]"

record field_validation =
  va_minLength :: "int option"
  va_maxLength :: "int option"
  va_pattern :: "string option"

record portal_field =
  pf_key :: string
  pf_kind :: field_kind
  pf_customFieldId :: "string option"
  pf_label :: string
  pf_helpText :: "string option"
  pf_required :: bool
  pf_default :: js
  pf_options :: "string list option"
  pf_validation :: "field_validation option"
  pf_visibleWhen :: "(string \<times> js) option"

type_synonym portal_schema = "portal_field list"
type_synonym regex_engine = "string \<Rightarrow> (string \<Rightarrow> bool) option"

datatype form_error =
    Schema_Not_Object | Too_Many_Fields | Field_Invalid nat | Field_Head_Invalid nat | Custom_Without_Id string
  | Options_Invalid string | Unknown_Rule string | Lengths_Invalid string | Pattern_Unsafe string | Pattern_Invalid string
  | Condition_Invalid string | Keys_Not_Unique | Condition_Unknown string | Summary_Required | Standard_Field_Twice
  | Values_Not_Object | Unpublished_Field | Field_Required string | Uploads_Invalid string | Too_Short string | Too_Long string
  | Value_Invalid string | Option_Invalid string | Consent_Required | Field_Unavailable

section \<open>Parsing a schema\<close>

text \<open>\<open>/^[a-z][a-zA-Z0-9_-]{0,63}$/\<close>\<close>

definition is_field_key :: "string \<Rightarrow> bool" where
  "is_field_key s \<longleftrightarrow> (case s of [] \<Rightarrow> False | c # cs \<Rightarrow> is_lower c \<and> length cs \<le> 63 \<and> list_all (\<lambda>x. is_alnum x \<or> x \<in> set ''_-'') cs)"

text \<open>\<open>/[()|]|\\[1-9]/\<close>\<close>

fun unsafe_pattern :: "string \<Rightarrow> bool" where
  "unsafe_pattern [] = False"
| "unsafe_pattern (c # cs) =
     (c \<in> set ''()|'' \<or> c = CHR 92 \<and> (case cs of [] \<Rightarrow> False | d # _ \<Rightarrow> is_digit d \<and> d \<noteq> CHR ''0'') \<or> unsafe_pattern cs)"

definition parse_options :: "js \<Rightarrow> string list option" where
  "parse_options v =
     (case as_array v of
        None \<Rightarrow> None
      | Some vs \<Rightarrow>
          if length vs \<le> 100 \<and> list_all (\<lambda>x. case as_string x of None \<Rightarrow> False | Some s \<Rightarrow> trim s \<noteq> [] \<and> length s \<le> 100) vs
          then Some (strings_of vs) else None)"

definition length_ok :: "int \<Rightarrow> js \<Rightarrow> bool" where
  "length_ok low v \<longleftrightarrow> v = JUndef \<or> (case as_integer v of None \<Rightarrow> False | Some n \<Rightarrow> low \<le> n \<and> n \<le> 10000)"

definition parse_validation :: "regex_engine \<Rightarrow> string \<Rightarrow> js \<Rightarrow> (form_error, field_validation option) result" where
  "parse_validation regex key v =
     (case as_object v of
        None \<Rightarrow> Inr None
      | Some o' \<Rightarrow>
          (let lo = field ''minLength'' o'; hi = field ''maxLength'' o'; pat = field ''pattern'' o' in
           if list_ex (\<lambda>k. k \<notin> {''minLength'', ''maxLength'', ''pattern''}) (keys_of o') then Inl (Unknown_Rule key)
           else if \<not> length_ok 0 lo \<or> \<not> length_ok 1 hi
             \<or> (case (as_integer lo, as_integer hi) of (Some a, Some b) \<Rightarrow> b < a | _ \<Rightarrow> False) then Inl (Lengths_Invalid key)
           else if pat \<noteq> JUndef \<and> (case as_string pat of None \<Rightarrow> True | Some s \<Rightarrow> 200 < length s \<or> unsafe_pattern s) then Inl (Pattern_Unsafe key)
           else if (case as_string pat of None \<Rightarrow> False | Some s \<Rightarrow> regex s = None) then Inl (Pattern_Invalid key)
           else Inr (Some \<lparr>va_minLength = as_integer lo, va_maxLength = as_integer hi, va_pattern = as_string pat\<rparr>)))"

definition is_scalar :: "js \<Rightarrow> bool" where
  "is_scalar v = (case v of JStr _ \<Rightarrow> True | JBool _ \<Rightarrow> True | JNum _ \<Rightarrow> True | _ \<Rightarrow> False)"

definition parse_condition :: "string \<Rightarrow> js \<Rightarrow> (form_error, (string \<times> js) option) result" where
  "parse_condition key v =
     (case as_object v of
        None \<Rightarrow> Inr None
      | Some c \<Rightarrow>
          (case as_string (field ''fieldKey'' c) of
             None \<Rightarrow> Inl (Condition_Invalid key)
           | Some k \<Rightarrow> if is_scalar (field ''equals'' c) then Inr (Some (k, field ''equals'' c)) else Inl (Condition_Invalid key)))"

definition parseField :: "regex_engine \<Rightarrow> nat \<times> js \<Rightarrow> (form_error, portal_field) result" where
  "parseField regex = (\<lambda>(position, value).
     (case as_object value of
        None \<Rightarrow> Inl (Field_Invalid (position + 1))
      | Some input \<Rightarrow>
          (let key = trim (string_or_empty (field ''key'' input));
               label = trim (string_or_empty (field ''label'' input))
           in case find (\<lambda>k. field ''kind'' input = JStr (kind_name k)) PORTAL_FIELD_KINDS of
                None \<Rightarrow> Inl (Field_Head_Invalid (position + 1))
              | Some kind \<Rightarrow>
                  if \<not> is_field_key key \<or> label = [] \<or> 100 < length label then Inl (Field_Head_Invalid (position + 1))
                  else
                   (let cid = (if kind = Custom then as_string (field ''customFieldId'' input) else None);
                        options = parse_options (field ''options'' input)
                    in if kind = Custom \<and> (cid = None \<or> cid = Some []) then Inl (Custom_Without_Id key)
                       else if field ''options'' input \<noteq> JUndef \<and> (case options of None \<Rightarrow> True | Some os \<Rightarrow> \<not> distinct os) then Inl (Options_Invalid key)
                       else bind_result (parse_validation regex key (field ''validation'' input)) (\<lambda>validation.
                            bind_result (parse_condition key (field ''visibleWhen'' input)) (\<lambda>condition.
                              Inr \<lparr>pf_key = key, pf_kind = kind, pf_customFieldId = cid, pf_label = label,
                                   pf_helpText = map_option (\<lambda>s. take 500 (trim s)) (as_string (field ''helpText'' input)),
                                   pf_required = (field ''required'' input = JBool True), pf_default = field ''defaultValue'' input,
                                   pf_options = options, pf_validation = validation, pf_visibleWhen = condition\<rparr>))))))"

definition schema_checks :: "bool \<Rightarrow> portal_schema \<Rightarrow> (form_error, portal_schema) result" where
  "schema_checks allowIncomplete parsed =
     (let keys = map pf_key parsed; number = (\<lambda>k. count_rows (\<lambda>f. pf_kind f = k) parsed) in
      if \<not> distinct keys then Inl Keys_Not_Unique
      else (case find (\<lambda>f. case pf_visibleWhen f of None \<Rightarrow> False | Some (k, _) \<Rightarrow> k \<notin> set keys) parsed of
          Some f \<Rightarrow> Inl (Condition_Unknown (pf_key f))
        | None \<Rightarrow>
            if \<not> allowIncomplete \<and> number Summary = 0 then Inl Summary_Required
            else if 1 < number Summary \<or> 1 < number Description \<or> 1 < number Priority_Field then Inl Standard_Field_Twice
            else Inr parsed))"

definition parsePortalSchema :: "regex_engine \<Rightarrow> bool \<Rightarrow> js \<Rightarrow> (form_error, portal_schema) result" where
  "parsePortalSchema regex allowIncomplete value =
     (case as_object value of
        None \<Rightarrow> Inl Schema_Not_Object
      | Some o' \<Rightarrow>
          (case as_array (field ''fields'' o') of
             None \<Rightarrow> Inl Too_Many_Fields
           | Some vs \<Rightarrow>
               if 50 < length vs then Inl Too_Many_Fields
               else bind_result (map_result (parseField regex) (zip [0..<length vs] vs)) (schema_checks allowIncomplete)))"

section \<open>Validating a submission\<close>

definition field_visible :: "jobj \<Rightarrow> portal_field \<Rightarrow> bool" where
  "field_visible supplied f =
     (case pf_visibleWhen f of None \<Rightarrow> True | Some (k, v) \<Rightarrow> strict_eq (field k supplied) v)"

definition submitted :: "jobj \<Rightarrow> portal_field \<Rightarrow> js" where
  "submitted supplied f = nullish (field (pf_key f) supplied) (pf_default f)"

text \<open>The rules for a value that is text.\<close>

definition text_rules :: "regex_engine \<Rightarrow> portal_field \<Rightarrow> string \<Rightarrow> (form_error, unit) result" where
  "text_rules regex f s =
     (case pf_validation f of
        None \<Rightarrow> Inr ()
      | Some va \<Rightarrow>
          if (case va_minLength va of Some n \<Rightarrow> int (length s) < n | None \<Rightarrow> False) then Inl (Too_Short (pf_label f))
          else if (case va_maxLength va of Some n \<Rightarrow> n < int (length s) | None \<Rightarrow> False) then Inl (Too_Long (pf_label f))
          else if (case va_pattern va of
                     None \<Rightarrow> False
                   | Some p \<Rightarrow> p \<noteq> [] \<and> (case regex p of Some test \<Rightarrow> \<not> test s | None \<Rightarrow> True)) then Inl (Value_Invalid (pf_label f))
          else Inr ())"

definition submit_field :: "regex_engine \<Rightarrow> jobj \<Rightarrow> portal_field \<Rightarrow> (string \<times> js) list \<Rightarrow> (form_error, (string \<times> js) list) result" where
  "submit_field regex supplied f acc =
     (let v = submitted supplied f; store = Inr (acc @ [(pf_key f, v)]) in
      if \<not> field_visible supplied f then Inr acc
      else if is_blank v then (if pf_required f then Inl (Field_Required (pf_label f)) else Inr acc)
      else if pf_kind f = Attachment then
        (case as_array v of
           Some vs \<Rightarrow> if length vs \<le> 10 \<and> all_strings vs then store else Inl (Uploads_Invalid (pf_label f))
         | None \<Rightarrow> Inl (Uploads_Invalid (pf_label f)))
      else bind_result (case as_string v of Some s \<Rightarrow> text_rules regex f s | None \<Rightarrow> Inr ()) (\<lambda>_.
             if (case pf_options f of
                   None \<Rightarrow> False
                 | Some os \<Rightarrow> (case as_string v of Some s \<Rightarrow> s \<notin> set os | None \<Rightarrow> True)) then Inl (Option_Invalid (pf_label f))
             else store))"

definition validatePortalSubmission :: "regex_engine \<Rightarrow> js \<Rightarrow> js \<Rightarrow> string option \<Rightarrow> (form_error, portal_schema \<times> (string \<times> js) list) result" where
  "validatePortalSubmission regex schemaValue valuesValue consentText =
     (let consent = (case consentText of None \<Rightarrow> False | Some c \<Rightarrow> c \<noteq> []) in
      bind_result (parsePortalSchema regex False schemaValue) (\<lambda>schema.
        case as_object valuesValue of
          None \<Rightarrow> Inl Values_Not_Object
        | Some supplied \<Rightarrow>
            if list_ex (\<lambda>k. k \<notin> set (map pf_key schema) \<and> \<not> (consent \<and> k = ''consent'')) (keys_of supplied) then Inl Unpublished_Field
            else bind_result (fold_result (submit_field regex supplied) schema []) (\<lambda>normalized.
                   if consent \<and> field ''consent'' supplied \<noteq> JBool True then Inl Consent_Required
                   else Inr (schema, normalized))))"

definition assertPortalSchemaReferences :: "regex_engine \<Rightarrow> field_db \<Rightarrow> string \<Rightarrow> string \<Rightarrow> js \<Rightarrow> (form_error, portal_schema) result" where
  "assertPortalSchemaReferences regex db wid pid schemaValue =
     bind_result (parsePortalSchema regex True schemaValue) (\<lambda>schema.
       (let ids = List.map_filter pf_customFieldId schema;
            available = map (\<lambda>(c, f). cf_id f) (filter (\<lambda>(c, f). cf_archivedAt f = None) (configurations db wid pid))
        in if list_ex (\<lambda>i. i \<notin> set available) ids then Inl Field_Unavailable else Inr schema))"

section \<open>What an accepted submission holds\<close>

text \<open>The rules of a schema for one value, as a predicate.\<close>

definition text_ok :: "regex_engine \<Rightarrow> field_validation \<Rightarrow> string \<Rightarrow> bool" where
  "text_ok regex va s \<longleftrightarrow>
     (case va_minLength va of None \<Rightarrow> True | Some n \<Rightarrow> n \<le> int (length s))
     \<and> (case va_maxLength va of None \<Rightarrow> True | Some n \<Rightarrow> int (length s) \<le> n)
     \<and> (case va_pattern va of None \<Rightarrow> True | Some p \<Rightarrow> p = [] \<or> (\<exists>test. regex p = Some test \<and> test s))"

definition value_ok :: "regex_engine \<Rightarrow> portal_field \<Rightarrow> js \<Rightarrow> bool" where
  "value_ok regex f v \<longleftrightarrow>
     (if pf_kind f = Attachment then \<exists>ss. v = JArr (map JStr ss) \<and> length ss \<le> 10
      else (\<forall>s. v = JStr s \<longrightarrow> (case pf_validation f of None \<Rightarrow> True | Some va \<Rightarrow> text_ok regex va s))
        \<and> (case pf_options f of None \<Rightarrow> True | Some os \<Rightarrow> v \<in> JStr ` set os))"

definition submission_ok :: "regex_engine \<Rightarrow> jobj \<Rightarrow> portal_field \<Rightarrow> bool" where
  "submission_ok regex supplied f \<longleftrightarrow>
     \<not> field_visible supplied f
     \<or> (if is_blank (submitted supplied f) then \<not> pf_required f else value_ok regex f (submitted supplied f))"

definition stored_values :: "jobj \<Rightarrow> portal_schema \<Rightarrow> (string \<times> js) list" where
  "stored_values supplied schema =
     map (\<lambda>f. (pf_key f, submitted supplied f)) (filter (\<lambda>f. field_visible supplied f \<and> \<not> is_blank (submitted supplied f)) schema)"

lemma text_rules_iff: "text_rules regex f s = Inr u \<longleftrightarrow> (case pf_validation f of None \<Rightarrow> True | Some va \<Rightarrow> text_ok regex va s)"
  by (auto simp: text_rules_def text_ok_def split: option.splits)

lemma attachment_ok:
  "(case as_array v of Some vs \<Rightarrow> if length vs \<le> 10 \<and> all_strings vs then Inr x else Inl e | None \<Rightarrow> Inl e) = Inr y
     \<longleftrightarrow> (\<exists>ss. v = JArr (map JStr ss) \<and> length ss \<le> 10) \<and> y = x"
  by (cases v) (auto simp: all_strings_iff)

lemma options_ok:
  "(case pf_options f of None \<Rightarrow> False | Some os \<Rightarrow> (case as_string v of Some s \<Rightarrow> s \<notin> set os | None \<Rightarrow> True))
     \<longleftrightarrow> \<not> (case pf_options f of None \<Rightarrow> True | Some os \<Rightarrow> v \<in> JStr ` set os)"
  by (cases v) (auto split: option.splits)

lemma text_stage:
  "(case as_string v of Some s \<Rightarrow> text_rules regex f s | None \<Rightarrow> Inr ()) = Inr u
     \<longleftrightarrow> (\<forall>s. v = JStr s \<longrightarrow> (case pf_validation f of None \<Rightarrow> True | Some va \<Rightarrow> text_ok regex va s))"
  by (cases v) (simp_all add: text_rules_iff)

lemma submit_field_iff:
  "submit_field regex supplied f acc = Inr out \<longleftrightarrow>
     submission_ok regex supplied f \<and> out = acc @ stored_values supplied [f]"
proof (cases "field_visible supplied f \<and> \<not> is_blank (submitted supplied f)")
  case True
  then show ?thesis
    by (cases "pf_kind f = Attachment")
      (auto simp: submit_field_def Let_def submission_ok_def stored_values_def value_ok_def attachment_ok options_ok
        bind_result_eq_Inr text_stage)
next
  case False
  then show ?thesis
    by (auto simp: submit_field_def Let_def submission_ok_def stored_values_def)
qed

lemma stored_values_Cons: "stored_values supplied (f # fs) = stored_values supplied [f] @ stored_values supplied fs"
  by (simp add: stored_values_def)

lemma submit_fields_iff:
  "fold_result (submit_field regex supplied) fs acc = Inr out \<longleftrightarrow>
     list_all (submission_ok regex supplied) fs \<and> out = acc @ stored_values supplied fs"
proof (induction fs arbitrary: acc)
  case (Cons f fs)
  then show ?case
    by (auto simp: bind_result_eq_Inr submit_field_iff stored_values_Cons [of supplied f fs])
qed (auto simp: stored_values_def)

text \<open>
  A submission is accepted exactly when the schema parses, it mentions only published fields (and the
  consent), every visible field is present when required and holds a value its rules allow, and the
  consent asked for was given; what is stored are exactly the visible, non-empty fields.
\<close>

theorem submission_accepted_exactly:
  "validatePortalSubmission regex schemaValue valuesValue consentText = Inr (schema, vals) \<longleftrightarrow>
     parsePortalSchema regex False schemaValue = Inr schema
     \<and> (\<exists>supplied. valuesValue = JObj supplied
        \<and> (\<forall>k\<in>set (keys_of supplied). k \<in> set (map pf_key schema) \<or> k = ''consent'' \<and> consentText \<notin> {None, Some []})
        \<and> list_all (submission_ok regex supplied) schema
        \<and> (consentText \<in> {None, Some []} \<or> field ''consent'' supplied = JBool True)
        \<and> vals = stored_values supplied schema)"
proof -
  have c: "(case consentText of None \<Rightarrow> False | Some c \<Rightarrow> c \<noteq> []) \<longleftrightarrow> consentText \<notin> {None, Some []}"
    by (cases consentText) auto
  show ?thesis
    by (cases valuesValue)
      (auto simp: validatePortalSubmission_def Let_def bind_result_eq_Inr submit_fields_iff c list_ex_iff split: if_splits)
qed

definition form_json :: js where
  "form_json = JObj [(''fields'', JArr [
     JObj [(''key'', JStr ''what''), (''kind'', JStr ''summary''), (''label'', JStr ''What''), (''required'', JBool True)],
     JObj [(''key'', JStr ''size''), (''kind'', JStr ''description''), (''label'', JStr ''Size''),
           (''options'', JArr [JStr ''S'', JStr ''L'']), (''defaultValue'', JStr ''L'')],
     JObj [(''key'', JStr ''why''), (''kind'', JStr ''priority''), (''label'', JStr ''Why''), (''required'', JBool True),
           (''visibleWhen'', JObj [(''fieldKey'', JStr ''size''), (''equals'', JStr ''L'')])]])]"

definition no_regex :: regex_engine where "no_regex p = None"

definition form_field :: "string \<Rightarrow> field_kind \<Rightarrow> string \<Rightarrow> portal_field" where
  "form_field key kind label = \<lparr>pf_key = key, pf_kind = kind, pf_customFieldId = None, pf_label = label, pf_helpText = None,
     pf_required = False, pf_default = JUndef, pf_options = None, pf_validation = None, pf_visibleWhen = None\<rparr>"

definition form_schema :: portal_schema where
  "form_schema = [(form_field ''what'' Summary ''What'')\<lparr>pf_required := True\<rparr>,
     (form_field ''size'' Description ''Size'')\<lparr>pf_options := Some [''S'', ''L''], pf_default := JStr ''L''\<rparr>,
     (form_field ''why'' Priority_Field ''Why'')\<lparr>pf_required := True, pf_visibleWhen := Some (''size'', JStr ''L'')\<rparr>]"

lemma form_parses: "parsePortalSchema no_regex False form_json = Inr form_schema"
  by code_simp

lemma submission_accepted_exactly_witness:
  "parsePortalSchema no_regex False form_json = Inr form_schema
   \<and> stored_values [(''what'', JStr ''ink'')] form_schema = [(''what'', JStr ''ink''), (''size'', JStr ''L'')]"
proof -
  have "validatePortalSubmission no_regex form_json (JObj [(''what'', JStr ''ink'')]) None
      = Inr (form_schema, [(''what'', JStr ''ink''), (''size'', JStr ''L'')])"
    by code_simp
  then show ?thesis
    using submission_accepted_exactly [of no_regex form_json "JObj [(''what'', JStr ''ink'')]" None form_schema] by auto
qed

text \<open>
  A condition looks at the raw submission: when the controlling field is left to its default, the field
  that depends on it is dropped, even if it is required and the default equals the condition.
\<close>

theorem condition_ignores_defaults:
  assumes "validatePortalSubmission regex schemaValue (JObj supplied) consentText = Inr (schema, vals)"
    and "f \<in> set schema" and "pf_visibleWhen f = Some (k, pf_default g)" and "g \<in> set schema" and "pf_key g = k"
    and "\<not> is_blank (pf_default g)" and "field k supplied = JUndef" and "pf_visibleWhen g = None"
  shows "(k, pf_default g) \<in> set vals \<and> pf_key f \<notin> fst ` set vals"
proof (rule conjI)
  have vals: "vals = stored_values supplied schema" and parsed: "parsePortalSchema regex False schemaValue = Inr schema"
    using assms(1) by (auto simp: validatePortalSubmission_def Let_def bind_result_eq_Inr submit_fields_iff split: if_splits option.splits)
  have keys: "distinct (map pf_key schema)"
    using parsed by (auto simp: parsePortalSchema_def schema_checks_def Let_def bind_result_eq_Inr split: option.splits if_splits)
  have hidden: "\<not> field_visible supplied f"
    using assms(3,6,7) by (auto simp: field_visible_def is_blank_def elim: strict_eq.elims)
  have "f' = f" if "f' \<in> set schema" "pf_key f' = pf_key f" for f'
    using unique_key [OF keys that(1) assms(2) that(2)] .
  with hidden show "pf_key f \<notin> fst ` set vals"
    by (auto simp: vals stored_values_def)
  have "submitted supplied g = pf_default g" and "field_visible supplied g"
    using assms(5,7,8) by (simp_all add: submitted_def nullish_def field_visible_def)
  then show "(k, pf_default g) \<in> set vals"
    using assms(4,5,6) by (force simp: vals stored_values_def)
qed

lemma condition_ignores_defaults_witness:
  "validatePortalSubmission no_regex form_json (JObj [(''what'', JStr ''ink'')]) None
      = Inr (form_schema, [(''what'', JStr ''ink''), (''size'', JStr ''L'')])
   \<and> ''why'' \<notin> fst ` set [(''what'', JStr ''ink''), (''size'', JStr ''L'')]"
proof -
  have run: "validatePortalSubmission no_regex form_json (JObj [(''what'', JStr ''ink'')]) None
      = Inr (form_schema, [(''what'', JStr ''ink''), (''size'', JStr ''L'')])"
    by code_simp
  show ?thesis
    using condition_ignores_defaults [OF run, of "form_schema ! 2" "''size''" "form_schema ! 1"] run
    by (simp add: form_schema_def form_field_def is_blank_def field_def)
qed

end
