(* ===== verification/Intake.thy ===== *)
theory Intake
  imports ServiceDesk ServiceForms "HOL-Library.AList"
begin

text \<open>
  Request types and the intake of requests: the routes under \<open>api/projects/[key]/request-types\<close> and
  \<open>api/projects/[key]/portal-groups\<close>, and the published forms under \<open>api/service/forms/[id]\<close> with their uploads and
  submissions. An agent edits a draft and publishes it as an immutable version; agents and customers
  submit the latest version, which creates an issue and a request in one transaction. Every handler
  that reads before its transaction is a check and a commit. A refusal is the HTTP status.
\<close>

section \<open>Tables\<close>

record portal_group =
  pg_id :: string
  pg_projectId :: string
  pg_name :: string
  pg_description :: "string option"
  pg_position :: int
  pg_archivedAt :: "time option"

record form_version =
  fv_id :: string
  fv_requestTypeId :: string
  fv_version :: nat
  fv_name :: string
  fv_description :: "string option"
  fv_icon :: "string option"
  fv_schema :: js
  fv_consentText :: "string option"
  fv_publishedById :: string

record upload =
  up_id :: string
  up_workspaceId :: string
  up_projectId :: string
  up_requestTypeId :: string
  up_uploadedById :: string
  up_fileName :: string
  up_objectKey :: string
  up_contentType :: string
  up_size :: nat
  up_expiresAt :: time
  up_usedAt :: "time option"

text \<open>The attachments that customers see.\<close>

record portal_attachment =
  pa_issueId :: string
  pa_fileName :: string
  pa_objectKey :: string
  pa_contentType :: string
  pa_size :: nat

record intake =
  ik_desk :: desk
  ik_groups :: "portal_group list"
  ik_versions :: "form_version list"
  ik_uploads :: "upload list"
  ik_attachments :: "portal_attachment list"

abbreviation "ik_tracker s \<equiv> de_tracker (ik_desk s)"
abbreviation "ik_core s \<equiv> tk_core (ik_tracker s)"
abbreviation "ik_portal s \<equiv> de_portal (ik_desk s)"
abbreviation "ik_types s \<equiv> de_requestTypes (ik_desk s)"

definition set_core :: "(workspace_db \<Rightarrow> workspace_db) \<Rightarrow> intake \<Rightarrow> intake" where
  "set_core f s = s\<lparr>ik_desk := (ik_desk s)\<lparr>de_tracker := (ik_tracker s)\<lparr>tk_core := f (ik_core s)\<rparr>\<rparr>\<rparr>"

definition set_types :: "(request_type list \<Rightarrow> request_type list) \<Rightarrow> intake \<Rightarrow> intake" where
  "set_types f s = s\<lparr>ik_desk := (ik_desk s)\<lparr>de_requestTypes := f (ik_types s)\<rparr>\<rparr>"

definition type_audit :: "auth_context \<Rightarrow> string \<Rightarrow> string \<Rightarrow> jobj \<Rightarrow> intake \<Rightarrow> intake" where
  "type_audit cx action i metadata =
     set_core (\<lambda>core. core\<lparr>db_audit := db_audit core @ [\<lparr>au_workspaceId = cx_workspaceId cx, au_actorId = Some (cx_userId cx),
       au_action = action, au_targetType = ''serviceRequestType'', au_targetId = i, au_metadata = JObj metadata\<rparr>]\<rparr>)"

text \<open>Every throw inside a transaction is answered with one status.\<close>

definition caught :: "nat \<Rightarrow> ('e, 'a) result \<Rightarrow> (nat, 'a) result" where
  "caught status r = (case r of Inl _ \<Rightarrow> Inl status | Inr x \<Rightarrow> Inr x)"

lemma caught_ok [handler_simps, simp]: "caught n r = Inr x \<longleftrightarrow> r = Inr x"
  by (simp add: caught_def split: sum.splits)

text \<open>A \<open>number\<close> for a column of type \<open>Int\<close>: anything else than a 32-bit integer is refused by the database.\<close>

definition int_column :: "js \<Rightarrow> int option" where
  "int_column v =
     (case v of
        JNum n \<Rightarrow> (case as_integer v of None \<Rightarrow> None | Some i \<Rightarrow> if - (2 ^ 31) \<le> i \<and> i < 2 ^ 31 then Some i else None)
      | _ \<Rightarrow> Some 0)"

definition integer_edit :: "js \<Rightarrow> int \<Rightarrow> int option" where
  "integer_edit v old = (case as_integer v of None \<Rightarrow> Some old | Some i \<Rightarrow> if - (2 ^ 31) \<le> i \<and> i < 2 ^ 31 then Some i else None)"

definition form_admin :: "auth_context option \<Rightarrow> string \<Rightarrow> intake \<Rightarrow> (nat, auth_context \<times> project) result" where
  "form_admin context key s =
     (case context of
        None \<Rightarrow> Inl 401
      | Some cx \<Rightarrow>
          (case find (\<lambda>p. p_workspaceId p = cx_workspaceId cx \<and> p_key p = to_upper key \<and> p_template p = Service \<and> p_archivedAt p = None)
                  (db_projects (ik_core s)) of
             None \<Rightarrow> Inl 404
           | Some p \<Rightarrow> if \<not> requireProjectPermission (ik_core s) cx (p_id p) Project_Admin then Inl 404 else Inr (cx, p)))"

section \<open>Portal groups\<close>

definition portal_groups_GET :: "auth_context option \<Rightarrow> string \<Rightarrow> intake \<Rightarrow> (nat, portal_group list) result" where
  "portal_groups_GET context key s =
     bind_result (form_admin context key s) (\<lambda>(cx, p).
       Inr (sort_key pg_position (filter (\<lambda>g. pg_projectId g = p_id p) (ik_groups s))))"

definition group_named :: "intake \<Rightarrow> string \<Rightarrow> string \<Rightarrow> string \<Rightarrow> bool" where
  "group_named s i pid name \<longleftrightarrow> list_ex (\<lambda>g. pg_id g \<noteq> i \<and> pg_projectId g = pid \<and> pg_name g = name) (ik_groups s)"

definition portal_groups_POST :: "string \<Rightarrow> auth_context option \<Rightarrow> string \<Rightarrow> jobj \<Rightarrow> intake \<Rightarrow> (nat, intake) result" where
  "portal_groups_POST i context key body s =
     bind_result (form_admin context key s) (\<lambda>(cx, p).
       (let name = trim (string_or_empty (field ''name'' body)) in
        if name = [] \<or> 100 < length name then Inl 400
        else case int_column (field ''position'' body) of
            None \<Rightarrow> Inl 409
          | Some position \<Rightarrow>
              if group_named s i (p_id p) name \<or> i \<in> pg_id ` set (ik_groups s) then Inl 409
              else Inr (s\<lparr>ik_groups := ik_groups s @ [\<lparr>pg_id = i, pg_projectId = p_id p, pg_name = name,
                     pg_description = map_option trim (as_string (field ''description'' body)), pg_position = position, pg_archivedAt = None\<rparr>]\<rparr>)))"

text \<open>\<open>archived === true ? now : archived === false ? null\<close>, otherwise as before.\<close>

definition archive_flag :: "time \<Rightarrow> jobj \<Rightarrow> time option \<Rightarrow> time option" where
  "archive_flag now body old = (if field ''archived'' body = JBool True then Some now else if field ''archived'' body = JBool False then None else old)"

text \<open>\<open>value === null || typeof value === "string"\<close>: trimmed text or null, otherwise as before.\<close>

definition text_or_null :: "js \<Rightarrow> string option \<Rightarrow> string option" where
  "text_or_null v old = (case v of JStr x \<Rightarrow> Some (trim x) | JNull \<Rightarrow> None | _ \<Rightarrow> old)"

definition valid_rename :: "jobj \<Rightarrow> bool" where
  "valid_rename body \<longleftrightarrow> (case field ''name'' body of JUndef \<Rightarrow> True | JStr x \<Rightarrow> trim x \<noteq> [] \<and> length (trim x) \<le> 100 | _ \<Rightarrow> False)"

definition renamed :: "jobj \<Rightarrow> string \<Rightarrow> string" where
  "renamed body old = (case field ''name'' body of JStr x \<Rightarrow> trim x | _ \<Rightarrow> old)"

definition portal_group_PATCH :: "time \<Rightarrow> auth_context option \<Rightarrow> string \<Rightarrow> string \<Rightarrow> jobj option \<Rightarrow> intake \<Rightarrow> (nat, intake) result" where
  "portal_group_PATCH now context key i body s =
     (case context of
        None \<Rightarrow> Inl 401
      | Some cx \<Rightarrow>
          (case find (\<lambda>g. pg_id g = i \<and> list_ex (\<lambda>p. p_id p = pg_projectId g \<and> p_workspaceId p = cx_workspaceId cx \<and> p_key p = to_upper key
                  \<and> p_template p = Service \<and> p_archivedAt p = None) (db_projects (ik_core s))) (ik_groups s) of
             None \<Rightarrow> Inl 404
           | Some g \<Rightarrow>
               if \<not> requireProjectPermission (ik_core s) cx (pg_projectId g) Project_Admin then Inl 404
               else (case body of
                  None \<Rightarrow> Inl 400
                | Some b \<Rightarrow>
                    if \<not> valid_rename b then Inl 400
                    else case integer_edit (field ''position'' b) (pg_position g) of
                        None \<Rightarrow> Inl 409
                      | Some position \<Rightarrow>
                          if group_named s i (pg_projectId g) (renamed b (pg_name g)) then Inl 409
                          else Inr (s\<lparr>ik_groups := map (\<lambda>x. if pg_id x = i then x\<lparr>pg_name := renamed b (pg_name x),
                                   pg_description := text_or_null (field ''description'' b) (pg_description x), pg_position := position,
                                   pg_archivedAt := archive_flag now b (pg_archivedAt x)\<rparr> else x) (ik_groups s)\<rparr>))))"

section \<open>Request types\<close>

text \<open>
  A parsed schema as the database stores it: a property that is \<open>undefined\<close> is left out of the JSON.
\<close>

definition defined :: "jobj \<Rightarrow> jobj" where
  "defined fs = filter (\<lambda>(k, v). v \<noteq> JUndef) fs"

definition or_undefined :: "('a \<Rightarrow> js) \<Rightarrow> 'a option \<Rightarrow> js" where
  "or_undefined f v = (case v of None \<Rightarrow> JUndef | Some x \<Rightarrow> f x)"

definition validation_json :: "field_validation \<Rightarrow> js" where
  "validation_json v = JObj (defined [(''minLength'', or_undefined JInt (va_minLength v)), (''maxLength'', or_undefined JInt (va_maxLength v)),
     (''pattern'', or_undefined JStr (va_pattern v))])"

definition field_json :: "portal_field \<Rightarrow> js" where
  "field_json f = JObj (defined [(''key'', JStr (pf_key f)), (''kind'', JStr (kind_name (pf_kind f))),
     (''customFieldId'', or_undefined JStr (pf_customFieldId f)), (''label'', JStr (pf_label f)), (''helpText'', or_undefined JStr (pf_helpText f)),
     (''required'', JBool (pf_required f)), (''defaultValue'', pf_default f), (''options'', or_undefined (\<lambda>os. JArr (map JStr os)) (pf_options f)),
     (''validation'', or_undefined validation_json (pf_validation f)),
     (''visibleWhen'', or_undefined (\<lambda>(k, v). JObj [(''fieldKey'', JStr k), (''equals'', v)]) (pf_visibleWhen f))])"

definition schema_json :: "portal_schema \<Rightarrow> js" where
  "schema_json fs = JObj [(''fields'', JArr (map field_json fs))]"

definition own_type_and_status :: "workspace_db \<Rightarrow> string \<Rightarrow> string \<Rightarrow> string \<Rightarrow> bool" where
  "own_type_and_status core pid t st \<longleftrightarrow> list_ex (\<lambda>x. it_projectId x = pid \<and> it_id x = t) (db_issueTypes core)
     \<and> list_ex (\<lambda>x. st_projectId x = pid \<and> st_id x = st) (db_statuses core)"

definition type_named :: "intake \<Rightarrow> string \<Rightarrow> string \<Rightarrow> string \<Rightarrow> bool" where
  "type_named s i pid name \<longleftrightarrow> list_ex (\<lambda>t. rt_id t \<noteq> i \<and> rt_projectId t = pid \<and> rt_name t = name) (ik_types s)"

definition group_ok :: "intake \<Rightarrow> string \<Rightarrow> bool \<Rightarrow> string option \<Rightarrow> bool" where
  "group_ok s pid archived g \<longleftrightarrow> (case g of None \<Rightarrow> True
     | Some i \<Rightarrow> list_ex (\<lambda>x. pg_id x = i \<and> pg_projectId x = pid \<and> (archived \<or> pg_archivedAt x = None)) (ik_groups s))"

definition request_types_POST :: "regex_engine \<Rightarrow> string \<Rightarrow> auth_context option \<Rightarrow> string \<Rightarrow> jobj \<Rightarrow> intake \<Rightarrow> (nat, intake) result" where
  "request_types_POST regex new context key body s =
     bind_result (form_admin context key s) (\<lambda>(cx, p).
       (let core = ik_core s; name = trim (string_or_empty (field ''name'' body));
            chosen_type = (case as_string (field ''issueTypeId'' body) of Some t \<Rightarrow> Some t
              | None \<Rightarrow> map_option it_id (find (\<lambda>x. it_projectId x = p_id p) (db_issueTypes core)));
            chosen_status = (case as_string (field ''initialStatusId'' body) of Some t \<Rightarrow> Some t
              | None \<Rightarrow> map_option st_id (first_by st_position (\<lambda>x. st_projectId x = p_id p) (db_statuses core)));
            group_id = as_string (field ''portalGroupId'' body) in
        if name = [] \<or> 100 < length name then Inl 400
        else case chosen_type of None \<Rightarrow> Inl 400 | Some t \<Rightarrow>
             case chosen_status of None \<Rightarrow> Inl 400 | Some st \<Rightarrow>
             if \<not> own_type_and_status core (p_id p) t st then Inl 400
             else case assertPortalSchemaReferences regex (field_db_of (ik_tracker s)) (cx_workspaceId cx) (p_id p)
                         (nullish (field ''schema'' body) (JObj [(''fields'', JArr [])])) of
                 Inl _ \<Rightarrow> Inl 400
               | Inr schema \<Rightarrow>
                   if \<not> group_ok s (p_id p) False group_id then Inl 400
                   else (case int_column (field ''position'' body) of None \<Rightarrow> Inl 400 | Some position \<Rightarrow>
                     if type_named s new (p_id p) name \<or> new \<in> rt_id ` set (ik_types s) then Inl 400
                     else Inr (type_audit cx ''service.request_type.created'' new [(''projectId'', JStr (p_id p))]
                       (set_types (\<lambda>ts. ts @ [\<lparr>rt_id = new, rt_projectId = p_id p, rt_portalGroupId = group_id, rt_issueTypeId = t,
                          rt_initialStatusId = st, rt_name = name, rt_description = map_option trim (as_string (field ''description'' body)),
                          rt_icon = map_option (take 50) (as_string (field ''icon'' body)), rt_position = position, rt_draftSchema = schema_json schema,
                          rt_draftConsentText = map_option trim (as_string (field ''consentText'' body)), rt_currentVersion = 0,
                          rt_publishedAt = None, rt_archivedAt = None\<rparr>]) s)))))"

text \<open>The request type a project administrator names, as read before the transaction.\<close>

definition type_check :: "bool \<Rightarrow> auth_context option \<Rightarrow> string \<Rightarrow> string \<Rightarrow> intake \<Rightarrow> (nat, auth_context \<times> request_type) result" where
  "type_check archived context key i s =
     (case context of
        None \<Rightarrow> Inl 401
      | Some cx \<Rightarrow>
          (case find (\<lambda>t. rt_id t = i \<and> (archived \<or> rt_archivedAt t = None) \<and> list_ex (\<lambda>p. p_id p = rt_projectId t
                  \<and> p_workspaceId p = cx_workspaceId cx \<and> p_key p = to_upper key \<and> p_template p = Service) (db_projects (ik_core s))) (ik_types s) of
             None \<Rightarrow> Inl 404
           | Some t \<Rightarrow> if \<not> requireProjectPermission (ik_core s) cx (rt_projectId t) Project_Admin then Inl 404 else Inr (cx, t)))"

definition request_types_GET :: "auth_context option \<Rightarrow> string \<Rightarrow> intake \<Rightarrow> (nat, request_type list) result" where
  "request_types_GET context key s =
     (case context of
        None \<Rightarrow> Inl 401
      | Some cx \<Rightarrow>
          (case find (\<lambda>p. accessibleProjectWhere (ik_core s) cx p \<and> p_key p = to_upper key \<and> p_template p = Service) (db_projects (ik_core s)) of
             None \<Rightarrow> Inl 404
           | Some p \<Rightarrow> if \<not> requireProjectPermission (ik_core s) cx (p_id p) Project_Admin then Inl 404
               else Inr (sort_key rt_position (filter (\<lambda>t. rt_projectId t = p_id p) (ik_types s)))))"

definition preview_GET :: "regex_engine \<Rightarrow> auth_context option \<Rightarrow> string \<Rightarrow> string \<Rightarrow> intake \<Rightarrow> (nat, portal_schema) result" where
  "preview_GET regex context key i s =
     bind_result (type_check True context key i s) (\<lambda>(cx, t). caught 400 (parsePortalSchema regex True (rt_draftSchema t)))"

text \<open>Editing the draft: the request type read before, its types and statuses, and the body.\<close>

definition type_edit_check :: "auth_context option \<Rightarrow> string \<Rightarrow> string \<Rightarrow> jobj option \<Rightarrow> intake \<Rightarrow> (nat, auth_context \<times> request_type \<times> jobj \<times> bool) result" where
  "type_edit_check context key i body s =
     bind_result (type_check True context key i s) (\<lambda>(cx, t).
       (case body of
          None \<Rightarrow> Inl 400
        | Some b \<Rightarrow>
            if \<not> valid_rename b then Inl 400
            else Inr (cx, t, b, own_type_and_status (ik_core s) (rt_projectId t)
                   (case as_string (field ''issueTypeId'' b) of Some x \<Rightarrow> x | None \<Rightarrow> rt_issueTypeId t)
                   (case as_string (field ''initialStatusId'' b) of Some x \<Rightarrow> x | None \<Rightarrow> rt_initialStatusId t))))"

definition edited_type :: "time \<Rightarrow> request_type \<Rightarrow> jobj \<Rightarrow> js \<Rightarrow> int \<Rightarrow> request_type \<Rightarrow> request_type" where
  "edited_type now current b schema position t =
     t\<lparr>rt_name := renamed b (rt_name t),
       rt_description := (case field ''description'' b of JStr x \<Rightarrow> Some (trim x) | _ \<Rightarrow> rt_description t),
       rt_icon := (case field ''icon'' b of JStr x \<Rightarrow> Some (take 50 x) | _ \<Rightarrow> rt_icon t), rt_position := position,
       rt_portalGroupId := (case field ''portalGroupId'' b of JStr x \<Rightarrow> Some x | JNull \<Rightarrow> None | _ \<Rightarrow> rt_portalGroupId t),
       rt_issueTypeId := (case as_string (field ''issueTypeId'' b) of Some x \<Rightarrow> x | None \<Rightarrow> rt_issueTypeId current),
       rt_initialStatusId := (case as_string (field ''initialStatusId'' b) of Some x \<Rightarrow> x | None \<Rightarrow> rt_initialStatusId current),
       rt_draftSchema := schema, rt_draftConsentText := text_or_null (field ''consentText'' b) (rt_draftConsentText t),
       rt_archivedAt := archive_flag now b (rt_archivedAt t)\<rparr>"

definition type_edit_commit :: "regex_engine \<Rightarrow> time \<Rightarrow> auth_context \<times> request_type \<times> jobj \<times> bool \<Rightarrow> intake \<Rightarrow> (nat, intake) result" where
  "type_edit_commit regex now plan s =
     (let (cx, current, b, belongs) = plan; pid = rt_projectId current; i = rt_id current in
      case (if field ''schema'' b = JUndef then Inr (rt_draftSchema current)
            else bind_result (assertPortalSchemaReferences regex (field_db_of (ik_tracker s)) (cx_workspaceId cx) pid (field ''schema'' b)) (Inr \<circ> schema_json)) of
        Inl _ \<Rightarrow> Inl 400
      | Inr schema \<Rightarrow>
          if \<not> belongs then Inl 400
          else if \<not> group_ok s pid True (as_string (field ''portalGroupId'' b)) then Inl 400
          else (case find (\<lambda>t. rt_id t = i) (ik_types s) of
             None \<Rightarrow> Inl 400
           | Some row \<Rightarrow>
               (case (case field ''position'' b of JNum n \<Rightarrow> int_column (field ''position'' b) | _ \<Rightarrow> Some (rt_position row)) of
                  None \<Rightarrow> Inl 400
                | Some position \<Rightarrow>
                    if type_named s i pid (renamed b (rt_name row)) then Inl 400
                    else Inr (type_audit cx (if field ''archived'' b = JBool True then ''service.request_type.archived'' else ''service.request_type.updated'')
                           i [(''projectId'', JStr pid)]
                           (set_types (map (\<lambda>t. if rt_id t = i then edited_type now current b schema position t else t)) s)))))"

text \<open>
  Publishing: the draft read before is parsed again and stored as the next version; the version number
  and the compare-and-set of the row refuse a second publication of the same draft.
\<close>

definition publish_commit :: "regex_engine \<Rightarrow> string \<Rightarrow> time \<Rightarrow> auth_context \<times> request_type \<Rightarrow> intake \<Rightarrow> (nat, intake) result" where
  "publish_commit regex new now plan s =
     (let (cx, current) = plan; next_version = rt_currentVersion current + 1; tid = rt_id current in
      case assertPortalSchemaReferences regex (field_db_of (ik_tracker s)) (cx_workspaceId cx) (rt_projectId current) (rt_draftSchema current) of
        Inl _ \<Rightarrow> Inl 409
      | Inr _ \<Rightarrow>
          (case parsePortalSchema regex False (rt_draftSchema current) of
             Inl _ \<Rightarrow> Inl 409
           | Inr schema \<Rightarrow>
               if list_ex (\<lambda>v. fv_requestTypeId v = tid \<and> fv_version v = next_version \<or> fv_id v = new) (ik_versions s) then Inl 409
               else if count_rows (\<lambda>t. rt_id t = tid \<and> rt_currentVersion t = rt_currentVersion current) (ik_types s) \<noteq> 1 then Inl 409
               else Inr (type_audit cx ''service.request_type.published'' tid
                      [(''projectId'', JStr (rt_projectId current)), (''version'', JInt (int next_version))]
                      (set_types (map (\<lambda>t. if rt_id t = tid \<and> rt_currentVersion t = rt_currentVersion current
                           then t\<lparr>rt_currentVersion := next_version, rt_publishedAt := Some now\<rparr> else t))
                        (s\<lparr>ik_versions := ik_versions s @ [\<lparr>fv_id = new, fv_requestTypeId = tid, fv_version = next_version, fv_name = rt_name current,
                             fv_description = rt_description current, fv_icon = rt_icon current, fv_schema = schema_json schema,
                             fv_consentText = rt_draftConsentText current, fv_publishedById = cx_userId cx\<rparr>]\<rparr>)))))"

definition type_publish_POST :: "regex_engine \<Rightarrow> string \<Rightarrow> time \<Rightarrow> auth_context option \<Rightarrow> string \<Rightarrow> string \<Rightarrow> intake \<Rightarrow> (nat, intake) result" where
  "type_publish_POST regex new now context key i s = bind_result (type_check False context key i s) (\<lambda>plan. publish_commit regex new now plan s)"

definition request_type_PATCH :: "regex_engine \<Rightarrow> time \<Rightarrow> auth_context option \<Rightarrow> string \<Rightarrow> string \<Rightarrow> jobj option \<Rightarrow> intake \<Rightarrow> (nat, intake) result" where
  "request_type_PATCH regex now context key i body s =
     bind_result (type_edit_check context key i body s) (\<lambda>plan. type_edit_commit regex now plan s)"

section \<open>Published forms\<close>

datatype visitor = Staff auth_context | Customer portal_context

fun visitor_workspace :: "visitor \<Rightarrow> string" where
  "visitor_workspace (Staff cx) = cx_workspaceId cx"
| "visitor_workspace (Customer px) = px_workspaceId px"

fun visitor_user :: "visitor \<Rightarrow> string" where
  "visitor_user (Staff cx) = cx_userId cx"
| "visitor_user (Customer px) = pc_reporterUserId (px_customer px)"

fun visitor_project :: "intake \<Rightarrow> visitor \<Rightarrow> project \<Rightarrow> bool" where
  "visitor_project s (Staff cx) p = (p_workspaceId p = cx_workspaceId cx \<and> p_template p = Service \<and> p_archivedAt p = None)"
| "visitor_project s (Customer px) p = portalProjectWhere (ik_portal s) px p"

fun may_create :: "intake \<Rightarrow> visitor \<Rightarrow> string \<Rightarrow> bool" where
  "may_create s (Staff cx) pid = requireProjectPermission (ik_core s) cx pid Issue_Create"
| "may_create s (Customer _) pid = True"

definition published_type :: "visitor \<Rightarrow> string \<Rightarrow> intake \<Rightarrow> (request_type \<times> project) option" where
  "published_type who i s =
     (case find (\<lambda>t. rt_id t = i \<and> rt_archivedAt t = None \<and> rt_publishedAt t \<noteq> None
             \<and> list_ex (\<lambda>p. p_id p = rt_projectId t \<and> visitor_project s who p) (db_projects (ik_core s))) (ik_types s) of
        None \<Rightarrow> None
      | Some t \<Rightarrow> map_option (Pair t) (find (\<lambda>p. p_id p = rt_projectId t) (db_projects (ik_core s))))"

definition latest_version :: "intake \<Rightarrow> string \<Rightarrow> form_version option" where
  "latest_version s tid = first_by (\<lambda>v. - int (fv_version v)) (\<lambda>v. fv_requestTypeId v = tid) (ik_versions s)"

record form_plan =
  fp_visitor :: visitor
  fp_type :: request_type
  fp_project :: project
  fp_version :: form_version
  fp_body :: jobj

definition published_form :: "visitor \<Rightarrow> string \<Rightarrow> jobj \<Rightarrow> intake \<Rightarrow> (nat, form_plan) result" where
  "published_form who i body s =
     (case published_type who i s of
        None \<Rightarrow> Inl 404
      | Some tp \<Rightarrow>
          (case latest_version s (rt_id (fst tp)) of
             None \<Rightarrow> Inl 404
           | Some v \<Rightarrow>
               if \<not> may_create s who (rt_projectId (fst tp)) then Inl 404
               else Inr \<lparr>fp_visitor = who, fp_type = fst tp, fp_project = snd tp, fp_version = v, fp_body = body\<rparr>))"

definition publicForm :: "regex_engine \<Rightarrow> form_version \<Rightarrow> (form_error, form_version \<times> portal_schema) result" where
  "publicForm regex v = bind_result (parsePortalSchema regex False (fv_schema v)) (\<lambda>schema. Inr (v, schema))"

definition form_GET :: "regex_engine \<Rightarrow> visitor option \<Rightarrow> string \<Rightarrow> intake \<Rightarrow> (nat, form_version \<times> portal_schema) result" where
  "form_GET regex who i s =
     (case who of
        None \<Rightarrow> Inl 401
      | Some v \<Rightarrow> bind_result (published_form v i [] s) (\<lambda>fp. caught 500 (publicForm regex (fp_version fp))))"

section \<open>Uploads\<close>

record upload_file =
  uf_name :: string
  uf_type :: string
  uf_size :: nat

definition UPLOAD_TYPES :: "string list" where
  "UPLOAD_TYPES = [''application/pdf'', ''application/zip'', ''application/json'', ''text/plain'', ''text/csv'']"

definition HOUR_MS :: int where "HOUR_MS = 60 * 60 * 1000"

text \<open>\<open>path.extname\<close>: from the last dot of the last component, unless only dots come before it at its start.\<close>

definition extname :: "string \<Rightarrow> string" where
  "extname path =
     (let base = takeWhile (\<lambda>c. c \<noteq> CHR ''/'') (dropWhile (\<lambda>c. c = CHR ''/'') (rev path));
          ext = takeWhile (\<lambda>c. c \<noteq> CHR ''.'') base; stem = drop (length ext) base
      in if length stem \<le> 1 \<or> base = ''..'' then [] else CHR ''.'' # rev ext)"

definition upload_POST :: "string \<Rightarrow> string \<Rightarrow> time \<Rightarrow> visitor option \<Rightarrow> string \<Rightarrow> upload_file option \<Rightarrow> intake \<Rightarrow> (nat, intake) result" where
  "upload_POST new uuid now who i file s =
     (case who of
        None \<Rightarrow> Inl 401
      | Some v \<Rightarrow>
          (case published_type v i s of
             None \<Rightarrow> Inl 404
           | Some tp \<Rightarrow>
               if \<not> may_create s v (rt_projectId (fst tp)) then Inl 404
               else (case file of
                  None \<Rightarrow> Inl 400
                | Some f \<Rightarrow>
                    if uf_size f = 0 \<or> 10 * 1024 * 1024 < uf_size f then Inl 400
                    else if \<not> (take 6 (uf_type f) = ''image/'' \<or> uf_type f \<in> set UPLOAD_TYPES) then Inl 400
                    else (let extension = filter (\<lambda>c. c = CHR ''.'' \<or> is_alnum c) (take 12 (extname (uf_name f)));
                              objectKey = visitor_workspace v @ ''/'' @ rt_projectId (fst tp) @ ''/service-drafts/'' @ uuid @ extension in
                      if objectKey \<in> up_objectKey ` set (ik_uploads s) \<or> new \<in> up_id ` set (ik_uploads s) then Inl 500
                      else Inr (s\<lparr>ik_uploads := ik_uploads s @ [\<lparr>up_id = new, up_workspaceId = visitor_workspace v, up_projectId = rt_projectId (fst tp),
                             up_requestTypeId = rt_id (fst tp), up_uploadedById = visitor_user v, up_fileName = take 255 (uf_name f),
                             up_objectKey = objectKey, up_contentType = uf_type f, up_size = uf_size f, up_expiresAt = now + HOUR_MS,
                             up_usedAt = None\<rparr>]\<rparr>)))))"

section \<open>Submissions\<close>

definition submit_check :: "visitor option \<Rightarrow> string \<Rightarrow> jobj option \<Rightarrow> intake \<Rightarrow> (nat, form_plan) result" where
  "submit_check who i body s =
     (case who of
        None \<Rightarrow> Inl 401
      | Some v \<Rightarrow> (case body of None \<Rightarrow> Inl 400 | Some b \<Rightarrow> published_form v i b s))"

fun visitor_customer :: "visitor \<Rightarrow> portal_customer option" where
  "visitor_customer (Staff _) = None"
| "visitor_customer (Customer px) = Some (px_customer px)"

fun visitor_staff :: "visitor \<Rightarrow> string option" where
  "visitor_staff (Staff cx) = Some (cx_userId cx)"
| "visitor_staff (Customer _) = None"

definition sharing_of :: "visitor \<Rightarrow> jobj \<Rightarrow> string" where
  "sharing_of who body =
     (case visitor_customer who of
        None \<Rightarrow> ''PRIVATE''
      | Some _ \<Rightarrow> (case field ''sharing'' body of JStr x \<Rightarrow> if x \<in> {''PRIVATE'', ''PARTICIPANTS'', ''ORGANIZATION''} then x else ''PRIVATE'' | _ \<Rightarrow> ''PRIVATE''))"

text \<open>The organization a request is shared with: one the customer is an active member of and the project admits.\<close>

definition share_organization :: "intake \<Rightarrow> visitor \<Rightarrow> string \<Rightarrow> jobj \<Rightarrow> (nat, string option) result" where
  "share_organization s who pid body =
     (case visitor_customer who of
        None \<Rightarrow> Inr None
      | Some c \<Rightarrow>
          if sharing_of who body \<noteq> ''ORGANIZATION'' then Inr None
          else (case as_string (field ''organizationId'' body) of
             None \<Rightarrow> Inl 400
           | Some oid \<Rightarrow>
               if oid = [] \<or> \<not> ((oid, visitor_workspace who) \<in> set (po_organizations (ik_portal s)) \<and> active_in_org (ik_portal s) oid (pc_id c)
                    \<and> (pid, oid, True) \<in> set (po_projectOrgs (ik_portal s))) then Inl 400
               else Inr (Some oid)))"

definition participant_emails :: "visitor \<Rightarrow> jobj \<Rightarrow> string list" where
  "participant_emails who body =
     (if visitor_customer who = None \<or> sharing_of who body = ''PRIVATE'' then []
      else take 20 (uniq (filter (\<lambda>e. e \<noteq> []) (map (to_lower \<circ> trim)
        (case as_array (field ''participantEmails'' body) of None \<Rightarrow> [] | Some vs \<Rightarrow> strings_of vs)))))"

definition admitted :: "portal_db \<Rightarrow> string \<Rightarrow> string \<Rightarrow> bool" where
  "admitted pdb cid pid \<longleftrightarrow> (pid, cid, True) \<in> set (po_projectCustomers pdb)
     \<or> list_ex (\<lambda>(q, oid, enabled). q = pid \<and> enabled \<and> active_in_org pdb oid cid) (po_projectOrgs pdb)"

definition participants_of :: "intake \<Rightarrow> visitor \<Rightarrow> string \<Rightarrow> jobj \<Rightarrow> (nat, string list) result" where
  "participants_of s who pid body =
     (let emails = participant_emails who body;
          found = filter (\<lambda>c. pc_workspaceId c = visitor_workspace who \<and> pc_email c \<in> set emails \<and> pc_verifiedAt c \<noteq> None
            \<and> pc_deactivatedAt c = None \<and> admitted (ik_portal s) (pc_id c) pid) (po_customers (ik_portal s)) in
      if length found \<noteq> length emails then Inl 400 else Inr (map pc_id found))"

text \<open>The last field of a kind: \<open>new Map(fields.map((field) => [field.kind, field]))\<close>.\<close>

definition kind_value :: "field_kind \<Rightarrow> portal_schema \<Rightarrow> jobj \<Rightarrow> js" where
  "kind_value k schema vals = (case find (\<lambda>f. pf_kind f = k) (rev schema) of None \<Rightarrow> JUndef | Some f \<Rightarrow> field (pf_key f) vals)"

definition submitted_priority :: "project \<Rightarrow> portal_schema \<Rightarrow> jobj \<Rightarrow> priority" where
  "submitted_priority p schema vals =
     (let raw = (case kind_value Priority_Field schema vals of JStr x \<Rightarrow> to_upper x | _ \<Rightarrow> priority_name (p_defaultPriority p)) in
      case parse_priority raw of Some x \<Rightarrow> x | None \<Rightarrow> p_defaultPriority p)"

text \<open>\<open>Object.fromEntries\<close>: a later entry replaces the value of an earlier one.\<close>

definition from_entries :: "(string \<times> js) list \<Rightarrow> jobj" where
  "from_entries kvs = fold (\<lambda>(k, v). AList.update k v) kvs []"

definition custom_input :: "portal_schema \<Rightarrow> jobj \<Rightarrow> jobj" where
  "custom_input schema vals =
     from_entries (List.map_filter (\<lambda>f. if pf_kind f = Custom \<and> pf_key f \<in> set (keys_of vals)
       then (case pf_customFieldId f of Some i \<Rightarrow> if i = [] then None else Some (i, field (pf_key f) vals) | None \<Rightarrow> None) else None) schema)"

definition upload_ids :: "portal_schema \<Rightarrow> jobj \<Rightarrow> string list" where
  "upload_ids schema vals = concat (map (\<lambda>f. if pf_kind f = Attachment
     then (case field (pf_key f) vals of JArr vs \<Rightarrow> strings_of vs | _ \<Rightarrow> []) else []) schema)"

definition usable_uploads :: "intake \<Rightarrow> time \<Rightarrow> form_plan \<Rightarrow> string list \<Rightarrow> upload list" where
  "usable_uploads s now fp ids =
     filter (\<lambda>u. up_id u \<in> set ids \<and> up_workspaceId u = visitor_workspace (fp_visitor fp) \<and> up_projectId u = rt_projectId (fp_type fp)
       \<and> up_requestTypeId u = rt_id (fp_type fp) \<and> up_uploadedById u = visitor_user (fp_visitor fp) \<and> up_usedAt u = None
       \<and> now < up_expiresAt u) (ik_uploads s)"

text \<open>
  The accepted values of a submission: the sharing, the participants, what validation stored, and the
  uploads and custom fields it names.
\<close>

record accepted =
  ad_organization :: "string option"
  ad_participants :: "string list"
  ad_schema :: portal_schema
  ad_values :: jobj
  ad_summary :: string
  ad_uploads :: "upload list"
  ad_custom :: "(string \<times> js) list"

definition accept_submission :: "regex_engine \<Rightarrow> url_parser \<Rightarrow> time \<Rightarrow> form_plan \<Rightarrow> intake \<Rightarrow> (nat, accepted) result" where
  "accept_submission regex parse_url now fp s =
     (let who = fp_visitor fp; t = fp_type fp; v = fp_version fp; body = fp_body fp; pid = rt_projectId t in
      case share_organization s who pid body of Inl _ \<Rightarrow> Inl 400 | Inr organization \<Rightarrow>
      case participants_of s who pid body of Inl _ \<Rightarrow> Inl 400 | Inr participants \<Rightarrow>
      case validatePortalSubmission regex (fv_schema v) (field ''values'' body) (fv_consentText v) of Inl _ \<Rightarrow> Inl 400 | Inr validated \<Rightarrow>
      case as_string (kind_value Summary (fst validated) (snd validated)) of None \<Rightarrow> Inl 400 | Some summary \<Rightarrow>
      if trim summary = [] \<or> 200 < length (trim summary) then Inl 400
      else (let ids = upload_ids (fst validated) (snd validated); uploads = usable_uploads s now fp ids in
        if length uploads \<noteq> length (uniq ids) then Inl 400
        else case validateCustomFieldWrites parse_url (field_db_of (ik_tracker s)) (visitor_workspace who) pid (rt_issueTypeId t)
                    (JObj (custom_input (fst validated) (snd validated))) True of
            Inl _ \<Rightarrow> Inl 400
          | Inr custom \<Rightarrow>
              Inr \<lparr>ad_organization = organization, ad_participants = participants, ad_schema = fst validated, ad_values = snd validated,
                   ad_summary = trim summary, ad_uploads = uploads, ad_custom = custom\<rparr>))"

definition submitted_issue :: "form_plan \<Rightarrow> accepted \<Rightarrow> status \<Rightarrow> string \<Rightarrow> nat \<Rightarrow> time \<Rightarrow> issue" where
  "submitted_issue fp a st i number now =
     new_issue \<lparr>cp_actor = visitor_user (fp_visitor fp), cp_project = fp_project fp, cp_status = st, cp_typeId = rt_issueTypeId (fp_type fp),
       cp_levelId = None, cp_assigneeId = None, cp_title = ad_summary a,
       cp_description = string_or_empty (kind_value Description (ad_schema a) (ad_values a)),
       cp_priority = submitted_priority (fp_project fp) (ad_schema a) (ad_values a), cp_mentions = [], cp_fields = JUndef\<rparr> i number now"

definition submitted_request :: "form_plan \<Rightarrow> accepted \<Rightarrow> string \<Rightarrow> string \<Rightarrow> time \<Rightarrow> service_request" where
  "submitted_request fp a rid i now =
     \<lparr>sr_id = rid, sr_workspaceId = visitor_workspace (fp_visitor fp), sr_projectId = rt_projectId (fp_type fp), sr_issueId = i,
      sr_requestTypeId = rt_id (fp_type fp), sr_versionId = fv_id (fp_version fp), sr_values = JObj (ad_values a),
      sr_schema = fv_schema (fp_version fp), sr_consentAt = (case fv_consentText (fp_version fp) of None \<Rightarrow> None | Some c \<Rightarrow> if c = [] then None else Some now),
      sr_customerId = map_option pc_id (visitor_customer (fp_visitor fp)), sr_organizationId = ad_organization a,
      sr_sharing = sharing_of (fp_visitor fp) (fp_body fp), sr_slaState = ''NONE'', sr_slaCheckedAt = None, sr_createdAt = now\<rparr>"

definition customer_json :: "visitor \<Rightarrow> js" where
  "customer_json who = or_undefined (JStr \<circ> pc_id) (visitor_customer who)"

text \<open>The rows of the tracker: the sequence of the project, the issue, its values, history, activity and audit event.\<close>

definition store_issue :: "form_plan \<Rightarrow> accepted \<Rightarrow> status \<Rightarrow> issue \<Rightarrow> tracker \<Rightarrow> tracker" where
  "store_issue fp a st i tk =
     (let core = tk_core tk; t = fp_type fp; who = fp_visitor fp; version = JInt (int (fv_version (fp_version fp)));
          act = \<lparr>ac_issueId = i_id i, ac_actorId = visitor_staff who, ac_action = ''service.request.created'',
            ac_changes = JObj [(''requestTypeId'', JStr (rt_id t)), (''version'', version), (''portalCustomerId'', customer_json who)]\<rparr>;
          entry = \<lparr>au_workspaceId = visitor_workspace who, au_actorId = visitor_staff who, au_action = ''service.request.submitted'',
            au_targetType = ''issue'', au_targetId = i_id i, au_metadata = JObj [(''projectId'', JStr (rt_projectId t)), (''requestTypeId'', JStr (rt_id t)),
              (''requestTypeVersion'', version), (''portalCustomerId'', customer_json who)]\<rparr>
      in tk\<lparr>tk_core := core\<lparr>db_projects := map (\<lambda>q. if p_id q = rt_projectId t then q\<lparr>p_issueSequence := p_issueSequence q + 1\<rparr> else q) (db_projects core),
             db_issues := db_issues core @ [i], db_activities := db_activities core @ [act], db_audit := db_audit core @ [entry]\<rparr>,
           tk_values := tk_values tk @ map (\<lambda>(f, v). (f, i_id i, v)) (ad_custom a),
           tk_requests := tk_requests tk @ [(i_id i, rt_id t)],
           tk_history := tk_history tk @ [\<lparr>hi_issueId = i_id i, hi_event = ''CREATED'', hi_category = Some (st_category st), hi_estimate = None\<rparr>]\<rparr>)"

definition announce_issue :: "form_plan \<Rightarrow> issue \<Rightarrow> tracker \<Rightarrow> tracker" where
  "announce_issue fp i =
     (let p = fp_project fp; type_id = JStr (rt_id (fp_type fp)); version = JInt (i_version i) in
      announce ''issue.created'' p ''issue.created'' (''issue.created:'' @ i_id i) (i_id i)
        (JObj [(''id'', JStr (i_id i)), (''key'', JStr (issue_key p (i_number i))), (''requestTypeId'', type_id), (''version'', version)])
        (JObj [(''issueId'', JStr (i_id i)), (''projectId'', JStr (p_id p)), (''statusId'', JStr (i_statusId i)),
          (''priority'', JStr (priority_name (i_priority i))), (''requestTypeId'', type_id)])
        (JObj [(''id'', JStr (i_id i)), (''version'', version)]))"

definition claim_uploads :: "time \<Rightarrow> string list \<Rightarrow> upload list \<Rightarrow> upload list" where
  "claim_uploads now ids = map (\<lambda>u. if up_id u \<in> set ids \<and> up_usedAt u = None then u\<lparr>up_usedAt := Some now\<rparr> else u)"

definition attachment_of :: "string \<Rightarrow> upload \<Rightarrow> portal_attachment" where
  "attachment_of i u = \<lparr>pa_issueId = i, pa_fileName = up_fileName u, pa_objectKey = up_objectKey u, pa_contentType = up_contentType u, pa_size = up_size u\<rparr>"

definition store_request :: "time \<Rightarrow> form_plan \<Rightarrow> accepted \<Rightarrow> issue \<Rightarrow> service_request \<Rightarrow> intake \<Rightarrow> intake" where
  "store_request now fp a i r s =
     (let d = ik_desk s; pdb = de_portal d; who = fp_visitor fp;
          others = filter (\<lambda>c. Some c \<noteq> map_option pc_id (visitor_customer who)) (ad_participants a);
          told = (case visitor_customer who of
              None \<Rightarrow> []
            | Some c \<Rightarrow> if pc_emailNotifications c then [\<lparr>pn_customerId = pc_id c, pn_requestId = sr_id r, pn_type = ''request.created'',
                pn_message = ''Request '' @ issue_key (fp_project fp) (i_number i) @ '' was created.''\<rparr>] else [])
      in s\<lparr>ik_desk := d\<lparr>de_portal := pdb\<lparr>po_requests := po_requests pdb @ [r],
               po_participants := po_participants pdb @ map (Pair (sr_id r)) (filter (\<lambda>c. (sr_id r, c) \<notin> set (po_participants pdb)) (uniq others))\<rparr>,
             de_portalNotifications := de_portalNotifications d @ told\<rparr>,
           ik_uploads := claim_uploads now (map up_id (ad_uploads a)) (ik_uploads s),
           ik_attachments := ik_attachments s @ map (attachment_of (i_id i)) (ad_uploads a)\<rparr>)"

text \<open>
  The transaction runs under READ COMMITTED: what \<open>accept_submission\<close> read may have changed when it writes, so
  the writes are a definition of their own, with the values accepted in an earlier state as an argument. The
  project, the status and the type are foreign keys; the claim of the uploads counts the rows that are unused by
  then. \<open>submit_commit\<close> is the submission that nothing interrupts.
\<close>

definition submit_write :: "(nat \<Rightarrow> string) \<Rightarrow> time \<Rightarrow> form_plan \<Rightarrow> accepted \<Rightarrow> intake \<Rightarrow> (nat, intake) result" where
  "submit_write new now fp a s =
     (let core = ik_core s; t = fp_type fp in
        case find (\<lambda>q. p_id q = rt_projectId t) (db_projects core) of None \<Rightarrow> Inl 400 | Some q \<Rightarrow>
        case find (\<lambda>x. st_id x = rt_initialStatusId t) (db_statuses core) of None \<Rightarrow> Inl 400 | Some st \<Rightarrow>
        if \<not> list_ex (\<lambda>x. it_id x = rt_issueTypeId t) (db_issueTypes core) \<or> list_ex (\<lambda>x. i_id x = new 0) (db_issues core)
          \<or> list_ex (\<lambda>r. sr_id r = new 1) (po_requests (ik_portal s)) then Inl 400
        else if count_rows (\<lambda>u. up_id u \<in> set (map up_id (ad_uploads a)) \<and> up_usedAt u = None) (ik_uploads s) \<noteq> length (ad_uploads a) then Inl 400
        else (let i = submitted_issue fp a st (new 0) (p_issueSequence q + 1) now; r = submitted_request fp a (new 1) (new 0) now;
                  d = ik_desk s; tk = announce_issue fp i (store_issue fp a st i (de_tracker d)) in
          Inr (store_request now fp a i r (s\<lparr>ik_desk := d\<lparr>de_tracker := tk\<rparr>\<rparr>))))"

definition submit_commit :: "regex_engine \<Rightarrow> url_parser \<Rightarrow> (nat \<Rightarrow> string) \<Rightarrow> time \<Rightarrow> form_plan \<Rightarrow> intake \<Rightarrow> (nat, intake) result" where
  "submit_commit regex parse_url new now fp s =
     bind_result (accept_submission regex parse_url now fp s) (\<lambda>a. submit_write new now fp a s)"

definition submissions_POST :: "regex_engine \<Rightarrow> url_parser \<Rightarrow> (nat \<Rightarrow> string) \<Rightarrow> time \<Rightarrow> visitor option \<Rightarrow> string \<Rightarrow> jobj option \<Rightarrow> intake \<Rightarrow> (nat, intake) result" where
  "submissions_POST regex parse_url new now who i body s =
     bind_result (submit_check who i body s) (\<lambda>fp. submit_commit regex parse_url new now fp s)"

section \<open>A published schema can always be read\<close>

lemma field_defined: "distinct (map fst fs) \<Longrightarrow> field k (defined fs) = field k fs"
proof (induction fs)
  case (Cons e fs)
  obtain j v where e: "e = (j, v)" by force
  have "k = j \<Longrightarrow> map_of fs k = None" using Cons.prems by (auto simp: e map_of_eq_None_iff)
  moreover have "field k (defined fs) = field k fs" using Cons by simp
  ultimately show ?case by (auto simp: e defined_def field_def split: option.splits)
qed (simp add: defined_def)

lemma keys_defined: "set (keys_of (defined fs)) \<subseteq> set (keys_of fs)"
  by (auto simp: keys_of_def defined_def)

lemma trim_trim [simp]: "trim (trim s) = trim s"
proof -
  let ?t = "dropWhile is_space s"
  have "dropWhile is_space (rev (dropWhile is_space (rev ?t))) = rev (dropWhile is_space (rev ?t))"
  proof (cases "rev (dropWhile is_space (rev ?t))")
    case (Cons c cs)
    then have u: "dropWhile is_space (rev ?t) = rev cs @ [c]" by (metis rev.simps(2) rev_rev_ident)
    obtain pre where "rev ?t = pre @ dropWhile is_space (rev ?t)" by (metis takeWhile_dropWhile_id)
    then have "rev ?t = pre @ rev cs @ [c]" using u by simp
    then have t: "?t = c # (cs @ rev pre)" by (metis append.assoc rev_append rev_rev_ident rev_singleton_conv append_Cons append_Nil)
    then have "\<not> is_space c" using hd_dropWhile [of is_space s] by simp
    then show ?thesis using Cons by simp
  next
    case Nil
    then show ?thesis by (simp only: dropWhile.simps)
  qed
  then show ?thesis unfolding trim_def trim_start_def by (simp add: dropWhile_idem)
qed

lemma find_kind_name: "find (\<lambda>k. JStr (kind_name k') = JStr (kind_name k)) PORTAL_FIELD_KINDS = Some k'"
  by (cases k') (simp_all add: PORTAL_FIELD_KINDS_def)

lemma parse_options_again:
  assumes "parse_options v = Some os"
  shows "parse_options (JArr (map JStr os)) = Some os"
proof -
  from assms obtain vs where v: "v = JArr vs" "length vs \<le> 100" "os = strings_of vs"
    and ok: "list_all (\<lambda>x. case as_string x of None \<Rightarrow> False | Some s \<Rightarrow> trim s \<noteq> [] \<and> length s \<le> 100) vs"
    by (auto simp: parse_options_def split: option.splits if_splits)
  from ok have "all_strings vs" by (auto simp: all_strings_def list_all_iff split: option.splits)
  then obtain ss where "vs = map JStr ss" using all_strings_iff by blast
  then show ?thesis using v ok by (simp add: parse_options_def)
qed

lemma length_ok_again: "length_ok low v \<Longrightarrow> length_ok low (or_undefined JInt (as_integer v)) \<and> as_integer (or_undefined JInt (as_integer v)) = as_integer v"
  by (cases "as_integer v") (auto simp: length_ok_def or_undefined_def as_integer_def split: option.splits)

lemma parse_validation_again:
  assumes "parse_validation regex key v = Inr (Some va)"
  shows "parse_validation regex key' (validation_json va) = Inr (Some va)"
proof -
  from assms obtain o' where v: "v = JObj o'" by (auto simp: parse_validation_def split: option.splits)
  define lo hi pat where d: "lo = field ''minLength'' o'" "hi = field ''maxLength'' o'" "pat = field ''pattern'' o'"
  have ok: "length_ok 0 lo" "length_ok 1 hi"
    and order: "\<not> (case (as_integer lo, as_integer hi) of (Some a, Some b) \<Rightarrow> b < a | _ \<Rightarrow> False)"
    and safe: "\<not> (pat \<noteq> JUndef \<and> (case as_string pat of None \<Rightarrow> True | Some s \<Rightarrow> 200 < length s \<or> unsafe_pattern s))"
    and compiles: "\<not> (case as_string pat of None \<Rightarrow> False | Some s \<Rightarrow> regex s = None)"
    and va: "va = \<lparr>va_minLength = as_integer lo, va_maxLength = as_integer hi, va_pattern = as_string pat\<rparr>"
    using assms unfolding parse_validation_def v as_object.simps option.case Let_def d [symmetric] by (simp_all split: if_split_asm)
  define w where "w = defined [(''minLength'', or_undefined JInt (as_integer lo)), (''maxLength'', or_undefined JInt (as_integer hi)),
    (''pattern'', or_undefined JStr (as_string pat))]"
  have pat: "or_undefined JStr (as_string pat) = pat" using safe by (cases pat) (simp_all add: or_undefined_def)
  have f: "field ''minLength'' w = or_undefined JInt (as_integer lo)" "field ''maxLength'' w = or_undefined JInt (as_integer hi)"
    "field ''pattern'' w = pat"
    unfolding w_def by (simp_all add: field_defined pat, simp_all add: field_def)
  have k: "\<not> list_ex (\<lambda>k. k \<notin> {''minLength'', ''maxLength'', ''pattern''}) (keys_of w)"
    using keys_defined unfolding w_def by (fastforce simp: list_ex_iff keys_of_def)
  have j: "validation_json va = JObj w" by (simp add: validation_json_def va w_def)
  show ?thesis
    using k ok [THEN length_ok_again] order safe compiles unfolding j parse_validation_def as_object.simps option.case Let_def f by (simp add: va)
qed

lemma parse_condition_again:
  "parse_condition key v = Inr (Some (k, e)) \<Longrightarrow> parse_condition key' (JObj [(''fieldKey'', JStr k), (''equals'', e)]) = Inr (Some (k, e))"
  by (auto simp: parse_condition_def field_def split: option.splits if_splits)

definition retrimmed :: "portal_field \<Rightarrow> portal_field" where
  "retrimmed f = f\<lparr>pf_helpText := map_option (\<lambda>s. take 500 (trim s)) (pf_helpText f)\<rparr>"

lemma parse_optional_again:
  assumes "parse_validation regex key v = Inr va"
  shows "parse_validation regex key' (or_undefined validation_json va) = Inr va"
  using assms parse_validation_again by (cases va) (auto simp: or_undefined_def parse_validation_def)

lemma parse_condition_optional_again:
  assumes "parse_condition key v = Inr c"
  shows "parse_condition key' (or_undefined (\<lambda>(k, v). JObj [(''fieldKey'', JStr k), (''equals'', v)]) c) = Inr c"
  using assms parse_condition_again by (cases c) (auto simp: or_undefined_def parse_condition_def)

lemma parseField_again:
  assumes "parseField regex (m, v) = Inr f"
  shows "parseField regex (n, field_json f) = Inr (retrimmed f)"
proof -
  from assms obtain input kind validation condition where v: "v = JObj input"
    and kind: "find (\<lambda>k. field ''kind'' input = JStr (kind_name k)) PORTAL_FIELD_KINDS = Some kind"
    and key: "is_field_key (trim (string_or_empty (field ''key'' input)))"
    and label: "trim (string_or_empty (field ''label'' input)) \<noteq> []" "length (trim (string_or_empty (field ''label'' input))) \<le> 100"
    and cid: "kind = Custom \<longrightarrow> pf_customFieldId f \<notin> {None, Some []}" "kind \<noteq> Custom \<longrightarrow> pf_customFieldId f = None"
    and options: "field ''options'' input = JUndef \<or> (\<exists>os. parse_options (field ''options'' input) = Some os \<and> distinct os)"
    and validation: "parse_validation regex (trim (string_or_empty (field ''key'' input))) (field ''validation'' input) = Inr validation"
    and condition: "parse_condition (trim (string_or_empty (field ''key'' input))) (field ''visibleWhen'' input) = Inr condition"
    and f: "pf_key f = trim (string_or_empty (field ''key'' input))" "pf_kind f = kind" "pf_label f = trim (string_or_empty (field ''label'' input))"
      "pf_options f = parse_options (field ''options'' input)" "pf_validation f = validation" "pf_visibleWhen f = condition"
    by (auto simp: parseField_def Let_def bind_result_eq_Inr split: option.splits if_splits)
  obtain w where j: "field_json f = JObj w" and w:
    "field ''key'' w = JStr (pf_key f)" "field ''kind'' w = JStr (kind_name (pf_kind f))"
    "field ''customFieldId'' w = or_undefined JStr (pf_customFieldId f)" "field ''label'' w = JStr (pf_label f)"
    "field ''helpText'' w = or_undefined JStr (pf_helpText f)" "field ''required'' w = JBool (pf_required f)"
    "field ''defaultValue'' w = pf_default f" "field ''options'' w = or_undefined (\<lambda>os. JArr (map JStr os)) (pf_options f)"
    "field ''validation'' w = or_undefined validation_json (pf_validation f)"
    "field ''visibleWhen'' w = or_undefined (\<lambda>(k, v). JObj [(''fieldKey'', JStr k), (''equals'', v)]) (pf_visibleWhen f)"
  proof (rule that)
    show "field_json f = JObj (the (as_object (field_json f)))" by (simp add: field_json_def)
  qed (simp_all add: field_json_def field_defined, simp_all add: field_def)
  have os: "parse_options (or_undefined (\<lambda>os. JArr (map JStr os)) (pf_options f)) = pf_options f"
    "or_undefined (\<lambda>os. JArr (map JStr os)) (pf_options f) \<noteq> JUndef \<longrightarrow> (\<exists>os. pf_options f = Some os \<and> distinct os)"
    using options parse_options_again
    by (cases "parse_options (field ''options'' input)"; auto simp: f or_undefined_def parse_options_def [of JUndef])+
  have c: "(if pf_kind f = Custom then as_string (or_undefined JStr (pf_customFieldId f)) else None) = pf_customFieldId f"
    using cid by (cases "pf_customFieldId f") (auto simp: f or_undefined_def)
  have h: "map_option (\<lambda>s. take 500 (trim s)) (as_string (or_undefined JStr (pf_helpText f))) = map_option (\<lambda>s. take 500 (trim s)) (pf_helpText f)"
    by (cases "pf_helpText f") (simp_all add: or_undefined_def)
  have kf: "trim (string_or_empty (JStr (pf_key f))) = pf_key f" "trim (string_or_empty (JStr (pf_label f))) = pf_label f"
    by (simp_all add: f string_or_empty_def)
  note again = parse_optional_again [OF validation, of "pf_key f"] parse_condition_optional_again [OF condition, of "pf_key f"]
  have ok: "is_field_key (pf_key f)" "pf_label f \<noteq> []" "length (pf_label f) \<le> 100" using key label by (simp_all add: f)
  have custom: "\<not> (pf_kind f = Custom \<and> (pf_customFieldId f = None \<or> pf_customFieldId f = Some []))" using cid f(2) by auto
  have opts: "\<not> (or_undefined (\<lambda>os. JArr (map JStr os)) (pf_options f) \<noteq> JUndef \<and> (case pf_options f of None \<Rightarrow> True | Some os \<Rightarrow> \<not> distinct os))"
    using os(2) by (auto split: option.splits)
  show ?thesis
    unfolding parseField_def prod.case j as_object.simps option.case Let_def w kf find_kind_name c os(1) h f(5,6) again bind_result_Inr
    using ok custom opts by (simp add: f(5,6) retrimmed_def)
qed

lemma map_result_again:
  assumes "map_result f xs = Inr ys" and "length ns = length ys" and "\<And>x y n. f x = Inr y \<Longrightarrow> g (n, h y) = Inr (r y)"
  shows "map_result g (zip ns (map h ys)) = Inr (map r ys)"
  using assms
proof (induction xs arbitrary: ys ns)
  case (Cons x xs)
  then obtain y zs where ys: "ys = y # zs" "f x = Inr y" "map_result f xs = Inr zs" by (auto simp: bind_result_eq_Inr)
  with Cons.prems(2) obtain n ms where ns: "ns = n # ms" "length ms = length zs" by (cases ns) auto
  show ?case using Cons.IH [OF ys(3) ns(2) Cons.prems(3)] Cons.prems(3) [OF ys(2)] by (simp add: ys ns)
qed simp

lemma schema_checks_same:
  assumes "schema_checks b fs = Inr fs'" and "\<And>f. pf_key (r f) = pf_key f \<and> pf_kind (r f) = pf_kind f \<and> pf_visibleWhen (r f) = pf_visibleWhen f"
  shows "fs' = fs \<and> schema_checks b (map r fs) = Inr (map r fs)"
proof -
  have n: "count_rows (\<lambda>f. pf_kind f = k) (map r fs) = count_rows (\<lambda>f. pf_kind f = k) fs" for k
    using assms(2) by (simp add: count_rows_def filter_map comp_def)
  have k: "map pf_key (map r fs) = map pf_key fs" using assms(2) by simp
  define P :: "portal_field \<Rightarrow> bool" where "P = (\<lambda>f. case pf_visibleWhen f of None \<Rightarrow> False | Some (k, _) \<Rightarrow> k \<notin> set (map pf_key fs))"
  have "P (r f) = P f" for f using assms(2) by (simp add: P_def)
  then have u: "find P fs = None \<Longrightarrow> find P (map r fs) = None" by (simp add: find_None_iff')
  show ?thesis using assms(1) u unfolding schema_checks_def Let_def k n P_def [symmetric] by (auto split: if_splits option.splits)
qed

lemma schema_checks_result: "schema_checks b fs = Inr fs' \<Longrightarrow> fs' = fs"
  by (auto simp: schema_checks_def Let_def split: if_splits option.splits)

text \<open>
  What is stored for an accepted schema is read back as that schema; only a help text that ends in blanks
  after the cut to 500 characters is trimmed once more.
\<close>

theorem schema_round_trip:
  assumes "parsePortalSchema regex b v = Inr schema"
  shows "parsePortalSchema regex b (schema_json schema) = Inr (map retrimmed schema)"
proof -
  from assms obtain o' vs fs where "as_object v = Some o'" "as_array (field ''fields'' o') = Some vs" and n: "\<not> 50 < length vs"
    and fs: "map_result (parseField regex) (zip [0..<length vs] vs) = Inr fs" and c: "schema_checks b fs = Inr schema"
    unfolding parsePortalSchema_def by (simp only: handler_simps) (elim exE conjE, rule that, assumption+)
  have schema: "schema = fs" using c by (rule schema_checks_result)
  have l: "length fs = length vs" using map_result_length [OF fs] by simp
  have "map_result (parseField regex) (zip [0..<length vs] (map field_json fs)) = Inr (map retrimmed fs)"
  proof (rule map_result_again [OF fs])
    fix x :: "nat \<times> js" and y n assume "parseField regex x = Inr y"
    then show "parseField regex (n, field_json y) = Inr (retrimmed y)" by (cases x) (simp add: parseField_again)
  qed (simp add: l)
  moreover have "schema_checks b (map retrimmed fs) = Inr (map retrimmed fs)"
    using schema_checks_same [OF c, of retrimmed] by (simp add: retrimmed_def)
  ultimately show ?thesis using n l by (simp add: parsePortalSchema_def schema_json_def field_def schema)
qed

section \<open>Published versions\<close>

definition versions_of :: "string \<Rightarrow> intake \<Rightarrow> nat list" where
  "versions_of tid s = map fv_version (filter (\<lambda>v. fv_requestTypeId v = tid) (ik_versions s))"

definition readable :: "regex_engine \<Rightarrow> form_version \<Rightarrow> bool" where
  "readable regex v \<longleftrightarrow> (\<exists>schema. parsePortalSchema regex False (fv_schema v) = Inr schema)"

definition forms_ok :: "regex_engine \<Rightarrow> intake \<Rightarrow> bool" where
  "forms_ok regex s \<longleftrightarrow> distinct (map rt_id (ik_types s)) \<and> (\<forall>v\<in>set (ik_versions s). readable regex v \<and> fv_requestTypeId v \<in> rt_id ` set (ik_types s))
     \<and> (\<forall>t\<in>set (ik_types s). versions_of (rt_id t) s = [1..<Suc (rt_currentVersion t)])"

lemma set_core_tables [simp]:
  "ik_types (set_core f s) = ik_types s" "ik_versions (set_core f s) = ik_versions s" "ik_uploads (set_core f s) = ik_uploads s"
  "ik_attachments (set_core f s) = ik_attachments s" "ik_groups (set_core f s) = ik_groups s"
  by (simp_all add: set_core_def)

lemma set_types_tables [simp]:
  "ik_types (set_types f s) = f (ik_types s)" "ik_versions (set_types f s) = ik_versions s" "ik_uploads (set_types f s) = ik_uploads s"
  "ik_attachments (set_types f s) = ik_attachments s" "ik_core (set_types f s) = ik_core s" "ik_tracker (set_types f s) = ik_tracker s"
  by (simp_all add: set_types_def)

lemma type_audit_tables [simp]:
  "ik_types (type_audit cx a i m s) = ik_types s" "ik_versions (type_audit cx a i m s) = ik_versions s"
  "ik_uploads (type_audit cx a i m s) = ik_uploads s" "ik_attachments (type_audit cx a i m s) = ik_attachments s"
  by (simp_all add: type_audit_def)

definition same_forms :: "intake \<Rightarrow> intake \<Rightarrow> bool" where
  "same_forms s s' \<longleftrightarrow> ik_types s' = ik_types s \<and> ik_versions s' = ik_versions s"

lemma forms_ok_same: "same_forms s s' \<Longrightarrow> forms_ok regex s \<Longrightarrow> forms_ok regex s'"
  by (simp add: same_forms_def forms_ok_def versions_of_def)

text \<open>Rows that keep their id and version number.\<close>

lemma forms_ok_map:
  assumes "forms_ok regex s" and "\<And>t. rt_id (f t) = rt_id t \<and> rt_currentVersion (f t) = rt_currentVersion t"
    and "ik_types s' = map f (ik_types s)" "ik_versions s' = ik_versions s"
  shows "forms_ok regex s'"
proof -
  have ids: "map rt_id (ik_types s') = map rt_id (ik_types s)" using assms(2,3) by simp
  then have "rt_id ` set (ik_types s') = rt_id ` set (ik_types s)" by (metis set_map)
  with ids have keys: "distinct (map rt_id (ik_types s'))" "\<forall>v\<in>set (ik_versions s'). readable regex v \<and> fv_requestTypeId v \<in> rt_id ` set (ik_types s')"
    using assms(1,4) by (simp_all add: forms_ok_def)
  have "\<forall>t\<in>set (ik_types s'). versions_of (rt_id t) s' = [1..<Suc (rt_currentVersion t)]"
    using assms by (simp add: forms_ok_def versions_of_def del: upt_Suc)
  with keys show ?thesis by (simp add: forms_ok_def)
qed

lemma type_edit_commit_ok:
  assumes "type_edit_commit regex now plan s = Inr s'"
  obtains f where "\<And>t. rt_id (f t) = rt_id t \<and> rt_currentVersion (f t) = rt_currentVersion t" and "ik_types s' = map f (ik_types s)"
    and "ik_versions s' = ik_versions s" and "ik_uploads s' = ik_uploads s" and "ik_attachments s' = ik_attachments s"
    and "tk_fields (ik_tracker s') = tk_fields (ik_tracker s)" and "tk_fieldConfigs (ik_tracker s') = tk_fieldConfigs (ik_tracker s)"
proof -
  obtain cx current b belongs where plan: "plan = (cx, current, b, belongs)" by (cases plan) auto
  obtain schema position where s': "type_audit cx (if field ''archived'' b = JBool True then ''service.request_type.archived'' else ''service.request_type.updated'')
       (rt_id current) [(''projectId'', JStr (rt_projectId current))]
       (set_types (map (\<lambda>t. if rt_id t = rt_id current then edited_type now current b schema position t else t)) s) = s'"
    using assms unfolding plan type_edit_commit_def Let_def prod.case by (simp only: handler_simps) (elim exE conjE, rule that, assumption)
  show ?thesis
  proof (rule that)
    show "ik_types s' = map (\<lambda>t. if rt_id t = rt_id current then edited_type now current b schema position t else t) (ik_types s)"
      by (simp add: s' [symmetric])
  qed (simp_all add: s' [symmetric] edited_type_def, simp_all add: type_audit_def set_core_def)
qed

lemma request_types_POST_ok:
  assumes "request_types_POST regex new context key body s = Inr s'"
  obtains t where "ik_types s' = ik_types s @ [t]" and "rt_id t = new" and "rt_currentVersion t = 0" and "new \<notin> rt_id ` set (ik_types s)"
    and "ik_versions s' = ik_versions s" and "ik_uploads s' = ik_uploads s" and "ik_attachments s' = ik_attachments s"
proof -
  obtain cx and p :: project where "form_admin context key s = Inr (cx, p)"
    using assms by (auto simp: request_types_POST_def bind_result_eq_Inr)
  note run = assms [unfolded request_types_POST_def this bind_result_Inr prod.case]
  let ?row = "\<lambda>t st schema position. \<lparr>rt_id = new, rt_projectId = p_id p, rt_portalGroupId = as_string (field ''portalGroupId'' body), rt_issueTypeId = t,
                          rt_initialStatusId = st, rt_name = trim (string_or_empty (field ''name'' body)), rt_description = map_option trim (as_string (field ''description'' body)),
                          rt_icon = map_option (take 50) (as_string (field ''icon'' body)), rt_position = position, rt_draftSchema = schema_json schema,
                          rt_draftConsentText = map_option trim (as_string (field ''consentText'' body)), rt_currentVersion = 0,
                          rt_publishedAt = None, rt_archivedAt = None\<rparr>"
  obtain t st schema position where fresh: "\<not> (type_named s new (p_id p) (trim (string_or_empty (field ''name'' body))) \<or> new \<in> rt_id ` set (ik_types s))"
    and s': "type_audit cx ''service.request_type.created'' new [(''projectId'', JStr (p_id p))]
       (set_types (\<lambda>ts. ts @ [?row t st schema position]) s) = s'"
    using run by (simp only: handler_simps) (elim exE conjE, rule that, assumption+)
  show ?thesis
  proof (rule that)
    show "ik_types s' = ik_types s @ [?row t st schema position]" by (simp add: s' [symmetric])
  qed (use fresh in \<open>simp_all add: s' [symmetric]\<close>)
qed

lemma publish_commit_ok:
  assumes "publish_commit regex new now (cx, current) s = Inr s'"
  obtains schema v where "parsePortalSchema regex False (rt_draftSchema current) = Inr schema" and "ik_versions s' = ik_versions s @ [v]"
    and "fv_schema v = schema_json schema" and "fv_requestTypeId v = rt_id current" and "fv_version v = rt_currentVersion current + 1"
    and "fv_id v = new"
    and "count_rows (\<lambda>t. rt_id t = rt_id current \<and> rt_currentVersion t = rt_currentVersion current) (ik_types s) = 1"
    and "ik_types s' = map (\<lambda>t. if rt_id t = rt_id current \<and> rt_currentVersion t = rt_currentVersion current
           then t\<lparr>rt_currentVersion := rt_currentVersion current + 1, rt_publishedAt := Some now\<rparr> else t) (ik_types s)"
    and "ik_uploads s' = ik_uploads s" and "ik_attachments s' = ik_attachments s"
proof -
  let ?v = "\<lambda>schema. \<lparr>fv_id = new, fv_requestTypeId = rt_id current, fv_version = rt_currentVersion current + 1, fv_name = rt_name current,
    fv_description = rt_description current, fv_icon = rt_icon current, fv_schema = schema_json schema,
    fv_consentText = rt_draftConsentText current, fv_publishedById = cx_userId cx\<rparr>"
  obtain schema where schema: "parsePortalSchema regex False (rt_draftSchema current) = Inr schema"
    and one: "\<not> count_rows (\<lambda>t. rt_id t = rt_id current \<and> rt_currentVersion t = rt_currentVersion current) (ik_types s) \<noteq> 1"
    and s': "type_audit cx ''service.request_type.published'' (rt_id current)
      [(''projectId'', JStr (rt_projectId current)), (''version'', JInt (int (rt_currentVersion current + 1)))]
      (set_types (map (\<lambda>t. if rt_id t = rt_id current \<and> rt_currentVersion t = rt_currentVersion current
         then t\<lparr>rt_currentVersion := rt_currentVersion current + 1, rt_publishedAt := Some now\<rparr> else t))
       (s\<lparr>ik_versions := ik_versions s @ [?v schema]\<rparr>)) = s'"
    using assms unfolding publish_commit_def Let_def prod.case by (simp only: handler_simps) (elim exE conjE, rule that, assumption+)
  show ?thesis
  proof (rule that [OF schema])
    show "ik_versions s' = ik_versions s @ [?v schema]" by (simp add: s' [symmetric])
  qed (use one in \<open>simp_all add: s' [symmetric]\<close>)
qed

lemma publish_commit_keeps:
  assumes "publish_commit regex new now plan s = Inr s'" and ok: "forms_ok regex s"
  shows "forms_ok regex s'"
proof -
  obtain cx current where plan: "plan = (cx, current)" by (cases plan)
  let ?hit = "\<lambda>t. rt_id t = rt_id current \<and> rt_currentVersion t = rt_currentVersion current"
  from publish_commit_ok [OF assms(1) [unfolded plan]] obtain schema v
    where schema: "parsePortalSchema regex False (rt_draftSchema current) = Inr schema" and versions: "ik_versions s' = ik_versions s @ [v]"
      and v: "fv_schema v = schema_json schema" "fv_requestTypeId v = rt_id current" "fv_version v = rt_currentVersion current + 1"
      and one: "count_rows ?hit (ik_types s) = 1"
      and types: "ik_types s' = map (\<lambda>t. if ?hit t then t\<lparr>rt_currentVersion := rt_currentVersion current + 1, rt_publishedAt := Some now\<rparr> else t) (ik_types s)"
    by blast
  have ids: "map rt_id (ik_types s') = map rt_id (ik_types s)" by (simp add: types)
  then have set_ids: "rt_id ` set (ik_types s') = rt_id ` set (ik_types s)" by (metis set_map)
  from one have "\<exists>t\<in>set (ik_types s). ?hit t" using count_rows_0 [of ?hit "ik_types s"] by auto
  then obtain row where row: "row \<in> set (ik_types s)" "?hit row" by blast
  have only: "?hit t" if "t \<in> set (ik_types s)" "rt_id t = rt_id current" for t
    using unique_key [of rt_id "ik_types s" t row] ok that row by (simp add: forms_ok_def)
  have "readable regex v" using schema_round_trip [OF schema] v(1) by (auto simp: readable_def)
  moreover have "rt_id current \<in> rt_id ` set (ik_types s)" using row by (metis imageI)
  ultimately have rows: "\<forall>x\<in>set (ik_versions s'). readable regex x \<and> fv_requestTypeId x \<in> rt_id ` set (ik_types s')"
    using ok v(2) by (auto simp: forms_ok_def versions set_ids)
  have "versions_of (rt_id y) s' = [1..<Suc (rt_currentVersion y)]" if "y \<in> set (ik_types s')" for y
  proof -
    from that obtain t where t: "t \<in> set (ik_types s)"
      "y = (if ?hit t then t\<lparr>rt_currentVersion := rt_currentVersion current + 1, rt_publishedAt := Some now\<rparr> else t)" by (auto simp: types)
    have old: "versions_of (rt_id t) s = [1..<Suc (rt_currentVersion t)]" using ok t(1) by (simp add: forms_ok_def)
    have grow: "versions_of i s' = versions_of i s @ (if i = rt_id current then [rt_currentVersion current + 1] else [])" for i
      by (simp add: versions_of_def versions v)
    show ?thesis
    proof (cases "rt_id t = rt_id current")
      case True
      then show ?thesis using only [OF t(1) True] old t(2) grow by simp
    next
      case False
      then show ?thesis using old t(2) grow by simp
    qed
  qed
  then show ?thesis using ok rows ids by (simp add: forms_ok_def)
qed

lemma request_types_POST_keeps:
  assumes "request_types_POST regex new context key body s = Inr s'" and ok: "forms_ok regex s"
  shows "forms_ok regex s'"
proof -
  from request_types_POST_ok [OF assms(1)] obtain t where types: "ik_types s' = ik_types s @ [t]"
    and t: "rt_id t = new" "rt_currentVersion t = 0" "new \<notin> rt_id ` set (ik_types s)" and versions: "ik_versions s' = ik_versions s" by blast
  have "versions_of new s' = []" using ok t(3) by (auto simp: forms_ok_def versions_of_def versions filter_empty_conv)
  moreover have "\<forall>x\<in>set (ik_types s). versions_of (rt_id x) s' = [1..<Suc (rt_currentVersion x)]"
    using ok by (simp add: forms_ok_def versions_of_def versions del: upt_Suc)
  ultimately have "\<forall>x\<in>set (ik_types s'). versions_of (rt_id x) s' = [1..<Suc (rt_currentVersion x)]" using t by (simp add: types)
  then show ?thesis using ok t by (auto simp: forms_ok_def types versions)
qed

lemma announce_parts [simp]: "tk_core (announce_issue fp i tk) = tk_core tk" "tk_requests (announce_issue fp i tk) = tk_requests tk"
  by (simp_all add: announce_issue_def announce_def Let_def)

lemma store_request_tables [simp]:
  "ik_types (store_request now fp a i r s) = ik_types s" "ik_versions (store_request now fp a i r s) = ik_versions s"
  "ik_uploads (store_request now fp a i r s) = claim_uploads now (map up_id (ad_uploads a)) (ik_uploads s)"
  "ik_attachments (store_request now fp a i r s) = ik_attachments s @ map (attachment_of (i_id i)) (ad_uploads a)"
  "ik_core (store_request now fp a i r s) = ik_core s" "ik_tracker (store_request now fp a i r s) = ik_tracker s"
  by (simp_all add: store_request_def Let_def)

text \<open>What a submission that succeeded has passed, and what it left.\<close>

lemma submit_write_ok:
  assumes "submit_write new now fp a s = Inr s'"
  obtains q st i r where "find (\<lambda>q. p_id q = rt_projectId (fp_type fp)) (db_projects (ik_core s)) = Some q"
    and "find (\<lambda>x. st_id x = rt_initialStatusId (fp_type fp)) (db_statuses (ik_core s)) = Some st"
    and "\<forall>x\<in>set (db_issues (ik_core s)). i_id x \<noteq> new 0" and "\<forall>r\<in>set (po_requests (ik_portal s)). sr_id r \<noteq> new 1"
    and "i = submitted_issue fp a st (new 0) (p_issueSequence q + 1) now" and "r = submitted_request fp a (new 1) (new 0) now"
    and "s' = store_request now fp a i r (s\<lparr>ik_desk := (ik_desk s)\<lparr>de_tracker := announce_issue fp i (store_issue fp a st i (ik_tracker s))\<rparr>\<rparr>)"
    and "ik_uploads s' = claim_uploads now (map up_id (ad_uploads a)) (ik_uploads s)"
    and "ik_attachments s' = ik_attachments s @ map (attachment_of (i_id i)) (ad_uploads a)"
    and "same_forms s s'"
    and "count_rows (\<lambda>u. up_id u \<in> set (map up_id (ad_uploads a)) \<and> up_usedAt u = None) (ik_uploads s) = length (ad_uploads a)"
proof -
  obtain q st where q: "find (\<lambda>q. p_id q = rt_projectId (fp_type fp)) (db_projects (ik_core s)) = Some q"
    and st: "find (\<lambda>x. st_id x = rt_initialStatusId (fp_type fp)) (db_statuses (ik_core s)) = Some st"
    and fresh: "\<not> (\<not> list_ex (\<lambda>x. it_id x = rt_issueTypeId (fp_type fp)) (db_issueTypes (ik_core s)) \<or> list_ex (\<lambda>x. i_id x = new 0) (db_issues (ik_core s))
          \<or> list_ex (\<lambda>r. sr_id r = new 1) (po_requests (ik_portal s)))"
    and count: "\<not> count_rows (\<lambda>u. up_id u \<in> set (map up_id (ad_uploads a)) \<and> up_usedAt u = None) (ik_uploads s) \<noteq> length (ad_uploads a)"
    and s': "store_request now fp a (submitted_issue fp a st (new 0) (p_issueSequence q + 1) now) (submitted_request fp a (new 1) (new 0) now)
        (s\<lparr>ik_desk := (ik_desk s)\<lparr>de_tracker := announce_issue fp (submitted_issue fp a st (new 0) (p_issueSequence q + 1) now)
           (store_issue fp a st (submitted_issue fp a st (new 0) (p_issueSequence q + 1) now) (ik_tracker s))\<rparr>\<rparr>) = s'"
    using assms unfolding submit_write_def by (simp only: handler_simps) (elim exE conjE, rule that, assumption+)
  show ?thesis by (rule that [OF q st _ _ refl refl s' [symmetric]]) (use fresh count in \<open>auto simp: list_ex_iff same_forms_def s' [symmetric]\<close>)
qed

lemma submit_commit_ok:
  assumes "submit_commit regex parse_url new now fp s = Inr s'"
  obtains a q st i r where "accept_submission regex parse_url now fp s = Inr a"
    and "find (\<lambda>q. p_id q = rt_projectId (fp_type fp)) (db_projects (ik_core s)) = Some q"
    and "find (\<lambda>x. st_id x = rt_initialStatusId (fp_type fp)) (db_statuses (ik_core s)) = Some st"
    and "\<forall>x\<in>set (db_issues (ik_core s)). i_id x \<noteq> new 0" and "\<forall>r\<in>set (po_requests (ik_portal s)). sr_id r \<noteq> new 1"
    and "i = submitted_issue fp a st (new 0) (p_issueSequence q + 1) now" and "r = submitted_request fp a (new 1) (new 0) now"
    and "s' = store_request now fp a i r (s\<lparr>ik_desk := (ik_desk s)\<lparr>de_tracker := announce_issue fp i (store_issue fp a st i (ik_tracker s))\<rparr>\<rparr>)"
    and "ik_uploads s' = claim_uploads now (map up_id (ad_uploads a)) (ik_uploads s)"
    and "ik_attachments s' = ik_attachments s @ map (attachment_of (i_id i)) (ad_uploads a)"
    and "same_forms s s'"
proof -
  from assms obtain a where a: "accept_submission regex parse_url now fp s = Inr a" and w: "submit_write new now fp a s = Inr s'"
    by (auto simp: submit_commit_def bind_result_eq_Inr)
  show ?thesis by (rule submit_write_ok [OF w], rule that [OF a]) assumption+
qed

text \<open>The state with the submissions that have read and not yet written.\<close>

record intake_run =
  ir_intake :: intake
  ir_reading :: "(form_plan \<times> accepted) list"

datatype intake_event =
    Post_Type string "auth_context option" string jobj
  | Edit_Type time "auth_context \<times> request_type \<times> jobj \<times> bool"
  | Publish string time "auth_context \<times> request_type"
  | Upload_File string string time "visitor option" string "upload_file option"
  | Submit "nat \<Rightarrow> string" time form_plan
  | Read_Submission time form_plan
  | Write_Submission "nat \<Rightarrow> string" time nat

text \<open>
  Any interleaving: an edit, a publication or a submission commits with a plan from any earlier state, or
  with no check at all, and a submission may read in one state and write in a later one.
\<close>

fun intake_step :: "regex_engine \<Rightarrow> url_parser \<Rightarrow> intake_event \<Rightarrow> intake \<Rightarrow> intake" where
  "intake_step regex parse_url (Post_Type new context key body) s = (case request_types_POST regex new context key body s of Inl _ \<Rightarrow> s | Inr s' \<Rightarrow> s')"
| "intake_step regex parse_url (Edit_Type now plan) s = (case type_edit_commit regex now plan s of Inl _ \<Rightarrow> s | Inr s' \<Rightarrow> s')"
| "intake_step regex parse_url (Publish new now plan) s = (case publish_commit regex new now plan s of Inl _ \<Rightarrow> s | Inr s' \<Rightarrow> s')"
| "intake_step regex parse_url (Upload_File new uuid now who i file) s = (case upload_POST new uuid now who i file s of Inl _ \<Rightarrow> s | Inr s' \<Rightarrow> s')"
| "intake_step regex parse_url (Submit new now fp) s = (case submit_commit regex parse_url new now fp s of Inl _ \<Rightarrow> s | Inr s' \<Rightarrow> s')"
| "intake_step regex parse_url _ s = s"

fun run_step :: "regex_engine \<Rightarrow> url_parser \<Rightarrow> intake_event \<Rightarrow> intake_run \<Rightarrow> intake_run" where
  "run_step regex parse_url (Read_Submission now fp) r =
     (case accept_submission regex parse_url now fp (ir_intake r) of
        Inl _ \<Rightarrow> r | Inr a \<Rightarrow> r\<lparr>ir_reading := (fp, a) # ir_reading r\<rparr>)"
| "run_step regex parse_url (Write_Submission new now n) r =
     (if n < length (ir_reading r)
      then (case submit_write new now (fst (ir_reading r ! n)) (snd (ir_reading r ! n)) (ir_intake r) of
              Inl _ \<Rightarrow> r | Inr s' \<Rightarrow> r\<lparr>ir_intake := s'\<rparr>)
      else r)"
| "run_step regex parse_url e r = r\<lparr>ir_intake := intake_step regex parse_url e (ir_intake r)\<rparr>"

lemma upload_POST_ok:
  assumes "upload_POST new uuid now who i file s = Inr s'"
  obtains u where "s' = s\<lparr>ik_uploads := ik_uploads s @ [u]\<rparr>" and "up_usedAt u = None" and "up_id u \<notin> up_id ` set (ik_uploads s)"
    and "up_objectKey u \<notin> up_objectKey ` set (ik_uploads s)"
proof -
  obtain v tp f where t: "published_type v i s = Some tp" and who: "who = Some v" and f: "file = Some f"
    using assms by (auto simp: upload_POST_def split: option.splits if_splits)
  show ?thesis
    using assms that unfolding who f upload_POST_def option.case t by (auto simp: Let_def split: if_splits)
qed

lemma submit_forms: "submit_commit regex parse_url new now fp s = Inr s' \<Longrightarrow> same_forms s s'"
  by (erule submit_commit_ok)

lemma write_forms: "submit_write new now fp a s = Inr s' \<Longrightarrow> same_forms s s'"
  by (erule submit_write_ok)

lemma upload_forms: "upload_POST new uuid now who i file s = Inr s' \<Longrightarrow> same_forms s s'"
  by (erule upload_POST_ok) (simp add: same_forms_def)

lemma intake_step_forms:
  assumes ok: "forms_ok regex s"
  shows "forms_ok regex (intake_step regex parse_url e s)"
proof (cases e)
  case (Edit_Type now plan)
  then show ?thesis using ok by (auto elim!: type_edit_commit_ok intro: forms_ok_map split: sum.splits)
qed (use ok in \<open>auto intro: forms_ok_same submit_forms upload_forms publish_commit_keeps request_types_POST_keeps split: sum.splits\<close>)

interpretation published: kept "run_step regex parse_url" "\<lambda>r. forms_ok regex (ir_intake r)" for regex parse_url
proof
  fix r :: intake_run and e assume ok: "forms_ok regex (ir_intake r)"
  show "forms_ok regex (ir_intake (run_step regex parse_url e r))"
    by (cases e) (use ok in \<open>auto intro: forms_ok_same write_forms intake_step_forms simp del: intake_step.simps split: sum.splits\<close>)
qed

lemma versions_grow_step: "\<exists>more. ik_versions (intake_step regex parse_url e s) = ik_versions s @ more"
proof (cases e)
  case (Publish new now plan)
  then show ?thesis by (cases plan) (auto elim!: publish_commit_ok split: sum.splits)
qed (auto simp: same_forms_def elim!: type_edit_commit_ok request_types_POST_ok dest: submit_forms upload_forms split: sum.splits)

lemma versions_grow_run: "\<exists>more. ik_versions (ir_intake (run_step regex parse_url e r)) = ik_versions (ir_intake r) @ more"
  by (cases e) (auto simp: same_forms_def dest: write_forms intro: versions_grow_step simp del: intake_step.simps split: sum.splits)

lemma versions_grow: "\<exists>more. ik_versions (ir_intake (fold (run_step regex parse_url) es s)) = ik_versions (ir_intake s) @ more"
proof (induction es arbitrary: s)
  case (Cons e es)
  obtain m where "ik_versions (ir_intake (run_step regex parse_url e s)) = ik_versions (ir_intake s) @ m" using versions_grow_run by blast
  moreover obtain m' where "ik_versions (ir_intake (fold (run_step regex parse_url) es (run_step regex parse_url e s)))
      = ik_versions (ir_intake (run_step regex parse_url e s)) @ m'"
    using Cons by blast
  ultimately show ?case by simp
qed simp

lemma first_by_SomeD:
  assumes "first_by key P rows = Some r"
  shows "r \<in> set rows \<and> P r"
proof -
  from assms obtain rs where "sort_key key (filter P rows) = r # rs" by (auto simp: first_by_def split: list.splits)
  then have "r \<in> set (sort_key key (filter P rows))" by simp
  then show ?thesis by simp
qed

lemma latest_version_in: "latest_version s tid = Some v \<Longrightarrow> v \<in> set (ik_versions s)"
  unfolding latest_version_def by (blast dest: first_by_SomeD)

text \<open>
  C26: However edits of drafts, publications, uploads and the reads and writes of submissions interleave: the versions of a request type
  are numbered one after the other up to its current version, a published version never changes, and
  every published form can be shown to customers.
\<close>

theorem published_forms_stay_open:
  assumes "forms_ok regex (ir_intake r)" and s'_def: "s' = ir_intake (fold (run_step regex parse_url) es r)"
  shows "form_GET regex who i s' \<noteq> Inl 500 \<and> (\<exists>more. ik_versions s' = ik_versions (ir_intake r) @ more)
    \<and> (\<forall>t\<in>set (ik_types s'). versions_of (rt_id t) s' = [1..<Suc (rt_currentVersion t)])"
proof -
  have ok: "forms_ok regex s'" unfolding s'_def by (rule published.run_inv [OF assms(1)])
  have "form_GET regex who i s' \<noteq> Inl 500"
  proof
    assume "form_GET regex who i s' = Inl 500"
    then obtain v where "bind_result (published_form v i [] s') (\<lambda>fp. caught 500 (publicForm regex (fp_version fp))) = Inl 500"
      by (auto simp: form_GET_def split: option.splits)
    moreover have "published_form v i [] s' \<noteq> Inl 500" by (auto simp: published_form_def split: option.splits)
    ultimately obtain fp where "published_form v i [] s' = Inr fp" and bad: "caught 500 (publicForm regex (fp_version fp)) = Inl 500"
      by (auto simp: bind_result_eq_Inl)
    then have "fp_version fp \<in> set (ik_versions s')"
      by (auto simp: published_form_def split: option.splits if_splits intro: latest_version_in)
    then obtain schema where "parsePortalSchema regex False (fv_schema (fp_version fp)) = Inr schema" using ok by (auto simp: forms_ok_def readable_def)
    then show False using bad by (simp add: publicForm_def caught_def)
  qed
  then show ?thesis using ok versions_grow [of regex parse_url es r] unfolding s'_def forms_ok_def by blast
qed

section \<open>Uploads are attached once\<close>

definition uploads_ok :: "intake \<Rightarrow> bool" where
  "uploads_ok s \<longleftrightarrow> distinct (map up_id (ik_uploads s)) \<and> distinct (map up_objectKey (ik_uploads s)) \<and> distinct (map pa_objectKey (ik_attachments s))
     \<and> (\<forall>x\<in>set (ik_attachments s). \<exists>u\<in>set (ik_uploads s). up_objectKey u = pa_objectKey x \<and> up_usedAt u \<noteq> None)"

text \<open>What a submission has read of the uploads stays true of their keys, not of their use.\<close>

definition reading_ok :: "intake \<Rightarrow> accepted \<Rightarrow> bool" where
  "reading_ok s a \<longleftrightarrow> distinct (map up_id (ad_uploads a))
     \<and> (\<forall>u\<in>set (ad_uploads a). \<exists>w\<in>set (ik_uploads s). up_id w = up_id u \<and> up_objectKey w = up_objectKey u)"

definition run_ok :: "intake_run \<Rightarrow> bool" where
  "run_ok r \<longleftrightarrow> uploads_ok (ir_intake r) \<and> (\<forall>(fp, a)\<in>set (ir_reading r). reading_ok (ir_intake r) a)"

lemma claim_uploads_keys [simp]: "map up_objectKey (claim_uploads now ids us) = map up_objectKey us"
  "map up_id (claim_uploads now ids us) = map up_id us"
  by (simp_all add: claim_uploads_def)

lemma claimed_used:
  assumes "u \<in> set us" and "up_usedAt u \<noteq> None \<or> up_id u \<in> set ids"
  shows "\<exists>w\<in>set (claim_uploads now ids us). up_objectKey w = up_objectKey u \<and> up_usedAt w \<noteq> None"
proof
  let ?w = "if up_id u \<in> set ids \<and> up_usedAt u = None then u\<lparr>up_usedAt := Some now\<rparr> else u"
  show "up_objectKey ?w = up_objectKey u \<and> up_usedAt ?w \<noteq> None" using assms(2) by (cases "up_usedAt u") auto
  show "?w \<in> set (claim_uploads now ids us)" unfolding claim_uploads_def set_map using assms(1) by (rule imageI)
qed

lemma accept_submission_ok:
  assumes "accept_submission regex parse_url now fp s = Inr a"
  obtains "share_organization s (fp_visitor fp) (rt_projectId (fp_type fp)) (fp_body fp) = Inr (ad_organization a)"
    and "participants_of s (fp_visitor fp) (rt_projectId (fp_type fp)) (fp_body fp) = Inr (ad_participants a)"
    and "validatePortalSubmission regex (fv_schema (fp_version fp)) (field ''values'' (fp_body fp)) (fv_consentText (fp_version fp)) = Inr (ad_schema a, ad_values a)"
    and "ad_uploads a = usable_uploads s now fp (upload_ids (ad_schema a) (ad_values a))"
    and "length (ad_uploads a) = length (uniq (upload_ids (ad_schema a) (ad_values a)))"
proof -
  obtain organization participants validated summary custom
    where o: "share_organization s (fp_visitor fp) (rt_projectId (fp_type fp)) (fp_body fp) = Inr organization"
      and p: "participants_of s (fp_visitor fp) (rt_projectId (fp_type fp)) (fp_body fp) = Inr participants"
      and v: "validatePortalSubmission regex (fv_schema (fp_version fp)) (field ''values'' (fp_body fp)) (fv_consentText (fp_version fp)) = Inr validated"
      and u: "\<not> length (usable_uploads s now fp (upload_ids (fst validated) (snd validated))) \<noteq> length (uniq (upload_ids (fst validated) (snd validated)))"
      and a: "\<lparr>ad_organization = organization, ad_participants = participants, ad_schema = fst validated, ad_values = snd validated,
                   ad_summary = trim summary, ad_uploads = usable_uploads s now fp (upload_ids (fst validated) (snd validated)), ad_custom = custom\<rparr> = a"
    using assms unfolding accept_submission_def by (simp only: handler_simps) (elim exE conjE, rule that, assumption+)
  show ?thesis by (rule that) (use o p v u in \<open>simp_all add: a [symmetric]\<close>)
qed

lemma accept_reading:
  assumes "accept_submission regex parse_url now fp s = Inr a" and "uploads_ok s"
  shows "reading_ok s a"
proof -
  from accept_submission_ok [OF assms(1)] have u: "ad_uploads a = usable_uploads s now fp (upload_ids (ad_schema a) (ad_values a))" by blast
  have "distinct (map up_id (ad_uploads a))"
    unfolding u usable_uploads_def using assms(2) by (intro distinct_map_filter) (simp add: uploads_ok_def)
  moreover have "\<exists>w\<in>set (ik_uploads s). up_id w = up_id x \<and> up_objectKey w = up_objectKey x" if "x \<in> set (ad_uploads a)" for x
    using that by (intro bexI [of _ x]) (simp_all add: u usable_uploads_def)
  ultimately show ?thesis by (simp add: reading_ok_def)
qed

text \<open>A claim that counts all its rows finds each of them unused.\<close>

lemma full_claim:
  assumes "distinct (map k rows)" and "distinct ids" and "count_rows (\<lambda>r. k r \<in> set ids \<and> P r) rows = length ids" and "i \<in> set ids"
  shows "\<exists>r\<in>set rows. k r = i \<and> P r"
proof -
  let ?hit = "filter (\<lambda>r. k r \<in> set ids \<and> P r) rows"
  have "card (set (map k ?hit)) = length (map k ?hit)" by (rule distinct_card) (rule distinct_map_filter [OF assms(1)])
  then have "card (k ` set ?hit) = length ids" using assms(3) by (simp only: set_map length_map count_rows_def)
  also have "length ids = card (set ids)" by (rule distinct_card [OF assms(2), symmetric])
  finally have "card (k ` set ?hit) = card (set ids)" .
  then have "k ` set ?hit = set ids" by (intro card_subset_eq) auto
  with assms(4) have "i \<in> k ` set ?hit" by simp
  then obtain r where "r \<in> set ?hit" "i = k r" by (rule imageE)
  then show ?thesis by (intro bexI [of _ r]) simp_all
qed

lemma write_keeps_uploads:
  assumes "submit_write new now fp a s = Inr s'" and ok: "uploads_ok s" and reading: "reading_ok s a"
  shows "uploads_ok s'"
proof -
  from assms(1) obtain i :: issue where uploads: "ik_uploads s' = claim_uploads now (map up_id (ad_uploads a)) (ik_uploads s)"
    and attachments: "ik_attachments s' = ik_attachments s @ map (attachment_of (i_id i)) (ad_uploads a)"
    and count: "count_rows (\<lambda>u. up_id u \<in> set (map up_id (ad_uploads a)) \<and> up_usedAt u = None) (ik_uploads s) = length (ad_uploads a)"
    by (rule submit_write_ok) (rule that, assumption+)
  have ids: "distinct (map up_id (ik_uploads s))" and keys: "distinct (map up_objectKey (ik_uploads s))" using ok by (simp_all add: uploads_ok_def)
  have fresh: "\<exists>w\<in>set (ik_uploads s). up_id w = up_id u \<and> up_objectKey w = up_objectKey u \<and> up_usedAt w = None" if "u \<in> set (ad_uploads a)" for u
  proof -
    from full_claim [OF ids _ count [folded length_map [of up_id "ad_uploads a"]], of "up_id u"] reading that
    obtain w where w: "w \<in> set (ik_uploads s)" "up_id w = up_id u" "up_usedAt w = None" by (auto simp: reading_ok_def)
    from reading that obtain v where v: "v \<in> set (ik_uploads s)" "up_id v = up_id u" "up_objectKey v = up_objectKey u" by (auto simp: reading_ok_def)
    have "v = w" using unique_key [OF ids v(1) w(1)] v(2) w(2) by simp
    with v w show ?thesis by blast
  qed
  have key_id: "up_id u = up_id v" if "u \<in> set (ad_uploads a)" "v \<in> set (ad_uploads a)" "up_objectKey u = up_objectKey v" for u v
  proof -
    from fresh [OF that(1)] obtain w where w: "w \<in> set (ik_uploads s)" "up_id w = up_id u" "up_objectKey w = up_objectKey u" by blast
    from fresh [OF that(2)] obtain x where x: "x \<in> set (ik_uploads s)" "up_id x = up_id v" "up_objectKey x = up_objectKey v" by blast
    have "w = x" using unique_key [OF keys w(1) x(1)] w(3) x(3) that(3) by simp
    with w(2) x(2) show ?thesis by simp
  qed
  have "distinct (map up_id (ad_uploads a))" using reading by (simp add: reading_ok_def)
  then have "distinct (map up_objectKey (ad_uploads a))" using key_id unfolding distinct_map inj_on_def by blast
  moreover have "pa_objectKey x \<noteq> up_objectKey u" if "u \<in> set (ad_uploads a)" "x \<in> set (ik_attachments s)" for u x
  proof
    assume same: "pa_objectKey x = up_objectKey u"
    from ok that(2) obtain w where w: "w \<in> set (ik_uploads s)" "up_objectKey w = pa_objectKey x" "up_usedAt w \<noteq> None" by (auto simp: uploads_ok_def)
    from fresh [OF that(1)] obtain v where v: "v \<in> set (ik_uploads s)" "up_objectKey v = up_objectKey u" "up_usedAt v = None" by blast
    have "w = v" using unique_key [OF keys w(1) v(1)] w(2) v(2) same by simp
    with w(3) v(3) show False by simp
  qed
  ultimately have "distinct (map pa_objectKey (ik_attachments s'))"
    using ok by (auto simp: uploads_ok_def attachments attachment_of_def comp_def)
  moreover have "\<exists>u\<in>set (ik_uploads s'). up_objectKey u = pa_objectKey x \<and> up_usedAt u \<noteq> None" if x: "x \<in> set (ik_attachments s')" for x
  proof (cases "x \<in> set (ik_attachments s)")
    case True
    then obtain u where "u \<in> set (ik_uploads s)" "up_objectKey u = pa_objectKey x" "up_usedAt u \<noteq> None" using ok by (auto simp: uploads_ok_def)
    then show ?thesis using claimed_used [of u] unfolding uploads by metis
  next
    case False
    then obtain u where u: "u \<in> set (ad_uploads a)" "pa_objectKey x = up_objectKey u" using x by (auto simp: attachments attachment_of_def)
    from fresh [OF u(1)] obtain w where w: "w \<in> set (ik_uploads s)" "up_id w = up_id u" "up_objectKey w = up_objectKey u" by blast
    have "up_id w \<in> set (map up_id (ad_uploads a))" using u(1) w(2) by simp
    with claimed_used [OF w(1), of "map up_id (ad_uploads a)" now] w(3) u(2) show ?thesis unfolding uploads by simp
  qed
  ultimately show ?thesis using ids keys by (simp add: uploads_ok_def uploads)
qed

lemma submit_keeps_uploads: "submit_commit regex parse_url new now fp s = Inr s' \<Longrightarrow> uploads_ok s \<Longrightarrow> uploads_ok s'"
  by (auto simp: submit_commit_def bind_result_eq_Inr intro: write_keeps_uploads accept_reading)

lemma uploads_ok_same: "ik_uploads s' = ik_uploads s \<Longrightarrow> ik_attachments s' = ik_attachments s \<Longrightarrow> uploads_ok s \<Longrightarrow> uploads_ok s'"
  by (simp add: uploads_ok_def)

lemma upload_keeps_uploads: "upload_POST new uuid now who i file s = Inr s' \<Longrightarrow> uploads_ok s \<Longrightarrow> uploads_ok s'"
  by (erule upload_POST_ok) (auto simp: uploads_ok_def)

lemma intake_step_uploads:
  assumes ok: "uploads_ok s"
  shows "uploads_ok (intake_step regex parse_url e s)"
proof (cases e)
  case (Publish new now plan)
  then show ?thesis using ok by (cases plan) (auto elim!: publish_commit_ok intro: uploads_ok_same split: sum.splits)
qed (use ok in \<open>auto elim!: type_edit_commit_ok request_types_POST_ok intro: uploads_ok_same submit_keeps_uploads upload_keeps_uploads split: sum.splits\<close>)

text \<open>No step takes an upload away or changes its keys.\<close>

definition same_keys :: "intake \<Rightarrow> intake \<Rightarrow> bool" where
  "same_keys s s' \<longleftrightarrow> (\<lambda>u. (up_id u, up_objectKey u)) ` set (ik_uploads s) \<subseteq> (\<lambda>u. (up_id u, up_objectKey u)) ` set (ik_uploads s')"

lemma claim_same_keys: "(\<lambda>u. (up_id u, up_objectKey u)) ` set (claim_uploads now ids us) = (\<lambda>u. (up_id u, up_objectKey u)) ` set us"
  unfolding claim_uploads_def set_map image_image by (rule image_cong) simp_all

lemma write_same_keys: "submit_write new now fp a s = Inr s' \<Longrightarrow> same_keys s s'"
  by (erule submit_write_ok) (simp add: same_keys_def claim_same_keys)

lemma step_same_keys: "same_keys s (intake_step regex parse_url e s)"
proof (cases e)
  case (Publish new now plan)
  then show ?thesis by (cases plan) (auto simp: same_keys_def elim!: publish_commit_ok split: sum.splits)
next
  case (Submit new now fp)
  then show ?thesis by (auto simp: submit_commit_def bind_result_eq_Inr same_keys_def dest: write_same_keys [unfolded same_keys_def, THEN subsetD] split: sum.splits)
qed (auto simp: same_keys_def elim!: type_edit_commit_ok request_types_POST_ok upload_POST_ok split: sum.splits)

lemma reading_ok_mono:
  assumes "reading_ok s a" and "same_keys s s'"
  shows "reading_ok s' a"
proof -
  have "\<exists>w\<in>set (ik_uploads s'). up_id w = up_id u \<and> up_objectKey w = up_objectKey u" if "u \<in> set (ad_uploads a)" for u
  proof -
    from assms(1) that obtain w where w: "w \<in> set (ik_uploads s)" "up_id w = up_id u" "up_objectKey w = up_objectKey u" by (auto simp: reading_ok_def)
    from assms(2) w(1) have "(up_id w, up_objectKey w) \<in> (\<lambda>u. (up_id u, up_objectKey u)) ` set (ik_uploads s')" unfolding same_keys_def by blast
    with w show ?thesis by auto
  qed
  with assms(1) show ?thesis by (simp add: reading_ok_def)
qed

interpretation attached: kept "run_step regex parse_url" run_ok for regex parse_url
proof
  fix r :: intake_run and e assume ok: "run_ok r"
  have step: "run_ok (r\<lparr>ir_intake := s'\<rparr>)" if "uploads_ok s'" "same_keys (ir_intake r) s'" for s'
    using ok that(1) reading_ok_mono [OF _ that(2)] by (auto simp: run_ok_def)
  show "run_ok (run_step regex parse_url e r)"
  proof (cases e)
    case (Read_Submission now fp)
    then show ?thesis using ok by (auto simp: run_ok_def intro: accept_reading split: sum.splits)
  next
    case (Write_Submission new now n)
    have "reading_ok (ir_intake r) (snd (ir_reading r ! n))" if "n < length (ir_reading r)"
      using ok nth_mem [OF that] by (auto simp: run_ok_def)
    then show ?thesis using ok unfolding Write_Submission
      by (cases "submit_write new now (fst (ir_reading r ! n)) (snd (ir_reading r ! n)) (ir_intake r)")
        (simp_all add: step write_keeps_uploads write_same_keys run_ok_def [of r])
  qed (use ok step [OF intake_step_uploads step_same_keys] in \<open>simp_all add: run_ok_def del: intake_step.simps\<close>)
qed

text \<open>
  C27: However uploads and the reads and writes of submissions interleave, the content of an upload is attached to
  one issue at most, and to it once, also when several submissions read it while it was unused.
\<close>

theorem upload_attached_once:
  assumes "uploads_ok (ir_intake r)" and "ir_reading r = []"
  shows "distinct (map pa_objectKey (ik_attachments (ir_intake (fold (run_step regex parse_url) es r))))"
  using attached.run_inv [of r] assms by (simp add: run_ok_def uploads_ok_def)

section \<open>What a submission creates, and who sees it\<close>

lemma admitted_access: "admitted pdb cid pid \<longleftrightarrow> project_access pdb cid pid"
  by (auto simp: admitted_def project_access_def active_in_org_def list_ex_iff)

text \<open>
  C28: A submission that succeeds creates exactly one issue, with the next number of the project, and one
  request with the values that validation of the published schema accepts; the uploads it names
  become its attachments.
\<close>

theorem submission_creates_one_request:
  assumes "submit_commit regex parse_url new now fp s = Inr s'"
  shows "\<exists>i r q schema vals. db_issues (ik_core s') = db_issues (ik_core s) @ [i] \<and> po_requests (ik_portal s') = po_requests (ik_portal s) @ [r]
    \<and> q \<in> set (db_projects (ik_core s)) \<and> p_id q = rt_projectId (fp_type fp) \<and> i_number i = p_issueSequence q + 1 \<and> sr_issueId r = i_id i
    \<and> validatePortalSubmission regex (fv_schema (fp_version fp)) (field ''values'' (fp_body fp)) (fv_consentText (fp_version fp)) = Inr (schema, vals)
    \<and> sr_values r = JObj vals \<and> (i_id i, rt_id (fp_type fp)) \<in> set (tk_requests (ik_tracker s'))
    \<and> map pa_objectKey (ik_attachments s') = map pa_objectKey (ik_attachments s)
        @ map up_objectKey (usable_uploads s now fp (upload_ids schema vals))"
proof -
  from assms obtain a q st and i :: issue and r where a: "accept_submission regex parse_url now fp s = Inr a"
    and q: "find (\<lambda>q. p_id q = rt_projectId (fp_type fp)) (db_projects (ik_core s)) = Some q"
    and i: "i = submitted_issue fp a st (new 0) (p_issueSequence q + 1) now" and r: "r = submitted_request fp a (new 1) (new 0) now"
    and s': "s' = store_request now fp a i r (s\<lparr>ik_desk := (ik_desk s)\<lparr>de_tracker := announce_issue fp i (store_issue fp a st i (ik_tracker s))\<rparr>\<rparr>)"
    by (rule submit_commit_ok) (rule that, assumption+)
  from accept_submission_ok [OF a] have v: "validatePortalSubmission regex (fv_schema (fp_version fp)) (field ''values'' (fp_body fp)) (fv_consentText (fp_version fp))
      = Inr (ad_schema a, ad_values a)" and u: "ad_uploads a = usable_uploads s now fp (upload_ids (ad_schema a) (ad_values a))" by blast+
  have rows: "db_issues (ik_core s') = db_issues (ik_core s) @ [i]" "(i_id i, rt_id (fp_type fp)) \<in> set (tk_requests (ik_tracker s'))"
    by (simp_all add: s' store_issue_def Let_def)
  have requests: "po_requests (ik_portal s') = po_requests (ik_portal s) @ [r]" by (simp add: s' store_request_def Let_def)
  have row: "i_number i = p_issueSequence q + 1" "sr_issueId r = i_id i" "sr_values r = JObj (ad_values a)"
    by (simp_all add: i r submitted_issue_def submitted_request_def new_issue_def)
  have files: "map pa_objectKey (ik_attachments s') = map pa_objectKey (ik_attachments s)
      @ map up_objectKey (usable_uploads s now fp (upload_ids (ad_schema a) (ad_values a)))" by (simp add: s' attachment_of_def comp_def u)
  from find_SomeD [OF q] rows requests row v files show ?thesis by blast
qed

lemma participants_of_ok:
  assumes "participants_of s who pid body = Inr ids" and "c \<in> set ids"
  shows "\<exists>x\<in>set (po_customers (ik_portal s)). pc_id x = c \<and> pc_email x \<in> set (participant_emails who body) \<and> pc_deactivatedAt x = None
    \<and> project_access (ik_portal s) c pid"
  using assms by (auto simp: participants_of_def Let_def admitted_access split: if_splits)

lemma share_organization_ok:
  assumes "share_organization s who pid body = Inr (Some oid)"
  shows "field ''sharing'' body = JStr ''ORGANIZATION'' \<and> field ''organizationId'' body = JStr oid
    \<and> (\<exists>c. visitor_customer who = Some c \<and> (oid, pc_id c, True) \<in> set (po_members (ik_portal s)))
    \<and> (pid, oid, True) \<in> set (po_projectOrgs (ik_portal s))"
  using assms by (auto simp: share_organization_def active_in_org_def sharing_of_def split: option.splits if_splits js.splits)

lemma participant_emails_named:
  assumes "e \<in> set (participant_emails who body)"
  shows "field ''sharing'' body \<in> {JStr ''PARTICIPANTS'', JStr ''ORGANIZATION''}
    \<and> (\<exists>vs t. field ''participantEmails'' body = JArr vs \<and> JStr t \<in> set vs \<and> e = to_lower (trim t))"
proof -
  have on: "visitor_customer who \<noteq> None" "sharing_of who body \<noteq> ''PRIVATE''"
    using assms by (auto simp: participant_emails_def split: if_splits)
  have "e \<in> (to_lower \<circ> trim) ` set (case as_array (field ''participantEmails'' body) of None \<Rightarrow> [] | Some vs \<Rightarrow> strings_of vs)"
    using assms unfolding participant_emails_def by (auto dest: in_set_takeD split: if_splits)
  then obtain vs t where "as_array (field ''participantEmails'' body) = Some vs" "t \<in> set (strings_of vs)" "e = to_lower (trim t)"
    by (cases "as_array (field ''participantEmails'' body)") auto
  moreover from this have "field ''participantEmails'' body = JArr vs" by (cases "field ''participantEmails'' body") simp_all
  moreover have "field ''sharing'' body \<in> {JStr ''PARTICIPANTS'', JStr ''ORGANIZATION''}"
    using on by (cases "field ''sharing'' body") (auto simp: sharing_of_def split: if_splits)
  ultimately show ?thesis by (auto simp: set_strings_of)
qed

lemma portal_visibility:
  assumes "portalRequestWhere db pdb cx r"
  shows "sr_customerId r = Some (pc_id (px_customer cx)) \<or> (sr_id r, pc_id (px_customer cx)) \<in> set (po_participants pdb)
    \<or> (\<exists>oid. sr_organizationId r = Some oid \<and> (oid, pc_id (px_customer cx), True) \<in> set (po_members pdb))"
  using assms by (auto simp: portalRequestWhere_def active_in_org_def list_ex_iff)

text \<open>
  C29: A new request is seen by nobody but its customer, the participants the submission names by e-mail (which
  must be active customers of the project), and, when it asks for sharing with an organization, the active
  members of the very organization it names, of which the customer is an active member and which the project
  admits.
\<close>

theorem new_request_audience:
  assumes "submit_commit regex parse_url new now fp s = Inr s'" and "new 1 \<notin> fst ` set (po_participants (ik_portal s))"
    and "r = last (po_requests (ik_portal s'))" and "portalRequestWhere (ik_core s') (ik_portal s') cx r"
  shows "Some (pc_id (px_customer cx)) = map_option pc_id (visitor_customer (fp_visitor fp))
    \<or> (\<exists>x\<in>set (po_customers (ik_portal s)). \<exists>vs t. pc_id x = pc_id (px_customer cx)
         \<and> field ''participantEmails'' (fp_body fp) = JArr vs \<and> JStr t \<in> set vs \<and> pc_email x = to_lower (trim t)
         \<and> field ''sharing'' (fp_body fp) \<in> {JStr ''PARTICIPANTS'', JStr ''ORGANIZATION''}
         \<and> pc_deactivatedAt x = None \<and> project_access (ik_portal s) (pc_id x) (rt_projectId (fp_type fp)))
    \<or> (\<exists>oid c. field ''sharing'' (fp_body fp) = JStr ''ORGANIZATION'' \<and> field ''organizationId'' (fp_body fp) = JStr oid
         \<and> (oid, pc_id (px_customer cx), True) \<in> set (po_members (ik_portal s)) \<and> visitor_customer (fp_visitor fp) = Some c
         \<and> (oid, pc_id c, True) \<in> set (po_members (ik_portal s)) \<and> (rt_projectId (fp_type fp), oid, True) \<in> set (po_projectOrgs (ik_portal s)))"
proof -
  from assms(1) obtain a q st and i :: issue and x where a: "accept_submission regex parse_url now fp s = Inr a"
    and x: "x = submitted_request fp a (new 1) (new 0) now"
    and s': "s' = store_request now fp a i x (s\<lparr>ik_desk := (ik_desk s)\<lparr>de_tracker := announce_issue fp i (store_issue fp a st i (ik_tracker s))\<rparr>\<rparr>)"
    by (rule submit_commit_ok) (rule that, assumption+)
  from accept_submission_ok [OF a] have o: "share_organization s (fp_visitor fp) (rt_projectId (fp_type fp)) (fp_body fp) = Inr (ad_organization a)"
    and p: "participants_of s (fp_visitor fp) (rt_projectId (fp_type fp)) (fp_body fp) = Inr (ad_participants a)" by blast+
  have r: "r = x" by (simp add: assms(3) s' store_request_def Let_def)
  have tables: "po_members (ik_portal s') = po_members (ik_portal s)" by (simp add: s' store_request_def Let_def)
  have who: "sr_customerId r = map_option pc_id (visitor_customer (fp_visitor fp))" "sr_organizationId r = ad_organization a" "sr_id r = new 1"
    by (simp_all add: r x submitted_request_def)
  have "set (po_participants (ik_portal s')) \<subseteq> set (po_participants (ik_portal s)) \<union> Pair (new 1) ` set (ad_participants a)"
    by (auto simp: s' store_request_def Let_def x submitted_request_def)
  then have named: "(sr_id r, c) \<in> set (po_participants (ik_portal s')) \<Longrightarrow> c \<in> set (ad_participants a)" for c
    using assms(2) who(3) by force
  from portal_visibility [OF assms(4)] show ?thesis
  proof (elim disjE exE)
    assume "sr_customerId r = Some (pc_id (px_customer cx))" then show ?thesis unfolding who(1) by (intro disjI1) (rule sym)
  next
    assume "(sr_id r, pc_id (px_customer cx)) \<in> set (po_participants (ik_portal s'))"
    then have "pc_id (px_customer cx) \<in> set (ad_participants a)" by (rule named)
    from participants_of_ok [OF p this] obtain x where x: "x \<in> set (po_customers (ik_portal s))" "pc_id x = pc_id (px_customer cx)"
      "pc_email x \<in> set (participant_emails (fp_visitor fp) (fp_body fp))" "pc_deactivatedAt x = None"
      "project_access (ik_portal s) (pc_id x) (rt_projectId (fp_type fp))" by metis
    with participant_emails_named [OF x(3)] show ?thesis by blast
  next
    fix oid assume oid: "sr_organizationId r = Some oid \<and> (oid, pc_id (px_customer cx), True) \<in> set (po_members (ik_portal s'))"
    then have "ad_organization a = Some oid" using who(2) by simp
    then have "share_organization s (fp_visitor fp) (rt_projectId (fp_type fp)) (fp_body fp) = Inr (Some oid)" using o by simp
    from share_organization_ok [OF this] oid tables show ?thesis by auto
  qed
qed

section \<open>A draft that changes while it is published\<close>

lemma references_same:
  assumes "tk_fields tk' = tk_fields tk" and "tk_fieldConfigs tk' = tk_fieldConfigs tk"
  shows "assertPortalSchemaReferences regex (field_db_of tk') wid pid v = assertPortalSchemaReferences regex (field_db_of tk) wid pid v"
proof -
  have "configurations (field_db_of tk') wid pid = configurations (field_db_of tk) wid pid"
    using assms by (simp add: configurations_def field_of_def field_db_of_def)
  then show ?thesis by (simp add: assertPortalSchemaReferences_def)
qed

text \<open>
  The compare-and-set of a publication looks at the version number only. An edit of the draft that
  commits after the publication has read it is not noticed: what is published is the older draft.
\<close>

theorem publication_misses_draft_edit:
  assumes "publish_commit regex new now plan s = Inr s1" and "type_edit_commit regex now' edit s = Inr s2"
  shows "\<exists>s3. publish_commit regex new now plan s2 = Inr s3 \<and> last (ik_versions s3) = last (ik_versions s1)"
proof -
  obtain cx current where plan: "plan = (cx, current)" by (cases plan)
  let ?hit = "\<lambda>t. rt_id t = rt_id current \<and> rt_currentVersion t = rt_currentVersion current"
  from assms(2) obtain f :: "request_type \<Rightarrow> request_type" where f: "\<And>t. rt_id (f t) = rt_id t \<and> rt_currentVersion (f t) = rt_currentVersion t" "ik_types s2 = map f (ik_types s)"
    and same: "ik_versions s2 = ik_versions s" "tk_fields (ik_tracker s2) = tk_fields (ik_tracker s)"
      "tk_fieldConfigs (ik_tracker s2) = tk_fieldConfigs (ik_tracker s)" by (rule type_edit_commit_ok) (rule that, assumption+)
  have count: "count_rows ?hit (ik_types s2) = count_rows ?hit (ik_types s)"
    using f(1) by (simp add: f(2) count_rows_def filter_map comp_def)
  have refs: "assertPortalSchemaReferences regex (field_db_of (ik_tracker s2)) (cx_workspaceId cx) (rt_projectId current) (rt_draftSchema current)
      = assertPortalSchemaReferences regex (field_db_of (ik_tracker s)) (cx_workspaceId cx) (rt_projectId current) (rt_draftSchema current)"
    by (rule references_same) (simp_all add: same)
  obtain schema where run: "assertPortalSchemaReferences regex (field_db_of (ik_tracker s)) (cx_workspaceId cx) (rt_projectId current) (rt_draftSchema current) = Inr schema"
    using assms(1) by (auto simp: plan publish_commit_def Let_def split: sum.splits)
  obtain complete where complete: "parsePortalSchema regex False (rt_draftSchema current) = Inr complete"
    using assms(1) by (auto simp: plan publish_commit_def Let_def split: sum.splits)
  note eval = publish_commit_def plan Let_def prod.case sum.case
  show ?thesis
    using assms(1) unfolding eval refs run complete same(1) count
    by (simp split: if_splits) (drule sym [of _ s1], simp)
qed

section \<open>Sample\<close>

definition help_form :: js where
  "help_form = JObj [(''fields'', JArr [
     JObj [(''key'', JStr ''what''), (''kind'', JStr ''summary''), (''label'', JStr ''What''), (''required'', JBool True), (''helpText'', JStr ''In short '')],
     JObj [(''key'', JStr ''files''), (''kind'', JStr ''attachment''), (''label'', JStr ''Files'')]])]"

definition help_type :: request_type where
  "help_type = \<lparr>rt_id = ''ty'', rt_projectId = ''p'', rt_portalGroupId = None, rt_issueTypeId = ''t'', rt_initialStatusId = ''s'', rt_name = ''Help'',
     rt_description = None, rt_icon = None, rt_position = 0, rt_draftSchema = help_form, rt_draftConsentText = None, rt_currentVersion = 1,
     rt_publishedAt = Some 1, rt_archivedAt = None\<rparr>"

definition help_version :: form_version where
  "help_version = \<lparr>fv_id = ''v1'', fv_requestTypeId = ''ty'', fv_version = 1, fv_name = ''Help'', fv_description = None, fv_icon = None,
     fv_schema = help_form, fv_consentText = None, fv_publishedById = ''amy''\<rparr>"

definition help_core :: workspace_db where
  "help_core = sample_portal_core\<lparr>db_issueTypes := [\<lparr>it_id = ''t'', it_projectId = ''p'', it_name = ''Task'', it_position = 0, it_isEpic = False\<rparr>],
     db_statuses := [\<lparr>st_id = ''s'', st_projectId = ''p'', st_name = ''Open'', st_position = 0, st_category = Todo\<rparr>]\<rparr>"

definition help_desk :: desk where
  "help_desk = \<lparr>de_tracker = board_tracker\<lparr>tk_core := help_core\<rparr>, de_portal = sample_portal\<lparr>po_requests := []\<rparr>, de_requestTypes = [help_type],
     de_calendars = [], de_calendarVersions = [], de_goals = [], de_goalVersions = [], de_signals = [], de_signalSequence = 0, de_cycles = [],
     de_events = [], de_portalNotifications = [], de_portalComments = [], de_queues = [], de_snapshots = []\<rparr>"

definition help_intake :: intake where
  "help_intake = \<lparr>ik_desk = help_desk, ik_groups = [], ik_versions = [help_version],
     ik_uploads = [\<lparr>up_id = ''f'', up_workspaceId = ''w'', up_projectId = ''p'', up_requestTypeId = ''ty'', up_uploadedById = ''u'', up_fileName = ''a.txt'',
       up_objectKey = ''k'', up_contentType = ''text/plain'', up_size = 1, up_expiresAt = 9, up_usedAt = None\<rparr>], ik_attachments = []\<rparr>"

definition help_agent :: auth_context where
  "help_agent = \<lparr>cx_userId = ''amy'', cx_workspaceId = ''w'', cx_role = WOwner\<rparr>"

definition help_plan :: form_plan where
  "help_plan = \<lparr>fp_visitor = Customer sample_portal_context, fp_type = help_type, fp_project = hd (db_projects help_core), fp_version = help_version,
     fp_body = [(''values'', JObj [(''what'', JStr ''No network''), (''files'', JArr [JStr ''f''])])]\<rparr>"

definition fresh_ids :: "nat \<Rightarrow> string" where "fresh_ids n = (if n = 0 then ''i9'' else ''r9'')"

definition asked :: "(nat, intake) result" where
  "asked = submit_commit no_regex (\<lambda>_. None) fresh_ids 5 help_plan help_intake"

definition after_asking :: intake where "after_asking = (case asked of Inr s \<Rightarrow> s | Inl _ \<Rightarrow> help_intake)"

lemma asked_runs: "submit_commit no_regex (\<lambda>_. None) fresh_ids 5 help_plan help_intake = Inr after_asking"
proof -
  have "isl asked = False" by code_simp
  then show ?thesis unfolding after_asking_def by (cases asked) (simp_all add: asked_def)
qed

lemma help_plan_checked: "submit_check (Some (Customer sample_portal_context)) ''ty'' (Some (fp_body help_plan)) help_intake = Inr help_plan"
  by code_simp

lemma help_form_readable: "readable no_regex help_version"
proof -
  have "isl (parsePortalSchema no_regex False (fv_schema help_version)) = False" by code_simp
  then show ?thesis by (cases "parsePortalSchema no_regex False (fv_schema help_version)") (simp_all add: readable_def)
qed

lemma help_forms_ok: "forms_ok no_regex help_intake"
  using help_form_readable by (simp add: forms_ok_def versions_of_def) (simp add: help_intake_def help_desk_def help_version_def help_type_def)

theorem schema_round_trip_witness: "parsePortalSchema no_regex False (schema_json form_schema) = Inr (map retrimmed form_schema)"
proof (rule schema_round_trip)
  show "parsePortalSchema no_regex False form_json = Inr form_schema" by code_simp
qed

definition publish_events :: "intake_event list" where
  "publish_events = [Publish ''v2'' 6 (help_agent, help_type), Publish ''v3'' 7 (help_agent, help_type), Submit fresh_ids 5 help_plan]"

definition help_run :: intake_run where "help_run = \<lparr>ir_intake = help_intake, ir_reading = []\<rparr>"

theorem published_forms_stay_open_witness:
  "versions_of ''ty'' (ir_intake (fold (run_step no_regex (\<lambda>_. None)) publish_events help_run)) = [1, 2]
   \<and> form_GET no_regex (Some (Customer sample_portal_context)) ''ty'' (ir_intake (fold (run_step no_regex (\<lambda>_. None)) publish_events help_run)) \<noteq> Inl 500"
proof
  show "versions_of ''ty'' (ir_intake (fold (run_step no_regex (\<lambda>_. None)) publish_events help_run)) = [1, 2]" by code_simp
  show "form_GET no_regex (Some (Customer sample_portal_context)) ''ty'' (ir_intake (fold (run_step no_regex (\<lambda>_. None)) publish_events help_run)) \<noteq> Inl 500"
    by (rule conjunct1 [OF published_forms_stay_open [OF _ refl]]) (simp add: help_run_def help_forms_ok)
qed

text \<open>Two submissions that both read the unused upload; only the one that writes first gets it.\<close>

definition race_events :: "intake_event list" where
  "race_events = [Read_Submission 5 help_plan, Read_Submission 6 help_plan, Write_Submission fresh_ids 7 0, Write_Submission (\<lambda>n. if n = 0 then ''i8'' else ''r8'') 8 1]"

theorem upload_attached_once_witness:
  "map pa_objectKey (ik_attachments (ir_intake (fold (run_step no_regex (\<lambda>_. None)) race_events help_run))) = [''k'']
   \<and> length (ir_reading (fold (run_step no_regex (\<lambda>_. None)) race_events help_run)) = 2
   \<and> distinct (map pa_objectKey (ik_attachments (ir_intake (fold (run_step no_regex (\<lambda>_. None)) race_events help_run))))"
proof (intro conjI)
  show "map pa_objectKey (ik_attachments (ir_intake (fold (run_step no_regex (\<lambda>_. None)) race_events help_run))) = [''k'']" by code_simp
  show "length (ir_reading (fold (run_step no_regex (\<lambda>_. None)) race_events help_run)) = 2" by code_simp
qed (rule upload_attached_once, simp_all add: uploads_ok_def help_intake_def help_run_def)

theorem submission_creates_one_request_witness:
  "\<exists>i r. db_issues (ik_core after_asking) = db_issues help_core @ [i] \<and> po_requests (ik_portal after_asking) = [r] \<and> i_number i = 2 \<and> sr_issueId r = i_id i"
proof -
  have q: "p_issueSequence q = 1" if "q \<in> set (db_projects (ik_core help_intake))" for q :: project
    using that by (simp add: help_intake_def help_desk_def help_core_def sample_portal_core_def)
  have e: "db_issues (ik_core help_intake) = db_issues help_core" "po_requests (ik_portal help_intake) = []" by (simp_all add: help_intake_def help_desk_def)
  from submission_creates_one_request [OF asked_runs] show ?thesis unfolding e using q by fastforce
qed

theorem new_request_audience_witness:
  "Some ''c'' = map_option pc_id (visitor_customer (fp_visitor help_plan)) \<or> project_access (ik_portal help_intake) ''c'' ''p''"
proof -
  have v: "portalRequestWhere (ik_core after_asking) (ik_portal after_asking) sample_portal_context (last (po_requests (ik_portal after_asking)))" by code_simp
  have f: "fresh_ids 1 \<notin> fst ` set (po_participants (ik_portal help_intake))" by (simp add: help_intake_def help_desk_def sample_portal_def)
  have c: "pc_id (px_customer sample_portal_context) = ''c''" "rt_projectId (fp_type help_plan) = ''p''"
    by (simp_all add: sample_portal_context_def sample_customer_def help_plan_def help_type_def)
  from new_request_audience [OF asked_runs f refl v] show ?thesis unfolding c project_access_def by auto
qed

definition rename_edit :: "auth_context \<times> request_type \<times> jobj \<times> bool" where
  "rename_edit = (help_agent, help_type, [(''schema'', JObj [(''fields'', JArr [])])], True)"

definition after_publish :: intake where
  "after_publish = (case publish_commit no_regex ''v2'' 6 (help_agent, help_type) help_intake of Inr s \<Rightarrow> s | Inl _ \<Rightarrow> help_intake)"
definition after_edit :: intake where
  "after_edit = (case type_edit_commit no_regex 6 rename_edit help_intake of Inr s \<Rightarrow> s | Inl _ \<Rightarrow> help_intake)"

theorem publication_misses_draft_edit_witness:
  "map rt_draftSchema (ik_types after_edit) = [schema_json []]
   \<and> (\<exists>s. publish_commit no_regex ''v2'' 6 (help_agent, help_type) after_edit = Inr s \<and> last (ik_versions s) = last (ik_versions after_publish))"
proof
  show "map rt_draftSchema (ik_types after_edit) = [schema_json []]" by code_simp
  have "isl (publish_commit no_regex ''v2'' 6 (help_agent, help_type) help_intake) = False" by code_simp
  then have p: "publish_commit no_regex ''v2'' 6 (help_agent, help_type) help_intake = Inr after_publish"
    unfolding after_publish_def by (cases "publish_commit no_regex ''v2'' 6 (help_agent, help_type) help_intake") simp_all
  have "isl (type_edit_commit no_regex 6 rename_edit help_intake) = False" by code_simp
  then have e: "type_edit_commit no_regex 6 rename_edit help_intake = Inr after_edit"
    unfolding after_edit_def by (cases "type_edit_commit no_regex 6 rename_edit help_intake") simp_all
  show "\<exists>s. publish_commit no_regex ''v2'' 6 (help_agent, help_type) after_edit = Inr s \<and> last (ik_versions s) = last (ik_versions after_publish)"
    by (rule publication_misses_draft_edit [OF p e])
qed

end
