(* ===== verification/PasswordReset.thy ===== *)
theory PasswordReset
  imports Accounts SingleUse
begin

text \<open>
  The reset of a forgotten password (\<open>api/auth/password-reset\<close>) and the logout (\<open>api/auth/logout\<close>). A reset is asked for by
  e-mail address and confirmed with the token of the link; the confirmation is a check and a transaction
  that claims the token. A user has at most one link that works, and a link works once.
\<close>

section \<open>Tables\<close>

record reset_row =
  rz_id :: string
  rz_userId :: string
  rz_tokenHash :: string
  rz_expiresAt :: time
  rz_usedAt :: "time option"

record reset_db =
  rw_users :: "account list"
  rw_rows :: "reset_row list"
  rw_identity :: identity_db
  rw_outbox :: outbox
  rw_audit :: "audit_entry list"

section \<open>Asking for a link\<close>

definition use_reset :: "time \<Rightarrow> reset_row \<Rightarrow> reset_row" where
  "use_reset now r = r\<lparr>rz_usedAt := Some now\<rparr>"

definition spend :: "time \<Rightarrow> (reset_row \<Rightarrow> bool) \<Rightarrow> reset_row list \<Rightarrow> reset_row list" where
  "spend now P rows = snd (update_many (\<lambda>r. P r \<and> rz_usedAt r = None) (use_reset now) rows)"

definition reset_email :: "string \<Rightarrow> string \<Rightarrow> account \<Rightarrow> email_input" where
  "reset_email i token u =
     \<lparr>ei_workspaceId = None, ei_userId = Some (u_id u), ei_issueId = None, ei_category = ''PASSWORD_RESET'', ei_recipient = u_email u,
      ei_subject = ''Reset your Planeo password'',
      ei_message = ''A password reset was requested for your account. This link expires in 30 minutes and can be used once.'',
      ei_actionLabel = ''Reset password'', ei_actionPath = ''/reset-password?token='' @ token, ei_dedupeKey = ''password-reset:'' @ i, ei_correlationId = i\<rparr>"

text \<open>The answer says the same for known and unknown addresses; outside production it carries the token.\<close>

definition password_reset_request :: "string option \<Rightarrow> (string \<Rightarrow> string) \<Rightarrow> bool \<Rightarrow> string \<Rightarrow> string \<Rightarrow> time \<Rightarrow> jobj \<Rightarrow> reset_db \<Rightarrow> string option \<times> reset_db" where
  "password_reset_request app_url sha production new token now body db =
     (let email = to_lower (trim (string_or_empty (field ''email'' body))) in
      case (if email = [] then None else find (\<lambda>u. u_email u = email) (rw_users db)) of
        None \<Rightarrow> (None, db)
      | Some u \<Rightarrow>
          (if production then None else Some token,
           db\<lparr>rw_rows := spend now (\<lambda>r. rz_userId r = u_id u) (rw_rows db)
                @ [\<lparr>rz_id = new, rz_userId = u_id u, rz_tokenHash = sha token, rz_expiresAt = now + 30 * 60 * 1000, rz_usedAt = None\<rparr>],
              rw_outbox := enqueueEmail app_url (reset_email new token u) (rw_outbox db)\<rparr>))"

section \<open>Confirming it\<close>

record reset_plan =
  rp_row :: reset_row
  rp_password :: string
  rp_workspaceId :: "string option"

definition reset_check :: "(string \<Rightarrow> string) \<Rightarrow> time \<Rightarrow> jobj \<Rightarrow> reset_db \<Rightarrow> (nat, reset_plan) result" where
  "reset_check sha now body db =
     (let token = string_or_empty (field ''token'' body); password = string_or_empty (field ''password'' body) in
      if token = [] \<or> \<not> strong_password password then Inl 400
      else case find (\<lambda>r. rz_tokenHash r = sha token) (rw_rows db) of None \<Rightarrow> Inl 400 | Some r \<Rightarrow>
           if rz_usedAt r \<noteq> None \<or> rz_expiresAt r \<le> now then Inl 400
           else Inr \<lparr>rp_row = r, rp_password = password,
             rp_workspaceId = map_option wm_workspaceId (find (\<lambda>m. wm_userId m = rz_userId r) (id_members (rw_identity db)))\<rparr>)"

definition reset_commit :: "(string \<Rightarrow> string) \<Rightarrow> time \<Rightarrow> reset_plan \<Rightarrow> reset_db \<Rightarrow> (nat, reset_db) result" where
  "reset_commit hash now rp db =
     (let i = rz_id (rp_row rp); uid = rz_userId (rp_row rp);
          (n, claimed) = update_many (\<lambda>r. rz_id r = i \<and> rz_usedAt r = None \<and> now < rz_expiresAt r) (use_reset now) (rw_rows db) in
      if n \<noteq> 1 then Inl 409
      else Inr (db\<lparr>rw_rows := spend now (\<lambda>r. rz_userId r = uid \<and> rz_id r \<noteq> i) claimed,
             rw_users := map (\<lambda>u. if u_id u = uid then u\<lparr>u_passwordHash := Some (hash (rp_password rp))\<rparr> else u) (rw_users db),
             rw_audit := rw_audit db @ (case rp_workspaceId rp of None \<Rightarrow> []
               | Some ws \<Rightarrow> [\<lparr>au_workspaceId = ws, au_actorId = Some uid, au_action = ''identity.password_reset'', au_targetType = ''user'', au_targetId = uid, au_metadata = JObj []\<rparr>])\<rparr>))"

text \<open>The sessions of the user are revoked after the transaction.\<close>

definition reset_close :: "time \<Rightarrow> reset_plan \<Rightarrow> reset_db \<Rightarrow> reset_db" where
  "reset_close now rp db = db\<lparr>rw_identity := revokeAllSessions (rz_userId (rp_row rp)) now (rw_identity db)\<rparr>"

definition password_reset_confirm :: "(string \<Rightarrow> string) \<Rightarrow> (string \<Rightarrow> string) \<Rightarrow> time \<Rightarrow> jobj \<Rightarrow> reset_db \<Rightarrow> (nat, reset_db) result" where
  "password_reset_confirm sha hash now body db =
     bind_result (reset_check sha now body db) (\<lambda>rp. bind_result (reset_commit hash now rp db) (\<lambda>db'. Inr (reset_close now rp db')))"

section \<open>Logout\<close>

definition logout_POST :: "(string \<Rightarrow> string) \<Rightarrow> (string \<Rightarrow> claims option) \<Rightarrow> time \<Rightarrow> string option \<Rightarrow> reset_db \<Rightarrow> reset_db" where
  "logout_POST mac decode now cookie db =
     (let audited = (case getAuthContext mac decode now cookie (rw_identity db) of None \<Rightarrow> db
            | Some cx \<Rightarrow> db\<lparr>rw_audit := rw_audit db @ [\<lparr>au_workspaceId = cx_workspaceId cx, au_actorId = Some (cx_userId cx), au_action = ''identity.logout'',
                au_targetType = ''user'', au_targetId = cx_userId cx, au_metadata = JObj []\<rparr>]\<rparr>)
      in audited\<lparr>rw_identity := clearSession mac decode now cookie (rw_identity db)\<rparr>)"

section \<open>What a reset changes\<close>

lemma spend_rows: "set (spend now P rows) = (\<lambda>r. if P r \<and> rz_usedAt r = None then use_reset now r else r) ` set rows"
  by (simp add: spend_def)

lemma reset_commit_ok:
  assumes "reset_commit hash now rp db = Inr db'"
  shows "\<exists>r\<in>set (rw_rows db). rz_id r = rz_id (rp_row rp) \<and> rz_usedAt r = None \<and> now < rz_expiresAt r"
    and "count_rows (\<lambda>r. rz_id r = rz_id (rp_row rp) \<and> rz_usedAt r = None \<and> now < rz_expiresAt r) (rw_rows db) = 1"
    and "rw_rows db' = spend now (\<lambda>r. rz_userId r = rz_userId (rp_row rp) \<and> rz_id r \<noteq> rz_id (rp_row rp))
      (map (\<lambda>r. if rz_id r = rz_id (rp_row rp) \<and> rz_usedAt r = None \<and> now < rz_expiresAt r then use_reset now r else r) (rw_rows db))"
    and "rw_users db' = map (\<lambda>u. if u_id u = rz_userId (rp_row rp) then u\<lparr>u_passwordHash := Some (hash (rp_password rp))\<rparr> else u) (rw_users db)"
    and "rw_identity db' = rw_identity db"
proof -
  show c: "count_rows (\<lambda>r. rz_id r = rz_id (rp_row rp) \<and> rz_usedAt r = None \<and> now < rz_expiresAt r) (rw_rows db) = 1"
    using assms by (auto simp: reset_commit_def Let_def update_many_def split: if_splits)
  show "\<exists>r\<in>set (rw_rows db). rz_id r = rz_id (rp_row rp) \<and> rz_usedAt r = None \<and> now < rz_expiresAt r"
  proof (rule ccontr)
    assume "\<not> ?thesis"
    then have "count_rows (\<lambda>r. rz_id r = rz_id (rp_row rp) \<and> rz_usedAt r = None \<and> now < rz_expiresAt r) (rw_rows db) = 0"
      unfolding count_rows_0 by blast
    with c show False by simp
  qed
qed (use assms in \<open>auto simp: reset_commit_def Let_def update_many_def split: if_splits\<close>)

text \<open>
  A confirmed reset sets the password of its user, leaves no session of the user alive and no link of the
  user that works, and changes no other account.
\<close>

theorem reset_takes_effect:
  assumes "password_reset_confirm sha hash now body db = Inr db'" and "distinct (map rz_id (rw_rows db))"
  shows "\<exists>r\<in>set (rw_rows db). \<exists>token password. field ''token'' body = JStr token \<and> field ''password'' body = JStr password
    \<and> rz_tokenHash r = sha token \<and> rz_usedAt r = None \<and> now < rz_expiresAt r \<and> strong_password password
    \<and> rw_users db' = map (\<lambda>u. if u_id u = rz_userId r then u\<lparr>u_passwordHash := Some (hash password)\<rparr> else u) (rw_users db)
    \<and> (\<forall>x\<in>set (rw_rows db'). rz_userId x = rz_userId r \<longrightarrow> rz_usedAt x \<noteq> None)
    \<and> (\<forall>s\<in>set (id_sessions (rw_identity db')). ss_userId s = rz_userId r \<longrightarrow> ss_revokedAt s \<noteq> None)"
proof -
  obtain rp d where c: "reset_check sha now body db = Inr rp" and m: "reset_commit hash now rp db = Inr d" and db': "db' = reset_close now rp d"
    using assms(1) unfolding password_reset_confirm_def by (simp only: handler_simps) (elim exE conjE, rule that, assumption+, rule sym)
  let ?r = "rp_row rp"
  have r: "find (\<lambda>r. rz_tokenHash r = sha (string_or_empty (field ''token'' body))) (rw_rows db) = Some ?r" "rz_usedAt ?r = None" "now < rz_expiresAt ?r"
    and p: "rp_password rp = string_or_empty (field ''password'' body)" "strong_password (rp_password rp)" "string_or_empty (field ''token'' body) \<noteq> []"
    using c by (auto simp: reset_check_def Let_def split: if_splits option.splits)
  obtain token where t: "field ''token'' body = JStr token" using p(3) by (auto simp: string_or_empty_def split: option.splits)
  have "strong_password []  = False" by (simp add: strong_password_def)
  then obtain password where pw: "field ''password'' body = JStr password" using p(1,2) by (auto simp: string_or_empty_def split: option.splits)
  have mem: "?r \<in> set (rw_rows db)" "rz_tokenHash ?r = sha token" using find_SomeD [OF r(1)] t by (simp_all add: string_or_empty_def)
  have same: "x = ?r" if "x \<in> set (rw_rows db)" "rz_id x = rz_id ?r" for x
    using assms(2) that mem(1) by (auto simp: distinct_map inj_on_def)
  have "\<forall>x\<in>set (rw_rows db'). rz_userId x = rz_userId ?r \<longrightarrow> rz_usedAt x \<noteq> None"
    using reset_commit_ok(3) [OF m] same r(2,3) by (auto simp: db' reset_close_def spend_rows use_reset_def)
  moreover have "\<forall>s\<in>set (id_sessions (rw_identity db')). ss_userId s = rz_userId ?r \<longrightarrow> ss_revokedAt s \<noteq> None"
    by (auto simp: db' reset_close_def revokeAllSessions_def revoke_where_def)
  ultimately show ?thesis
    using mem t pw p r reset_commit_ok(4) [OF m] by (intro bexI [of _ ?r] exI [of _ token] exI [of _ password]) (simp_all add: db' reset_close_def string_or_empty_def)
qed

section \<open>One link, once\<close>

datatype reset_event =
    Ask "string option" string string time jobj
  | Confirm time reset_plan

text \<open>The identifiers of the rows are new ones.\<close>

fun reset_step :: "(string \<Rightarrow> string) \<Rightarrow> (string \<Rightarrow> string) \<Rightarrow> reset_event \<Rightarrow> reset_db \<Rightarrow> reset_db" where
  "reset_step sha hash (Ask app_url new token now body) db =
     (if new \<in> rz_id ` set (rw_rows db) then db else snd (password_reset_request app_url sha True new token now body db))"
| "reset_step sha hash (Confirm now rp) db = (case reset_commit hash now rp db of Inl _ \<Rightarrow> db | Inr db' \<Rightarrow> reset_close now rp db')"

definition one_live_link :: "reset_db \<Rightarrow> bool" where
  "one_live_link db \<longleftrightarrow> distinct (map rz_userId (filter (\<lambda>r. rz_usedAt r = None) (rw_rows db)))"

lemma live_spend:
  "filter (\<lambda>r. rz_usedAt r = None) (spend now P rows) = filter (\<lambda>r. rz_usedAt r = None \<and> \<not> P r) rows"
  by (induction rows) (auto simp: spend_def use_reset_def)

lemma live_claim:
  "filter (\<lambda>r. rz_usedAt r = None) (map (\<lambda>r. if P r \<and> rz_usedAt r = None \<and> Q r then use_reset now r else r) rows)
     = filter (\<lambda>r. rz_usedAt r = None \<and> \<not> (P r \<and> Q r)) rows"
  by (induction rows) (auto simp: use_reset_def)

lemma distinct_map_filter_and: "distinct (map f (filter P xs)) \<Longrightarrow> distinct (map f (filter (\<lambda>x. P x \<and> Q x) xs))"
  by (metis distinct_map_filter filter_filter)

interpretation reset_links: kept "reset_step sha hash" one_live_link for sha hash
proof
  fix db e assume ok: "one_live_link db"
  show "one_live_link (reset_step sha hash e db)"
  proof (cases e)
    case (Ask app_url new token now body)
    then show ?thesis
      using ok by (auto simp: one_live_link_def password_reset_request_def live_spend Let_def distinct_map_filter_and split: option.splits)
  next
    case (Confirm now rp)
    show ?thesis
    proof (cases "reset_commit hash now rp db")
      case (Inr db')
      let ?live = "\<lambda>r. rz_usedAt r = None"
      let ?P = "\<lambda>r. rz_userId r = rz_userId (rp_row rp) \<and> rz_id r \<noteq> rz_id (rp_row rp)"
      have "filter ?live (rw_rows db') = filter (\<lambda>r. \<not> ?P r) (filter (\<lambda>r. ?live r \<and> \<not> (rz_id r = rz_id (rp_row rp) \<and> now < rz_expiresAt r)) (rw_rows db))"
        unfolding reset_commit_ok(3) [OF Inr] live_spend
        using live_claim [of "\<lambda>r. rz_id r = rz_id (rp_row rp)" "\<lambda>r. now < rz_expiresAt r" now "rw_rows db"]
        by (metis (no_types, lifting) filter_filter filter_cong)
      then show ?thesis using ok
        by (auto simp: Confirm Inr one_live_link_def reset_close_def intro!: distinct_map_filter distinct_map_filter_and)
    qed (use ok in \<open>simp add: Confirm\<close>)
  qed
qed

text \<open>
  A user never has two links that work: however requests and confirmations interleave, at most one row of a user is
  unused.
\<close>

theorem one_live_link_per_user:
  assumes "one_live_link db"
  shows "one_live_link (fold (reset_step sha hash) es db)"
  using assms by (rule reset_links.run_inv)

text \<open>The row exists and is used.\<close>

definition spent :: "string \<Rightarrow> reset_db \<Rightarrow> bool" where
  "spent i db \<longleftrightarrow> i \<in> rz_id ` set (rw_rows db) \<and> (\<forall>r\<in>set (rw_rows db). rz_id r = i \<longrightarrow> rz_usedAt r \<noteq> None)"

lemma map_ids_use: "map rz_id (map (\<lambda>r. if P r then use_reset now r else r) rows) = map rz_id rows"
  by (simp add: use_reset_def)

lemma spent_spend: "rz_id ` set (spend now P rows) = rz_id ` set rows"
  using map_ids_use [of "\<lambda>r. P r \<and> rz_usedAt r = None" now rows] unfolding spend_def update_many_simps by (metis set_map)

lemma spend_keeps_used: "\<forall>r\<in>set rows. rz_id r = i \<longrightarrow> rz_usedAt r \<noteq> None \<Longrightarrow> \<forall>r\<in>set (spend now P rows). rz_id r = i \<longrightarrow> rz_usedAt r \<noteq> None"
  by (auto simp: spend_rows use_reset_def)

lemma spent_close [simp]: "spent i (reset_close now rp db) \<longleftrightarrow> spent i db"
  by (simp add: spent_def reset_close_def)

lemma reset_commit_spent:
  assumes "reset_commit hash now rp db = Inr db'" and "spent i db \<or> i = rz_id (rp_row rp) \<and> distinct (map rz_id (rw_rows db))"
  shows "spent i db'"
proof -
  let ?hit = "\<lambda>r. rz_id r = rz_id (rp_row rp) \<and> rz_usedAt r = None \<and> now < rz_expiresAt r"
  let ?rows = "map (\<lambda>r. if ?hit r then use_reset now r else r) (rw_rows db)"
  obtain x where x: "x \<in> set (rw_rows db)" "?hit x" using reset_commit_ok(1) [OF assms(1)] by blast
  have ids: "rz_id ` set ?rows = rz_id ` set (rw_rows db)" using map_ids_use [of ?hit now "rw_rows db"] by (metis set_map)
  have "i \<in> rz_id ` set ?rows" unfolding ids using assms(2) imageI [OF x(1), of rz_id] x(2) by (auto simp: spent_def)
  moreover have "\<forall>r\<in>set ?rows. rz_id r = i \<longrightarrow> rz_usedAt r \<noteq> None"
  proof (rule disjE [OF assms(2)])
    assume "spent i db" then show ?thesis by (auto simp: spent_def use_reset_def)
  next
    assume d: "i = rz_id (rp_row rp) \<and> distinct (map rz_id (rw_rows db))"
    have same: "y = x" if "y \<in> set (rw_rows db)" "rz_id y = i" for y
      using d that x by (simp add: distinct_map inj_on_def)
    show ?thesis
    proof (intro ballI impI)
      fix r assume r: "r \<in> set ?rows" "rz_id r = i"
      then obtain y where y: "y \<in> set (rw_rows db)" "r = (if ?hit y then use_reset now y else y)" by auto
      have "rz_id y = i" using y(2) r(2) by (simp add: use_reset_def split: if_splits)
      then have "y = x" by (rule same [OF y(1)])
      then have "?hit y" using x(2) by (simp only:)
      then have "r = use_reset now y" unfolding y(2) by (rule if_P)
      then show "rz_usedAt r \<noteq> None" by (simp add: use_reset_def)
    qed
  qed
  ultimately show ?thesis unfolding spent_def reset_commit_ok(3) [OF assms(1)] spent_spend by (intro conjI spend_keeps_used)
qed

interpretation spent_links: kept "reset_step sha hash" "spent i" for sha hash i
proof
  fix db e assume ok: "spent i db"
  show "spent i (reset_step sha hash e db)"
  proof (cases e)
    case (Ask app_url new token now body)
    show ?thesis
    proof (cases "new \<in> rz_id ` set (rw_rows db)")
      case False
      with ok have "new \<noteq> i" by (auto simp: spent_def)
      with ok False show ?thesis
        by (auto simp: Ask spent_def password_reset_request_def Let_def spent_spend spend_keeps_used image_Un split: option.splits)
    qed (use ok in \<open>simp add: Ask\<close>)
  next
    case (Confirm now rp)
    show ?thesis
    proof (cases "reset_commit hash now rp db")
      case (Inr db')
      then show ?thesis using reset_commit_spent [OF Inr] ok by (simp add: Confirm)
    qed (use ok in \<open>simp add: Confirm\<close>)
  qed
qed

text \<open>C40: A link works once: after its confirmation every other confirmation with it is refused, whatever happens in between.\<close>

theorem reset_link_works_once:
  assumes "reset_commit hash now rp db = Inr db'" and "distinct (map rz_id (rw_rows db))" and "rz_id (rp_row rp') = rz_id (rp_row rp)"
  shows "reset_commit hash later rp' (fold (reset_step sha hash) es db') = Inl 409"
proof (cases "reset_commit hash later rp' (fold (reset_step sha hash) es db')")
  case (Inl n)
  then show ?thesis by (auto simp: reset_commit_def Let_def split: if_splits prod.splits)
next
  case (Inr d)
  have "spent (rz_id (rp_row rp)) db'" by (rule reset_commit_spent [OF assms(1)]) (simp add: assms(2))
  then have "spent (rz_id (rp_row rp)) (fold (reset_step sha hash) es db')" by (rule spent_links.run_inv)
  then show ?thesis using reset_commit_ok(1) [OF Inr] assms(3) by (auto simp: spent_def)
qed

section \<open>Witnesses\<close>

definition sample_resets :: reset_db where
  "sample_resets =
     \<lparr>rw_users = [\<lparr>u_id = ''amy'', u_email = ''a@b.c'', u_name = ''Amy'', u_passwordHash = Some ''h''\<rparr>],
      rw_rows = [\<lparr>rz_id = ''r'', rz_userId = ''amy'', rz_tokenHash = ''t'', rz_expiresAt = 9, rz_usedAt = None\<rparr>], rw_identity = sample_identity,
      rw_outbox = empty_outbox, rw_audit = []\<rparr>"

definition sample_reset :: jobj where
  "sample_reset = [(''token'', JStr ''t''), (''password'', JStr ''Abcdefghijk1'')]"

lemma sample_reset_runs:
  "isl (password_reset_confirm id id 5 sample_reset sample_resets) = False" "isl (reset_check id 5 sample_reset sample_resets) = False"
  by code_simp+

theorem reset_takes_effect_witness:
  "\<exists>r\<in>set (rw_rows sample_resets). \<exists>token password. field ''token'' sample_reset = JStr token \<and> field ''password'' sample_reset = JStr password
    \<and> rz_tokenHash r = id token \<and> rz_usedAt r = None \<and> 5 < rz_expiresAt r \<and> strong_password password
    \<and> rw_users (outcome (password_reset_confirm id id 5 sample_reset sample_resets) sample_resets)
        = map (\<lambda>u. if u_id u = rz_userId r then u\<lparr>u_passwordHash := Some (id password)\<rparr> else u) (rw_users sample_resets)
    \<and> (\<forall>x\<in>set (rw_rows (outcome (password_reset_confirm id id 5 sample_reset sample_resets) sample_resets)). rz_userId x = rz_userId r \<longrightarrow> rz_usedAt x \<noteq> None)
    \<and> (\<forall>s\<in>set (id_sessions (rw_identity (outcome (password_reset_confirm id id 5 sample_reset sample_resets) sample_resets))).
        ss_userId s = rz_userId r \<longrightarrow> ss_revokedAt s \<noteq> None)"
  by (rule reset_takes_effect [OF outcome [OF sample_reset_runs(1)]]) (simp add: sample_resets_def)

theorem one_live_link_per_user_witness:
  "one_live_link (fold (reset_step id id) [Ask None ''s'' ''token'' 1 [(''email'', JStr ''a@b.c'')]] sample_resets)"
  by (rule one_live_link_per_user) (simp add: one_live_link_def sample_resets_def)

definition sample_reset_plan :: reset_plan where
  "sample_reset_plan = \<lparr>rp_row = hd (rw_rows sample_resets), rp_password = ''Abcdefghijk1'', rp_workspaceId = None\<rparr>"

lemma sample_commit: "isl (reset_commit id 5 sample_reset_plan sample_resets) = False"
  by code_simp

theorem reset_link_works_once_witness:
  "reset_commit id 6 sample_reset_plan (fold (reset_step id id) [Ask None ''s'' ''token'' 1 [(''email'', JStr ''a@b.c'')]]
     (outcome (reset_commit id 5 sample_reset_plan sample_resets) sample_resets)) = Inl 409"
  by (rule reset_link_works_once [OF outcome [OF sample_commit]]) (simp_all add: sample_resets_def)

end
