(* ===== verification/PlanningLevels.thy ===== *)
theory PlanningLevels
  imports Issues Hierarchy
begin

text \<open>
  Where the issue editor meets the hierarchy: reparenting keeps every issue strictly below its parent
  in the planning levels, but the level of an issue can also be changed by the editor, which checks
  only that the level exists and the issue is an epic.
\<close>

definition level_core :: workspace_db where
  "level_core = hier_db\<lparr>db_issues := [epic_a, epic_b\<lparr>i_parentId := Some ''a''\<rparr>],
     db_issueTypes := [\<lparr>it_id = ''t'', it_projectId = ''p'', it_name = ''Epic'', it_position = 0, it_isEpic = True\<rparr>],
     db_statuses := [\<lparr>st_id = ''s'', st_projectId = ''p'', st_name = ''Open'', st_position = 0, st_category = Todo\<rparr>]\<rparr>"

definition level_tracker :: tracker where
  "level_tracker = board_tracker\<lparr>tk_core := level_core\<rparr>"

definition lift_body :: jobj where
  "lift_body = [(''hierarchyLevelId'', JStr ''top''), (''version'', JInt 1)]"

lemma level_core_ranked: "ranked ''w'' level_core"
proof -
  have "edges ''w'' level_core \<subseteq> {(''b'', ''a'')}"
    by (auto simp: edges_def level_core_def hier_sample_defs)
  moreover have "drops (rank_of_id level_core) ''b'' ''a''"
    by (simp add: drops_def rank_of_id_def rank_def level_position_def level_core_def hier_sample_defs)
  ultimately show ?thesis by (auto simp: ranked_def)
qed

lemma edgeI: "i \<in> set (db_issues db) \<Longrightarrow> i_workspaceId i = w \<Longrightarrow> i_parentId i = Some q \<Longrightarrow> (i_id i, q) \<in> edges w db"
  by (auto simp: edges_def)

lemma lift_edits: "edits_of level_tracker sample_project ''w'' 7 (epic_b\<lparr>i_parentId := Some ''a''\<rparr>) lift_body
  = Inr (no_data\<lparr>d_hierarchyLevelId := Some (Some ''top'')\<rparr>, [(''hierarchyLevelId'', from_to (JStr ''mid'') (JStr ''top''))])"
proof -
  have body: "field ''hierarchyLevelId'' lift_body = JStr ''top''" by (simp add: lift_body_def field_def)
  have others: "field k lift_body = JUndef" if "k \<notin> {''hierarchyLevelId'', ''version''}" for k
    using that by (auto simp: lift_body_def field_def)
  have level: "edit_level level_tracker ''w'' (epic_b\<lparr>i_parentId := Some ''a''\<rparr>) lift_body (no_data, [])
      = Inr (no_data\<lparr>d_hierarchyLevelId := Some (Some ''top'')\<rparr>, [(''hierarchyLevelId'', from_to (JStr ''mid'') (JStr ''top''))])"
    by (simp add: edit_level_def body find_level_def level_tracker_def level_core_def hier_sample_defs js_option_def Let_def)
  show ?thesis
    by (simp add: edits_of_def edit_status_def edit_resolution_def edit_title_def edit_description_def edit_priority_def
        edit_estimate_def edit_assignee_def edit_due_def others level Let_def)
qed

definition lift_plan :: edit_plan where
  "lift_plan = \<lparr>ep_context = amy, ep_project = sample_project, ep_role = Some PAdmin, ep_existing = epic_b\<lparr>i_parentId := Some ''a''\<rparr>,
     ep_data = no_data\<lparr>d_hierarchyLevelId := Some (Some ''top'')\<rparr>,
     ep_changes = [(''hierarchyLevelId'', from_to (JStr ''mid'') (JStr ''top''))], ep_labels = None, ep_fields = JUndef,
     ep_mentions = [], ep_watchers = []\<rparr>"

lemma lift_check: "patch_check level_tracker 7 (Some amy) ''b'' lift_body = Inr lift_plan"
proof -
  have find_b: "find_issue level_core amy ''b'' = Some (epic_b\<lparr>i_parentId := Some ''a''\<rparr>)"
    by (simp add: find_issue_def level_core_def hier_sample_defs)
  have view: "canViewIssue level_core amy ''b''"
    by (simp add: canViewIssue_def issueSecurityWhere_def level_core_def hier_sample_defs)
  have proj: "getProjectForContext level_core amy ''WEB'' = Some sample_project"
    by (simp add: getProjectForContext_def accessibleProjectWhere_def level_core_def hier_sample_defs ascii_simps)
  have perm: "requireProjectPermission level_core amy ''p'' Issue_Edit"
    by (simp add: requireProjectPermission_iff find_project_def candidates_def project_role_of_def actor_groups_def grants_for_def
        level_core_def hier_sample_defs)
  have role: "project_role_of level_core ''p'' ''amy'' = Some PAdmin"
    by (simp add: project_role_of_def level_core_def hier_sample_defs)
  have b: "i_projectId epic_b = ''p''" "i_workspaceId epic_b = ''w''" "i_version epic_b = 1"
    and p: "p_id sample_project = ''p''" "p_key sample_project = ''WEB''" "p_workspaceId sample_project = ''w''"
    and a: "cx_workspaceId amy = ''w''" "cx_userId amy = ''amy''"
    and ps: "db_projects level_core = [sample_project]"
    by (simp_all add: level_core_def hier_sample_defs)
  have body: "field ''version'' lift_body = JInt 1" "field ''labels'' lift_body = JUndef" "field ''customFields'' lift_body = JUndef"
    by (simp_all add: lift_body_def field_def)
  have core: "tk_core level_tracker = level_core" "tk_watchers level_tracker = []"
    by (simp_all add: level_tracker_def board_tracker_def)
  have "no_data\<lparr>d_hierarchyLevelId := Some (Some ''top'')\<rparr> \<noteq> no_data" by (simp add: no_data_def)
  then show ?thesis
    by (simp add: patch_check_def core find_b view ps b p a proj perm role body lift_edits edit_labels_def lift_plan_def)
      (simp add: no_data_def)
qed

text \<open>
  The editor can break the order that reparenting maintains. From a hierarchy in which every issue
  ranks strictly below its parent, a single edit by a permitted user puts a child on the level of its
  parent.
\<close>

theorem level_edit_breaks_ranks:
  "ranked ''w'' (tk_core level_tracker)
   \<and> (\<exists>tk'. issue_PATCH show_js parse_url new 7 (Some amy) ''b'' lift_body level_tracker = Inr tk' \<and> \<not> ranked ''w'' (tk_core tk'))"
proof (rule conjI)
  show "ranked ''w'' (tk_core level_tracker)" using level_core_ranked by (simp add: level_tracker_def)
  let ?b = "epic_b\<lparr>i_parentId := Some ''a''\<rparr>"
  let ?d = "no_data\<lparr>d_hierarchyLevelId := Some (Some ''top'')\<rparr>"
  let ?tk = "told_edit (new 0) lift_plan None ?d (apply_data 7 ?d ?b) (stored_edit new 7 lift_plan None ?d [] ?b level_tracker)"
  have data: "ep_data lift_plan = ?d" by (simp add: lift_plan_def)
  have "patch_commit show_js parse_url new 7 lift_plan level_tracker = Inr ?tk"
    unfolding data [symmetric]
    by (rule plain_commit) (simp_all add: lift_plan_def status_gate_def moving_def no_data_def apply_data_def or_old_def issue_row_def
        status_row_def level_tracker_def level_core_def hier_sample_defs)
  then have patch: "issue_PATCH show_js parse_url new 7 (Some amy) ''b'' lift_body level_tracker = Inr ?tk"
    by (simp add: issue_PATCH_def lift_check)
  have issues: "db_issues (tk_core ?tk) = [epic_a, apply_data 7 ?d ?b]"
    by (simp add: stored_edit_core lift_plan_def level_tracker_def level_core_def) (simp add: hier_sample_defs)
  have levels: "db_levels (tk_core ?tk) = db_levels hier_db"
    by (simp add: stored_edit_def Let_def level_tracker_def level_core_def)
  have "(i_id (apply_data 7 ?d ?b), ''a'') \<in> edges ''w'' (tk_core ?tk)"
    by (rule edgeI) (unfold issues, simp_all add: apply_data_def hier_sample_defs)
  then have "(''b'', ''a'') \<in> edges ''w'' (tk_core ?tk)"
    by (simp add: apply_data_def epic_b_def)
  moreover have "rank_of_id (tk_core ?tk) ''a'' = Some 1" "rank_of_id (tk_core ?tk) ''b'' = Some 1"
    unfolding rank_of_id_def rank_def level_position_def issues levels
    by (simp_all add: apply_data_def no_data_def or_old_def hier_sample_defs)
  ultimately have "\<not> ranked ''w'' (tk_core ?tk)"
    by (fastforce simp: ranked_def drops_def)
  with patch show "\<exists>tk'. issue_PATCH show_js parse_url new 7 (Some amy) ''b'' lift_body level_tracker = Inr tk' \<and> \<not> ranked ''w'' (tk_core tk')"
    by blast
qed

end
