(* ===== verification/Plans.thy ===== *)
theory Plans
  imports Issues DependencyGraph
begin

text \<open>
  Portfolio plans (\<open>src/lib/portfolio-plan.ts\<close>, \<open>portfolio-health.ts\<close> and the routes under \<open>api/plans\<close>): a plan
  names projects and queries, and every reader sees the work of these sources that the reader may see.
  How the database reads the filter a query compiles to is the parameter \<open>sat\<close>; the order in which the
  analysis compares identifiers is the parameter \<open>before\<close>. Rates are exact; the code computes them in
  doubles.
\<close>

section \<open>Plans and their sources\<close>

datatype plan_source = Project_Source string | Query_Source string

record portfolio_plan =
  pp_id :: string
  pp_workspaceId :: string
  pp_ownerId :: string
  pp_name :: string
  pp_description :: "string option"
  pp_shared :: bool
  pp_configuration :: js
  pp_sources :: "plan_source list"
  pp_version :: int
  pp_archivedAt :: "time option"
  pp_updatedAt :: time

datatype plan_error = Plan_Error nat | Query_Failed query_error

fun plan_status :: "plan_error \<Rightarrow> nat" where
  "plan_status (Plan_Error n) = n"
| "plan_status (Query_Failed _) = 400"

definition PLAN_COLUMNS :: "string list" where
  "PLAN_COLUMNS = [''key'', ''summary'', ''project'', ''status'', ''assignee'', ''start'', ''due'', ''level'', ''release'']"

record plan_config =
  cg_columns :: "string list"
  cg_groupBy :: string
  cg_zoom :: string
  cg_pageSize :: nat
  cg_timezone :: string
  cg_showArchived :: bool
  cg_expandHierarchy :: bool

text \<open>\<open>/^[A-Za-z_]+(?:\/[A-Za-z_+-]+)+$/\<close>\<close>

definition is_zone_name :: "string \<Rightarrow> bool" where
  "is_zone_name s =
     (case split_on CHR ''/'' s of
        area # places \<Rightarrow> places \<noteq> [] \<and> area \<noteq> [] \<and> list_all (\<lambda>c. is_lower c \<or> is_upper c \<or> c = CHR ''_'') area
          \<and> list_all (\<lambda>p. p \<noteq> [] \<and> list_all (\<lambda>c. is_lower c \<or> is_upper c \<or> c \<in> set ''_+-'') p) places
      | [] \<Rightarrow> False)"

definition one_of :: "(js \<Rightarrow> string) \<Rightarrow> string list \<Rightarrow> string \<Rightarrow> js \<Rightarrow> string" where
  "one_of show_js known fallback v = (if js_text show_js v \<in> set known then js_text show_js v else fallback)"

definition validatePlanConfiguration :: "(js \<Rightarrow> string) \<Rightarrow> js \<Rightarrow> (plan_error, plan_config) result" where
  "validatePlanConfiguration show_js value =
     (case as_object value of
        None \<Rightarrow> Inl (Plan_Error 400)
      | Some input \<Rightarrow>
          (let selected = (case as_array (field ''columns'' input) of
                 Some vs \<Rightarrow> uniq (filter (\<lambda>c. c \<in> set PLAN_COLUMNS) (strings_of vs))
               | None \<Rightarrow> [''key'', ''summary'', ''project'', ''status'', ''start'', ''due'']) in
           if selected = [] \<or> length PLAN_COLUMNS < length selected then Inl (Plan_Error 400)
           else Inr \<lparr>cg_columns = selected,
             cg_groupBy = one_of show_js [''none'', ''project'', ''status'', ''level'', ''assignee''] ''project'' (field ''groupBy'' input),
             cg_zoom = one_of show_js [''week'', ''month'', ''quarter'', ''year''] ''quarter'' (field ''zoom'' input),
             cg_pageSize = (case as_integer (field ''pageSize'' input) of Some n \<Rightarrow> if 10 \<le> n \<and> n \<le> 200 then nat n else 50 | None \<Rightarrow> 50),
             cg_timezone = (case as_string (field ''timezone'' input) of Some z \<Rightarrow> if is_zone_name z then z else ''UTC'' | None \<Rightarrow> ''UTC''),
             cg_showArchived = (field ''showArchived'' input = JBool True), cg_expandHierarchy = (field ''expandHierarchy'' input \<noteq> JBool False)\<rparr>))"

definition config_json :: "plan_config \<Rightarrow> js" where
  "config_json c = JObj [(''columns'', JArr (map JStr (cg_columns c))), (''groupBy'', JStr (cg_groupBy c)), (''zoom'', JStr (cg_zoom c)),
     (''pageSize'', JInt (int (cg_pageSize c))), (''timezone'', JStr (cg_timezone c)), (''showArchived'', JBool (cg_showArchived c)),
     (''expandHierarchy'', JBool (cg_expandHierarchy c))]"

text \<open>The health report of a plan and the snapshots taken of it.\<close>

record plan_health =
  hp_total :: nat
  hp_bounded :: bool
  hp_completed :: nat
  hp_completionRate :: int
  hp_remaining :: nat
  hp_overdue :: nat
  hp_unscheduled :: nat
  hp_confidence :: string
  hp_points :: int
  hp_lowDays :: int
  hp_highDays :: int
  hp_forecastConfidence :: string

record health_report =
  hr_health :: plan_health
  hr_warnings :: nat
  hr_criticalItems :: nat
  hr_riskBounded :: bool
  hr_suppressed :: bool

record health_snapshot =
  hs_id :: string
  hs_workspaceId :: string
  hs_planId :: string
  hs_authorId :: string
  hs_capturedAt :: time
  hs_report :: health_report

record plan_db =
  pd_tracker :: tracker
  pd_links :: "dep_edge list"
  pd_plans :: "portfolio_plan list"
  pd_snapshots :: "health_snapshot list"

abbreviation "pd_core db \<equiv> tk_core (pd_tracker db)"

definition plan_sees :: "auth_context \<Rightarrow> portfolio_plan \<Rightarrow> bool" where
  "plan_sees cx p \<longleftrightarrow> pp_workspaceId p = cx_workspaceId cx \<and> pp_archivedAt p = None \<and> (pp_ownerId p = cx_userId cx \<or> pp_shared p)"

definition visiblePlan :: "plan_db \<Rightarrow> auth_context \<Rightarrow> string \<Rightarrow> (plan_error, portfolio_plan) result" where
  "visiblePlan db cx i =
     (case find (\<lambda>p. pp_id p = i \<and> plan_sees cx p) (pd_plans db) of None \<Rightarrow> Inl (Plan_Error 404) | Some p \<Rightarrow> Inr p)"

definition validate_source :: "workspace_db \<Rightarrow> auth_context \<Rightarrow> js \<Rightarrow> (plan_error, plan_source) result" where
  "validate_source core cx item =
     (case as_object item of
        None \<Rightarrow> Inl (Plan_Error 400)
      | Some source \<Rightarrow>
          (case (field ''kind'' source, field ''projectId'' source, field ''query'' source) of
             (JStr kind, pid, query) \<Rightarrow>
               if kind = ''PROJECT'' \<and> as_string pid \<noteq> None then
                 (case find (\<lambda>p. accessibleProjectWhere core cx p \<and> as_string pid = Some (p_id p)) (db_projects core) of
                    None \<Rightarrow> Inl (Plan_Error 404)
                  | Some p \<Rightarrow> Inr (Project_Source (p_id p)))
               else if kind = ''QUERY'' then
                 (case as_string query of
                    None \<Rightarrow> Inl (Plan_Error 400)
                  | Some q \<Rightarrow> (case parseAdvancedQuery q of Inl e \<Rightarrow> Inl (Query_Failed e) | Inr _ \<Rightarrow> Inr (Query_Source q)))
               else Inl (Plan_Error 400)
           | _ \<Rightarrow> Inl (Plan_Error 400)))"

definition validatePlanSources :: "workspace_db \<Rightarrow> auth_context \<Rightarrow> js \<Rightarrow> (plan_error, plan_source list) result" where
  "validatePlanSources core cx value =
     (case as_array value of
        None \<Rightarrow> Inl (Plan_Error 400)
      | Some vs \<Rightarrow> if vs = [] \<or> 50 < length vs then Inl (Plan_Error 400) else map_result (validate_source core cx) vs)"

section \<open>The work of a plan\<close>

text \<open>The \<open>OR\<close> of the sources; a query is compiled when the plan is read, relative dates included.\<close>

datatype source_predicate = In_Project string | Where filter_value

definition source_predicates :: "time \<Rightarrow> plan_source list \<Rightarrow> (plan_error, source_predicate list) result" where
  "source_predicates now sources =
     map_result (\<lambda>s. case s of
         Project_Source pid \<Rightarrow> Inr (In_Project pid)
       | Query_Source q \<Rightarrow> (case compileAdvancedQuery now q of Inl e \<Rightarrow> Inl (Query_Failed e) | Inr (w, _) \<Rightarrow> Inr (Where w)))
     (filter (\<lambda>s. s \<noteq> Project_Source [] \<and> s \<noteq> Query_Source []) sources)"

definition from_source :: "(filter_value \<Rightarrow> issue \<Rightarrow> bool) \<Rightarrow> issue \<Rightarrow> source_predicate \<Rightarrow> bool" where
  "from_source sat i s = (case s of In_Project pid \<Rightarrow> i_projectId i = pid | Where w \<Rightarrow> sat w i)"

definition plan_where :: "(filter_value \<Rightarrow> issue \<Rightarrow> bool) \<Rightarrow> workspace_db \<Rightarrow> auth_context \<Rightarrow> plan_config \<Rightarrow> source_predicate list \<Rightarrow> issue \<Rightarrow> bool" where
  "plan_where sat core cx config sources i \<longleftrightarrow>
     i_workspaceId i = cx_workspaceId cx \<and> (cg_showArchived config \<or> i_archivedAt i = None)
   \<and> list_ex (\<lambda>p. p_id p = i_projectId i \<and> accessibleProjectWhere core cx p) (db_projects core)
   \<and> issueSecurityWhere core cx None i \<and> list_ex (from_source sat i) sources"

definition plan_work :: "(js \<Rightarrow> string) \<Rightarrow> (filter_value \<Rightarrow> issue \<Rightarrow> bool) \<Rightarrow> time \<Rightarrow> plan_db \<Rightarrow> auth_context \<Rightarrow> portfolio_plan \<Rightarrow> (plan_error, plan_config \<times> issue list) result" where
  "plan_work show_js sat now db cx plan =
     bind_result (validatePlanConfiguration show_js (pp_configuration plan)) (\<lambda>config.
     bind_result (source_predicates now (pp_sources plan)) (\<lambda>sources.
       Inr (config, filter (plan_where sat (pd_core db) cx config sources) (db_issues (pd_core db)))))"

record plan_page =
  pg_plan :: portfolio_plan
  pg_configuration :: plan_config
  pg_page :: nat
  pg_total :: nat
  pg_items :: "issue list"

text \<open>\<open>orderBy: [{ dueDate: { sort: "asc", nulls: "last" } }, { id: "asc" }]\<close>\<close>

definition by_due_date :: "issue list \<Rightarrow> issue list" where
  "by_due_date rows = sort_key (\<lambda>i. i_dueDate i = None) (sort_key (\<lambda>i. case i_dueDate i of Some d \<Rightarrow> d | None \<Rightarrow> 0) (sort_key i_id rows))"

definition bounded_page :: "int option \<Rightarrow> nat" where
  "bounded_page page = (case page of Some n \<Rightarrow> if 0 < n \<and> n \<le> 10000 then nat n else 1 | None \<Rightarrow> 1)"

definition planItems :: "(js \<Rightarrow> string) \<Rightarrow> (filter_value \<Rightarrow> issue \<Rightarrow> bool) \<Rightarrow> time \<Rightarrow> plan_db \<Rightarrow> auth_context \<Rightarrow> string \<Rightarrow> int option \<Rightarrow> (plan_error, plan_page) result" where
  "planItems show_js sat now db cx i page =
     bind_result (visiblePlan db cx i) (\<lambda>plan.
     bind_result (plan_work show_js sat now db cx plan) (\<lambda>(config, rows).
       (let n = bounded_page page; n_items = cg_pageSize config in
        Inr \<lparr>pg_plan = plan, pg_configuration = config, pg_page = n, pg_total = length rows,
             pg_items = take n_items (drop ((n - 1) * n_items) (by_due_date rows))\<rparr>)))"

definition plan_node :: "tracker \<Rightarrow> issue \<Rightarrow> dep_node" where
  "plan_node tk i =
     \<lparr>dn_id = i_id i, dn_key = (case find (\<lambda>p. p_id p = i_projectId i) (db_projects (tk_core tk)) of Some p \<Rightarrow> issue_key p (i_number i) | None \<Rightarrow> []),
      dn_projectId = i_projectId i, dn_dueDate = i_dueDate i, dn_estimate = i_estimate i,
      dn_completed = (i_completedAt i \<noteq> None \<or> (case status_row tk (i_statusId i) of Some s \<Rightarrow> st_category s = Done | None \<Rightarrow> False))\<rparr>"

record plan_insights =
  ps_nodes :: "issue list"
  ps_bounded :: bool
  ps_analysis :: analysis

definition planDependencyInsights :: "(js \<Rightarrow> string) \<Rightarrow> (filter_value \<Rightarrow> issue \<Rightarrow> bool) \<Rightarrow> (string \<Rightarrow> string \<Rightarrow> bool) \<Rightarrow> time \<Rightarrow> plan_db \<Rightarrow> auth_context \<Rightarrow> string \<Rightarrow> (plan_error, plan_insights) result" where
  "planDependencyInsights show_js sat before now db cx i =
     bind_result (visiblePlan db cx i) (\<lambda>plan.
     bind_result (plan_work show_js sat now db cx plan) (\<lambda>(config, rows).
       (let nodes = take 1000 (sort_key i_id rows); ids = map i_id nodes;
            edges = take 5000 (sort_key de_id (filter (\<lambda>e. de_type e = ''blocks'' \<and> de_from e \<in> set ids \<and> de_to e \<in> set ids) (pd_links db))) in
        Inr \<lparr>ps_nodes = nodes, ps_bounded = (length nodes = 1000 \<or> length edges = 5000),
             ps_analysis = analyzeDependencies before (map (plan_node (pd_tracker db)) nodes) edges\<rparr>)))"

section \<open>Plan health\<close>

definition NEW_YEAR_2026 :: time where "NEW_YEAR_2026 = 1767225600000"

text \<open>\<open>Math.round\<close> of a percentage and \<open>Math.ceil\<close> of a quotient.\<close>

definition percent :: "nat \<Rightarrow> nat \<Rightarrow> int" where
  "percent part whole = (if whole = 0 then 0 else (200 * int part + int whole) div (2 * int whole))"

definition ceil_div :: "int \<Rightarrow> int \<Rightarrow> int" where
  "ceil_div a b = - ((- a) div b)"

text \<open>The due date of an item is its UTC day; without an instant the reference is the default argument.\<close>

definition calculatePortfolioHealth :: "issue list \<Rightarrow> time option \<Rightarrow> plan_health" where
  "calculatePortfolioHealth items now =
     (let today = utc_midnight (case now of Some t \<Rightarrow> t | None \<Rightarrow> NEW_YEAR_2026);
          left = filter (\<lambda>i. i_completedAt i = None) items;
          completed = length items - length left; remaining = length items - completed;
          overdue = count_rows (\<lambda>i. case i_dueDate i of Some d \<Rightarrow> utc_midnight d < today | None \<Rightarrow> False) left;
          unscheduled = count_rows (\<lambda>i. i_dueDate i = None) left;
          points = sum_list (map (\<lambda>i. max 0 (case i_estimate i of Some e \<Rightarrow> e | None \<Rightarrow> 0)) left);
          confidence = (if items = [] \<or> max 1 remaining < 4 * unscheduled then ''LOW''
            else if max 1 remaining < 5 * overdue then ''MEDIUM'' else ''HIGH'')
      in \<lparr>hp_total = length items, hp_bounded = False, hp_completed = completed, hp_completionRate = percent completed (length items),
          hp_remaining = remaining, hp_overdue = overdue, hp_unscheduled = unscheduled, hp_confidence = confidence, hp_points = points,
          hp_lowDays = ceil_div points 8, hp_highDays = ceil_div points 3 + 2 * int unscheduled, hp_forecastConfidence = confidence\<rparr>)"

definition shouldSuppressSharedHealth :: "bool \<Rightarrow> nat \<Rightarrow> bool" where
  "shouldSuppressSharedHealth shared n \<longleftrightarrow> shared \<and> 0 < n \<and> n < 5"

definition hide_health :: "plan_health \<Rightarrow> plan_health" where
  "hide_health h = h\<lparr>hp_completed := 0, hp_completionRate := 0, hp_remaining := 0, hp_overdue := 0, hp_unscheduled := 0, hp_confidence := ''LOW'',
     hp_points := 0, hp_lowDays := 0, hp_highDays := 0, hp_forecastConfidence := ''LOW''\<rparr>"

text \<open>The pages after the first, up to the fiftieth.\<close>

definition total_pages :: "plan_page \<Rightarrow> nat" where
  "total_pages first = min 50 (nat (ceil_div (int (pg_total first)) (int (cg_pageSize (pg_configuration first)))))"

definition live_health :: "(js \<Rightarrow> string) \<Rightarrow> (filter_value \<Rightarrow> issue \<Rightarrow> bool) \<Rightarrow> (string \<Rightarrow> string \<Rightarrow> bool) \<Rightarrow> time \<Rightarrow> plan_db \<Rightarrow> auth_context \<Rightarrow> string \<Rightarrow> (plan_error, plan_page \<times> health_report) result" where
  "live_health show_js sat before now db cx i =
     bind_result (planItems show_js sat now db cx i (Some 1)) (\<lambda>first.
     bind_result (map_result (\<lambda>n. planItems show_js sat now db cx i (Some (int n))) [2..<Suc (total_pages first)]) (\<lambda>rest.
     bind_result (planDependencyInsights show_js sat before now db cx i) (\<lambda>dependencies.
       (let items = concat (map pg_items (first # rest));
            suppressed = shouldSuppressSharedHealth (pp_shared (pg_plan first)) (pg_total first);
            calculated = (calculatePortfolioHealth items None)\<lparr>hp_total := pg_total first, hp_bounded := (length items < pg_total first)\<rparr> in
        Inr (first, \<lparr>hr_health = (if suppressed then hide_health calculated else calculated),
          hr_warnings = length (an_warnings (ps_analysis dependencies)), hr_criticalItems = length (an_criticalPath (ps_analysis dependencies)),
          hr_riskBounded = ps_bounded dependencies, hr_suppressed = suppressed\<rparr>)))))"

definition answer :: "(plan_error, 'a) result \<Rightarrow> (nat, 'a) result" where
  "answer r = (case r of Inl e \<Rightarrow> Inl (plan_status e) | Inr x \<Rightarrow> Inr x)"

lemma answer_ok [handler_simps, simp]: "answer r = Inr x \<longleftrightarrow> r = Inr x"
  by (simp add: answer_def split: sum.splits)

datatype health_answer = Live health_report | History "health_snapshot list" | Snapshot health_snapshot

definition health_GET :: "(js \<Rightarrow> string) \<Rightarrow> (filter_value \<Rightarrow> issue \<Rightarrow> bool) \<Rightarrow> (string \<Rightarrow> string \<Rightarrow> bool) \<Rightarrow> time \<Rightarrow> auth_context option \<Rightarrow> string \<Rightarrow> bool \<Rightarrow> string option \<Rightarrow> plan_db \<Rightarrow> (nat, health_answer) result" where
  "health_GET show_js sat before now context i history snapshot db =
     (case context of
        None \<Rightarrow> Inl 401
      | Some cx \<Rightarrow> answer
          (if history then
             bind_result (visiblePlan db cx i) (\<lambda>plan. Inr (History (take 100 (sort_key (\<lambda>h. - hs_capturedAt h)
               (filter (\<lambda>h. hs_planId h = pp_id plan \<and> hs_workspaceId h = cx_workspaceId cx) (pd_snapshots db))))))
           else (case snapshot of
              Some sid \<Rightarrow>
                if sid = [] then bind_result (live_health show_js sat before now db cx i) (\<lambda>r. Inr (Live (snd r)))
                else bind_result (visiblePlan db cx i) (\<lambda>plan.
                  (case find (\<lambda>h. hs_id h = sid \<and> hs_planId h = i \<and> hs_workspaceId h = cx_workspaceId cx) (pd_snapshots db) of
                     None \<Rightarrow> Inl (Plan_Error 404)
                   | Some h \<Rightarrow> Inr (Snapshot h)))
            | None \<Rightarrow> bind_result (live_health show_js sat before now db cx i) (\<lambda>r. Inr (Live (snd r))))))"

definition health_POST :: "(js \<Rightarrow> string) \<Rightarrow> (filter_value \<Rightarrow> issue \<Rightarrow> bool) \<Rightarrow> (string \<Rightarrow> string \<Rightarrow> bool) \<Rightarrow> string \<Rightarrow> time \<Rightarrow> auth_context option \<Rightarrow> string \<Rightarrow> plan_db \<Rightarrow> (nat, plan_db) result" where
  "health_POST show_js sat before new now context i db =
     (case context of
        None \<Rightarrow> Inl 401
      | Some cx \<Rightarrow> answer (bind_result (live_health show_js sat before now db cx i) (\<lambda>r.
          Inr (db\<lparr>pd_snapshots := pd_snapshots db @ [\<lparr>hs_id = new, hs_workspaceId = cx_workspaceId cx, hs_planId = i, hs_authorId = cx_userId cx,
            hs_capturedAt = now, hs_report = snd r\<rparr>]\<rparr>))))"

text \<open>The CSV form of a report: \<open>cell\<close> quotes, doubled inside.\<close>

definition csv_cell :: "string \<Rightarrow> string" where
  "csv_cell v = CHR 34 # concat (map (\<lambda>c. if c = CHR 34 then [CHR 34, CHR 34] else [c]) v) @ [CHR 34]"

definition decimal :: "int \<Rightarrow> string" where
  "decimal n = (if n < 0 then CHR ''-'' # digits_of_nat (nat (- n)) else digits_of_nat (nat n))"

definition health_rows :: "plan_health \<Rightarrow> (string \<times> int) list" where
  "health_rows h = [(''total'', int (hp_total h)), (''completed'', int (hp_completed h)), (''completionRate'', hp_completionRate h),
     (''overdue'', int (hp_overdue h)), (''unscheduled'', int (hp_unscheduled h)), (''remainingPoints'', hp_points h),
     (''lowDays'', hp_lowDays h), (''highDays'', hp_highDays h)]"

definition health_csv :: "plan_health \<Rightarrow> string list" where
  "health_csv h = ''metric,value'' # map (\<lambda>(k, v). csv_cell k @ '','' @ csv_cell (decimal v)) (health_rows h)"

section \<open>Keeping plans\<close>

definition plan_audit :: "auth_context \<Rightarrow> string \<Rightarrow> string \<Rightarrow> jobj \<Rightarrow> plan_db \<Rightarrow> plan_db" where
  "plan_audit cx action i metadata db =
     db\<lparr>pd_tracker := (pd_tracker db)\<lparr>tk_core := (pd_core db)\<lparr>db_audit := db_audit (pd_core db) @ [\<lparr>au_workspaceId = cx_workspaceId cx,
       au_actorId = Some (cx_userId cx), au_action = action, au_targetType = ''portfolio_plan'', au_targetId = i, au_metadata = JObj metadata\<rparr>]\<rparr>\<rparr>\<rparr>"

definition plans_GET :: "auth_context option \<Rightarrow> plan_db \<Rightarrow> (nat, portfolio_plan list) result" where
  "plans_GET context db =
     (case context of
        None \<Rightarrow> Inl 401
      | Some cx \<Rightarrow> Inr (take 100 (sort_key (\<lambda>p. - pp_updatedAt p) (filter (plan_sees cx) (pd_plans db)))))"

definition plan_GET :: "auth_context option \<Rightarrow> string \<Rightarrow> plan_db \<Rightarrow> (nat, portfolio_plan) result" where
  "plan_GET context i db = (case context of None \<Rightarrow> Inl 401 | Some cx \<Rightarrow> answer (visiblePlan db cx i))"

definition plans_POST :: "(js \<Rightarrow> string) \<Rightarrow> string \<Rightarrow> time \<Rightarrow> auth_context option \<Rightarrow> jobj option \<Rightarrow> plan_db \<Rightarrow> (nat, plan_db) result" where
  "plans_POST show_js new now context body db =
     (case context of
        None \<Rightarrow> Inl 401
      | Some cx \<Rightarrow>
          (case body of
             None \<Rightarrow> Inl 400
           | Some b \<Rightarrow>
               (let name = trim (string_or_empty (field ''name'' b)) in
                if name = [] \<or> 100 < length name then Inl 400
                else bind_result (answer (validatePlanConfiguration show_js (field ''configuration'' b))) (\<lambda>config.
                  bind_result (answer (validatePlanSources (pd_core db) cx (field ''sources'' b))) (\<lambda>sources.
                    if new \<in> pp_id ` set (pd_plans db) then Inl 400
                    else Inr (plan_audit cx ''portfolio.plan_created'' new
                      [(''shared'', JBool (field ''shared'' b = JBool True)), (''sourceCount'', JInt (int (length sources)))]
                      (db\<lparr>pd_plans := pd_plans db @ [\<lparr>pp_id = new, pp_workspaceId = cx_workspaceId cx, pp_ownerId = cx_userId cx, pp_name = name,
                         pp_description = map_option (take 500 \<circ> trim) (as_string (field ''description'' b)), pp_shared = (field ''shared'' b = JBool True),
                         pp_configuration = config_json config, pp_sources = sources, pp_version = 1, pp_archivedAt = None, pp_updatedAt = now\<rparr>]\<rparr>)))))))"

text \<open>An edit: the plan is read and the version compared, the transaction compares it again.\<close>

record plan_edit =
  pe_context :: auth_context
  pe_plan :: portfolio_plan
  pe_body :: jobj
  pe_sources :: "plan_source list option"
  pe_configuration :: "plan_config option"

definition plan_edit_check :: "(js \<Rightarrow> string) \<Rightarrow> auth_context option \<Rightarrow> string \<Rightarrow> jobj option \<Rightarrow> plan_db \<Rightarrow> (nat, plan_edit) result" where
  "plan_edit_check show_js context i body db =
     (case context of
        None \<Rightarrow> Inl 401
      | Some cx \<Rightarrow>
          (case body of
             None \<Rightarrow> Inl 400
           | Some b \<Rightarrow>
               bind_result (answer (visiblePlan db cx i)) (\<lambda>plan.
                 if pp_ownerId plan \<noteq> cx_userId cx then Inl 403
                 else if as_integer (field ''version'' b) \<noteq> Some (pp_version plan) then Inl 409
                 else bind_result (if field ''sources'' b = JUndef then Inr None
                     else bind_result (answer (validatePlanSources (pd_core db) cx (field ''sources'' b))) (Inr \<circ> Some)) (\<lambda>sources.
                   bind_result (if field ''configuration'' b = JUndef then Inr None
                     else bind_result (answer (validatePlanConfiguration show_js (field ''configuration'' b))) (Inr \<circ> Some)) (\<lambda>config.
                     Inr \<lparr>pe_context = cx, pe_plan = plan, pe_body = b, pe_sources = sources, pe_configuration = config\<rparr>)))))"

definition edited_plan :: "time \<Rightarrow> plan_edit \<Rightarrow> portfolio_plan \<Rightarrow> portfolio_plan" where
  "edited_plan now pe p =
     p\<lparr>pp_name := (case field ''name'' (pe_body pe) of JStr x \<Rightarrow> if trim x = [] then pp_name p else take 100 (trim x) | _ \<Rightarrow> pp_name p),
       pp_shared := (case field ''shared'' (pe_body pe) of JBool b \<Rightarrow> b | _ \<Rightarrow> pp_shared p),
       pp_configuration := (case pe_configuration pe of Some c \<Rightarrow> config_json c | None \<Rightarrow> pp_configuration p),
       pp_sources := (case pe_sources pe of Some ss \<Rightarrow> ss | None \<Rightarrow> pp_sources p),
       pp_version := pp_version p + 1, pp_updatedAt := now\<rparr>"

definition plan_edit_commit :: "time \<Rightarrow> plan_edit \<Rightarrow> plan_db \<Rightarrow> (nat, plan_db) result" where
  "plan_edit_commit now pe db =
     (let plan = pe_plan pe; hit = (\<lambda>p. pp_id p = pp_id plan \<and> pp_version p = pp_version plan) in
      if count_rows hit (pd_plans db) = 0 then Inl 409
      else Inr (plan_audit (pe_context pe) ''portfolio.plan_updated'' (pp_id plan) [(''fromVersion'', JInt (pp_version plan))]
             (db\<lparr>pd_plans := map (\<lambda>p. if hit p then edited_plan now pe p else p) (pd_plans db)\<rparr>)))"

definition plan_PATCH :: "(js \<Rightarrow> string) \<Rightarrow> time \<Rightarrow> auth_context option \<Rightarrow> string \<Rightarrow> jobj option \<Rightarrow> plan_db \<Rightarrow> (nat, plan_db) result" where
  "plan_PATCH show_js now context i body db =
     bind_result (plan_edit_check show_js context i body db) (\<lambda>pe. plan_edit_commit now pe db)"

definition plan_items_GET :: "(js \<Rightarrow> string) \<Rightarrow> (filter_value \<Rightarrow> issue \<Rightarrow> bool) \<Rightarrow> time \<Rightarrow> auth_context option \<Rightarrow> string \<Rightarrow> int option \<Rightarrow> plan_db \<Rightarrow> (nat, plan_page) result" where
  "plan_items_GET show_js sat now context i page db =
     (case context of None \<Rightarrow> Inl 401 | Some cx \<Rightarrow> answer (planItems show_js sat now db cx i page))"

definition plan_dependencies_GET :: "(js \<Rightarrow> string) \<Rightarrow> (filter_value \<Rightarrow> issue \<Rightarrow> bool) \<Rightarrow> (string \<Rightarrow> string \<Rightarrow> bool) \<Rightarrow> time \<Rightarrow> auth_context option \<Rightarrow> string \<Rightarrow> plan_db \<Rightarrow> (nat, plan_insights) result" where
  "plan_dependencies_GET show_js sat before now context i db =
     (case context of None \<Rightarrow> Inl 401 | Some cx \<Rightarrow> answer (planDependencyInsights show_js sat before now db cx i))"

section \<open>Whoever shares a plan shows nothing but what its reader may see\<close>

lemma by_due_date_set [simp]: "set (by_due_date rows) = set rows"
  by (simp add: by_due_date_def)

lemma by_due_date_length [simp]: "length (by_due_date rows) = length rows"
  by (simp add: by_due_date_def)

lemma planItems_ok:
  assumes "planItems show_js sat now db cx i page = Inr pg"
  obtains rows where "plan_work show_js sat now db cx (pg_plan pg) = Inr (pg_configuration pg, rows)" and "visiblePlan db cx i = Inr (pg_plan pg)"
    and "pg_total pg = length rows" and "pg_page pg = bounded_page page"
    and "pg_items pg = take (cg_pageSize (pg_configuration pg)) (drop ((bounded_page page - 1) * cg_pageSize (pg_configuration pg)) (by_due_date rows))"
  using assms by (auto simp: planItems_def bind_result_eq_Inr Let_def)

text \<open>
  C30: Every issue a plan shows, on a page or as a node of its graph, is in a project its reader may open and passes the
  security filter of the reader, whoever owns the plan and whatever its queries say.
\<close>

theorem plan_shows_viewable_work:
  assumes "(planItems show_js sat now db cx i page = Inr pg \<and> x \<in> set (pg_items pg))
    \<or> (planDependencyInsights show_js sat before now db cx i = Inr ins \<and> x \<in> set (ps_nodes ins))"
  shows "x \<in> set (db_issues (pd_core db)) \<and> i_workspaceId x = cx_workspaceId cx \<and> issueSecurityWhere (pd_core db) cx None x
    \<and> (\<exists>p\<in>set (db_projects (pd_core db)). p_id p = i_projectId x \<and> accessibleProjectWhere (pd_core db) cx p)"
proof -
  have work: "x \<in> set (db_issues (pd_core db)) \<and> i_workspaceId x = cx_workspaceId cx \<and> issueSecurityWhere (pd_core db) cx None x
      \<and> (\<exists>p\<in>set (db_projects (pd_core db)). p_id p = i_projectId x \<and> accessibleProjectWhere (pd_core db) cx p)"
    if "plan_work show_js sat now db cx plan = Inr (config, rows)" "x \<in> set rows" for plan config rows
    using that by (auto simp: plan_work_def bind_result_eq_Inr plan_where_def list_ex_iff)
  from assms show ?thesis
  proof
    assume pg: "planItems show_js sat now db cx i page = Inr pg \<and> x \<in> set (pg_items pg)"
    then obtain rows where rows: "plan_work show_js sat now db cx (pg_plan pg) = Inr (pg_configuration pg, rows)"
      and items: "pg_items pg = take (cg_pageSize (pg_configuration pg)) (drop ((bounded_page page - 1) * cg_pageSize (pg_configuration pg)) (by_due_date rows))"
      using planItems_ok [of show_js sat now db cx i page pg] by blast
    have "x \<in> set rows" using pg in_set_takeD in_set_dropD unfolding items by fastforce
    then show ?thesis by (rule work [OF rows])
  next
    assume ins: "planDependencyInsights show_js sat before now db cx i = Inr ins \<and> x \<in> set (ps_nodes ins)"
    then obtain plan config rows where rows: "plan_work show_js sat now db cx plan = Inr (config, rows)" and nodes: "ps_nodes ins = take 1000 (sort_key i_id rows)"
      by (auto simp: planDependencyInsights_def bind_result_eq_Inr Let_def)
    have "x \<in> set (take 1000 (sort_key i_id rows))" using ins nodes by simp
    then have "x \<in> set rows" using in_set_takeD by fastforce
    then show ?thesis by (rule work [OF rows])
  qed
qed

section \<open>Pages\<close>

lemma pages_concat: "concat (map (\<lambda>n. take k (drop (n * k) xs)) [0..<m]) = take (m * k) xs"
proof (induction m)
  case (Suc m)
  have "take (m * k) xs @ take k (drop (m * k) xs) = take (m * k + k) xs" by (simp add: take_add)
  then show ?case using Suc by (simp add: add.commute)
qed simp

text \<open>
  The pages of a plan, put one after the other, are the list of its work by due date: nothing is shown twice and
  nothing is missing, as long as there are no more than 10000 pages.
\<close>

theorem pages_cover_plan:
  assumes "m \<le> 10000" and "plan_work show_js sat now db cx plan = Inr (config, rows)" and "visiblePlan db cx i = Inr plan"
    and "length rows \<le> m * cg_pageSize config"
  shows "\<exists>pages. map_result (\<lambda>n. planItems show_js sat now db cx i (Some (int n))) [1..<Suc m] = Inr pages
    \<and> concat (map pg_items pages) = by_due_date rows"
proof -
  let ?k = "cg_pageSize config"
  define page where "page = (\<lambda>n. \<lparr>pg_plan = plan, pg_configuration = config, pg_page = n, pg_total = length rows,
    pg_items = take ?k (drop ((n - 1) * ?k) (by_due_date rows))\<rparr>)"
  have one: "planItems show_js sat now db cx i (Some (int n)) = Inr (page n)" if "1 \<le> n" "n \<le> 10000" for n
    using that assms(2,3) by (simp add: planItems_def bounded_page_def page_def Let_def)
  have all: "map_result (\<lambda>n. planItems show_js sat now db cx i (Some (int n))) ns = Inr (map page ns)"
    if "\<forall>n\<in>set ns. 1 \<le> n \<and> n \<le> 10000" for ns
    using that by (induction ns) (simp_all add: one)
  have "map_result (\<lambda>n. planItems show_js sat now db cx i (Some (int n))) [1..<Suc m] = Inr (map page [1..<Suc m])"
    using assms(1) by (intro all) auto
  moreover have "concat (map pg_items (map page [1..<Suc m])) = concat (map (\<lambda>n. take ?k (drop (n * ?k) (by_due_date rows))) [0..<m])"
    by (simp add: page_def comp_def map_Suc_upt [symmetric] del: upt_Suc map_map) (simp add: comp_def)
  moreover have "\<dots> = by_due_date rows" using assms(4) by (simp add: pages_concat)
  ultimately show ?thesis by auto
qed

section \<open>Stored configurations\<close>

lemma one_of_again: "f \<in> set known \<Longrightarrow> one_of show_js known f (JStr (one_of show_js known f v)) = one_of show_js known f v"
  by (auto simp: one_of_def js_text_def)

text \<open>
  The configuration a plan stores is read as the configuration that was accepted.
\<close>

theorem plan_configuration_round_trip:
  assumes "validatePlanConfiguration show_js v = Inr c"
  shows "validatePlanConfiguration show_js (config_json c) = Inr c"
proof -
  from assms obtain input where v: "v = JObj input" by (cases v) (auto simp: validatePlanConfiguration_def)
  define selected where "selected = (case as_array (field ''columns'' input) of
      Some vs \<Rightarrow> uniq (filter (\<lambda>c. c \<in> set PLAN_COLUMNS) (strings_of vs))
    | None \<Rightarrow> [''key'', ''summary'', ''project'', ''status'', ''start'', ''due''])"
  have ok: "\<not> (selected = [] \<or> length PLAN_COLUMNS < length selected)"
    and c: "c = \<lparr>cg_columns = selected,
             cg_groupBy = one_of show_js [''none'', ''project'', ''status'', ''level'', ''assignee''] ''project'' (field ''groupBy'' input),
             cg_zoom = one_of show_js [''week'', ''month'', ''quarter'', ''year''] ''quarter'' (field ''zoom'' input),
             cg_pageSize = (case as_integer (field ''pageSize'' input) of Some n \<Rightarrow> if 10 \<le> n \<and> n \<le> 200 then nat n else 50 | None \<Rightarrow> 50),
             cg_timezone = (case as_string (field ''timezone'' input) of Some z \<Rightarrow> if is_zone_name z then z else ''UTC'' | None \<Rightarrow> ''UTC''),
             cg_showArchived = (field ''showArchived'' input = JBool True), cg_expandHierarchy = (field ''expandHierarchy'' input \<noteq> JBool False)\<rparr>"
    using assms unfolding validatePlanConfiguration_def v as_object.simps option.case Let_def selected_def [symmetric] by (simp_all split: if_split_asm)
  have columns: "distinct selected" "set selected \<subseteq> set PLAN_COLUMNS"
    unfolding selected_def by (auto split: option.splits) (simp_all add: PLAN_COLUMNS_def)
  have cols: "cg_columns c = selected" by (simp add: c)
  have again: "uniq (filter (\<lambda>x. x \<in> set PLAN_COLUMNS) selected) = selected"
    using columns by (simp add: uniq_distinct filter_id_conv subset_iff)
  have size: "10 \<le> cg_pageSize c \<and> cg_pageSize c \<le> 200" by (auto simp: c split: option.splits)
  have zone: "(if is_zone_name (cg_timezone c) then cg_timezone c else ''UTC'') = cg_timezone c" by (auto simp: c split: option.splits)
  have groups: "one_of show_js [''none'', ''project'', ''status'', ''level'', ''assignee''] ''project'' (JStr (cg_groupBy c)) = cg_groupBy c"
    "one_of show_js [''week'', ''month'', ''quarter'', ''year''] ''quarter'' (JStr (cg_zoom c)) = cg_zoom c"
    by (simp_all add: c one_of_again)
  obtain w where j: "config_json c = JObj w" and reads: "field ''columns'' w = JArr (map JStr selected)"
    "field ''groupBy'' w = JStr (cg_groupBy c)" "field ''zoom'' w = JStr (cg_zoom c)" "field ''pageSize'' w = JInt (int (cg_pageSize c))"
    "field ''timezone'' w = JStr (cg_timezone c)" "field ''showArchived'' w = JBool (cg_showArchived c)"
    "field ''expandHierarchy'' w = JBool (cg_expandHierarchy c)"
  proof (rule that)
    show "config_json c = JObj (the (as_object (config_json c)))" by (simp add: config_json_def)
  qed (simp_all add: config_json_def field_def cols)
  show ?thesis
    unfolding validatePlanConfiguration_def j as_object.simps option.case reads Let_def as_integer_JInt
    using ok size zone groups again by (simp add: cols)
qed

section \<open>Concurrent edits\<close>

datatype plan_event =
    Post_Plan string time "auth_context option" "jobj option"
  | Commit_Plan time plan_edit
  | Take_Snapshot string time "auth_context option" string

fun plan_step :: "(js \<Rightarrow> string) \<Rightarrow> (filter_value \<Rightarrow> issue \<Rightarrow> bool) \<Rightarrow> (string \<Rightarrow> string \<Rightarrow> bool) \<Rightarrow> plan_event \<Rightarrow> plan_db \<Rightarrow> plan_db" where
  "plan_step show_js sat before (Post_Plan new now context body) db = (case plans_POST show_js new now context body db of Inl _ \<Rightarrow> db | Inr db' \<Rightarrow> db')"
| "plan_step show_js sat before (Commit_Plan now pe) db = (case plan_edit_commit now pe db of Inl _ \<Rightarrow> db | Inr db' \<Rightarrow> db')"
| "plan_step show_js sat before (Take_Snapshot new now context i) db = (case health_POST show_js sat before new now context i db of Inl _ \<Rightarrow> db | Inr db' \<Rightarrow> db')"

definition moved_on :: "string \<Rightarrow> int \<Rightarrow> plan_db \<Rightarrow> bool" where
  "moved_on i v db \<longleftrightarrow> i \<in> pp_id ` set (pd_plans db) \<and> (\<forall>p\<in>set (pd_plans db). pp_id p = i \<longrightarrow> v < pp_version p)"

lemma plan_audit_plans [simp]: "pd_plans (plan_audit cx a i m db) = pd_plans db"
  by (simp add: plan_audit_def)

lemma plan_edit_commit_plans:
  "plan_edit_commit now pe db = Inr db' \<Longrightarrow>
     pd_plans db' = map (\<lambda>p. if pp_id p = pp_id (pe_plan pe) \<and> pp_version p = pp_version (pe_plan pe) then edited_plan now pe p else p) (pd_plans db)"
  by (auto simp: plan_edit_commit_def Let_def split: if_splits)

lemma edited_plan_key [simp]: "pp_id (edited_plan now pe p) = pp_id p" "pp_version (edited_plan now pe p) = pp_version p + 1"
  by (simp_all add: edited_plan_def)

lemma plans_POST_plans:
  assumes "plans_POST show_js new now context body db = Inr db'"
  obtains p where "pd_plans db' = pd_plans db @ [p]" and "pp_id p \<notin> pp_id ` set (pd_plans db)"
  using assms that by (auto simp: plans_POST_def bind_result_eq_Inr Let_def split: option.splits if_splits)

lemma moved_on_edit:
  assumes "plan_edit_commit now pe db = Inr db'" and "moved_on i v db"
  shows "moved_on i v db'"
proof -
  note plans = plan_edit_commit_plans [OF assms(1)]
  have "map pp_id (pd_plans db') = map pp_id (pd_plans db)" by (simp add: plans)
  then have "pp_id ` set (pd_plans db') = pp_id ` set (pd_plans db)" by (metis set_map)
  moreover have "v < pp_version q" if q: "q \<in> set (pd_plans db')" "pp_id q = i" for q
  proof -
    from q(1) obtain p where "p \<in> set (pd_plans db)"
      "q = (if pp_id p = pp_id (pe_plan pe) \<and> pp_version p = pp_version (pe_plan pe) then edited_plan now pe p else p)" by (auto simp: plans)
    with assms(2) q(2) show ?thesis by (auto simp: moved_on_def split: if_splits)
  qed
  ultimately show ?thesis using assms(2) by (simp add: moved_on_def)
qed

lemma moved_on_post: "plans_POST show_js new now context body db = Inr db' \<Longrightarrow> moved_on i v db \<Longrightarrow> moved_on i v db'"
  by (erule plans_POST_plans) (auto simp: moved_on_def)

lemma health_POST_plans: "health_POST show_js sat before new now context i db = Inr db' \<Longrightarrow> pd_plans db' = pd_plans db"
  by (auto simp: health_POST_def bind_result_eq_Inr split: option.splits)

interpretation plan_versions: kept "plan_step show_js sat before" "moved_on i v" for show_js sat before i v
proof
  fix s e assume ok: "moved_on i v s"
  show "moved_on i v (plan_step show_js sat before e s)"
  proof (cases e)
    case (Take_Snapshot new now who j)
    then show ?thesis using ok health_POST_plans [of show_js sat before new now who j s]
      by (auto simp: moved_on_def split: sum.splits)
  qed (use ok in \<open>auto intro: moved_on_edit moved_on_post split: sum.splits\<close>)
qed

text \<open>
  An edit of a plan is never lost to another: of the edits made on one version of a plan only the first is
  stored, and every later one is refused, whatever happened in between.
\<close>

theorem plan_edits_are_serial:
  assumes "plan_edit_commit now pe db = Inr db'" and "distinct (map pp_id (pd_plans db))"
    and "pp_id (pe_plan pe') = pp_id (pe_plan pe)" and "pp_version (pe_plan pe') = pp_version (pe_plan pe)"
  shows "plan_edit_commit now' pe' (fold (plan_step show_js sat before) es db') = Inl 409"
proof -
  let ?i = "pp_id (pe_plan pe)" let ?v = "pp_version (pe_plan pe)" let ?hit = "\<lambda>p. pp_id p = ?i \<and> pp_version p = ?v"
  note plans = plan_edit_commit_plans [OF assms(1)]
  have "count_rows ?hit (pd_plans db) \<noteq> 0" using assms(1) by (simp add: plan_edit_commit_def Let_def del: count_rows_0 split: if_splits)
  then obtain p where p: "p \<in> set (pd_plans db)" "?hit p" by auto
  have only: "r = p" if "r \<in> set (pd_plans db)" "pp_id r = ?i" for r
    using unique_key [OF assms(2) that(1) p(1)] that(2) p(2) by simp
  have "map pp_id (pd_plans db') = map pp_id (pd_plans db)" by (simp add: plans)
  then have "pp_id ` set (pd_plans db') = pp_id ` set (pd_plans db)" by (metis set_map)
  then have "?i \<in> pp_id ` set (pd_plans db')" using p by (metis imageI)
  moreover have "?v < pp_version q" if q: "q \<in> set (pd_plans db')" "pp_id q = ?i" for q
  proof -
    from q(1) obtain r where r: "r \<in> set (pd_plans db)" "q = (if ?hit r then edited_plan now pe r else r)" by (auto simp: plans)
    then have "r = p" using only [OF r(1)] q(2) by (simp split: if_splits)
    then show ?thesis using r(2) p(2) by simp
  qed
  ultimately have "moved_on ?i ?v db'" by (simp add: moved_on_def)
  then have "moved_on ?i ?v (fold (plan_step show_js sat before) es db')" by (rule plan_versions.run_inv)
  then have "count_rows ?hit (pd_plans (fold (plan_step show_js sat before) es db')) = 0" by (auto simp: moved_on_def)
  then show ?thesis unfolding plan_edit_commit_def Let_def assms(3,4) by (rule if_P)
qed

section \<open>The health report\<close>

lemma div_floor:
  fixes n d :: int
  assumes "0 < d"
  shows "(n div d) * d \<le> n" and "n < (n div d + 1) * d"
proof -
  have e: "n = n div d * d + n mod d" by simp
  have "(n div d + 1) * d = n div d * d + d" by (simp add: algebra_simps)
  with e pos_mod_bound [OF assms, of n] pos_mod_sign [OF assms, of n] show "(n div d) * d \<le> n" "n < (n div d + 1) * d" by linarith+
qed

lemma percent_bounds:
  assumes "part \<le> whole"
  shows "0 \<le> percent part whole \<and> percent part whole \<le> 100"
proof (cases "whole = 0")
  case False
  then have d: "0 < 2 * int whole" by simp
  have "((200 * int part + int whole) div (2 * int whole)) * (2 * int whole) < 101 * (2 * int whole)"
    using div_floor(1) [OF d, of "200 * int part + int whole"] assms d by linarith
  then have "(200 * int part + int whole) div (2 * int whole) < 101" by (rule mult_right_less_imp_less) (use d in simp)
  moreover have "0 \<le> (200 * int part + int whole) div (2 * int whole)" using d by (simp add: pos_imp_zdiv_nonneg_iff)
  ultimately show ?thesis using False by (simp add: percent_def)
qed (simp add: percent_def)

lemma ceil_div_mono:
  assumes "0 \<le> a" "0 < b" "b \<le> c"
  shows "0 \<le> ceil_div a c \<and> ceil_div a c \<le> ceil_div a b"
proof -
  have c: "0 < c" using assms by simp
  have neg: "(- a) div b \<le> 0" "(- a) div c \<le> 0" using assms c by (simp_all add: div_nonpos_pos_le0)
  let ?q = "(- a) div b"
  have "?q * c \<le> ?q * b" using assms(3) neg(1) by (rule mult_left_mono_neg)
  also have "\<dots> \<le> - a" by (rule div_floor(1) [OF assms(2)])
  also have "\<dots> < ((- a) div c + 1) * c" by (rule div_floor(2) [OF c])
  finally have "?q < (- a) div c + 1" by (rule mult_right_less_imp_less) (use c in simp)
  with neg show ?thesis by (simp add: ceil_div_def)
qed

lemma count_disjoint: "(\<And>x. P x \<Longrightarrow> \<not> Q x) \<Longrightarrow> count_rows P xs + count_rows Q xs \<le> length xs"
  by (induction xs) (auto simp: count_rows_def)

text \<open>
  The figures of a report fit together: open and completed work add up, work is not overdue and unscheduled at
  once, the rate is a percentage and the optimistic forecast is no later than the conservative one.
\<close>

theorem health_is_consistent:
  "let h = calculatePortfolioHealth items now in
     hp_completed h + hp_remaining h = hp_total h \<and> hp_overdue h + hp_unscheduled h \<le> hp_remaining h
   \<and> 0 \<le> hp_completionRate h \<and> hp_completionRate h \<le> 100 \<and> 0 \<le> hp_lowDays h \<and> hp_lowDays h \<le> hp_highDays h"
proof -
  let ?left = "filter (\<lambda>i. i_completedAt i = None) items"
  let ?h = "calculatePortfolioHealth items now"
  define points where "points = sum_list (map (\<lambda>i. max 0 (case i_estimate i of Some e \<Rightarrow> e | None \<Rightarrow> 0)) ?left)"
  have l: "length ?left \<le> length items" by simp
  have "0 \<le> points" unfolding points_def by (rule sum_list_nonneg) auto
  then have days: "0 \<le> ceil_div points 8 \<and> ceil_div points 8 \<le> ceil_div points 3" by (intro ceil_div_mono) auto
  have "count_rows (\<lambda>i. case i_dueDate i of Some d \<Rightarrow> utc_midnight d < t | None \<Rightarrow> False) ?left + count_rows (\<lambda>i. i_dueDate i = None) ?left \<le> length ?left" for t
    by (rule count_disjoint) (auto split: option.splits)
  then have "hp_overdue ?h + hp_unscheduled ?h \<le> hp_remaining ?h" using l by (simp add: calculatePortfolioHealth_def Let_def)
  moreover have "hp_completed ?h + hp_remaining ?h = hp_total ?h" using l by (simp add: calculatePortfolioHealth_def Let_def)
  moreover have "0 \<le> hp_completionRate ?h \<and> hp_completionRate ?h \<le> 100"
    using percent_bounds [of "length items - length ?left" "length items"] by (simp add: calculatePortfolioHealth_def Let_def)
  moreover have "0 \<le> hp_lowDays ?h \<and> hp_lowDays ?h \<le> hp_highDays ?h"
    using days by (simp add: calculatePortfolioHealth_def Let_def points_def)
  ultimately show ?thesis by (simp add: Let_def)
qed

text \<open>
  The route calls the report without the current instant, and the default is the first day of 2026: work due
  after that day is never reported as overdue, however late it is.
\<close>

theorem health_ignores_the_clock:
  assumes "live_health show_js sat before now db cx i = Inr (pg, r)"
    and "\<forall>x\<in>set (db_issues (pd_core db)). \<forall>d. i_dueDate x = Some d \<longrightarrow> NEW_YEAR_2026 \<le> d"
  shows "hp_overdue (hr_health r) = 0"
proof -
  from assms(1) obtain rest where first: "planItems show_js sat now db cx i (Some 1) = Inr pg"
    and rest: "map_result (\<lambda>n. planItems show_js sat now db cx i (Some (int n))) [2..<Suc (total_pages pg)] = Inr rest"
    and r: "hr_health r = (if hr_suppressed r then hide_health (calculatePortfolioHealth (concat (map pg_items (pg # rest))) None
        \<lparr>hp_total := pg_total pg, hp_bounded := (length (concat (map pg_items (pg # rest))) < pg_total pg)\<rparr>)
      else calculatePortfolioHealth (concat (map pg_items (pg # rest))) None
        \<lparr>hp_total := pg_total pg, hp_bounded := (length (concat (map pg_items (pg # rest))) < pg_total pg)\<rparr>)"
    by (auto simp: live_health_def bind_result_eq_Inr Let_def)
  have known: "x \<in> set (db_issues (pd_core db))" if "planItems show_js sat now db cx i n = Inr q" "x \<in> set (pg_items q)" for n q x
    using that by (auto elim!: planItems_ok simp: plan_work_def bind_result_eq_Inr dest!: in_set_takeD in_set_dropD)
  have all: "x \<in> set (db_issues (pd_core db))" if "x \<in> set (concat (map pg_items (pg # rest)))" for x
  proof -
    from that obtain q where q: "q \<in> set (pg # rest)" "x \<in> set (pg_items q)" by auto
    then have "\<exists>n. planItems show_js sat now db cx i n = Inr q" using first map_result_all [OF rest] by auto
    then show ?thesis using known q(2) by blast
  qed
  have midnight: "NEW_YEAR_2026 \<le> d \<Longrightarrow> utc_midnight NEW_YEAR_2026 \<le> utc_midnight d" for d
    by (simp add: utc_midnight_def zdiv_mono1 DAY_MS_def)
  have "hp_overdue (calculatePortfolioHealth (concat (map pg_items (pg # rest))) None) = 0"
    using all assms(2) midnight unfolding calculatePortfolioHealth_def Let_def
    by (fastforce split: option.splits simp: not_less)
  then show ?thesis by (simp add: r hide_health_def)
qed

text \<open>
  A stored report is shown as it was taken: every reader of a shared plan gets the figures its author could
  see, computed over work the reader may not see.
\<close>

theorem snapshots_ignore_the_reader:
  assumes "visiblePlan db cx i = Inr plan" and "visiblePlan db reader i = Inr plan" and "h \<in> set (pd_snapshots db)"
    and "hs_planId h = i" and "hs_workspaceId h = cx_workspaceId cx" and "distinct (map hs_id (pd_snapshots db))" and "hs_id h \<noteq> []"
  shows "health_GET show_js sat before now (Some reader) i False (Some (hs_id h)) db = Inr (Snapshot h)"
proof -
  have "pp_workspaceId plan = cx_workspaceId cx" "pp_workspaceId plan = cx_workspaceId reader"
    using assms(1,2) by (auto simp: visiblePlan_def plan_sees_def split: option.splits dest: find_SomeD)
  moreover have "x = h" if "x \<in> set (pd_snapshots db)" "hs_id x = hs_id h" for x
    using unique_key [OF assms(6) that(1) assms(3)] that(2) by simp
  ultimately have "find (\<lambda>x. hs_id x = hs_id h \<and> hs_planId x = i \<and> hs_workspaceId x = cx_workspaceId reader) (pd_snapshots db) = Some h"
    using assms(3-5) by (cases "find (\<lambda>x. hs_id x = hs_id h \<and> hs_planId x = i \<and> hs_workspaceId x = cx_workspaceId reader) (pd_snapshots db)")
      (auto simp: find_None_iff' dest: find_SomeD)
  then show ?thesis using assms(2,7) by (simp add: health_GET_def answer_def)
qed

section \<open>Sample\<close>

definition sample_plan :: portfolio_plan where
  "sample_plan = \<lparr>pp_id = ''pl'', pp_workspaceId = ''w'', pp_ownerId = ''amy'', pp_name = ''Roadmap'', pp_description = None, pp_shared = True,
     pp_configuration = JObj [(''columns'', JArr [JStr ''key'', JStr ''key'', JStr ''colour'']), (''pageSize'', JInt 10)],
     pp_sources = [Project_Source ''p''], pp_version = 1, pp_archivedAt = None, pp_updatedAt = 0\<rparr>"

text \<open>One open issue, due on the second of January 2026.\<close>

definition late_issue :: issue where
  "late_issue = sample_issue\<lparr>i_securityLevelId := None, i_dueDate := Some (NEW_YEAR_2026 + 86400000)\<rparr>"

definition planning_db :: plan_db where
  "planning_db = \<lparr>pd_tracker = board_tracker\<lparr>tk_core := board_core\<lparr>db_issues := [late_issue]\<rparr>\<rparr>, pd_links = [], pd_plans = [sample_plan], pd_snapshots = []\<rparr>"

definition no_text :: "js \<Rightarrow> string" where "no_text v = []"
definition any_filter :: "filter_value \<Rightarrow> issue \<Rightarrow> bool" where "any_filter w i = True"
definition string_before :: "string \<Rightarrow> string \<Rightarrow> bool" where "string_before a b \<longleftrightarrow> a < b"

text \<open>Read by Amy a year later.\<close>

definition amy_reads :: "(plan_error, plan_page \<times> health_report) result" where
  "amy_reads = live_health no_text any_filter string_before (NEW_YEAR_2026 + 365 * 86400000) planning_db amy ''pl''"

definition amy_report :: "plan_page \<times> health_report" where
  "amy_report = outcome amy_reads undefined"

lemma amy_runs: "amy_reads = Inr amy_report"
  unfolding amy_report_def by (rule outcome) code_simp

theorem health_ignores_the_clock_witness: "hp_total (hr_health (snd amy_report)) = 1 \<and> hp_overdue (hr_health (snd amy_report)) = 0"
proof
  show "hp_total (hr_health (snd amy_report)) = 1" by code_simp
  show "hp_overdue (hr_health (snd amy_report)) = 0"
  proof (rule health_ignores_the_clock)
    show "live_health no_text any_filter string_before (NEW_YEAR_2026 + 365 * 86400000) planning_db amy ''pl'' = Inr (fst amy_report, snd amy_report)"
      using amy_runs by (simp add: amy_reads_def)
  qed (simp add: planning_db_def late_issue_def NEW_YEAR_2026_def)
qed

definition snapshot_db :: plan_db where
  "snapshot_db = outcome (health_POST no_text any_filter string_before ''h'' 5 (Some amy) ''pl'' planning_db) planning_db"

text \<open>Rita cannot open the project of the plan: her own report is empty, the snapshot shows her the open issue.\<close>

theorem snapshots_ignore_the_reader_witness:
  "(case live_health no_text any_filter string_before 5 snapshot_db rita ''pl'' of Inl _ \<Rightarrow> False | Inr (_, r) \<Rightarrow> hp_remaining (hr_health r) = 0)
   \<and> (\<exists>h. health_GET no_text any_filter string_before 5 (Some rita) ''pl'' False (Some ''h'') snapshot_db = Inr (Snapshot h) \<and> hp_total (hr_health (hs_report h)) = 1)"
proof
  show "case live_health no_text any_filter string_before 5 snapshot_db rita ''pl'' of Inl _ \<Rightarrow> False | Inr (_, r) \<Rightarrow> hp_remaining (hr_health r) = 0"
    by code_simp
  let ?h = "hd (pd_snapshots snapshot_db)"
  have h: "hs_id ?h = ''h''" "hs_planId ?h = ''pl''" "hs_workspaceId ?h = ''w''" "length (pd_snapshots snapshot_db) = 1" "hp_total (hr_health (hs_report ?h)) = 1"
    by (code_simp, code_simp, code_simp, code_simp, code_simp)
  have one: "pd_snapshots snapshot_db = [?h]" using h(4) by (cases "pd_snapshots snapshot_db") simp_all
  have "pd_plans snapshot_db = [sample_plan]" by code_simp
  then have v: "visiblePlan snapshot_db amy ''pl'' = Inr sample_plan" "visiblePlan snapshot_db rita ''pl'' = Inr sample_plan"
    by (simp_all add: visiblePlan_def plan_sees_def sample_plan_def amy_def rita_def)
  have "health_GET no_text any_filter string_before 5 (Some rita) ''pl'' False (Some (hs_id ?h)) snapshot_db = Inr (Snapshot ?h)"
  proof (rule snapshots_ignore_the_reader [OF v])
    show "?h \<in> set (pd_snapshots snapshot_db)" by (subst one) simp
    show "distinct (map hs_id (pd_snapshots snapshot_db))" by (subst one) simp
  qed (simp_all add: h amy_def)
  then show "\<exists>h. health_GET no_text any_filter string_before 5 (Some rita) ''pl'' False (Some ''h'') snapshot_db = Inr (Snapshot h) \<and> hp_total (hr_health (hs_report h)) = 1"
    using h(1,5) by auto
qed

definition rename_plan :: "string \<Rightarrow> plan_edit" where
  "rename_plan n = \<lparr>pe_context = amy, pe_plan = sample_plan, pe_body = [(''name'', JStr n), (''version'', JInt 1)], pe_sources = None, pe_configuration = None\<rparr>"

definition renamed_db :: plan_db where "renamed_db = outcome (plan_edit_commit 6 (rename_plan ''Plan A'') planning_db) planning_db"

theorem plan_edits_are_serial_witness:
  "map pp_name (pd_plans renamed_db) = [''Plan A'']
   \<and> plan_edit_commit 8 (rename_plan ''Plan B'') (fold (plan_step no_text any_filter string_before) [Take_Snapshot ''h'' 7 (Some amy) ''pl''] renamed_db) = Inl 409"
proof
  show "map pp_name (pd_plans renamed_db) = [''Plan A'']" by code_simp
  show "plan_edit_commit 8 (rename_plan ''Plan B'') (fold (plan_step no_text any_filter string_before) [Take_Snapshot ''h'' 7 (Some amy) ''pl''] renamed_db) = Inl 409"
  proof (rule plan_edits_are_serial)
    show "plan_edit_commit 6 (rename_plan ''Plan A'') planning_db = Inr renamed_db" unfolding renamed_db_def by (rule outcome) code_simp
  qed (simp_all add: planning_db_def rename_plan_def)
qed

theorem plan_configuration_round_trip_witness:
  "\<exists>c. validatePlanConfiguration no_text (pp_configuration sample_plan) = Inr c \<and> cg_columns c = [''key''] \<and> validatePlanConfiguration no_text (config_json c) = Inr c"
proof -
  define c where "c = outcome (validatePlanConfiguration no_text (pp_configuration sample_plan)) undefined"
  have run: "validatePlanConfiguration no_text (pp_configuration sample_plan) = Inr c" unfolding c_def by (rule outcome) code_simp
  moreover have "cg_columns c = [''key'']" unfolding c_def by code_simp
  ultimately show ?thesis using plan_configuration_round_trip [OF run] by blast
qed

definition first_page :: plan_page where "first_page = outcome (planItems no_text any_filter 5 planning_db amy ''pl'' None) undefined"

theorem plan_shows_viewable_work_witness: "late_issue \<in> set (pg_items first_page) \<and> issueSecurityWhere (pd_core planning_db) amy None late_issue"
proof
  have run: "planItems no_text any_filter 5 planning_db amy ''pl'' None = Inr first_page" unfolding first_page_def by (rule outcome) code_simp
  show shown: "late_issue \<in> set (pg_items first_page)" by code_simp
  show "issueSecurityWhere (pd_core planning_db) amy None late_issue"
    using plan_shows_viewable_work [OF disjI1 [OF conjI [OF run shown]]] by blast
qed

theorem pages_cover_plan_witness:
  "\<exists>pages. map_result (\<lambda>n. planItems no_text any_filter 5 planning_db amy ''pl'' (Some (int n))) [1..<Suc 1] = Inr pages
    \<and> concat (map pg_items pages) = by_due_date [late_issue]"
proof -
  define work where "work = outcome (plan_work no_text any_filter 5 planning_db amy sample_plan) undefined"
  have "plan_work no_text any_filter 5 planning_db amy sample_plan = Inr work" unfolding work_def by (rule outcome) code_simp
  moreover have w: "snd work = [late_issue]" "cg_pageSize (fst work) = 10" unfolding work_def by (code_simp, code_simp)
  ultimately have run: "plan_work no_text any_filter 5 planning_db amy sample_plan = Inr (fst work, [late_issue])" by (metis prod.collapse)
  show ?thesis
  proof (rule pages_cover_plan [OF _ run])
    show "visiblePlan planning_db amy ''pl'' = Inr sample_plan"
      by (simp add: visiblePlan_def planning_db_def plan_sees_def sample_plan_def amy_def)
  qed (simp_all add: w)
qed

end
