(* ===== verification/RateLimit.thy ===== *)
theory RateLimit
  imports Prelude
begin

text \<open>
  The request gate: the fixed-window limiter of \<open>src/lib/security.ts\<close> and the proxy in front of
  every API route (\<open>src/proxy.ts\<close>). The table of buckets is a map from hashed identifiers; the
  hash and \<open>new URL(u).origin\<close> are parameters. The middleware's logging and the correlation id
  are left out. A call of the limiter reads its bucket and writes it in one transaction under READ COMMITTED,
  which does not keep other calls from running in between; so the two phases are definitions of their own
  (\<open>consume_read\<close>, \<open>consume_write\<close>), and \<open>consume\<close> is the call that nothing interrupts.
\<close>

record bucket =
  rb_count :: int
  rb_resetAt :: time

record verdict =
  rv_allowed :: bool
  rv_remaining :: int
  rv_resetAt :: time

type_synonym buckets = "string \<rightharpoonup> bucket"

text \<open>One call, as the transaction runs it: the verdict and the bucket it leaves.\<close>

definition consume :: "int \<Rightarrow> int \<Rightarrow> time \<Rightarrow> bucket option \<Rightarrow> verdict \<times> bucket" where
  "consume limit windowSeconds now existing =
     (let resetAt = now + windowSeconds * 1000;
          opened = (\<lparr>rv_allowed = True, rv_remaining = limit - 1, rv_resetAt = resetAt\<rparr>,
                    \<lparr>rb_count = 1, rb_resetAt = resetAt\<rparr>)
      in case existing of
           None \<Rightarrow> opened
         | Some b \<Rightarrow>
             if rb_resetAt b \<le> now then opened
             else if rb_count b \<ge> limit
             then (\<lparr>rv_allowed = False, rv_remaining = 0, rv_resetAt = rb_resetAt b\<rparr>, b)
             else (\<lparr>rv_allowed = True, rv_remaining = max 0 (limit - (rb_count b + 1)), rv_resetAt = rb_resetAt b\<rparr>,
                   b\<lparr>rb_count := rb_count b + 1\<rparr>))"

definition consumeRateLimit ::
    "(string \<Rightarrow> string) \<Rightarrow> string \<Rightarrow> int \<Rightarrow> int \<Rightarrow> time \<Rightarrow> buckets \<Rightarrow> verdict \<times> buckets" where
  "consumeRateLimit hash identifier limit windowSeconds now bs =
     (let key = hash identifier;
          (v, b) = consume limit windowSeconds now (bs key)
      in (v, bs(key \<mapsto> b)))"

text \<open>The client address: the router's header first, then the left-most forwarded one.\<close>

definition requestClientKey :: "string option \<Rightarrow> string option \<Rightarrow> string" where
  "requestClientKey real_ip forwarded =
     (case real_ip of
        Some r \<Rightarrow> if trim r \<noteq> [] then trim r
                  else (case forwarded of None \<Rightarrow> ''unknown''
                        | Some f \<Rightarrow> (case filter (\<lambda>v. v \<noteq> []) (map trim (split_on CHR '','' f)) of
                                       [] \<Rightarrow> ''unknown'' | v # _ \<Rightarrow> v))
      | None \<Rightarrow> (case forwarded of None \<Rightarrow> ''unknown''
                 | Some f \<Rightarrow> (case filter (\<lambda>v. v \<noteq> []) (map trim (split_on CHR '','' f)) of
                                [] \<Rightarrow> ''unknown'' | v # _ \<Rightarrow> v)))"

record http_request =
  rq_method :: string
  rq_pathname :: string
  rq_realIp :: "string option"
  rq_forwarded :: "string option"
  rq_origin :: "string option"
  rq_urlOrigin :: string
  rq_session :: "string option"         \<comment> \<open>cookie \<open>planeo_session\<close>\<close>
  rq_portalSession :: "string option"   \<comment> \<open>cookie \<open>planeo_portal_session\<close>\<close>

record proxy_env =
  pe_identityLimit :: int
  pe_appUrl :: "string option"
  pe_production :: bool

datatype proxy_outcome = Pass | Too_Many nat | Origin_Unset | Cross_Site

definition is_write :: "string \<Rightarrow> bool" where
  "is_write m \<longleftrightarrow> m \<in> {''POST'', ''PUT'', ''PATCH'', ''DELETE''}"

definition is_identity :: "string \<Rightarrow> bool" where
  "is_identity path \<longleftrightarrow> starts_with ''/api/auth/'' path \<and> path \<noteq> ''/api/auth/logout''
     \<or> starts_with ''/api/portal/auth/'' path \<and> path \<noteq> ''/api/portal/auth/logout''"

definition is_portal_write :: "http_request \<Rightarrow> bool" where
  "is_portal_write rq \<longleftrightarrow> starts_with ''/api/portal/'' (rq_pathname rq)
     \<or> starts_with ''/api/service/forms/'' (rq_pathname rq) \<and> rq_portalSession rq \<noteq> None"

definition bucket_of :: "proxy_env \<Rightarrow> http_request \<Rightarrow> string \<times> int \<times> int" where
  "bucket_of env rq =
     (let client = requestClientKey (rq_realIp rq) (rq_forwarded rq) in
      if is_identity (rq_pathname rq) then (''identity:'' @ client, pe_identityLimit env, 900)
      else if is_portal_write rq then (''portal-write:'' @ client, 30, 60)
      else (''write:'' @ client, 120, 60))"

text \<open>\<open>Math.max(1, Math.ceil(ms / 1000))\<close>\<close>

definition retry_after :: "time \<Rightarrow> time \<Rightarrow> nat" where
  "retry_after resetAt now = nat (max 1 (- ((now - resetAt) div 1000)))"

definition expected_origin :: "(string \<Rightarrow> string) \<Rightarrow> proxy_env \<Rightarrow> http_request \<Rightarrow> string option" where
  "expected_origin origin_of env rq =
     (let configured = (case pe_appUrl env of None \<Rightarrow> [] | Some u \<Rightarrow> trim u)
      in if configured \<noteq> [] then Some (origin_of configured)
         else if pe_production env then None else Some (rq_urlOrigin rq))"

definition proxy ::
    "(string \<Rightarrow> string) \<Rightarrow> (string \<Rightarrow> string) \<Rightarrow> proxy_env \<Rightarrow> time \<Rightarrow> http_request \<Rightarrow> buckets \<Rightarrow> proxy_outcome \<times> buckets" where
  "proxy hash origin_of env now rq bs =
     (if \<not> is_write (rq_method rq) then (Pass, bs)
      else
       let (identifier, limit, window) = bucket_of env rq;
           (v, bs') = consumeRateLimit hash identifier limit window now bs
       in if \<not> rv_allowed v then (Too_Many (retry_after (rv_resetAt v) now), bs')
          else if rq_session rq \<noteq> None \<or> rq_portalSession rq \<noteq> None
          then (case expected_origin origin_of env rq of
                  None \<Rightarrow> (Origin_Unset, bs')
                | Some expected \<Rightarrow>
                    (case rq_origin rq of
                       None \<Rightarrow> (Cross_Site, bs')
                     | Some origin \<Rightarrow> if origin = [] \<or> origin \<noteq> expected then (Cross_Site, bs') else (Pass, bs')))
          else (Pass, bs'))"

section \<open>The two phases of a call\<close>

text \<open>What the read of the bucket decides; the write then acts on the row as it is by then.\<close>

datatype rate_plan = Create_Bucket | Restart_Bucket | Refuse_Until time | Count_Until time

definition consume_read :: "int \<Rightarrow> time \<Rightarrow> bucket option \<Rightarrow> rate_plan" where
  "consume_read limit now existing =
     (case existing of
        None \<Rightarrow> Create_Bucket
      | Some b \<Rightarrow> if rb_resetAt b \<le> now then Restart_Bucket
                  else if rb_count b \<ge> limit then Refuse_Until (rb_resetAt b)
                  else Count_Until (rb_resetAt b))"

text \<open>\<open>None\<close> is the exception of the client: a key that exists by now, or a row that is gone.\<close>

definition consume_write :: "int \<Rightarrow> int \<Rightarrow> time \<Rightarrow> rate_plan \<Rightarrow> bucket option \<Rightarrow> (verdict \<times> bucket option) option" where
  "consume_write limit windowSeconds now plan current =
     (let resetAt = now + windowSeconds * 1000;
          opened = (\<lparr>rv_allowed = True, rv_remaining = limit - 1, rv_resetAt = resetAt\<rparr>,
                    Some \<lparr>rb_count = 1, rb_resetAt = resetAt\<rparr>)
      in case plan of
           Create_Bucket \<Rightarrow> if current = None then Some opened else None
         | Restart_Bucket \<Rightarrow> if current = None then None else Some opened
         | Refuse_Until r \<Rightarrow> Some (\<lparr>rv_allowed = False, rv_remaining = 0, rv_resetAt = r\<rparr>, current)
         | Count_Until r \<Rightarrow>
             (case current of
                None \<Rightarrow> None
              | Some b \<Rightarrow> Some (\<lparr>rv_allowed = True, rv_remaining = max 0 (limit - (rb_count b + 1)), rv_resetAt = r\<rparr>,
                               Some (b\<lparr>rb_count := rb_count b + 1\<rparr>))))"

lemma consume_phases:
  "consume_write limit w now (consume_read limit now existing) existing
     = Some (fst (consume limit w now existing), Some (snd (consume limit w now existing)))"
  by (simp add: consume_def consume_read_def consume_write_def Let_def split: option.split)

text \<open>
  A schedule of the calls for one key: a read adds a call to those in flight, a write ends one of them.
  \<open>admitted\<close> counts the calls that were allowed.
\<close>

datatype rate_event = Reads time | Writes nat

fun admitted :: "int \<Rightarrow> int \<Rightarrow> bucket option \<Rightarrow> (time \<times> rate_plan) list \<Rightarrow> rate_event list \<Rightarrow> int" where
  "admitted limit w b pending [] = 0"
| "admitted limit w b pending (Reads t # es) = admitted limit w b ((t, consume_read limit t b) # pending) es"
| "admitted limit w b pending (Writes n # es) =
     (if n < length pending
      then (case consume_write limit w (fst (pending ! n)) (snd (pending ! n)) b of
              None \<Rightarrow> admitted limit w b (take n pending @ drop (Suc n) pending) es
            | Some (v, b') \<Rightarrow> (if rv_allowed v then 1 else 0) + admitted limit w b' (take n pending @ drop (Suc n) pending) es)
      else admitted limit w b pending es)"

text \<open>The schedule in which no two calls overlap, and how many calls of a schedule overlap at most.\<close>

definition one_by_one :: "time list \<Rightarrow> rate_event list" where
  "one_by_one ts = concat (map (\<lambda>t. [Reads t, Writes 0]) ts)"

fun overlap :: "nat \<Rightarrow> rate_event list \<Rightarrow> nat" where
  "overlap p [] = p"
| "overlap p (Reads t # es) = max p (overlap (Suc p) es)"
| "overlap p (Writes n # es) = max p (overlap (if n < p then p - 1 else p) es)"

section \<open>The count stays within the limit\<close>

definition bucket_ok :: "int \<Rightarrow> buckets \<Rightarrow> bool" where
  "bucket_ok limit bs \<longleftrightarrow> (\<forall>k b. bs k = Some b \<longrightarrow> 1 \<le> rb_count b \<and> rb_count b \<le> max 1 limit)"

definition rate_step :: "(string \<Rightarrow> string) \<Rightarrow> int \<Rightarrow> int \<Rightarrow> string \<times> time \<Rightarrow> buckets \<Rightarrow> buckets" where
  "rate_step hash limit window e bs = snd (consumeRateLimit hash (fst e) limit window (snd e) bs)"

lemma consume_cases:
  "consume limit w now existing = (v, b) \<Longrightarrow>
   rv_allowed v \<and> b = \<lparr>rb_count = 1, rb_resetAt = now + w * 1000\<rparr> \<and> (\<forall>b0. existing = Some b0 \<longrightarrow> rb_resetAt b0 \<le> now)
   \<or> (\<exists>b0. existing = Some b0 \<and> now < rb_resetAt b0 \<and>
        (rv_allowed v \<and> rb_count b0 < limit \<and> b = b0\<lparr>rb_count := rb_count b0 + 1\<rparr>
         \<or> \<not> rv_allowed v \<and> limit \<le> rb_count b0 \<and> b = b0))"
  by (auto simp: consume_def Let_def split: option.splits if_splits)

interpretation rate: kept "rate_step hash limit window" "bucket_ok limit" for hash limit window
proof
  fix bs and e :: "string \<times> time"
  assume ok: "bucket_ok limit bs"
  obtain v b where c: "consume limit window (snd e) (bs (hash (fst e))) = (v, b)" by fastforce
  have "1 \<le> rb_count b \<and> rb_count b \<le> max 1 limit"
    using consume_cases [OF c] ok by (fastforce simp: bucket_ok_def)
  with ok show "bucket_ok limit (rate_step hash limit window e bs)"
    by (auto simp: bucket_ok_def rate_step_def consumeRateLimit_def c)
qed

section \<open>How many requests pass\<close>

text \<open>The requests of one identifier, at their times: how many are allowed and the final bucket.\<close>

fun allowed_count :: "int \<Rightarrow> int \<Rightarrow> bucket option \<Rightarrow> time list \<Rightarrow> int" where
  "allowed_count limit w b [] = 0"
| "allowed_count limit w b (t # ts) =
     (let (v, b') = consume limit w t b in (if rv_allowed v then 1 else 0) + allowed_count limit w (Some b') ts)"

text \<open>While a bucket is open it admits at most what is left of its limit.\<close>

lemma open_bucket_bound:
  assumes "\<forall>t\<in>set ts. t < rb_resetAt b" and "rb_count b \<le> max 1 limit"
  shows "allowed_count limit w (Some b) ts \<le> max 0 (limit - rb_count b)"
  using assms
proof (induction ts arbitrary: b)
  case (Cons t ts)
  obtain v b' where c: "consume limit w t (Some b) = (v, b')" by fastforce
  have "t < rb_resetAt b" using Cons.prems by simp
  with consume_cases [OF c] have
    "rv_allowed v \<and> rb_count b < limit \<and> b' = b\<lparr>rb_count := rb_count b + 1\<rparr>
     \<or> \<not> rv_allowed v \<and> limit \<le> rb_count b \<and> b' = b" by auto
  moreover from this have "allowed_count limit w (Some b') ts \<le> max 0 (limit - rb_count b')"
    by (intro Cons.IH) (use Cons.prems in auto)
  ultimately show ?case using c by auto
qed simp

lemma window_bound:
  assumes "sorted ts" and "\<forall>t\<in>set ts. t0 \<le> t \<and> t < t0 + w * 1000" and "1 \<le> limit"
    and "\<And>b'. b = Some b' \<Longrightarrow> 1 \<le> rb_count b' \<and> rb_count b' \<le> limit"
  shows "allowed_count limit w b ts \<le> limit + (case b of None \<Rightarrow> 0 | Some b' \<Rightarrow> limit - rb_count b')"
  using assms
proof (induction ts arbitrary: b)
  case (Cons t ts)
  obtain v b' where c: "consume limit w t b = (v, b')" by fastforce
  from consume_cases [OF c] show ?case
  proof (elim disjE exE conjE)
    assume a: "rv_allowed v" "b' = \<lparr>rb_count = 1, rb_resetAt = t + w * 1000\<rparr>"
    have "allowed_count limit w (Some b') ts \<le> max 0 (limit - rb_count b')"
      by (rule open_bucket_bound) (use Cons.prems a in auto)
    with a c Cons.prems show ?thesis by (fastforce split: option.splits)
  next
    fix b0 assume a: "b = Some b0" "t < rb_resetAt b0" "rv_allowed v" "rb_count b0 < limit"
      "b' = b0\<lparr>rb_count := rb_count b0 + 1\<rparr>"
    have "allowed_count limit w (Some b') ts \<le> limit + (case Some b' of None \<Rightarrow> 0 | Some b' \<Rightarrow> limit - rb_count b')"
      by (rule Cons.IH) (use Cons.prems a in auto)
    with a c show ?thesis by simp
  next
    fix b0 assume a: "b = Some b0" "\<not> rv_allowed v" "b' = b0"
    have "allowed_count limit w (Some b') ts \<le> limit + (case Some b' of None \<Rightarrow> 0 | Some b' \<Rightarrow> limit - rb_count b')"
      by (rule Cons.IH) (use Cons.prems a in auto)
    with a c show ?thesis by simp
  qed
qed (auto split: option.splits)

lemma admitted_one_by_one: "admitted limit w b [] (one_by_one ts) = allowed_count limit w b ts"
  by (induction ts arbitrary: b) (simp_all add: one_by_one_def consume_phases split_beta)



section \<open>Calls that overlap\<close>

text \<open>Calls in flight whose plan is to count, or to refuse, on a bucket that stays open.\<close>

definition counts :: "time \<times> rate_plan \<Rightarrow> bool" where
  "counts e \<longleftrightarrow> (case snd e of Count_Until r \<Rightarrow> True | _ \<Rightarrow> False)"

definition settled :: "time \<times> rate_plan \<Rightarrow> bool" where
  "settled e \<longleftrightarrow> (case snd e of Count_Until r \<Rightarrow> True | Refuse_Until r \<Rightarrow> True | _ \<Rightarrow> False)"

lemma filter_without:
  "n < length xs \<Longrightarrow> length (filter Q xs) = length (filter Q (take n xs @ drop (Suc n) xs)) + (if Q (xs ! n) then 1 else 0)"
  by (subst id_take_nth_drop [of n xs]) simp_all

lemma overlap_ge: "p \<le> overlap p es"
  by (induction p es rule: overlap.induct) simp_all

lemma overlapping_bound:
  assumes "\<forall>t. Reads t \<in> set es \<longrightarrow> t < rb_resetAt b" and "\<forall>e\<in>set pending. settled e"
    and "rb_count b + int (length (filter counts pending)) \<le> limit + int k - 1"
    and "overlap (length pending) es \<le> k"
  shows "admitted limit w (Some b) pending es \<le> limit + int k - 1 - rb_count b"
  using assms
proof (induction es arbitrary: b pending)
  case (Cons e es)
  show ?case
  proof (cases e)
    case (Reads t)
    have "length (filter counts pending) \<le> length pending" by (rule length_filter_le)
    moreover have "Suc (length pending) \<le> k" using Cons.prems(4) Reads overlap_ge [of "Suc (length pending)" es] by simp
    moreover from Cons.prems(1) Reads have "t < rb_resetAt b" by simp
    then have plan: "settled (t, consume_read limit t (Some b))" "counts (t, consume_read limit t (Some b)) \<longleftrightarrow> rb_count b < limit"
      by (simp_all add: consume_read_def settled_def counts_def)
    ultimately have "rb_count b + int (length (filter counts ((t, consume_read limit t (Some b)) # pending))) \<le> limit + int k - 1"
      using Cons.prems(3) by (cases "rb_count b < limit") (simp_all del: length_filter_le)
    with Cons.IH [of b "(t, consume_read limit t (Some b)) # pending"] Cons.prems plan(1) Reads show ?thesis by simp
  next
    case (Writes n)
    show ?thesis
    proof (cases "n < length pending")
      case True
      let ?rest = "take n pending @ drop (Suc n) pending"
      have sub: "\<forall>e\<in>set ?rest. settled e" using Cons.prems(2) by (auto dest: in_set_takeD in_set_dropD)
      have len: "length ?rest = length pending - 1" using True by simp
      have rows: "length (filter counts pending) = length (filter counts ?rest) + (if counts (pending ! n) then 1 else 0)"
        by (rule filter_without [OF True])
      have keep: "admitted limit w (Some b) ?rest es \<le> limit + int k - 1 - rb_count b"
        by (rule Cons.IH) (use Cons.prems Writes True sub len rows in \<open>simp_all del: filter_append split: if_splits\<close>)
      have count: "admitted limit w (Some (b\<lparr>rb_count := rb_count b + 1\<rparr>)) ?rest es \<le> limit + int k - 1 - (rb_count b + 1)" if "counts (pending ! n)"
        using Cons.IH [of "b\<lparr>rb_count := rb_count b + 1\<rparr>" ?rest] Cons.prems Writes True sub len rows that by (simp del: filter_append)
      have "settled (pending ! n)" using True Cons.prems(2) by simp
      then show ?thesis
      proof (cases "snd (pending ! n)")
        case (Refuse_Until r)
        then show ?thesis using keep True Writes by (simp add: consume_write_def)
      next
        case (Count_Until r)
        then have "counts (pending ! n)" by (simp add: counts_def)
        with count Count_Until True Writes show ?thesis by (simp add: consume_write_def)
      qed (simp_all add: settled_def)
    next
      case False
      then show ?thesis using Cons.prems Writes by (auto intro!: Cons.IH)
    qed
  qed
qed auto

text \<open>
  C8: An open bucket admits what is left of its limit, and one call more for each further call that is in
  flight at the same time: with at most \<open>k\<close> calls between their read and their write at once, at most
  \<open>k - 1\<close> calls pass beyond the limit while the bucket is open.
\<close>

theorem overlapping_calls_bounded:
  assumes "\<forall>t. Reads t \<in> set es \<longrightarrow> t < rb_resetAt b" and "rb_count b \<le> limit"
    and "overlap 0 es \<le> k" and "1 \<le> k"
  shows "admitted limit w (Some b) [] es \<le> limit - rb_count b + int (k - 1)"
  using overlapping_bound [of es b "[]" limit k w] assms by (simp add: of_nat_diff)

lemma admitted_reads:
  "admitted limit w b pending (replicate n (Reads t) @ es) = admitted limit w b (replicate n (t, consume_read limit t b) @ pending) es"
  by (induction n arbitrary: pending) (simp_all add: replicate_app_Cons_same)

lemma admitted_counts:
  "admitted limit w (Some b) (replicate n (t, Count_Until r)) (replicate n (Writes 0)) = int n"
  by (induction n arbitrary: b) (simp_all add: consume_write_def Let_def)

text \<open>
  C8: Calls that overlap are not limited: when any number of calls read a bucket with room before one of them
  writes it, all of them are admitted.
\<close>

theorem overlapping_calls_exceed_limit:
  assumes "rb_count b < limit" and "t < rb_resetAt b"
  shows "admitted limit w (Some b) [] (replicate n (Reads t) @ replicate n (Writes 0)) = int n"
  using assms by (simp add: admitted_reads admitted_counts consume_read_def)

theorem overlapping_calls_exceed_limit_witness:
  "admitted 2 1 (Some \<lparr>rb_count = 1, rb_resetAt = 1000\<rparr>) [] (replicate 5 (Reads 0) @ replicate 5 (Writes 0)) = 5"
  using overlapping_calls_exceed_limit [of "\<lparr>rb_count = 1, rb_resetAt = 1000\<rparr>" 2 0 1 5] by simp

theorem overlapping_calls_bounded_witness:
  "admitted 2 1 (Some \<lparr>rb_count = 1, rb_resetAt = 1000\<rparr>) [] [Reads 0, Reads 1, Writes 0, Writes 0, Reads 2, Writes 0] \<le> 2"
  by (rule order_trans [OF overlapping_calls_bounded [where k = 2]]) auto

text \<open>
  A write that carries a staff or customer session cookie passes the proxy only if its
  \<open>Origin\<close> header is exactly the expected origin, and no write passes unless the limiter of its
  bucket allowed it.
\<close>

theorem write_passes_only_guarded:
  assumes "proxy hash origin_of env now rq bs = (Pass, bs')" and "is_write (rq_method rq)"
  shows "(rq_session rq \<noteq> None \<or> rq_portalSession rq \<noteq> None \<longrightarrow>
            rq_origin rq \<noteq> None \<and> rq_origin rq = expected_origin origin_of env rq)
    \<and> (case bucket_of env rq of (identifier, limit, window) \<Rightarrow>
         rv_allowed (fst (consumeRateLimit hash identifier limit window now bs)))"
  using assms by (auto simp: proxy_def split: prod.splits if_splits option.splits)

definition sample_request :: http_request where
  "sample_request = \<lparr>rq_method = ''POST'', rq_pathname = ''/api/issues'', rq_realIp = Some ''10.0.0.1'',
     rq_forwarded = None, rq_origin = Some ''https://p.test'', rq_urlOrigin = ''https://p.test'',
     rq_session = Some ''s'', rq_portalSession = None\<rparr>"

theorem write_passes_only_guarded_witness:
  "rq_origin sample_request = expected_origin id \<lparr>pe_identityLimit = 10, pe_appUrl = None, pe_production = False\<rparr> sample_request"
proof -
  have "proxy id id \<lparr>pe_identityLimit = 10, pe_appUrl = None, pe_production = False\<rparr> 0 sample_request Map.empty
      = (Pass, [''write:10.0.0.1'' \<mapsto> \<lparr>rb_count = 1, rb_resetAt = 60000\<rparr>])"
    by (simp add: proxy_def sample_request_def is_write_def bucket_of_def is_identity_def is_portal_write_def
        starts_with_def requestClientKey_def trim_def trim_start_def is_space_def of_char_def Let_def
        consumeRateLimit_def consume_def expected_origin_def)
  then show ?thesis using write_passes_only_guarded [of id id _ 0 sample_request Map.empty]
    by (simp add: sample_request_def is_write_def)
qed

end
