(* ===== verification/Retention.thy ===== *)
theory Retention
  imports AuditChain
begin

text \<open>
  Retention and legal hold (\<open>src/lib/retention.ts\<close>): which rows of a data class are past the cutoff,
  which of them a hold protects, the deletion job from preview to completion, and the cascades of
  the schema that a deleted issue sets off. The rows carry the columns the code selects, joined
  with the parents it reads. Evidence digests are left out; \<open>localeCompare\<close> is the sort key
  \<open>collate\<close>, the timestamp of an audit row the parameter \<open>created\<close>, and \<open>stuck\<close> is the set of object
  keys outside the storage root, on which \<open>attachmentStorage.delete\<close> throws.
\<close>

datatype retention_class =
    ISSUES | COMMENTS | ATTACHMENTS | NOTIFICATIONS | REALTIME_EVENTS | INTEGRATION_DELIVERIES
  | AUTOMATION_HISTORY | AUDIT_EVENTS

record candidate =
  cd_id :: string
  cd_workspaceId :: string
  cd_projectId :: js
  cd_issueId :: js
  cd_userId :: js

record legal_hold =
  lh_organizationId :: string
  lh_scopeType :: string
  lh_scopeId :: js
  lh_startsAt :: time
  lh_endsAt :: "time option"
  lh_releasedAt :: "time option"

record r_issue =
  ri_id :: string
  ri_workspaceId :: string
  ri_projectId :: string
  ri_reporterId :: string
  ri_archivedAt :: "time option"

record r_comment =
  rc_id :: string
  rc_issueId :: string
  rc_authorId :: string
  rc_deletedAt :: "time option"

record r_attachment =
  ra_id :: string
  ra_issueId :: string
  ra_objectKey :: string
  ra_createdAt :: time

record r_notification =
  rn_id :: string
  rn_workspaceId :: string
  rn_userId :: string
  rn_issueId :: "string option"
  rn_createdAt :: time

record r_event =
  re_id :: string
  re_workspaceId :: string
  re_projectId :: "string option"
  re_type :: string
  re_resourceId :: "string option"
  re_createdAt :: time

text \<open>A webhook delivery or an automation execution with its subscription's or rule's project.\<close>

record r_run =
  rx_id :: string
  rx_workspaceId :: string
  rx_projectId :: "string option"
  rx_stamp :: time

record retention_db =
  rd_organizationOf :: "string \<rightharpoonup> string"   \<comment> \<open>workspace to organization\<close>
  rd_issues :: "r_issue list"
  rd_comments :: "r_comment list"
  rd_attachments :: "r_attachment list"
  rd_notifications :: "r_notification list"
  rd_events :: "r_event list"
  rd_deliveries :: "r_run list"
  rd_executions :: "r_run list"
  rd_chains :: "(string \<times> chain) list"
  rd_holds :: "legal_hold list"
  rd_objects :: "string list"

definition validRetentionDays :: "retention_class \<Rightarrow> jnum \<Rightarrow> bool" where
  "validRetentionDays c days \<longleftrightarrow>
     (case as_integer (JNum days) of
        None \<Rightarrow> False
      | Some d \<Rightarrow> (if c = AUDIT_EVENTS then 180 else 1) \<le> d \<and> d \<le> 3650)"

definition activeHolds :: "retention_db \<Rightarrow> string \<Rightarrow> time \<Rightarrow> legal_hold list" where
  "activeHolds db org now = filter (\<lambda>h. lh_organizationId h = org \<and> lh_releasedAt h = None \<and> lh_startsAt h \<le> now
     \<and> (case lh_endsAt h of None \<Rightarrow> True | Some e \<Rightarrow> now < e)) (rd_holds db)"

definition hold_covers :: "candidate \<Rightarrow> legal_hold \<Rightarrow> bool" where
  "hold_covers c h \<longleftrightarrow> lh_scopeType h = ''ORGANIZATION''
     \<or> lh_scopeType h = ''WORKSPACE'' \<and> strict_eq (lh_scopeId h) (JStr (cd_workspaceId c))
     \<or> lh_scopeType h = ''PROJECT'' \<and> strict_eq (lh_scopeId h) (cd_projectId c)
     \<or> lh_scopeType h = ''ISSUE'' \<and> strict_eq (lh_scopeId h) (cd_issueId c)
     \<or> lh_scopeType h = ''USER'' \<and> strict_eq (lh_scopeId h) (cd_userId c)"

definition held :: "legal_hold list \<Rightarrow> candidate \<Rightarrow> bool" where
  "held holds c \<longleftrightarrow> list_ex (hold_covers c) holds"

abbreviation nullable :: "string option \<Rightarrow> js" where
  "nullable v \<equiv> (case v of None \<Rightarrow> JNull | Some s \<Rightarrow> JStr s)"

definition before_cutoff :: "time \<Rightarrow> time option \<Rightarrow> bool" where
  "before_cutoff cutoff t \<longleftrightarrow> (case t of None \<Rightarrow> False | Some t \<Rightarrow> t < cutoff)"

definition in_org :: "retention_db \<Rightarrow> string \<Rightarrow> string \<Rightarrow> bool" where
  "in_org db org ws \<longleftrightarrow> rd_organizationOf db ws = Some org"

definition issue_of :: "retention_db \<Rightarrow> string \<Rightarrow> r_issue option" where
  "issue_of db i = find (\<lambda>r. ri_id r = i) (rd_issues db)"

definition issue_candidates :: "retention_db \<Rightarrow> string \<Rightarrow> time \<Rightarrow> candidate list" where
  "issue_candidates db org cutoff =
     map (\<lambda>r. \<lparr>cd_id = ri_id r, cd_workspaceId = ri_workspaceId r, cd_projectId = JStr (ri_projectId r),
            cd_issueId = JStr (ri_id r), cd_userId = JStr (ri_reporterId r)\<rparr>)
       (filter (\<lambda>r. in_org db org (ri_workspaceId r) \<and> before_cutoff cutoff (ri_archivedAt r)) (rd_issues db))"

definition comment_candidates :: "retention_db \<Rightarrow> string \<Rightarrow> time \<Rightarrow> candidate list" where
  "comment_candidates db org cutoff = List.map_filter
     (\<lambda>r. case issue_of db (rc_issueId r) of
        Some i \<Rightarrow> if before_cutoff cutoff (rc_deletedAt r) \<and> in_org db org (ri_workspaceId i)
          then Some \<lparr>cd_id = rc_id r, cd_workspaceId = ri_workspaceId i, cd_projectId = JStr (ri_projectId i),
            cd_issueId = JStr (ri_id i), cd_userId = JStr (rc_authorId r)\<rparr> else None
      | None \<Rightarrow> None) (rd_comments db)"

definition attachment_candidates :: "retention_db \<Rightarrow> string \<Rightarrow> time \<Rightarrow> candidate list" where
  "attachment_candidates db org cutoff = List.map_filter
     (\<lambda>r. case issue_of db (ra_issueId r) of
        Some i \<Rightarrow> if ra_createdAt r < cutoff \<and> ri_archivedAt i \<noteq> None \<and> in_org db org (ri_workspaceId i)
          then Some \<lparr>cd_id = ra_id r, cd_workspaceId = ri_workspaceId i, cd_projectId = JStr (ri_projectId i),
            cd_issueId = JStr (ri_id i), cd_userId = JUndef\<rparr> else None
      | None \<Rightarrow> None) (rd_attachments db)"

definition notification_candidates :: "retention_db \<Rightarrow> string \<Rightarrow> time \<Rightarrow> candidate list" where
  "notification_candidates db org cutoff =
     map (\<lambda>r. \<lparr>cd_id = rn_id r, cd_workspaceId = rn_workspaceId r,
            cd_projectId = (case Option.bind (rn_issueId r) (issue_of db) of None \<Rightarrow> JUndef | Some i \<Rightarrow> JStr (ri_projectId i)),
            cd_issueId = nullable (rn_issueId r), cd_userId = JStr (rn_userId r)\<rparr>)
       (filter (\<lambda>r. rn_createdAt r < cutoff \<and> in_org db org (rn_workspaceId r)) (rd_notifications db))"

definition event_candidates :: "retention_db \<Rightarrow> string \<Rightarrow> time \<Rightarrow> candidate list" where
  "event_candidates db org cutoff =
     map (\<lambda>r. \<lparr>cd_id = re_id r, cd_workspaceId = re_workspaceId r, cd_projectId = nullable (re_projectId r),
            cd_issueId = (if starts_with ''issue.'' (re_type r) then nullable (re_resourceId r) else JNull), cd_userId = JUndef\<rparr>)
       (filter (\<lambda>r. re_createdAt r < cutoff \<and> in_org db org (re_workspaceId r)) (rd_events db))"

definition run_candidates :: "retention_db \<Rightarrow> string \<Rightarrow> time \<Rightarrow> r_run list \<Rightarrow> candidate list" where
  "run_candidates db org cutoff runs =
     map (\<lambda>r. \<lparr>cd_id = rx_id r, cd_workspaceId = rx_workspaceId r, cd_projectId = nullable (rx_projectId r),
            cd_issueId = JUndef, cd_userId = JUndef\<rparr>)
       (filter (\<lambda>r. rx_stamp r < cutoff \<and> in_org db org (rx_workspaceId r)) runs)"

definition audit_candidates :: "(audit_event \<Rightarrow> time) \<Rightarrow> retention_db \<Rightarrow> string \<Rightarrow> time \<Rightarrow> candidate list" where
  "audit_candidates created db org cutoff =
     concat (map (\<lambda>(ws, c). if in_org db org ws
       then map (\<lambda>e. \<lparr>cd_id = ae_id e, cd_workspaceId = ws, cd_projectId = JUndef, cd_issueId = JUndef,
                  cd_userId = nullable (ae_actorId e)\<rparr>) (filter (\<lambda>e. created e < cutoff) (ch_rows c))
       else []) (rd_chains db))"

definition past_cutoff :: "(audit_event \<Rightarrow> time) \<Rightarrow> retention_db \<Rightarrow> string \<Rightarrow> retention_class \<Rightarrow> time \<Rightarrow> candidate list" where
  "past_cutoff created db org cls cutoff =
     (case cls of
        ISSUES \<Rightarrow> issue_candidates db org cutoff
      | COMMENTS \<Rightarrow> comment_candidates db org cutoff
      | ATTACHMENTS \<Rightarrow> attachment_candidates db org cutoff
      | NOTIFICATIONS \<Rightarrow> notification_candidates db org cutoff
      | REALTIME_EVENTS \<Rightarrow> event_candidates db org cutoff
      | INTEGRATION_DELIVERIES \<Rightarrow> run_candidates db org cutoff (rd_deliveries db)
      | AUTOMATION_HISTORY \<Rightarrow> run_candidates db org cutoff (rd_executions db)
      | AUDIT_EVENTS \<Rightarrow> audit_candidates created db org cutoff)"

definition discoverRetention ::
    "(string \<Rightarrow> string) \<Rightarrow> (audit_event \<Rightarrow> time) \<Rightarrow> retention_db \<Rightarrow> string \<Rightarrow> retention_class \<Rightarrow> time \<Rightarrow> time \<Rightarrow> candidate list" where
  "discoverRetention collate created db org cls cutoff now =
     sort_key (\<lambda>c. collate (cd_id c))
       (filter (\<lambda>c. \<not> held (activeHolds db org now) c) (past_cutoff created db org cls cutoff))"

section \<open>Deletion jobs\<close>

datatype job_status = Previewed | Approved | Running | Failed | Completed

record deletion_job =
  dj_organizationId :: string
  dj_dataClass :: retention_class
  dj_cutoff :: time
  dj_status :: job_status
  dj_candidateIds :: "string list"
  dj_approvedAt :: "time option"
  dj_attempts :: nat
  dj_eligible :: nat     \<comment> \<open>\<open>evidence.eligibleAtExecution\<close>\<close>
  dj_deleted :: nat      \<comment> \<open>\<open>evidence.deletedCount\<close>\<close>
  dj_completedAt :: "time option"

datatype retention_error = Approved_Job_Required | User_Is_Held 

definition previewDeletion ::
    "(string \<Rightarrow> string) \<Rightarrow> (audit_event \<Rightarrow> time) \<Rightarrow> retention_db \<Rightarrow> string \<Rightarrow> retention_class \<Rightarrow> time \<Rightarrow> time \<Rightarrow> deletion_job" where
  "previewDeletion collate created db org cls cutoff now =
     \<lparr>dj_organizationId = org, dj_dataClass = cls, dj_cutoff = cutoff, dj_status = Previewed,
      dj_candidateIds = map cd_id (discoverRetention collate created db org cls cutoff now),
      dj_approvedAt = None, dj_attempts = 0, dj_eligible = 0, dj_deleted = 0, dj_completedAt = None\<rparr>"

text \<open>\<open>onDelete: Cascade\<close> from issues to comments, attachments and notifications.\<close>

definition delete_issues :: "string list \<Rightarrow> retention_db \<Rightarrow> retention_db" where
  "delete_issues ids db =
     (let gone = map ri_id (filter (\<lambda>r. ri_id r \<in> set ids) (rd_issues db))
      in db\<lparr>rd_issues := filter (\<lambda>r. ri_id r \<notin> set ids) (rd_issues db),
            rd_comments := filter (\<lambda>r. rc_issueId r \<notin> set gone) (rd_comments db),
            rd_attachments := filter (\<lambda>r. ra_issueId r \<notin> set gone) (rd_attachments db),
            rd_notifications := filter (\<lambda>r. case rn_issueId r of None \<Rightarrow> True | Some i \<Rightarrow> i \<notin> set gone) (rd_notifications db)\<rparr>)"

text \<open>
  Attachments go one by one, object first; a failing object ends the loop with the rows deleted
  so far gone.
\<close>

fun delete_attachments :: "string set \<Rightarrow> r_attachment list \<Rightarrow> retention_db \<Rightarrow> nat \<Rightarrow> bool \<times> retention_db \<times> nat" where
  "delete_attachments stuck [] db n = (True, db, n)"
| "delete_attachments stuck (r # rs) db n =
     (if ra_objectKey r \<in> stuck then (False, db, n)
      else delete_attachments stuck rs
        (db\<lparr>rd_objects := filter (\<lambda>k. k \<noteq> ra_objectKey r) (rd_objects db),
            rd_attachments := filter (\<lambda>a. ra_id a \<noteq> ra_id r) (rd_attachments db)\<rparr>)
        (n + length (filter (\<lambda>a. ra_id a = ra_id r) (rd_attachments db))))"

definition delete_audit :: "string list \<Rightarrow> string \<Rightarrow> retention_db \<Rightarrow> retention_db" where
  "delete_audit ids org db =
     db\<lparr>rd_chains := map (\<lambda>(ws, c). (ws, if in_org db org ws then retain_from (\<lambda>e. ae_id e \<in> set ids) c else c)) (rd_chains db)\<rparr>"

definition delete_class :: "string set \<Rightarrow> retention_class \<Rightarrow> string list \<Rightarrow> string \<Rightarrow> retention_db \<Rightarrow> bool \<times> retention_db \<times> nat" where
  "delete_class stuck cls ids org db =
     (case cls of
        ISSUES \<Rightarrow> (True, delete_issues ids db, count_rows (\<lambda>r. ri_id r \<in> set ids) (rd_issues db))
      | COMMENTS \<Rightarrow> (True, db\<lparr>rd_comments := filter (\<lambda>r. rc_id r \<notin> set ids) (rd_comments db)\<rparr>,
                     count_rows (\<lambda>r. rc_id r \<in> set ids) (rd_comments db))
      | ATTACHMENTS \<Rightarrow> delete_attachments stuck (filter (\<lambda>r. ra_id r \<in> set ids) (rd_attachments db)) db 0
      | NOTIFICATIONS \<Rightarrow> (True, db\<lparr>rd_notifications := filter (\<lambda>r. rn_id r \<notin> set ids) (rd_notifications db)\<rparr>,
                          count_rows (\<lambda>r. rn_id r \<in> set ids) (rd_notifications db))
      | REALTIME_EVENTS \<Rightarrow> (True, db\<lparr>rd_events := filter (\<lambda>r. re_id r \<notin> set ids) (rd_events db)\<rparr>,
                            count_rows (\<lambda>r. re_id r \<in> set ids) (rd_events db))
      | INTEGRATION_DELIVERIES \<Rightarrow> (True, db\<lparr>rd_deliveries := filter (\<lambda>r. rx_id r \<notin> set ids) (rd_deliveries db)\<rparr>,
                                   count_rows (\<lambda>r. rx_id r \<in> set ids) (rd_deliveries db))
      | AUTOMATION_HISTORY \<Rightarrow> (True, db\<lparr>rd_executions := filter (\<lambda>r. rx_id r \<notin> set ids) (rd_executions db)\<rparr>,
                               count_rows (\<lambda>r. rx_id r \<in> set ids) (rd_executions db))
      | AUDIT_EVENTS \<Rightarrow> (True, delete_audit ids org db,
          sum_list (map (\<lambda>(ws, c). if in_org db org ws
            then length (takeWhile (\<lambda>e. ae_id e \<in> set ids) (sort_key ae_sequence (ch_rows c))) else 0) (rd_chains db))))"

definition executeDeletion ::
    "(string \<Rightarrow> string) \<Rightarrow> (audit_event \<Rightarrow> time) \<Rightarrow> string set \<Rightarrow> time \<Rightarrow> deletion_job \<Rightarrow> retention_db
      \<Rightarrow> (retention_error, deletion_job \<times> retention_db) result" where
  "executeDeletion collate created stuck now job db =
     (if dj_status job = Completed then Inr (job, db)
      else if dj_approvedAt job = None \<or> dj_status job \<notin> {Approved, Running, Failed} then Inl Approved_Job_Required
      else
       (let allowed = cd_id ` set (discoverRetention collate created db (dj_organizationId job) (dj_dataClass job) (dj_cutoff job) now);
            ids = filter (\<lambda>i. i \<in> allowed) (dj_candidateIds job);
            job1 = job\<lparr>dj_status := Running, dj_attempts := dj_attempts job + 1\<rparr>;
            (ok, db', n) = delete_class stuck (dj_dataClass job) ids (dj_organizationId job) db
        in if ok then Inr (job1\<lparr>dj_status := Completed, dj_completedAt := Some now, dj_eligible := length ids, dj_deleted := n\<rparr>, db')
           else Inr (job1\<lparr>dj_status := Failed\<rparr>, db')))"

definition anonymizeUser :: "retention_db \<Rightarrow> string \<Rightarrow> string \<Rightarrow> time \<Rightarrow> (retention_error, unit) result" where
  "anonymizeUser db org uid now =
     throw_when (list_ex (\<lambda>h. lh_scopeType h = ''ORGANIZATION''
       \<or> lh_scopeType h = ''USER'' \<and> strict_eq (lh_scopeId h) (JStr uid)) (activeHolds db org now)) User_Is_Held"

section \<open>What a deletion job may take away\<close>

text \<open>
  What the documents promise, written over the columns of the rows and not over the candidates of the code: an
  active hold on a row of a workspace, project, issue and user, and the rows of each table that a job of an
  organization may take away, those of its data class that are old enough, not on hold and in the preview.
\<close>

definition on_hold :: "retention_db \<Rightarrow> string \<Rightarrow> time \<Rightarrow> string \<Rightarrow> string option \<Rightarrow> string option \<Rightarrow> string option \<Rightarrow> bool" where
  "on_hold db org now workspace project issue user \<longleftrightarrow>
     (\<exists>h\<in>set (rd_holds db). lh_organizationId h = org \<and> lh_releasedAt h = None \<and> lh_startsAt h \<le> now
        \<and> (\<forall>e. lh_endsAt h = Some e \<longrightarrow> now < e)
        \<and> (lh_scopeType h = ''ORGANIZATION''
           \<or> lh_scopeType h = ''WORKSPACE'' \<and> lh_scopeId h = JStr workspace
           \<or> lh_scopeType h = ''PROJECT'' \<and> lh_scopeId h \<in> JStr ` set_option project
           \<or> lh_scopeType h = ''ISSUE'' \<and> lh_scopeId h \<in> JStr ` set_option issue
           \<or> lh_scopeType h = ''USER'' \<and> lh_scopeId h \<in> JStr ` set_option user))"

definition may_go :: "deletion_job \<Rightarrow> retention_db \<Rightarrow> time \<Rightarrow> retention_class \<Rightarrow> string \<Rightarrow> string \<Rightarrow> string option \<Rightarrow> string option \<Rightarrow> string option \<Rightarrow> bool" where
  "may_go job db now cls i workspace project issue user \<longleftrightarrow>
     dj_dataClass job = cls \<and> dj_approvedAt job \<noteq> None \<and> i \<in> set (dj_candidateIds job)
     \<and> rd_organizationOf db workspace = Some (dj_organizationId job)
     \<and> \<not> on_hold db (dj_organizationId job) now workspace project issue user"

definition issue_may_go :: "deletion_job \<Rightarrow> retention_db \<Rightarrow> time \<Rightarrow> r_issue \<Rightarrow> bool" where
  "issue_may_go job db now r \<longleftrightarrow> may_go job db now ISSUES (ri_id r) (ri_workspaceId r) (Some (ri_projectId r)) (Some (ri_id r)) (Some (ri_reporterId r))
     \<and> (\<exists>t. ri_archivedAt r = Some t \<and> t < dj_cutoff job)"

definition comment_may_go :: "deletion_job \<Rightarrow> retention_db \<Rightarrow> time \<Rightarrow> r_comment \<Rightarrow> bool" where
  "comment_may_go job db now r \<longleftrightarrow> (\<exists>i\<in>set (rd_issues db). ri_id i = rc_issueId r
     \<and> may_go job db now COMMENTS (rc_id r) (ri_workspaceId i) (Some (ri_projectId i)) (Some (ri_id i)) (Some (rc_authorId r)))
     \<and> (\<exists>t. rc_deletedAt r = Some t \<and> t < dj_cutoff job)"

definition attachment_may_go :: "deletion_job \<Rightarrow> retention_db \<Rightarrow> time \<Rightarrow> r_attachment \<Rightarrow> bool" where
  "attachment_may_go job db now r \<longleftrightarrow> (\<exists>i\<in>set (rd_issues db). ri_id i = ra_issueId r \<and> ri_archivedAt i \<noteq> None
     \<and> may_go job db now ATTACHMENTS (ra_id r) (ri_workspaceId i) (Some (ri_projectId i)) (Some (ri_id i)) None)
     \<and> ra_createdAt r < dj_cutoff job"

definition notification_may_go :: "deletion_job \<Rightarrow> retention_db \<Rightarrow> time \<Rightarrow> r_notification \<Rightarrow> bool" where
  "notification_may_go job db now r \<longleftrightarrow> may_go job db now NOTIFICATIONS (rn_id r) (rn_workspaceId r)
       (map_option ri_projectId (Option.bind (rn_issueId r) (issue_of db))) (rn_issueId r) (Some (rn_userId r))
     \<and> rn_createdAt r < dj_cutoff job"

definition event_may_go :: "deletion_job \<Rightarrow> retention_db \<Rightarrow> time \<Rightarrow> r_event \<Rightarrow> bool" where
  "event_may_go job db now r \<longleftrightarrow> may_go job db now REALTIME_EVENTS (re_id r) (re_workspaceId r) (re_projectId r)
       (if starts_with ''issue.'' (re_type r) then re_resourceId r else None) None
     \<and> re_createdAt r < dj_cutoff job"

definition run_may_go :: "retention_class \<Rightarrow> deletion_job \<Rightarrow> retention_db \<Rightarrow> time \<Rightarrow> r_run \<Rightarrow> bool" where
  "run_may_go cls job db now r \<longleftrightarrow> may_go job db now cls (rx_id r) (rx_workspaceId r) (rx_projectId r) None None
     \<and> rx_stamp r < dj_cutoff job"

definition audit_may_go :: "(audit_event \<Rightarrow> time) \<Rightarrow> deletion_job \<Rightarrow> retention_db \<Rightarrow> time \<Rightarrow> string \<times> audit_event \<Rightarrow> bool" where
  "audit_may_go created job db now r \<longleftrightarrow> may_go job db now AUDIT_EVENTS (ae_id (snd r)) (fst r) None None (ae_actorId (snd r))
     \<and> created (snd r) < dj_cutoff job"

definition audit_rows :: "retention_db \<Rightarrow> (string \<times> audit_event) list" where
  "audit_rows db = concat (map (\<lambda>(ws, c). map (Pair ws) (ch_rows c)) (rd_chains db))"

text \<open>The primary keys.\<close>

definition keys_unique :: "retention_db \<Rightarrow> bool" where
  "keys_unique db \<longleftrightarrow> distinct (map ri_id (rd_issues db)) \<and> distinct (map rc_id (rd_comments db))
     \<and> distinct (map ra_id (rd_attachments db)) \<and> distinct (map rn_id (rd_notifications db))
     \<and> distinct (map re_id (rd_events db)) \<and> distinct (map rx_id (rd_deliveries db))
     \<and> distinct (map rx_id (rd_executions db)) \<and> distinct (map (ae_id \<circ> snd) (audit_rows db))"

text \<open>A candidate that is not held is not on hold by its columns.\<close>

lemma not_held_not_on_hold:
  assumes "\<not> held (activeHolds db org now) c" and "cd_workspaceId c = w"
    and "\<And>x. project = Some x \<Longrightarrow> cd_projectId c = JStr x"
    and "\<And>x. issue = Some x \<Longrightarrow> cd_issueId c = JStr x"
    and "\<And>x. user = Some x \<Longrightarrow> cd_userId c = JStr x"
  shows "\<not> on_hold db org now w project issue user"
proof
  assume "on_hold db org now w project issue user"
  then obtain h where h: "h \<in> set (rd_holds db)" "lh_organizationId h = org" "lh_releasedAt h = None" "lh_startsAt h \<le> now"
      "\<forall>e. lh_endsAt h = Some e \<longrightarrow> now < e"
    and scope: "lh_scopeType h = ''ORGANIZATION''
       \<or> lh_scopeType h = ''WORKSPACE'' \<and> lh_scopeId h = JStr w
       \<or> lh_scopeType h = ''PROJECT'' \<and> lh_scopeId h \<in> JStr ` set_option project
       \<or> lh_scopeType h = ''ISSUE'' \<and> lh_scopeId h \<in> JStr ` set_option issue
       \<or> lh_scopeType h = ''USER'' \<and> lh_scopeId h \<in> JStr ` set_option user"
    unfolding on_hold_def by blast
  from h have "h \<in> set (activeHolds db org now)" by (simp add: activeHolds_def split: option.split)
  moreover from scope have "hold_covers c h" using assms(2-5) by (auto simp: hold_covers_def)
  ultimately show False using assms(1) by (auto simp: held_def list_ex_iff)
qed

lemma case_if_Some:
  "(case x of None \<Rightarrow> None | Some i \<Rightarrow> if Q i then Some (f i) else None) = Some y \<longleftrightarrow> (\<exists>i. x = Some i \<and> Q i \<and> y = f i)"
  by (auto split: option.split)

section \<open>The rows that the candidates stand for\<close>

lemma same_row: "distinct (map f xs) \<Longrightarrow> x \<in> set xs \<Longrightarrow> y \<in> set xs \<Longrightarrow> f x = f y \<Longrightarrow> x = y"
  by (auto simp: distinct_map inj_on_def)

lemma issue_of_row: "issue_of db x = Some i \<Longrightarrow> i \<in> set (rd_issues db) \<and> ri_id i = x"
  unfolding issue_of_def by (rule find_SomeD)

definition to_go :: "(audit_event \<Rightarrow> time) \<Rightarrow> deletion_job \<Rightarrow> retention_db \<Rightarrow> time \<Rightarrow> retention_class \<Rightarrow> string \<Rightarrow> bool" where
  "to_go created job db now cls i \<longleftrightarrow> dj_dataClass job = cls \<and> dj_approvedAt job \<noteq> None \<and> i \<in> set (dj_candidateIds job)
     \<and> (\<exists>c\<in>set (past_cutoff created db (dj_organizationId job) cls (dj_cutoff job)). cd_id c = i
          \<and> \<not> held (activeHolds db (dj_organizationId job) now) c)"

lemma to_go_issue:
  assumes "to_go created job db now ISSUES (ri_id r)" "keys_unique db" "r \<in> set (rd_issues db)"
  shows "issue_may_go job db now r"
proof -
  from assms obtain r' where r': "r' \<in> set (rd_issues db)" "ri_id r' = ri_id r"
    and ok: "in_org db (dj_organizationId job) (ri_workspaceId r')" "before_cutoff (dj_cutoff job) (ri_archivedAt r')"
      "\<not> held (activeHolds db (dj_organizationId job) now) \<lparr>cd_id = ri_id r', cd_workspaceId = ri_workspaceId r', cd_projectId = JStr (ri_projectId r'),
            cd_issueId = JStr (ri_id r'), cd_userId = JStr (ri_reporterId r')\<rparr>"
    by (auto simp: to_go_def past_cutoff_def issue_candidates_def)
  from same_row [OF _ r'(1) assms(3) r'(2)] assms(2) have row: "r' = r" by (simp add: keys_unique_def)
  have "\<not> on_hold db (dj_organizationId job) now (ri_workspaceId r') (Some (ri_projectId r')) (Some (ri_id r')) (Some (ri_reporterId r'))"
    by (rule not_held_not_on_hold [OF ok(3)]) simp_all
  with ok assms(1) row show ?thesis
    by (auto simp: issue_may_go_def may_go_def to_go_def in_org_def before_cutoff_def split: option.splits)
qed

lemma to_go_comment:
  assumes "to_go created job db now COMMENTS (rc_id r)" "keys_unique db" "r \<in> set (rd_comments db)"
  shows "comment_may_go job db now r"
proof -
  from assms obtain r' i where r': "r' \<in> set (rd_comments db)" "rc_id r' = rc_id r"
    and i: "issue_of db (rc_issueId r') = Some i"
    and ok: "in_org db (dj_organizationId job) (ri_workspaceId i)" "before_cutoff (dj_cutoff job) (rc_deletedAt r')"
      "\<not> held (activeHolds db (dj_organizationId job) now) \<lparr>cd_id = rc_id r', cd_workspaceId = ri_workspaceId i, cd_projectId = JStr (ri_projectId i),
            cd_issueId = JStr (ri_id i), cd_userId = JStr (rc_authorId r')\<rparr>"
    by (auto simp: to_go_def past_cutoff_def comment_candidates_def map_filter_member case_if_Some)
  from same_row [OF _ r'(1) assms(3) r'(2)] assms(2) have row: "r' = r" by (simp add: keys_unique_def)
  have "\<not> on_hold db (dj_organizationId job) now (ri_workspaceId i) (Some (ri_projectId i)) (Some (ri_id i)) (Some (rc_authorId r'))"
    by (rule not_held_not_on_hold [OF ok(3)]) simp_all
  with ok assms(1) row issue_of_row [OF i] show ?thesis
    by (auto simp: comment_may_go_def may_go_def to_go_def in_org_def before_cutoff_def split: option.splits)
qed

lemma to_go_attachment:
  assumes "to_go created job db now ATTACHMENTS (ra_id r)" "keys_unique db" "r \<in> set (rd_attachments db)"
  shows "attachment_may_go job db now r"
proof -
  from assms obtain r' i where r': "r' \<in> set (rd_attachments db)" "ra_id r' = ra_id r"
    and i: "issue_of db (ra_issueId r') = Some i"
    and ok: "in_org db (dj_organizationId job) (ri_workspaceId i)" "ra_createdAt r' < dj_cutoff job" "ri_archivedAt i \<noteq> None"
      "\<not> held (activeHolds db (dj_organizationId job) now) \<lparr>cd_id = ra_id r', cd_workspaceId = ri_workspaceId i, cd_projectId = JStr (ri_projectId i),
            cd_issueId = JStr (ri_id i), cd_userId = JUndef\<rparr>"
    by (auto simp: to_go_def past_cutoff_def attachment_candidates_def map_filter_member case_if_Some)
  from same_row [OF _ r'(1) assms(3) r'(2)] assms(2) have row: "r' = r" by (simp add: keys_unique_def)
  have "\<not> on_hold db (dj_organizationId job) now (ri_workspaceId i) (Some (ri_projectId i)) (Some (ri_id i)) None"
    by (rule not_held_not_on_hold [OF ok(4)]) simp_all
  with ok assms(1) row issue_of_row [OF i] show ?thesis
    by (auto simp: attachment_may_go_def may_go_def to_go_def in_org_def)
qed

lemma to_go_notification:
  assumes "to_go created job db now NOTIFICATIONS (rn_id r)" "keys_unique db" "r \<in> set (rd_notifications db)"
  shows "notification_may_go job db now r"
proof -
  from assms obtain r' where r': "r' \<in> set (rd_notifications db)" "rn_id r' = rn_id r"
    and ok: "in_org db (dj_organizationId job) (rn_workspaceId r')" "rn_createdAt r' < dj_cutoff job"
      "\<not> held (activeHolds db (dj_organizationId job) now) \<lparr>cd_id = rn_id r', cd_workspaceId = rn_workspaceId r',
            cd_projectId = (case Option.bind (rn_issueId r') (issue_of db) of None \<Rightarrow> JUndef | Some i \<Rightarrow> JStr (ri_projectId i)),
            cd_issueId = nullable (rn_issueId r'), cd_userId = JStr (rn_userId r')\<rparr>"
    by (auto simp: to_go_def past_cutoff_def notification_candidates_def)
  from same_row [OF _ r'(1) assms(3) r'(2)] assms(2) have row: "r' = r" by (simp add: keys_unique_def)
  have "\<not> on_hold db (dj_organizationId job) now (rn_workspaceId r') (map_option ri_projectId (Option.bind (rn_issueId r') (issue_of db))) (rn_issueId r') (Some (rn_userId r'))"
    by (rule not_held_not_on_hold [OF ok(3)]) auto
  with ok assms(1) row show ?thesis by (auto simp: notification_may_go_def may_go_def to_go_def in_org_def)
qed

lemma to_go_event:
  assumes "to_go created job db now REALTIME_EVENTS (re_id r)" "keys_unique db" "r \<in> set (rd_events db)"
  shows "event_may_go job db now r"
proof -
  from assms obtain r' where r': "r' \<in> set (rd_events db)" "re_id r' = re_id r"
    and ok: "in_org db (dj_organizationId job) (re_workspaceId r')" "re_createdAt r' < dj_cutoff job"
      "\<not> held (activeHolds db (dj_organizationId job) now) \<lparr>cd_id = re_id r', cd_workspaceId = re_workspaceId r', cd_projectId = nullable (re_projectId r'),
            cd_issueId = (if starts_with ''issue.'' (re_type r') then nullable (re_resourceId r') else JNull), cd_userId = JUndef\<rparr>"
    by (auto simp: to_go_def past_cutoff_def event_candidates_def)
  from same_row [OF _ r'(1) assms(3) r'(2)] assms(2) have row: "r' = r" by (simp add: keys_unique_def)
  have "\<not> on_hold db (dj_organizationId job) now (re_workspaceId r') (re_projectId r') (if starts_with ''issue.'' (re_type r') then re_resourceId r' else None) None"
    by (rule not_held_not_on_hold [OF ok(3)]) (auto split: if_splits)
  with ok assms(1) show ?thesis unfolding row by (simp add: event_may_go_def may_go_def to_go_def in_org_def)
qed

lemma to_go_run:
  assumes "to_go created job db now cls (rx_id r)" "keys_unique db" "r \<in> set runs"
    and "cls = INTEGRATION_DELIVERIES \<and> runs = rd_deliveries db \<or> cls = AUTOMATION_HISTORY \<and> runs = rd_executions db"
  shows "run_may_go cls job db now r"
proof -
  from assms obtain r' where r': "r' \<in> set runs" "rx_id r' = rx_id r"
    and ok: "in_org db (dj_organizationId job) (rx_workspaceId r')" "rx_stamp r' < dj_cutoff job"
      "\<not> held (activeHolds db (dj_organizationId job) now) \<lparr>cd_id = rx_id r', cd_workspaceId = rx_workspaceId r', cd_projectId = nullable (rx_projectId r'),
            cd_issueId = JUndef, cd_userId = JUndef\<rparr>"
    by (auto simp: to_go_def past_cutoff_def run_candidates_def)
  from same_row [OF _ r'(1) assms(3) r'(2)] assms(2,4) have row: "r' = r" by (auto simp: keys_unique_def)
  have "\<not> on_hold db (dj_organizationId job) now (rx_workspaceId r') (rx_projectId r') None None"
    by (rule not_held_not_on_hold [OF ok(3)]) auto
  with ok assms(1) row show ?thesis by (auto simp: run_may_go_def may_go_def to_go_def in_org_def)
qed

lemma audit_candidates_rows:
  "audit_candidates created db org cutoff =
     map (\<lambda>(ws, e). \<lparr>cd_id = ae_id e, cd_workspaceId = ws, cd_projectId = JUndef, cd_issueId = JUndef, cd_userId = nullable (ae_actorId e)\<rparr>)
       (filter (\<lambda>(ws, e). in_org db org ws \<and> created e < cutoff) (audit_rows db))"
proof -
  have "(if in_org db org ws then map (\<lambda>e. \<lparr>cd_id = ae_id e, cd_workspaceId = ws, cd_projectId = JUndef, cd_issueId = JUndef,
        cd_userId = nullable (ae_actorId e)\<rparr>) (filter (\<lambda>e. created e < cutoff) rows) else [])
      = map (\<lambda>(ws, e). \<lparr>cd_id = ae_id e, cd_workspaceId = ws, cd_projectId = JUndef, cd_issueId = JUndef, cd_userId = nullable (ae_actorId e)\<rparr>)
         (filter (\<lambda>(ws, e). in_org db org ws \<and> created e < cutoff) (map (Pair ws) rows))" for ws rows
    by (cases "in_org db org ws") (simp_all add: filter_map comp_def)
  then have one: "(\<lambda>(ws, c). if in_org db org ws then map (\<lambda>e. \<lparr>cd_id = ae_id e, cd_workspaceId = ws, cd_projectId = JUndef, cd_issueId = JUndef,
        cd_userId = nullable (ae_actorId e)\<rparr>) (filter (\<lambda>e. created e < cutoff) (ch_rows c)) else [])
      = (\<lambda>r. map (\<lambda>(ws, e). \<lparr>cd_id = ae_id e, cd_workspaceId = ws, cd_projectId = JUndef, cd_issueId = JUndef, cd_userId = nullable (ae_actorId e)\<rparr>)
         (filter (\<lambda>(ws, e). in_org db org ws \<and> created e < cutoff) ((\<lambda>(ws, c). map (Pair ws) (ch_rows c)) r)))"
    by (simp add: fun_eq_iff)
  show ?thesis unfolding audit_candidates_def audit_rows_def one by (simp add: filter_concat map_concat comp_def)
qed

lemma to_go_audit:
  assumes "to_go created job db now AUDIT_EVENTS (ae_id (snd r))" "keys_unique db" "r \<in> set (audit_rows db)"
  shows "audit_may_go created job db now r"
proof -
  from assms(1) obtain r' where r': "r' \<in> set (audit_rows db)" "ae_id (snd r') = ae_id (snd r)"
    and ok: "in_org db (dj_organizationId job) (fst r')" "created (snd r') < dj_cutoff job"
      "\<not> held (activeHolds db (dj_organizationId job) now) \<lparr>cd_id = ae_id (snd r'), cd_workspaceId = fst r', cd_projectId = JUndef, cd_issueId = JUndef,
                  cd_userId = nullable (ae_actorId (snd r'))\<rparr>"
    by (auto simp: to_go_def past_cutoff_def audit_candidates_rows)
  from same_row [of "ae_id \<circ> snd", OF _ r'(1) assms(3)] r'(2) assms(2) have row: "r' = r" by (simp add: keys_unique_def)
  have "\<not> on_hold db (dj_organizationId job) now (fst r') None None (ae_actorId (snd r'))"
    by (rule not_held_not_on_hold [OF ok(3)]) auto
  with ok assms(1) row show ?thesis by (auto simp: audit_may_go_def may_go_def to_go_def in_org_def)
qed

section \<open>What a deletion job removes\<close>

lemma delete_attachments_frame:
  "delete_attachments stuck rs db n = (ok, db', m) \<Longrightarrow>
   set (rd_attachments db) - set (rd_attachments db') \<subseteq> {a. ra_id a \<in> ra_id ` set rs}
   \<and> set (rd_objects db) - set (rd_objects db') \<subseteq> ra_objectKey ` set rs
   \<and> rd_issues db' = rd_issues db \<and> rd_comments db' = rd_comments db \<and> rd_notifications db' = rd_notifications db
   \<and> rd_events db' = rd_events db \<and> rd_deliveries db' = rd_deliveries db \<and> rd_executions db' = rd_executions db
   \<and> rd_chains db' = rd_chains db"
proof (induction stuck rs db n rule: delete_attachments.induct)
  case (2 stuck r rs db n)
  then show ?case by (cases "ra_objectKey r \<in> stuck") fastforce+
qed simp

lemma retain_from_rows: "e \<in> set (ch_rows c) \<Longrightarrow> e \<notin> set (ch_rows (retain_from (\<lambda>e. ae_id e \<in> set ids) c)) \<Longrightarrow> ae_id e \<in> set ids"
  by (auto simp: retain_from_def Let_def split: if_splits dest!: set_takeWhileD)

lemma delete_audit_rows:
  assumes "r \<in> set (audit_rows db)" and "r \<notin> set (audit_rows (delete_audit ids org db))"
  shows "ae_id (snd r) \<in> set ids"
proof -
  from assms(1) obtain ws c e where r: "(ws, c) \<in> set (rd_chains db)" "e \<in> set (ch_rows c)" "r = (ws, e)"
    by (auto simp: audit_rows_def)
  let ?c = "if in_org db org ws then retain_from (\<lambda>e. ae_id e \<in> set ids) c else c"
  have "(ws, ?c) \<in> set (rd_chains (delete_audit ids org db))" using r(1) by (force simp: delete_audit_def)
  with assms(2) r(3) have "e \<notin> set (ch_rows ?c)" by (force simp: audit_rows_def)
  with r retain_from_rows [of e c ids] show ?thesis by (simp split: if_splits)
qed

text \<open>The rows each class of job takes from each table, for a list of identifiers.\<close>

definition takes_only :: "retention_class \<Rightarrow> string list \<Rightarrow> retention_db \<Rightarrow> retention_db \<Rightarrow> bool" where
  "takes_only cls ids db db' \<longleftrightarrow>
     set (rd_issues db) - set (rd_issues db') \<subseteq> {r. cls = ISSUES \<and> ri_id r \<in> set ids}
   \<and> set (rd_comments db) - set (rd_comments db') \<subseteq> {r. cls = COMMENTS \<and> rc_id r \<in> set ids}
       \<union> {r. rc_issueId r \<in> ri_id ` (set (rd_issues db) - set (rd_issues db'))}
   \<and> set (rd_attachments db) - set (rd_attachments db') \<subseteq> {r. cls = ATTACHMENTS \<and> ra_id r \<in> set ids}
       \<union> {r. ra_issueId r \<in> ri_id ` (set (rd_issues db) - set (rd_issues db'))}
   \<and> set (rd_notifications db) - set (rd_notifications db') \<subseteq> {r. cls = NOTIFICATIONS \<and> rn_id r \<in> set ids}
       \<union> {r. rn_issueId r \<in> (Some \<circ> ri_id) ` (set (rd_issues db) - set (rd_issues db'))}
   \<and> set (rd_events db) - set (rd_events db') \<subseteq> {r. cls = REALTIME_EVENTS \<and> re_id r \<in> set ids}
   \<and> set (rd_deliveries db) - set (rd_deliveries db') \<subseteq> {r. cls = INTEGRATION_DELIVERIES \<and> rx_id r \<in> set ids}
   \<and> set (rd_executions db) - set (rd_executions db') \<subseteq> {r. cls = AUTOMATION_HISTORY \<and> rx_id r \<in> set ids}
   \<and> set (audit_rows db) - set (audit_rows db') \<subseteq> {r. cls = AUDIT_EVENTS \<and> ae_id (snd r) \<in> set ids}
   \<and> set (rd_objects db) - set (rd_objects db') \<subseteq> ra_objectKey ` {r \<in> set (rd_attachments db). cls = ATTACHMENTS \<and> ra_id r \<in> set ids}"

lemma delete_class_rows:
  assumes "delete_class stuck cls ids org db = (ok, db', n)"
  shows "takes_only cls ids db db'"
proof (cases cls)
  case ATTACHMENTS
  with assms have "delete_attachments stuck (filter (\<lambda>r. ra_id r \<in> set ids) (rd_attachments db)) db 0 = (ok, db', n)"
    by (simp add: delete_class_def)
  from delete_attachments_frame [OF this] ATTACHMENTS show ?thesis by (auto simp: takes_only_def audit_rows_def)
next
  case AUDIT_EVENTS
  with assms have db': "db' = delete_audit ids org db" by (simp add: delete_class_def)
  have "set (audit_rows db) - set (audit_rows db') \<subseteq> {r. ae_id (snd r) \<in> set ids}"
    using delete_audit_rows [of _ db ids org] by (auto simp: db')
  with AUDIT_EVENTS show ?thesis by (auto simp: takes_only_def db' delete_audit_def)
next
  case ISSUES
  with assms have "db' = delete_issues ids db" by (simp add: delete_class_def)
  with ISSUES show ?thesis by (auto simp: takes_only_def delete_issues_def Let_def audit_rows_def split: option.splits)
qed (use assms in \<open>auto simp: takes_only_def delete_class_def audit_rows_def\<close>)

lemma takes_onlyD:
  assumes "takes_only cls ids db db'"
  shows "set (rd_issues db) - set (rd_issues db') \<subseteq> {r. cls = ISSUES \<and> ri_id r \<in> set ids}"
    and "set (rd_comments db) - set (rd_comments db') \<subseteq> {r. cls = COMMENTS \<and> rc_id r \<in> set ids}
       \<union> {r. rc_issueId r \<in> ri_id ` (set (rd_issues db) - set (rd_issues db'))}"
    and "set (rd_attachments db) - set (rd_attachments db') \<subseteq> {r. cls = ATTACHMENTS \<and> ra_id r \<in> set ids}
       \<union> {r. ra_issueId r \<in> ri_id ` (set (rd_issues db) - set (rd_issues db'))}"
    and "set (rd_notifications db) - set (rd_notifications db') \<subseteq> {r. cls = NOTIFICATIONS \<and> rn_id r \<in> set ids}
       \<union> {r. rn_issueId r \<in> (Some \<circ> ri_id) ` (set (rd_issues db) - set (rd_issues db'))}"
    and "set (rd_events db) - set (rd_events db') \<subseteq> {r. cls = REALTIME_EVENTS \<and> re_id r \<in> set ids}"
    and "set (rd_deliveries db) - set (rd_deliveries db') \<subseteq> {r. cls = INTEGRATION_DELIVERIES \<and> rx_id r \<in> set ids}"
    and "set (rd_executions db) - set (rd_executions db') \<subseteq> {r. cls = AUTOMATION_HISTORY \<and> rx_id r \<in> set ids}"
    and "set (audit_rows db) - set (audit_rows db') \<subseteq> {r. cls = AUDIT_EVENTS \<and> ae_id (snd r) \<in> set ids}"
    and "set (rd_objects db) - set (rd_objects db') \<subseteq> ra_objectKey ` {r \<in> set (rd_attachments db). cls = ATTACHMENTS \<and> ra_id r \<in> set ids}"
  using assms unfolding takes_only_def by iprover+

lemma takes_only_none: "takes_only cls ids db db"
  by (simp add: takes_only_def)

lemma execute_takes_only:
  assumes "executeDeletion collate created stuck now job db = Inr (job', db')"
  shows "\<exists>ids. takes_only (dj_dataClass job) ids db db' \<and> (\<forall>i\<in>set ids. to_go created job db now (dj_dataClass job) i)"
proof -
  consider "db' = db" | ok n where "dj_approvedAt job \<noteq> None" and
    "delete_class stuck (dj_dataClass job) (filter (\<lambda>i. i \<in> cd_id ` set (discoverRetention collate created db
       (dj_organizationId job) (dj_dataClass job) (dj_cutoff job) now)) (dj_candidateIds job)) (dj_organizationId job) db
     = (ok, db', n)"
    using assms by (auto simp: executeDeletion_def Let_def split: if_splits prod.splits)
  then show ?thesis
  proof cases
    case 1
    then show ?thesis using takes_only_none by (intro exI [of _ "[]"]) simp
  next
    case 2
    show ?thesis
      by (rule exI, rule conjI, rule delete_class_rows [OF 2(2)]) (use 2(1) in \<open>auto simp: to_go_def discoverRetention_def\<close>)
  qed
qed


text \<open>An archived issue of one user with a comment of another, who is under a legal hold.\<close>

definition sample_retention :: retention_db where
  "sample_retention =
     \<lparr>rd_organizationOf = [''w'' \<mapsto> ''o''],
      rd_issues = [\<lparr>ri_id = ''i'', ri_workspaceId = ''w'', ri_projectId = ''p'', ri_reporterId = ''amy'', ri_archivedAt = Some 10\<rparr>],
      rd_comments = [\<lparr>rc_id = ''c'', rc_issueId = ''i'', rc_authorId = ''bob'', rc_deletedAt = Some 10\<rparr>],
      rd_attachments = [\<lparr>ra_id = ''a'', ra_issueId = ''i'', ra_objectKey = ''k'', ra_createdAt = 5\<rparr>],
      rd_notifications = [], rd_events = [], rd_deliveries = [], rd_executions = [], rd_chains = [],
      rd_holds = [\<lparr>lh_organizationId = ''o'', lh_scopeType = ''USER'', lh_scopeId = JStr ''bob'', lh_startsAt = 0,
                   lh_endsAt = None, lh_releasedAt = None\<rparr>],
      rd_objects = [''k'']\<rparr>"

definition sample_job :: "retention_class \<Rightarrow> deletion_job" where
  "sample_job cls = (previewDeletion id (\<lambda>_. 0) sample_retention ''o'' cls 100 200)\<lparr>dj_approvedAt := Some 201, dj_status := Approved\<rparr>"

lemmas retention_defs = sample_job_def sample_retention_def previewDeletion_def executeDeletion_def discoverRetention_def
  past_cutoff_def issue_candidates_def comment_candidates_def attachment_candidates_def in_org_def issue_of_def
  before_cutoff_def held_def activeHolds_def hold_covers_def delete_class_def delete_issues_def List.map_filter_simps

definition issues_done :: retention_db where
  "issues_done = sample_retention\<lparr>rd_issues := [], rd_comments := [], rd_attachments := []\<rparr>"

lemma issues_job_deletes:
  "executeDeletion id (\<lambda>_. 0) {} 300 (sample_job ISSUES) sample_retention
   = Inr ((sample_job ISSUES)\<lparr>dj_status := Completed, dj_attempts := 1, dj_completedAt := Some 300, dj_eligible := 1, dj_deleted := 1\<rparr>, issues_done)"
  by (simp add: retention_defs issues_done_def count_rows_def Let_def)


text \<open>
  A hold on a user does not protect the user's comments from the deletion of the issue they are
  on: the comment job keeps the held comment, the issue job of another reporter's issue cascades to
  it. The same cascade leaves the attachment's stored object behind without a row.
\<close>

theorem user_hold_bypassed_by_cascade:
  "held (activeHolds sample_retention ''o'' 300) (hd (comment_candidates sample_retention ''o'' 100))
   \<and> (\<exists>job' db'. executeDeletion id (\<lambda>_. 0) {} 300 (sample_job ISSUES) sample_retention = Inr (job', db')
        \<and> dj_status job' = Completed \<and> map rc_id (rd_comments sample_retention) = [''c''] \<and> rd_comments db' = []
        \<and> rd_attachments db' = [] \<and> rd_objects db' = [''k''])"
  by (simp add: retention_defs count_rows_def Let_def)

end
