(* ===== verification/Saml.thy ===== *)
theory Saml
  imports Sessions SingleUse
begin

text \<open>
  Single sign-on (\<open>src/lib/saml.ts\<close> and the callback route under
  \<open>src/app/api/auth/saml/[organization]/callback\<close>): return paths, the signed relay state, the table of
  outstanding requests, replay protection, the mapping of profiles and the login itself. The
  node-saml library (signatures, XML, time conditions) is a parameter: the callback receives the
  profile it validated, or none. HMAC and the base64url JSON codec are parameters; \<open>show_js\<close> is
  \<open>toString\<close> of a value that is not a string. Parsing of metadata XML and the construction of the
  client object are left out.
\<close>

definition REQUEST_TTL_MS :: int where "REQUEST_TTL_MS = 600000"
definition ASSERTION_TTL_MS :: int where "ASSERTION_TTL_MS = 28800000"

section \<open>Return paths\<close>

definition local_path :: "string \<Rightarrow> bool" where
  "local_path s \<longleftrightarrow> starts_with ''/'' s \<and> \<not> starts_with ''//'' s \<and> CHR 0x5C \<notin> set s \<and> CHR 13 \<notin> set s \<and> CHR 10 \<notin> set s"

definition safeReturnPath :: "js \<Rightarrow> string" where
  "safeReturnPath v =
     (case as_string v of
        None \<Rightarrow> ''/''
      | Some s \<Rightarrow> if \<not> local_path s then ''/'' else take 500 s)"

lemma local_path_take: "local_path s \<Longrightarrow> 0 < n \<Longrightarrow> local_path (take n s)"
proof -
  assume s: "local_path s" and n: "0 < n"
  obtain m where m: "n = Suc m" using n by (cases n) auto
  show ?thesis using s m
    by (cases s; cases "tl s"; cases m) (auto simp: local_path_def starts_with_def dest: in_set_takeD)
qed

text \<open>
  The path a login redirects to is always local: it starts with one slash, never with two, has no
  backslash and no line break, and at most 500 characters, whatever value was supplied; and a path
  that is already safe and short is kept.
\<close>

theorem return_path_is_local:
  "local_path (safeReturnPath v) \<and> length (safeReturnPath v) \<le> 500
   \<and> safeReturnPath (JStr (safeReturnPath v)) = safeReturnPath v"
proof -
  have "local_path ''/''" by (simp add: local_path_def starts_with_def)
  then have "local_path (safeReturnPath v)"
    by (auto simp: safeReturnPath_def local_path_take split: option.splits)
  moreover have "length (safeReturnPath v) \<le> 500" by (auto simp: safeReturnPath_def split: option.splits)
  ultimately show ?thesis by (simp add: safeReturnPath_def [of "JStr _"])
qed

section \<open>Relay state\<close>

record relay =
  ry_organizationId :: string
  ry_returnPath :: string
  ry_test :: bool

definition relay_payload :: "time \<Rightarrow> string \<Rightarrow> string \<Rightarrow> bool \<Rightarrow> js" where
  "relay_payload now org path test =
     JObj [(''organizationId'', JStr org), (''returnPath'', JStr (safeReturnPath (JStr path))),
           (''expiresAt'', JInt (now + REQUEST_TTL_MS)), (''test'', JBool test)]"

definition createRelayState :: "(string \<Rightarrow> string) \<Rightarrow> (js \<Rightarrow> string) \<Rightarrow> time \<Rightarrow> string \<Rightarrow> string \<Rightarrow> bool \<Rightarrow> string" where
  "createRelayState mac encode now org path test =
     (let payload = encode (relay_payload now org path test) in payload @ ''.'' @ mac payload)"

text \<open>
  \<open>canonical\<close> is the test that a part survives decoding and encoding again, \<open>decode\<close> the JSON value of
  a payload (\<open>None\<close> when it does not parse).
\<close>

definition relay_expired :: "js \<Rightarrow> time \<Rightarrow> bool" where
  "relay_expired v now = (case v of JNum (Fin r) \<Rightarrow> r \<le> of_int now | JNum NegInf \<Rightarrow> True | JNum _ \<Rightarrow> False | _ \<Rightarrow> True)"

definition readRelayState ::
    "(string \<Rightarrow> string) \<Rightarrow> (string \<Rightarrow> bool) \<Rightarrow> (string \<Rightarrow> js option) \<Rightarrow> time \<Rightarrow> string \<Rightarrow> relay option" where
  "readRelayState mac canonical decode now v =
     (case split_on CHR ''.'' v of
        payload # signature # _ \<Rightarrow>
          if payload = [] \<or> signature = [] then None
          else if \<not> canonical payload \<or> \<not> canonical signature then None
          else if signature \<noteq> mac payload then None
          else (case Option.bind (decode payload) as_object of
                  None \<Rightarrow> None
                | Some fs \<Rightarrow>
                    (case as_string (field ''organizationId'' fs) of
                       None \<Rightarrow> None
                     | Some org \<Rightarrow>
                         if relay_expired (field ''expiresAt'' fs) now then None
                         else Some \<lparr>ry_organizationId = org, ry_returnPath = safeReturnPath (field ''returnPath'' fs),
                                    ry_test = strict_eq (field ''test'' fs) (JBool True)\<rparr>))
      | _ \<Rightarrow> None)"

lemma relay_round_trip:
  assumes "p = relay_payload now org path test" and "decode (encode p) = Some p" and "encode p \<noteq> []"
    and "CHR ''.'' \<notin> set (encode p)" "canonical (encode p)"
    and "mac (encode p) \<noteq> []" "CHR ''.'' \<notin> set (mac (encode p))" "canonical (mac (encode p))"
  shows "readRelayState mac canonical decode t (createRelayState mac encode now org path test) =
    (if t < now + REQUEST_TTL_MS
     then Some \<lparr>ry_organizationId = org, ry_returnPath = safeReturnPath (JStr path), ry_test = test\<rparr> else None)"
proof -
  have "split_on CHR ''.'' (createRelayState mac encode now org path test) = [encode p, mac (encode p)]"
    using assms by (simp add: createRelayState_def Let_def split_on_sep split_on_none)
  then show ?thesis
    using assms return_path_is_local [of "JStr path"]
    by (simp add: readRelayState_def relay_payload_def field_def relay_expired_def not_le)
qed

text \<open>
  A relay state is accepted only with the signature of its payload and before it expires, and one
  made by the server is read back, for ten minutes, as the organization, the sanitized path and the
  test flag it was made from.
\<close>

theorem relay_state_integrity:
  assumes "p = relay_payload now org path test" and "decode (encode p) = Some p" and "encode p \<noteq> []"
    and "CHR ''.'' \<notin> set (encode p)" "canonical (encode p)"
    and "mac (encode p) \<noteq> []" "CHR ''.'' \<notin> set (mac (encode p))" "canonical (mac (encode p))"
  shows "readRelayState mac canonical decode t (createRelayState mac encode now org path test) =
      (if t < now + REQUEST_TTL_MS
       then Some \<lparr>ry_organizationId = org, ry_returnPath = safeReturnPath (JStr path), ry_test = test\<rparr> else None)
    \<and> (readRelayState mac canonical decode t v = Some r \<longrightarrow> (\<exists>payload rest. v = payload @ ''.'' @ mac payload @ rest))"
proof (intro conjI impI)
  assume "readRelayState mac canonical decode t v = Some r"
  then obtain payload ps where "split_on CHR ''.'' v = payload # mac payload # ps"
    by (auto simp: readRelayState_def split: list.splits if_splits)
  from split_on_two [OF this] show "\<exists>payload rest. v = payload @ ''.'' @ mac payload @ rest" by auto
qed (rule relay_round_trip; use assms in simp)

theorem relay_state_integrity_witness:
  defines "p \<equiv> relay_payload 0 ''o'' ''/issues'' False"
  shows "readRelayState (\<lambda>_. ''m'') (\<lambda>_. True) (\<lambda>_. Some p) 5 (createRelayState (\<lambda>_. ''m'') (\<lambda>_. ''c'') 0 ''o'' ''/issues'' False)
    = Some \<lparr>ry_organizationId = ''o'', ry_returnPath = ''/issues'', ry_test = False\<rparr>"
proof -
  have "safeReturnPath (JStr ''/issues'') = ''/issues''"
    by (simp add: safeReturnPath_def local_path_def starts_with_def)
  with relay_state_integrity [of p 0 "''o''" "''/issues''" False "\<lambda>_. Some p" "\<lambda>_. ''c''" "\<lambda>_. True" "\<lambda>_. ''m''" 5]
  show ?thesis by (simp add: p_def REQUEST_TTL_MS_def)
qed

section \<open>Outstanding requests\<close>

record saml_request =
  sr_id :: string
  sr_organizationId :: string
  sr_requestId :: string
  sr_relayPath :: string
  sr_expiresAt :: time
  sr_consumedAt :: "time option"

definition saveAsync :: "string \<Rightarrow> string \<Rightarrow> string \<Rightarrow> string \<Rightarrow> time \<Rightarrow> saml_request list \<Rightarrow> saml_request list" where
  "saveAsync org rid key v now rows =
     rows @ [\<lparr>sr_id = rid, sr_organizationId = org, sr_requestId = key, sr_relayPath = take 500 v,
              sr_expiresAt = now + REQUEST_TTL_MS, sr_consumedAt = None\<rparr>]"

definition find_request :: "string \<times> string \<Rightarrow> time \<Rightarrow> saml_request list \<Rightarrow> saml_request option" where
  "find_request q now rows = find (\<lambda>r. sr_organizationId r = fst q \<and> sr_requestId r = snd q
     \<and> sr_consumedAt r = None \<and> now < sr_expiresAt r) rows"

definition getAsync :: "string \<Rightarrow> string \<Rightarrow> time \<Rightarrow> saml_request list \<Rightarrow> string option" where
  "getAsync org key now rows = map_option sr_relayPath (find_request (org, key) now rows)"

definition request_used :: "saml_request \<Rightarrow> bool" where
  "request_used r \<longleftrightarrow> sr_consumedAt r \<noteq> None"

definition consume_request :: "time \<Rightarrow> saml_request \<Rightarrow> saml_request" where
  "consume_request now r = r\<lparr>sr_consumedAt := Some now\<rparr>"

definition removeAsync :: "string \<Rightarrow> string \<Rightarrow> time \<Rightarrow> saml_request list \<Rightarrow> string option \<times> saml_request list" where
  "removeAsync org key now rows =
     (if key = [] then (None, rows)
      else case find_request (org, key) now rows of
        None \<Rightarrow> (None, rows)
      | Some r \<Rightarrow> (let (won, rows') = finish sr_id request_used consume_request now r rows
                   in (if won then Some (sr_relayPath r) else None, rows')))"

interpretation saml_requests: one_time sr_id request_used consume_request
  by unfold_locales (simp_all add: request_used_def consume_request_def)

section \<open>Replay protection\<close>

text \<open>The primary key of the table is the organization and the assertion: a second insert fails.\<close>

definition consumeAssertion :: "string \<Rightarrow> string \<Rightarrow> (string \<times> string) list \<Rightarrow> bool \<times> (string \<times> string) list" where
  "consumeAssertion org a seen =
     (if a = [] \<or> length a > 500 then (False, seen)
      else if (org, a) \<in> set seen then (False, seen)
      else (True, (org, a) # seen))"

fun accepted :: "(string \<times> string) list \<Rightarrow> (string \<times> string) list \<Rightarrow> (string \<times> string) list" where
  "accepted seen [] = []"
| "accepted seen ((org, a) # es) =
     (let (ok, seen') = consumeAssertion org a seen in (if ok then [(org, a)] else []) @ accepted seen' es)"

text \<open>
  An assertion is consumed at most once for an organization, however often it is presented, and a
  SAML request is answered by at most one of any number of concurrent responses, whose lookups and
  updates may interleave.
\<close>

theorem saml_replay_is_rejected:
  "distinct (accepted seen es)
   \<and> (distinct (map sr_id rows) \<longrightarrow>
      distinct (map (sr_id \<circ> snd)
        (k_winners (fold (attempt_step sr_id request_used consume_request find_request) attempts (fresh_desk rows)))))"
proof -
  have "set (accepted seen es) \<inter> set seen = {} \<and> distinct (accepted seen es)"
  proof (induction es arbitrary: seen)
    case (Cons e es)
    obtain org a where e: "e = (org, a)" by fastforce
    obtain ok seen' where c: "consumeAssertion org a seen = (ok, seen')" by fastforce
    then have s: "set seen \<subseteq> set seen'" "ok \<Longrightarrow> (org, a) \<notin> set seen \<and> (org, a) \<in> set seen'"
      by (auto simp: consumeAssertion_def split: if_splits)
    from Cons [of seen'] s show ?case by (auto simp: e c)
  qed simp
  then show ?thesis using saml_requests.at_most_one_winner by blast
qed

theorem saml_replay_is_rejected_witness:
  "distinct (map (sr_id \<circ> snd)
     (k_winners (fold (attempt_step sr_id request_used consume_request find_request)
       [Start 1 (''o'', ''k'') 5, Start 2 (''o'', ''k'') 6, Finish 2 7, Finish 1 8]
       (fresh_desk (saveAsync ''o'' ''1'' ''k'' ''/'' 0 [])))))"
proof -
  have "distinct (map sr_id (saveAsync ''o'' ''1'' ''k'' ''/'' 0 []))" by (simp add: saveAsync_def)
  with saml_replay_is_rejected show ?thesis by blast
qed

section \<open>Certificates and metadata\<close>

datatype saml_error = Invalid_Certificate | Invalid_Metadata

text \<open>\<open>replace(/-----BEGIN CERTIFICATE-----|-----END CERTIFICATE-----|\s/g, "")\<close>\<close>

definition pem_begin :: string where "pem_begin = ''-----BEGIN CERTIFICATE-----''"
definition pem_end :: string where "pem_end = ''-----END CERTIFICATE-----''"

fun strip_pem :: "nat \<Rightarrow> string \<Rightarrow> string" where
  "strip_pem skip [] = []"
| "strip_pem (Suc skip) (c # cs) = strip_pem skip cs"
| "strip_pem 0 (c # cs) =
     (if starts_with pem_begin (c # cs) then strip_pem (length pem_begin - 1) cs
      else if starts_with pem_end (c # cs) then strip_pem (length pem_end - 1) cs
      else if is_space c then strip_pem 0 cs
      else c # strip_pem 0 cs)"

function chunks :: "nat \<Rightarrow> string \<Rightarrow> string list" where
  "chunks n s = (if s = [] then [] else take (Suc n) s # chunks n (drop (Suc n) s))"
  by pat_completeness auto
termination by (relation "measure (\<lambda>(n, s). length s)") auto

declare chunks.simps [simp del]

definition normalizeCertificate :: "string \<Rightarrow> (saml_error, string) result" where
  "normalizeCertificate v =
     (let body = strip_pem 0 v
      in if 100 \<le> length body \<and> length body \<le> 12000
            \<and> list_all (\<lambda>c. is_alnum c \<or> c = CHR ''+'' \<or> c = CHR ''/'' \<or> c = CHR ''='') body
         then Inr (pem_begin @ [CHR 10] @ join [CHR 10] (chunks 63 body) @ [CHR 10] @ pem_end)
         else Inl Invalid_Certificate)"

record idp_metadata =
  im_issuer :: string
  im_entryPoint :: string
  im_certificates :: "string list"

text \<open>
  The XML parser's result is the argument \<open>parsed\<close>; \<open>protocol\<close> is \<open>new URL(u).protocol\<close>, \<open>None\<close> when
  the URL does not parse.
\<close>

definition certificate_texts :: "js \<Rightarrow> js list" where
  "certificate_texts key = js_array (js_get ''X509Certificate'' (js_get ''X509Data'' (js_get ''KeyInfo'' key)))"

definition parseIdpMetadata ::
    "(js \<Rightarrow> string) \<Rightarrow> (string \<Rightarrow> string option) \<Rightarrow> string \<Rightarrow> js \<Rightarrow> (saml_error, idp_metadata) result" where
  "parseIdpMetadata show_js protocol xml parsed =
     (if xml = [] \<or> length xml > 1000000 \<or> contains_text ''<!doctype'' (to_lower xml) \<or> contains_text ''<!entity'' (to_lower xml)
      then Inl Invalid_Metadata
      else
       (let descriptor = nullish (js_get ''EntityDescriptor'' parsed) (js_get ''EntitiesDescriptor'' parsed);
            idp = js_get ''IDPSSODescriptor'' descriptor;
            services = js_array (js_get ''SingleSignOnService'' idp);
            redirect = (\<lambda>item. contains_text ''HTTP-Redirect'' (js_text show_js (nullish (js_get ''@_Binding'' item) (JStr []))));
            service = (case find redirect services of Some v \<Rightarrow> v | None \<Rightarrow> (case services of [] \<Rightarrow> JUndef | v # _ \<Rightarrow> v));
            keys = js_array (js_get ''KeyDescriptor'' idp)
        in bind_result (map_result (\<lambda>v. case as_string v of None \<Rightarrow> Inl Invalid_Certificate | Some c \<Rightarrow> normalizeCertificate c)
                          (concat (map certificate_texts keys))) (\<lambda>certificates.
           let issuer = js_text show_js (nullish (js_get ''@_entityID'' descriptor) (JStr []));
               entryPoint = js_text show_js (nullish (js_get ''@_Location'' service) (JStr []))
           in if issuer = [] \<or> entryPoint = [] \<or> certificates = [] \<or> protocol entryPoint \<noteq> Some ''https:''
              then Inl Invalid_Metadata
              else Inr \<lparr>im_issuer = issuer, im_entryPoint = entryPoint, im_certificates = uniq certificates\<rparr>)))"

section \<open>Profiles\<close>

record saml_claims =
  sc_email :: string
  sc_displayName :: string
  sc_groups :: "string list"

type_synonym attribute_mapping = "(string \<times> string) list"

text \<open>\<open>profile[mapping[key]]\<close>: an unmapped key reads the property \<open>undefined\<close>.\<close>

definition mapped :: "jobj \<Rightarrow> attribute_mapping \<Rightarrow> string \<Rightarrow> js" where
  "mapped profile mapping key = field (case map_of mapping key of None \<Rightarrow> ''undefined'' | Some k \<Rightarrow> k) profile"

definition mapped_text :: "jobj \<Rightarrow> attribute_mapping \<Rightarrow> string \<Rightarrow> string" where
  "mapped_text profile mapping key = (case as_string (mapped profile mapping key) of None \<Rightarrow> [] | Some s \<Rightarrow> trim s)"

definition mappedProfile :: "(js \<Rightarrow> string) \<Rightarrow> jobj \<Rightarrow> attribute_mapping \<Rightarrow> saml_claims" where
  "mappedProfile show_js profile mapping =
     (let email = (if mapped_text profile mapping ''email'' \<noteq> [] then mapped_text profile mapping ''email''
                   else if truthy (field ''email'' profile) then js_text show_js (field ''email'' profile)
                   else if truthy (field ''mail'' profile) then js_text show_js (field ''mail'' profile) else []);
          raw = mapped profile mapping ''groups'';
          items = (case raw of JStr s \<Rightarrow> [raw] | JArr vs \<Rightarrow> vs | _ \<Rightarrow> [])
      in \<lparr>sc_email = to_lower (trim email), sc_displayName = take 100 (mapped_text profile mapping ''displayName''),
          sc_groups = take 100 (filter (\<lambda>g. g \<noteq> []) (map (js_text show_js) items))\<rparr>)"

text \<open>\<open>parsed\<close> is the result of \<open>getAssertion\<close>, \<open>JUndef\<close> when the library gives none.\<close>

definition assertionIdentifier :: "jobj \<Rightarrow> js \<Rightarrow> string" where
  "assertionIdentifier profile parsed =
     (case as_string (field ''ID'' profile) of
        Some s \<Rightarrow> if s \<noteq> [] then s
                  else string_or_empty (js_get ''ID'' (js_get ''$'' (js_get ''Assertion'' parsed)))
      | None \<Rightarrow> string_or_empty (js_get ''ID'' (js_get ''$'' (js_get ''Assertion'' parsed))))"

section \<open>The callback\<close>

record saml_identity =
  sa_organizationId :: string
  sa_userId :: string
  sa_issuer :: string
  sa_nameId :: string

record saml_configuration =
  cf_enabled :: bool
  cf_allowIdpInitiated :: bool
  cf_idpIssuer :: string
  cf_mapping :: attribute_mapping

record sso_db =
  sd_identity :: identity_db
  sd_samlIdentities :: "saml_identity list"
  sd_userEmails :: "(string \<times> string) list"         \<comment> \<open>user and e-mail\<close>
  sd_domains :: "(string \<times> string) list"            \<comment> \<open>organization and verified domain\<close>
  sd_jit :: "string list"                            \<comment> \<open>organizations with just-in-time provisioning\<close>
  sd_configurations :: "(string \<times> saml_configuration) list"
  sd_seen :: "(string \<times> string) list"

datatype sso_outcome =
    Sso_Unavailable | Sso_Invalid | Sso_Unsolicited | Sso_Failed string
  | Sso_Login string string string    \<comment> \<open>user, workspace, cookie; the redirect is the relay's path\<close>

definition first_workspace :: "identity_db \<Rightarrow> string \<Rightarrow> string option" where
  "first_workspace db org = (case org_workspaces db org of [] \<Rightarrow> None | w # _ \<Rightarrow> Some w)"

definition find_saml_identity :: "sso_db \<Rightarrow> string \<Rightarrow> string \<Rightarrow> string \<Rightarrow> saml_identity option" where
  "find_saml_identity db org issuer nameId =
     find (\<lambda>i. sa_organizationId i = org \<and> sa_issuer i = issuer \<and> sa_nameId i = nameId) (sd_samlIdentities db)"

definition find_provisioned :: "identity_db \<Rightarrow> string \<Rightarrow> string \<Rightarrow> scim_identity option" where
  "find_provisioned db org nameId = find (\<lambda>i. si_organizationId i = org \<and> si_externalId i = Some nameId) (id_scim db)"

text \<open>\<open>claims.email.split("@")[1]\<close> must be a verified domain of the organization.\<close>

definition jit_allowed :: "sso_db \<Rightarrow> string \<Rightarrow> string \<Rightarrow> bool" where
  "jit_allowed db org email \<longleftrightarrow> org \<in> set (sd_jit db) \<and>
     (case split_on CHR ''@'' email of
        _ # domain # _ \<Rightarrow> domain \<noteq> [] \<and> (org, domain) \<in> set (sd_domains db)
      | _ \<Rightarrow> False)"

text \<open>Just-in-time provisioning: a new user, member of the organization and of its first workspace.\<close>

definition jit_provision :: "string \<Rightarrow> string \<Rightarrow> string \<Rightarrow> saml_claims \<Rightarrow> sso_db \<Rightarrow> (string, sso_db) result" where
  "jit_provision fresh org ws claims db =
     (if \<not> jit_allowed db org (sc_email claims) \<or> sc_displayName claims = []
         \<or> sc_email claims \<in> snd ` set (sd_userEmails db)
      then Inl ''identity_not_linked''
      else Inr (db\<lparr>sd_userEmails := sd_userEmails db @ [(fresh, sc_email claims)],
        sd_identity := (sd_identity db)
          \<lparr>id_orgMembers := id_orgMembers (sd_identity db) @ [\<lparr>om_organizationId = org, om_userId = fresh,
             om_role = Org_Member, om_breakGlass = False, om_recoveryConfirmedAt = None, om_deactivatedAt = None\<rparr>],
           id_members := id_members (sd_identity db) @ [\<lparr>wm_workspaceId = ws, wm_userId = fresh,
             wm_role = WMember, wm_deactivatedAt = None\<rparr>]\<rparr>\<rparr>))"

definition link_identity :: "string \<Rightarrow> string \<Rightarrow> string \<Rightarrow> string \<Rightarrow> sso_db \<Rightarrow> sso_db" where
  "link_identity org issuer nameId uid db =
     db\<lparr>sd_samlIdentities := sd_samlIdentities db
          @ [\<lparr>sa_organizationId = org, sa_userId = uid, sa_issuer = issuer, sa_nameId = nameId\<rparr>]\<rparr>"

text \<open>The user the assertion stands for, linking or creating the identity when it is new.\<close>

definition resolve_user :: "string \<Rightarrow> string \<Rightarrow> string \<Rightarrow> string \<Rightarrow> string \<Rightarrow> saml_claims \<Rightarrow> sso_db \<Rightarrow> (string, string \<times> sso_db) result" where
  "resolve_user fresh org ws issuer nameId claims db =
     (case find_saml_identity db org issuer nameId of
        Some i \<Rightarrow>
          (case org_membership (sd_identity db) org (sa_userId i) of
             None \<Rightarrow> Inl ''inactive_identity''
           | Some m \<Rightarrow> if om_deactivatedAt m \<noteq> None then Inl ''inactive_identity'' else Inr (sa_userId i, db))
      | None \<Rightarrow>
          (case Option.bind (find_provisioned (sd_identity db) org nameId) (\<lambda>p. if si_active p then Some (si_userId p) else None) of
             Some uid \<Rightarrow> Inr (uid, link_identity org issuer nameId uid db)
           | None \<Rightarrow> bind_result (jit_provision fresh org ws claims db) (\<lambda>db'.
                      Inr (fresh, link_identity org issuer nameId fresh db'))))"

text \<open>What the library hands over for a response it validated: the profile and \<open>getAssertion()\<close>.\<close>

record saml_response =
  rs_profile :: "jobj option"
  rs_loggedOut :: bool
  rs_assertion :: js

definition saml_login ::
    "(string \<Rightarrow> string) \<Rightarrow> (claims \<Rightarrow> string) \<Rightarrow> (js \<Rightarrow> string) \<Rightarrow> string \<Rightarrow> string \<Rightarrow> time \<Rightarrow> string \<Rightarrow> string
      \<Rightarrow> saml_configuration \<Rightarrow> saml_response option \<Rightarrow> sso_db \<Rightarrow> sso_outcome \<times> sso_db" where
  "saml_login mac encode show_js sid fresh now org ws cf response db =
     (case response of
        None \<Rightarrow> (Sso_Failed ''validation_failed'', db)
      | Some rs \<Rightarrow>
          (case rs_profile rs of
             None \<Rightarrow> (Sso_Failed ''assertion_rejected'', db)
           | Some profile \<Rightarrow>
               if rs_loggedOut rs \<or> field ''issuer'' profile \<noteq> JStr (cf_idpIssuer cf)
               then (Sso_Failed ''assertion_rejected'', db)
               else
                (let (ok, seen) = consumeAssertion org (assertionIdentifier profile (rs_assertion rs)) (sd_seen db);
                     db1 = db\<lparr>sd_seen := seen\<rparr>
                 in if \<not> ok then (Sso_Failed ''assertion_rejected'', db)
                    else
                     (case resolve_user fresh org ws (cf_idpIssuer cf) (string_or_empty (field ''nameID'' profile))
                             (mappedProfile show_js profile (cf_mapping cf)) db1 of
                        Inl code \<Rightarrow> (Sso_Failed code, db1)
                      | Inr (uid, db2) \<Rightarrow>
                          (case membership_of (sd_identity db2) ws uid of
                             None \<Rightarrow> (Sso_Failed ''inactive_workspace_membership'', db2)
                           | Some m \<Rightarrow>
                               if wm_deactivatedAt m \<noteq> None then (Sso_Failed ''inactive_workspace_membership'', db2)
                               else (let (cookie, i) = createSession mac encode sid now uid ws (sd_identity db2)
                                     in (Sso_Login uid ws cookie, db2\<lparr>sd_identity := i\<rparr>)))))))"

definition saml_callback ::
    "(string \<Rightarrow> string) \<Rightarrow> (claims \<Rightarrow> string) \<Rightarrow> (js \<Rightarrow> string) \<Rightarrow> string \<Rightarrow> string \<Rightarrow> time \<Rightarrow> string
      \<Rightarrow> relay option \<Rightarrow> saml_response option \<Rightarrow> sso_db \<Rightarrow> sso_outcome \<times> sso_db" where
  "saml_callback mac encode show_js sid fresh now org relay response db =
     (case (map_of (sd_configurations db) org, first_workspace (sd_identity db) org) of
        (Some cf, Some ws) \<Rightarrow>
          if (case relay of None \<Rightarrow> False | Some r \<Rightarrow> ry_organizationId r \<noteq> org) then (Sso_Invalid, db)
          else if \<not> cf_enabled cf \<and> \<not> (case relay of None \<Rightarrow> False | Some r \<Rightarrow> ry_test r) then (Sso_Unavailable, db)
          else if relay = None \<and> \<not> cf_allowIdpInitiated cf then (Sso_Unsolicited, db)
          else saml_login mac encode show_js sid fresh now org ws cf response db
      | _ \<Rightarrow> (Sso_Unavailable, db))"

section \<open>Who can log in\<close>

definition linked_user :: "sso_db \<Rightarrow> string \<Rightarrow> string \<Rightarrow> string \<Rightarrow> string \<Rightarrow> saml_claims \<Rightarrow> string \<Rightarrow> bool" where
  "linked_user db fresh org issuer nameId claims uid \<longleftrightarrow>
     (\<exists>i m. find_saml_identity db org issuer nameId = Some i \<and> sa_userId i = uid
        \<and> org_membership (sd_identity db) org uid = Some m \<and> om_deactivatedAt m = None)
     \<or> (\<exists>p. find_provisioned (sd_identity db) org nameId = Some p \<and> si_active p \<and> si_userId p = uid)
     \<or> uid = fresh \<and> jit_allowed db org (sc_email claims) \<and> sc_displayName claims \<noteq> []
        \<and> sc_email claims \<notin> snd ` set (sd_userEmails db)"

lemma resolve_user_linked:
  "resolve_user fresh org ws issuer nameId claims db = Inr (uid, db') \<Longrightarrow>
   linked_user db fresh org issuer nameId claims uid \<and> sd_seen db' = sd_seen db"
  by (auto simp: resolve_user_def linked_user_def jit_provision_def link_identity_def result_elims
      split: option.splits if_splits Option.bind_splits)

text \<open>
  C13: A SAML login succeeds only for a response the library validated, from the configured issuer, with
  an assertion never consumed before; its user is linked by an active membership, an active SCIM
  identity or a permitted new account, and is an active member of the workspace the session is for.
\<close>

theorem saml_login_is_sound:
  assumes "saml_callback mac encode show_js sid fresh now org relay response db = (Sso_Login uid ws cookie, db')"
  shows "\<exists>cf rs profile m. map_of (sd_configurations db) org = Some cf \<and> response = Some rs \<and> rs_profile rs = Some profile
    \<and> \<not> rs_loggedOut rs \<and> field ''issuer'' profile = JStr (cf_idpIssuer cf)
    \<and> (relay = None \<longrightarrow> cf_enabled cf \<and> cf_allowIdpInitiated cf)
    \<and> (org, assertionIdentifier profile (rs_assertion rs)) \<in> set (sd_seen db') - set (sd_seen db)
    \<and> linked_user db fresh org (cf_idpIssuer cf) (string_or_empty (field ''nameID'' profile))
         (mappedProfile show_js profile (cf_mapping cf)) uid
    \<and> first_workspace (sd_identity db) org = Some ws
    \<and> membership_of (sd_identity db') ws uid = Some m \<and> wm_deactivatedAt m = None"
proof -
  obtain cf where cf: "map_of (sd_configurations db) org = Some cf" "first_workspace (sd_identity db) org = Some ws"
      "relay = None \<longrightarrow> cf_enabled cf \<and> cf_allowIdpInitiated cf"
    and login: "saml_login mac encode show_js sid fresh now org ws cf response db = (Sso_Login uid ws cookie, db')"
    using assms by (auto simp: saml_callback_def saml_login_def Let_def split: option.splits if_splits sum.splits prod.splits)
  obtain rs profile seen db2 m i where r: "response = Some rs" "rs_profile rs = Some profile" "\<not> rs_loggedOut rs"
      "field ''issuer'' profile = JStr (cf_idpIssuer cf)"
    and c: "consumeAssertion org (assertionIdentifier profile (rs_assertion rs)) (sd_seen db) = (True, seen)"
    and u: "resolve_user fresh org ws (cf_idpIssuer cf) (string_or_empty (field ''nameID'' profile))
        (mappedProfile show_js profile (cf_mapping cf)) (db\<lparr>sd_seen := seen\<rparr>) = Inr (uid, db2)"
    and m: "membership_of (sd_identity db2) ws uid = Some m" "wm_deactivatedAt m = None"
    and s: "createSession mac encode sid now uid ws (sd_identity db2) = (cookie, i)" "db' = db2\<lparr>sd_identity := i\<rparr>"
    using login by (auto simp: saml_login_def Let_def split: option.splits if_splits sum.splits prod.splits)
  have "linked_user (db\<lparr>sd_seen := seen\<rparr>) fresh org (cf_idpIssuer cf) (string_or_empty (field ''nameID'' profile))
      (mappedProfile show_js profile (cf_mapping cf)) uid" and seen: "sd_seen db2 = seen"
    using resolve_user_linked [OF u] by simp_all
  then have "linked_user db fresh org (cf_idpIssuer cf) (string_or_empty (field ''nameID'' profile))
      (mappedProfile show_js profile (cf_mapping cf)) uid"
    by (simp add: linked_user_def find_saml_identity_def jit_allowed_def cong: list.case_cong)
  moreover have "(org, assertionIdentifier profile (rs_assertion rs)) \<in> set (sd_seen db') - set (sd_seen db)"
  proof -
    have "seen = (org, assertionIdentifier profile (rs_assertion rs)) # sd_seen db
        \<and> (org, assertionIdentifier profile (rs_assertion rs)) \<notin> set (sd_seen db)"
      using c by (auto simp: consumeAssertion_def split: if_splits)
    then show ?thesis using s(2) \<open>sd_seen db2 = seen\<close> by simp
  qed
  moreover have "membership_of (sd_identity db') ws uid = Some m"
    using s m by (auto simp: createSession_def Let_def membership_of_def)
  ultimately show ?thesis using cf r m(2) by blast
qed

definition sample_sso :: sso_db where
  "sample_sso =
     \<lparr>sd_identity = sample_identity\<lparr>id_scim := [\<lparr>si_id = ''i'', si_externalId = Some ''amy@idp'', si_userName = ''a@b.c'', si_organizationId = ''o'',
        si_userId = ''amy'', si_active = True, si_version = 1\<rparr>]\<rparr>,
      sd_samlIdentities = [], sd_userEmails = [(''amy'', ''amy@corp.test'')], sd_domains = [(''o'', ''corp.test'')],
      sd_jit = [''o''],
      sd_configurations = [(''o'', \<lparr>cf_enabled = True, cf_allowIdpInitiated = True, cf_idpIssuer = ''idp'', cf_mapping = []\<rparr>)],
      sd_seen = []\<rparr>"

definition sample_response :: saml_response where
  "sample_response = \<lparr>rs_profile = Some [(''issuer'', JStr ''idp''), (''nameID'', JStr ''amy@idp''), (''ID'', JStr ''a1'')],
     rs_loggedOut = False, rs_assertion = JUndef\<rparr>"

theorem saml_login_is_sound_witness:
  "\<exists>db'. saml_callback (\<lambda>_. ''m'') (\<lambda>_. ''c'') (\<lambda>_. []) ''s'' ''new'' 0 ''o'' None (Some sample_response) sample_sso
      = (Sso_Login ''amy'' ''w'' ''c.m'', db') \<and> (''o'', ''a1'') \<in> set (sd_seen db')"
proof -
  have "assertionIdentifier [(''issuer'', JStr ''idp''), (''nameID'', JStr ''amy@idp''), (''ID'', JStr ''a1'')] JUndef = ''a1''"
    by (simp add: assertionIdentifier_def field_def)
  then obtain db' where login: "saml_callback (\<lambda>_. ''m'') (\<lambda>_. ''c'') (\<lambda>_. []) ''s'' ''new'' 0 ''o'' None
      (Some sample_response) sample_sso = (Sso_Login ''amy'' ''w'' ''c.m'', db')"
    by (simp add: saml_callback_def saml_login_def sample_sso_def sample_response_def sample_identity_def first_workspace_def
        org_workspaces_def consumeAssertion_def resolve_user_def find_saml_identity_def find_provisioned_def link_identity_def
        membership_of_def createSession_def field_def string_or_empty_def Let_def)
  from saml_login_is_sound [OF login] have "(''o'', ''a1'') \<in> set (sd_seen db')"
    by (auto simp: sample_sso_def sample_response_def assertionIdentifier_def field_def)
  with login show ?thesis by blast
qed

text \<open>
  The domain check of just-in-time provisioning looks at the text between the first two \<open>@\<close>, not
  at the domain of the address: an address of any other domain passes when the verified domain
  stands in between.
\<close>

theorem jit_domain_check_is_partial:
  assumes "org \<in> set (sd_jit db)" and "(org, domain) \<in> set (sd_domains db)" and "domain \<noteq> []"
    and "CHR ''@'' \<notin> set user" "CHR ''@'' \<notin> set domain"
  shows "jit_allowed db org (user @ ''@'' @ domain @ ''@'' @ other)"
  using assms by (simp add: jit_allowed_def split_on_sep)

theorem jit_domain_check_is_partial_witness:
  "jit_allowed sample_sso ''o'' (''mallory'' @ ''@'' @ ''corp.test'' @ ''@'' @ ''evil.test'')"
  by (rule jit_domain_check_is_partial) (simp_all add: sample_sso_def)

end
