(* ===== verification/Scim.thy ===== *)
theory Scim
  imports PasswordReset RateLimit
begin

text \<open>
  Provisioning of users and groups by an identity provider: \<open>scim.ts\<close>, the routes under \<open>api/scim/v2\<close> and those of the
  provisioning tokens. Users and groups are written as a check and a commit that may be separated by other
  requests. Times of creation and the shape of the JSON answers are left out; the digest, the decoding of hexadecimal
  strings, \<open>String(v)\<close> of values that are no strings and the collation of the database are the fields of \<open>scim_host\<close>.
\<close>

section \<open>Tables and requests\<close>

record scim_token =
  tn_id :: string
  tn_organizationId :: string
  tn_createdById :: string
  tn_name :: string
  tn_prefix :: string
  tn_secretHash :: string
  tn_scopes :: "string list"
  tn_expiresAt :: "time option"
  tn_lastUsedAt :: "time option"
  tn_revokedAt :: "time option"

record org_group =
  ug_id :: string
  ug_organizationId :: string
  ug_externalId :: "string option"
  ug_displayName :: string
  ug_version :: int
  ug_members :: "string list"    \<comment> \<open>identities\<close>

record provisioning_log =
  lo_organizationId :: string
  lo_tokenId :: string
  lo_action :: string
  lo_resourceType :: string
  lo_resourceId :: "string option"
  lo_status :: nat
  lo_errorCode :: "string option"
  lo_metadata :: jobj

record scim_db =
  pr_buckets :: buckets
  pr_tokens :: "scim_token list"
  pr_identity :: identity_db
  pr_users :: "account list"
  pr_groups :: "org_group list"
  pr_log :: "provisioning_log list"
  pr_audit :: "audit_entry list"

record scim_host =
  ho_sha :: "string \<Rightarrow> string"
  ho_unhex :: "string \<Rightarrow> string"
  ho_text :: "js \<Rightarrow> string"
  ho_collate :: "string \<Rightarrow> string"
  ho_limit :: int

record scim_request =
  hq_organization :: string
  hq_client :: string
  hq_authorization :: string
  hq_ifMatch :: "string option"
  hq_filter :: "string option"
  hq_startIndex :: "string option"
  hq_count :: "string option"
  hq_body :: "jobj option"

section \<open>Tokens\<close>

definition SCIM_SCOPES :: "string list" where
  "SCIM_SCOPES = [''users:read'', ''users:write'', ''groups:read'', ''groups:write'']"

text \<open>\<open>random\<close> and \<open>tail\<close> are the random bytes, printed.\<close>

definition createScimSecret :: "(string \<Rightarrow> string) \<Rightarrow> string \<Rightarrow> string \<Rightarrow> string \<times> string \<times> string" where
  "createScimSecret sha random tail = (let secret = ''scim_'' @ random @ ''.'' @ tail in (random, secret, sha secret))"

definition is_hex :: "char \<Rightarrow> bool" where
  "is_hex c \<longleftrightarrow> is_digit c \<or> c \<in> set ''abcdef''"

definition is_base64url :: "char \<Rightarrow> bool" where
  "is_base64url c \<longleftrightarrow> is_alnum c \<or> c = CHR ''_'' \<or> c = CHR ''-''"

text \<open>\<open>/^scim_([a-f0-9]{12})\.[A-Za-z0-9_-]{20,}$/\<close>, with its group.\<close>

definition secret_prefix :: "string \<Rightarrow> string option" where
  "secret_prefix s =
     (let p = take 12 (drop 5 s); r = drop 17 s in
      if starts_with ''scim_'' s \<and> length p = 12 \<and> list_all is_hex p \<and> r \<noteq> [] \<and> hd r = CHR ''.''
         \<and> 20 \<le> length (tl r) \<and> list_all is_base64url (tl r) then Some p else None)"

definition bearer :: "string \<Rightarrow> string" where
  "bearer header = (if starts_with ''Bearer '' header then drop 7 header else [])"

definition names_organization :: "identity_db \<Rightarrow> scim_token \<Rightarrow> string \<Rightarrow> bool" where
  "names_organization ident t name \<longleftrightarrow>
     (case find (\<lambda>o'. og_id o' = tn_organizationId t) (id_organizations ident) of None \<Rightarrow> False | Some o' \<Rightarrow> og_id o' = name \<or> og_slug o' = name)"

definition token_accepts :: "scim_host \<Rightarrow> time \<Rightarrow> identity_db \<Rightarrow> string \<Rightarrow> string \<Rightarrow> scim_token \<Rightarrow> bool" where
  "token_accepts h now ident name secret t \<longleftrightarrow>
     names_organization ident t name \<and> tn_revokedAt t = None \<and> \<not> (case tn_expiresAt t of None \<Rightarrow> False | Some e \<Rightarrow> e \<le> now)
   \<and> ho_unhex h (tn_secretHash t) = ho_unhex h (ho_sha h secret)"

text \<open>The bucket of the client is charged for every request, and an accepted token notes its use.\<close>

definition authenticateScim :: "scim_host \<Rightarrow> time \<Rightarrow> string option \<Rightarrow> scim_request \<Rightarrow> scim_db \<Rightarrow> (nat, scim_token) result \<times> scim_db" where
  "authenticateScim h now scope q db =
     (let (verdict, buckets) = consumeRateLimit (ho_sha h) (''scim:'' @ hq_organization q @ '':'' @ hq_client q) (ho_limit h) 60 now (pr_buckets db);
          db = db\<lparr>pr_buckets := buckets\<rparr>; secret = bearer (hq_authorization q) in
      if \<not> rv_allowed verdict then (Inl 429, db)
      else case secret_prefix secret of None \<Rightarrow> (Inl 401, db) | Some p \<Rightarrow>
        (case find (\<lambda>t. tn_prefix t = p) (pr_tokens db) of None \<Rightarrow> (Inl 401, db) | Some t \<Rightarrow>
           if \<not> token_accepts h now (pr_identity db) (hq_organization q) secret t then (Inl 401, db)
           else if \<not> (case scope of None \<Rightarrow> True | Some s \<Rightarrow> s \<in> set (tn_scopes t)) then (Inl 403, db)
           else (Inr t, db\<lparr>pr_tokens := map (\<lambda>x. if tn_id x = tn_id t then x\<lparr>tn_lastUsedAt := Some now\<rparr> else x) (pr_tokens db)\<rparr>)))"

definition scim_handler :: "scim_host \<Rightarrow> time \<Rightarrow> string \<Rightarrow> (scim_token \<Rightarrow> scim_db \<Rightarrow> (nat, 'r) result \<times> scim_db) \<Rightarrow> scim_request \<Rightarrow> scim_db
    \<Rightarrow> (nat, 'r) result \<times> scim_db" where
  "scim_handler h now scope handle q db =
     (case authenticateScim h now (Some scope) q db of (Inl n, db') \<Rightarrow> (Inl n, db') | (Inr t, db') \<Rightarrow> handle t db')"

definition scimLog :: "scim_token \<Rightarrow> string \<Rightarrow> string \<Rightarrow> string option \<Rightarrow> nat \<Rightarrow> string option \<Rightarrow> jobj \<Rightarrow> scim_db \<Rightarrow> scim_db" where
  "scimLog t action kind i status code metadata db =
     db\<lparr>pr_log := pr_log db @ [\<lparr>lo_organizationId = tn_organizationId t, lo_tokenId = tn_id t, lo_action = action, lo_resourceType = kind,
       lo_resourceId = i, lo_status = status, lo_errorCode = code, lo_metadata = metadata\<rparr>]\<rparr>"

section \<open>Pages, filters and values\<close>

record scim_page =
  sp_startIndex :: nat
  sp_count :: nat

text \<open>\<open>Number.parseInt(v ?? d, 10) || n\<close>: zero is replaced like a number that cannot be read.\<close>

definition positive_or :: "int \<Rightarrow> string option \<Rightarrow> int" where
  "positive_or n v = (case v of None \<Rightarrow> n | Some s \<Rightarrow> (case parse_int s of None \<Rightarrow> n | Some i \<Rightarrow> if i = 0 then n else i))"

definition scimPage :: "scim_request \<Rightarrow> scim_page" where
  "scimPage q = \<lparr>sp_startIndex = nat (max 1 (positive_or 1 (hq_startIndex q))), sp_count = nat (min 100 (max 0 (positive_or 100 (hq_count q))))\<rparr>"

definition page_of :: "scim_page \<Rightarrow> 'a list \<Rightarrow> 'a list" where
  "page_of p rows = take (sp_count p) (drop (sp_startIndex p - 1) rows)"

text \<open>\<open>/^([A-Za-z][A-Za-z0-9.]*)\s+eq\s+"([^"\\]{1,500})"$/i\<close>\<close>

definition is_letter :: "char \<Rightarrow> bool" where
  "is_letter c \<longleftrightarrow> is_lower c \<or> is_upper c"

definition is_attribute_char :: "char \<Rightarrow> bool" where
  "is_attribute_char c \<longleftrightarrow> is_alnum c \<or> c = CHR ''.''"

definition is_filter_value :: "string \<Rightarrow> bool" where
  "is_filter_value v \<longleftrightarrow> v \<noteq> [] \<and> length v \<le> 500 \<and> CHR ''\"'' \<notin> set v \<and> CHR 0x5C \<notin> set v"

definition match_filter :: "string \<Rightarrow> (string \<times> string) option" where
  "match_filter s =
     (let attribute = takeWhile is_attribute_char s; rest = dropWhile is_attribute_char s;
          keyword = trim_start rest; quoted = trim_start (drop 2 keyword); v = butlast (tl quoted) in
      if attribute \<noteq> [] \<and> is_letter (hd attribute) \<and> keyword \<noteq> rest \<and> to_lower (take 2 keyword) = ''eq'' \<and> quoted \<noteq> drop 2 keyword
         \<and> 2 \<le> length quoted \<and> hd quoted = CHR ''\"'' \<and> last quoted = CHR ''\"'' \<and> is_filter_value v
      then Some (attribute, v) else None)"

definition parseScimFilter :: "string option \<Rightarrow> string list \<Rightarrow> (nat, (string \<times> string) option) result" where
  "parseScimFilter value names =
     (case value of None \<Rightarrow> Inr None | Some s \<Rightarrow>
        if s = [] then Inr None
        else case match_filter (trim s) of None \<Rightarrow> Inl 400 | Some (attribute, v) \<Rightarrow>
          if attribute \<in> set names then Inr (Some (attribute, v)) else Inl 400)"

definition normalizeScimEmail :: "js \<Rightarrow> string option" where
  "normalizeScimEmail v = (let email = to_lower (trim (string_or_empty v)) in if is_email email \<and> length email \<le> 320 then Some email else None)"

definition external_id :: "jobj \<Rightarrow> string option" where
  "external_id body = (let s = trim (string_or_empty (field ''externalId'' body)) in if s = [] then None else Some (take 500 s))"

text \<open>\<open>displayName\<close>, else \<open>name.formatted\<close>, else the default.\<close>

definition display_name :: "string \<Rightarrow> jobj \<Rightarrow> string" where
  "display_name other body =
     (case as_string (field ''displayName'' body) of Some s \<Rightarrow> trim s
      | None \<Rightarrow> (case as_string (js_get ''formatted'' (field ''name'' body)) of Some s \<Rightarrow> trim s | None \<Rightarrow> other))"

definition weak_tag :: "int \<Rightarrow> string" where
  "weak_tag version = ''W/\"'' @ string_of_int version @ [CHR ''\"'']"

text \<open>The header \<open>if-match\<close>, when there is one, must name the current version.\<close>

definition stale :: "scim_request \<Rightarrow> int \<Rightarrow> bool" where
  "stale q version \<longleftrightarrow> (case hq_ifMatch q of None \<Rightarrow> False | Some m \<Rightarrow> m \<noteq> [] \<and> m \<noteq> weak_tag version)"

section \<open>Users\<close>

record scim_user =
  su_id :: string
  su_externalId :: "string option"
  su_userName :: string
  su_active :: bool
  su_displayName :: string
  su_email :: string
  su_version :: string

definition account_of :: "scim_db \<Rightarrow> string \<Rightarrow> account option" where
  "account_of db uid = find (\<lambda>u. u_id u = uid) (pr_users db)"

definition scimUser :: "scim_db \<Rightarrow> scim_identity \<Rightarrow> scim_user" where
  "scimUser db i =
     (let u = account_of db (si_userId i) in
      \<lparr>su_id = si_id i, su_externalId = si_externalId i, su_userName = si_userName i, su_active = si_active i,
       su_displayName = (case u of None \<Rightarrow> [] | Some u \<Rightarrow> u_name u), su_email = (case u of None \<Rightarrow> [] | Some u \<Rightarrow> u_email u),
       su_version = weak_tag (si_version i)\<rparr>)"

definition identity_in :: "scim_db \<Rightarrow> string \<Rightarrow> string \<Rightarrow> scim_identity option" where
  "identity_in db org i = find (\<lambda>x. si_id x = i \<and> si_organizationId x = org) (id_scim (pr_identity db))"

definition directory :: "scim_host \<Rightarrow> string \<Rightarrow> (string \<times> string) option \<Rightarrow> scim_db \<Rightarrow> scim_identity list" where
  "directory h org flt db =
     sort_key (ho_collate h \<circ> si_id) (filter (\<lambda>i. si_organizationId i = org
       \<and> (case flt of None \<Rightarrow> True
          | Some (attribute, v) \<Rightarrow> if attribute = ''userName'' then si_userName i = to_lower v else si_externalId i = Some v)) (id_scim (pr_identity db)))"

definition users_view :: "scim_host \<Rightarrow> scim_request \<Rightarrow> scim_token \<Rightarrow> scim_db \<Rightarrow> (nat, nat \<times> nat \<times> scim_user list) result" where
  "users_view h q t db =
     bind_result (parseScimFilter (hq_filter q) [''userName'', ''externalId'']) (\<lambda>flt.
       (let page = scimPage q; rows = directory h (tn_organizationId t) flt db
        in Inr (length rows, sp_startIndex page, map (scimUser db) (page_of page rows))))"

definition users_GET :: "scim_host \<Rightarrow> time \<Rightarrow> scim_request \<Rightarrow> scim_db \<Rightarrow> (nat, nat \<times> nat \<times> scim_user list) result \<times> scim_db" where
  "users_GET h now q = scim_handler h now ''users:read'' (\<lambda>t db. (users_view h q t db, db)) q"

definition user_GET :: "scim_host \<Rightarrow> time \<Rightarrow> string \<Rightarrow> scim_request \<Rightarrow> scim_db \<Rightarrow> (nat, scim_user) result \<times> scim_db" where
  "user_GET h now i q = scim_handler h now ''users:read'' (\<lambda>t db.
     (case identity_in db (tn_organizationId t) i of None \<Rightarrow> Inl 404 | Some x \<Rightarrow> Inr (scimUser db x), db)) q"

subsection \<open>Creation\<close>

record user_plan =
  ur_userName :: string
  ur_externalId :: "string option"
  ur_displayName :: string
  ur_active :: bool

datatype user_creation = Present scim_identity | Create user_plan

definition user_check :: "scim_token \<Rightarrow> scim_request \<Rightarrow> scim_db \<Rightarrow> (nat, user_creation) result" where
  "user_check t q db =
     (let body = (case hq_body q of None \<Rightarrow> [] | Some b \<Rightarrow> b); ext = external_id body; name = display_name [] body in
      case normalizeScimEmail (field ''userName'' body) of None \<Rightarrow> Inl 400 | Some userName \<Rightarrow>
      if name = [] \<or> 100 < length name then Inl 400
      else case find (\<lambda>i. si_organizationId i = tn_organizationId t \<and> (si_userName i = userName \<or> ext \<noteq> None \<and> si_externalId i = ext)) (id_scim (pr_identity db)) of
             Some i \<Rightarrow> if si_userName i = userName \<and> si_externalId i = ext then Inr (Present i) else Inl 409
           | None \<Rightarrow> Inr (Create \<lparr>ur_userName = userName, ur_externalId = ext, ur_displayName = name,
               ur_active = (field ''active'' body \<noteq> JBool False)\<rparr>))"

text \<open>The unique indexes of the identities of an organization.\<close>

definition identity_clash :: "scim_identity \<Rightarrow> scim_identity \<Rightarrow> bool" where
  "identity_clash i x \<longleftrightarrow> si_id x \<noteq> si_id i \<and> si_organizationId x = si_organizationId i
     \<and> (si_userId x = si_userId i \<or> si_userName x = si_userName i \<or> si_externalId i \<noteq> None \<and> si_externalId x = si_externalId i)"

definition add_identity :: "scim_identity \<Rightarrow> scim_db \<Rightarrow> (string, scim_identity \<times> scim_db) result" where
  "add_identity i db =
     (let ident = pr_identity db in
      if list_ex (identity_clash i) (id_scim ident) then Inl ''unique''
      else Inr (i, db\<lparr>pr_identity := ident\<lparr>id_scim := id_scim ident @ [i]\<rparr>\<rparr>))"

definition stamp_member :: "string \<Rightarrow> string \<Rightarrow> time option \<Rightarrow> workspace_member list \<Rightarrow> workspace_member list" where
  "stamp_member ws uid stamp ms =
     (if list_ex (\<lambda>m. wm_workspaceId m = ws \<and> wm_userId m = uid) ms
      then map (\<lambda>m. if wm_workspaceId m = ws \<and> wm_userId m = uid then m\<lparr>wm_deactivatedAt := stamp\<rparr> else m) ms
      else ms @ [\<lparr>wm_workspaceId = ws, wm_userId = uid, wm_role = WMember, wm_deactivatedAt = stamp\<rparr>])"

text \<open>An account that exists is taken over only when it is a member of the organization.\<close>

definition provision_member :: "time option \<Rightarrow> string \<Rightarrow> string \<Rightarrow> user_plan \<Rightarrow> account \<Rightarrow> scim_db \<Rightarrow> scim_db" where
  "provision_member stamp org ws up u db =
     (let ident = pr_identity db in
      db\<lparr>pr_users := map (\<lambda>x. if u_id x = u_id u then x\<lparr>u_name := ur_displayName up\<rparr> else x) (pr_users db),
         pr_identity := ident\<lparr>id_orgMembers := map (\<lambda>m. if om_organizationId m = org \<and> om_userId m = u_id u then m\<lparr>om_deactivatedAt := stamp\<rparr> else m) (id_orgMembers ident),
           id_members := stamp_member ws (u_id u) stamp (id_members ident)\<rparr>\<rparr>)"

definition provision_account :: "time option \<Rightarrow> string \<Rightarrow> string \<Rightarrow> user_plan \<Rightarrow> string \<Rightarrow> scim_db \<Rightarrow> scim_db" where
  "provision_account stamp org ws up uid db =
     (let ident = pr_identity db in
      db\<lparr>pr_users := pr_users db @ [\<lparr>u_id = uid, u_email = ur_userName up, u_name = ur_displayName up, u_passwordHash = None\<rparr>],
         pr_identity := ident\<lparr>id_orgMembers := id_orgMembers ident @ [\<lparr>om_organizationId = org, om_userId = uid, om_role = Org_Member,
             om_breakGlass = False, om_recoveryConfirmedAt = None, om_deactivatedAt = stamp\<rparr>],
           id_members := id_members ident @ [\<lparr>wm_workspaceId = ws, wm_userId = uid, wm_role = WMember, wm_deactivatedAt = stamp\<rparr>]\<rparr>\<rparr>)"

definition provision :: "(nat \<Rightarrow> string) \<Rightarrow> time \<Rightarrow> string \<Rightarrow> user_plan \<Rightarrow> scim_db \<Rightarrow> (string, scim_identity \<times> scim_db) result" where
  "provision new now org up db =
     (let ident = pr_identity db; stamp = (if ur_active up then None else Some now);
          row = (\<lambda>uid. \<lparr>si_id = new 1, si_externalId = ur_externalId up, si_userName = ur_userName up, si_organizationId = org, si_userId = uid, si_active = ur_active up, si_version = 1\<rparr>) in
      case find (\<lambda>w. wk_organizationId w = Some org) (id_workspaces ident) of
        None \<Rightarrow> Inl ''no_workspace''
      | Some w \<Rightarrow>
          (case find (\<lambda>u. u_email u = ur_userName up) (pr_users db) of
             Some u \<Rightarrow> if org_membership ident org (u_id u) = None then Inl ''account_conflict''
               else add_identity (row (u_id u)) (provision_member stamp org (wk_id w) up u db)
           | None \<Rightarrow> add_identity (row (new 0)) (provision_account stamp org (wk_id w) up (new 0) db)))"

definition user_commit :: "(nat \<Rightarrow> string) \<Rightarrow> time \<Rightarrow> scim_token \<Rightarrow> user_creation \<Rightarrow> scim_db \<Rightarrow> (nat, scim_user) result \<times> scim_db" where
  "user_commit new now t c db =
     (case c of
        Present i \<Rightarrow> (Inr (scimUser db i), db)
      | Create up \<Rightarrow>
          (case provision new now (tn_organizationId t) up db of
             Inl code \<Rightarrow> (Inl 409, scimLog t ''create'' ''User'' None 409 (Some code) [] db)
           | Inr (i, db') \<Rightarrow> (Inr (scimUser db' i), scimLog t ''create'' ''User'' (Some (si_id i)) 201 None [(''active'', JBool (ur_active up))] db')))"

definition users_POST :: "scim_host \<Rightarrow> (nat \<Rightarrow> string) \<Rightarrow> time \<Rightarrow> scim_request \<Rightarrow> scim_db \<Rightarrow> (nat, scim_user) result \<times> scim_db" where
  "users_POST h new now q = scim_handler h now ''users:write''
     (\<lambda>t db. case user_check t q db of Inl n \<Rightarrow> (Inl n, db) | Inr c \<Rightarrow> user_commit new now t c db) q"

subsection \<open>Changes\<close>

definition user_operation :: "(js \<Rightarrow> string) \<Rightarrow> js \<Rightarrow> jobj \<Rightarrow> jobj" where
  "user_operation show_js operation vals =
     (case as_object operation of None \<Rightarrow> vals | Some item \<Rightarrow>
        (let op = to_lower (js_text show_js (nullish (field ''op'' item) (JStr []))) in
         if op \<noteq> ''replace'' \<and> op \<noteq> ''add'' then vals
         else case as_string (field ''path'' item) of
                Some p \<Rightarrow> (p, field ''value'' item) # vals
              | None \<Rightarrow> (case as_object (field ''value'' item) of None \<Rightarrow> vals | Some fs \<Rightarrow> fs @ vals)))"

definition operations_of :: "jobj \<Rightarrow> js list" where
  "operations_of body = (case as_array (field ''Operations'' body) of None \<Rightarrow> [] | Some xs \<Rightarrow> xs)"

definition update_values :: "(js \<Rightarrow> string) \<Rightarrow> bool \<Rightarrow> jobj \<Rightarrow> jobj" where
  "update_values show_js patch body = (if patch then fold (user_operation show_js) (operations_of body) [] else body)"

record user_edit =
  ue_current :: scim_identity
  ue_userName :: string
  ue_externalId :: "string option"
  ue_displayName :: string
  ue_active :: bool
  ue_action :: string

definition update_check :: "scim_host \<Rightarrow> bool \<Rightarrow> string \<Rightarrow> scim_request \<Rightarrow> scim_token \<Rightarrow> scim_db \<Rightarrow> (nat, user_edit) result" where
  "update_check h patch i q t db =
     (case identity_in db (tn_organizationId t) i of None \<Rightarrow> Inl 404 | Some current \<Rightarrow>
      if stale q (si_version current) then Inl 412
      else case hq_body q of None \<Rightarrow> Inl 400 | Some body \<Rightarrow>
        (let vals = update_values (ho_text h) patch body;
             name = display_name (case account_of db (si_userId current) of None \<Rightarrow> [] | Some u \<Rightarrow> u_name u) vals in
         case (if field ''userName'' vals = JUndef then Some (si_userName current) else normalizeScimEmail (field ''userName'' vals)) of
           None \<Rightarrow> Inl 400
         | Some userName \<Rightarrow>
             if userName = [] \<or> name = [] \<or> 100 < length name then Inl 400
             else Inr \<lparr>ue_current = current, ue_userName = userName,
               ue_externalId = (if field ''externalId'' vals = JUndef then si_externalId current
                 else map_option (take 500 \<circ> trim) (as_string (field ''externalId'' vals))),
               ue_displayName = name, ue_active = (if field ''active'' vals = JUndef then si_active current else field ''active'' vals = JBool True),
               ue_action = (if patch then ''patch'' else ''replace'')\<rparr>))"

definition rename_identity :: "user_edit \<Rightarrow> scim_identity \<Rightarrow> scim_identity" where
  "rename_identity e i = i\<lparr>si_userName := ue_userName e, si_externalId := ue_externalId e, si_version := si_version i + 1\<rparr>"

text \<open>The transaction changes the account itself, whatever other organizations it belongs to.\<close>

definition rename_account :: "user_edit \<Rightarrow> scim_db \<Rightarrow> (nat, scim_db) result" where
  "rename_account e db =
     (let ident = pr_identity db; cur = ue_current e in
      if list_ex (\<lambda>u. u_id u \<noteq> si_userId cur \<and> u_email u = ue_userName e) (pr_users db) then Inl 409
      else if list_ex (identity_clash (rename_identity e cur)) (id_scim ident) then Inl 409
      else Inr (db\<lparr>pr_users := map (\<lambda>u. if u_id u = si_userId cur then u\<lparr>u_email := ue_userName e, u_name := ue_displayName e\<rparr> else u) (pr_users db),
             pr_identity := ident\<lparr>id_scim := map (\<lambda>i. if si_id i = si_id cur then rename_identity e i else i) (id_scim ident)\<rparr>\<rparr>))"

definition set_active :: "string \<Rightarrow> string \<Rightarrow> bool \<Rightarrow> time \<Rightarrow> scim_db \<Rightarrow> scim_db option" where
  "set_active org i active now db = map_option (\<lambda>ident. db\<lparr>pr_identity := ident\<rparr>) (setScimActive org i active now (pr_identity db))"

definition update_commit :: "time \<Rightarrow> scim_token \<Rightarrow> user_edit \<Rightarrow> scim_db \<Rightarrow> (nat, scim_user) result \<times> scim_db" where
  "update_commit now t e db =
     (let org = tn_organizationId t; i = si_id (ue_current e) in
      case rename_account e db of Inl n \<Rightarrow> (Inl n, db) | Inr db1 \<Rightarrow>
        (let db2 = (if ue_active e = si_active (ue_current e) then db1 else case set_active org i (ue_active e) now db1 of None \<Rightarrow> db1 | Some d \<Rightarrow> d) in
         case identity_in db2 org i of None \<Rightarrow> (Inl 409, db2)
         | Some saved \<Rightarrow> (Inr (scimUser db2 saved), scimLog t (ue_action e) ''User'' (Some i) 200 None [(''active'', JBool (ue_active e))] db2)))"

definition user_update :: "scim_host \<Rightarrow> time \<Rightarrow> bool \<Rightarrow> string \<Rightarrow> scim_request \<Rightarrow> scim_db \<Rightarrow> (nat, scim_user) result \<times> scim_db" where
  "user_update h now patch i q = scim_handler h now ''users:write''
     (\<lambda>t db. case update_check h patch i q t db of Inl n \<Rightarrow> (Inl n, db) | Inr e \<Rightarrow> update_commit now t e db) q"

definition user_delete_commit :: "time \<Rightarrow> string \<Rightarrow> scim_token \<Rightarrow> scim_db \<Rightarrow> (nat, unit) result \<times> scim_db" where
  "user_delete_commit now i t db =
     (case set_active (tn_organizationId t) i False now db of None \<Rightarrow> (Inl 404, db)
      | Some db' \<Rightarrow> (Inr (), scimLog t ''delete'' ''User'' (Some i) 204 None [(''deprovisioned'', JBool True)] db'))"

definition user_DELETE :: "scim_host \<Rightarrow> time \<Rightarrow> string \<Rightarrow> scim_request \<Rightarrow> scim_db \<Rightarrow> (nat, unit) result \<times> scim_db" where
  "user_DELETE h now i q = scim_handler h now ''users:write'' (user_delete_commit now i) q"

section \<open>Groups\<close>

record scim_group =
  sv_id :: string
  sv_externalId :: "string option"
  sv_displayName :: string
  sv_members :: "(string \<times> string) list"    \<comment> \<open>identity, name\<close>
  sv_version :: string

definition scimGroup :: "scim_db \<Rightarrow> org_group \<Rightarrow> scim_group" where
  "scimGroup db g =
     \<lparr>sv_id = ug_id g, sv_externalId = ug_externalId g, sv_displayName = ug_displayName g,
      sv_members = map (\<lambda>m. (m, case find (\<lambda>i. si_id i = m) (id_scim (pr_identity db)) of None \<Rightarrow> []
        | Some i \<Rightarrow> su_displayName (scimUser db i))) (ug_members g), sv_version = weak_tag (ug_version g)\<rparr>"

definition group_in :: "scim_db \<Rightarrow> string \<Rightarrow> string \<Rightarrow> org_group option" where
  "group_in db org i = find (\<lambda>g. ug_id g = i \<and> ug_organizationId g = org) (pr_groups db)"

definition groups_view :: "scim_host \<Rightarrow> scim_request \<Rightarrow> scim_token \<Rightarrow> scim_db \<Rightarrow> (nat, nat \<times> nat \<times> scim_group list) result" where
  "groups_view h q t db =
     bind_result (parseScimFilter (hq_filter q) [''displayName'', ''externalId'']) (\<lambda>flt.
       (let page = scimPage q;
            rows = sort_key (ho_collate h \<circ> ug_id) (filter (\<lambda>g. ug_organizationId g = tn_organizationId t
              \<and> (case flt of None \<Rightarrow> True | Some (attribute, v) \<Rightarrow> if attribute = ''displayName'' then ug_displayName g = v else ug_externalId g = Some v)) (pr_groups db))
        in Inr (length rows, sp_startIndex page, map (scimGroup db) (page_of page rows))))"

definition groups_GET :: "scim_host \<Rightarrow> time \<Rightarrow> scim_request \<Rightarrow> scim_db \<Rightarrow> (nat, nat \<times> nat \<times> scim_group list) result \<times> scim_db" where
  "groups_GET h now q = scim_handler h now ''groups:read'' (\<lambda>t db. (groups_view h q t db, db)) q"

definition group_GET :: "scim_host \<Rightarrow> time \<Rightarrow> string \<Rightarrow> scim_request \<Rightarrow> scim_db \<Rightarrow> (nat, scim_group) result \<times> scim_db" where
  "group_GET h now i q = scim_handler h now ''groups:read'' (\<lambda>t db.
     (case group_in db (tn_organizationId t) i of None \<Rightarrow> Inl 404 | Some g \<Rightarrow> Inr (scimGroup db g), db)) q"

text \<open>The identifiers \<open>value\<close> of a list of members; entries without one are dropped.\<close>

definition member_values :: "(js \<Rightarrow> string) \<Rightarrow> js list \<Rightarrow> string list" where
  "member_values show_js xs =
     filter (\<lambda>s. s \<noteq> []) (map (\<lambda>x. case as_object x of None \<Rightarrow> [] | Some m \<Rightarrow> js_text show_js (nullish (field ''value'' m) (JStr []))) xs)"

definition members_in :: "(js \<Rightarrow> string) \<Rightarrow> jobj \<Rightarrow> string list" where
  "members_in show_js body = (case as_array (field ''members'' body) of None \<Rightarrow> [] | Some xs \<Rightarrow> uniq (member_values show_js xs))"

definition active_in :: "string \<Rightarrow> string list \<Rightarrow> scim_db \<Rightarrow> string list" where
  "active_in org ids db = map si_id (filter (\<lambda>i. si_organizationId i = org \<and> si_id i \<in> set ids \<and> si_active i) (id_scim (pr_identity db)))"

record group_plan =
  gp_displayName :: string
  gp_externalId :: "string option"
  gp_members :: "string list"

datatype group_creation = Group_Present org_group | Create_Group group_plan

definition group_check :: "scim_host \<Rightarrow> scim_request \<Rightarrow> scim_token \<Rightarrow> scim_db \<Rightarrow> (nat, group_creation) result" where
  "group_check h q t db =
     (let org = tn_organizationId t; body = (case hq_body q of None \<Rightarrow> [] | Some b \<Rightarrow> b);
          name = trim (string_or_empty (field ''displayName'' body)); ext = external_id body; ids = members_in (ho_text h) body; rows = active_in org ids db in
      if name = [] \<or> 100 < length name then Inl 400
      else case find (\<lambda>g. ug_organizationId g = org \<and> (ug_displayName g = name \<or> ext \<noteq> None \<and> ug_externalId g = ext)) (pr_groups db) of
             Some g \<Rightarrow> if ug_displayName g = name \<and> ug_externalId g = ext then Inr (Group_Present g) else Inl 409
           | None \<Rightarrow> if length rows \<noteq> length ids then Inl 400
               else Inr (Create_Group \<lparr>gp_displayName = name, gp_externalId = ext, gp_members = rows\<rparr>))"

definition group_clash :: "org_group \<Rightarrow> org_group \<Rightarrow> bool" where
  "group_clash g x \<longleftrightarrow> ug_id x \<noteq> ug_id g \<and> ug_organizationId x = ug_organizationId g
     \<and> (ug_displayName x = ug_displayName g \<or> ug_externalId g \<noteq> None \<and> ug_externalId x = ug_externalId g)"

definition group_commit :: "string \<Rightarrow> scim_token \<Rightarrow> group_creation \<Rightarrow> scim_db \<Rightarrow> (nat, scim_group) result \<times> scim_db" where
  "group_commit new t c db =
     (case c of
        Group_Present g \<Rightarrow> (Inr (scimGroup db g), db)
      | Create_Group gp \<Rightarrow>
          (let g = \<lparr>ug_id = new, ug_organizationId = tn_organizationId t, ug_externalId = gp_externalId gp, ug_displayName = gp_displayName gp,
                    ug_version = 1, ug_members = gp_members gp\<rparr>; db' = db\<lparr>pr_groups := pr_groups db @ [g]\<rparr> in
           if list_ex (group_clash g) (pr_groups db) then (Inl 409, db)
           else (Inr (scimGroup db' g), scimLog t ''create'' ''Group'' (Some new) 201 None [(''memberCount'', JInt (int (length (gp_members gp))))] db')))"

definition groups_POST :: "scim_host \<Rightarrow> string \<Rightarrow> time \<Rightarrow> scim_request \<Rightarrow> scim_db \<Rightarrow> (nat, scim_group) result \<times> scim_db" where
  "groups_POST h new now q = scim_handler h now ''groups:write''
     (\<lambda>t db. case group_check h q t db of Inl n \<Rightarrow> (Inl n, db) | Inr c \<Rightarrow> group_commit new t c db) q"

subsection \<open>Changes\<close>

text \<open>\<open>/^members\[value eq "([^"]+)"\]$/\<close>\<close>

definition member_filter :: "string \<Rightarrow> string option" where
  "member_filter path =
     (let v = takeWhile (\<lambda>c. c \<noteq> CHR ''\"'') (drop 18 path) in
      if starts_with ''members[value eq \"'' path \<and> v \<noteq> [] \<and> drop (18 + length v) path = ''\"]'' then Some v else None)"

definition group_operation :: "(js \<Rightarrow> string) \<Rightarrow> js \<Rightarrow> group_plan \<Rightarrow> group_plan" where
  "group_operation show_js raw gp =
     (case as_object raw of None \<Rightarrow> gp | Some item \<Rightarrow>
        (let op = to_lower (js_text show_js (nullish (field ''op'' item) (JStr []))); path = js_text show_js (nullish (field ''path'' item) (JStr []));
             sets = (op = ''replace'' \<or> op = ''add''); v = trim (js_text show_js (nullish (field ''value'' item) (JStr []))) in
         if path = ''displayName'' \<and> sets then gp\<lparr>gp_displayName := v\<rparr>
         else if path = ''externalId'' \<and> sets then gp\<lparr>gp_externalId := (if v = [] then None else Some v)\<rparr>
         else case (if path = ''members'' then as_array (field ''value'' item) else None) of
                Some xs \<Rightarrow> (let named = member_values show_js xs in
                  gp\<lparr>gp_members := (if op = ''remove'' then filter (\<lambda>m. m \<notin> set named) (gp_members gp) else uniq (gp_members gp @ named))\<rparr>)
              | None \<Rightarrow> (case member_filter path of
                  Some m \<Rightarrow> if op = ''remove'' then gp\<lparr>gp_members := filter (\<lambda>x. x \<noteq> m) (gp_members gp)\<rparr> else gp
                | None \<Rightarrow> gp)))"

definition wanted_group :: "(js \<Rightarrow> string) \<Rightarrow> bool \<Rightarrow> org_group \<Rightarrow> jobj \<Rightarrow> group_plan" where
  "wanted_group show_js patch g body =
     (if patch then fold (group_operation show_js) (operations_of body)
        \<lparr>gp_displayName = ug_displayName g, gp_externalId = ug_externalId g, gp_members = ug_members g\<rparr>
      else (let s = trim (string_or_empty (field ''externalId'' body)) in
        \<lparr>gp_displayName = trim (string_or_empty (field ''displayName'' body)), gp_externalId = (if s = [] then None else Some s),
         gp_members = members_in show_js body\<rparr>))"

definition replace_check :: "scim_host \<Rightarrow> bool \<Rightarrow> string \<Rightarrow> scim_request \<Rightarrow> scim_token \<Rightarrow> scim_db \<Rightarrow> (nat, group_plan) result" where
  "replace_check h patch i q t db =
     (case group_in db (tn_organizationId t) i of None \<Rightarrow> Inl 404 | Some g \<Rightarrow>
      if stale q (ug_version g) then Inl 412
      else case hq_body q of None \<Rightarrow> Inl 400 | Some body \<Rightarrow>
        (let gp = wanted_group (ho_text h) patch g body; rows = active_in (tn_organizationId t) (gp_members gp) db in
         if gp_displayName gp = [] \<or> 100 < length (gp_displayName gp) then Inl 400
         else if length rows \<noteq> length (gp_members gp) then Inl 400
         else Inr (gp\<lparr>gp_members := rows\<rparr>)))"

definition replace_commit :: "bool \<Rightarrow> string \<Rightarrow> group_plan \<Rightarrow> scim_token \<Rightarrow> scim_db \<Rightarrow> (nat, scim_group) result \<times> scim_db" where
  "replace_commit patch i gp t db =
     (case find (\<lambda>g. ug_id g = i) (pr_groups db) of None \<Rightarrow> (Inl 409, db) | Some g \<Rightarrow>
        (let g' = g\<lparr>ug_displayName := gp_displayName gp, ug_externalId := gp_externalId gp, ug_version := ug_version g + 1, ug_members := gp_members gp\<rparr>;
             db' = db\<lparr>pr_groups := map (\<lambda>x. if ug_id x = i then g' else x) (pr_groups db)\<rparr> in
         if list_ex (group_clash g') (pr_groups db) then (Inl 409, db)
         else (Inr (scimGroup db' g'), scimLog t (if patch then ''patch'' else ''replace'') ''Group'' (Some i) 200 None
                [(''memberCount'', JInt (int (length (gp_members gp))))] db')))"

definition group_replace :: "scim_host \<Rightarrow> time \<Rightarrow> bool \<Rightarrow> string \<Rightarrow> scim_request \<Rightarrow> scim_db \<Rightarrow> (nat, scim_group) result \<times> scim_db" where
  "group_replace h now patch i q = scim_handler h now ''groups:write''
     (\<lambda>t db. case replace_check h patch i q t db of Inl n \<Rightarrow> (Inl n, db) | Inr gp \<Rightarrow> replace_commit patch i gp t db) q"

definition group_delete_commit :: "string \<Rightarrow> scim_token \<Rightarrow> scim_db \<Rightarrow> (nat, unit) result \<times> scim_db" where
  "group_delete_commit i t db =
     (let hit = (\<lambda>g. ug_id g = i \<and> ug_organizationId g = tn_organizationId t) in
      if count_rows hit (pr_groups db) = 0 then (Inl 404, db)
      else (Inr (), scimLog t ''delete'' ''Group'' (Some i) 204 None [] (db\<lparr>pr_groups := filter (\<lambda>g. \<not> hit g) (pr_groups db)\<rparr>)))"

definition group_DELETE :: "scim_host \<Rightarrow> time \<Rightarrow> string \<Rightarrow> scim_request \<Rightarrow> scim_db \<Rightarrow> (nat, unit) result \<times> scim_db" where
  "group_DELETE h now i q = scim_handler h now ''groups:write'' (group_delete_commit i) q"

section \<open>Administration of the tokens\<close>

definition token_audit :: "auth_context \<Rightarrow> string \<Rightarrow> string \<Rightarrow> jobj \<Rightarrow> scim_db \<Rightarrow> scim_db" where
  "token_audit cx action i metadata db =
     db\<lparr>pr_audit := pr_audit db @ [\<lparr>au_workspaceId = cx_workspaceId cx, au_actorId = Some (cx_userId cx), au_action = action,
       au_targetType = ''scim_token'', au_targetId = i, au_metadata = JObj metadata\<rparr>]\<rparr>"

definition token_admin :: "auth_context option \<Rightarrow> scim_db \<Rightarrow> (nat, auth_context \<times> string) result" where
  "token_admin context db =
     (case context of None \<Rightarrow> Inl 401 | Some cx \<Rightarrow>
      case organizationAdmin (pr_identity db) (cx_workspaceId cx) (cx_userId cx) of None \<Rightarrow> Inl 403 | Some org \<Rightarrow> Inr (cx, org))"

text \<open>Newest first, with neither secret nor digest.\<close>

definition scim_tokens_GET :: "auth_context option \<Rightarrow> scim_db \<Rightarrow> (nat, (string \<times> string \<times> string \<times> string list) list) result" where
  "scim_tokens_GET context db =
     bind_result (token_admin context db) (\<lambda>(cx, org). Inr (map (\<lambda>t. (tn_id t, tn_name t, tn_prefix t, tn_scopes t))
       (rev (filter (\<lambda>t. tn_organizationId t = org) (pr_tokens db)))))"

text \<open>\<open>parse_date\<close> is \<open>new Date(string)\<close>, \<open>None\<close> an invalid date; \<open>random\<close> and \<open>tail\<close> are the random bytes.\<close>

definition scim_tokens_POST :: "(string \<Rightarrow> string) \<Rightarrow> (string \<Rightarrow> time option) \<Rightarrow> string \<Rightarrow> string \<Rightarrow> string \<Rightarrow> time \<Rightarrow> auth_context option \<Rightarrow> jobj \<Rightarrow> scim_db
    \<Rightarrow> (nat, string \<times> scim_db) result" where
  "scim_tokens_POST sha parse_date new random tail now context body db =
     bind_result (token_admin context db) (\<lambda>(cx, org).
       (let name = trim (string_or_empty (field ''name'' body));
            scopes = uniq (filter (\<lambda>s. s \<in> set SCIM_SCOPES) (strings_of (case as_array (field ''scopes'' body) of None \<Rightarrow> [] | Some xs \<Rightarrow> xs)));
            expiry = map_option parse_date (as_string (field ''expiresAt'' body));
            bad_expiry = (case expiry of None \<Rightarrow> False | Some None \<Rightarrow> True | Some (Some e) \<Rightarrow> e \<le> now);
            (prefix, secret, hash) = createScimSecret sha random tail in
        if length name < 2 \<or> 100 < length name \<or> scopes = [] \<or> bad_expiry then Inl 400
        else if list_ex (\<lambda>t. tn_prefix t = prefix \<or> tn_secretHash t = hash) (pr_tokens db) then Inl 500
        else Inr (secret, token_audit cx ''identity.scim_token.created'' new [(''name'', JStr name), (''scopes'', JArr (map JStr scopes)), (''prefix'', JStr prefix)]
               (db\<lparr>pr_tokens := pr_tokens db @ [\<lparr>tn_id = new, tn_organizationId = org, tn_createdById = cx_userId cx, tn_name = name, tn_prefix = prefix,
                  tn_secretHash = hash, tn_scopes = scopes, tn_expiresAt = Option.bind expiry id, tn_lastUsedAt = None, tn_revokedAt = None\<rparr>]\<rparr>))))"

definition scim_token_DELETE :: "time \<Rightarrow> auth_context option \<Rightarrow> string \<Rightarrow> scim_db \<Rightarrow> (nat, scim_db) result" where
  "scim_token_DELETE now context i db =
     bind_result (token_admin context db) (\<lambda>(cx, org).
       case find (\<lambda>t. tn_id t = i \<and> tn_organizationId t = org) (pr_tokens db) of None \<Rightarrow> Inl 404
       | Some t \<Rightarrow> Inr (token_audit cx ''identity.scim_token.revoked'' i [(''prefix'', JStr (tn_prefix t))]
           (db\<lparr>pr_tokens := map (\<lambda>x. if tn_id x = i then x\<lparr>tn_revokedAt := Some now\<rparr> else x) (pr_tokens db)\<rparr>)))"

section \<open>A call stays in its organization\<close>

datatype scim_call =
    Users_Post "nat \<Rightarrow> string"
  | User_Change bool string
  | User_Delete string
  | Groups_Post string
  | Group_Change bool string
  | Group_Delete string

fun scope_of :: "scim_call \<Rightarrow> string" where
  "scope_of (Users_Post new) = ''users:write''"
| "scope_of (User_Change patch i) = ''users:write''"
| "scope_of (User_Delete i) = ''users:write''"
| "scope_of (Groups_Post new) = ''groups:write''"
| "scope_of (Group_Change patch i) = ''groups:write''"
| "scope_of (Group_Delete i) = ''groups:write''"

text \<open>The tables after a writing call.\<close>

fun scim_writes :: "scim_host \<Rightarrow> time \<Rightarrow> scim_request \<Rightarrow> scim_call \<Rightarrow> scim_db \<Rightarrow> scim_db" where
  "scim_writes h now q (Users_Post new) db = snd (users_POST h new now q db)"
| "scim_writes h now q (User_Change patch i) db = snd (user_update h now patch i q db)"
| "scim_writes h now q (User_Delete i) db = snd (user_DELETE h now i q db)"
| "scim_writes h now q (Groups_Post new) db = snd (groups_POST h new now q db)"
| "scim_writes h now q (Group_Change patch i) db = snd (group_replace h now patch i q db)"
| "scim_writes h now q (Group_Delete i) db = snd (group_DELETE h now i q db)"

text \<open>The rows that belong to other organizations.\<close>

definition elsewhere_identity :: "string \<Rightarrow> identity_db \<Rightarrow> identity_db" where
  "elsewhere_identity org ident =
     ident\<lparr>id_sessions := filter (\<lambda>s. ss_workspaceId s \<notin> set (org_workspaces ident org)) (id_sessions ident),
           id_members := filter (\<lambda>m. wm_workspaceId m \<notin> set (org_workspaces ident org)) (id_members ident),
           id_orgMembers := filter (\<lambda>m. om_organizationId m \<noteq> org) (id_orgMembers ident),
           id_scim := filter (\<lambda>i. si_organizationId i \<noteq> org) (id_scim ident)\<rparr>"

definition elsewhere_groups :: "string \<Rightarrow> org_group list \<Rightarrow> org_group list" where
  "elsewhere_groups org = filter (\<lambda>g. ug_organizationId g \<noteq> org)"

text \<open>The users an organization provisions or has as members.\<close>

definition users_of :: "string \<Rightarrow> identity_db \<Rightarrow> string set" where
  "users_of org ident = si_userId ` {i \<in> set (id_scim ident). si_organizationId i = org} \<union> om_userId ` {m \<in> set (id_orgMembers ident). om_organizationId m = org}"

definition keeps_to :: "string \<Rightarrow> scim_db \<Rightarrow> scim_db \<Rightarrow> bool" where
  "keeps_to org db db' \<longleftrightarrow> elsewhere_identity org (pr_identity db') = elsewhere_identity org (pr_identity db)
     \<and> elsewhere_groups org (pr_groups db') = elsewhere_groups org (pr_groups db)
     \<and> (\<forall>u\<in>set (pr_users db). u_id u \<notin> users_of org (pr_identity db) \<longrightarrow> u \<in> set (pr_users db'))
     \<and> pr_audit db' = pr_audit db \<and> map tn_secretHash (pr_tokens db') = map tn_secretHash (pr_tokens db)"

definition scim_ids_unique :: "scim_db \<Rightarrow> bool" where
  "scim_ids_unique db \<longleftrightarrow> distinct (map si_id (id_scim (pr_identity db))) \<and> distinct (map ug_id (pr_groups db))"

lemma filter_map_outside: "(\<And>x. x \<in> set xs \<Longrightarrow> P x \<Longrightarrow> f x = x) \<Longrightarrow> (\<And>x. x \<in> set xs \<Longrightarrow> P (f x) = P x) \<Longrightarrow> filter P (map f xs) = filter P xs"
  by (induction xs) auto

lemma org_workspaces_update [simp]:
  "org_workspaces (ident\<lparr>id_sessions := a\<rparr>) org = org_workspaces ident org" "org_workspaces (ident\<lparr>id_members := b\<rparr>) org = org_workspaces ident org"
  "org_workspaces (ident\<lparr>id_orgMembers := c\<rparr>) org = org_workspaces ident org" "org_workspaces (ident\<lparr>id_scim := d\<rparr>) org = org_workspaces ident org"
  by (simp_all add: org_workspaces_def)

lemma keeps_to_refl [simp, intro]: "keeps_to org db db"
  by (simp add: keeps_to_def)

lemma keeps_to_log [simp]:
  "keeps_to org db (scimLog t a k i st c m db') \<longleftrightarrow> keeps_to org db db'"
  "keeps_to org (db\<lparr>pr_buckets := b\<rparr>) db' \<longleftrightarrow> keeps_to org db db'"
  by (simp_all add: keeps_to_def scimLog_def)

lemma elsewhere_identityI:
  assumes "id_workspaces b = id_workspaces a" and "id_organizations b = id_organizations a"
    and "filter (\<lambda>s. ss_workspaceId s \<notin> set (org_workspaces a org)) (id_sessions b) = filter (\<lambda>s. ss_workspaceId s \<notin> set (org_workspaces a org)) (id_sessions a)"
    and "filter (\<lambda>m. wm_workspaceId m \<notin> set (org_workspaces a org)) (id_members b) = filter (\<lambda>m. wm_workspaceId m \<notin> set (org_workspaces a org)) (id_members a)"
    and "filter (\<lambda>m. om_organizationId m \<noteq> org) (id_orgMembers b) = filter (\<lambda>m. om_organizationId m \<noteq> org) (id_orgMembers a)"
    and "filter (\<lambda>i. si_organizationId i \<noteq> org) (id_scim b) = filter (\<lambda>i. si_organizationId i \<noteq> org) (id_scim a)"
  shows "elsewhere_identity org b = elsewhere_identity org a"
proof -
  have "org_workspaces b org = org_workspaces a org" by (simp add: org_workspaces_def assms(1))
  then show ?thesis using assms by (simp add: elsewhere_identity_def)
qed

lemma setScimActive_fields:
  assumes "setScimActive org iid active now a = Some b"
  shows "\<exists>x. find (\<lambda>i. si_id i = iid \<and> si_organizationId i = org) (id_scim a) = Some x
    \<and> id_workspaces b = id_workspaces a \<and> id_organizations b = id_organizations a
    \<and> id_scim b = map (\<lambda>y. if si_id y = si_id x then y\<lparr>si_active := active, si_version := si_version y + 1\<rparr> else y) (id_scim a)
    \<and> id_orgMembers b = map (\<lambda>m. if om_organizationId m = org \<and> om_userId m = si_userId x then m\<lparr>om_deactivatedAt := (if active then None else Some now)\<rparr> else m) (id_orgMembers a)
    \<and> id_members b = map (\<lambda>m. if wm_userId m = si_userId x \<and> wm_workspaceId m \<in> set (org_workspaces a org) then m\<lparr>wm_deactivatedAt := (if active then None else Some now)\<rparr> else m) (id_members a)
    \<and> id_sessions b = map (\<lambda>s. if \<not> active \<and> ss_userId s = si_userId x \<and> ss_workspaceId s \<in> set (org_workspaces a org) \<and> ss_revokedAt s = None then s\<lparr>ss_revokedAt := Some now\<rparr> else s) (id_sessions a)"
proof -
  obtain x where x: "find (\<lambda>i. si_id i = iid \<and> si_organizationId i = org) (id_scim a) = Some x"
    using assms by (auto simp: setScimActive_def split: option.splits)
  show ?thesis
    by (rule exI [of _ x]) (cases active; insert assms; simp add: x setScimActive_def Let_def revoke_where_def; drule sym; simp)
qed

lemma set_active_keeps_to:
  assumes "set_active org i active now db = Some db'" and "distinct (map si_id (id_scim (pr_identity db)))"
  shows "keeps_to org db db' \<and> pr_users db' = pr_users db"
proof -
  obtain ident where run: "setScimActive org i active now (pr_identity db) = Some ident" and db': "db' = db\<lparr>pr_identity := ident\<rparr>"
    using assms(1) by (auto simp: set_active_def)
  obtain x where x: "find (\<lambda>x. si_id x = i \<and> si_organizationId x = org) (id_scim (pr_identity db)) = Some x"
    and tables: "id_workspaces ident = id_workspaces (pr_identity db)" "id_organizations ident = id_organizations (pr_identity db)"
    and s: "id_scim ident = map (\<lambda>y. if si_id y = si_id x then y\<lparr>si_active := active, si_version := si_version y + 1\<rparr> else y) (id_scim (pr_identity db))"
    and o': "id_orgMembers ident = map (\<lambda>m. if om_organizationId m = org \<and> om_userId m = si_userId x then m\<lparr>om_deactivatedAt := (if active then None else Some now)\<rparr> else m) (id_orgMembers (pr_identity db))"
    and m: "id_members ident = map (\<lambda>m. if wm_userId m = si_userId x \<and> wm_workspaceId m \<in> set (org_workspaces (pr_identity db) org) then m\<lparr>wm_deactivatedAt := (if active then None else Some now)\<rparr> else m) (id_members (pr_identity db))"
    and ss: "id_sessions ident = map (\<lambda>s. if \<not> active \<and> ss_userId s = si_userId x \<and> ss_workspaceId s \<in> set (org_workspaces (pr_identity db) org) \<and> ss_revokedAt s = None then s\<lparr>ss_revokedAt := Some now\<rparr> else s) (id_sessions (pr_identity db))"
    using setScimActive_fields [OF run] by (elim exE conjE) (rule that, assumption+)
  have same: "si_organizationId y = org" if "y \<in> set (id_scim (pr_identity db))" "si_id y = si_id x" for y
    using that assms(2) find_SomeD [OF x] by (auto simp: distinct_map inj_on_def)
  have "elsewhere_identity org ident = elsewhere_identity org (pr_identity db)"
    by (rule elsewhere_identityI; (rule tables | (unfold s o' m ss, rule filter_map_outside))) (use same in \<open>auto split: if_splits\<close>)
  then show ?thesis by (simp add: keeps_to_def db')
qed

lemma rename_keeps_to:
  assumes "rename_account e db = Inr db'" and "ue_current e \<in> set (id_scim (pr_identity db))" and "distinct (map si_id (id_scim (pr_identity db)))"
  shows "keeps_to (si_organizationId (ue_current e)) db db' \<and> distinct (map si_id (id_scim (pr_identity db')))"
proof -
  let ?c = "ue_current e"
  let ?rows = "map (\<lambda>i. if si_id i = si_id ?c then rename_identity e i else i) (id_scim (pr_identity db))"
  have db': "db' = db\<lparr>pr_users := map (\<lambda>u. if u_id u = si_userId ?c then u\<lparr>u_email := ue_userName e, u_name := ue_displayName e\<rparr> else u) (pr_users db),
      pr_identity := (pr_identity db)\<lparr>id_scim := ?rows\<rparr>\<rparr>"
    using assms(1) by (auto simp: rename_account_def Let_def split: if_splits)
  have same: "y = ?c" if "y \<in> set (id_scim (pr_identity db))" "si_id y = si_id ?c" for y
    using that assms(2,3) by (auto simp: distinct_map inj_on_def)
  have ids: "map si_id ?rows = map si_id (id_scim (pr_identity db))" by (simp add: rename_identity_def)
  have "filter (\<lambda>i. si_organizationId i \<noteq> si_organizationId ?c) ?rows = filter (\<lambda>i. si_organizationId i \<noteq> si_organizationId ?c) (id_scim (pr_identity db))"
    using same by (intro filter_map_outside) (auto simp: rename_identity_def)
  then have "elsewhere_identity (si_organizationId ?c) (pr_identity db') = elsewhere_identity (si_organizationId ?c) (pr_identity db)"
    by (intro elsewhere_identityI) (simp_all add: db')
  moreover have "u \<in> set (pr_users db')" if "u \<in> set (pr_users db)" "u_id u \<notin> users_of (si_organizationId ?c) (pr_identity db)" for u
    using that assms(2) by (force simp: db' users_of_def)
  ultimately have "keeps_to (si_organizationId ?c) db db'" by (simp add: keeps_to_def) (simp add: db')
  moreover have "id_scim (pr_identity db') = ?rows" by (simp add: db')
  ultimately show ?thesis using assms(3) ids by (simp only: simp_thms)
qed

lemma keeps_to_trans: "keeps_to org a b \<Longrightarrow> keeps_to org b c \<Longrightarrow> pr_users c = pr_users b \<Longrightarrow> keeps_to org a c"
  by (simp add: keeps_to_def)

lemma stamp_member_elsewhere:
  "ws \<in> A \<Longrightarrow> filter (\<lambda>m. wm_workspaceId m \<notin> A) (stamp_member ws uid stamp ms) = filter (\<lambda>m. wm_workspaceId m \<notin> A) ms"
  by (auto simp: stamp_member_def split: if_splits intro!: filter_map_outside)

lemma map_if_keeps: "x \<in> set xs \<Longrightarrow> \<not> P x \<Longrightarrow> x \<in> set (map (\<lambda>x. if P x then f x else x) xs)"
  by force

lemma keeps_to_groups: "elsewhere_groups org gs = elsewhere_groups org (pr_groups db) \<Longrightarrow> keeps_to org db (db\<lparr>pr_groups := gs\<rparr>)"
  by (simp add: keeps_to_def)

lemma keeps_to_identity:
  "elsewhere_identity org ident = elsewhere_identity org (pr_identity db) \<Longrightarrow> (\<And>u. u \<in> set (pr_users db) \<Longrightarrow> u_id u \<notin> users_of org (pr_identity db) \<Longrightarrow> u \<in> set us)
     \<Longrightarrow> keeps_to org db (db\<lparr>pr_users := us, pr_identity := ident\<rparr>)"
  by (simp add: keeps_to_def)

lemma provision_keeps_to:
  assumes "provision new now org up db = Inr (i, db')"
  shows "keeps_to org db db'"
proof -
  let ?ident = "pr_identity db" and ?stamp = "if ur_active up then None else Some now"
    and ?row = "\<lambda>uid. \<lparr>si_id = new 1, si_externalId = ur_externalId up, si_userName = ur_userName up, si_organizationId = org, si_userId = uid, si_active = ur_active up, si_version = 1\<rparr>"
  obtain w where w: "find (\<lambda>w. wk_organizationId w = Some org) (id_workspaces ?ident) = Some w"
    using assms by (auto simp: provision_def Let_def split: option.splits)
  have ws: "wk_id w \<in> set (org_workspaces ?ident org)"
    using find_SomeD [OF w] by (force simp: org_workspaces_def)
  have add: "keeps_to org db d'" if "add_identity i d = Inr (j, d')" "si_organizationId i = org" "keeps_to org db d" for i j d d'
  proof -
    have "elsewhere_identity org (pr_identity d') = elsewhere_identity org (pr_identity d)"
      by (rule elsewhere_identityI) (use that(1,2) in \<open>auto simp: add_identity_def Let_def split: if_splits\<close>)
    then show ?thesis using that(1,3) by (auto simp: add_identity_def Let_def keeps_to_def split: if_splits)
  qed
  show ?thesis
  proof (cases "find (\<lambda>u. u_email u = ur_userName up) (pr_users db)")
    case None
    have "keeps_to org db (provision_account ?stamp org (wk_id w) up (new 0) db)"
      unfolding provision_account_def Let_def by (rule keeps_to_identity, rule elsewhere_identityI) (simp_all add: ws)
    moreover have "add_identity (?row (new 0)) (provision_account ?stamp org (wk_id w) up (new 0) db) = Inr (i, db')"
      using assms unfolding provision_def Let_def w None option.case .
    ultimately show ?thesis by (rule add [of "?row (new 0)", rotated 2]) (rule scim_identity.select_convs(4))
  next
    case (Some u)
    with assms w have member: "org_membership ?ident org (u_id u) \<noteq> None" by (simp add: provision_def Let_def split: if_splits)
    have "u_id u \<in> users_of org ?ident"
    proof -
      obtain m where "find (\<lambda>m. om_organizationId m = org \<and> om_userId m = u_id u) (id_orgMembers ?ident) = Some m"
        using member by (auto simp: org_membership_def)
      from find_SomeD [OF this] show ?thesis by (auto simp: users_of_def image_iff)
    qed
    then have "keeps_to org db (provision_member ?stamp org (wk_id w) up u db)"
      unfolding provision_member_def Let_def
      by (intro keeps_to_identity elsewhere_identityI map_if_keeps) (auto simp: stamp_member_elsewhere ws split: if_splits intro!: filter_map_outside)
    moreover have "add_identity (?row (u_id u)) (provision_member ?stamp org (wk_id w) up u db) = Inr (i, db')"
      using assms unfolding provision_def Let_def w Some option.case if_not_P [OF member] .
    ultimately show ?thesis by (rule add [of "?row (u_id u)", rotated 2]) (rule scim_identity.select_convs(4))
  qed
qed

lemma user_commit_keeps_to: "keeps_to (tn_organizationId t) db (snd (user_commit new now t c db))"
  using provision_keeps_to [where org = "tn_organizationId t"]
  by (auto simp: user_commit_def split: user_creation.splits sum.splits prod.splits)

lemma update_commit_keeps_to:
  assumes "ue_current e \<in> set (id_scim (pr_identity db))" and "si_organizationId (ue_current e) = tn_organizationId t"
    and "distinct (map si_id (id_scim (pr_identity db)))"
  shows "keeps_to (tn_organizationId t) db (snd (update_commit now t e db))"
proof (cases "rename_account e db")
  case (Inr d)
  have d: "keeps_to (tn_organizationId t) db d" "distinct (map si_id (id_scim (pr_identity d)))"
    using rename_keeps_to [OF Inr assms(1,3)] assms(2) by simp_all
  have "keeps_to (tn_organizationId t) db x" if "set_active (tn_organizationId t) i b now d = Some x" for i b x
    using set_active_keeps_to [OF that d(2)] d(1) keeps_to_trans by blast
  then show ?thesis using d(1) by (auto simp: update_commit_def Inr Let_def split: option.splits)
qed (simp add: update_commit_def)

lemma replace_commit_keeps_to:
  assumes "group_in db (tn_organizationId t) i \<noteq> None" and "distinct (map ug_id (pr_groups db))"
  shows "keeps_to (tn_organizationId t) db (snd (replace_commit patch i gp t db))"
proof -
  obtain g where g: "g \<in> set (pr_groups db)" "ug_id g = i" "ug_organizationId g = tn_organizationId t"
    using assms(1) by (auto simp: group_in_def dest: find_SomeD)
  have same: "ug_organizationId x = tn_organizationId t" if "x \<in> set (pr_groups db)" "ug_id x = i" for x
    using that g assms(2) by (auto simp: distinct_map inj_on_def)
  have "keeps_to (tn_organizationId t) db (db\<lparr>pr_groups := map (\<lambda>x. if ug_id x = i then g' else x) (pr_groups db)\<rparr>)"
    if "ug_organizationId g' = tn_organizationId t" for g'
    by (rule keeps_to_groups) (use that same in \<open>auto simp: elsewhere_groups_def split: if_splits intro!: filter_map_outside\<close>)
  moreover have "ug_organizationId x = tn_organizationId t" if "find (\<lambda>g. ug_id g = i) (pr_groups db) = Some x" for x
    using same find_SomeD [OF that] by auto
  ultimately show ?thesis by (simp add: replace_commit_def Let_def split: option.splits)
qed

lemma group_commits_keep_to:
  "keeps_to (tn_organizationId t) db (snd (group_commit new t c db))"
  "keeps_to (tn_organizationId t) db (snd (group_delete_commit i t db))"
proof -
  have "keeps_to (tn_organizationId t) db (db\<lparr>pr_groups := pr_groups db @ [g]\<rparr>)" if "ug_organizationId g = tn_organizationId t" for g
    by (rule keeps_to_groups) (simp add: elsewhere_groups_def that)
  then show "keeps_to (tn_organizationId t) db (snd (group_commit new t c db))"
    by (simp add: group_commit_def Let_def split: group_creation.splits)
  have "keeps_to (tn_organizationId t) db (db\<lparr>pr_groups := filter (\<lambda>g. \<not> (ug_id g = i \<and> ug_organizationId g = tn_organizationId t)) (pr_groups db)\<rparr>)"
    by (rule keeps_to_groups) (auto simp: elsewhere_groups_def intro!: filter_cong)
  then show "keeps_to (tn_organizationId t) db (snd (group_delete_commit i t db))"
    by (simp add: group_delete_commit_def Let_def del: count_rows_0 de_Morgan_conj)
qed

lemma authenticateScim_state:
  "authenticateScim h now scope q db = (Inr t, d) \<Longrightarrow> t \<in> set (pr_tokens db) \<and> keeps_to org db d \<and> pr_users d = pr_users db \<and> pr_identity d = pr_identity db
     \<and> pr_groups d = pr_groups db"
  "authenticateScim h now scope q db = (Inl n, d) \<Longrightarrow> d = db\<lparr>pr_buckets := pr_buckets d\<rparr>"
  by (auto simp: authenticateScim_def Let_def keeps_to_def dest: find_SomeD split: prod.splits if_splits option.splits)

lemma authenticated_call_keeps_to:
  assumes auth: "authenticateScim h now (Some (scope_of call)) q db = (Inr t, d)"
    and u: "distinct (map si_id (id_scim (pr_identity d)))" "distinct (map ug_id (pr_groups d))"
  shows "keeps_to (tn_organizationId t) d (scim_writes h now q call db)"
proof (cases call)
  case (Users_Post new)
  then show ?thesis using auth user_commit_keeps_to by (auto simp: users_POST_def scim_handler_def split: sum.splits)
next
  case (User_Change patch i)
  have "keeps_to (tn_organizationId t) d (snd (update_commit now t e d))" if "update_check h patch i q t d = Inr e" for e
  proof (rule update_commit_keeps_to [OF _ _ u(1)])
    have "identity_in d (tn_organizationId t) i = Some (ue_current e)"
      using that by (auto simp: update_check_def Let_def split: option.splits if_splits)
    then show "ue_current e \<in> set (id_scim (pr_identity d))" "si_organizationId (ue_current e) = (tn_organizationId t)"
      by (auto simp: identity_in_def dest: find_SomeD)
  qed
  then show ?thesis using auth User_Change by (auto simp: user_update_def scim_handler_def split: sum.splits)
next
  case (User_Delete i)
  then show ?thesis using auth set_active_keeps_to [OF _ u(1)]
    by (auto simp: user_DELETE_def scim_handler_def user_delete_commit_def split: option.splits)
next
  case (Groups_Post new)
  then show ?thesis using auth group_commits_keep_to by (auto simp: groups_POST_def scim_handler_def split: sum.splits)
next
  case (Group_Change patch i)
  have "keeps_to (tn_organizationId t) d (snd (replace_commit patch i gp t d))" if "replace_check h patch i q t d = Inr gp" for gp
    by (rule replace_commit_keeps_to [OF _ u(2)]) (use that in \<open>auto simp: replace_check_def split: option.splits\<close>)
  then show ?thesis using auth Group_Change by (auto simp: group_replace_def scim_handler_def split: sum.splits)
next
  case (Group_Delete i)
  then show ?thesis using auth group_commits_keep_to by (auto simp: group_DELETE_def scim_handler_def)
qed

text \<open>
  C37: A writing call changes nothing but rows of the organization whose token it presents and the accounts of its
  users; a call that is not authenticated changes nothing but its rate limit.
\<close>

theorem scim_calls_stay_in_organization:
  assumes "scim_ids_unique db"
  shows "case authenticateScim h now (Some (scope_of call)) q db of
      (Inl n, _) \<Rightarrow> scim_writes h now q call db = db\<lparr>pr_buckets := pr_buckets (scim_writes h now q call db)\<rparr>
    | (Inr t, _) \<Rightarrow> t \<in> set (pr_tokens db) \<and> keeps_to (tn_organizationId t) db (scim_writes h now q call db)"
proof -
  obtain r d where a: "authenticateScim h now (Some (scope_of call)) q db = (r, d)" by fastforce
  show ?thesis
  proof (cases r)
    case (Inl n)
    have "scim_writes h now q call db = d"
      using a Inl by (cases call) (simp_all add: users_POST_def user_update_def user_DELETE_def groups_POST_def group_replace_def group_DELETE_def scim_handler_def)
    then show ?thesis using a Inl authenticateScim_state(2) [OF a [unfolded Inl]] by simp
  next
    case (Inr t)
    let ?org = "tn_organizationId t"
    note auth = a [unfolded Inr] and state = authenticateScim_state(1) [OF a [unfolded Inr], of ?org]
    have u: "distinct (map si_id (id_scim (pr_identity d)))" "distinct (map ug_id (pr_groups d))"
      using assms state by (simp_all add: scim_ids_unique_def)
    have "keeps_to ?org d (scim_writes h now q call db)" by (rule authenticated_call_keeps_to [OF auth u])
    then show ?thesis using auth state by (auto simp: keeps_to_def)
  qed
qed

section \<open>A token is good for what it was made for\<close>

lemma secret_prefix_created:
  assumes "length random = 12" "list_all is_hex random" "20 \<le> length tail" "list_all is_base64url tail"
  shows "secret_prefix (''scim_'' @ random @ ''.'' @ tail) = Some random"
proof -
  have "drop 17 (''scim_'' @ random @ ''.'' @ tail) = ''.'' @ tail" using assms(1) by (simp add: eval_nat_numeral)
  then show ?thesis using assms by (simp add: secret_prefix_def Let_def starts_with_def)
qed

lemma token_created:
  assumes "scim_tokens_POST sha parse_date new random tail now context body db = Inr (secret, db')" and "token_admin context db = Inr (cx, org)"
  shows "\<exists>t. pr_tokens db' = pr_tokens db @ [t] \<and> tn_id t = new \<and> tn_prefix t = random \<and> tn_secretHash t = sha secret \<and> tn_organizationId t = org
      \<and> tn_revokedAt t = None \<and> secret = ''scim_'' @ random @ ''.'' @ tail \<and> random \<notin> tn_prefix ` set (pr_tokens db)
      \<and> pr_identity db' = pr_identity db \<and> pr_buckets db' = pr_buckets db"
  using assms by (auto simp: scim_tokens_POST_def createScimSecret_def token_audit_def Let_def list_ex_iff split: if_splits)

definition expired :: "time \<Rightarrow> scim_token \<Rightarrow> bool" where
  "expired now t \<longleftrightarrow> (case tn_expiresAt t of None \<Rightarrow> False | Some e \<Rightarrow> e \<le> now)"

lemma authenticate_found:
  assumes "rv_allowed (fst (consumeRateLimit (ho_sha h) (''scim:'' @ hq_organization q @ '':'' @ hq_client q) (ho_limit h) 60 now (pr_buckets db)))"
    and "secret_prefix (bearer (hq_authorization q)) = Some p" and "find (\<lambda>t. tn_prefix t = p) (pr_tokens db) = Some t"
  shows "fst (authenticateScim h now (Some scope) q db)
    = (if \<not> token_accepts h now (pr_identity db) (hq_organization q) (bearer (hq_authorization q)) t then Inl 401 else if scope \<in> set (tn_scopes t) then Inr t else Inl 403)"
proof -
  obtain v b where "consumeRateLimit (ho_sha h) (''scim:'' @ hq_organization q @ '':'' @ hq_client q) (ho_limit h) 60 now (pr_buckets db) = (v, b)" by fastforce
  with assms show ?thesis by (simp add: authenticateScim_def Let_def)
qed

text \<open>
  The secret of a new token authenticates, for the organization of its administrator and each scope it was made
  with, until it expires, and never after it was revoked.
\<close>

theorem scim_token_round_trip:
  assumes "scim_tokens_POST (ho_sha h) parse_date new random tail now context body db = Inr (secret, db')" and "token_admin context db = Inr (cx, org)"
    and "length random = 12" "list_all is_hex random" "20 \<le> length tail" "list_all is_base64url tail"
    and "find (\<lambda>o'. og_id o' = org) (id_organizations (pr_identity db)) = Some g" and "hq_organization q \<in> {org, og_slug g}"
    and "hq_authorization q = ''Bearer '' @ secret"
    and "rv_allowed (fst (consumeRateLimit (ho_sha h) (''scim:'' @ hq_organization q @ '':'' @ hq_client q) (ho_limit h) 60 later (pr_buckets db)))"
  shows "(let t = last (pr_tokens db') in fst (authenticateScim h later (Some scope) q db')
        = (if expired later t then Inl 401 else if scope \<in> set (tn_scopes t) then Inr t else Inl 403))
    \<and> (scim_token_DELETE revoked other new db' = Inr db'' \<longrightarrow> fst (authenticateScim h later (Some scope) q db'') = Inl 401)"
proof -
  obtain t where t: "pr_tokens db' = pr_tokens db @ [t]" "tn_id t = new" "tn_prefix t = random" "tn_secretHash t = ho_sha h secret" "tn_organizationId t = org"
      "tn_revokedAt t = None" "secret = ''scim_'' @ random @ ''.'' @ tail" "random \<notin> tn_prefix ` set (pr_tokens db)"
      "pr_identity db' = pr_identity db" "pr_buckets db' = pr_buckets db"
    using token_created [OF assms(1,2)] by blast
  have sec: "secret_prefix (bearer (hq_authorization q)) = Some random" "bearer (hq_authorization q) = secret"
    using secret_prefix_created [OF assms(3-6)] by (simp_all add: assms(9) bearer_def starts_with_def t(7))
  have g: "og_id g = org" using find_SomeD [OF assms(7)] by simp
  have found: "find (\<lambda>x. tn_prefix x = random) (map f (pr_tokens db) @ [f t]) = Some (f t)" if "\<And>x. tn_prefix (f x) = tn_prefix x" for f
  proof -
    have "find (\<lambda>x. tn_prefix x = random) (map f (pr_tokens db)) = None" using t(8) that by (force simp: find_None_iff)
    then show ?thesis using t(3) that by (simp add: find_append)
  qed
  have "token_accepts h later (pr_identity db') (hq_organization q) secret t \<longleftrightarrow> \<not> expired later t"
    using assms(7,8) g t by (auto simp: token_accepts_def names_organization_def expired_def)
  moreover have "find (\<lambda>x. tn_prefix x = random) (pr_tokens db') = Some t" using found [of "\<lambda>x. x"] t(1) by simp
  ultimately have "let t = last (pr_tokens db') in fst (authenticateScim h later (Some scope) q db')
        = (if expired later t then Inl 401 else if scope \<in> set (tn_scopes t) then Inr t else Inl 403)"
    using authenticate_found [of h q later db' random t scope] assms(10) sec t(1,10) by simp
  moreover have "fst (authenticateScim h later (Some scope) q db'') = Inl 401" if d: "scim_token_DELETE revoked other new db' = Inr db''"
  proof -
    let ?f = "\<lambda>x. if tn_id x = new then x\<lparr>tn_revokedAt := Some revoked\<rparr> else x"
    have rows: "pr_tokens db'' = map ?f (pr_tokens db) @ [?f t]" "pr_buckets db'' = pr_buckets db"
      using d t(1,10) by (auto simp: scim_token_DELETE_def bind_result_eq_Inr token_audit_def split: option.splits)
    have "find (\<lambda>x. tn_prefix x = random) (pr_tokens db'') = Some (?f t)" unfolding rows by (rule found) simp
    moreover have "\<not> token_accepts h later ident name s (?f t)" for ident name s using t(2) by (simp add: token_accepts_def)
    ultimately show ?thesis using authenticate_found [of h q later db'' random "?f t" scope] assms(10) sec rows(2) by simp
  qed
  ultimately show ?thesis by blast
qed

section \<open>Changes of a group are operations on sets\<close>

text \<open>
  What an operation of a PATCH asks of the members, after RFC 7644: adding makes a union, removing a difference, of the
  members listed or of the one a filter selects; removing without a list empties the group, and replacing installs the list.
\<close>

definition op_of :: "(js \<Rightarrow> string) \<Rightarrow> jobj \<Rightarrow> string" where
  "op_of show_js item = to_lower (js_text show_js (nullish (field ''op'' item) (JStr [])))"

definition path_of :: "(js \<Rightarrow> string) \<Rightarrow> jobj \<Rightarrow> string" where
  "path_of show_js item = js_text show_js (nullish (field ''path'' item) (JStr []))"

definition apply_edit :: "(js \<Rightarrow> string) \<Rightarrow> js \<Rightarrow> string set \<Rightarrow> string set" where
  "apply_edit show_js raw A =
     (case as_object raw of None \<Rightarrow> A | Some item \<Rightarrow>
        if path_of show_js item = ''members'' then
          (case as_array (field ''value'' item) of
             Some xs \<Rightarrow> (let named = set (member_values show_js xs) in
               if op_of show_js item = ''add'' then A \<union> named else if op_of show_js item = ''remove'' then A - named
               else if op_of show_js item = ''replace'' then named else A)
           | None \<Rightarrow> if op_of show_js item = ''remove'' then {} else A)
        else (case member_filter (path_of show_js item) of
                Some m \<Rightarrow> if op_of show_js item = ''remove'' then A - {m} else A
              | None \<Rightarrow> A))"

text \<open>Operations on the whole attribute that list members to add or to remove.\<close>

definition lists_members :: "(js \<Rightarrow> string) \<Rightarrow> js \<Rightarrow> bool" where
  "lists_members show_js raw \<longleftrightarrow>
     (case as_object raw of None \<Rightarrow> True | Some item \<Rightarrow>
        path_of show_js item \<noteq> ''members'' \<or> as_array (field ''value'' item) \<noteq> None \<and> op_of show_js item \<in> {''add'', ''remove''})"

lemma no_member_filter: "member_filter ''displayName'' = None" "member_filter ''externalId'' = None" "member_filter ''members'' = None"
  by (simp_all add: member_filter_def starts_with_def Let_def)

lemma group_operation_set:
  assumes "lists_members show_js raw"
  shows "set (gp_members (group_operation show_js raw gp)) = apply_edit show_js raw (set (gp_members gp))"
proof (cases "as_object raw")
  case None
  then show ?thesis by (simp add: group_operation_def apply_edit_def)
next
  case (Some item)
  then show ?thesis
    using assms by (auto simp: group_operation_def apply_edit_def lists_members_def no_member_filter Let_def simp flip: op_of_def path_of_def split: option.splits)
qed

lemma group_operations_set:
  "list_all (lists_members show_js) ops \<Longrightarrow> set (gp_members (fold (group_operation show_js) ops gp)) = fold (apply_edit show_js) ops (set (gp_members gp))"
  by (induction ops arbitrary: gp) (simp_all add: group_operation_set)

lemma active_in_set: "set (active_in org ids db) \<subseteq> set ids" "distinct (map si_id (id_scim (pr_identity db))) \<Longrightarrow> distinct (active_in org ids db)"
  by (auto simp: active_in_def distinct_map_filter)


text \<open>
  So one deactivated member blocks a group: as long as the operations leave that member in, a PATCH is refused, even one
  that changes the name only.
\<close>

lemma deactivated_member_blocks_group:
  assumes "group_in db (tn_organizationId t) i = Some g" and "hq_body q = Some body" and "list_all (lists_members (ho_text h)) (operations_of body)" and "distinct (map si_id (id_scim (pr_identity db)))"
    and "m \<in> fold (apply_edit (ho_text h)) (operations_of body) (set (ug_members g))"
    and "\<forall>x\<in>set (id_scim (pr_identity db)). si_id x = m \<longrightarrow> \<not> si_active x"
  shows "replace_check h True i q t db \<noteq> Inr gp"
proof
  assume r: "replace_check h True i q t db = Inr gp"
  let ?w = "wanted_group (ho_text h) True g body"
  have gp: "length (active_in (tn_organizationId t) (gp_members ?w) db) = length (gp_members ?w)"
    using assms(1,2) r by (auto simp: replace_check_def Let_def split: if_splits)
  have "m \<in> set (gp_members ?w)" using assms(5) by (simp add: wanted_group_def group_operations_set [OF assms(3)])
  moreover have "m \<notin> set (active_in (tn_organizationId t) (gp_members ?w) db)" using assms(6) by (auto simp: active_in_def)
  ultimately have "set (active_in (tn_organizationId t) (gp_members ?w) db) \<subset> set (gp_members ?w)" using active_in_set(1) by blast
  then have "card (set (active_in (tn_organizationId t) (gp_members ?w) db)) < card (set (gp_members ?w))" by (intro psubset_card_mono) simp_all
  then show False
    using gp distinct_card [OF active_in_set(2) [OF assms(4)]] card_length [of "gp_members ?w"] by (metis not_le)
qed

text \<open>A page of size zero is a page of size one hundred.\<close>

lemma page_size_zero: "sp_count (scimPage (q\<lparr>hq_count := Some ''0''\<rparr>)) = 100"
  by (simp add: scimPage_def positive_or_def parse_int_def trim_start_def is_space_def is_digit_def int_of_digits_def)

text \<open>And a PATCH that replaces the members adds to them: the code keeps whom the operation should have taken out.\<close>

lemma replacing_members_adds:
  assumes "raw = JObj [(''op'', JStr ''replace''), (''path'', JStr ''members''), (''value'', JArr xs)]"
  shows "set (gp_members (group_operation show_js raw gp)) = set (gp_members gp) \<union> set (member_values show_js xs)"
    and "apply_edit show_js raw (set (gp_members gp)) = set (member_values show_js xs)"
  unfolding assms
  by (simp_all add: group_operation_def apply_edit_def op_of_def path_of_def field_def js_text_def nullish_def to_lower_def ascii_simps Let_def)

section \<open>Taking over an account\<close>

lemma update_check_ok:
  assumes "update_check h patch i q t d = Inr e"
  shows "\<exists>cur body. identity_in d (tn_organizationId t) i = Some cur \<and> hq_body q = Some body \<and> ue_current e = cur
    \<and> Some (ue_userName e) = (if field ''userName'' (update_values (ho_text h) patch body) = JUndef then Some (si_userName cur)
        else normalizeScimEmail (field ''userName'' (update_values (ho_text h) patch body)))"
proof -
  obtain cur where cur: "identity_in d (tn_organizationId t) i = Some cur"
    using assms by (cases "identity_in d (tn_organizationId t) i") (simp_all add: update_check_def)
  obtain body where body: "hq_body q = Some body"
    using assms by (cases "hq_body q") (simp_all add: update_check_def cur split: if_splits)
  let ?name = "if field ''userName'' (update_values (ho_text h) patch body) = JUndef then Some (si_userName cur)
        else normalizeScimEmail (field ''userName'' (update_values (ho_text h) patch body))"
  obtain name where name: "?name = Some name"
    using assms unfolding update_check_def cur body Let_def option.case by (cases ?name) (simp_all split: if_splits)
  have "ue_current e = cur \<and> ue_userName e = name"
    using assms unfolding update_check_def cur body Let_def option.case name by (simp only: handler_simps) (elim conjE, drule sym, simp only: user_edit.simps simp_thms)
  then show ?thesis using cur body name by (intro exI [of _ cur] exI [of _ body]) (simp only: simp_thms)
qed

lemma user_update_ok:
  assumes "user_update h now patch i q db = (Inr view, db')"
  shows "\<exists>t d e cur body d1. authenticateScim h now (Some ''users:write'') q db = (Inr t, d) \<and> update_check h patch i q t d = Inr e
    \<and> identity_in d (tn_organizationId t) i = Some cur \<and> ue_current e = cur \<and> hq_body q = Some body
    \<and> Some (ue_userName e) = (if field ''userName'' (update_values (ho_text h) patch body) = JUndef then Some (si_userName cur)
        else normalizeScimEmail (field ''userName'' (update_values (ho_text h) patch body)))
    \<and> rename_account e d = Inr d1 \<and> pr_users db' = pr_users d1"
proof -
  obtain t d where a: "authenticateScim h now (Some ''users:write'') q db = (Inr t, d)"
    using assms by (auto simp: user_update_def scim_handler_def split: prod.splits sum.splits)
  obtain e where c: "update_check h patch i q t d = Inr e" and m: "update_commit now t e d = (Inr view, db')"
    using assms a by (auto simp: user_update_def scim_handler_def split: sum.splits)
  obtain d1 where r: "rename_account e d = Inr d1" using m by (cases "rename_account e d") (simp_all add: update_commit_def)
  have log: "pr_users (scimLog t a k j n c x s) = pr_users s" for a k j n c x s by (simp add: scimLog_def)
  have active: "pr_users x = pr_users d1" if "set_active o' j b now d1 = Some x" for o' j b x using that by (auto simp: set_active_def)
  have "pr_users db' = pr_users d1"
    using m active by (auto simp: update_commit_def r Let_def log split: if_splits option.splits)
  then show ?thesis using a c r update_check_ok [OF c] by blast
qed

text \<open>
  C39: The identity provider of one organization can give an account a new e-mail address although the account belongs to other
  organizations too. A reset asked for with that address makes a link for the account and mails it there, so who controls
  the provider can set the password of a member of any other organization the account belongs to.
\<close>

theorem scim_rename_takes_over_account:
  assumes "user_update h now patch i q db = (Inr view, db')" and "hq_body q = Some body"
    and "field ''userName'' (update_values (ho_text h) patch body) = JStr address"
    and "authenticateScim h now (Some ''users:write'') q db = (Inr t, d)" and "identity_in db (tn_organizationId t) i = Some cur"
    and "u \<in> set (pr_users db)" and "u_id u = si_userId cur" and "distinct (map u_id (pr_users db))"
    and "rw_users resets = pr_users db'"
  shows "let later = snd (password_reset_request app_url sha production new token when [(''email'', JStr address)] resets) in
      rz_userId (last (rw_rows later)) = u_id u \<and> rz_tokenHash (last (rw_rows later)) = sha token \<and> rz_usedAt (last (rw_rows later)) = None
    \<and> rw_outbox later = enqueueEmail app_url (reset_email new token (the (find (\<lambda>x. u_id x = u_id u) (pr_users db')))) (rw_outbox resets)
    \<and> u_email (the (find (\<lambda>x. u_id x = u_id u) (pr_users db'))) = to_lower (trim address)"
proof -
  have same: "pr_users d = pr_users db" "pr_identity d = pr_identity db" using authenticateScim_state(1) [OF assms(4)] by simp_all
  obtain e d1 where e: "ue_current e = cur" and rename: "rename_account e d = Inr d1" and users: "pr_users db' = pr_users d1"
    and name: "Some (ue_userName e) = normalizeScimEmail (JStr address)"
    using user_update_ok [OF assms(1)] assms(2-5) same by (auto simp: identity_in_def)
  let ?f = "\<lambda>u. if u_id u = si_userId cur then u\<lparr>u_email := ue_userName e, u_name := ue_displayName e\<rparr> else u"
  have rows: "pr_users db' = map ?f (pr_users db)" and free: "\<forall>x\<in>set (pr_users db). u_id x \<noteq> si_userId cur \<longrightarrow> u_email x \<noteq> ue_userName e"
    using rename users same by (auto simp: rename_account_def Let_def e list_ex_iff split: if_splits)
  have address: "ue_userName e = to_lower (trim address)" "ue_userName e \<noteq> []"
    using name by (auto simp: normalizeScimEmail_def string_or_empty_def Let_def is_email_def split: if_splits)
  have unique: "distinct (map u_id (pr_users db'))" using assms(8) by (simp add: rows comp_def if_distrib cong: if_cong)
  have new: "?f u \<in> set (pr_users db')" using assms(6) unfolding rows by (auto intro!: image_eqI [of _ _ u])
  have found: "find (\<lambda>x. u_id x = u_id u) (pr_users db') = Some (?f u)"
    using find_unique [OF unique new] assms(7) by simp
  have "find (\<lambda>x. u_email x = ue_userName e) (pr_users db') = Some (?f u)"
  proof -
    have same: "x = ?f u" if "x \<in> set (pr_users db')" "u_email x = ue_userName e" for x
    proof -
      have "u_id x = u_id (?f u)" using that free assms(7) by (auto simp: rows split: if_splits)
      then show ?thesis using unique that(1) new by (simp only: distinct_map inj_on_def)
    qed
    have "u_email (?f u) = ue_userName e" using assms(7) by simp
    then obtain x where x: "find (\<lambda>x. u_email x = ue_userName e) (pr_users db') = Some x"
      using new by (cases "find (\<lambda>x. u_email x = ue_userName e) (pr_users db')") (auto simp only: find_None_iff option.simps)
    have "x = ?f u" by (rule same) (use find_SomeD [OF x] in simp_all)
    from x [unfolded this] show ?thesis .
  qed
  then show ?thesis
    using address found assms(7,9) by (simp add: password_reset_request_def Let_def field_def string_or_empty_def)
qed

section \<open>Witnesses\<close>

definition sample_host :: scim_host where
  "sample_host = \<lparr>ho_sha = id, ho_unhex = id, ho_text = (\<lambda>_. []), ho_collate = id, ho_limit = 10\<rparr>"

definition sample_secret :: string where
  "sample_secret = ''scim_abcdef012345.xxxxxxxxxxxxxxxxxxxx''"

definition sample_directory :: scim_db where
  "sample_directory =
     \<lparr>pr_buckets = Map.empty,
      pr_tokens = [\<lparr>tn_id = ''k'', tn_organizationId = ''o'', tn_createdById = ''amy'', tn_name = ''idp'', tn_prefix = ''abcdef012345'', tn_secretHash = sample_secret,
        tn_scopes = SCIM_SCOPES, tn_expiresAt = None, tn_lastUsedAt = None, tn_revokedAt = None\<rparr>],
      pr_identity = \<lparr>id_sessions = [], id_members = [\<lparr>wm_workspaceId = ''v'', wm_userId = ''bob'', wm_role = WOwner, wm_deactivatedAt = None\<rparr>],
        id_workspaces = [\<lparr>wk_id = ''w'', wk_organizationId = Some ''o''\<rparr>, \<lparr>wk_id = ''v'', wk_organizationId = None\<rparr>],
        id_organizations = [\<lparr>og_id = ''o'', og_slug = ''org'', og_enforceSso = False, og_allowLocalLogin = True, og_sessionLifetimeMinutes = 60\<rparr>],
        id_orgMembers = [\<lparr>om_organizationId = ''o'', om_userId = ''amy'', om_role = Org_Admin, om_breakGlass = False, om_recoveryConfirmedAt = None, om_deactivatedAt = None\<rparr>,
          \<lparr>om_organizationId = ''o'', om_userId = ''bob'', om_role = Org_Member, om_breakGlass = False, om_recoveryConfirmedAt = None, om_deactivatedAt = None\<rparr>],
        id_scim = [\<lparr>si_id = ''i'', si_externalId = None, si_userName = ''bob@b.c'', si_organizationId = ''o'', si_userId = ''bob'', si_active = True, si_version = 1\<rparr>]\<rparr>,
      pr_users = [\<lparr>u_id = ''amy'', u_email = ''amy@b.c'', u_name = ''Amy'', u_passwordHash = None\<rparr>, \<lparr>u_id = ''bob'', u_email = ''bob@b.c'', u_name = ''Bob'', u_passwordHash = None\<rparr>],
      pr_groups = [\<lparr>ug_id = ''g'', ug_organizationId = ''o'', ug_externalId = None, ug_displayName = ''Team'', ug_version = 1, ug_members = []\<rparr>], pr_log = [], pr_audit = []\<rparr>"

definition scim_sample :: "string \<Rightarrow> jobj \<Rightarrow> scim_request" where
  "scim_sample secret operation = \<lparr>hq_organization = ''org'', hq_client = ''c'', hq_authorization = ''Bearer '' @ secret, hq_ifMatch = None, hq_filter = None,
     hq_startIndex = None, hq_count = None, hq_body = Some [(''Operations'', JArr [JObj operation])]\<rparr>"

definition rename_request :: scim_request where
  "rename_request = scim_sample sample_secret [(''op'', JStr ''replace''), (''path'', JStr ''userName''), (''value'', JStr ''eve@x.y'')]"

definition join_request :: scim_request where
  "join_request = scim_sample sample_secret [(''op'', JStr ''add''), (''path'', JStr ''members''), (''value'', JArr [JObj [(''value'', JStr ''i'')]])]"

lemma sample_ids: "scim_ids_unique sample_directory" "distinct (map si_id (id_scim (pr_identity sample_directory)))" "distinct (map u_id (pr_users sample_directory))"
  by (simp_all add: scim_ids_unique_def sample_directory_def)

definition sample_auth :: "(nat, scim_token) result \<times> scim_db" where
  "sample_auth = authenticateScim sample_host 5 (Some ''users:write'') rename_request sample_directory"

lemma sample_auth_ok: "fst sample_auth = Inr ((hd (pr_tokens sample_directory)))"
  by code_simp

theorem scim_calls_stay_in_organization_witness:
  "keeps_to ''o'' sample_directory (scim_writes sample_host 5 rename_request (User_Change True ''i'') sample_directory)"
proof -
  have "authenticateScim sample_host 5 (Some (scope_of (User_Change True ''i''))) rename_request sample_directory = (Inr (hd (pr_tokens sample_directory)), snd sample_auth)"
    using sample_auth_ok by (simp add: prod_eq_iff flip: sample_auth_def)
  then show ?thesis
    using scim_calls_stay_in_organization [OF sample_ids(1), where h = sample_host and now = 5 and call = "User_Change True ''i''" and q = rename_request] by (simp add: sample_directory_def)
qed

definition token_body :: jobj where
  "token_body = [(''name'', JStr ''new''), (''scopes'', JArr [JStr ''users:read''])]"

definition token_run :: "(nat, string \<times> scim_db) result" where
  "token_run = scim_tokens_POST id (\<lambda>_. None) ''n'' ''0123456789ab'' ''yyyyyyyyyyyyyyyyyyyy'' 3
     (Some \<lparr>cx_userId = ''amy'', cx_workspaceId = ''w'', cx_role = WMember\<rparr>) token_body sample_directory"

definition made :: "string \<times> scim_db" where
  "made = outcome token_run ([], sample_directory)"

lemma token_run_ok: "isl token_run = False" "fst made = ''scim_0123456789ab.yyyyyyyyyyyyyyyyyyyy''" "''users:read'' \<in> set (tn_scopes (last (pr_tokens (snd made))))"
    "expired 9 (last (pr_tokens (snd made))) = False"
    "rv_allowed (fst (consumeRateLimit id ''scim:org:c'' 10 60 9 (pr_buckets sample_directory)))"
    "isl (token_admin (Some \<lparr>cx_userId = ''amy'', cx_workspaceId = ''w'', cx_role = WMember\<rparr>) sample_directory) = False"
  by code_simp+

theorem scim_token_round_trip_witness:
  "fst (authenticateScim sample_host 9 (Some ''users:read'') (scim_sample (fst made) []) (snd made)) = Inr (last (pr_tokens (snd made)))"
proof -
  let ?cx = "\<lparr>cx_userId = ''amy'', cx_workspaceId = ''w'', cx_role = WMember\<rparr>"
  have run: "scim_tokens_POST (ho_sha sample_host) (\<lambda>_. None) ''n'' ''0123456789ab'' ''yyyyyyyyyyyyyyyyyyyy'' 3 (Some ?cx) token_body sample_directory = Inr (fst made, snd made)"
    using outcome [OF token_run_ok(1), of "([], sample_directory)"] by (simp add: made_def sample_host_def flip: token_run_def)
  have admin: "token_admin (Some ?cx) sample_directory = Inr (?cx, ''o'')"
    by (simp add: token_admin_def organizationAdmin_def org_membership_def sample_directory_def)
  have g: "find (\<lambda>o'. og_id o' = ''o'') (id_organizations (pr_identity sample_directory)) = Some (hd (id_organizations (pr_identity sample_directory)))"
    by (simp add: sample_directory_def)
  have "let t = last (pr_tokens (snd made)) in fst (authenticateScim sample_host 9 (Some ''users:read'') (scim_sample (fst made) []) (snd made))
        = (if expired 9 t then Inl 401 else if ''users:read'' \<in> set (tn_scopes t) then Inr t else Inl 403)"
    by (rule scim_token_round_trip [OF run admin _ _ _ _ g, THEN conjunct1])
      (use token_run_ok(2,5) in \<open>simp_all add: is_hex_def is_base64url_def is_alnum_def is_digit_def is_lower_def sample_directory_def scim_sample_def sample_host_def\<close>)
  then show ?thesis using token_run_ok(3,4) by (simp add: Let_def)
qed

definition join_plan :: "(nat, group_plan) result" where
  "join_plan = replace_check sample_host True ''g'' join_request (hd (pr_tokens sample_directory)) sample_directory"

definition joined :: "(nat, scim_group) result \<times> scim_db" where
  "joined = replace_commit True ''g'' (outcome join_plan \<lparr>gp_displayName = [], gp_externalId = None, gp_members = []\<rparr>) (hd (pr_tokens sample_directory)) sample_directory"

definition other_group :: scim_group where
  "other_group = \<lparr>sv_id = [], sv_externalId = None, sv_displayName = [], sv_members = [], sv_version = []\<rparr>"

lemma join_runs: "isl join_plan = False" "isl (fst joined) = False" "ug_id (hd (pr_groups (snd joined))) = ''g''" "pr_groups (snd joined) = [hd (pr_groups (snd joined))]"
  by code_simp+


definition renamed :: "(nat, scim_user) result \<times> scim_db" where
  "renamed = user_update sample_host 5 True ''i'' rename_request sample_directory"

definition other_user :: scim_user where
  "other_user = \<lparr>su_id = [], su_externalId = None, su_userName = [], su_active = False, su_displayName = [], su_email = [], su_version = []\<rparr>"

lemma renamed_ok: "isl (fst renamed) = False"
  by code_simp

theorem scim_rename_takes_over_account_witness:
  "rz_userId (last (rw_rows (snd (password_reset_request None id True ''n'' ''t'' 6 [(''email'', JStr ''eve@x.y'')] (sample_resets\<lparr>rw_users := pr_users (snd renamed)\<rparr>))))) = ''bob''
   \<and> list_ex (\<lambda>m. wm_workspaceId m = ''v'' \<and> wm_userId m = ''bob'' \<and> wm_role m = WOwner) (id_members (pr_identity sample_directory))
   \<and> ''v'' \<notin> set (org_workspaces (pr_identity sample_directory) ''o'')"
proof -
  let ?t = "hd (pr_tokens sample_directory)" and ?u = "pr_users sample_directory ! 1" and ?i = "hd (id_scim (pr_identity sample_directory))"
  have run: "user_update sample_host 5 True ''i'' rename_request sample_directory = (Inr (outcome (fst renamed) other_user), snd renamed)"
    unfolding renamed_def [symmetric] using outcome [OF renamed_ok, of other_user] by (simp add: prod_eq_iff)
  have auth: "authenticateScim sample_host 5 (Some ''users:write'') rename_request sample_directory = (Inr ?t, snd sample_auth)"
    using sample_auth_ok by (simp add: prod_eq_iff flip: sample_auth_def)
  have body: "hq_body rename_request = Some (the (hq_body rename_request))" by (simp add: rename_request_def scim_sample_def)
  have name: "field ''userName'' (update_values (ho_text sample_host) True (the (hq_body rename_request))) = JStr ''eve@x.y''"
    by (simp add: rename_request_def scim_sample_def update_values_def operations_of_def user_operation_def field_def js_text_def nullish_def to_lower_def ascii_simps Let_def)
  have i: "identity_in sample_directory (tn_organizationId ?t) ''i'' = Some ?i" by (simp add: identity_in_def sample_directory_def)
  have u: "?u \<in> set (pr_users sample_directory)" "u_id ?u = si_userId ?i" "u_id ?u = ''bob''" by (simp_all add: sample_directory_def)
  have "rz_userId (last (rw_rows (snd (password_reset_request None id True ''n'' ''t'' 6 [(''email'', JStr ''eve@x.y'')] (sample_resets\<lparr>rw_users := pr_users (snd renamed)\<rparr>))))) = ''bob''"
    using scim_rename_takes_over_account [OF run body name auth i u(1,2) sample_ids(3), of "sample_resets\<lparr>rw_users := pr_users (snd renamed)\<rparr>" None id True "''n''" "''t''" 6] u(3)
    by (simp add: Let_def)
  then show ?thesis by (simp add: sample_directory_def org_workspaces_def)
qed

end
