(* ===== verification/ServiceQueues.thy ===== *)
theory ServiceQueues
  imports ServiceDesk
begin

text \<open>
  Agent queues (\<open>src/lib/service-queues.ts\<close> and the routes below \<open>api/projects/[key]/queues\<close>): saved
  filters over the requests of a service project, snapshots of their rows, and bulk actions on the rows
  of a snapshot. A refusal is the HTTP status of its \<open>QueueError\<close>; every other throw ends as 400
  (\<open>src/lib/queue-http.ts\<close>). A transaction that throws leaves the database as it was.
\<close>

section \<open>Queue definitions\<close>

definition QUEUE_COLUMNS :: "string list" where
  "QUEUE_COLUMNS = [''summary'', ''status'', ''priority'', ''assignee'', ''requestType'', ''organization'', ''createdAt'', ''updatedAt'',
     ''slaState'', ''slaGoal'', ''slaRemaining'', ''customerResponse'']"

definition FILTERS :: "string list" where
  "FILTERS = [''status'', ''requestType'', ''priority'', ''assignee'', ''organization'', ''label'', ''slaState'', ''from'', ''to'']"

definition SLA_STATES :: "string list" where
  "SLA_STATES = [''NONE'', ''RUNNING'', ''PAUSED'', ''AT_RISK'', ''BREACHED'', ''MET'']"

record queue_definition =
  qd_filters :: "(string \<times> string) list"
  qd_columns :: "string list"
  qd_grouping :: string
  qd_sort :: string
  qd_direction :: js   \<comment> \<open>stored as it was given\<close>

text \<open>The filters that are not empty; a wrong one is refused.\<close>

definition filter_entry :: "string \<times> js \<Rightarrow> (string \<times> string) option" where
  "filter_entry e = (case snd e of JStr s \<Rightarrow> if fst e \<in> set FILTERS \<and> length s \<le> 100 then Some (fst e, s) else None | _ \<Rightarrow> None)"

definition date_ok :: "string option \<Rightarrow> bool" where
  "date_ok v \<longleftrightarrow> (case v of None \<Rightarrow> True | Some s \<Rightarrow> is_date (JStr s))"

definition parse_filters :: "js \<Rightarrow> (nat, (string \<times> string) list) result" where
  "parse_filters v =
     (case as_object v of
        None \<Rightarrow> Inl 400
      | Some o' \<Rightarrow>
          if list_ex (\<lambda>e. filter_entry e = None) o' then Inl 400
          else (let fs = filter (\<lambda>(_, s). s \<noteq> []) (List.map_filter filter_entry o'); get = map_of fs in
            if (case get ''priority'' of None \<Rightarrow> False | Some p \<Rightarrow> p \<notin> set priority_names)
              \<or> (case get ''slaState'' of None \<Rightarrow> False | Some s \<Rightarrow> s \<notin> set SLA_STATES) then Inl 400
            else if \<not> date_ok (get ''from'') \<or> \<not> date_ok (get ''to'') then Inl 400
            else if (case (get ''from'', get ''to'') of (Some a, Some b) \<Rightarrow> b < a | _ \<Rightarrow> False) then Inl 400
            else Inr fs))"

definition parse_columns :: "js \<Rightarrow> (nat, string list) result" where
  "parse_columns v =
     (case as_array v of
        None \<Rightarrow> Inl 400
      | Some vs \<Rightarrow>
          if vs = [] \<or> length QUEUE_COLUMNS < length vs \<or> \<not> all_strings vs \<or> \<not> distinct (strings_of vs)
             \<or> \<not> set (strings_of vs) \<subseteq> set QUEUE_COLUMNS then Inl 400
          else Inr (strings_of vs))"

definition default_columns :: js where
  "default_columns = JArr (map JStr [''summary'', ''status'', ''priority'', ''assignee'', ''slaState''])"

definition parseQueueDefinition :: "(js \<Rightarrow> string) \<Rightarrow> js \<Rightarrow> (nat, queue_definition) result" where
  "parseQueueDefinition show_js value =
     (case as_object value of
        None \<Rightarrow> Inl 400
      | Some o' \<Rightarrow>
          if list_ex (\<lambda>k. k \<notin> {''filters'', ''columns'', ''grouping'', ''sort'', ''direction''}) (keys_of o') then Inl 400
          else bind_result (parse_filters (nullish (field ''filters'' o') (JObj []))) (\<lambda>fs.
               bind_result (parse_columns (nullish (field ''columns'' o') default_columns)) (\<lambda>cols.
                 (let text = js_text show_js; grouping = text (nullish (field ''grouping'' o') (JStr ''none''));
                      sort_by = text (nullish (field ''sort'' o') (JStr ''createdAt'')); direction = nullish (field ''direction'' o') (JStr ''asc'')
                  in if grouping \<notin> {''none'', ''status'', ''priority'', ''assignee'', ''requestType'', ''organization'', ''slaState''}
                       \<or> sort_by \<notin> {''createdAt'', ''updatedAt'', ''priority'', ''summary''} \<or> text direction \<notin> {''asc'', ''desc''} then Inl 400
                     else Inr \<lparr>qd_filters = fs, qd_columns = cols, qd_grouping = grouping, qd_sort = sort_by, qd_direction = direction\<rparr>))))"

section \<open>Who may use a queue\<close>

definition queueProject :: "workspace_db \<Rightarrow> auth_context \<Rightarrow> string \<Rightarrow> bool \<Rightarrow> (nat, project) result" where
  "queueProject db cx key edit =
     (case find (\<lambda>p. accessibleProjectWhere db cx p \<and> p_key p = to_upper key \<and> p_template p = Service) (db_projects db) of
        None \<Rightarrow> Inl 404
      | Some p \<Rightarrow>
          if cx_role cx = WViewer \<or> project_role_of db (p_id p) (cx_userId cx) = Some PViewer
             \<or> \<not> requireProjectPermission db cx (p_id p) (if edit then Issue_Edit else Issue_View) then Inl 404
          else Inr p)"

definition visibleQueues :: "string \<Rightarrow> service_queue \<Rightarrow> bool" where
  "visibleQueues uid q \<longleftrightarrow> sq_visibility q = ''TEAM'' \<or> sq_ownerId q = uid"

abbreviation core_of :: "desk \<Rightarrow> workspace_db" where
  "core_of d \<equiv> tk_core (de_tracker d)"

definition label_used :: "desk \<Rightarrow> auth_context \<Rightarrow> string \<Rightarrow> string \<Rightarrow> bool" where
  "label_used d cx pid l \<longleftrightarrow>
     list_ex (\<lambda>x. lb_id x = l \<and> lb_workspaceId x = cx_workspaceId cx
       \<and> list_ex (\<lambda>i. (i_id i, l) \<in> set (tk_issueLabels (de_tracker d)) \<and> i_projectId i = pid \<and> i_archivedAt i = None
           \<and> issueSecurityWhere (core_of d) cx (Some [pid]) i) (db_issues (core_of d))) (tk_labels (de_tracker d))"

text \<open>\<open>queueFilter\<close>: the values a filter names must exist in the project.\<close>

definition filter_values_ok :: "desk \<Rightarrow> auth_context \<Rightarrow> string \<Rightarrow> queue_definition \<Rightarrow> bool" where
  "filter_values_ok d cx pid def \<longleftrightarrow>
     (let f = map_of (qd_filters def); known = (\<lambda>k P. case f k of None \<Rightarrow> True | Some v \<Rightarrow> P v) in
      known ''status'' (\<lambda>v. list_ex (\<lambda>s. st_id s = v \<and> st_projectId s = pid) (db_statuses (core_of d)))
      \<and> known ''requestType'' (\<lambda>v. list_ex (\<lambda>t. rt_id t = v \<and> rt_projectId t = pid) (de_requestTypes d))
      \<and> known ''assignee'' (\<lambda>v. v = ''unassigned'' \<or> in_project (de_tracker d) pid v \<and> active_member (core_of d) (cx_workspaceId cx) v)
      \<and> known ''organization'' (\<lambda>v. (pid, v, True) \<in> set (po_projectOrgs (de_portal d)) \<and> (v, cx_workspaceId cx) \<in> set (po_organizations (de_portal d)))
      \<and> known ''label'' (label_used d cx pid))"

definition filter_matches :: "desk \<Rightarrow> auth_context \<Rightarrow> string \<Rightarrow> queue_definition \<Rightarrow> issue \<Rightarrow> bool" where
  "filter_matches d cx pid def i \<longleftrightarrow>
     (let f = map_of (qd_filters def); want = (\<lambda>k P. case f k of None \<Rightarrow> True | Some v \<Rightarrow> P v) in
      i_workspaceId i = cx_workspaceId cx \<and> i_projectId i = pid \<and> i_archivedAt i = None
      \<and> issueSecurityWhere (core_of d) cx (Some [pid]) i
      \<and> want ''status'' (\<lambda>v. i_statusId i = v) \<and> want ''priority'' (\<lambda>v. priority_name (i_priority i) = v)
      \<and> want ''assignee'' (\<lambda>v. i_assigneeId i = (if v = ''unassigned'' then None else Some v))
      \<and> want ''label'' (\<lambda>v. (i_id i, v) \<in> set (tk_issueLabels (de_tracker d)))
      \<and> want ''from'' (\<lambda>v. case parse_iso_date v of None \<Rightarrow> True | Some t \<Rightarrow> t \<le> i_createdAt i)
      \<and> want ''to'' (\<lambda>v. case parse_iso_date v of None \<Rightarrow> True | Some t \<Rightarrow> i_createdAt i < t + DAY_MS)
      \<and> (case request_of_issue d (i_id i) of
           None \<Rightarrow> False
         | Some r \<Rightarrow> sr_workspaceId r = cx_workspaceId cx \<and> sr_projectId r = pid \<and> want ''requestType'' (\<lambda>v. sr_requestTypeId r = v)
             \<and> want ''organization'' (\<lambda>v. sr_organizationId r = Some v) \<and> want ''slaState'' (\<lambda>v. sr_slaState r = v)))"

definition queueFilter :: "desk \<Rightarrow> auth_context \<Rightarrow> string \<Rightarrow> queue_definition \<Rightarrow> (nat, issue \<Rightarrow> bool) result" where
  "queueFilter d cx pid def = (if filter_values_ok d cx pid def then Inr (filter_matches d cx pid def) else Inl 400)"

section \<open>Snapshots\<close>

text \<open>\<open>orderBy\<close> on one column, ties by id; the priorities are ordered as the enum declares them.\<close>

definition priority_rank :: "priority \<Rightarrow> int" where
  "priority_rank p = (case p of Urgent \<Rightarrow> 0 | High \<Rightarrow> 1 | Medium \<Rightarrow> 2 | Low \<Rightarrow> 3)"

definition order_rows :: "bool \<Rightarrow> ('r \<Rightarrow> 'k::linorder) \<Rightarrow> 'r list \<Rightarrow> 'r list" where
  "order_rows descending key rows = (if descending then rev (sort_key key (rev rows)) else sort_key key rows)"

definition sort_issues :: "queue_definition \<Rightarrow> issue list \<Rightarrow> (nat, issue list) result" where
  "sort_issues def rows =
     (let by_id = sort_key i_id rows; descending = (qd_direction def = JStr ''desc'') in
      if qd_direction def \<noteq> JStr ''asc'' \<and> qd_direction def \<noteq> JStr ''desc'' then Inl 400
      else Inr (if qd_sort def = ''createdAt'' then order_rows descending i_createdAt by_id
                else if qd_sort def = ''updatedAt'' then order_rows descending i_updatedAt by_id
                else if qd_sort def = ''priority'' then order_rows descending (\<lambda>i. priority_rank (i_priority i)) by_id
                else order_rows descending i_summary by_id))"

text \<open>The targets of a request: its cycle of the highest sequence for each metric.\<close>

definition request_targets :: "desk \<Rightarrow> string \<Rightarrow> sla_cycle list" where
  "request_targets d rid =
     fold (\<lambda>c acc. if list_ex (\<lambda>x. cy_metric x = cy_metric c) acc then acc else acc @ [c])
       (sort_key (\<lambda>c. - int (cy_sequence c)) (filter (\<lambda>c. cy_requestId c = rid) (de_cycles d))) []"

definition goal_of :: "desk \<Rightarrow> sla_cycle \<Rightarrow> (goal_version \<times> sla_goal) option" where
  "goal_of d c = Option.bind (find (\<lambda>v. gv_id v = cy_goalVersionId c) (de_goalVersions d)) (\<lambda>v.
     map_option (\<lambda>g. (v, g)) (find (\<lambda>g. gl_id g = gv_goalId v) (de_goals d)))"

definition remaining_minutes :: "goal_version \<Rightarrow> sla_cycle \<Rightarrow> int" where
  "remaining_minutes v c = - ((- max 0 (gv_targetMinutes v * 60000 - cy_elapsedMs c)) div 60000)"

definition or_text :: "string \<Rightarrow> string \<Rightarrow> string" where
  "or_text a b = (if a = [] then b else a)"

definition long_dash :: string where "long_dash = [CHR 0xE2, CHR 0x80, CHR 0x94]"

definition goal_names :: "desk \<Rightarrow> string \<Rightarrow> string" where
  "goal_names d rid = or_text (join ''; '' (List.map_filter (\<lambda>c. map_option (\<lambda>(_, g). gl_name g) (goal_of d c)) (request_targets d rid))) ''None''"

definition goal_times :: "desk \<Rightarrow> string \<Rightarrow> string" where
  "goal_times d rid = or_text (join ''; '' (List.map_filter (\<lambda>c. map_option (\<lambda>(v, _).
     cy_metric c @ '': '' @ string_of_int (remaining_minutes v c) @ '' business minutes'') (goal_of d c)) (request_targets d rid))) long_dash"

definition named :: "('r \<Rightarrow> string) \<Rightarrow> 'r option \<Rightarrow> string \<Rightarrow> string" where
  "named name row fallback = (case row of Some r \<Rightarrow> name r | None \<Rightarrow> fallback)"

text \<open>The names of users and organizations are the parameters \<open>user_name\<close> and \<open>organization_name\<close>.\<close>

definition last_response :: "desk \<Rightarrow> string \<Rightarrow> time option" where
  "last_response d rid =
     map_option px_createdAt (first_by (\<lambda>x. - px_createdAt x) (\<lambda>x. px_requestId x = rid \<and> px_customerId x \<noteq> None) (de_portalComments d))"

definition queue_row_of :: "(string \<Rightarrow> string) \<Rightarrow> (string \<Rightarrow> string) \<Rightarrow> desk \<Rightarrow> issue \<Rightarrow> service_request \<Rightarrow> queue_row" where
  "queue_row_of user_name organization_name d i r =
     \<lparr>qr_id = i_id i, qr_requestId = sr_id r, qr_version = i_version i, qr_summary = i_summary i, qr_number = i_number i,
      qr_status = named st_name (status_row (de_tracker d) (i_statusId i)) [], qr_statusId = i_statusId i,
      qr_priority = priority_name (i_priority i), qr_assignee = named user_name (i_assigneeId i) ''Unassigned'',
      qr_assigneeId = i_assigneeId i,
      qr_requestType = named rt_name (find (\<lambda>t. rt_id t = sr_requestTypeId r) (de_requestTypes d)) [],
      qr_organization = named organization_name (sr_organizationId r) ''None'', qr_createdAt = i_createdAt i, qr_updatedAt = i_updatedAt i,
      qr_slaState = sr_slaState r, qr_slaGoal = goal_names d (sr_id r), qr_slaRemaining = goal_times d (sr_id r),
      qr_customerResponse = last_response d (sr_id r)\<rparr>"

definition visible_queue :: "desk \<Rightarrow> auth_context \<Rightarrow> string \<Rightarrow> string \<Rightarrow> service_queue option" where
  "visible_queue d cx pid qid = find (\<lambda>q. sq_id q = qid \<and> sq_projectId q = pid \<and> visibleQueues (cx_userId cx) q) (de_queues d)"

definition createQueueSnapshot :: "(js \<Rightarrow> string) \<Rightarrow> (string \<Rightarrow> string) \<Rightarrow> (string \<Rightarrow> string) \<Rightarrow> string \<Rightarrow> time \<Rightarrow> auth_context \<Rightarrow> string \<Rightarrow> string \<Rightarrow> desk \<Rightarrow> (nat, desk) result" where
  "createQueueSnapshot show_js user_name organization_name new now cx key qid d =
     bind_result (queueProject (core_of d) cx key False) (\<lambda>p.
       (case visible_queue d cx (p_id p) qid of
          None \<Rightarrow> Inl 404
        | Some q \<Rightarrow>
            bind_result (parseQueueDefinition show_js (sq_definition q)) (\<lambda>def.
            bind_result (queueFilter d cx (p_id p) def) (\<lambda>matching.
              if 30 \<le> count_rows (\<lambda>s. sp_queueId s = qid \<and> sp_userId s = cx_userId cx \<and> now < sp_expiresAt s) (de_snapshots d) then Inl 429
              else bind_result (sort_issues def (filter matching (db_issues (core_of d)))) (\<lambda>issues.
                if 2000 < length issues then Inl 400
                else (let rows = List.map_filter (\<lambda>i. map_option (queue_row_of user_name organization_name d i) (request_of_issue d (i_id i))) issues;
                          kept_rows = filter (\<lambda>s. \<not> (sp_queueId s = qid \<and> sp_userId s = cx_userId cx \<and> sp_expiresAt s < now)) (de_snapshots d)
                      in Inr (d\<lparr>de_snapshots := kept_rows @ [\<lparr>sp_id = new, sp_queueId = qid, sp_queueVersion = sq_version q,
                           sp_userId = cx_userId cx, sp_rows = rows, sp_createdAt = now, sp_expiresAt = now + 5 * 60000\<rparr>]\<rparr>)))))))"

definition readQueueSnapshot :: "(js \<Rightarrow> string) \<Rightarrow> time \<Rightarrow> auth_context \<Rightarrow> string \<Rightarrow> string \<Rightarrow> string \<Rightarrow> desk \<Rightarrow> (nat, queue_snapshot \<times> project \<times> queue_definition) result" where
  "readQueueSnapshot show_js now cx key qid sid d =
     bind_result (queueProject (core_of d) cx key False) (\<lambda>p.
       (case (find (\<lambda>s. sp_id s = sid \<and> sp_queueId s = qid \<and> sp_userId s = cx_userId cx \<and> now < sp_expiresAt s) (de_snapshots d),
              visible_queue d cx (p_id p) qid) of
          (Some s, Some q) \<Rightarrow>
            (let current = filter (\<lambda>i. i_workspaceId i = cx_workspaceId cx \<and> i_projectId i = p_id p \<and> i_archivedAt i = None
                   \<and> issueSecurityWhere (core_of d) cx (Some [p_id p]) i) (db_issues (core_of d));
                 versions = map_of (map (\<lambda>i. (i_id i, i_version i)) current)
             in if sp_queueVersion s \<noteq> sq_version q \<or> list_ex (\<lambda>r. versions (qr_id r) \<noteq> Some (qr_version r)) (sp_rows s) then Inl 409
                else bind_result (parseQueueDefinition show_js (sq_definition q)) (\<lambda>def. Inr (s, p, def)))
        | _ \<Rightarrow> Inl 409))"

section \<open>Metrics\<close>

record queue_metrics =
  qm_total :: nat
  qm_unassigned :: nat
  qm_aging :: nat
  qm_slaRisk :: nat
  qm_recentResponses :: nat
  qm_workload :: "(string \<times> nat) list"

definition bump :: "string \<Rightarrow> (string \<times> nat) list \<Rightarrow> (string \<times> nat) list" where
  "bump k m = (case map_of m k of None \<Rightarrow> m @ [(k, 1)] | Some n \<Rightarrow> map (\<lambda>(x, y). (x, if x = k then n + 1 else y)) m)"

definition queueMetrics :: "queue_row list \<Rightarrow> time \<Rightarrow> queue_metrics" where
  "queueMetrics rows now =
     \<lparr>qm_total = length rows, qm_unassigned = count_rows (\<lambda>r. qr_assigneeId r = None \<or> qr_assigneeId r = Some []) rows,
      qm_aging = count_rows (\<lambda>r. 7 * 86400000 < now - qr_createdAt r) rows,
      qm_slaRisk = count_rows (\<lambda>r. qr_slaState r \<in> {''AT_RISK'', ''BREACHED''}) rows,
      qm_recentResponses = count_rows (\<lambda>r. case qr_customerResponse r of None \<Rightarrow> False | Some t \<Rightarrow> now - t < 86400000) rows,
      qm_workload = fold (\<lambda>r. bump (qr_assignee r)) rows []\<rparr>"

definition snapshot_page :: "int option \<Rightarrow> int option \<Rightarrow> queue_row list \<Rightarrow> (nat, queue_row list) result" where
  "snapshot_page page per_page rows =
     (case (page, per_page) of
        (Some n, Some k) \<Rightarrow> if n < 1 \<or> 2000 < n \<or> k < 1 \<or> 100 < k then Inl 400
          else Inr (take (nat k) (drop (nat ((n - 1) * k)) rows))
      | _ \<Rightarrow> Inl 400)"

section \<open>Bulk actions\<close>

record queue_action =
  qa_claim :: bool
  qa_assignee :: "string option option"   \<comment> \<open>\<open>undefined\<close>, \<open>null\<close> or a user\<close>
  qa_priority :: js
  qa_statusId :: "string option"
  qa_requestTypeId :: "string option"
  qa_participants :: js
  qa_body :: jobj

definition parse_action :: "(js \<Rightarrow> string) \<Rightarrow> string \<Rightarrow> js \<Rightarrow> (nat, queue_action) result" where
  "parse_action show_js actor raw =
     (case as_object raw of
        None \<Rightarrow> Inl 400
      | Some a \<Rightarrow>
          (let claim = field ''claim'' a; assignee = field ''assigneeId'' a; prio = field ''priority'' a;
               reference = (\<lambda>k. field k a = JUndef \<or> as_string (field k a) \<noteq> None) in
           if a = [] \<or> list_ex (\<lambda>k. k \<notin> {''claim'', ''assigneeId'', ''priority'', ''statusId'', ''requestTypeId'', ''participantIds''}) (keys_of a)
             then Inl 400
           else if claim \<noteq> JUndef \<and> claim \<noteq> JBool True \<or> truthy claim \<and> assignee \<noteq> JUndef then Inl 400
           else if prio \<noteq> JUndef \<and> js_text show_js prio \<notin> set priority_names then Inl 400
           else if assignee \<noteq> JUndef \<and> assignee \<noteq> JNull \<and> as_string assignee = None then Inl 400
           else if \<not> reference ''statusId'' \<or> \<not> reference ''requestTypeId'' then Inl 400
           else Inr \<lparr>qa_claim = truthy claim,
                     qa_assignee = (if truthy claim then Some (Some actor) else if assignee = JUndef then None else Some (as_string assignee)),
                     qa_priority = prio, qa_statusId = as_string (field ''statusId'' a), qa_requestTypeId = as_string (field ''requestTypeId'' a),
                     qa_participants = field ''participantIds'' a, qa_body = a\<rparr>))"

definition selected_ids :: "queue_row list \<Rightarrow> js \<Rightarrow> (nat, string list) result" where
  "selected_ids rows v =
     (case as_array v of
        None \<Rightarrow> Inl 400
      | Some vs \<Rightarrow>
          if vs = [] \<or> 100 < length vs \<or> \<not> all_strings vs \<or> \<not> distinct (strings_of vs)
             \<or> list_ex (\<lambda>i. \<not> list_ex (\<lambda>r. qr_id r = i) rows) (strings_of vs) then Inl 400
          else Inr (strings_of vs))"

definition active_agent :: "desk \<Rightarrow> auth_context \<Rightarrow> string \<Rightarrow> string \<Rightarrow> bool" where
  "active_agent d cx pid u \<longleftrightarrow>
     list_ex (\<lambda>m. pm_projectId m = pid \<and> pm_userId m = u \<and> pm_role m \<noteq> PViewer) (db_projectMembers (core_of d))
     \<and> list_ex (\<lambda>m. wm_workspaceId m = cx_workspaceId cx \<and> wm_userId m = u \<and> wm_role m \<noteq> WViewer \<and> wm_deactivatedAt m = None)
         (db_workspaceMembers (core_of d))"

text \<open>Customers who may take part in requests of the project now.\<close>

definition eligible_participant :: "desk \<Rightarrow> auth_context \<Rightarrow> string \<Rightarrow> portal_customer \<Rightarrow> bool" where
  "eligible_participant d cx pid c \<longleftrightarrow>
     pc_workspaceId c = cx_workspaceId cx \<and> pc_verifiedAt c \<noteq> None \<and> pc_deactivatedAt c = None
     \<and> ((pid, pc_id c, True) \<in> set (po_projectCustomers (de_portal d))
        \<or> list_ex (\<lambda>(org, cust, active). cust = pc_id c \<and> active \<and> (pid, org, True) \<in> set (po_projectOrgs (de_portal d))) (po_members (de_portal d)))"

definition parse_participants :: "desk \<Rightarrow> auth_context \<Rightarrow> string \<Rightarrow> js \<Rightarrow> (nat, string list option) result" where
  "parse_participants d cx pid v =
     (case v of
        JUndef \<Rightarrow> Inr None
      | JArr vs \<Rightarrow>
          if 50 < length vs \<or> \<not> all_strings vs \<or> \<not> distinct (strings_of vs) then Inl 400
          else if count_rows (\<lambda>c. pc_id c \<in> set (strings_of vs) \<and> eligible_participant d cx pid c) (po_customers (de_portal d)) \<noteq> length vs
            then Inl 400
          else Inr (Some (strings_of vs))
      | _ \<Rightarrow> Inl 400)"

text \<open>What the whole action needs, read once at its start.\<close>

record bulk_plan =
  bp_context :: auth_context
  bp_project :: project
  bp_role :: "project_role option"
  bp_secure :: "issue \<Rightarrow> bool"
  bp_action :: queue_action
  bp_status :: "status option"
  bp_type :: "request_type option"
  bp_participants :: "string list option"

definition bulk_check :: "desk \<Rightarrow> auth_context \<Rightarrow> project \<Rightarrow> queue_action \<Rightarrow> (nat, bulk_plan) result" where
  "bulk_check d cx p a =
     (let pid = p_id p;
          st = Option.bind (qa_statusId a) (\<lambda>i. find (\<lambda>s. st_id s = i \<and> st_projectId s = pid) (db_statuses (core_of d)));
          rt = Option.bind (qa_requestTypeId a) (\<lambda>i. find (\<lambda>t. rt_id t = i \<and> rt_projectId t = pid \<and> rt_archivedAt t = None \<and> rt_publishedAt t \<noteq> None)
                 (de_requestTypes d)) in
      if (case qa_assignee a of Some (Some u) \<Rightarrow> u \<noteq> [] \<and> \<not> active_agent d cx pid u | _ \<Rightarrow> False) then Inl 400
      else if qa_statusId a \<noteq> None \<and> (st = None \<or> qa_statusId a = Some []) then Inl 400
      else if qa_requestTypeId a \<noteq> None \<and> (rt = None \<or> qa_requestTypeId a = Some []) then Inl 400
      else bind_result (parse_participants d cx pid (qa_participants a)) (\<lambda>ps.
             Inr \<lparr>bp_context = cx, bp_project = p, bp_role = project_role_of (core_of d) pid (cx_userId cx),
                  bp_secure = issueSecurityWhere (core_of d) cx (Some [pid]), bp_action = a, bp_status = st, bp_type = rt, bp_participants = ps\<rparr>))"

definition bulk_data :: "bulk_plan \<Rightarrow> issue_data" where
  "bulk_data bp = no_data\<lparr>d_assigneeId := qa_assignee (bp_action bp),
     d_priority := (case qa_priority (bp_action bp) of JStr s \<Rightarrow> parse_priority s | _ \<Rightarrow> None)\<rparr>"

definition bulk_moves :: "bulk_plan \<Rightarrow> issue \<Rightarrow> status option" where
  "bulk_moves bp i = (case bp_status bp of Some s \<Rightarrow> if st_id s \<noteq> i_statusId i then Some s else None | None \<Rightarrow> None)"

text \<open>The status change of one request: its transition may have no actions, and the column must have room.\<close>

definition bulk_status :: "bulk_plan \<Rightarrow> time \<Rightarrow> desk \<Rightarrow> issue \<Rightarrow> issue_data \<Rightarrow> (nat, issue_data) result" where
  "bulk_status bp now d i data =
     (case bulk_moves bp i of
        None \<Rightarrow> Inr data
      | Some s \<Rightarrow>
          (case evaluateTransition (tk_transitions (de_tracker d))
                  (transition_input_of (bp_context bp) (bp_role bp) (p_id (bp_project bp)) (i_statusId i) (st_id s) (proposed data))
                  (view_of (de_tracker d) i) of
             Inl _ \<Rightarrow> Inl 400
           | Inr execution \<Rightarrow>
               if actions_of execution \<noteq> [] \<or> wip_reached (de_tracker d) (p_id (bp_project bp)) (st_id s) then Inl 400
               else Inr (data\<lparr>d_statusId := Some (st_id s), d_completedAt := Some (if st_category s = Done then Some now else None)\<rparr>)))"

definition bulk_type :: "url_parser \<Rightarrow> bulk_plan \<Rightarrow> desk \<Rightarrow> issue \<Rightarrow> (nat, string) result" where
  "bulk_type parse_url bp d i =
     (case bp_type bp of
        None \<Rightarrow> Inr (i_issueTypeId i)
      | Some t \<Rightarrow>
          if rt_issueTypeId t = i_issueTypeId i then Inr (i_issueTypeId i)
          else (let supplied = map (\<lambda>(f, _, v). (f, v)) (filter (\<lambda>(_, x, _). x = i_id i) (tk_values (de_tracker d)))
                in case validateCustomFieldWrites parse_url (field_db_of (de_tracker d)) (cx_workspaceId (bp_context bp)) (p_id (bp_project bp))
                          (rt_issueTypeId t) (JObj supplied) False of
                     Inl _ \<Rightarrow> Inl 400
                   | Inr _ \<Rightarrow> Inr (rt_issueTypeId t)))"

definition write_issues :: "bulk_plan \<Rightarrow> queue_row \<Rightarrow> time \<Rightarrow> issue_data \<Rightarrow> string \<Rightarrow> desk \<Rightarrow> desk" where
  "write_issues bp row now data type d =
     (let hit = (\<lambda>i. i_id i = qr_id row \<and> i_version i = qr_version row \<and> (qa_claim (bp_action bp) \<longrightarrow> i_assigneeId i = None)) in
      d\<lparr>de_tracker := (de_tracker d)\<lparr>tk_core := (core_of d)\<lparr>db_issues :=
          map (\<lambda>i. if hit i then (apply_data now data i)\<lparr>i_issueTypeId := type\<rparr> else i) (db_issues (core_of d))\<rparr>\<rparr>\<rparr>)"

definition write_request :: "bulk_plan \<Rightarrow> queue_row \<Rightarrow> desk \<Rightarrow> desk" where
  "write_request bp row d =
     (let portal = de_portal d;
          requests = (case bp_type bp of None \<Rightarrow> po_requests portal
            | Some t \<Rightarrow> map (\<lambda>r. if sr_issueId r = qr_id row then r\<lparr>sr_requestTypeId := rt_id t\<rparr> else r) (po_requests portal));
          participants = (case bp_participants bp of None \<Rightarrow> po_participants portal
            | Some ps \<Rightarrow> filter (\<lambda>x. fst x \<noteq> qr_requestId row) (po_participants portal) @ map (\<lambda>c. (qr_requestId row, c)) ps)
      in d\<lparr>de_portal := portal\<lparr>po_requests := requests, po_participants := participants\<rparr>\<rparr>)"

text \<open>The trail of one request: activity, notification of the new assignee, history, events.\<close>

definition bulk_trail :: "(nat \<Rightarrow> string) \<Rightarrow> bulk_plan \<Rightarrow> queue_row \<Rightarrow> issue \<Rightarrow> issue_data \<Rightarrow> tracker \<Rightarrow> tracker" where
  "bulk_trail new bp row i data tk =
     (let a = bp_action bp; p = bp_project bp; actor = cx_userId (bp_context bp); act = new (length (db_activities (tk_core tk)));
          version = qr_version row + 1; eventId = ''queue:'' @ i_id i @ '':'' @ string_of_int version;
          logged = tk\<lparr>tk_core := (tk_core tk)\<lparr>db_activities := db_activities (tk_core tk) @
            [\<lparr>ac_issueId = i_id i, ac_actorId = Some actor, ac_action = ''issue.queue_triaged'', ac_changes = JObj (qa_body a)\<rparr>]\<rparr>\<rparr>;
          told = (case qa_assignee a of Some (Some u) \<Rightarrow> if u \<noteq> [] \<and> i_assigneeId i \<noteq> Some u then tell p i actor act ''ASSIGNED'' [u] logged else logged
                  | _ \<Rightarrow> logged);
          noted = (if d_statusId data \<noteq> None
            then told\<lparr>tk_history := tk_history told @ [\<lparr>hi_issueId = i_id i, hi_event = ''STATUS_CHANGED'',
                   hi_category = map_option st_category (bp_status bp), hi_estimate = i_estimate i\<rparr>]\<rparr> else told);
          body = JObj [(''id'', JStr (i_id i)), (''version'', JInt version)]
      in noted\<lparr>tk_outbox :=
           enqueueAutomation (tk_config noted) (p_workspaceId p) (Some (p_id p)) (if d_statusId data \<noteq> None then ''issue.transitioned'' else ''issue.updated'') eventId
             (JObj [(''issueId'', JStr (i_id i)), (''projectId'', JStr (p_id p)),
                (''statusId'', JStr (case bp_status bp of Some s \<Rightarrow> st_id s | None \<Rightarrow> i_statusId i)),
                (''priority'', nullish (qa_priority a) (JStr (priority_name (i_priority i))))]) 0
             (enqueueWebhook (tk_core noted) (tk_config noted) (p_workspaceId p) (Some (p_id p)) ''issue.updated'' eventId body
               (publishRealtime \<lparr>re_workspaceId = p_workspaceId p, re_projectId = Some (p_id p), re_type = ''issue.updated'', re_resourceId = i_id i,
                  re_payload = body\<rparr> (tk_outbox noted)))\<rparr>)"

text \<open>A priority that is no string, or an unknown assignee, makes the update itself fail.\<close>

definition writable :: "bulk_plan \<Rightarrow> desk \<Rightarrow> bool" where
  "writable bp d \<longleftrightarrow> (qa_priority (bp_action bp) = JUndef \<or> as_string (qa_priority (bp_action bp)) \<noteq> None)
     \<and> (case qa_assignee (bp_action bp) of Some (Some u) \<Rightarrow> user_exists (de_tracker d) u | _ \<Rightarrow> True)"

definition bulk_one :: "url_parser \<Rightarrow> (nat \<Rightarrow> string) \<Rightarrow> time \<Rightarrow> bulk_plan \<Rightarrow> queue_row list \<Rightarrow> string \<Rightarrow> desk \<Rightarrow> (nat, desk) result" where
  "bulk_one parse_url new now bp rows iid d =
     (case find (\<lambda>r. qr_id r = iid) rows of
        None \<Rightarrow> Inl 400
      | Some row \<Rightarrow>
          (case find (\<lambda>i. i_id i = iid \<and> i_workspaceId i = cx_workspaceId (bp_context bp) \<and> i_projectId i = p_id (bp_project bp)
                 \<and> i_version i = qr_version row \<and> i_archivedAt i = None \<and> bp_secure bp i) (db_issues (core_of d)) of
             None \<Rightarrow> Inl 409
           | Some i \<Rightarrow>
               if qa_claim (bp_action bp) \<and> i_assigneeId i \<noteq> None \<and> i_assigneeId i \<noteq> Some [] then Inl 409
               else bind_result (bulk_status bp now d i (bulk_data bp)) (\<lambda>data.
                    bind_result (bulk_type parse_url bp d i) (\<lambda>type.
                      if \<not> writable bp d then Inl 400
                      else if count_rows (\<lambda>x. i_id x = iid \<and> i_version x = qr_version row \<and> (qa_claim (bp_action bp) \<longrightarrow> i_assigneeId x = None))
                                (db_issues (core_of d)) \<noteq> 1 then Inl 409
                      else (let d' = write_request bp row (write_issues bp row now data type d)
                            in Inr (d'\<lparr>de_tracker := bulk_trail new bp row i data (de_tracker d')\<rparr>))))))"

definition applyQueueAction :: "(js \<Rightarrow> string) \<Rightarrow> url_parser \<Rightarrow> (nat \<Rightarrow> string) \<Rightarrow> time \<Rightarrow> auth_context \<Rightarrow> string \<Rightarrow> string \<Rightarrow> string \<Rightarrow> js \<Rightarrow> js \<Rightarrow> desk \<Rightarrow> (nat, desk) result" where
  "applyQueueAction show_js parse_url new now cx key qid sid ids raw d =
     bind_result (queueProject (core_of d) cx key True) (\<lambda>_.
     bind_result (readQueueSnapshot show_js now cx key qid sid d) (\<lambda>(s, p, _).
     bind_result (selected_ids (sp_rows s) ids) (\<lambda>chosen.
     bind_result (parse_action show_js (cx_userId cx) raw) (\<lambda>a.
     bind_result (bulk_check d cx p a) (\<lambda>bp.
     bind_result (fold_result (bulk_one parse_url new now bp (sp_rows s)) chosen d) (\<lambda>d'.
       Inr (add_audit \<lparr>au_workspaceId = cx_workspaceId cx, au_actorId = Some (cx_userId cx), au_action = ''service.queue.triaged'',
              au_targetType = ''serviceQueue'', au_targetId = qid,
              au_metadata = JObj [(''snapshotId'', JStr sid), (''issueIds'', JArr (map JStr chosen)), (''action'', raw)]\<rparr> d')))))))"

section \<open>Routes of one queue\<close>

definition queues_GET :: "auth_context option \<Rightarrow> string \<Rightarrow> desk \<Rightarrow> (nat, service_queue list) result" where
  "queues_GET context key d =
     (case context of
        None \<Rightarrow> Inl 401
      | Some cx \<Rightarrow>
          bind_result (queueProject (core_of d) cx key False) (\<lambda>p.
            Inr (sort_key (\<lambda>q. if sq_isDefault q then 0 else 1 :: nat) (sort_key sq_position (sort_key sq_id
              (filter (\<lambda>q. sq_projectId q = p_id p \<and> visibleQueues (cx_userId cx) q) (de_queues d)))))))"

definition snapshot_POST :: "(js \<Rightarrow> string) \<Rightarrow> (string \<Rightarrow> string) \<Rightarrow> (string \<Rightarrow> string) \<Rightarrow> string \<Rightarrow> time \<Rightarrow> auth_context option \<Rightarrow> string \<Rightarrow> string \<Rightarrow> desk \<Rightarrow> (nat, desk) result" where
  "snapshot_POST show_js user_name organization_name new now context key qid d =
     (case context of None \<Rightarrow> Inl 401 | Some cx \<Rightarrow> createQueueSnapshot show_js user_name organization_name new now cx key qid d)"

definition snapshot_GET :: "(js \<Rightarrow> string) \<Rightarrow> time \<Rightarrow> auth_context option \<Rightarrow> string \<times> string \<times> string \<Rightarrow> int option \<Rightarrow> int option \<Rightarrow> desk \<Rightarrow> (nat, queue_metrics \<times> queue_row list) result" where
  "snapshot_GET show_js now context path page per_page d =
     (case context of
        None \<Rightarrow> Inl 401
      | Some cx \<Rightarrow>
          bind_result (snapshot_page page per_page []) (\<lambda>_.
          (case path of (key, qid, sid) \<Rightarrow>
          bind_result (readQueueSnapshot show_js now cx key qid sid d) (\<lambda>(s, _, _).
          bind_result (snapshot_page page per_page (sp_rows s)) (\<lambda>rows. Inr (queueMetrics (sp_rows s) (sp_createdAt s), rows))))))"

section \<open>Keeping queues\<close>

definition queue_setting_ok :: "jobj \<Rightarrow> bool" where
  "queue_setting_ok body \<longleftrightarrow>
     (field ''position'' body = JUndef \<or> (case as_integer (field ''position'' body) of None \<Rightarrow> False | Some n \<Rightarrow> 0 \<le> n \<and> n \<le> 10000))
     \<and> (case field ''isDefault'' body of JUndef \<Rightarrow> True | JBool _ \<Rightarrow> True | _ \<Rightarrow> False)"

definition same_default_group :: "string \<Rightarrow> string \<Rightarrow> string \<Rightarrow> service_queue \<Rightarrow> bool" where
  "same_default_group pid visibility uid q \<longleftrightarrow>
     sq_projectId q = pid \<and> sq_visibility q = visibility \<and> (visibility = ''PRIVATE'' \<longrightarrow> sq_ownerId q = uid)"

definition clear_default :: "service_queue \<Rightarrow> service_queue" where
  "clear_default q = q\<lparr>sq_isDefault := False, sq_version := sq_version q + 1\<rparr>"

definition definition_json :: "queue_definition \<Rightarrow> js" where
  "definition_json def = JObj [(''filters'', JObj (map (\<lambda>(k, v). (k, JStr v)) (qd_filters def))), (''columns'', JArr (map JStr (qd_columns def))),
     (''grouping'', JStr (qd_grouping def)), (''sort'', JStr (qd_sort def)), (''direction'', qd_direction def)]"

definition queue_audit :: "auth_context \<Rightarrow> string \<Rightarrow> string \<Rightarrow> string \<Rightarrow> desk \<Rightarrow> desk" where
  "queue_audit cx action qid pid =
     add_audit \<lparr>au_workspaceId = cx_workspaceId cx, au_actorId = Some (cx_userId cx), au_action = action, au_targetType = ''serviceQueue'',
       au_targetId = qid, au_metadata = JObj [(''projectId'', JStr pid)]\<rparr>"

text \<open>The queues that give up being the default when a request claims it.\<close>

definition clear_defaults :: "jobj \<Rightarrow> (service_queue \<Rightarrow> bool) \<Rightarrow> service_queue list \<Rightarrow> service_queue list" where
  "clear_defaults body gives_up qs = (if field ''isDefault'' body = JBool True then map (\<lambda>q. if gives_up q then clear_default q else q) qs else qs)"

definition created_queue :: "auth_context \<Rightarrow> string \<Rightarrow> string \<Rightarrow> string \<Rightarrow> string \<Rightarrow> queue_definition \<Rightarrow> jobj \<Rightarrow> service_queue" where
  "created_queue cx pid new name visibility def body =
     \<lparr>sq_id = new, sq_projectId = pid, sq_ownerId = cx_userId cx, sq_name = name, sq_visibility = visibility,
      sq_definition = definition_json def, sq_position = (case as_integer (field ''position'' body) of Some n \<Rightarrow> n | None \<Rightarrow> 0),
      sq_isDefault = (field ''isDefault'' body = JBool True), sq_version = 1\<rparr>"

definition queue_POST :: "(js \<Rightarrow> string) \<Rightarrow> string \<Rightarrow> auth_context option \<Rightarrow> string \<Rightarrow> jobj \<Rightarrow> desk \<Rightarrow> (nat, desk) result" where
  "queue_POST show_js new context key body d =
     (case context of
        None \<Rightarrow> Inl 401
      | Some cx \<Rightarrow>
          bind_result (queueProject (core_of d) cx key False) (\<lambda>p.
            (let name = trim (string_or_empty (field ''name'' body)); visibility = js_text show_js (nullish (field ''visibility'' body) (JStr ''PRIVATE''));
                 pid = p_id p in
             if name = [] \<or> 100 < length name \<or> visibility \<notin> {''PRIVATE'', ''TEAM''} \<or> \<not> queue_setting_ok body then Inl 400
             else if visibility = ''TEAM'' \<and> \<not> requireProjectPermission (core_of d) cx pid Project_Admin then Inl 403
             else bind_result (parseQueueDefinition show_js (nullish (field ''definition'' body) (JObj []))) (\<lambda>def.
                  bind_result (queueFilter d cx pid def) (\<lambda>_.
                    if 100 \<le> count_rows (\<lambda>q. sq_projectId q = pid) (de_queues d) then Inl 400
                    else Inr (queue_audit cx ''service.queue.created'' new pid (d\<lparr>de_queues :=
                      clear_defaults body (same_default_group pid visibility (cx_userId cx)) (de_queues d)
                      @ [created_queue cx pid new name visibility def body]\<rparr>)))))))"

definition edit_queue :: "jobj \<Rightarrow> string \<Rightarrow> queue_definition \<Rightarrow> service_queue \<Rightarrow> service_queue" where
  "edit_queue body name def q =
     q\<lparr>sq_name := name, sq_definition := definition_json def,
       sq_position := (case as_integer (field ''position'' body) of Some n \<Rightarrow> n | None \<Rightarrow> sq_position q),
       sq_isDefault := (case field ''isDefault'' body of JBool b \<Rightarrow> b | _ \<Rightarrow> sq_isDefault q), sq_version := sq_version q + 1\<rparr>"

definition queue_PATCH :: "(js \<Rightarrow> string) \<Rightarrow> auth_context option \<Rightarrow> string \<Rightarrow> string \<Rightarrow> jobj \<Rightarrow> desk \<Rightarrow> (nat, desk) result" where
  "queue_PATCH show_js context key qid body d =
     (case context of
        None \<Rightarrow> Inl 401
      | Some cx \<Rightarrow>
          bind_result (queueProject (core_of d) cx key False) (\<lambda>p.
            (let pid = p_id p in
             case visible_queue d cx pid qid of
               None \<Rightarrow> Inl 404
             | Some q \<Rightarrow>
                 (let name = (if field ''name'' body = JUndef then sq_name q else trim (string_or_empty (field ''name'' body)));
                      group = same_default_group pid (sq_visibility q) (cx_userId cx);
                      cleared = clear_defaults body (\<lambda>x. group x \<and> sq_id x \<noteq> qid) (de_queues d) in
                  if sq_visibility q = ''PRIVATE'' \<and> sq_ownerId q \<noteq> cx_userId cx
                    \<or> sq_visibility q = ''TEAM'' \<and> \<not> requireProjectPermission (core_of d) cx pid Project_Admin then Inl 404
                  else if list_ex (\<lambda>k. k \<notin> {''version'', ''name'', ''definition'', ''position'', ''isDefault''}) (keys_of body) then Inl 400
                  else if as_integer (field ''version'' body) \<noteq> Some (sq_version q) then Inl 409
                  else if name = [] \<or> 100 < length name \<or> \<not> queue_setting_ok body then Inl 400
                  else bind_result (parseQueueDefinition show_js (nullish (field ''definition'' body) (sq_definition q))) (\<lambda>def.
                       bind_result (queueFilter d cx pid def) (\<lambda>_.
                         Inr (queue_audit cx ''service.queue.updated'' qid pid (d\<lparr>de_queues :=
                           map (\<lambda>x. if sq_id x = qid \<and> sq_version x = sq_version q then edit_queue body name def x else x) cleared\<rparr>))))))))"

section \<open>What a bulk action does\<close>

text \<open>
  A request that was changed: it was in the snapshot at its current version, in scope and visible to the
  agent, unassigned if it was claimed, and it is now one version further, in the place it was.
\<close>

definition triaged :: "bulk_plan \<Rightarrow> queue_row list \<Rightarrow> issue \<Rightarrow> issue \<Rightarrow> bool" where
  "triaged bp rows x y \<longleftrightarrow>
     (\<exists>row\<in>set rows. qr_id row = i_id x \<and> qr_version row = i_version x)
     \<and> i_workspaceId x = cx_workspaceId (bp_context bp) \<and> i_projectId x = p_id (bp_project bp) \<and> i_archivedAt x = None \<and> bp_secure bp x
     \<and> (qa_claim (bp_action bp) \<longrightarrow> i_assigneeId x = None)
     \<and> i_version y = i_version x + 1 \<and> i_id y = i_id x \<and> i_workspaceId y = i_workspaceId x \<and> i_projectId y = i_projectId x
     \<and> i_number y = i_number x \<and> i_reporterId y = i_reporterId x \<and> i_archivedAt y = None
     \<and> i_assigneeId y = (case qa_assignee (bp_action bp) of Some a \<Rightarrow> a | None \<Rightarrow> i_assigneeId x)"

text \<open>The tables that a bulk action only reads.\<close>

definition same_frame :: "desk \<Rightarrow> desk \<Rightarrow> bool" where
  "same_frame d d' \<longleftrightarrow> de_queues d' = de_queues d \<and> de_snapshots d' = de_snapshots d \<and> db_projects (core_of d') = db_projects (core_of d)
     \<and> db_projectMembers (core_of d') = db_projectMembers (core_of d) \<and> db_workspaceMembers (core_of d') = db_workspaceMembers (core_of d)
     \<and> db_schemeVersions (core_of d') = db_schemeVersions (core_of d) \<and> db_groups (core_of d') = db_groups (core_of d)"

lemma same_frame_refl [simp]: "same_frame d d"
  by (simp add: same_frame_def)

lemma same_frame_trans: "same_frame d d' \<Longrightarrow> same_frame d' d'' \<Longrightarrow> same_frame d d''"
  by (simp add: same_frame_def)

lemma trail_tables:
  "db_issues (tk_core (bulk_trail new bp row i data tk)) = db_issues (tk_core tk)"
  "db_projects (tk_core (bulk_trail new bp row i data tk)) = db_projects (tk_core tk)"
  "db_projectMembers (tk_core (bulk_trail new bp row i data tk)) = db_projectMembers (tk_core tk)"
  "db_workspaceMembers (tk_core (bulk_trail new bp row i data tk)) = db_workspaceMembers (tk_core tk)"
  "db_schemeVersions (tk_core (bulk_trail new bp row i data tk)) = db_schemeVersions (tk_core tk)"
  "db_groups (tk_core (bulk_trail new bp row i data tk)) = db_groups (tk_core tk)"
  by (simp_all add: bulk_trail_def Let_def tell_def split: option.splits)

lemma bulk_status_data:
  assumes "bulk_status bp now d i (bulk_data bp) = Inr data"
  shows "d_assigneeId data = qa_assignee (bp_action bp)"
  using assms by (auto simp: bulk_status_def bulk_data_def no_data_def split: option.splits sum.splits if_splits)

lemma bulk_one_effect:
  assumes run: "bulk_one parse_url new now bp rows iid d = Inr d'" and ids: "distinct (map i_id (db_issues (core_of d)))"
  shows "same_frame d d' \<and> (\<exists>g. db_issues (core_of d') = map g (db_issues (core_of d))
    \<and> (\<forall>x\<in>set (db_issues (core_of d)). if i_id x = iid then triaged bp rows x (g x) else g x = x))
    \<and> (\<exists>row\<in>set rows. qr_id row = iid) \<and> iid \<in> i_id ` set (db_issues (core_of d))"
proof -
  from run obtain row i data type where row: "find (\<lambda>r. qr_id r = iid) rows = Some row"
    and i: "find (\<lambda>i. i_id i = iid \<and> i_workspaceId i = cx_workspaceId (bp_context bp) \<and> i_projectId i = p_id (bp_project bp)
        \<and> i_version i = qr_version row \<and> i_archivedAt i = None \<and> bp_secure bp i) (db_issues (core_of d)) = Some i"
    and data: "bulk_status bp now d i (bulk_data bp) = Inr data"
    and cnt: "count_rows (\<lambda>x. i_id x = iid \<and> i_version x = qr_version row \<and> (qa_claim (bp_action bp) \<longrightarrow> i_assigneeId x = None)) (db_issues (core_of d)) = 1"
    and d': "d' = (let e = write_request bp row (write_issues bp row now data type d) in e\<lparr>de_tracker := bulk_trail new bp row i data (de_tracker e)\<rparr>)"
    by (auto simp: bulk_one_def Let_def bind_result_eq_Inr split: option.splits if_splits)
  from find_SomeD [OF row] have r: "row \<in> set rows" "qr_id row = iid" by auto
  from find_SomeD [OF i] have ii: "i \<in> set (db_issues (core_of d))" "i_id i = iid" "i_workspaceId i = cx_workspaceId (bp_context bp)"
    "i_projectId i = p_id (bp_project bp)" "i_version i = qr_version row" "i_archivedAt i = None" "bp_secure bp i" by auto
  let ?hit = "\<lambda>x. i_id x = qr_id row \<and> i_version x = qr_version row \<and> (qa_claim (bp_action bp) \<longrightarrow> i_assigneeId x = None)"
  define g where "g = (\<lambda>x. if ?hit x then (apply_data now data x)\<lparr>i_issueTypeId := type\<rparr> else x)"
  have same: "x = i" if "x \<in> set (db_issues (core_of d))" "i_id x = iid" for x
    using unique_key [OF ids that(1) ii(1)] that(2) ii(2) by simp
  have "\<exists>x\<in>set (db_issues (core_of d)). ?hit x"
  proof (rule ccontr)
    assume "\<not> ?thesis"
    then have "filter (\<lambda>x. i_id x = iid \<and> i_version x = qr_version row \<and> (qa_claim (bp_action bp) \<longrightarrow> i_assigneeId x = None)) (db_issues (core_of d)) = []"
      unfolding filter_empty_conv r(2) by blast
    with cnt show False by (simp add: count_rows_def)
  qed
  then have hit: "?hit i" using same r(2) by auto
  have issues: "db_issues (core_of d') = map g (db_issues (core_of d))"
    by (simp add: d' Let_def trail_tables write_request_def write_issues_def g_def)
  have tri: "triaged bp rows i (g i)"
    using hit ii r bulk_status_data [OF data] unfolding triaged_def apply_data_def or_old_def g_def
    by (auto split: option.splits)
  have other: "g x = x" if "i_id x \<noteq> iid" for x using that r(2) by (simp add: g_def)
  have "if i_id x = iid then triaged bp rows x (g x) else g x = x" if "x \<in> set (db_issues (core_of d))" for x
    using same [OF that] tri other by metis
  then have "\<forall>x\<in>set (db_issues (core_of d)). if i_id x = iid then triaged bp rows x (g x) else g x = x" by (rule ballI)
  moreover have "same_frame d d'"
    by (simp add: d' Let_def same_frame_def trail_tables write_request_def write_issues_def)
  moreover have "iid \<in> i_id ` set (db_issues (core_of d))" using ii(1,2) by (metis image_eqI)
  ultimately show ?thesis using issues r by blast
qed

lemma bulk_all_effect:
  assumes "fold_result (bulk_one parse_url new now bp rows) cs d = Inr d'" and "distinct cs" and "distinct (map i_id (db_issues (core_of d)))"
  shows "same_frame d d' \<and> (\<exists>g. db_issues (core_of d') = map g (db_issues (core_of d))
    \<and> (\<forall>x\<in>set (db_issues (core_of d)). if i_id x \<in> set cs then triaged bp rows x (g x) else g x = x))
    \<and> set cs \<subseteq> i_id ` set (db_issues (core_of d))"
  using assms
proof (induction cs arbitrary: d)
  case Nil
  then show ?case by (auto intro: exI [of _ "\<lambda>x. x"])
next
  case (Cons c cs)
  from Cons.prems(1) obtain d1 where one: "bulk_one parse_url new now bp rows c d = Inr d1"
    and rest: "fold_result (bulk_one parse_url new now bp rows) cs d1 = Inr d'" by (auto simp: bind_result_eq_Inr)
  from bulk_one_effect [OF one Cons.prems(3)] obtain h where frame1: "same_frame d d1"
    and h: "db_issues (core_of d1) = map h (db_issues (core_of d))"
      "\<And>x. x \<in> set (db_issues (core_of d)) \<Longrightarrow> if i_id x = c then triaged bp rows x (h x) else h x = x"
    and c: "c \<in> i_id ` set (db_issues (core_of d))" by blast
  have hid: "i_id (h x) = i_id x" if "x \<in> set (db_issues (core_of d))" for x
    using h(2) [OF that] by (auto simp: triaged_def split: if_splits)
  then have idmap: "map i_id (db_issues (core_of d1)) = map i_id (db_issues (core_of d))"
    by (simp add: h(1))
  from Cons.IH [OF rest] Cons.prems(2,3) idmap obtain g where frame2: "same_frame d1 d'"
    and g: "db_issues (core_of d') = map g (db_issues (core_of d1))"
      "\<And>x. x \<in> set (db_issues (core_of d1)) \<Longrightarrow> if i_id x \<in> set cs then triaged bp rows x (g x) else g x = x"
    and cs: "set cs \<subseteq> i_id ` set (db_issues (core_of d1))" by auto
  have "if i_id x \<in> set (c # cs) then triaged bp rows x (g (h x)) else g (h x) = x" if x: "x \<in> set (db_issues (core_of d))" for x
  proof (cases "i_id x = c")
    case True
    then have "i_id (h x) \<notin> set cs" using hid [OF x] Cons.prems(2) by simp
    then have "g (h x) = h x" using g(2) [of "h x"] x by (simp add: h(1))
    then show ?thesis using h(2) [OF x] True by simp
  next
    case False
    then have "h x = x" using h(2) [OF x] by simp
    moreover have "h x \<in> set (db_issues (core_of d1))" using x by (simp add: h(1))
    ultimately show ?thesis using g(2) [of x] False by simp
  qed
  moreover have "db_issues (core_of d') = map (\<lambda>x. g (h x)) (db_issues (core_of d))" by (simp add: g(1) h(1))
  moreover have "set cs \<subseteq> i_id ` set (db_issues (core_of d))"
    using cs idmap by (metis list.set_map)
  ultimately show ?case using same_frame_trans [OF frame1 frame2] c by auto
qed

lemma add_audit_frame: "same_frame d (add_audit a d)" "db_issues (core_of (add_audit a d)) = db_issues (core_of d)"
  by (simp_all add: add_audit_def same_frame_def)

lemma bulk_check_parts:
  "bulk_check d cx p a = Inr bp \<Longrightarrow> bp_context bp = cx \<and> bp_project bp = p \<and> bp_secure bp = issueSecurityWhere (core_of d) cx (Some [p_id p])
     \<and> bp_action bp = a"
  by (auto simp: bulk_check_def Let_def bind_result_eq_Inr simp del: split_paired_Ex split: if_splits)

lemma apply_parts:
  assumes "applyQueueAction show_js parse_url new now cx key qid sid ids raw d = Inr d'"
  shows "\<exists>s p def chosen bp d1 a. readQueueSnapshot show_js now cx key qid sid d = Inr (s, p, def) \<and> selected_ids (sp_rows s) ids = Inr chosen
    \<and> bp_context bp = cx \<and> bp_project bp = p \<and> bp_secure bp = issueSecurityWhere (core_of d) cx (Some [p_id p])
    \<and> fold_result (bulk_one parse_url new now bp (sp_rows s)) chosen d = Inr d1 \<and> d' = add_audit a d1"
proof -
  from assms obtain t chosen a bp d1 e where "readQueueSnapshot show_js now cx key qid sid d = Inr t"
    and "selected_ids (sp_rows (fst t)) ids = Inr chosen" and "bulk_check d cx (fst (snd t)) a = Inr bp"
    and "fold_result (bulk_one parse_url new now bp (sp_rows (fst t))) chosen d = Inr d1" and "d' = add_audit e d1"
    unfolding applyQueueAction_def split_beta bind_result_eq_Inr by auto
  with bulk_check_parts show ?thesis by (cases t) fastforce
qed

lemma selected_distinct: "selected_ids rows v = Inr chosen \<Longrightarrow> distinct chosen \<and> chosen \<noteq> [] \<and> (\<forall>i\<in>set chosen. \<exists>r\<in>set rows. qr_id r = i)"
proof (cases v)
  case (JArr vs)
  assume run: "selected_ids rows v = Inr chosen"
  then have "all_strings vs" by (simp add: selected_ids_def JArr split: if_splits)
  then obtain ss where vs: "vs = map JStr ss" by (auto simp: all_strings_iff)
  from run have c: "chosen = ss" "ss \<noteq> []" "distinct ss" and no: "\<not> list_ex (\<lambda>i. \<not> list_ex (\<lambda>r. qr_id r = i) rows) ss"
    by (simp_all add: selected_ids_def JArr vs split: if_splits)
  from no have "\<forall>i\<in>set ss. \<exists>r\<in>set rows. qr_id r = i" unfolding list_ex_iff by blast
  with c show ?thesis by simp
qed (simp_all add: selected_ids_def)

text \<open>
  C22: A bulk action is all or nothing and touches exactly the requests selected from the snapshot: each was
  visible to the agent, at the version of the snapshot, in the project and not archived, unassigned when
  it is claimed, and ends one version further; every other issue is unchanged.
\<close>

theorem bulk_action_is_exact:
  assumes "applyQueueAction show_js parse_url new now cx key qid sid ids raw d = Inr d'" and "distinct (map i_id (db_issues (core_of d)))"
  shows "\<exists>s p def chosen bp. readQueueSnapshot show_js now cx key qid sid d = Inr (s, p, def) \<and> selected_ids (sp_rows s) ids = Inr chosen
    \<and> bp_context bp = cx \<and> bp_project bp = p \<and> bp_secure bp = issueSecurityWhere (core_of d) cx (Some [p_id p])
    \<and> list_all2 (\<lambda>x y. if i_id x \<in> set chosen then triaged bp (sp_rows s) x y else y = x) (db_issues (core_of d)) (db_issues (core_of d'))"
proof -
  from apply_parts [OF assms(1)] obtain s p def chosen bp d1 a where parts: "readQueueSnapshot show_js now cx key qid sid d = Inr (s, p, def)"
    "selected_ids (sp_rows s) ids = Inr chosen" "bp_context bp = cx" "bp_project bp = p"
    "bp_secure bp = issueSecurityWhere (core_of d) cx (Some [p_id p])"
    and run: "fold_result (bulk_one parse_url new now bp (sp_rows s)) chosen d = Inr d1" and d': "d' = add_audit a d1" by blast
  from bulk_all_effect [OF run _ assms(2)] selected_distinct [OF parts(2)] obtain g
    where g: "db_issues (core_of d1) = map g (db_issues (core_of d))"
      "\<And>x. x \<in> set (db_issues (core_of d)) \<Longrightarrow> if i_id x \<in> set chosen then triaged bp (sp_rows s) x (g x) else g x = x" by blast
  have "list_all2 (\<lambda>x y. if i_id x \<in> set chosen then triaged bp (sp_rows s) x y else y = x) (db_issues (core_of d)) (db_issues (core_of d'))"
    unfolding d' add_audit_frame(2) g(1) list.rel_map using g(2) by (intro list.rel_refl_strong)
  with parts show ?thesis by blast
qed

lemma permission_frame:
  assumes "same_frame d d'"
  shows "requireProjectPermission (core_of d') cx pid perm = requireProjectPermission (core_of d) cx pid perm"
proof -
  have "db_schemeVersions (core_of d') = db_schemeVersions (core_of d)" using assms by (simp add: same_frame_def)
  then have "map_of (db_schemeVersions (core_of d')) = map_of (db_schemeVersions (core_of d))" by simp
  then have g: "grants_for (core_of d') = grants_for (core_of d)"
    by (intro ext) (simp only: grants_for_def cong: option.case_cong)
  have f: "find_project (core_of d') = find_project (core_of d)" "candidates (core_of d') = candidates (core_of d)"
    using assms by (simp_all add: same_frame_def find_project_def candidates_def project_role_of_def actor_groups_def fun_eq_iff)
  show ?thesis unfolding requireProjectPermission_def explainProjectPermission_def g f by (rule refl)
qed

lemma queueProject_frame:
  assumes "same_frame d d'"
  shows "queueProject (core_of d') cx key e = queueProject (core_of d) cx key e"
proof -
  have "accessibleProjectWhere (core_of d') cx = accessibleProjectWhere (core_of d) cx"
    "project_role_of (core_of d') = project_role_of (core_of d)" "db_projects (core_of d') = db_projects (core_of d)"
    using assms by (auto simp: same_frame_def accessibleProjectWhere_def project_role_of_def fun_eq_iff)
  then show ?thesis by (simp only: queueProject_def permission_frame [OF assms])
qed

lemma queueProject_refuses: "queueProject db cx key e = Inl n \<Longrightarrow> n = 404"
  by (auto simp: queueProject_def split: option.splits if_splits)

text \<open>
  A snapshot can be acted on once: after a successful action, every action on the same snapshot is
  refused, whoever of two windows of the agent comes second and whatever it selects.
\<close>

theorem snapshot_acts_once:
  assumes act: "applyQueueAction show_js parse_url new now cx key qid sid ids raw d = Inr d'"
    and unique: "distinct (map i_id (db_issues (core_of d)))" "distinct (map sp_id (de_snapshots d))"
  shows "applyQueueAction show_js parse_url new' now' cx key qid sid ids' raw' d' \<in> {Inl 404, Inl 409}"
proof -
  from apply_parts [OF act] obtain s p def chosen bp d1 a where read: "readQueueSnapshot show_js now cx key qid sid d = Inr (s, p, def)"
    and sel: "selected_ids (sp_rows s) ids = Inr chosen"
    and run: "fold_result (bulk_one parse_url new now bp (sp_rows s)) chosen d = Inr d1" and d': "d' = add_audit a d1" by blast
  note chosen = selected_distinct [OF sel]
  from bulk_all_effect [OF run _ unique(1)] chosen obtain g where frame1: "same_frame d d1"
    and g: "db_issues (core_of d1) = map g (db_issues (core_of d))"
      "\<And>x. x \<in> set (db_issues (core_of d)) \<Longrightarrow> if i_id x \<in> set chosen then triaged bp (sp_rows s) x (g x) else g x = x"
    and known: "set chosen \<subseteq> i_id ` set (db_issues (core_of d))" by blast
  have frame: "same_frame d d'" unfolding d' using frame1 add_audit_frame(1) same_frame_trans by blast
  have issues: "db_issues (core_of d') = map g (db_issues (core_of d))" by (simp add: d' add_audit_frame(2) g(1))
  from read have s: "s \<in> set (de_snapshots d)" "sp_id s = sid"
    by (auto simp: readQueueSnapshot_def Let_def bind_result_eq_Inr split: option.splits if_splits dest!: find_SomeD)
  have gid: "i_id (g x) = i_id x" if "x \<in> set (db_issues (core_of d))" for x
    using g(2) [OF that] by (auto simp: triaged_def split: if_splits)
  from chosen known obtain x where x: "x \<in> set (db_issues (core_of d))" "i_id x \<in> set chosen" by (cases chosen) auto
  with g(2) [OF x(1)] obtain r where r: "r \<in> set (sp_rows s)" "qr_id r = i_id x" "qr_version r = i_version x" "i_version (g x) = i_version x + 1"
    by (auto simp: triaged_def)
  have stale: "map_of (map (\<lambda>i. (i_id i, i_version i)) (filter P (db_issues (core_of d')))) (qr_id r) \<noteq> Some (qr_version r)" for P
  proof
    assume "map_of (map (\<lambda>i. (i_id i, i_version i)) (filter P (db_issues (core_of d')))) (qr_id r) = Some (qr_version r)"
    then obtain y where y: "y \<in> set (db_issues (core_of d))" "i_id (g y) = qr_id r" "i_version (g y) = qr_version r"
      by (auto dest!: map_of_SomeD simp: issues)
    then have "y = x" using unique_key [OF unique(1) y(1) x(1)] gid [OF y(1)] r(2) by simp
    with y r show False by simp
  qed
  have "readQueueSnapshot show_js now' cx key qid sid d' \<in> {Inl 404, Inl 409}"
  proof (cases "queueProject (core_of d') cx key False")
    case (Inl n)
    then show ?thesis using queueProject_refuses by (auto simp: readQueueSnapshot_def)
  next
    case (Inr q)
    let ?s = "find (\<lambda>s. sp_id s = sid \<and> sp_queueId s = qid \<and> sp_userId s = cx_userId cx \<and> now' < sp_expiresAt s) (de_snapshots d')"
    show ?thesis
    proof (cases ?s)
      case None
      then show ?thesis using Inr by (simp add: readQueueSnapshot_def)
    next
      case (Some s2)
      then have "s2 \<in> set (de_snapshots d)" "sp_id s2 = sid"
        using frame find_SomeD [OF Some] by (simp_all add: same_frame_def)
      then have "s2 = s" using unique_key [OF unique(2) _ s(1)] s(2) by simp
      then show ?thesis using Inr Some stale r(1) by (auto simp: readQueueSnapshot_def Let_def list_ex_iff split: option.splits)
    qed
  qed
  then show ?thesis
    using queueProject_refuses [of "core_of d'" cx key True]
    by (cases "queueProject (core_of d') cx key True") (auto simp: applyQueueAction_def)
qed

section \<open>Stored definitions\<close>

lemma filter_entry_Some: "filter_entry e = Some (k, v) \<longleftrightarrow> e = (k, JStr v) \<and> k \<in> set FILTERS \<and> length v \<le> 100"
  by (cases e) (auto simp: filter_entry_def split: js.splits if_splits)

definition stored_filters :: "(string \<times> string) list \<Rightarrow> jobj" where
  "stored_filters fs = map (\<lambda>(k, v). (k, JStr v)) fs"

lemma stored_filters_read:
  assumes "\<forall>(k, v)\<in>set fs. k \<in> set FILTERS \<and> length v \<le> 100"
  shows "\<not> list_ex (\<lambda>e. filter_entry e = None) (stored_filters fs) \<and> List.map_filter filter_entry (stored_filters fs) = fs"
  using assms by (induction fs) (auto simp: stored_filters_def filter_entry_def List.map_filter_simps)

lemma parse_filters_again:
  assumes "parse_filters v = Inr fs"
  shows "parse_filters (JObj (stored_filters fs)) = Inr fs"
proof -
  from assms obtain o' where o': "v = JObj o'" and fs: "fs = filter (\<lambda>(_, s). s \<noteq> []) (List.map_filter filter_entry o')"
    by (auto simp: parse_filters_def Let_def split: option.splits if_splits)
  have "\<forall>(k, w)\<in>set fs. k \<in> set FILTERS \<and> length w \<le> 100"
    by (auto simp: fs map_filter_member filter_entry_Some)
  note read = stored_filters_read [OF this]
  have "filter (\<lambda>(_, s). s \<noteq> []) fs = fs" by (simp add: fs)
  then show ?thesis
    using assms read unfolding parse_filters_def o' by (simp add: Let_def fs [symmetric] split: if_splits)
qed

lemma parse_columns_again: "parse_columns v = Inr cs \<Longrightarrow> parse_columns (JArr (map JStr cs)) = Inr cs"
  by (auto simp: parse_columns_def all_strings_iff split: option.splits if_splits)

text \<open>
  What a route stores for an accepted definition is read back as that definition, by the snapshots and
  by a later edit that leaves it out.
\<close>

theorem queue_definition_round_trip:
  assumes "parseQueueDefinition show_js v = Inr def"
  shows "parseQueueDefinition show_js (definition_json def) = Inr def"
proof -
  from assms obtain o' fs cols where fs: "parse_filters (nullish (field ''filters'' o') (JObj [])) = Inr fs"
    and cols: "parse_columns (nullish (field ''columns'' o') default_columns) = Inr cols"
    and def: "qd_filters def = fs" "qd_columns def = cols" "qd_direction def = nullish (field ''direction'' o') (JStr ''asc'')"
    and ok: "qd_grouping def \<in> {''none'', ''status'', ''priority'', ''assignee'', ''requestType'', ''organization'', ''slaState''}"
      "qd_sort def \<in> {''createdAt'', ''updatedAt'', ''priority'', ''summary''}" "js_text show_js (qd_direction def) \<in> {''asc'', ''desc''}"
    by (auto simp: parseQueueDefinition_def Let_def bind_result_eq_Inr split: option.splits if_splits)
  have "qd_direction def \<noteq> JUndef \<and> qd_direction def \<noteq> JNull" unfolding def(3) nullish_def by simp
  then have direction: "nullish (qd_direction def) d = qd_direction def" for d by (simp add: nullish_def)
  have shown: "nullish (JStr s) d = JStr s" "js_text show_js (JStr s) = s" for s d by (simp_all add: nullish_def js_text_def)
  show ?thesis
    unfolding parseQueueDefinition_def definition_json_def
    using ok parse_filters_again [OF fs] parse_columns_again [OF cols] direction shown
    by (simp add: field_def keys_of_def nullish_def def(1,2) stored_filters_def Let_def)
qed

section \<open>Default queues\<close>

text \<open>A queue is the default of its project and visibility, a private one of its owner besides.\<close>

definition default_group :: "service_queue \<Rightarrow> string \<times> string \<times> string" where
  "default_group q = (sq_projectId q, sq_visibility q, if sq_visibility q = ''PRIVATE'' then sq_ownerId q else [])"

definition queues_ok :: "desk \<Rightarrow> bool" where
  "queues_ok d \<longleftrightarrow> distinct (map sq_id (de_queues d))
     \<and> (\<forall>x\<in>set (de_queues d). \<forall>y\<in>set (de_queues d). sq_isDefault x \<and> sq_isDefault y \<and> default_group x = default_group y \<longrightarrow> x = y)"

datatype queue_event =
    Post_Queue string "auth_context option" string jobj
  | Patch_Queue "auth_context option" string string jobj

text \<open>A refused request leaves the queues alone, and the primary key refuses a second queue with an id.\<close>

fun queue_step :: "(js \<Rightarrow> string) \<Rightarrow> queue_event \<Rightarrow> desk \<Rightarrow> desk" where
  "queue_step show_js (Post_Queue new context key body) d =
     (if new \<in> sq_id ` set (de_queues d) then d
      else case queue_POST show_js new context key body d of Inl _ \<Rightarrow> d | Inr d' \<Rightarrow> d')"
| "queue_step show_js (Patch_Queue context key qid body) d =
     (case queue_PATCH show_js context key qid body d of Inl _ \<Rightarrow> d | Inr d' \<Rightarrow> d')"

lemma clear_default_fields [simp]:
  "sq_id (clear_default q) = sq_id q" "\<not> sq_isDefault (clear_default q)" "default_group (clear_default q) = default_group q"
  by (simp_all add: clear_default_def default_group_def)

lemma edit_queue_fields [simp]:
  "sq_id (edit_queue body name def q) = sq_id q" "default_group (edit_queue body name def q) = default_group q"
  "sq_isDefault (edit_queue body name def q) = (case field ''isDefault'' body of JBool b \<Rightarrow> b | _ \<Rightarrow> sq_isDefault q)"
  by (simp_all add: edit_queue_def default_group_def)

lemma queue_audit_queues [simp]: "de_queues (queue_audit cx a q p d) = de_queues d"
  by (simp add: queue_audit_def add_audit_def)

lemma same_default_group_iff:
  "same_default_group pid v uid q \<longleftrightarrow> default_group q = (pid, v, if v = ''PRIVATE'' then uid else [])"
  by (auto simp: same_default_group_def default_group_def)

text \<open>The list of queues after a step, one queue at a time.\<close>

lemma queues_okI:
  assumes "queues_ok d" and "de_queues d' = map h (de_queues d)" and "\<And>q. sq_id (h q) = sq_id q \<and> default_group (h q) = default_group q"
    and "\<And>x y. x \<in> set (de_queues d) \<Longrightarrow> y \<in> set (de_queues d) \<Longrightarrow> sq_isDefault (h x) \<Longrightarrow> sq_isDefault (h y)
           \<Longrightarrow> default_group x = default_group y \<Longrightarrow> x = y"
  shows "queues_ok d'"
proof -
  have "map sq_id (de_queues d') = map sq_id (de_queues d)" by (simp add: assms(2,3))
  moreover have "\<forall>x\<in>set (de_queues d'). \<forall>y\<in>set (de_queues d'). sq_isDefault x \<and> sq_isDefault y \<and> default_group x = default_group y \<longrightarrow> x = y"
    using assms(3,4) by (auto simp: assms(2))
  ultimately show ?thesis using assms(1) unfolding queues_ok_def by simp
qed

lemma queues_ok_snoc:
  assumes "queues_ok (d\<lparr>de_queues := qs\<rparr>)" and "de_queues d' = qs @ [q]" and "sq_id q \<notin> sq_id ` set qs"
    and "\<And>x. sq_isDefault x \<Longrightarrow> sq_isDefault q \<Longrightarrow> default_group x = default_group q \<Longrightarrow> x = q \<or> x \<notin> set qs"
  shows "queues_ok d'"
proof -
  have "x = y" if xy: "x \<in> set qs \<union> {q}" "y \<in> set qs \<union> {q}" "sq_isDefault x \<and> sq_isDefault y \<and> default_group x = default_group y" for x y
    using assms(1) assms(4) [of x] assms(4) [of y] xy unfolding queues_ok_def by (cases "x = q"; cases "y = q") simp_all
  moreover have "distinct (map sq_id (qs @ [q]))" using assms(1,3) by (simp add: queues_ok_def)
  ultimately show ?thesis unfolding queues_ok_def assms(2) by simp
qed

lemma queue_POST_row:
  assumes "queue_POST show_js new context key body d = Inr d'"
  shows "\<exists>cx (p :: project) name v def. de_queues d' = clear_defaults body (same_default_group (p_id p) v (cx_userId cx)) (de_queues d)
    @ [created_queue cx (p_id p) new name v def body]"
proof -
  from assms obtain cx and p :: project and def where d': "queue_audit cx ''service.queue.created'' new (p_id p) (d\<lparr>de_queues :=
      clear_defaults body (same_default_group (p_id p) (js_text show_js (nullish (field ''visibility'' body) (JStr ''PRIVATE''))) (cx_userId cx)) (de_queues d)
      @ [created_queue cx (p_id p) new (trim (string_or_empty (field ''name'' body)))
          (js_text show_js (nullish (field ''visibility'' body) (JStr ''PRIVATE''))) def body]\<rparr>) = d'"
    unfolding queue_POST_def by (simp only: handler_simps) (elim exE conjE, rule that, assumption)
  show ?thesis unfolding d' [symmetric] queue_audit_queues by (intro exI) simp
qed

lemma queue_POST_ok:
  assumes "queue_POST show_js new context key body d = Inr d'" and "queues_ok d" and "new \<notin> sq_id ` set (de_queues d)"
  shows "queues_ok d'"
proof -
  from queue_POST_row [OF assms(1)] obtain cx and p :: project and name v def
    where d': "de_queues d' = clear_defaults body (same_default_group (p_id p) v (cx_userId cx)) (de_queues d)
      @ [created_queue cx (p_id p) new name v def body]" by (elim exE)
  define q where "q = created_queue cx (p_id p) new name v def body"
  have q: "sq_id q = new" "sq_isDefault q = (field ''isDefault'' body = JBool True)"
    "\<And>x. same_default_group (p_id p) v (cx_userId cx) x \<longleftrightarrow> default_group x = default_group q"
    by (auto simp: q_def created_queue_def same_default_group_iff default_group_def)
  define h where "h = (\<lambda>x. if sq_isDefault q \<and> default_group x = default_group q then clear_default x else x)"
  have qs: "de_queues d' = map h (de_queues d) @ [q]"
    unfolding d' q_def [symmetric] clear_defaults_def q(3) h_def q(2) by simp
  have "queues_ok (d\<lparr>de_queues := map h (de_queues d)\<rparr>)"
    by (rule queues_okI [OF assms(2), where h = h])
      (use assms(2) in \<open>auto simp: h_def queues_ok_def split: if_splits\<close>)
  moreover have "x = q \<or> x \<notin> set (map h (de_queues d))" if "sq_isDefault x" "sq_isDefault q" "default_group x = default_group q" for x
    using that by (auto simp: h_def split: if_splits)
  moreover have "new \<notin> sq_id ` set (map h (de_queues d))" using assms(3) by (auto simp: h_def)
  ultimately show ?thesis using queues_ok_snoc [OF _ qs] q(1) by blast
qed

lemma queue_PATCH_row:
  assumes "queue_PATCH show_js context key qid body d = Inr d'"
  shows "\<exists>cx (p :: project) q name def. visible_queue d cx (p_id p) qid = Some q \<and> (sq_visibility q = ''PRIVATE'' \<longrightarrow> sq_ownerId q = cx_userId cx)
    \<and> de_queues d' = map (\<lambda>x. if sq_id x = qid \<and> sq_version x = sq_version q then edit_queue body name def x else x)
        (clear_defaults body (\<lambda>x. same_default_group (p_id p) (sq_visibility q) (cx_userId cx) x \<and> sq_id x \<noteq> qid) (de_queues d))"
proof -
  let ?name = "\<lambda>q. if field ''name'' body = JUndef then sq_name q else trim (string_or_empty (field ''name'' body))"
  let ?edit = "\<lambda>q def x. if sq_id x = qid \<and> sq_version x = sq_version q then edit_queue body (?name q) def x else x"
  let ?clear = "\<lambda>cx pid q. clear_defaults body (\<lambda>x. same_default_group pid (sq_visibility q) (cx_userId cx) x \<and> sq_id x \<noteq> qid) (de_queues d)"
  from assms obtain cx and p :: project and q def where found: "visible_queue d cx (p_id p) qid = Some q"
    and allowed: "\<not> (sq_visibility q = ''PRIVATE'' \<and> sq_ownerId q \<noteq> cx_userId cx
      \<or> sq_visibility q = ''TEAM'' \<and> \<not> requireProjectPermission (core_of d) cx (p_id p) Project_Admin)"
    and d': "queue_audit cx ''service.queue.updated'' qid (p_id p) (d\<lparr>de_queues := map (?edit q def) (?clear cx (p_id p) q)\<rparr>) = d'"
    unfolding queue_PATCH_def by (simp only: handler_simps) (elim exE conjE, rule that, assumption+)
  have "de_queues d' = map (?edit q def) (?clear cx (p_id p) q)"
    unfolding d' [symmetric] queue_audit_queues by simp
  with found allowed show ?thesis by (intro exI conjI) (assumption | simp)+
qed

lemma queue_PATCH_ok:
  assumes "queue_PATCH show_js context key qid body d = Inr d'" and "queues_ok d"
  shows "queues_ok d'"
proof -
  from queue_PATCH_row [OF assms(1)] obtain cx and p :: project and q name def where found: "visible_queue d cx (p_id p) qid = Some q"
    and owner: "sq_visibility q = ''PRIVATE'' \<longrightarrow> sq_ownerId q = cx_userId cx"
    and d': "de_queues d' = map (\<lambda>x. if sq_id x = qid \<and> sq_version x = sq_version q then edit_queue body name def x else x)
        (clear_defaults body (\<lambda>x. same_default_group (p_id p) (sq_visibility q) (cx_userId cx) x \<and> sq_id x \<noteq> qid) (de_queues d))" by (elim exE conjE)
  from found have q: "q \<in> set (de_queues d)" "sq_id q = qid" "sq_projectId q = p_id p"
    unfolding visible_queue_def by (auto dest: find_SomeD)
  have group: "same_default_group (p_id p) (sq_visibility q) (cx_userId cx) x \<longleftrightarrow> default_group x = default_group q" for x
    using q(3) owner by (auto simp: same_default_group_iff default_group_def)
  define h where "h = (\<lambda>x. if sq_id x = qid then (if sq_version x = sq_version q then edit_queue body name def x else x)
     else if field ''isDefault'' body = JBool True \<and> default_group x = default_group q then clear_default x else x)"
  have qs: "de_queues d' = map h (de_queues d)"
    unfolding d' h_def group clear_defaults_def by (auto simp: clear_default_def)
  have ids: "distinct (map sq_id (de_queues d))" using assms(2) by (simp add: queues_ok_def)
  have same: "x = q" if "x \<in> set (de_queues d)" "sq_id x = qid" for x
    using unique_key [OF ids that(1) q(1)] that(2) q(2) by simp
  have before: "sq_isDefault x" if "sq_isDefault (h x)" "field ''isDefault'' body \<noteq> JBool True \<or> sq_id x \<noteq> qid" for x
    using that by (auto simp: h_def split: if_splits js.splits)
  have only: "sq_id x = qid" if "sq_isDefault (h x)" "field ''isDefault'' body = JBool True" "default_group x = default_group q" for x
    using that by (auto simp: h_def split: if_splits)
  show ?thesis
  proof (rule queues_okI [OF assms(2) qs])
    show "sq_id (h x) = sq_id x \<and> default_group (h x) = default_group x" for x by (simp add: h_def)
  next
    fix x y assume xy: "x \<in> set (de_queues d)" "y \<in> set (de_queues d)" "sq_isDefault (h x)" "sq_isDefault (h y)" "default_group x = default_group y"
    show "x = y"
    proof (cases "field ''isDefault'' body = JBool True \<and> default_group x = default_group q")
      case True
      then have "sq_id x = qid" "sq_id y = qid" using only [OF xy(3)] only [OF xy(4)] xy(5) by simp_all
      then have "x = q" "y = q" using same [OF xy(1)] same [OF xy(2)] by blast+
      then show ?thesis by simp
    next
      case False
      then have "sq_id x \<noteq> qid \<or> field ''isDefault'' body \<noteq> JBool True" "sq_id y \<noteq> qid \<or> field ''isDefault'' body \<noteq> JBool True"
        using xy same by auto
      then have "sq_isDefault x \<and> sq_isDefault y" using before [OF xy(3)] before [OF xy(4)] by blast
      then show ?thesis using xy assms(2) by (auto simp: queues_ok_def)
    qed
  qed
qed

interpretation queue_list: kept "queue_step show_js" queues_ok for show_js
proof
  fix d e assume "queues_ok d"
  then show "queues_ok (queue_step show_js e d)"
    by (cases e) (auto intro: queue_POST_ok queue_PATCH_ok split: sum.splits)
qed

text \<open>
  However queues are created and edited, a project has at most one default team queue, and each agent at
  most one private default in it.
\<close>

theorem one_default_queue:
  assumes "queues_ok d" and "d' = fold (queue_step show_js) es d"
    and "x \<in> set (de_queues d')" and "y \<in> set (de_queues d')" and "sq_isDefault x" and "sq_isDefault y"
    and "sq_projectId x = sq_projectId y" and "sq_visibility x = sq_visibility y" and "sq_visibility x = ''PRIVATE'' \<Longrightarrow> sq_ownerId x = sq_ownerId y"
  shows "x = y"
proof -
  have "default_group x = default_group y" using assms(7-9) by (simp add: default_group_def)
  then show ?thesis using queue_list.run_inv [OF assms(1), of show_js es] assms(2-6) unfolding queues_ok_def by blast
qed

section \<open>Metrics\<close>

definition tally :: "(string \<times> nat) list \<Rightarrow> string \<Rightarrow> nat" where
  "tally m k = (case map_of m k of None \<Rightarrow> 0 | Some n \<Rightarrow> n)"

lemma map_of_bump: "map_of (bump k m) x = (if x = k then Some (Suc (tally m k)) else map_of m x)"
proof (cases "map_of m k")
  case None
  then show ?thesis by (auto simp: bump_def tally_def map_add_def split: option.splits)
next
  case (Some n)
  have "map_of (map (\<lambda>(a, b). (a, if a = k then n + 1 else b)) m) x = (if x = k then map_option (\<lambda>_. n + 1) (map_of m k) else map_of m x)"
    by (induction m) auto
  with Some show ?thesis by (simp add: bump_def tally_def)
qed

lemma workload_map:
  "map_of (fold (\<lambda>r. bump (qr_assignee r)) rows m) k
     = (let n = count_rows (\<lambda>r. qr_assignee r = k) rows in if n = 0 then map_of m k else Some (tally m k + n))"
proof (induction rows arbitrary: m)
  case (Cons r rows)
  then show ?case
    by (cases "qr_assignee r = k") (auto simp: count_rows_def map_of_bump tally_def Let_def)
qed (simp add: count_rows_def)

text \<open>The workload counts every row of the snapshot under its assignee and lists nobody else.\<close>

theorem workload_is_exact:
  "map_of (qm_workload (queueMetrics rows now)) who
     = (let n = count_rows (\<lambda>r. qr_assignee r = who) rows in if n = 0 then None else Some n)"
  unfolding queueMetrics_def by (simp add: workload_map tally_def)

section \<open>Sample desk\<close>

definition queue_agent :: auth_context where
  "queue_agent = \<lparr>cx_userId = ''amy'', cx_workspaceId = ''w'', cx_role = WMember\<rparr>"

definition queue_core :: workspace_db where
  "queue_core = sample_portal_core\<lparr>db_projectMembers := [\<lparr>pm_projectId = ''p'', pm_userId = ''amy'', pm_role = PMember\<rparr>],
     db_workspaceMembers := [\<lparr>wm_workspaceId = ''w'', wm_userId = ''amy'', wm_role = WMember, wm_deactivatedAt = None\<rparr>]\<rparr>"

definition urgent_filters :: js where
  "urgent_filters = JObj [(''filters'', JObj [(''priority'', JStr ''URGENT''), (''label'', JStr [])]), (''sort'', JStr ''summary'')]"

definition urgent_definition :: queue_definition where
  "urgent_definition = \<lparr>qd_filters = [(''priority'', ''URGENT'')], qd_columns = [''summary'', ''status'', ''priority'', ''assignee'', ''slaState''],
     qd_grouping = ''none'', qd_sort = ''summary'', qd_direction = JStr ''asc''\<rparr>"

definition sample_queue :: "string \<Rightarrow> service_queue" where
  "sample_queue i = \<lparr>sq_id = i, sq_projectId = ''p'', sq_ownerId = ''amy'', sq_name = ''Urgent'', sq_visibility = ''TEAM'',
     sq_definition = definition_json urgent_definition, sq_position = 0, sq_isDefault = True, sq_version = 1\<rparr>"

definition sample_snapshot :: queue_snapshot where
  "sample_snapshot = \<lparr>sp_id = ''sn'', sp_queueId = ''q'', sp_queueVersion = 1, sp_userId = ''amy'',
     sp_rows = [\<lparr>qr_id = ''i'', qr_requestId = ''r'', qr_version = 1, qr_summary = ''one'', qr_number = 1, qr_status = ''Open'', qr_statusId = ''s'',
       qr_priority = ''MEDIUM'', qr_assignee = ''Unassigned'', qr_assigneeId = None, qr_requestType = ''Help'', qr_organization = ''None'',
       qr_createdAt = 0, qr_updatedAt = 0, qr_slaState = ''NONE'', qr_slaGoal = ''None'', qr_slaRemaining = ''None'', qr_customerResponse = None\<rparr>],
     sp_createdAt = 0, sp_expiresAt = 300000\<rparr>"

definition queue_tracker :: tracker where
  "queue_tracker = board_tracker\<lparr>tk_core := queue_core\<rparr>"

definition queue_desk :: desk where
  "queue_desk = \<lparr>de_tracker = queue_tracker, de_portal = sample_portal, de_requestTypes = [], de_calendars = [], de_calendarVersions = [],
     de_goals = [], de_goalVersions = [], de_signals = [], de_signalSequence = 0, de_cycles = [], de_events = [],
     de_portalNotifications = [], de_portalComments = [], de_queues = [sample_queue ''q''], de_snapshots = [sample_snapshot]\<rparr>"

definition claim_one :: "desk \<Rightarrow> (nat, desk) result" where
  "claim_one = applyQueueAction (\<lambda>_. []) (\<lambda>_. None) (\<lambda>_. ''x'') 5 queue_agent ''sd'' ''q'' ''sn'' (JArr [JStr ''i'']) (JObj [(''claim'', JBool True)])"

definition claimed_desk :: desk where
  "claimed_desk = (case claim_one queue_desk of Inr d \<Rightarrow> d | Inl _ \<Rightarrow> queue_desk)"

lemma claimed: "claim_one queue_desk = Inr claimed_desk"
proof -
  have "isl (claim_one queue_desk) = False" by code_simp
  then show ?thesis unfolding claimed_desk_def by (cases "claim_one queue_desk") simp_all
qed

lemma queue_desk_keys:
  "distinct (map i_id (db_issues (core_of queue_desk))) \<and> distinct (map sp_id (de_snapshots queue_desk)) \<and> queues_ok queue_desk"
  by (simp add: queue_desk_def queue_tracker_def queue_core_def sample_portal_core_def queues_ok_def sample_queue_def)

theorem bulk_action_is_exact_witness:
  "\<exists>s p def chosen bp. readQueueSnapshot (\<lambda>_. []) 5 queue_agent ''sd'' ''q'' ''sn'' queue_desk = Inr (s, p, def)
    \<and> selected_ids (sp_rows s) (JArr [JStr ''i'']) = Inr chosen
    \<and> bp_context bp = queue_agent \<and> bp_project bp = p \<and> bp_secure bp = issueSecurityWhere (core_of queue_desk) queue_agent (Some [p_id p])
    \<and> list_all2 (\<lambda>x y. if i_id x \<in> set chosen then triaged bp (sp_rows s) x y else y = x)
        (db_issues (core_of queue_desk)) (db_issues (core_of claimed_desk))"
  using bulk_action_is_exact [OF claimed [unfolded claim_one_def]] queue_desk_keys by blast

theorem snapshot_acts_once_witness: "claim_one claimed_desk \<in> {Inl 404, Inl 409}"
  unfolding claim_one_def using snapshot_acts_once [OF claimed [unfolded claim_one_def]] queue_desk_keys by blast

theorem queue_definition_round_trip_witness:
  "parseQueueDefinition (\<lambda>_. []) (definition_json urgent_definition) = Inr urgent_definition"
proof (rule queue_definition_round_trip)
  show "parseQueueDefinition (\<lambda>_. []) urgent_filters = Inr urgent_definition" by code_simp
qed

definition posted_desk :: desk where
  "posted_desk = fold (queue_step (\<lambda>_. []))
     [Post_Queue ''q2'' (Some queue_agent) ''sd'' [(''name'', JStr ''Mine''), (''isDefault'', JBool True)]] queue_desk"

theorem one_default_queue_witness: "length (de_queues posted_desk) = 2 \<and> hd (de_queues posted_desk) = sample_queue ''q''"
proof
  show n: "length (de_queues posted_desk) = 2" by code_simp
  have known: "hd (de_queues posted_desk) \<in> set (de_queues posted_desk)" using n by (intro hd_in_set) auto
  have fields: "list_all (\<lambda>q. sq_isDefault q \<and> sq_projectId q = ''p'' \<and> sq_visibility q = ''TEAM'') [hd (de_queues posted_desk), sample_queue ''q'']"
    by code_simp
  have there: "list_ex (\<lambda>q. q = sample_queue ''q'') (de_queues posted_desk)" by code_simp
  show "hd (de_queues posted_desk) = sample_queue ''q''"
    by (rule one_default_queue [OF _ posted_desk_def known]) (use fields there queue_desk_keys in \<open>auto simp: list_ex_iff\<close>)
qed

end
