(* ===== verification/SlaWorker.thy ===== *)
theory SlaWorker
  imports ServiceDesk
begin

text \<open>
  Service-level timers: the signals that changes of a request leave (\<open>src/lib/sla-signals.ts\<close> and the
  trigger \<open>capture_sla_signal\<close> of the migration \<open>20260902200000\<close>), and the worker that turns signals and
  the passing of time into cycles, events and alerts (\<open>ops/sla-worker.mjs\<close>). Enqueuing and processing
  lock the row of the request, so each is one step on the database.
\<close>

section \<open>Signals\<close>

text \<open>What a timer sees of a request.\<close>

definition signal_payload :: "desk \<Rightarrow> service_request \<Rightarrow> issue \<Rightarrow> string \<Rightarrow> js" where
  "signal_payload d r i event =
     JObj [(''event'', JStr event), (''statusId'', JStr (i_statusId i)),
       (''statusCategory'', case status_row (de_tracker d) (i_statusId i) of None \<Rightarrow> JNull | Some s \<Rightarrow> JStr (category_name (st_category s))),
       (''requestTypeId'', JStr (sr_requestTypeId r)), (''priority'', JStr (priority_name (i_priority i))),
       (''organizationId'', JStr (case sr_organizationId r of None \<Rightarrow> [] | Some x \<Rightarrow> x)),
       (''labels'', JArr (map (\<lambda>(_, l). JStr l) (filter (\<lambda>(x, _). x = i_id i) (tk_issueLabels (de_tracker d))))),
       (''fields'', JObj (map (\<lambda>(f, _, v). (f, v)) (filter (\<lambda>(_, x, _). x = i_id i) (tk_values (de_tracker d)))))]"

definition current_version :: "desk \<Rightarrow> sla_goal \<Rightarrow> goal_version option" where
  "current_version d g = first_by (\<lambda>v. - gv_version v) (\<lambda>v. gv_goalId v = gl_id g) (de_goalVersions d)"

text \<open>The goals of a project in order, and the first one of each metric whose conditions hold.\<close>

definition project_goals :: "desk \<Rightarrow> string \<Rightarrow> sla_goal list" where
  "project_goals d pid =
     sort_key gl_position (sort_key gl_id (filter (\<lambda>g. gl_projectId g = pid \<and> gl_enabled g) (de_goals d)))"

definition pick_goal :: "desk \<Rightarrow> js \<Rightarrow> sla_goal \<Rightarrow> string list \<times> string list \<Rightarrow> string list \<times> string list" where
  "pick_goal d payload g st =
     (let (metrics, ids) = st in
      case current_version d g of
        None \<Rightarrow> st
      | Some v \<Rightarrow> if gl_metric g \<in> set metrics \<or> \<not> matches_all (gv_conditions v) payload then st
                  else (gl_metric g # metrics, ids @ [gv_id v]))"

definition signals_of :: "desk \<Rightarrow> string \<Rightarrow> sla_signal list" where
  "signals_of d rid = filter (\<lambda>s. sg_requestId s = rid) (de_signals d)"

definition last_signal :: "desk \<Rightarrow> string \<Rightarrow> sla_signal option" where
  "last_signal d rid = (case rev (signals_of d rid) of [] \<Rightarrow> None | s # _ \<Rightarrow> Some s)"

definition add_signal :: "service_request \<Rightarrow> string \<Rightarrow> time \<Rightarrow> js \<Rightarrow> string list \<Rightarrow> desk \<Rightarrow> desk" where
  "add_signal r eventKey happened payload goalIds d =
     (if list_ex (\<lambda>s. sg_eventKey s = eventKey) (de_signals d) then d
      else d\<lparr>de_signals := de_signals d @ [\<lparr>sg_id = Suc (de_signalSequence d), sg_requestId = sr_id r, sg_eventKey = eventKey,
               sg_happenedAt = happened, sg_payload = payload, sg_goalIds = goalIds, sg_processedAt = None\<rparr>],
             de_signalSequence := Suc (de_signalSequence d)\<rparr>)"

text \<open>\<open>Math.max\<close> of the clock, the previous signal of the request and the worker's last check.\<close>

definition signal_time :: "desk \<Rightarrow> service_request \<Rightarrow> time \<Rightarrow> time" where
  "signal_time d r now =
     max (max now (case last_signal d (sr_id r) of None \<Rightarrow> 0 | Some s \<Rightarrow> sg_happenedAt s))
         (case sr_slaCheckedAt r of None \<Rightarrow> 0 | Some t \<Rightarrow> t)"

definition enqueueSlaSignal :: "time \<Rightarrow> string \<Rightarrow> string \<Rightarrow> string \<Rightarrow> time option \<Rightarrow> desk \<Rightarrow> desk" where
  "enqueueSlaSignal now issueId event eventKey happenedAt d =
     (case (request_of_issue d issueId, issue_row (de_tracker d) issueId) of
        (Some r, Some i) \<Rightarrow>
          (let prior_done = (case last_signal d (sr_id r) of None \<Rightarrow> False
                 | Some s \<Rightarrow> js_get ''statusCategory'' (sg_payload s) = JStr ''DONE'');
               open_now = (case status_row (de_tracker d) (i_statusId i) of None \<Rightarrow> False | Some s \<Rightarrow> st_category s \<noteq> Done);
               payload = signal_payload d r i (if prior_done \<and> open_now then ''request.reopened'' else event);
               goalIds = snd (fold (pick_goal d payload) (project_goals d (sr_projectId r)) ([], []))
           in if goalIds = [] \<and> \<not> list_ex (\<lambda>c. cy_requestId c = sr_id r) (de_cycles d) then d
              else add_signal r eventKey (signal_time d r (case happenedAt of None \<Rightarrow> now | Some t \<Rightarrow> t)) payload goalIds d)
      | _ \<Rightarrow> d)"

text \<open>The trigger: the versions of all enabled goals, and the latest of all signals of the request.\<close>

definition captured_time :: "desk \<Rightarrow> service_request \<Rightarrow> time \<Rightarrow> time" where
  "captured_time d r now =
     fold max (map sg_happenedAt (signals_of d (sr_id r))) (case sr_slaCheckedAt r of None \<Rightarrow> now | Some t \<Rightarrow> max now t)"

definition capture_sla_signal :: "time \<Rightarrow> string \<Rightarrow> string \<Rightarrow> string \<Rightarrow> desk \<Rightarrow> desk" where
  "capture_sla_signal now issueId event uuid d =
     (case (request_of_issue d issueId, issue_row (de_tracker d) issueId) of
        (Some r, Some i) \<Rightarrow>
          (let ids = List.map_filter (\<lambda>g. map_option gv_id (find (\<lambda>v. gv_goalId v = gl_id g \<and> gv_version v = gl_currentVersion g) (de_goalVersions d)))
                 (project_goals d (sr_projectId r))
           in if ids = [] \<and> \<not> list_ex (\<lambda>c. cy_requestId c = sr_id r) (de_cycles d) then d
              else add_signal r (''db:'' @ uuid) (captured_time d r now) (signal_payload d r i event) ids d)
      | _ \<Rightarrow> d)"

section \<open>Events and alerts\<close>

datatype worker_error = Engine sla_error | Missing_Version | Duplicate_Cycle | Missing_Request

definition version_of :: "desk \<Rightarrow> string \<Rightarrow> (goal_version \<times> calendar) option" where
  "version_of d i =
     Option.bind (find (\<lambda>v. gv_id v = i) (de_goalVersions d)) (\<lambda>v.
       map_option (\<lambda>cv. (v, cv_config cv)) (find (\<lambda>cv. cv_id cv = gv_calendarVersionId v) (de_calendarVersions d)))"

definition alert_types :: "string list" where
  "alert_types = [''sla.risk'', ''sla.breached'', ''sla.succeeded'']"

definition alert_title :: "string \<Rightarrow> string" where
  "alert_title type = (if type = ''sla.breached'' then ''Service goal overdue'' else if type = ''sla.risk'' then ''Service goal approaching''
     else ''Service goal completed'')"

definition portal_message :: "string \<Rightarrow> string" where
  "portal_message type =
     (if type = ''sla.breached'' then ''Your service target is overdue. The team has been notified.''
      else if type = ''sla.succeeded'' then ''Your service target was completed.'' else ''Your service target is approaching.'')"

definition scoped_to :: "string option \<Rightarrow> string \<Rightarrow> bool" where
  "scoped_to row pid \<longleftrightarrow> row = None \<or> row = Some pid"

definition alert_rows :: "outbox_config \<Rightarrow> service_request \<Rightarrow> string \<Rightarrow> js \<Rightarrow> string \<Rightarrow> outbox \<Rightarrow> outbox" where
  "alert_rows cfg r type payload eventKey ob =
     (let rules = filter (\<lambda>x. ar_workspaceId x = sr_workspaceId r \<and> ar_enabled x \<and> scoped_to (ar_projectId x) (sr_projectId r)
            \<and> js_get ''event'' (ar_trigger x) = JStr type) (oc_rules cfg);
          subscriptions = filter (\<lambda>x. wh_workspaceId x = sr_workspaceId r \<and> wh_enabled x \<and> type \<in> set (wh_events x)
            \<and> scoped_to (wh_projectId x) (sr_projectId r)) (oc_subscriptions cfg)
      in ob\<lparr>ob_jobs := insert_new job_key
              (map (\<lambda>x. \<lparr>aj_ruleId = ar_id x, aj_eventId = eventKey, aj_event = type, aj_payload = payload, aj_depth = 0\<rparr>) rules) (ob_jobs ob),
            ob_webhooks := insert_new delivery_key
              (map (\<lambda>x. \<lparr>dv_target = wh_id x, dv_eventId = eventKey, dv_event = type, dv_data = payload\<rparr>) subscriptions) (ob_webhooks ob)\<rparr>)"

text \<open>The notification of the assignee has no actor: the empty identifier.\<close>

definition alert_assignee :: "desk \<Rightarrow> service_request \<Rightarrow> string \<Rightarrow> string \<Rightarrow> outbox \<Rightarrow> outbox" where
  "alert_assignee d r type eventKey ob =
     (case Option.bind (issue_row (de_tracker d) (sr_issueId r)) i_assigneeId of
        None \<Rightarrow> ob
      | Some a \<Rightarrow>
          if \<not> list_ex (\<lambda>m. wm_workspaceId m = sr_workspaceId r \<and> wm_userId m = a \<and> wm_deactivatedAt m = None)
                 (db_workspaceMembers (tk_core (de_tracker d))) then ob
          else (let key = (case find (\<lambda>p. p_id p = sr_projectId r) (db_projects (tk_core (de_tracker d))) of None \<Rightarrow> [] | Some p \<Rightarrow> p_key p)
                in ob\<lparr>ob_notifications := ob_notifications ob @
                     [\<lparr>no_workspaceId = sr_workspaceId r, no_userId = a, no_issueId = sr_issueId r, no_actorId = [], no_type = ''ISSUE_UPDATED'',
                       no_title = alert_title type, no_resourceUrl = ''/projects/'' @ key @ ''?issue='' @ sr_issueId r,
                       no_dedupeKey = eventKey @ '':'' @ a, no_readAt = None\<rparr>]\<rparr>))"

definition alert_customer :: "service_request \<Rightarrow> goal_version \<Rightarrow> string \<Rightarrow> desk \<Rightarrow> desk" where
  "alert_customer r v type d =
     (case sr_customerId r of
        Some c \<Rightarrow> if gv_portalVisible v
          then d\<lparr>de_portalNotifications := de_portalNotifications d @
                 [\<lparr>pn_customerId = c, pn_requestId = sr_id r, pn_type = type, pn_message = portal_message type\<rparr>]\<rparr>
          else d
      | None \<Rightarrow> d)"

text \<open>
  \<open>event\<close>: the event row has a unique key; when it is there already nothing else happens. So the key
  of the assignee's notification, which extends it, is new as well.
\<close>

definition record_event :: "service_request \<Rightarrow> goal_version \<Rightarrow> sla_cycle \<Rightarrow> string \<Rightarrow> time \<Rightarrow> string \<Rightarrow> desk \<Rightarrow> desk" where
  "record_event r v c type happened suffix d =
     (let eventKey = cy_id c @ '':'' @ suffix;
          payload = JObj [(''issueId'', JStr (sr_issueId r)), (''requestId'', JStr (sr_id r)), (''projectId'', JStr (sr_projectId r)),
            (''cycleId'', JStr (cy_id c)), (''goalVersionId'', JStr (cy_goalVersionId c)), (''event'', JStr type)];
          logged = add_audit \<lparr>au_workspaceId = sr_workspaceId r, au_actorId = None, au_action = type, au_targetType = ''slaCycle'',
              au_targetId = cy_id c, au_metadata = JObj [(''requestId'', JStr (sr_id r)), (''eventKey'', JStr eventKey)]\<rparr>
            (d\<lparr>de_events := de_events d @ [\<lparr>ev_cycleId = cy_id c, ev_key = eventKey, ev_type = type, ev_happenedAt = happened,
                 ev_elapsedMs = cy_elapsedMs c\<rparr>]\<rparr>)
      in if list_ex (\<lambda>e. ev_key e = eventKey) (de_events d) then d
         else if type \<notin> set alert_types then logged
         else alert_customer r v type
                (map_outbox (\<lambda>ob. alert_assignee d r type eventKey (alert_rows (tk_config (de_tracker d)) r type payload eventKey ob)) logged))"

section \<open>One cycle\<close>

text \<open>\<open>advance\<close>: the clock runs to an instant; each signal of the clock is stamped and recorded.\<close>

definition stamp :: "service_request \<Rightarrow> goal_version \<Rightarrow> string \<times> time \<Rightarrow> sla_cycle \<times> desk \<Rightarrow> sla_cycle \<times> desk" where
  "stamp r v ev st =
     (let (type, happened) = ev; (c, d) = st;
          c' = (if type = ''sla.risk'' then c\<lparr>cy_riskAt := Some happened\<rparr>
                else if type = ''sla.breached'' then c\<lparr>cy_breachedAt := Some happened\<rparr> else c);
          at_limit = (if type = ''sla.risk'' then gv_targetMinutes v - gv_riskMinutes v else gv_targetMinutes v) * MINUTE
      in (c', record_event r v (c'\<lparr>cy_elapsedMs := at_limit\<rparr>) type happened type d))"

definition advance :: "zone_db \<Rightarrow> service_request \<Rightarrow> time \<Rightarrow> sla_cycle \<times> desk \<Rightarrow> (worker_error, sla_cycle \<times> desk) result" where
  "advance zone r now st =
     (let (c, d) = st in
      case version_of d (cy_goalVersionId c) of
        None \<Rightarrow> Inl Missing_Version
      | Some (v, cal) \<Rightarrow>
          (case accrue zone cal c now (gv_targetMinutes v * MINUTE) (gv_riskMinutes v * MINUTE) of
             Inl e \<Rightarrow> Inl (Engine e)
           | Inr a \<Rightarrow> Inr (fold (stamp r v) (al_events a) (c\<lparr>cy_elapsedMs := al_elapsedMs a, cy_lastAt := al_lastAt a\<rparr>, d))))"

definition save_cycle :: "sla_cycle \<Rightarrow> desk \<Rightarrow> desk" where
  "save_cycle c d = d\<lparr>de_cycles := map (\<lambda>x. if cy_id x = cy_id c
     then x\<lparr>cy_elapsedMs := cy_elapsedMs c, cy_lastAt := cy_lastAt c, cy_state := cy_state c, cy_pauseReasons := cy_pauseReasons c,
            cy_endedAt := cy_endedAt c, cy_riskAt := cy_riskAt c, cy_breachedAt := cy_breachedAt c, cy_succeededAt := cy_succeededAt c\<rparr>
     else x) (de_cycles d)\<rparr>"

definition reasons_of :: "timer_rules \<Rightarrow> js \<Rightarrow> string list" where
  "reasons_of timer payload = map fst (filter (\<lambda>(_, conds). matches_all conds payload) (ru_pause timer))"

text \<open>What a signal does to a running cycle, after the clock has run to it.\<close>

definition end_cycle :: "service_request \<Rightarrow> goal_version \<Rightarrow> sla_signal \<Rightarrow> sla_cycle \<times> desk \<Rightarrow> sla_cycle \<times> desk" where
  "end_cycle r v s st =
     (let (c, d) = st; succeeded = (cy_breachedAt c = None \<and> matches_all (ru_success (gv_rules v)) (sg_payload s));
          c' = c\<lparr>cy_endedAt := Some (sg_happenedAt s), cy_state := (if succeeded then ''MET'' else ''STOPPED''),
                 cy_succeededAt := (if succeeded then Some (sg_happenedAt s) else None)\<rparr>;
          type = (if succeeded then ''sla.succeeded'' else ''sla.stopped'')
      in (c', record_event r v c' type (sg_happenedAt s) type d))"

definition pause_cycle :: "service_request \<Rightarrow> goal_version \<Rightarrow> sla_signal \<Rightarrow> sla_cycle \<times> desk \<Rightarrow> sla_cycle \<times> desk" where
  "pause_cycle r v s st =
     (let (c, d) = st; reasons = reasons_of (gv_rules v) (sg_payload s);
          next_reasons = (if matches_all (ru_resume (gv_rules v)) (sg_payload s) then reasons else uniq (cy_pauseReasons c @ reasons));
          c' = c\<lparr>cy_pauseReasons := next_reasons, cy_state := (if next_reasons = [] then ''RUNNING'' else ''PAUSED'')\<rparr>;
          type = (if next_reasons = [] then ''sla.resumed'' else ''sla.paused'')
      in if next_reasons = cy_pauseReasons c then (c, d)
         else (c', record_event r v c' type (sg_happenedAt s) (''pause:'' @ digits_of_nat (sg_id s)) d))"

definition reset_cycle :: "service_request \<Rightarrow> goal_version \<Rightarrow> sla_signal \<Rightarrow> sla_cycle \<times> desk \<Rightarrow> sla_cycle \<times> desk" where
  "reset_cycle r v s st =
     (let (c, d) = st; c' = c\<lparr>cy_endedAt := Some (sg_happenedAt s), cy_state := ''RESET''\<rparr>
      in (c', record_event r v c' ''sla.reset'' (sg_happenedAt s) (''reset:'' @ digits_of_nat (sg_id s)) d))"

definition signal_cycle :: "zone_db \<Rightarrow> service_request \<Rightarrow> sla_signal \<Rightarrow> sla_cycle \<Rightarrow> desk \<Rightarrow> (worker_error, sla_cycle \<times> desk) result" where
  "signal_cycle zone r s c d =
     (if cy_endedAt c \<noteq> None then Inr (c, d)
      else bind_result (advance zone r (sg_happenedAt s) (c, d)) (\<lambda>st.
        (case version_of d (cy_goalVersionId c) of
           None \<Rightarrow> Inl Missing_Version
         | Some (v, _) \<Rightarrow>
             (let (c', d') = (if matches_all (ru_reset (gv_rules v)) (sg_payload s) then reset_cycle r v s st
                              else if matches_all (ru_stop (gv_rules v)) (sg_payload s) then end_cycle r v s st
                              else pause_cycle r v s st)
              in Inr (c', save_cycle c' d')))))"

fun each_cycle :: "(sla_cycle \<Rightarrow> desk \<Rightarrow> (worker_error, sla_cycle \<times> desk) result) \<Rightarrow> sla_cycle list \<Rightarrow> desk \<Rightarrow> (worker_error, sla_cycle list \<times> desk) result" where
  "each_cycle f [] d = Inr ([], d)"
| "each_cycle f (c # cs) d =
     bind_result (f c d) (\<lambda>(c', d'). bind_result (each_cycle f cs d') (\<lambda>(cs', d''). Inr (c' # cs', d'')))"

section \<open>Starting cycles\<close>

text \<open>The versions a signal names, in its order, that belong to the project, with the metric of their goal.\<close>

definition named_versions :: "desk \<Rightarrow> service_request \<Rightarrow> sla_signal \<Rightarrow> (string \<times> goal_version) list" where
  "named_versions d r s =
     List.map_filter (\<lambda>i. Option.bind (find (\<lambda>v. gv_id v = i) (de_goalVersions d)) (\<lambda>v.
       map_option (\<lambda>g. (gl_metric g, v)) (find (\<lambda>g. gl_id g = gv_goalId v \<and> gl_projectId g = sr_projectId r) (de_goals d))))
       (uniq (sg_goalIds s))"

definition latest_of :: "string \<Rightarrow> sla_cycle list \<Rightarrow> sla_cycle option" where
  "latest_of metric latest = find (\<lambda>c. cy_metric c = metric) latest"

definition put_latest :: "sla_cycle \<Rightarrow> sla_cycle list \<Rightarrow> sla_cycle list" where
  "put_latest c latest = (if list_ex (\<lambda>x. cy_metric x = cy_metric c) latest
     then map (\<lambda>x. if cy_metric x = cy_metric c then c else x) latest else latest @ [c])"

definition may_start :: "goal_version \<Rightarrow> js \<Rightarrow> sla_cycle option \<Rightarrow> bool" where
  "may_start v payload previous \<longleftrightarrow>
     matches_all (gv_conditions v) payload
     \<and> (case previous of None \<Rightarrow> True | Some c \<Rightarrow> cy_endedAt c \<noteq> None \<and> matches_all (ru_reset (gv_rules v)) payload)
     \<and> matches_all (ru_start (gv_rules v)) payload \<and> \<not> matches_all (ru_stop (gv_rules v)) payload"

definition new_cycle :: "(nat \<Rightarrow> string) \<Rightarrow> desk \<Rightarrow> service_request \<Rightarrow> sla_signal \<Rightarrow> string \<Rightarrow> goal_version \<Rightarrow> sla_cycle option \<Rightarrow> sla_cycle" where
  "new_cycle new d r s metric v previous =
     (let reasons = reasons_of (gv_rules v) (sg_payload s)
      in \<lparr>cy_id = new (length (de_cycles d)), cy_requestId = sr_id r, cy_goalVersionId = gv_id v, cy_metric = metric,
          cy_sequence = Suc (case previous of None \<Rightarrow> 0 | Some c \<Rightarrow> cy_sequence c),
          cy_state = (if reasons = [] then ''RUNNING'' else ''PAUSED''), cy_elapsedMs = 0, cy_pauseReasons = reasons,
          cy_startedAt = sg_happenedAt s, cy_lastAt = sg_happenedAt s, cy_endedAt = None, cy_riskAt = None, cy_breachedAt = None,
          cy_succeededAt = None\<rparr>)"

text \<open>\<open>create\<close> fails when the row would break \<open>@@unique([requestId, metric, sequence])\<close>.\<close>

definition cycle_key :: "sla_cycle \<Rightarrow> string \<times> string \<times> nat" where
  "cycle_key c = (cy_requestId c, cy_metric c, cy_sequence c)"

definition start_cycle :: "(nat \<Rightarrow> string) \<Rightarrow> service_request \<Rightarrow> sla_signal \<Rightarrow> string \<times> goal_version \<Rightarrow> sla_cycle list \<times> desk \<Rightarrow> (worker_error, sla_cycle list \<times> desk) result" where
  "start_cycle new r s mv st =
     (let (metric, v) = mv; (latest, d) = st; previous = latest_of metric latest; c = new_cycle new d r s metric v previous in
      if \<not> may_start v (sg_payload s) previous then Inr (latest, d)
      else if cycle_key c \<in> cycle_key ` set (de_cycles d) then Inl Duplicate_Cycle
      else Inr (put_latest c latest, record_event r v c ''sla.started'' (sg_happenedAt s) ''sla.started'' (d\<lparr>de_cycles := de_cycles d @ [c]\<rparr>)))"

section \<open>One request\<close>

definition mark_signal :: "time \<Rightarrow> nat \<Rightarrow> desk \<Rightarrow> desk" where
  "mark_signal now i d = d\<lparr>de_signals := map (\<lambda>s. if sg_id s = i then s\<lparr>sg_processedAt := Some now\<rparr> else s) (de_signals d)\<rparr>"

definition process_signal :: "zone_db \<Rightarrow> (nat \<Rightarrow> string) \<Rightarrow> time \<Rightarrow> service_request \<Rightarrow> sla_signal \<Rightarrow> sla_cycle list \<times> desk \<Rightarrow> (worker_error, sla_cycle list \<times> desk) result" where
  "process_signal zone new now r s st =
     (let (latest, d) = st in
      bind_result (each_cycle (signal_cycle zone r s) latest d) (\<lambda>(latest1, d1).
      bind_result (fold_result (start_cycle new r s) (named_versions d1 r s) (latest1, d1)) (\<lambda>(latest2, d2).
        Inr (latest2, mark_signal now (sg_id s) d2))))"

definition pending_signals :: "time \<Rightarrow> string \<Rightarrow> desk \<Rightarrow> sla_signal list" where
  "pending_signals now rid d = filter (\<lambda>s. sg_processedAt s = None \<and> sg_happenedAt s \<le> now) (signals_of d rid)"

text \<open>The latest cycle of a metric: \<open>findFirst\<close> ordered by descending sequence.\<close>

definition latest_cycles :: "string \<Rightarrow> desk \<Rightarrow> sla_cycle list" where
  "latest_cycles rid d =
     List.map_filter (\<lambda>metric. first_by (\<lambda>c. - int (cy_sequence c)) (\<lambda>c. cy_requestId c = rid \<and> cy_metric c = metric) (de_cycles d))
       [''RESPONSE'', ''RESOLUTION'']"

definition tick_time :: "time \<Rightarrow> service_request \<Rightarrow> sla_signal list \<Rightarrow> desk \<Rightarrow> time" where
  "tick_time now r processed d =
     (if pending_signals now (sr_id r) d = [] then now
      else if processed \<noteq> [] then sg_happenedAt (last processed)
      else (case sr_slaCheckedAt r of Some t \<Rightarrow> t | None \<Rightarrow> now))"

definition tick_cycle :: "zone_db \<Rightarrow> service_request \<Rightarrow> time \<Rightarrow> sla_cycle \<Rightarrow> desk \<Rightarrow> (worker_error, sla_cycle \<times> desk) result" where
  "tick_cycle zone r now c d =
     (if cy_endedAt c \<noteq> None then Inr (c, d)
      else bind_result (advance zone r now (c, d)) (\<lambda>(c', d'). Inr (c', save_cycle c' d')))"

definition sla_state :: "sla_cycle list \<Rightarrow> string" where
  "sla_state active =
     (if list_ex (\<lambda>c. cy_breachedAt c \<noteq> None) active then ''BREACHED''
      else if list_ex (\<lambda>c. cy_endedAt c = None \<and> cy_riskAt c \<noteq> None) active then ''AT_RISK''
      else if list_ex (\<lambda>c. cy_endedAt c = None \<and> cy_state c = ''RUNNING'') active then ''RUNNING''
      else if list_ex (\<lambda>c. cy_endedAt c = None) active then ''PAUSED''
      else if list_ex (\<lambda>c. cy_state c = ''MET'') active then ''MET'' else ''NONE'')"

definition finish_request :: "service_request \<Rightarrow> time \<Rightarrow> sla_signal list \<Rightarrow> sla_cycle list \<Rightarrow> desk \<Rightarrow> desk" where
  "finish_request r tickAt processed latest d =
     (let state = sla_state latest; d' = update_request (sr_id r) (\<lambda>x. x\<lparr>sr_slaState := state, sr_slaCheckedAt := Some tickAt\<rparr>) d
      in if sr_slaState r \<noteq> state \<or> processed \<noteq> []
         then map_outbox (publishRealtime \<lparr>re_workspaceId = sr_workspaceId r, re_projectId = Some (sr_projectId r), re_type = ''issue.updated'',
                re_resourceId = sr_issueId r, re_payload = JObj [(''id'', JStr (sr_issueId r)), (''slaChanged'', JBool True)]\<rparr>) d'
         else d')"

definition processSlaRequest :: "zone_db \<Rightarrow> (nat \<Rightarrow> string) \<Rightarrow> time \<Rightarrow> string \<Rightarrow> desk \<Rightarrow> (worker_error, bool \<times> desk) result" where
  "processSlaRequest zone new now rid d =
     (case find_request d rid of
        None \<Rightarrow> Inr (False, d)
      | Some r \<Rightarrow>
          if (case sr_slaCheckedAt r of None \<Rightarrow> False | Some t \<Rightarrow> now < t) then Inr (False, d)
          else (let signals = take 100 (pending_signals now rid d) in
            bind_result (fold_result (process_signal zone new now r) signals (latest_cycles rid d, d)) (\<lambda>(latest, d1).
              (let tickAt = tick_time now r signals d1 in
               bind_result (each_cycle (tick_cycle zone r tickAt) latest d1) (\<lambda>(latest', d2).
                 Inr (True, finish_request r tickAt signals latest' d2))))))"

section \<open>A batch\<close>

definition batch_due :: "time \<Rightarrow> desk \<Rightarrow> service_request \<Rightarrow> bool" where
  "batch_due now d r \<longleftrightarrow>
     list_ex (\<lambda>p. p_id p = sr_projectId r \<and> p_archivedAt p = None) (db_projects (tk_core (de_tracker d)))
     \<and> list_ex (\<lambda>i. i_id i = sr_issueId r \<and> i_archivedAt i = None) (db_issues (tk_core (de_tracker d)))
     \<and> (pending_signals now (sr_id r) d \<noteq> []
        \<or> list_ex (\<lambda>c. cy_requestId c = sr_id r \<and> cy_endedAt c = None) (de_cycles d)
          \<and> (case sr_slaCheckedAt r of None \<Rightarrow> True | Some t \<Rightarrow> t < now - 30000))"

definition batch_order :: "service_request list \<Rightarrow> service_request list" where
  "batch_order rs = (let by_id = sort_key sr_id rs in
     filter (\<lambda>r. sr_slaCheckedAt r = None) by_id
     @ sort_key (\<lambda>r. case sr_slaCheckedAt r of None \<Rightarrow> 0 | Some t \<Rightarrow> t) (filter (\<lambda>r. sr_slaCheckedAt r \<noteq> None) by_id))"

definition batch_step :: "zone_db \<Rightarrow> (nat \<Rightarrow> string) \<Rightarrow> time \<Rightarrow> service_request \<Rightarrow> nat \<times> nat \<times> desk \<Rightarrow> nat \<times> nat \<times> desk" where
  "batch_step zone new now r st =
     (let (processed, failed, d) = st in
      case processSlaRequest zone new now (sr_id r) d of
        Inl _ \<Rightarrow> (processed, Suc failed, d)
      | Inr (done, d') \<Rightarrow> (if done then Suc processed else processed, failed, d'))"

text \<open>The batch throws after its last request when one of them failed; what succeeded stays.\<close>

definition processSlaBatch :: "zone_db \<Rightarrow> (nat \<Rightarrow> string) \<Rightarrow> time \<Rightarrow> desk \<Rightarrow> nat option \<times> desk" where
  "processSlaBatch zone new now d =
     (let requests = take 25 (batch_order (filter (batch_due now d) (po_requests (de_portal d))));
          (processed, failed, d') = fold (batch_step zone new now) requests (0, 0, d)
      in (if failed = 0 then Some processed else None, d'))"

section \<open>The clock can always run\<close>

lemma accrue_total:
  assumes "cy_lastAt c \<le> now" and "zone (ca_timezone cal) \<noteq> None"
  shows "\<exists>a. accrue zone cal c now target_ms risk_ms = Inr a \<and> al_lastAt a = now"
proof -
  from assms(2) obtain clock where clock: "zone (ca_timezone cal) = Some clock" by blast
  note time = business_time [where zone = zone and c = cal, OF assms(1) clock]
  have total: "\<exists>x. businessThreshold zone cal (cy_lastAt c) now amount = Inr x" for amount
  proof (cases "amount \<le> 0")
    case True
    then show ?thesis by (simp add: businessThreshold_def)
  next
    case False
    then have "0 < amount" by simp
    from business_threshold [where zone = zone and c = cal, OF assms(1) clock this] show ?thesis by blast
  qed
  have due: "\<exists>x. due_event zone cal c now m type given limit = Inr x" for m type given limit
    using total [of "limit - cy_elapsedMs c"] by (auto simp: due_event_def)
  obtain added where added: "(if cy_endedAt c \<noteq> None \<or> cy_pauseReasons c \<noteq> [] then Inr 0
      else businessMilliseconds zone cal (cy_lastAt c) now) = Inr added"
    using time by (cases "cy_endedAt c \<noteq> None \<or> cy_pauseReasons c \<noteq> []") auto
  let ?m = "cy_elapsedMs c + added"
  obtain x y where "due_event zone cal c now ?m ''sla.risk'' (cy_riskAt c) (target_ms - risk_ms) = Inr x"
    and "due_event zone cal c now ?m ''sla.breached'' (cy_breachedAt c) target_ms = Inr y"
    using due by blast
  with added assms(1) show ?thesis by (simp add: accrue_def Let_def)
qed

section \<open>What a step leaves alone\<close>

lemma alert_customer_tables [desk_simps]:
  "de_portal (alert_customer r v t d) = de_portal d" "de_cycles (alert_customer r v t d) = de_cycles d"
  "de_signals (alert_customer r v t d) = de_signals d" "de_goals (alert_customer r v t d) = de_goals d"
  "de_goalVersions (alert_customer r v t d) = de_goalVersions d" "de_calendarVersions (alert_customer r v t d) = de_calendarVersions d"
  "de_signalSequence (alert_customer r v t d) = de_signalSequence d"
  by (auto simp: alert_customer_def split: option.splits)

lemma record_event_tables [desk_simps]:
  "de_portal (record_event r v c t h x d) = de_portal d" "de_cycles (record_event r v c t h x d) = de_cycles d"
  "de_signals (record_event r v c t h x d) = de_signals d" "de_goals (record_event r v c t h x d) = de_goals d"
  "de_goalVersions (record_event r v c t h x d) = de_goalVersions d"
  "de_calendarVersions (record_event r v c t h x d) = de_calendarVersions d"
  "de_signalSequence (record_event r v c t h x d) = de_signalSequence d"
  by (simp_all add: record_event_def Let_def desk_simps)

text \<open>The tables the timers only read, and the ones a step on one cycle does not touch.\<close>

definition same_setup :: "desk \<Rightarrow> desk \<Rightarrow> bool" where
  "same_setup d d' \<longleftrightarrow> de_goals d' = de_goals d \<and> de_goalVersions d' = de_goalVersions d \<and> de_calendarVersions d' = de_calendarVersions d"

definition same_rows :: "desk \<Rightarrow> desk \<Rightarrow> bool" where
  "same_rows d d' \<longleftrightarrow> same_setup d d' \<and> de_portal d' = de_portal d \<and> de_signals d' = de_signals d
     \<and> de_signalSequence d' = de_signalSequence d"

lemma same_setup_refl [simp]: "same_setup d d"
  by (simp add: same_setup_def)

lemma same_setup_trans: "same_setup d d' \<Longrightarrow> same_setup d' d'' \<Longrightarrow> same_setup d d''"
  by (simp add: same_setup_def)

lemma same_rows_refl [simp]: "same_rows d d"
  by (simp add: same_rows_def)

lemma same_rows_trans: "same_rows d d' \<Longrightarrow> same_rows d' d'' \<Longrightarrow> same_rows d d''"
  by (auto simp: same_rows_def same_setup_def)

lemma version_of_setup: "same_setup d d' \<Longrightarrow> version_of d' i = version_of d i"
  by (simp add: version_of_def same_setup_def)

text \<open>The columns of a cycle that never change.\<close>

definition same_cycle :: "sla_cycle \<Rightarrow> sla_cycle \<Rightarrow> bool" where
  "same_cycle c c' \<longleftrightarrow> cy_id c' = cy_id c \<and> cy_requestId c' = cy_requestId c \<and> cy_goalVersionId c' = cy_goalVersionId c
     \<and> cy_metric c' = cy_metric c \<and> cy_sequence c' = cy_sequence c \<and> cy_startedAt c' = cy_startedAt c"

lemma same_cycle_refl [simp]: "same_cycle c c"
  by (simp add: same_cycle_def)

lemma stamp_step:
  "stamp r v ev (c, d) = (c', d') \<Longrightarrow>
     same_cycle c c' \<and> cy_lastAt c' = cy_lastAt c \<and> cy_endedAt c' = cy_endedAt c \<and> same_rows d d' \<and> de_cycles d' = de_cycles d"
  by (cases ev) (auto simp: stamp_def Let_def same_cycle_def same_rows_def same_setup_def desk_simps split: if_splits)

lemma stamps_step:
  "fold (stamp r v) evs (c, d) = (c', d') \<Longrightarrow>
     same_cycle c c' \<and> cy_lastAt c' = cy_lastAt c \<and> cy_endedAt c' = cy_endedAt c \<and> same_rows d d' \<and> de_cycles d' = de_cycles d"
proof (induction evs arbitrary: c d)
  case (Cons ev evs)
  obtain c1 d1 where "stamp r v ev (c, d) = (c1, d1)" by (cases "stamp r v ev (c, d)")
  with stamp_step [OF this] Cons.IH [of c1 d1] Cons.prems show ?case
    by (auto simp: same_cycle_def intro: same_rows_trans)
qed simp

text \<open>The versions a timer can run on.\<close>

definition good_version :: "zone_db \<Rightarrow> desk \<Rightarrow> string \<Rightarrow> bool" where
  "good_version zone d i \<longleftrightarrow> (case version_of d i of None \<Rightarrow> False | Some (v, cal) \<Rightarrow> zone (ca_timezone cal) \<noteq> None)"

lemma good_version_setup: "same_setup d d' \<Longrightarrow> good_version zone d' i = good_version zone d i"
  by (simp add: good_version_def version_of_setup)

lemma advance_runs:
  assumes "cy_lastAt c \<le> now" and "good_version zone d (cy_goalVersionId c)"
  shows "\<exists>c' d'. advance zone r now (c, d) = Inr (c', d') \<and> same_cycle c c' \<and> cy_lastAt c' = now
    \<and> cy_endedAt c' = cy_endedAt c \<and> same_rows d d' \<and> de_cycles d' = de_cycles d"
proof -
  from assms(2) obtain v cal where v: "version_of d (cy_goalVersionId c) = Some (v, cal)" and z: "zone (ca_timezone cal) \<noteq> None"
    by (auto simp: good_version_def split: option.splits prod.splits)
  from accrue_total [where zone = zone, OF assms(1) z] obtain a
    where a: "accrue zone cal c now (gv_targetMinutes v * MINUTE) (gv_riskMinutes v * MINUTE) = Inr a" "al_lastAt a = now" by blast
  let ?c = "c\<lparr>cy_elapsedMs := al_elapsedMs a, cy_lastAt := al_lastAt a\<rparr>"
  obtain c' d' where st: "fold (stamp r v) (al_events a) (?c, d) = (c', d')"
    by (cases "fold (stamp r v) (al_events a) (?c, d)")
  have "advance zone r now (c, d) = Inr (c', d')"
    using v a st by (simp add: advance_def)
  moreover have "same_cycle c c' \<and> cy_lastAt c' = now \<and> cy_endedAt c' = cy_endedAt c \<and> same_rows d d' \<and> de_cycles d' = de_cycles d"
    using stamps_step [OF st] a(2) by (simp add: same_cycle_def)
  ultimately show ?thesis by blast
qed

lemma signal_cycle_runs:
  assumes "cy_endedAt c = None" and "cy_lastAt c \<le> sg_happenedAt s" and "good_version zone d (cy_goalVersionId c)"
  shows "\<exists>c' d'. signal_cycle zone r s c d = Inr (c', save_cycle c' d') \<and> same_cycle c c' \<and> cy_lastAt c' = sg_happenedAt s
    \<and> same_rows d d' \<and> de_cycles d' = de_cycles d"
proof -
  from advance_runs [OF assms(2,3)] obtain c1 d1 where a: "advance zone r (sg_happenedAt s) (c, d) = Inr (c1, d1)"
    and c1: "same_cycle c c1" "cy_lastAt c1 = sg_happenedAt s" "same_rows d d1" "de_cycles d1 = de_cycles d" by blast
  from assms(3) obtain v cal where v: "version_of d (cy_goalVersionId c) = Some (v, cal)"
    by (auto simp: good_version_def split: option.splits)
  obtain c' d' where st: "(if matches_all (ru_reset (gv_rules v)) (sg_payload s) then reset_cycle r v s (c1, d1)
      else if matches_all (ru_stop (gv_rules v)) (sg_payload s) then end_cycle r v s (c1, d1) else pause_cycle r v s (c1, d1)) = (c', d')"
    by (cases "if matches_all (ru_reset (gv_rules v)) (sg_payload s) then reset_cycle r v s (c1, d1)
      else if matches_all (ru_stop (gv_rules v)) (sg_payload s) then end_cycle r v s (c1, d1) else pause_cycle r v s (c1, d1)")
  have "signal_cycle zone r s c d = Inr (c', save_cycle c' d')"
    unfolding signal_cycle_def a bind_result_Inr using assms(1) v st by simp
  moreover have "same_cycle c1 c' \<and> cy_lastAt c' = cy_lastAt c1 \<and> same_rows d1 d' \<and> de_cycles d' = de_cycles d1"
    using st by (auto simp: reset_cycle_def end_cycle_def pause_cycle_def Let_def same_cycle_def same_rows_def same_setup_def desk_simps
        split: if_splits)
  ultimately show ?thesis
    using c1 by (auto simp: same_cycle_def intro: same_rows_trans)
qed

lemma save_cycle_rows: "same_rows d (save_cycle c d)"
  by (simp add: save_cycle_def same_rows_def same_setup_def)

lemma save_cycle_row:
  assumes "distinct (map cy_id (de_cycles d))" and "c \<in> set (de_cycles d)" and "same_cycle c c'"
  shows "de_cycles (save_cycle c' d) = map (\<lambda>x. if x = c then c' else x) (de_cycles d)"
proof -
  have "(if cy_id x = cy_id c' then x\<lparr>cy_elapsedMs := cy_elapsedMs c', cy_lastAt := cy_lastAt c', cy_state := cy_state c',
      cy_pauseReasons := cy_pauseReasons c', cy_endedAt := cy_endedAt c', cy_riskAt := cy_riskAt c', cy_breachedAt := cy_breachedAt c',
      cy_succeededAt := cy_succeededAt c'\<rparr> else x) = (if x = c then c' else x)" if "x \<in> set (de_cycles d)" for x
    using unique_key [OF assms(1) that assms(2)] assms(3) by (auto simp: same_cycle_def)
  then show ?thesis by (simp add: save_cycle_def)
qed

section \<open>The invariant of a run over one request\<close>

definition metrics :: "string list" where "metrics = [''RESPONSE'', ''RESOLUTION'']"

text \<open>The rows of all cycles: identifiers as handed out, keys unique, versions that can run.\<close>

definition cycles_ok :: "zone_db \<Rightarrow> (nat \<Rightarrow> string) \<Rightarrow> desk \<Rightarrow> bool" where
  "cycles_ok zone new d \<longleftrightarrow>
     map cy_id (de_cycles d) = map new [0..<length (de_cycles d)] \<and> distinct (map cycle_key (de_cycles d))
     \<and> list_all (\<lambda>c. good_version zone d (cy_goalVersionId c) \<and> cy_metric c \<in> set metrics) (de_cycles d)"

text \<open>
  The in-memory map of the latest cycle of each metric agrees with the rows: it holds the row with the
  highest sequence of each metric, and every open row of the request is in it.
\<close>

definition latest_ok :: "string \<Rightarrow> sla_cycle list \<Rightarrow> desk \<Rightarrow> bool" where
  "latest_ok rid latest d \<longleftrightarrow>
     set latest \<subseteq> set (de_cycles d) \<and> list_all (\<lambda>c. cy_requestId c = rid) latest \<and> distinct (map cy_metric latest)
     \<and> (\<forall>x\<in>set (de_cycles d). cy_requestId x = rid \<longrightarrow>
          (\<exists>c\<in>set latest. cy_metric c = cy_metric x \<and> cy_sequence x \<le> cy_sequence c \<and> (cy_endedAt x = None \<longrightarrow> x = c)))"

definition run_to :: "time \<Rightarrow> sla_cycle list \<Rightarrow> bool" where
  "run_to b latest \<longleftrightarrow> list_all (\<lambda>c. cy_endedAt c = None \<longrightarrow> cy_lastAt c \<le> b) latest"

definition others :: "string \<Rightarrow> desk \<Rightarrow> sla_cycle list" where
  "others rid d = filter (\<lambda>x. cy_requestId x \<noteq> rid) (de_cycles d)"

definition loop_ok :: "zone_db \<Rightarrow> (nat \<Rightarrow> string) \<Rightarrow> desk \<Rightarrow> string \<Rightarrow> time \<Rightarrow> sla_cycle list \<Rightarrow> desk \<Rightarrow> bool" where
  "loop_ok zone new d0 rid b latest d \<longleftrightarrow>
     same_rows d0 d \<and> cycles_ok zone new d \<and> latest_ok rid latest d \<and> run_to b latest \<and> others rid d = others rid d0"

lemma run_to_mono: "run_to b latest \<Longrightarrow> b \<le> b' \<Longrightarrow> run_to b' latest"
  by (auto simp: run_to_def list_all_iff)

lemma cycles_distinct: "inj new \<Longrightarrow> cycles_ok zone new d \<Longrightarrow> distinct (map cy_id (de_cycles d))"
proof -
  assume "inj new" "cycles_ok zone new d"
  moreover have "distinct (map new [0..<n])" for n
    using \<open>inj new\<close> by (simp add: distinct_map inj_on_def)
  ultimately show ?thesis by (simp add: cycles_ok_def del: distinct_map)
qed

text \<open>Replacing one cycle, in the map and in its row, keeps the invariant.\<close>

lemma replace_cycle:
  assumes inv: "loop_ok zone new d0 rid b (pre @ c # post) d" and new: "inj new"
    and c': "same_cycle c c'" "cy_endedAt c' = None \<Longrightarrow> cy_lastAt c' \<le> b"
    and d1: "same_rows d d1" "de_cycles d1 = de_cycles d"
  shows "loop_ok zone new d0 rid b (pre @ c' # post) (save_cycle c' d1)"
proof -
  let ?latest = "pre @ c # post" and ?g = "\<lambda>x. if x = c then c' else x" and ?d = "save_cycle c' d1"
  from inv have rows: "same_rows d0 d" and ok: "cycles_ok zone new d" and lat: "latest_ok rid ?latest d"
    and run: "run_to b ?latest" and oth: "others rid d = others rid d0" by (auto simp: loop_ok_def)
  have c: "c \<in> set (de_cycles d)" "cy_requestId c = rid" using lat by (auto simp: latest_ok_def)
  have cyc: "de_cycles ?d = map ?g (de_cycles d)"
    using save_cycle_row [of d1 c c'] cycles_distinct [OF new ok] c(1) c'(1) d1(2) by simp
  have rows': "same_rows d ?d" using d1(1) save_cycle_rows same_rows_trans by blast
  then have su: "same_setup d ?d" by (simp add: same_rows_def)
  have g: "cy_id (?g x) = cy_id x" "cycle_key (?g x) = cycle_key x" "cy_metric (?g x) = cy_metric x"
    "cy_goalVersionId (?g x) = cy_goalVersionId x" "cy_requestId (?g x) = cy_requestId x" "cy_sequence (?g x) = cy_sequence x" for x
    using c'(1) by (auto simp: same_cycle_def cycle_key_def)
  have uniq_c: "x = c" if "x \<in> set ?latest" "cy_metric x = cy_metric c" for x
    using lat that unique_key [of cy_metric ?latest x c] by (simp add: latest_ok_def)
  have "distinct ?latest" using lat by (auto simp: latest_ok_def distinct_map)
  then have "map ?g pre = pre" "map ?g post = post" by (auto intro!: map_idI)
  then have lat_eq: "pre @ c' # post = map ?g ?latest" by simp
  have "cycles_ok zone new ?d"
    unfolding cycles_ok_def cyc
  proof (intro conjI)
    show "map cy_id (map ?g (de_cycles d)) = map new [0..<length (map ?g (de_cycles d))]"
      using ok by (simp add: cycles_ok_def o_def g del: map_eq_conv)
    show "distinct (map cycle_key (map ?g (de_cycles d)))"
      using ok by (simp add: cycles_ok_def o_def g del: map_eq_conv distinct_map)
    show "list_all (\<lambda>x. good_version zone ?d (cy_goalVersionId x) \<and> cy_metric x \<in> set metrics) (map ?g (de_cycles d))"
      using ok unfolding cycles_ok_def list.pred_map o_def good_version_setup [OF su] g(3,4) by simp
  qed
  moreover have "latest_ok rid (pre @ c' # post) ?d"
    unfolding latest_ok_def
  proof (intro conjI ballI impI)
    show "set (pre @ c' # post) \<subseteq> set (de_cycles ?d)"
      using lat unfolding lat_eq cyc latest_ok_def set_map by (intro image_mono) simp
    show "list_all (\<lambda>x. cy_requestId x = rid) (pre @ c' # post)"
      using lat c'(1) by (simp add: latest_ok_def same_cycle_def)
    show "distinct (map cy_metric (pre @ c' # post))"
      using lat c'(1) by (simp add: latest_ok_def same_cycle_def)
  next
    fix y assume "y \<in> set (de_cycles ?d)" and rid: "cy_requestId y = rid"
    then obtain x where x: "x \<in> set (de_cycles d)" "y = ?g x" by (auto simp: cyc)
    with rid g have "cy_requestId x = rid" by metis
    with lat x(1) obtain e where e: "e \<in> set ?latest" "cy_metric e = cy_metric x" "cy_sequence x \<le> cy_sequence e"
      and opn: "cy_endedAt x = None \<Longrightarrow> x = e" unfolding latest_ok_def by blast
    have "?g x = ?g e" if "cy_endedAt (?g x) = None"
    proof (cases "x = c")
      case True
      with uniq_c [OF e(1)] e(2) have "e = c" by simp
      with True show ?thesis by (simp only:)
    next
      case False
      with that opn show ?thesis by simp
    qed
    moreover have "?g e \<in> set (pre @ c' # post)" unfolding lat_eq set_map using e(1) by blast
    ultimately show "\<exists>e\<in>set (pre @ c' # post). cy_metric e = cy_metric y \<and> cy_sequence y \<le> cy_sequence e \<and> (cy_endedAt y = None \<longrightarrow> y = e)"
      using e(2,3) g x(2) by (intro bexI [of _ "?g e"]) simp_all
  qed
  moreover have "run_to b (pre @ c' # post)"
    using run c'(2) by (simp add: run_to_def)
  moreover have "others rid ?d = others rid d0"
  proof -
    have "map ?g (filter (\<lambda>x. cy_requestId x \<noteq> rid) (de_cycles d)) = filter (\<lambda>x. cy_requestId x \<noteq> rid) (de_cycles d)"
      using c(2) by (intro map_idI) auto
    then show ?thesis using oth by (simp add: others_def cyc filter_map o_def g del: map_eq_conv)
  qed
  ultimately show ?thesis using same_rows_trans [OF rows rows'] by (simp add: loop_ok_def)
qed

lemma each_cycle_runs:
  assumes "loop_ok zone new d0 rid b (pre @ cs) d"
    and "\<And>pre c post d. loop_ok zone new d0 rid b (pre @ c # post) d \<Longrightarrow>
      \<exists>c' d'. f c d = Inr (c', d') \<and> loop_ok zone new d0 rid b (pre @ c' # post) d'"
  shows "\<exists>cs' d'. each_cycle f cs d = Inr (cs', d') \<and> loop_ok zone new d0 rid b (pre @ cs') d'"
  using assms(1)
proof (induction cs arbitrary: pre d)
  case Nil
  then show ?case by simp
next
  case (Cons c cs)
  from assms(2) [OF Cons.prems] obtain c' d' where one: "f c d = Inr (c', d')" "loop_ok zone new d0 rid b ((pre @ [c']) @ cs) d'"
    by auto
  from Cons.IH [OF one(2)] one(1) show ?case by auto
qed

lemma loop_good: "loop_ok zone new d0 rid b (pre @ c # post) d \<Longrightarrow> good_version zone d (cy_goalVersionId c)"
  by (auto simp: loop_ok_def latest_ok_def cycles_ok_def list_all_iff)

lemma loop_last: "loop_ok zone new d0 rid b (pre @ c # post) d \<Longrightarrow> cy_endedAt c = None \<Longrightarrow> cy_lastAt c \<le> b"
  by (simp add: loop_ok_def run_to_def)

lemma signal_cycle_loop:
  assumes inv: "loop_ok zone new d0 rid (sg_happenedAt s) (pre @ c # post) d" and new: "inj new"
  shows "\<exists>c' d'. signal_cycle zone r s c d = Inr (c', d') \<and> loop_ok zone new d0 rid (sg_happenedAt s) (pre @ c' # post) d'"
proof (cases "cy_endedAt c")
  case None
  from signal_cycle_runs [OF None loop_last [OF inv None] loop_good [OF inv], of r]
  obtain c' d' where run: "signal_cycle zone r s c d = Inr (c', save_cycle c' d')" "same_cycle c c'" "cy_lastAt c' = sg_happenedAt s"
    "same_rows d d'" "de_cycles d' = de_cycles d" by blast
  with replace_cycle [OF inv new run(2) _ run(4,5)] show ?thesis by auto
next
  case (Some t)
  with inv show ?thesis by (simp add: signal_cycle_def)
qed

lemma tick_cycle_loop:
  assumes inv: "loop_ok zone new d0 rid b (pre @ c # post) d" and new: "inj new"
  shows "\<exists>c' d'. tick_cycle zone r b c d = Inr (c', d') \<and> loop_ok zone new d0 rid b (pre @ c' # post) d'"
proof (cases "cy_endedAt c")
  case None
  from advance_runs [OF loop_last [OF inv None] loop_good [OF inv], of r]
  obtain c' d' where run: "advance zone r b (c, d) = Inr (c', d')" "same_cycle c c'" "cy_lastAt c' = b"
    "same_rows d d'" "de_cycles d' = de_cycles d" by blast
  with replace_cycle [OF inv new run(2) _ run(4,5)] None show ?thesis by (auto simp: tick_cycle_def)
next
  case (Some t)
  with inv show ?thesis by (simp add: tick_cycle_def)
qed

lemma fold_result_runs:
  assumes "I st" and "\<And>x st. x \<in> set xs \<Longrightarrow> I st \<Longrightarrow> \<exists>st'. f x st = Inr st' \<and> I st'"
  shows "\<exists>st'. fold_result f xs st = Inr st' \<and> I st'"
  using assms
proof (induction xs arbitrary: st)
  case (Cons x xs)
  from Cons.prems(2) [of x st] Cons.prems(1) obtain st1 where "f x st = Inr st1" "I st1" by auto
  with Cons.IH [of st1] Cons.prems(2) show ?case by simp
qed simp

lemma put_latest_set: "set (put_latest c latest) = insert c {x \<in> set latest. cy_metric x \<noteq> cy_metric c}"
  by (auto simp: put_latest_def list_ex_iff)

lemma put_latest_metrics: "distinct (map cy_metric latest) \<Longrightarrow> distinct (map cy_metric (put_latest c latest))"
proof -
  assume d: "distinct (map cy_metric latest)"
  have "map cy_metric (map (\<lambda>x. if cy_metric x = cy_metric c then c else x) latest) = map cy_metric latest" by simp
  with d show ?thesis by (auto simp: put_latest_def list_ex_iff simp del: map_map)
qed

lemma start_cycle_loop:
  assumes inv: "loop_ok zone new d0 (sr_id r) (sg_happenedAt s) latest d" and new: "inj new"
    and metric: "metric \<in> set metrics" and v: "good_version zone d (gv_id v)"
  shows "\<exists>latest' d'. start_cycle new r s (metric, v) (latest, d) = Inr (latest', d')
    \<and> loop_ok zone new d0 (sr_id r) (sg_happenedAt s) latest' d'"
proof (cases "may_start v (sg_payload s) (latest_of metric latest)")
  case False
  with inv show ?thesis by (simp add: start_cycle_def Let_def)
next
  case True
  define prev where "prev = latest_of metric latest"
  define c where "c = new_cycle new d r s metric v prev"
  from inv have rows: "same_rows d0 d" and ok: "cycles_ok zone new d" and lat: "latest_ok (sr_id r) latest d"
    and run: "run_to (sg_happenedAt s) latest" and oth: "others (sr_id r) d = others (sr_id r) d0" by (auto simp: loop_ok_def)
  have c: "cy_id c = new (length (de_cycles d))" "cy_requestId c = sr_id r" "cy_goalVersionId c = gv_id v" "cy_metric c = metric"
    "cy_sequence c = Suc (case prev of None \<Rightarrow> 0 | Some p \<Rightarrow> cy_sequence p)" "cy_lastAt c = sg_happenedAt s" "cy_endedAt c = None"
    by (simp_all add: c_def new_cycle_def Let_def)
  have older: "cy_sequence x < cy_sequence c \<and> cy_endedAt x \<noteq> None"
    if x: "x \<in> set (de_cycles d)" "cy_requestId x = sr_id r" "cy_metric x = metric" for x
  proof -
    from lat x obtain p where p: "p \<in> set latest" "cy_metric p = metric" "cy_sequence x \<le> cy_sequence p" "cy_endedAt x = None \<Longrightarrow> x = p"
      unfolding latest_ok_def by metis
    have "find (\<lambda>y. cy_metric y = cy_metric p) latest = Some p"
      using lat p(1) by (intro find_unique) (simp_all add: latest_ok_def)
    then have "prev = Some p" using p(2) by (simp add: prev_def latest_of_def)
    then show ?thesis using p(3,4) c(5) True prev_def by (auto simp: may_start_def)
  qed
  have fresh: "cycle_key c \<notin> cycle_key ` set (de_cycles d)"
    using older c(2,4) by (fastforce simp: cycle_key_def)
  let ?d = "record_event r v c ''sla.started'' (sg_happenedAt s) ''sla.started'' (d\<lparr>de_cycles := de_cycles d @ [c]\<rparr>)"
  have step: "start_cycle new r s (metric, v) (latest, d) = Inr (put_latest c latest, ?d)"
    using True fresh by (simp add: start_cycle_def Let_def c_def prev_def)
  have cyc: "de_cycles ?d = de_cycles d @ [c]" by (simp add: desk_simps)
  have rows': "same_rows d ?d" by (simp add: same_rows_def same_setup_def desk_simps)
  then have su: "same_setup d ?d" by (simp add: same_rows_def)
  have "cycles_ok zone new ?d"
    using ok fresh metric v c by (simp add: cycles_ok_def cyc good_version_setup [OF su] list_all_iff)
  moreover have "latest_ok (sr_id r) (put_latest c latest) ?d"
    unfolding latest_ok_def cyc
  proof (intro conjI ballI impI)
    show "set (put_latest c latest) \<subseteq> set (de_cycles d @ [c])"
      using lat by (auto simp: put_latest_set latest_ok_def)
    show "list_all (\<lambda>x. cy_requestId x = sr_id r) (put_latest c latest)"
      using lat c(2) by (auto simp: put_latest_set latest_ok_def list_all_iff)
    show "distinct (map cy_metric (put_latest c latest))"
      using lat put_latest_metrics by (simp add: latest_ok_def)
  next
    fix x assume x: "x \<in> set (de_cycles d @ [c])" and rid: "cy_requestId x = sr_id r"
    show "\<exists>e\<in>set (put_latest c latest). cy_metric e = cy_metric x \<and> cy_sequence x \<le> cy_sequence e \<and> (cy_endedAt x = None \<longrightarrow> x = e)"
    proof (cases "cy_metric x = metric")
      case True
      have "x = c \<or> cy_sequence x < cy_sequence c \<and> cy_endedAt x \<noteq> None"
        using x older [OF _ rid True] by auto
      then show ?thesis using True c(4) by (intro bexI [of _ c]) (auto simp: put_latest_set)
    next
      case False
      with x c(4) have "x \<in> set (de_cycles d)" by auto
      with lat rid obtain e where "e \<in> set latest" "cy_metric e = cy_metric x" "cy_sequence x \<le> cy_sequence e" "cy_endedAt x = None \<Longrightarrow> x = e"
        unfolding latest_ok_def by metis
      with False c(4) show ?thesis by (intro bexI [of _ e]) (auto simp: put_latest_set)
    qed
  qed
  moreover have "run_to (sg_happenedAt s) (put_latest c latest)"
    using run c(6) by (auto simp: run_to_def list_all_iff put_latest_set)
  moreover have "others (sr_id r) ?d = others (sr_id r) d0"
    using oth c(2) by (simp add: others_def cyc)
  ultimately show ?thesis using step same_rows_trans [OF rows rows'] by (auto simp: loop_ok_def)
qed

text \<open>The goals of the database: known metrics, versions a timer can run on, calendars in known time zones.\<close>

definition setup_ok :: "zone_db \<Rightarrow> desk \<Rightarrow> bool" where
  "setup_ok zone d \<longleftrightarrow> list_all (\<lambda>g. gl_metric g \<in> set metrics) (de_goals d)
     \<and> list_all (\<lambda>v. good_version zone d (gv_id v)) (de_goalVersions d)
     \<and> list_all (\<lambda>v. zone (ca_timezone (cv_config v)) \<noteq> None) (de_calendarVersions d)"

lemma setup_ok_same: "same_setup d d' \<Longrightarrow> setup_ok zone d' = setup_ok zone d"
  by (simp add: setup_ok_def good_version_setup) (simp add: same_setup_def)

lemma named_versions_ok:
  assumes "setup_ok zone d" and "(metric, v) \<in> set (named_versions d r s)"
  shows "metric \<in> set metrics \<and> good_version zone d (gv_id v)"
  using assms by (auto simp: named_versions_def setup_ok_def list_all_iff map_filter_member Option.bind_eq_Some_conv dest!: find_SomeD)

lemma loop_setup: "loop_ok zone new d0 rid b latest d \<Longrightarrow> setup_ok zone d0 \<Longrightarrow> setup_ok zone d"
  using setup_ok_same by (auto simp: loop_ok_def same_rows_def)

lemma loop_mark:
  "loop_ok zone new d0 rid b latest d \<Longrightarrow> loop_ok zone new (mark_signal now i d0) rid b latest (mark_signal now i d)"
proof -
  have "good_version zone (mark_signal now i d) x = good_version zone d x" for x
    by (rule good_version_setup) (simp add: mark_signal_def same_setup_def)
  moreover assume "loop_ok zone new d0 rid b latest d"
  ultimately show ?thesis
    by (simp add: loop_ok_def cycles_ok_def latest_ok_def others_def same_rows_def same_setup_def) (simp add: mark_signal_def)
qed

lemma process_signal_loop:
  assumes inv: "loop_ok zone new d0 (sr_id r) b latest d" and later: "b \<le> sg_happenedAt s" and new: "inj new"
    and goals: "setup_ok zone d0"
  shows "\<exists>latest' d'. process_signal zone new now r s (latest, d) = Inr (latest', d')
    \<and> loop_ok zone new (mark_signal now (sg_id s) d0) (sr_id r) (sg_happenedAt s) latest' d'"
proof -
  have inv': "loop_ok zone new d0 (sr_id r) (sg_happenedAt s) ([] @ latest) d"
    using inv run_to_mono [OF _ later] by (auto simp: loop_ok_def)
  from each_cycle_runs [OF inv', of "signal_cycle zone r s"] signal_cycle_loop [OF _ new]
  obtain latest1 d1 where one: "each_cycle (signal_cycle zone r s) latest d = Inr (latest1, d1)"
    and inv1: "loop_ok zone new d0 (sr_id r) (sg_happenedAt s) latest1 d1" by auto
  let ?I = "\<lambda>st. loop_ok zone new d0 (sr_id r) (sg_happenedAt s) (fst st) (snd st)"
  have "\<exists>st'. start_cycle new r s mv st = Inr st' \<and> ?I st'" if mv: "mv \<in> set (named_versions d1 r s)" and I: "?I st" for mv st
  proof -
    obtain metric v latest2 d2 where eq: "mv = (metric, v)" "st = (latest2, d2)" by (cases mv; cases st)
    have m: "metric \<in> set metrics" "good_version zone d1 (gv_id v)"
      using named_versions_ok [OF loop_setup [OF inv1 goals]] mv eq by auto
    have "same_setup d0 d1" "same_setup d0 d2" using inv1 I eq by (auto simp: loop_ok_def same_rows_def)
    then have "good_version zone d2 (gv_id v)" using m(2) by (simp add: good_version_setup)
    with start_cycle_loop [of zone new d0 r s latest2 d2 metric v] I eq new m(1) show ?thesis by fastforce
  qed
  from fold_result_runs [of ?I "(latest1, d1)" "named_versions d1 r s" "start_cycle new r s", OF _ this] inv1
  obtain latest2 d2 where "fold_result (start_cycle new r s) (named_versions d1 r s) (latest1, d1) = Inr (latest2, d2)"
    and "loop_ok zone new d0 (sr_id r) (sg_happenedAt s) latest2 d2" by auto
  with one loop_mark show ?thesis by (auto simp: process_signal_def)
qed

text \<open>All signals of a run, in order of their time.\<close>

definition mark_all :: "time \<Rightarrow> sla_signal list \<Rightarrow> desk \<Rightarrow> desk" where
  "mark_all now ss d = fold (\<lambda>s. mark_signal now (sg_id s)) ss d"

lemma process_signals_loop:
  assumes "loop_ok zone new d0 (sr_id r) b latest d" and "sorted (map sg_happenedAt ss)" and "\<forall>s\<in>set ss. b \<le> sg_happenedAt s"
    and "inj new" and "setup_ok zone d0"
  shows "\<exists>latest' d'. fold_result (process_signal zone new now r) ss (latest, d) = Inr (latest', d')
    \<and> loop_ok zone new (mark_all now ss d0) (sr_id r) (if ss = [] then b else sg_happenedAt (last ss)) latest' d'"
  using assms
proof (induction ss arbitrary: d0 b latest d)
  case Nil
  then show ?case by (simp add: mark_all_def)
next
  case (Cons s ss)
  have later: "b \<le> sg_happenedAt s" using Cons.prems(3) by simp
  obtain latest1 d1 where one: "process_signal zone new now r s (latest, d) = Inr (latest1, d1)"
    and inv: "loop_ok zone new (mark_signal now (sg_id s) d0) (sr_id r) (sg_happenedAt s) latest1 d1"
    using process_signal_loop [OF Cons.prems(1) later Cons.prems(4,5)] by blast
  have "setup_ok zone (mark_signal now (sg_id s) d0)"
    using Cons.prems(5) setup_ok_same [of d0 "mark_signal now (sg_id s) d0"] by (simp add: mark_signal_def same_setup_def)
  from Cons.IH [OF inv _ _ Cons.prems(4) this] Cons.prems(2) one show ?case
    by (auto simp: mark_all_def)
qed

section \<open>The invariant of the database\<close>

definition signals_ok :: "desk \<Rightarrow> bool" where
  "signals_ok d \<longleftrightarrow> sorted_wrt (\<lambda>s t. sg_id s < sg_id t) (de_signals d) \<and> list_all (\<lambda>s. sg_id s \<le> de_signalSequence d) (de_signals d)
     \<and> sorted_wrt (\<lambda>s t. sg_requestId s = sg_requestId t \<longrightarrow> sg_happenedAt s \<le> sg_happenedAt t) (de_signals d)"

text \<open>No signal is waiting behind the instant the worker has already accounted for.\<close>

definition waiting_ok :: "desk \<Rightarrow> bool" where
  "waiting_ok d \<longleftrightarrow> (\<forall>r\<in>set (po_requests (de_portal d)). \<forall>s\<in>set (de_signals d).
     sg_requestId s = sr_id r \<longrightarrow> sg_processedAt s = None \<longrightarrow> (\<forall>t. sr_slaCheckedAt r = Some t \<longrightarrow> t \<le> sg_happenedAt s))"

text \<open>No running clock is ahead of the last check of its request.\<close>

definition clocks_ok :: "desk \<Rightarrow> bool" where
  "clocks_ok d \<longleftrightarrow> (\<forall>c\<in>set (de_cycles d). cy_endedAt c = None \<longrightarrow> (\<forall>r\<in>set (po_requests (de_portal d)).
     sr_id r = cy_requestId c \<longrightarrow> (\<exists>t. sr_slaCheckedAt r = Some t \<and> cy_lastAt c \<le> t)))"

text \<open>An open cycle is the latest one of its request and metric.\<close>

definition open_ok :: "desk \<Rightarrow> bool" where
  "open_ok d \<longleftrightarrow> (\<forall>c\<in>set (de_cycles d). \<forall>x\<in>set (de_cycles d).
     cy_endedAt c = None \<longrightarrow> cy_requestId x = cy_requestId c \<longrightarrow> cy_metric x = cy_metric c \<longrightarrow> cy_sequence x \<le> cy_sequence c)"

definition sla_ok :: "zone_db \<Rightarrow> (nat \<Rightarrow> string) \<Rightarrow> desk \<Rightarrow> bool" where
  "sla_ok zone new d \<longleftrightarrow> inj new \<and> setup_ok zone d \<and> distinct (map sr_id (po_requests (de_portal d)))
     \<and> cycles_ok zone new d \<and> signals_ok d \<and> waiting_ok d \<and> clocks_ok d \<and> open_ok d"

lemma first_by_Some:
  assumes "first_by key P rows = Some x"
  shows "x \<in> set rows \<and> P x \<and> (\<forall>y\<in>set rows. P y \<longrightarrow> key x \<le> key y)"
proof -
  from assms obtain xs where xs: "sort_key key (filter P rows) = x # xs" by (auto simp: first_by_def split: list.splits)
  then have "set (x # xs) = {y \<in> set rows. P y}" by (metis set_filter set_sort)
  moreover have "sorted (map key (x # xs))" using sorted_sort_key [of key "filter P rows"] xs by simp
  ultimately show ?thesis by fastforce
qed

lemma first_by_None: "first_by key P rows = None \<Longrightarrow> x \<in> set rows \<Longrightarrow> \<not> P x"
proof -
  assume "first_by key P rows = None" and x: "x \<in> set rows"
  then have "sort_key key (filter P rows) = []" by (auto simp: first_by_def split: list.splits)
  then have "filter P rows = []" by (metis length_0_conv length_sort)
  with x show ?thesis by (auto simp: filter_empty_conv)
qed

lemma latest_cycles_ok:
  assumes ok: "cycles_ok zone new d" and opn: "open_ok d"
  shows "latest_ok rid (latest_cycles rid d) d"
proof -
  let ?P = "\<lambda>m c. cy_requestId c = rid \<and> cy_metric c = m" and ?k = "\<lambda>c. - int (cy_sequence c)"
  have mem: "c \<in> set (latest_cycles rid d) \<longleftrightarrow> (\<exists>m\<in>set metrics. first_by ?k (?P m) (de_cycles d) = Some c)" for c
    unfolding latest_cycles_def map_filter_member metrics_def by (rule refl)
  show ?thesis
    unfolding latest_ok_def
  proof (intro conjI ballI impI)
    show "set (latest_cycles rid d) \<subseteq> set (de_cycles d)" using first_by_Some by (fastforce simp: mem)
    show "list_all (\<lambda>c. cy_requestId c = rid) (latest_cycles rid d)" using first_by_Some by (fastforce simp: mem list_all_iff)
    show "distinct (map cy_metric (latest_cycles rid d))"
      by (auto simp: latest_cycles_def List.map_filter_simps dest!: first_by_Some split: option.splits)
  next
    fix x assume x: "x \<in> set (de_cycles d)" "cy_requestId x = rid"
    then have m: "cy_metric x \<in> set metrics" using ok by (simp add: cycles_ok_def list_all_iff)
    obtain c where c: "first_by ?k (?P (cy_metric x)) (de_cycles d) = Some c"
      using first_by_None [of ?k "?P (cy_metric x)" "de_cycles d" x] x by (cases "first_by ?k (?P (cy_metric x)) (de_cycles d)") auto
    note cc = first_by_Some [OF c]
    then have le: "cy_sequence x \<le> cy_sequence c" using x by auto
    have "x = c" if "cy_endedAt x = None"
    proof -
      have "cy_sequence c \<le> cy_sequence x" using opn that x cc by (simp add: open_ok_def)
      then have "cycle_key x = cycle_key c" using le cc x by (simp add: cycle_key_def)
      then show ?thesis using unique_key [of cycle_key "de_cycles d" x c] ok x cc by (simp add: cycles_ok_def)
    qed
    moreover have "c \<in> set (latest_cycles rid d)" using m c by (auto simp: mem)
    ultimately show "\<exists>c\<in>set (latest_cycles rid d). cy_metric c = cy_metric x \<and> cy_sequence x \<le> cy_sequence c \<and> (cy_endedAt x = None \<longrightarrow> x = c)"
      using le cc by auto
  qed
qed

lemma mark_all_signals:
  "de_signals (mark_all now ss d) = map (\<lambda>s. if sg_id s \<in> sg_id ` set ss then s\<lparr>sg_processedAt := Some now\<rparr> else s) (de_signals d)"
proof (induction ss arbitrary: d)
  case (Cons s ss)
  have "de_signals (mark_all now (s # ss) d) = de_signals (mark_all now ss (mark_signal now (sg_id s) d))" by (simp add: mark_all_def)
  then show ?case by (auto simp: Cons.IH mark_signal_def)
qed (simp add: mark_all_def)

lemma mark_all_rows:
  "same_setup d (mark_all now ss d)" "de_portal (mark_all now ss d) = de_portal d" "de_cycles (mark_all now ss d) = de_cycles d"
  "de_signalSequence (mark_all now ss d) = de_signalSequence d"
  unfolding mark_all_def by (induction ss arbitrary: d) (auto simp: mark_signal_def same_setup_def)

text \<open>The signals still waiting after a run are the ones beyond the batch or beyond the clock.\<close>

lemma waiting_after:
  assumes ids: "sorted_wrt (\<lambda>s t. sg_id s < sg_id t) (de_signals d)"
    and s: "s \<in> set (de_signals (mark_all now ss d))" "sg_processedAt s = None"
  shows "s \<in> set (de_signals d) \<and> s \<notin> set ss"
  using s by (auto simp: mark_all_signals split: if_splits)

lemma pending_sorted:
  assumes "signals_ok d"
  shows "sorted (map sg_happenedAt (pending_signals now rid d))"
proof -
  have "sorted_wrt (\<lambda>s t. sg_requestId s = sg_requestId t \<longrightarrow> sg_happenedAt s \<le> sg_happenedAt t) (pending_signals now rid d)"
    using assms unfolding pending_signals_def signals_of_def signals_ok_def by (intro sorted_wrt_filter) simp
  then have "sorted_wrt (\<lambda>s t. sg_happenedAt s \<le> sg_happenedAt t) (pending_signals now rid d)"
    by (rule sorted_wrt_mono_rel [rotated]) (auto simp: pending_signals_def signals_of_def)
  then show ?thesis by (simp add: sorted_map)
qed

lemma sorted_take_drop:
  assumes "sorted (map f xs)" and "x \<in> set xs" and "x \<notin> set (take n xs)" and "take n xs \<noteq> []"
  shows "f (last (take n xs)) \<le> f x"
proof -
  have "x \<in> set (drop n xs)" using assms(2,3) by (metis Un_iff append_take_drop_id set_append)
  moreover have "sorted (map f (take n xs) @ map f (drop n xs))"
    using assms(1) by (metis append_take_drop_id map_append)
  moreover have "last (take n xs) \<in> set (take n xs)" using assms(4) by simp
  ultimately show ?thesis by (auto simp: sorted_append)
qed

lemma finish_tables [desk_simps]:
  "de_cycles (finish_request r t ss l d) = de_cycles d" "de_signals (finish_request r t ss l d) = de_signals d"
  "de_goals (finish_request r t ss l d) = de_goals d" "de_goalVersions (finish_request r t ss l d) = de_goalVersions d"
  "de_calendarVersions (finish_request r t ss l d) = de_calendarVersions d"
  "de_signalSequence (finish_request r t ss l d) = de_signalSequence d"
  "po_requests (de_portal (finish_request r t ss l d)) =
     map (\<lambda>x. if sr_id x = sr_id r then x\<lparr>sr_slaState := sla_state l, sr_slaCheckedAt := Some t\<rparr> else x) (po_requests (de_portal d))"
  by (simp_all add: finish_request_def Let_def desk_simps update_request_def)

lemma marked_signals_ok:
  assumes "signals_ok d" and "de_signalSequence d' = de_signalSequence d"
    and "de_signals d' = map (\<lambda>s. if sg_id s \<in> sg_id ` set ss then s\<lparr>sg_processedAt := Some now\<rparr> else s) (de_signals d)"
  shows "signals_ok d'"
proof -
  define g where "g = (\<lambda>s :: sla_signal. if sg_id s \<in> sg_id ` set ss then s\<lparr>sg_processedAt := Some now\<rparr> else s)"
  have "sg_id (g s) = sg_id s" "sg_requestId (g s) = sg_requestId s" "sg_happenedAt (g s) = sg_happenedAt s" for s
    by (simp_all add: g_def)
  moreover have "de_signals d' = map g (de_signals d)" using assms(3) by (simp add: g_def)
  ultimately show ?thesis using assms(1,2) by (simp add: signals_ok_def sorted_wrt_map list.pred_map o_def)
qed

text \<open>What the end of a run establishes.\<close>

lemma finish_ok:
  assumes ok: "sla_ok zone new d" and r: "r \<in> set (po_requests (de_portal d))"
    and loop: "loop_ok zone new (mark_all now ss d) (sr_id r) t latest d2"
    and behind: "\<And>s. s \<in> set (de_signals (mark_all now ss d)) \<Longrightarrow> sg_requestId s = sr_id r \<Longrightarrow> sg_processedAt s = None \<Longrightarrow> t \<le> sg_happenedAt s"
  shows "sla_ok zone new (finish_request r t ss latest d2)"
proof -
  let ?m = "mark_all now ss d" and ?f = "finish_request r t ss latest d2"
  from ok have new: "inj new" and su: "setup_ok zone d" and ids: "distinct (map sr_id (po_requests (de_portal d)))"
    and sig: "signals_ok d" and wait: "waiting_ok d" and clk: "clocks_ok d" and opn: "open_ok d" by (auto simp: sla_ok_def)
  from loop have rows: "same_rows ?m d2" and cyc: "cycles_ok zone new d2" and lat: "latest_ok (sr_id r) latest d2"
    and run: "run_to t latest" and oth: "others (sr_id r) d2 = others (sr_id r) d"
    by (auto simp: loop_ok_def others_def mark_all_rows)
  have setup_f: "same_setup d2 ?f" by (simp add: same_setup_def desk_simps)
  have setup_d: "same_setup d ?f"
    using rows setup_f mark_all_rows(1) [of d now ss] by (auto simp: same_rows_def same_setup_def)
  have signals: "de_signals ?f = de_signals ?m" and portal: "de_portal d2 = de_portal d" and counter: "de_signalSequence d2 = de_signalSequence d"
    using rows by (simp_all add: same_rows_def desk_simps mark_all_rows)
  let ?g = "\<lambda>x. if sr_id x = sr_id r then x\<lparr>sr_slaState := sla_state latest, sr_slaCheckedAt := Some t\<rparr> else x"
  have reqs: "po_requests (de_portal ?f) = map ?g (po_requests (de_portal d))" by (simp add: desk_simps portal)
  have g: "sr_id (?g x) = sr_id x" for x by simp
  have other: "x \<in> set (de_cycles d)" if "x \<in> set (de_cycles d2)" "cy_requestId x \<noteq> sr_id r" for x
  proof -
    have "x \<in> set (others (sr_id r) d2)" using that by (simp add: others_def)
    then show ?thesis unfolding oth by (simp add: others_def)
  qed
  have in_latest: "c \<in> set latest" if "c \<in> set (de_cycles d2)" "cy_requestId c = sr_id r" "cy_endedAt c = None" for c
    using lat that unfolding latest_ok_def by blast
  have "signals_ok ?f"
    by (rule marked_signals_ok [OF sig, of _ ss now]) (use signals counter in \<open>simp_all add: desk_simps mark_all_signals\<close>)
  moreover have "waiting_ok ?f"
    unfolding waiting_ok_def reqs signals
  proof (intro ballI impI allI)
    fix y s u assume y: "y \<in> set (map ?g (po_requests (de_portal d)))" and s: "s \<in> set (de_signals ?m)"
      and h: "sg_requestId s = sr_id y" "sg_processedAt s = None" "sr_slaCheckedAt y = Some u"
    from y obtain x where x: "x \<in> set (po_requests (de_portal d))" "y = ?g x" by auto
    show "u \<le> sg_happenedAt s"
    proof (cases "sr_id x = sr_id r")
      case True
      then show ?thesis using behind [OF s] h x(2) by simp
    next
      case False
      have "s \<in> set (de_signals d)"
        using waiting_after [of d s now ss] sig s h(2) by (simp add: signals_ok_def)
      then show ?thesis using wait x h False unfolding waiting_ok_def by auto
    qed
  qed
  moreover have "clocks_ok ?f"
    unfolding clocks_ok_def reqs
  proof (intro ballI impI)
    fix c y assume c: "c \<in> set (de_cycles ?f)" "cy_endedAt c = None" and y: "y \<in> set (map ?g (po_requests (de_portal d)))" "sr_id y = cy_requestId c"
    from y(1) obtain x where x: "x \<in> set (po_requests (de_portal d))" "y = ?g x" by auto
    show "\<exists>u. sr_slaCheckedAt y = Some u \<and> cy_lastAt c \<le> u"
    proof (cases "sr_id x = sr_id r")
      case True
      then have "c \<in> set latest" using in_latest c y(2) x(2) by (simp add: desk_simps)
      then show ?thesis using run c(2) True x(2) by (auto simp: run_to_def list_all_iff)
    next
      case False
      then have "c \<in> set (de_cycles d)" using other c(1) y(2) x(2) by (simp add: desk_simps)
      then show ?thesis using clk c(2) x y(2) False unfolding clocks_ok_def by auto
    qed
  qed
  moreover have "open_ok ?f"
    unfolding open_ok_def
  proof (intro ballI impI)
    fix c x assume c: "c \<in> set (de_cycles ?f)" "cy_endedAt c = None" and x: "x \<in> set (de_cycles ?f)" "cy_requestId x = cy_requestId c" "cy_metric x = cy_metric c"
    show "cy_sequence x \<le> cy_sequence c"
    proof (cases "cy_requestId c = sr_id r")
      case True
      then have cl: "c \<in> set latest" using in_latest c by (simp add: desk_simps)
      from lat x True obtain e where e: "e \<in> set latest" "cy_metric e = cy_metric x" "cy_sequence x \<le> cy_sequence e"
        unfolding latest_ok_def by (auto simp: desk_simps)
      have "e = c" using lat cl e(1,2) x(3) unique_key [of cy_metric latest e c] by (simp add: latest_ok_def)
      with e(3) show ?thesis by simp
    next
      case False
      then have "c \<in> set (de_cycles d)" "x \<in> set (de_cycles d)" using other c(1) x by (simp_all add: desk_simps)
      then show ?thesis using opn c(2) x(2,3) by (simp add: open_ok_def)
    qed
  qed
  moreover have "cycles_ok zone new ?f"
    using cyc by (simp add: cycles_ok_def desk_simps good_version_setup [OF setup_f])
  moreover have "distinct (map sr_id (po_requests (de_portal ?f)))"
    using ids by (simp add: reqs o_def g del: distinct_map map_eq_conv)
  ultimately show ?thesis
    using new su setup_ok_same [OF setup_d] by (simp add: sla_ok_def)
qed

lemma find_request_Some: "find_request d rid = Some r \<Longrightarrow> r \<in> set (po_requests (de_portal d)) \<and> sr_id r = rid"
  unfolding find_request_def by (drule find_SomeD) simp

text \<open>The earliest bound a run starts from.\<close>

lemma run_start:
  assumes clk: "clocks_ok d" and r: "r \<in> set (po_requests (de_portal d))" and lat: "latest_ok (sr_id r) latest d"
    and b: "case sr_slaCheckedAt r of None \<Rightarrow> True | Some t \<Rightarrow> t \<le> b"
  shows "run_to b latest"
  unfolding run_to_def list_all_iff
proof (intro ballI impI)
  fix c assume c: "c \<in> set latest" and opn: "cy_endedAt c = None"
  then have "c \<in> set (de_cycles d)" and rid: "cy_requestId c = sr_id r" using lat by (auto simp: latest_ok_def list_all_iff)
  then obtain t where "sr_slaCheckedAt r = Some t" "cy_lastAt c \<le> t"
    using clk opn r unfolding clocks_ok_def by metis
  with b show "cy_lastAt c \<le> b" by simp
qed

lemma process_request_ok:
  assumes ok: "sla_ok zone new d"
  shows "\<exists>done d'. processSlaRequest zone new now rid d = Inr (done, d') \<and> sla_ok zone new d'"
proof (cases "find_request d rid")
  case None
  with ok show ?thesis by (auto simp: processSlaRequest_def)
next
  case (Some r)
  then have r: "r \<in> set (po_requests (de_portal d))" "sr_id r = rid" using find_request_Some by blast+
  from ok have new: "inj new" and su: "setup_ok zone d" and cyc: "cycles_ok zone new d" and sig: "signals_ok d"
    and wait: "waiting_ok d" and clk: "clocks_ok d" and opn: "open_ok d" by (auto simp: sla_ok_def)
  show ?thesis
  proof (cases "case sr_slaCheckedAt r of None \<Rightarrow> False | Some t \<Rightarrow> now < t")
    case True
    with Some ok show ?thesis by (auto simp: processSlaRequest_def)
  next
    case not_early: False
    let ?P = "pending_signals now rid d"
    define ss where "ss = take 100 ?P"
    define latest where "latest = latest_cycles rid d"
    define b where "b = (case sr_slaCheckedAt r of Some t \<Rightarrow> t | None \<Rightarrow> (case ss of [] \<Rightarrow> now | s # _ \<Rightarrow> sg_happenedAt s))"
    have sorted_P: "sorted (map sg_happenedAt ?P)" by (rule pending_sorted [OF sig])
    then have sorted_ss: "sorted (map sg_happenedAt ss)" by (simp add: ss_def take_map [symmetric] sorted_wrt_take)
    have in_P: "s \<in> set (de_signals d) \<and> sg_requestId s = rid \<and> sg_processedAt s = None \<and> sg_happenedAt s \<le> now" if "s \<in> set ss" for s
      using that set_take_subset [of 100 ?P] by (auto simp: ss_def pending_signals_def signals_of_def)
    have b_le: "\<forall>s\<in>set ss. b \<le> sg_happenedAt s"
    proof
      fix s assume s: "s \<in> set ss"
      show "b \<le> sg_happenedAt s"
      proof (cases "sr_slaCheckedAt r")
        case None
        then show ?thesis using s sorted_ss by (cases ss) (auto simp: b_def)
      next
        case (Some t)
        then show ?thesis using wait r in_P [OF s] unfolding waiting_ok_def b_def by simp
      qed
    qed
    have lat: "latest_ok rid latest d" unfolding latest_def by (rule latest_cycles_ok [OF cyc opn])
    have "run_to b latest"
      by (rule run_start [OF clk r(1)]) (use lat r(2) in \<open>simp_all add: b_def split: option.splits\<close>)
    then have start: "loop_ok zone new d (sr_id r) b latest d"
      using cyc lat r(2) by (simp add: loop_ok_def)
    obtain latest1 d1 where run: "fold_result (process_signal zone new now r) ss (latest, d) = Inr (latest1, d1)"
      and inv1: "loop_ok zone new (mark_all now ss d) (sr_id r) (if ss = [] then b else sg_happenedAt (last ss)) latest1 d1"
      using process_signals_loop [OF start sorted_ss b_le new su] by blast
    define tick where "tick = tick_time now r ss d1"
    have sig1: "de_signals d1 = de_signals (mark_all now ss d)" using inv1 by (simp add: loop_ok_def same_rows_def)
    have left: "s \<in> set ?P \<and> s \<notin> set ss" if "s \<in> set (pending_signals now rid d1)" for s
      using that waiting_after [of d s now ss] sig
      by (auto simp: pending_signals_def signals_of_def sig1 signals_ok_def)
    have some_ss: "ss \<noteq> []" if "pending_signals now rid d1 \<noteq> []"
    proof -
      from that have "hd (pending_signals now rid d1) \<in> set ?P" using left hd_in_set by blast
      then show ?thesis by (auto simp: ss_def)
    qed
    have last_now: "ss \<noteq> [] \<Longrightarrow> sg_happenedAt (last ss) \<le> now" using in_P by simp
    have tick: "tick = (if pending_signals now rid d1 = [] then now else sg_happenedAt (last ss))"
      using some_ss by (simp add: tick_def tick_time_def r(2))
    have "(if ss = [] then b else sg_happenedAt (last ss)) \<le> tick"
      using last_now some_ss not_early by (auto simp: tick b_def split: option.splits)
    then have inv2: "loop_ok zone new (mark_all now ss d) (sr_id r) tick ([] @ latest1) d1"
      using inv1 run_to_mono by (auto simp: loop_ok_def)
    from each_cycle_runs [OF inv2, of "tick_cycle zone r tick"] tick_cycle_loop [OF _ new]
    obtain latest2 d2 where ticks: "each_cycle (tick_cycle zone r tick) latest1 d1 = Inr (latest2, d2)"
      and inv3: "loop_ok zone new (mark_all now ss d) (sr_id r) tick latest2 d2" by auto
    have behind: "tick \<le> sg_happenedAt s"
      if s: "s \<in> set (de_signals (mark_all now ss d))" "sg_requestId s = sr_id r" "sg_processedAt s = None" for s
    proof (cases "sg_happenedAt s \<le> now")
      case True
      then have p: "s \<in> set (pending_signals now rid d1)" using s r(2) by (simp add: pending_signals_def signals_of_def sig1)
      then have "pending_signals now rid d1 \<noteq> []" by (cases "pending_signals now rid d1") auto
      then have "ss \<noteq> []" by (rule some_ss)
      then have "sg_happenedAt (last ss) \<le> sg_happenedAt s"
        using sorted_take_drop [OF sorted_P, of s 100] left [OF p] by (simp add: ss_def)
      with p tick show ?thesis by auto
    next
      case False
      then show ?thesis using tick last_now some_ss by (auto split: if_splits)
    qed
    have "processSlaRequest zone new now rid d = Inr (True, finish_request r tick ss latest2 d2)"
      using Some not_early run ticks by (simp add: processSlaRequest_def ss_def latest_def tick_def Let_def)
    with finish_ok [OF ok r(1) inv3 behind] show ?thesis by blast
  qed
qed

lemma add_signal_ok:
  assumes ok: "sla_ok zone new d" and r: "r \<in> set (po_requests (de_portal d))"
    and later: "\<And>s. s \<in> set (signals_of d (sr_id r)) \<Longrightarrow> sg_happenedAt s \<le> happened"
    and checked: "\<And>t. sr_slaCheckedAt r = Some t \<Longrightarrow> t \<le> happened"
  shows "sla_ok zone new (add_signal r key happened payload ids d)"
proof (cases "list_ex (\<lambda>s. sg_eventKey s = key) (de_signals d)")
  case True
  with ok show ?thesis by (simp add: add_signal_def)
next
  case False
  define s where "s = \<lparr>sg_id = Suc (de_signalSequence d), sg_requestId = sr_id r, sg_eventKey = key, sg_happenedAt = happened,
    sg_payload = payload, sg_goalIds = ids, sg_processedAt = None\<rparr>"
  let ?d = "d\<lparr>de_signals := de_signals d @ [s], de_signalSequence := Suc (de_signalSequence d)\<rparr>"
  have step: "add_signal r key happened payload ids d = ?d" using False by (simp add: add_signal_def s_def)
  have su: "same_setup d ?d" by (simp add: same_setup_def)
  have earlier: "sg_happenedAt x \<le> happened" if "x \<in> set (de_signals d)" "sg_requestId x = sr_id r" for x
    using that later by (simp add: signals_of_def)
  have "signals_ok ?d"
    using ok earlier by (fastforce simp: sla_ok_def signals_ok_def sorted_wrt_append s_def list_all_iff)
  moreover have "waiting_ok ?d"
    unfolding waiting_ok_def
  proof (intro ballI impI allI)
    fix y x t assume y: "y \<in> set (po_requests (de_portal ?d))" and x: "x \<in> set (de_signals ?d)" "sg_requestId x = sr_id y"
      "sg_processedAt x = None" and t: "sr_slaCheckedAt y = Some t"
    show "t \<le> sg_happenedAt x"
    proof (cases "x \<in> set (de_signals d)")
      case True
      then show ?thesis using ok x y t by (simp add: sla_ok_def waiting_ok_def)
    next
      case False
      then have xs: "x = s" using x(1) by simp
      then have "sr_id y = sr_id r" using x(2) by (simp add: s_def)
      then have "y = r" using unique_key [of sr_id "po_requests (de_portal d)" y r] ok y r by (simp add: sla_ok_def)
      then show ?thesis using checked t xs by (simp add: s_def)
    qed
  qed
  ultimately show ?thesis
    using ok setup_ok_same [OF su] good_version_setup [OF su]
    unfolding step sla_ok_def cycles_ok_def clocks_ok_def open_ok_def by simp
qed

lemma last_signal_latest:
  assumes "signals_ok d" and "s \<in> set (signals_of d rid)"
  shows "\<exists>l. last_signal d rid = Some l \<and> sg_happenedAt s \<le> sg_happenedAt l"
proof -
  let ?S = "signals_of d rid"
  have "sorted_wrt (\<lambda>s t. sg_requestId s = sg_requestId t \<longrightarrow> sg_happenedAt s \<le> sg_happenedAt t) ?S"
    using assms(1) unfolding signals_of_def signals_ok_def by (intro sorted_wrt_filter) simp
  then have "sorted_wrt (\<lambda>s t. sg_happenedAt s \<le> sg_happenedAt t) ?S"
    by (rule sorted_wrt_mono_rel [rotated]) (auto simp: signals_of_def)
  moreover obtain xs l where S: "?S = xs @ [l]" using assms(2) by (cases ?S rule: rev_cases) auto
  ultimately have "sg_happenedAt s \<le> sg_happenedAt l" using assms(2) by (auto simp: sorted_wrt_append)
  then show ?thesis by (simp add: last_signal_def S)
qed

lemma fold_max_init: "n \<le> fold max xs (n :: int)"
proof (induction xs arbitrary: n)
  case (Cons y ys)
  have "n \<le> max y n" by simp
  also have "\<dots> \<le> fold max ys (max y n)" by (rule Cons.IH)
  finally show ?case by simp
qed simp

lemma fold_max_ge: "x \<in> set xs \<Longrightarrow> x \<le> fold max xs (n :: int)"
proof (induction xs arbitrary: n)
  case (Cons y ys)
  have "y \<le> fold max ys (max y n)" using fold_max_init [of "max y n" ys] by simp
  then show ?case using Cons by auto
qed simp

datatype sla_step =
    Enqueue time string string string "time option"   \<comment> \<open>clock, issue, event, event key, instant given\<close>
  | Capture time string string string                 \<comment> \<open>clock, issue, event, generated id\<close>
  | Process time string                               \<comment> \<open>clock, request\<close>

definition sla_step :: "zone_db \<Rightarrow> (nat \<Rightarrow> string) \<Rightarrow> sla_step \<Rightarrow> desk \<Rightarrow> desk" where
  "sla_step zone new e d =
     (case e of
        Enqueue now i event key happened \<Rightarrow> enqueueSlaSignal now i event key happened d
      | Capture now i event uuid \<Rightarrow> capture_sla_signal now i event uuid d
      | Process now rid \<Rightarrow> (case processSlaRequest zone new now rid d of Inl _ \<Rightarrow> d | Inr (_, d') \<Rightarrow> d'))"

lemma request_of_issue_Some: "request_of_issue d i = Some r \<Longrightarrow> r \<in> set (po_requests (de_portal d))"
  unfolding request_of_issue_def by (drule find_SomeD) simp

lemma sla_step_ok:
  assumes ok: "sla_ok zone new d"
  shows "sla_ok zone new (sla_step zone new e d)"
proof (cases e)
  case (Process now rid)
  from process_request_ok [OF ok, of now rid] Process show ?thesis by (auto simp: sla_step_def)
next
  case (Enqueue now i event key happened)
  have "sla_ok zone new (add_signal r key (signal_time d r t) payload ids d)" if "request_of_issue d i = Some r" for r t payload ids
  proof (rule add_signal_ok [OF ok request_of_issue_Some [OF that]])
    fix s assume "s \<in> set (signals_of d (sr_id r))"
    with last_signal_latest [of d s "sr_id r"] ok show "sg_happenedAt s \<le> signal_time d r t"
      by (auto simp: sla_ok_def signal_time_def)
  qed (simp add: signal_time_def)
  with Enqueue ok show ?thesis by (auto simp: sla_step_def enqueueSlaSignal_def Let_def split: option.splits)
next
  case (Capture now i event uuid)
  have "sla_ok zone new (add_signal r key (captured_time d r now) payload ids d)" if "request_of_issue d i = Some r" for r key payload ids
  proof (rule add_signal_ok [OF ok request_of_issue_Some [OF that]])
    fix s assume "s \<in> set (signals_of d (sr_id r))"
    then show "sg_happenedAt s \<le> captured_time d r now" unfolding captured_time_def by (intro fold_max_ge) simp
  next
    fix t assume t: "sr_slaCheckedAt r = Some t"
    have "t \<le> max now t" by simp
    also have "\<dots> \<le> captured_time d r now" using fold_max_init t by (simp add: captured_time_def)
    finally show "t \<le> captured_time d r now" .
  qed
  with Capture ok show ?thesis by (auto simp: sla_step_def capture_sla_signal_def Let_def split: option.splits)
qed

interpretation timers: kept "sla_step zone new" "sla_ok zone new" for zone new
  by unfold_locales (rule sla_step_ok)

text \<open>
  The worker never gets stuck. From a well-formed database, whatever signals are enqueued or captured in
  between and at whatever clock values, processing a request succeeds: no signal is ever behind an
  interval that was already accounted for, every cycle finds its goal and calendar, and no cycle is
  created twice.
\<close>

theorem sla_worker_never_fails:
  assumes "sla_ok zone new d"
  shows "\<exists>done d'. processSlaRequest zone new now rid (fold (sla_step zone new) steps d) = Inr (done, d')"
  using process_request_ok [OF timers.run_inv [OF assms]] by blast

text \<open>
  C21: At every moment at most one cycle of each metric of a request is open, and it is the latest one.
\<close>

theorem one_open_cycle:
  assumes "sla_ok zone new d" and "d' = fold (sla_step zone new) steps d"
    and "c \<in> set (de_cycles d')" "cy_endedAt c = None"
    and "x \<in> set (de_cycles d')" "cy_requestId x = cy_requestId c" "cy_metric x = cy_metric c" "x \<noteq> c"
  shows "cy_endedAt x \<noteq> None \<and> cy_sequence x < cy_sequence c"
proof -
  have ok: "sla_ok zone new d'" unfolding assms(2) by (rule timers.run_inv [OF assms(1)])
  then have opn: "open_ok d'" and keys: "distinct (map cycle_key (de_cycles d'))" by (simp_all add: sla_ok_def cycles_ok_def)
  have "cy_sequence x \<noteq> cy_sequence c"
    using unique_key [OF keys assms(5,3)] assms(6,7,8) by (auto simp: cycle_key_def)
  moreover have "cy_sequence x \<le> cy_sequence c" using opn assms(3-7) by (simp add: open_ok_def)
  moreover have "cy_sequence c \<le> cy_sequence x" if "cy_endedAt x = None"
    using opn assms(3-7) that by (simp add: open_ok_def)
  ultimately show ?thesis by force
qed

section \<open>How often the worker looks does not matter\<close>

lemma due_event_split:
  assumes order: "cy_lastAt c \<le> t1" "t1 \<le> t2" and clock: "zone (ca_timezone cal) = Some clock" and opn: "cy_endedAt c = None" "cy_endedAt c1 = None"
    and c1: "cy_lastAt c1 = t1" "cy_elapsedMs c1 = m1" and m1: "m1 = cy_elapsedMs c + worked (busy cal clock) (cy_lastAt c) t1"
    and m2: "m2 = m1 + worked (busy cal clock) t1 t2"
    and first: "due_event zone cal c t1 m1 type given limit = Inr ev1"
    and given': "(given' = None) = (given = None \<and> ev1 = [])"
    and second: "due_event zone cal c1 t2 m2 type given' limit = Inr ev2"
  shows "due_event zone cal c t2 m2 type given limit = Inr (ev1 @ ev2)"
proof (cases "given = None \<and> limit \<le> m2")
  case False
  have "m1 \<le> m2" using m2 by simp
  with False first second given' show ?thesis by (auto simp: due_event_def opn split: if_splits)
next
  case True
  let ?W = "worked (busy cal clock)" and ?amount = "limit - cy_elapsedMs c"
  have ms: "businessMilliseconds zone cal a b = Inr (?W a b)" if "a \<le> b" for a b
    by (rule business_time [where zone = zone and c = cal, OF that clock])
  note exact = threshold_is_exact [where zone = zone and c = cal, OF _ clock]
  have t2: "cy_lastAt c \<le> t2" using order by simp
  show ?thesis
  proof (cases "limit \<le> m1")
    case early: True
    have ev2: "ev2 = []" using second given' first early True opn
      by (auto simp: due_event_def bind_result_eq_Inr split: if_splits)
    show ?thesis
    proof (cases "?amount \<le> 0")
      case True
      then show ?thesis using first early \<open>given = None \<and> limit \<le> m2\<close> ev2 opn by (simp add: due_event_def businessThreshold_def)
    next
      case False
      then have pos: "0 < ?amount" by simp
      have "\<not> (\<exists>n < ?amount. businessMilliseconds zone cal (cy_lastAt c) t1 = Inr n)" using ms [OF order(1)] early m1 by simp
      then obtain t where t: "businessThreshold zone cal (cy_lastAt c) t1 ?amount = Inr (Some t)"
        using exact [OF order(1) pos] business_threshold [where zone = zone and c = cal, OF order(1) clock pos] by blast
      then have "businessThreshold zone cal (cy_lastAt c) t2 ?amount = Inr (Some t)"
        using exact [OF order(1) pos, of t] exact [OF t2 pos, of t] order by auto
      then show ?thesis using t first early True ev2 opn by (simp add: due_event_def)
    qed
  next
    case late: False
    then have ev1: "ev1 = []" and gn: "given' = None" using first given' True by (auto simp: due_event_def)
    have pos1: "0 < limit - m1" and pos: "0 < ?amount" using late m1 worked_nonneg [of "busy cal clock" "cy_lastAt c" t1] by linarith+
    have "\<not> (\<exists>n < limit - m1. businessMilliseconds zone cal t1 t2 = Inr n)" using ms [OF order(2)] True m2 by simp
    then obtain t where t: "businessThreshold zone cal t1 t2 (limit - m1) = Inr (Some t)"
      using exact [OF order(2) pos1] business_threshold [where zone = zone and c = cal, OF order(2) clock pos1] by blast
    then have tt: "t1 < t" "t \<le> t2" "?W t1 t = limit - m1" "busy cal clock (t - 1)"
      using exact [OF order(2) pos1, of t] ms [of t1 t] by auto
    then have "?W (cy_lastAt c) t = ?amount" using worked_split [of "cy_lastAt c" t1 t "busy cal clock"] order m1 by simp
    then have "businessThreshold zone cal (cy_lastAt c) t2 ?amount = Inr (Some t)"
      using exact [OF t2 pos, of t] ms [of "cy_lastAt c" t] tt order by simp
    then show ?thesis using t second True ev1 gn c1 opn by (simp add: due_event_def)
  qed
qed

lemma due_event_shape: "due_event zone cal c t m type given limit = Inr ev \<Longrightarrow> ev = [] \<or> (\<exists>x. ev = [(type, x)])"
  by (auto simp: due_event_def bind_result_eq_Inr split: if_splits)

lemma due_event_given: "due_event zone cal c t m type given limit = Inr ev \<Longrightarrow> cy_endedAt c = None \<Longrightarrow> limit \<le> m \<Longrightarrow> given = None \<Longrightarrow> ev \<noteq> []"
  by (auto simp: due_event_def bind_result_eq_Inr)

text \<open>The stamps do not depend on the two columns the clock writes.\<close>

definition clocked :: "int \<Rightarrow> time \<Rightarrow> sla_cycle \<times> desk \<Rightarrow> sla_cycle \<times> desk" where
  "clocked m t st = ((fst st)\<lparr>cy_elapsedMs := m, cy_lastAt := t\<rparr>, snd st)"

lemma record_event_cols:
  "cy_id c' = cy_id c \<Longrightarrow> cy_goalVersionId c' = cy_goalVersionId c \<Longrightarrow> cy_elapsedMs c' = cy_elapsedMs c \<Longrightarrow>
     record_event r v c' type happened suffix d = record_event r v c type happened suffix d"
  by (simp only: record_event_def)

lemma stamp_clocked: "stamp r v ev (clocked m t st) = clocked m t (stamp r v ev st)"
proof (cases ev)
  case (Pair type happened)
  show ?thesis
    unfolding Pair clocked_def stamp_def Let_def split_beta fst_conv snd_conv
    by (intro prod_eqI, simp, simp only: snd_conv, rule record_event_cols) simp_all
qed

lemma stamps_clocked: "fold (stamp r v) evs (clocked m t st) = clocked m t (fold (stamp r v) evs st)"
  by (induction evs arbitrary: st) (simp_all add: stamp_clocked)

text \<open>
  However late the worker looks, the outcome is the same: running a clock to \<open>t1\<close> and then to \<open>t2\<close> leaves
  the same cycle, with the same instants of risk and breach, the same events and alerts, as running it to
  \<open>t2\<close> at once.
\<close>

theorem delayed_checks_agree:
  assumes version: "version_of d (cy_goalVersionId c) = Some (v, cal)" "zone (ca_timezone cal) \<noteq> None" "0 \<le> gv_riskMinutes v"
    and running: "cy_endedAt c = None" "cy_pauseReasons c = []" and order: "cy_lastAt c \<le> t1" "t1 \<le> t2"
    and steps: "advance zone r t1 (c, d) = Inr (c1, d1)" "advance zone r t2 (c1, d1) = Inr (c2, d2)"
  shows "advance zone r t2 (c, d) = Inr (c2, d2)"
proof -
  from version(2) obtain clock where clock: "zone (ca_timezone cal) = Some clock" by blast
  let ?W = "worked (busy cal clock)" and ?target = "gv_targetMinutes v * MINUTE" and ?risk = "gv_riskMinutes v * MINUTE"
  let ?m1 = "cy_elapsedMs c + ?W (cy_lastAt c) t1"
  let ?m2 = "?m1 + ?W t1 t2"
  have ms: "businessMilliseconds zone cal a b = Inr (?W a b)" if "a \<le> b" for a b
    by (rule business_time [where zone = zone and c = cal, OF that clock])
  from steps(1) version(1) order(1) running ms [OF order(1)] obtain ra ba
    where ra: "due_event zone cal c t1 ?m1 ''sla.risk'' (cy_riskAt c) (?target - ?risk) = Inr ra"
      and ba: "due_event zone cal c t1 ?m1 ''sla.breached'' (cy_breachedAt c) ?target = Inr ba"
      and one: "(c1, d1) = fold (stamp r v) (ra @ ba) (clocked ?m1 t1 (c, d))"
    by (auto simp: advance_def accrue_def Let_def bind_result_eq_Inr clocked_def split: sum.splits)
  have shape: "ra = [] \<or> (\<exists>x. ra = [(''sla.risk'', x)])" "ba = [] \<or> (\<exists>x. ba = [(''sla.breached'', x)])"
    using due_event_shape [OF ra] due_event_shape [OF ba] by auto
  obtain x dx where x: "fold (stamp r v) (ra @ ba) (c, d) = (x, dx)" by (cases "fold (stamp r v) (ra @ ba) (c, d)")
  then have "(c1, d1) = clocked ?m1 t1 (x, dx)" using one by (simp only: stamps_clocked)
  then have c1: "c1 = x\<lparr>cy_elapsedMs := ?m1, cy_lastAt := t1\<rparr>" "d1 = dx" by (simp_all add: clocked_def)
  have x_cols: "cy_endedAt x = None" "cy_pauseReasons x = []" "cy_goalVersionId x = cy_goalVersionId c" "same_setup d dx"
    "(cy_riskAt x = None) = (cy_riskAt c = None \<and> ra = [])" "(cy_breachedAt x = None) = (cy_breachedAt c = None \<and> ba = [])"
    using x shape running stamps_step [OF x] by (auto simp: stamp_def Let_def same_cycle_def same_rows_def)
  have v1: "version_of d1 (cy_goalVersionId c1) = Some (v, cal)"
    using version(1) x_cols(3,4) c1 by (simp add: version_of_setup)
  from steps(2) v1 order(2) x_cols(1,2) c1 ms [OF order(2)] obtain rb bb
    where rb: "due_event zone cal c1 t2 ?m2 ''sla.risk'' (cy_riskAt x) (?target - ?risk) = Inr rb"
      and bb: "due_event zone cal c1 t2 ?m2 ''sla.breached'' (cy_breachedAt x) ?target = Inr bb"
      and two: "(c2, d2) = fold (stamp r v) (rb @ bb) (clocked ?m2 t2 (c1, d1))"
    by (auto simp: advance_def accrue_def Let_def bind_result_eq_Inr clocked_def split: sum.splits)
  have cols1: "cy_endedAt c1 = None" "cy_lastAt c1 = t1" "cy_elapsedMs c1 = ?m1" using c1 x_cols(1) by simp_all
  note split = due_event_split [where zone = zone, OF order clock running(1) cols1(1,2,3) refl refl]
  have risk: "due_event zone cal c t2 ?m2 ''sla.risk'' (cy_riskAt c) (?target - ?risk) = Inr (ra @ rb)"
    by (rule split [OF ra x_cols(5) rb])
  have breach: "due_event zone cal c t2 ?m2 ''sla.breached'' (cy_breachedAt c) ?target = Inr (ba @ bb)"
    by (rule split [OF ba x_cols(6) bb])
  have swap: "ba = [] \<or> rb = []"
  proof (rule ccontr)
    assume "\<not> ?thesis"
    then have "?target \<le> ?m1" "cy_riskAt x = None"
      using ba rb by (auto simp: due_event_def split: if_splits)
    moreover have "?target - ?risk \<le> ?target" using version(3) by (simp add: MINUTE_def)
    ultimately show False
      using due_event_given [OF ra running(1)] x_cols(5) by auto
  qed
  then have events: "(ra @ rb) @ (ba @ bb) = (ra @ ba) @ (rb @ bb)" by auto
  have total: "?W (cy_lastAt c) t2 = ?W (cy_lastAt c) t1 + ?W t1 t2" by (rule worked_split [OF order])
  have "fold (stamp r v) ((ra @ ba) @ (rb @ bb)) (clocked ?m2 t2 (c, d)) = clocked ?m2 t2 (fold (stamp r v) (rb @ bb) (x, dx))"
    by (simp only: stamps_clocked fold_append o_apply x [unfolded fold_append o_apply])
  also have "\<dots> = fold (stamp r v) (rb @ bb) (clocked ?m2 t2 (c1, d1))"
    using c1 by (simp only: stamps_clocked [symmetric]) (simp add: clocked_def)
  finally have fold_all: "fold (stamp r v) ((ra @ rb) @ (ba @ bb)) (clocked ?m2 t2 (c, d)) = (c2, d2)"
    unfolding events two .
  have acc: "accrue zone cal c t2 ?target ?risk = Inr \<lparr>al_elapsedMs = ?m2, al_lastAt = t2, al_events = (ra @ rb) @ (ba @ bb)\<rparr>"
    using order running ms [of "cy_lastAt c" t2] risk breach total by (simp add: accrue_def Let_def add.assoc)
  show ?thesis
    using version(1) acc fold_all by (simp add: advance_def clocked_def del: fold_append append_assoc)
qed

section \<open>A sample desk\<close>

definition cycle_name :: "nat \<Rightarrow> string" where
  "cycle_name n = replicate n CHR ''c''"

lemma inj_cycle_name: "inj cycle_name"
  by (rule injI) (metis cycle_name_def length_replicate)

definition sample_rules :: timer_rules where
  "sample_rules = \<lparr>ru_start = [], ru_pause = [], ru_resume = [], ru_stop = [\<lparr>cn_field = ''event'', cn_equals = JStr ''agent.replied''\<rparr>],
     ru_reset = [\<lparr>cn_field = ''event'', cn_equals = JStr ''request.reopened''\<rparr>], ru_success = []\<rparr>"

definition sample_version :: goal_version where
  "sample_version = \<lparr>gv_id = ''gv'', gv_goalId = ''g'', gv_version = 1, gv_calendarVersionId = ''cv'', gv_targetMinutes = 60,
     gv_riskMinutes = 10, gv_conditions = [], gv_rules = sample_rules, gv_publicLabel = ''Reply'', gv_portalVisible = True\<rparr>"

definition sample_cycle :: "nat \<Rightarrow> time option \<Rightarrow> sla_cycle" where
  "sample_cycle n ended = \<lparr>cy_id = cycle_name n, cy_requestId = ''r'', cy_goalVersionId = ''gv'', cy_metric = ''RESPONSE'', cy_sequence = Suc n,
     cy_state = ''RUNNING'', cy_elapsedMs = 0, cy_pauseReasons = [], cy_startedAt = 0, cy_lastAt = 0, cy_endedAt = ended,
     cy_riskAt = None, cy_breachedAt = None, cy_succeededAt = None\<rparr>"

definition sample_tracker :: tracker where
  "sample_tracker = board_tracker\<lparr>tk_core := sample_portal_core\<rparr>"

definition sample_desk :: desk where
  "sample_desk = \<lparr>de_tracker = sample_tracker,
     de_portal = sample_portal\<lparr>po_requests := [sample_request\<lparr>sr_slaCheckedAt := Some 0\<rparr>]\<rparr>, de_requestTypes = [],
     de_calendars = [], de_calendarVersions = [\<lparr>cv_id = ''cv'', cv_calendarId = ''cal'', cv_version = 1, cv_config = always_open\<rparr>],
     de_goals = [\<lparr>gl_id = ''g'', gl_projectId = ''p'', gl_name = ''Reply'', gl_metric = ''RESPONSE'', gl_position = 0, gl_enabled = True,
       gl_currentVersion = 1\<rparr>],
     de_goalVersions = [sample_version], de_signals = [], de_signalSequence = 0,
     de_cycles = [sample_cycle 0 (Some 0), sample_cycle 1 None], de_events = [], de_portalNotifications = [], de_portalComments = [],
     de_queues = [], de_snapshots = []\<rparr>"

lemma sample_desk_ok: "sla_ok utc_zone cycle_name sample_desk"
proof -
  have v: "version_of sample_desk ''gv'' = Some (sample_version, always_open)"
    by (simp add: version_of_def sample_desk_def sample_version_def)
  then have "good_version utc_zone sample_desk ''gv''" by (simp add: good_version_def)
  then show ?thesis
    unfolding sla_ok_def
    by (simp add: inj_cycle_name setup_ok_def cycles_ok_def signals_ok_def waiting_ok_def clocks_ok_def open_ok_def metrics_def cycle_key_def)
      (simp add: sample_desk_def sample_version_def sample_cycle_def sample_request_def metrics_def cycle_key_def numeral_2_eq_2)
qed

theorem sla_worker_never_fails_witness:
  "\<exists>done d'. processSlaRequest utc_zone cycle_name 9000000 ''r''
     (fold (sla_step utc_zone cycle_name) [Process 7000 ''r'', Capture 5000 ''i'' ''issue.updated'' ''x'', Process 8000 ''r''] sample_desk)
     = Inr (done, d')"
  by (rule sla_worker_never_fails [OF sample_desk_ok])

theorem one_open_cycle_witness: "cy_endedAt (sample_cycle 0 (Some 0)) \<noteq> None \<and> cy_sequence (sample_cycle 0 (Some 0)) < cy_sequence (sample_cycle 1 None)"
  by (rule one_open_cycle [OF sample_desk_ok refl, where steps = "[]" and c = "sample_cycle 1 None"])
    (simp_all add: sample_desk_def sample_cycle_def)

theorem delayed_checks_agree_witness:
  "\<exists>c1 d1 st. advance utc_zone sample_request 3100000 (sample_cycle 1 None, sample_desk) = Inr (c1, d1)
     \<and> advance utc_zone sample_request 4000000 (c1, d1) = Inr st
     \<and> advance utc_zone sample_request 4000000 (sample_cycle 1 None, sample_desk) = Inr st"
proof -
  have v: "version_of sample_desk (cy_goalVersionId (sample_cycle 1 None)) = Some (sample_version, always_open)"
    by (simp add: version_of_def sample_desk_def sample_version_def sample_cycle_def)
  then have good: "good_version utc_zone sample_desk (cy_goalVersionId (sample_cycle 1 None))" by (simp add: good_version_def)
  have start: "cy_lastAt (sample_cycle 1 None) \<le> 3100000" by (simp add: sample_cycle_def)
  obtain c1 d1 where one: "advance utc_zone sample_request 3100000 (sample_cycle 1 None, sample_desk) = Inr (c1, d1)"
    and c1: "same_cycle (sample_cycle 1 None) c1" "cy_lastAt c1 = 3100000" "same_rows sample_desk d1"
    using advance_runs [OF start good, of sample_request] by blast
  have "good_version utc_zone d1 (cy_goalVersionId c1)"
    using good good_version_setup [of sample_desk d1 utc_zone] c1 by (simp add: same_rows_def same_cycle_def)
  then obtain c2 d2 where two: "advance utc_zone sample_request 4000000 (c1, d1) = Inr (c2, d2)"
    using advance_runs [of c1 4000000 utc_zone d1 sample_request] c1(2) by auto
  have "advance utc_zone sample_request 4000000 (sample_cycle 1 None, sample_desk) = Inr (c2, d2)"
    by (rule delayed_checks_agree [OF v _ _ _ _ _ _ one two]) (simp_all add: sample_version_def sample_cycle_def)
  with one two show ?thesis by blast
qed

end
