(* ===== verification/SlaAdmin.thy ===== *)
theory SlaAdmin
  imports ServiceQueues SlaWorker
begin

text \<open>
  Administration and display of the service-level timers: calendars and goals with their versions
  (\<open>api/projects/[key]/sla\<close>, \<open>validateSlaGoal\<close> of \<open>src/lib/sla.ts\<close>), the targets of a request for staff and
  for customers (\<open>slaSummary\<close>), the report (\<open>src/lib/sla-report.ts\<close>) and the confirmation of a response
  (\<open>api/issues/[id]/sla\<close>). A refusal is an HTTP status; a throw of the engine is 400.
\<close>

section \<open>Goals\<close>

record goal_data =
  gd_calendarVersionId :: string
  gd_targetMinutes :: int
  gd_riskMinutes :: int
  gd_conditions :: "condition list"
  gd_rules :: timer_rules
  gd_publicLabel :: string
  gd_portalVisible :: bool

definition goal_events :: "string list" where
  "goal_events = [''issue.created'', ''issue.updated'', ''issue.transitioned'', ''request.reopened'', ''customer.replied'', ''agent.replied'', ''sla.reset'']"

definition comparisons :: "condition list \<Rightarrow> timer_rules \<Rightarrow> condition list" where
  "comparisons conditions r =
     conditions @ ru_start r @ ru_resume r @ ru_stop r @ ru_reset r @ ru_success r @ concat (map snd (ru_pause r))"

text \<open>The value of a comparison must exist in the project.\<close>

definition comparison_ok :: "(js \<Rightarrow> string) \<Rightarrow> desk \<Rightarrow> string \<Rightarrow> string \<Rightarrow> condition \<Rightarrow> bool" where
  "comparison_ok show_js d pid wid cn =
     (let v = js_text show_js (cn_equals cn); f = cn_field cn; tk = de_tracker d in
      if f = ''statusId'' then list_ex (\<lambda>s. st_id s = v \<and> st_projectId s = pid) (db_statuses (core_of d))
      else if f = ''requestTypeId'' then list_ex (\<lambda>t. rt_id t = v \<and> rt_projectId t = pid) (de_requestTypes d)
      else if f = ''organizationId'' then list_ex (\<lambda>(p, x, _). p = pid \<and> x = v) (po_projectOrgs (de_portal d)) \<and> (v, wid) \<in> set (po_organizations (de_portal d))
      else if f = ''label'' then list_ex (\<lambda>l. lb_id l = v \<and> lb_workspaceId l = wid) (tk_labels tk)
        \<and> list_ex (\<lambda>i. i_projectId i = pid \<and> (i_id i, v) \<in> set (tk_issueLabels tk)) (db_issues (core_of d))
      else if starts_with ''field:'' f then list_ex (\<lambda>c. fc_projectId c = pid \<and> fc_fieldId c = drop 6 f) (tk_fieldConfigs tk)
        \<and> list_ex (\<lambda>x. cf_id x = drop 6 f \<and> cf_workspaceId x = wid \<and> cf_archivedAt x = None) (tk_fields tk)
      else if f = ''priority'' then v \<in> set priority_names
      else if f = ''statusCategory'' then v \<in> {''TODO'', ''IN_PROGRESS'', ''DONE''}
      else v \<in> set goal_events)"

definition target_ok :: "jobj \<Rightarrow> (int \<times> int) option" where
  "target_ok body =
     (case (as_integer (field ''targetMinutes'' body), as_integer (field ''riskMinutes'' body)) of
        (Some t, Some r) \<Rightarrow> if t < 1 \<or> 525600 < t \<or> r < 0 \<or> t \<le> r then None else Some (t, r)
      | _ \<Rightarrow> None)"

definition public_label :: "jobj \<Rightarrow> string \<Rightarrow> string" where
  "public_label body metric =
     (case as_string (field ''publicLabel'' body) of
        Some s \<Rightarrow> trim s
      | None \<Rightarrow> if metric = ''RESPONSE'' then ''Response target'' else ''Resolution target'')"

definition engine :: "(sla_error, 'a) result \<Rightarrow> (nat, 'a) result" where
  "engine r = (case r of Inl _ \<Rightarrow> Inl 400 | Inr x \<Rightarrow> Inr x)"

lemma engine_ok [handler_simps]: "engine r = Inr x \<longleftrightarrow> r = Inr x"
  by (cases r) (simp_all add: engine_def)

definition validateSlaGoal :: "(js \<Rightarrow> string) \<Rightarrow> desk \<Rightarrow> string \<Rightarrow> string \<Rightarrow> jobj \<Rightarrow> string \<Rightarrow> (nat, goal_data) result" where
  "validateSlaGoal show_js d pid wid body metric =
     (if metric \<notin> set metrics then Inl 400
      else (case target_ok body of
        None \<Rightarrow> Inl 400
      | Some (target, risk) \<Rightarrow>
          (let cv = string_or_empty (field ''calendarVersionId'' body); label = public_label body metric in
           if \<not> list_ex (\<lambda>v. cv_id v = cv \<and> list_ex (\<lambda>c. cd_id c = cv_calendarId v \<and> cd_projectId c = pid) (de_calendars d)) (de_calendarVersions d)
             then Inl 400
           else bind_result (engine (validateConditions (nullish (field ''conditions'' body) (JArr [])))) (\<lambda>conditions.
                bind_result (engine (validateRules (field ''rules'' body) metric)) (\<lambda>timer.
                  if \<not> list_all (comparison_ok show_js d pid wid) (comparisons conditions timer) then Inl 400
                  else if label = [] \<or> 100 < length label \<or> (case field ''portalVisible'' body of JUndef \<Rightarrow> False | JBool _ \<Rightarrow> False | _ \<Rightarrow> True) then Inl 400
                  else Inr \<lparr>gd_calendarVersionId = cv, gd_targetMinutes = target, gd_riskMinutes = risk, gd_conditions = conditions,
                         gd_rules = timer, gd_publicLabel = label, gd_portalVisible = (field ''portalVisible'' body = JBool True)\<rparr>)))))"

section \<open>Versions of calendars and goals\<close>

definition sla_audit :: "auth_context \<Rightarrow> string \<Rightarrow> string \<Rightarrow> string \<Rightarrow> int \<Rightarrow> desk \<Rightarrow> desk" where
  "sla_audit cx action target i version =
     add_audit \<lparr>au_workspaceId = cx_workspaceId cx, au_actorId = Some (cx_userId cx), au_action = action, au_targetType = target,
       au_targetId = i, au_metadata = JObj [(''version'', JInt version)]\<rparr>"

text \<open>
  The row an id names, which must be at the version the client has seen. The names are unique in a
  project; the database refuses a second use (409).
\<close>

definition versioned :: "'r option \<Rightarrow> ('r \<Rightarrow> int) \<Rightarrow> string option \<Rightarrow> js \<Rightarrow> (nat, 'r option) result" where
  "versioned row current i seen =
     (if i = None \<or> i = Some [] then Inr None
      else (case row of
        None \<Rightarrow> Inl 404
      | Some r \<Rightarrow> if strict_eq seen (JInt (current r)) then Inr (Some r) else Inl 409))"

definition save_calendar :: "zone_db \<Rightarrow> string \<Rightarrow> string \<Rightarrow> auth_context \<Rightarrow> string \<Rightarrow> string \<Rightarrow> jobj \<Rightarrow> desk \<Rightarrow> (nat, desk) result" where
  "save_calendar zone new newv cx pid name body d =
     bind_result (engine (validateCalendar zone (field ''config'' body))) (\<lambda>config.
       (let i = as_string (field ''id'' body);
            row = Option.bind i (\<lambda>x. find (\<lambda>c. cd_id c = x \<and> cd_projectId c = pid) (de_calendars d)) in
        bind_result (versioned row cd_currentVersion i (field ''version'' body)) (\<lambda>existing.
          (let cid = (case existing of Some c \<Rightarrow> cd_id c | None \<Rightarrow> new);
               version = (case existing of Some c \<Rightarrow> cd_currentVersion c + 1 | None \<Rightarrow> 1);
               rows = (case existing of Some _ \<Rightarrow> de_calendars d
                 | None \<Rightarrow> de_calendars d @ [\<lparr>cd_id = new, cd_projectId = pid, cd_name = name, cd_currentVersion = 0\<rparr>])
           in if list_ex (\<lambda>c. cd_projectId c = pid \<and> cd_name c = name \<and> cd_id c \<noteq> cid) (de_calendars d) then Inl 409
              else Inr (sla_audit cx ''sla.calendar.versioned'' ''slaCalendar'' cid version
                (d\<lparr>de_calendarVersions := de_calendarVersions d @ [\<lparr>cv_id = newv, cv_calendarId = cid, cv_version = version, cv_config = config\<rparr>],
                   de_calendars := map (\<lambda>c. if cd_id c = cid then c\<lparr>cd_name := name, cd_currentVersion := version\<rparr> else c) rows\<rparr>))))))"

definition goal_position :: "(js \<Rightarrow> jnum) \<Rightarrow> jobj \<Rightarrow> int option" where
  "goal_position to_num body =
     (case as_integer (JNum (js_number to_num (nullish (field ''position'' body) (JInt 0)))) of
        None \<Rightarrow> None
      | Some n \<Rightarrow> if n < 0 \<or> 10000 < n then None else Some n)"

definition version_row :: "string \<Rightarrow> string \<Rightarrow> int \<Rightarrow> goal_data \<Rightarrow> goal_version" where
  "version_row newv gid version g =
     \<lparr>gv_id = newv, gv_goalId = gid, gv_version = version, gv_calendarVersionId = gd_calendarVersionId g, gv_targetMinutes = gd_targetMinutes g,
      gv_riskMinutes = gd_riskMinutes g, gv_conditions = gd_conditions g, gv_rules = gd_rules g, gv_publicLabel = gd_publicLabel g,
      gv_portalVisible = gd_portalVisible g\<rparr>"

definition save_goal :: "(js \<Rightarrow> string) \<Rightarrow> (js \<Rightarrow> jnum) \<Rightarrow> string \<Rightarrow> string \<Rightarrow> auth_context \<Rightarrow> string \<Rightarrow> string \<Rightarrow> jobj \<Rightarrow> desk \<Rightarrow> (nat, desk) result" where
  "save_goal show_js to_num new newv cx pid name body d =
     (let i = as_string (field ''id'' body);
          row = Option.bind i (\<lambda>x. find (\<lambda>g. gl_id g = x \<and> gl_projectId g = pid) (de_goals d)) in
      bind_result (versioned row gl_currentVersion i (field ''version'' body)) (\<lambda>existing.
        (let metric = (case existing of Some g \<Rightarrow> gl_metric g | None \<Rightarrow> js_text show_js (field ''metric'' body));
             gid = (case existing of Some g \<Rightarrow> gl_id g | None \<Rightarrow> new);
             version = (case existing of Some g \<Rightarrow> gl_currentVersion g + 1 | None \<Rightarrow> 1) in
         (case goal_position to_num body of
            None \<Rightarrow> Inl 400
          | Some position \<Rightarrow>
              if (case field ''enabled'' body of JUndef \<Rightarrow> False | JBool _ \<Rightarrow> False | _ \<Rightarrow> True) then Inl 400
              else bind_result (validateSlaGoal show_js d pid (cx_workspaceId cx) body metric) (\<lambda>g.
                if existing = None \<and> 100 \<le> count_rows (\<lambda>x. gl_projectId x = pid) (de_goals d) then Inl 400
                else (let rows = (case existing of Some _ \<Rightarrow> de_goals d
                            | None \<Rightarrow> de_goals d @ [\<lparr>gl_id = new, gl_projectId = pid, gl_name = name, gl_metric = metric, gl_position = position,
                                gl_enabled = True, gl_currentVersion = 0\<rparr>])
                      in if list_ex (\<lambda>x. gl_projectId x = pid \<and> gl_name x = name \<and> gl_id x \<noteq> gid) (de_goals d) then Inl 409
                         else Inr (sla_audit cx ''sla.goal.versioned'' ''slaGoal'' gid version
                           (d\<lparr>de_goalVersions := de_goalVersions d @ [version_row newv gid version g],
                              de_goals := map (\<lambda>x. if gl_id x = gid then x\<lparr>gl_name := name, gl_position := position,
                                gl_enabled := (field ''enabled'' body \<noteq> JBool False), gl_currentVersion := version\<rparr> else x) rows\<rparr>))))))))"

text \<open>The administrator of a service project; anybody else does not find it.\<close>

definition sla_project :: "auth_context option \<Rightarrow> string \<Rightarrow> desk \<Rightarrow> (nat, auth_context \<times> project) result" where
  "sla_project context key d =
     (case context of
        None \<Rightarrow> Inl 401
      | Some cx \<Rightarrow>
          bind_result (queueProject (core_of d) cx key False) (\<lambda>p.
            if \<not> requireProjectPermission (core_of d) cx (p_id p) Project_Admin then Inl 404 else Inr (cx, p)))"

definition sla_POST :: "zone_db \<Rightarrow> (js \<Rightarrow> string) \<Rightarrow> (js \<Rightarrow> jnum) \<Rightarrow> string \<times> string \<Rightarrow> auth_context option \<Rightarrow> string \<Rightarrow> jobj \<Rightarrow> desk \<Rightarrow> (nat, desk) result" where
  "sla_POST zone show_js to_num ids context key body d =
     bind_result (sla_project context key d) (\<lambda>(cx, p).
       (let name = trim (string_or_empty (field ''name'' body)); kind = js_text show_js (field ''kind'' body) in
        if name = [] \<or> 100 < length name \<or> kind \<notin> {''calendar'', ''goal''} then Inl 400
        else if field ''kind'' body = JStr ''calendar'' then save_calendar zone (fst ids) (snd ids) cx (p_id p) name body d
        else save_goal show_js to_num (fst ids) (snd ids) cx (p_id p) name body d))"

definition sla_GET :: "auth_context option \<Rightarrow> string \<Rightarrow> desk \<Rightarrow> (nat, (sla_calendar \<times> calendar_version list) list \<times> (sla_goal \<times> goal_version list) list) result" where
  "sla_GET context key d =
     bind_result (sla_project context key d) (\<lambda>(_, p).
       Inr (map (\<lambda>c. (c, sort_key (\<lambda>v. - cv_version v) (filter (\<lambda>v. cv_calendarId v = cd_id c) (de_calendarVersions d))))
              (filter (\<lambda>c. cd_projectId c = p_id p) (de_calendars d)),
            map (\<lambda>g. (g, sort_key (\<lambda>v. - gv_version v) (filter (\<lambda>v. gv_goalId v = gl_id g) (de_goalVersions d))))
              (sort_key gl_position (sort_key gl_id (filter (\<lambda>g. gl_projectId g = p_id p) (de_goals d))))))"

section \<open>Targets of a request\<close>

record target_view =
  tv_label :: string
  tv_state :: string
  tv_remaining :: int
  tv_updatedAt :: time

record staff_view =
  sv_target :: target_view
  sv_cycle :: sla_cycle
  sv_goal :: string
  sv_targetMinutes :: int
  sv_events :: "sla_event list"

definition summary_cycles :: "desk \<Rightarrow> string \<Rightarrow> sla_cycle list" where
  "summary_cycles d rid =
     take 100 (sort_key cy_metric (sort_key (\<lambda>c. - int (cy_sequence c)) (filter (\<lambda>c. cy_requestId c = rid) (de_cycles d))))"

definition target_state :: "sla_cycle \<Rightarrow> string" where
  "target_state c =
     (if cy_breachedAt c \<noteq> None then ''Overdue'' else if cy_state c = ''PAUSED'' then ''Waiting''
      else if cy_state c = ''MET'' then ''Completed'' else if cy_endedAt c \<noteq> None then ''Stopped'' else ''In progress'')"

definition target_of :: "goal_version \<Rightarrow> sla_cycle \<Rightarrow> target_view" where
  "target_of v c = \<lparr>tv_label = gv_publicLabel v, tv_state = target_state c, tv_remaining = remaining_minutes v c, tv_updatedAt = cy_lastAt c\<rparr>"

text \<open>For staff every cycle with its events, the first hundred of each.\<close>

definition staff_summary :: "desk \<Rightarrow> string \<Rightarrow> staff_view list" where
  "staff_summary d rid =
     List.map_filter (\<lambda>c. map_option (\<lambda>(v, g). \<lparr>sv_target = target_of v c, sv_cycle = c, sv_goal = gl_name g,
       sv_targetMinutes = gv_targetMinutes v,
       sv_events = take 100 (sort_key ev_happenedAt (filter (\<lambda>e. ev_cycleId e = cy_id c) (de_events d)))\<rparr>) (goal_of d c)) (summary_cycles d rid)"

text \<open>For customers the first cycle of each metric, if its goal is public.\<close>

fun latest_public :: "desk \<Rightarrow> string list \<Rightarrow> sla_cycle list \<Rightarrow> target_view list" where
  "latest_public d latest [] = []"
| "latest_public d latest (c # cs) =
     (if cy_metric c \<in> set latest then latest_public d latest cs
      else (case goal_of d c of
              Some (v, _) \<Rightarrow> (if gv_portalVisible v then [target_of v c] else [])
            | None \<Rightarrow> []) @ latest_public d (cy_metric c # latest) cs)"

definition portal_summary :: "desk \<Rightarrow> string \<Rightarrow> target_view list" where
  "portal_summary d rid = latest_public d [] (summary_cycles d rid)"

definition own_request :: "desk \<Rightarrow> auth_context \<Rightarrow> string \<Rightarrow> bool \<Rightarrow> (nat, service_request) result" where
  "own_request d cx iid edit =
     (case find (\<lambda>r. sr_issueId r = iid \<and> sr_workspaceId r = cx_workspaceId cx) (po_requests (de_portal d)) of
        None \<Rightarrow> Inl 404
      | Some r \<Rightarrow>
          if \<not> canViewIssue (core_of d) cx iid then Inl 404
          else (case find (\<lambda>p. p_id p = sr_projectId r) (db_projects (core_of d)) of
             None \<Rightarrow> Inl 404
           | Some p \<Rightarrow> bind_result (queueProject (core_of d) cx (p_key p) edit) (\<lambda>_. Inr r)))"

definition issue_sla_GET :: "auth_context option \<Rightarrow> string \<Rightarrow> desk \<Rightarrow> (nat, staff_view list) result" where
  "issue_sla_GET context iid d =
     (case context of
        None \<Rightarrow> Inl 401
      | Some cx \<Rightarrow> bind_result (own_request d cx iid False) (\<lambda>r. Inr (staff_summary d (sr_id r))))"

definition issue_sla_POST :: "string \<Rightarrow> time \<Rightarrow> auth_context option \<Rightarrow> string \<Rightarrow> jobj \<Rightarrow> desk \<Rightarrow> (nat, desk) result" where
  "issue_sla_POST uuid now context iid body d =
     (case context of
        None \<Rightarrow> Inl 401
      | Some cx \<Rightarrow>
          bind_result (own_request d cx iid True) (\<lambda>r.
            (let reason = trim (string_or_empty (field ''reason'' body)); key = ''response:'' @ uuid in
             if field ''event'' body \<noteq> JStr ''agent.replied'' then Inl 400
             else if length reason < 10 \<or> 500 < length reason then Inl 400
             else Inr (add_audit \<lparr>au_workspaceId = cx_workspaceId cx, au_actorId = Some (cx_userId cx), au_action = ''sla.response.confirmed'',
                    au_targetType = ''serviceRequest'', au_targetId = sr_id r,
                    au_metadata = JObj [(''eventKey'', JStr key), (''reason'', JStr reason)]\<rparr> (enqueueSlaSignal now iid ''agent.replied'' key None d)))))"

text \<open>The slug of a workspace is the parameter \<open>slug\<close>.\<close>

definition portal_sla_GET :: "(string \<Rightarrow> string) \<Rightarrow> portal_context option \<Rightarrow> string \<Rightarrow> string \<Rightarrow> desk \<Rightarrow> (nat, target_view list) result" where
  "portal_sla_GET slug context workspace rid d =
     (case context of
        None \<Rightarrow> Inl 404
      | Some px \<Rightarrow>
          if slug (px_workspaceId px) \<noteq> workspace
             \<or> \<not> list_ex (\<lambda>r. sr_id r = rid \<and> portalRequestWhere (core_of d) (de_portal d) px r) (po_requests (de_portal d)) then Inl 404
          else Inr (portal_summary d rid))"

section \<open>Report\<close>

record report_row =
  rr_goal :: string
  rr_version :: int
  rr_metric :: string
  rr_cycles :: nat
  rr_met :: nat
  rr_breached :: nat
  rr_active :: nat

definition in_report :: "desk \<Rightarrow> auth_context \<Rightarrow> string \<Rightarrow> time \<Rightarrow> sla_cycle \<Rightarrow> bool" where
  "in_report d cx pid since c \<longleftrightarrow> since \<le> cy_startedAt c
     \<and> (case find_request d (cy_requestId c) of
          None \<Rightarrow> False
        | Some r \<Rightarrow> sr_workspaceId r = cx_workspaceId cx \<and> sr_projectId r = pid
            \<and> list_ex (\<lambda>i. i_id i = sr_issueId r \<and> i_archivedAt i = None \<and> issueSecurityWhere (core_of d) cx (Some [pid]) i) (db_issues (core_of d)))"

definition report_key :: "string \<Rightarrow> int \<Rightarrow> string" where
  "report_key goal version = goal @ '':'' @ string_of_int version"

definition count_cycle :: "sla_cycle \<Rightarrow> report_row \<Rightarrow> report_row" where
  "count_cycle c row = row\<lparr>rr_cycles := rr_cycles row + 1, rr_met := rr_met row + (if cy_state c = ''MET'' then 1 else 0),
     rr_breached := rr_breached row + (if cy_breachedAt c \<noteq> None then 1 else 0),
     rr_active := rr_active row + (if cy_state c \<in> {''RUNNING'', ''PAUSED''} then 1 else 0)\<rparr>"

definition report_cycle :: "desk \<Rightarrow> sla_cycle \<Rightarrow> (string \<times> report_row) list \<Rightarrow> (string \<times> report_row) list" where
  "report_cycle d c groups =
     (case goal_of d c of
        None \<Rightarrow> groups
      | Some (v, g) \<Rightarrow>
          (let key = report_key (gl_name g) (gv_version v);
               fresh = \<lparr>rr_goal = gl_name g, rr_version = gv_version v, rr_metric = cy_metric c, rr_cycles = 0, rr_met = 0, rr_breached = 0, rr_active = 0\<rparr>
           in (case map_of groups key of
                 None \<Rightarrow> groups @ [(key, count_cycle c fresh)]
               | Some row \<Rightarrow> map (\<lambda>(k, x). (k, if k = key then count_cycle c row else x)) groups)))"

definition slaReport :: "time \<Rightarrow> auth_context \<Rightarrow> string \<Rightarrow> int option \<Rightarrow> desk \<Rightarrow> (nat, report_row list) result" where
  "slaReport now cx key days d =
     (case days of
        None \<Rightarrow> Inl 400
      | Some n \<Rightarrow>
          if n < 1 \<or> 365 < n then Inl 400
          else bind_result (queueProject (core_of d) cx key False) (\<lambda>p.
            (let cycles = filter (in_report d cx (p_id p) (now - n * 86400000)) (de_cycles d) in
             if 10000 < length cycles then Inl 400 else Inr (map snd (fold (report_cycle d) cycles [])))))"

definition report_GET :: "time \<Rightarrow> auth_context option \<Rightarrow> string \<Rightarrow> int option \<Rightarrow> desk \<Rightarrow> (nat, report_row list) result" where
  "report_GET now context key days d = (case context of None \<Rightarrow> Inl 401 | Some cx \<Rightarrow> slaReport now cx key days d)"

section \<open>Configuration and timers together\<close>

lemma queue_project_found: "sla_project context key d = Inr (cx, p) \<Longrightarrow> context = Some cx"
  unfolding sla_project_def by (auto simp: bind_result_eq_Inr split: option.splits if_splits)

lemma validated_goal:
  assumes "validateSlaGoal show_js d pid wid body metric = Inr g"
  shows "metric \<in> set metrics \<and> list_ex (\<lambda>v. cv_id v = gd_calendarVersionId g) (de_calendarVersions d)"
  using assms unfolding validateSlaGoal_def
  by (auto simp: bind_result_eq_Inr Let_def list_ex_iff split: option.splits prod.splits if_splits)

text \<open>Rows that are only added to: the versions of calendars and goals, every calendar in a known zone.\<close>

definition extends_setup :: "zone_db \<Rightarrow> desk \<Rightarrow> desk \<Rightarrow> bool" where
  "extends_setup zone d d' \<longleftrightarrow> (\<exists>cvs gvs. de_calendarVersions d' = de_calendarVersions d @ cvs \<and> de_goalVersions d' = de_goalVersions d @ gvs
     \<and> (\<forall>v\<in>set cvs. zone (ca_timezone (cv_config v)) \<noteq> None)
     \<and> (\<forall>v\<in>set gvs. \<exists>c\<in>set (de_calendarVersions d). cv_id c = gv_calendarVersionId v))"

lemma version_of_extends:
  assumes "extends_setup zone d d'" and "version_of d i = Some (v, cal)"
  shows "version_of d' i = Some (v, cal)"
  using assms by (auto simp: extends_setup_def version_of_def find_append Option.bind_eq_Some_conv split: option.splits)

lemma setup_extends:
  assumes "setup_ok zone d" and "extends_setup zone d d'" and "\<forall>g\<in>set (de_goals d'). gl_metric g \<in> set metrics"
  shows "setup_ok zone d'"
proof -
  from assms(2) obtain cvs gvs where cv: "de_calendarVersions d' = de_calendarVersions d @ cvs"
    and gv: "de_goalVersions d' = de_goalVersions d @ gvs" and zones: "\<forall>v\<in>set cvs. zone (ca_timezone (cv_config v)) \<noteq> None"
    and known: "\<forall>v\<in>set gvs. \<exists>c\<in>set (de_calendarVersions d). cv_id c = gv_calendarVersionId v"
    unfolding extends_setup_def by blast
  have old: "good_version zone d' i" if good: "good_version zone d i" for i
  proof -
    from good obtain v cal where "version_of d i = Some (v, cal)" by (auto simp: good_version_def split: option.splits)
    with version_of_extends [OF assms(2) this] good show ?thesis by (simp add: good_version_def)
  qed
  have fresh: "good_version zone d' (gv_id v)" if v: "v \<in> set (de_goalVersions d')" for v
  proof (cases "\<exists>w\<in>set (de_goalVersions d). gv_id w = gv_id v")
    case True
    then show ?thesis using old assms(1) by (auto simp: setup_ok_def list_all_iff)
  next
    case False
    then have none: "find (\<lambda>w. gv_id w = gv_id v) (de_goalVersions d) = None" by (simp add: find_None_iff')
    from False v have "v \<in> set gvs" by (auto simp: gv)
    then obtain w where w: "find (\<lambda>w. gv_id w = gv_id v) gvs = Some w"
      by (cases "find (\<lambda>w. gv_id w = gv_id v) gvs") (auto simp: find_None_iff')
    then obtain c where c: "find (\<lambda>c. cv_id c = gv_calendarVersionId w) (de_calendarVersions d) = Some c"
      using known find_SomeD [OF w] by (cases "find (\<lambda>c. cv_id c = gv_calendarVersionId w) (de_calendarVersions d)") (auto simp: find_None_iff')
    then have "zone (ca_timezone (cv_config c)) \<noteq> None" using assms(1) find_SomeD [OF c] by (simp add: setup_ok_def list_all_iff)
    then show ?thesis by (simp add: good_version_def version_of_def gv cv find_append none w c)
  qed
  show ?thesis
    using assms(1,3) fresh zones by (auto simp: setup_ok_def list_all_iff cv)
qed

lemma sla_audit_tables [simp]:
  "de_portal (sla_audit cx a t i v d) = de_portal d" "de_cycles (sla_audit cx a t i v d) = de_cycles d"
  "de_signals (sla_audit cx a t i v d) = de_signals d" "de_signalSequence (sla_audit cx a t i v d) = de_signalSequence d"
  "de_goals (sla_audit cx a t i v d) = de_goals d" "de_goalVersions (sla_audit cx a t i v d) = de_goalVersions d"
  "de_calendarVersions (sla_audit cx a t i v d) = de_calendarVersions d"
  by (simp_all add: sla_audit_def desk_simps)

text \<open>What a successful configuration changes of the tables the timers use.\<close>

definition configured :: "zone_db \<Rightarrow> desk \<Rightarrow> desk \<Rightarrow> bool" where
  "configured zone d d' \<longleftrightarrow> extends_setup zone d d' \<and> de_portal d' = de_portal d \<and> de_cycles d' = de_cycles d \<and> de_signals d' = de_signals d
     \<and> de_signalSequence d' = de_signalSequence d \<and> (\<forall>g\<in>set (de_goals d'). gl_metric g \<in> set metrics \<or> (\<exists>h\<in>set (de_goals d). gl_metric h = gl_metric g))"

lemma save_calendar_configured:
  assumes "save_calendar zone new newv cx pid name body d = Inr d'"
  shows "configured zone d d'"
proof -
  from assms obtain config cid version cs where config: "validateCalendar zone (field ''config'' body) = Inr config"
    and d': "sla_audit cx ''sla.calendar.versioned'' ''slaCalendar'' cid version
        (d\<lparr>de_calendarVersions := de_calendarVersions d @ [\<lparr>cv_id = newv, cv_calendarId = cid, cv_version = version, cv_config = config\<rparr>],
           de_calendars := cs\<rparr>) = d'"
    unfolding save_calendar_def by (simp only: handler_simps) (elim exE conjE, rule that, assumption+)
  have "zone (ca_timezone config) \<noteq> None"
    using config by (auto simp: validateCalendar_def bind_result_eq_Inr split: option.splits if_splits)
  then show ?thesis
    unfolding d' [symmetric] configured_def extends_setup_def by auto
qed

lemma save_goal_configured:
  assumes "save_goal show_js to_num new newv cx pid name body d = Inr d'"
  shows "configured zone d d'"
proof -
  let ?metric = "\<lambda>e. case e of Some h \<Rightarrow> gl_metric h | None \<Rightarrow> js_text show_js (field ''metric'' body)"
  let ?gid = "\<lambda>e. case e of Some h \<Rightarrow> gl_id h | None \<Rightarrow> new"
  let ?version = "\<lambda>e. case e of Some h \<Rightarrow> gl_currentVersion h + 1 | None \<Rightarrow> 1"
  let ?rows = "\<lambda>e position. case e of Some _ \<Rightarrow> de_goals d | None \<Rightarrow> de_goals d @ [\<lparr>gl_id = new, gl_projectId = pid, gl_name = name,
     gl_metric = ?metric e, gl_position = position, gl_enabled = True, gl_currentVersion = 0\<rparr>]"
  from assms obtain e :: "sla_goal option" and g position where g: "validateSlaGoal show_js d pid (cx_workspaceId cx) body (?metric e) = Inr g"
    and d': "sla_audit cx ''sla.goal.versioned'' ''slaGoal'' (?gid e) (?version e)
        (d\<lparr>de_goalVersions := de_goalVersions d @ [version_row newv (?gid e) (?version e) g],
           de_goals := map (\<lambda>x. if gl_id x = ?gid e then x\<lparr>gl_name := name, gl_position := position,
             gl_enabled := (field ''enabled'' body \<noteq> JBool False), gl_currentVersion := ?version e\<rparr> else x) (?rows e position)\<rparr>) = d'"
    unfolding save_goal_def by (simp only: handler_simps) (elim exE conjE, rule that, assumption+)
  from validated_goal [OF g] have m: "?metric e \<in> set metrics"
    and c: "\<exists>c\<in>set (de_calendarVersions d). cv_id c = gd_calendarVersionId g" by (auto simp: list_ex_iff)
  have "\<forall>x\<in>set (?rows e position). gl_metric x \<in> set metrics \<or> (\<exists>h\<in>set (de_goals d). gl_metric h = gl_metric x)"
    using m by (auto split: option.splits)
  then show ?thesis
    unfolding configured_def extends_setup_def d' [symmetric] using c by (auto simp: version_row_def)
qed

lemma sla_POST_configured:
  assumes "sla_POST zone show_js to_num ids context key body d = Inr d'"
  shows "configured zone d d'"
proof -
  from assms obtain cx p name where "save_calendar zone (fst ids) (snd ids) cx (p_id p :: string) name body d = Inr d'
      \<or> save_goal show_js to_num (fst ids) (snd ids) cx (p_id (p :: project)) name body d = Inr d'"
    by (auto simp: sla_POST_def bind_result_eq_Inr Let_def split: prod.splits if_splits)
  then show ?thesis using save_calendar_configured save_goal_configured by blast
qed

lemma configured_ok:
  assumes "configured zone d d'" and "sla_ok zone new d"
  shows "sla_ok zone new d'"
proof -
  from assms have ext: "extends_setup zone d d'" and su: "setup_ok zone d" and cyc: "cycles_ok zone new d"
    and same: "de_portal d' = de_portal d" "de_cycles d' = de_cycles d" "de_signals d' = de_signals d" "de_signalSequence d' = de_signalSequence d"
    and metric: "\<forall>g\<in>set (de_goals d'). gl_metric g \<in> set metrics \<or> (\<exists>h\<in>set (de_goals d). gl_metric h = gl_metric g)"
    by (auto simp: configured_def sla_ok_def)
  have "\<forall>g\<in>set (de_goals d'). gl_metric g \<in> set metrics" using metric su unfolding setup_ok_def list_all_iff by metis
  with setup_extends [OF su ext] have "setup_ok zone d'" by blast
  moreover have "good_version zone d' i" if good: "good_version zone d i" for i
  proof -
    from good obtain v cal where "version_of d i = Some (v, cal)" by (auto simp: good_version_def split: option.splits)
    with version_of_extends [OF ext this] good show ?thesis by (simp add: good_version_def)
  qed
  then have "cycles_ok zone new d'" using cyc same by (auto simp: cycles_ok_def list_all_iff)
  ultimately show ?thesis
    using assms(2) same by (simp add: sla_ok_def signals_ok_def waiting_ok_def clocks_ok_def open_ok_def)
qed

lemma confirmation_is_signal:
  assumes "issue_sla_POST uuid now context iid body d = Inr d'"
  shows "\<exists>a. d' = add_audit a (enqueueSlaSignal now iid ''agent.replied'' (''response:'' @ uuid) None d)"
  using assms by (auto simp: issue_sla_POST_def bind_result_eq_Inr Let_def split: option.splits if_splits)

lemma audit_ok: "sla_ok zone new (add_audit a d) = sla_ok zone new d"
proof -
  have "good_version zone (add_audit a d) i = good_version zone d i" for i
    by (rule good_version_setup) (simp add: same_setup_def desk_simps)
  then show ?thesis
    by (simp add: sla_ok_def setup_ok_def cycles_ok_def signals_ok_def waiting_ok_def clocks_ok_def open_ok_def desk_simps)
qed

text \<open>Everything that happens to the timers of a project: its administration, confirmations and the worker.\<close>

datatype service_event =
    Configure "string \<times> string" "auth_context option" string jobj
  | Confirm string time "auth_context option" string jobj
  | Timer sla_step

definition service_step :: "zone_db \<Rightarrow> (js \<Rightarrow> string) \<Rightarrow> (js \<Rightarrow> jnum) \<Rightarrow> (nat \<Rightarrow> string) \<Rightarrow> service_event \<Rightarrow> desk \<Rightarrow> desk" where
  "service_step zone show_js to_num new e d =
     (case e of
        Configure ids context key body \<Rightarrow> (case sla_POST zone show_js to_num ids context key body d of Inl _ \<Rightarrow> d | Inr d' \<Rightarrow> d')
      | Confirm uuid now context iid body \<Rightarrow> (case issue_sla_POST uuid now context iid body d of Inl _ \<Rightarrow> d | Inr d' \<Rightarrow> d')
      | Timer s \<Rightarrow> sla_step zone new s d)"

interpretation administered: kept "service_step zone show_js to_num new" "sla_ok zone new" for zone show_js to_num new
proof
  fix d e assume ok: "sla_ok zone new d"
  show "sla_ok zone new (service_step zone show_js to_num new e d)"
  proof (cases e)
    case (Configure ids who key body)
    then show ?thesis using ok configured_ok [OF sla_POST_configured]
      by (cases "sla_POST zone show_js to_num ids who key body d") (auto simp: service_step_def)
  next
    case (Confirm uuid now who iid body)
    have "sla_ok zone new (enqueueSlaSignal now iid ''agent.replied'' (''response:'' @ uuid) None d)"
      using timers.step_inv [OF ok, of "Enqueue now iid ''agent.replied'' (''response:'' @ uuid) None"] by (simp add: sla_step_def)
    with Confirm ok show ?thesis
      by (auto simp: service_step_def audit_ok dest!: confirmation_is_signal split: sum.splits)
  next
    case (Timer s)
    then show ?thesis using timers.step_inv [OF ok] by (simp add: service_step_def)
  qed
qed

text \<open>
  C23: Whatever calendars and goals administrators save, confirmations agents give and signals arrive, in
  any order: the worker can process every request. A calendar or a goal that would make a timer fail is
  never accepted, and no new version takes away what a running cycle refers to.
\<close>

theorem administered_timers_run:
  assumes "sla_ok zone new d"
  shows "\<exists>done d'. processSlaRequest zone new now rid (fold (service_step zone show_js to_num new) events d) = Inr (done, d')"
  using process_request_ok [OF administered.run_inv [OF assms]] by blast

section \<open>What customers see\<close>

lemma latest_public_sound:
  assumes "t \<in> set (latest_public d latest cs)"
  shows "\<exists>pre c post v g. cs = pre @ c # post \<and> goal_of d c = Some (v, g) \<and> gv_portalVisible v \<and> t = target_of v c
    \<and> cy_metric c \<notin> set latest \<and> (\<forall>x\<in>set pre. cy_metric x \<noteq> cy_metric c)"
  using assms
proof (induction d latest cs rule: latest_public.induct)
  case (2 d latest c cs)
  show ?case
  proof (cases "cy_metric c \<in> set latest")
    case True
    with 2 obtain pre x post v g where "cs = pre @ x # post" "goal_of d x = Some (v, g)" "gv_portalVisible v" "t = target_of v x"
      "cy_metric x \<notin> set latest" "\<forall>y\<in>set pre. cy_metric y \<noteq> cy_metric x" by auto
    with True show ?thesis by (intro exI [of _ "c # pre"]) auto
  next
    case False
    show ?thesis
    proof (cases "t \<in> set (latest_public d (cy_metric c # latest) cs)")
      case True
      with 2(2) False obtain pre x post v g where "cs = pre @ x # post" "goal_of d x = Some (v, g)" "gv_portalVisible v" "t = target_of v x"
        "cy_metric x \<notin> set (cy_metric c # latest)" "\<forall>y\<in>set pre. cy_metric y \<noteq> cy_metric x" by auto
      then show ?thesis by (intro exI [of _ "c # pre"]) auto
    next
      case new: False
      with 2(3) False obtain v g where "goal_of d c = Some (v, g)" "gv_portalVisible v" "t = target_of v c"
        by (cases "goal_of d c") (auto split: if_splits)
      then show ?thesis using False by (intro exI [of _ "[]"]) auto
    qed
  qed
qed simp

lemma insort_lex:
  assumes "sorted_wrt (\<lambda>a b. f a < f b \<or> f a = f b \<and> g a \<le> g b) zs" and "\<forall>z\<in>set zs. (g y :: 'k::linorder) \<le> g z"
  shows "sorted_wrt (\<lambda>a b. (f a :: 'j::linorder) < f b \<or> f a = f b \<and> g a \<le> g b) (insort_key f y zs)"
  using assms by (induction zs) (auto simp: set_insort_key intro: order_le_less_trans)

lemma sort_twice: "sorted_wrt (\<lambda>a b. f a < f b \<or> f a = f b \<and> g a \<le> g b) (sort_key f (sort_key g xs))"
proof -
  have "sorted_wrt (\<lambda>a b. f a < f b \<or> f a = f b \<and> g a \<le> g b) (sort_key f ys)" if "sorted (map g ys)" for ys
    using that
  proof (induction ys)
    case (Cons y ys)
    then show ?case by (simp add: insort_lex)
  qed simp
  then show ?thesis by simp
qed

lemma summary_sorted:
  "sorted_wrt (\<lambda>c x. cy_metric c = cy_metric x \<longrightarrow> cy_sequence x \<le> cy_sequence c) (summary_cycles d rid)"
proof -
  let ?xs = "sort_key cy_metric (sort_key (\<lambda>c. - int (cy_sequence c)) (filter (\<lambda>c. cy_requestId c = rid) (de_cycles d)))"
  have "sorted_wrt (\<lambda>c x. cy_metric c < cy_metric x \<or> cy_metric c = cy_metric x \<and> - int (cy_sequence c) \<le> - int (cy_sequence x)) ?xs"
    by (rule sort_twice)
  then have "sorted_wrt (\<lambda>c x. cy_metric c = cy_metric x \<longrightarrow> cy_sequence x \<le> cy_sequence c) ?xs"
    by (rule sorted_wrt_mono_rel [rotated]) auto
  then show ?thesis unfolding summary_cycles_def by (rule sorted_wrt_take)
qed

text \<open>
  A customer is shown one target of a metric at most, the latest one, and only if its goal is public: the
  public label, never the internal name.
\<close>

theorem portal_shows_latest_public_targets:
  assumes "t \<in> set (portal_summary d rid)"
  shows "\<exists>c v g. c \<in> set (de_cycles d) \<and> cy_requestId c = rid \<and> goal_of d c = Some (v, g) \<and> gv_portalVisible v \<and> t = target_of v c
    \<and> (\<forall>x\<in>set (summary_cycles d rid). cy_metric x = cy_metric c \<longrightarrow> cy_sequence x \<le> cy_sequence c)"
proof -
  from latest_public_sound [OF assms [unfolded portal_summary_def]] obtain pre c post v g
    where split: "summary_cycles d rid = pre @ c # post" and c: "goal_of d c = Some (v, g)" "gv_portalVisible v" "t = target_of v c"
      "\<forall>x\<in>set pre. cy_metric x \<noteq> cy_metric c" by auto
  from split have "c \<in> set (summary_cycles d rid)" by simp
  then have "c \<in> set (de_cycles d) \<and> cy_requestId c = rid"
    unfolding summary_cycles_def by (auto dest: in_set_takeD)
  moreover have "\<forall>x\<in>set (summary_cycles d rid). cy_metric x = cy_metric c \<longrightarrow> cy_sequence x \<le> cy_sequence c"
    using summary_sorted [of d rid] c(4) unfolding split by (auto simp: sorted_wrt_append)
  ultimately show ?thesis using c by blast
qed

section \<open>What the report counts\<close>

definition report_group :: "desk \<Rightarrow> sla_cycle \<Rightarrow> string option" where
  "report_group d c = map_option (\<lambda>(v, g). report_key (gl_name g) (gv_version v)) (goal_of d c)"

definition row_counts :: "sla_cycle list \<Rightarrow> report_row \<Rightarrow> bool" where
  "row_counts mine row \<longleftrightarrow> rr_cycles row = length mine \<and> rr_met row = count_rows (\<lambda>c. cy_state c = ''MET'') mine
     \<and> rr_breached row = count_rows (\<lambda>c. cy_breachedAt c \<noteq> None) mine
     \<and> rr_active row = count_rows (\<lambda>c. cy_state c \<in> {''RUNNING'', ''PAUSED''}) mine"

lemma map_of_replace:
  "map_of (map (\<lambda>(k, x). (k, if k = key then v else x)) m) k = (if k = key then map_option (\<lambda>_. v) (map_of m key) else map_of m k)"
  by (induction m) auto

lemma row_counts_snoc: "row_counts mine row \<Longrightarrow> row_counts (mine @ [c]) (count_cycle c row)"
  by (auto simp: row_counts_def count_cycle_def count_rows_def)

definition groups_ok :: "desk \<Rightarrow> sla_cycle list \<Rightarrow> (string \<times> report_row) list \<Rightarrow> bool" where
  "groups_ok d cs G \<longleftrightarrow> distinct (map fst G)
     \<and> (\<forall>k. map_of G k = None \<longrightarrow> filter (\<lambda>c. report_group d c = Some k) cs = [])
     \<and> (\<forall>k row. map_of G k = Some row \<longrightarrow> filter (\<lambda>c. report_group d c = Some k) cs \<noteq> []
           \<and> row_counts (filter (\<lambda>c. report_group d c = Some k) cs) row)"

lemma groups_ok_step:
  assumes ok: "groups_ok d cs G"
  shows "groups_ok d (cs @ [c]) (report_cycle d c G)"
proof (cases "goal_of d c")
  case None
  then have "report_cycle d c G = G" "\<And>k. filter (\<lambda>x. report_group d x = Some k) (cs @ [c]) = filter (\<lambda>x. report_group d x = Some k) cs"
    by (simp_all add: report_cycle_def report_group_def)
  then show ?thesis using ok unfolding groups_ok_def by presburger
next
  case (Some vg)
  obtain v g where vg: "vg = (v, g)" by (cases vg)
  define key where "key = report_key (gl_name g) (gv_version v)"
  have mine: "filter (\<lambda>x. report_group d x = Some k) (cs @ [c]) = filter (\<lambda>x. report_group d x = Some k) cs @ (if k = key then [c] else [])" for k
    by (simp add: report_group_def Some vg key_def)
  show ?thesis
  proof (cases "map_of G key")
    case None
    define row where "row = count_cycle c \<lparr>rr_goal = gl_name g, rr_version = gv_version v, rr_metric = cy_metric c, rr_cycles = 0, rr_met = 0,
        rr_breached = 0, rr_active = 0\<rparr>"
    have step: "report_cycle d c G = G @ [(key, row)]"
      using None by (simp add: report_cycle_def Some vg Let_def key_def row_def)
    have one: "row_counts [c] row" by (simp add: row_def row_counts_def count_cycle_def count_rows_def)
    have "filter (\<lambda>x. report_group d x = Some key) cs = []" using ok None by (simp add: groups_ok_def)
    then show ?thesis using ok one None unfolding groups_ok_def mine step
      by (auto simp: map_add_def map_of_eq_None_iff split: option.splits)
  next
    case old: (Some row)
    define G' where "G' = map (\<lambda>(k, x). (k, if k = key then count_cycle c row else x)) G"
    have step: "report_cycle d c G = G'"
      using old by (simp add: report_cycle_def Some vg Let_def key_def G'_def)
    have "row_counts (filter (\<lambda>x. report_group d x = Some key) cs @ [c]) (count_cycle c row)"
      using ok old by (intro row_counts_snoc) (simp add: groups_ok_def)
    moreover have "map fst G' = map fst G" by (auto simp: G'_def)
    moreover have "map_of G' k = (if k = key then Some (count_cycle c row) else map_of G k)" for k
      unfolding G'_def map_of_replace old by simp
    ultimately show ?thesis using ok old unfolding groups_ok_def mine step by simp
  qed
qed

lemma report_groups: "groups_ok d cs (fold (report_cycle d) cs [])"
proof (induction cs rule: rev_induct)
  case Nil
  show ?case by (simp add: groups_ok_def)
next
  case (snoc c cs)
  then show ?case by (simp add: groups_ok_step)
qed

text \<open>
  The report has one row for each version of a goal with a cycle the agent may see in the period, and its
  figures are the numbers of those cycles.
\<close>

theorem report_is_exact:
  assumes "slaReport now cx key (Some n) d = Inr rows"
  shows "\<exists>p keys. queueProject (core_of d) cx key False = Inr p \<and> distinct keys
    \<and> set keys = {k. \<exists>c\<in>set (de_cycles d). in_report d cx (p_id p) (now - n * 86400000) c \<and> report_group d c = Some k}
    \<and> list_all2 (\<lambda>k. row_counts (filter (\<lambda>c. in_report d cx (p_id p) (now - n * 86400000) c \<and> report_group d c = Some k) (de_cycles d))) keys rows"
proof -
  from assms obtain p where p: "queueProject (core_of d) cx key False = Inr p"
    and rows: "map snd (fold (report_cycle d) (filter (in_report d cx (p_id p) (now - n * 86400000)) (de_cycles d)) []) = rows"
    unfolding slaReport_def option.case by (simp only: handler_simps) (elim exE conjE, rule that, assumption+)
  define cs where "cs = filter (in_report d cx (p_id p) (now - n * 86400000)) (de_cycles d)"
  define G where "G = fold (report_cycle d) cs []"
  have mine: "filter (\<lambda>c. report_group d c = Some k) cs
      = filter (\<lambda>c. in_report d cx (p_id p) (now - n * 86400000) c \<and> report_group d c = Some k) (de_cycles d)" for k
    by (simp add: cs_def conj_commute)
  from report_groups [of d cs] have dis: "distinct (map fst G)"
    and G: "\<And>k row. map_of G k = Some row \<Longrightarrow> filter (\<lambda>c. report_group d c = Some k) cs \<noteq> [] \<and> row_counts (filter (\<lambda>c. report_group d c = Some k) cs) row"
    and none: "\<And>k. map_of G k = None \<Longrightarrow> filter (\<lambda>c. report_group d c = Some k) cs = []"
    unfolding G_def [symmetric] groups_ok_def by blast+
  have "list_all2 (\<lambda>k. row_counts (filter (\<lambda>c. report_group d c = Some k) cs)) (map fst G) (map snd G)"
    using G dis by (auto simp: list_all2_map1 list_all2_map2 list.rel_map intro!: list.rel_refl_strong)
  moreover have "set (map fst G) = {k. filter (\<lambda>c. report_group d c = Some k) cs \<noteq> []}"
  proof (rule set_eqI)
    fix k show "k \<in> set (map fst G) \<longleftrightarrow> k \<in> {k. filter (\<lambda>c. report_group d c = Some k) cs \<noteq> []}"
      using G [of k] none [of k] by (cases "map_of G k") (auto simp: map_of_eq_None_iff intro: rev_image_eqI dest!: map_of_SomeD)
  qed
  ultimately show ?thesis
    using p dis rows unfolding mine cs_def [symmetric] G_def [symmetric]
    by (intro exI [of _ p] exI [of _ "map fst G"]) (auto simp: filter_empty_conv)
qed

section \<open>Sample reports\<close>

definition report_desk :: desk where
  "report_desk = sample_desk\<lparr>de_tracker := queue_tracker\<rparr>"

definition sample_report :: "report_row list" where
  "sample_report = [\<lparr>rr_goal = ''Reply'', rr_version = 1, rr_metric = ''RESPONSE'', rr_cycles = 2, rr_met = 0, rr_breached = 0, rr_active = 2\<rparr>]"

theorem report_is_exact_witness:
  "\<exists>p keys. queueProject (core_of report_desk) queue_agent ''sd'' False = Inr p \<and> distinct keys
    \<and> set keys = {k. \<exists>c\<in>set (de_cycles report_desk). in_report report_desk queue_agent (p_id p) (9 - 1 * 86400000) c \<and> report_group report_desk c = Some k}
    \<and> list_all2 (\<lambda>k. row_counts (filter (\<lambda>c. in_report report_desk queue_agent (p_id p) (9 - 1 * 86400000) c \<and> report_group report_desk c = Some k)
        (de_cycles report_desk))) keys sample_report"
proof (rule report_is_exact)
  show "slaReport 9 queue_agent ''sd'' (Some 1) report_desk = Inr sample_report" by code_simp
qed

theorem administered_timers_run_witness:
  "\<exists>done d'. processSlaRequest utc_zone cycle_name 9000000 ''r'' (fold (service_step utc_zone (\<lambda>_. []) (\<lambda>_. NaN) cycle_name)
     [Configure (''cal'', ''cv2'') (Some queue_agent) ''sd'' [], Timer (Capture 5000 ''i'' ''issue.updated'' ''x'')] sample_desk) = Inr (done, d')"
  by (rule administered_timers_run [OF sample_desk_ok])

theorem portal_shows_latest_public_targets_witness:
  "\<exists>c v g. c \<in> set (de_cycles sample_desk) \<and> cy_requestId c = ''r'' \<and> goal_of sample_desk c = Some (v, g) \<and> gv_portalVisible v
    \<and> target_of sample_version (sample_cycle 1 None) = target_of v c
    \<and> (\<forall>x\<in>set (summary_cycles sample_desk ''r''). cy_metric x = cy_metric c \<longrightarrow> cy_sequence x \<le> cy_sequence c)"
proof (rule portal_shows_latest_public_targets)
  have "portal_summary sample_desk ''r'' = [target_of sample_version (sample_cycle 1 None)]" by code_simp
  then show "target_of sample_version (sample_cycle 1 None) \<in> set (portal_summary sample_desk ''r'')" by simp
qed

end
