(* ===== verification/Sprints.thy ===== *)
theory Sprints
  imports Issues
begin

text \<open>
  Sprints and the backlog (\<open>api/projects/[key]/sprints\<close>, \<open>api/projects/[key]/backlog\<close>). A change is checked on the rows read
  at its beginning and written in a transaction of its own, so the two are separate operations and other
  requests run in between. The transactions run under READ COMMITTED: the version of the sprint is a row they
  lock, but the rows that adding an issue deletes are those committed when the statement starts, which is an
  argument of its own (\<open>add_within\<close>). The names of statuses on the board and the estimates of the answer are left out.
\<close>

section \<open>Tables\<close>

datatype sprint_state = Sprint_Planned | Sprint_Active | Sprint_Completed

record sprint =
  sn_id :: string
  sn_projectId :: string
  sn_name :: string
  sn_goal :: "string option"
  sn_state :: sprint_state
  sn_startsAt :: "time option"
  sn_endsAt :: "time option"
  sn_completedAt :: "time option"
  sn_issueCounts :: "(nat \<times> nat) option"      \<comment> \<open>all, completed\<close>
  sn_estimates :: "(int \<times> int) option"
  sn_capacityTarget :: "int option"
  sn_position :: int
  sn_version :: int

record sprint_issue =
  sj_sprintId :: string
  sj_issueId :: string
  sj_position :: int

record sprint_snapshot =
  sz_sprintId :: string
  sz_issueId :: string
  sz_issueKey :: string
  sz_summary :: string
  sz_estimate :: "int option"
  sz_completed :: bool
  sz_completedAt :: "time option"

record sprint_history =
  sh_sprintId :: string
  sh_issueId :: string
  sh_event :: string
  sh_category :: "status_category option"
  sh_estimate :: "int option"

record sprint_db =
  sy_core :: workspace_db
  sy_config :: outbox_config
  sy_outbox :: outbox
  sy_sprints :: "sprint list"
  sy_issues :: "sprint_issue list"
  sy_snapshots :: "sprint_snapshot list"
  sy_history :: "sprint_history list"

definition is_open :: "sprint \<Rightarrow> bool" where
  "is_open s \<longleftrightarrow> sn_state s \<noteq> Sprint_Completed"

definition open_ids :: "sprint list \<Rightarrow> string set" where
  "open_ids ss = sn_id ` {s \<in> set ss. is_open s}"

section \<open>Access\<close>

text \<open>A project that cannot be found throws, which ends as an internal error.\<close>

definition sprint_access :: "auth_context option \<Rightarrow> string \<Rightarrow> sprint_db \<Rightarrow> (nat, auth_context \<times> project) result" where
  "sprint_access context key db =
     (case context of None \<Rightarrow> Inl 401 | Some cx \<Rightarrow>
      if cx_role cx = WViewer then Inl 403
      else case getProjectForContext (sy_core db) cx key of None \<Rightarrow> Inl 500 | Some p \<Rightarrow>
        if project_role_of (sy_core db) (p_id p) (cx_userId cx) = Some PViewer then Inl 403 else Inr (cx, p))"

definition managed_sprint :: "auth_context option \<Rightarrow> string \<Rightarrow> string \<Rightarrow> sprint_db \<Rightarrow> (nat, project \<times> sprint) result" where
  "managed_sprint context key i db =
     bind_result (sprint_access context key db) (\<lambda>(cx, p).
       case find (\<lambda>s. sn_id s = i \<and> sn_projectId s = p_id p) (sy_sprints db) of None \<Rightarrow> Inl 404 | Some s \<Rightarrow> Inr (p, s))"

section \<open>Reading\<close>

definition issue_of :: "sprint_db \<Rightarrow> string \<Rightarrow> issue option" where
  "issue_of db i = find (\<lambda>x. i_id x = i) (db_issues (sy_core db))"

definition category_in :: "sprint_db \<Rightarrow> issue \<Rightarrow> status_category option" where
  "category_in db i = map_option st_category (find (\<lambda>s. st_id s = i_statusId i) (db_statuses (sy_core db)))"

definition rows_of :: "sprint_db \<Rightarrow> string \<Rightarrow> sprint_issue list" where
  "rows_of db i = sort_key sj_position (filter (\<lambda>r. sj_sprintId r = i) (sy_issues db))"

definition issues_in :: "sprint_db \<Rightarrow> string \<Rightarrow> issue list" where
  "issues_in db i = List.map_filter (issue_of db \<circ> sj_issueId) (rows_of db i)"

definition state_rank :: "sprint_state \<Rightarrow> nat" where
  "state_rank s = (case s of Sprint_Planned \<Rightarrow> 0 | Sprint_Active \<Rightarrow> 1 | Sprint_Completed \<Rightarrow> 2)"

text \<open>Issues of the project in no open sprint, by rank.\<close>

definition in_backlog :: "sprint_db \<Rightarrow> string \<Rightarrow> issue \<Rightarrow> bool" where
  "in_backlog db pid i \<longleftrightarrow> i_projectId i = pid \<and> i_archivedAt i = None
     \<and> \<not> list_ex (\<lambda>r. sj_issueId r = i_id i \<and> sj_sprintId r \<in> open_ids (sy_sprints db)) (sy_issues db)"

definition estimate_total :: "issue list \<Rightarrow> int" where
  "estimate_total is = sum_list (map (\<lambda>i. case i_estimate i of None \<Rightarrow> 0 | Some n \<Rightarrow> n) is)"

record sprint_view =
  sw_sprint :: sprint
  sw_issueCount :: nat
  sw_estimateTotal :: int
  sw_issues :: "issue list"

definition sprints_GET :: "auth_context option \<Rightarrow> string \<Rightarrow> sprint_db \<Rightarrow> (nat, issue list \<times> sprint_view list) result" where
  "sprints_GET context key db =
     (case context of None \<Rightarrow> Inl 401 | Some cx \<Rightarrow>
      case getProjectForContext (sy_core db) cx key of None \<Rightarrow> Inl 500 | Some p \<Rightarrow>
        (let sprints = sort_key (state_rank \<circ> sn_state) (sort_key sn_position (filter (\<lambda>s. sn_projectId s = p_id p) (sy_sprints db)));
             backlog = sort_key i_rank (filter (\<lambda>i. in_backlog db (p_id p) i \<and> i_parentId i = None) (db_issues (sy_core db)))
         in Inr (backlog, map (\<lambda>s. \<lparr>sw_sprint = s, sw_issueCount = length (issues_in db (sn_id s)), sw_estimateTotal = estimate_total (issues_in db (sn_id s)),
              sw_issues = issues_in db (sn_id s)\<rparr>) sprints)))"

section \<open>Creation\<close>

text \<open>Noon of the day, and an integer within bounds.\<close>

definition sprint_date :: "js \<Rightarrow> time option" where
  "sprint_date v = (case as_string v of None \<Rightarrow> None | Some s \<Rightarrow> map_option (\<lambda>t. t + 43200000) (parse_iso_date s))"

definition bounded_integer :: "(js \<Rightarrow> jnum) \<Rightarrow> int \<Rightarrow> int \<Rightarrow> js \<Rightarrow> int option" where
  "bounded_integer to_num low high v =
     (case as_integer (JNum (js_number to_num v)) of None \<Rightarrow> None | Some n \<Rightarrow> if low \<le> n \<and> n \<le> high then Some n else None)"

definition nonempty :: "string \<Rightarrow> string option" where
  "nonempty s = (if s = [] then None else Some s)"

definition misordered :: "time option \<Rightarrow> time option \<Rightarrow> bool" where
  "misordered a b \<longleftrightarrow> (case (a, b) of (Some x, Some y) \<Rightarrow> y \<le> x | _ \<Rightarrow> False)"

definition next_position :: "int list \<Rightarrow> int" where
  "next_position ps = (if ps = [] then 0 else Max (set ps) + 1)"

definition sprint_create_check :: "(js \<Rightarrow> jnum) \<Rightarrow> auth_context option \<Rightarrow> string \<Rightarrow> jobj \<Rightarrow> sprint_db \<Rightarrow> (nat, project \<times> sprint) result" where
  "sprint_create_check to_num context key body db =
     bind_result (sprint_access context key db) (\<lambda>(cx, p).
       (let name = trim (string_or_empty (field ''name'' body)); goal = trim (string_or_empty (field ''goal'' body));
            starts = sprint_date (field ''startsAt'' body); ends = sprint_date (field ''endsAt'' body); target = field ''capacityTarget'' body;
            capacity = (if target \<in> {JUndef, JNull, JStr []} then None else bounded_integer to_num 0 10000 target) in
        if name = [] \<or> 100 < length name \<or> 500 < length goal then Inl 400
        else if truthy (field ''startsAt'' body) \<and> starts = None \<or> truthy (field ''endsAt'' body) \<and> ends = None
             \<or> target \<notin> {JUndef, JNull} \<and> capacity = None \<or> misordered starts ends then Inl 400
        else Inr (p, \<lparr>sn_id = [], sn_projectId = p_id p, sn_name = name, sn_goal = nonempty goal, sn_state = Sprint_Planned, sn_startsAt = starts, sn_endsAt = ends,
               sn_completedAt = None, sn_issueCounts = None, sn_estimates = None, sn_capacityTarget = capacity,
               sn_position = next_position (map sn_position (filter (\<lambda>s. sn_projectId s = p_id p \<and> sn_state s = Sprint_Planned) (sy_sprints db))), sn_version = 1\<rparr>)))"

definition sprint_create_commit :: "string \<Rightarrow> project \<times> sprint \<Rightarrow> sprint_db \<Rightarrow> sprint_db" where
  "sprint_create_commit new ps db =
     (let (p, s) = ps in
      db\<lparr>sy_sprints := sy_sprints db @ [s\<lparr>sn_id := new\<rparr>],
         sy_outbox := enqueueWebhook (sy_core db) (sy_config db) (p_workspaceId p) (Some (p_id p)) ''sprint.created'' (''sprint.created:'' @ new)
           (JObj [(''id'', JStr new), (''name'', JStr (sn_name s)), (''version'', JInt 1)]) (sy_outbox db)\<rparr>)"

definition sprints_POST :: "(js \<Rightarrow> jnum) \<Rightarrow> string \<Rightarrow> auth_context option \<Rightarrow> string \<Rightarrow> jobj \<Rightarrow> sprint_db \<Rightarrow> (nat, sprint_db) result" where
  "sprints_POST to_num new context key body db = bind_result (sprint_create_check to_num context key body db) (\<lambda>ps. Inr (sprint_create_commit new ps db))"

section \<open>Changes: the check\<close>

datatype sprint_change =
    Sprint_Edit sprint                                    \<comment> \<open>the new values\<close>
  | Sprint_Move "sprint option"                           \<comment> \<open>the neighbour\<close>
  | Sprint_Start "time option"
  | Sprint_Complete "sprint option" "(issue \<times> bool) list"     \<comment> \<open>destination; issues with whether they are done\<close>
  | Sprint_Add issue "status_category option"
  | Sprint_Remove issue "status_category option"
  | Sprint_Reorder "string list"
  | Sprint_Delete

record sprint_plan =
  sk_project :: project
  sk_sprint :: sprint
  sk_change :: sprint_change

definition edited_date :: "js \<Rightarrow> time option \<Rightarrow> time option" where
  "edited_date v current = (if v = JStr [] then None else if truthy v then sprint_date v else current)"

definition edit_check :: "(js \<Rightarrow> jnum) \<Rightarrow> jobj \<Rightarrow> sprint \<Rightarrow> (nat, sprint_change) result" where
  "edit_check to_num body s =
     (let name = (case as_string (field ''name'' body) of Some n \<Rightarrow> trim n | None \<Rightarrow> sn_name s);
          goal = (case as_string (field ''goal'' body) of Some g \<Rightarrow> Some (trim g) | None \<Rightarrow> sn_goal s);
          starts = edited_date (field ''startsAt'' body) (sn_startsAt s); ends = edited_date (field ''endsAt'' body) (sn_endsAt s); target = field ''capacityTarget'' body;
          capacity = (if target = JStr [] then None else if target \<notin> {JUndef, JNull} then bounded_integer to_num 0 10000 target else sn_capacityTarget s) in
      if sn_state s \<noteq> Sprint_Planned then Inl 409
      else if name = [] \<or> 100 < length name \<or> (case goal of None \<Rightarrow> False | Some g \<Rightarrow> 500 < length g)
        \<or> truthy (field ''startsAt'' body) \<and> starts = None \<or> truthy (field ''endsAt'' body) \<and> ends = None
        \<or> target \<notin> {JUndef, JNull, JStr []} \<and> capacity = None \<or> misordered starts ends then Inl 400
      else Inr (Sprint_Edit (s\<lparr>sn_name := name, sn_goal := Option.bind goal nonempty, sn_startsAt := starts, sn_endsAt := ends, sn_capacityTarget := capacity\<rparr>)))"

text \<open>The next planned sprint above or below.\<close>

definition neighbor :: "bool \<Rightarrow> sprint \<Rightarrow> sprint_db \<Rightarrow> sprint option" where
  "neighbor up s db =
     (let others = filter (\<lambda>x. sn_projectId x = sn_projectId s \<and> sn_state x = Sprint_Planned \<and> (if up then sn_position x < sn_position s else sn_position s < sn_position x)) (sy_sprints db);
          sorted = sort_key (\<lambda>x. if up then - sn_position x else sn_position x) others
      in (case sorted of [] \<Rightarrow> None | x # _ \<Rightarrow> Some x))"

definition complete_check :: "jobj \<Rightarrow> sprint \<Rightarrow> sprint_db \<Rightarrow> (nat, sprint_change) result" where
  "complete_check body s db =
     (let named = (case as_string (field ''destination'' body) of None \<Rightarrow> None | Some d \<Rightarrow> if d = ''backlog'' then None else Some d);
          destination = Option.bind named (\<lambda>d. find (\<lambda>x. sn_id x = d \<and> sn_projectId x = sn_projectId s \<and> sn_state x = Sprint_Planned) (sy_sprints db)) in
      if sn_state s \<noteq> Sprint_Active then Inl 409
      else if named \<noteq> None \<and> destination = None then Inl 400
      else Inr (Sprint_Complete destination (map (\<lambda>i. (i, category_in db i = Some Done)) (issues_in db (sn_id s)))))"

definition reorder_check :: "jobj \<Rightarrow> sprint \<Rightarrow> sprint_db \<Rightarrow> (nat, sprint_change) result" where
  "reorder_check body s db =
     (let ids = (case as_array (field ''issueIds'' body) of None \<Rightarrow> [] | Some xs \<Rightarrow> if all_strings xs then strings_of xs else []) in
      if ids = [] \<or> \<not> distinct ids \<or> count_rows (\<lambda>r. sj_sprintId r = sn_id s \<and> sj_issueId r \<in> set ids) (sy_issues db) \<noteq> length ids then Inl 400
      else Inr (Sprint_Reorder ids))"

definition sprint_action :: "(js \<Rightarrow> jnum) \<Rightarrow> (js \<Rightarrow> string) \<Rightarrow> time \<Rightarrow> jobj \<Rightarrow> sprint \<Rightarrow> sprint_db \<Rightarrow> (nat, sprint_change) result" where
  "sprint_action to_num show_js now body s db =
     (let action = field ''action'' body; direction = js_text show_js (field ''direction'' body) in
      if action = JStr ''edit'' then edit_check to_num body s
      else if action = JStr ''move'' then
        (if sn_state s \<noteq> Sprint_Planned \<or> direction \<notin> {''up'', ''down''} then Inl 409 else Inr (Sprint_Move (neighbor (field ''direction'' body = JStr ''up'') s db)))
      else if action = JStr ''start'' then
        (if sn_state s \<noteq> Sprint_Planned then Inl 409 else Inr (Sprint_Start (Some (case sn_startsAt s of Some t \<Rightarrow> t | None \<Rightarrow> now))))
      else if action = JStr ''complete'' then complete_check body s db
      else if action = JStr ''add'' \<or> action = JStr ''remove'' then
        (case find (\<lambda>i. i_id i = string_or_empty (field ''issueId'' body) \<and> i_projectId i = sn_projectId s \<and> i_archivedAt i = None) (db_issues (sy_core db)) of
           None \<Rightarrow> Inl 404
         | Some i \<Rightarrow> Inr (if action = JStr ''add'' then Sprint_Add i (category_in db i) else Sprint_Remove i (category_in db i)))
      else if action = JStr ''reorder'' then reorder_check body s db
      else Inl 400)"

definition sprint_check :: "(js \<Rightarrow> jnum) \<Rightarrow> (js \<Rightarrow> string) \<Rightarrow> time \<Rightarrow> auth_context option \<Rightarrow> string \<Rightarrow> string \<Rightarrow> jobj \<Rightarrow> sprint_db \<Rightarrow> (nat, sprint_plan) result" where
  "sprint_check to_num show_js now context key i body db =
     bind_result (managed_sprint context key i db) (\<lambda>(p, s).
       if sn_state s = Sprint_Completed then Inl 409
       else if as_integer (JNum (js_number to_num (field ''version'' body))) \<noteq> Some (sn_version s) then Inl 409
       else bind_result (sprint_action to_num show_js now body s db) (\<lambda>c. Inr \<lparr>sk_project = p, sk_sprint = s, sk_change = c\<rparr>))"

definition delete_check :: "auth_context option \<Rightarrow> string \<Rightarrow> string \<Rightarrow> sprint_db \<Rightarrow> (nat, sprint_plan) result" where
  "delete_check context key i db =
     bind_result (managed_sprint context key i db) (\<lambda>(p, s).
       if sn_state s \<noteq> Sprint_Planned \<or> rows_of db i \<noteq> [] then Inl 409 else Inr \<lparr>sk_project = p, sk_sprint = s, sk_change = Sprint_Delete\<rparr>)"

section \<open>Changes: the transaction\<close>

text \<open>The update of the version that was read; every other writer makes it fail.\<close>

definition bump :: "sprint \<Rightarrow> (sprint \<Rightarrow> sprint) \<Rightarrow> sprint_db \<Rightarrow> (nat, sprint_db) result" where
  "bump s f db =
     (let hit = (\<lambda>x. sn_id x = sn_id s \<and> sn_version x = sn_version s) in
      if count_rows hit (sy_sprints db) \<noteq> 1 then Inl 409
      else Inr (db\<lparr>sy_sprints := map (\<lambda>x. if hit x then (f x)\<lparr>sn_version := sn_version x + 1\<rparr> else x) (sy_sprints db)\<rparr>))"

definition in_sprint :: "string \<Rightarrow> string \<Rightarrow> sprint_issue \<Rightarrow> bool" where
  "in_sprint sid iid r \<longleftrightarrow> sj_sprintId r = sid \<and> sj_issueId r = iid"

definition positions_in :: "string \<Rightarrow> sprint_db \<Rightarrow> int list" where
  "positions_in sid db = map sj_position (filter (\<lambda>r. sj_sprintId r = sid) (sy_issues db))"

definition edit_commit :: "sprint \<Rightarrow> sprint \<Rightarrow> sprint_db \<Rightarrow> (nat, sprint_db) result" where
  "edit_commit s new db =
     bump s (\<lambda>x. x\<lparr>sn_name := sn_name new, sn_goal := sn_goal new, sn_startsAt := sn_startsAt new, sn_endsAt := sn_endsAt new, sn_capacityTarget := sn_capacityTarget new\<rparr>) db"

definition move_commit :: "sprint \<Rightarrow> sprint option \<Rightarrow> sprint_db \<Rightarrow> (nat, sprint_db) result" where
  "move_commit s n db =
     (case n of None \<Rightarrow> Inr db | Some x \<Rightarrow>
        if \<not> list_ex (\<lambda>y. sn_id y = sn_id x) (sy_sprints db) then Inl 500
        else bump s (\<lambda>y. y\<lparr>sn_position := sn_position x\<rparr>)
               (db\<lparr>sy_sprints := map (\<lambda>y. if sn_id y = sn_id x then y\<lparr>sn_position := sn_position s, sn_version := sn_version y + 1\<rparr> else y) (sy_sprints db)\<rparr>))"

text \<open>A partial unique index allows one active sprint per project.\<close>

definition start_commit :: "sprint \<Rightarrow> time option \<Rightarrow> sprint_db \<Rightarrow> (nat, sprint_db) result" where
  "start_commit s t db =
     (if list_ex (\<lambda>x. sn_projectId x = sn_projectId s \<and> sn_state x = Sprint_Active \<and> sn_id x \<noteq> sn_id s) (sy_sprints db) then Inl 409
      else bump s (\<lambda>x. x\<lparr>sn_state := Sprint_Active, sn_startsAt := t\<rparr>) db)"

definition snapshot_of :: "project \<Rightarrow> sprint \<Rightarrow> issue \<times> bool \<Rightarrow> sprint_snapshot" where
  "snapshot_of p s row =
     (let (i, completed) = row in
      \<lparr>sz_sprintId = sn_id s, sz_issueId = i_id i, sz_issueKey = issue_key p (i_number i), sz_summary = i_summary i, sz_estimate = i_estimate i,
       sz_completed = completed, sz_completedAt = i_completedAt i\<rparr>)"

definition carry_one :: "string \<Rightarrow> string \<Rightarrow> issue \<times> int \<Rightarrow> sprint_db \<Rightarrow> (nat, sprint_db) result" where
  "carry_one from_id to_id row db =
     (let (i, n) = row in
      if \<not> list_ex (in_sprint from_id (i_id i)) (sy_issues db) then Inl 500
      else if list_ex (in_sprint to_id (i_id i)) (sy_issues db) then Inl 409
      else Inr (db\<lparr>sy_issues := map (\<lambda>r. if in_sprint from_id (i_id i) r then r\<lparr>sj_sprintId := to_id, sj_position := n\<rparr> else r) (sy_issues db)\<rparr>))"

definition carry_over :: "sprint \<Rightarrow> sprint option \<Rightarrow> issue list \<Rightarrow> sprint_db \<Rightarrow> (nat, sprint_db) result" where
  "carry_over s destination unfinished db =
     (case destination of
        None \<Rightarrow> Inr (db\<lparr>sy_issues := filter (\<lambda>r. \<not> (sj_sprintId r = sn_id s \<and> sj_issueId r \<in> i_id ` set unfinished)) (sy_issues db)\<rparr>)
      | Some d \<Rightarrow>
          if unfinished \<noteq> [] \<and> \<not> list_ex (\<lambda>x. sn_id x = sn_id d) (sy_sprints db) then Inl 500
          else (let base = next_position (positions_in (sn_id d) db)
                in fold_result (carry_one (sn_id s) (sn_id d)) (zip unfinished (map (\<lambda>n. base + int n) [0..<length unfinished])) db))"

definition complete_commit :: "time \<Rightarrow> project \<Rightarrow> sprint \<Rightarrow> sprint option \<Rightarrow> (issue \<times> bool) list \<Rightarrow> sprint_db \<Rightarrow> (nat, sprint_db) result" where
  "complete_commit now p s destination rows db =
     (let finished = map fst (filter snd rows); unfinished = map fst (filter (\<lambda>r. \<not> snd r) rows) in
      if list_ex (\<lambda>z. sz_sprintId z = sn_id s \<and> sz_issueId z \<in> i_id ` set (map fst rows)) (sy_snapshots db) then Inl 409
      else bind_result (carry_over s destination unfinished (db\<lparr>sy_snapshots := sy_snapshots db @ map (snapshot_of p s) rows\<rparr>)) (\<lambda>db1.
        bump s (\<lambda>x. x\<lparr>sn_state := Sprint_Completed, sn_endsAt := Some now, sn_completedAt := Some now, sn_issueCounts := Some (length rows, length finished),
          sn_estimates := Some (estimate_total (map fst rows), estimate_total finished)\<rparr>) db1))"

definition history_row :: "sprint \<Rightarrow> issue \<Rightarrow> string \<Rightarrow> status_category option \<Rightarrow> sprint_history" where
  "history_row s i event category = \<lparr>sh_sprintId = sn_id s, sh_issueId = i_id i, sh_event = event, sh_category = category, sh_estimate = i_estimate i\<rparr>"

text \<open>
  Adding takes the issue out of every open sprint first: out of those in which the deletion sees it, in the state
  \<open>seen\<close>. The new row is inserted, and the version compared, in the state \<open>db\<close> in which the transaction commits.
\<close>

definition row_key :: "sprint_issue \<Rightarrow> string \<times> string" where
  "row_key r = (sj_sprintId r, sj_issueId r)"

definition add_within :: "sprint \<Rightarrow> issue \<Rightarrow> status_category option \<Rightarrow> sprint_db \<Rightarrow> sprint_db \<Rightarrow> (nat, sprint_db) result" where
  "add_within s i category seen db =
     bind_result (bump s id db) (\<lambda>db1.
       (let leaves = (\<lambda>r. sj_issueId r = i_id i \<and> sj_sprintId r \<in> open_ids (sy_sprints seen));
            gone = map row_key (filter leaves (sy_issues seen));
            rest = filter (\<lambda>r. row_key r \<notin> set gone) (sy_issues db1);
            position = next_position (map sj_position (filter (\<lambda>r. sj_sprintId r = sn_id s \<and> \<not> leaves r) (sy_issues seen))) in
        if issue_of db1 (i_id i) = None then Inl 500
        else if list_ex (in_sprint (sn_id s) (i_id i)) rest then Inl 409
        else Inr (db1\<lparr>sy_issues := rest @ [\<lparr>sj_sprintId = sn_id s, sj_issueId = i_id i, sj_position = position\<rparr>],
               sy_history := sy_history db1 @ [history_row s i ''SPRINT_ADDED'' category]\<rparr>)))"

text \<open>An addition that nothing interrupts sees the state in which it commits.\<close>

definition add_commit :: "sprint \<Rightarrow> issue \<Rightarrow> status_category option \<Rightarrow> sprint_db \<Rightarrow> (nat, sprint_db) result" where
  "add_commit s i category db = add_within s i category db db"

definition remove_commit :: "sprint \<Rightarrow> issue \<Rightarrow> status_category option \<Rightarrow> sprint_db \<Rightarrow> (nat, sprint_db) result" where
  "remove_commit s i category db =
     bind_result (bump s id db) (\<lambda>db1.
       if issue_of db1 (i_id i) = None then Inl 500
       else Inr (db1\<lparr>sy_issues := filter (\<lambda>r. \<not> in_sprint (sn_id s) (i_id i) r) (sy_issues db1),
              sy_history := sy_history db1 @ [history_row s i ''SPRINT_REMOVED'' category]\<rparr>))"

definition reorder_commit :: "sprint \<Rightarrow> string list \<Rightarrow> sprint_db \<Rightarrow> (nat, sprint_db) result" where
  "reorder_commit s ids db =
     bind_result (bump s id db) (\<lambda>db1.
       if \<not> list_all (\<lambda>i. list_ex (in_sprint (sn_id s) i) (sy_issues db1)) ids then Inl 500
       else Inr (db1\<lparr>sy_issues := map (\<lambda>r. if sj_sprintId r = sn_id s then (case map_of (zip ids [0..<length ids]) (sj_issueId r) of
              None \<Rightarrow> r | Some n \<Rightarrow> r\<lparr>sj_position := int n\<rparr>) else r) (sy_issues db1)\<rparr>))"

text \<open>The row is deleted by its identifier alone, with its issues and snapshots.\<close>

definition sprint_delete_commit :: "sprint \<Rightarrow> sprint_db \<Rightarrow> (nat, sprint_db) result" where
  "sprint_delete_commit s db =
     (if \<not> list_ex (\<lambda>x. sn_id x = sn_id s) (sy_sprints db) then Inl 500
      else Inr (db\<lparr>sy_sprints := filter (\<lambda>x. sn_id x \<noteq> sn_id s) (sy_sprints db), sy_issues := filter (\<lambda>r. sj_sprintId r \<noteq> sn_id s) (sy_issues db),
             sy_snapshots := filter (\<lambda>z. sz_sprintId z \<noteq> sn_id s) (sy_snapshots db)\<rparr>))"

fun change_name :: "sprint_change \<Rightarrow> string" where
  "change_name (Sprint_Edit _) = ''edit''"
| "change_name (Sprint_Move _) = ''move''"
| "change_name (Sprint_Start _) = ''start''"
| "change_name (Sprint_Complete _ _) = ''complete''"
| "change_name (Sprint_Add _ _) = ''add''"
| "change_name (Sprint_Remove _ _) = ''remove''"
| "change_name (Sprint_Reorder _) = ''reorder''"
| "change_name Sprint_Delete = ''delete''"

definition change_within :: "time \<Rightarrow> sprint_plan \<Rightarrow> sprint_db \<Rightarrow> sprint_db \<Rightarrow> (nat, sprint_db) result" where
  "change_within now sk seen db =
     (let s = sk_sprint sk in
      case sk_change sk of
        Sprint_Edit new \<Rightarrow> edit_commit s new db
      | Sprint_Move n \<Rightarrow> move_commit s n db
      | Sprint_Start t \<Rightarrow> start_commit s t db
      | Sprint_Complete d rows \<Rightarrow> complete_commit now (sk_project sk) s d rows db
      | Sprint_Add i c \<Rightarrow> add_within s i c seen db
      | Sprint_Remove i c \<Rightarrow> remove_commit s i c db
      | Sprint_Reorder ids \<Rightarrow> reorder_commit s ids db
      | Sprint_Delete \<Rightarrow> sprint_delete_commit s db)"

definition change_commit :: "time \<Rightarrow> sprint_plan \<Rightarrow> sprint_db \<Rightarrow> (nat, sprint_db) result" where
  "change_commit now sk db = change_within now sk db db"

definition sprint_live :: "sprint_plan \<Rightarrow> sprint_db \<Rightarrow> sprint_db" where
  "sprint_live sk db =
     (let p = sk_project sk; s = sk_sprint sk in
      if sk_change sk = Sprint_Delete then db
      else db\<lparr>sy_outbox := publishRealtime \<lparr>re_workspaceId = p_workspaceId p, re_projectId = Some (p_id p), re_type = ''sprint.updated'', re_resourceId = sn_id s,
        re_payload = JObj [(''id'', JStr (sn_id s)), (''action'', JStr (change_name (sk_change sk))), (''previousVersion'', JInt (sn_version s))]\<rparr> (sy_outbox db)\<rparr>)"

definition sprint_PATCH :: "(js \<Rightarrow> jnum) \<Rightarrow> (js \<Rightarrow> string) \<Rightarrow> time \<Rightarrow> auth_context option \<Rightarrow> string \<Rightarrow> string \<Rightarrow> jobj \<Rightarrow> sprint_db \<Rightarrow> (nat, sprint_db) result" where
  "sprint_PATCH to_num show_js now context key i body db =
     bind_result (sprint_check to_num show_js now context key i body db) (\<lambda>sk. map_sum id (sprint_live sk) (change_commit now sk db))"

definition sprint_DELETE :: "time \<Rightarrow> auth_context option \<Rightarrow> string \<Rightarrow> string \<Rightarrow> sprint_db \<Rightarrow> (nat, sprint_db) result" where
  "sprint_DELETE now context key i db = bind_result (delete_check context key i db) (\<lambda>sk. change_commit now sk db)"

section \<open>The backlog\<close>

definition backlog_PATCH :: "auth_context option \<Rightarrow> string \<Rightarrow> jobj \<Rightarrow> sprint_db \<Rightarrow> (nat, sprint_db) result" where
  "backlog_PATCH context key body db =
     bind_result (sprint_access context key db) (\<lambda>(cx, p).
       case as_array (field ''issueIds'' body) of None \<Rightarrow> Inl 400 | Some xs \<Rightarrow>
         if \<not> all_strings xs then Inl 400
         else (let ids = strings_of xs in
           if count_rows (\<lambda>i. i_id i \<in> set ids \<and> in_backlog db (p_id p) i) (db_issues (sy_core db)) \<noteq> length ids \<or> \<not> distinct ids then Inl 400
           else Inr (db\<lparr>sy_core := (sy_core db)\<lparr>db_issues := map (\<lambda>i. case map_of (zip ids [0..<length ids]) (i_id i) of
                  None \<Rightarrow> i | Some n \<Rightarrow> i\<lparr>i_rank := pad 8 (int n)\<rparr>) (db_issues (sy_core db))\<rparr>\<rparr>)))"

section \<open>Runs\<close>

text \<open>
  Requests read and check at one time and write at a later one; between the two anything may happen, also to the issues
  of the workspace. A write may run uninterrupted (\<open>Write_Change\<close>), or take the state its deletion sees at one
  time and commit at a later one (\<open>Begin_Change\<close>, \<open>Finish_Change\<close>). A sprint is created under a new identifier.
\<close>

record sprint_run =
  sm_db :: sprint_db
  sm_pending :: "sprint_plan list"
  sm_begun :: "(nat \<times> sprint_db) list"   \<comment> \<open>the pending change and what its transaction saw\<close>

datatype sprint_event =
    Read_Change time "auth_context option" string string jobj
  | Read_Delete "auth_context option" string string
  | Write_Change time nat
  | Begin_Change nat
  | Finish_Change time nat
  | Create_Sprint string "auth_context option" string jobj
  | Order_Backlog "auth_context option" string jobj
  | Change_Core workspace_db

fun sprint_step :: "(js \<Rightarrow> jnum) \<Rightarrow> (js \<Rightarrow> string) \<Rightarrow> sprint_event \<Rightarrow> sprint_run \<Rightarrow> sprint_run" where
  "sprint_step to_num show_js (Read_Change now context key i body) run =
     (case sprint_check to_num show_js now context key i body (sm_db run) of Inl _ \<Rightarrow> run | Inr sk \<Rightarrow> run\<lparr>sm_pending := sm_pending run @ [sk]\<rparr>)"
| "sprint_step to_num show_js (Read_Delete context key i) run =
     (case delete_check context key i (sm_db run) of Inl _ \<Rightarrow> run | Inr sk \<Rightarrow> run\<lparr>sm_pending := sm_pending run @ [sk]\<rparr>)"
| "sprint_step to_num show_js (Write_Change now n) run =
     (if n < length (sm_pending run) then
        (case change_commit now (sm_pending run ! n) (sm_db run) of Inl _ \<Rightarrow> run | Inr db \<Rightarrow> run\<lparr>sm_db := sprint_live (sm_pending run ! n) db\<rparr>)
      else run)"
| "sprint_step to_num show_js (Begin_Change n) run = run\<lparr>sm_begun := sm_begun run @ [(n, sm_db run)]\<rparr>"
| "sprint_step to_num show_js (Finish_Change now k) run =
     (if k < length (sm_begun run) \<and> fst (sm_begun run ! k) < length (sm_pending run) then
        (case change_within now (sm_pending run ! fst (sm_begun run ! k)) (snd (sm_begun run ! k)) (sm_db run) of
           Inl _ \<Rightarrow> run | Inr db \<Rightarrow> run\<lparr>sm_db := sprint_live (sm_pending run ! fst (sm_begun run ! k)) db\<rparr>)
      else run)"
| "sprint_step to_num show_js (Create_Sprint new context key body) run =
     (if new \<in> sn_id ` set (sy_sprints (sm_db run)) \<union> sj_sprintId ` set (sy_issues (sm_db run)) \<union> (sn_id \<circ> sk_sprint) ` set (sm_pending run) then run
      else case sprints_POST to_num new context key body (sm_db run) of Inl _ \<Rightarrow> run | Inr db \<Rightarrow> run\<lparr>sm_db := db\<rparr>)"
| "sprint_step to_num show_js (Order_Backlog context key body) run =
     (case backlog_PATCH context key body (sm_db run) of Inl _ \<Rightarrow> run | Inr db \<Rightarrow> run\<lparr>sm_db := db\<rparr>)"
| "sprint_step to_num show_js (Change_Core core) run = run\<lparr>sm_db := (sm_db run)\<lparr>sy_core := core\<rparr>\<rparr>"

text \<open>At most one active sprint per project, and at most one open sprint per issue.\<close>

definition one_active :: "sprint list \<Rightarrow> bool" where
  "one_active ss \<longleftrightarrow> (\<forall>x\<in>set ss. \<forall>y\<in>set ss. sn_state x = Sprint_Active \<and> sn_state y = Sprint_Active \<and> sn_projectId x = sn_projectId y \<longrightarrow> sn_id x = sn_id y)"

definition one_open :: "string set \<Rightarrow> sprint_issue list \<Rightarrow> bool" where
  "one_open opened rows \<longleftrightarrow> (\<forall>r\<in>set rows. \<forall>r'\<in>set rows. sj_issueId r = sj_issueId r' \<and> sj_sprintId r \<in> opened \<and> sj_sprintId r' \<in> opened \<longrightarrow> sj_sprintId r = sj_sprintId r')"

definition actives_ok :: "sprint_db \<Rightarrow> bool" where
  "actives_ok db \<longleftrightarrow> distinct (map sn_id (sy_sprints db)) \<and> one_active (sy_sprints db)"

definition sprints_ok :: "sprint_db \<Rightarrow> bool" where
  "sprints_ok db \<longleftrightarrow> distinct (map sn_id (sy_sprints db)) \<and> one_active (sy_sprints db) \<and> one_open (open_ids (sy_sprints db)) (sy_issues db)"

text \<open>What a pending change still knows of its sprint: a row with the version that was read is the row that was read.\<close>

definition read_of :: "sprint_db \<Rightarrow> sprint \<Rightarrow> bool" where
  "read_of db s \<longleftrightarrow> is_open s \<and> (\<forall>x\<in>set (sy_sprints db). sn_id x = sn_id s \<longrightarrow> sn_version s \<le> sn_version x
     \<and> (sn_version x = sn_version s \<longrightarrow> sn_state x = sn_state s \<and> sn_projectId x = sn_projectId s))"

definition run_ok :: "sprint_run \<Rightarrow> bool" where
  "run_ok run \<longleftrightarrow> sprints_ok (sm_db run) \<and> (\<forall>sk\<in>set (sm_pending run). read_of (sm_db run) (sk_sprint sk))"

definition actives_run :: "sprint_run \<Rightarrow> bool" where
  "actives_run run \<longleftrightarrow> actives_ok (sm_db run) \<and> (\<forall>sk\<in>set (sm_pending run). read_of (sm_db run) (sk_sprint sk))"

text \<open>How writes change the sprints: rows are kept or get a higher version.\<close>

definition row_follows :: "sprint \<Rightarrow> sprint \<Rightarrow> bool" where
  "row_follows x x' \<longleftrightarrow> sn_id x' = sn_id x \<and> sn_projectId x' = sn_projectId x \<and> (x' = x \<or> sn_version x < sn_version x')"

definition follows :: "sprint_db \<Rightarrow> sprint_db \<Rightarrow> bool" where
  "follows db db' \<longleftrightarrow> (\<forall>x'\<in>set (sy_sprints db'). \<exists>x\<in>set (sy_sprints db). row_follows x x')"

lemma open_ids_map:
  assumes "\<And>x. x \<in> set ss \<Longrightarrow> sn_id (g x) = sn_id x" and "\<And>x. x \<in> set ss \<Longrightarrow> is_open (g x) \<Longrightarrow> is_open x"
  shows "open_ids (map g ss) \<subseteq> open_ids ss"
proof
  fix i assume "i \<in> open_ids (map g ss)"
  then obtain x where "x \<in> set ss" "is_open (g x)" "i = sn_id (g x)" by (auto simp: open_ids_def)
  with assms show "i \<in> open_ids ss" by (auto simp: open_ids_def)
qed

lemma one_active_map:
  assumes "\<And>x. x \<in> set ss \<Longrightarrow> sn_id (g x) = sn_id x \<and> sn_projectId (g x) = sn_projectId x \<and> (sn_state (g x) = Sprint_Active \<longrightarrow> sn_state x = Sprint_Active)"
    and "one_active ss"
  shows "one_active (map g ss)"
  unfolding one_active_def set_map
proof (intro ballI impI)
  fix a b assume "a \<in> g ` set ss" "b \<in> g ` set ss" and c: "sn_state a = Sprint_Active \<and> sn_state b = Sprint_Active \<and> sn_projectId a = sn_projectId b"
  then obtain x y where xy: "x \<in> set ss" "a = g x" "y \<in> set ss" "b = g y" by blast
  have "sn_state x = Sprint_Active" "sn_state y = Sprint_Active" "sn_projectId x = sn_projectId y"
    using assms(1) [OF xy(1)] assms(1) [OF xy(3)] c xy(2,4) by simp_all
  then have "sn_id x = sn_id y" using assms(2) xy(1,3) unfolding one_active_def by blast
  then show "sn_id a = sn_id b" using assms(1) [OF xy(1)] assms(1) [OF xy(3)] xy(2,4) by simp
qed

lemma row_follows_refl [simp]: "row_follows x x"
  by (simp add: row_follows_def)

lemma follows_map: "(\<And>y. row_follows y (g y)) \<Longrightarrow> sy_sprints db' = map g (sy_sprints db) \<Longrightarrow> follows db db'"
  unfolding follows_def by (simp, blast)

lemma row_follows_trans: "row_follows x y \<Longrightarrow> row_follows y z \<Longrightarrow> row_follows x z"
  by (auto simp: row_follows_def)

lemma follows_refl: "sy_sprints db' = sy_sprints db \<Longrightarrow> follows db db'"
  unfolding follows_def using row_follows_refl by metis

lemma follows_trans: "follows a b \<Longrightarrow> follows b c \<Longrightarrow> follows a c"
  unfolding follows_def by (meson row_follows_trans)

lemma read_of_follows:
  assumes "read_of db s" and "follows db db'"
  shows "read_of db' s"
  unfolding read_of_def
proof (intro conjI ballI impI)
  show "is_open s" using assms(1) by (simp add: read_of_def)
  fix x' assume x': "x' \<in> set (sy_sprints db')" "sn_id x' = sn_id s"
  then obtain x where x: "x \<in> set (sy_sprints db)" "row_follows x x'" using assms(2) unfolding follows_def by blast
  then have k: "sn_version s \<le> sn_version x" "sn_version x = sn_version s \<Longrightarrow> sn_state x = sn_state s \<and> sn_projectId x = sn_projectId s"
    using assms(1) x'(2) by (auto simp: read_of_def row_follows_def)
  show "sn_version s \<le> sn_version x'" using k(1) x(2) by (auto simp: row_follows_def)
  have "sn_version x' = sn_version s \<Longrightarrow> x' = x" using k(1) x(2) by (auto simp: row_follows_def)
  then show "sn_version x' = sn_version s \<Longrightarrow> sn_state x' = sn_state s" "sn_version x' = sn_version s \<Longrightarrow> sn_projectId x' = sn_projectId s"
    using k(2) by simp_all
qed

subsection \<open>The versioned update\<close>

definition bumped :: "sprint \<Rightarrow> (sprint \<Rightarrow> sprint) \<Rightarrow> sprint \<Rightarrow> sprint" where
  "bumped s f x = (if sn_id x = sn_id s \<and> sn_version x = sn_version s then (f x)\<lparr>sn_version := sn_version x + 1\<rparr> else x)"

lemma bump_ok:
  assumes "bump s f db = Inr db'"
  shows "\<exists>x\<in>set (sy_sprints db). sn_id x = sn_id s \<and> sn_version x = sn_version s"
    and "sy_sprints db' = map (bumped s f) (sy_sprints db)"
    and "sy_issues db' = sy_issues db" "sy_core db' = sy_core db" "sy_snapshots db' = sy_snapshots db"
proof -
  have c: "count_rows (\<lambda>x. sn_id x = sn_id s \<and> sn_version x = sn_version s) (sy_sprints db) = 1"
    using assms by (auto simp: bump_def Let_def split: if_splits)
  show "\<exists>x\<in>set (sy_sprints db). sn_id x = sn_id s \<and> sn_version x = sn_version s"
  proof (rule ccontr)
    assume "\<not> ?thesis"
    then have "count_rows (\<lambda>x. sn_id x = sn_id s \<and> sn_version x = sn_version s) (sy_sprints db) = 0"
      unfolding count_rows_0 by blast
    with c show False by simp
  qed
  have "bumped s f = (\<lambda>x. if sn_id x = sn_id s \<and> sn_version x = sn_version s then (f x)\<lparr>sn_version := sn_version x + 1\<rparr> else x)"
    by (rule ext) (simp add: bumped_def)
  then show "sy_sprints db' = map (bumped s f) (sy_sprints db)"
    using assms by (simp only: bump_def Let_def) (simp split: if_splits, drule sym, simp)
qed (use assms in \<open>auto simp: bump_def Let_def split: if_splits\<close>)

definition keeps_row :: "(sprint \<Rightarrow> sprint) \<Rightarrow> bool" where
  "keeps_row f \<longleftrightarrow> (\<forall>x. sn_id (f x) = sn_id x \<and> sn_projectId (f x) = sn_projectId x)"

lemma bumped_row:
  assumes "keeps_row f"
  shows "sn_id (bumped s f x) = sn_id x" "sn_projectId (bumped s f x) = sn_projectId x" "row_follows x (bumped s f x)"
  using assms by (auto simp: bumped_def keeps_row_def row_follows_def)

lemma bump_follows:
  assumes "bump s f db = Inr db'" and "keeps_row f"
  shows "follows db db'" "map sn_id (sy_sprints db') = map sn_id (sy_sprints db)"
  unfolding follows_def bump_ok(2) [OF assms(1)] set_map by (blast intro: bumped_row(3) [OF assms(2)]) (simp add: bumped_row [OF assms(2)])

lemma bump_same_state:
  assumes "bump s f db = Inr db'" and "keeps_row f" and "\<And>x. sn_state (f x) = sn_state x"
  shows "one_active (sy_sprints db) \<Longrightarrow> one_active (sy_sprints db')" "open_ids (sy_sprints db') \<subseteq> open_ids (sy_sprints db)"
proof -
  have g: "sn_id (bumped s f x) = sn_id x" "sn_projectId (bumped s f x) = sn_projectId x" "sn_state (bumped s f x) = sn_state x" for x
    by (rule bumped_row [OF assms(2)], rule bumped_row [OF assms(2)], simp add: bumped_def assms(3))
  show "one_active (sy_sprints db) \<Longrightarrow> one_active (sy_sprints db')"
    unfolding bump_ok(2) [OF assms(1)] by (rule one_active_map) (simp_all add: g)
  show "open_ids (sy_sprints db') \<subseteq> open_ids (sy_sprints db)"
    unfolding bump_ok(2) [OF assms(1)] by (rule open_ids_map) (simp_all add: g is_open_def)
qed

lemma one_open_less:
  assumes "one_open opened rows" and "opened' \<subseteq> opened"
    and "\<And>r'. r' \<in> set rows' \<Longrightarrow> \<exists>r\<in>set rows. sj_issueId r = sj_issueId r' \<and> sj_sprintId r = sj_sprintId r'"
  shows "one_open opened' rows'"
  unfolding one_open_def
proof (intro ballI impI)
  fix a b assume ab: "a \<in> set rows'" "b \<in> set rows'" and c: "sj_issueId a = sj_issueId b \<and> sj_sprintId a \<in> opened' \<and> sj_sprintId b \<in> opened'"
  obtain x y where "x \<in> set rows" "y \<in> set rows" "sj_issueId x = sj_issueId a" "sj_sprintId x = sj_sprintId a" "sj_issueId y = sj_issueId b" "sj_sprintId y = sj_sprintId b"
    using assms(3) [OF ab(1)] assms(3) [OF ab(2)] by blast
  with c assms(1,2) show "sj_sprintId a = sj_sprintId b" unfolding one_open_def by (metis subsetD)
qed

lemma bump_keeps_ok:
  assumes "bump s f db = Inr db'" and "keeps_row f" and "\<And>x. sn_state (f x) = sn_state x" and "sprints_ok db"
  shows "sprints_ok db'"
  using assms(4) bump_follows(2) [OF assms(1,2)] bump_same_state [OF assms(1-3)] one_open_less [of "open_ids (sy_sprints db)" "sy_issues db" "open_ids (sy_sprints db')" "sy_issues db'"]
  by (auto simp: sprints_ok_def bump_ok(3) [OF assms(1)])

lemma bump_hits:
  assumes "bump s f db = Inr db'" and "read_of db s"
  shows "sn_id s \<in> open_ids (sy_sprints db)"
proof -
  obtain x where x: "x \<in> set (sy_sprints db)" "sn_id x = sn_id s" "sn_version x = sn_version s" using bump_ok(1) [OF assms(1)] by blast
  then have "is_open x" using assms(2) by (auto simp: read_of_def is_open_def)
  with x show ?thesis unfolding open_ids_def by (intro image_eqI [of _ _ x]) simp_all
qed

lemma bump_actives:
  assumes "bump s f db = Inr db'" and "keeps_row f" and "\<And>x. sn_state (f x) = sn_state x" and "actives_ok db"
  shows "actives_ok db'"
  using assms(4) bump_follows(2) [OF assms(1,2)] bump_same_state(1) [OF assms(1-3)] by (simp add: actives_ok_def)

lemma actives_same: "sy_sprints db' = sy_sprints db \<Longrightarrow> actives_ok db' = actives_ok db"
  by (simp add: actives_ok_def)

lemma sprints_actives: "sprints_ok db \<Longrightarrow> actives_ok db"
  by (simp add: sprints_ok_def actives_ok_def)

lemma sprints_ok_rows:
  assumes "sprints_ok db" and "sy_sprints db' = sy_sprints db"
    and "\<And>r'. r' \<in> set (sy_issues db') \<Longrightarrow> \<exists>r\<in>set (sy_issues db). sj_issueId r = sj_issueId r' \<and> sj_sprintId r = sj_sprintId r'"
  shows "sprints_ok db'"
  using assms(1) one_open_less [OF _ subset_refl assms(3)] by (simp add: sprints_ok_def assms(2))

lemma edit_commit_ok:
  assumes "edit_commit s new db = Inr db'" and "sprints_ok db"
  shows "sprints_ok db' \<and> follows db db'"
  using bump_keeps_ok [OF assms(1) [unfolded edit_commit_def] _ _ assms(2)] bump_follows(1) [OF assms(1) [unfolded edit_commit_def]] by (simp add: keeps_row_def)

lemma edit_commit_actives: "edit_commit s new db = Inr db' \<Longrightarrow> actives_ok db \<Longrightarrow> actives_ok db' \<and> follows db db'"
  unfolding edit_commit_def using bump_actives bump_follows(1) by (simp add: keeps_row_def)

lemma move_commit_actives:
  assumes "move_commit s n db = Inr db'" and "actives_ok db"
  shows "actives_ok db' \<and> follows db db' \<and> open_ids (sy_sprints db') \<subseteq> open_ids (sy_sprints db) \<and> sy_issues db' = sy_issues db"
proof (cases n)
  case (Some x)
  let ?g = "\<lambda>y. if sn_id y = sn_id x then y\<lparr>sn_position := sn_position s, sn_version := sn_version y + 1\<rparr> else y"
  let ?db = "db\<lparr>sy_sprints := map ?g (sy_sprints db)\<rparr>"
  have b: "bump s (\<lambda>y. y\<lparr>sn_position := sn_position x\<rparr>) ?db = Inr db'"
    using assms(1) Some by (simp add: move_commit_def split: if_splits)
  have g: "sn_id (?g y) = sn_id y" "sn_projectId (?g y) = sn_projectId y" "sn_state (?g y) = sn_state y" "row_follows y (?g y)" for y
    by (simp_all add: row_follows_def)
  have "map sn_id (map ?g (sy_sprints db)) = map sn_id (sy_sprints db)" by simp
  moreover have "one_active (map ?g (sy_sprints db))"
    by (rule one_active_map) (use assms(2) in \<open>simp_all add: g actives_ok_def del: if_split\<close>)
  ultimately have ok: "actives_ok ?db" using assms(2) by (simp add: actives_ok_def del: map_map)
  have opened: "open_ids (sy_sprints ?db) \<subseteq> open_ids (sy_sprints db)"
    using open_ids_map [of "sy_sprints db" ?g] g by (simp add: is_open_def del: if_split)
  have "follows db ?db" by (rule follows_map [OF g(4)]) simp
  moreover have k: "keeps_row (\<lambda>y. y\<lparr>sn_position := sn_position x\<rparr>)" by (simp add: keeps_row_def)
  ultimately show ?thesis
    using bump_actives [OF b k _ ok] bump_follows(1) [OF b k] follows_trans bump_same_state(2) [OF b k] opened bump_ok(3) [OF b] by auto
qed (use assms in \<open>simp add: move_commit_def follows_refl\<close>)

lemma fewer_open:
  assumes "sprints_ok db" and "actives_ok db'" and "open_ids (sy_sprints db') \<subseteq> open_ids (sy_sprints db)" and "sy_issues db' = sy_issues db"
  shows "sprints_ok db'"
  using assms one_open_less [of "open_ids (sy_sprints db)" "sy_issues db" "open_ids (sy_sprints db')" "sy_issues db"]
  by (auto simp: sprints_ok_def actives_ok_def)

lemma move_commit_ok: "move_commit s n db = Inr db' \<Longrightarrow> sprints_ok db \<Longrightarrow> sprints_ok db' \<and> follows db db'"
  using move_commit_actives [OF _ sprints_actives] fewer_open by blast

lemma start_commit_actives:
  assumes "start_commit s t db = Inr db'" and "actives_ok db" and "read_of db s"
  shows "actives_ok db' \<and> follows db db' \<and> open_ids (sy_sprints db') \<subseteq> open_ids (sy_sprints db) \<and> sy_issues db' = sy_issues db"
proof -
  let ?f = "\<lambda>x. x\<lparr>sn_state := Sprint_Active, sn_startsAt := t\<rparr>"
  have b: "bump s ?f db = Inr db'" using assms(1) by (simp add: start_commit_def split: if_splits)
  have alone: "sn_id x = sn_id s" if "x \<in> set (sy_sprints db)" "sn_projectId x = sn_projectId s" "sn_state x = Sprint_Active" for x
    using assms(1) that by (auto simp: start_commit_def list_ex_iff split: if_splits)
  have k: "keeps_row ?f" by (simp add: keeps_row_def)
  have hit: "is_open x \<and> sn_projectId x = sn_projectId s" if "x \<in> set (sy_sprints db)" "sn_id x = sn_id s" "sn_version x = sn_version s" for x
    using assms(3) that by (auto simp: read_of_def is_open_def)
  have active: "sn_state x = Sprint_Active \<or> sn_id x = sn_id s \<and> sn_projectId x = sn_projectId s" if "x \<in> set (sy_sprints db)" "sn_state (bumped s ?f x) = Sprint_Active" for x
    using that hit [OF that(1)] by (auto simp: bumped_def split: if_splits)
  have "one_active (sy_sprints db')"
    unfolding one_active_def bump_ok(2) [OF b] set_map
  proof (intro ballI impI)
    fix a c assume "a \<in> bumped s ?f ` set (sy_sprints db)" "c \<in> bumped s ?f ` set (sy_sprints db)"
      and ac: "sn_state a = Sprint_Active \<and> sn_state c = Sprint_Active \<and> sn_projectId a = sn_projectId c"
    then obtain x y where xy: "x \<in> set (sy_sprints db)" "a = bumped s ?f x" "y \<in> set (sy_sprints db)" "c = bumped s ?f y" by blast
    have p: "sn_projectId x = sn_projectId y" using ac xy(2,4) bumped_row(2) [OF k] by metis
    have "sn_id x = sn_id y"
      using active [OF xy(1)] active [OF xy(3)] ac xy p alone assms(2) unfolding actives_ok_def one_active_def by metis
    then show "sn_id a = sn_id c" using xy(2,4) bumped_row(1) [OF k] by metis
  qed
  moreover have "open_ids (sy_sprints db') \<subseteq> open_ids (sy_sprints db)"
    unfolding bump_ok(2) [OF b]
  proof (rule open_ids_map)
    fix x assume x: "x \<in> set (sy_sprints db)" "is_open (bumped s ?f x)"
    show "is_open x"
    proof (cases "sn_id x = sn_id s \<and> sn_version x = sn_version s")
      case False with x(2) show ?thesis by (simp add: bumped_def)
    qed (use hit [OF x(1)] in blast)
  qed (rule bumped_row(1) [OF k])
  ultimately show ?thesis using assms(2) bump_follows [OF b k] bump_ok(3) [OF b] by (simp add: actives_ok_def)
qed

lemma start_commit_ok: "start_commit s t db = Inr db' \<Longrightarrow> sprints_ok db \<Longrightarrow> read_of db s \<Longrightarrow> sprints_ok db' \<and> follows db db'"
  using start_commit_actives [OF _ sprints_actives] fewer_open by blast

lemma carry_one_ok:
  assumes "carry_one from_id to_id row db = Inr db'" and "one_open opened (sy_issues db)" and "from_id \<in> opened"
  shows "one_open opened (sy_issues db') \<and> sy_sprints db' = sy_sprints db \<and> sy_core db' = sy_core db \<and> sy_snapshots db' = sy_snapshots db"
proof -
  obtain i n where row: "row = (i, n)" by fastforce
  let ?g = "\<lambda>r. if in_sprint from_id (i_id i) r then r\<lparr>sj_sprintId := to_id, sj_position := n\<rparr> else r"
  have db': "db' = db\<lparr>sy_issues := map ?g (sy_issues db)\<rparr>"
    and "list_ex (in_sprint from_id (i_id i)) (sy_issues db)" using assms(1) by (simp_all add: carry_one_def row split: if_splits)
  then obtain m where m: "m \<in> set (sy_issues db)" "sj_sprintId m = from_id" "sj_issueId m = i_id i" by (auto simp: list_ex_iff in_sprint_def)
  have moved: "?g r = r \<and> \<not> in_sprint from_id (i_id i) r \<or> sj_sprintId (?g r) = to_id \<and> sj_issueId r = i_id i" "sj_issueId (?g r) = sj_issueId r" for r
    by (auto simp: in_sprint_def)
  have only: "sj_sprintId r = from_id" if "r \<in> set (sy_issues db)" "sj_issueId r = i_id i" "sj_sprintId r \<in> opened" for r
    using assms(2,3) that m unfolding one_open_def by metis
  have "one_open opened (map ?g (sy_issues db))"
    unfolding one_open_def set_map
  proof (intro ballI impI)
    fix a b assume "a \<in> ?g ` set (sy_issues db)" "b \<in> ?g ` set (sy_issues db)"
      and ab: "sj_issueId a = sj_issueId b \<and> sj_sprintId a \<in> opened \<and> sj_sprintId b \<in> opened"
    then obtain r q where rq: "r \<in> set (sy_issues db)" "a = ?g r" "q \<in> set (sy_issues db)" "b = ?g q" by blast
    have e: "sj_issueId r = sj_issueId q" using ab rq(2,4) moved(2) by metis
    have stay: "sj_sprintId (?g x) = to_id" if "x \<in> set (sy_issues db)" "sj_issueId x = i_id i" "sj_sprintId (?g x) \<in> opened" for x
      using that only [OF that(1,2)] moved(1) [of x] by (auto simp: in_sprint_def)
    show "sj_sprintId a = sj_sprintId b"
    proof (cases "sj_issueId r = i_id i")
      case True
      then show ?thesis using stay [OF rq(1)] stay [OF rq(3)] ab rq(2,4) e by simp
    next
      case False
      then have "?g r = r" "?g q = q" using e by (simp_all add: in_sprint_def)
      then show ?thesis using assms(2) ab rq e unfolding one_open_def by metis
    qed
  qed
  then show ?thesis by (simp add: db')
qed

lemma one_open_filter: "one_open opened rows \<Longrightarrow> one_open opened (filter P rows)"
  by (auto simp: one_open_def)

lemma carry_over_ok:
  assumes "carry_over s d unfinished db = Inr db'" and "one_open opened (sy_issues db)" and "sn_id s \<in> opened"
  shows "one_open opened (sy_issues db') \<and> sy_sprints db' = sy_sprints db \<and> sy_core db' = sy_core db \<and> sy_snapshots db' = sy_snapshots db"
proof (cases d)
  case None
  then have "db' = db\<lparr>sy_issues := filter (\<lambda>r. \<not> (sj_sprintId r = sn_id s \<and> sj_issueId r \<in> i_id ` set unfinished)) (sy_issues db)\<rparr>"
    using assms(1) by (simp add: carry_over_def)
  then show ?thesis using one_open_filter [OF assms(2)] by simp
next
  case (Some x)
  let ?rows = "zip unfinished (map (\<lambda>n. next_position (positions_in (sn_id x) db) + int n) [0..<length unfinished])"
  have "fold_result (carry_one (sn_id s) (sn_id x)) ?rows db = Inr db'"
    using assms(1) Some by (simp add: carry_over_def Let_def split: if_splits)
  then show ?thesis
  proof (rule fold_result_invariant)
    show "one_open opened (sy_issues db) \<and> sy_sprints db = sy_sprints db \<and> sy_core db = sy_core db \<and> sy_snapshots db = sy_snapshots db" using assms(2) by simp
    fix row t t' assume c: "carry_one (sn_id s) (sn_id x) row t = Inr t'"
      and t: "one_open opened (sy_issues t) \<and> sy_sprints t = sy_sprints db \<and> sy_core t = sy_core db \<and> sy_snapshots t = sy_snapshots db"
    show "one_open opened (sy_issues t') \<and> sy_sprints t' = sy_sprints db \<and> sy_core t' = sy_core db \<and> sy_snapshots t' = sy_snapshots db"
      using carry_one_ok [OF c conjunct1 [OF t] assms(3)] t by simp
  qed
qed

lemma close_bump_actives:
  assumes "bump s f db = Inr db'" and "keeps_row f" and "\<And>x. sn_state (f x) = Sprint_Completed" and "actives_ok db"
  shows "actives_ok db'" "open_ids (sy_sprints db') \<subseteq> open_ids (sy_sprints db)"
proof -
  have "one_active (sy_sprints db')"
    unfolding bump_ok(2) [OF assms(1)]
    by (rule one_active_map) (use bumped_row [OF assms(2)] assms(3,4) in \<open>simp_all add: actives_ok_def bumped_def\<close>)
  then show "actives_ok db'" using assms(4) bump_follows(2) [OF assms(1,2)] by (simp add: actives_ok_def)
  show "open_ids (sy_sprints db') \<subseteq> open_ids (sy_sprints db)"
    unfolding bump_ok(2) [OF assms(1)]
    by (rule open_ids_map) (use bumped_row [OF assms(2)] assms(3) in \<open>auto simp: bumped_def is_open_def split: if_splits\<close>)
qed

lemma close_bump:
  assumes "bump s f db = Inr db'" and "keeps_row f" and "\<And>x. sn_state (f x) = Sprint_Completed" and "sprints_ok db"
  shows "sprints_ok db'"
  using close_bump_actives [OF assms(1-3) sprints_actives [OF assms(4)]] fewer_open [OF assms(4)] bump_ok(3) [OF assms(1)] by blast

lemma carry_over_sprints:
  assumes "carry_over s d unfinished db = Inr db'"
  shows "sy_sprints db' = sy_sprints db"
proof (cases d)
  case None then show ?thesis using assms by (auto simp: carry_over_def)
next
  case (Some x)
  have "sy_sprints t' = sy_sprints t" if "carry_one u v row t = Inr t'" for u v row t t'
    using that by (auto simp: carry_one_def split: prod.splits if_splits)
  then have "sy_sprints t' = sy_sprints t" if "fold_result (carry_one u v) rs t = Inr t'" for u v rs t t'
    using that by (induction rs arbitrary: t) (auto simp: result_elims)
  then show ?thesis using assms Some by (fastforce simp: carry_over_def Let_def split: if_splits)
qed

lemma complete_commit_actives:
  assumes "complete_commit now p s d rows db = Inr db'" and "actives_ok db"
  shows "actives_ok db' \<and> follows db db'"
proof -
  let ?f = "\<lambda>x. x\<lparr>sn_state := Sprint_Completed, sn_endsAt := Some now, sn_completedAt := Some now, sn_issueCounts := Some (length rows, length (map fst (filter snd rows))),
    sn_estimates := Some (estimate_total (map fst rows), estimate_total (map fst (filter snd rows)))\<rparr>"
  let ?db0 = "db\<lparr>sy_snapshots := sy_snapshots db @ map (snapshot_of p s) rows\<rparr>"
  obtain db1 where c: "carry_over s d (map fst (filter (\<lambda>r. \<not> snd r) rows)) ?db0 = Inr db1" and b: "bump s ?f db1 = Inr db'"
    using assms(1) by (auto simp: complete_commit_def Let_def bind_result_eq_Inr split: if_splits)
  have k: "keeps_row ?f" by (simp add: keeps_row_def)
  have same: "sy_sprints db1 = sy_sprints db" using carry_over_sprints [OF c] by simp
  have "actives_ok db'" by (rule close_bump_actives(1) [OF b k]) (use assms(2) actives_same [OF same] in simp_all)
  then show ?thesis using bump_follows(1) [OF b k] follows_trans [OF follows_refl [OF same]] by blast
qed

lemma complete_commit_ok:
  assumes "complete_commit now p s d rows db = Inr db'" and "sprints_ok db" and "read_of db s"
  shows "sprints_ok db' \<and> follows db db'"
proof -
  let ?f = "\<lambda>x. x\<lparr>sn_state := Sprint_Completed, sn_endsAt := Some now, sn_completedAt := Some now, sn_issueCounts := Some (length rows, length (map fst (filter snd rows))),
    sn_estimates := Some (estimate_total (map fst rows), estimate_total (map fst (filter snd rows)))\<rparr>"
  let ?db0 = "db\<lparr>sy_snapshots := sy_snapshots db @ map (snapshot_of p s) rows\<rparr>"
  obtain db1 where c: "carry_over s d (map fst (filter (\<lambda>r. \<not> snd r) rows)) ?db0 = Inr db1" and b: "bump s ?f db1 = Inr db'"
    using assms(1) by (auto simp: complete_commit_def Let_def bind_result_eq_Inr split: if_splits)
  have k: "keeps_row ?f" by (simp add: keeps_row_def)
  have same: "sy_sprints db1 = sy_sprints db" using carry_over_sprints [OF c] by simp
  have "read_of db1 s" using assms(3) by (simp add: read_of_def same)
  from bump_hits [OF b this] have "sn_id s \<in> open_ids (sy_sprints db)" by (simp add: same)
  then have "one_open (open_ids (sy_sprints db)) (sy_issues db1)"
    using carry_over_ok [OF c] assms(2) by (simp add: sprints_ok_def)
  then have "sprints_ok db1" using assms(2) by (simp add: sprints_ok_def same)
  then have "sprints_ok db'" by (rule close_bump [OF b k, rotated]) simp
  moreover have "follows db1 db'" by (rule bump_follows(1) [OF b k])
  ultimately show ?thesis using follows_trans [OF follows_refl [OF same]] by blast
qed

lemma add_within_ok:
  assumes "add_within s i c seen db = Inr db'"
  obtains db1 n where "bump s id db = Inr db1" and "sy_sprints db' = sy_sprints db1"
    and "sy_issues db' = filter (\<lambda>r. row_key r \<notin> row_key ` {r \<in> set (sy_issues seen). sj_issueId r = i_id i \<and> sj_sprintId r \<in> open_ids (sy_sprints seen)}) (sy_issues db1)
      @ [\<lparr>sj_sprintId = sn_id s, sj_issueId = i_id i, sj_position = n\<rparr>]"
proof -
  obtain db1 where b: "bump s id db = Inr db1" using assms by (auto simp: add_within_def bind_result_eq_Inr)
  show ?thesis by (rule that [OF b]) (use assms b in \<open>auto simp: add_within_def bind_result_eq_Inr Let_def split: if_splits\<close>)
qed

lemma keeps_id: "keeps_row id" by (simp add: keeps_row_def)

lemma add_within_actives:
  assumes "add_within s i c seen db = Inr db'" and "actives_ok db"
  shows "actives_ok db' \<and> follows db db'"
proof -
  obtain db1 where b: "bump s id db = Inr db1" and db': "sy_sprints db' = sy_sprints db1" by (rule add_within_ok [OF assms(1)])
  have "actives_ok db1" by (rule bump_actives [OF b keeps_id _ assms(2)]) simp
  then show ?thesis using bump_follows(1) [OF b keeps_id] by (simp add: actives_ok_def db' follows_def)
qed

lemma add_commit_ok:
  assumes "add_commit s i c db = Inr db'" and "sprints_ok db"
  shows "sprints_ok db' \<and> follows db db'"
proof -
  let ?gone = "row_key ` {r \<in> set (sy_issues db). sj_issueId r = i_id i \<and> sj_sprintId r \<in> open_ids (sy_sprints db)}"
  obtain db1 n where b: "bump s id db = Inr db1" and sprints: "sy_sprints db' = sy_sprints db1"
    and rows: "sy_issues db' = filter (\<lambda>r. row_key r \<notin> ?gone) (sy_issues db1) @ [\<lparr>sj_sprintId = sn_id s, sj_issueId = i_id i, sj_position = n\<rparr>]"
    by (rule add_within_ok [OF assms(1) [unfolded add_commit_def]])
  have ok: "sprints_ok db1" by (rule bump_keeps_ok [OF b keeps_id _ assms(2)]) simp
  have opened: "open_ids (sy_sprints db1) \<subseteq> open_ids (sy_sprints db)" by (rule bump_same_state(2) [OF b keeps_id]) simp
  have left: "sj_issueId r \<noteq> i_id i \<or> sj_sprintId r \<notin> open_ids (sy_sprints db1)"
    if "r \<in> set (filter (\<lambda>r. row_key r \<notin> ?gone) (sy_issues db1))" for r
    using that opened by (auto simp: bump_ok(3) [OF b])
  have rest: "one_open (open_ids (sy_sprints db1)) (filter (\<lambda>r. row_key r \<notin> ?gone) (sy_issues db1))"
    using ok one_open_filter by (simp add: sprints_ok_def)
  have "one_open (open_ids (sy_sprints db1)) (sy_issues db')"
    unfolding one_open_def
  proof (intro ballI impI)
    fix q r assume "q \<in> set (sy_issues db')" "r \<in> set (sy_issues db')"
      and c: "sj_issueId q = sj_issueId r \<and> sj_sprintId q \<in> open_ids (sy_sprints db1) \<and> sj_sprintId r \<in> open_ids (sy_sprints db1)"
    then consider "q \<in> set (filter (\<lambda>r. row_key r \<notin> ?gone) (sy_issues db1))" "r \<in> set (filter (\<lambda>r. row_key r \<notin> ?gone) (sy_issues db1))"
      | "sj_issueId q = i_id i" "q \<in> set (filter (\<lambda>r. row_key r \<notin> ?gone) (sy_issues db1)) \<or> sj_sprintId q = sn_id s"
        "r \<in> set (filter (\<lambda>r. row_key r \<notin> ?gone) (sy_issues db1)) \<or> sj_sprintId r = sn_id s"
      unfolding rows set_append by force
    then show "sj_sprintId q = sj_sprintId r"
    proof cases
      case 1
      with rest c show ?thesis unfolding one_open_def by blast
    next
      case 2
      with left [of q] left [of r] c show ?thesis by auto
    qed
  qed
  then show ?thesis using ok bump_follows(1) [OF b keeps_id] by (simp add: sprints_ok_def sprints follows_def)
qed

lemma remove_commit_ok:
  assumes "remove_commit s i c db = Inr db'" and "sprints_ok db"
  shows "sprints_ok db' \<and> follows db db'"
proof -
  obtain db1 where b: "bump s id db = Inr db1" using assms(1) by (auto simp: remove_commit_def bind_result_eq_Inr)
  have k: "keeps_row id" by (simp add: keeps_row_def)
  have ok: "sprints_ok db1" by (rule bump_keeps_ok [OF b k _ assms(2)]) simp
  obtain h where db': "db' = db1\<lparr>sy_issues := filter (\<lambda>r. \<not> in_sprint (sn_id s) (i_id i) r) (sy_issues db1), sy_history := h\<rparr>"
    using assms(1) b by (auto simp: remove_commit_def bind_result_eq_Inr split: if_splits)
  have "sprints_ok db'" unfolding db' by (rule sprints_ok_rows [OF ok]) auto
  then show ?thesis using bump_follows(1) [OF b k] by (simp add: follows_def db')
qed

lemma reorder_commit_ok:
  assumes "reorder_commit s ids db = Inr db'" and "sprints_ok db"
  shows "sprints_ok db' \<and> follows db db'"
proof -
  obtain db1 where b: "bump s id db = Inr db1" using assms(1) by (auto simp: reorder_commit_def bind_result_eq_Inr)
  have k: "keeps_row id" by (simp add: keeps_row_def)
  have ok: "sprints_ok db1" by (rule bump_keeps_ok [OF b k _ assms(2)]) simp
  let ?g = "\<lambda>r. if sj_sprintId r = sn_id s then (case map_of (zip ids [0..<length ids]) (sj_issueId r) of None \<Rightarrow> r | Some n \<Rightarrow> r\<lparr>sj_position := int n\<rparr>) else r"
  have db': "db' = db1\<lparr>sy_issues := map ?g (sy_issues db1)\<rparr>"
    using assms(1) unfolding reorder_commit_def b bind_result_Inr guard_ok sum.inject by (elim conjE) (rule sym)
  have g: "sj_issueId (?g r) = sj_issueId r" "sj_sprintId (?g r) = sj_sprintId r" for r by (auto split: option.splits)
  have rows: "sy_issues db' = map ?g (sy_issues db1)" "sy_sprints db' = sy_sprints db1" unfolding db' by simp_all
  have "sprints_ok db'"
  proof (rule sprints_ok_rows [OF ok rows(2)])
    fix r' assume "r' \<in> set (sy_issues db')"
    then obtain r where r: "r \<in> set (sy_issues db1)" "r' = ?g r" unfolding rows set_map by blast
    then show "\<exists>r\<in>set (sy_issues db1). sj_issueId r = sj_issueId r' \<and> sj_sprintId r = sj_sprintId r'"
      by (intro bexI [OF _ r(1)]) (unfold r(2) g, intro conjI refl)
  qed
  then show ?thesis using bump_follows(1) [OF b k] by (simp add: follows_def db')
qed

lemma sprint_delete_commit_ok:
  assumes "sprint_delete_commit s db = Inr db'" and "sprints_ok db"
  shows "sprints_ok db' \<and> follows db db'"
proof -
  have db': "sy_sprints db' = filter (\<lambda>x. sn_id x \<noteq> sn_id s) (sy_sprints db)" "sy_issues db' = filter (\<lambda>r. sj_sprintId r \<noteq> sn_id s) (sy_issues db)"
    using assms(1) by (auto simp: sprint_delete_commit_def split: if_splits)
  have "one_open (open_ids (sy_sprints db')) (sy_issues db')"
    by (rule one_open_less [of "open_ids (sy_sprints db)" "sy_issues db"]) (use assms(2) in \<open>auto simp: db' sprints_ok_def open_ids_def\<close>)
  moreover have "one_active (sy_sprints db')" using assms(2) by (auto simp: db' sprints_ok_def one_active_def)
  moreover have "follows db db'" unfolding follows_def db' by (auto intro: row_follows_refl)
  ultimately show ?thesis using assms(2) by (simp add: sprints_ok_def db' distinct_map_filter)
qed

lemma remove_commit_actives: "remove_commit s i c db = Inr db' \<Longrightarrow> actives_ok db \<Longrightarrow> actives_ok db' \<and> follows db db'"
  unfolding remove_commit_def bind_result_eq_Inr
  by (elim exE conjE) (frule bump_actives [OF _ keeps_id], simp, assumption, drule bump_follows(1) [OF _ keeps_id],
    auto simp: actives_ok_def follows_def split: if_splits)

lemma reorder_commit_actives:
  assumes "reorder_commit s ids db = Inr db'" and "actives_ok db"
  shows "actives_ok db' \<and> follows db db'"
proof -
  obtain db1 where b: "bump s id db = Inr db1" using assms(1) by (auto simp: reorder_commit_def bind_result_eq_Inr)
  let ?g = "\<lambda>r. if sj_sprintId r = sn_id s then (case map_of (zip ids [0..<length ids]) (sj_issueId r) of None \<Rightarrow> r | Some n \<Rightarrow> r\<lparr>sj_position := int n\<rparr>) else r"
  have db': "db' = db1\<lparr>sy_issues := map ?g (sy_issues db1)\<rparr>"
    using assms(1) unfolding reorder_commit_def b bind_result_Inr guard_ok sum.inject by (elim conjE) (rule sym)
  have "actives_ok db1" by (rule bump_actives [OF b keeps_id _ assms(2)]) simp
  then show ?thesis using bump_follows(1) [OF b keeps_id] unfolding db' by (simp add: actives_ok_def follows_def)
qed

lemma sprint_delete_commit_actives:
  assumes "sprint_delete_commit s db = Inr db'" and "actives_ok db"
  shows "actives_ok db' \<and> follows db db'"
proof -
  have db': "sy_sprints db' = filter (\<lambda>x. sn_id x \<noteq> sn_id s) (sy_sprints db)"
    using assms(1) by (auto simp: sprint_delete_commit_def split: if_splits)
  have "one_active (sy_sprints db')" using assms(2) by (auto simp: db' actives_ok_def one_active_def)
  moreover have "follows db db'" unfolding follows_def db' by (auto intro: row_follows_refl)
  ultimately show ?thesis using assms(2) by (simp add: actives_ok_def db' distinct_map_filter)
qed

lemma change_within_actives:
  assumes "change_within now sk seen db = Inr db'" and "actives_ok db" and "read_of db (sk_sprint sk)"
  shows "actives_ok db' \<and> follows db db'"
proof -
  note w = assms(1) [unfolded change_within_def Let_def]
  show ?thesis
  proof (cases "sk_change sk")
    case (Sprint_Edit new)
    show ?thesis by (rule edit_commit_actives [OF w [unfolded Sprint_Edit sprint_change.case] assms(2)])
  next
    case (Sprint_Move n)
    from move_commit_actives [OF w [unfolded Sprint_Move sprint_change.case] assms(2)] show ?thesis by (elim conjE) (intro conjI)
  next
    case (Sprint_Start t)
    from start_commit_actives [OF w [unfolded Sprint_Start sprint_change.case] assms(2,3)] show ?thesis by (elim conjE) (intro conjI)
  next
    case (Sprint_Complete d rows)
    show ?thesis by (rule complete_commit_actives [OF w [unfolded Sprint_Complete sprint_change.case] assms(2)])
  next
    case (Sprint_Add i c)
    show ?thesis by (rule add_within_actives [OF w [unfolded Sprint_Add sprint_change.case] assms(2)])
  next
    case (Sprint_Remove i c)
    show ?thesis by (rule remove_commit_actives [OF w [unfolded Sprint_Remove sprint_change.case] assms(2)])
  next
    case (Sprint_Reorder ids)
    show ?thesis by (rule reorder_commit_actives [OF w [unfolded Sprint_Reorder sprint_change.case] assms(2)])
  next
    case Sprint_Delete
    show ?thesis by (rule sprint_delete_commit_actives [OF w [unfolded Sprint_Delete sprint_change.case] assms(2)])
  qed
qed

lemma change_commit_ok:
  assumes "change_commit now sk db = Inr db'" and "sprints_ok db" and "read_of db (sk_sprint sk)"
  shows "sprints_ok db' \<and> follows db db'"
  using assms edit_commit_ok move_commit_ok start_commit_ok complete_commit_ok add_commit_ok remove_commit_ok reorder_commit_ok sprint_delete_commit_ok
  by (cases "sk_change sk") (simp_all add: change_commit_def change_within_def add_commit_def Let_def)

lemma managed_sprint_ok: "managed_sprint context key i db = Inr (p, s) \<Longrightarrow> s \<in> set (sy_sprints db) \<and> sn_id s = i \<and> sn_projectId s = p_id p"
  by (auto simp: managed_sprint_def bind_result_eq_Inr split: option.splits dest: find_SomeD)

lemma read_of_row:
  assumes "actives_ok db" and "s \<in> set (sy_sprints db)" and "is_open s"
  shows "read_of db s"
proof -
  have "x = s" if "x \<in> set (sy_sprints db)" "sn_id x = sn_id s" for x
    using that assms(1,2) unfolding actives_ok_def distinct_map inj_on_def by blast
  then show ?thesis using assms(3) unfolding read_of_def by blast
qed

lemma sprint_check_reads:
  assumes "sprint_check to_num show_js now context key i body db = Inr sk" and "actives_ok db"
  shows "read_of db (sk_sprint sk)"
proof -
  obtain p s c where m: "managed_sprint context key i db = Inr (p, s)" and s: "sn_state s \<noteq> Sprint_Completed" and sk: "sk = \<lparr>sk_project = p, sk_sprint = s, sk_change = c\<rparr>"
    using assms(1) unfolding sprint_check_def bind_result_eq_Inr by (auto simp: bind_result_eq_Inr split: if_splits)
  show ?thesis using read_of_row [OF assms(2)] managed_sprint_ok [OF m] s by (simp add: sk is_open_def)
qed

lemma delete_check_reads:
  assumes "delete_check context key i db = Inr sk" and "actives_ok db"
  shows "read_of db (sk_sprint sk)"
proof -
  obtain p s where m: "managed_sprint context key i db = Inr (p, s)" and s: "sn_state s = Sprint_Planned" and sk: "sk = \<lparr>sk_project = p, sk_sprint = s, sk_change = Sprint_Delete\<rparr>"
    using assms(1) unfolding delete_check_def bind_result_eq_Inr by (auto split: if_splits)
  show ?thesis using read_of_row [OF assms(2)] managed_sprint_ok [OF m] s by (simp add: sk is_open_def)
qed

lemma sprint_live_simps [simp]: "sy_sprints (sprint_live sk db) = sy_sprints db" "sy_issues (sprint_live sk db) = sy_issues db"
  by (simp_all add: sprint_live_def Let_def)

lemma sprints_ok_same: "sy_sprints db' = sy_sprints db \<Longrightarrow> sy_issues db' = sy_issues db \<Longrightarrow> sprints_ok db' = sprints_ok db"
  and read_of_same: "sy_sprints db' = sy_sprints db \<Longrightarrow> read_of db' s = read_of db s"
  by (simp_all add: sprints_ok_def read_of_def)

lemma step_row_facts:
  assumes "actives_ok db' \<and> follows (sm_db run) db'" and "\<And>sk. sk \<in> set (sm_pending run) \<Longrightarrow> read_of (sm_db run) (sk_sprint sk)"
  shows "actives_run (run\<lparr>sm_db := sprint_live sk db'\<rparr>)"
proof -
  have same: "sy_sprints (sprint_live sk db') = sy_sprints db'" by simp
  have "read_of db' (sk_sprint sk)" if "sk \<in> set (sm_pending run)" for sk using assms read_of_follows that by blast
  then show ?thesis using assms(1) by (simp add: actives_run_def actives_same [OF same] read_of_same [OF same])
qed

lemma two_guards: "(if a then Inl x else if b then Inl y else Inr z) = Inr w \<Longrightarrow> w = z"
  by (simp split: if_splits)

lemma created_planned: "sprint_create_check to_num context key body db = Inr ps \<Longrightarrow> sn_state (snd ps) = Sprint_Planned"
  unfolding sprint_create_check_def bind_result_eq_Inr Let_def by (elim exE conjE) (simp only: split_beta, drule two_guards, simp)

lemma one_active_snoc:
  assumes "one_active ss" and "sn_state s \<noteq> Sprint_Active"
  shows "one_active (ss @ [s])"
  unfolding one_active_def
proof (intro ballI impI)
  fix x y assume "x \<in> set (ss @ [s])" "y \<in> set (ss @ [s])" and a: "sn_state x = Sprint_Active \<and> sn_state y = Sprint_Active \<and> sn_projectId x = sn_projectId y"
  then have "x \<in> set ss" "y \<in> set ss" using assms(2) by force+
  with a assms(1) show "sn_id x = sn_id y" unfolding one_active_def by blast
qed

lemma create_row:
  assumes "sprints_POST to_num new context key body db = Inr db'"
  obtains s where "sn_id s = new" "sn_state s = Sprint_Planned" "sy_sprints db' = sy_sprints db @ [s]" "sy_issues db' = sy_issues db"
proof -
  obtain p s0 where c: "sprint_create_check to_num context key body db = Inr (p, s0)" and d: "db' = sprint_create_commit new (p, s0) db"
    using assms unfolding sprints_POST_def bind_result_eq_Inr by auto
  show ?thesis by (rule that [of "s0\<lparr>sn_id := new\<rparr>"]) (simp_all add: created_planned [OF c, simplified] d sprint_create_commit_def)
qed

lemma create_actives:
  assumes "sprints_POST to_num new context key body db = Inr db'" and "actives_ok db" and "new \<notin> sn_id ` set (sy_sprints db)"
  shows "actives_ok db' \<and> (\<forall>s. read_of db s \<longrightarrow> sn_id s \<noteq> new \<longrightarrow> read_of db' s)"
proof -
  obtain s where s: "sn_id s = new" "sn_state s = Sprint_Planned" and db': "sy_sprints db' = sy_sprints db @ [s]"
    by (rule create_row [OF assms(1)])
  have "one_active (sy_sprints db')" unfolding db' using assms(2) by (intro one_active_snoc) (simp_all add: s actives_ok_def)
  moreover have "distinct (map sn_id (sy_sprints db'))" using assms(2,3) s(1) by (simp add: db' actives_ok_def)
  moreover have "read_of db' s'" if "read_of db s'" "sn_id s' \<noteq> new" for s'
    using that s(1) unfolding read_of_def db' set_append by fastforce
  ultimately show ?thesis by (simp add: actives_ok_def)
qed

lemma create_ok:
  assumes "sprints_POST to_num new context key body db = Inr db'" and "sprints_ok db" and "new \<notin> sn_id ` set (sy_sprints db) \<union> sj_sprintId ` set (sy_issues db)"
  shows "sprints_ok db' \<and> (\<forall>s. read_of db s \<longrightarrow> sn_id s \<noteq> new \<longrightarrow> read_of db' s)"
proof -
  obtain s where s: "sn_id s = new" and db': "sy_sprints db' = sy_sprints db @ [s]" "sy_issues db' = sy_issues db"
    by (rule create_row [OF assms(1)])
  have "one_open (open_ids (sy_sprints db')) (sy_issues db)"
  proof -
    have "r \<in> set (sy_issues db) \<Longrightarrow> sj_sprintId r \<in> open_ids (sy_sprints db') \<Longrightarrow> sj_sprintId r \<in> open_ids (sy_sprints db)" for r
      using assms(3) s unfolding db' open_ids_def set_append by force
    then show ?thesis using assms(2) unfolding sprints_ok_def one_open_def by blast
  qed
  then show ?thesis using create_actives [OF assms(1) sprints_actives [OF assms(2)]] assms(3) by (simp add: sprints_ok_def actives_ok_def db'(2))
qed

lemma backlog_keeps_rows:
  assumes "backlog_PATCH context key body db = Inr db'"
  shows "sy_sprints db' = sy_sprints db" "sy_issues db' = sy_issues db"
  using assms by (auto simp: backlog_PATCH_def bind_result_eq_Inr Let_def split: option.splits if_splits)

interpretation active_runs: kept "sprint_step to_num show_js" actives_run for to_num show_js
proof
  fix run :: sprint_run and e assume ok: "actives_run run"
  then have db: "actives_ok (sm_db run)" and pend: "\<And>sk. sk \<in> set (sm_pending run) \<Longrightarrow> read_of (sm_db run) (sk_sprint sk)" by (auto simp: actives_run_def)
  have written: "actives_run (run\<lparr>sm_db := sprint_live (sm_pending run ! n) db'\<rparr>)"
    if "n < length (sm_pending run)" "change_within now (sm_pending run ! n) seen (sm_db run) = Inr db'" for n now seen db'
    by (rule step_row_facts [OF change_within_actives [OF that(2) db pend] pend]) (simp_all add: that(1))
  show "actives_run (sprint_step to_num show_js e run)"
  proof (cases e)
    case (Read_Change now cx key i body)
    then show ?thesis using ok sprint_check_reads [OF _ db] by (auto simp: actives_run_def split: sum.splits)
  next
    case (Read_Delete cx key i)
    then show ?thesis using ok delete_check_reads [OF _ db] by (auto simp: actives_run_def split: sum.splits)
  next
    case (Write_Change now n)
    then show ?thesis using ok written by (cases "change_commit now (sm_pending run ! n) (sm_db run)") (simp_all add: change_commit_def)
  next
    case (Begin_Change n)
    then show ?thesis using ok by (simp add: actives_run_def)
  next
    case (Finish_Change now k)
    then show ?thesis using ok written
      by (cases "change_within now (sm_pending run ! fst (sm_begun run ! k)) (snd (sm_begun run ! k)) (sm_db run)") simp_all
  next
    case (Create_Sprint new cx key body)
    show ?thesis
    proof (cases "new \<in> sn_id ` set (sy_sprints (sm_db run)) \<union> sj_sprintId ` set (sy_issues (sm_db run)) \<union> (sn_id \<circ> sk_sprint) ` set (sm_pending run)")
      case False
      show ?thesis
      proof (cases "sprints_POST to_num new cx key body (sm_db run)")
        case (Inr db')
        have c: "actives_ok db' \<and> (\<forall>s. read_of (sm_db run) s \<longrightarrow> sn_id s \<noteq> new \<longrightarrow> read_of db' s)" by (rule create_actives [OF Inr db]) (use False in blast)
        have "read_of db' (sk_sprint sk)" if "sk \<in> set (sm_pending run)" for sk using c pend [OF that] False that by auto
        then show ?thesis using c False by (auto simp: Create_Sprint Inr actives_run_def)
      qed (use ok in \<open>simp add: Create_Sprint\<close>)
    qed (use ok in \<open>simp add: Create_Sprint\<close>)
  next
    case (Order_Backlog cx key body)
    show ?thesis
    proof (cases "backlog_PATCH cx key body (sm_db run)")
      case (Inr db')
      note s = backlog_keeps_rows(1) [OF Inr]
      then show ?thesis using ok by (simp add: Order_Backlog Inr actives_run_def actives_same [OF s] read_of_same [OF s])
    qed (use ok in \<open>simp add: Order_Backlog\<close>)
  next
    case (Change_Core core)
    then show ?thesis using ok by (simp add: actives_run_def actives_ok_def read_of_def)
  qed
qed

text \<open>The step of a run in which no write overlaps another one: what \<open>Finish_Change\<close> would do is left out.\<close>

definition overlaps :: "sprint_event \<Rightarrow> bool" where
  "overlaps e \<longleftrightarrow> (case e of Finish_Change _ _ \<Rightarrow> True | _ \<Rightarrow> False)"

definition step_alone :: "(js \<Rightarrow> jnum) \<Rightarrow> (js \<Rightarrow> string) \<Rightarrow> sprint_event \<Rightarrow> sprint_run \<Rightarrow> sprint_run" where
  "step_alone to_num show_js e run = (if overlaps e then run else sprint_step to_num show_js e run)"

lemma fold_alone: "list_all (\<lambda>e. \<not> overlaps e) es \<Longrightarrow> fold (step_alone to_num show_js) es = fold (sprint_step to_num show_js) es"
  by (induction es) (simp_all add: step_alone_def [abs_def])

interpretation sprint_runs: kept "step_alone to_num show_js" run_ok for to_num show_js
proof
  fix run :: sprint_run and e assume ok: "run_ok run"
  then have db: "sprints_ok (sm_db run)" and pend: "\<And>sk. sk \<in> set (sm_pending run) \<Longrightarrow> read_of (sm_db run) (sk_sprint sk)" by (auto simp: run_ok_def)
  have act: "actives_run run" using ok sprints_actives by (simp add: run_ok_def actives_run_def)
  then have act': "actives_run (sprint_step to_num show_js e run)" by (rule active_runs.step_inv)
  have same: "run_ok (sprint_step to_num show_js e run)"
    if "sy_issues (sm_db (sprint_step to_num show_js e run)) = sy_issues (sm_db run)" "sy_sprints (sm_db (sprint_step to_num show_js e run)) = sy_sprints (sm_db run)"
    using act' ok unfolding run_ok_def actives_run_def sprints_ok_same [OF that(2,1)] by (elim conjE) (intro conjI)
  show "run_ok (step_alone to_num show_js e run)"
  proof (cases e)
    case (Write_Change now n)
    show ?thesis
    proof (cases "n < length (sm_pending run)")
      case True
      show ?thesis
      proof (cases "change_commit now (sm_pending run ! n) (sm_db run)")
        case (Inr db')
        have "sprints_ok db' \<and> follows (sm_db run) db'" by (rule change_commit_ok [OF Inr db pend]) (simp add: True)
        then have o: "sprints_ok (sprint_live (sm_pending run ! n) db')" by (simp add: sprints_ok_def)
        have "run_ok (sprint_step to_num show_js e run)"
          using act' o by (simp add: Write_Change True Inr run_ok_def actives_run_def)
        then show ?thesis by (simp add: step_alone_def overlaps_def Write_Change)
      qed (use ok in \<open>simp add: step_alone_def Write_Change\<close>)
    qed (use ok in \<open>simp add: step_alone_def Write_Change\<close>)
  next
    case (Finish_Change now k)
    then show ?thesis using ok by (simp add: step_alone_def overlaps_def)
  next
    case (Create_Sprint new cx key body)
    show ?thesis
    proof (cases "new \<in> sn_id ` set (sy_sprints (sm_db run)) \<union> sj_sprintId ` set (sy_issues (sm_db run)) \<union> (sn_id \<circ> sk_sprint) ` set (sm_pending run)")
      case False
      show ?thesis
      proof (cases "sprints_POST to_num new cx key body (sm_db run)")
        case (Inr db')
        have c: "sprints_ok db' \<and> (\<forall>s. read_of (sm_db run) s \<longrightarrow> sn_id s \<noteq> new \<longrightarrow> read_of db' s)" by (rule create_ok [OF Inr db]) (use False in blast)
        have "read_of db' (sk_sprint sk)" if "sk \<in> set (sm_pending run)" for sk using c pend [OF that] False that by auto
        then show ?thesis using c False by (auto simp: step_alone_def overlaps_def Create_Sprint Inr run_ok_def)
      qed (use ok in \<open>simp add: step_alone_def Create_Sprint\<close>)
    qed (use ok in \<open>simp add: step_alone_def Create_Sprint\<close>)
  next
    case (Order_Backlog cx key body)
    have "run_ok (sprint_step to_num show_js e run)"
    proof (cases "backlog_PATCH cx key body (sm_db run)")
      case (Inr db')
      show ?thesis by (rule same) (simp_all add: Order_Backlog Inr backlog_keeps_rows [OF Inr])
    qed (use ok in \<open>simp add: Order_Backlog\<close>)
    then show ?thesis by (simp add: step_alone_def overlaps_def Order_Backlog)
  next
    case (Read_Change now cx key i body)
    have "run_ok (sprint_step to_num show_js e run)" by (rule same) (simp_all add: Read_Change split: sum.splits)
    then show ?thesis by (simp add: step_alone_def overlaps_def Read_Change)
  next
    case (Read_Delete cx key i)
    have "run_ok (sprint_step to_num show_js e run)" by (rule same) (simp_all add: Read_Delete split: sum.splits)
    then show ?thesis by (simp add: step_alone_def overlaps_def Read_Delete)
  next
    case (Begin_Change n)
    have "run_ok (sprint_step to_num show_js e run)" by (rule same) (simp_all add: Begin_Change)
    then show ?thesis by (simp add: step_alone_def overlaps_def Begin_Change)
  next
    case (Change_Core core)
    have "run_ok (sprint_step to_num show_js e run)" by (rule same) (simp_all add: Change_Core)
    then show ?thesis by (simp add: step_alone_def overlaps_def Change_Core)
  qed
qed



section \<open>Completing a sprint\<close>

definition placements :: "sprint_db \<Rightarrow> (string \<times> string) set" where
  "placements db = (\<lambda>r. (sj_sprintId r, sj_issueId r)) ` set (sy_issues db)"

lemma in_placements: "(a, x) \<in> placements db \<longleftrightarrow> list_ex (in_sprint a x) (sy_issues db)"
  by (auto simp: placements_def list_ex_iff in_sprint_def)

lemma placements_same: "sy_issues db' = sy_issues db \<Longrightarrow> placements db' = placements db"
  by (simp add: placements_def)

lemma carry_one_places:
  assumes "carry_one a b (x, n) db = Inr db'"
  shows "placements db' = placements db - {(a, i_id x)} \<union> {(b, i_id x)}"
proof -
  let ?g = "\<lambda>r. if in_sprint a (i_id x) r then r\<lparr>sj_sprintId := b, sj_position := n\<rparr> else r"
  let ?k = "\<lambda>r. (sj_sprintId r, sj_issueId r)"
  have db': "sy_issues db' = map ?g (sy_issues db)" and a: "(a, i_id x) \<in> placements db" and b: "(b, i_id x) \<notin> placements db"
    using assms by (auto simp: carry_one_def in_placements split: if_splits)
  have k: "?k (?g r) = (if ?k r = (a, i_id x) then (b, i_id x) else ?k r)" for r by (auto simp: in_sprint_def)
  have "placements db' = (\<lambda>q. if q = (a, i_id x) then (b, i_id x) else q) ` placements db"
    unfolding placements_def db' set_map image_image k ..
  then show ?thesis using a by auto
qed

lemma carry_fold_places:
  "fold_result (carry_one a b) rows db = Inr db' \<Longrightarrow> a \<noteq> b \<Longrightarrow>
     placements db' = placements db - {a} \<times> (i_id \<circ> fst) ` set rows \<union> {b} \<times> (i_id \<circ> fst) ` set rows"
proof (induction rows arbitrary: db)
  case (Cons row rows)
  obtain x n where row: "row = (x, n)" by fastforce
  then obtain db1 where one: "carry_one a b (x, n) db = Inr db1" and rest: "fold_result (carry_one a b) rows db1 = Inr db'"
    using Cons.prems(1) by (auto simp: bind_result_eq_Inr)
  show ?case unfolding Cons.IH [OF rest Cons.prems(2)] carry_one_places [OF one] row using Cons.prems(2) by auto
qed simp

lemma carry_over_snapshots:
  assumes "carry_over s d unfinished db = Inr db'"
  shows "sy_snapshots db' = sy_snapshots db"
proof (cases d)
  case (Some x)
  let ?rows = "zip unfinished (map (\<lambda>n. next_position (positions_in (sn_id x) db) + int n) [0..<length unfinished])"
  have "fold_result (carry_one (sn_id s) (sn_id x)) ?rows db = Inr db'"
    using assms(1) Some by (simp add: carry_over_def Let_def split: if_splits)
  then show ?thesis
    by (rule fold_result_invariant) (auto simp: carry_one_def split: if_splits)
qed (use assms in \<open>auto simp: carry_over_def\<close>)

lemma carry_over_places:
  assumes "carry_over s d unfinished db = Inr db'" and "\<And>x. d = Some x \<Longrightarrow> sn_id x \<noteq> sn_id s"
  shows "placements db' = placements db - {sn_id s} \<times> i_id ` set unfinished \<union> (case d of None \<Rightarrow> {} | Some x \<Rightarrow> {sn_id x} \<times> i_id ` set unfinished)"
proof (cases d)
  case None
  then have "sy_issues db' = filter (\<lambda>r. \<not> (sj_sprintId r = sn_id s \<and> sj_issueId r \<in> i_id ` set unfinished)) (sy_issues db)"
    using assms(1) by (auto simp: carry_over_def)
  then show ?thesis using None by (auto simp: placements_def)
next
  case (Some x)
  let ?rows = "zip unfinished (map (\<lambda>n. next_position (positions_in (sn_id x) db) + int n) [0..<length unfinished])"
  have f: "fold_result (carry_one (sn_id s) (sn_id x)) ?rows db = Inr db'"
    using assms(1) Some by (simp add: carry_over_def Let_def split: if_splits)
  have "fst ` set ?rows = set unfinished" unfolding set_map [symmetric] by simp
  then have "(i_id \<circ> fst) ` set ?rows = i_id ` set unfinished" by (metis image_comp)
  with carry_fold_places [OF f] assms(2) [OF Some] show ?thesis by (simp add: Some)
qed

text \<open>What the commit of a completion writes.\<close>

lemma complete_commit_writes:
  assumes "complete_commit now p s d rows db = Inr db'" and "\<And>x. d = Some x \<Longrightarrow> sn_id x \<noteq> sn_id s"
  defines "finished \<equiv> map fst (filter snd rows)" and "unfinished \<equiv> i_id ` fst ` {r \<in> set rows. \<not> snd r}"
  shows "sy_snapshots db' = sy_snapshots db @ map (snapshot_of p s) rows"
    and "\<exists>x\<in>set (sy_sprints db'). sn_id x = sn_id s \<and> sn_state x = Sprint_Completed \<and> sn_issueCounts x = Some (length rows, length finished)
      \<and> sn_estimates x = Some (estimate_total (map fst rows), estimate_total finished)"
    and "placements db' = placements db - {sn_id s} \<times> unfinished \<union> (case d of None \<Rightarrow> {} | Some x \<Rightarrow> {sn_id x} \<times> unfinished)"
proof -
  let ?f = "\<lambda>x. x\<lparr>sn_state := Sprint_Completed, sn_endsAt := Some now, sn_completedAt := Some now, sn_issueCounts := Some (length rows, length finished),
    sn_estimates := Some (estimate_total (map fst rows), estimate_total finished)\<rparr>"
  let ?db0 = "db\<lparr>sy_snapshots := sy_snapshots db @ map (snapshot_of p s) rows\<rparr>"
  obtain db1 where c: "carry_over s d (map fst (filter (\<lambda>r. \<not> snd r) rows)) ?db0 = Inr db1" and b: "bump s ?f db1 = Inr db'"
    using assms(1) unfolding finished_def by (auto simp: complete_commit_def Let_def bind_result_eq_Inr split: if_splits)
  have "sy_snapshots db1 = sy_snapshots ?db0"
    by (rule carry_over_snapshots [OF c])
  then show "sy_snapshots db' = sy_snapshots db @ map (snapshot_of p s) rows" by (simp add: bump_ok(5) [OF b])
  obtain x where x: "x \<in> set (sy_sprints db1)" "sn_id x = sn_id s" "sn_version x = sn_version s" using bump_ok(1) [OF b] by blast
  show "\<exists>x\<in>set (sy_sprints db'). sn_id x = sn_id s \<and> sn_state x = Sprint_Completed \<and> sn_issueCounts x = Some (length rows, length finished)
      \<and> sn_estimates x = Some (estimate_total (map fst rows), estimate_total finished)"
    unfolding bump_ok(2) [OF b] set_map by (rule bexI [OF _ imageI [OF x(1)]]) (simp add: bumped_def x)
  have u: "i_id ` set (map fst (filter (\<lambda>r. \<not> snd r) rows)) = unfinished" by (simp add: unfinished_def)
  show "placements db' = placements db - {sn_id s} \<times> unfinished \<union> (case d of None \<Rightarrow> {} | Some x \<Rightarrow> {sn_id x} \<times> unfinished)"
    using carry_over_places [OF c assms(2)] unfolding u placements_same [OF bump_ok(3) [OF b]] by (simp add: placements_same [of ?db0 db])
qed


definition unfinished_in :: "sprint_db \<Rightarrow> string \<Rightarrow> string set" where
  "unfinished_in db i = i_id ` {x \<in> set (issues_in db i). category_in db x \<noteq> Some Done}"

definition destination_id :: "jobj \<Rightarrow> string option" where
  "destination_id body = (case as_string (field ''destination'' body) of None \<Rightarrow> None | Some d \<Rightarrow> if d = ''backlog'' then None else Some d)"

lemma complete_check_ok:
  assumes "complete_check body s db = Inr c"
  obtains d where "c = Sprint_Complete d (map (\<lambda>x. (x, category_in db x = Some Done)) (issues_in db (sn_id s)))" and "sn_state s = Sprint_Active"
    and "map_option sn_id d = destination_id body" and "\<forall>x. d = Some x \<longrightarrow> x \<in> set (sy_sprints db) \<and> sn_state x = Sprint_Planned"
proof -
  define d where "d = Option.bind (destination_id body) (\<lambda>d. find (\<lambda>x. sn_id x = d \<and> sn_projectId x = sn_projectId s \<and> sn_state x = Sprint_Planned) (sy_sprints db))"
  have c: "c = Sprint_Complete d (map (\<lambda>x. (x, category_in db x = Some Done)) (issues_in db (sn_id s)))" "sn_state s = Sprint_Active" "\<not> (destination_id body \<noteq> None \<and> d = None)"
    using assms unfolding complete_check_def Let_def d_def destination_id_def [symmetric] by (simp_all split: if_splits)
  show thesis
  proof (rule that [OF c(1,2)])
    show "\<forall>x. d = Some x \<longrightarrow> x \<in> set (sy_sprints db) \<and> sn_state x = Sprint_Planned"
      unfolding d_def by (auto simp: bind_eq_Some_conv dest: find_SomeD)
    show "map_option sn_id d = destination_id body"
      using c(3) unfolding d_def by (cases "destination_id body") (auto dest: find_SomeD)
  qed
qed

text \<open>
  C32: Completing a sprint stores a snapshot and the totals of exactly its issues, takes exactly the unfinished ones out of
  it and puts them in the named future sprint, or in the backlog when none is named. No other issue changes its sprint.
\<close>

theorem completion_accounts_for_all:
  assumes "sprint_PATCH to_num show_js now context key i body db = Inr db'" and "field ''action'' body = JStr ''complete''" and "distinct (map sn_id (sy_sprints db))"
  shows "\<exists>p s. managed_sprint context key i db = Inr (p, s)
    \<and> sy_snapshots db' = sy_snapshots db @ map (\<lambda>x. snapshot_of p s (x, category_in db x = Some Done)) (issues_in db i)
    \<and> (\<exists>x\<in>set (sy_sprints db'). sn_id x = i \<and> sn_state x = Sprint_Completed
        \<and> sn_issueCounts x = Some (length (issues_in db i), length (filter (\<lambda>x. category_in db x = Some Done) (issues_in db i)))
        \<and> sn_estimates x = Some (estimate_total (issues_in db i), estimate_total (filter (\<lambda>x. category_in db x = Some Done) (issues_in db i))))
    \<and> placements db' = placements db - {i} \<times> unfinished_in db i \<union> (case destination_id body of None \<Rightarrow> {} | Some d \<Rightarrow> {d} \<times> unfinished_in db i)"
proof -
  obtain sk where ck: "sprint_check to_num show_js now context key i body db = Inr sk" and r: "map_sum id (sprint_live sk) (change_commit now sk db) = Inr db'"
    using assms(1) unfolding sprint_PATCH_def bind_result_eq_Inr by blast
  obtain db1 where cm: "change_commit now sk db = Inr db1" and db': "db' = sprint_live sk db1" using r by (cases "change_commit now sk db") auto
  obtain p s c where m: "managed_sprint context key i db = Inr (p, s)" and a: "sprint_action to_num show_js now body s db = Inr c" and sk: "sk = \<lparr>sk_project = p, sk_sprint = s, sk_change = c\<rparr>"
    using ck unfolding sprint_check_def bind_result_eq_Inr by (auto simp: bind_result_eq_Inr split: if_splits)
  have s: "s \<in> set (sy_sprints db)" "sn_id s = i" using managed_sprint_ok [OF m] by simp_all
  have "complete_check body s db = Inr c" using a assms(2) by (simp add: sprint_action_def)
  then obtain d where c: "c = Sprint_Complete d (map (\<lambda>x. (x, category_in db x = Some Done)) (issues_in db (sn_id s)))" and act: "sn_state s = Sprint_Active"
    and d: "map_option sn_id d = destination_id body" and dp: "\<forall>x. d = Some x \<longrightarrow> x \<in> set (sy_sprints db) \<and> sn_state x = Sprint_Planned"
    by (rule complete_check_ok)
  have other: "sn_id x \<noteq> sn_id s" if "d = Some x" for x
    using dp that act s(1) assms(3) unfolding distinct_map inj_on_def by force
  let ?rows = "map (\<lambda>x. (x, category_in db x = Some Done)) (issues_in db i)"
  have w: "complete_commit now p s d ?rows db = Inr db1" using cm by (simp add: change_commit_def change_within_def sk c s)
  have f: "map fst (filter snd ?rows) = filter (\<lambda>x. category_in db x = Some Done) (issues_in db i)" "map fst ?rows = issues_in db i"
    by (simp_all add: filter_map o_def)
  have u: "i_id ` fst ` {r \<in> set ?rows. \<not> snd r} = unfinished_in db i" by (force simp: unfinished_in_def)
  have e: "(case d of None \<Rightarrow> {} | Some x \<Rightarrow> {sn_id x} \<times> unfinished_in db i) = (case destination_id body of None \<Rightarrow> {} | Some d \<Rightarrow> {d} \<times> unfinished_in db i)"
    unfolding d [symmetric] by (cases d) simp_all
  have l: "sy_snapshots db' = sy_snapshots db1" "sy_sprints db' = sy_sprints db1" "placements db' = placements db1"
    unfolding db' by (simp_all add: sprint_live_def Let_def placements_def)
  show ?thesis
    using m complete_commit_writes [OF w other] unfolding l f u e s(2) length_map by (intro exI [of _ p] exI [of _ s]) (simp add: o_def)
qed


section \<open>A sample\<close>

definition sample_sprint :: "string \<Rightarrow> sprint_state \<Rightarrow> int \<Rightarrow> sprint" where
  "sample_sprint i state position = \<lparr>sn_id = i, sn_projectId = ''p'', sn_name = i, sn_goal = None, sn_state = state, sn_startsAt = None, sn_endsAt = None,
     sn_completedAt = None, sn_issueCounts = None, sn_estimates = None, sn_capacityTarget = None, sn_position = position, sn_version = 1\<rparr>"

definition sample_sprints :: sprint_db where
  "sample_sprints = \<lparr>sy_core = board_core, sy_config = team_config, sy_outbox = empty_outbox,
     sy_sprints = [sample_sprint ''a'' Sprint_Active 0, sample_sprint ''b'' Sprint_Planned 0, sample_sprint ''c'' Sprint_Planned 1],
     sy_issues = [\<lparr>sj_sprintId = ''a'', sj_issueId = ''i1'', sj_position = 0\<rparr>], sy_snapshots = [], sy_history = []\<rparr>"

lemmas sprint_sample_defs = sample_sprints_def sample_sprint_def board_core_def sample_defs

definition completion :: jobj where
  "completion = [(''action'', JStr ''complete''), (''version'', JInt 1), (''destination'', JStr ''c'')]"

definition start_body :: jobj where
  "start_body = [(''action'', JStr ''start''), (''version'', JInt 1)]"

definition completed_sample :: sprint_db where
  "completed_sample = outcome (sprint_PATCH (\<lambda>_. NaN) (\<lambda>_. []) 7 (Some amy) ''WEB'' ''a'' completion sample_sprints) sample_sprints"

lemma completion_runs: "isl (sprint_PATCH (\<lambda>_. NaN) (\<lambda>_. []) 7 (Some amy) ''WEB'' ''a'' completion sample_sprints) = False"
  by code_simp

theorem completion_accounts_for_all_witness:
  "placements completed_sample = {(''c'', ''i1'')}"
proof -
  have run: "sprint_PATCH (\<lambda>_. NaN) (\<lambda>_. []) 7 (Some amy) ''WEB'' ''a'' completion sample_sprints = Inr completed_sample"
    unfolding completed_sample_def by (rule outcome [OF completion_runs])
  have u: "unfinished_in sample_sprints ''a'' = {''i1''}" "placements sample_sprints = {(''a'', ''i1'')}" "destination_id completion = Some ''c''"
    by code_simp+
  have "field ''action'' completion = JStr ''complete''" "distinct (map sn_id (sy_sprints sample_sprints))"
    by (simp_all add: completion_def field_def sample_sprints_def sample_sprint_def)
  then show ?thesis
    using completion_accounts_for_all [OF run] unfolding u by auto
qed

text \<open>Two requests read sprints that may be started; the second write is refused.\<close>

definition rival_starts :: "sprint_event list" where
  "rival_starts = [Read_Change 5 (Some amy) ''WEB'' ''b'' start_body, Read_Change 5 (Some amy) ''WEB'' ''c'' start_body, Read_Change 5 (Some amy) ''WEB'' ''a'' completion,
     Write_Change 6 2, Write_Change 7 0, Write_Change 8 1]"

definition rival_run :: sprint_run where
  "rival_run = fold (sprint_step (\<lambda>_. NaN) (\<lambda>_. [])) rival_starts \<lparr>sm_db = sample_sprints, sm_pending = [], sm_begun = []\<rparr>"

lemma rival_run_states: "map (\<lambda>s. (sn_id s, sn_projectId s, sn_state s)) (sy_sprints (sm_db rival_run))
    = [(''a'', ''p'', Sprint_Completed), (''b'', ''p'', Sprint_Active), (''c'', ''p'', Sprint_Planned)]"
  by code_simp

lemma sample_run_ok: "run_ok \<lparr>sm_db = sample_sprints, sm_pending = [], sm_begun = []\<rparr>"
  by (simp add: run_ok_def sprints_ok_def one_active_def one_open_def sample_sprints_def sample_sprint_def)


text \<open>Two additions of the issue of the backlog, to the two planned sprints, whose transactions overlap.\<close>

definition add_body :: jobj where
  "add_body = [(''action'', JStr ''add''), (''version'', JInt 1), (''issueId'', JStr ''i1'')]"

definition rival_adds :: "sprint_event list" where
  "rival_adds = [Read_Change 5 (Some amy) ''WEB'' ''b'' add_body, Read_Change 5 (Some amy) ''WEB'' ''c'' add_body,
     Begin_Change 0, Begin_Change 1, Finish_Change 6 0, Finish_Change 7 1]"

definition backlog_sprints :: sprint_db where
  "backlog_sprints = sample_sprints\<lparr>sy_issues := []\<rparr>"

definition adds_run :: sprint_run where
  "adds_run = fold (sprint_step (\<lambda>_. NaN) (\<lambda>_. [])) rival_adds \<lparr>sm_db = backlog_sprints, sm_pending = [], sm_begun = []\<rparr>"

text \<open>
  C31: Additions that overlap escape the rule: each transaction locks the row of its own sprint only, and neither
  deletion sees the row the other one inserts, so the issue is in two open sprints afterwards.
\<close>

theorem overlapping_adds_share_issue:
  "run_ok \<lparr>sm_db = backlog_sprints, sm_pending = [], sm_begun = []\<rparr>
   \<and> map row_key (sy_issues (sm_db adds_run)) = [(''b'', ''i1''), (''c'', ''i1'')]
   \<and> {''b'', ''c''} \<subseteq> open_ids (sy_sprints (sm_db adds_run))"
proof (intro conjI)
  show "run_ok \<lparr>sm_db = backlog_sprints, sm_pending = [], sm_begun = []\<rparr>"
    by (simp add: run_ok_def sprints_ok_def one_active_def one_open_def backlog_sprints_def sample_sprints_def sample_sprint_def)
  show "map row_key (sy_issues (sm_db adds_run)) = [(''b'', ''i1''), (''c'', ''i1'')]" by code_simp
  show "{''b'', ''c''} \<subseteq> open_ids (sy_sprints (sm_db adds_run))" by code_simp
qed

text \<open>The page of the sprints shows an issue that its security level hides from the reader.\<close>

definition tom :: auth_context where
  "tom = \<lparr>cx_userId = ''tom'', cx_workspaceId = ''w'', cx_role = WMember\<rparr>"

definition hidden_sprints :: sprint_db where
  "hidden_sprints = sample_sprints\<lparr>sy_core := sample_db\<lparr>db_projectMembers := [\<lparr>pm_projectId = ''p'', pm_userId = ''tom'', pm_role = PMember\<rparr>]\<rparr>\<rparr>"

lemma sprint_page_ignores_security:
  "\<not> canViewIssue (sy_core hidden_sprints) tom ''i1''"
  "map_sum id (\<lambda>(backlog, sprints). map i_id (concat (map sw_issues sprints))) (sprints_GET (Some tom) ''WEB'' hidden_sprints) = Inr [''i1'']"
  by code_simp+

end
