(* ===== verification/Spec2Isabelle.thy ===== *)
theory Spec2Isabelle
  imports Accounts AdvancedQuery AuditChain Csv CustomFields DependencyGraph Hierarchy Intake IssueMapper Issues Memberships Outbox PasswordReset Permissions PlanningLevels
    Plans PortalAuth RateLimit Retention Saml Scim ServiceForms Sessions SingleUse ServiceQueues SlaAdmin SlaWorker Sprints Workflow
begin

text \<open>
  Planeo, an issue tracker with service management: a model of its core logic.

  The program is a Next.js application. Route handlers under \<open>src/app/api\<close> authenticate a request
  (\<open>src/lib/auth.ts\<close> for staff, \<open>src/lib/portal-auth.ts\<close> for customers), check permissions
  (\<open>src/lib/permissions.ts\<close>), validate the body and change a PostgreSQL database through Prisma.
  The library \<open>src/lib\<close> holds the rules.

  Conventions: a table is the list of its rows, a \<open>where\<close> clause a predicate; a transaction is one
  function on the database, and where the code reads before its transaction the check and the
  commit are separate definitions. Times are milliseconds. Strings are sequences of 8-bit
  characters. Every throw is a value of a sum type. Hashes, HMACs, random tokens and third-party
  parsers are parameters.

  \<^item> \<open>Prelude\<close>: results, JavaScript strings, the contract \<open>kept\<close> of a state machine with an invariant.
  \<^item> \<open>JsValue\<close>: values of type \<open>unknown\<close>. \<open>Dates\<close>: calendar dates. \<open>Store\<close>: rows of the workspace.
  \<^item> \<open>Permissions\<close>: \<open>permissions.ts\<close>; who may do what and who sees which issue.
  \<^item> \<open>ParentChain\<close>, \<open>Hierarchy\<close>: \<open>hierarchy.ts\<close>; parent pointers stay acyclic, also when checks and
    commits of concurrent requests interleave.
  \<^item> \<open>DependencyGraph\<close>: \<open>dependency-graph.ts\<close>; cycle detection, longest paths.
  \<^item> \<open>AdvancedQuery\<close>: \<open>advanced-query.ts\<close>; the fuel of the parser is three units a token and three
    more, and is never exhausted.
  \<^item> \<open>RateLimit\<close>: \<open>security.ts\<close>, \<open>proxy.ts\<close>.
  \<^item> \<open>AuditChain\<close>, \<open>Retention\<close>: \<open>audit.ts\<close>, \<open>retention.ts\<close>.
  \<^item> \<open>SingleUse\<close>: the contract of one-time credentials. \<open>Sessions\<close>: \<open>auth.ts\<close> and its policy.
  \<^item> \<open>Saml\<close>: \<open>saml.ts\<close> and the login callback; relay states, replay, just-in-time provisioning.
  \<^item> \<open>Workflow\<close>: \<open>workflow.ts\<close> and \<open>projects/[key]/workflow\<close>; statuses, columns, drafts, the transition gate.
  \<^item> \<open>CustomFields\<close>: \<open>custom-fields.ts\<close> and its routes. \<open>IssueMapper\<close>: \<open>issue-mapper.ts\<close>.
  \<^item> \<open>Outbox\<close>: the rows each event adds (\<open>realtime.ts\<close>, \<open>webhooks.ts\<close>, \<open>chat-integrations.ts\<close>,
    \<open>automation.ts\<close>, \<open>email.ts\<close>) and the recipients of \<open>notifications.ts\<close>.
  \<^item> \<open>Issues\<close>: \<open>api/issues\<close> and \<open>api/issues/[id]\<close>; every handler is a check on the database it read and
    a commit on the one it finds, and runs interleave them freely. \<open>PlanningLevels\<close>: how the editor and
    reparenting of the hierarchy interact.
  \<^item> \<open>PortalAuth\<close>: \<open>portal-auth.ts\<close>; sessions, tokens and visibility of customers.
  \<^item> \<open>ServiceForms\<close>: \<open>service-requests.ts\<close>; form schemas and submissions.
  \<^item> \<open>SlaEngine\<close>: \<open>ops/sla-engine.mjs\<close>; business time over a calendar is the measure of a set of instants, and
    the engine computes it day by day. The time zone database is a parameter. \<open>ServiceDesk\<close>: the tables of
    the service desk. \<open>SlaWorker\<close>: \<open>sla-signals.ts\<close>, the capture trigger and \<open>ops/sla-worker.mjs\<close>.
  \<^item> \<open>ServiceQueues\<close>: \<open>service-queues.ts\<close> and the routes of queues; filters, snapshots, bulk actions.
  \<^item> \<open>SlaAdmin\<close>: \<open>sla.ts\<close>, \<open>sla-report.ts\<close> and the routes that configure and show service levels; what
    administrators may save never stops the worker.
  \<^item> \<open>Memberships\<close>: members of workspaces and projects, invitations and their acceptance.
  \<^item> \<open>Accounts\<close>: sign-up, new projects and login; a new project can be configured at once.
  \<^item> \<open>PasswordReset\<close>: links to reset a password, each used once, and the logout.
  \<^item> \<open>Scim\<close>: \<open>scim.ts\<close>, the routes under \<open>api/scim/v2\<close> and those of the tokens; a call stays in the organization of
    its token, and changes of a group refine operations on sets.
  \<^item> \<open>Sprints\<close>: sprints and the backlog; a project has one active sprint, an issue one open sprint, and a completion
    accounts for every issue.
  \<^item> \<open>Csv\<close>: \<open>csv.ts\<close>, export and import of issues; what is written can be read, a file becomes one issue per row, and
    sending it again changes nothing.
  \<^item> \<open>Intake\<close>: request types, their published versions, uploads and submissions; every published schema can be
    read, an upload is attached once, and a new request is seen by its audience only.
  \<^item> \<open>Plans\<close>: \<open>portfolio-plan.ts\<close>, \<open>portfolio-health.ts\<close> and the routes of plans; pages, dependency insights, health
    reports and versioned edits. How the database reads a compiled query is a parameter.

  Not modelled: the React user interface, logging, encryption and storage back ends, and the delivery
  of e-mail, chat messages and webhooks to external services; they hold no state of the core.
\<close>

end
